(* ===== verification/Py_Prelude.thy ===== *)
theory Py_Prelude
  imports Main "HOL-Library.AList" "HOL-Library.Sublist" "HOL-Library.Char_ord"
    "HOL-Library.List_Lexorder"
begin

text \<open>
  The prelude of the development: Python exceptions as values, results, dictionaries as
  association lists in insertion order, the string operations the source uses, and the
  generic lemmas every component theory rests on.

  The two collections are \<open>py_defs\<close> (operations that are unfolded when a concrete input
  is evaluated) and \<open>py_simps\<close> (the rewrite rules of the results and the dictionaries).
\<close>

named_theorems py_defs
named_theorems py_simps

section \<open>Exceptions and results\<close>

text \<open>
  The exceptions the modelled code raises or catches. Those of the repository carry their
  message; the configuration dictionary that \<open>ConfigException\<close> also carries is not kept.
  \<open>OtherError\<close> stands for an exception of code outside the repository.
\<close>

datatype pyexc =
    KeyError string
  | IndexError
  | AttributeError string
  | TypeError
  | ValueError
  | ZeroDivisionError
  | ArithmeticError
  | IOError
  | OSError
  | PipelineException string
  | PollingException string
  | DefinitionException string
  | EventDefinitionException string
  | MeterDefinitionException string
  | PollsterPermanentError "string list"
  | PollsterListForbidden
  | EmptyPollstersList
  | ExtensionLoadError
  | ImportError
  | KeystoneError string
  | DeliveryFailure
  | NotImplementedError
  | UnicodeEncodeError
  | ClientSideError string
  | ProjectNotAuthorized
  | InvalidInput string
  | UnknownArgument string
  | ProcessExecutionError
  | IPMIException string
  | NodeManagerException string
  | InvalidSensorData
  | OtherError string

type_synonym 'a res = "pyexc + 'a"

text \<open>A handler that mutates its object returns the object too, also when it raises.\<close>

type_synonym ('s, 'a) sres = "'s \<times> (pyexc + 'a)"

definition bindr :: "'a res \<Rightarrow> ('a \<Rightarrow> 'b res) \<Rightarrow> 'b res" where
  "bindr m f = (case m of Inl e \<Rightarrow> Inl e | Inr a \<Rightarrow> f a)"

lemma bindr_simps [simp, py_simps]:
  "bindr (Inl e) f = Inl e"
  "bindr (Inr a) f = f a"
  by (simp_all add: bindr_def)

lemma bindr_Inr_iff: "bindr m f = Inr b \<longleftrightarrow> (\<exists>a. m = Inr a \<and> f a = Inr b)"
  by (cases m) simp_all

lemma bindr_Inl_iff: "bindr m f = Inl e \<longleftrightarrow> m = Inl e \<or> (\<exists>a. m = Inr a \<and> f a = Inl e)"
  by (cases m) auto

definition is_ok :: "'a res \<Rightarrow> bool" where
  "is_ok r = (case r of Inl _ \<Rightarrow> False | Inr _ \<Rightarrow> True)"

lemma is_ok_simps [simp, py_simps]: "is_ok (Inr a) = True" "is_ok (Inl e) = False"
  by (simp_all add: is_ok_def)

lemma is_ok_iff: "is_ok r \<longleftrightarrow> (\<exists>a. r = Inr a)"
  by (cases r) simp_all

text \<open>A comprehension whose element expression may raise: the first exception ends it.\<close>

fun mapr :: "('a \<Rightarrow> 'b res) \<Rightarrow> 'a list \<Rightarrow> 'b list res" where
  "mapr f [] = Inr []"
| "mapr f (x # xs) = bindr (f x) (\<lambda>y. bindr (mapr f xs) (\<lambda>ys. Inr (y # ys)))"

text \<open>A comprehension whose condition may raise.\<close>

fun filterr :: "('a \<Rightarrow> bool res) \<Rightarrow> 'a list \<Rightarrow> 'a list res" where
  "filterr f [] = Inr []"
| "filterr f (x # xs) =
     bindr (f x) (\<lambda>b. bindr (filterr f xs) (\<lambda>ys. Inr (if b then x # ys else ys)))"

lemma mapr_Inr: "mapr (\<lambda>x. Inr (f x)) xs = Inr (map f xs)"
  by (induction xs) simp_all

lemma mapr_Inr_length: "mapr f xs = Inr ys \<Longrightarrow> length ys = length xs"
  by (induction xs arbitrary: ys) (auto simp: bindr_Inr_iff)

lemma mapr_Inr_iff: "mapr f xs = Inr ys \<longleftrightarrow> list_all2 (\<lambda>x y. f x = Inr y) xs ys"
  by (induction xs arbitrary: ys) (auto simp: bindr_Inr_iff list_all2_Cons1)

lemma mapr_Inr_member: "mapr f xs = Inr ys \<Longrightarrow> x \<in> set xs \<Longrightarrow> \<exists>y \<in> set ys. f x = Inr y"
  by (induction xs arbitrary: ys) (auto simp: bindr_Inr_iff)

lemma mapr_Inr_source: "mapr f xs = Inr ys \<Longrightarrow> y \<in> set ys \<Longrightarrow> \<exists>x \<in> set xs. f x = Inr y"
  by (induction xs arbitrary: ys) (auto simp: bindr_Inr_iff)

lemma filterr_Inr: "filterr (\<lambda>x. Inr (p x)) xs = Inr (filter p xs)"
  by (induction xs) simp_all

lemma filterr_Inr_set: "filterr p xs = Inr ys \<Longrightarrow> set ys = {x \<in> set xs. p x = Inr True}"
  by (induction xs arbitrary: ys) (auto simp: bindr_Inr_iff split: if_splits)

lemma filterr_ok: "(\<forall>x \<in> set xs. is_ok (p x)) \<Longrightarrow> is_ok (filterr p xs)"
proof (induction xs)
  case (Cons x xs)
  then obtain b ys where "p x = Inr b" and "filterr p xs = Inr ys"
    by (auto simp: is_ok_def split: sum.splits)
  then show ?case by simp
qed simp

lemma find_append: "find P (xs @ ys) = (case find P xs of None \<Rightarrow> find P ys | Some x \<Rightarrow> Some x)"
  by (induction xs) auto

section \<open>Dictionaries\<close>

text \<open>
  A \<open>dict\<close> is an association list with distinct keys, in insertion order: assigning to a
  present key keeps its place, a new key goes to the end, as in Python from 3.7 on.
\<close>

type_synonym ('k, 'v) pydict = "('k \<times> 'v) list"

abbreviation dict_get :: "('k, 'v) pydict \<Rightarrow> 'k \<Rightarrow> 'v option" where
  "dict_get d k \<equiv> map_of d k"

abbreviation dict_set :: "'k \<Rightarrow> 'v \<Rightarrow> ('k, 'v) pydict \<Rightarrow> ('k, 'v) pydict" where
  "dict_set k v d \<equiv> AList.update k v d"

abbreviation dict_del :: "'k \<Rightarrow> ('k, 'v) pydict \<Rightarrow> ('k, 'v) pydict" where
  "dict_del k d \<equiv> AList.delete k d"

abbreviation dict_keys :: "('k, 'v) pydict \<Rightarrow> 'k list" where
  "dict_keys d \<equiv> map fst d"

definition dict_ok :: "('k, 'v) pydict \<Rightarrow> bool" where
  "dict_ok d = distinct (map fst d)"

definition dict_get_default :: "('k, 'v) pydict \<Rightarrow> 'k \<Rightarrow> 'v \<Rightarrow> 'v" where
  "dict_get_default d k v = (case map_of d k of None \<Rightarrow> v | Some w \<Rightarrow> w)"

definition dict_item :: "(string, 'v) pydict \<Rightarrow> string \<Rightarrow> 'v res" where
  "dict_item d k = (case map_of d k of None \<Rightarrow> Inl (KeyError k) | Some v \<Rightarrow> Inr v)"

text \<open>\<open>d.update(e)\<close>: the items of \<open>e\<close> assigned in order.\<close>

definition dict_update :: "('k, 'v) pydict \<Rightarrow> ('k, 'v) pydict \<Rightarrow> ('k, 'v) pydict" where
  "dict_update d e = fold (\<lambda>(k, v). AList.update k v) e d"

lemma dict_get_set: "dict_get (dict_set k v d) k' = (if k' = k then Some v else dict_get d k')"
  by (simp add: update_conv')

lemma dict_ok_set [simp, intro]: "dict_ok d \<Longrightarrow> dict_ok (dict_set k v d)"
  by (simp add: dict_ok_def distinct_update)

lemma dict_ok_del [simp, intro]: "dict_ok d \<Longrightarrow> dict_ok (dict_del k d)"
  by (simp add: dict_ok_def distinct_delete)

lemma dict_ok_Nil [simp]: "dict_ok []"
  by (simp add: dict_ok_def)

lemma dict_ok_update: "dict_ok d \<Longrightarrow> dict_ok (dict_update d e)"
  unfolding dict_update_def by (induction e arbitrary: d) auto

lemma dict_set_fresh: "k \<notin> set (dict_keys d) \<Longrightarrow> dict_set k v d = d @ [(k, v)]"
  by (induction d) auto

lemma dict_set_present_keys: "k \<in> set (dict_keys d) \<Longrightarrow> dict_keys (dict_set k v d) = dict_keys d"
  by (induction d) auto

lemma set_dict_keys_set [simp]: "set (dict_keys (dict_set k v d)) = insert k (set (dict_keys d))"
  by (induction d) auto

lemma fst_set_dict_set [simp]: "fst ` set (dict_set k v d) = insert k (fst ` set d)"
  by (simp add: dom_update)

lemma dict_get_set_idem: "dict_ok d \<Longrightarrow> dict_get d k = Some v \<Longrightarrow> dict_set k v d = d"
  by (induction d) (auto simp: dict_ok_def)

lemma dict_set_memberD: "(a, b) \<in> set (dict_set k v d) \<Longrightarrow> a = k \<and> b = v \<or> (a, b) \<in> set d"
  by (induction d) (auto split: if_splits)

lemma dict_set_member_other: "a \<noteq> k \<Longrightarrow> (a, b) \<in> set (dict_set k v d) \<longleftrightarrow> (a, b) \<in> set d"
  by (induction d) auto

lemma dict_del_member: "(a, b) \<in> set (dict_del k d) \<longleftrightarrow> a \<noteq> k \<and> (a, b) \<in> set d"
  by (auto simp: AList.delete_eq)

lemma dict_get_None_iff: "dict_get d k = None \<longleftrightarrow> k \<notin> set (dict_keys d)"
  by (simp add: map_of_eq_None_iff)

lemma dict_item_Inr_iff: "dict_item d k = Inr v \<longleftrightarrow> dict_get d k = Some v"
  by (simp add: dict_item_def split: option.splits)

lemma dict_item_Inl_iff: "dict_item d k = Inl e \<longleftrightarrow> dict_get d k = None \<and> e = KeyError k"
  by (auto simp: dict_item_def split: option.splits)

lemma dict_update_fresh:
  "distinct (dict_keys e) \<Longrightarrow> set (dict_keys d) \<inter> set (dict_keys e) = {} \<Longrightarrow>
   dict_update d e = d @ e"
proof (induction e arbitrary: d)
  case (Cons kv e)
  obtain k v where kv: "kv = (k, v)" by (cases kv)
  from Cons.prems kv have "dict_set k v d = d @ [(k, v)]"
    by (auto intro: dict_set_fresh)
  moreover from Cons.prems kv have "dict_update (d @ [(k, v)]) e = (d @ [(k, v)]) @ e"
    by (intro Cons.IH) auto
  ultimately show ?case by (simp add: dict_update_def kv)
qed (simp add: dict_update_def)

lemma dict_update_get: "dict_ok e \<Longrightarrow>
  dict_get (dict_update d e) k = (case dict_get e k of None \<Rightarrow> dict_get d k | Some v \<Rightarrow> Some v)"
proof (induction e arbitrary: d)
  case (Cons kv e)
  obtain a b where kv: "kv = (a, b)" by (cases kv)
  from Cons.prems kv have a: "map_of e a = None" and e: "dict_ok e"
    by (auto simp: dict_ok_def map_of_eq_None_iff)
  from Cons.IH [OF e, of "dict_set a b d"] a show ?case
    by (auto simp: kv dict_update_def dict_get_set split: option.splits)
qed (simp add: dict_update_def)

section \<open>Strings\<close>

text \<open>
  A Python string is a list of characters with code points below 256. \<open>str.startswith\<close>
  and \<open>str.endswith\<close> are \<^const>\<open>prefix\<close> and \<^const>\<open>suffix\<close> of the library.
\<close>

definition startswith :: "string \<Rightarrow> string \<Rightarrow> bool" where
  "startswith s p = prefix p s"

definition endswith :: "string \<Rightarrow> string \<Rightarrow> bool" where
  "endswith s p = suffix p s"

definition replace_char :: "char \<Rightarrow> char \<Rightarrow> string \<Rightarrow> string" where
  "replace_char a b s = map (\<lambda>c. if c = a then b else c) s"

text \<open>\<open>sep.join(xs)\<close>\<close>

fun join :: "string \<Rightarrow> string list \<Rightarrow> string" where
  "join sep [] = []"
| "join sep [x] = x"
| "join sep (x # y # ys) = x @ sep @ join sep (y # ys)"

text \<open>\<open>s.split(c)\<close> for a separator of one character: the result is never empty.\<close>

fun split_char :: "char \<Rightarrow> string \<Rightarrow> string list" where
  "split_char c [] = [[]]"
| "split_char c (x # xs) =
     (if x = c then [] # split_char c xs
      else (case split_char c xs of [] \<Rightarrow> [[x]] | w # ws \<Rightarrow> (x # w) # ws))"

text \<open>\<open>s.split(c, 1)\<close>, when \<open>c\<close> occurs in \<open>s\<close>: the part before and the part after.\<close>

definition split_once :: "char \<Rightarrow> string \<Rightarrow> string \<times> string" where
  "split_once c s = (takeWhile (\<lambda>x. x \<noteq> c) s, tl (dropWhile (\<lambda>x. x \<noteq> c) s))"

lemma split_char_nonempty [simp]: "split_char c s \<noteq> []"
  by (induction s) (auto split: list.splits)

lemma split_char_append: "c \<notin> set a \<Longrightarrow> split_char c (a @ c # s) = a # split_char c s"
  by (induction a) auto

lemma split_char_single: "c \<notin> set a \<Longrightarrow> split_char c a = [a]"
  by (induction a) auto

lemma join_split_char: "join [c] (split_char c s) = s"
proof (induction s)
  case (Cons x xs)
  obtain w ws where "split_char c xs = w # ws"
    by (cases "split_char c xs") auto
  with Cons show ?case by (cases ws) auto
qed simp

lemma split_once_join: "c \<in> set s \<Longrightarrow> fst (split_once c s) @ c # snd (split_once c s) = s"
  by (induction s) (auto simp: split_once_def)

lemma split_once_append:
  "c \<notin> set a \<Longrightarrow> split_once c (a @ c # b) = (a, b)"
  by (induction a) (auto simp: split_once_def)

lemma startswith_append [simp]: "startswith (p @ s) p"
  by (simp add: startswith_def)

lemma startswith_iff: "startswith s p \<longleftrightarrow> (\<exists>t. s = p @ t)"
  by (auto simp: startswith_def prefix_def)

lemma length_replace_char [simp]: "length (replace_char a b s) = length s"
  by (simp add: replace_char_def)

lemma replace_char_notin: "a \<noteq> b \<Longrightarrow> a \<notin> set (replace_char a b s)"
  by (auto simp: replace_char_def split: if_splits)

lemma replace_char_id: "a \<notin> set s \<Longrightarrow> replace_char a b s = s"
  by (induction s) (auto simp: replace_char_def)

text \<open>Decimal notation of numbers, as \<open>str(n)\<close> and \<open>'%d' % n\<close> write it.\<close>

fun digits_of_nat :: "nat \<Rightarrow> string" where
  "digits_of_nat n =
     (if n < 10 then [char_of (48 + n)] else digits_of_nat (n div 10) @ [char_of (48 + n mod 10)])"

declare digits_of_nat.simps [simp del]

definition string_of_int :: "int \<Rightarrow> string" where
  "string_of_int i =
     (if i < 0 then CHR ''-'' # digits_of_nat (nat (- i)) else digits_of_nat (nat i))"

definition digit_val :: "char \<Rightarrow> nat option" where
  "digit_val c = (let n = of_char c in if 48 \<le> n \<and> n \<le> 57 then Some (n - 48) else None)"

definition is_digit :: "char \<Rightarrow> bool" where
  "is_digit c = (digit_val c \<noteq> None)"

fun nat_of_digits :: "nat \<Rightarrow> string \<Rightarrow> nat option" where
  "nat_of_digits acc [] = Some acc"
| "nat_of_digits acc (c # cs) =
     (case digit_val c of None \<Rightarrow> None | Some d \<Rightarrow> nat_of_digits (10 * acc + d) cs)"

lemma digit_val_char_of: "n < 10 \<Longrightarrow> digit_val (char_of (48 + n)) = Some n"
  by (simp add: digit_val_def Let_def of_char_of)

lemma nat_of_digits_append:
  "nat_of_digits acc (xs @ ys) =
     (case nat_of_digits acc xs of None \<Rightarrow> None | Some a \<Rightarrow> nat_of_digits a ys)"
  by (induction xs arbitrary: acc) (auto split: option.splits)

lemma nat_of_digits_of_nat: "nat_of_digits 0 (digits_of_nat n) = Some n"
proof (induction n rule: digits_of_nat.induct)
  case (1 n)
  show ?case
  proof (cases "n < 10")
    case True
    then show ?thesis by (subst digits_of_nat.simps) (simp add: digit_val_char_of)
  next
    case False
    with "1" have "nat_of_digits 0 (digits_of_nat (n div 10)) = Some (n div 10)" by simp
    moreover have "n mod 10 < 10" by simp
    ultimately show ?thesis using False
      by (subst digits_of_nat.simps) (simp add: nat_of_digits_append digit_val_char_of)
  qed
qed

lemma digits_of_nat_inj: "digits_of_nat m = digits_of_nat n \<Longrightarrow> m = n"
  by (metis nat_of_digits_of_nat option.inject)

lemma digits_of_nat_all_digits: "c \<in> set (digits_of_nat n) \<Longrightarrow> is_digit c"
proof (induction n rule: digits_of_nat.induct)
  case (1 n)
  have d: "is_digit (char_of (48 + m))" if "m < 10" for m :: nat
    using that by (simp add: is_digit_def digit_val_char_of)
  from "1" show ?case
    by (subst (asm) digits_of_nat.simps) (auto split: if_splits intro: d)
qed

end
