(* ===== verification/Py_Value.thy ===== *)
theory Py_Value
  imports Py_Prelude Complex_Main
begin

text \<open>
  The values the program moves around: JSON-like Python values with their arithmetic,
  comparison, truth value and textual form, as Python 3 defines them. Floats are exact
  rationals with the two infinities and NaN; rounding, overflow to an infinity and the sign
  of zero are the only features of IEEE arithmetic that are left out.
\<close>

section \<open>Floats\<close>

datatype flt = Fin rat | PInf | NInf | NaN

fun f_neg :: "flt \<Rightarrow> flt" where
  "f_neg (Fin a) = Fin (- a)"
| "f_neg PInf = NInf"
| "f_neg NInf = PInf"
| "f_neg NaN = NaN"

fun f_add :: "flt \<Rightarrow> flt \<Rightarrow> flt" where
  "f_add (Fin a) (Fin b) = Fin (a + b)"
| "f_add NaN y = NaN"
| "f_add x NaN = NaN"
| "f_add PInf NInf = NaN"
| "f_add NInf PInf = NaN"
| "f_add PInf y = PInf"
| "f_add NInf y = NInf"
| "f_add x PInf = PInf"
| "f_add x NInf = NInf"

definition f_sub :: "flt \<Rightarrow> flt \<Rightarrow> flt" where
  "f_sub x y = f_add x (f_neg y)"

text \<open>The sign of a value that is not NaN.\<close>

fun f_sgn :: "flt \<Rightarrow> rat" where
  "f_sgn (Fin a) = sgn a"
| "f_sgn PInf = 1"
| "f_sgn NInf = - 1"
| "f_sgn NaN = 0"

definition f_inf :: "rat \<Rightarrow> flt" where
  "f_inf s = (if 0 < s then PInf else if s < 0 then NInf else NaN)"

fun f_mul :: "flt \<Rightarrow> flt \<Rightarrow> flt" where
  "f_mul (Fin a) (Fin b) = Fin (a * b)"
| "f_mul NaN y = NaN"
| "f_mul x NaN = NaN"
| "f_mul x y = f_inf (f_sgn x * f_sgn y)"

text \<open>Division; the divisor is not zero (\<open>py_truediv\<close> below raises first).\<close>

fun f_div :: "flt \<Rightarrow> flt \<Rightarrow> flt" where
  "f_div (Fin a) (Fin b) = Fin (a / b)"
| "f_div NaN y = NaN"
| "f_div x NaN = NaN"
| "f_div (Fin a) y = Fin 0"
| "f_div x (Fin b) = f_inf (f_sgn x * (if b < 0 then - 1 else 1))"
| "f_div x y = NaN"

fun f_less :: "flt \<Rightarrow> flt \<Rightarrow> bool" where
  "f_less (Fin a) (Fin b) = (a < b)"
| "f_less NaN y = False"
| "f_less x NaN = False"
| "f_less NInf y = (y \<noteq> NInf)"
| "f_less x PInf = (x \<noteq> PInf)"
| "f_less x y = False"

definition f_eq :: "flt \<Rightarrow> flt \<Rightarrow> bool" where
  "f_eq x y = (x = y \<and> x \<noteq> NaN)"

definition f_le :: "flt \<Rightarrow> flt \<Rightarrow> bool" where
  "f_le x y = (f_less x y \<or> f_eq x y)"

lemma f_add_comm: "f_add x y = f_add y x"
  by (cases x; cases y) simp_all

lemma f_add_zero [simp]: "f_add x (Fin 0) = x" "f_add (Fin 0) x = x"
  by (cases x; simp)+

lemma f_mul_comm: "f_mul x y = f_mul y x"
  by (cases x; cases y) (simp_all add: mult.commute)

lemma f_mul_one [simp]: "f_mul x (Fin 1) = x" "f_mul (Fin 1) x = x"
  by (cases x; simp add: f_inf_def)+

lemma f_less_irrefl [simp]: "\<not> f_less x x"
  by (cases x) simp_all

lemma f_less_trans: "f_less x y \<Longrightarrow> f_less y z \<Longrightarrow> f_less x z"
  by (cases x; cases y; cases z) simp_all

lemma f_less_linear: "x \<noteq> NaN \<Longrightarrow> y \<noteq> NaN \<Longrightarrow> f_less x y \<or> x = y \<or> f_less y x"
  by (cases x; cases y) auto

section \<open>Values\<close>

text \<open>
  \<open>PDatetime\<close> is a naive UTC \<open>datetime\<close>, in microseconds since the epoch. The keys of
  a dictionary are strings, as in the JSON and YAML documents the program handles.
\<close>

datatype pyval =
    PNone
  | PBool bool
  | PInt int
  | PFloat flt
  | PStr string
  | PBytes string
  | PDatetime int
  | PList "pyval list"
  | PTuple "pyval list"
  | PDict "(string \<times> pyval) list"

type_synonym pymap = "(string \<times> pyval) list"

text \<open>\<open>bool(v)\<close>\<close>

fun truthy :: "pyval \<Rightarrow> bool" where
  "truthy PNone = False"
| "truthy (PBool b) = b"
| "truthy (PInt i) = (i \<noteq> 0)"
| "truthy (PFloat f) = (f \<noteq> Fin 0)"
| "truthy (PStr s) = (s \<noteq> [])"
| "truthy (PBytes s) = (s \<noteq> [])"
| "truthy (PDatetime t) = True"
| "truthy (PList xs) = (xs \<noteq> [])"
| "truthy (PTuple xs) = (xs \<noteq> [])"
| "truthy (PDict d) = (d \<noteq> [])"

text \<open>\<open>a or b\<close>\<close>

definition py_or :: "pyval \<Rightarrow> pyval \<Rightarrow> pyval" where
  "py_or a b = (if truthy a then a else b)"

fun is_str :: "pyval \<Rightarrow> bool" where
  "is_str (PStr s) = True" | "is_str v = False"

fun is_list :: "pyval \<Rightarrow> bool" where
  "is_list (PList xs) = True" | "is_list v = False"

fun is_dict :: "pyval \<Rightarrow> bool" where
  "is_dict (PDict d) = True" | "is_dict v = False"

text \<open>\<open>isinstance(v, six.integer_types)\<close>: a \<open>bool\<close> is an \<open>int\<close>.\<close>

fun as_int :: "pyval \<Rightarrow> int option" where
  "as_int (PBool b) = Some (if b then 1 else 0)"
| "as_int (PInt i) = Some i"
| "as_int v = None"

fun as_num :: "pyval \<Rightarrow> flt option" where
  "as_num (PBool b) = Some (Fin (if b then 1 else 0))"
| "as_num (PInt i) = Some (Fin (of_int i))"
| "as_num (PFloat f) = Some f"
| "as_num v = None"

text \<open>\<open>isinstance(v, (int, float))\<close>\<close>

definition is_number :: "pyval \<Rightarrow> bool" where
  "is_number v = (as_num v \<noteq> None)"

lemma as_int_as_num: "as_int v = Some i \<Longrightarrow> as_num v = Some (Fin (of_int i))"
  by (cases v) auto

subsection \<open>Arithmetic\<close>

definition arith :: "(int \<Rightarrow> int \<Rightarrow> int) \<Rightarrow> (flt \<Rightarrow> flt \<Rightarrow> flt) \<Rightarrow> pyval \<Rightarrow> pyval \<Rightarrow> pyval res" where
  "arith fi ff a b =
     (case (as_int a, as_int b) of
        (Some i, Some j) \<Rightarrow> Inr (PInt (fi i j))
      | _ \<Rightarrow> (case (as_num a, as_num b) of
          (Some x, Some y) \<Rightarrow> Inr (PFloat (ff x y))
        | _ \<Rightarrow> Inl TypeError))"

definition py_add :: "pyval \<Rightarrow> pyval \<Rightarrow> pyval res" where
  "py_add a b =
     (case a of
        PStr s \<Rightarrow> (case b of PStr t \<Rightarrow> Inr (PStr (s @ t)) | _ \<Rightarrow> Inl TypeError)
      | PBytes s \<Rightarrow> (case b of PBytes t \<Rightarrow> Inr (PBytes (s @ t)) | _ \<Rightarrow> Inl TypeError)
      | PList s \<Rightarrow> (case b of PList t \<Rightarrow> Inr (PList (s @ t)) | _ \<Rightarrow> Inl TypeError)
      | PTuple s \<Rightarrow> (case b of PTuple t \<Rightarrow> Inr (PTuple (s @ t)) | _ \<Rightarrow> Inl TypeError)
      | _ \<Rightarrow> arith (+) f_add a b)"

definition py_sub :: "pyval \<Rightarrow> pyval \<Rightarrow> pyval res" where
  "py_sub a b = arith (-) f_sub a b"

text \<open>A sequence times an integer is a repetition.\<close>

definition repeat_seq :: "int \<Rightarrow> 'a list \<Rightarrow> 'a list" where
  "repeat_seq n xs = concat (replicate (nat n) xs)"

fun seq_times :: "pyval \<Rightarrow> int \<Rightarrow> pyval option" where
  "seq_times (PStr s) n = Some (PStr (repeat_seq n s))"
| "seq_times (PBytes s) n = Some (PBytes (repeat_seq n s))"
| "seq_times (PList s) n = Some (PList (repeat_seq n s))"
| "seq_times (PTuple s) n = Some (PTuple (repeat_seq n s))"
| "seq_times v n = None"

definition py_mul :: "pyval \<Rightarrow> pyval \<Rightarrow> pyval res" where
  "py_mul a b =
     (case (as_int b, as_int a) of
        (Some j, None) \<Rightarrow>
          (case seq_times a j of Some v \<Rightarrow> Inr v | None \<Rightarrow> arith (*) f_mul a b)
      | (None, Some i) \<Rightarrow>
          (case seq_times b i of Some v \<Rightarrow> Inr v | None \<Rightarrow> arith (*) f_mul a b)
      | _ \<Rightarrow> arith (*) f_mul a b)"

text \<open>\<open>a / b\<close>, true division: of two integers it is a float.\<close>

definition py_truediv :: "pyval \<Rightarrow> pyval \<Rightarrow> pyval res" where
  "py_truediv a b =
     (case (as_num a, as_num b) of
        (Some x, Some y) \<Rightarrow>
          (if y = Fin 0 then Inl ZeroDivisionError else Inr (PFloat (f_div x y)))
      | _ \<Rightarrow> Inl TypeError)"

subsection \<open>Order and equality\<close>

text \<open>\<open>a < b\<close> and \<open>a <= b\<close>: numbers with numbers, strings with strings.\<close>

definition compare_nums :: "(flt \<Rightarrow> flt \<Rightarrow> bool) \<Rightarrow> pyval \<Rightarrow> pyval \<Rightarrow> bool res" where
  "compare_nums f a b =
     (case (as_num a, as_num b) of
        (Some x, Some y) \<Rightarrow> Inr (f x y)
      | _ \<Rightarrow> Inl TypeError)"

definition py_less :: "pyval \<Rightarrow> pyval \<Rightarrow> bool res" where
  "py_less a b =
     (case a of
        PStr s \<Rightarrow> (case b of PStr t \<Rightarrow> Inr (s < t) | _ \<Rightarrow> Inl TypeError)
      | PDatetime s \<Rightarrow> (case b of PDatetime t \<Rightarrow> Inr (s < t) | _ \<Rightarrow> Inl TypeError)
      | _ \<Rightarrow> compare_nums f_less a b)"

definition py_le :: "pyval \<Rightarrow> pyval \<Rightarrow> bool res" where
  "py_le a b =
     (case a of
        PStr s \<Rightarrow> (case b of PStr t \<Rightarrow> Inr (s \<le> t) | _ \<Rightarrow> Inl TypeError)
      | PDatetime s \<Rightarrow> (case b of PDatetime t \<Rightarrow> Inr (s \<le> t) | _ \<Rightarrow> Inl TypeError)
      | _ \<Rightarrow> compare_nums f_le a b)"

text \<open>
  \<open>a == b\<close>: numbers by value, sequences item by item, dictionaries as maps.
\<close>

fun py_eq :: "pyval \<Rightarrow> pyval \<Rightarrow> bool" where
  "py_eq (PList xs) b = (case b of PList ys \<Rightarrow> list_all2 py_eq xs ys | _ \<Rightarrow> False)"
| "py_eq (PTuple xs) b = (case b of PTuple ys \<Rightarrow> list_all2 py_eq xs ys | _ \<Rightarrow> False)"
| "py_eq (PDict d) b =
     (case b of
        PDict e \<Rightarrow> length d = length e \<and>
          list_all (\<lambda>(k, v). list_ex (\<lambda>(k', w). k' = k \<and> py_eq v w) e) d
      | _ \<Rightarrow> False)"
| "py_eq PNone b = (b = PNone)"
| "py_eq (PStr s) b = (b = PStr s)"
| "py_eq (PBytes s) b = (b = PBytes s)"
| "py_eq (PDatetime t) b = (b = PDatetime t)"
| "py_eq a b = (case (as_num a, as_num b) of (Some x, Some y) \<Rightarrow> f_eq x y | _ \<Rightarrow> False)"

definition py_in :: "pyval \<Rightarrow> pyval list \<Rightarrow> bool" where
  "py_in x xs = list_ex (\<lambda>y. x = y \<or> py_eq x y) xs"

lemma py_eq_str: "py_eq x (PStr s) \<longleftrightarrow> x = PStr s"
  by (cases x) auto

text \<open>\<open>min(a, b)\<close> keeps its first argument unless the second is smaller.\<close>

definition py_min :: "pyval \<Rightarrow> pyval \<Rightarrow> pyval res" where
  "py_min a b = bindr (py_less b a) (\<lambda>lt. Inr (if lt then b else a))"

subsection \<open>Numbers from text\<close>

definition is_space :: "char \<Rightarrow> bool" where
  "is_space c = (c \<in> {CHR '' '', CHR 0x09, CHR 0x0A, CHR 0x0B, CHR 0x0C, CHR 0x0D})"

definition strip :: "string \<Rightarrow> string" where
  "strip s = rev (dropWhile is_space (rev (dropWhile is_space s)))"

definition to_lower :: "char \<Rightarrow> char" where
  "to_lower c = (let n = of_char c :: nat in if 65 \<le> n \<and> n \<le> 90 then char_of (n + 32) else c)"

definition str_lower :: "string \<Rightarrow> string" where
  "str_lower s = map to_lower s"

definition to_upper :: "char \<Rightarrow> char" where
  "to_upper c = (let n = of_char c :: nat in if 97 \<le> n \<and> n \<le> 122 then char_of (n - 32) else c)"

definition str_upper :: "string \<Rightarrow> string" where
  "str_upper s = map to_upper s"

text \<open>An optional sign, then the rest.\<close>

fun split_sign :: "string \<Rightarrow> bool \<times> string" where
  "split_sign (c # cs) =
     (if c = CHR ''-'' then (True, cs) else if c = CHR ''+'' then (False, cs) else (False, c # cs))"
| "split_sign [] = (False, [])"

text \<open>\<open>int(s)\<close> for a string: surrounding blanks, a sign, at least one decimal digit.\<close>

definition parse_int :: "string \<Rightarrow> int option" where
  "parse_int s =
     (case split_sign (strip s) of (neg, ds) \<Rightarrow>
        (if ds = [] then None
         else map_option (\<lambda>n. if neg then - int n else int n) (nat_of_digits 0 ds)))"

definition digits_value :: "string \<Rightarrow> nat" where
  "digits_value ds = (case nat_of_digits 0 ds of None \<Rightarrow> 0 | Some n \<Rightarrow> n)"

text \<open>
  The part of a float literal after the sign: digits with an optional fraction and an
  optional exponent, or one of the names of an infinity or of NaN.
\<close>

definition parse_exponent :: "string \<Rightarrow> int option" where
  "parse_exponent s =
     (case s of
        [] \<Rightarrow> Some 0
      | c # cs \<Rightarrow>
          (if c \<in> {CHR ''e'', CHR ''E''}
           then (case split_sign cs of (neg, ds) \<Rightarrow>
             (if ds \<noteq> [] \<and> list_all is_digit ds
              then Some (if neg then - int (digits_value ds) else int (digits_value ds)) else None))
           else None))"

definition pow10 :: "int \<Rightarrow> rat" where
  "pow10 e = (if 0 \<le> e then 10 ^ nat e else 1 / 10 ^ nat (- e))"

definition parse_unsigned :: "string \<Rightarrow> flt option" where
  "parse_unsigned s =
     (if str_lower s \<in> {''inf'', ''infinity''} then Some PInf
      else if str_lower s = ''nan'' then Some NaN
      else
        (let whole = takeWhile is_digit s; rest = dropWhile is_digit s;
             frac = (case rest of c # cs \<Rightarrow> (if c = CHR ''.'' then takeWhile is_digit cs else []) | [] \<Rightarrow> []);
             rest' = (case rest of c # cs \<Rightarrow> (if c = CHR ''.'' then dropWhile is_digit cs else rest) | [] \<Rightarrow> [])
         in if whole = [] \<and> frac = [] then None
            else map_option
              (\<lambda>e. Fin (of_nat (digits_value (whole @ frac)) * pow10 (e - int (length frac))))
              (parse_exponent rest')))"

definition parse_float :: "string \<Rightarrow> flt option" where
  "parse_float s =
     (case split_sign (strip s) of (neg, t) \<Rightarrow>
        map_option (\<lambda>f. if neg then f_neg f else f) (parse_unsigned t))"

text \<open>\<open>float(v)\<close> and \<open>int(v)\<close>; \<open>int\<close> of a float truncates.\<close>

definition trunc_rat :: "rat \<Rightarrow> int" where
  "trunc_rat r = (if 0 \<le> r then \<lfloor>r\<rfloor> else \<lceil>r\<rceil>)"

fun py_float :: "pyval \<Rightarrow> flt res" where
  "py_float (PStr s) = (case parse_float s of None \<Rightarrow> Inl ValueError | Some f \<Rightarrow> Inr f)"
| "py_float (PBytes s) = (case parse_float s of None \<Rightarrow> Inl ValueError | Some f \<Rightarrow> Inr f)"
| "py_float v = (case as_num v of None \<Rightarrow> Inl TypeError | Some f \<Rightarrow> Inr f)"

fun py_int :: "pyval \<Rightarrow> int res" where
  "py_int (PStr s) = (case parse_int s of None \<Rightarrow> Inl ValueError | Some i \<Rightarrow> Inr i)"
| "py_int (PBytes s) = (case parse_int s of None \<Rightarrow> Inl ValueError | Some i \<Rightarrow> Inr i)"
| "py_int (PFloat (Fin r)) = Inr (trunc_rat r)"
| "py_int (PFloat NaN) = Inl ValueError"
| "py_int (PFloat f) = Inl (OtherError ''OverflowError'')"
| "py_int v = (case as_int v of None \<Rightarrow> Inl TypeError | Some i \<Rightarrow> Inr i)"

subsection \<open>Text\<close>

text \<open>
  \<open>six.text_type(v)\<close>. The textual form of a float, a datetime or a container is the
  interpreter's \<open>repr\<close>, the parameter \<open>rp\<close>.
\<close>

fun py_str :: "(pyval \<Rightarrow> string) \<Rightarrow> pyval \<Rightarrow> string" where
  "py_str rp (PStr s) = s"
| "py_str rp (PInt i) = string_of_int i"
| "py_str rp (PBool b) = (if b then ''True'' else ''False'')"
| "py_str rp PNone = ''None''"
| "py_str rp v = rp v"

text \<open>UTF-8 of the characters in use (code points below 256), and its inverse.\<close>

fun utf8_encode :: "string \<Rightarrow> string" where
  "utf8_encode [] = []"
| "utf8_encode (c # cs) =
     (let n = of_char c :: nat in
      if n < 128 then c # utf8_encode cs
      else char_of (192 + n div 64) # char_of (128 + n mod 64) # utf8_encode cs)"

fun utf8_decode :: "string \<Rightarrow> string res" where
  "utf8_decode [] = Inr []"
| "utf8_decode [c] = (if (of_char c :: nat) < 128 then Inr [c] else Inl ValueError)"
| "utf8_decode (c # d # cs) =
     (let n = of_char c :: nat; m = of_char d :: nat in
      if n < 128 then bindr (utf8_decode (d # cs)) (\<lambda>r. Inr (c # r))
      else if 194 \<le> n \<and> n < 196 \<and> 128 \<le> m \<and> m < 192
      then bindr (utf8_decode cs) (\<lambda>r. Inr (char_of ((n - 192) * 64 + (m - 128)) # r))
      else Inl ValueError)"

lemma utf8_decode_ascii: "(of_char c :: nat) < 128 \<Longrightarrow>
    utf8_decode (c # cs) = bindr (utf8_decode cs) (\<lambda>r. Inr (c # r))"
  by (cases cs) simp_all

lemma utf8_roundtrip: "utf8_decode (utf8_encode s) = Inr s"
proof (induction s)
  case (Cons c s)
  let ?n = "of_char c :: nat"
  have n: "?n < 256" by simp
  show ?case
  proof (cases "?n < 128")
    case True
    then show ?thesis using Cons by (simp add: utf8_decode_ascii Let_def)
  next
    case False
    have "192 + ?n div 64 < (256::nat)" "128 + ?n mod 64 < (256::nat)" using n by linarith+
    then have "(of_char (char_of (192 + ?n div 64) :: char) :: nat) = 192 + ?n div 64"
      and "(of_char (char_of (128 + ?n mod 64) :: char) :: nat) = 128 + ?n mod 64"
      by simp_all
    moreover have "2 \<le> ?n div 64" "?n div 64 < 4" "?n mod 64 < 64"
      using False n by linarith+
    moreover have "?n div 64 * 64 + ?n mod 64 = ?n" by simp
    ultimately show ?thesis using False Cons by (simp add: Let_def)
  qed
qed simp

subsection \<open>Facts about the operations\<close>

lemma py_sub_ints [simp]: "py_sub (PInt a) (PInt b) = Inr (PInt (a - b))"
  by (simp add: py_sub_def arith_def)

lemma arith_numbers:
  "is_number a \<Longrightarrow> is_number b \<Longrightarrow> \<exists>v. arith fi ff a b = Inr v \<and> is_number v"
  by (cases a; cases b) (auto simp: arith_def is_number_def)

lemma py_add_numbers:
  "is_number a \<Longrightarrow> is_number b \<Longrightarrow> \<exists>v. py_add a b = Inr v \<and> is_number v"
  by (cases a; cases b) (auto simp: py_add_def arith_def is_number_def)

lemma py_sub_numbers:
  "is_number a \<Longrightarrow> is_number b \<Longrightarrow> \<exists>v. py_sub a b = Inr v \<and> is_number v"
  by (simp add: py_sub_def arith_numbers)

lemma py_mul_numbers:
  "is_number a \<Longrightarrow> is_number b \<Longrightarrow> \<exists>v. py_mul a b = Inr v \<and> is_number v"
  by (cases a; cases b) (auto simp: py_mul_def arith_def is_number_def)

lemma py_truediv_numbers:
  "is_number a \<Longrightarrow> is_number b \<Longrightarrow> as_num b \<noteq> Some (Fin 0) \<Longrightarrow>
   \<exists>v. py_truediv a b = Inr v \<and> is_number v"
  by (auto simp: py_truediv_def is_number_def)

lemma py_less_numbers:
  "is_number a \<Longrightarrow> is_number b \<Longrightarrow> \<exists>t. py_less a b = Inr t"
  by (cases a; cases b) (auto simp: py_less_def compare_nums_def is_number_def)

lemma py_le_numbers:
  "is_number a \<Longrightarrow> is_number b \<Longrightarrow> \<exists>t. py_le a b = Inr t"
  by (cases a; cases b) (auto simp: py_le_def compare_nums_def is_number_def)

lemma py_min_numbers:
  "is_number a \<Longrightarrow> is_number b \<Longrightarrow> \<exists>v. py_min a b = Inr v \<and> is_number v"
  using py_less_numbers [of b a] by (auto simp: py_min_def)

lemma py_min_le:
  assumes "as_num a = Some x" "as_num b = Some y" "x \<noteq> NaN" "y \<noteq> NaN"
  shows "\<exists>v z. py_min a b = Inr v \<and> as_num v = Some z \<and> f_le z y"
proof -
  have lt: "py_less b a = Inr (f_less y x)"
    using assms by (cases a; cases b) (auto simp: py_less_def compare_nums_def)
  show ?thesis
  proof (cases "f_less y x")
    case True
    then show ?thesis using assms lt by (auto simp: py_min_def f_le_def f_eq_def)
  next
    case False
    with f_less_linear [OF assms(3,4)] have "f_less x y \<or> x = y" by auto
    then show ?thesis using assms lt False by (auto simp: py_min_def f_le_def f_eq_def)
  qed
qed

end
