(* ===== verification/Py_Dynamic.thy ===== *)
theory Py_Dynamic
  imports Py_Value
begin

text \<open>
  Operations whose meaning depends on the run-time type of a value: iteration, length,
  subscripts, containment, hashing, and splitting of text. A configuration file or a
  notification can hold any value, and the code that reads them meets the exceptions of these
  operations.
\<close>

section \<open>Containers\<close>

fun hashable :: "pyval \<Rightarrow> bool" where
  "hashable (PList xs) = False"
| "hashable (PDict d) = False"
| "hashable (PTuple xs) = list_all hashable xs"
| "hashable v = True"

text \<open>\<open>for x in v\<close>: the elements, the characters of a string, the keys of a dictionary.\<close>

definition py_iter :: "pyval \<Rightarrow> pyval list res" where
  "py_iter v =
     (case v of
        PList xs \<Rightarrow> Inr xs
      | PTuple xs \<Rightarrow> Inr xs
      | PStr s \<Rightarrow> Inr (map (\<lambda>c. PStr [c]) s)
      | PBytes s \<Rightarrow> Inr (map (\<lambda>c. PInt (of_char c)) s)
      | PDict d \<Rightarrow> Inr (map (\<lambda>(k, w). PStr k) d)
      | _ \<Rightarrow> Inl TypeError)"

definition py_len :: "pyval \<Rightarrow> nat res" where
  "py_len v = bindr (py_iter v) (\<lambda>xs. Inr (length xs))"

text \<open>\<open>xs[i]\<close>: a negative index counts from the end.\<close>

definition list_index :: "'a list \<Rightarrow> int \<Rightarrow> 'a res" where
  "list_index xs i =
     (let n = int (length xs); j = (if i < 0 then i + n else i)
      in if 0 \<le> j \<and> j < n then Inr (xs ! nat j) else Inl IndexError)"

definition py_getitem :: "pyval \<Rightarrow> pyval \<Rightarrow> pyval res" where
  "py_getitem v k =
     (case v of
        PDict d \<Rightarrow>
          (case k of
             PStr s \<Rightarrow> dict_item d s
           | _ \<Rightarrow> Inl (if hashable k then KeyError [] else TypeError))
      | PNone \<Rightarrow> Inl TypeError
      | PBool b \<Rightarrow> Inl TypeError
      | PInt i \<Rightarrow> Inl TypeError
      | PFloat f \<Rightarrow> Inl TypeError
      | PDatetime t \<Rightarrow> Inl TypeError
      | _ \<Rightarrow>
          (case as_int k of
             None \<Rightarrow> Inl TypeError
           | Some i \<Rightarrow> bindr (py_iter v) (\<lambda>xs. list_index xs i)))"

text \<open>\<open>v.get(k)\<close> and \<open>v.get(k, d)\<close> with a literal key: only a dictionary has the method.\<close>

definition py_get :: "pyval \<Rightarrow> string \<Rightarrow> pyval \<Rightarrow> pyval res" where
  "py_get v k d =
     (case v of PDict m \<Rightarrow> Inr (dict_get_default m k d) | _ \<Rightarrow> Inl (AttributeError ''get''))"

definition contains :: "string \<Rightarrow> string \<Rightarrow> bool" where
  "contains s sub = sublist sub s"

text \<open>\<open>k in v\<close> for a string \<open>k\<close>\<close>

definition py_contains :: "pyval \<Rightarrow> string \<Rightarrow> bool res" where
  "py_contains v k =
     (case v of
        PList xs \<Rightarrow> Inr (py_in (PStr k) xs)
      | PTuple xs \<Rightarrow> Inr (py_in (PStr k) xs)
      | PStr s \<Rightarrow> Inr (contains s k)
      | PDict d \<Rightarrow> Inr (k \<in> set (dict_keys d))
      | _ \<Rightarrow> Inl TypeError)"

text \<open>\<open>'%d' % v\<close> and a keyword argument that must be an integer.\<close>

definition fmt_d :: "pyval \<Rightarrow> int res" where
  "fmt_d v = (if is_number v then py_int v else Inl TypeError)"

definition int_arg :: "pyval \<Rightarrow> int res" where
  "int_arg v = (case as_int v of None \<Rightarrow> Inl TypeError | Some i \<Rightarrow> Inr i)"

section \<open>Splitting text\<close>

text \<open>The text before and after the first occurrence of a separator.\<close>

fun find_sub :: "string \<Rightarrow> string \<Rightarrow> (string \<times> string) option" where
  "find_sub sep [] = None"
| "find_sub sep (c # cs) =
     (if prefix sep (c # cs) then Some ([], drop (length sep) (c # cs))
      else map_option (\<lambda>(a, b). (c # a, b)) (find_sub sep cs))"

lemma find_sub_join: "find_sub sep s = Some (a, b) \<Longrightarrow> s = a @ sep @ b"
  by (induction s arbitrary: a) (auto simp: prefix_def split: if_splits)

lemma find_sub_shorter: "find_sub sep s = Some (a, b) \<Longrightarrow> sep \<noteq> [] \<Longrightarrow> length b < length s"
  using find_sub_join [of sep s a b] by (cases sep) auto

text \<open>\<open>s.split(sep, n)\<close>, without a limit for \<open>n = None\<close>; an empty separator is refused before.\<close>

function split_str :: "string \<Rightarrow> nat option \<Rightarrow> string \<Rightarrow> string list" where
  "split_str sep n s =
     (if sep = [] \<or> n = Some 0 then [s]
      else (case find_sub sep s of
          None \<Rightarrow> [s]
        | Some (a, b) \<Rightarrow> a # split_str sep (map_option (\<lambda>k. k - 1) n) b))"
  by pat_completeness auto
termination
  by (relation "measure (\<lambda>(sep, n, s). length s)") (auto simp: find_sub_shorter)

declare split_str.simps [simp del]

text \<open>\<open>s.split(None, n)\<close> splits at runs of white space.\<close>

function split_ws :: "nat option \<Rightarrow> string \<Rightarrow> string list" where
  "split_ws n s =
     (let t = dropWhile is_space s in
      if t = [] then []
      else if n = Some 0 then [t]
      else takeWhile (\<lambda>c. \<not> is_space c) t
           # split_ws (map_option (\<lambda>k. k - 1) n) (dropWhile (\<lambda>c. \<not> is_space c) t))"
  by pat_completeness auto
termination
proof (relation "measure (\<lambda>(n, s). length s)", goal_cases)
  case (2 n s t)
  have "\<not> is_space (hd t)" using 2(1,2) hd_dropWhile by blast
  then obtain c cs where t: "t = c # cs" and "\<not> is_space c" using 2(2) by (cases t) auto
  then have "length (dropWhile (\<lambda>c. \<not> is_space c) t) \<le> length cs"
    by (simp add: length_dropWhile_le)
  also have "\<dots> < length t" by (simp add: t)
  also have "\<dots> \<le> length s" by (simp add: 2(1) length_dropWhile_le)
  finally show ?case by simp
qed auto

declare split_ws.simps [simp del]

text \<open>\<open>s.split(sep, maxsplit)\<close>: a negative limit is none.\<close>

definition py_split :: "string \<Rightarrow> pyval \<Rightarrow> int option \<Rightarrow> string list res" where
  "py_split s sep maxsplit =
     (let n = (case maxsplit of None \<Rightarrow> None | Some i \<Rightarrow> if i < 0 then None else Some (nat i)) in
      case sep of
        PStr t \<Rightarrow> (if t = [] then Inl ValueError else Inr (split_str t n s))
      | PNone \<Rightarrow> Inr (split_ws n s)
      | _ \<Rightarrow> Inl TypeError)"

lemma split_str_nonempty [simp]: "split_str sep n s \<noteq> []"
  by (subst split_str.simps) (auto split: option.split)

lemma join_Cons: "xs \<noteq> [] \<Longrightarrow> join sep (x # xs) = x @ sep @ join sep xs"
  by (cases xs) auto

lemma join_split_str: "join sep (split_str sep n s) = s"
proof (induction sep n s rule: split_str.induct)
  case (1 sep n s)
  show ?case
  proof (cases "sep = [] \<or> n = Some 0")
    case True
    then show ?thesis by (subst split_str.simps) simp
  next
    case False
    show ?thesis
    proof (cases "find_sub sep s")
      case None
      then show ?thesis by (subst split_str.simps) simp
    next
      case (Some ab)
      obtain a b where ab: "ab = (a, b)" by (cases ab)
      have "join sep (split_str sep (map_option (\<lambda>k. k - 1) n) b) = b"
        using 1 [OF False Some [unfolded ab] refl] by simp
      moreover have "split_str sep n s = a # split_str sep (map_option (\<lambda>k. k - 1) n) b"
        using False Some ab by (subst split_str.simps) simp
      ultimately show ?thesis using find_sub_join [OF Some [unfolded ab]] by (simp add: join_Cons)
    qed
  qed
qed

lemma split_str_length: "length (split_str sep (Some n) s) \<le> Suc n"
proof (induction sep "Some n" s arbitrary: n rule: split_str.induct)
  case (1 sep s n)
  show ?case
  proof (cases "sep = [] \<or> n = 0 \<or> find_sub sep s = None")
    case True
    then show ?thesis by (subst split_str.simps) auto
  next
    case False
    then obtain a b where ab: "find_sub sep s = Some (a, b)" by auto
    have "length (split_str sep (Some (n - 1)) b) \<le> Suc (n - 1)"
      using False ab by (intro 1) auto
    then show ?thesis using False ab by (subst split_str.simps) auto
  qed
qed

end
