(* ===== verification/Ceil_Utils.thy ===== *)
theory Ceil_Utils
  imports Py_Dynamic "HOL-Library.Multiset"
begin

text \<open>
  The pure helpers of \<^verbatim>\<open>ceilometer/utils.py\<close>: the canonical form of nested dictionaries
  that message signatures rest on (\<open>decode_unicode\<close>, \<open>recursive_keypairs\<close>), flattening
  and nesting of metadata (\<open>dict_to_keyval\<close>, \<open>restore_nesting\<close>), the merge of
  capability dictionaries (\<open>update_nested\<close>), timestamps as decimals, de-duplication.
\<close>

section \<open>Canonical form of nested dictionaries\<close>

lemma mapr_cong [fundef_cong]:
  "xs = ys \<Longrightarrow> (\<And>x. x \<in> set ys \<Longrightarrow> f x = g x) \<Longrightarrow> mapr f xs = mapr g ys"
  by (induction ys arbitrary: xs) auto

lemma size_list_member: "x \<in> set xs \<Longrightarrow> f x < Suc (size_list f xs)"
  by (induction xs) auto

lemma size_dict_member:
  "(k, v) \<in> set d \<Longrightarrow> size v < Suc (size_list (size_prod (\<lambda>x. 0) size) d)"
  using size_list_member [of "(k, v)" d "size_prod (\<lambda>x. 0) size"] by simp

text \<open>
  \<open>decode_unicode\<close>: on Python 3 text becomes its UTF-8 bytes and bytes become text; the
  items of a dictionary are visited in the order of their keys; a tuple becomes a list. The
  keys of the new dictionary are the encoded keys.
\<close>

function decode_unicode :: "pyval \<Rightarrow> pyval res" where
  "decode_unicode (PDict d) =
     bindr (mapr (\<lambda>(k, v). bindr (decode_unicode v) (\<lambda>w. Inr (utf8_encode k, w))) (sort_key fst d))
       (\<lambda>e. Inr (PDict (dict_update [] e)))"
| "decode_unicode (PTuple xs) = bindr (mapr decode_unicode xs) (\<lambda>ys. Inr (PList ys))"
| "decode_unicode (PList xs) = bindr (mapr decode_unicode xs) (\<lambda>ys. Inr (PList ys))"
| "decode_unicode (PStr s) = Inr (PBytes (utf8_encode s))"
| "decode_unicode (PBytes s) = bindr (utf8_decode s) (\<lambda>t. Inr (PStr t))"
| "decode_unicode PNone = Inr PNone"
| "decode_unicode (PBool b) = Inr (PBool b)"
| "decode_unicode (PInt i) = Inr (PInt i)"
| "decode_unicode (PFloat f) = Inr (PFloat f)"
| "decode_unicode (PDatetime t) = Inr (PDatetime t)"
  by pat_completeness auto
termination
  by (relation "measure size") (auto simp: size_dict_member size_list_member)

text \<open>
  \<open>recursive_keypairs\<close> yields the leaves of a nested dictionary in the order of the sorted
  keys, each under the path of keys joined by the separator.
\<close>

definition prefix_keys :: "string \<Rightarrow> (string \<times> 'v) list \<Rightarrow> (string \<times> 'v) list" where
  "prefix_keys p xs = map (\<lambda>(k, v). (p @ k, v)) xs"

function keypairs_item :: "string \<Rightarrow> string \<Rightarrow> pyval \<Rightarrow> pymap res" where
  "keypairs_item sep name (PDict d) =
     bindr (mapr (\<lambda>(k, v). keypairs_item sep k v) (sort_key fst d))
       (\<lambda>parts. Inr (prefix_keys (name @ sep) (concat parts)))"
| "keypairs_item sep name (PTuple xs) = bindr (decode_unicode (PTuple xs)) (\<lambda>v. Inr [(name, v)])"
| "keypairs_item sep name (PList xs) = bindr (decode_unicode (PList xs)) (\<lambda>v. Inr [(name, v)])"
| "keypairs_item sep name PNone = Inr [(name, PNone)]"
| "keypairs_item sep name (PBool b) = Inr [(name, PBool b)]"
| "keypairs_item sep name (PInt i) = Inr [(name, PInt i)]"
| "keypairs_item sep name (PFloat f) = Inr [(name, PFloat f)]"
| "keypairs_item sep name (PStr s) = Inr [(name, PStr s)]"
| "keypairs_item sep name (PBytes s) = Inr [(name, PBytes s)]"
| "keypairs_item sep name (PDatetime t) = Inr [(name, PDatetime t)]"
  by pat_completeness auto
termination
  by (relation "measure (\<lambda>(sep, name, v). size v)") (auto simp: size_dict_member)

definition recursive_keypairs :: "string \<Rightarrow> pymap \<Rightarrow> pymap res" where
  "recursive_keypairs sep d =
     bindr (mapr (\<lambda>(k, v). keypairs_item sep k v) (sort_key fst d)) (\<lambda>parts. Inr (concat parts))"

text \<open>
  Two values are the same up to the order in which dictionaries list their items, at any
  depth.
\<close>

inductive same_val :: "pyval \<Rightarrow> pyval \<Rightarrow> bool" where
  same_refl: "same_val v v"
| same_list: "list_all2 same_val xs ys \<Longrightarrow> same_val (PList xs) (PList ys)"
| same_tuple: "list_all2 same_val xs ys \<Longrightarrow> same_val (PTuple xs) (PTuple ys)"
| same_dict:
    "list_all2 (\<lambda>x y. fst x = fst y \<and> same_val (snd x) (snd y)) d e \<Longrightarrow>
     mset e = mset e' \<Longrightarrow> dict_ok d \<Longrightarrow> same_val (PDict d) (PDict e')"

lemma list_all2_insort_key:
  "list_all2 R xs ys \<Longrightarrow> R x y \<Longrightarrow> (\<And>a b. R a b \<Longrightarrow> f a = f b) \<Longrightarrow>
   list_all2 R (insort_key f x xs) (insort_key f y ys)"
proof (induction xs ys rule: list_all2_induct)
  case (Cons a xs b ys)
  from Cons.prems(2) [OF Cons.hyps(1)] Cons.prems(2) [OF Cons.prems(1)] Cons show ?case by simp
qed simp

lemma list_all2_sort_key:
  "list_all2 R xs ys \<Longrightarrow> (\<And>a b. R a b \<Longrightarrow> f a = f b) \<Longrightarrow>
   list_all2 R (sort_key f xs) (sort_key f ys)"
  by (induction xs ys rule: list_all2_induct) (auto intro: list_all2_insort_key)

lemma sort_key_mset:
  "mset xs = mset ys \<Longrightarrow> dict_ok xs \<Longrightarrow> sort_key fst xs = sort_key fst ys"
proof (rule sort_key_inj_key_eq)
  assume m: "mset xs = mset ys" and "dict_ok xs"
  then show "mset xs = mset (sort_key fst ys)" by simp
  show "inj_on fst (set xs)"
    using \<open>dict_ok xs\<close> by (simp add: dict_ok_def distinct_map)
  show "sorted (map fst (sort_key fst ys))" by simp
qed

lemma dict_ok_same_keys:
  "list_all2 (\<lambda>x y. fst x = fst y \<and> P x y) d e \<Longrightarrow> dict_ok d \<Longrightarrow> dict_ok e"
proof -
  assume a: "list_all2 (\<lambda>x y. fst x = fst y \<and> P x y) d e" and "dict_ok d"
  have "map fst d = map fst e" using a by (induction rule: list_all2_induct) auto
  with \<open>dict_ok d\<close> show "dict_ok e" by (simp add: dict_ok_def)
qed

lemma mapr_eq_list_all2:
  "list_all2 R xs ys \<Longrightarrow> (\<And>x y. R x y \<Longrightarrow> f x = g y) \<Longrightarrow> mapr f xs = mapr g ys"
  by (induction xs ys rule: list_all2_induct) auto

text \<open>Visiting the items in key order makes the result independent of their order.\<close>

lemma same_dict_mapr:
  assumes "list_all2 (\<lambda>x y. fst x = fst y \<and> P (snd x) (snd y)) d e" "mset e = mset e'" "dict_ok d"
    and f: "\<And>k v w. P v w \<Longrightarrow> f k v = f k w"
  shows "mapr (\<lambda>(k, v). f k v) (sort_key fst d) = mapr (\<lambda>(k, v). f k v) (sort_key fst e')"
proof -
  have "sort_key fst e = sort_key fst e'"
    using assms(2) dict_ok_same_keys [OF assms(1,3)] by (rule sort_key_mset)
  moreover have "list_all2 (\<lambda>x y. fst x = fst y \<and> P (snd x) (snd y)) (sort_key fst d) (sort_key fst e)"
    using assms(1) by (rule list_all2_sort_key) simp
  ultimately show ?thesis
    by (auto intro!: mapr_eq_list_all2 simp: case_prod_beta f)
qed

lemma decode_unicode_same: "same_val v w \<Longrightarrow> decode_unicode v = decode_unicode w"
proof (induction rule: same_val.induct)
  case (same_list xs ys)
  then have "mapr decode_unicode xs = mapr decode_unicode ys"
    by (auto intro: mapr_eq_list_all2)
  then show ?case by simp
next
  case (same_tuple xs ys)
  then have "mapr decode_unicode xs = mapr decode_unicode ys"
    by (auto intro: mapr_eq_list_all2)
  then show ?case by simp
next
  case (same_dict d e e')
  have "mapr (\<lambda>(k, v). bindr (decode_unicode v) (\<lambda>w. Inr (utf8_encode k, w))) (sort_key fst d)
      = mapr (\<lambda>(k, v). bindr (decode_unicode v) (\<lambda>w. Inr (utf8_encode k, w))) (sort_key fst e')"
    by (rule same_dict_mapr
          [where P = "\<lambda>v w. same_val v w \<and> decode_unicode v = decode_unicode w", OF same_dict.IH])
      (use same_dict.hyps in simp_all)
  then show ?case by simp
qed simp

lemma keypairs_item_same: "same_val v w \<Longrightarrow> keypairs_item sep name v = keypairs_item sep name w"
proof (induction arbitrary: name rule: same_val.induct)
  case (same_dict d e e')
  have "mapr (\<lambda>(k, v). keypairs_item sep k v) (sort_key fst d)
      = mapr (\<lambda>(k, v). keypairs_item sep k v) (sort_key fst e')"
    by (rule same_dict_mapr
          [where P = "\<lambda>v w. same_val v w \<and> (\<forall>k. keypairs_item sep k v = keypairs_item sep k w)",
            OF same_dict.IH])
      (use same_dict.hyps in simp_all)
  then show ?case by simp
next
  case (same_list xs ys)
  then have "same_val (PList xs) (PList ys)" by (auto intro: same_val.same_list elim: list_all2_mono)
  then show ?case using decode_unicode_same by (simp del: decode_unicode.simps)
next
  case (same_tuple xs ys)
  then have "same_val (PTuple xs) (PTuple ys)" by (auto intro: same_val.same_tuple elim: list_all2_mono)
  then show ?case using decode_unicode_same by (simp del: decode_unicode.simps)
qed simp

lemma recursive_keypairs_same:
  "same_val (PDict d) (PDict e) \<Longrightarrow> recursive_keypairs sep d = recursive_keypairs sep e"
  by (erule same_val.cases)
    (auto simp: recursive_keypairs_def intro!: arg_cong2 [where f = bindr] same_dict_mapr keypairs_item_same)

lemma same_dict_perm: "mset d = mset e \<Longrightarrow> dict_ok d \<Longrightarrow> same_val (PDict d) (PDict e)"
  by (rule same_dict [of d d]) (auto intro: list_all2_refl same_refl)

text \<open>A dictionary of scalars comes out sorted by its keys.\<close>

fun is_scalar :: "pyval \<Rightarrow> bool" where
  "is_scalar (PDict d) = False"
| "is_scalar (PList xs) = False"
| "is_scalar (PTuple xs) = False"
| "is_scalar v = True"

lemma keypairs_scalar: "is_scalar v \<Longrightarrow> keypairs_item sep k v = Inr [(k, v)]"
  by (cases v) auto

lemma recursive_keypairs_flat:
  assumes "\<forall>(k, v) \<in> set d. is_scalar v"
  shows "recursive_keypairs sep d = Inr (sort_key fst d)"
proof -
  have "mapr (\<lambda>(k, v). keypairs_item sep k v) e = Inr (map (\<lambda>kv. [kv]) e)"
    if "\<forall>(k, v) \<in> set e. is_scalar v" for e
    using that by (induction e) (auto simp: keypairs_scalar)
  from this [of "sort_key fst d"] assms show ?thesis
    by (auto simp: recursive_keypairs_def)
qed

section \<open>Flattening and nesting\<close>

text \<open>
  \<open>dict_to_keyval\<close>: the leaves of nested dictionaries and lists, a dictionary key after a
  dot and a list index in brackets. A list at the top, with no key to start from, raises
  \<open>TypeError\<close> at its first item (\<open>None + '[0]'\<close>).
\<close>

definition dot_key :: "string option \<Rightarrow> string \<Rightarrow> string" where
  "dot_key base k = (case base of None \<Rightarrow> k | Some b \<Rightarrow> if b = [] then k else b @ ''.'' @ k)"

definition index_key :: "string option \<Rightarrow> nat \<Rightarrow> string res" where
  "index_key base i =
     (case base of None \<Rightarrow> Inl TypeError | Some b \<Rightarrow> Inr (b @ ''['' @ digits_of_nat i @ '']''))"

definition is_container :: "pyval \<Rightarrow> bool" where
  "is_container v = (\<not> is_scalar v)"

function dict_to_keyval :: "pyval \<Rightarrow> string option \<Rightarrow> pymap res" where
  "dict_to_keyval (PDict d) base =
     bindr (mapr (\<lambda>(k, v). let key_gen = dot_key base k in
         (if is_container v then dict_to_keyval v (Some key_gen) else Inr [(key_gen, v)])) d)
       (\<lambda>parts. Inr (concat parts))"
| "dict_to_keyval (PList xs) base =
     bindr (mapr (\<lambda>(i, v). bindr (index_key base i) (\<lambda>key_gen.
         (if is_container v then dict_to_keyval v (Some key_gen) else Inr [(key_gen, v)])))
         (zip [0..<length xs] xs))
       (\<lambda>parts. Inr (concat parts))"
| "dict_to_keyval (PTuple xs) base =
     bindr (mapr (\<lambda>(i, v). bindr (index_key base i) (\<lambda>key_gen.
         (if is_container v then dict_to_keyval v (Some key_gen) else Inr [(key_gen, v)])))
         (zip [0..<length xs] xs))
       (\<lambda>parts. Inr (concat parts))"
| "dict_to_keyval PNone base = Inr []"
| "dict_to_keyval (PBool b) base = Inr []"
| "dict_to_keyval (PInt i) base = Inr []"
| "dict_to_keyval (PFloat f) base = Inr []"
| "dict_to_keyval (PStr s) base = Inr []"
| "dict_to_keyval (PBytes s) base = Inr []"
| "dict_to_keyval (PDatetime t) base = Inr []"
  by pat_completeness auto
termination
  by (relation "measure (\<lambda>(v, base). size v)")
    (auto simp: size_dict_member size_list_member dest!: set_zip_rightD)

text \<open>
  A dictionary at the top never raises, and every value that comes out is a scalar.
\<close>

lemma mapr_all_ok:
  "(\<forall>x \<in> set xs. \<exists>y. f x = Inr y \<and> P y) \<Longrightarrow> \<exists>ys. mapr f xs = Inr ys \<and> (\<forall>y \<in> set ys. P y)"
proof (induction xs)
  case (Cons x xs)
  then obtain y ys where "f x = Inr y" "P y" "mapr f xs = Inr ys" "\<forall>y \<in> set ys. P y" by auto
  then show ?case by auto
qed simp

definition scalar_leaves :: "pymap \<Rightarrow> bool" where
  "scalar_leaves kvs = (\<forall>(k, v) \<in> set kvs. is_scalar v)"

lemma scalar_leaves_concat: "\<forall>p \<in> set parts. scalar_leaves p \<Longrightarrow> scalar_leaves (concat parts)"
  by (auto simp: scalar_leaves_def)

lemma dict_to_keyval_some:
  "\<exists>kvs. dict_to_keyval v (Some b) = Inr kvs \<and> scalar_leaves kvs"
proof (induction v arbitrary: b rule: measure_induct_rule [where f = size])
  case (less v)
  have items: "\<exists>kvs. (if is_container w then dict_to_keyval w (Some g) else Inr [(g, w)]) = Inr kvs
      \<and> scalar_leaves kvs" if "size w < size v" for w g
    using less.IH [OF that, of g] by (auto simp: is_container_def scalar_leaves_def)
  have list: "\<exists>ps. mapr (\<lambda>(i, w). bindr (index_key (Some b) i) (\<lambda>g.
        (if is_container w then dict_to_keyval w (Some g) else Inr [(g, w)])))
        (zip [0..<length xs] xs) = Inr ps \<and> (\<forall>p \<in> set ps. scalar_leaves p)"
    if "\<And>w. w \<in> set xs \<Longrightarrow> size w < size v" for xs
    using that by (intro mapr_all_ok)
      (auto simp: index_key_def intro!: items dest!: set_zip_rightD)
  show ?case
  proof (cases v)
    case (PDict d)
    have "\<exists>ps. mapr (\<lambda>(k, w). let g = dot_key (Some b) k in
        (if is_container w then dict_to_keyval w (Some g) else Inr [(g, w)])) d = Inr ps
        \<and> (\<forall>p \<in> set ps. scalar_leaves p)"
      by (intro mapr_all_ok) (auto simp: PDict size_dict_member Let_def simp del: if_split intro!: items)
    then show ?thesis using scalar_leaves_concat by (auto simp: PDict)
  next
    case (PList xs)
    show ?thesis using list [of xs] scalar_leaves_concat by (auto simp: PList size_list_member)
  next
    case (PTuple xs)
    show ?thesis using list [of xs] scalar_leaves_concat by (auto simp: PTuple size_list_member)
  qed (auto simp: scalar_leaves_def)
qed

lemma dict_to_keyval_total:
  "\<exists>kvs. dict_to_keyval (PDict d) None = Inr kvs \<and> scalar_leaves kvs"
proof -
  have "\<exists>ps. mapr (\<lambda>(k, w). let g = dot_key None k in
      (if is_container w then dict_to_keyval w (Some g) else Inr [(g, w)])) d = Inr ps
      \<and> (\<forall>p \<in> set ps. scalar_leaves p)"
    by (intro mapr_all_ok)
      (use dict_to_keyval_some in \<open>auto simp: Let_def is_container_def scalar_leaves_def\<close>)
  then show ?thesis using scalar_leaves_concat by auto
qed

text \<open>
  \<open>restore_nesting\<close> undoes \<open>recursive_keypairs\<close>. The recursion is on the dictionary built
  for the part of a key after its first separator; the first argument bounds its depth, and
  \<open>restore_nesting_enough\<close> shows that the number of separators in the keys is enough.
\<close>

fun restore_loop ::
  "(pymap \<Rightarrow> pymap option) \<Rightarrow> char \<Rightarrow> pymap \<Rightarrow> pymap \<Rightarrow> pymap option" where
  "restore_loop rec sep [] d = Some d"
| "restore_loop rec sep ((k, v) # kvs) d =
     (if sep \<in> set k then
        (let (tp, rem) = split_once sep k;
             nest = (case dict_get d tp of Some (PDict e) \<Rightarrow> e | _ \<Rightarrow> [])
         in (case rec (dict_set rem v nest) of
               None \<Rightarrow> None
             | Some e \<Rightarrow> restore_loop rec sep kvs (dict_del k (dict_set tp (PDict e) d))))
      else restore_loop rec sep kvs d)"

fun restore_nesting_fuel :: "nat \<Rightarrow> char \<Rightarrow> pymap \<Rightarrow> pymap option" where
  "restore_nesting_fuel 0 sep d = None"
| "restore_nesting_fuel (Suc n) sep d = restore_loop (restore_nesting_fuel n sep) sep d d"

text \<open>The separators in the keys of a value, at every depth.\<close>

fun seps :: "char \<Rightarrow> pyval \<Rightarrow> nat" where
  "seps c (PDict d) = sum_list (map (\<lambda>(k, v). count_list k c + seps c v) d)"
| "seps c v = 0"

definition restore_nesting :: "char \<Rightarrow> pymap \<Rightarrow> pymap option" where
  "restore_nesting sep d = restore_nesting_fuel (Suc (seps sep (PDict d))) sep d"

fun deep_ok :: "pyval \<Rightarrow> bool" where
  "deep_ok (PDict d) = (dict_ok d \<and> list_all (\<lambda>(k, v). deep_ok v) d)"
| "deep_ok v = True"

lemma seps_set:
  "seps c (PDict (dict_set k v d)) + (case dict_get d k of None \<Rightarrow> 0 | Some w \<Rightarrow> count_list k c + seps c w)
   = seps c (PDict d) + count_list k c + seps c v"
  by (induction d) auto

lemma seps_set_le: "seps c (PDict (dict_set k v d)) \<le> seps c (PDict d) + count_list k c + seps c v"
  using seps_set [of c k v d] by linarith

lemma seps_del_le: "seps c (PDict (dict_del k d)) \<le> seps c (PDict d)"
  by (induction d) (auto simp: AList.delete_eq)

lemma seps_del:
  "(k, v) \<in> set d \<Longrightarrow>
   seps c (PDict (dict_del k d)) + count_list k c + seps c v \<le> seps c (PDict d)"
proof (induction d)
  case (Cons kv d)
  show ?case
  proof (cases "(k, v) \<in> set d")
    case True
    with Cons.IH show ?thesis by (cases kv) (auto simp: AList.delete_eq)
  next
    case False
    with Cons.prems have "kv = (k, v)" by auto
    with seps_del_le [of c k d] show ?thesis by (auto simp: AList.delete_eq)
  qed
qed simp

lemma seps_get: "dict_get d k = Some v \<Longrightarrow> seps c v \<le> seps c (PDict d)"
  by (induction d) (auto split: if_splits)

lemma deep_ok_set: "deep_ok (PDict d) \<Longrightarrow> deep_ok v \<Longrightarrow> deep_ok (PDict (dict_set k v d))"
  by (auto simp: list_all_iff dest!: dict_set_memberD)

lemma deep_ok_del: "deep_ok (PDict d) \<Longrightarrow> deep_ok (PDict (dict_del k d))"
  by (auto simp: list_all_iff dict_del_member)

lemma deep_ok_get: "deep_ok (PDict d) \<Longrightarrow> dict_get d k = Some v \<Longrightarrow> deep_ok v"
  by (auto simp: list_all_iff dest!: map_of_SomeD)

lemma count_list_split_once:
  assumes "c \<in> set k"
  shows "count_list (fst (split_once c k)) c = 0"
    and "count_list k c = Suc (count_list (snd (split_once c k)) c)"
    and "fst (split_once c k) \<noteq> k"
proof -
  have n: "c \<notin> set (fst (split_once c k))"
    by (auto simp: split_once_def dest: set_takeWhileD)
  then show 1: "count_list (fst (split_once c k)) c = 0" by simp
  have k: "fst (split_once c k) @ c # snd (split_once c k) = k"
    using assms by (rule split_once_join)
  then have "count_list k c = count_list (fst (split_once c k) @ c # snd (split_once c k)) c" by simp
  with 1 show "count_list k c = Suc (count_list (snd (split_once c k)) c)"
    by (simp del: count_list_0_iff)
  from n assms show "fst (split_once c k) \<noteq> k" by metis
qed

definition nest_at :: "pymap \<Rightarrow> string \<Rightarrow> pymap" where
  "nest_at d tp = (case dict_get d tp of Some (PDict e) \<Rightarrow> e | _ \<Rightarrow> [])"

lemma nest_at_seps: "seps c (PDict (nest_at d tp)) \<le> (case dict_get d tp of None \<Rightarrow> 0 | Some w \<Rightarrow> seps c w)"
  by (auto simp: nest_at_def split: option.splits pyval.splits)

lemma nest_at_ok: "deep_ok (PDict d) \<Longrightarrow> deep_ok (PDict (nest_at d tp))"
  using deep_ok_get [of d tp] by (auto simp: nest_at_def split: option.splits pyval.splits)

lemma restore_loop_Cons:
  "sep \<in> set k \<Longrightarrow> restore_loop rec sep ((k, v) # kvs) d =
     (case rec (dict_set (snd (split_once sep k)) v (nest_at d (fst (split_once sep k)))) of
        None \<Rightarrow> None
      | Some e \<Rightarrow> restore_loop rec sep kvs (dict_del k (dict_set (fst (split_once sep k)) (PDict e) d)))"
  by (simp add: nest_at_def Let_def case_prod_beta)

text \<open>One step of the loop: the recursive call sees fewer separators, and so does what is left.\<close>

lemma restore_step_seps:
  assumes kv: "(k, v) \<in> set d" and sep: "c \<in> set k"
  defines "tp \<equiv> fst (split_once c k)" and "rem \<equiv> snd (split_once c k)"
  shows "seps c (PDict (dict_set rem v (nest_at d tp))) < seps c (PDict d)"
    and "seps c (PDict e) \<le> seps c (PDict (dict_set rem v (nest_at d tp))) \<Longrightarrow>
         seps c (PDict (dict_del k (dict_set tp (PDict e) d))) \<le> seps c (PDict d)"
proof -
  let ?r = "dict_del k d" and ?n = "nest_at d tp"
  note cnt = count_list_split_once [OF sep, folded tp_def rem_def]
  have d: "seps c (PDict ?r) + count_list k c + seps c v \<le> seps c (PDict d)"
    using kv by (rule seps_del)
  have tp: "dict_get ?r tp = dict_get d tp" using cnt(3) by (simp add: delete_conv')
  have n: "seps c (PDict ?n) \<le> seps c (PDict ?r)"
    using nest_at_seps [of c d tp] seps_get [of ?r tp] tp
    by (auto split: option.splits intro: le_trans simp del: seps.simps)
  have set: "seps c (PDict (dict_set rem v ?n)) \<le> seps c (PDict ?n) + count_list rem c + seps c v"
    by (rule seps_set_le)
  from d n set cnt(2) show "seps c (PDict (dict_set rem v ?n)) < seps c (PDict d)" by linarith
  assume e: "seps c (PDict e) \<le> seps c (PDict (dict_set rem v ?n))"
  have "dict_del k (dict_set tp (PDict e) d) = dict_set tp (PDict e) ?r"
    using cnt(3) by (simp add: delete_update)
  moreover have "seps c (PDict (dict_set tp (PDict e) ?r)) + seps c (PDict ?n)
      \<le> seps c (PDict ?r) + seps c (PDict e)"
    using seps_set [of c tp "PDict e" ?r] nest_at_seps [of c d tp] cnt(1) tp
    by (auto split: option.splits simp del: seps.simps)
  ultimately show "seps c (PDict (dict_del k (dict_set tp (PDict e) d))) \<le> seps c (PDict d)"
    using d set e cnt(2) by (simp del: seps.simps)
qed

lemma restore_loop_enough:
  assumes "\<And>e. seps c (PDict e) < n \<Longrightarrow> deep_ok (PDict e) \<Longrightarrow>
      \<exists>e'. rec e = Some e' \<and> seps c (PDict e') \<le> seps c (PDict e) \<and> deep_ok (PDict e')"
    and "seps c (PDict d) \<le> n" "deep_ok (PDict d)" "distinct (map fst kvs)"
    and "\<forall>(k, v) \<in> set kvs. c \<in> set k \<longrightarrow> (k, v) \<in> set d"
    and "\<forall>(k, v) \<in> set kvs. deep_ok v"
  shows "\<exists>d'. restore_loop rec c kvs d = Some d' \<and> seps c (PDict d') \<le> seps c (PDict d) \<and> deep_ok (PDict d')"
  using assms(2-)
proof (induction kvs arbitrary: d)
  case (Cons kv kvs)
  obtain k v where kv: "kv = (k, v)" by (cases kv)
  show ?case
  proof (cases "c \<in> set k")
    case False
    with Cons.IH [of d] Cons.prems kv show ?thesis by auto
  next
    case True
    let ?tp = "fst (split_once c k)"
    let ?nest = "dict_set (snd (split_once c k)) v (nest_at d ?tp)"
    have kd: "(k, v) \<in> set d" and okv: "deep_ok v" using Cons.prems(4,5) kv True by auto
    have "seps c (PDict ?nest) < n" "deep_ok (PDict ?nest)"
      using restore_step_seps(1) [OF kd True] Cons.prems(1,2) okv
      by (auto intro!: deep_ok_set nest_at_ok simp del: seps.simps deep_ok.simps)
    then obtain e where e: "rec ?nest = Some e" "seps c (PDict e) \<le> seps c (PDict ?nest)" "deep_ok (PDict e)"
      using assms(1) by blast
    let ?d = "dict_del k (dict_set ?tp (PDict e) d)"
    have le: "seps c (PDict ?d) \<le> seps c (PDict d)"
      by (rule restore_step_seps(2) [OF kd True e(2)])
    have mem: "\<forall>(k', v') \<in> set kvs. c \<in> set k' \<longrightarrow> (k', v') \<in> set ?d"
    proof clarify
      fix k' v' assume a: "(k', v') \<in> set kvs" "c \<in> set k'"
      have "k' \<noteq> k" using a(1) Cons.prems(3) kv by force
      moreover have "k' \<noteq> ?tp" using a(2) count_list_split_once(1) [OF True] by (auto simp: count_list_0_iff)
      moreover have "(k', v') \<in> set d" using a Cons.prems(4) kv by auto
      ultimately show "(k', v') \<in> set ?d" by (simp add: dict_del_member dict_set_member_other)
    qed
    have "\<exists>d'. restore_loop rec c kvs ?d = Some d' \<and> seps c (PDict d') \<le> seps c (PDict ?d) \<and> deep_ok (PDict d')"
      using le Cons.prems mem kv e(3)
      by (intro Cons.IH) (auto intro!: deep_ok_set deep_ok_del simp del: seps.simps deep_ok.simps(1))
    with le e(1) True show ?thesis by (auto simp: kv restore_loop_Cons simp del: seps.simps restore_loop.simps(2))
  qed
qed (simp)

lemma restore_nesting_enough:
  "seps c (PDict d) < n \<Longrightarrow> deep_ok (PDict d) \<Longrightarrow>
   \<exists>d'. restore_nesting_fuel n c d = Some d' \<and> seps c (PDict d') \<le> seps c (PDict d) \<and> deep_ok (PDict d')"
proof (induction n arbitrary: d)
  case (Suc n)
  have "\<exists>d'. restore_loop (restore_nesting_fuel n c) c d d = Some d' \<and> seps c (PDict d') \<le> seps c (PDict d)
      \<and> deep_ok (PDict d')"
    using Suc.prems
    by (intro restore_loop_enough [where n = n] Suc.IH)
      (auto simp: dict_ok_def list_all_iff simp del: seps.simps)
  then show ?case by simp
qed simp

section \<open>Merging, de-duplication, case folding\<close>

text \<open>
  \<open>update_nested\<close> merges \<open>updates\<close> into a copy of a dictionary, leaf by leaf. A nested
  update of a key whose value is no dictionary raises, except when it is empty.
\<close>

fun update_nested :: "pyval \<Rightarrow> pymap \<Rightarrow> pyval res" where
  "update_nested acc [] = Inr acc"
| "update_nested acc ((k, v) # ups) =
     bindr
       (case v of
          PDict e \<Rightarrow>
            (case acc of
               PDict d \<Rightarrow>
                 bindr (update_nested (dict_get_default d k (PDict [])) e)
                   (\<lambda>s. Inr (PDict (dict_set k s d)))
             | _ \<Rightarrow> Inl (AttributeError ''get''))
        | _ \<Rightarrow>
            (case acc of
               PDict d \<Rightarrow> Inr (PDict (dict_set k v d))
             | _ \<Rightarrow> Inl TypeError))
       (\<lambda>acc'. update_nested acc' ups)"

text \<open>What one key of the updates becomes, from what the original holds at that key.\<close>

definition merged_value :: "pyval option \<Rightarrow> pyval \<Rightarrow> pyval res" where
  "merged_value old v =
     (case v of
        PDict e \<Rightarrow> update_nested (case old of None \<Rightarrow> PDict [] | Some w \<Rightarrow> w) e
      | _ \<Rightarrow> Inr v)"

lemma update_nested_Cons:
  "update_nested (PDict d) ((k, v) # ups) =
     bindr (merged_value (dict_get d k) v) (\<lambda>s. update_nested (PDict (dict_set k s d)) ups)"
  by (cases v) (simp_all add: merged_value_def dict_get_default_def bindr_def split: sum.splits)

declare update_nested.simps(2) [simp del]

lemma update_nested_get:
  assumes "update_nested (PDict d) ups = Inr r" "dict_ok ups"
  shows "\<exists>e. r = PDict e \<and>
    (\<forall>k. case dict_get ups k of
        None \<Rightarrow> dict_get e k = dict_get d k
      | Some v \<Rightarrow> (\<exists>w. merged_value (dict_get d k) v = Inr w \<and> dict_get e k = Some w))"
  using assms
proof (induction ups arbitrary: d)
  case (Cons kv ups)
  obtain k v where kv: "kv = (k, v)" by (cases kv)
  from Cons.prems(1) obtain s where s: "merged_value (dict_get d k) v = Inr s"
    and r: "update_nested (PDict (dict_set k s d)) ups = Inr r"
    by (auto simp: kv update_nested_Cons bindr_Inr_iff)
  have ok: "dict_ok ups" and fresh: "dict_get ups k = None"
    using Cons.prems(2) by (auto simp: kv dict_ok_def map_of_eq_None_iff)
  from Cons.IH [OF r ok] obtain e where e: "r = PDict e"
    and get: "\<And>k'. case dict_get ups k' of
        None \<Rightarrow> dict_get e k' = dict_get (dict_set k s d) k'
      | Some v \<Rightarrow> (\<exists>w. merged_value (dict_get (dict_set k s d) k') v = Inr w \<and> dict_get e k' = Some w)"
    by blast
  have "case dict_get (kv # ups) k' of
        None \<Rightarrow> dict_get e k' = dict_get d k'
      | Some v \<Rightarrow> (\<exists>w. merged_value (dict_get d k') v = Inr w \<and> dict_get e k' = Some w)" for k'
    using get [of k'] s fresh by (auto simp: kv dict_get_set split: option.splits if_splits)
  with e show ?case by blast
qed auto

text \<open>
  \<open>uniq\<close>: the elements whose attributes, joined by a slash, were not seen before; \<open>attr\<close>
  reads an attribute, and an empty or absent one counts as the empty string.
\<close>

definition uniq_key :: "('a \<Rightarrow> string \<Rightarrow> string option) \<Rightarrow> string list \<Rightarrow> 'a \<Rightarrow> string" where
  "uniq_key attr attrs d = join ''/'' (map (\<lambda>a. case attr d a of None \<Rightarrow> [] | Some s \<Rightarrow> s) attrs)"

fun uniq_loop :: "('a \<Rightarrow> string) \<Rightarrow> 'a list \<Rightarrow> string list \<Rightarrow> 'a list \<Rightarrow> 'a list" where
  "uniq_loop key [] keys deduped = deduped"
| "uniq_loop key (d # ds) keys deduped =
     (if key d \<notin> set keys then uniq_loop key ds (keys @ [key d]) (deduped @ [d])
      else uniq_loop key ds keys deduped)"

definition uniq :: "('a \<Rightarrow> string \<Rightarrow> string option) \<Rightarrow> 'a list \<Rightarrow> string list \<Rightarrow> 'a list" where
  "uniq attr dupes attrs = uniq_loop (uniq_key attr attrs) dupes [] []"

lemma uniq_loop_inv:
  assumes "keys = map key deduped" "distinct keys"
  shows "distinct (map key (uniq_loop key ds keys deduped))"
    and "set (map key (uniq_loop key ds keys deduped)) = set (map key ds) \<union> set keys"
    and "\<exists>zs. uniq_loop key ds keys deduped = deduped @ zs \<and> subseq zs ds"
  using assms
proof (induction ds arbitrary: keys deduped)
  case (Cons d ds)
  { case 1
    show ?case
    proof (cases "key d \<in> set keys")
      case True
      with 1 Cons.IH(1) [of keys deduped] show ?thesis by auto
    next
      case False
      with 1 Cons.IH(1) [of "keys @ [key d]" "deduped @ [d]"] show ?thesis by auto
    qed }
  { case 2
    show ?case
    proof (cases "key d \<in> set keys")
      case True
      with 2 Cons.IH(2) [of keys deduped] show ?thesis by auto
    next
      case False
      with 2 Cons.IH(2) [of "keys @ [key d]" "deduped @ [d]"] show ?thesis by auto
    qed }
  { case 3
    show ?case
    proof (cases "key d \<in> set keys")
      case True
      with 3 Cons.IH(3) [of keys deduped] show ?thesis by auto
    next
      case False
      with 3 Cons.IH(3) [of "keys @ [key d]" "deduped @ [d]"] show ?thesis by auto
    qed }
qed auto

text \<open>
  \<open>lowercase_keys\<close> and \<open>lowercase_values\<close> walk over the items the dictionary had at the
  start (the list \<open>items()\<close> returns on Python 2).
\<close>

definition lowercase_keys :: "pymap \<Rightarrow> pymap" where
  "lowercase_keys m = fold (\<lambda>(k, v) d. dict_set (str_lower k) v (dict_del k d)) m m"

fun lowercase_values_loop :: "pymap \<Rightarrow> pymap \<Rightarrow> pymap res" where
  "lowercase_values_loop [] d = Inr d"
| "lowercase_values_loop ((k, PStr s) # kvs) d = lowercase_values_loop kvs (dict_set k (PStr (str_lower s)) d)"
| "lowercase_values_loop ((k, v) # kvs) d = Inl (AttributeError ''lower'')"

definition lowercase_values :: "pymap \<Rightarrow> pymap res" where
  "lowercase_values m = lowercase_values_loop m m"

section \<open>Timestamps\<close>

text \<open>
  A \<open>datetime\<close> is a number of microseconds since the epoch. The decimal context has 30
  digits, which is exact for every \<open>datetime\<close>, so decimals are rationals.
\<close>

definition dt_to_decimal :: "int option \<Rightarrow> rat option" where
  "dt_to_decimal utc =
     (case utc of
        None \<Rightarrow> None
      | Some t \<Rightarrow> Some (of_int (t div 1000000) + of_int (t mod 1000000) / 1000000))"

text \<open>Python's \<open>round\<close>: to the nearest integer, a half to the even one.\<close>

definition py_round :: "rat \<Rightarrow> int" where
  "py_round x =
     (let f = \<lfloor>x\<rfloor>; r = x - of_int f in
      if r < 1 / 2 then f else if 1 / 2 < r then f + 1 else if even f then f else f + 1)"

definition decimal_to_dt :: "rat option \<Rightarrow> int option res" where
  "decimal_to_dt dec =
     (case dec of
        None \<Rightarrow> Inr None
      | Some d \<Rightarrow>
          (let integer = trunc_rat d;
               micro = (d - of_int integer) * 1000000;
               m = py_round micro
           in if 0 \<le> m \<and> m < 1000000 then Inr (Some (integer * 1000000 + m))
              else Inl ValueError))"

lemma py_round_of_int [simp]: "py_round (of_int n) = n"
  by (simp add: py_round_def)

lemma decimal_parts:
  "0 \<le> q \<Longrightarrow> 0 \<le> m \<Longrightarrow> m < 1000000 \<Longrightarrow>
   trunc_rat (of_int q + of_int m / 1000000) = q"
proof -
  assume a: "0 \<le> q" "0 \<le> m" "m < 1000000"
  have "(0::rat) \<le> of_int m / 1000000" "of_int m / 1000000 < (1::rat)" using a by simp_all
  then have "\<lfloor>of_int q + of_int m / (1000000::rat)\<rfloor> = q"
    by (intro floor_unique) auto
  moreover have "(0::rat) \<le> of_int q + of_int m / 1000000" using a by simp
  ultimately show ?thesis by (simp add: trunc_rat_def)
qed

lemma decimal_to_dt_nonneg: "0 \<le> t \<Longrightarrow> decimal_to_dt (dt_to_decimal (Some t)) = Inr (Some t)"
proof -
  assume "0 \<le> t"
  then have q: "0 \<le> t div 1000000" by (simp add: pos_imp_zdiv_nonneg_iff)
  have m: "0 \<le> t mod 1000000" "t mod 1000000 < 1000000" by simp_all
  have "(of_int (t mod 1000000) / 1000000 * 1000000 :: rat) = of_int (t mod 1000000)" by simp
  then show ?thesis
    using decimal_parts [OF q m] by (simp add: dt_to_decimal_def decimal_to_dt_def Let_def)
qed

text \<open>
  Before the epoch \<open>int\<close> truncates towards zero, so that a fractional second leaves a
  negative number of microseconds, which \<open>datetime.replace\<close> refuses.
\<close>

lemma decimal_to_dt_negative:
  assumes "t < 0" "t mod 1000000 \<noteq> 0"
  shows "decimal_to_dt (dt_to_decimal (Some t)) = Inl ValueError"
proof -
  let ?q = "t div 1000000" and ?m = "t mod 1000000"
  let ?d = "of_int ?q + of_int ?m / 1000000 :: rat"
  have "0 \<le> ?m" and m2: "?m < 1000000" by simp_all
  with assms(2) have m: "0 < ?m" "?m < 1000000" by linarith+
  have q: "?q < 0" using assms(1) by (simp add: neg_imp_zdiv_neg_iff)
  have frac: "(0::rat) < of_int ?m / 1000000" "of_int ?m / 1000000 < (1::rat)" using m by simp_all
  have ceil: "\<lceil>?d\<rceil> = ?q + 1" using frac by (intro ceiling_unique) auto
  have neg: "?d < 0"
  proof -
    have "?q \<le> - 1" using q by linarith
    then have "(of_int ?q :: rat) \<le> of_int (- 1)" by (simp only: of_int_le_iff)
    with frac(2) show ?thesis by simp
  qed
  then have tr: "trunc_rat ?d = ?q + 1" unfolding trunc_rat_def using ceil by (metis not_le)
  have "(?d - of_int (?q + 1)) * 1000000 = (of_int ?m / 1000000 - 1) * 1000000"
    by (simp only: of_int_add of_int_1) algebra
  also have "\<dots> = of_int (?m - 1000000)" by (simp add: left_diff_distrib)
  finally have micro: "py_round ((?d - of_int (trunc_rat ?d)) * 1000000) = ?m - 1000000"
    by (simp only: tr py_round_of_int)
  show ?thesis
    unfolding dt_to_decimal_def decimal_to_dt_def Let_def option.case micro using m(2) by simp
qed

text \<open>
  \<open>sanitize_timestamp\<close>: a falsy timestamp is returned as it is; text is parsed; \<open>parse\<close>
  stands for \<open>timeutils.normalize_time(timeutils.parse_isotime(s))\<close> of oslo.utils.
\<close>

definition sanitize_timestamp :: "(string \<Rightarrow> int res) \<Rightarrow> pyval \<Rightarrow> pyval res" where
  "sanitize_timestamp parse v =
     (if \<not> truthy v then Inr v
      else (case v of
          PDatetime t \<Rightarrow> Inr (PDatetime t)
        | PStr s \<Rightarrow> bindr (parse s) (\<lambda>t. Inr (PDatetime t))
        | _ \<Rightarrow> Inl ValueError))"

section \<open>Stopping listeners\<close>

datatype 'l listener_call = Stop 'l | Wait 'l

text \<open>\<open>kill_listeners\<close>: every listener is stopped and drained before the next one.\<close>

fun kill_listeners :: "'l list \<Rightarrow> 'l listener_call list" where
  "kill_listeners [] = []"
| "kill_listeners (l # ls) = Stop l # Wait l # kill_listeners ls"

section \<open>Properties\<close>

text \<open>
  C16: \<open>restore_nesting\<close> always returns. For a dictionary whose keys are distinct at every
  depth, as many recursive calls as there are separators in its keys are enough, and the
  result again has distinct keys at every depth and no more separators than the input.
\<close>

theorem restore_nesting_terminates:
  assumes "deep_ok (PDict d)"
  shows "\<exists>e. restore_nesting sep d = Some e \<and> deep_ok (PDict e) \<and> seps sep (PDict e) \<le> seps sep (PDict d)"
  using restore_nesting_enough [of sep d "Suc (seps sep (PDict d))"] assms
  unfolding restore_nesting_def by blast

theorem restore_nesting_terminates_witness:
  "deep_ok (PDict [(''a:b:c'', PInt 1), (''a:d'', PInt 2)])
   \<and> (\<exists>e. restore_nesting CHR '':'' [(''a:b:c'', PInt 1), (''a:d'', PInt 2)] = Some e
        \<and> deep_ok (PDict e)
        \<and> seps CHR '':'' (PDict e) \<le> seps CHR '':'' (PDict [(''a:b:c'', PInt 1), (''a:d'', PInt 2)]))
   \<and> restore_nesting CHR '':'' [(''a:b:c'', PInt 1), (''a:d'', PInt 2)]
       = Some [(''a'', PDict [(''b'', PDict [(''c'', PInt 1)]), (''d'', PInt 2)])]"
proof -
  have ok: "deep_ok (PDict [(''a:b:c'', PInt 1), (''a:d'', PInt 2)])"
    by (simp add: dict_ok_def)
  have val: "restore_nesting CHR '':'' [(''a:b:c'', PInt 1), (''a:d'', PInt 2)]
       = Some [(''a'', PDict [(''b'', PDict [(''c'', PInt 1)]), (''d'', PInt 2)])]"
    by code_simp
  show ?thesis using ok val restore_nesting_terminates [OF ok, of "CHR '':''"] by blast
qed

text \<open>
  \<open>update_nested\<close> merges dictionaries leaf by leaf. Where it returns, a key that the
  updates do not name keeps its value, a key with a plain update has the new value, and a key
  with a dictionary of updates has its old value (or an empty dictionary) merged with them.
\<close>

theorem update_nested_merges:
  assumes "update_nested (PDict d) ups = Inr r" "dict_ok ups"
  shows "\<exists>e. r = PDict e \<and>
    (\<forall>k. case dict_get ups k of
        None \<Rightarrow> dict_get e k = dict_get d k
      | Some v \<Rightarrow> (\<exists>w. merged_value (dict_get d k) v = Inr w \<and> dict_get e k = Some w))"
  by (rule update_nested_get [OF assms])

theorem update_nested_merges_witness:
  "\<exists>e. PDict [(''a'', PDict [(''x'', PBool False), (''y'', PBool True)]), (''b'', PInt 1)] = PDict e \<and>
    (\<forall>k. case dict_get [(''a'', PDict [(''y'', PBool True)])] k of
        None \<Rightarrow> dict_get e k
          = dict_get [(''a'', PDict [(''x'', PBool False), (''y'', PBool False)]), (''b'', PInt 1)] k
      | Some v \<Rightarrow> (\<exists>w. merged_value (dict_get [(''a'', PDict [(''x'', PBool False), (''y'', PBool False)]),
            (''b'', PInt 1)] k) v = Inr w \<and> dict_get e k = Some w))"
proof -
  have "update_nested (PDict [(''a'', PDict [(''x'', PBool False), (''y'', PBool False)]), (''b'', PInt 1)])
      [(''a'', PDict [(''y'', PBool True)])]
    = Inr (PDict [(''a'', PDict [(''x'', PBool False), (''y'', PBool True)]), (''b'', PInt 1)])"
    by code_simp
  then show ?thesis by (rule update_nested_merges) (simp add: dict_ok_def)
qed

text \<open>
  A timestamp stored as a decimal is read back unchanged exactly when it is not a
  fractional second before the epoch: those make \<open>decimal_to_dt\<close> raise \<open>ValueError\<close>,
  because \<open>int\<close> truncates towards zero.
\<close>

theorem decimal_roundtrip:
  "decimal_to_dt (dt_to_decimal (Some t)) =
     (if 0 \<le> t \<or> t mod 1000000 = 0 then Inr (Some t) else Inl ValueError)"
proof (cases "0 \<le> t")
  case True
  then show ?thesis by (simp add: decimal_to_dt_nonneg)
next
  case False
  show ?thesis
  proof (cases "t mod 1000000 = 0")
    case True
    have "trunc_rat (of_int (t div 1000000)) = t div 1000000"
      by (simp add: trunc_rat_def)
    moreover have "t div 1000000 * 1000000 = t" using True by (simp add: dvd_div_mult_self mod_eq_0_iff_dvd)
    ultimately show ?thesis using True py_round_of_int [of 0]
      by (simp add: dt_to_decimal_def decimal_to_dt_def Let_def)
  next
    case 2: False
    with False show ?thesis by (simp add: decimal_to_dt_negative)
  qed
qed

text \<open>
  \<open>dict_to_keyval\<close> of a dictionary never raises, and it yields scalars only: every
  nested dictionary and list is expanded into its leaves.
\<close>

theorem dict_to_keyval_leaves:
  "\<exists>kvs. dict_to_keyval (PDict d) None = Inr kvs \<and> list_all (\<lambda>(k, v). is_scalar v) kvs"
  using dict_to_keyval_total [of d] by (simp add: scalar_leaves_def list_all_iff)

text \<open>
  \<open>uniq\<close> keeps one element for every combination of attribute values that occurs, the
  elements it keeps have pairwise different combinations, and they stay in their order.
\<close>

theorem uniq_correct:
  "distinct (map (uniq_key attr attrs) (uniq attr ds attrs))
   \<and> uniq_key attr attrs ` set (uniq attr ds attrs) = uniq_key attr attrs ` set ds
   \<and> subseq (uniq attr ds attrs) ds"
  using uniq_loop_inv [of "[]" "uniq_key attr attrs" "[]" ds] by (auto simp: uniq_def)

end
