(* ===== verification/Sample_Model.thy ===== *)
theory Sample_Model
  imports Ceil_Utils
begin

text \<open>
  Samples (\<^verbatim>\<open>ceilometer/sample.py\<close>): the class with its constructor and defaults, the
  sample built from a notification, the user metadata carried over under the reserved
  prefixes.
\<close>

section \<open>The class\<close>

definition TYPE_GAUGE :: string where "TYPE_GAUGE = ''gauge''"
definition TYPE_DELTA :: string where "TYPE_DELTA = ''delta''"
definition TYPE_CUMULATIVE :: string where "TYPE_CUMULATIVE = ''cumulative''"

lemmas type_defs = TYPE_GAUGE_def TYPE_DELTA_def TYPE_CUMULATIVE_def

text \<open>
  The attributes of a \<open>Sample\<close>. The volume is any Python value: the pipeline checks it
  only when the sample is published.
\<close>

record sample =
  s_name :: string
  s_type :: string
  s_unit :: string
  s_volume :: pyval
  s_user_id :: "string option"
  s_project_id :: "string option"
  s_resource_id :: string
  s_timestamp :: "string option"
  s_resource_metadata :: pymap
  s_source :: string
  s_id :: string
  s_monotonic_time :: pyval

text \<open>
  \<open>__init__\<close>: an absent or empty source is the configured default, an absent or empty id
  is a new UUID, which \<open>uuid\<close> stands for.
\<close>

definition or_default :: "string option \<Rightarrow> string \<Rightarrow> string" where
  "or_default s d = (case s of None \<Rightarrow> d | Some t \<Rightarrow> if t = [] then d else t)"

definition new_sample ::
  "string \<Rightarrow> string \<Rightarrow> string \<Rightarrow> string \<Rightarrow> string \<Rightarrow> pyval \<Rightarrow> string option \<Rightarrow> string option \<Rightarrow> string \<Rightarrow>
   string option \<Rightarrow> pymap \<Rightarrow> string option \<Rightarrow> string option \<Rightarrow> pyval \<Rightarrow> sample" where
  "new_sample source_default uuid name type unit volume user_id project_id resource_id
     timestamp resource_metadata source sid monotonic_time =
   \<lparr>s_name = name, s_type = type, s_unit = unit, s_volume = volume, s_user_id = user_id,
    s_project_id = project_id, s_resource_id = resource_id, s_timestamp = timestamp,
    s_resource_metadata = resource_metadata, s_source = or_default source source_default,
    s_id = or_default sid uuid, s_monotonic_time = monotonic_time\<rparr>"

definition opt_str :: "string option \<Rightarrow> pyval" where
  "opt_str s = (case s of None \<Rightarrow> PNone | Some t \<Rightarrow> PStr t)"

text \<open>An identifier of a sample is text; \<open>text_of\<close> shows another value as \<open>repr\<close> does.\<close>

definition text_of :: "(pyval \<Rightarrow> string) \<Rightarrow> pyval \<Rightarrow> string" where
  "text_of rp v = (case v of PStr s \<Rightarrow> s | _ \<Rightarrow> rp v)"

definition optional_text :: "(pyval \<Rightarrow> string) \<Rightarrow> pyval \<Rightarrow> string option" where
  "optional_text rp v = (case v of PNone \<Rightarrow> None | _ \<Rightarrow> Some (text_of rp v))"

text \<open>\<open>as_dict\<close>: the attributes in the order the constructor sets them.\<close>

definition as_dict :: "sample \<Rightarrow> pymap" where
  "as_dict s =
    [(''name'', PStr (s_name s)),
     (''type'', PStr (s_type s)),
     (''unit'', PStr (s_unit s)),
     (''volume'', s_volume s),
     (''user_id'', opt_str (s_user_id s)),
     (''project_id'', opt_str (s_project_id s)),
     (''resource_id'', PStr (s_resource_id s)),
     (''timestamp'', opt_str (s_timestamp s)),
     (''resource_metadata'', PDict (s_resource_metadata s)),
     (''source'', PStr (s_source s)),
     (''id'', PStr (s_id s)),
     (''monotonic_time'', s_monotonic_time s)]"

lemma dict_ok_as_dict: "dict_ok (as_dict s)"
  by (simp add: as_dict_def dict_ok_def)

definition set_timestamp :: "string \<Rightarrow> sample \<Rightarrow> sample" where
  "set_timestamp t s = s\<lparr>s_timestamp := Some t\<rparr>"

text \<open>
  \<open>get_iso_timestamp\<close>; \<open>parse_isotime\<close> of oslo.utils gives an instant in microseconds, or
  raises. \<open>None\<close> is no text and raises \<open>TypeError\<close>.
\<close>

definition get_iso_timestamp :: "(string \<Rightarrow> int res) \<Rightarrow> sample \<Rightarrow> int res" where
  "get_iso_timestamp parse_isotime s =
     (case s_timestamp s of None \<Rightarrow> Inl TypeError | Some t \<Rightarrow> parse_isotime t)"

section \<open>Samples from notifications\<close>

text \<open>
  \<open>from_notification\<close>; the message is a dictionary. Without metadata of its own the sample
  carries a copy of the payload with the event type and the host. \<open>isoform\<close> stands for
  \<open>timeutils.parse_isotime(ts).isoformat()\<close>.
\<close>

definition notification_metadata :: "pymap \<Rightarrow> pymap res" where
  "notification_metadata message =
     bindr (dict_item message ''payload'') (\<lambda>payload.
     bindr (dict_item message ''event_type'') (\<lambda>et.
     bindr (dict_item message ''publisher_id'') (\<lambda>host.
       Inr (dict_set ''host'' host (dict_set ''event_type'' et
             (case payload of PDict d \<Rightarrow> d | _ \<Rightarrow> []))))))"

definition message_timestamp :: "pymap \<Rightarrow> pyval res" where
  "message_timestamp message =
     bindr (dict_item message ''metadata'') (\<lambda>md.
       (case md of PDict d \<Rightarrow> dict_item d ''timestamp'' | _ \<Rightarrow> Inl TypeError))"

definition from_notification ::
  "string \<Rightarrow> string \<Rightarrow> (string \<Rightarrow> string res) \<Rightarrow> string \<Rightarrow> string \<Rightarrow> pyval \<Rightarrow> string \<Rightarrow>
   string option \<Rightarrow> string option \<Rightarrow> string \<Rightarrow> pymap \<Rightarrow> pyval \<Rightarrow> pymap \<Rightarrow> string option \<Rightarrow> sample res" where
  "from_notification source_default uuid isoform name type volume unit user_id project_id resource_id
     message timestamp metadata source =
   bindr (if metadata = [] then notification_metadata message else Inr metadata) (\<lambda>md.
   bindr (if truthy timestamp then Inr timestamp else message_timestamp message) (\<lambda>t.
   bindr (case t of PStr s \<Rightarrow> isoform s | _ \<Rightarrow> Inl TypeError) (\<lambda>ts.
     Inr (new_sample source_default uuid name type unit volume user_id project_id resource_id
            (Some ts) md source None PNone))))"

section \<open>Reserved user metadata\<close>

record sample_conf =
  reserved_metadata_namespace :: "string list"
  reserved_metadata_length :: int
  reserved_metadata_keys :: "string list"

text \<open>\<open>v[:limit]\<close>; a negative limit counts from the end.\<close>

definition slice_to :: "int \<Rightarrow> 'a list \<Rightarrow> 'a list" where
  "slice_to limit s = (if 0 \<le> limit then take (nat limit) s else take (nat (int (length s) + limit)) s)"

definition crop :: "int \<Rightarrow> pyval \<Rightarrow> pyval" where
  "crop limit v = (case v of PStr s \<Rightarrow> PStr (slice_to limit s) | _ \<Rightarrow> v)"

definition undot :: "string \<Rightarrow> string" where
  "undot k = replace_char CHR ''.'' CHR ''_'' k"

definition prefix_metadata :: "int \<Rightarrow> pymap \<Rightarrow> pymap \<Rightarrow> string \<Rightarrow> pymap" where
  "prefix_metadata limit src dest p =
     dict_update [] (map (\<lambda>(k, v). (undot (drop (length p) k), crop limit v))
       (filter (\<lambda>(k, v). startswith k p \<and> undot (drop (length p) k) \<notin> set (dict_keys dest)) src))"

definition key_metadata :: "int \<Rightarrow> pymap \<Rightarrow> pymap \<Rightarrow> string \<Rightarrow> pymap" where
  "key_metadata limit src dest mk =
     dict_update [] (map (\<lambda>(k, v). (undot k, crop limit v))
       (filter (\<lambda>(k, v). k = mk \<and> undot k \<notin> set (dict_keys dest)) src))"

definition user_metadata :: "sample_conf \<Rightarrow> pymap \<Rightarrow> pymap \<Rightarrow> pymap" where
  "user_metadata conf src dest =
     (let limit = reserved_metadata_length conf;
          um = fold (\<lambda>p um. dict_update um (prefix_metadata limit src dest p))
                 (reserved_metadata_namespace conf) []
      in fold (\<lambda>mk um. dict_update um (key_metadata limit src dest mk))
           (reserved_metadata_keys conf) um)"

definition add_reserved_user_metadata :: "sample_conf \<Rightarrow> pymap \<Rightarrow> pymap \<Rightarrow> pymap" where
  "add_reserved_user_metadata conf src dest =
     (let um = user_metadata conf src dest in
      if um \<noteq> [] then dict_set ''user_metadata'' (PDict um) dest else dest)"

text \<open>What every entry of the user metadata satisfies.\<close>

definition um_entry_ok :: "int \<Rightarrow> pymap \<Rightarrow> string \<times> pyval \<Rightarrow> bool" where
  "um_entry_ok limit dest kv =
     (CHR ''.'' \<notin> set (fst kv) \<and> fst kv \<notin> set (dict_keys dest)
      \<and> (\<forall>s. snd kv = PStr s \<longrightarrow> 0 \<le> limit \<longrightarrow> int (length s) \<le> limit))"

lemma dict_update_all:
  "\<forall>x \<in> set e. P x \<Longrightarrow> \<forall>x \<in> set d. P x \<Longrightarrow> \<forall>x \<in> set (dict_update d e). P x"
  unfolding dict_update_def
proof (induction e arbitrary: d)
  case (Cons kv e)
  obtain k v where kv: "kv = (k, v)" by (cases kv)
  have "\<forall>x \<in> set (dict_set k v d). P x"
    using Cons.prems(1) Cons.prems(2) by (auto simp: kv dest: dict_set_memberD)
  then have "\<forall>x \<in> set (fold (\<lambda>(k, v). dict_set k v) e (dict_set k v d)). P x"
    using Cons.prems(1) by (intro Cons.IH) auto
  then show ?case by (simp add: kv)
qed simp

lemma fold_dict_update_all:
  "(\<forall>x \<in> set d. P x) \<Longrightarrow> (\<And>y x. x \<in> set (f y) \<Longrightarrow> P x) \<Longrightarrow>
   \<forall>x \<in> set (fold (\<lambda>y um. dict_update um (f y)) ys d). P x"
proof (induction ys arbitrary: d)
  case (Cons y ys)
  have "\<forall>x \<in> set (dict_update d (f y)). P x"
    using Cons.prems(1) Cons.prems(2) [of _ y] by (intro dict_update_all) blast+
  then have "\<forall>x \<in> set (fold (\<lambda>y um. dict_update um (f y)) ys (dict_update d (f y))). P x"
    using Cons.prems(2) by (rule Cons.IH)
  then show ?case by simp
qed simp

lemma crop_length: "crop limit v = PStr s \<Longrightarrow> 0 \<le> limit \<Longrightarrow> int (length s) \<le> limit"
  by (cases v) (auto simp: crop_def slice_to_def)

lemma undot_no_dot: "CHR ''.'' \<notin> set (undot k)"
  by (simp add: undot_def replace_char_notin)

lemma prefix_metadata_ok: "x \<in> set (prefix_metadata limit src dest p) \<Longrightarrow> um_entry_ok limit dest x"
proof -
  have "\<forall>x \<in> set (prefix_metadata limit src dest p). um_entry_ok limit dest x"
    unfolding prefix_metadata_def
    by (rule dict_update_all) (auto simp: um_entry_ok_def undot_no_dot crop_length)
  then show "x \<in> set (prefix_metadata limit src dest p) \<Longrightarrow> um_entry_ok limit dest x" by blast
qed

lemma key_metadata_ok: "x \<in> set (key_metadata limit src dest mk) \<Longrightarrow> um_entry_ok limit dest x"
proof -
  have "\<forall>x \<in> set (key_metadata limit src dest mk). um_entry_ok limit dest x"
    unfolding key_metadata_def
    by (rule dict_update_all) (auto simp: um_entry_ok_def undot_no_dot crop_length)
  then show "x \<in> set (key_metadata limit src dest mk) \<Longrightarrow> um_entry_ok limit dest x" by blast
qed

lemma user_metadata_ok:
  "\<forall>x \<in> set (user_metadata conf src dest). um_entry_ok (reserved_metadata_length conf) dest x"
  unfolding user_metadata_def Let_def
  by (intro fold_dict_update_all) (auto intro: prefix_metadata_ok key_metadata_ok)

lemma add_reserved_other_keys:
  "k \<noteq> ''user_metadata'' \<Longrightarrow>
   dict_get (add_reserved_user_metadata conf src dest) k = dict_get dest k"
  by (simp add: add_reserved_user_metadata_def Let_def dict_get_set)

section \<open>Properties\<close>

text \<open>
  The user metadata that \<open>add_reserved_user_metadata\<close> attaches has no dot in its keys,
  uses no key the destination already has, and none of its texts is longer than the
  configured limit; every other key of the destination is left alone.
\<close>

theorem reserved_metadata_bounded:
  assumes "dict_get (add_reserved_user_metadata conf src dest) ''user_metadata'' = Some (PDict um)"
    and "dict_get dest ''user_metadata'' = None"
  shows "(\<forall>(k, v) \<in> set um. CHR ''.'' \<notin> set k \<and> k \<notin> set (dict_keys dest)
      \<and> (\<forall>s. v = PStr s \<longrightarrow> 0 \<le> reserved_metadata_length conf \<longrightarrow>
           int (length s) \<le> reserved_metadata_length conf))
    \<and> (\<forall>k. k \<noteq> ''user_metadata'' \<longrightarrow>
         dict_get (add_reserved_user_metadata conf src dest) k = dict_get dest k)"
proof -
  have "um = user_metadata conf src dest"
    using assms by (auto simp: add_reserved_user_metadata_def Let_def dict_get_set split: if_splits)
  with user_metadata_ok [of conf src dest] add_reserved_other_keys [of _ conf src dest]
  show ?thesis by (simp add: um_entry_ok_def case_prod_beta)
qed

definition demo_conf :: sample_conf where
  "demo_conf = \<lparr>reserved_metadata_namespace = [''metering.''], reserved_metadata_length = 3,
     reserved_metadata_keys = [''server_group'']\<rparr>"

theorem reserved_metadata_bounded_witness:
  "dict_get (add_reserved_user_metadata demo_conf [(''metering.a.b'', PStr ''xyzw''), (''c'', PInt 1)]
     [(''host'', PStr ''h'')]) ''user_metadata'' = Some (PDict [(''a_b'', PStr ''xyz'')])
   \<and> CHR ''.'' \<notin> set ''a_b'' \<and> int (length ''xyz'') \<le> reserved_metadata_length demo_conf
   \<and> dict_get (add_reserved_user_metadata demo_conf [(''metering.a.b'', PStr ''xyzw''), (''c'', PInt 1)]
         [(''host'', PStr ''h'')]) ''host'' = Some (PStr ''h'')"
proof -
  have um: "dict_get (add_reserved_user_metadata demo_conf [(''metering.a.b'', PStr ''xyzw''), (''c'', PInt 1)]
      [(''host'', PStr ''h'')]) ''user_metadata'' = Some (PDict [(''a_b'', PStr ''xyz'')])"
    by code_simp
  from reserved_metadata_bounded [OF um] um show ?thesis by (simp add: demo_conf_def)
qed

end
