(* ===== verification/Signature.thy ===== *)
theory Signature
  imports Sample_Model
begin

text \<open>
  Message signatures (\<^verbatim>\<open>ceilometer/publisher/utils.py\<close>). The keyed digest is the parameter
  \<open>hmac\<close>: \<open>hmac secret data\<close> is the hexadecimal HMAC-SHA256 of \<open>data\<close>; feeding it with
  several calls of \<open>update\<close> is the same as feeding it the concatenation. \<open>rp\<close> is the
  interpreter's \<open>repr\<close>.
\<close>

definition SIG :: string where "SIG = ''message_signature''"

definition unsigned_pairs :: "pymap \<Rightarrow> pymap" where
  "unsigned_pairs kvs = filter (\<lambda>(k, v). k \<noteq> SIG) kvs"

definition digest_input :: "(pyval \<Rightarrow> string) \<Rightarrow> pymap \<Rightarrow> string" where
  "digest_input rp kvs =
     concat (map (\<lambda>(k, v). utf8_encode k @ utf8_encode (py_str rp v)) (unsigned_pairs kvs))"

definition compute_signature ::
  "(string \<Rightarrow> string \<Rightarrow> string) \<Rightarrow> (pyval \<Rightarrow> string) \<Rightarrow> pymap \<Rightarrow> string \<Rightarrow> string res" where
  "compute_signature hmac rp message secret =
     (if secret = [] then Inr []
      else bindr (recursive_keypairs '':'' message) (\<lambda>kvs.
        Inr (hmac (utf8_encode secret) (digest_input rp kvs))))"

definition is_ascii :: "string \<Rightarrow> bool" where
  "is_ascii s = list_all (\<lambda>c. (of_char c :: nat) < 128) s"

definition encode_ascii :: "string \<Rightarrow> string res" where
  "encode_ascii s = (if is_ascii s then Inr s else Inl UnicodeEncodeError)"

text \<open>
  \<open>verify_signature\<close>. The handler around \<open>old_sig.encode('ascii')\<close> catches
  \<open>UnicodeDecodeError\<close> only, so the \<open>UnicodeEncodeError\<close> of a signature that is not
  ASCII goes through. Comparing with something that is no byte string raises \<open>TypeError\<close>.
\<close>

definition verify_signature ::
  "(string \<Rightarrow> string \<Rightarrow> string) \<Rightarrow> (pyval \<Rightarrow> string) \<Rightarrow> pymap \<Rightarrow> string \<Rightarrow> bool res" where
  "verify_signature hmac rp message secret =
     (if secret = [] then Inr True
      else
        (let old_sig = dict_get_default message SIG (PStr []) in
         bindr (compute_signature hmac rp message secret) (\<lambda>new_sig.
         bindr (case old_sig of PStr s \<Rightarrow> bindr (encode_ascii s) (\<lambda>b. Inr (PBytes b)) | _ \<Rightarrow> Inr old_sig)
           (\<lambda>old_sig.
         bindr (encode_ascii new_sig) (\<lambda>new_sig.
           (case old_sig of PBytes b \<Rightarrow> Inr (new_sig = b) | _ \<Rightarrow> Inl TypeError))))))"

definition sign ::
  "(string \<Rightarrow> string \<Rightarrow> string) \<Rightarrow> (pyval \<Rightarrow> string) \<Rightarrow> string \<Rightarrow> pymap \<Rightarrow> pymap res" where
  "sign hmac rp secret msg =
     bindr (compute_signature hmac rp msg secret) (\<lambda>sig. Inr (dict_set SIG (PStr sig) msg))"

definition counter_message :: "sample \<Rightarrow> pymap" where
  "counter_message s =
    [(''source'', PStr (s_source s)),
     (''counter_name'', PStr (s_name s)),
     (''counter_type'', PStr (s_type s)),
     (''counter_unit'', PStr (s_unit s)),
     (''counter_volume'', s_volume s),
     (''user_id'', opt_str (s_user_id s)),
     (''project_id'', opt_str (s_project_id s)),
     (''resource_id'', PStr (s_resource_id s)),
     (''timestamp'', opt_str (s_timestamp s)),
     (''resource_metadata'', PDict (s_resource_metadata s)),
     (''message_id'', PStr (s_id s)),
     (''monotonic_time'', s_monotonic_time s)]"

definition meter_message_from_counter ::
  "(string \<Rightarrow> string \<Rightarrow> string) \<Rightarrow> (pyval \<Rightarrow> string) \<Rightarrow> sample \<Rightarrow> string \<Rightarrow> pymap res" where
  "meter_message_from_counter hmac rp s secret = sign hmac rp secret (counter_message s)"

section \<open>Signing and verifying\<close>

lemma unsigned_concat:
  assumes "f x = Inr ys" "unsigned_pairs ys = []"
  shows "bindr (mapr f (insort_key g x xs)) (\<lambda>ps. Inr (unsigned_pairs (concat ps)))
       = bindr (mapr f xs) (\<lambda>ps. Inr (unsigned_pairs (concat ps)))"
proof (induction xs)
  case Nil
  then show ?case using assms by (simp add: unsigned_pairs_def)
next
  case (Cons a xs)
  have split: "bindr (mapr f (a # zs)) (\<lambda>ps. Inr (unsigned_pairs (concat ps)))
    = bindr (f a) (\<lambda>p. bindr (bindr (mapr f zs) (\<lambda>ps. Inr (unsigned_pairs (concat ps))))
        (\<lambda>us. Inr (unsigned_pairs p @ us)))" for zs
    by (cases "f a"; cases "mapr f zs") (simp_all add: unsigned_pairs_def)
  show ?case
  proof (cases "g x \<le> g a")
    case True
    then show ?thesis using assms
      by (cases "f a"; cases "mapr f xs") (simp_all add: unsigned_pairs_def)
  next
    case False
    then have "insort_key g x (a # xs) = a # insort_key g x xs" by simp
    then show ?thesis by (simp only: split Cons.IH)
  qed
qed

text \<open>A signature already in the message does not change the signature computed for it.\<close>

lemma sort_key_snoc:
  "fst x \<notin> set (map fst xs) \<Longrightarrow> distinct (map fst xs) \<Longrightarrow>
   sort_key fst (xs @ [x]) = insort_key fst x (sort_key fst xs)"
proof -
  assume "fst x \<notin> set (map fst xs)" "distinct (map fst xs)"
  then have "sort_key fst (xs @ [x]) = sort_key fst (x # xs)"
    by (intro sort_key_mset) (auto simp: dict_ok_def)
  then show ?thesis by simp
qed

lemma keypairs_signed:
  assumes "SIG \<notin> set (dict_keys d)" "dict_ok d" "is_scalar v"
  shows "bindr (recursive_keypairs sep (dict_set SIG v d)) (\<lambda>kvs. Inr (unsigned_pairs kvs))
       = bindr (recursive_keypairs sep d) (\<lambda>kvs. Inr (unsigned_pairs kvs))"
proof -
  have "sort_key fst (dict_set SIG v d) = insort_key fst (SIG, v) (sort_key fst d)"
    using assms by (simp add: dict_set_fresh sort_key_snoc dict_ok_def)
  moreover have "bindr (bindr m (\<lambda>ps. Inr (concat ps))) (\<lambda>kvs. Inr (unsigned_pairs kvs))
      = bindr m (\<lambda>ps. Inr (unsigned_pairs (concat ps)))" for m
    by (cases m) simp_all
  ultimately show ?thesis
    using assms(3)
    by (simp add: recursive_keypairs_def unsigned_concat [where ys = "[(SIG, v)]"]
        keypairs_scalar unsigned_pairs_def [of "[(SIG, v)]"])
qed

lemma digest_unsigned: "digest_input rp kvs = digest_input rp (unsigned_pairs kvs)"
  by (simp add: digest_input_def unsigned_pairs_def)

lemma compute_signature_unsigned:
  "compute_signature hmac rp d secret =
     (if secret = [] then Inr []
      else bindr (bindr (recursive_keypairs '':'' d) (\<lambda>kvs. Inr (unsigned_pairs kvs)))
        (\<lambda>kvs. Inr (hmac (utf8_encode secret) (digest_input rp kvs))))"
  by (cases "recursive_keypairs '':'' d")
    (simp_all add: compute_signature_def flip: digest_unsigned)

lemma compute_signature_signed:
  "SIG \<notin> set (dict_keys d) \<Longrightarrow> dict_ok d \<Longrightarrow> is_scalar v \<Longrightarrow>
   compute_signature hmac rp (dict_set SIG v d) secret = compute_signature hmac rp d secret"
  by (simp add: compute_signature_unsigned keypairs_signed)

lemma verify_sign:
  assumes "SIG \<notin> set (dict_keys d)" "dict_ok d" "sign hmac rp secret d = Inr m"
    and ascii: "\<And>k x. is_ascii (hmac k x)"
  shows "verify_signature hmac rp m secret = Inr True"
proof (cases "secret = []")
  case False
  from assms(3) obtain sig where sig: "compute_signature hmac rp d secret = Inr sig"
    and m: "m = dict_set SIG (PStr sig) d"
    by (auto simp: sign_def bindr_Inr_iff)
  have "compute_signature hmac rp m secret = Inr sig"
    using assms(1,2) sig by (simp add: m compute_signature_signed)
  moreover have "is_ascii sig"
    using sig ascii False by (auto simp: compute_signature_def bindr_Inr_iff)
  ultimately show ?thesis
    using False by (simp add: verify_signature_def m dict_get_default_def dict_get_set encode_ascii_def)
qed (simp add: verify_signature_def)

lemma counter_message_keys: "SIG \<notin> set (dict_keys (counter_message s))" "dict_ok (counter_message s)"
  by (simp_all add: counter_message_def SIG_def dict_ok_def)

lemma verify_same_order:
  "same_val (PDict d) (PDict e) \<Longrightarrow>
   compute_signature hmac rp d secret = compute_signature hmac rp e secret"
  using recursive_keypairs_same [of d e "'':''"] by (simp add: compute_signature_def)

section \<open>Signatures exist\<close>

text \<open>Without byte strings in lists, decoding and flattening never raise.\<close>

fun no_bytes :: "pyval \<Rightarrow> bool" where
  "no_bytes (PBytes s) = False"
| "no_bytes (PList xs) = list_all no_bytes xs"
| "no_bytes (PTuple xs) = list_all no_bytes xs"
| "no_bytes (PDict d) = list_all (\<lambda>(k, v). no_bytes v) d"
| "no_bytes v = True"

lemma mapr_exists: "(\<And>x. x \<in> set xs \<Longrightarrow> \<exists>y. f x = Inr y) \<Longrightarrow> \<exists>ys. mapr f xs = Inr ys"
  using mapr_all_ok [of xs f "\<lambda>_. True"] by auto

lemma decode_unicode_exists: "no_bytes v \<Longrightarrow> \<exists>w. decode_unicode v = Inr w"
proof (induction v rule: measure_induct_rule [where f = size])
  case (less v)
  have list: "\<exists>ys. mapr decode_unicode xs = Inr ys"
    if "\<And>x. x \<in> set xs \<Longrightarrow> size x < size v" "list_all no_bytes xs" for xs
    using that less.IH by (intro mapr_exists) (auto simp: list_all_iff)
  show ?case
  proof (cases v)
    case (PDict d)
    have "\<exists>e. mapr (\<lambda>(k, v). bindr (decode_unicode v) (\<lambda>w. Inr (utf8_encode k, w))) (sort_key fst d) = Inr e"
    proof (rule mapr_exists)
      fix x assume x: "x \<in> set (sort_key fst d)"
      then have "size (snd x) < size v" "no_bytes (snd x)"
        using less.prems size_dict_member [of "fst x" "snd x" d]
        by (auto simp: PDict list_all_iff case_prod_beta)
      from less.IH [OF this] show "\<exists>y. (case x of (k, v) \<Rightarrow>
          bindr (decode_unicode v) (\<lambda>w. Inr (utf8_encode k, w))) = Inr y"
        by (auto simp: case_prod_beta)
    qed
    then show ?thesis by (auto simp: PDict)
  next
    case (PList xs)
    then show ?thesis using list [of xs] less.prems by (auto simp: size_list_member)
  next
    case (PTuple xs)
    then show ?thesis using list [of xs] less.prems by (auto simp: size_list_member)
  qed (use less.prems in auto)
qed

lemma keypairs_item_exists: "no_bytes v \<Longrightarrow> \<exists>w. keypairs_item sep k v = Inr w"
proof (induction v arbitrary: k rule: measure_induct_rule [where f = size])
  case (less v)
  show ?case
  proof (cases v)
    case (PDict d)
    have "\<exists>e. mapr (\<lambda>(k, v). keypairs_item sep k v) (sort_key fst d) = Inr e"
    proof (rule mapr_exists)
      fix x assume x: "x \<in> set (sort_key fst d)"
      then have "size (snd x) < size v" "no_bytes (snd x)"
        using less.prems size_dict_member [of "fst x" "snd x" d]
        by (auto simp: PDict list_all_iff case_prod_beta)
      from less.IH [OF this] show "\<exists>y. (case x of (k, v) \<Rightarrow> keypairs_item sep k v) = Inr y"
        by (auto simp: case_prod_beta)
    qed
    then show ?thesis by (auto simp: PDict)
  next
    case (PList xs)
    with decode_unicode_exists [OF less.prems] show ?thesis by auto
  next
    case (PTuple xs)
    with decode_unicode_exists [OF less.prems] show ?thesis by auto
  qed (use less.prems in auto)
qed

lemma compute_signature_exists:
  "no_bytes (PDict d) \<Longrightarrow> \<exists>sig. compute_signature hmac rp d secret = Inr sig"
proof -
  assume "no_bytes (PDict d)"
  then have "\<exists>ps. mapr (\<lambda>(k, v). keypairs_item '':'' k v) (sort_key fst d) = Inr ps"
    by (intro mapr_exists) (auto simp: list_all_iff intro!: keypairs_item_exists)
  then show ?thesis by (auto simp: compute_signature_def recursive_keypairs_def)
qed

section \<open>Properties\<close>

text \<open>
  A metering message made from a sample carries a signature that verifies with the same
  secret. The message exists when no byte string hides in the volume, the metadata or the
  monotonic time. The digest is hexadecimal, hence ASCII.
\<close>

theorem meter_message_verifies:
  assumes "\<And>k x. is_ascii (hmac k x)"
    and "no_bytes (s_volume s)" "no_bytes (PDict (s_resource_metadata s))" "no_bytes (s_monotonic_time s)"
  shows "\<exists>m. meter_message_from_counter hmac rp s secret = Inr m
    \<and> verify_signature hmac rp m secret = Inr True"
proof -
  have "no_bytes (PDict (counter_message s))"
    using assms(2-) by (simp add: counter_message_def opt_str_def split: option.split)
  then obtain sig where "compute_signature hmac rp (counter_message s) secret = Inr sig"
    using compute_signature_exists by blast
  then obtain m where m: "sign hmac rp secret (counter_message s) = Inr m" by (simp add: sign_def)
  show ?thesis
    using m verify_sign [OF counter_message_keys m assms(1)] by (auto simp: meter_message_from_counter_def)
qed

definition demo_sample :: sample where
  "demo_sample = new_sample ''openstack'' ''u1'' ''cpu'' TYPE_GAUGE ''%'' (PInt 3) (Some ''joe'') None ''vm''
     (Some ''2017-01-01T00:00:00'') [(''host'', PStr ''h'')] None None PNone"

theorem meter_message_verifies_witness:
  "\<exists>m. meter_message_from_counter (\<lambda>k x. ''ab'') (\<lambda>v. ''?'') demo_sample ''secret'' = Inr m
    \<and> verify_signature (\<lambda>k x. ''ab'') (\<lambda>v. ''?'') m ''secret'' = Inr True"
  by (rule meter_message_verifies)
    (simp_all add: is_ascii_def demo_sample_def new_sample_def)

text \<open>
  The signature does not depend on the order in which dictionaries list their items, at
  any depth: two messages that are equal as nested dictionaries have the same signature.
\<close>

theorem signature_order_insensitive:
  assumes "same_val (PDict d) (PDict e)"
  shows "compute_signature hmac rp d secret = compute_signature hmac rp e secret"
  by (rule verify_same_order [OF assms])

theorem signature_order_insensitive_witness:
  "compute_signature (\<lambda>k x. x) (\<lambda>v. ''?'')
     [(''a'', PDict [(''x'', PInt 1), (''y'', PInt 2)]), (''b'', PInt 3)] ''s''
   = compute_signature (\<lambda>k x. x) (\<lambda>v. ''?'')
     [(''b'', PInt 3), (''a'', PDict [(''y'', PInt 2), (''x'', PInt 1)])] ''s''"
proof (rule signature_order_insensitive, rule same_dict)
  show "list_all2 (\<lambda>x y. fst x = fst y \<and> same_val (snd x) (snd y))
      [(''a'', PDict [(''x'', PInt 1), (''y'', PInt 2)]), (''b'', PInt 3)]
      [(''a'', PDict [(''y'', PInt 2), (''x'', PInt 1)]), (''b'', PInt 3)]"
    by (auto intro!: same_refl same_dict_perm simp: dict_ok_def)
qed (simp_all add: dict_ok_def)

text \<open>
  The digest runs over the names and values without any boundary between them, so that
  moving characters from a name to the value after it keeps the signature: the signature does
  not tell \<open>{k + c: v}\<close> from \<open>{k: c + v}\<close>.
\<close>

theorem signature_boundary_ambiguous:
  assumes "k @ c \<noteq> SIG" "k \<noteq> SIG"
  shows "compute_signature hmac rp [(k @ c, PStr v)] secret
       = compute_signature hmac rp [(k, PStr (c @ v))] secret"
proof -
  have "utf8_encode (a @ b) = utf8_encode a @ utf8_encode b" for a b
    by (induction a) (auto simp: Let_def)
  then show ?thesis
    using assms by (simp add: compute_signature_def recursive_keypairs_def digest_input_def unsigned_pairs_def)
qed

theorem signature_boundary_ambiguous_witness:
  "\<forall>hmac rp. compute_signature hmac rp [(''user'' @ ''_id'', PStr ''x'')] ''s''
   = compute_signature hmac rp [(''user'', PStr (''_id'' @ ''x''))] ''s''"
  by (intro allI, rule signature_boundary_ambiguous) (simp_all add: SIG_def)

end
