(* ===== verification/Url.thy ===== *)
theory Url
  imports Py_Dynamic
begin

text \<open>
  The parts of the standard library's \<open>urllib.parse\<close> that the program uses to read the URLs
  of its configuration: \<open>urlsplit\<close>, \<open>urlparse\<close>, \<open>parse_qs\<close>, the parts of a host, \<open>urlencode\<close> and \<open>urlunsplit\<close>, with the rules of the Python
  versions the repository names. Percent escapes of characters beyond ASCII are left as they
  are.
\<close>

record split_url =
  u_scheme :: string
  u_netloc :: string
  u_path :: string
  u_query :: string
  u_fragment :: string

definition scheme_char :: "char \<Rightarrow> bool" where
  "scheme_char c =
     (let n = of_char c :: nat in
      (48 \<le> n \<and> n \<le> 57) \<or> (65 \<le> n \<and> n \<le> 90) \<or> (97 \<le> n \<and> n \<le> 122)
      \<or> c = CHR ''+'' \<or> c = CHR ''-'' \<or> c = CHR ''.'')"

text \<open>The text before and after the first \<open>c\<close>; without one, all of it and nothing.\<close>

definition cut :: "char \<Rightarrow> string \<Rightarrow> string \<times> string" where
  "cut c s = (takeWhile (\<lambda>x. x \<noteq> c) s, tl (dropWhile (\<lambda>x. x \<noteq> c) s))"

text \<open>A scheme ends at a colon; what follows must not be a port number.\<close>

definition split_scheme :: "string \<Rightarrow> string \<times> string" where
  "split_scheme url =
     (let (before, rest) = cut CHR '':'' url in
      if CHR '':'' \<in> set url \<and> before \<noteq> [] \<and> list_all scheme_char before
         \<and> (rest = [] \<or> \<not> list_all is_digit rest)
      then (str_lower before, rest) else ([], url))"

definition split_netloc :: "string \<Rightarrow> string \<times> string" where
  "split_netloc s =
     (if startswith s ''//''
      then (takeWhile (\<lambda>c. c \<notin> set ''/?#'') (drop 2 s), dropWhile (\<lambda>c. c \<notin> set ''/?#'') (drop 2 s))
      else ([], s))"

text \<open>\<open>urlsplit\<close>; unbalanced brackets in the host raise \<open>ValueError\<close>.\<close>

definition urlsplit :: "string \<Rightarrow> split_url res" where
  "urlsplit url =
     (let (scheme, r1) = split_scheme url;
          (netloc, r2) = split_netloc r1;
          (r3, fragment) = cut CHR ''#'' r2;
          (path, query) = cut CHR ''?'' r3
      in if (CHR ''['' \<in> set netloc) \<noteq> (CHR '']'' \<in> set netloc) then Inl ValueError
         else Inr \<lparr>u_scheme = scheme, u_netloc = netloc, u_path = path, u_query = query, u_fragment = fragment\<rparr>)"

definition uses_params :: "string list" where
  "uses_params =
     [[], ''ftp'', ''hdl'', ''prospero'', ''http'', ''imap'', ''https'', ''shttp'', ''rtsp'', ''rtspu'',
      ''sip'', ''sips'', ''mms'', ''sftp'', ''tel'']"

text \<open>\<open>_splitparams\<close> takes the parameters off the last segment of a path.\<close>

definition drop_params :: "string \<Rightarrow> string" where
  "drop_params path =
     (let seg = rev (takeWhile (\<lambda>c. c \<noteq> CHR ''/'') (rev path));
          dir = rev (dropWhile (\<lambda>c. c \<noteq> CHR ''/'') (rev path))
      in dir @ fst (cut CHR '';'' seg))"

definition urlparse :: "string \<Rightarrow> split_url res" where
  "urlparse url =
     bindr (urlsplit url) (\<lambda>u.
       Inr (if u_scheme u \<in> set uses_params then u\<lparr>u_path := drop_params (u_path u)\<rparr> else u))"

section \<open>Host, port and user\<close>

text \<open>\<open>rpartition('@')\<close> of the host part: the user's part, if there is one, and the rest.\<close>

definition split_userinfo :: "string \<Rightarrow> string option \<times> string" where
  "split_userinfo netloc =
     (if CHR ''@'' \<in> set netloc
      then (let (h, u) = cut CHR ''@'' (rev netloc) in (Some (rev u), rev h)) else (None, netloc))"

definition u_username :: "split_url \<Rightarrow> string option" where
  "u_username u = map_option (\<lambda>i. fst (cut CHR '':'' i)) (fst (split_userinfo (u_netloc u)))"

definition u_password :: "split_url \<Rightarrow> string option" where
  "u_password u =
     (case fst (split_userinfo (u_netloc u)) of
        None \<Rightarrow> None
      | Some i \<Rightarrow> if CHR '':'' \<in> set i then Some (snd (cut CHR '':'' i)) else None)"

text \<open>The host and the text of the port; an address in brackets may hold colons.\<close>

definition hostinfo :: "split_url \<Rightarrow> string \<times> string option" where
  "hostinfo u =
     (let h = snd (split_userinfo (u_netloc u));
          (host, rest) =
            (if CHR ''['' \<in> set h
             then (let b = snd (cut CHR ''['' h)
                   in (fst (cut CHR '']'' b), snd (cut CHR '']'' b)))
             else (takeWhile (\<lambda>c. c \<noteq> CHR '':'') h, dropWhile (\<lambda>c. c \<noteq> CHR '':'') h))
      in (host, if CHR '':'' \<in> set rest then Some (snd (cut CHR '':'' rest)) else None))"

definition u_hostname :: "split_url \<Rightarrow> string option" where
  "u_hostname u = (let h = fst (hostinfo u) in if h = [] then None else Some (str_lower h))"

text \<open>A port that is no number raises; one out of range is none.\<close>

definition u_port :: "split_url \<Rightarrow> int option res" where
  "u_port u =
     (case snd (hostinfo u) of
        None \<Rightarrow> Inr None
      | Some s \<Rightarrow> bindr (py_int (PStr s)) (\<lambda>p. Inr (if 0 \<le> p \<and> p \<le> 65535 then Some p else None)))"

section \<open>Queries\<close>

definition hex_val :: "char \<Rightarrow> nat option" where
  "hex_val c =
     (let n = of_char c :: nat in
      if 48 \<le> n \<and> n \<le> 57 then Some (n - 48)
      else if 65 \<le> n \<and> n \<le> 70 then Some (n - 55)
      else if 97 \<le> n \<and> n \<le> 102 then Some (n - 87) else None)"

fun unquote :: "string \<Rightarrow> string" where
  "unquote (a # b # c # cs) =
     (if a = CHR ''%''
      then (case (hex_val b, hex_val c) of
          (Some x, Some y) \<Rightarrow>
            (if x < 8 then char_of (16 * x + y) # unquote cs else a # unquote (b # c # cs))
        | _ \<Rightarrow> a # unquote (b # c # cs))
      else a # unquote (b # c # cs))"
| "unquote cs = cs"

definition split_pairs :: "string \<Rightarrow> string list" where
  "split_pairs qs = concat (map (split_char CHR '';'') (split_char CHR ''&'' qs))"

definition query_pair :: "string \<Rightarrow> (string \<times> string) option" where
  "query_pair p =
     (let (n, v) = cut CHR ''='' p
      in if v = [] then None
         else Some (unquote (replace_char CHR ''+'' CHR '' '' n), unquote (replace_char CHR ''+'' CHR '' '' v)))"

text \<open>\<open>parse_qs\<close>: the values of each name in order; blank values are left out.\<close>

definition parse_qs :: "string \<Rightarrow> (string, string list) pydict" where
  "parse_qs qs =
     fold (\<lambda>(n, v) d. dict_set n (dict_get_default d n [] @ [v]) d)
       (List.map_filter query_pair (split_pairs qs)) []"

section \<open>Writing URLs\<close>

definition hex_digit :: "nat \<Rightarrow> char" where
  "hex_digit n = char_of (if n < 10 then 48 + n else 55 + n)"

definition is_alnum :: "char \<Rightarrow> bool" where
  "is_alnum c =
     (let n = of_char c :: nat in
      (48 \<le> n \<and> n \<le> 57) \<or> (65 \<le> n \<and> n \<le> 90) \<or> (97 \<le> n \<and> n \<le> 122))"

text \<open>\<open>quote_plus\<close>: everything but letters, digits and \<open>_.-\<close> is escaped, byte by byte.\<close>

definition quote_plus :: "string \<Rightarrow> string" where
  "quote_plus s =
     concat (map (\<lambda>c. if is_alnum c \<or> c \<in> set ''_.-'' then [c]
                      else if c = CHR '' '' then ''+''
                      else [CHR ''%'', hex_digit (of_char c div 16), hex_digit (of_char c mod 16)]) (utf8_encode s))"

text \<open>\<open>urlencode(options, True)\<close>: one pair for every value.\<close>

definition urlencode :: "(string, string list) pydict \<Rightarrow> string" where
  "urlencode options =
     join ''&'' (concat (map (\<lambda>(k, vs). map (\<lambda>v. quote_plus k @ ''='' @ quote_plus v) vs) options))"

text \<open>\<open>urlencode(options)\<close> without \<open>doseq\<close>: a list of values is written as Python shows it.\<close>

definition urlencode_plain :: "(pyval \<Rightarrow> string) \<Rightarrow> (string, string list) pydict \<Rightarrow> string" where
  "urlencode_plain rp options =
     join ''&'' (map (\<lambda>(k, vs). quote_plus k @ ''='' @ quote_plus (rp (PList (map PStr vs)))) options)"

text \<open>\<open>urlunsplit\<close> of a URL with a host.\<close>

definition urlunsplit :: "split_url \<Rightarrow> string" where
  "urlunsplit u =
     (let path = (if u_path u \<noteq> [] \<and> \<not> startswith (u_path u) ''/'' then ''/'' @ u_path u else u_path u);
          rest = ''//'' @ u_netloc u @ path
      in (if u_scheme u \<noteq> [] then u_scheme u @ '':'' else []) @ rest
         @ (if u_query u \<noteq> [] then ''?'' @ u_query u else [])
         @ (if u_fragment u \<noteq> [] then ''#'' @ u_fragment u else []))"

lemma cut_append: "c \<notin> set a \<Longrightarrow> cut c (a @ c # b) = (a, b)"
  by (induction a) (auto simp: cut_def)

lemma cut_none: "c \<notin> set s \<Longrightarrow> cut c s = (s, [])"
  by (induction s) (auto simp: cut_def)

lemma parse_qs_nonempty:
  assumes "dict_get (parse_qs qs) n = Some vs"
  shows "vs \<noteq> []"
proof -
  have nonempty: "dict_get (fold (\<lambda>(n, v) d. dict_set n (dict_get_default d n [] @ [v]) d) ps d) n = Some vs \<Longrightarrow>
    (\<And>m ws. dict_get d m = Some ws \<Longrightarrow> ws \<noteq> []) \<Longrightarrow> vs \<noteq> []" for ps :: "(string \<times> string) list" and d
  proof (induction ps arbitrary: d)
    case (Cons p ps)
    obtain a b where p: "p = (a, b)" by (cases p)
    have "ws \<noteq> []" if "dict_get (dict_set a (dict_get_default d a [] @ [b]) d) m = Some ws" for m ws
      using that Cons.prems(2) by (auto simp: dict_get_set split: if_splits)
    with Cons.prems(1) p show ?case by (intro Cons.IH) auto
  qed simp
  show ?thesis by (rule nonempty [OF assms [unfolded parse_qs_def]]) simp
qed

end
