(* ===== verification/Declarative.thy ===== *)
theory Declarative
  imports Ceil_Utils
begin

text \<open>
  Declarative definitions (\<^verbatim>\<open>ceilometer/declarative.py\<close>) and the trait plugins
  (\<^verbatim>\<open>ceilometer/event/trait_plugins.py\<close>): how a field of a notification is described in a
  definition file and how its values are extracted.

  The environment holds what comes from elsewhere: the JSONPath parser (\<open>jsonpath s\<close> is the
  \<open>find\<close> method of the parsed path, or the parser's exception), \<open>parse_isotime\<close> (an
  instant in microseconds) and the interpreter's \<open>repr\<close>.
\<close>

section \<open>Matches\<close>

text \<open>A match of a JSONPath: its value, its last path element and the match it lies in.\<close>

datatype jmatch = JMatch (jm_context: "jmatch option") (jm_path: string) (jm_value: pyval)

type_synonym finder = "pyval \<Rightarrow> jmatch list res"

record denv =
  jsonpath :: "string \<Rightarrow> finder res"
  d_isotime :: "string \<Rightarrow> int res"
  d_repr :: "pyval \<Rightarrow> string"

text \<open>\<open>_get_path\<close>: the path elements below the root, which has no context.\<close>

fun get_path :: "jmatch \<Rightarrow> string list" where
  "get_path (JMatch ctx p v) = (case ctx of None \<Rightarrow> [] | Some c \<Rightarrow> get_path c @ [p])"

section \<open>Trait plugins\<close>

text \<open>
  The three plugins the program registers, with the attributes their constructors set; the
  values come from a configuration file and may have any type.
\<close>

datatype plugin =
    Splitter pyval pyval pyval
  | Bitfield pyval pyval
  | Timedelta

definition kwarg :: "pymap \<Rightarrow> string \<Rightarrow> pyval \<Rightarrow> pyval" where
  "kwarg kw k d = dict_get_default kw k d"

text \<open>
  \<open>SplitterTraitPlugin.__init__\<close>; the deprecation warning it formats requires the segment
  and the limit to be numbers.
\<close>

definition splitter_init :: "pymap \<Rightarrow> plugin res" where
  "splitter_init kw =
     (let separator = kwarg kw ''separator'' (PStr ''.'');
          segment = kwarg kw ''segment'' (PInt 0);
          max_split = kwarg kw ''max_split'' PNone
      in bindr (fmt_d segment) (\<lambda>_.
         bindr (fmt_d (if max_split = PNone then PInt (- 1) else max_split)) (\<lambda>_.
           Inr (Splitter separator segment max_split))))"

definition splitter_value :: "denv \<Rightarrow> pyval \<Rightarrow> pyval \<Rightarrow> pyval \<Rightarrow> string \<times> pyval \<Rightarrow> pyval res" where
  "splitter_value env separator segment max_split m =
     (let value = py_str (d_repr env) (snd m) in
      bindr (if max_split = PNone then py_split value separator None
             else bindr (int_arg max_split) (\<lambda>n. py_split value separator (Some n))) (\<lambda>values.
      bindr (int_arg segment) (\<lambda>i.
        (case list_index values i of Inl e \<Rightarrow> Inr PNone | Inr w \<Rightarrow> Inr (PStr w)))))"

definition bitfield_init :: "pymap \<Rightarrow> plugin res" where
  "bitfield_init kw =
     (let flags = kwarg kw ''flags'' PNone
      in Inr (Bitfield (kwarg kw ''initial_bitfield'' (PInt 0))
               (if flags = PNone then PList [] else flags)))"

text \<open>\<open>bitfield |= 2 ** n\<close>: a negative exponent gives a float, which \<open>|\<close> refuses.\<close>

definition set_bit_value :: "pyval \<Rightarrow> int \<Rightarrow> pyval res" where
  "set_bit_value bitfield n =
     (case as_int bitfield of
        None \<Rightarrow> Inl TypeError
      | Some b \<Rightarrow> (if n < 0 then Inl TypeError else Inr (PInt (or b (2 ^ nat n)))))"

definition key_str :: "pyval \<Rightarrow> string res" where
  "key_str k = (case k of PStr s \<Rightarrow> Inr s | _ \<Rightarrow> Inl (if hashable k then KeyError [] else TypeError))"

definition has_key :: "pymap \<Rightarrow> pyval \<Rightarrow> bool res" where
  "has_key m k =
     (if \<not> hashable k then Inl TypeError
      else Inr (case k of PStr s \<Rightarrow> s \<in> set (dict_keys m) | _ \<Rightarrow> False))"

definition flag_step :: "pymap \<Rightarrow> pyval \<Rightarrow> pyval \<Rightarrow> pyval res" where
  "flag_step matches flagdef bitfield =
     bindr (py_getitem flagdef (PStr ''path'')) (\<lambda>path.
     bindr (bindr (py_getitem flagdef (PStr ''bit'')) py_int) (\<lambda>n.
     bindr (has_key matches path) (\<lambda>present.
       if \<not> present then Inr bitfield
       else bindr (py_contains flagdef ''value'') (\<lambda>has_value.
         if has_value
         then bindr (py_getitem (PDict matches) path) (\<lambda>v.
              bindr (py_getitem flagdef (PStr ''value'')) (\<lambda>w.
                if py_eq v w then set_bit_value bitfield n else Inr bitfield))
         else set_bit_value bitfield n))))"

fun flag_loop :: "pymap \<Rightarrow> pyval list \<Rightarrow> pyval \<Rightarrow> pyval res" where
  "flag_loop matches [] bitfield = Inr bitfield"
| "flag_loop matches (f # fs) bitfield =
     bindr (flag_step matches f bitfield) (flag_loop matches fs)"

definition bitfield_values :: "pyval \<Rightarrow> pyval \<Rightarrow> pymap \<Rightarrow> pyval list res" where
  "bitfield_values initial flags match_list =
     bindr (py_iter flags) (\<lambda>fs.
     bindr (flag_loop (dict_update [] match_list) fs initial) (\<lambda>b. Inr [b]))"

text \<open>The old method of a plugin, which the base class wraps.\<close>

definition isotime_of :: "denv \<Rightarrow> pyval \<Rightarrow> int res" where
  "isotime_of env v = (case v of PStr s \<Rightarrow> d_isotime env s | _ \<Rightarrow> Inl ValueError)"

definition timedelta_value :: "denv \<Rightarrow> pymap \<Rightarrow> pyval" where
  "timedelta_value env match_list =
     (case match_list of
        [start, end] \<Rightarrow>
          (case (isotime_of env (snd start), isotime_of env (snd end)) of
             (Inr s, Inr e) \<Rightarrow> PFloat (Fin (of_int \<bar>e - s\<bar> / 1000000))
           | _ \<Rightarrow> PNone)
      | _ \<Rightarrow> PNone)"

definition trait_values :: "denv \<Rightarrow> plugin \<Rightarrow> pymap \<Rightarrow> pyval list res" where
  "trait_values env p match_list =
     (case p of
        Splitter sep seg ms \<Rightarrow> mapr (splitter_value env sep seg ms) match_list
      | Bitfield initial flags \<Rightarrow> bitfield_values initial flags match_list
      | Timedelta \<Rightarrow> Inr [timedelta_value env match_list])"

definition support_return_all_values :: "plugin \<Rightarrow> bool" where
  "support_return_all_values p = (case p of Splitter a b c \<Rightarrow> True | _ \<Rightarrow> False)"

text \<open>The extension manager: the registered names and their constructors.\<close>

type_synonym plugin_manager = "string \<Rightarrow> (pymap \<Rightarrow> plugin res) option"

definition builtin_plugins :: plugin_manager where
  "builtin_plugins n =
     (if n = ''split'' then Some splitter_init
      else if n = ''bitfield'' then Some bitfield_init
      else if n = ''timedelta'' then Some (\<lambda>kw. Inr Timedelta)
      else None)"

section \<open>Definitions\<close>

datatype getter = Const pyval | Find finder

record definition_obj =
  df_name :: "string option"
  df_cfg :: pyval
  df_plugin :: "plugin option"
  df_getter :: getter

text \<open>
  \<open>make_getter\<close> keeps the parsed paths in a cache of the class. A list or a dictionary
  cannot be looked up in it, and the parser refuses anything else but text.
\<close>

type_synonym getters = "(string, finder) pydict"

definition make_getter :: "denv \<Rightarrow> pyval \<Rightarrow> getters \<Rightarrow> (getters, finder) sres" where
  "make_getter env flds cache =
     (case flds of
        PStr s \<Rightarrow>
          (case dict_get cache s of
             Some f \<Rightarrow> (cache, Inr f)
           | None \<Rightarrow>
               (case jsonpath env s of
                  Inl e \<Rightarrow> (cache, Inl e)
                | Inr f \<Rightarrow> (dict_set s f cache, Inr f)))
      | _ \<Rightarrow> (cache, Inl TypeError))"

definition show_name :: "string option \<Rightarrow> string" where
  "show_name n = (case n of None \<Rightarrow> ''None'' | Some s \<Rightarrow> s)"

text \<open>The plugin of a definition, with its parameters.\<close>

definition plugin_spec :: "string option \<Rightarrow> pyval \<Rightarrow> (pyval \<times> pyval) res" where
  "plugin_spec name plugin_cfg =
     (if is_str plugin_cfg then Inr (plugin_cfg, PDict [])
      else
        (case py_getitem plugin_cfg (PStr ''name'') of
           Inl (KeyError k) \<Rightarrow>
             Inl (DefinitionException (''Plugin specified, but no plugin name supplied for '' @ show_name name))
         | Inl e \<Rightarrow> Inl e
         | Inr n \<Rightarrow>
             bindr (py_get plugin_cfg ''parameters'' PNone) (\<lambda>ps.
               Inr (n, if ps = PNone then PDict [] else ps))))"

definition load_plugin :: "denv \<Rightarrow> plugin_manager \<Rightarrow> string option \<Rightarrow> pyval \<Rightarrow> plugin res" where
  "load_plugin env plugins name plugin_cfg =
     bindr (plugin_spec name plugin_cfg) (\<lambda>(n, ps).
       (if \<not> hashable n then Inl TypeError
        else (case (case n of PStr s \<Rightarrow> plugins s | _ \<Rightarrow> None) of
            None \<Rightarrow>
              Inl (DefinitionException (''No plugin named '' @ py_str (d_repr env) n
                     @ '' available for '' @ show_name name))
          | Some ctor \<Rightarrow> (case ps of PDict kw \<Rightarrow> ctor kw | _ \<Rightarrow> Inl TypeError))))"

text \<open>A list of alternatives is joined into one path, a list of one is that one.\<close>

definition combine_fields :: "denv \<Rightarrow> pyval \<Rightarrow> pyval" where
  "combine_fields env flds =
     (case flds of
        PList [x] \<Rightarrow> x
      | PList xs \<Rightarrow> PStr (join ''|'' (map (\<lambda>p. ''('' @ py_str (d_repr env) p @ '')'') xs))
      | v \<Rightarrow> v)"

definition definition_fields ::
  "denv \<Rightarrow> plugin_manager \<Rightarrow> string option \<Rightarrow> pyval \<Rightarrow> (plugin option \<times> pyval) res" where
  "definition_fields env plugins name cfg =
     (case cfg of
        PDict d \<Rightarrow>
          (case dict_get d ''fields'' of
             None \<Rightarrow> Inl (DefinitionException (''The field 'fields' is required for '' @ show_name name))
           | Some flds \<Rightarrow>
               (case dict_get d ''plugin'' of
                  None \<Rightarrow> Inr (None, flds)
                | Some p \<Rightarrow> bindr (load_plugin env plugins name p) (\<lambda>pl. Inr (Some pl, flds))))
      | _ \<Rightarrow> Inr (None, cfg))"

definition definition_init ::
  "denv \<Rightarrow> plugin_manager \<Rightarrow> string option \<Rightarrow> pyval \<Rightarrow> getters \<Rightarrow> (getters, definition_obj) sres" where
  "definition_init env plugins name cfg cache =
     (case definition_fields env plugins name cfg of
        Inl e \<Rightarrow> (cache, Inl e)
      | Inr (pl, fs) \<Rightarrow>
          (let flds = combine_fields env fs;
               obj = (\<lambda>g. \<lparr>df_name = name, df_cfg = cfg, df_plugin = pl, df_getter = g\<rparr>)
           in if as_int flds \<noteq> None then (cache, Inr (obj (Const flds)))
              else
                (case make_getter env flds cache of
                   (cache', Inl e) \<Rightarrow>
                     (cache', Inl (DefinitionException (''Parse error in JSONPath specification ''
                        @ py_str (d_repr env) flds @ '' for '' @ show_name name)))
                 | (cache', Inr f) \<Rightarrow> (cache', Inr (obj (Find f))))))"

text \<open>
  \<open>parse\<close>: a constant is returned as it is. Otherwise the matches, those without a value
  left out unless all values are asked for, go through the plugin. The message about a plugin
  that gives one value only reads \<open>cfg['plugin']['name']\<close>, which a plugin given by its name
  alone does not have.
\<close>

definition plugin_values :: "denv \<Rightarrow> definition_obj \<Rightarrow> plugin \<Rightarrow> bool \<Rightarrow> jmatch list \<Rightarrow> pyval list res" where
  "plugin_values env d p return_all ms =
     (if return_all \<and> \<not> support_return_all_values p
      then bindr (bindr (py_getitem (df_cfg d) (PStr ''plugin'')) (\<lambda>pc. py_getitem pc (PStr ''name''))) (\<lambda>n.
             Inl (DefinitionException (''Plugin '' @ py_str (d_repr env) n
                    @ '' don't allows to return multiple values'')))
      else bindr (trait_values env p (map (\<lambda>m. (join ''.'' (get_path m), jm_value m)) ms)) (\<lambda>vs.
             Inr (filter (\<lambda>v. v \<noteq> PNone) vs)))"

definition parse_values :: "denv \<Rightarrow> definition_obj \<Rightarrow> pyval \<Rightarrow> bool \<Rightarrow> finder \<Rightarrow> pyval list res" where
  "parse_values env d obj return_all f =
     bindr (f obj) (\<lambda>found.
       (let ms = filter (\<lambda>m. return_all \<or> jm_value m \<noteq> PNone) found in
        case df_plugin d of
          Some p \<Rightarrow> plugin_values env d p return_all ms
        | None \<Rightarrow> Inr (map jm_value ms)))"

definition parse_def :: "denv \<Rightarrow> definition_obj \<Rightarrow> pyval \<Rightarrow> bool \<Rightarrow> pyval res" where
  "parse_def env d obj return_all =
     (case df_getter d of
        Const v \<Rightarrow> Inr v
      | Find f \<Rightarrow>
          bindr (parse_values env d obj return_all f) (\<lambda>vs.
            Inr (if return_all then PList vs else (case vs of [] \<Rightarrow> PNone | v # _ \<Rightarrow> v))))"

section \<open>Definition files\<close>

text \<open>
  The file system and the YAML parser: \<open>f_find\<close> is \<open>conf.find_file\<close>, \<open>f_yaml\<close> is
  \<open>yaml.safe_load\<close>.
\<close>

record files =
  f_exists :: "string \<Rightarrow> bool"
  f_find :: "string \<Rightarrow> string option"
  f_read :: "string \<Rightarrow> string res"
  f_yaml :: "string \<Rightarrow> pyval res"

definition definitions_file :: "files \<Rightarrow> string \<Rightarrow> string option \<Rightarrow> string option" where
  "definitions_file fs config_file fallback =
     (let found = (if f_exists fs config_file then Some config_file else f_find fs config_file)
      in if (found = None \<or> found = Some []) \<and> fallback \<noteq> None then fallback else found)"

definition load_definitions :: "files \<Rightarrow> pyval \<Rightarrow> string \<Rightarrow> string option \<Rightarrow> pyval res" where
  "load_definitions fs defaults config_file fallback =
     (case definitions_file fs config_file fallback of
        None \<Rightarrow> Inr defaults
      | Some f \<Rightarrow> bindr (f_read fs f) (f_yaml fs))"

section \<open>Facts\<close>

text \<open>A cache is sound when every entry is what the parser gives.\<close>

definition cache_sound :: "denv \<Rightarrow> getters \<Rightarrow> bool" where
  "cache_sound env cache \<longleftrightarrow> (\<forall>s f. dict_get cache s = Some f \<longrightarrow> jsonpath env s = Inr f)"

lemma cache_sound_Nil [simp]: "cache_sound env []"
  by (simp add: cache_sound_def)

lemma make_getter_sound:
  assumes "cache_sound env cache"
  shows "cache_sound env (fst (make_getter env flds cache))
    \<and> snd (make_getter env flds cache) = snd (make_getter env flds [])"
  using assms
  by (auto simp: make_getter_def cache_sound_def dict_get_set split: pyval.split option.split sum.split if_splits)

lemma definition_init_sound:
  assumes "cache_sound env cache"
  shows "cache_sound env (fst (definition_init env plugins name cfg cache))
    \<and> snd (definition_init env plugins name cfg cache) = snd (definition_init env plugins name cfg [])"
proof (cases "definition_fields env plugins name cfg")
  case (Inr r)
  obtain pl fs where r: "r = (pl, fs)" by (cases r)
  from make_getter_sound [OF assms, of "combine_fields env fs"] show ?thesis
    by (auto simp: definition_init_def Inr r Let_def assms split: prod.splits sum.split)
qed (simp add: definition_init_def assms)

lemma definition_init_obj:
  "definition_init env plugins name cfg cache = (c, Inr d) \<Longrightarrow> df_name d = name \<and> df_cfg d = cfg"
  by (auto simp: definition_init_def Let_def split: sum.splits prod.splits if_splits)

text \<open>A bit of the field is set when it was set before or a flag of it fires.\<close>

lemma set_bit_value_bit:
  "set_bit_value (PInt b) n = Inr v \<Longrightarrow> \<exists>c. v = PInt c \<and> (\<forall>k. bit c k \<longleftrightarrow> bit b k \<or> int k = n)"
  by (auto simp: set_bit_value_def bit_or_iff bit_exp_iff split: if_splits)

text \<open>A flag fires when its path was matched with its value, or at all if it has no value.\<close>

definition fires :: "pymap \<Rightarrow> pyval \<Rightarrow> bool" where
  "fires matches flagdef =
     (case flagdef of
        PDict fd \<Rightarrow>
          (case dict_get fd ''path'' of
             Some (PStr p) \<Rightarrow>
               (case dict_get matches p of
                  None \<Rightarrow> False
                | Some v \<Rightarrow> (case dict_get fd ''value'' of None \<Rightarrow> True | Some w \<Rightarrow> py_eq v w))
           | _ \<Rightarrow> False)
      | _ \<Rightarrow> False)"

definition flag_bit :: "pyval \<Rightarrow> int res" where
  "flag_bit flagdef = bindr (py_getitem flagdef (PStr ''bit'')) py_int"

lemma getitem_path_dict:
  "py_getitem f (PStr k) = Inr v \<Longrightarrow> \<exists>fd. f = PDict fd \<and> dict_get fd k = Some v"
  by (cases f) (auto simp: py_getitem_def dict_item_Inr_iff)

lemma flag_step_fires:
  assumes "flag_step m f (PInt b) = Inr v"
  shows "\<exists>c. v = PInt c \<and> (\<forall>k. bit c k \<longleftrightarrow> bit b k \<or> fires m f \<and> flag_bit f = Inr (int k))"
proof -
  from assms obtain path n present where path: "py_getitem f (PStr ''path'') = Inr path"
    and n: "flag_bit f = Inr n" and present: "has_key m path = Inr present"
    and rest: "(if \<not> present then Inr (PInt b)
       else bindr (py_contains f ''value'') (\<lambda>has_value.
         if has_value
         then bindr (py_getitem (PDict m) path) (\<lambda>v.
              bindr (py_getitem f (PStr ''value'')) (\<lambda>w.
                if py_eq v w then set_bit_value (PInt b) n else Inr (PInt b)))
         else set_bit_value (PInt b) n)) = Inr v"
    unfolding flag_step_def flag_bit_def [symmetric] bindr_Inr_iff by blast
  obtain fd where fd: "f = PDict fd" "dict_get fd ''path'' = Some path"
    using getitem_path_dict [OF path] by blast
  have "v = PInt b \<and> \<not> fires m f \<or> set_bit_value (PInt b) n = Inr v \<and> fires m f"
  proof (cases path)
    case (PStr p)
    show ?thesis
    proof (cases "dict_get m p")
      case None
      then have "\<not> present" using present by (simp add: PStr has_key_def map_of_eq_None_iff split: if_splits)
      then show ?thesis using rest None by (simp add: fires_def fd PStr)
    next
      case (Some u)
      then have "p \<in> fst ` set m" by (metis fst_conv imageI map_of_SomeD)
      then have "present" using present by (simp add: PStr has_key_def)
      moreover have "''value'' \<in> set (dict_keys fd) \<longleftrightarrow> dict_get fd ''value'' \<noteq> None"
        by (metis dict_get_None_iff)
      ultimately show ?thesis using Some rest
        by (cases "dict_get fd ''value''")
          (auto simp: fires_def fd PStr py_contains_def py_getitem_def dict_item_def split: if_splits)
    qed
  qed (use present rest in \<open>auto simp: fires_def fd has_key_def split: if_splits\<close>)
  then show ?thesis using set_bit_value_bit [of b n v] n by auto
qed

lemma flag_loop_fires:
  "flag_loop m fs (PInt b) = Inr v \<Longrightarrow>
   \<exists>c. v = PInt c \<and> (\<forall>k. bit c k \<longleftrightarrow> bit b k \<or> (\<exists>f \<in> set fs. fires m f \<and> flag_bit f = Inr (int k)))"
proof (induction fs arbitrary: b)
  case (Cons f fs)
  from Cons.prems obtain u where u: "flag_step m f (PInt b) = Inr u" and rest: "flag_loop m fs u = Inr v"
    by (auto simp: bindr_Inr_iff)
  from flag_step_fires [OF u] obtain c where c: "u = PInt c"
    "\<forall>k. bit c k \<longleftrightarrow> bit b k \<or> fires m f \<and> flag_bit f = Inr (int k)" by blast
  from Cons.IH [of c] rest c show ?case by auto
qed auto

section \<open>Properties\<close>

text \<open>
  The bit-field plugin yields one number, in which a bit is set exactly when it was set
  in the initial value or when a flag for it fires: the path of the flag was matched, with the
  value the flag asks for if it names one.
\<close>

theorem bitfield_correct:
  assumes "trait_values env (Bitfield (PInt b) (PList flags)) matches = Inr vs"
  shows "\<exists>c. vs = [PInt c] \<and> (\<forall>k. bit c k =
    (bit b k \<or> (\<exists>f \<in> set flags. fires (dict_update [] matches) f \<and> flag_bit f = Inr (int k))))"
  using assms flag_loop_fires [of "dict_update [] matches" flags b]
  by (auto simp: trait_values_def bitfield_values_def py_iter_def bindr_Inr_iff)

definition no_env :: denv where
  "no_env = \<lparr>jsonpath = \<lambda>s. Inl ValueError, d_isotime = \<lambda>s. Inl ValueError, d_repr = \<lambda>v. []\<rparr>"

theorem bitfield_correct_witness:
  "trait_values no_env (Bitfield (PInt 1) (PList [PDict [(''path'', PStr ''a''), (''bit'', PInt 3)]]))
     [(''a'', PBool True)] = Inr [PInt 9]
   \<and> bit (9::int) 3 \<and> \<not> bit (9::int) 1"
proof -
  have v: "trait_values no_env (Bitfield (PInt 1) (PList [PDict [(''path'', PStr ''a''), (''bit'', PInt 3)]]))
      [(''a'', PBool True)] = Inr [PInt 9]"
    by code_simp
  have f: "fires (dict_update [] [(''a'', PBool True)]) (PDict [(''path'', PStr ''a''), (''bit'', PInt 3)])
      \<and> flag_bit (PDict [(''path'', PStr ''a''), (''bit'', PInt 3)]) = Inr 3"
    by code_simp
  from bitfield_correct [OF v] f have "bit (9::int) 3" "bit (9::int) 1 = bit (1::int) 1" by auto
  with v show ?thesis by simp
qed

end
