(* ===== verification/Pipeline_Config.thy ===== *)
theory Pipeline_Config
  imports Sample_Model
begin

text \<open>
  The configuration half of \<^verbatim>\<open>ceilometer/pipeline.py\<close>: sources with their filters, sinks, the
  publisher cache, the construction of pipelines from the configuration, the polling sources,
  and the refresh of configuration files.

  A configuration document is typed as its documentation says: names, meters, events, sinks
  and publishers are strings; an absent key is \<open>None\<close>.
\<close>

section \<open>Name patterns\<close>

text \<open>
  \<open>fnm name pattern\<close> is \<open>fnmatch.fnmatch\<close> of oslo.utils, a parameter. What the code relies
  on: the pattern \<open>*\<close> matches every name. \<open>glob\<close> is the matching the standard library
  documents: \<open>*\<close>, \<open>?\<close> and character sets in brackets.
\<close>

type_synonym matcher = "string \<Rightarrow> string \<Rightarrow> bool"

fun class_member :: "char \<Rightarrow> string \<Rightarrow> bool" where
  "class_member x (a # b # c # cs) =
     (if b = CHR ''-'' then (a \<le> x \<and> x \<le> c) \<or> class_member x cs
      else x = a \<or> class_member x (b # c # cs))"
| "class_member x cs = (x \<in> set cs)"

definition bracket :: "string \<Rightarrow> (bool \<times> string \<times> string) option" where
  "bracket p =
     (let neg = (p \<noteq> [] \<and> hd p = CHR ''!'');
          p1 = (if neg then tl p else p);
          lead = (if p1 \<noteq> [] \<and> hd p1 = CHR '']'' then ['']''] else []);
          p2 = (if lead = [] then p1 else tl p1)
      in if CHR '']'' \<in> set p2
         then Some (neg, concat lead @ takeWhile (\<lambda>c. c \<noteq> CHR '']'') p2,
                    tl (dropWhile (\<lambda>c. c \<noteq> CHR '']'') p2))
         else None)"

lemma length_tl_le: "length (tl xs) \<le> length xs"
  by simp

lemma bracket_shorter: "bracket p = Some (neg, cs, rest) \<Longrightarrow> length rest \<le> length p"
proof -
  have le: "length (tl (dropWhile P q)) \<le> length q" for P and q :: string
    by (rule le_trans [OF length_tl_le length_dropWhile_le])
  have le1: "length (tl (dropWhile P (tl q))) \<le> length q" for P and q :: string
    by (rule le_trans [OF le length_tl_le])
  have le2: "length (tl (dropWhile P (tl (tl q)))) \<le> length q" for P and q :: string
    by (rule le_trans [OF le1 length_tl_le])
  assume "bracket p = Some (neg, cs, rest)"
  then show ?thesis
    by (auto simp: bracket_def Let_def le le1 le2 simp del: length_tl split: if_splits)
qed

function glob_match :: "string \<Rightarrow> string \<Rightarrow> bool" where
  "glob_match [] s = (s = [])"
| "glob_match (c # p) s =
     (if c = CHR ''*'' then
        (if s = [] then glob_match p s else glob_match p s \<or> glob_match (c # p) (tl s))
      else if s = [] then False
      else if c = CHR ''?'' then glob_match p (tl s)
      else if c = CHR ''['' then
        (case bracket p of
           None \<Rightarrow> hd s = c \<and> glob_match p (tl s)
         | Some (neg, cs, rest) \<Rightarrow> class_member (hd s) cs \<noteq> neg \<and> glob_match rest (tl s))
      else hd s = c \<and> glob_match p (tl s))"
  by pat_completeness auto
termination
  by (relation "measure (\<lambda>(p, s). length p + length s)")
    (auto dest: bracket_shorter intro: le_less_trans simp: neq_Nil_conv)

declare glob_match.simps(2) [simp del]

definition glob :: matcher where
  "glob name pattern = glob_match pattern name"

lemma glob_star: "glob name ''*''"
  unfolding glob_def
proof (induction name)
  case Nil
  show ?case by (subst glob_match.simps) simp
next
  case (Cons c name)
  then show ?case by (subst glob_match.simps) simp
qed

section \<open>Sources\<close>

record source_cfg =
  c_name :: "string option"
  c_meters :: "string list option"
  c_events :: "string list option"
  c_sinks :: "string list option"
  c_interval :: "pyval option"
  c_resources :: "pyval option"
  c_discovery :: "pyval option"

definition required :: "string \<Rightarrow> 'a option \<Rightarrow> 'a res" where
  "required field v =
     (case v of
        None \<Rightarrow> Inl (PipelineException (''Required field '' @ field @ '' not specified''))
      | Some a \<Rightarrow> Inr a)"

definition is_included :: "string \<Rightarrow> bool" where
  "is_included x = (x \<noteq> [] \<and> hd x \<noteq> CHR ''!'' \<and> hd x \<noteq> CHR ''*'')"

definition is_excluded :: "string \<Rightarrow> bool" where
  "is_excluded x = (x \<noteq> [] \<and> hd x = CHR ''!'')"

text \<open>
  \<open>check_source_filtering\<close>: an empty pattern has no first character (\<open>x[0]\<close> raises
  \<open>IndexError\<close>). No data at all is \<open>None\<close> or the empty list.
\<close>

definition check_source_filtering :: "string list option \<Rightarrow> string \<Rightarrow> unit res" where
  "check_source_filtering data d_type =
     (case data of
        None \<Rightarrow> Inl (PipelineException (''No '' @ d_type @ '' specified''))
      | Some xs \<Rightarrow>
          (if xs = [] then Inl (PipelineException (''No '' @ d_type @ '' specified''))
           else if [] \<in> set xs then Inl IndexError
           else if list_ex is_included xs \<and> list_ex is_excluded xs
           then Inl (PipelineException (''Both included and excluded '' @ d_type @ '' specified''))
           else if ''*'' \<in> set xs \<and> list_ex is_included xs
           then Inl (PipelineException (''Included '' @ d_type @ '' specified with wildcard''))
           else Inr ()))"

text \<open>\<open>is_supported\<close>: deny, then allow, then the default of a list of negations.\<close>

definition is_supported :: "matcher \<Rightarrow> string list \<Rightarrow> string \<Rightarrow> bool" where
  "is_supported fnm dataset name =
     (if list_ex (\<lambda>d. is_excluded d \<and> fnm name (tl d)) dataset then False
      else if list_ex (\<lambda>d. \<not> is_excluded d \<and> fnm name d) dataset then True
      else list_all (\<lambda>d. startswith d ''!'') dataset)"

record source =
  src_name :: string
  src_data :: "string list"
  src_sinks :: "string list"

definition pipeline_source_init :: "source_cfg \<Rightarrow> (string \<times> string list) res" where
  "pipeline_source_init cfg =
     bindr (required ''name'' (c_name cfg)) (\<lambda>name.
     bindr (required ''sinks'' (c_sinks cfg)) (\<lambda>sinks. Inr (name, sinks)))"

text \<open>\<open>EventSource.__init__\<close> and \<open>SampleSource.__init__\<close>\<close>

definition event_source :: "source_cfg \<Rightarrow> source res" where
  "event_source cfg =
     bindr (pipeline_source_init cfg) (\<lambda>(name, sinks).
     bindr (check_source_filtering (c_events cfg) ''events'') (\<lambda>_.
       Inr \<lparr>src_name = name, src_data = (case c_events cfg of None \<Rightarrow> [] | Some e \<Rightarrow> e),
            src_sinks = sinks\<rparr>))"

definition sample_source :: "source_cfg \<Rightarrow> source res" where
  "sample_source cfg =
     bindr (pipeline_source_init cfg) (\<lambda>(name, sinks).
       (case c_meters cfg of
          None \<Rightarrow> Inl (PipelineException ''Missing meters value'')
        | Some meters \<Rightarrow>
            bindr (check_source_filtering (Some meters) ''meters'') (\<lambda>_.
              Inr \<lparr>src_name = name, src_data = meters, src_sinks = sinks\<rparr>)))"

definition support_meter :: "matcher \<Rightarrow> source \<Rightarrow> string \<Rightarrow> bool" where
  "support_meter fnm src name = is_supported fnm (src_data src) name"

definition check_sinks :: "source \<Rightarrow> string list \<Rightarrow> unit res" where
  "check_sinks src sinks =
     (if src_sinks src = [] then Inl (PipelineException (''No sink defined in source '' @ src_name src))
      else (case List.find (\<lambda>s. s \<notin> set sinks) (src_sinks src) of
          None \<Rightarrow> Inr ()
        | Some s \<Rightarrow> Inl (PipelineException (''Dangling sink '' @ s @ '' from source '' @ src_name src))))"

subsection \<open>Polling sources\<close>

record polling_source =
  ps_name :: string
  ps_meters :: "string list"
  ps_interval :: int
  ps_resources :: "pyval list"
  ps_discovery :: "pyval list"

text \<open>\<open>cfg.get(k) or []\<close>, which must be a list.\<close>

definition list_or_empty :: "string \<Rightarrow> pyval option \<Rightarrow> pyval list res" where
  "list_or_empty msg v =
     (case py_or (case v of None \<Rightarrow> PNone | Some w \<Rightarrow> w) (PList []) of
        PList xs \<Rightarrow> Inr xs
      | _ \<Rightarrow> Inl (PipelineException msg))"

definition polling_interval :: "pyval option \<Rightarrow> int res" where
  "polling_interval v =
     (case v of
        None \<Rightarrow> Inl (PipelineException ''Missing interval value'')
      | Some w \<Rightarrow>
          (case py_int w of
             Inl e \<Rightarrow> Inl (if e = ValueError then PipelineException ''Invalid interval value'' else e)
           | Inr i \<Rightarrow>
               (if i \<le> 0 then Inl (PipelineException ''Interval value should > 0'') else Inr i)))"

definition polling_source_init :: "source_cfg \<Rightarrow> polling_source res" where
  "polling_source_init cfg =
     bindr (required ''name'' (c_name cfg)) (\<lambda>name.
       (case c_meters cfg of
          None \<Rightarrow> Inl (PipelineException ''Missing meters value'')
        | Some meters \<Rightarrow>
            bindr (polling_interval (c_interval cfg)) (\<lambda>interval.
            bindr (list_or_empty ''Resources should be a list'' (c_resources cfg)) (\<lambda>resources.
            bindr (list_or_empty ''Discovery should be a list'' (c_discovery cfg)) (\<lambda>discovery.
            bindr (check_source_filtering (Some meters) ''meters'') (\<lambda>_.
              Inr \<lparr>ps_name = name, ps_meters = meters, ps_interval = interval,
                   ps_resources = resources, ps_discovery = discovery\<rparr>))))))"

definition polling_support_meter :: "matcher \<Rightarrow> polling_source \<Rightarrow> string \<Rightarrow> bool" where
  "polling_support_meter fnm src name = is_supported fnm (ps_meters src) name"

section \<open>What a checked filter accepts\<close>

lemma check_source_filtering_ok:
  "check_source_filtering (Some xs) d = Inr () \<longleftrightarrow>
   xs \<noteq> [] \<and> [] \<notin> set xs \<and> \<not> (list_ex is_included xs \<and> (list_ex is_excluded xs \<or> ''*'' \<in> set xs))"
  by (auto simp: check_source_filtering_def)

lemma startswith_bang: "startswith d ''!'' \<longleftrightarrow> is_excluded d"
  by (cases d) (auto simp: startswith_def is_excluded_def)

text \<open>The contract of the name matcher and what sources rely on.\<close>

locale name_matcher =
  fixes fnm :: matcher
  assumes star: "fnm name ''*''"
begin

lemma supported_excluded:
  "is_excluded d \<Longrightarrow> fnm name (tl d) \<Longrightarrow> d \<in> set xs \<Longrightarrow> \<not> is_supported fnm xs name"
  by (auto simp: is_supported_def list_ex_iff)

lemma supported_included:
  assumes "check_source_filtering (Some xs) t = Inr ()" "list_ex is_included xs"
  shows "is_supported fnm xs name \<longleftrightarrow> (\<exists>d \<in> set xs. fnm name d)"
proof -
  have ne: "\<not> list_ex is_excluded xs" "xs \<noteq> []"
    using assms by (auto simp: check_source_filtering_ok)
  then have "\<not> list_all is_excluded xs" by (cases xs) auto
  with ne show ?thesis
    by (auto simp: is_supported_def startswith_bang list_ex_iff list_all_iff)
qed

lemma supported_wildcard:
  assumes "check_source_filtering (Some xs) t = Inr ()" "''*'' \<in> set xs"
  shows "is_supported fnm xs name \<longleftrightarrow> (\<forall>d \<in> set xs. is_excluded d \<longrightarrow> \<not> fnm name (tl d))"
proof -
  have "\<not> is_excluded ''*''" by (simp add: is_excluded_def)
  then have "list_ex (\<lambda>d. \<not> is_excluded d \<and> fnm name d) xs"
    using assms(2) star by (auto simp: list_ex_iff)
  then show ?thesis by (auto simp: is_supported_def list_ex_iff)
qed

lemma supported_negations:
  assumes "list_all is_excluded xs"
  shows "is_supported fnm xs name \<longleftrightarrow> (\<forall>d \<in> set xs. \<not> fnm name (tl d))"
  using assms by (auto simp: is_supported_def startswith_bang list_ex_iff list_all_iff)

end

interpretation glob: name_matcher glob
  by unfold_locales (rule glob_star)

section \<open>Properties\<close>

text \<open>
  What an accepted filter lets through, for any matcher in which \<open>*\<close> matches every
  name. With an inclusion, a name is supported exactly when some pattern matches it. With the
  wildcard, or with nothing but exclusions, it is supported exactly when no exclusion matches
  it.
\<close>

theorem filter_semantics:
  assumes "check_source_filtering (Some xs) d = Inr ()" "\<And>n. fnm n ''*''"
  shows "(list_ex is_included xs \<longrightarrow> is_supported fnm xs name = (\<exists>p \<in> set xs. fnm name p))
    \<and> (''*'' \<in> set xs \<or> list_all is_excluded xs \<longrightarrow>
         is_supported fnm xs name = (\<forall>p \<in> set xs. is_excluded p \<longrightarrow> \<not> fnm name (tl p)))"
proof -
  have m: "name_matcher fnm" using assms(2) by (simp add: name_matcher_def)
  show ?thesis
    using name_matcher.supported_included [OF m assms(1)] name_matcher.supported_wildcard [OF m assms(1)]
      name_matcher.supported_negations [OF m, of xs]
    by (auto simp: list_all_iff)
qed

theorem filter_semantics_witness:
  "check_source_filtering (Some [''*'', ''!disk.*'']) ''meters'' = Inr ()
   \<and> is_supported glob [''*'', ''!disk.*''] ''cpu'' \<and> \<not> is_supported glob [''*'', ''!disk.*''] ''disk.read''"
proof -
  have ok: "check_source_filtering (Some [''*'', ''!disk.*'']) ''meters'' = Inr ()" by code_simp
  have g: "glob n ''*''" for n by (rule glob_star)
  have ev: "\<not> glob ''cpu'' ''disk.*''" "glob ''disk.read'' ''disk.*''" by code_simp+
  show ?thesis
    using ok ev filter_semantics [OF ok, of glob "''cpu''"] filter_semantics [OF ok, of glob "''disk.read''"] g
    by (simp add: is_excluded_def)
qed

text \<open>
  A polling source that is accepted has an interval above 0, and its meters are a filter
  without empty patterns that does not mix inclusions with exclusions or the wildcard.
\<close>

theorem polling_source_checked:
  assumes "polling_source_init cfg = Inr s"
  shows "0 < ps_interval s \<and> ps_meters s \<noteq> [] \<and> [] \<notin> set (ps_meters s)
    \<and> \<not> (list_ex is_included (ps_meters s) \<and> (list_ex is_excluded (ps_meters s) \<or> ''*'' \<in> set (ps_meters s)))"
  using assms
  by (auto simp: polling_source_init_def bindr_Inr_iff polling_interval_def check_source_filtering_ok
      split: option.splits sum.splits if_splits)

theorem polling_source_checked_witness:
  "0 < (600 :: int) \<and> is_ok (polling_source_init \<lparr>c_name = Some ''s'', c_meters = Some [''cpu''], c_events = None,
     c_sinks = None, c_interval = Some (PStr ''600''), c_resources = None, c_discovery = None\<rparr>)"
proof -
  let ?c = "\<lparr>c_name = Some ''s'', c_meters = Some [''cpu''], c_events = None, c_sinks = None,
     c_interval = Some (PStr ''600''), c_resources = None, c_discovery = None\<rparr>"
  have c: "polling_source_init ?c = Inr \<lparr>ps_name = ''s'', ps_meters = [''cpu''], ps_interval = 600,
      ps_resources = [], ps_discovery = []\<rparr>" by code_simp
  from polling_source_checked [OF c] c show ?thesis by simp
qed

end
