(* ===== verification/Event_Converter.thy ===== *)
theory Event_Converter
  imports Declarative Pipeline_Config
begin

text \<open>
  Notifications into events (\<^verbatim>\<open>ceilometer/event/converter.py\<close>), with the event and trait
  models of \<^verbatim>\<open>ceilometer/event/storage/models.py\<close> and the endpoint of
  \<^verbatim>\<open>ceilometer/event/endpoint.py\<close>.
\<close>

section \<open>Traits and events\<close>

datatype trait_type = NONE_TYPE | TEXT_TYPE | INT_TYPE | FLOAT_TYPE | DATETIME_TYPE

record trait =
  tr_name :: string
  tr_dtype :: trait_type
  tr_value :: pyval

record event =
  ev_message_id :: pyval
  ev_event_type :: pyval
  ev_generated :: int
  ev_traits :: "trait list"
  ev_raw :: pyval

definition type_code :: "trait_type \<Rightarrow> nat" where
  "type_code t =
     (case t of NONE_TYPE \<Rightarrow> 0 | TEXT_TYPE \<Rightarrow> 1 | INT_TYPE \<Rightarrow> 2 | FLOAT_TYPE \<Rightarrow> 3 | DATETIME_TYPE \<Rightarrow> 4)"

definition get_name_by_type :: "nat \<Rightarrow> string" where
  "get_name_by_type n =
     (if n = 1 then ''string'' else if n = 2 then ''integer'' else if n = 3 then ''float''
      else if n = 4 then ''datetime'' else ''none'')"

text \<open>\<open>getattr(cls, '%s_TYPE' % type_name.upper(), None)\<close>\<close>

definition get_type_by_name :: "pyval \<Rightarrow> trait_type option res" where
  "get_type_by_name v =
     (case v of
        PStr s \<Rightarrow>
          (let u = str_upper s
           in Inr (if u = ''NONE'' then Some NONE_TYPE
                   else if u = ''TEXT'' then Some TEXT_TYPE
                   else if u = ''INT'' then Some INT_TYPE
                   else if u = ''FLOAT'' then Some FLOAT_TYPE
                   else if u = ''DATETIME'' then Some DATETIME_TYPE else None))
      | _ \<Rightarrow> Inl (AttributeError ''upper''))"

text \<open>\<open>convert_value\<close>: text is cropped to 255 characters.\<close>

definition convert_value :: "denv \<Rightarrow> trait_type \<Rightarrow> pyval \<Rightarrow> pyval res" where
  "convert_value env ty value =
     (case ty of
        INT_TYPE \<Rightarrow> bindr (py_int value) (\<lambda>i. Inr (PInt i))
      | FLOAT_TYPE \<Rightarrow> bindr (py_float value) (\<lambda>f. Inr (PFloat f))
      | DATETIME_TYPE \<Rightarrow> bindr (isotime_of env value) (\<lambda>t. Inr (PDatetime t))
      | _ \<Rightarrow>
          (case value of
             PBytes b \<Rightarrow> bindr (utf8_decode b) (\<lambda>s. Inr (PStr (take 255 s)))
           | _ \<Rightarrow> Inr (PStr (take 255 (py_str (d_repr env) value)))))"

text \<open>\<open>serialize\<close>: a datetime is written in ISO format, \<open>iso\<close> standing for \<open>isoformat\<close>.\<close>

definition serialize_dt :: "(int \<Rightarrow> string) \<Rightarrow> pyval \<Rightarrow> pyval" where
  "serialize_dt isof v = (case v of PDatetime t \<Rightarrow> PStr (isof t) | _ \<Rightarrow> v)"

definition serialize_trait :: "(int \<Rightarrow> string) \<Rightarrow> trait \<Rightarrow> pyval" where
  "serialize_trait isof t =
     PTuple [PStr (tr_name t), PInt (int (type_code (tr_dtype t))), serialize_dt isof (tr_value t)]"

definition serialize_event :: "(int \<Rightarrow> string) \<Rightarrow> event \<Rightarrow> pymap" where
  "serialize_event isof e =
     [(''message_id'', ev_message_id e), (''event_type'', ev_event_type e),
      (''generated'', PStr (isof (ev_generated e))),
      (''traits'', PList (map (serialize_trait isof) (ev_traits e))), (''raw'', ev_raw e)]"

section \<open>Trait definitions\<close>

record trait_def =
  td_def :: definition_obj
  td_type :: trait_type

definition trait_def_init ::
  "denv \<Rightarrow> plugin_manager \<Rightarrow> string \<Rightarrow> pyval \<Rightarrow> getters \<Rightarrow> (getters, trait_def) sres" where
  "trait_def_init env plugins name cfg cache =
     (let (cache', r) = definition_init env plugins (Some name) cfg cache in
      (cache',
       bindr r (\<lambda>d.
       let type_name = (case cfg of PDict m \<Rightarrow> dict_get_default m ''type'' (PStr ''text'') | _ \<Rightarrow> PStr ''text'')
       in bindr (get_type_by_name type_name) (\<lambda>ty.
            (case ty of
               None \<Rightarrow> Inl (EventDefinitionException (''Invalid trait type '' @ py_str (d_repr env) type_name
                              @ '' for trait '' @ name))
             | Some t \<Rightarrow> Inr \<lparr>td_def = d, td_type = t\<rparr>)))))"

definition to_trait :: "denv \<Rightarrow> trait_def \<Rightarrow> pyval \<Rightarrow> trait option res" where
  "to_trait env td body =
     bindr (parse_def env (td_def td) body False) (\<lambda>value.
       if value = PNone then Inr None
       else if td_type td \<noteq> TEXT_TYPE \<and> value = PStr [] then Inr None
       else bindr (convert_value env (td_type td) value) (\<lambda>v.
              Inr (Some \<lparr>tr_name = show_name (df_name (td_def td)), tr_dtype = td_type td, tr_value = v\<rparr>)))"

section \<open>Event definitions\<close>

definition default_trait :: "pyval \<Rightarrow> pyval" where
  "default_trait flds = PDict [(''type'', PStr ''text''), (''fields'', flds)]"

definition DEFAULT_TRAITS :: pymap where
  "DEFAULT_TRAITS =
     [(''service'', default_trait (PStr ''publisher_id'')),
      (''request_id'', default_trait (PStr ''ctxt.request_id'')),
      (''project_id'', default_trait (PList [PStr ''payload.tenant_id'', PStr ''ctxt.tenant''])),
      (''user_id'', default_trait (PList [PStr ''payload.user_id'', PStr ''ctxt.user_id''])),
      (''tenant_id'', default_trait (PList [PStr ''payload.tenant_id'', PStr ''ctxt.tenant'']))]"

record event_def =
  ed_included :: "string list"
  ed_excluded :: "string list"
  ed_traits :: "(string, trait_def) pydict"
  ed_raw_levels :: "string list"

text \<open>
  \<open>for name in v: ... v[name]\<close>, over the names of a dictionary of definitions; the names are
  text, which is what the keys of a definition file are.
\<close>

definition named_items :: "pyval \<Rightarrow> (string \<times> pyval) list res" where
  "named_items v =
     bindr (py_iter v) (mapr (\<lambda>k. bindr (py_getitem v k) (\<lambda>w. bindr (key_str k) (\<lambda>s. Inr (s, w)))))"

fun trait_defs ::
  "denv \<Rightarrow> plugin_manager \<Rightarrow> (string \<times> pyval) list \<Rightarrow> getters \<Rightarrow> (string, trait_def) pydict \<Rightarrow>
   (getters, (string, trait_def) pydict) sres" where
  "trait_defs env plugins [] cache acc = (cache, Inr acc)"
| "trait_defs env plugins ((name, cfg) # rest) cache acc =
     (case trait_def_init env plugins name cfg cache of
        (cache', Inl e) \<Rightarrow> (cache', Inl e)
      | (cache', Inr td) \<Rightarrow> trait_defs env plugins rest cache' (dict_set name td acc))"

text \<open>The event types of a definition: one pattern or a list; exclusions begin with \<open>!\<close>.\<close>

definition type_str :: "pyval \<Rightarrow> string res" where
  "type_str t = (case t of PStr s \<Rightarrow> Inr s | _ \<Rightarrow> Inl (AttributeError ''startswith''))"

definition event_types :: "pyval \<Rightarrow> (string list \<times> string list) res" where
  "event_types event_type =
     bindr (if is_str event_type then Inr [event_type] else py_iter event_type) (\<lambda>ts.
     bindr (mapr type_str ts) (\<lambda>names.
       (let excluded = map tl (filter (\<lambda>t. startswith t ''!'') names);
            included = filter (\<lambda>t. \<not> startswith t ''!'') names
        in Inr (if excluded \<noteq> [] \<and> included = [] then [''*''] else included, excluded))))"

definition required_item :: "pyval \<Rightarrow> string \<Rightarrow> pyval res" where
  "required_item cfg k =
     (case py_getitem cfg (PStr k) of
        Inl (KeyError f) \<Rightarrow> Inl (EventDefinitionException (''Required field '' @ f @ '' not specified''))
      | r \<Rightarrow> r)"

definition event_def_init ::
  "denv \<Rightarrow> plugin_manager \<Rightarrow> string list \<Rightarrow> pyval \<Rightarrow> getters \<Rightarrow> (getters, event_def) sres" where
  "event_def_init env plugins raw_levels cfg cache =
     (case bindr (required_item cfg ''event_type'') (\<lambda>et.
           bindr (required_item cfg ''traits'') (\<lambda>trs.
           bindr (event_types et) (\<lambda>(inc, exc). Inr (inc, exc, trs)))) of
        Inl e \<Rightarrow> (cache, Inl e)
      | Inr (inc, exc, trs) \<Rightarrow>
          (case trait_defs env plugins DEFAULT_TRAITS cache [] of
             (c1, Inl e) \<Rightarrow> (c1, Inl e)
           | (c1, Inr defaults) \<Rightarrow>
               (case named_items trs of
                  Inl e \<Rightarrow> (c1, Inl e)
                | Inr items \<Rightarrow>
                    (case trait_defs env plugins items c1 defaults of
                       (c2, Inl e) \<Rightarrow> (c2, Inl e)
                     | (c2, Inr tds) \<Rightarrow>
                         (c2, Inr \<lparr>ed_included = inc, ed_excluded = exc, ed_traits = tds,
                                   ed_raw_levels = raw_levels\<rparr>)))))"

definition included_type :: "matcher \<Rightarrow> event_def \<Rightarrow> string \<Rightarrow> bool" where
  "included_type fnm d event_type = list_ex (fnm event_type) (ed_included d)"

definition excluded_type :: "matcher \<Rightarrow> event_def \<Rightarrow> string \<Rightarrow> bool" where
  "excluded_type fnm d event_type = list_ex (fnm event_type) (ed_excluded d)"

definition match_type :: "matcher \<Rightarrow> event_def \<Rightarrow> string \<Rightarrow> bool" where
  "match_type fnm d event_type = (included_type fnm d event_type \<and> \<not> excluded_type fnm d event_type)"

definition is_catchall :: "event_def \<Rightarrow> bool" where
  "is_catchall d = (''*'' \<in> set (ed_included d) \<and> ed_excluded d = [])"

text \<open>\<open>body['metadata'][k]\<close>\<close>

definition metadata_item :: "pyval \<Rightarrow> string \<Rightarrow> pyval res" where
  "metadata_item body k = bindr (py_getitem body (PStr ''metadata'')) (\<lambda>m. py_getitem m (PStr k))"

definition event_to_event :: "denv \<Rightarrow> event_def \<Rightarrow> string \<Rightarrow> pyval \<Rightarrow> event res" where
  "event_to_event env d priority body =
     bindr (py_getitem body (PStr ''event_type'')) (\<lambda>event_type.
     bindr (metadata_item body ''message_id'') (\<lambda>message_id.
     bindr (bindr (metadata_item body ''timestamp'') (isotime_of env)) (\<lambda>when.
     bindr (mapr (\<lambda>(n, td). to_trait env td body) (ed_traits d)) (\<lambda>ts.
       Inr \<lparr>ev_message_id = message_id, ev_event_type = event_type, ev_generated = when,
            ev_traits = List.map_filter id ts,
            ev_raw = (if priority \<in> set (ed_raw_levels d) then body else PDict [])\<rparr>))))"

section \<open>The converter\<close>

record event_conf =
  store_raw :: "string list"
  drop_unmatched_notifications :: bool
  ack_on_event_error :: bool

type_synonym converter = "event_def list"

text \<open>The definitions in reverse order, and a catch-all at the end unless there is one.\<close>

fun event_defs ::
  "denv \<Rightarrow> plugin_manager \<Rightarrow> string list \<Rightarrow> pyval list \<Rightarrow> getters \<Rightarrow> (getters, event_def list) sres" where
  "event_defs env plugins raw [] cache = (cache, Inr [])"
| "event_defs env plugins raw (c # cs) cache =
     (case event_def_init env plugins raw c cache of
        (c1, Inl e) \<Rightarrow> (c1, Inl e)
      | (c1, Inr d) \<Rightarrow>
          (case event_defs env plugins raw cs c1 of
             (c2, Inl e) \<Rightarrow> (c2, Inl e)
           | (c2, Inr ds) \<Rightarrow> (c2, Inr (d # ds))))"

definition catchall_cfg :: pyval where
  "catchall_cfg = PDict [(''event_type'', PStr ''*''), (''traits'', PDict [])]"

definition converter_init ::
  "event_conf \<Rightarrow> denv \<Rightarrow> plugin_manager \<Rightarrow> pyval \<Rightarrow> getters \<Rightarrow> (getters, converter) sres" where
  "converter_init conf env plugins events_config cache =
     (let raw = map str_lower (store_raw conf) in
      case (case events_config of PList cs \<Rightarrow> Inr cs | PTuple cs \<Rightarrow> Inr cs | _ \<Rightarrow> Inl TypeError) of
        Inl e \<Rightarrow> (cache, Inl e)
      | Inr cs \<Rightarrow>
          (case event_defs env plugins raw (rev cs) cache of
             (c1, Inl e) \<Rightarrow> (c1, Inl e)
           | (c1, Inr ds) \<Rightarrow>
               (if \<not> drop_unmatched_notifications conf \<and> \<not> list_ex is_catchall ds
                then (case event_def_init env plugins raw catchall_cfg c1 of
                    (c2, Inl e) \<Rightarrow> (c2, Inl e)
                  | (c2, Inr d) \<Rightarrow> (c2, Inr (ds @ [d])))
                else (c1, Inr ds))))"

text \<open>
  \<open>to_event\<close>: the first definition that matches, \<open>None\<close> when none does. Patterns are
  matched against the text of the event type; the first pattern refuses anything else.
\<close>

definition event_type_of :: "converter \<Rightarrow> pyval \<Rightarrow> string res" where
  "event_type_of ds v =
     (case v of
        PStr s \<Rightarrow> Inr s
      | _ \<Rightarrow> (if list_ex (\<lambda>d. ed_included d \<noteq> []) ds then Inl TypeError else Inr []))"

definition find_definition :: "matcher \<Rightarrow> converter \<Rightarrow> string \<Rightarrow> event_def option" where
  "find_definition fnm ds event_type = List.find (\<lambda>d. match_type fnm d event_type) ds"

definition to_event :: "matcher \<Rightarrow> denv \<Rightarrow> converter \<Rightarrow> string \<Rightarrow> pyval \<Rightarrow> event option res" where
  "to_event fnm env ds priority body =
     bindr (py_getitem body (PStr ''event_type'')) (\<lambda>v.
     bindr (metadata_item body ''message_id'') (\<lambda>_.
     bindr (event_type_of ds v) (\<lambda>event_type.
       (case find_definition fnm ds event_type of
          None \<Rightarrow> Inr None
        | Some d \<Rightarrow> bindr (event_to_event env d priority body) (\<lambda>e. Inr (Some e))))))"

definition setup_events ::
  "event_conf \<Rightarrow> denv \<Rightarrow> plugin_manager \<Rightarrow> files \<Rightarrow> string \<Rightarrow> string \<Rightarrow> getters \<Rightarrow>
   (getters, converter) sres" where
  "setup_events conf env plugins fs cfg_file packaged cache =
     (case load_definitions fs (PList []) cfg_file (Some packaged) of
        Inl e \<Rightarrow> (cache, Inl e)
      | Inr c \<Rightarrow> converter_init conf env plugins c cache)"

section \<open>The endpoint\<close>

datatype ack = HANDLED | REQUEUE

text \<open>
  \<open>process_notification\<close>: one notification after the other; an error asks for the batch
  again, unless errors are acknowledged. \<open>publish e w\<close> publishes within a publish context.
\<close>

fun process_events ::
  "event_conf \<Rightarrow> (pyval \<Rightarrow> event option res) \<Rightarrow> (event \<Rightarrow> 'w \<Rightarrow> 'w \<times> unit res) \<Rightarrow> pyval list \<Rightarrow>
   'w \<Rightarrow> 'w \<times> ack" where
  "process_events conf convert publish [] w = (w, HANDLED)"
| "process_events conf convert publish (n # ns) w =
     (let (w', r) =
        (case convert n of
           Inl e \<Rightarrow> (w, Inl e)
         | Inr None \<Rightarrow> (w, Inr ())
         | Inr (Some e) \<Rightarrow> publish e w)
      in if \<not> is_ok r \<and> \<not> ack_on_event_error conf then (w', REQUEUE)
         else process_events conf convert publish ns w')"

section \<open>Facts\<close>

lemma trait_def_init_sound:
  "cache_sound env cache \<Longrightarrow> cache_sound env (fst (trait_def_init env plugins n cfg cache))
   \<and> snd (trait_def_init env plugins n cfg cache) = snd (trait_def_init env plugins n cfg [])"
  using definition_init_sound [of env cache plugins "Some n" cfg]
  by (simp add: trait_def_init_def case_prod_beta Let_def)

lemma trait_def_init_name:
  "snd (trait_def_init env plugins n cfg cache) = Inr td \<Longrightarrow> df_name (td_def td) = Some n"
  using definition_init_obj [of env plugins "Some n" cfg cache]
  by (cases "definition_init env plugins (Some n) cfg cache")
    (auto simp: trait_def_init_def bindr_Inr_iff Let_def split: option.splits)

lemma trait_defs_sound:
  "cache_sound env cache \<Longrightarrow> cache_sound env (fst (trait_defs env plugins items cache acc))
   \<and> snd (trait_defs env plugins items cache acc) = snd (trait_defs env plugins items [] acc)"
proof (induction items arbitrary: cache acc)
  case (Cons it items)
  obtain n cfg where it: "it = (n, cfg)" by (cases it)
  obtain c1 r where i: "trait_def_init env plugins n cfg cache = (c1, r)" by fastforce
  obtain c0 r0 where i0: "trait_def_init env plugins n cfg [] = (c0, r0)" by fastforce
  have s1: "cache_sound env c1" "r = r0"
    using trait_def_init_sound [OF Cons.prems, of plugins n cfg] i i0 by simp_all
  have s0: "cache_sound env c0" using trait_def_init_sound [OF cache_sound_Nil, of env plugins n cfg] i0 by simp
  show ?case using Cons.IH [OF s1(1)] Cons.IH [OF s0] s1 by (auto simp: it i i0 split: sum.split)
qed simp

text \<open>The traits of an event definition: names are distinct and each trait knows its name.\<close>

definition traits_ok :: "(string, trait_def) pydict \<Rightarrow> bool" where
  "traits_ok tds \<longleftrightarrow> dict_ok tds \<and> (\<forall>(n, td) \<in> set tds. df_name (td_def td) = Some n)"

lemma trait_defs_ok:
  "snd (trait_defs env plugins items cache acc) = Inr tds \<Longrightarrow> traits_ok acc \<Longrightarrow>
   traits_ok tds \<and> set (dict_keys tds) = set (dict_keys acc) \<union> fst ` set items"
proof (induction items arbitrary: cache acc)
  case (Cons it items)
  obtain n cfg where it: "it = (n, cfg)" by (cases it)
  obtain c1 r where i: "trait_def_init env plugins n cfg cache = (c1, r)" by fastforce
  from Cons.prems obtain td where td: "r = Inr td"
    and rest: "snd (trait_defs env plugins items c1 (dict_set n td acc)) = Inr tds"
    by (auto simp: it i split: sum.splits)
  have "df_name (td_def td) = Some n"
    using trait_def_init_name [of env plugins n cfg cache td] i td by simp
  then have "traits_ok (dict_set n td acc)"
    using Cons.prems(2) by (auto simp: traits_ok_def dest!: dict_set_memberD)
  from Cons.IH [OF rest this] show ?case by (auto simp: it)
qed auto

lemma event_def_init_sound:
  assumes "cache_sound env cache"
  shows "cache_sound env (fst (event_def_init env plugins raw cfg cache))
    \<and> snd (event_def_init env plugins raw cfg cache) = snd (event_def_init env plugins raw cfg [])"
proof -
  obtain c1 r where t: "trait_defs env plugins DEFAULT_TRAITS cache [] = (c1, r)" by fastforce
  obtain c0 r0 where t0: "trait_defs env plugins DEFAULT_TRAITS [] [] = (c0, r0)" by fastforce
  have s: "cache_sound env c1" "r = r0" "cache_sound env c0"
    using trait_defs_sound [OF assms, of plugins DEFAULT_TRAITS "[]"]
      trait_defs_sound [OF cache_sound_Nil, of env plugins DEFAULT_TRAITS "[]"] t t0 by simp_all
  have rest: "cache_sound env (fst (trait_defs env plugins items c1 acc))"
    "snd (trait_defs env plugins items c1 acc) = snd (trait_defs env plugins items [] acc)"
    "snd (trait_defs env plugins items c0 acc) = snd (trait_defs env plugins items [] acc)" for items acc
    using trait_defs_sound [OF s(1), of plugins items acc] trait_defs_sound [OF s(3), of plugins items acc]
    by simp_all
  have "snd (trait_defs env plugins items c1 acc) = snd (trait_defs env plugins items c0 acc)" for items acc
    using rest by simp
  then show ?thesis using s rest(1)
    by (auto simp: event_def_init_def t t0 assms case_prod_beta split: sum.split)
qed

lemma event_def_init_ok:
  assumes "snd (event_def_init env plugins raw cfg cache) = Inr d"
  shows "traits_ok (ed_traits d)" "set (dict_keys DEFAULT_TRAITS) \<subseteq> set (dict_keys (ed_traits d))"
    "ed_raw_levels d = raw"
proof -
  obtain c1 r where t: "trait_defs env plugins DEFAULT_TRAITS cache [] = (c1, r)" by fastforce
  from assms obtain inc exc trs defaults items tds where
      r: "r = Inr defaults" and tds: "snd (trait_defs env plugins items c1 defaults) = Inr tds"
      and d: "d = \<lparr>ed_included = inc, ed_excluded = exc, ed_traits = tds, ed_raw_levels = raw\<rparr>"
    by (auto simp: event_def_init_def t case_prod_beta split: sum.splits)
  have "traits_ok defaults \<and> set (dict_keys defaults) = fst ` set DEFAULT_TRAITS"
    using trait_defs_ok [of env plugins DEFAULT_TRAITS cache "[]" defaults] t r
    by (simp add: traits_ok_def)
  then have "traits_ok tds" "set (dict_keys DEFAULT_TRAITS) \<subseteq> set (dict_keys tds)"
    using trait_defs_ok [OF tds] by auto
  then show "traits_ok (ed_traits d)" "set (dict_keys DEFAULT_TRAITS) \<subseteq> set (dict_keys (ed_traits d))"
    "ed_raw_levels d = raw" by (simp_all add: d)
qed

text \<open>The definitions of a converter are those of the configuration, last one first.\<close>

definition def_of :: "denv \<Rightarrow> plugin_manager \<Rightarrow> string list \<Rightarrow> pyval \<Rightarrow> event_def res" where
  "def_of env plugins raw cfg = snd (event_def_init env plugins raw cfg [])"

lemma event_defs_are:
  "snd (event_defs env plugins raw cs cache) = Inr ds \<Longrightarrow> cache_sound env cache \<Longrightarrow>
   cache_sound env (fst (event_defs env plugins raw cs cache)) \<and> mapr (def_of env plugins raw) cs = Inr ds"
proof (induction cs arbitrary: cache ds)
  case (Cons c cs)
  obtain c1 r where i: "event_def_init env plugins raw c cache = (c1, r)" by fastforce
  have s: "cache_sound env c1" "r = def_of env plugins raw c"
    using event_def_init_sound [OF Cons.prems(2), of plugins raw c] i by (simp_all add: def_of_def)
  obtain d where d: "r = Inr d" using Cons.prems(1) by (cases r) (simp_all add: i)
  obtain es where es: "snd (event_defs env plugins raw cs c1) = Inr es" and ds: "ds = d # es"
    using Cons.prems(1) by (auto simp: i d case_prod_beta split: sum.splits)
  have "def_of env plugins raw c = Inr d" using s(2) d by simp
  with Cons.IH [OF es s(1)] d ds es show ?case by (simp add: i case_prod_beta)
qed simp

lemma converter_init_are:
  assumes "snd (converter_init conf env plugins (PList cs) cache) = Inr ds" "cache_sound env cache"
  obtains es where "mapr (def_of env plugins (map str_lower (store_raw conf))) (rev cs) = Inr es"
    and "ds = es \<and> (drop_unmatched_notifications conf \<or> list_ex is_catchall es)
      \<or> (\<exists>d. ds = es @ [d] \<and> \<not> drop_unmatched_notifications conf
           \<and> def_of env plugins (map str_lower (store_raw conf)) catchall_cfg = Inr d)"
proof -
  let ?raw = "map str_lower (store_raw conf)"
  obtain c1 r where e: "event_defs env plugins ?raw (rev cs) cache = (c1, r)" by fastforce
  obtain es where es: "r = Inr es"
    using assms(1) by (cases r) (simp_all add: converter_init_def Let_def e)
  have ok: "cache_sound env c1" "mapr (def_of env plugins ?raw) (rev cs) = Inr es"
    using event_defs_are [of env plugins ?raw "rev cs" cache es] e es assms(2) by simp_all
  have "snd (event_def_init env plugins ?raw catchall_cfg c1) = def_of env plugins ?raw catchall_cfg"
    using event_def_init_sound [OF ok(1)] by (simp add: def_of_def)
  with assms(1) have "ds = es \<and> (drop_unmatched_notifications conf \<or> list_ex is_catchall es)
      \<or> (\<exists>d. ds = es @ [d] \<and> \<not> drop_unmatched_notifications conf
           \<and> def_of env plugins ?raw catchall_cfg = Inr d)"
    by (auto simp: converter_init_def Let_def e es case_prod_beta split: sum.splits if_splits)
  with ok(2) that show ?thesis by blast
qed

lemma catchall_included:
  assumes "def_of env plugins raw catchall_cfg = Inr d"
  shows "is_catchall d"
proof -
  have "event_types (PStr ''*'') = Inr ([''*''], [])" by code_simp
  then show ?thesis
    using assms
    by (auto simp: def_of_def event_def_init_def required_item_def catchall_cfg_def py_getitem_def
        dict_item_def is_catchall_def case_prod_beta split: sum.splits)
qed

context name_matcher
begin

lemma catchall_matches: "is_catchall d \<Longrightarrow> match_type fnm d t"
  using star by (auto simp: is_catchall_def match_type_def included_type_def excluded_type_def list_ex_iff)

lemma catchall_found: "list_ex is_catchall ds \<Longrightarrow> find_definition fnm ds t \<noteq> None"
  using catchall_matches by (auto simp: find_definition_def find_None_iff list_ex_iff)

end

text \<open>A value of a trait has the type of the trait, and text has at most 255 characters.\<close>

definition value_ok :: "trait_type \<Rightarrow> pyval \<Rightarrow> bool" where
  "value_ok ty v =
     (case ty of
        INT_TYPE \<Rightarrow> (case v of PInt i \<Rightarrow> True | _ \<Rightarrow> False)
      | FLOAT_TYPE \<Rightarrow> (case v of PFloat f \<Rightarrow> True | _ \<Rightarrow> False)
      | DATETIME_TYPE \<Rightarrow> (case v of PDatetime t \<Rightarrow> True | _ \<Rightarrow> False)
      | _ \<Rightarrow> (case v of PStr s \<Rightarrow> length s \<le> 255 | _ \<Rightarrow> False))"

lemma convert_value_ok: "convert_value env ty v = Inr w \<Longrightarrow> value_ok ty w"
  by (cases ty) (auto simp: convert_value_def value_ok_def bindr_Inr_iff split: pyval.splits)

lemma to_trait_ok:
  "to_trait env td body = Inr (Some t) \<Longrightarrow>
   value_ok (tr_dtype t) (tr_value t) \<and> tr_name t = show_name (df_name (td_def td))"
  by (auto simp: to_trait_def bindr_Inr_iff convert_value_ok split: if_splits)

lemma event_traits_ok:
  assumes "mapr (\<lambda>(n, td). to_trait env td body) tds = Inr ts" "traits_ok tds"
  shows "distinct (map tr_name (List.map_filter id ts))
    \<and> set (map tr_name (List.map_filter id ts)) \<subseteq> set (dict_keys tds)
    \<and> (\<forall>t \<in> set (List.map_filter id ts). value_ok (tr_dtype t) (tr_value t))"
  using assms
proof (induction tds arbitrary: ts)
  case (Cons ntd tds)
  obtain n td where ntd: "ntd = (n, td)" by (cases ntd)
  from Cons.prems(1) obtain t ts' where t: "to_trait env td body = Inr t"
    and rest: "mapr (\<lambda>(n, td). to_trait env td body) tds = Inr ts'" and ts: "ts = t # ts'"
    by (auto simp: ntd bindr_Inr_iff)
  have ok: "traits_ok tds" "n \<notin> set (dict_keys tds)" "df_name (td_def td) = Some n"
    using Cons.prems(2) by (auto simp: traits_ok_def dict_ok_def ntd)
  note IH = Cons.IH [OF rest ok(1)]
  show ?case
  proof (cases t)
    case None
    with IH show ?thesis by (auto simp: ts ntd List.map_filter_simps)
  next
    case (Some x)
    with to_trait_ok [of env td body x] t ok(3) have "tr_name x = n" "value_ok (tr_dtype x) (tr_value x)"
      by (simp_all add: show_name_def)
    with IH ok(2) Some show ?thesis by (auto simp: ts ntd List.map_filter_simps)
  qed
qed (simp add: List.map_filter_simps)

lemma to_event_None_iff:
  assumes "to_event fnm env ds priority body = Inr None"
  obtains t where "find_definition fnm ds t = None"
  using assms by (auto simp: to_event_def bindr_Inr_iff split: option.splits)

lemma to_event_Some:
  assumes "to_event fnm env ds priority body = Inr (Some e)"
  obtains d ts where "d \<in> set ds" "mapr (\<lambda>(n, td). to_trait env td body) (ed_traits d) = Inr ts"
    "ev_traits e = List.map_filter id ts"
    "ev_raw e = (if priority \<in> set (ed_raw_levels d) then body else PDict [])"
proof -
  from assms obtain t d where d: "find_definition fnm ds t = Some d"
    and e: "event_to_event env d priority body = Inr e"
    by (auto simp: to_event_def bindr_Inr_iff split: option.splits)
  from d have "d \<in> set ds" by (auto simp: find_definition_def find_Some_iff)
  with e that show ?thesis by (auto simp: event_to_event_def bindr_Inr_iff)
qed

lemma converter_defs_ok:
  assumes "snd (converter_init conf env plugins (PList cs) cache) = Inr ds" "cache_sound env cache" "d \<in> set ds"
  shows "traits_ok (ed_traits d) \<and> ed_raw_levels d = map str_lower (store_raw conf)"
proof -
  let ?raw = "map str_lower (store_raw conf)"
  from converter_init_are [OF assms(1,2)] obtain es where
      es: "mapr (def_of env plugins ?raw) (rev cs) = Inr es"
      and ds: "ds = es \<or> (\<exists>d. ds = es @ [d] \<and> def_of env plugins ?raw catchall_cfg = Inr d)"
    by blast
  have "\<exists>c. def_of env plugins ?raw c = Inr d" if "d \<in> set es"
    using es that by (auto simp: mapr_Inr_iff list_all2_conv_all_nth in_set_conv_nth)
  with ds assms(3) obtain c where "def_of env plugins ?raw c = Inr d" by auto
  then show ?thesis using event_def_init_ok [of env plugins ?raw c "[]" d] by (simp add: def_of_def)
qed

lemma find_skip: "\<forall>x \<in> set xs. \<not> P x \<Longrightarrow> List.find P (xs @ ys) = List.find P ys"
  by (induction xs) auto

lemma find_rev_last:
  assumes "j < length xs" "P (xs ! j)" "\<And>i. j < i \<Longrightarrow> i < length xs \<Longrightarrow> \<not> P (xs ! i)"
  shows "List.find P (rev xs @ ys) = Some (xs ! j)"
proof -
  have split: "xs = take j xs @ xs ! j # drop (Suc j) xs" using assms(1) by (rule id_take_nth_drop)
  have none: "\<forall>x \<in> set (drop (Suc j) xs). \<not> P x"
    using assms(3) by (auto simp: in_set_conv_nth)
  have "rev xs @ ys = rev (drop (Suc j) xs) @ xs ! j # rev (take j xs) @ ys"
    by (subst split) simp
  moreover have "List.find P (rev (drop (Suc j) xs) @ zs) = List.find P zs" for zs
    using none by (intro find_skip) simp
  ultimately show ?thesis using assms(2) by simp
qed

lemma process_events_append:
  "process_events conf convert publish (xs @ ys) w =
     (let (w', a) = process_events conf convert publish xs w
      in if a = REQUEUE then (w', REQUEUE) else process_events conf convert publish ys w')"
  by (induction xs arbitrary: w) (auto simp: Let_def split: prod.split)

section \<open>Properties\<close>

text \<open>
  C5: The last definition of the configuration that matches decides: whatever stands before
  it, and whatever paths were parsed before, its event definition is the one a notification is
  converted with.
\<close>

theorem last_definition_wins:
  assumes "snd (converter_init conf env plugins (PList cs) cache) = Inr ds" "cache_sound env cache"
    and "j < length cs" "def_of env plugins (map str_lower (store_raw conf)) (cs ! j) = Inr d"
    and "match_type fnm d t"
    and "\<And>i e. j < i \<Longrightarrow> i < length cs \<Longrightarrow>
           def_of env plugins (map str_lower (store_raw conf)) (cs ! i) = Inr e \<Longrightarrow> \<not> match_type fnm e t"
  shows "find_definition fnm ds t = Some d"
proof -
  let ?raw = "map str_lower (store_raw conf)"
  from converter_init_are [OF assms(1,2)] obtain es zs where
      es: "mapr (def_of env plugins ?raw) (rev cs) = Inr es" and ds: "ds = es @ zs"
    by (metis append_Nil2)
  define xs where "xs = rev es"
  have xs: "list_all2 (\<lambda>c x. def_of env plugins ?raw c = Inr x) cs xs"
    using es unfolding mapr_Inr_iff xs_def by (metis list_all2_rev rev_rev_ident)
  then have len: "length xs = length cs" and nth: "\<And>i. i < length cs \<Longrightarrow> def_of env plugins ?raw (cs ! i) = Inr (xs ! i)"
    by (auto simp: list_all2_conv_all_nth)
  have "xs ! j = d" using nth [OF assms(3)] assms(4) by simp
  moreover have "\<not> match_type fnm (xs ! i) t" if "j < i" "i < length xs" for i
    using assms(6) that nth len by auto
  ultimately have "List.find (\<lambda>d. match_type fnm d t) (rev xs @ zs) = Some d"
    using find_rev_last [of j xs "\<lambda>d. match_type fnm d t" zs] assms(3,5) len by auto
  then show ?thesis by (simp add: find_definition_def ds xs_def)
qed

definition demo_env :: denv where
  "demo_env = \<lparr>jsonpath = \<lambda>s. Inr (\<lambda>v. Inr [JMatch None s (PStr ''x'')]), d_isotime = \<lambda>s. Inr 0, d_repr = \<lambda>v. []\<rparr>"

definition demo_event_conf :: event_conf where
  "demo_event_conf = \<lparr>store_raw = [''INFO''], drop_unmatched_notifications = False, ack_on_event_error = True\<rparr>"

definition demo_defs :: "pyval list" where
  "demo_defs =
     [PDict [(''event_type'', PStr ''compute.*''), (''traits'', PDict [])],
      PDict [(''event_type'', PList [PStr ''compute.instance.*'']),
             (''traits'', PDict [(''host'', PDict [(''fields'', PStr ''payload.host'')])])],
      PDict [(''event_type'', PStr ''image.*''), (''traits'', PDict [])]]"

theorem last_definition_wins_witness:
  "map_option (\<lambda>d. ed_included d) (find_definition glob
     (case snd (converter_init demo_event_conf demo_env builtin_plugins (PList demo_defs) []) of
        Inr ds \<Rightarrow> ds | Inl e \<Rightarrow> []) ''compute.instance.x'') = Some [''compute.instance.*'']"
proof -
  let ?def = "def_of demo_env builtin_plugins (map str_lower (store_raw demo_event_conf))"
  have ok: "is_ok (snd (converter_init demo_event_conf demo_env builtin_plugins (PList demo_defs) []))"
    by code_simp
  then obtain ds where ds: "snd (converter_init demo_event_conf demo_env builtin_plugins (PList demo_defs) []) = Inr ds"
    by (auto simp: is_ok_def split: sum.splits)
  have "case ?def (demo_defs ! 1) of Inl e \<Rightarrow> False
      | Inr d \<Rightarrow> match_type glob d ''compute.instance.x'' \<and> ed_included d = [''compute.instance.*'']"
    by code_simp
  then obtain d where d: "?def (demo_defs ! 1) = Inr d" "match_type glob d ''compute.instance.x''"
      "ed_included d = [''compute.instance.*'']"
    by (auto split: sum.splits)
  have last: "case ?def (demo_defs ! 2) of Inl e \<Rightarrow> True | Inr d \<Rightarrow> \<not> match_type glob d ''compute.instance.x''"
    by code_simp
  have len: "length demo_defs = 3" by (simp add: demo_defs_def)
  have "find_definition glob ds ''compute.instance.x'' = Some d"
  proof (rule last_definition_wins [OF ds cache_sound_Nil _ d(1,2)])
    show "1 < length demo_defs" by (simp add: len)
    fix i e
    assume "1 < i" "i < length demo_defs" "?def (demo_defs ! i) = Inr e"
    moreover then have "i = 2" using len by simp
    ultimately show "\<not> match_type glob e ''compute.instance.x''" using last by simp
  qed
  then show ?thesis by (simp add: ds d(3))
qed

text \<open>
  C14: Unless unmatched notifications are to be dropped, the converter drops none: it holds
  a catch-all definition, of the configuration or added to it, so a notification that is
  converted without an exception yields an event.
\<close>

theorem notification_never_dropped:
  assumes "snd (converter_init conf env plugins (PList cs) cache) = Inr ds" "cache_sound env cache"
    and "\<not> drop_unmatched_notifications conf" "\<And>n. fnm n ''*''"
  shows "to_event fnm env ds priority body \<noteq> Inr None"
proof
  assume "to_event fnm env ds priority body = Inr None"
  then obtain t where none: "find_definition fnm ds t = None" by (rule to_event_None_iff)
  have "list_ex is_catchall ds"
    by (rule converter_init_are [OF assms(1,2)]) (use assms(3) catchall_included in \<open>auto simp: list_ex_iff\<close>)
  then show False using none name_matcher.catchall_found [of fnm ds t] assms(4)
    by (simp add: name_matcher_def)
qed

theorem notification_never_dropped_witness:
  "to_event glob demo_env
     (case snd (converter_init demo_event_conf demo_env builtin_plugins (PList demo_defs) []) of
        Inr ds \<Rightarrow> ds | Inl e \<Rightarrow> []) ''info''
     (PDict [(''event_type'', PStr ''volume.create''),
             (''metadata'', PDict [(''message_id'', PStr ''1''), (''timestamp'', PStr ''now'')])]) \<noteq> Inr None"
proof -
  have ok: "is_ok (snd (converter_init demo_event_conf demo_env builtin_plugins (PList demo_defs) []))"
    by code_simp
  then obtain ds where ds: "snd (converter_init demo_event_conf demo_env builtin_plugins (PList demo_defs) []) = Inr ds"
    by (auto simp: is_ok_def split: sum.splits)
  have "\<not> drop_unmatched_notifications demo_event_conf" by (simp add: demo_event_conf_def)
  from notification_never_dropped [OF ds cache_sound_Nil this, of glob] glob_star show ?thesis by (simp add: ds)
qed

text \<open>
  C15: The event of a notification is well formed: its traits have different names, each value
  has the type of its trait, text has at most 255 characters, and the raw notification is
  kept exactly for the configured levels.
\<close>

theorem event_well_formed:
  assumes "snd (converter_init conf env plugins (PList cs) cache) = Inr ds" "cache_sound env cache"
    and "to_event fnm env ds priority body = Inr (Some e)"
  shows "distinct (map tr_name (ev_traits e))
    \<and> list_all (\<lambda>t. value_ok (tr_dtype t) (tr_value t)) (ev_traits e)
    \<and> ev_raw e = (if priority \<in> set (map str_lower (store_raw conf)) then body else PDict [])"
proof -
  from assms(3) obtain d ts where d: "d \<in> set ds"
      and ts: "mapr (\<lambda>(n, td). to_trait env td body) (ed_traits d) = Inr ts"
      and e: "ev_traits e = List.map_filter id ts"
      "ev_raw e = (if priority \<in> set (ed_raw_levels d) then body else PDict [])"
    by (rule to_event_Some)
  have ok: "traits_ok (ed_traits d)" "ed_raw_levels d = map str_lower (store_raw conf)"
    using converter_defs_ok [OF assms(1,2) d] by auto
  note T = event_traits_ok [OF ts ok(1)]
  show ?thesis using T ok(2) by (simp add: e list_all_iff)
qed

theorem event_well_formed_witness:
  "case to_event glob demo_env
     (case snd (converter_init demo_event_conf demo_env builtin_plugins (PList demo_defs) []) of
        Inr ds \<Rightarrow> ds | Inl e \<Rightarrow> []) ''info''
     (PDict [(''event_type'', PStr ''compute.instance.x''),
             (''metadata'', PDict [(''message_id'', PStr ''1''), (''timestamp'', PStr ''now'')])]) of
     Inr (Some e) \<Rightarrow> distinct (map tr_name (ev_traits e)) \<and> length (ev_traits e) = 6
       \<and> list_all (\<lambda>t. value_ok (tr_dtype t) (tr_value t)) (ev_traits e)
   | _ \<Rightarrow> False"
proof -
  let ?body = "PDict [(''event_type'', PStr ''compute.instance.x''),
     (''metadata'', PDict [(''message_id'', PStr ''1''), (''timestamp'', PStr ''now'')])]"
  have ok: "case snd (converter_init demo_event_conf demo_env builtin_plugins (PList demo_defs) []) of
      Inl e \<Rightarrow> False
    | Inr ds \<Rightarrow> (case to_event glob demo_env ds ''info'' ?body of Inr (Some e) \<Rightarrow> length (ev_traits e) = 6 | _ \<Rightarrow> False)"
    by code_simp
  then obtain ds e where ds: "snd (converter_init demo_event_conf demo_env builtin_plugins (PList demo_defs) []) = Inr ds"
      and e: "to_event glob demo_env ds ''info'' ?body = Inr (Some e)" "length (ev_traits e) = 6"
    by (auto split: sum.splits option.splits)
  from event_well_formed [OF ds cache_sound_Nil e(1)] e show ?thesis by (simp add: ds)
qed

text \<open>
  With \<open>ack_on_event_error\<close> a notification that fails, in the conversion or without
  an effect in the publication, changes nothing for the others and the batch is handled.
  Without it the batch stops there and is asked for again, although the notifications before it
  have been published.
\<close>

theorem process_events_error:
  assumes "convert bad = Inl err" "process_events conf convert publish ns w = (w', HANDLED)"
  shows "process_events conf convert publish (ns @ bad # ms) w =
    (if ack_on_event_error conf then process_events conf convert publish (ns @ ms) w else (w', REQUEUE))"
  using assms by (simp add: process_events_append)

theorem process_events_error_witness:
  "process_events demo_event_conf (\<lambda>n. Inl TypeError) (\<lambda>e w. (Suc w, Inr ())) ([] @ PNone # [PNone]) 0
   = (0, HANDLED)"
proof -
  have nil: "process_events demo_event_conf (\<lambda>n. Inl TypeError) (\<lambda>e w. (Suc w, Inr ())) [] 0 = (0, HANDLED)"
    by simp
  show ?thesis
    using process_events_error [of "\<lambda>n. Inl TypeError" PNone TypeError demo_event_conf
        "\<lambda>e w. (Suc w, Inr ())" "[]" 0 0 "[PNone]", OF refl nil]
    by (simp add: demo_event_conf_def)
qed

end
