(* ===== verification/Messaging_Publisher.thy ===== *)
theory Messaging_Publisher
  imports Signature Url Event_Converter
begin

text \<open>
  \<^verbatim>\<open>ceilometer/publisher/messaging.py\<close>: the publisher that sends samples and events to a
  message queue, with its local queue, its three policies for a failing transport and its
  retries, and \<open>message_from_event\<close> of \<^verbatim>\<open>ceilometer/publisher/utils.py\<close>.

  The transport is a parameter: \<open>send topic data w\<close> gives the new world \<open>w\<close> and whether it
  raised.
\<close>

section \<open>Options\<close>

definition opt_last :: "(string, string list) pydict \<Rightarrow> string \<Rightarrow> string option" where
  "opt_last options n = map_option last (dict_get options n)"

text \<open>\<open>int(options.get(n, [d])[-1])\<close>\<close>

definition opt_int :: "(string, string list) pydict \<Rightarrow> string \<Rightarrow> int \<Rightarrow> int res" where
  "opt_int options n d =
     (case opt_last options n of
        None \<Rightarrow> Inr d
      | Some s \<Rightarrow> py_int (PStr s))"

type_synonym queue_item = "string \<times> pymap list"

record messaging_publisher =
  per_meter_topic :: bool
  policy :: string
  max_queue_length :: int
  max_retry :: int
  retry :: "int option"
  local_queue :: "queue_item list"

text \<open>\<open>MessagingPublisher.__init__\<close>: an unknown policy becomes the default one.\<close>

definition messaging_init :: "split_url \<Rightarrow> messaging_publisher res" where
  "messaging_init url =
     (let options = parse_qs (u_query url);
          wanted = (case opt_last options ''policy'' of None \<Rightarrow> ''default'' | Some p \<Rightarrow> p);
          pol = (if wanted \<in> {''default'', ''queue'', ''drop''} then wanted else ''default'')
      in bindr (opt_int options ''per_meter_topic'' 0) (\<lambda>per_meter.
         bindr (opt_int options ''max_queue_length'' 1024) (\<lambda>len.
           Inr \<lparr>per_meter_topic = (per_meter \<noteq> 0), policy = pol, max_queue_length = len, max_retry = 0,
                retry = (if pol \<in> {''queue'', ''drop''} then Some 1 else None), local_queue = []\<rparr>)))"

text \<open>
  \<open>NotifierPublisher.__init__\<close>: the topics and the driver are taken out of the options, what
  is left of them goes into the transport's URL, if the publisher names a host at all.
\<close>

record notifier_publisher =
  np_publisher :: messaging_publisher
  np_topics :: "string list"
  np_url :: "string option"

definition notifier_init :: "split_url \<Rightarrow> string \<Rightarrow> notifier_publisher res" where
  "notifier_init url default_topic =
     bindr (messaging_init url) (\<lambda>mp.
       (let options = parse_qs (u_query url);
            topics = dict_get_default options ''topic'' [default_topic];
            driver = hd (dict_get_default options ''driver'' [''rabbit'']);
            rest = dict_del ''driver'' (dict_del ''topic'' options)
        in bindr (opt_int rest ''max_retry'' 100) (\<lambda>n.
             Inr \<lparr>np_publisher = mp\<lparr>max_retry := n\<rparr>, np_topics = topics,
                  np_url = (if u_netloc url = [] then None
                            else Some (urlunsplit (url\<lparr>u_scheme := driver, u_query := urlencode rest\<rparr>)))\<rparr>)))"

definition sample_notifier_init :: "string \<Rightarrow> split_url \<Rightarrow> notifier_publisher res" where
  "sample_notifier_init metering_topic url = notifier_init url metering_topic"

definition event_notifier_init :: "string \<Rightarrow> split_url \<Rightarrow> notifier_publisher res" where
  "event_notifier_init event_topic url = notifier_init url event_topic"

section \<open>The queue\<close>

type_synonym 'w send = "string \<Rightarrow> pymap list \<Rightarrow> 'w \<Rightarrow> 'w \<times> unit res"

text \<open>
  \<open>NotifierPublisher._send\<close>: the notifier's delivery failure becomes the publisher's.
\<close>

definition notifier_send :: "'w send \<Rightarrow> 'w send" where
  "notifier_send sample event_type data w =
     (case sample event_type data w of
        (w', Inl (OtherError m)) \<Rightarrow>
          (w', Inl (if m = ''MessageDeliveryFailure'' then DeliveryFailure else OtherError m))
      | r \<Rightarrow> r)"

text \<open>
  \<open>_process_queue\<close>: the head is sent until it goes through. Only the default policy tries
  again; when it gives up, the exception takes the queue with it.
\<close>

function process_queue ::
  "'w send \<Rightarrow> string \<Rightarrow> int \<Rightarrow> queue_item list \<Rightarrow> int \<Rightarrow> 'w \<Rightarrow> 'w \<times> queue_item list res" where
  "process_queue send pol limit [] current_retry w = (w, Inr [])"
| "process_queue send pol limit (item # queue) current_retry w =
     (case send (fst item) (snd item) w of
        (w', Inr _) \<Rightarrow> process_queue send pol limit queue current_retry w'
      | (w', Inl e) \<Rightarrow>
          (if e \<noteq> DeliveryFailure then (w', Inl e)
           else if pol = ''queue'' then (w', Inr (item # queue))
           else if pol = ''drop'' then (w', Inr [])
           else if limit \<le> current_retry + 1 then (w', Inl e)
           else process_queue send pol limit (item # queue) (current_retry + 1) w'))"
  by pat_completeness auto
termination
  by (relation "measure (\<lambda>(send, pol, limit, queue, current_retry, w). length queue + nat (limit - current_retry))")
    auto

definition check_queue_length :: "messaging_publisher \<Rightarrow> messaging_publisher" where
  "check_queue_length mp =
     (let queue_length = int (length (local_queue mp)) in
      if max_queue_length mp < queue_length \<and> 0 < max_queue_length mp
      then mp\<lparr>local_queue := drop (nat (queue_length - max_queue_length mp)) (local_queue mp)\<rparr>
      else mp)"

definition mp_flush ::
  "'w send \<Rightarrow> messaging_publisher \<times> 'w \<Rightarrow> (messaging_publisher \<times> 'w, unit) sres" where
  "mp_flush send st =
     (let (mp, w) = st; mp1 = mp\<lparr>local_queue := []\<rparr> in
      case process_queue send (policy mp) (max_retry mp) (local_queue mp) 0 w of
        (w', Inl e) \<Rightarrow> ((mp1, w'), Inl e)
      | (w', Inr queue) \<Rightarrow>
          (let mp2 = mp1\<lparr>local_queue := queue @ local_queue mp1\<rparr>
           in ((if policy mp = ''queue'' then check_queue_length mp2 else mp2, w'), Inr ())))"

section \<open>Publishing\<close>

text \<open>\<open>itertools.groupby\<close>: the runs of items with the same key.\<close>

fun group_runs :: "('a \<Rightarrow> 'k) \<Rightarrow> 'a list \<Rightarrow> ('k \<times> 'a list) list" where
  "group_runs f [] = []"
| "group_runs f (x # xs) =
     (case group_runs f xs of
        [] \<Rightarrow> [(f x, [x])]
      | (k, ys) # rest \<Rightarrow> (if k = f x then (k, x # ys) # rest else (f x, [x]) # (k, ys) # rest))"

text \<open>\<open>operator.itemgetter('counter_name')\<close>, which in a metering message is text.\<close>

definition counter_name :: "pymap \<Rightarrow> string" where
  "counter_name m = (case dict_get m ''counter_name'' of Some (PStr s) \<Rightarrow> s | _ \<Rightarrow> [])"

definition queue_meters :: "bool \<Rightarrow> string \<Rightarrow> pymap list \<Rightarrow> queue_item list" where
  "queue_meters per_meter topic meters =
     (topic, meters)
     # (if per_meter
        then map (\<lambda>(meter_name, meter_list). (topic @ ''.'' @ meter_name, meter_list))
               (group_runs counter_name (sort_key counter_name meters))
        else [])"

definition mp_publish ::
  "'w send \<Rightarrow> queue_item list \<Rightarrow> messaging_publisher \<times> 'w \<Rightarrow> (messaging_publisher \<times> 'w, unit) sres" where
  "mp_publish send items st =
     mp_flush send ((fst st)\<lparr>local_queue := local_queue (fst st) @ items\<rparr>, snd st)"

record mp_conf =
  hmac_sha256 :: "string \<Rightarrow> string \<Rightarrow> string"
  mp_repr :: "pyval \<Rightarrow> string"
  mp_isoformat :: "int \<Rightarrow> string"
  telemetry_secret :: string
  metering_topic :: string
  event_topic :: string

definition mp_publish_samples ::
  "mp_conf \<Rightarrow> 'w send \<Rightarrow> sample list \<Rightarrow> messaging_publisher \<times> 'w \<Rightarrow> (messaging_publisher \<times> 'w, unit) sres" where
  "mp_publish_samples conf send samples st =
     (case mapr (\<lambda>s. meter_message_from_counter (hmac_sha256 conf) (mp_repr conf) s (telemetry_secret conf)) samples of
        Inl e \<Rightarrow> (st, Inl e)
      | Inr meters \<Rightarrow> mp_publish send (queue_meters (per_meter_topic (fst st)) (metering_topic conf) meters) st)"

definition message_from_event :: "mp_conf \<Rightarrow> event \<Rightarrow> pymap res" where
  "message_from_event conf e =
     sign (hmac_sha256 conf) (mp_repr conf) (telemetry_secret conf) (serialize_event (mp_isoformat conf) e)"

definition mp_publish_events ::
  "mp_conf \<Rightarrow> 'w send \<Rightarrow> event list \<Rightarrow> messaging_publisher \<times> 'w \<Rightarrow> (messaging_publisher \<times> 'w, unit) sres" where
  "mp_publish_events conf send events st =
     (case mapr (message_from_event conf) events of
        Inl e \<Rightarrow> (st, Inl e)
      | Inr ev_list \<Rightarrow> mp_publish send [(event_topic conf, ev_list)] st)"

section \<open>Lemmas\<close>

lemma group_runs_sorted:
  fixes f :: "'a \<Rightarrow> 'k::linorder"
  assumes "sorted (map f xs)"
  shows "group_runs f xs = map (\<lambda>k. (k, filter (\<lambda>x. f x = k) xs)) (sorted_list_of_set (f ` set xs))"
  using assms
proof (induction xs)
  case (Cons x xs)
  let ?ks = "sorted_list_of_set (f ` set xs)"
  from Cons have IH: "group_runs f xs = map (\<lambda>k. (k, filter (\<lambda>x. f x = k) xs)) ?ks"
    and le: "\<forall>k \<in> set ?ks. f x \<le> k" by simp_all
  have strict: "sorted_wrt (<) ?ks" by simp
  show ?case
  proof (cases "f x \<in> f ` set xs")
    case True
    then have "f x \<in> set ?ks" by simp
    then obtain ks where ks: "?ks = f x # ks"
    proof (cases ?ks)
      case (Cons a ks)
      have "f x = a"
      proof (rule ccontr)
        assume "f x \<noteq> a"
        with \<open>f x \<in> set ?ks\<close> Cons have "f x \<in> set ks" by simp
        with strict Cons have "a < f x" by simp
        moreover have "f x \<le> a" using le Cons by (metis list.set_intros(1))
        ultimately show False by simp
      qed
      with Cons that show thesis by simp
    qed simp
    then have "f x \<notin> set ks" using strict by (metis sorted_wrt.simps(2) order_less_irrefl)
    then show ?thesis using True ks by (auto simp: IH insert_absorb)
  next
    case False
    then have lt: "\<forall>k \<in> set ?ks. f x < k" using le by (auto simp: order_less_le)
    then have ins: "insort (f x) ?ks = f x # ?ks" by (cases ?ks) auto
    have runs: "group_runs f (x # xs) = (f x, [x]) # group_runs f xs"
      using lt by (cases ?ks) (auto simp: IH)
    have "filter (\<lambda>y. f y = f x) xs = []" using False by (auto simp: filter_empty_conv) (metis imageI)
    then have x: "filter (\<lambda>y. f y = f x) (x # xs) = [x]" by simp
    have rest: "map (\<lambda>k. (k, filter (\<lambda>y. f y = k) (x # xs))) ?ks = group_runs f xs"
      using False unfolding IH by (intro map_cong) auto
    have "sorted_list_of_set (f ` set (x # xs)) = f x # ?ks" using False ins by simp
    then show ?thesis by (simp only: list.map x rest runs)
  qed
qed simp

text \<open>
  A transport for proofs: \<open>ok n\<close> tells whether the \<open>n\<close>-th call goes through; what went
  through is logged.
\<close>

definition flaky :: "(nat \<Rightarrow> bool) \<Rightarrow> (nat \<times> queue_item list) send" where
  "flaky ok topic data w =
     (if ok (fst w) then ((Suc (fst w), snd w @ [(topic, data)]), Inr ())
      else ((Suc (fst w), snd w), Inl DeliveryFailure))"

lemma flaky_simps [simp]:
  "ok n \<Longrightarrow> flaky ok topic data (n, sent) = ((Suc n, sent @ [(topic, data)]), Inr ())"
  "\<not> ok n \<Longrightarrow> flaky ok topic data (n, sent) = ((Suc n, sent), Inl DeliveryFailure)"
  by (simp_all add: flaky_def)

lemma process_queue_queue:
  "\<exists>n' sent' rest. process_queue (flaky ok) ''queue'' limit q r (n, sent) = ((n', sent'), Inr rest)
     \<and> sent' @ rest = sent @ q"
proof (induction q arbitrary: n sent)
  case (Cons x q)
  from Cons.IH [of "Suc n" "sent @ [x]"] show ?case by (cases "ok n") auto
qed simp

text \<open>
  The default policy gives up at the \<open>limit\<close>-th failure, counted over the whole queue; at
  the first one, when \<open>limit\<close> is not positive.
\<close>

lemma process_queue_default:
  assumes "r = 0 \<or> r < limit" "0 \<le> r"
  shows "\<exists>n' sent' res k. process_queue (flaky ok) ''default'' limit q r (n, sent) = ((n', sent'), res)
     \<and> sent' = sent @ take k q
     \<and> (res = Inr [] \<and> k = length q \<and> n' \<le> n + k + nat (max 1 limit - 1 - r)
        \<or> res = Inl DeliveryFailure \<and> k < length q \<and> n' = n + k + nat (max 1 limit - r))"
  using assms
proof (induction "length q + nat (limit - r)" arbitrary: q r n sent rule: less_induct)
  case less
  show ?case
  proof (cases q)
    case (Cons x qs)
    consider (sent) "ok n" | (last) "\<not> ok n" "limit \<le> r + 1" | (again) "\<not> ok n" "\<not> limit \<le> r + 1" by blast
    then show ?thesis
    proof cases
      case sent
      from less(1) [of qs r "Suc n" "sent @ [x]"] less(2,3) Cons
      obtain n' sent' res k where
        "process_queue (flaky ok) ''default'' limit qs r (Suc n, sent @ [x]) = ((n', sent'), res)"
        "sent' = (sent @ [x]) @ take k qs"
        "res = Inr [] \<and> k = length qs \<and> n' \<le> Suc n + k + nat (max 1 limit - 1 - r)
          \<or> res = Inl DeliveryFailure \<and> k < length qs \<and> n' = Suc n + k + nat (max 1 limit - r)"
        by auto
      with sent Cons show ?thesis
        by (intro exI [of _ n'] exI [of _ sent'] exI [of _ res] exI [of _ "Suc k"]) auto
    next
      case last
      with less(2,3) Cons show ?thesis
        by (intro exI [of _ "Suc n"] exI [of _ sent] exI [of _ "Inl DeliveryFailure"] exI [of _ 0]) auto
    next
      case again
      from less(1) [of q "r + 1" "Suc n" sent] less(2,3) again
      obtain n' sent' res k where
        "process_queue (flaky ok) ''default'' limit q (r + 1) (Suc n, sent) = ((n', sent'), res)"
        "sent' = sent @ take k q"
        "res = Inr [] \<and> k = length q \<and> n' \<le> Suc n + k + nat (max 1 limit - 1 - (r + 1))
          \<or> res = Inl DeliveryFailure \<and> k < length q \<and> n' = Suc n + k + nat (max 1 limit - (r + 1))"
        by auto
      with again Cons less(3) show ?thesis
        by (intro exI [of _ n'] exI [of _ sent'] exI [of _ res] exI [of _ k]) auto
    qed
  qed auto
qed

definition publish_run ::
  "'w send \<Rightarrow> queue_item list list \<Rightarrow> messaging_publisher \<times> 'w \<Rightarrow> messaging_publisher \<times> 'w" where
  "publish_run send batches st = fold (\<lambda>items st. fst (mp_publish send items st)) batches st"

definition queue_bounded :: "messaging_publisher \<Rightarrow> bool" where
  "queue_bounded mp = (0 < max_queue_length mp \<longrightarrow> int (length (local_queue mp)) \<le> max_queue_length mp)"

lemma check_queue_length_facts:
  "queue_bounded (check_queue_length mp)"
  "suffix (local_queue (check_queue_length mp)) (local_queue mp)"
  "max_queue_length mp \<le> 0 \<Longrightarrow> check_queue_length mp = mp"
  "policy (check_queue_length mp) = policy mp"
  "max_queue_length (check_queue_length mp) = max_queue_length mp"
  by (auto simp: check_queue_length_def queue_bounded_def Let_def suffix_drop)

lemma mp_publish_queue:
  assumes "policy mp = ''queue''"
  shows "\<exists>mp' n' sent'. mp_publish (flaky ok) items (mp, (n, sent)) = ((mp', (n', sent')), Inr ())
    \<and> policy mp' = ''queue'' \<and> max_queue_length mp' = max_queue_length mp \<and> queue_bounded mp'
    \<and> subseq (sent' @ local_queue mp') (sent @ local_queue mp @ items)
    \<and> (max_queue_length mp \<le> 0 \<longrightarrow> sent' @ local_queue mp' = sent @ local_queue mp @ items)"
proof -
  obtain n' sent' rest where
    p: "process_queue (flaky ok) ''queue'' (max_retry mp) (local_queue mp @ items) 0 (n, sent) = ((n', sent'), Inr rest)"
    and eq: "sent' @ rest = sent @ local_queue mp @ items"
    using process_queue_queue [of ok "max_retry mp" "local_queue mp @ items" 0 n sent] by auto
  let ?mp = "check_queue_length (mp\<lparr>local_queue := rest\<rparr>)"
  have "mp_publish (flaky ok) items (mp, (n, sent)) = ((?mp, (n', sent')), Inr ())"
    using assms p by (simp add: mp_publish_def mp_flush_def Let_def)
  moreover have "subseq (sent' @ local_queue ?mp) (sent @ local_queue mp @ items)"
    unfolding eq [symmetric]
    using check_queue_length_facts(2) [of "mp\<lparr>local_queue := rest\<rparr>"] by (simp add: list_emb_append_mono suffix_imp_subseq)
  ultimately show ?thesis
    using assms eq check_queue_length_facts [of "mp\<lparr>local_queue := rest\<rparr>"] by auto
qed

section \<open>Properties\<close>

text \<open>
  C8: With the queue policy a failing transport costs nothing but what the bound of the queue
  cuts off. Whatever calls fail over a sequence of publications, what was delivered followed by
  what is still queued is a subsequence of what was published (nothing is doubled or
  reordered), all of it when the queue is unbounded, and the queue respects its bound.
\<close>

theorem queue_policy_keeps_order:
  assumes "policy mp = ''queue''" "queue_bounded mp"
    and "publish_run (flaky ok) batches (mp, (n, sent)) = (mp', (n', sent'))"
  shows "queue_bounded mp'
    \<and> subseq (sent' @ local_queue mp') (sent @ local_queue mp @ concat batches)
    \<and> (max_queue_length mp \<le> 0 \<longrightarrow> sent' @ local_queue mp' = sent @ local_queue mp @ concat batches)"
  using assms
proof (induction batches arbitrary: mp n sent)
  case (Cons b bs)
  from mp_publish_queue [OF Cons.prems(1), of ok b n sent] obtain mp1 n1 sent1 where
    s: "mp_publish (flaky ok) b (mp, (n, sent)) = ((mp1, (n1, sent1)), Inr ())"
      "policy mp1 = ''queue''" "queue_bounded mp1"
    and max: "max_queue_length mp1 = max_queue_length mp"
    and sub: "subseq (sent1 @ local_queue mp1) (sent @ local_queue mp @ b)"
    and eq: "max_queue_length mp \<le> 0 \<Longrightarrow> sent1 @ local_queue mp1 = sent @ local_queue mp @ b"
    by blast
  have "publish_run (flaky ok) bs (mp1, (n1, sent1)) = (mp', (n', sent'))"
    using Cons.prems(3) s(1) by (simp add: publish_run_def)
  note IH = Cons.IH [OF s(2,3) this]
  have "subseq ((sent1 @ local_queue mp1) @ concat bs) ((sent @ local_queue mp @ b) @ concat bs)"
    using sub by (simp only: subseq_append)
  then have "subseq (sent1 @ local_queue mp1 @ concat bs) (sent @ local_queue mp @ concat (b # bs))" by simp
  with IH have "subseq (sent' @ local_queue mp') (sent @ local_queue mp @ concat (b # bs))"
    by (blast intro: subseq_order.order_trans)
  moreover have "sent' @ local_queue mp' = sent @ local_queue mp @ concat (b # bs)" if "max_queue_length mp \<le> 0"
  proof -
    have "sent' @ local_queue mp' = (sent1 @ local_queue mp1) @ concat bs" using IH that max by simp
    then show ?thesis by (simp add: eq [OF that])
  qed
  ultimately show ?case using IH by blast
qed (simp add: publish_run_def)

definition demo_publisher :: "string \<Rightarrow> int \<Rightarrow> messaging_publisher" where
  "demo_publisher pol n =
     \<lparr>per_meter_topic = False, policy = pol, max_queue_length = n, max_retry = 3, retry = None, local_queue = []\<rparr>"

theorem queue_policy_keeps_order_witness:
  "publish_run (flaky (\<lambda>n. n \<in> {2, 3})) [[(''a'', [])], [(''b'', [])], [(''c'', [])]] (demo_publisher ''queue'' 0, (0, []))
     = ((demo_publisher ''queue'' 0)\<lparr>local_queue := [(''c'', [])]\<rparr>, (5, [(''a'', []), (''b'', [])]))
   \<and> subseq [(''a'', []), (''b'', []), (''c'', [])] [(''a'', [] :: pymap list), (''b'', []), (''c'', [])]"
proof -
  have r: "publish_run (flaky (\<lambda>n. n \<in> {2, 3})) [[(''a'', [])], [(''b'', [])], [(''c'', [])]] (demo_publisher ''queue'' 0, (0, []))
     = ((demo_publisher ''queue'' 0)\<lparr>local_queue := [(''c'', [])]\<rparr>, (5, [(''a'', []), (''b'', [])]))"
    by code_simp
  have "policy (demo_publisher ''queue'' 0) = ''queue''" "queue_bounded (demo_publisher ''queue'' 0)"
    by (simp_all add: demo_publisher_def queue_bounded_def)
  from queue_policy_keeps_order [OF this r] r show ?thesis by (simp add: demo_publisher_def)
qed

text \<open>
  With the default policy a flush either sends the whole queue in order, or gives up at the
  \<open>max_retry\<close>-th failure, counted over the whole queue: then \<open>DeliveryFailure\<close> reaches the
  caller, a proper prefix of the queue has been sent and the rest of it is lost.
\<close>

theorem default_policy_gives_up:
  assumes "policy mp = ''default''"
  shows "\<exists>n' k res. mp_flush (flaky ok) (mp, (n, sent))
      = ((mp\<lparr>local_queue := []\<rparr>, (n', sent @ take k (local_queue mp))), res)
    \<and> (res = Inr () \<and> k = length (local_queue mp) \<and> n' \<le> n + k + nat (max 1 (max_retry mp) - 1)
       \<or> res = Inl DeliveryFailure \<and> k < length (local_queue mp) \<and> n' = n + k + nat (max 1 (max_retry mp)))"
proof -
  from process_queue_default [of 0 "max_retry mp" ok "local_queue mp" n sent] obtain n' sent' res k where
    "process_queue (flaky ok) ''default'' (max_retry mp) (local_queue mp) 0 (n, sent) = ((n', sent'), res)"
    "sent' = sent @ take k (local_queue mp)"
    "res = Inr [] \<and> k = length (local_queue mp) \<and> n' \<le> n + k + nat (max 1 (max_retry mp) - 1)
     \<or> res = Inl DeliveryFailure \<and> k < length (local_queue mp) \<and> n' = n + k + nat (max 1 (max_retry mp))"
    by auto
  then show ?thesis using assms
    by (intro exI [of _ n'] exI [of _ k] exI [of _ "bindr res (\<lambda>_. Inr ())"]) (auto simp: mp_flush_def Let_def)
qed

theorem default_policy_gives_up_witness:
  "\<exists>n' k res. mp_flush (flaky (\<lambda>n. n = 1)) ((demo_publisher ''default'' 0)\<lparr>local_queue := [(''a'', []), (''b'', [])]\<rparr>, (0, []))
      = ((demo_publisher ''default'' 0, (n', take k [(''a'', []), (''b'', [])])), res)
    \<and> (res = Inr () \<and> k = 2 \<and> n' \<le> k + 2 \<or> res = Inl DeliveryFailure \<and> k < 2 \<and> n' = k + 3)"
  using default_policy_gives_up [of "(demo_publisher ''default'' 0)\<lparr>local_queue := [(''a'', []), (''b'', [])]\<rparr>" "\<lambda>n. n = 1" 0 "[]"]
  by (auto simp: demo_publisher_def)

text \<open>
  With a topic per meter every sample is queued twice: in the batch on the metering topic,
  and on the topic of its meter, where the samples of the meter keep their order and no other
  sample appears.
\<close>

theorem per_meter_topics:
  "queue_meters True topic meters =
     (topic, meters)
     # map (\<lambda>name. (topic @ ''.'' @ name, filter (\<lambda>m. counter_name m = name) meters))
         (sorted_list_of_set (counter_name ` set meters))"
proof -
  have "group_runs counter_name (sort_key counter_name meters)
    = map (\<lambda>k. (k, filter (\<lambda>m. counter_name m = k) meters)) (sorted_list_of_set (counter_name ` set meters))"
    using group_runs_sorted [of counter_name "sort_key counter_name meters"] by (simp add: sort_key_stable)
  then show ?thesis by (simp add: queue_meters_def)
qed

end
