(* ===== verification/Publisher_Threads.thy ===== *)
theory Publisher_Threads
  imports Messaging_Publisher "HOL-Library.Multiset"
begin

text \<open>
  The messaging publisher under several threads (the listeners' executors share it): a step
  relation over the list objects of \<^verbatim>\<open>publisher/messaging.py\<close>, for every policy and queue
  bound. Publishing appends to the shared list outside the lock; \<open>flush\<close> takes the list and puts
  back what was not sent, each under the lock.

  \<open>self.local_queue.append(item)\<close> first reads the attribute and then calls the method of the
  list it found, so other threads may run in between. \<open>queue + self.local_queue\<close> and the store
  that follows are one step here: an append to the old shared list between them ends where an
  append just after them by a thread that has read the attribute before ends.
\<close>

section \<open>Threads\<close>

text \<open>
  Where a thread is: outside; with the list \<open>r\<close> in hand that it will append \<open>x\<close> to; having
  appended, and about to append more or to take the shared list; sending from the list \<open>q\<close>
  with a number of failures so far; about to put back \<open>q\<close>, or the new empty list that
  \<open>_process_queue\<close> returns; holding the lock, about to compare the length of the queue with the
  bound, or to cut off the oldest items.
\<close>

datatype 'a phase =
    Outside
  | Loaded nat 'a
  | Taking
  | Sending nat int
  | PutBack "nat option"
  | Checking
  | Trimming nat

text \<open>
  \<open>lists\<close> is the heap of list objects, \<open>shared\<close> the one the attribute refers to, \<open>lock\<close> the
  thread that holds \<open>queue_lock\<close>. The rest is the account: what was handed to the publisher and
  what went through; what the policy dropped; what an exception took along, and how many were
  raised; and what was appended to a list that no thread will ever look at again.
\<close>

record 'a threads =
  lists :: "nat \<Rightarrow> 'a list"
  shared :: nat
  fresh :: nat
  lock :: "nat option"
  phases :: "nat \<Rightarrow> 'a phase"
  published :: "'a multiset"
  delivered :: "'a multiset"
  dropped :: "'a multiset"
  abandoned :: "'a multiset"
  raised :: nat
  stale :: "'a multiset"

definition threads_init :: "'a threads" where
  "threads_init = \<lparr>lists = \<lambda>_. [], shared = 0, fresh = 1, lock = None, phases = \<lambda>_. Outside,
     published = {#}, delivered = {#}, dropped = {#}, abandoned = {#}, raised = 0, stale = {#}\<rparr>"

definition goto :: "nat \<Rightarrow> 'a phase \<Rightarrow> 'a threads \<Rightarrow> 'a threads" where
  "goto t p s = s\<lparr>phases := (phases s)(t := p)\<rparr>"

definition put_list :: "nat \<Rightarrow> 'a list \<Rightarrow> 'a threads \<Rightarrow> 'a threads" where
  "put_list r xs s = s\<lparr>lists := (lists s)(r := xs)\<rparr>"

text \<open>The list a thread works on, and whether a list is still looked at by anybody.\<close>

definition own :: "'a phase \<Rightarrow> nat option" where
  "own p = (case p of Sending q k \<Rightarrow> Some q | PutBack q \<Rightarrow> q | _ \<Rightarrow> None)"

definition live :: "'a threads \<Rightarrow> nat \<Rightarrow> bool" where
  "live s r \<longleftrightarrow> r = shared s \<or> (\<exists>t. own (phases s t) = Some r)"

text \<open>The list a \<open>PutBack\<close> holds.\<close>

definition held :: "'a threads \<Rightarrow> nat option \<Rightarrow> 'a list" where
  "held s q = (case q of None \<Rightarrow> [] | Some r \<Rightarrow> lists s r)"

definition append_item :: "nat \<Rightarrow> nat \<Rightarrow> 'a \<Rightarrow> 'a threads \<Rightarrow> 'a threads" where
  "append_item t r x s =
     goto t Taking (put_list r (lists s r @ [x]) (if live s r then s else s\<lparr>stale := add_mset x (stale s)\<rparr>))"

definition new_shared :: "'a list \<Rightarrow> 'a threads \<Rightarrow> 'a threads" where
  "new_shared xs s = put_list (fresh s) xs (s\<lparr>shared := fresh s, fresh := Suc (fresh s)\<rparr>)"

definition take_shared :: "nat \<Rightarrow> 'a threads \<Rightarrow> 'a threads" where
  "take_shared t s = goto t (Sending (shared s) 0) (new_shared [] s)"

text \<open>What a delivery failure does under each policy.\<close>

definition fail_send :: "messaging_publisher \<Rightarrow> nat \<Rightarrow> nat \<Rightarrow> int \<Rightarrow> 'a threads \<Rightarrow> 'a threads" where
  "fail_send mp t q k s =
     (if policy mp = ''queue'' then goto t (PutBack (Some q)) s
      else if policy mp = ''drop'' then goto t (PutBack None) (s\<lparr>dropped := dropped s + mset (lists s q)\<rparr>)
      else if max_retry mp \<le> k + 1
        then goto t Outside (s\<lparr>abandoned := abandoned s + mset (lists s q), raised := Suc (raised s)\<rparr>)
      else goto t (Sending q (k + 1)) s)"

definition put_back :: "messaging_publisher \<Rightarrow> nat \<Rightarrow> nat option \<Rightarrow> 'a threads \<Rightarrow> 'a threads" where
  "put_back mp t q s =
     (let s1 = new_shared (held s q @ lists s (shared s)) s in
      if policy mp = ''queue'' then goto t Checking (s1\<lparr>lock := Some t\<rparr>) else goto t Outside s1)"

definition check_length :: "messaging_publisher \<Rightarrow> nat \<Rightarrow> 'a threads \<Rightarrow> 'a threads" where
  "check_length mp t s =
     (let queue_length = int (length (lists s (shared s))) in
      if max_queue_length mp < queue_length \<and> 0 < max_queue_length mp
      then goto t (Trimming (nat (queue_length - max_queue_length mp))) s
      else goto t Outside (s\<lparr>lock := None\<rparr>))"

definition trim :: "nat \<Rightarrow> nat \<Rightarrow> 'a threads \<Rightarrow> 'a threads" where
  "trim t excess s =
     goto t Outside (new_shared (drop excess (lists s (shared s)))
       (s\<lparr>lock := None, dropped := dropped s + mset (take excess (lists s (shared s)))\<rparr>))"

text \<open>
  The steps of \<open>n\<close> threads. A thread that has appended one item may append another (one for each
  meter, with \<open>per_meter_topic\<close>). The transport decides whether a send goes through, fails or
  raises something else.
\<close>

inductive step :: "messaging_publisher \<Rightarrow> nat \<Rightarrow> 'a threads \<Rightarrow> 'a threads \<Rightarrow> bool"
  for mp :: messaging_publisher and n :: nat where
  load: "\<lbrakk>t < n; phases s t = Outside \<or> phases s t = Taking\<rbrakk> \<Longrightarrow>
    step mp n s (goto t (Loaded (shared s) x) (s\<lparr>published := add_mset x (published s)\<rparr>))"
| append: "\<lbrakk>t < n; phases s t = Loaded r x\<rbrakk> \<Longrightarrow> step mp n s (append_item t r x s)"
| flush: "\<lbrakk>t < n; phases s t = Outside\<rbrakk> \<Longrightarrow> step mp n s (goto t Taking s)"
| take: "\<lbrakk>t < n; phases s t = Taking; lock s = None\<rbrakk> \<Longrightarrow> step mp n s (take_shared t s)"
| send: "\<lbrakk>t < n; phases s t = Sending q k; lists s q = x # xs\<rbrakk> \<Longrightarrow>
    step mp n s (put_list q xs (s\<lparr>delivered := add_mset x (delivered s)\<rparr>))"
| fail: "\<lbrakk>t < n; phases s t = Sending q k; lists s q \<noteq> []\<rbrakk> \<Longrightarrow> step mp n s (fail_send mp t q k s)"
| error: "\<lbrakk>t < n; phases s t = Sending q k; lists s q \<noteq> []\<rbrakk> \<Longrightarrow>
    step mp n s (goto t Outside (s\<lparr>abandoned := abandoned s + mset (lists s q), raised := Suc (raised s)\<rparr>))"
| sent: "\<lbrakk>t < n; phases s t = Sending q k; lists s q = []\<rbrakk> \<Longrightarrow> step mp n s (goto t (PutBack None) s)"
| return: "\<lbrakk>t < n; phases s t = PutBack q; lock s = None\<rbrakk> \<Longrightarrow> step mp n s (put_back mp t q s)"
| check: "\<lbrakk>t < n; phases s t = Checking; lock s = Some t\<rbrakk> \<Longrightarrow> step mp n s (check_length mp t s)"
| cut: "\<lbrakk>t < n; phases s t = Trimming c; lock s = Some t\<rbrakk> \<Longrightarrow> step mp n s (trim t c s)"

inductive_cases step_cases: "step mp n s s'"

definition reachable :: "messaging_publisher \<Rightarrow> nat \<Rightarrow> 'a threads \<Rightarrow> bool" where
  "reachable mp n s = (step mp n)\<^sup>*\<^sup>* threads_init s"

section \<open>The invariant\<close>

text \<open>What a thread has in hand: the item it is about to append, or the list it works on.\<close>

definition in_hand :: "'a threads \<Rightarrow> nat \<Rightarrow> 'a multiset" where
  "in_hand s t =
     (case phases s t of
        Loaded r x \<Rightarrow> {#x#}
      | Sending q k \<Rightarrow> mset (lists s q)
      | PutBack q \<Rightarrow> mset (held s q)
      | _ \<Rightarrow> {#})"

definition ownership :: "nat \<Rightarrow> 'a threads \<Rightarrow> bool" where
  "ownership n s \<longleftrightarrow>
     shared s < fresh s
     \<and> (\<forall>t. n \<le> t \<longrightarrow> phases s t = Outside)
     \<and> (\<forall>t q. own (phases s t) = Some q \<longrightarrow> q < fresh s \<and> q \<noteq> shared s)
     \<and> (\<forall>t u q. own (phases s t) = Some q \<longrightarrow> own (phases s u) = Some q \<longrightarrow> t = u)"

definition accounted :: "nat \<Rightarrow> 'a threads \<Rightarrow> bool" where
  "accounted n s \<longleftrightarrow>
     published s = delivered s + mset (lists s (shared s)) + (\<Sum>t<n. in_hand s t)
       + dropped s + abandoned s + stale s"

definition blamed :: "messaging_publisher \<Rightarrow> nat \<Rightarrow> 'a threads \<Rightarrow> bool" where
  "blamed mp n s \<longleftrightarrow>
     (dropped s = {#} \<or> policy mp = ''drop'' \<or> policy mp = ''queue'' \<and> 0 < max_queue_length mp)
     \<and> (abandoned s = {#} \<or> 0 < raised s)
     \<and> (0 < max_queue_length mp \<or> (\<forall>t c. phases s t \<noteq> Trimming c))
     \<and> (policy mp = ''queue'' \<or> (\<forall>t c. phases s t \<noteq> Checking \<and> phases s t \<noteq> Trimming c))
     \<and> (n \<le> 1 \<longrightarrow> stale s = {#} \<and> (\<forall>t r x. phases s t = Loaded r x \<longrightarrow> r = shared s))"

lemma own_simps [simp]:
  "own Outside = None" "own Taking = None" "own (Loaded r x) = None" "own Checking = None"
  "own (Trimming c) = None" "own (Sending q k) = Some q" "own (PutBack p) = p"
  by (simp_all add: own_def)

lemma goto_fields [simp]:
  "phases (goto t p s) = (phases s)(t := p)" "lists (goto t p s) = lists s" "shared (goto t p s) = shared s"
  "fresh (goto t p s) = fresh s" "lock (goto t p s) = lock s" "published (goto t p s) = published s"
  "delivered (goto t p s) = delivered s" "dropped (goto t p s) = dropped s"
  "abandoned (goto t p s) = abandoned s" "raised (goto t p s) = raised s" "stale (goto t p s) = stale s"
  by (simp_all add: goto_def)

lemma put_list_fields [simp]:
  "phases (put_list r xs s) = phases s" "lists (put_list r xs s) = (lists s)(r := xs)"
  "shared (put_list r xs s) = shared s" "fresh (put_list r xs s) = fresh s" "lock (put_list r xs s) = lock s"
  "published (put_list r xs s) = published s" "delivered (put_list r xs s) = delivered s"
  "dropped (put_list r xs s) = dropped s" "abandoned (put_list r xs s) = abandoned s"
  "raised (put_list r xs s) = raised s" "stale (put_list r xs s) = stale s"
  by (simp_all add: put_list_def)

lemmas thread_steps =
  append_item_def take_shared_def new_shared_def fail_send_def put_back_def check_length_def trim_def Let_def

lemma ownershipD:
  assumes "ownership n s"
  shows "shared s < fresh s" "n \<le> t \<Longrightarrow> phases s t = Outside"
    and "own (phases s t) = Some q \<Longrightarrow> q < fresh s" "own (phases s t) = Some q \<Longrightarrow> q \<noteq> shared s"
    and "own (phases s t) = Some q \<Longrightarrow> own (phases s u) = Some q \<Longrightarrow> t = u"
  using assms unfolding ownership_def by blast+

text \<open>A step changes the phase of one thread, to one that owns what it owned, the old shared list, or nothing.\<close>

lemma ownership_move:
  assumes "ownership n s" "t < n" "phases s' = (phases s)(t := p)"
    and "shared s' = shared s \<and> fresh s' = fresh s \<or> shared s' = fresh s \<and> fresh s' = Suc (fresh s)"
    and "own p = None \<or> own p = own (phases s t) \<or> own p = Some (shared s) \<and> shared s' = fresh s"
  shows "ownership n s'"
proof -
  note ok = ownershipD [OF assms(1)]
  have old: "own (phases s u) = Some q \<or> u = t \<and> q = shared s \<and> shared s' = fresh s" if "own (phases s' u) = Some q" for u q
    using that assms(3,5) by (auto split: if_splits)
  have "u = v" if "own (phases s' u) = Some q" "own (phases s' v) = Some q" for u v q
    using old [OF that(1)] old [OF that(2)] ok(5) [of u q v] ok(4) [of u q] ok(4) [of v q] by blast
  moreover have "q < fresh s' \<and> q \<noteq> shared s'" if "own (phases s' u) = Some q" for u q
    using old [OF that]
  proof
    assume "own (phases s u) = Some q"
    then show ?thesis using ok(3) [of u q] ok(4) [of u q] assms(4) by linarith
  next
    assume "u = t \<and> q = shared s \<and> shared s' = fresh s"
    then show ?thesis using ok(1) assms(4) by linarith
  qed
  moreover have "shared s' < fresh s'" using assms(4) ok(1) by linarith
  moreover have "phases s' u = Outside" if "n \<le> u" for u
    using ok(2) [OF that] that assms(2,3) by simp
  ultimately show ?thesis unfolding ownership_def by blast
qed

lemma step_ownership:
  assumes "step mp n s s'" "ownership n s"
  shows "ownership n s'"
  using assms(1)
proof cases
  case (append t r x)
  show ?thesis by (rule ownership_move [OF assms(2) append(2), of _ Taking]) (auto simp: append(1) thread_steps)
next
  case (send t q k x xs)
  show ?thesis
    by (rule ownership_move [OF assms(2) send(2), of _ "phases s t"]) (auto simp: send(1))
next
  case (fail t q k)
  then show ?thesis
    by (intro ownership_move [OF assms(2) fail(2), of _ "phases (fail_send mp t q k s) t"]) (auto simp: fail_send_def)
next
  case (return t q)
  then show ?thesis
    by (intro ownership_move [OF assms(2) return(2), of _ "phases (put_back mp t q s) t"]) (auto simp: thread_steps)
next
  case (check t)
  then show ?thesis
    by (intro ownership_move [OF assms(2) check(2), of _ "phases (check_length mp t s) t"]) (auto simp: thread_steps)
next
  case (load t x)
  then show ?thesis by (intro ownership_move [OF assms(2) load(2), of _ "Loaded (shared s) x"]) auto
next
  case (flush t)
  then show ?thesis by (intro ownership_move [OF assms(2) flush(2), of _ Taking]) auto
next
  case (take t)
  then show ?thesis by (intro ownership_move [OF assms(2) take(2), of _ "Sending (shared s) 0"]) (auto simp: thread_steps)
next
  case (error t q k)
  then show ?thesis by (intro ownership_move [OF assms(2) error(2), of _ Outside]) auto
next
  case (sent t q k)
  then show ?thesis by (intro ownership_move [OF assms(2) sent(2), of _ "PutBack None"]) auto
next
  case (cut t c)
  then show ?thesis by (intro ownership_move [OF assms(2) cut(2), of _ Outside]) (auto simp: thread_steps)
qed

text \<open>The account changes in the hand of the thread that moves, and of the owner of the list it appends to.\<close>

lemma hands_change:
  assumes "t < n" "\<And>u. u < n \<Longrightarrow> u \<noteq> t \<Longrightarrow> in_hand s' u = in_hand s u"
  shows "(\<Sum>u<n. in_hand s' u) + in_hand s t = (\<Sum>u<n. in_hand s u) + in_hand s' t"
proof -
  have "(\<Sum>u<n. f u) = f t + (\<Sum>u\<in>{..<n} - {t}. f u)" for f :: "nat \<Rightarrow> 'a multiset"
    using assms(1) by (subst sum.remove [of _ t]) auto
  moreover have "(\<Sum>u\<in>{..<n} - {t}. in_hand s' u) = (\<Sum>u\<in>{..<n} - {t}. in_hand s u)"
    by (rule sum.cong) (use assms(2) in auto)
  ultimately show ?thesis by (simp add: ac_simps)
qed

lemma in_hand_own: "own (phases s t) = Some q \<Longrightarrow> in_hand s t = mset (lists s q)"
  by (auto simp: own_def in_hand_def held_def split: phase.splits)

lemma in_hand_same:
  assumes "phases s' u = phases s u" "\<And>q. own (phases s u) = Some q \<Longrightarrow> lists s' q = lists s q"
  shows "in_hand s' u = in_hand s u"
  using assms by (auto simp: own_def in_hand_def held_def split: phase.splits option.splits)

lemma accounted_move:
  assumes "ownership n s" "accounted n s" "t < n" "phases s' = (phases s)(t := p)"
    and "\<And>q. own (phases s t) \<noteq> Some q \<Longrightarrow> \<exists>u. own (phases s u) = Some q \<Longrightarrow> q < fresh s \<Longrightarrow> q \<noteq> shared s \<Longrightarrow> lists s' q = lists s q"
    and "published s + delivered s' + mset (lists s' (shared s')) + in_hand s' t + dropped s' + abandoned s' + stale s'
      = published s' + delivered s + mset (lists s (shared s)) + in_hand s t + dropped s + abandoned s + stale s"
  shows "accounted n s'"
proof -
  note ok = ownershipD [OF assms(1)]
  have same: "in_hand s' u = in_hand s u" if u: "u \<noteq> t" for u
  proof (rule in_hand_same)
    show "lists s' q = lists s q" if q: "own (phases s u) = Some q" for q
      using assms(5) [of q] q ok(3) [OF q] ok(4) [OF q] ok(5) [OF q, of t] u by blast
  qed (use u assms(4) in simp)
  have hands: "(\<Sum>u<n. in_hand s' u) + in_hand s t = (\<Sum>u<n. in_hand s u) + in_hand s' t"
    by (rule hands_change [OF assms(3)]) (rule same)
  show ?thesis unfolding accounted_def
  proof (rule multiset_eqI)
    fix x
    from assms(2) have "count (published s) x = count (delivered s) x + count (mset (lists s (shared s))) x
        + count (\<Sum>u<n. in_hand s u) x + count (dropped s) x + count (abandoned s) x + count (stale s) x"
      by (simp only: accounted_def plus_multiset.rep_eq)
    with arg_cong [OF hands, of "\<lambda>M. count M x"] arg_cong [OF assms(6), of "\<lambda>M. count M x"]
    show "count (published s') x = count (delivered s' + mset (lists s' (shared s')) + (\<Sum>u<n. in_hand s' u)
        + dropped s' + abandoned s' + stale s') x"
      unfolding plus_multiset.rep_eq by linarith
  qed
qed

lemma append_accounted:
  assumes "ownership n s" "accounted n s" "t < n" "phases s t = Loaded r x"
  shows "accounted n (append_item t r x s)"
proof -
  note ok = ownershipD [OF assms(1)]
  let ?s = "append_item t r x s"
  have t: "in_hand ?s t = {#}" "in_hand s t = {#x#}"
    using assms(4) by (simp_all add: in_hand_def append_item_def)
  show ?thesis
  proof (cases "\<exists>u. own (phases s u) = Some r")
    case False
    then have "accounted n ?s"
      by (intro accounted_move [OF assms(1-3), of _ Taking])
        (auto simp: append_item_def live_def in_hand_def assms(4) split: if_splits)
    then show ?thesis .
  next
    case True
    then obtain u where u: "own (phases s u) = Some r" by blast
    have ut: "u \<noteq> t" using u assms(4) by auto
    have un: "u < n" using u ok(2) [of u] by (cases "n \<le> u") auto
    have r: "r \<noteq> shared s" using ok(4) [OF u] .
    have lists: "lists ?s r = lists s r @ [x]" "q \<noteq> r \<Longrightarrow> lists ?s q = lists s q" for q
      by (simp_all add: append_item_def)
    have phases: "v \<noteq> t \<Longrightarrow> phases ?s v = phases s v" for v by (simp add: append_item_def)
    have hu: "in_hand ?s u = add_mset x (in_hand s u)"
      using in_hand_own [OF u] in_hand_own [of ?s u r] u phases [OF ut] lists(1) by simp
    have other: "in_hand ?s v = in_hand s v" if "v \<noteq> t" "v \<noteq> u" for v
      using that phases [of v] lists(2) ok(5) [OF u, of v] by (intro in_hand_same) auto
    have "(\<Sum>v<n. in_hand ?s v) = in_hand ?s u + (\<Sum>v\<in>{..<n} - {u}. in_hand ?s v)"
      using un by (subst sum.remove [of _ u]) auto
    also have "(\<Sum>v\<in>{..<n} - {u}. in_hand ?s v) = (\<Sum>v\<in>{..<n} - {u} - {t}. in_hand ?s v)"
      using assms(3) ut by (subst sum.remove [of _ t]) (auto simp: t)
    also have "\<dots> = (\<Sum>v\<in>{..<n} - {u} - {t}. in_hand s v)"
      by (rule sum.cong) (use other in auto)
    also have "in_hand ?s u + \<dots> = in_hand s u + (in_hand s t + \<dots>)" by (simp add: hu t)
    also have "in_hand s t + (\<Sum>v\<in>{..<n} - {u} - {t}. in_hand s v) = (\<Sum>v\<in>{..<n} - {u}. in_hand s v)"
      using assms(3) ut by (subst sum.remove [of "{..<n} - {u}" t]) auto
    also have "in_hand s u + \<dots> = (\<Sum>v<n. in_hand s v)"
      using un by (subst sum.remove [of "{..<n}" u]) auto
    finally have "(\<Sum>v<n. in_hand ?s v) = (\<Sum>v<n. in_hand s v)" .
    moreover have "live s r" using u by (auto simp: live_def)
    ultimately show ?thesis using assms(2) r by (simp add: accounted_def append_item_def)
  qed
qed

lemma step_accounted:
  assumes "step mp n s s'" "ownership n s" "accounted n s"
  shows "accounted n s'"
  using assms(1)
proof cases
  case (append t r x)
  with append_accounted [OF assms(2,3)] show ?thesis by simp
next
  case (load t x)
  have "in_hand s t = {#}" using load(3) by (auto simp: in_hand_def)
  then show ?thesis
    by (intro accounted_move [OF assms(2,3) load(2), of _ "Loaded (shared s) x"]) (simp_all add: load(1) in_hand_def)
next
  case (flush t)
  then show ?thesis
    by (intro accounted_move [OF assms(2,3) flush(2), of _ Taking]) (simp_all add: in_hand_def)
next
  case (take t)
  have "shared s \<noteq> fresh s" using ownershipD(1) [OF assms(2)] by simp
  then show ?thesis using take
    by (intro accounted_move [OF assms(2,3) take(2), of _ "Sending (shared s) 0"]) (simp_all add: in_hand_def thread_steps)
next
  case (send t q k x xs)
  have "q \<noteq> shared s" using ownershipD(4) [OF assms(2), of t q] send(3) by simp
  then show ?thesis using send
    by (intro accounted_move [OF assms(2,3) send(2), of _ "phases s t"]) (auto simp: in_hand_def)
next
  case (fail t q k)
  then show ?thesis
    by (intro accounted_move [OF assms(2,3) fail(2), of _ "phases (fail_send mp t q k s) t"])
      (auto simp: in_hand_def fail_send_def held_def)
next
  case (error t q k)
  then show ?thesis
    by (intro accounted_move [OF assms(2,3) error(2), of _ Outside]) (auto simp: in_hand_def)
next
  case (sent t q k)
  then show ?thesis
    by (intro accounted_move [OF assms(2,3) sent(2), of _ "PutBack None"]) (auto simp: in_hand_def held_def)
next
  case (return t q)
  then show ?thesis
    by (intro accounted_move [OF assms(2,3) return(2), of _ "phases (put_back mp t q s) t"])
      (auto simp: in_hand_def thread_steps)
next
  case (check t)
  then show ?thesis
    by (intro accounted_move [OF assms(2,3) check(2), of _ "phases (check_length mp t s) t"])
      (auto simp: in_hand_def thread_steps)
next
  case (cut t c)
  have "mset (lists s (shared s)) = mset (take c (lists s (shared s))) + mset (drop c (lists s (shared s)))"
    by (simp add: mset_append [symmetric] del: mset_append)
  then show ?thesis using cut
    by (intro accounted_move [OF assms(2,3) cut(2), of _ Outside]) (simp_all add: in_hand_def thread_steps)
qed

lemma step_blamed:
  assumes "step mp n s s'" "ownership n s" "blamed mp n s"
  shows "blamed mp n s'"
proof -
  have one: "u = t" if "n \<le> 1" "t < n" "phases s u \<noteq> Outside" for u t
    using ownershipD(2) [OF assms(2), of u] that by linarith
  show ?thesis using assms(1)
  proof cases
    case (append t r x)
    then have "n \<le> 1 \<Longrightarrow> r = shared s" using assms(3) unfolding blamed_def by blast
    then show ?thesis using assms(3) append one
      by (auto simp: blamed_def append_item_def live_def split: if_splits)
  next
    case (load t x)
    then show ?thesis using assms(3) by (auto simp: blamed_def split: if_splits)
  next
    case (take t)
    then have "n \<le> 1 \<Longrightarrow> phases s u \<noteq> Loaded r x" for u r x using one [of t u] by auto
    then show ?thesis using assms(3) take by (auto simp: blamed_def thread_steps split: if_splits)
  next
    case (return t q)
    then have "n \<le> 1 \<Longrightarrow> phases s u \<noteq> Loaded r x" for u r x using one [of t u] by auto
    then show ?thesis using assms(3) return by (auto simp: blamed_def thread_steps split: if_splits)
  next
    case (check t)
    then show ?thesis using assms(3) by (auto simp: blamed_def thread_steps split: if_splits)
  next
    case (cut t c)
    then have "n \<le> 1 \<Longrightarrow> phases s u \<noteq> Loaded r x" for u r x using one [of t u] by auto
    then show ?thesis using assms(3) cut by (auto simp: blamed_def thread_steps split: if_splits)
  next
    case (fail t q k)
    then show ?thesis using assms(3) by (auto simp: blamed_def fail_send_def split: if_splits)
  qed (use assms(3) in \<open>auto simp: blamed_def split: if_splits\<close>)
qed

lemma reachable_init: "reachable mp n threads_init"
  by (simp add: reachable_def)

lemma reachable_step: "reachable mp n s \<Longrightarrow> step mp n s s' \<Longrightarrow> reachable mp n s'"
  unfolding reachable_def by (rule rtranclp.rtrancl_into_rtrancl)

lemma reachable_ok: "reachable mp n s \<Longrightarrow> ownership n s \<and> accounted n s \<and> blamed mp n s"
  unfolding reachable_def
proof (induction rule: rtranclp_induct)
  case base
  show ?case by (simp add: threads_init_def ownership_def accounted_def blamed_def in_hand_def)
next
  case (step s s')
  then show ?case by (blast intro: step_ownership step_accounted step_blamed)
qed

section \<open>Properties\<close>

text \<open>
  C9: Every item handed to the publisher is accounted for. Any number of threads publish and
  flush, under any policy, bound and number of retries, in any order, whichever sends go through.
  At every moment what was published is, each item counted, what was delivered, what is in the
  shared queue, what the threads have in hand (nothing, for a thread that is outside), what was
  dropped, what exceptions took along and what was appended to a list nobody looks at any more:
  nothing is delivered twice or dropped after it was delivered. Items are dropped only under the
  policy drop, or under the policy queue with a bound; exceptions take items along only when one
  was raised to a caller; and with one thread no append is ever lost.
\<close>

theorem threads_account_for_items:
  assumes "reachable mp n s"
  shows "published s = delivered s + mset (lists s (shared s)) + (\<Sum>t<n. in_hand s t)
      + dropped s + abandoned s + stale s
    \<and> (\<forall>t. phases s t = Outside \<longrightarrow> in_hand s t = {#})
    \<and> (dropped s \<noteq> {#} \<longrightarrow> policy mp = ''drop'' \<or> policy mp = ''queue'' \<and> 0 < max_queue_length mp)
    \<and> (abandoned s \<noteq> {#} \<longrightarrow> 0 < raised s)
    \<and> (n \<le> 1 \<longrightarrow> stale s = {#})"
  using reachable_ok [OF assms] by (auto simp: accounted_def blamed_def in_hand_def)

definition run_state ::
  "string list \<Rightarrow> nat \<Rightarrow> nat \<Rightarrow> nat option \<Rightarrow> string phase \<Rightarrow> string phase \<Rightarrow> string multiset \<Rightarrow> string multiset \<Rightarrow> string threads" where
  "run_state xs sh fr l p q pub del =
     \<lparr>lists = (\<lambda>_. [])(0 := xs), shared = sh, fresh = fr, lock = l, phases = (\<lambda>_. Outside)(0 := p, 1 := q),
      published = pub, delivered = del, dropped = {#}, abandoned = {#}, raised = 0, stale = {#}\<rparr>"

lemma step_eq: "step mp n s s1 \<Longrightarrow> s1 = s' \<Longrightarrow> step mp n s s'"
  by simp

lemmas run_defs = run_state_def goto_def put_list_def append_item_def take_shared_def new_shared_def fail_send_def
  put_back_def check_length_def trim_def held_def own_def live_def Let_def fun_eq_iff

definition queue_publisher :: messaging_publisher where
  "queue_publisher = \<lparr>per_meter_topic = False, policy = ''queue'', max_queue_length = 1024, max_retry = 0,
     retry = Some 1, local_queue = []\<rparr>"

definition lost_state :: "string threads" where
  "lost_state = (run_state [''b''] 2 3 None Outside Taking {#''b'', ''a''#} {#''a''#})\<lparr>stale := {#''b''#}\<rparr>"

lemma losing_run:
  "step queue_publisher 2 threads_init (run_state [] 0 1 None (Loaded 0 ''a'') Outside {#''a''#} {#})"
  "step queue_publisher 2 (run_state [] 0 1 None (Loaded 0 ''a'') Outside {#''a''#} {#})
     (run_state [''a''] 0 1 None Taking Outside {#''a''#} {#})"
  "step queue_publisher 2 (run_state [''a''] 0 1 None Taking Outside {#''a''#} {#})
     (run_state [''a''] 0 1 None Taking (Loaded 0 ''b'') {#''b'', ''a''#} {#})"
  "step queue_publisher 2 (run_state [''a''] 0 1 None Taking (Loaded 0 ''b'') {#''b'', ''a''#} {#})
     (run_state [''a''] 1 2 None (Sending 0 0) (Loaded 0 ''b'') {#''b'', ''a''#} {#})"
  "step queue_publisher 2 (run_state [''a''] 1 2 None (Sending 0 0) (Loaded 0 ''b'') {#''b'', ''a''#} {#})
     (run_state [] 1 2 None (Sending 0 0) (Loaded 0 ''b'') {#''b'', ''a''#} {#''a''#})"
  "step queue_publisher 2 (run_state [] 1 2 None (Sending 0 0) (Loaded 0 ''b'') {#''b'', ''a''#} {#''a''#})
     (run_state [] 1 2 None (PutBack None) (Loaded 0 ''b'') {#''b'', ''a''#} {#''a''#})"
  "step queue_publisher 2 (run_state [] 1 2 None (PutBack None) (Loaded 0 ''b'') {#''b'', ''a''#} {#''a''#})
     (run_state [] 2 3 (Some 0) Checking (Loaded 0 ''b'') {#''b'', ''a''#} {#''a''#})"
  "step queue_publisher 2 (run_state [] 2 3 (Some 0) Checking (Loaded 0 ''b'') {#''b'', ''a''#} {#''a''#})
     (run_state [] 2 3 None Outside (Loaded 0 ''b'') {#''b'', ''a''#} {#''a''#})"
  "step queue_publisher 2 (run_state [] 2 3 None Outside (Loaded 0 ''b'') {#''b'', ''a''#} {#''a''#}) lost_state"
  by (rule step_eq, rule step.load [where t = 0 and x = "''a''"], simp_all add: threads_init_def run_defs,
      rule step_eq, rule step.append [where t = 0 and r = 0 and x = "''a''"], simp_all add: run_defs,
      rule step_eq, rule step.load [where t = 1 and x = "''b''"], simp_all add: run_defs add_mset_commute,
      rule step_eq, rule step.take [where t = 0], simp_all add: run_defs,
      rule step_eq, rule step.send [where t = 0 and q = 0], simp_all add: run_defs,
      rule step_eq, rule step.sent [where t = 0 and q = 0], simp_all add: run_defs,
      rule step_eq, rule step.return [where t = 0 and q = None], simp_all add: run_defs queue_publisher_def,
      rule step_eq, rule step.check [where t = 0], simp_all add: run_defs,
      rule step_eq, rule step.append [where t = 1 and r = 0 and x = "''b''"], simp_all add: lost_state_def run_defs)

lemma lost_reachable: "reachable queue_publisher 2 lost_state"
proof -
  note r4 = reachable_step [OF reachable_step [OF reachable_step [OF reachable_step
      [OF reachable_init losing_run(1)] losing_run(2)] losing_run(3)] losing_run(4)]
  show ?thesis
    by (rule reachable_step [OF reachable_step [OF reachable_step [OF reachable_step [OF reachable_step
      [OF r4 losing_run(5)] losing_run(6)] losing_run(7)] losing_run(8)] losing_run(9)])
qed

theorem threads_account_for_items_witness:
  "\<exists>s :: string threads. reachable queue_publisher 2 s \<and> stale s = {#''b''#} \<and> dropped s = {#}
     \<and> published s = delivered s + mset (lists s (shared s)) + (\<Sum>t<2. in_hand s t) + dropped s + abandoned s + stale s"
  using threads_account_for_items [OF lost_reachable] lost_reachable
  by (intro exI [of _ lost_state]) (simp add: lost_state_def run_state_def)

text \<open>
  The append outside the lock can lose an item. Two threads suffice, under the policy that
  queues and with no failing send: a thread that has read the attribute appends to a list that
  another thread has meanwhile taken, sent and dropped. Nothing was dropped or raised, and the
  item is in no list that anybody still looks at.
\<close>

theorem unlocked_append_loses:
  "\<exists>s :: string threads. reachable queue_publisher 2 s \<and> (\<forall>t. in_hand s t = {#})
     \<and> published s = {#''b'', ''a''#} \<and> delivered s = {#''a''#} \<and> lists s (shared s) = []
     \<and> dropped s = {#} \<and> raised s = 0"
  using lost_reachable
  by (intro exI [of _ lost_state]) (simp add: lost_state_def run_state_def in_hand_def)

end
