(* ===== verification/Pipeline_Manager.thy ===== *)
theory Pipeline_Manager
  imports Pipeline_Config
begin

text \<open>
  The managers of \<^verbatim>\<open>ceilometer/pipeline.py\<close>: sinks, the cache of publishers, the pipelines
  built from sources and sinks, the polling manager, and the detection of changed files.
  \<open>'tr\<close> is the type of transformers and \<open>'pub\<close> that of publishers.
\<close>

section \<open>The publisher cache\<close>

text \<open>
  \<open>PublisherManager.get\<close>; \<open>load url\<close> is \<open>publisher.get_publisher\<close>, which loads a driver
  through stevedore and may raise.
\<close>

type_synonym 'pub loaded = "(string, 'pub) pydict"

definition get_publisher :: "(string \<Rightarrow> 'pub res) \<Rightarrow> 'pub loaded \<Rightarrow> string \<Rightarrow> 'pub loaded \<times> 'pub res" where
  "get_publisher load ps url =
     (case dict_get ps url of
        Some p \<Rightarrow> (ps, Inr p)
      | None \<Rightarrow>
          (case load url of
             Inl e \<Rightarrow> (ps, Inl e)
           | Inr p \<Rightarrow> (dict_set url p ps, Inr p)))"

section \<open>Sinks\<close>

text \<open>A transformer of the configuration: its name and its parameters, either may be absent.\<close>

record transformer_cfg =
  t_name :: "string option"
  t_parameters :: "pymap option"

record sink_cfg =
  k_name :: "string option"
  k_transformers :: "transformer_cfg list"
  k_publishers :: "string list"

record ('tr, 'pub) sink =
  sk_name :: string
  sk_publishers :: "'pub list"
  sk_multi_publish :: bool
  sk_transformers :: "'tr list"
  sk_calls :: nat

definition publisher_url :: "string \<Rightarrow> string" where
  "publisher_url p = (if \<not> contains p ''://'' then p @ ''://'' else p)"

text \<open>A publisher that cannot be loaded is logged and left out.\<close>

fun load_publishers ::
  "(string \<Rightarrow> 'pub res) \<Rightarrow> 'pub loaded \<Rightarrow> string list \<Rightarrow> 'pub loaded \<times> 'pub list" where
  "load_publishers load ps [] = (ps, [])"
| "load_publishers load ps (u # us) =
     (let (ps1, r) = get_publisher load ps (publisher_url u);
          (ps2, out) = load_publishers load ps1 us
      in (ps2, (case r of Inl _ \<Rightarrow> out | Inr p \<Rightarrow> p # out)))"

text \<open>
  \<open>_setup_transformers\<close>; \<open>plugins\<close> maps the loaded extensions to their constructors. The
  handler around the lookup turns an unknown name into a \<open>PipelineException\<close>; an absent
  \<open>parameters\<close> or \<open>name\<close> is a plain \<open>KeyError\<close>.
\<close>

definition setup_transformer ::
  "(string \<Rightarrow> (pymap \<Rightarrow> 'tr res) option) \<Rightarrow> transformer_cfg \<Rightarrow> 'tr res" where
  "setup_transformer plugins t =
     (case t_parameters t of
        None \<Rightarrow> Inl (KeyError ''parameters'')
      | Some ps \<Rightarrow>
          (case t_name t of
             None \<Rightarrow> Inl (KeyError ''name'')
           | Some n \<Rightarrow>
               (case plugins n of
                  None \<Rightarrow> Inl (PipelineException (''No transformer named '' @ n @ '' loaded''))
                | Some ctor \<Rightarrow> ctor ps)))"

definition sink_init ::
  "(string \<Rightarrow> (pymap \<Rightarrow> 'tr res) option) \<Rightarrow> (string \<Rightarrow> 'pub res) \<Rightarrow> 'pub loaded \<Rightarrow> sink_cfg \<Rightarrow>
   'pub loaded \<times> ('tr, 'pub) sink res" where
  "sink_init plugins load ps cfg =
     (case required ''name'' (k_name cfg) of
        Inl e \<Rightarrow> (ps, Inl e)
      | Inr name \<Rightarrow>
          (if k_publishers cfg = [] then (ps, Inl (PipelineException ''No publisher specified''))
           else
             (let (ps', pubs) = load_publishers load ps (k_publishers cfg) in
              (ps', bindr (mapr (setup_transformer plugins) (k_transformers cfg)) (\<lambda>trs.
                Inr \<lparr>sk_name = name, sk_publishers = pubs, sk_multi_publish = (1 < length pubs),
                     sk_transformers = trs, sk_calls = 0\<rparr>)))))"

section \<open>Pipelines\<close>

datatype ptype = SAMPLE_TYPE | EVENT_TYPE

text \<open>
  A pipeline couples a source with a sink. Sinks are shared: two sources that name the same
  sink feed the same object, so a pipeline holds the name of its sink in the manager's store.
\<close>

record pipeline =
  p_name :: string
  p_source :: source
  p_sink :: string

definition pipeline_name :: "ptype \<Rightarrow> string \<Rightarrow> string \<Rightarrow> string" where
  "pipeline_name ty src snk =
     (let n = (if src = snk then src else src @ '':'' @ snk)
      in (case ty of SAMPLE_TYPE \<Rightarrow> n | EVENT_TYPE \<Rightarrow> ''event:'' @ n))"

record ('tr, 'pub) manager =
  m_sinks :: "(string, ('tr, 'pub) sink) pydict"
  m_pipelines :: "pipeline list"

definition opt_name :: "string option \<Rightarrow> string" where
  "opt_name n = (case n of None \<Rightarrow> ''None'' | Some s \<Rightarrow> s)"

definition make_source :: "ptype \<Rightarrow> source_cfg \<Rightarrow> source res" where
  "make_source ty cfg = (case ty of SAMPLE_TYPE \<Rightarrow> sample_source cfg | EVENT_TYPE \<Rightarrow> event_source cfg)"

fun build_sources :: "ptype \<Rightarrow> source_cfg list \<Rightarrow> string option list \<Rightarrow> source list res" where
  "build_sources ty [] names = Inr []"
| "build_sources ty (s # ss) names =
     (if c_name s \<in> set names
      then Inl (PipelineException (''Duplicated source names: '' @ opt_name (c_name s)))
      else bindr (make_source ty s) (\<lambda>src.
           bindr (build_sources ty ss (c_name s # names)) (\<lambda>srcs. Inr (src # srcs))))"

fun build_sinks ::
  "(string \<Rightarrow> (pymap \<Rightarrow> 'tr res) option) \<Rightarrow> (string \<Rightarrow> 'pub res) \<Rightarrow> 'pub loaded \<Rightarrow>
   sink_cfg list \<Rightarrow> string option list \<Rightarrow> (string, ('tr, 'pub) sink) pydict \<Rightarrow>
   (string, ('tr, 'pub) sink) pydict res" where
  "build_sinks plugins load ps [] names sinks = Inr sinks"
| "build_sinks plugins load ps (s # ss) names sinks =
     (if k_name s \<in> set names
      then Inl (PipelineException (''Duplicated sink names: '' @ opt_name (k_name s)))
      else (case sink_init plugins load ps s of
          (ps', Inl e) \<Rightarrow> Inl e
        | (ps', Inr snk) \<Rightarrow>
            build_sinks plugins load ps' ss (k_name s # names) (dict_set (sk_name snk) snk sinks)))"

fun build_targets ::
  "ptype \<Rightarrow> source \<Rightarrow> string list \<Rightarrow> string list \<Rightarrow> (string list \<times> pipeline list) res" where
  "build_targets ty src [] names = Inr (names, [])"
| "build_targets ty src (t # ts) names =
     (let n = pipeline_name ty (src_name src) t in
      if n \<in> set names
      then Inl (PipelineException (''Duplicate pipeline name: '' @ n))
      else bindr (build_targets ty src ts (n # names)) (\<lambda>(names', ps).
             Inr (names', \<lparr>p_name = n, p_source = src, p_sink = t\<rparr> # ps)))"

fun build_pipelines ::
  "ptype \<Rightarrow> string list \<Rightarrow> source list \<Rightarrow> string list \<Rightarrow> pipeline list res" where
  "build_pipelines ty sinks [] names = Inr []"
| "build_pipelines ty sinks (s # ss) names =
     bindr (check_sinks s sinks) (\<lambda>_.
     bindr (build_targets ty s (src_sinks s) names) (\<lambda>(names', ps).
     bindr (build_pipelines ty sinks ss names') (\<lambda>qs. Inr (ps @ qs))))"

text \<open>\<open>PipelineManager.__init__\<close>, from the loaded document.\<close>

definition pipeline_manager ::
  "(string \<Rightarrow> (pymap \<Rightarrow> 'tr res) option) \<Rightarrow> (string \<Rightarrow> 'pub res) \<Rightarrow> ptype \<Rightarrow>
   source_cfg list option \<Rightarrow> sink_cfg list option \<Rightarrow> ('tr, 'pub) manager res" where
  "pipeline_manager plugins load ty cfg_sources cfg_sinks =
     (case (cfg_sources, cfg_sinks) of
        (Some srcs, Some snks) \<Rightarrow>
          bindr (build_sources ty srcs []) (\<lambda>sources.
          bindr (build_sinks plugins load [] snks [] []) (\<lambda>sinks.
          bindr (build_pipelines ty (dict_keys sinks) sources []) (\<lambda>pipes.
            Inr \<lparr>m_sinks = sinks, m_pipelines = pipes\<rparr>)))
      | _ \<Rightarrow> Inl (PipelineException ''Both sources & sinks are required''))"

section \<open>What a manager guarantees\<close>

lemma get_publisher_cached:
  "get_publisher load ps url = (ps', Inr p) \<Longrightarrow> get_publisher load ps' url = (ps', Inr p)"
  by (auto simp: get_publisher_def dict_get_set split: option.splits sum.splits)

lemma get_publisher_keeps:
  "get_publisher load ps url = (ps', r) \<Longrightarrow> dict_get ps u = Some p \<Longrightarrow> dict_get ps' u = Some p"
  by (auto simp: get_publisher_def dict_get_set split: option.splits sum.splits)

text \<open>Every cached publisher is the one its URL loads.\<close>

definition cache_ok :: "(string \<Rightarrow> 'pub res) \<Rightarrow> 'pub loaded \<Rightarrow> bool" where
  "cache_ok load ps \<longleftrightarrow> (\<forall>u p. dict_get ps u = Some p \<longrightarrow> load u = Inr p)"

lemma get_publisher_ok:
  "cache_ok load ps \<Longrightarrow> get_publisher load ps url = (ps', r) \<Longrightarrow> cache_ok load ps' \<and> r = load url"
  by (auto simp: get_publisher_def cache_ok_def dict_get_set split: option.splits sum.splits if_splits)

definition loadable :: "(string \<Rightarrow> 'pub res) \<Rightarrow> string list \<Rightarrow> 'pub list" where
  "loadable load us =
     concat (map (\<lambda>u. case load (publisher_url u) of Inl _ \<Rightarrow> [] | Inr p \<Rightarrow> [p]) us)"

lemma load_publishers_ok:
  "cache_ok load ps \<Longrightarrow> cache_ok load (fst (load_publishers load ps us))
   \<and> snd (load_publishers load ps us) = loadable load us"
proof (induction us arbitrary: ps)
  case (Cons u us)
  obtain ps1 r where g: "get_publisher load ps (publisher_url u) = (ps1, r)" by fastforce
  from get_publisher_ok [OF Cons.prems g] have ok: "cache_ok load ps1" and r: "r = load (publisher_url u)"
    by auto
  from Cons.IH [OF ok] show ?case
    by (auto simp: g r loadable_def case_prod_beta split: sum.split)
qed (simp add: loadable_def)

text \<open>A built sink: its publishers are those of its configuration that load, in order.\<close>

definition sink_ok :: "(string \<Rightarrow> 'pub res) \<Rightarrow> sink_cfg \<Rightarrow> ('tr, 'pub) sink \<Rightarrow> bool" where
  "sink_ok load cfg s \<longleftrightarrow>
     k_name cfg = Some (sk_name s) \<and> k_publishers cfg \<noteq> []
     \<and> sk_publishers s = loadable load (k_publishers cfg)
     \<and> sk_multi_publish s = (1 < length (sk_publishers s))
     \<and> length (sk_transformers s) = length (k_transformers cfg) \<and> sk_calls s = 0"

lemma sink_init_ok:
  assumes "cache_ok load ps" "sink_init plugins load ps cfg = (ps', r)"
  shows "cache_ok load ps'" and "r = Inr s \<Longrightarrow> sink_ok load cfg s"
  using assms load_publishers_ok [OF assms(1), of "k_publishers cfg"]
  by (auto simp: sink_init_def sink_ok_def required_def case_prod_beta bindr_Inr_iff
      split: sum.splits option.splits if_splits dest: mapr_Inr_length)

lemma build_sinks_ok:
  assumes "build_sinks plugins load ps cfgs names sinks = Inr out" "cache_ok load ps"
    and "\<forall>n s. dict_get sinks n = Some s \<longrightarrow> Some n \<in> set names"
  shows "(\<forall>n s. dict_get sinks n = Some s \<longrightarrow> dict_get out n = Some s)
    \<and> (\<forall>cfg \<in> set cfgs. \<exists>s. dict_get out (sk_name s) = Some s \<and> sink_ok load cfg s)
    \<and> set (dict_keys out) = set (dict_keys sinks) \<union> {n. Some n \<in> k_name ` set cfgs}
    \<and> distinct (map k_name cfgs) \<and> set (map k_name cfgs) \<inter> set names = {}"
  using assms
proof (induction cfgs arbitrary: ps names sinks)
  case (Cons c cs)
  obtain ps' r where i: "sink_init plugins load ps c = (ps', r)" by fastforce
  from Cons.prems(1) i obtain s where fresh: "k_name c \<notin> set names" and r: "r = Inr s"
    and rest: "build_sinks plugins load ps' cs (k_name c # names) (dict_set (sk_name s) s sinks) = Inr out"
    by (auto split: if_splits sum.splits)
  have ok: "cache_ok load ps'" and s: "sink_ok load c s"
    using sink_init_ok [OF Cons.prems(2) i] r by auto
  then have name: "k_name c = Some (sk_name s)" by (simp add: sink_ok_def)
  have new: "\<forall>n t. dict_get (dict_set (sk_name s) s sinks) n = Some t \<longrightarrow> Some n \<in> set (k_name c # names)"
    using Cons.prems(3) name by (auto simp: dict_get_set split: if_splits)
  note IH = Cons.IH [OF rest ok new]
  have old: "dict_get out n = Some t" if "dict_get sinks n = Some t" for n t
  proof -
    have "n \<noteq> sk_name s" using that Cons.prems(3) fresh name by force
    with that IH show ?thesis by (auto simp: dict_get_set)
  qed
  have "dict_get out (sk_name s) = Some s" using IH by (auto simp: dict_get_set)
  with s have here: "\<exists>t. dict_get out (sk_name t) = Some t \<and> sink_ok load c t" by blast
  have keys: "set (dict_keys out) = set (dict_keys sinks) \<union> {n. Some n \<in> k_name ` set (c # cs)}"
    using IH name by auto
  have dist: "distinct (map k_name (c # cs)) \<and> set (map k_name (c # cs)) \<inter> set names = {}"
    using IH fresh by auto
  from old here keys dist IH show ?case by (intro conjI) auto
qed auto

lemma build_targets_ok:
  assumes "build_targets ty src ts names = Inr (names', ps)" "distinct names"
  shows "distinct names' \<and> set names' = set names \<union> p_name ` set ps
    \<and> distinct (map p_name ps) \<and> p_name ` set ps \<inter> set names = {}
    \<and> map p_sink ps = ts
    \<and> (\<forall>p \<in> set ps. p_source p = src \<and> p_name p = pipeline_name ty (src_name src) (p_sink p))"
  using assms
proof (induction ts arbitrary: names names' ps)
  case (Cons t ts)
  let ?n = "pipeline_name ty (src_name src) t"
  from Cons.prems(1) obtain qs where fresh: "?n \<notin> set names"
    and rest: "build_targets ty src ts (?n # names) = Inr (names', qs)"
    and ps: "ps = \<lparr>p_name = ?n, p_source = src, p_sink = t\<rparr> # qs"
    by (auto simp: Let_def bindr_Inr_iff split: if_splits)
  from fresh Cons.prems(2) have "distinct (?n # names)" by simp
  from Cons.IH [OF rest this] fresh show ?case by (auto simp: ps)
qed simp

lemma build_pipelines_ok:
  assumes "build_pipelines ty sinks srcs names = Inr ps" "distinct names"
  shows "distinct (map p_name ps) \<and> p_name ` set ps \<inter> set names = {}
    \<and> (\<forall>p \<in> set ps. p_source p \<in> set srcs \<and> p_sink p \<in> set sinks
         \<and> p_name p = pipeline_name ty (src_name (p_source p)) (p_sink p))
    \<and> map (\<lambda>p. (p_source p, p_sink p)) ps = concat (map (\<lambda>s. map (Pair s) (src_sinks s)) srcs)
    \<and> (\<forall>s \<in> set srcs. src_sinks s \<noteq> [])"
  using assms
proof (induction srcs arbitrary: names ps)
  case (Cons s ss)
  from Cons.prems(1) obtain names' ts qs where chk: "check_sinks s sinks = Inr ()"
    and tgt: "build_targets ty s (src_sinks s) names = Inr (names', ts)"
    and rest: "build_pipelines ty sinks ss names' = Inr qs" and ps: "ps = ts @ qs"
    by (auto simp: bindr_Inr_iff)
  note T = build_targets_ok [OF tgt Cons.prems(2)]
  have "distinct names'" using T by blast
  note IH = Cons.IH [OF rest this]
  have sinks: "src_sinks s \<noteq> [] \<and> set (src_sinks s) \<subseteq> set sinks"
    using chk by (auto simp: check_sinks_def find_None_iff split: if_splits option.splits)
  have pairs: "map (\<lambda>p. (p_source p, p_sink p)) ts = map (Pair s) (src_sinks s)"
  proof -
    have "map (\<lambda>p. (p_source p, p_sink p)) ts = map (\<lambda>p. (s, p_sink p)) ts"
      using T by (intro map_cong) auto
    also have "\<dots> = map (Pair s) (map p_sink ts)" by simp
    also have "map p_sink ts = src_sinks s" using T by blast
    finally show ?thesis .
  qed
  have mem: "p_sink p \<in> set sinks" if "p \<in> set ts" for p
  proof -
    have "p_sink p \<in> set (map p_sink ts)" using that by simp
    then show ?thesis using T sinks by (metis subsetD)
  qed
  have "set names' = set names \<union> p_name ` set ts" "p_name ` set ts \<inter> set names = {}"
    "distinct (map p_name ts)" using T by blast+
  moreover have "p_name ` set qs \<inter> set names' = {}" "distinct (map p_name qs)" using IH by blast+
  ultimately have "distinct (map p_name (ts @ qs)) \<and> p_name ` set (ts @ qs) \<inter> set names = {}"
    unfolding map_append distinct_append set_append image_Un set_map by blast
  then show ?case using T IH sinks pairs mem by (auto simp: ps)
qed simp

lemma build_sources_ok:
  "build_sources ty cfgs names = Inr srcs \<Longrightarrow>
   list_all2 (\<lambda>c s. make_source ty c = Inr s) cfgs srcs
   \<and> distinct (map c_name cfgs) \<and> set (map c_name cfgs) \<inter> set names = {}"
  by (induction cfgs arbitrary: names srcs) (fastforce simp: bindr_Inr_iff split: if_splits)+

lemma pipeline_manager_parts:
  assumes "pipeline_manager plugins load ty cs ks = Inr m"
  obtains srcs snks sources where "cs = Some srcs" "ks = Some snks"
    "build_sources ty srcs [] = Inr sources"
    "build_sinks plugins load [] snks [] [] = Inr (m_sinks m)"
    "build_pipelines ty (dict_keys (m_sinks m)) sources [] = Inr (m_pipelines m)"
  using assms that
  by (auto simp: pipeline_manager_def bindr_Inr_iff split: option.splits)

section \<open>Properties\<close>

text \<open>
  A pipeline manager that comes up is consistent. There is one pipeline for each pair of
  a source and a sink it names, in that order and under pairwise different names; the sink of
  every pipeline exists; every configured sink is there, with the publishers of its
  configuration that could be loaded, in order.
\<close>

theorem pipeline_manager_consistent:
  assumes "pipeline_manager plugins load ty (Some cs) (Some ks) = Inr m"
  shows "distinct (map p_name (m_pipelines m))
    \<and> (\<forall>p \<in> set (m_pipelines m). p_sink p \<in> set (dict_keys (m_sinks m)))
    \<and> (\<exists>sources. list_all2 (\<lambda>c s. make_source ty c = Inr s) cs sources
        \<and> map (\<lambda>p. (p_source p, p_sink p)) (m_pipelines m)
            = concat (map (\<lambda>s. map (Pair s) (src_sinks s)) sources))
    \<and> (\<forall>k \<in> set ks. \<exists>s. dict_get (m_sinks m) (sk_name s) = Some s \<and> sink_ok load k s)"
proof -
  from pipeline_manager_parts [OF assms] obtain sources where
      src: "build_sources ty cs [] = Inr sources"
      and snk: "build_sinks plugins load [] ks [] [] = Inr (m_sinks m)"
      and pip: "build_pipelines ty (dict_keys (m_sinks m)) sources [] = Inr (m_pipelines m)"
    by auto
  have "cache_ok load []" by (simp add: cache_ok_def)
  note S = build_sinks_ok [OF snk this]
  note P = build_pipelines_ok [OF pip]
  note B = build_sources_ok [OF src]
  show ?thesis using S P B by auto
qed

definition demo_source_cfg :: source_cfg where
  "demo_source_cfg = \<lparr>c_name = Some ''src'', c_meters = Some [''*''], c_events = None, c_sinks = Some [''a'', ''b''],
     c_interval = None, c_resources = None, c_discovery = None\<rparr>"

definition demo_sinks :: "sink_cfg list" where
  "demo_sinks =
     [\<lparr>k_name = Some ''a'', k_transformers = [], k_publishers = [''gnocchi'', ''bad'']\<rparr>,
      \<lparr>k_name = Some ''b'', k_transformers = [], k_publishers = [''gnocchi'']\<rparr>]"

definition demo_load :: "string \<Rightarrow> string res" where
  "demo_load u = (if startswith u ''bad'' then Inl ImportError else Inr u)"

definition no_plugins :: "string \<Rightarrow> (pymap \<Rightarrow> unit res) option" where
  "no_plugins n = None"

theorem pipeline_manager_consistent_witness:
  "case pipeline_manager no_plugins demo_load SAMPLE_TYPE (Some [demo_source_cfg]) (Some demo_sinks) of
     Inl e \<Rightarrow> False
   | Inr m \<Rightarrow> distinct (map p_name (m_pipelines m)) \<and> map p_name (m_pipelines m) = [''src:a'', ''src:b'']"
proof -
  have "case pipeline_manager no_plugins demo_load SAMPLE_TYPE (Some [demo_source_cfg]) (Some demo_sinks) of
      Inl e \<Rightarrow> False | Inr m \<Rightarrow> map p_name (m_pipelines m) = [''src:a'', ''src:b'']"
    by code_simp
  then obtain m where m: "pipeline_manager no_plugins demo_load SAMPLE_TYPE (Some [demo_source_cfg]) (Some demo_sinks) = Inr m"
      and n: "map p_name (m_pipelines m) = [''src:a'', ''src:b'']"
    by (auto split: sum.splits)
  from pipeline_manager_consistent [OF m] n show ?thesis by (simp add: m)
qed

end
