(* ===== verification/Transformer_Base.thy ===== *)
theory Transformer_Base
  imports Signature
begin

text \<open>
  What transformers have in common (\<^verbatim>\<open>ceilometer/transformer/__init__.py\<close>), the contract
  that the sink relies on, and the accumulator (\<^verbatim>\<open>transformer/accumulator.py\<close>).

  A transformer is a state with two operations. \<open>handle\<close> takes a sample and returns the new
  state and either an exception or the sample to pass on (\<open>None\<close> drops it); \<open>flush\<close> returns
  the list of cached samples, in which a failed calculation leaves a \<open>None\<close>.
\<close>

type_synonym 'st handler = "'st \<Rightarrow> sample \<Rightarrow> ('st, sample option) sres"
type_synonym 'st flusher = "'st \<Rightarrow> ('st, sample option list) sres"

section \<open>The environment\<close>

text \<open>
  What transformers use of code outside the repository: \<open>parse_isotime\<close> of oslo.utils (an
  instant in microseconds), \<open>eval\<close> of an expression of the configuration in a namespace,
  \<open>re.sub\<close> with a pattern of the configuration, and the default source of samples.
\<close>

record tenv =
  parse_isotime :: "string \<Rightarrow> int res"
  eval_expr :: "string \<Rightarrow> pymap \<Rightarrow> pyval res"
  re_sub :: "string \<Rightarrow> string \<Rightarrow> string \<Rightarrow> string res"
  source_default :: string

definition sample_time :: "tenv \<Rightarrow> sample \<Rightarrow> int res" where
  "sample_time env s = get_iso_timestamp (parse_isotime env) s"

text \<open>\<open>timeutils.delta_seconds(before, after)\<close>\<close>

definition delta_seconds :: "int \<Rightarrow> int \<Rightarrow> pyval" where
  "delta_seconds before after = PFloat (Fin (of_int (after - before) / 1000000))"

section \<open>Namespaces\<close>

text \<open>
  A \<open>Namespace\<close> wraps a dictionary, nested dictionaries included; an attribute that is
  missing is an empty namespace, which is false.
\<close>

definition ns_getattr :: "pyval \<Rightarrow> string \<Rightarrow> pyval" where
  "ns_getattr ns attr =
     (case ns of PDict d \<Rightarrow> dict_get_default d attr (PDict []) | _ \<Rightarrow> PDict [])"

fun ns_path :: "pyval \<Rightarrow> string list \<Rightarrow> pyval" where
  "ns_path ns [] = ns"
| "ns_path ns (a # as) = ns_path (ns_getattr ns a) as"

lemma ns_path_empty: "\<not> truthy (ns_path (PDict []) as)"
  by (induction "as") (simp_all add: ns_getattr_def dict_get_default_def)

lemma ns_path_missing:
  "dict_get d a = None \<Longrightarrow> \<not> truthy (ns_path (PDict d) (a # as))"
  by (simp add: ns_getattr_def dict_get_default_def ns_path_empty)

section \<open>The contract\<close>

text \<open>
  The base class caches nothing and its \<open>flush\<close> returns the empty list. The contract names
  an invariant of the state and a property of samples: a handled sample with the property
  keeps the invariant, also when an exception comes out, and what comes out has it.
\<close>

definition base_flush :: "'st flusher" where
  "base_flush st = (st, Inr [])"

locale transformer_contract =
  fixes handle :: "'st handler"
    and flush :: "'st flusher"
    and inv :: "'st \<Rightarrow> bool"
    and good :: "sample \<Rightarrow> bool"
  assumes handle_inv: "inv st \<Longrightarrow> good s \<Longrightarrow> inv (fst (handle st s))"
    and handle_good: "inv st \<Longrightarrow> good s \<Longrightarrow> snd (handle st s) = Inr (Some s') \<Longrightarrow> good s'"
    and flush_inv: "inv st \<Longrightarrow> inv (fst (flush st))"
    and flush_good: "inv st \<Longrightarrow> snd (flush st) = Inr xs \<Longrightarrow> Some s' \<in> set xs \<Longrightarrow> good s'"
begin

text \<open>A run of samples keeps the invariant, and only good samples come out of it.\<close>

fun handle_all :: "'st \<Rightarrow> sample list \<Rightarrow> 'st \<times> sample list" where
  "handle_all st [] = (st, [])"
| "handle_all st (s # ss) =
     (let (st', r) = handle st s; (st'', out) = handle_all st' ss
      in (st'', (case r of Inr (Some s') \<Rightarrow> s' # out | _ \<Rightarrow> out)))"

lemma handle_all_inv: "inv st \<Longrightarrow> list_all good ss \<Longrightarrow> inv (fst (handle_all st ss))"
proof (induction ss arbitrary: st)
  case (Cons s ss)
  have "inv (fst (handle st s))" using Cons.prems by (intro handle_inv) simp_all
  then have "inv (fst (handle_all (fst (handle st s)) ss))"
    using Cons.prems(2) by (intro Cons.IH) simp_all
  then show ?case by (simp add: case_prod_beta Let_def)
qed simp

lemma handle_all_good:
  "inv st \<Longrightarrow> list_all good ss \<Longrightarrow> list_all good (snd (handle_all st ss))"
proof (induction ss arbitrary: st)
  case (Cons s ss)
  have "inv (fst (handle st s))" using Cons.prems by (intro handle_inv) simp_all
  then have rest: "list_all good (snd (handle_all (fst (handle st s)) ss))"
    using Cons.prems(2) by (intro Cons.IH) simp_all
  have "good s'" if "snd (handle st s) = Inr (Some s')" for s'
    by (rule handle_good [OF Cons.prems(1) _ that]) (use Cons.prems(2) in simp)
  with rest show ?case
    by (simp add: case_prod_beta Let_def split: sum.split option.split)
qed simp

end

section \<open>The accumulator\<close>

text \<open>
  \<open>TransformerAccumulator\<close>. The list of samples exists only when the size is at least 1. It
  may hold a \<open>None\<close>, which the flush of a transformer before it in the chain can emit;
  \<open>acc_add\<close> is \<open>handle_sample\<close> for both.
\<close>

record accumulator =
  acc_size :: int
  acc_samples :: "sample option list option"

definition acc_init :: "int \<Rightarrow> accumulator" where
  "acc_init n = \<lparr>acc_size = n, acc_samples = (if 1 \<le> n then Some [] else None)\<rparr>"

definition acc_add :: "accumulator \<Rightarrow> sample option \<Rightarrow> (accumulator, sample option) sres" where
  "acc_add st s =
     (if 1 \<le> acc_size st
      then (case acc_samples st of
          None \<Rightarrow> (st, Inl (AttributeError ''samples''))
        | Some xs \<Rightarrow> (st\<lparr>acc_samples := Some (xs @ [s])\<rparr>, Inr None))
      else (st, Inr s))"

definition acc_handle :: "accumulator handler" where
  "acc_handle st s = acc_add st (Some s)"

definition acc_flush :: "accumulator flusher" where
  "acc_flush st =
     (case acc_samples st of
        None \<Rightarrow> (st, Inl (AttributeError ''samples''))
      | Some xs \<Rightarrow>
          (if acc_size st \<le> int (length xs) then (st\<lparr>acc_samples := Some []\<rparr>, Inr xs)
           else (st, Inr [])))"

definition acc_all :: "(sample \<Rightarrow> bool) \<Rightarrow> accumulator \<Rightarrow> bool" where
  "acc_all P st =
     (case acc_samples st of
        None \<Rightarrow> True
      | Some xs \<Rightarrow> list_all (\<lambda>s. case s of None \<Rightarrow> True | Some s' \<Rightarrow> P s') xs)"

interpretation accumulator: transformer_contract acc_handle acc_flush "acc_all P" P for P
  by unfold_locales
    (auto simp: acc_handle_def acc_add_def acc_flush_def acc_all_def list_all_iff
      split: option.splits if_splits)

fun acc_run :: "accumulator \<Rightarrow> sample list \<Rightarrow> accumulator" where
  "acc_run st [] = st"
| "acc_run st (s # ss) = acc_run (fst (acc_handle st s)) ss"

lemma acc_run_samples:
  "1 \<le> acc_size st \<Longrightarrow> acc_samples st = Some xs \<Longrightarrow>
   acc_size (acc_run st ss) = acc_size st \<and> acc_samples (acc_run st ss) = Some (xs @ map Some ss)"
  by (induction ss arbitrary: st xs) (simp_all add: acc_handle_def acc_add_def)

text \<open>A session with the accumulator: samples come in, flushes happen; what each flush gives.\<close>

datatype acc_op = Handle sample | Flush

fun acc_session :: "accumulator \<Rightarrow> acc_op list \<Rightarrow> accumulator \<times> sample option list list" where
  "acc_session st [] = (st, [])"
| "acc_session st (Handle s # ops) = acc_session (fst (acc_handle st s)) ops"
| "acc_session st (Flush # ops) =
     (let (st1, r) = acc_flush st; (st2, outs) = acc_session st1 ops
      in (st2, (case r of Inr xs \<Rightarrow> xs # outs | Inl e \<Rightarrow> outs)))"

definition pending :: "accumulator \<Rightarrow> sample option list" where
  "pending st = (case acc_samples st of None \<Rightarrow> [] | Some xs \<Rightarrow> xs)"

definition handled :: "acc_op list \<Rightarrow> sample list" where
  "handled ops = List.map_filter (\<lambda>oper. case oper of Handle s \<Rightarrow> Some s | Flush \<Rightarrow> None) ops"

lemma acc_session_order:
  "1 \<le> acc_size st \<Longrightarrow> acc_samples st = Some xs \<Longrightarrow>
   concat (snd (acc_session st ops)) @ pending (fst (acc_session st ops)) = xs @ map Some (handled ops)
   \<and> (\<forall>batch \<in> set (snd (acc_session st ops)). batch = [] \<or> acc_size st \<le> int (length batch))"
proof (induction st ops arbitrary: xs rule: acc_session.induct)
  case (1 st)
  then show ?case by (simp add: pending_def handled_def List.map_filter_simps)
next
  case (2 st s ops)
  have "acc_size (fst (acc_handle st s)) = acc_size st" "acc_samples (fst (acc_handle st s)) = Some (xs @ [Some s])"
    using 2(2,3) by (simp_all add: acc_handle_def acc_add_def)
  with 2(1) [of "xs @ [Some s]"] 2(2) show ?case by (simp add: handled_def List.map_filter_simps)
next
  case (3 st ops)
  show ?case
  proof (cases "acc_size st \<le> int (length xs)")
    case True
    then have f: "acc_flush st = (st\<lparr>acc_samples := Some []\<rparr>, Inr xs)" using 3(3) by (simp add: acc_flush_def)
    from 3(1) [OF f [symmetric] refl, of "[]"] 3(2) True show ?thesis
      by (auto simp: f Let_def case_prod_beta handled_def List.map_filter_simps)
  next
    case False
    then have f: "acc_flush st = (st, Inr [])" using 3(3) by (simp add: acc_flush_def)
    from 3(1) [OF f [symmetric] refl, of xs] 3(2,3) show ?thesis
      by (auto simp: f Let_def case_prod_beta handled_def List.map_filter_simps)
  qed
qed

section \<open>Properties\<close>

text \<open>
  The accumulator of size at least 1 loses and reorders nothing: over any session, the
  flushed batches followed by what is still pending are the samples that came in, in order, and
  every batch that is not empty has at least the configured size.
\<close>

theorem accumulator_keeps_order:
  assumes "1 \<le> n"
  shows "concat (snd (acc_session (acc_init n) ops)) @ pending (fst (acc_session (acc_init n) ops))
      = map Some (handled ops)
    \<and> (\<forall>batch \<in> set (snd (acc_session (acc_init n) ops)). batch = [] \<or> n \<le> int (length batch))"
  using acc_session_order [of "acc_init n" "[]" ops] assms by (simp add: acc_init_def)

theorem accumulator_keeps_order_witness:
  "concat (snd (acc_session (acc_init 2) [Handle demo_sample, Flush, Handle demo_sample, Flush]))
     @ pending (fst (acc_session (acc_init 2) [Handle demo_sample, Flush, Handle demo_sample, Flush]))
   = [Some demo_sample, Some demo_sample]"
  using accumulator_keeps_order [of 2 "[Handle demo_sample, Flush, Handle demo_sample, Flush]"]
  by (simp add: handled_def List.map_filter_simps)

text \<open>
  A size below 1 makes the accumulator pass every sample through at once, and every flush
  of it raise \<open>AttributeError\<close>: the list of samples is only created for sizes from 1 on.
\<close>

theorem accumulator_small_size:
  assumes "n < 1"
  shows "acc_handle (acc_init n) s = (acc_init n, Inr (Some s))
    \<and> acc_flush (acc_init n) = (acc_init n, Inl (AttributeError ''samples''))"
  using assms by (simp add: acc_init_def acc_handle_def acc_add_def acc_flush_def)

theorem accumulator_small_size_witness:
  "acc_flush (acc_init 0) = (acc_init 0, Inl (AttributeError ''samples''))"
  using accumulator_small_size [of 0] by simp

end
