(* ===== verification/Conversions.thy ===== *)
theory Conversions
  imports Transformer_Base
begin

text \<open>
  The conversion transformers of \<^verbatim>\<open>ceilometer/transformer/conversions.py\<close>: delta, scaling,
  rate of change and the aggregator.
\<close>

section \<open>Configuration and mapping\<close>

text \<open>
  The \<open>source\<close> and \<open>target\<close> dictionaries of the configuration. \<open>map_from\<close> and \<open>map_to\<close>
  hold the patterns and replacements, \<open>tgt\<close> the fixed name, unit and type.
\<close>

record conv_cfg =
  src_unit :: "string option"
  map_from :: "(string, string) pydict"
  map_to :: "(string, string) pydict"
  tgt :: "(string, string) pydict"
  tgt_scale :: pyval
  tgt_max :: pyval

definition conv_map :: "tenv \<Rightarrow> conv_cfg \<Rightarrow> string \<Rightarrow> string \<Rightarrow> string" where
  "conv_map env cfg attr val =
     (let mapped =
        (if map_from cfg \<noteq> [] \<and> map_to cfg \<noteq> []
         then (let f = dict_get_default (map_from cfg) attr []; t = dict_get_default (map_to cfg) attr []
               in if f \<noteq> [] \<and> t \<noteq> []
                  then (case re_sub env f t val of Inr m \<Rightarrow> m | Inl _ \<Rightarrow> [])
                  else [])
         else [])
      in if mapped \<noteq> [] then mapped else dict_get_default (tgt cfg) attr val)"

lemma conv_map_plain: "map_from cfg = [] \<Longrightarrow> tgt cfg = [] \<Longrightarrow> conv_map env cfg attr v = v"
  by (simp add: conv_map_def dict_get_default_def)

definition sample_key :: "sample \<Rightarrow> string" where
  "sample_key s = s_name s @ s_resource_id s"

section \<open>Deltas\<close>

record delta =
  d_cfg :: conv_cfg
  growth_only :: bool
  d_cache :: "(string, pyval \<times> int) pydict"

definition delta_init :: "conv_cfg \<Rightarrow> bool \<Rightarrow> delta" where
  "delta_init cfg g = \<lparr>d_cfg = cfg, growth_only = g, d_cache = []\<rparr>"

definition delta_convert :: "tenv \<Rightarrow> string \<Rightarrow> conv_cfg \<Rightarrow> sample \<Rightarrow> pyval \<Rightarrow> sample" where
  "delta_convert env uuid cfg s d =
     new_sample (source_default env) uuid (conv_map env cfg ''name'' (s_name s)) TYPE_DELTA (s_unit s) d
       (s_user_id s) (s_project_id s) (s_resource_id s) (s_timestamp s) (s_resource_metadata s)
       None None PNone"

definition delta_handle :: "tenv \<Rightarrow> string \<Rightarrow> delta handler" where
  "delta_handle env uuid st s =
     (let key = sample_key s; prev = dict_get (d_cache st) key in
      case sample_time env s of
        Inl e \<Rightarrow> (st, Inl e)
      | Inr ts \<Rightarrow>
          (let st1 = st\<lparr>d_cache := dict_set key (s_volume s, ts) (d_cache st)\<rparr> in
           case prev of
             None \<Rightarrow> (st1, Inr None)
           | Some (pv, pts) \<Rightarrow>
               (if ts < pts then (st1\<lparr>d_cache := dict_set key (pv, pts) (d_cache st1)\<rparr>, Inr None)
                else
                  (st1,
                   bindr (py_sub (s_volume s) pv) (\<lambda>d.
                   bindr (if growth_only st then py_less d (PInt 0) else Inr False) (\<lambda>neg.
                     Inr (if neg then None else Some (delta_convert env uuid (d_cfg st) s d))))))))"

section \<open>Scaling\<close>

text \<open>
  \<open>_scale\<close>: no scale leaves the volume, a string is evaluated in the namespace of the
  sample's attributes, anything else multiplies the volume.
\<close>

definition scale_volume :: "tenv \<Rightarrow> pyval \<Rightarrow> sample \<Rightarrow> pyval res" where
  "scale_volume env scale s =
     (if truthy scale
      then (case scale of PStr e \<Rightarrow> eval_expr env e (as_dict s) | _ \<Rightarrow> py_mul (s_volume s) scale)
      else Inr (s_volume s))"

definition scaling_convert ::
  "tenv \<Rightarrow> string \<Rightarrow> conv_cfg \<Rightarrow> pyval \<Rightarrow> sample \<Rightarrow> pyval \<Rightarrow> sample res" where
  "scaling_convert env uuid cfg scale s growth =
     bindr (scale_volume env scale s) (\<lambda>v0.
     bindr (py_mul v0 growth) (\<lambda>volume.
     bindr (if truthy (tgt_max cfg) then py_min volume (tgt_max cfg) else Inr volume) (\<lambda>v.
       Inr (new_sample (source_default env) uuid (conv_map env cfg ''name'' (s_name s))
              (dict_get_default (tgt cfg) ''type'' (s_type s)) (conv_map env cfg ''unit'' (s_unit s)) v
              (s_user_id s) (s_project_id s) (s_resource_id s) (s_timestamp s) (s_resource_metadata s)
              None None PNone))))"

definition scaling_handle :: "tenv \<Rightarrow> string \<Rightarrow> conv_cfg handler" where
  "scaling_handle env uuid cfg s =
     (cfg,
      (if (case src_unit cfg of None \<Rightarrow> s_unit s | Some u \<Rightarrow> u) = s_unit s
       then bindr (scaling_convert env uuid cfg (tgt_scale cfg) s (PInt 1)) (\<lambda>s'. Inr (Some s'))
       else Inr (Some s)))"

section \<open>Rate of change\<close>

record rate =
  r_cfg :: conv_cfg
  r_scale :: pyval
  r_cache :: "(string, pyval \<times> int \<times> pyval) pydict"

definition rate_init :: "conv_cfg \<Rightarrow> rate" where
  "rate_init cfg =
     \<lparr>r_cfg = cfg, r_scale = py_or (tgt_scale cfg) (PStr ''1''), r_cache = []\<rparr>"

text \<open>The time between two samples: the monotonic clock when both samples have one.\<close>

definition rate_time_delta :: "pyval \<Rightarrow> int \<Rightarrow> pyval \<Rightarrow> int \<Rightarrow> pyval res" where
  "rate_time_delta pmono pts mt ts =
     (if pmono \<noteq> PNone \<and> mt \<noteq> PNone then py_sub mt pmono else Inr (delta_seconds pts ts))"

text \<open>A cumulative volume that went down is taken as the growth since a reset.\<close>

definition rate_volume_delta :: "sample \<Rightarrow> pyval \<Rightarrow> pyval res" where
  "rate_volume_delta s pv =
     bindr (py_le pv (s_volume s)) (\<lambda>le.
       if le \<or> s_type s \<noteq> TYPE_CUMULATIVE then py_sub (s_volume s) pv else Inr (s_volume s))"

definition rate_of_change :: "sample \<Rightarrow> pyval \<Rightarrow> pyval \<Rightarrow> pyval res" where
  "rate_of_change s pv td =
     bindr (rate_volume_delta s pv) (\<lambda>vd.
       if truthy td then bindr (py_mul (PFloat (Fin 1)) vd) (\<lambda>v. py_truediv v td)
       else Inr (PFloat (Fin 0)))"

definition rate_handle :: "tenv \<Rightarrow> string \<Rightarrow> rate handler" where
  "rate_handle env uuid st s =
     (let key = sample_key s; prev = dict_get (r_cache st) key in
      case sample_time env s of
        Inl e \<Rightarrow> (st, Inl e)
      | Inr ts \<Rightarrow>
          (let st1 = st\<lparr>r_cache := dict_set key (s_volume s, ts, s_monotonic_time s) (r_cache st)\<rparr> in
           case prev of
             None \<Rightarrow> (st1, Inr None)
           | Some (pv, pts, pm) \<Rightarrow>
               (case rate_time_delta pm pts (s_monotonic_time s) ts of
                  Inl e \<Rightarrow> (st1, Inl e)
                | Inr td \<Rightarrow>
                    (case py_less td (PInt 0) of
                       Inl e \<Rightarrow> (st1, Inl e)
                     | Inr True \<Rightarrow> (st1\<lparr>r_cache := dict_set key (pv, pts, pm) (r_cache st1)\<rparr>, Inr None)
                     | Inr False \<Rightarrow>
                         (st1,
                          bindr (rate_of_change s pv td) (\<lambda>r.
                          bindr (scaling_convert env uuid (r_cfg st) (r_scale st) s r) (\<lambda>s'.
                            Inr (Some s'))))))))"

section \<open>What conversions keep\<close>

lemma delta_convert_fields [simp]:
  "s_resource_id (delta_convert env u cfg s d) = s_resource_id s"
  "s_user_id (delta_convert env u cfg s d) = s_user_id s"
  "s_project_id (delta_convert env u cfg s d) = s_project_id s"
  "s_timestamp (delta_convert env u cfg s d) = s_timestamp s"
  "s_resource_metadata (delta_convert env u cfg s d) = s_resource_metadata s"
  "s_volume (delta_convert env u cfg s d) = d"
  "s_type (delta_convert env u cfg s d) = TYPE_DELTA"
  by (simp_all add: delta_convert_def new_sample_def)

lemma scaling_convert_fields:
  "scaling_convert env u cfg scale s g = Inr s' \<Longrightarrow>
   s_resource_id s' = s_resource_id s \<and> s_user_id s' = s_user_id s \<and> s_project_id s' = s_project_id s
   \<and> s_timestamp s' = s_timestamp s \<and> s_resource_metadata s' = s_resource_metadata s
   \<and> s_type s' = dict_get_default (tgt cfg) ''type'' (s_type s)
   \<and> s_name s' = conv_map env cfg ''name'' (s_name s)"
  by (auto simp: scaling_convert_def bindr_Inr_iff new_sample_def)

lemma delta_handle_out:
  "snd (delta_handle env u st s) = Inr (Some s') \<Longrightarrow> \<exists>d. s' = delta_convert env u (d_cfg st) s d"
  by (auto simp: delta_handle_def Let_def bindr_Inr_iff split: sum.splits option.splits if_splits prod.splits)

lemma scaling_handle_out:
  "snd (scaling_handle env u cfg s) = Inr (Some s') \<Longrightarrow>
   s' = s \<or> scaling_convert env u cfg (tgt_scale cfg) s (PInt 1) = Inr s'"
  by (auto simp: scaling_handle_def bindr_Inr_iff split: if_splits)

lemma rate_handle_out:
  "snd (rate_handle env u st s) = Inr (Some s') \<Longrightarrow>
   \<exists>r. scaling_convert env u (r_cfg st) (r_scale st) s r = Inr s'"
  by (auto simp: rate_handle_def Let_def bindr_Inr_iff
      split: sum.splits option.splits if_splits prod.splits bool.splits)

interpretation delta: transformer_contract "delta_handle env u" base_flush "\<lambda>_. True"
  "\<lambda>s. P (s_resource_id s)" for env u P
  by unfold_locales (auto simp: base_flush_def dest: delta_handle_out)

interpretation scaling: transformer_contract "scaling_handle env u" base_flush "\<lambda>_. True"
  "\<lambda>s. P (s_resource_id s)" for env u P
  by unfold_locales (auto simp: base_flush_def dest!: scaling_handle_out scaling_convert_fields)

interpretation rate: transformer_contract "rate_handle env u" base_flush "\<lambda>_. True"
  "\<lambda>s. P (s_resource_id s)" for env u P
  by unfold_locales (auto simp: base_flush_def dest!: rate_handle_out scaling_convert_fields)

section \<open>Runs of the delta transformer\<close>

fun delta_run :: "tenv \<Rightarrow> (nat \<Rightarrow> string) \<Rightarrow> delta \<Rightarrow> sample list \<Rightarrow> delta \<times> sample list" where
  "delta_run env us st [] = (st, [])"
| "delta_run env us st (s # ss) =
     (let (st1, r) = delta_handle env (us (length ss)) st s; (st2, out) = delta_run env us st1 ss
      in (st2, (case r of Inr (Some s') \<Rightarrow> s' # out | _ \<Rightarrow> out)))"

definition int_volume :: "sample \<Rightarrow> int" where
  "int_volume s = (case as_int (s_volume s) of Some i \<Rightarrow> i | None \<Rightarrow> 0)"

lemma delta_handle_int:
  assumes "sample_time env s = Inr ts" "s_volume s = PInt v"
    and "dict_get (d_cache st) (sample_key s) = Some (PInt pv, pts)"
  shows "growth_only (fst (delta_handle env u st s)) = growth_only st"
    and "dict_get (d_cache (fst (delta_handle env u st s))) k =
      (if k = sample_key s then Some (if ts < pts then (PInt pv, pts) else (PInt v, ts)) else dict_get (d_cache st) k)"
    and "snd (delta_handle env u st s) =
      (if ts < pts \<or> growth_only st \<and> v < pv then Inr None
       else Inr (Some (delta_convert env u (d_cfg st) s (PInt (v - pv)))))"
  using assms
  by (auto simp: delta_handle_def Let_def dict_get_set py_less_def compare_nums_def bindr_def)

text \<open>
  The reference for a run: the samples that are not older than any sample before them, and the
  steps between neighbours of that list, the ones down left out when only growth is wanted.
\<close>

definition time_of :: "tenv \<Rightarrow> sample \<Rightarrow> int" where
  "time_of env s = (case sample_time env s of Inr t \<Rightarrow> t | Inl _ \<Rightarrow> 0)"

fun on_time_after :: "tenv \<Rightarrow> int \<Rightarrow> sample list \<Rightarrow> sample list" where
  "on_time_after env t [] = []"
| "on_time_after env t (s # ss) =
     (if time_of env s < t then on_time_after env t ss else s # on_time_after env (time_of env s) ss)"

fun on_time :: "tenv \<Rightarrow> sample list \<Rightarrow> sample list" where
  "on_time env [] = []"
| "on_time env (s # ss) = s # on_time_after env (time_of env s) ss"

definition volume_steps :: "bool \<Rightarrow> sample list \<Rightarrow> (sample \<times> sample) list" where
  "volume_steps g xs = filter (\<lambda>(a, b). g \<longrightarrow> int_volume a \<le> int_volume b) (zip xs (tl xs))"

definition delta_of_step :: "tenv \<Rightarrow> conv_cfg \<Rightarrow> sample \<Rightarrow> sample \<times> sample \<Rightarrow> bool" where
  "delta_of_step env cfg d ab \<longleftrightarrow>
     (\<exists>u. d = delta_convert env u cfg (snd ab) (PInt (int_volume (snd ab) - int_volume (fst ab))))"

definition metered :: "tenv \<Rightarrow> string \<Rightarrow> sample \<Rightarrow> bool" where
  "metered env key s \<longleftrightarrow>
     sample_key s = key \<and> (\<exists>v. s_volume s = PInt v) \<and> (\<exists>t. sample_time env s = Inr t)"

lemma meteredE:
  assumes "metered env key s"
  shows "sample_key s = key" "s_volume s = PInt (int_volume s)" "sample_time env s = Inr (time_of env s)"
  using assms by (auto simp: metered_def int_volume_def time_of_def)

lemma volume_steps_Cons [simp]:
  "volume_steps g (a # b # xs) =
     (if g \<longrightarrow> int_volume a \<le> int_volume b then (a, b) # volume_steps g (b # xs) else volume_steps g (b # xs))"
  "volume_steps g [a] = []" "volume_steps g [] = []"
  by (simp_all add: volume_steps_def)

lemma delta_handle_cache:
  assumes "metered env key s" "d_cache st = [(key, (PInt pv, pts))]"
  shows "d_cache (fst (delta_handle env u st s)) =
    [(key, if time_of env s < pts then (PInt pv, pts) else (PInt (int_volume s), time_of env s))]"
  using assms meteredE [OF assms(1)] by (simp add: delta_handle_def Let_def)

lemma delta_handle_cfg: "d_cfg (fst (delta_handle env u st s)) = d_cfg st"
  by (auto simp: delta_handle_def Let_def split: sum.splits option.splits)

lemma delta_run_from:
  assumes "\<forall>s \<in> set ss. metered env key s" "metered env key p"
    and "d_cache st = [(key, (PInt (int_volume p), time_of env p))]"
  defines "kept \<equiv> p # on_time_after env (time_of env p) ss"
  shows "list_all2 (delta_of_step env (d_cfg st)) (snd (delta_run env us st ss)) (volume_steps (growth_only st) kept)
    \<and> d_cache (fst (delta_run env us st ss)) = [(key, (s_volume (last kept), time_of env (last kept)))]"
  using assms(1-3) unfolding kept_def
proof (induction ss arbitrary: st p)
  case Nil
  then show ?case using meteredE(2) [OF Nil(2)] by simp
next
  case (Cons s ss)
  let ?u = "us (length ss)"
  have m: "metered env key s" and rest: "\<forall>s \<in> set ss. metered env key s" using Cons.prems(1) by auto
  note M = meteredE [OF m]
  obtain st1 r where h: "delta_handle env ?u st s = (st1, r)" by fastforce
  have c: "dict_get (d_cache st) (sample_key s) = Some (PInt (int_volume p), time_of env p)"
    using Cons.prems(3) M(1) by simp
  note H = delta_handle_int [OF M(3,2) c, where u = ?u]
  have g: "growth_only st1 = growth_only st" using H(1) h by simp
  have f: "d_cfg st1 = d_cfg st" using delta_handle_cfg [of env ?u st s] h by simp
  note C = delta_handle_cache [OF m Cons.prems(3), of ?u]
  show ?case
  proof (cases "time_of env s < time_of env p")
    case True
    then have "d_cache st1 = [(key, (PInt (int_volume p), time_of env p))]" using C h by simp
    from Cons.IH [OF rest Cons.prems(2) this] True show ?thesis
      using H(3) h g f by (simp add: Let_def case_prod_beta)
  next
    case False
    then have "d_cache st1 = [(key, (PInt (int_volume s), time_of env s))]" using C h by simp
    from Cons.IH [OF rest m this] False show ?thesis
      using H(3) h g f by (auto simp: Let_def case_prod_beta delta_of_step_def)
  qed
qed

lemma deltas_sum:
  assumes "list_all2 (delta_of_step env cfg) ds (volume_steps False (p # xs))"
  shows "sum_list (map int_volume ds) = int_volume (last (p # xs)) - int_volume p"
  using assms
proof (induction xs arbitrary: p ds)
  case (Cons x xs)
  then obtain d ds' where ds: "ds = d # ds'" "delta_of_step env cfg d (p, x)"
    "list_all2 (delta_of_step env cfg) ds' (volume_steps False (x # xs))"
    by (auto simp: list_all2_Cons2)
  from Cons.IH [OF ds(3)] ds(1,2) show ?case
    by (auto simp: delta_of_step_def int_volume_def)
qed simp

section \<open>Properties\<close>

text \<open>
  C4: The deltas of a meter are the steps between its samples in time order. A new delta
  transformer is given any non-empty run of samples of one meter and resource whose volumes are
  integers and whose timestamps parse. A sample older than one before it is dropped. The deltas
  emitted are, in order, one for each two neighbours among the samples that are left, made from
  the later one with the difference of the two volumes; with growth_only the steps down are left
  out, the others are the same. The cache holds the last of these samples with its time. Without
  growth_only the deltas sum to the difference between the last and the first volume.
\<close>

theorem delta_telescopes:
  fixes us :: "nat \<Rightarrow> string" and cfg :: conv_cfg and g :: bool
  assumes "\<forall>s \<in> set ss. metered env key s" "ss \<noteq> []"
  defines "kept \<equiv> on_time env ss" and "result \<equiv> delta_run env us (delta_init cfg g) ss"
  shows "list_all2 (delta_of_step env cfg) (snd result) (volume_steps g kept)
    \<and> d_cache (fst result) = [(key, (s_volume (last kept), time_of env (last kept)))]
    \<and> (\<not> g \<longrightarrow> sum_list (map int_volume (snd result)) = int_volume (last kept) - int_volume (hd ss))"
proof -
  from assms(2) obtain p xs where ss: "ss = p # xs" by (cases ss) auto
  then have p: "metered env key p" and xs: "\<forall>s \<in> set xs. metered env key s" using assms(1) by auto
  note M = meteredE [OF p]
  define st where "st = \<lparr>d_cfg = cfg, growth_only = g, d_cache = [(key, (s_volume p, time_of env p))]\<rparr>"
  have first: "delta_handle env u (delta_init cfg g) p = (st, Inr None)" for u
    using M by (simp add: delta_handle_def delta_init_def Let_def st_def)
  have run: "result = delta_run env us st xs"
    unfolding result_def ss by (simp add: first case_prod_beta)
  have "d_cache st = [(key, (PInt (int_volume p), time_of env p))]" using M(2) by (simp add: st_def)
  note R = delta_run_from [OF xs p this, of us]
  have k: "kept = p # on_time_after env (time_of env p) xs" by (simp add: kept_def ss)
  have "d_cfg st = cfg" "growth_only st = g" by (simp_all add: st_def)
  with R have "list_all2 (delta_of_step env cfg) (snd result) (volume_steps g kept)"
    "d_cache (fst result) = [(key, (s_volume (last kept), time_of env (last kept)))]"
    by (simp_all only: run k)
  moreover have "\<not> g \<longrightarrow> sum_list (map int_volume (snd result)) = int_volume (last kept) - int_volume (hd ss)"
    using calculation(1) deltas_sum [of env cfg "snd result" p] by (auto simp only: k ss list.sel)
  ultimately show ?thesis by blast
qed

definition demo_tenv :: tenv where
  "demo_tenv = \<lparr>parse_isotime = \<lambda>s. Inr (int (length s)), eval_expr = \<lambda>e ns. Inr (PInt 1),
     re_sub = \<lambda>f t v. Inr v, source_default = ''openstack''\<rparr>"

definition sample_at :: "nat \<Rightarrow> int \<Rightarrow> sample" where
  "sample_at t v = demo_sample\<lparr>s_timestamp := Some (replicate t CHR ''x''), s_volume := PInt v, s_type := TYPE_CUMULATIVE\<rparr>"

definition plain_cfg :: conv_cfg where
  "plain_cfg = \<lparr>src_unit = None, map_from = [], map_to = [], tgt = [], tgt_scale = PNone, tgt_max = PNone\<rparr>"

theorem delta_telescopes_witness:
  "map s_volume (snd (delta_run demo_tenv (\<lambda>i. ''u'') (delta_init plain_cfg True)
      [sample_at 1 10, sample_at 3 15, sample_at 2 12, sample_at 4 9, sample_at 5 30])) = [PInt 5, PInt 21]
   \<and> sum_list (map int_volume (snd (delta_run demo_tenv (\<lambda>i. ''u'') (delta_init plain_cfg False)
      [sample_at 1 10, sample_at 3 15, sample_at 2 12, sample_at 4 9, sample_at 5 30]))) = 20"
proof -
  let ?ss = "[sample_at 1 10, sample_at 3 15, sample_at 2 12, sample_at 4 9, sample_at 5 30]"
  have time: "sample_time demo_tenv (sample_at t v) = Inr (int t)" for t v
    by (simp add: sample_at_def sample_time_def get_iso_timestamp_def demo_tenv_def)
  have vol: "int_volume (sample_at t v) = v" for t v by (simp add: sample_at_def int_volume_def)
  have T: "time_of demo_tenv (sample_at t v) = int t" for t v by (simp add: time_of_def time)
  have runs: "\<forall>s \<in> set ?ss. metered demo_tenv (sample_key demo_sample) s"
    using time by (simp add: metered_def) (simp add: sample_at_def sample_key_def)
  note up = delta_telescopes [OF runs, where us = "\<lambda>i. ''u''" and cfg = plain_cfg and g = True]
  note all = delta_telescopes [OF runs, where us = "\<lambda>i. ''u''" and cfg = plain_cfg and g = False]
  show ?thesis
  proof
    show "map s_volume (snd (delta_run demo_tenv (\<lambda>i. ''u'') (delta_init plain_cfg True) ?ss)) = [PInt 5, PInt 21]"
      using up by (auto simp: T vol delta_of_step_def list_all2_Cons2)
    show "sum_list (map int_volume (snd (delta_run demo_tenv (\<lambda>i. ''u'') (delta_init plain_cfg False) ?ss))) = 20"
      using all by (simp add: T vol)
  qed
qed

definition growth :: "sample \<Rightarrow> int \<Rightarrow> int \<Rightarrow> int" where
  "growth s pv v = (if pv \<le> v \<or> s_type s \<noteq> TYPE_CUMULATIVE then v - pv else v)"

lemma rate_of_change_int:
  assumes "s_volume s = PInt v" "pts < ts"
  shows "rate_of_change s (PInt pv) (delta_seconds pts ts)
    = Inr (PFloat (Fin (of_int (growth s pv v) * 1000000 / of_int (ts - pts))))"
proof -
  have vd: "rate_volume_delta s (PInt pv) = Inr (PInt (growth s pv v))"
    using assms(1) by (auto simp: rate_volume_delta_def py_le_def compare_nums_def f_le_def f_eq_def growth_def)
  have nz: "(of_int (ts - pts) / 1000000 :: rat) \<noteq> 0" using assms(2) by simp
  have mul: "py_mul (PFloat (Fin 1)) (PInt i) = Inr (PFloat (Fin (of_int i)))" for i
    by (simp add: py_mul_def arith_def)
  show ?thesis
    using nz by (simp add: rate_of_change_def vd delta_seconds_def mul py_truediv_def)
qed

text \<open>
  The rate of change is exact. For the second sample of a meter, later than the first and
  with no monotonic clock, the rate is the growth divided by the seconds between them; the
  growth of a cumulative meter that went down is its new volume. With a scale given as an
  expression, the volume is the value of the expression times this rate.
\<close>

theorem rate_of_change_exact:
  assumes "dict_get (r_cache st) (sample_key s) = Some (PInt pv, pts, PNone)"
    and "sample_time env s = Inr ts" "s_volume s = PInt v" "pts < ts"
    and "r_scale st = PStr e" "e \<noteq> []" "eval_expr env e (as_dict s) = Inr (PFloat (Fin c))"
    and "\<not> truthy (tgt_max (r_cfg st))"
  shows "\<exists>s'. snd (rate_handle env u st s) = Inr (Some s')
    \<and> s_volume s' = PFloat (Fin (c * (of_int (growth s pv v) * 1000000 / of_int (ts - pts))))
    \<and> s_resource_id s' = s_resource_id s \<and> s_timestamp s' = s_timestamp s"
proof -
  let ?r = "of_int (growth s pv v) * 1000000 / of_int (ts - pts) :: rat"
  have td: "rate_time_delta PNone pts (s_monotonic_time s) ts = Inr (delta_seconds pts ts)"
    by (simp add: rate_time_delta_def)
  have pos: "py_less (delta_seconds pts ts) (PInt 0) = Inr False"
    using assms(4) by (simp add: delta_seconds_def py_less_def compare_nums_def)
  have "scale_volume env (PStr e) s = Inr (PFloat (Fin c))"
    using assms(6,7) by (simp add: scale_volume_def)
  then have conv: "\<exists>s'. scaling_convert env u (r_cfg st) (PStr e) s (PFloat (Fin ?r)) = Inr s'
      \<and> s_volume s' = PFloat (Fin (c * ?r))"
    using assms(8) by (simp add: scaling_convert_def py_mul_def arith_def new_sample_def)
  then show ?thesis
    using assms(1,2,5) rate_of_change_int [OF assms(3,4)] td pos
    by (auto simp: rate_handle_def Let_def dest: scaling_convert_fields)
qed

definition demo_rate :: rate where
  "demo_rate = \<lparr>r_cfg = plain_cfg, r_scale = PStr ''100.0 / 10**9'',
     r_cache = [(sample_key demo_sample, (PInt 10, 1, PNone))]\<rparr>"

definition rate_env :: tenv where
  "rate_env = demo_tenv\<lparr>eval_expr := \<lambda>e ns. Inr (PFloat (Fin 2))\<rparr>"

theorem rate_of_change_exact_witness:
  "\<exists>s'. snd (rate_handle rate_env ''u'' demo_rate (sample_at 3 4)) = Inr (Some s')
     \<and> s_volume s' = PFloat (Fin 4000000)"
proof -
  have c: "dict_get (r_cache demo_rate) (sample_key (sample_at 3 4)) = Some (PInt 10, 1, PNone)"
    by (simp add: demo_rate_def sample_at_def sample_key_def)
  have t: "sample_time rate_env (sample_at 3 4) = Inr 3"
    by (simp add: sample_at_def sample_time_def get_iso_timestamp_def rate_env_def demo_tenv_def)
  have v: "s_volume (sample_at 3 4) = PInt 4" by (simp add: sample_at_def)
  have g: "growth (sample_at 3 4) 10 4 = 4" by (simp add: growth_def sample_at_def type_defs)
  have e: "r_scale demo_rate = PStr ''100.0 / 10**9''" "eval_expr rate_env ''100.0 / 10**9'' (as_dict (sample_at 3 4)) = Inr (PFloat (Fin 2))"
    "\<not> truthy (tgt_max (r_cfg demo_rate))"
    by (simp_all add: demo_rate_def rate_env_def plain_cfg_def)
  from rate_of_change_exact [OF c t v _ e(1) _ e(2,3), of "''u''"] g show ?thesis by auto
qed

text \<open>
  A numeric scale does not scale the rate: \<open>_scale\<close> multiplies the volume of the sample
  with it, and the rate of change is multiplied on top, so the result is the volume times the
  scale times the rate.
\<close>

theorem rate_numeric_scale:
  assumes "dict_get (r_cache st) (sample_key s) = Some (PInt pv, pts, PNone)"
    and "sample_time env s = Inr ts" "s_volume s = PInt v" "pts < ts"
    and "r_scale st = PInt c" "c \<noteq> 0" "\<not> truthy (tgt_max (r_cfg st))"
  shows "\<exists>s'. snd (rate_handle env u st s) = Inr (Some s')
    \<and> s_volume s' = PFloat (Fin (of_int v * of_int c * (of_int (growth s pv v) * 1000000 / of_int (ts - pts))))"
proof -
  let ?r = "of_int (growth s pv v) * 1000000 / of_int (ts - pts) :: rat"
  have td: "rate_time_delta PNone pts (s_monotonic_time s) ts = Inr (delta_seconds pts ts)"
    by (simp add: rate_time_delta_def)
  have pos: "py_less (delta_seconds pts ts) (PInt 0) = Inr False"
    using assms(4) by (simp add: delta_seconds_def py_less_def compare_nums_def)
  have "scale_volume env (PInt c) s = Inr (PInt (v * c))"
    using assms(3,6) by (simp add: scale_volume_def py_mul_def arith_def)
  then have "\<exists>s'. scaling_convert env u (r_cfg st) (PInt c) s (PFloat (Fin ?r)) = Inr s'
      \<and> s_volume s' = PFloat (Fin (of_int v * of_int c * ?r))"
    using assms(7) by (simp add: scaling_convert_def py_mul_def arith_def new_sample_def)
  then show ?thesis
    using assms(1,2,5) rate_of_change_int [OF assms(3,4)] td pos
    by (auto simp: rate_handle_def Let_def)
qed

theorem rate_numeric_scale_witness:
  "\<exists>s'. snd (rate_handle rate_env ''u'' (demo_rate\<lparr>r_scale := PInt 2\<rparr>) (sample_at 3 14)) = Inr (Some s')
     \<and> s_volume s' = PFloat (Fin (14 * 2 * 2000000))"
proof -
  let ?st = "demo_rate\<lparr>r_scale := PInt 2\<rparr>"
  have c: "dict_get (r_cache ?st) (sample_key (sample_at 3 14)) = Some (PInt 10, 1, PNone)"
    by (simp add: demo_rate_def sample_at_def sample_key_def)
  have t: "sample_time rate_env (sample_at 3 14) = Inr 3"
    by (simp add: sample_at_def sample_time_def get_iso_timestamp_def rate_env_def demo_tenv_def)
  have v: "s_volume (sample_at 3 14) = PInt 14" by (simp add: sample_at_def)
  have g: "growth (sample_at 3 14) 10 14 = 4" by (simp add: growth_def)
  have e: "r_scale ?st = PInt 2" "\<not> truthy (tgt_max (r_cfg ?st))" by (simp_all add: demo_rate_def plain_cfg_def)
  from rate_numeric_scale [OF c t v _ e(1) _ e(2), of "''u''"] g show ?thesis by auto
qed

end
