(* ===== verification/Aggregator.thy ===== *)
theory Aggregator
  imports Conversions
begin

text \<open>
  The aggregator of \<^verbatim>\<open>ceilometer/transformer/conversions.py\<close>: samples with the same key are
  merged until the buffer is full or the retention time is over; gauges come out as averages.
\<close>

section \<open>State\<close>

datatype merge_policy = First | Last | Drop

datatype agg_attr = AProject | AUser | AMetadata

record aggregator =
  a_cfg :: conv_cfg
  a_size :: "int option"
  a_retention :: "flt option"
  a_timestamp_last :: bool
  a_initial :: "int option"
  a_count :: nat
  a_samples :: "(string, sample) pydict"
  a_counts :: "(string, nat) pydict"
  a_keys :: "agg_attr list"
  a_policy :: "(agg_attr, merge_policy) pydict"

text \<open>
  \<open>_init_attribute\<close>: an attribute with a value (or a mandatory one) is merged by its policy,
  an unknown policy being \<open>last\<close>; one without a value becomes part of the key.
\<close>

definition policy_of :: "string option \<Rightarrow> bool \<Rightarrow> merge_policy" where
  "policy_of value is_droppable =
     (if value = Some ''last'' then Last
      else if value = Some ''first'' then First
      else if is_droppable \<and> value = Some ''drop'' then Drop
      else Last)"

definition init_attribute ::
  "agg_attr \<Rightarrow> string option \<Rightarrow> bool \<Rightarrow> bool \<Rightarrow> aggregator \<Rightarrow> aggregator" where
  "init_attribute name value is_droppable mandatory st =
     (if (value \<noteq> None \<and> value \<noteq> Some []) \<or> mandatory
      then st\<lparr>a_policy := dict_set name (policy_of value is_droppable) (a_policy st)\<rparr>
      else st\<lparr>a_keys := a_keys st @ [name]\<rparr>)"

definition agg_init ::
  "conv_cfg \<Rightarrow> pyval \<Rightarrow> pyval \<Rightarrow> string option \<Rightarrow> string option \<Rightarrow> string option \<Rightarrow> string \<Rightarrow> aggregator res" where
  "agg_init cfg sz retention_time project_id user_id resource_metadata timestamp =
     bindr (if truthy sz then bindr (py_int sz) (\<lambda>i. Inr (Some i)) else Inr None) (\<lambda>n.
     bindr (if truthy retention_time then bindr (py_float retention_time) (\<lambda>f. Inr (Some f)) else Inr None)
       (\<lambda>rt.
       let n' = (if (n = None \<or> n = Some 0) \<and> (rt = None \<or> rt = Some (Fin 0)) then Some 1 else n);
           st = \<lparr>a_cfg = cfg, a_size = n', a_retention = rt,
                 a_timestamp_last = (timestamp = ''last''),
                 a_initial = None, a_count = 0, a_samples = [], a_counts = [], a_keys = [], a_policy = []\<rparr>
       in Inr (init_attribute AMetadata resource_metadata True True
            (init_attribute AUser user_id False False
              (init_attribute AProject project_id False False st)))))"

section \<open>Keys\<close>

definition undefined_id :: string where "undefined_id = ''<undefined>''"

definition key_part :: "sample \<Rightarrow> agg_attr \<Rightarrow> string res" where
  "key_part s a =
     (case a of
        AProject \<Rightarrow> Inr (case s_project_id s of None \<Rightarrow> undefined_id | Some p \<Rightarrow> p)
      | AUser \<Rightarrow> Inr (case s_user_id s of None \<Rightarrow> undefined_id | Some u \<Rightarrow> u)
      | AMetadata \<Rightarrow> Inl TypeError)"

definition unique_key :: "agg_attr list \<Rightarrow> sample \<Rightarrow> string res" where
  "unique_key attrs s =
     bindr (mapr (key_part s) attrs) (\<lambda>keys.
       Inr (s_name s @ ''-'' @ s_resource_id s @ ''-'' @ join ''-'' keys))"

section \<open>Handling a sample\<close>

definition merge_attr :: "sample \<Rightarrow> agg_attr \<times> merge_policy \<Rightarrow> sample \<Rightarrow> sample" where
  "merge_attr new ap old =
     (if snd ap \<noteq> Last then old
      else (case fst ap of
          AProject \<Rightarrow> old\<lparr>s_project_id := s_project_id new\<rparr>
        | AUser \<Rightarrow> old\<lparr>s_user_id := s_user_id new\<rparr>
        | AMetadata \<Rightarrow> old\<lparr>s_resource_metadata := s_resource_metadata new\<rparr>))"

definition merge_sample :: "tenv \<Rightarrow> aggregator \<Rightarrow> sample \<Rightarrow> sample \<Rightarrow> sample \<times> unit res" where
  "merge_sample env st old new =
     (let old1 = (if a_timestamp_last st then old\<lparr>s_timestamp := s_timestamp new\<rparr> else old);
          scaled = scale_volume env (tgt_scale (a_cfg st)) new
      in case (if s_type new = TYPE_CUMULATIVE then scaled
               else bindr scaled (\<lambda>v. py_add (s_volume old1) v)) of
           Inl e \<Rightarrow> (old1, Inl e)
         | Inr v \<Rightarrow> (fold (merge_attr new) (a_policy st) (old1\<lparr>s_volume := v\<rparr>), Inr ()))"

definition bump :: "string \<Rightarrow> (string, nat) pydict \<Rightarrow> (string, nat) pydict" where
  "bump key counts = dict_set key (Suc (dict_get_default counts key 0)) counts"

definition agg_handle :: "tenv \<Rightarrow> string \<Rightarrow> aggregator handler" where
  "agg_handle env uuid st s =
     (case (case a_initial st of Some t \<Rightarrow> Inr t | None \<Rightarrow> sample_time env s) of
        Inl e \<Rightarrow> (st, Inl e)
      | Inr t0 \<Rightarrow>
          (let st1 = st\<lparr>a_initial := Some t0, a_count := Suc (a_count st)\<rparr> in
           case unique_key (a_keys st) s of
             Inl e \<Rightarrow> (st1, Inl e)
           | Inr key \<Rightarrow>
               (let st2 = st1\<lparr>a_counts := bump key (a_counts st1)\<rparr> in
                case dict_get (a_samples st2) key of
                  None \<Rightarrow>
                    (case scaling_convert env uuid (a_cfg st) (tgt_scale (a_cfg st)) s (PInt 1) of
                       Inl e \<Rightarrow> (st2, Inl e)
                     | Inr s' \<Rightarrow>
                         (let s'' = (if dict_get (a_policy st) AMetadata = Some Drop
                                     then s'\<lparr>s_resource_metadata := []\<rparr> else s')
                          in (st2\<lparr>a_samples := dict_set key s'' (a_samples st2)\<rparr>, Inr None)))
                | Some old \<Rightarrow>
                    (let (old', r) = merge_sample env st old s in
                     (st2\<lparr>a_samples := dict_set key old' (a_samples st2)\<rparr>,
                      bindr r (\<lambda>_. Inr None))))))"

section \<open>Flushing\<close>

text \<open>
  The volume of a gauge is divided by the count of the key that its (converted) sample has:
  \<open>counts\<close> is a \<open>defaultdict\<close>, so a key that was never counted gives 0. A sample is updated
  in place, and an exception leaves the ones before it divided.
\<close>

definition average :: "aggregator \<Rightarrow> sample \<Rightarrow> sample res" where
  "average st s =
     (if s_type s = TYPE_GAUGE
      then bindr (unique_key (a_keys st) s) (\<lambda>key.
             bindr (py_truediv (s_volume s) (PInt (int (dict_get_default (a_counts st) key 0))))
               (\<lambda>v. Inr (s\<lparr>s_volume := v\<rparr>)))
      else Inr s)"

fun average_all :: "aggregator \<Rightarrow> (string, sample) pydict \<Rightarrow> (string, sample) pydict \<times> unit res" where
  "average_all st [] = ([], Inr ())"
| "average_all st ((k, s) # xs) =
     (case average st s of
        Inl e \<Rightarrow> ((k, s) # xs, Inl e)
      | Inr s' \<Rightarrow> (let (ys, r) = average_all st xs in ((k, s') # ys, r)))"

definition expired :: "aggregator \<Rightarrow> int \<Rightarrow> bool" where
  "expired st now =
     (case (a_retention st, a_initial st) of
        (Some rt, Some t0) \<Rightarrow> rt \<noteq> Fin 0 \<and> f_less rt (Fin (of_int (now - t0) / 1000000))
      | _ \<Rightarrow> False)"

definition full :: "aggregator \<Rightarrow> bool" where
  "full st = (case a_size st of None \<Rightarrow> False | Some n \<Rightarrow> n \<noteq> 0 \<and> n \<le> int (a_count st))"

definition agg_flush :: "int \<Rightarrow> aggregator flusher" where
  "agg_flush now st =
     (if a_initial st = None then (st, Inr [])
      else if full st \<or> expired st now
      then (case average_all st (a_samples st) of
          (xs, Inl e) \<Rightarrow> (st\<lparr>a_samples := xs\<rparr>, Inl e)
        | (xs, Inr _) \<Rightarrow>
            (st\<lparr>a_samples := [], a_counts := [], a_count := 0, a_initial := None\<rparr>,
             Inr (map (\<lambda>(k, s). Some s) xs)))
      else (st, Inr []))"

section \<open>Facts\<close>

lemma fold_merge_attr_fields [simp]:
  "s_volume (fold (merge_attr new) ps s) = s_volume s"
  "s_resource_id (fold (merge_attr new) ps s) = s_resource_id s"
  "s_name (fold (merge_attr new) ps s) = s_name s"
  "s_type (fold (merge_attr new) ps s) = s_type s"
  by (induction ps arbitrary: s) (simp_all add: merge_attr_def split: agg_attr.split)

lemma merge_sample_fields:
  "s_resource_id (fst (merge_sample env st old new)) = s_resource_id old"
  "s_name (fst (merge_sample env st old new)) = s_name old"
  "s_type (fst (merge_sample env st old new)) = s_type old"
  by (simp_all add: merge_sample_def Let_def split: sum.split)

definition agg_all :: "(string \<Rightarrow> bool) \<Rightarrow> aggregator \<Rightarrow> bool" where
  "agg_all P st = list_all (\<lambda>(k, s). P (s_resource_id s)) (a_samples st)"

lemma list_all_dict_set:
  "list_all (\<lambda>(k, v). Q v) d \<Longrightarrow> Q v \<Longrightarrow> list_all (\<lambda>(k, v). Q v) (dict_set k v d)"
  by (auto simp: list_all_iff dest!: dict_set_memberD)

lemma average_resource: "average st s = Inr s' \<Longrightarrow> s_resource_id s' = s_resource_id s"
  by (auto simp: average_def bindr_Inr_iff split: if_splits)

lemma average_all_resources:
  "list_all (\<lambda>(k, s). P (s_resource_id s)) xs \<Longrightarrow>
   list_all (\<lambda>(k, s). P (s_resource_id s)) (fst (average_all st xs))"
  by (induction xs)
    (auto simp: case_prod_beta Let_def average_resource split: sum.split)

lemma agg_handle_all:
  assumes "agg_all P st" "P (s_resource_id s)"
  shows "agg_all P (fst (agg_handle env u st s))"
proof -
  have old: "P (s_resource_id old)" if "dict_get (a_samples st) key = Some old" for key old
    using assms(1) that by (auto simp: agg_all_def list_all_iff dest!: map_of_SomeD)
  have set: "list_all (\<lambda>(k, s). P (s_resource_id s)) (dict_set key v (a_samples st))"
    if "P (s_resource_id v)" for key v
    using assms(1) that by (simp add: agg_all_def list_all_dict_set [where Q = "\<lambda>s. P (s_resource_id s)"])
  show ?thesis
    using assms
    by (auto simp: agg_handle_def Let_def case_prod_beta agg_all_def merge_sample_fields
        split: sum.split option.split intro!: set dest!: old scaling_convert_fields)
qed

lemma agg_flush_all: "agg_all P st \<Longrightarrow> agg_all P (fst (agg_flush now st))"
  using average_all_resources [of P "a_samples st" st]
  by (auto simp: agg_flush_def agg_all_def split: prod.split sum.split)

lemma agg_flush_out:
  "agg_all P st \<Longrightarrow> snd (agg_flush now st) = Inr xs \<Longrightarrow> Some s \<in> set xs \<Longrightarrow> P (s_resource_id s)"
  using average_all_resources [of P "a_samples st" st]
  by (auto simp: agg_flush_def agg_all_def list_all_iff split: prod.splits sum.splits if_splits)

lemma agg_handle_none: "snd (agg_handle env u st s) \<noteq> Inr (Some s')"
  by (simp add: agg_handle_def Let_def case_prod_beta bindr_def split: sum.split option.split)

interpretation aggregator: transformer_contract "agg_handle env u" "agg_flush now"
  "agg_all P" "\<lambda>s. P (s_resource_id s)" for env u now P
  by unfold_locales
    (auto simp: agg_handle_none intro: agg_handle_all agg_flush_all agg_flush_out)

section \<open>Runs of gauges\<close>

text \<open>
  Gauges with one key and integer volumes, in an aggregator without scale and maximum that
  merges the metadata only, as it does by default: projects and users are part of the key.
\<close>

fun agg_run :: "tenv \<Rightarrow> (nat \<Rightarrow> string) \<Rightarrow> aggregator \<Rightarrow> sample list \<Rightarrow> aggregator" where
  "agg_run env us st [] = st"
| "agg_run env us st (s # ss) = agg_run env us (fst (agg_handle env (us (length ss)) st s)) ss"

definition plain_gauge :: "tenv \<Rightarrow> aggregator \<Rightarrow> string \<Rightarrow> sample \<Rightarrow> bool" where
  "plain_gauge env st key s \<longleftrightarrow>
     s_type s = TYPE_GAUGE \<and> (\<exists>v. s_volume s = PInt v) \<and> unique_key (a_keys st) s = Inr key
     \<and> (\<exists>t. sample_time env s = Inr t)"

definition plain_agg :: "aggregator \<Rightarrow> bool" where
  "plain_agg st \<longleftrightarrow> \<not> truthy (tgt_scale (a_cfg st)) \<and> \<not> truthy (tgt_max (a_cfg st))
     \<and> (\<forall>p \<in> set (a_policy st). fst p = AMetadata)"

text \<open>The state after \<open>k\<close> gauges whose volumes sum to \<open>v\<close>.\<close>

definition holds :: "aggregator \<Rightarrow> string \<Rightarrow> nat \<Rightarrow> int \<Rightarrow> sample \<Rightarrow> bool" where
  "holds st key k v s \<longleftrightarrow>
     a_samples st = [(key, s)] \<and> a_counts st = [(key, k)] \<and> a_count st = k \<and> a_initial st \<noteq> None
     \<and> s_volume s = PInt v"

lemma same_config:
  "a_cfg (fst (agg_handle env u st s)) = a_cfg st" "a_keys (fst (agg_handle env u st s)) = a_keys st"
  "a_size (fst (agg_handle env u st s)) = a_size st" "a_policy (fst (agg_handle env u st s)) = a_policy st"
  "a_retention (fst (agg_handle env u st s)) = a_retention st"
  by (simp_all add: agg_handle_def Let_def case_prod_beta split: sum.split option.split)

lemma unique_key_cong:
  "s_resource_id s' = s_resource_id s \<Longrightarrow> s_user_id s' = s_user_id s \<Longrightarrow> s_project_id s' = s_project_id s \<Longrightarrow>
   unique_key as s = Inr (s_name s @ r) \<Longrightarrow> unique_key as s' = Inr (s_name s' @ r)"
proof -
  assume eq: "s_resource_id s' = s_resource_id s" "s_user_id s' = s_user_id s" "s_project_id s' = s_project_id s"
  then have "key_part s' = key_part s" by (intro ext) (simp add: key_part_def split: agg_attr.split)
  then show "unique_key as s = Inr (s_name s @ r) \<Longrightarrow> unique_key as s' = Inr (s_name s' @ r)"
    using eq by (auto simp: unique_key_def bindr_Inr_iff)
qed

lemma agg_first:
  assumes "plain_agg st" "plain_gauge env st (s_name s @ r) s" "a_samples st = []" "a_counts st = []" "a_count st = 0"
    and "a_initial st = None" "s_volume s = PInt v"
  shows "\<exists>s'. holds (fst (agg_handle env u st s)) (s_name s @ r) 1 v s'
    \<and> s_name s' = conv_map env (a_cfg st) ''name'' (s_name s)
    \<and> s_type s' = dict_get_default (tgt (a_cfg st)) ''type'' (s_type s)
    \<and> unique_key (a_keys st) s' = Inr (s_name s' @ r)"
proof -
  from assms(2) obtain t where t: "sample_time env s = Inr t" "unique_key (a_keys st) s = Inr (s_name s @ r)"
    by (auto simp: plain_gauge_def)
  define s1 where "s1 = new_sample (source_default env) u (conv_map env (a_cfg st) ''name'' (s_name s))
        (dict_get_default (tgt (a_cfg st)) ''type'' (s_type s)) (conv_map env (a_cfg st) ''unit'' (s_unit s)) (PInt v)
        (s_user_id s) (s_project_id s) (s_resource_id s) (s_timestamp s) (s_resource_metadata s) None None PNone"
  have conv: "scaling_convert env u (a_cfg st) (tgt_scale (a_cfg st)) s (PInt 1) = Inr s1"
    using assms(1,7) by (simp add: scaling_convert_def scale_volume_def plain_agg_def py_mul_def arith_def s1_def)
  define s2 where "s2 = (if dict_get (a_policy st) AMetadata = Some Drop then s1\<lparr>s_resource_metadata := []\<rparr> else s1)"
  have f: "s_volume s2 = PInt v" "s_name s2 = conv_map env (a_cfg st) ''name'' (s_name s)"
    "s_type s2 = dict_get_default (tgt (a_cfg st)) ''type'' (s_type s)"
    "s_resource_id s2 = s_resource_id s" "s_user_id s2 = s_user_id s" "s_project_id s2 = s_project_id s"
    by (simp_all add: s2_def s1_def new_sample_def)
  have "holds (fst (agg_handle env u st s)) (s_name s @ r) 1 v s2"
    using assms t f(1) conv
    by (simp add: agg_handle_def Let_def holds_def bump_def dict_get_default_def s2_def [symmetric])
  with f unique_key_cong [OF f(4-6) t(2)] show ?thesis by blast
qed

lemma fold_merge_attr_ids:
  "\<forall>p \<in> set ps. fst p = AMetadata \<Longrightarrow>
   s_user_id (fold (merge_attr new) ps s) = s_user_id s \<and> s_project_id (fold (merge_attr new) ps s) = s_project_id s"
  by (induction ps arbitrary: s) (auto simp: merge_attr_def split: agg_attr.split)

lemma merge_sample_ids:
  "\<forall>p \<in> set (a_policy st). fst p = AMetadata \<Longrightarrow>
   s_user_id (fst (merge_sample env st old new)) = s_user_id old
   \<and> s_project_id (fst (merge_sample env st old new)) = s_project_id old"
  using fold_merge_attr_ids [of "a_policy st" new] by (simp add: merge_sample_def Let_def split: sum.split)

lemma agg_next:
  assumes "plain_agg st" "plain_gauge env st key s" "holds st key k w old" "s_volume s = PInt v"
    and "unique_key (a_keys st) old = Inr (s_name old @ r)"
  shows "\<exists>s'. holds (fst (agg_handle env u st s)) key (Suc k) (w + v) s' \<and> s_name s' = s_name old
    \<and> s_type s' = s_type old \<and> unique_key (a_keys st) s' = Inr (s_name s' @ r)"
proof -
  let ?m = "fst (merge_sample env st old s)"
  from assms(2,3) obtain t0 where t: "a_initial st = Some t0" "unique_key (a_keys st) s = Inr key"
    and s: "s_type s = TYPE_GAUGE"
    by (auto simp: plain_gauge_def holds_def)
  have m: "snd (merge_sample env st old s) = Inr ()" "s_volume ?m = PInt (w + v)"
    using assms s by (simp_all add: merge_sample_def Let_def scale_volume_def plain_agg_def holds_def
      type_defs py_add_def arith_def)
  have key: "unique_key (a_keys st) ?m = Inr (s_name ?m @ r)"
    using assms(1) by (intro unique_key_cong [OF _ _ _ assms(5)])
      (simp_all add: merge_sample_fields merge_sample_ids plain_agg_def)
  have "holds (fst (agg_handle env u st s)) key (Suc k) (w + v) ?m"
    using assms(3) t m
    by (simp add: agg_handle_def Let_def holds_def bump_def dict_get_default_def case_prod_beta)
  with key show ?thesis by (intro exI [of _ ?m]) (simp add: merge_sample_fields)
qed

lemma agg_run_holds:
  assumes "plain_agg st" "\<forall>s \<in> set ss. plain_gauge env st key s" "holds st key k w old"
    and "unique_key (a_keys st) old = Inr (s_name old @ r)"
  shows "\<exists>s'. holds (agg_run env us st ss) key (k + length ss) (w + sum_list (map int_volume ss)) s'
    \<and> s_name s' = s_name old \<and> s_type s' = s_type old
    \<and> unique_key (a_keys (agg_run env us st ss)) s' = Inr (s_name s' @ r)
    \<and> a_size (agg_run env us st ss) = a_size st"
  using assms
proof (induction ss arbitrary: st k w old)
  case (Cons s ss)
  let ?st = "fst (agg_handle env (us (length ss)) st s)"
  from Cons.prems(2) obtain v where v: "s_volume s = PInt v" by (auto simp: plain_gauge_def)
  then have iv: "int_volume s = v" by (simp add: int_volume_def)
  obtain s' where s': "holds ?st key (Suc k) (w + v) s'" "s_name s' = s_name old" "s_type s' = s_type old"
      "unique_key (a_keys st) s' = Inr (s_name s' @ r)"
    using agg_next [of st env key s k w old v r "us (length ss)"] Cons.prems v by auto
  have keep: "plain_agg ?st" "\<forall>x \<in> set ss. plain_gauge env ?st key x"
    using Cons.prems by (simp_all add: plain_agg_def plain_gauge_def same_config)
  have uk: "unique_key (a_keys ?st) s' = Inr (s_name s' @ r)" using s'(4) by (simp add: same_config)
  from Cons.IH [OF keep s'(1) uk] obtain s'' where
      s'': "holds (agg_run env us ?st ss) key (Suc k + length ss) (w + v + sum_list (map int_volume ss)) s''"
      "s_name s'' = s_name s'" "s_type s'' = s_type s'"
      "unique_key (a_keys (agg_run env us ?st ss)) s'' = Inr (s_name s'' @ r)"
      "a_size (agg_run env us ?st ss) = a_size ?st"
    by blast
  with s' iv show ?case
    by (intro exI [of _ s'']) (simp add: same_config add.assoc)
qed auto

text \<open>A full buffer of gauges: what the aggregator holds when it is flushed.\<close>

lemma agg_full_run:
  assumes "plain_agg st" "a_samples st = []" "a_counts st = []" "a_count st = 0" "a_initial st = None"
    and "\<forall>x \<in> set (s # ss). plain_gauge env st (s_name s @ r) x"
  shows "\<exists>s'. holds (agg_run env us st (s # ss)) (s_name s @ r) (Suc (length ss)) (sum_list (map int_volume (s # ss))) s'
    \<and> s_name s' = conv_map env (a_cfg st) ''name'' (s_name s)
    \<and> s_type s' = dict_get_default (tgt (a_cfg st)) ''type'' (s_type s)
    \<and> unique_key (a_keys (agg_run env us st (s # ss))) s' = Inr (s_name s' @ r)
    \<and> a_size (agg_run env us st (s # ss)) = a_size st"
proof -
  let ?st = "fst (agg_handle env (us (length ss)) st s)"
  from assms(6) obtain v where v: "s_volume s = PInt v" by (auto simp: plain_gauge_def)
  have g: "plain_gauge env st (s_name s @ r) s" using assms(6) by simp
  from agg_first [OF assms(1) g assms(2-5) v, of "us (length ss)"] obtain s1 where
      s1: "holds ?st (s_name s @ r) 1 v s1" "s_name s1 = conv_map env (a_cfg st) ''name'' (s_name s)"
      "s_type s1 = dict_get_default (tgt (a_cfg st)) ''type'' (s_type s)"
      "unique_key (a_keys st) s1 = Inr (s_name s1 @ r)" by blast
  have keep: "plain_agg ?st" "\<forall>x \<in> set ss. plain_gauge env ?st (s_name s @ r) x"
    using assms(1,6) by (simp_all add: plain_agg_def plain_gauge_def same_config)
  have uk: "unique_key (a_keys ?st) s1 = Inr (s_name s1 @ r)" using s1(4) by (simp add: same_config)
  have iv: "int_volume s = v" by (simp add: int_volume_def v)
  from agg_run_holds [OF keep s1(1) uk, of us] s1 iv show ?thesis
    by (auto simp: same_config)
qed

section \<open>Properties\<close>

text \<open>
  A full buffer of gauges comes out as their average: one sample whose volume is the sum
  of the volumes divided by their number, and the aggregator is empty again.
\<close>

theorem aggregate_average:
  assumes "plain_agg st" "a_samples st = []" "a_counts st = []" "a_count st = 0" "a_initial st = None"
    and "\<forall>x \<in> set (s # ss). plain_gauge env st (s_name s @ r) x"
    and "a_size st = Some (int (Suc (length ss)))"
    and "conv_map env (a_cfg st) ''name'' (s_name s) = s_name s" "dict_get (tgt (a_cfg st)) ''type'' = None"
  shows "\<exists>s'. snd (agg_flush now (agg_run env us st (s # ss))) = Inr [Some s']
    \<and> s_volume s' = PFloat (Fin (of_int (sum_list (map int_volume (s # ss))) / of_nat (Suc (length ss))))
    \<and> a_samples (fst (agg_flush now (agg_run env us st (s # ss)))) = []
    \<and> a_initial (fst (agg_flush now (agg_run env us st (s # ss)))) = None"
proof -
  let ?st = "agg_run env us st (s # ss)" and ?v = "sum_list (map int_volume (s # ss))"
  from agg_full_run [OF assms(1-6), of us] obtain s' where
      h: "holds ?st (s_name s @ r) (Suc (length ss)) ?v s'" and n: "s_name s' = s_name s"
      and ty: "s_type s' = TYPE_GAUGE" and uk: "unique_key (a_keys ?st) s' = Inr (s_name s' @ r)"
      and sz: "a_size ?st = a_size st"
    using assms(6,8,9) by (auto simp: plain_gauge_def dict_get_default_def)
  have avg: "average ?st s' = Inr (s'\<lparr>s_volume := PFloat (Fin (of_int ?v / of_nat (Suc (length ss))))\<rparr>)"
    using h ty uk n by (simp add: average_def holds_def dict_get_default_def py_truediv_def)
  have "full ?st" using h sz assms(7) by (simp add: full_def holds_def)
  then show ?thesis using h avg by (simp add: agg_flush_def holds_def)
qed

definition demo_agg :: aggregator where
  "demo_agg = \<lparr>a_cfg = plain_cfg, a_size = Some 2, a_retention = None, a_timestamp_last = False,
     a_initial = None, a_count = 0, a_samples = [], a_counts = [], a_keys = [AProject, AUser],
     a_policy = [(AMetadata, Last)]\<rparr>"

definition gauge_at :: "nat \<Rightarrow> int \<Rightarrow> sample" where
  "gauge_at t v = (sample_at t v)\<lparr>s_type := TYPE_GAUGE\<rparr>"

lemma demo_gauges:
  "\<forall>x \<in> set [gauge_at 1 3, gauge_at 2 4]. plain_gauge demo_tenv (demo_agg\<lparr>a_cfg := cfg\<rparr>)
     (s_name (gauge_at 1 3) @ ''-vm-<undefined>-joe'') x"
  by (simp add: plain_gauge_def gauge_at_def sample_at_def demo_agg_def unique_key_def key_part_def demo_sample_def
      new_sample_def undefined_id_def sample_time_def get_iso_timestamp_def demo_tenv_def)

theorem aggregate_average_witness:
  "\<exists>s'. snd (agg_flush 0 (agg_run demo_tenv (\<lambda>i. ''u'') demo_agg [gauge_at 1 3, gauge_at 2 4])) = Inr [Some s']
     \<and> s_volume s' = PFloat (Fin (7 / 2))"
proof -
  have cfg: "demo_agg\<lparr>a_cfg := plain_cfg\<rparr> = demo_agg" by (simp add: demo_agg_def)
  have st: "plain_agg demo_agg" "a_samples demo_agg = []" "a_counts demo_agg = []" "a_count demo_agg = 0"
    "a_initial demo_agg = None"
    by (simp_all add: demo_agg_def plain_agg_def plain_cfg_def)
  have more: "a_size demo_agg = Some (int (Suc (length [gauge_at 2 4])))"
    "conv_map demo_tenv (a_cfg demo_agg) ''name'' (s_name (gauge_at 1 3)) = s_name (gauge_at 1 3)"
    "dict_get (tgt (a_cfg demo_agg)) ''type'' = None"
    by (simp_all add: demo_agg_def plain_cfg_def conv_map_plain)
  have "sum_list (map int_volume [gauge_at 1 3, gauge_at 2 4]) = 7"
    by (simp add: int_volume_def gauge_at_def sample_at_def)
  with aggregate_average [OF st demo_gauges [of plain_cfg, unfolded cfg] more, of 0 "\<lambda>i. ''u''"]
  show ?thesis by auto
qed

text \<open>
  An aggregator that renames its gauges cannot be flushed: samples are counted under the
  old name and averaged under the new one, whose count is 0. The flush raises
  \<open>ZeroDivisionError\<close> and the samples stay in the buffer.
\<close>

theorem renamed_gauge_stuck:
  assumes "plain_agg st" "a_samples st = []" "a_counts st = []" "a_count st = 0" "a_initial st = None"
    and "\<forall>x \<in> set (s # ss). plain_gauge env st (s_name s @ r) x"
    and "a_size st = Some (int (Suc (length ss)))"
    and "conv_map env (a_cfg st) ''name'' (s_name s) \<noteq> s_name s" "dict_get (tgt (a_cfg st)) ''type'' = None"
  shows "agg_flush now (agg_run env us st (s # ss)) = (agg_run env us st (s # ss), Inl ZeroDivisionError)
    \<and> a_samples (agg_run env us st (s # ss)) \<noteq> []"
proof -
  let ?st = "agg_run env us st (s # ss)" and ?v = "sum_list (map int_volume (s # ss))"
  from agg_full_run [OF assms(1-6), of us] obtain s' where
      h: "holds ?st (s_name s @ r) (Suc (length ss)) ?v s'" and n: "s_name s' \<noteq> s_name s"
      and ty: "s_type s' = TYPE_GAUGE" and uk: "unique_key (a_keys ?st) s' = Inr (s_name s' @ r)"
      and sz: "a_size ?st = a_size st"
    using assms(6,8,9) by (auto simp: plain_gauge_def dict_get_default_def)
  have avg: "average ?st s' = Inl ZeroDivisionError"
    using h ty uk n by (simp add: average_def holds_def dict_get_default_def py_truediv_def)
  have "full ?st" using h sz assms(7) by (simp add: full_def holds_def)
  then show ?thesis using h avg by (simp add: agg_flush_def holds_def)
qed

theorem renamed_gauge_stuck_witness:
  "snd (agg_flush 0 (agg_run demo_tenv (\<lambda>i. ''u'') (demo_agg\<lparr>a_cfg := plain_cfg\<lparr>tgt := [(''name'', ''avg'')]\<rparr>\<rparr>)
     [gauge_at 1 3, gauge_at 2 4])) = Inl ZeroDivisionError"
proof -
  let ?st = "demo_agg\<lparr>a_cfg := plain_cfg\<lparr>tgt := [(''name'', ''avg'')]\<rparr>\<rparr>"
  have st: "plain_agg ?st" "a_samples ?st = []" "a_counts ?st = []" "a_count ?st = 0" "a_initial ?st = None"
    by (simp_all add: demo_agg_def plain_agg_def plain_cfg_def)
  have more: "a_size ?st = Some (int (Suc (length [gauge_at 2 4])))"
    "conv_map demo_tenv (a_cfg ?st) ''name'' (s_name (gauge_at 1 3)) \<noteq> s_name (gauge_at 1 3)"
    "dict_get (tgt (a_cfg ?st)) ''type'' = None"
    by (simp_all add: demo_agg_def plain_cfg_def conv_map_def dict_get_default_def gauge_at_def sample_at_def
        demo_sample_def new_sample_def)
  from renamed_gauge_stuck [OF st demo_gauges more, of 0 "\<lambda>i. ''u''"] show ?thesis by simp
qed

end
