(* ===== verification/Arithmetic.thy ===== *)
theory Arithmetic
  imports Transformer_Base
begin

text \<open>
  The arithmetic transformer (\<^verbatim>\<open>ceilometer/transformer/arithmetic.py\<close>): meter names in the
  configured expression become identifiers, the latest samples are cached per resource, and a
  flush evaluates the expression for each resource that has them all.
\<close>

section \<open>Escaping meter names\<close>

text \<open>The characters \<open>\w\<close> matches (Latin-1 letters and digit-like signs included).\<close>

definition word_char :: "char \<Rightarrow> bool" where
  "word_char c =
     (let n = of_char c :: nat in
      (48 \<le> n \<and> n \<le> 57) \<or> (65 \<le> n \<and> n \<le> 90) \<or> n = 95 \<or> (97 \<le> n \<and> n \<le> 122)
      \<or> n \<in> {170, 178, 179, 181, 185, 186, 188, 189, 190} \<or> (192 \<le> n \<and> n \<noteq> 215 \<and> n \<noteq> 247))"

definition name_char :: "char \<Rightarrow> bool" where
  "name_char c = (word_char c \<or> c = CHR ''.'' \<or> c = CHR ''-'')"

definition kwlist :: "string list" where
  "kwlist =
    [''False'', ''None'', ''True'', ''and'', ''as'', ''assert'', ''async'', ''await'', ''break'',
     ''class'', ''continue'', ''def'', ''del'', ''elif'', ''else'', ''except'', ''finally'', ''for'',
     ''from'', ''global'', ''if'', ''import'', ''in'', ''is'', ''lambda'', ''nonlocal'', ''not'', ''or'',
     ''pass'', ''raise'', ''return'', ''try'', ''while'', ''with'', ''yield'']"

definition escape :: "string \<Rightarrow> string" where
  "escape name =
     (let has_dot = (CHR ''.'' \<in> set name);
          n = (if has_dot then undot name else name)
      in if has_dot \<or> endswith n ''ESC'' \<or> n \<in> set kwlist then ''_'' @ n @ ''_ESC'' else n)"

text \<open>
  \<open>parse_expr\<close>: every \<open>$(name)\<close> is replaced by the escaped name, followed by \<open>.volume\<close>
  unless a dot follows; the second component maps meter names to escaped names.
\<close>

function replace_meters :: "string \<Rightarrow> (string, string) pydict \<Rightarrow> string \<times> (string, string) pydict" where
  "replace_meters [] m = ([], m)"
| "replace_meters (c # cs) m =
     (let name = takeWhile name_char (tl cs); after = dropWhile name_char (tl cs) in
      if c = CHR ''$'' \<and> cs \<noteq> [] \<and> hd cs = CHR ''('' \<and> name \<noteq> [] \<and> after \<noteq> [] \<and> hd after = CHR '')''
      then (let esc = escape name;
                (out, m') = replace_meters (tl after) (dict_set name esc m)
            in (esc @ (if tl after = [] \<or> hd (tl after) \<noteq> CHR ''.'' then ''.volume'' else []) @ out, m'))
      else (let (out, m') = replace_meters cs m in (c # out, m')))"
  by pat_completeness auto
termination
proof (relation "measure (\<lambda>(s, m). length s)", goal_cases)
  case (2 c cs m name after)
  have "length (dropWhile name_char (tl cs)) \<le> length (tl cs)"
    by (rule length_dropWhile_le)
  then have "length (tl after) < length (c # cs)" by (simp add: 2(2))
  then show ?case by simp
qed auto

definition parse_expr :: "string \<Rightarrow> string \<times> (string, string) pydict" where
  "parse_expr expr = replace_meters expr []"

section \<open>The transformer\<close>

record arith =
  ar_name :: "string option"
  ar_unit :: "string option"
  ar_type :: "string option"
  ar_expr :: string
  ar_escaped :: "(string, string) pydict"
  ar_cache :: "(string, (string, sample) pydict) pydict"
  ar_latest :: "string option"

definition required_meters :: "arith \<Rightarrow> string list" where
  "required_meters st = map snd (ar_escaped st)"

definition misconfigured :: "arith \<Rightarrow> bool" where
  "misconfigured st = (required_meters st = [])"

definition arith_init :: "string option \<Rightarrow> string option \<Rightarrow> string option \<Rightarrow> string \<Rightarrow> arith" where
  "arith_init name unit type expr =
     (let (e, m) = parse_expr expr in
      \<lparr>ar_name = name, ar_unit = unit, ar_type = type, ar_expr = e, ar_escaped = m, ar_cache = [],
       ar_latest = None\<rparr>)"

definition resource_cache :: "arith \<Rightarrow> string \<Rightarrow> (string, sample) pydict" where
  "resource_cache st r = dict_get_default (ar_cache st) r []"

definition update_cache :: "arith \<Rightarrow> sample \<Rightarrow> arith" where
  "update_cache st s =
     (let esc = dict_get_default (ar_escaped st) (s_name s) [] in
      if esc \<notin> set (required_meters st) then st
      else st\<lparr>ar_cache := dict_set (s_resource_id s)
                (dict_set esc s (resource_cache st (s_resource_id s))) (ar_cache st)\<rparr>)"

text \<open>\<open>required_meters\<close> has become a set when the requirements are checked.\<close>

definition check_requirements :: "arith \<Rightarrow> string \<Rightarrow> bool" where
  "check_requirements st r =
     (length (resource_cache st r) = card (set (required_meters st)))"

text \<open>
  \<open>_calculate\<close> returns no sample when anything raises: the evaluation, \<open>isnan\<close> or \<open>float\<close> of
  something that is no number, a NaN.
\<close>

definition calculate :: "tenv \<Rightarrow> string \<Rightarrow> arith \<Rightarrow> string \<Rightarrow> sample option" where
  "calculate env uuid st r =
     (let ns = map (\<lambda>(m, s). (m, PDict (as_dict s))) (resource_cache st r) in
      case eval_expr env (ar_expr st) ns of
        Inl e \<Rightarrow> None
      | Inr v \<Rightarrow>
          (case as_num v of
             None \<Rightarrow> None
           | Some f \<Rightarrow>
               (if f = NaN then None
                else (case dict_get (resource_cache st r) (hd (required_meters st)) of
                    None \<Rightarrow> None
                  | Some ref \<Rightarrow>
                      Some (new_sample (source_default env) uuid
                        (case ar_name st of None \<Rightarrow> s_name ref | Some n \<Rightarrow> n)
                        (case ar_type st of None \<Rightarrow> s_type ref | Some n \<Rightarrow> n)
                        (case ar_unit st of None \<Rightarrow> s_unit ref | Some n \<Rightarrow> n)
                        (PFloat f) (s_user_id ref) (s_project_id ref) (s_resource_id ref)
                        (ar_latest st) (s_resource_metadata ref) None None PNone)))))"

definition arith_handle :: "arith handler" where
  "arith_handle st s = ((update_cache st s)\<lparr>ar_latest := s_timestamp s\<rparr>, Inr None)"

text \<open>The loop of \<open>flush\<close> over a copy of the cache; \<open>uuids\<close> gives the id of each new sample.\<close>

fun arith_flush_loop ::
  "tenv \<Rightarrow> (nat \<Rightarrow> string) \<Rightarrow> string list \<Rightarrow> arith \<Rightarrow> sample option list \<Rightarrow> arith \<times> sample option list" where
  "arith_flush_loop env uuids [] st out = (st, out)"
| "arith_flush_loop env uuids (r # rs) st out =
     (if check_requirements st r
      then arith_flush_loop env uuids rs (st\<lparr>ar_cache := dict_del r (ar_cache st)\<rparr>)
             (out @ [calculate env (uuids (length out)) st r])
      else arith_flush_loop env uuids rs st out)"

definition arith_flush :: "tenv \<Rightarrow> (nat \<Rightarrow> string) \<Rightarrow> arith flusher" where
  "arith_flush env uuids st =
     (if misconfigured st then (st, Inr [])
      else (let (st', out) = arith_flush_loop env uuids (dict_keys (ar_cache st)) st [] in (st', Inr out)))"

section \<open>Facts about escaping\<close>

lemma undot_id: "CHR ''.'' \<notin> set n \<Longrightarrow> undot n = n"
  by (simp add: undot_def replace_char_id)

lemma escape_cases:
  "escape n = undot n \<and> CHR ''.'' \<notin> set n \<and> \<not> endswith n ''ESC'' \<and> n \<notin> set kwlist
   \<or> escape n = ''_'' @ undot n @ ''_ESC''"
  by (auto simp: escape_def Let_def undot_id)

lemma escape_no_dot: "CHR ''.'' \<notin> set (escape n)"
  using escape_cases [of n] undot_no_dot [of n] by auto

lemma kwlist_no_ESC: "k \<in> set kwlist \<Longrightarrow> \<not> endswith k ''_ESC''"
  by (auto simp: kwlist_def endswith_def suffix_def)

lemma escape_not_keyword: "escape n \<notin> set kwlist"
proof -
  have "\<not> endswith (''_'' @ undot n @ ''_ESC'') ''_ESC'' \<or> ''_'' @ undot n @ ''_ESC'' \<notin> set kwlist"
    using kwlist_no_ESC by blast
  moreover have "endswith (''_'' @ undot n @ ''_ESC'') ''_ESC''"
    unfolding endswith_def by (metis append_assoc suffixI)
  ultimately show ?thesis using escape_cases [of n] undot_id by metis
qed

text \<open>Names that are escaped alike differ at most in dots and underscores.\<close>

lemma escape_eq: "escape m = escape n \<Longrightarrow> undot m = undot n"
proof -
  assume eq: "escape m = escape n"
  have esc: "endswith (''_'' @ undot k @ ''_ESC'') ''ESC''" for k
    unfolding endswith_def by (rule suffixI [of _ "''_'' @ undot k @ ''_''"]) simp
  show ?thesis
    using escape_cases [of m] escape_cases [of n] eq esc [of m] esc [of n] undot_id
    by (metis append_same_eq same_append_eq)
qed

section \<open>Facts about the cache\<close>

lemma replace_meters_escape:
  "\<forall>(k, v) \<in> set m. v = escape k \<Longrightarrow> \<forall>(k, v) \<in> set (snd (replace_meters e m)). v = escape k"
proof (induction e m rule: replace_meters.induct)
  case (2 c cs m)
  let ?name = "takeWhile name_char (tl cs)"
  have "\<forall>(k, v) \<in> set (dict_set ?name (escape ?name) m). v = escape k"
    using 2(3) by (auto dest!: dict_set_memberD)
  with 2 show ?case by (simp add: Let_def case_prod_beta)
qed simp

definition arith_all :: "(string \<Rightarrow> bool) \<Rightarrow> arith \<Rightarrow> bool" where
  "arith_all P st \<longleftrightarrow>
     (\<forall>r c k s. (r, c) \<in> set (ar_cache st) \<longrightarrow> (k, s) \<in> set c \<longrightarrow> P (s_resource_id s))"

lemma arith_all_cache:
  "arith_all P st \<Longrightarrow> (k, s) \<in> set (resource_cache st r) \<Longrightarrow> P (s_resource_id s)"
  by (cases "dict_get (ar_cache st) r")
    (auto simp: arith_all_def resource_cache_def dict_get_default_def dest: map_of_SomeD)

lemma arith_all_del: "arith_all P st \<Longrightarrow> arith_all P (st\<lparr>ar_cache := dict_del r (ar_cache st)\<rparr>)"
  unfolding arith_all_def by (simp add: dict_del_member) blast

lemma arith_all_update:
  assumes "arith_all P st" "P (s_resource_id s)"
  shows "arith_all P (update_cache st s)"
proof -
  have new: "P (s_resource_id x)" if "(k, x) \<in> set (dict_set esc s (resource_cache st r))" for k x esc r
    using dict_set_memberD [OF that] arith_all_cache [OF assms(1)] assms(2) by blast
  have old: "P (s_resource_id x)" if "(r, c) \<in> set (ar_cache st)" "(k, x) \<in> set c" for r c k x
    using assms(1) that by (auto simp: arith_all_def)
  show ?thesis
    unfolding update_cache_def Let_def arith_all_def
    using assms(2) arith_all_cache [OF assms(1)]
    by (auto dest!: dict_set_memberD intro: old new)
qed

lemma calculate_resource:
  "arith_all P st \<Longrightarrow> calculate env u st r = Some s \<Longrightarrow> P (s_resource_id s)"
  using arith_all_cache [of P st _ _ r]
  by (auto simp: calculate_def Let_def new_sample_def
      split: sum.splits option.splits if_splits dest!: map_of_SomeD)

lemma arith_flush_loop_all:
  "arith_all P st \<Longrightarrow> (\<And>s. Some s \<in> set out \<Longrightarrow> P (s_resource_id s)) \<Longrightarrow>
   arith_all P (fst (arith_flush_loop env us rs st out))
   \<and> (\<forall>s. Some s \<in> set (snd (arith_flush_loop env us rs st out)) \<longrightarrow> P (s_resource_id s))"
proof (induction rs arbitrary: st out)
  case (Cons r rs)
  show ?case
  proof (cases "check_requirements st r")
    case True
    let ?out = "out @ [calculate env (us (length out)) st r]"
    let ?st = "st\<lparr>ar_cache := dict_del r (ar_cache st)\<rparr>"
    have "P (s_resource_id s)" if "Some s \<in> set ?out" for s
      using that Cons.prems calculate_resource [OF Cons.prems(1)] by auto
    then have "arith_all P (fst (arith_flush_loop env us rs ?st ?out))
      \<and> (\<forall>s. Some s \<in> set (snd (arith_flush_loop env us rs ?st ?out)) \<longrightarrow> P (s_resource_id s))"
      using Cons.IH [of ?st ?out] arith_all_del [OF Cons.prems(1), of r] by blast
    with True show ?thesis by simp
  next
    case False
    with Cons.IH [OF Cons.prems] show ?thesis by simp
  qed
qed auto

lemma arith_handle_all: "arith_all P st \<Longrightarrow> P (s_resource_id s) \<Longrightarrow> arith_all P (fst (arith_handle st s))"
  using arith_all_update [of P st s] by (simp add: arith_handle_def arith_all_def)

interpretation arithmetic: transformer_contract arith_handle "arith_flush env us"
  "arith_all P" "\<lambda>s. P (s_resource_id s)" for env us P
proof (unfold_locales, goal_cases)
  case (1 st s)
  then show ?case by (rule arith_handle_all)
next
  case (2 st s s')
  then show ?case by (simp add: arith_handle_def)
next
  case (3 st)
  then show ?case
    using arith_flush_loop_all [of P st "[]" env us "dict_keys (ar_cache st)"]
    by (simp add: arith_flush_def case_prod_beta)
next
  case (4 st xs s')
  then show ?case
    using arith_flush_loop_all [of P st "[]" env us "dict_keys (ar_cache st)"]
    by (auto simp: arith_flush_def case_prod_beta split: if_splits)
qed

text \<open>
  A flush takes the resources that have all their meters out of the cache, each once, and
  leaves the others as they are.
\<close>

lemma check_requirements_other:
  "r \<noteq> r' \<Longrightarrow> check_requirements (st\<lparr>ar_cache := dict_del r (ar_cache st)\<rparr>) r' = check_requirements st r'"
  by (simp add: check_requirements_def resource_cache_def dict_get_default_def required_meters_def delete_conv')

lemma calculate_other:
  "r \<noteq> r' \<Longrightarrow> calculate env u (st\<lparr>ar_cache := dict_del r (ar_cache st)\<rparr>) r' = calculate env u st r'"
proof -
  assume ne: "r \<noteq> r'"
  let ?st = "st\<lparr>ar_cache := dict_del r (ar_cache st)\<rparr>"
  have res: "resource_cache ?st r' = resource_cache st r'"
    using ne by (simp add: resource_cache_def dict_get_default_def delete_conv')
  have req: "required_meters ?st = required_meters st" by (simp add: required_meters_def)
  show ?thesis unfolding calculate_def res req by (simp split: sum.split option.split)
qed

lemma in_enumerate: "(i, x) \<in> set (enumerate n xs) \<Longrightarrow> x \<in> set xs"
  by (auto simp: enumerate_eq_zip dest: set_zip_rightD)

definition ready :: "arith \<Rightarrow> string list \<Rightarrow> string list" where
  "ready st rs = filter (check_requirements st) rs"

lemma arith_flush_loop_ready:
  "distinct rs \<Longrightarrow>
   ar_cache (fst (arith_flush_loop env us rs st out)) = filter (\<lambda>(r, c). r \<notin> set (ready st rs)) (ar_cache st)
   \<and> snd (arith_flush_loop env us rs st out) =
       out @ map (\<lambda>(i, r). calculate env (us i) st r) (enumerate (length out) (ready st rs))"
proof (induction rs arbitrary: st out)
  case Nil
  then show ?case by (simp add: ready_def)
next
  case (Cons r rs)
  show ?case
  proof (cases "check_requirements st r")
    case False
    with Cons show ?thesis by (simp add: ready_def)
  next
    case True
    let ?st = "st\<lparr>ar_cache := dict_del r (ar_cache st)\<rparr>" and ?out = "out @ [calculate env (us (length out)) st r]"
    have other: "check_requirements ?st x = check_requirements st x" "calculate env u ?st x = calculate env u st x"
      if "x \<in> set rs" for x u
      using that Cons.prems by (auto intro!: check_requirements_other calculate_other)
    have ready: "ready ?st rs = ready st rs" unfolding ready_def using other(1) by (intro filter_cong) auto
    have all: "ready st (r # rs) = r # ready st rs" using True by (simp add: ready_def)
    have calc: "map (\<lambda>(i, r). calculate env (us i) ?st r) (enumerate (length ?out) (ready st rs))
        = map (\<lambda>(i, r). calculate env (us i) st r) (enumerate (Suc (length out)) (ready st rs))"
      by (rule map_cong) (auto simp: ready_def dest!: in_enumerate intro!: other(2))
    have cache: "filter (\<lambda>(x, c). x \<notin> set (ready st rs)) (dict_del r (ar_cache st))
        = filter (\<lambda>(x, c). x \<notin> set (ready st (r # rs))) (ar_cache st)"
      by (auto simp: all AList.delete_eq intro!: filter_cong)
    have "distinct rs" using Cons.prems by simp
    note IH = Cons.IH [OF this, of ?st ?out]
    have cache0: "ar_cache ?st = dict_del r (ar_cache st)" by simp
    show ?thesis
      using IH [unfolded ready calc cache0 cache] True by (simp add: all)
  qed
qed

section \<open>Properties\<close>

text \<open>
  Escaping turns every meter name into something the expression can use: no dot is left,
  the result is no keyword, and it is the name itself or the name between an underscore and
  \<open>_ESC\<close>. Two names that are escaped alike differ at most in dots and underscores.
\<close>

theorem escape_sound:
  "CHR ''.'' \<notin> set (escape n) \<and> escape n \<notin> set kwlist
   \<and> (escape n = n \<or> escape n = ''_'' @ undot n @ ''_ESC'')
   \<and> (undot m \<noteq> undot n \<longrightarrow> escape m \<noteq> escape n)"
  using escape_no_dot escape_not_keyword escape_cases [of n] escape_eq [of m n] undot_id by metis

theorem escape_sound_witness:
  "escape ''disk.read'' \<noteq> escape ''disk.write'' \<and> escape ''if'' \<notin> set kwlist"
proof -
  have "undot ''disk.write'' \<noteq> undot ''disk.read''" by code_simp
  then show ?thesis using escape_sound [of "''disk.read''" "''disk.write''"] escape_sound [of "''if''"] by auto
qed

text \<open>
  Names that differ in the place of a dot and an underscore do collide: their samples
  share one place in the cache.
\<close>

theorem escape_collides:
  "escape (x @ ''.'' @ y @ ''_'' @ z) = escape (x @ ''_'' @ y @ ''.'' @ z)"
  by (simp add: escape_def undot_def replace_char_def)

text \<open>
  A flush of the arithmetic transformer yields one result for every resource whose cache
  holds all required meters, in the order of the cache; these resources leave the cache and all
  others stay. A transformer whose expression names no meter yields nothing.
\<close>

theorem arithmetic_flush_ready:
  assumes "dict_ok (ar_cache st)"
  shows "snd (arith_flush env us st) = Inr (if misconfigured st then []
      else map (\<lambda>(i, r). calculate env (us i) st r) (enumerate 0 (ready st (dict_keys (ar_cache st)))))
    \<and> ar_cache (fst (arith_flush env us st)) = (if misconfigured st then ar_cache st
      else filter (\<lambda>(r, c). \<not> check_requirements st r) (ar_cache st))"
proof -
  have d: "distinct (dict_keys (ar_cache st))" using assms by (simp add: dict_ok_def)
  have "filter (\<lambda>(r, c). r \<notin> set (ready st (dict_keys (ar_cache st)))) (ar_cache st)
      = filter (\<lambda>(r, c). \<not> check_requirements st r) (ar_cache st)"
    by (rule filter_cong) (force simp: ready_def)+
  with arith_flush_loop_ready [OF d, of env us st "[]"] show ?thesis
    by (simp add: arith_flush_def case_prod_beta)
qed

definition demo_arith :: arith where
  "demo_arith = (arith_init None None None ''$(cpu) + 1'')
     \<lparr>ar_cache := [(''vm'', [(''cpu'', demo_sample)]), (''x'', [])]\<rparr>"

definition failing_env :: tenv where
  "failing_env = \<lparr>parse_isotime = \<lambda>s. Inr 0, eval_expr = \<lambda>e ns. Inl ZeroDivisionError,
     re_sub = \<lambda>f t v. Inr v, source_default = ''s''\<rparr>"

theorem arithmetic_flush_ready_witness:
  "snd (arith_flush failing_env (\<lambda>i. ''u'') demo_arith) = Inr [None]
   \<and> dict_keys (ar_cache (fst (arith_flush failing_env (\<lambda>i. ''u'') demo_arith))) = [''x'']"
proof -
  have "dict_ok (ar_cache demo_arith)" by (simp add: demo_arith_def dict_ok_def)
  note P = arithmetic_flush_ready [OF this, of failing_env "\<lambda>i. ''u''"]
  have chk: "check_requirements demo_arith ''vm''" "\<not> check_requirements demo_arith ''x''" "\<not> misconfigured demo_arith"
    by code_simp+
  have cache: "ar_cache demo_arith = [(''vm'', [(''cpu'', demo_sample)]), (''x'', [])]"
    by (simp add: demo_arith_def)
  have "ready demo_arith (dict_keys (ar_cache demo_arith)) = [''vm'']" using chk by (simp add: ready_def cache)
  moreover have "calculate failing_env ''u'' demo_arith ''vm'' = None"
    by (simp add: calculate_def failing_env_def)
  ultimately show ?thesis using P chk cache by simp
qed

end
