(* ===== verification/Pipeline_Run.thy ===== *)
theory Pipeline_Run
  imports Pipeline_Manager Aggregator Arithmetic
begin

text \<open>
  The running half of \<^verbatim>\<open>ceilometer/pipeline.py\<close>: samples through the transformers of a sink
  to its publishers, flushing, the publish context over all pipelines, and the endpoint that
  receives sample messages. Publishers act on a world \<open>'w\<close>: \<open>pub p xs w\<close> is the new world
  and whether publisher \<open>p\<close> raised.
\<close>

section \<open>Transformers\<close>

datatype transformer =
    TAccumulator accumulator
  | TDelta delta
  | TScaling conv_cfg
  | TRate rate
  | TAggregator aggregator
  | TArithmetic arith

text \<open>
  The environment of a run: that of the transformers, a UUID for the \<open>n\<close>-th call into the
  sink at position \<open>i\<close>, and the clock at the \<open>n\<close>-th call.
\<close>

record renv =
  r_env :: tenv
  uuid1 :: "nat \<Rightarrow> nat \<Rightarrow> string"
  utcnow :: "nat \<Rightarrow> int"

definition lift_t :: "('st \<Rightarrow> transformer) \<Rightarrow> ('st, 'a) sres \<Rightarrow> (transformer, 'a) sres" where
  "lift_t C x = (C (fst x), snd x)"

fun t_handle :: "renv \<Rightarrow> nat \<Rightarrow> nat \<Rightarrow> transformer \<Rightarrow> sample \<Rightarrow> (transformer, sample option) sres" where
  "t_handle env n i (TAccumulator a) s = lift_t TAccumulator (acc_handle a s)"
| "t_handle env n i (TDelta d) s = lift_t TDelta (delta_handle (r_env env) (uuid1 env n i) d s)"
| "t_handle env n i (TScaling c) s = lift_t TScaling (scaling_handle (r_env env) (uuid1 env n i) c s)"
| "t_handle env n i (TRate r) s = lift_t TRate (rate_handle (r_env env) (uuid1 env n i) r s)"
| "t_handle env n i (TAggregator a) s = lift_t TAggregator (agg_handle (r_env env) (uuid1 env n i) a s)"
| "t_handle env n i (TArithmetic a) s = lift_t TArithmetic (arith_handle a s)"

text \<open>
  What \<open>handle_sample\<close> does with the \<open>None\<close> a failed calculation leaves in a flush: every
  transformer but the accumulator reads an attribute of it; the aggregator has counted it by
  then when it holds samples.
\<close>

fun t_handle_none :: "transformer \<Rightarrow> (transformer, sample option) sres" where
  "t_handle_none (TAccumulator a) = lift_t TAccumulator (acc_add a None)"
| "t_handle_none (TAggregator a) =
     (TAggregator (if a_initial a = None then a else a\<lparr>a_count := Suc (a_count a)\<rparr>),
      Inl (AttributeError ''NoneType''))"
| "t_handle_none t = (t, Inl (AttributeError ''NoneType''))"

fun t_flush :: "renv \<Rightarrow> nat \<Rightarrow> transformer \<Rightarrow> (transformer, sample option list) sres" where
  "t_flush env n (TAccumulator a) = lift_t TAccumulator (acc_flush a)"
| "t_flush env n (TAggregator a) = lift_t TAggregator (agg_flush (utcnow env n) a)"
| "t_flush env n (TArithmetic a) = lift_t TArithmetic (arith_flush (r_env env) (uuid1 env n) a)"
| "t_flush env n t = base_flush t"

definition GROUPING_KEYS :: "transformer \<Rightarrow> string list" where
  "GROUPING_KEYS t = [''resource_id'']"

definition t_all :: "(string \<Rightarrow> bool) \<Rightarrow> transformer \<Rightarrow> bool" where
  "t_all P t =
     (case t of
        TAccumulator a \<Rightarrow> acc_all (\<lambda>s. P (s_resource_id s)) a
      | TAggregator a \<Rightarrow> agg_all P a
      | TArithmetic a \<Rightarrow> arith_all P a
      | _ \<Rightarrow> True)"

lemma lift_t_simps [simp]: "fst (lift_t C x) = C (fst x)" "snd (lift_t C x) = snd x"
  by (simp_all add: lift_t_def)

text \<open>Every transformer of the program satisfies the contract.\<close>

interpretation any: transformer_contract "t_handle env n i" "t_flush env n" "t_all P"
  "\<lambda>s. P (s_resource_id s)" for env n i P
proof (unfold_locales, goal_cases)
  case (1 st s)
  then show ?case
    by (cases st)
      (auto simp: t_all_def
        intro: accumulator.handle_inv [where P = "\<lambda>s. P (s_resource_id s)"]
          aggregator.handle_inv arithmetic.handle_inv)
next
  case (2 st s s')
  then show ?case
    by (cases st)
      (auto simp: t_all_def
        dest: accumulator.handle_good [where P = "\<lambda>s. P (s_resource_id s)"]
          delta.handle_good [where P = P, OF TrueI] scaling.handle_good [where P = P, OF TrueI]
          rate.handle_good [where P = P, OF TrueI]
          aggregator.handle_good [where P = P] arithmetic.handle_good [where P = P])
next
  case (3 st)
  then show ?case
    by (cases st)
      (auto simp: t_all_def base_flush_def
        intro: accumulator.flush_inv [where P = "\<lambda>s. P (s_resource_id s)"]
          aggregator.flush_inv arithmetic.flush_inv)
next
  case (4 st xs s')
  then show ?case
    by (cases st)
      (auto simp: t_all_def base_flush_def
        dest: accumulator.flush_good [where P = "\<lambda>s. P (s_resource_id s)"]
          aggregator.flush_good [where P = P] arithmetic.flush_good [where P = P])
qed

lemma t_handle_none_all: "t_all P t \<Longrightarrow> t_all P (fst (t_handle_none t))"
  by (cases t) (auto simp: t_all_def acc_add_def acc_all_def agg_all_def split: option.splits)

lemma t_handle_none_out: "snd (t_handle_none t) \<noteq> Inr (Some s)"
  by (cases t) (auto simp: acc_add_def split: option.splits)

section \<open>Through the chain\<close>

text \<open>
  \<open>_transform_sample\<close>: the transformers from \<open>start\<close> on, one after the other. An exception
  is logged and drops the sample, like a transformer that returns nothing.
\<close>

fun transform_sample ::
  "renv \<Rightarrow> nat \<Rightarrow> transformer list \<Rightarrow> sample option \<Rightarrow> transformer list \<times> sample option" where
  "transform_sample env n [] s = ([], s)"
| "transform_sample env n (t # ts) s =
     (case (case s of Some x \<Rightarrow> t_handle env n (length ts) t x | None \<Rightarrow> t_handle_none t) of
        (t', Inr (Some s')) \<Rightarrow>
          (let (ts', out) = transform_sample env n ts (Some s') in (t' # ts', out))
      | (t', _) \<Rightarrow> (t' # ts, None))"

fun transform_all ::
  "renv \<Rightarrow> nat \<Rightarrow> transformer list \<Rightarrow> sample option list \<Rightarrow> nat \<times> transformer list \<times> sample list" where
  "transform_all env n ts [] = (n, ts, [])"
| "transform_all env n ts (s # ss) =
     (let (ts1, out) = transform_sample env n ts s;
          (n', ts2, outs) = transform_all env (Suc n) ts1 ss
      in (n', ts2, (case out of None \<Rightarrow> outs | Some x \<Rightarrow> x # outs)))"

lemma transform_sample_all:
  "list_all (t_all P) ts \<Longrightarrow> (\<And>x. s = Some x \<Longrightarrow> P (s_resource_id x)) \<Longrightarrow>
   list_all (t_all P) (fst (transform_sample env n ts s))
   \<and> (\<forall>x. snd (transform_sample env n ts s) = Some x \<longrightarrow> P (s_resource_id x))"
proof (induction ts arbitrary: s)
  case (Cons t ts)
  define r where "r = (case s of Some x \<Rightarrow> t_handle env n (length ts) t x | None \<Rightarrow> t_handle_none t)"
  have t: "t_all P (fst r)"
    using Cons.prems any.handle_inv [of P t _ env n "length ts"] t_handle_none_all [of P t]
    by (auto simp: r_def split: option.split)
  have out: "P (s_resource_id x)" if "snd r = Inr (Some x)" for x
    using that Cons.prems any.handle_good [of P t _ env n "length ts" x] t_handle_none_out [of t x]
    by (auto simp: r_def split: option.splits)
  show ?case
  proof (cases "\<exists>x. snd r = Inr (Some x)")
    case True
    then obtain x where x: "snd r = Inr (Some x)" by blast
    then have r: "r = (fst r, Inr (Some x))" by (metis prod.collapse)
    have "list_all (t_all P) (fst (transform_sample env n ts (Some x)))
      \<and> (\<forall>y. snd (transform_sample env n ts (Some x)) = Some y \<longrightarrow> P (s_resource_id y))"
      using Cons.prems(1) out [OF x] by (intro Cons.IH) auto
    with t show ?thesis
      by (subst (1 2) transform_sample.simps, fold r_def, subst (1 2) r)
        (simp add: case_prod_beta Let_def)
  next
    case False
    then have "transform_sample env n (t # ts) s = (fst r # ts, None)"
      by (simp add: r_def [symmetric] case_prod_beta split: sum.split option.split)
    with t Cons.prems(1) show ?thesis by simp
  qed
qed auto

lemma transform_all_all:
  "list_all (t_all P) ts \<Longrightarrow> (\<And>x. Some x \<in> set ss \<Longrightarrow> P (s_resource_id x)) \<Longrightarrow>
   list_all (t_all P) (fst (snd (transform_all env n ts ss)))
   \<and> (\<forall>x \<in> set (snd (snd (transform_all env n ts ss))). P (s_resource_id x))"
proof (induction ss arbitrary: n ts)
  case (Cons s ss)
  let ?r = "transform_sample env n ts s"
  have r: "list_all (t_all P) (fst ?r) \<and> (\<forall>x. snd ?r = Some x \<longrightarrow> P (s_resource_id x))"
    using Cons.prems by (intro transform_sample_all) auto
  have "list_all (t_all P) (fst (snd (transform_all env (Suc n) (fst ?r) ss)))
    \<and> (\<forall>x \<in> set (snd (snd (transform_all env (Suc n) (fst ?r) ss))). P (s_resource_id x))"
    using r Cons.prems(2) by (intro Cons.IH) auto
  with r show ?case by (auto simp: case_prod_beta Let_def split: option.split)
qed simp

lemma transform_sample_length [simp]: "length (fst (transform_sample env n ts s)) = length ts"
  by (induction ts arbitrary: s)
    (auto simp: case_prod_beta Let_def split: sum.split option.split)

lemma transform_all_length [simp]: "length (fst (snd (transform_all env n ts ss))) = length ts"
  by (induction ss arbitrary: n ts) (simp_all add: case_prod_beta Let_def)

section \<open>Sinks\<close>

type_synonym ('pub, 'a, 'w) publish = "'pub \<Rightarrow> 'a list \<Rightarrow> 'w \<Rightarrow> 'w \<times> unit res"

text \<open>Every publisher is called; what it raises is logged.\<close>

definition deliver :: "('pub, 'a, 'w) publish \<Rightarrow> 'pub list \<Rightarrow> 'a list \<Rightarrow> 'w \<Rightarrow> 'w" where
  "deliver pub ps xs w = (if xs = [] then w else fold (\<lambda>p w. fst (pub p xs w)) ps w)"

type_synonym 'pub ssink = "(transformer, 'pub) sink"

text \<open>
  \<open>_publish_samples(start, samples)\<close>. Without transformers the samples go through as they
  are; they come from the pipeline then, and none is \<open>None\<close>.
\<close>

definition publish_from ::
  "renv \<Rightarrow> ('pub, sample, 'w) publish \<Rightarrow> nat \<Rightarrow> sample option list \<Rightarrow> 'pub ssink \<Rightarrow> 'w \<Rightarrow> 'pub ssink \<times> 'w" where
  "publish_from env pub start ss sk w =
     (if sk_transformers sk = [] then (sk, deliver pub (sk_publishers sk) (List.map_filter id ss) w)
      else
        (let (n, ts, out) = transform_all env (sk_calls sk) (drop start (sk_transformers sk)) ss
         in (sk\<lparr>sk_transformers := take start (sk_transformers sk) @ ts, sk_calls := n\<rparr>,
             deliver pub (sk_publishers sk) out w)))"

definition sink_publish_samples ::
  "renv \<Rightarrow> ('pub, sample, 'w) publish \<Rightarrow> sample list \<Rightarrow> 'pub ssink \<Rightarrow> 'w \<Rightarrow> 'pub ssink \<times> 'w" where
  "sink_publish_samples env pub ss = publish_from env pub 0 (map Some ss)"

text \<open>One step of \<open>flush\<close>: transformer \<open>i\<close> is flushed into the ones after it.\<close>

definition flush_step ::
  "renv \<Rightarrow> ('pub, sample, 'w) publish \<Rightarrow> nat \<Rightarrow> 'pub ssink \<times> 'w \<Rightarrow> 'pub ssink \<times> 'w" where
  "flush_step env pub i skw =
     (let (sk, w) = skw;
          (t', r) = t_flush env (sk_calls sk) (sk_transformers sk ! i);
          sk1 = sk\<lparr>sk_transformers := (sk_transformers sk)[i := t'], sk_calls := Suc (sk_calls sk)\<rparr>
      in case r of
           Inl e \<Rightarrow> (sk1, w)
         | Inr ss \<Rightarrow> publish_from env pub (Suc i) ss sk1 w)"

definition sink_flush ::
  "renv \<Rightarrow> ('pub, sample, 'w) publish \<Rightarrow> 'pub ssink \<Rightarrow> 'w \<Rightarrow> 'pub ssink \<times> 'w" where
  "sink_flush env pub sk w = fold (flush_step env pub) [0..<length (sk_transformers sk)] (sk, w)"

text \<open>
  Event sinks have no transformers to flush; with a single publisher its exception is raised
  again.
\<close>

fun publish_events_loop ::
  "bool \<Rightarrow> ('pub, 'ev, 'w) publish \<Rightarrow> 'pub list \<Rightarrow> 'ev list \<Rightarrow> 'w \<Rightarrow> 'w \<times> unit res" where
  "publish_events_loop multi pub [] evs w = (w, Inr ())"
| "publish_events_loop multi pub (p # ps) evs w =
     (case pub p evs w of
        (w', Inr _) \<Rightarrow> publish_events_loop multi pub ps evs w'
      | (w', Inl e) \<Rightarrow> (if multi then publish_events_loop multi pub ps evs w' else (w', Inl e)))"

definition sink_publish_events ::
  "('pub, 'ev, 'w) publish \<Rightarrow> ('tr, 'pub) sink \<Rightarrow> 'ev list \<Rightarrow> 'w \<Rightarrow> 'w \<times> unit res" where
  "sink_publish_events pub sk evs w =
     (if evs = [] then (w, Inr ())
      else publish_events_loop (sk_multi_publish sk) pub (sk_publishers sk) evs w)"

lemma publish_events_loop_multi:
  "publish_events_loop True pub ps evs w = (fold (\<lambda>p w. fst (pub p evs w)) ps w, Inr ())"
  by (induction ps arbitrary: w) (auto split: prod.split sum.split)

section \<open>Pipelines\<close>

text \<open>
  \<open>_validate_volume\<close>: no volume or text that is no number drops the sample; \<open>float\<close> of
  anything else (a list, say) raises \<open>TypeError\<close>, which is not caught.
\<close>

definition validate_volume :: "sample \<Rightarrow> bool res" where
  "validate_volume s =
     (if s_volume s = PNone then Inr False
      else if is_number (s_volume s) then Inr True
      else (case py_float (s_volume s) of
          Inr f \<Rightarrow> Inr True
        | Inl e \<Rightarrow> (if e = ValueError then Inr False else Inl e)))"

definition accepts :: "matcher \<Rightarrow> source \<Rightarrow> sample \<Rightarrow> bool res" where
  "accepts fnm src s =
     (if support_meter fnm src (s_name s) then validate_volume s else Inr False)"

type_synonym 'pub store = "(string, 'pub ssink) pydict"

definition with_sink ::
  "string \<Rightarrow> ('pub ssink \<Rightarrow> 'w \<Rightarrow> 'pub ssink \<times> 'w) \<Rightarrow> 'pub store \<times> 'w \<Rightarrow> 'pub store \<times> 'w" where
  "with_sink name f st =
     (case dict_get (fst st) name of
        None \<Rightarrow> st
      | Some sk \<Rightarrow> (let (sk', w') = f sk (snd st) in (dict_set name sk' (fst st), w')))"

text \<open>\<open>SamplePipeline.publish_data\<close>\<close>

definition publish_data ::
  "renv \<Rightarrow> matcher \<Rightarrow> ('pub, sample, 'w) publish \<Rightarrow> sample list \<Rightarrow> pipeline \<Rightarrow> 'pub store \<times> 'w \<Rightarrow>
   ('pub store \<times> 'w) \<times> unit res" where
  "publish_data env fnm pub ss pipe st =
     (case filterr (accepts fnm (p_source pipe)) ss of
        Inl e \<Rightarrow> (st, Inl e)
      | Inr supported \<Rightarrow>
          (with_sink (p_sink pipe) (sink_publish_samples env pub supported) st, Inr ()))"

text \<open>
  The publish context: entering gives the function that hands the data to the pipelines one
  after the other, where an exception ends the loop; leaving flushes every pipeline, after an
  exception too.
\<close>

fun publish_all ::
  "renv \<Rightarrow> matcher \<Rightarrow> ('pub, sample, 'w) publish \<Rightarrow> sample list \<Rightarrow> pipeline list \<Rightarrow> 'pub store \<times> 'w \<Rightarrow>
   ('pub store \<times> 'w) \<times> unit res" where
  "publish_all env fnm pub ss [] st = (st, Inr ())"
| "publish_all env fnm pub ss (p # ps) st =
     (case publish_data env fnm pub ss p st of
        (st', Inl e) \<Rightarrow> (st', Inl e)
      | (st', Inr _) \<Rightarrow> publish_all env fnm pub ss ps st')"

definition flush_all ::
  "renv \<Rightarrow> ('pub, sample, 'w) publish \<Rightarrow> pipeline list \<Rightarrow> 'pub store \<times> 'w \<Rightarrow> 'pub store \<times> 'w" where
  "flush_all env pub ps st = fold (\<lambda>p. with_sink (p_sink p) (sink_flush env pub)) ps st"

definition publish_context ::
  "renv \<Rightarrow> matcher \<Rightarrow> ('pub, sample, 'w) publish \<Rightarrow> pipeline list \<Rightarrow> sample list \<Rightarrow> 'pub store \<times> 'w \<Rightarrow>
   ('pub store \<times> 'w) \<times> unit res" where
  "publish_context env fnm pub ps ss st =
     (let (st1, r) = publish_all env fnm pub ss ps st in (flush_all env pub ps st1, r))"

section \<open>The sample endpoint\<close>

definition str_field :: "pymap \<Rightarrow> string \<Rightarrow> string res" where
  "str_field m k = bindr (dict_item m k) (\<lambda>v. case v of PStr s \<Rightarrow> Inr s | _ \<Rightarrow> Inl TypeError)"

definition opt_str_field :: "pymap \<Rightarrow> string \<Rightarrow> string option res" where
  "opt_str_field m k =
     bindr (dict_item m k) (\<lambda>v. case v of PStr s \<Rightarrow> Inr (Some s) | PNone \<Rightarrow> Inr None | _ \<Rightarrow> Inl TypeError)"

definition dict_field :: "pymap \<Rightarrow> string \<Rightarrow> pymap res" where
  "dict_field m k =
     bindr (dict_item m k) (\<lambda>v. case v of PDict d \<Rightarrow> Inr d | PNone \<Rightarrow> Inr [] | _ \<Rightarrow> Inl TypeError)"

definition opt_source :: "pyval \<Rightarrow> string option" where
  "opt_source v = (case v of PStr s \<Rightarrow> Some s | _ \<Rightarrow> None)"

text \<open>
  The sample of a message, as \<open>meter_message_from_counter\<close> wrote it: text in the text
  fields, text or \<open>None\<close> in the optional ones (anything else is \<open>TypeError\<close> here).
\<close>

definition sample_of_message :: "string \<Rightarrow> string \<Rightarrow> pymap \<Rightarrow> sample res" where
  "sample_of_message src_default uuid m =
     bindr (str_field m ''counter_name'') (\<lambda>name.
     bindr (str_field m ''counter_type'') (\<lambda>type.
     bindr (str_field m ''counter_unit'') (\<lambda>unit.
     bindr (dict_item m ''counter_volume'') (\<lambda>volume.
     bindr (opt_str_field m ''user_id'') (\<lambda>user_id.
     bindr (opt_str_field m ''project_id'') (\<lambda>project_id.
     bindr (str_field m ''resource_id'') (\<lambda>resource_id.
     bindr (opt_str_field m ''timestamp'') (\<lambda>timestamp.
     bindr (dict_field m ''resource_metadata'') (\<lambda>resource_metadata.
       Inr (new_sample src_default uuid name type unit volume user_id project_id resource_id timestamp
              resource_metadata (opt_source (dict_get_default m ''source'' PNone)) None
              (dict_get_default m ''monotonic_time'' PNone)))))))))))"

text \<open>\<open>sorted(samples, key=methodcaller('get_iso_timestamp'))\<close>, a stable sort.\<close>

definition sort_samples :: "tenv \<Rightarrow> sample list \<Rightarrow> sample list res" where
  "sort_samples env ss =
     bindr (mapr (sample_time env) ss) (\<lambda>ts. Inr (map snd (sort_key fst (zip ts ss))))"

definition endpoint_samples ::
  "tenv \<Rightarrow> (string \<Rightarrow> string \<Rightarrow> string) \<Rightarrow> (pyval \<Rightarrow> string) \<Rightarrow> string \<Rightarrow> (nat \<Rightarrow> string) \<Rightarrow>
   pymap list list \<Rightarrow> sample list res" where
  "endpoint_samples env hmac rp secret uuids messages =
     bindr (filterr (\<lambda>m. verify_signature hmac rp m secret) (concat messages)) (\<lambda>ms.
     bindr (mapr (\<lambda>(i, m). sample_of_message (source_default env) (uuids i) m) (zip [0..<length ms] ms))
       (sort_samples env))"

text \<open>
  \<open>SamplePipelineEndpoint.sample\<close>: the payloads of the batch, each verified and rebuilt, in
  the order of their timestamps, through the pipeline of the endpoint. All are verified before
  the first is rebuilt; when several of them raise, the code may raise another one's exception.
\<close>

definition sample_endpoint ::
  "renv \<Rightarrow> matcher \<Rightarrow> ('pub, sample, 'w) publish \<Rightarrow> (string \<Rightarrow> string \<Rightarrow> string) \<Rightarrow> (pyval \<Rightarrow> string) \<Rightarrow>
   string \<Rightarrow> (nat \<Rightarrow> string) \<Rightarrow> pipeline \<Rightarrow> pymap list list \<Rightarrow> 'pub store \<times> 'w \<Rightarrow>
   ('pub store \<times> 'w) \<times> unit res" where
  "sample_endpoint env fnm pub hmac rp secret uuids pipe messages st =
     (case endpoint_samples (r_env env) hmac rp secret uuids messages of
        Inl e \<Rightarrow> (st, Inl e)
      | Inr ss \<Rightarrow> publish_context env fnm pub [pipe] ss st)"

section \<open>Publishers that keep a log\<close>

text \<open>
  A log of what publishers were called with; \<open>outcome\<close> decides which calls raise.
\<close>

definition logging :: "('pub \<Rightarrow> 'a list \<Rightarrow> unit res) \<Rightarrow> ('pub, 'a, ('pub \<times> 'a list) list) publish" where
  "logging outcome p xs w = (w @ [(p, xs)], outcome p xs)"

lemma deliver_logging:
  "deliver (logging outcome) ps xs w = w @ (if xs = [] then [] else map (\<lambda>p. (p, xs)) ps)"
proof -
  have "fold (\<lambda>p w. fst (logging outcome p xs w)) ps w = w @ map (\<lambda>p. (p, xs)) ps"
    by (induction ps arbitrary: w) (simp_all add: logging_def)
  then show ?thesis by (simp add: deliver_def)
qed

section \<open>What reaches the publishers\<close>

definition sinks_all :: "(string \<Rightarrow> bool) \<Rightarrow> 'pub store \<Rightarrow> bool" where
  "sinks_all P store \<longleftrightarrow> (\<forall>(n, sk) \<in> set store. list_all (t_all P) (sk_transformers sk))"

definition log_all :: "(string \<Rightarrow> bool) \<Rightarrow> ('pub \<times> sample list) list \<Rightarrow> bool" where
  "log_all P w \<longleftrightarrow> (\<forall>(p, xs) \<in> set w. \<forall>x \<in> set xs. P (s_resource_id x))"

lemma deliver_all:
  "log_all P w \<Longrightarrow> (\<forall>x \<in> set xs. P (s_resource_id x)) \<Longrightarrow> log_all P (deliver (logging outcome) ps xs w)"
  by (auto simp: deliver_logging log_all_def)

lemma publish_from_all:
  assumes "list_all (t_all P) (sk_transformers sk)" "\<And>x. Some x \<in> set ss \<Longrightarrow> P (s_resource_id x)" "log_all P w"
  shows "list_all (t_all P) (sk_transformers (fst (publish_from env (logging outcome) start ss sk w)))
    \<and> log_all P (snd (publish_from env (logging outcome) start ss sk w))"
proof (cases "sk_transformers sk = []")
  case True
  have "P (s_resource_id x)" if "x \<in> set (List.map_filter id ss)" for x
    using that assms(2) by (auto simp: List.map_filter_def)
  then show ?thesis using True assms(3) by (simp add: publish_from_def deliver_all)
next
  case False
  let ?r = "transform_all env (sk_calls sk) (drop start (sk_transformers sk)) ss"
  have "list_all (t_all P) (drop start (sk_transformers sk))" "list_all (t_all P) (take start (sk_transformers sk))"
    using assms(1) by (auto simp: list_all_iff dest: in_set_dropD in_set_takeD)
  moreover from this transform_all_all [of P "drop start (sk_transformers sk)" ss env "sk_calls sk"] assms(2)
  have "list_all (t_all P) (fst (snd ?r)) \<and> (\<forall>x \<in> set (snd (snd ?r)). P (s_resource_id x))" by blast
  ultimately show ?thesis
    using False assms(3) by (simp add: publish_from_def case_prod_beta Let_def deliver_all)
qed

lemma flush_step_all:
  assumes "list_all (t_all P) (sk_transformers sk)" "log_all P w" "i < length (sk_transformers sk)"
  shows "list_all (t_all P) (sk_transformers (fst (flush_step env (logging outcome) i (sk, w))))
    \<and> log_all P (snd (flush_step env (logging outcome) i (sk, w)))
    \<and> length (sk_transformers (fst (flush_step env (logging outcome) i (sk, w)))) = length (sk_transformers sk)"
proof -
  let ?t = "sk_transformers sk ! i"
  obtain t' r where f: "t_flush env (sk_calls sk) ?t = (t', r)" by fastforce
  let ?sk = "sk\<lparr>sk_transformers := (sk_transformers sk)[i := t'], sk_calls := Suc (sk_calls sk)\<rparr>"
  have t: "t_all P ?t" using assms(1,3) by (simp add: list_all_length)
  have "t_all P t'" using any.flush_inv [OF t, of env "sk_calls sk"] f by simp
  then have sk: "list_all (t_all P) (sk_transformers ?sk)"
    using assms(1) by (auto simp: list_all_iff dest!: set_update_subsetI subsetD [OF set_update_subset_insert])
  have len: "length (sk_transformers (fst (publish_from env (logging outcome) j ss s w))) = length (sk_transformers s)"
    for j ss and s :: "'a ssink" and w
    by (auto simp: publish_from_def case_prod_beta Let_def)
  show ?thesis
  proof (cases r)
    case (Inl e)
    with f sk assms(2) show ?thesis by (simp add: flush_step_def)
  next
    case (Inr ss)
    have good: "P (s_resource_id x)" if "Some x \<in> set ss" for x
      using any.flush_good [OF t, of env "sk_calls sk" ss x] f Inr that by simp
    from publish_from_all [OF sk good assms(2), of ss env outcome "Suc i"] show ?thesis
      using f Inr len by (simp add: flush_step_def)
  qed
qed

lemma sink_flush_all:
  assumes "list_all (t_all P) (sk_transformers sk)" "log_all P w"
  shows "list_all (t_all P) (sk_transformers (fst (sink_flush env (logging outcome) sk w)))
    \<and> log_all P (snd (sink_flush env (logging outcome) sk w))"
proof -
  have "list_all (t_all P) (sk_transformers (fst skw)) \<Longrightarrow> log_all P (snd skw) \<Longrightarrow>
      (\<And>i. i \<in> set is \<Longrightarrow> i < length (sk_transformers (fst skw))) \<Longrightarrow>
      list_all (t_all P) (sk_transformers (fst (fold (flush_step env (logging outcome)) is skw)))
      \<and> log_all P (snd (fold (flush_step env (logging outcome)) is skw))"
    for "is" and skw :: "'a ssink \<times> ('a \<times> sample list) list"
  proof (induction "is" arbitrary: skw)
    case (Cons i "is")
    have i: "i < length (sk_transformers (fst skw))" using Cons.prems(3) by simp
    let ?s = "flush_step env (logging outcome) i skw"
    have s: "list_all (t_all P) (sk_transformers (fst ?s))" "log_all P (snd ?s)"
      "length (sk_transformers (fst ?s)) = length (sk_transformers (fst skw))"
      using flush_step_all [OF Cons.prems(1,2) i, of env outcome] by simp_all
    have "j < length (sk_transformers (fst ?s))" if "j \<in> set is" for j
      using that Cons.prems(3) s(3) by simp
    from Cons.IH [OF s(1,2) this] show ?case by simp
  qed simp
  from this [of "(sk, w)" "[0..<length (sk_transformers sk)]"] assms show ?thesis
    by (simp add: sink_flush_def)
qed

lemma with_sink_all:
  assumes "sinks_all P (fst st)" "log_all P (snd st)"
    and "\<And>sk w. list_all (t_all P) (sk_transformers sk) \<Longrightarrow> log_all P w \<Longrightarrow>
           list_all (t_all P) (sk_transformers (fst (f sk w))) \<and> log_all P (snd (f sk w))"
  shows "sinks_all P (fst (with_sink n f st)) \<and> log_all P (snd (with_sink n f st))"
proof (cases "dict_get (fst st) n")
  case (Some sk)
  then have "list_all (t_all P) (sk_transformers sk)"
    using assms(1) by (auto simp: sinks_all_def dest!: map_of_SomeD)
  from assms(3) [OF this assms(2)] assms(1) Some show ?thesis
    by (auto simp: with_sink_def sinks_all_def case_prod_beta Let_def dest!: dict_set_memberD)
qed (use assms in \<open>simp add: with_sink_def\<close>)

lemma publish_data_all:
  assumes "sinks_all P (fst st)" "log_all P (snd st)" "\<forall>x \<in> set ss. P (s_resource_id x)"
  shows "sinks_all P (fst (fst (publish_data env fnm (logging outcome) ss pipe st)))
    \<and> log_all P (snd (fst (publish_data env fnm (logging outcome) ss pipe st)))"
proof (cases "filterr (accepts fnm (p_source pipe)) ss")
  case (Inr sup)
  then have "\<forall>x \<in> set sup. P (s_resource_id x)" using assms(3) by (auto dest: filterr_Inr_set)
  then show ?thesis
    using with_sink_all [OF assms(1,2), of "sink_publish_samples env (logging outcome) sup" "p_sink pipe"]
      publish_from_all [of P _ "map Some sup" _ env outcome 0]
    by (auto simp: publish_data_def Inr sink_publish_samples_def)
qed (use assms in \<open>simp add: publish_data_def\<close>)

lemma publish_all_all:
  "sinks_all P (fst st) \<Longrightarrow> log_all P (snd st) \<Longrightarrow> \<forall>x \<in> set ss. P (s_resource_id x) \<Longrightarrow>
   sinks_all P (fst (fst (publish_all env fnm (logging outcome) ss ps st)))
   \<and> log_all P (snd (fst (publish_all env fnm (logging outcome) ss ps st)))"
proof (induction ps arbitrary: st)
  case (Cons p ps)
  obtain st' r where d: "publish_data env fnm (logging outcome) ss p st = (st', r)" by fastforce
  have st': "sinks_all P (fst st')" "log_all P (snd st')"
    using publish_data_all [OF Cons.prems, of env fnm outcome p] d by simp_all
  show ?case using Cons.IH [OF st' Cons.prems(3)] st' by (simp add: d split: sum.split)
qed simp

lemma flush_all_all:
  "sinks_all P (fst st) \<Longrightarrow> log_all P (snd st) \<Longrightarrow>
   sinks_all P (fst (flush_all env (logging outcome) ps st)) \<and> log_all P (snd (flush_all env (logging outcome) ps st))"
  unfolding flush_all_def
proof (induction ps arbitrary: st)
  case (Cons p ps)
  have "sinks_all P (fst (with_sink (p_sink p) (sink_flush env (logging outcome)) st))
    \<and> log_all P (snd (with_sink (p_sink p) (sink_flush env (logging outcome)) st))"
    by (rule with_sink_all [OF Cons.prems]) (rule sink_flush_all)
  then show ?case using Cons.IH by simp
qed simp

section \<open>Properties\<close>

text \<open>
  C11: No sample of a foreign resource reaches a publisher. If the caches of all transformers
  and the samples handed to a publish context concern resources in a set \<open>P\<close> only, then so do
  all samples that any publisher is called with, in the publication and in the flush that ends
  it, and so do the caches afterwards, whatever raises in between.
\<close>

theorem no_foreign_resources:
  assumes "sinks_all P sinks" "\<forall>x \<in> set ss. P (s_resource_id x)"
  shows "\<forall>sinks' log r. publish_context env fnm (logging outcome) pipes ss (sinks, []) = ((sinks', log), r) \<longrightarrow>
    sinks_all P sinks' \<and> log_all P log"
proof -
  obtain st r where p: "publish_all env fnm (logging outcome) ss pipes (sinks, []) = (st, r)" by fastforce
  have "sinks_all P (fst st)" "log_all P (snd st)"
    using publish_all_all [of P "(sinks, [])" ss env fnm outcome pipes] assms p by (simp_all add: log_all_def)
  from flush_all_all [OF this, of env outcome pipes] show ?thesis
    by (auto simp: publish_context_def p)
qed

definition demo_renv :: renv where
  "demo_renv = \<lparr>r_env = demo_tenv, uuid1 = \<lambda>n i. ''u'', utcnow = \<lambda>n. 0\<rparr>"

definition demo_sink :: "string ssink" where
  "demo_sink = \<lparr>sk_name = ''a'', sk_publishers = [''p'', ''q''], sk_multi_publish = True,
     sk_transformers = [TScaling (plain_cfg\<lparr>tgt_scale := PInt 2\<rparr>), TAccumulator (acc_init 1)], sk_calls = 0\<rparr>"

definition demo_pipe :: pipeline where
  "demo_pipe = \<lparr>p_name = ''src:a'', p_source = \<lparr>src_name = ''src'', src_data = [''*''], src_sinks = [''a'']\<rparr>, p_sink = ''a''\<rparr>"

theorem no_foreign_resources_witness:
  "let log = snd (fst (publish_context demo_renv glob (logging (\<lambda>p xs. if p = ''p'' then Inl IOError else Inr ()))
       [demo_pipe] [demo_sample] ([(''a'', demo_sink)], [])))
   in map fst log = [''p'', ''q''] \<and> log_all (\<lambda>r. r = ''vm'') log"
proof -
  let ?log = "logging (\<lambda>p xs. if p = ''p'' then Inl IOError else Inr ())"
  let ?r = "publish_context demo_renv glob ?log [demo_pipe] [demo_sample] ([(''a'', demo_sink)], [])"
  have s: "sinks_all (\<lambda>r. r = ''vm'') [(''a'', demo_sink)]"
    by (simp add: sinks_all_def demo_sink_def t_all_def acc_all_def acc_init_def)
  have x: "\<forall>x \<in> set [demo_sample]. s_resource_id x = ''vm''" by (simp add: demo_sample_def new_sample_def)
  have "map fst (snd (fst ?r)) = [''p'', ''q'']" by code_simp
  moreover have "log_all (\<lambda>r. r = ''vm'') (snd (fst ?r))"
    using no_foreign_resources [OF s x, of demo_renv glob "\<lambda>p xs. if p = ''p'' then Inl IOError else Inr ()" "[demo_pipe]"]
    by (metis prod.collapse)
  ultimately show ?thesis by (simp add: Let_def)
qed

text \<open>
  Publishers are isolated from each other: a sink hands every non-empty batch to each of
  its publishers once, in order, whichever of them raise.
\<close>

theorem publishers_isolated:
  "deliver (logging outcome) ps xs w = w @ (if xs = [] then [] else map (\<lambda>p. (p, xs)) ps)"
  using deliver_logging [of outcome ps xs w] by simp

text \<open>
  An event sink with several publishers hands the events to all of them and never raises.
  With one publisher, what it raises is raised again, so that the endpoint can ask for the
  events once more.
\<close>

theorem event_publish_errors:
  "sink_publish_events (logging outcome) \<lparr>sk_name = n, sk_publishers = ps, sk_multi_publish = (1 < length ps),
       sk_transformers = ts, sk_calls = k\<rparr> (e # es) w
   = (w @ map (\<lambda>p. (p, e # es)) ps,
      (case ps of [p] \<Rightarrow> outcome p (e # es) | _ \<Rightarrow> Inr ()))"
proof (cases ps)
  case (Cons p qs)
  show ?thesis
  proof (cases qs)
    case Nil
    then show ?thesis using Cons
      by (cases "outcome p (e # es)") (simp_all add: sink_publish_events_def logging_def)
  next
    case (Cons q rs)
    have "fold (\<lambda>p w. fst (logging outcome p (e # es) w)) ps w = w @ map (\<lambda>p. (p, e # es)) ps"
      using deliver_logging [of outcome ps "e # es" w] by (simp add: deliver_def)
    then show ?thesis using Cons \<open>ps = p # qs\<close>
      by (simp add: sink_publish_events_def publish_events_loop_multi del: publish_events_loop.simps fold_Cons)
  qed
qed (simp add: sink_publish_events_def)

text \<open>
  The sample endpoint hands over, in the order of their timestamps, the samples of exactly
  the messages whose signature verifies.
\<close>

theorem endpoint_sorted:
  assumes "endpoint_samples env hmac rp secret uuids messages = Inr ss"
  shows "\<exists>ts ms xs. mapr (sample_time env) ss = Inr ts \<and> sorted ts
    \<and> filterr (\<lambda>m. verify_signature hmac rp m secret) (concat messages) = Inr ms
    \<and> mapr (\<lambda>(i, m). sample_of_message (source_default env) (uuids i) m) (zip [0..<length ms] ms) = Inr xs
    \<and> mset ss = mset xs"
proof -
  from assms obtain ms xs where ms: "filterr (\<lambda>m. verify_signature hmac rp m secret) (concat messages) = Inr ms"
      and xs: "mapr (\<lambda>(i, m). sample_of_message (source_default env) (uuids i) m) (zip [0..<length ms] ms) = Inr xs"
      and s: "sort_samples env xs = Inr ss"
    by (auto simp: endpoint_samples_def bindr_Inr_iff)
  from s obtain ts where ts: "mapr (sample_time env) xs = Inr ts" and ss: "ss = map snd (sort_key fst (zip ts xs))"
    by (auto simp: sort_samples_def bindr_Inr_iff)
  have len: "length ts = length xs" using mapr_Inr_length [OF ts] .
  let ?ps = "sort_key fst (zip ts xs)"
  have time: "sample_time env (snd p) = Inr (fst p)" if "p \<in> set ?ps" for p
    using that ts by (auto simp: mapr_Inr_iff list_all2_conv_all_nth set_zip)
  have "mapr (sample_time env) (map snd qs) = Inr (map fst qs)" if "set qs \<subseteq> set ?ps" for qs
    using that by (induction qs) (auto simp: time)
  then have "mapr (sample_time env) ss = Inr (map fst ?ps)" by (simp add: ss)
  moreover have "sorted (map fst ?ps)" by simp
  moreover have "mset ss = mset xs"
  proof -
    have "mset ss = mset (map snd (zip ts xs))" by (simp only: ss mset_map mset_sort)
    then show ?thesis using len by simp
  qed
  ultimately show ?thesis using ms xs by blast
qed

definition demo_messages :: "pymap list list" where
  "demo_messages = [[counter_message (sample_at 3 1)], [counter_message (sample_at 2 5), [(''x'', PNone)]]]"

definition demo_hmac :: "string \<Rightarrow> string \<Rightarrow> string" where
  "demo_hmac k x = ''ab''"

definition demo_signed :: "pymap list list" where
  "demo_signed = map (map (\<lambda>m. if length m < 3 then m else dict_set SIG (PStr ''ab'') m)) demo_messages"

theorem endpoint_sorted_witness:
  "case endpoint_samples demo_tenv demo_hmac (\<lambda>v. ''?'') ''key'' (\<lambda>i. ''u'') demo_signed of
     Inl e \<Rightarrow> False
   | Inr ss \<Rightarrow> map s_volume ss = [PInt 5, PInt 1]
       \<and> (case mapr (sample_time demo_tenv) ss of Inr ts \<Rightarrow> sorted ts | Inl e \<Rightarrow> False)"
proof -
  have "case endpoint_samples demo_tenv demo_hmac (\<lambda>v. ''?'') ''key'' (\<lambda>i. ''u'') demo_signed of
      Inl e \<Rightarrow> False | Inr ss \<Rightarrow> map s_volume ss = [PInt 5, PInt 1]"
    by code_simp
  then obtain ss where ss: "endpoint_samples demo_tenv demo_hmac (\<lambda>v. ''?'') ''key'' (\<lambda>i. ''u'') demo_signed = Inr ss"
      and v: "map s_volume ss = [PInt 5, PInt 1]"
    by (auto split: sum.splits)
  from endpoint_sorted [OF ss] v show ?thesis by (auto simp: ss)
qed

text \<open>
  One message whose signature is not ASCII makes the endpoint fail for the whole batch:
  the handler of \<open>verify_signature\<close> catches \<open>UnicodeDecodeError\<close>, and encoding raises
  \<open>UnicodeEncodeError\<close>.
\<close>

theorem endpoint_bad_signature:
  assumes "m \<in> set (concat messages)" "dict_get m SIG = Some (PStr s)" "\<not> is_ascii s" "secret \<noteq> []"
    and "no_bytes (PDict m)"
  shows "\<exists>e. endpoint_samples env hmac rp secret uuids messages = Inl e"
proof -
  obtain sig where sig: "compute_signature hmac rp m secret = Inr sig"
    using compute_signature_exists [OF assms(5)] by blast
  have bad: "verify_signature hmac rp m secret = Inl UnicodeEncodeError"
    using assms(2-4) sig by (simp add: verify_signature_def dict_get_default_def encode_ascii_def)
  have "\<exists>e. filterr p xs = Inl e" if "x \<in> set xs" "p x = Inl d" for p :: "pymap \<Rightarrow> bool res" and xs x d
    using that by (induction xs) (auto simp: bindr_Inl_iff, metis obj_sumE)
  from this [of m "concat messages" "\<lambda>m. verify_signature hmac rp m secret", OF assms(1) bad] show ?thesis by (auto simp: endpoint_samples_def)
qed

theorem endpoint_bad_signature_witness:
  "\<exists>e. endpoint_samples demo_tenv demo_hmac (\<lambda>v. ''?'') ''key'' (\<lambda>i. ''u'')
     [[dict_set SIG (PStr [CHR 0xE9]) (counter_message demo_sample)], [counter_message demo_sample]] = Inl e"
proof (rule endpoint_bad_signature [where m = "dict_set SIG (PStr [CHR 0xE9]) (counter_message demo_sample)"])
  show "dict_get (dict_set SIG (PStr [CHR 0xE9]) (counter_message demo_sample)) SIG = Some (PStr [CHR 0xE9])"
    by (simp add: dict_get_set)
  show "\<not> is_ascii [CHR 0xE9]" by (simp add: is_ascii_def)
  show "no_bytes (PDict (dict_set SIG (PStr [CHR 0xE9]) (counter_message demo_sample)))"
    by (simp add: counter_message_def demo_sample_def new_sample_def opt_str_def SIG_def)
qed simp_all

end
