(* ===== verification/Pipeline_Transport.thy ===== *)
theory Pipeline_Transport
  imports Pipeline_Run Messaging_Publisher
begin

text \<open>
  The part of \<^verbatim>\<open>ceilometer/pipeline.py\<close> that spreads the pipelines over several agents: the
  transport managers that put every datapoint on the queue of one agent, the event pipelines
  and the endpoint that rebuilds events from messages, the configuration file managers and the
  polling manager.

  Notifiers are values of a type \<open>'n\<close>; \<open>notify n event_type payload w\<close> is the new world and
  whether the notifier raised. The hash of a string is a parameter. A message crosses a queue as
  JSON (\<open>json_wire\<close>): tuples arrive as lists, and values that JSON does not have do not arrive.
\<close>

section \<open>Transport managers\<close>

text \<open>\<open>hash_grouping\<close>: the truthy values of the grouping keys, joined and hashed.\<close>

fun grouping_value :: "pymap \<Rightarrow> string list \<Rightarrow> pyval \<Rightarrow> pyval res" where
  "grouping_value datapoint [] acc = Inr acc"
| "grouping_value datapoint (key # keys) acc =
     (let v = dict_get_default datapoint key PNone in
      bindr (py_add acc (if truthy v then v else PStr [])) (\<lambda>acc'. grouping_value datapoint keys acc'))"

definition hash_grouping :: "(pyval \<Rightarrow> int) \<Rightarrow> pymap \<Rightarrow> string list \<Rightarrow> int res" where
  "hash_grouping hash datapoint grouping_keys =
     bindr (grouping_value datapoint grouping_keys (PStr [])) (\<lambda>v. Inr (hash v))"

record 'n transporter =
  d_filter :: "pyval \<Rightarrow> bool res"
  grouping_keys :: "string list"
  notifiers :: "'n list"

type_synonym ('n, 'w) notify = "'n \<Rightarrow> string \<Rightarrow> pymap list \<Rightarrow> 'w \<Rightarrow> 'w \<times> unit res"

text \<open>The notifier a transporter picks for a datapoint, if its filter takes it.\<close>

definition pick_notifier ::
  "(pyval \<Rightarrow> int) \<Rightarrow> string \<Rightarrow> pymap \<Rightarrow> 'n transporter \<Rightarrow> 'n option res" where
  "pick_notifier hash filter_attr data tr =
     bindr (dict_item data filter_attr) (\<lambda>v.
     bindr (d_filter tr v) (\<lambda>wanted.
       if \<not> wanted then Inr None
       else bindr (hash_grouping hash data (grouping_keys tr)) (\<lambda>h.
         if notifiers tr = [] then Inl ZeroDivisionError
         else Inr (Some (notifiers tr ! nat (h mod int (length (notifiers tr))))))))"

fun transport_point ::
  "(pyval \<Rightarrow> int) \<Rightarrow> ('n, 'w) notify \<Rightarrow> string \<Rightarrow> string \<Rightarrow> pymap \<Rightarrow> 'n transporter list \<Rightarrow> 'w \<Rightarrow> 'w \<times> unit res" where
  "transport_point hash notify filter_attr event_type data [] w = (w, Inr ())"
| "transport_point hash notify filter_attr event_type data (tr # trs) w =
     (case pick_notifier hash filter_attr data tr of
        Inl e \<Rightarrow> (w, Inl e)
      | Inr None \<Rightarrow> transport_point hash notify filter_attr event_type data trs w
      | Inr (Some n) \<Rightarrow>
          (case notify n event_type [data] w of
             (w', Inl e) \<Rightarrow> (w', Inl e)
           | (w', Inr _) \<Rightarrow> transport_point hash notify filter_attr event_type data trs w'))"

text \<open>The function that entering the publish context gives.\<close>

fun transport_all ::
  "('a \<Rightarrow> pymap res) \<Rightarrow> (pyval \<Rightarrow> int) \<Rightarrow> ('n, 'w) notify \<Rightarrow> string \<Rightarrow> string \<Rightarrow> 'n transporter list \<Rightarrow>
   'a list \<Rightarrow> 'w \<Rightarrow> 'w \<times> unit res" where
  "transport_all serializer hash notify filter_attr event_type trs [] w = (w, Inr ())"
| "transport_all serializer hash notify filter_attr event_type trs (x # xs) w =
     (case serializer x of
        Inl e \<Rightarrow> (w, Inl e)
      | Inr data \<Rightarrow>
          (case transport_point hash notify filter_attr event_type data trs w of
             (w', Inl e) \<Rightarrow> (w', Inl e)
           | (w', Inr _) \<Rightarrow> transport_all serializer hash notify filter_attr event_type trs xs w'))"

definition sample_transport ::
  "mp_conf \<Rightarrow> (pyval \<Rightarrow> int) \<Rightarrow> ('n, 'w) notify \<Rightarrow> 'n transporter list \<Rightarrow> sample list \<Rightarrow> 'w \<Rightarrow> 'w \<times> unit res" where
  "sample_transport conf hash notify =
     transport_all
       (\<lambda>s. meter_message_from_counter (hmac_sha256 conf) (mp_repr conf) s (telemetry_secret conf))
       hash notify ''counter_name'' ''ceilometer.pipeline''"

definition event_transport ::
  "mp_conf \<Rightarrow> (pyval \<Rightarrow> int) \<Rightarrow> ('n, 'w) notify \<Rightarrow> 'n transporter list \<Rightarrow> event list \<Rightarrow> 'w \<Rightarrow> 'w \<times> unit res" where
  "event_transport conf hash notify =
     transport_all (message_from_event conf) hash notify ''event_type'' ''pipeline.event''"

text \<open>\<open>support_meter\<close> and \<open>support_event\<close> as filters; a name that is no text cannot be matched.\<close>

definition name_filter :: "matcher \<Rightarrow> string list \<Rightarrow> pyval \<Rightarrow> bool res" where
  "name_filter fnm dataset v =
     (case v of
        PStr s \<Rightarrow> Inr (is_supported fnm dataset s)
      | _ \<Rightarrow> if dataset = [] then Inr True else Inl TypeError)"

definition get_pipeline_grouping_key :: "transformer list \<Rightarrow> string list" where
  "get_pipeline_grouping_key transformers = remdups (concat (map GROUPING_KEYS transformers))"

section \<open>Event pipelines\<close>

definition publish_event_data ::
  "matcher \<Rightarrow> ('pub, event, 'w) publish \<Rightarrow> event list \<Rightarrow> pipeline \<Rightarrow> 'pub store \<Rightarrow> 'w \<Rightarrow> 'w \<times> unit res" where
  "publish_event_data fnm pub events pipe sinks w =
     (case filterr (\<lambda>e. name_filter fnm (src_data (p_source pipe)) (ev_event_type e)) events of
        Inl e \<Rightarrow> (w, Inl e)
      | Inr supported \<Rightarrow>
          (case dict_get sinks (p_sink pipe) of
             None \<Rightarrow> (w, Inr ())
           | Some sk \<Rightarrow> sink_publish_events pub sk supported w))"

text \<open>The publish context of event pipelines; flushing an event sink does nothing.\<close>

fun event_publish_context ::
  "matcher \<Rightarrow> ('pub, event, 'w) publish \<Rightarrow> pipeline list \<Rightarrow> 'pub store \<Rightarrow> event list \<Rightarrow> 'w \<Rightarrow> 'w \<times> unit res" where
  "event_publish_context fnm pub [] sinks events w = (w, Inr ())"
| "event_publish_context fnm pub (p # ps) sinks events w =
     (case publish_event_data fnm pub events p sinks w of
        (w', Inl e) \<Rightarrow> (w', Inl e)
      | (w', Inr _) \<Rightarrow> event_publish_context fnm pub ps sinks events w')"

section \<open>Events from messages\<close>

definition trait_type_of_code :: "pyval \<Rightarrow> trait_type res" where
  "trait_type_of_code v =
     (case v of
        PNone \<Rightarrow> Inr NONE_TYPE
      | PInt i \<Rightarrow>
          (if i = 0 then Inr NONE_TYPE else if i = 1 then Inr TEXT_TYPE else if i = 2 then Inr INT_TYPE
           else if i = 3 then Inr FLOAT_TYPE else if i = 4 then Inr DATETIME_TYPE else Inl TypeError)
      | _ \<Rightarrow> Inl TypeError)"

text \<open>
  \<open>for name, dtype, value in ev['traits']\<close>: unpacking wants exactly three items. Types that
  \<open>serialize\<close> does not write are \<open>TypeError\<close> here.
\<close>

definition trait_of_message :: "denv \<Rightarrow> pyval \<Rightarrow> trait res" where
  "trait_of_message env v =
     bindr (py_iter v) (\<lambda>items.
       (case items of
          [PStr name, code, value] \<Rightarrow>
            bindr (trait_type_of_code code) (\<lambda>ty.
            bindr (convert_value env ty value) (\<lambda>x.
              Inr \<lparr>tr_name = name, tr_dtype = ty, tr_value = x\<rparr>))
        | [_, _, _] \<Rightarrow> Inl TypeError
        | _ \<Rightarrow> Inl ValueError))"

definition event_of_message :: "denv \<Rightarrow> pymap \<Rightarrow> event res" where
  "event_of_message env ev =
     bindr (dict_item ev ''message_id'') (\<lambda>message_id.
     bindr (dict_item ev ''event_type'') (\<lambda>event_type.
     bindr (bindr (dict_item ev ''generated'') (isotime_of env)) (\<lambda>generated.
     bindr (bindr (bindr (dict_item ev ''traits'') py_iter) (mapr (trait_of_message env))) (\<lambda>traits.
       Inr \<lparr>ev_message_id = message_id, ev_event_type = event_type, ev_generated = generated,
            ev_traits = traits, ev_raw = dict_get_default ev ''raw'' (PDict [])\<rparr>))))"

text \<open>
  Messages are verified before the first event is rebuilt; when several of them raise, the code
  may raise another one's exception.
\<close>

definition endpoint_events ::
  "denv \<Rightarrow> mp_conf \<Rightarrow> pymap list list \<Rightarrow> event list res" where
  "endpoint_events env conf messages =
     bindr (filterr (\<lambda>m. verify_signature (hmac_sha256 conf) (mp_repr conf) m (telemetry_secret conf)) (concat messages))
       (mapr (event_of_message env))"

text \<open>
  \<open>EventPipelineEndpoint.sample\<close>: an exception while publishing asks for the batch again,
  unless errors are acknowledged; one while rebuilding the events is raised as it is.
\<close>

definition event_endpoint ::
  "event_conf \<Rightarrow> denv \<Rightarrow> mp_conf \<Rightarrow> matcher \<Rightarrow> ('pub, event, 'w) publish \<Rightarrow> pipeline \<Rightarrow> 'pub store \<Rightarrow>
   pymap list list \<Rightarrow> 'w \<Rightarrow> 'w \<times> ack res" where
  "event_endpoint econf env conf fnm pub pipe sinks messages w =
     (case endpoint_events env conf messages of
        Inl e \<Rightarrow> (w, Inl e)
      | Inr events \<Rightarrow>
          (case event_publish_context fnm pub [pipe] sinks events w of
             (w', Inr _) \<Rightarrow> (w', Inr HANDLED)
           | (w', Inl e) \<Rightarrow> (w', if ack_on_event_error econf then Inl e else Inr REQUEUE)))"

section \<open>Configuration files\<close>

text \<open>
  \<open>ConfigManagerBase\<close>: where the file was found, its modification time and its hash. A file
  system gives the time and the content of a path; both raise where the path is gone.
\<close>

record cfg_files =
  cf_files :: files
  cf_mtime :: "string \<Rightarrow> int res"
  cf_md5 :: "string \<Rightarrow> string"

record cfg_state =
  cfg_loc :: string
  cfg_mtime :: int
  cfg_hash :: string

definition get_cfg_hash :: "cfg_files \<Rightarrow> string \<Rightarrow> string res" where
  "get_cfg_hash fs loc = bindr (f_read (cf_files fs) loc) (\<lambda>data. Inr (cf_md5 fs (utf8_encode data)))"

text \<open>\<open>load_config\<close>; \<open>packaged\<close> gives the default file that comes with the program.\<close>

definition load_config :: "cfg_files \<Rightarrow> (string \<Rightarrow> string) \<Rightarrow> string \<Rightarrow> (cfg_state \<times> pyval) res" where
  "load_config fs packaged cfg_file =
     (let loc = (case definitions_file (cf_files fs) cfg_file (Some (packaged cfg_file)) of
                   None \<Rightarrow> [] | Some l \<Rightarrow> l)
      in bindr (bindr (f_read (cf_files fs) loc) (f_yaml (cf_files fs))) (\<lambda>conf.
         bindr (cf_mtime fs loc) (\<lambda>mtime.
         bindr (get_cfg_hash fs loc) (\<lambda>h.
           Inr (\<lparr>cfg_loc = loc, cfg_mtime = mtime, cfg_hash = h\<rparr>, conf)))))"

text \<open>\<open>cfg_changed\<close>: the hash of changed content, or \<open>None\<close> for \<open>False\<close>.\<close>

definition cfg_changed :: "cfg_files \<Rightarrow> cfg_state \<Rightarrow> (cfg_state, string option) sres" where
  "cfg_changed fs st =
     (case cf_mtime fs (cfg_loc st) of
        Inl e \<Rightarrow> (st, Inl e)
      | Inr mtime \<Rightarrow>
          (if cfg_mtime st < mtime
           then (st\<lparr>cfg_mtime := mtime\<rparr>,
                 bindr (get_cfg_hash fs (cfg_loc st)) (\<lambda>h. Inr (if h \<noteq> cfg_hash st then Some h else None)))
           else (st, Inr None)))"

text \<open>
  \<open>PollingManager.__init__\<close>: a polling file that cannot be read falls back to the pipeline's.
  \<open>load\<close> gives the sources of a file, \<open>None\<close> when it names none.
\<close>

definition polling_manager ::
  "(string \<Rightarrow> source_cfg list option res) \<Rightarrow> string \<Rightarrow> string \<Rightarrow> polling_source list res" where
  "polling_manager load pipeline_cfg_file cfg_file =
     bindr (case load cfg_file of
              Inr c \<Rightarrow> Inr c
            | Inl e \<Rightarrow> (if e \<in> {TypeError, IOError} then load pipeline_cfg_file else Inl e))
       (\<lambda>cfg. case cfg of
          None \<Rightarrow> Inl (PollingException ''sources required'')
        | Some sources \<Rightarrow> mapr polling_source_init sources)"

section \<open>Lemmas\<close>

lemma trait_roundtrip:
  assumes "\<And>t. d_isotime env (isof t) = Inr t" "value_ok (tr_dtype t) (tr_value t)"
  shows "trait_of_message env (serialize_trait isof t) = Inr t"
proof -
  have code: "trait_type_of_code (PInt (int (type_code (tr_dtype t)))) = Inr (tr_dtype t)"
    by (cases "tr_dtype t") (simp_all add: trait_type_of_code_def type_code_def)
  have "convert_value env (tr_dtype t) (serialize_dt isof (tr_value t)) = Inr (tr_value t)"
    using assms
    by (cases "tr_dtype t"; cases "tr_value t")
      (simp_all add: value_ok_def convert_value_def serialize_dt_def isotime_of_def)
  with code show ?thesis by (simp add: trait_of_message_def serialize_trait_def py_iter_def)
qed

lemma traits_roundtrip:
  assumes "\<And>t. d_isotime env (isof t) = Inr t" "\<forall>t \<in> set ts. value_ok (tr_dtype t) (tr_value t)"
  shows "mapr (trait_of_message env) (map (serialize_trait isof) ts) = Inr ts"
  using assms(2) by (induction ts) (simp_all add: trait_roundtrip assms(1))

text \<open>
  What the queue does to a value: the messaging library writes it as JSON and reads it back,
  which turns tuples into lists at any depth and leaves texts, numbers, booleans, \<open>None\<close>, lists
  and dictionaries with text keys as they are. What JSON has no form for is \<open>None\<close> here.
\<close>

function json_wire :: "pyval \<Rightarrow> pyval option" where
  "json_wire (PTuple xs) = map_option PList (those (map json_wire xs))"
| "json_wire (PList xs) = map_option PList (those (map json_wire xs))"
| "json_wire (PDict d) = map_option PDict (those (map (\<lambda>(k, v). map_option (Pair k) (json_wire v)) d))"
| "json_wire (PBytes s) = None"
| "json_wire (PDatetime t) = None"
| "json_wire PNone = Some PNone"
| "json_wire (PBool b) = Some (PBool b)"
| "json_wire (PInt i) = Some (PInt i)"
| "json_wire (PFloat f) = Some (PFloat f)"
| "json_wire (PStr s) = Some (PStr s)"
  by pat_completeness auto
termination
  by (relation "measure size") (auto simp: size_dict_member size_list_member)

lemma those_Some_all2: "those xs = Some ys \<longleftrightarrow> list_all2 (\<lambda>x y. x = Some y) xs ys"
  by (induction xs arbitrary: ys) (auto simp: list_all2_Cons1 split: option.splits)

definition wired_items :: "pymap \<Rightarrow> pymap \<Rightarrow> bool" where
  "wired_items d e \<longleftrightarrow> list_all2 (\<lambda>x y. fst x = fst y \<and> json_wire (snd x) = Some (snd y)) d e"

lemma json_wire_dict: "json_wire (PDict d) = Some w \<longleftrightarrow> (\<exists>e. w = PDict e \<and> wired_items d e)"
  by (auto simp: those_Some_all2 list_all2_map1 wired_items_def case_prod_beta elim!: list_all2_mono)

lemma json_wire_list:
  "json_wire (PList xs) = Some w \<longleftrightarrow> (\<exists>ys. w = PList ys \<and> list_all2 (\<lambda>x y. json_wire x = Some y) xs ys)"
  "json_wire (PTuple xs) = Some w \<longleftrightarrow> (\<exists>ys. w = PList ys \<and> list_all2 (\<lambda>x y. json_wire x = Some y) xs ys)"
  by (auto simp: those_Some_all2 list_all2_map1)

text \<open>Values that JSON gives back as they are.\<close>

fun json_plain :: "pyval \<Rightarrow> bool" where
  "json_plain (PList xs) = list_all json_plain xs"
| "json_plain (PDict d) = list_all (\<lambda>(k, v). json_plain v) d"
| "json_plain (PTuple xs) = False"
| "json_plain (PBytes s) = False"
| "json_plain (PDatetime t) = False"
| "json_plain v = True"

lemma json_wire_plain: "json_plain v \<Longrightarrow> json_wire v = Some v"
proof (induction v rule: json_plain.induct)
  case (1 xs)
  then show ?case by (subst json_wire_list) (auto simp: list_all_iff intro!: list.rel_refl_strong)
next
  case (2 d)
  have "wired_items d d"
    unfolding wired_items_def using 2 by (intro list.rel_refl_strong) (auto simp: list_all_iff)
  then show ?case by (subst json_wire_dict) blast
qed simp_all

text \<open>Signing sees no difference: \<open>decode_unicode\<close> makes lists of the tuples on the way.\<close>

lemma decode_unicode_wire: "json_wire v = Some w \<Longrightarrow> decode_unicode w = decode_unicode v"
proof (induction v arbitrary: w rule: measure_induct_rule [where f = size])
  case (less v)
  have list: "mapr decode_unicode ys = mapr decode_unicode xs"
    if "list_all2 (\<lambda>x y. json_wire x = Some y) xs ys" "\<And>x. x \<in> set xs \<Longrightarrow> size x < size v" for xs ys
  proof -
    have "list_all2 (\<lambda>x y. decode_unicode y = decode_unicode x) xs ys"
      using that less.IH by (auto simp: list_all2_conv_all_nth)
    then show ?thesis by (induction rule: list_all2_induct) simp_all
  qed
  show ?case
  proof (cases v)
    case (PDict d)
    with less.prems obtain e where w: "w = PDict e" and e: "wired_items d e" by (auto simp only: json_wire_dict)
    have "list_all2 (\<lambda>x y. fst x = fst y \<and> decode_unicode (snd y) = decode_unicode (snd x)) d e"
    proof (rule list.rel_mono_strong [OF e [unfolded wired_items_def]])
      fix x y assume x: "x \<in> set d" and "fst x = fst y \<and> json_wire (snd x) = Some (snd y)"
      moreover have "size (snd x) < size v" using x size_dict_member [of "fst x" "snd x" d] by (simp add: PDict)
      ultimately show "fst x = fst y \<and> decode_unicode (snd y) = decode_unicode (snd x)" using less.IH [of "snd x" "snd y"] by simp
    qed
    then have "list_all2 (\<lambda>x y. fst x = fst y \<and> decode_unicode (snd y) = decode_unicode (snd x)) (sort_key fst d) (sort_key fst e)"
      by (rule list_all2_sort_key) simp
    then have "mapr (\<lambda>(k, v). bindr (decode_unicode v) (\<lambda>w. Inr (utf8_encode k, w))) (sort_key fst d)
        = mapr (\<lambda>(k, v). bindr (decode_unicode v) (\<lambda>w. Inr (utf8_encode k, w))) (sort_key fst e)"
      by (rule mapr_eq_list_all2) (simp add: case_prod_beta)
    then show ?thesis by (simp add: PDict w)
  next
    case (PList xs)
    with less.prems obtain ys where "w = PList ys" "list_all2 (\<lambda>x y. json_wire x = Some y) xs ys"
      by (auto simp only: json_wire_list)
    with list [of xs ys] size_list_member [of _ xs size] show ?thesis by (simp add: PList)
  next
    case (PTuple xs)
    with less.prems obtain ys where "w = PList ys" "list_all2 (\<lambda>x y. json_wire x = Some y) xs ys"
      by (auto simp only: json_wire_list)
    with list [of xs ys] size_list_member [of _ xs size] show ?thesis by (simp add: PTuple)
  qed (use less.prems in auto)
qed

lemma keypairs_item_wire: "json_wire v = Some w \<Longrightarrow> keypairs_item sep k w = keypairs_item sep k v"
proof (induction v arbitrary: k w rule: measure_induct_rule [where f = size])
  case (less v)
  show ?case
  proof (cases v)
    case (PDict d)
    with less.prems obtain e where w: "w = PDict e" and e: "wired_items d e" by (auto simp only: json_wire_dict)
    have "list_all2 (\<lambda>x y. fst x = fst y \<and> (\<forall>k. keypairs_item sep k (snd y) = keypairs_item sep k (snd x))) d e"
    proof (rule list.rel_mono_strong [OF e [unfolded wired_items_def]])
      fix x y assume x: "x \<in> set d" and "fst x = fst y \<and> json_wire (snd x) = Some (snd y)"
      moreover have "size (snd x) < size v" using x size_dict_member [of "fst x" "snd x" d] by (simp add: PDict)
      ultimately show "fst x = fst y \<and> (\<forall>k. keypairs_item sep k (snd y) = keypairs_item sep k (snd x))" using less.IH [of "snd x" "snd y"] by simp
    qed
    then have "list_all2 (\<lambda>x y. fst x = fst y \<and> (\<forall>k. keypairs_item sep k (snd y) = keypairs_item sep k (snd x)))
        (sort_key fst d) (sort_key fst e)"
      by (rule list_all2_sort_key) simp
    then have "mapr (\<lambda>(k, v). keypairs_item sep k v) (sort_key fst d)
        = mapr (\<lambda>(k, v). keypairs_item sep k v) (sort_key fst e)"
      by (rule mapr_eq_list_all2) (simp add: case_prod_beta)
    then show ?thesis by (simp add: PDict w)
  next
    case (PList xs)
    with less.prems obtain ys where "w = PList ys" by (auto simp only: json_wire_list)
    with decode_unicode_wire [OF less.prems] show ?thesis by (simp add: PList del: decode_unicode.simps)
  next
    case (PTuple xs)
    with less.prems obtain ys where "w = PList ys" by (auto simp only: json_wire_list)
    with decode_unicode_wire [OF less.prems] show ?thesis by (simp add: PTuple del: decode_unicode.simps)
  qed (use less.prems in auto)
qed

lemma recursive_keypairs_wire:
  assumes "wired_items d e"
  shows "recursive_keypairs sep e = recursive_keypairs sep d"
proof -
  have "list_all2 (\<lambda>x y. fst x = fst y \<and> json_wire (snd x) = Some (snd y)) (sort_key fst d) (sort_key fst e)"
    using assms unfolding wired_items_def by (rule list_all2_sort_key) simp
  then have "mapr (\<lambda>(k, v). keypairs_item sep k v) (sort_key fst d) = mapr (\<lambda>(k, v). keypairs_item sep k v) (sort_key fst e)"
    by (rule mapr_eq_list_all2) (auto simp: case_prod_beta intro: keypairs_item_wire [symmetric])
  then show ?thesis by (simp add: recursive_keypairs_def)
qed

lemma wired_items_get:
  "wired_items d e \<Longrightarrow> case dict_get d k of None \<Rightarrow> dict_get e k = None
     | Some v \<Rightarrow> \<exists>w. json_wire v = Some w \<and> dict_get e k = Some w"
  unfolding wired_items_def
proof (induction rule: list_all2_induct)
  case (Cons x xs y ys)
  then show ?case by (cases x; cases y; cases "dict_get xs k") auto
qed simp

lemma wired_items_getD:
  assumes "wired_items d e" "dict_get d k = Some v" "json_wire v = Some w"
  shows "dict_get e k = Some w"
  using wired_items_get [OF assms(1), of k] assms(2,3) by simp

lemma verify_signature_wire:
  assumes "wired_items d e" "dict_get d SIG = Some (PStr sig)"
  shows "verify_signature hmac rp e secret = verify_signature hmac rp d secret"
proof -
  have "dict_get e SIG = Some (PStr sig)" by (rule wired_items_getD [OF assms]) simp
  then show ?thesis using assms(2)
    by (simp add: verify_signature_def compute_signature_def recursive_keypairs_wire [OF assms(1)] dict_get_default_def)
qed

text \<open>A trait leaves as a tuple and arrives as a list of the same three items.\<close>

definition trait_list :: "(int \<Rightarrow> string) \<Rightarrow> trait \<Rightarrow> pyval" where
  "trait_list isof t = PList [PStr (tr_name t), PInt (int (type_code (tr_dtype t))), serialize_dt isof (tr_value t)]"

lemma trait_wire:
  "value_ok (tr_dtype t) (tr_value t) \<Longrightarrow> json_wire (serialize_trait isof t) = Some (trait_list isof t)"
  by (cases "tr_dtype t"; cases "tr_value t")
    (simp_all add: serialize_trait_def trait_list_def value_ok_def serialize_dt_def)

lemma traits_wire:
  "\<forall>t \<in> set ts. value_ok (tr_dtype t) (tr_value t) \<Longrightarrow>
   json_wire (PList (map (serialize_trait isof) ts)) = Some (PList (map (trait_list isof) ts))"
  by (subst json_wire_list) (auto simp: list_all2_map1 list_all2_map2 trait_wire intro!: list_all2_refl list.rel_refl_strong)

lemma trait_list_roundtrip:
  "trait_of_message env (trait_list isof t) = trait_of_message env (serialize_trait isof t)"
  by (simp add: trait_of_message_def trait_list_def serialize_trait_def py_iter_def)

lemma grouping_value_cong:
  "(\<And>k. k \<in> set keys \<Longrightarrow> dict_get_default d1 k PNone = dict_get_default d2 k PNone) \<Longrightarrow>
   grouping_value d1 keys acc = grouping_value d2 keys acc"
  by (induction keys arbitrary: acc) (simp_all add: Let_def bindr_def split: sum.split)

lemma pick_notifier_Some:
  "pick_notifier hash fa data tr = Inr (Some n) \<Longrightarrow>
   \<exists>h. hash_grouping hash data (grouping_keys tr) = Inr h \<and> notifiers tr \<noteq> []
     \<and> n = notifiers tr ! nat (h mod int (length (notifiers tr)))"
  by (auto simp: pick_notifier_def bindr_Inr_iff split: if_splits)

section \<open>Properties\<close>

text \<open>
  C12: An event that crosses the queue between agents arrives as it was. Let the traits of an
  event have values of their types, and let its message go through the queue as JSON, which makes
  lists of all tuples, the traits' own included. What arrives verifies against the signature the
  sender made of the message with its tuples, and the receiver rebuilds the event with the same
  time and traits, in order. Its id, its type and its raw notification are those of the event as
  JSON gives them back, so the event is the same when they hold no tuples. This needs \<open>isoformat\<close> and the ISO
  parser to agree, and a signature in ASCII.
\<close>

theorem event_transport_roundtrip:
  assumes "message_from_event conf e = Inr m" "json_wire (PDict m) = Some (PDict m')"
    and "\<And>t. d_isotime env (mp_isoformat conf t) = Inr t" "\<And>k x. is_ascii (hmac_sha256 conf k x)"
    and "\<forall>t \<in> set (ev_traits e). value_ok (tr_dtype t) (tr_value t)"
  shows "\<exists>message_id event_type raw.
      json_wire (ev_message_id e) = Some message_id \<and> json_wire (ev_event_type e) = Some event_type
    \<and> json_wire (ev_raw e) = Some raw
    \<and> endpoint_events env conf [[m']]
      = Inr [e\<lparr>ev_message_id := message_id, ev_event_type := event_type, ev_raw := raw\<rparr>]
    \<and> (json_plain (ev_message_id e) \<and> json_plain (ev_event_type e) \<and> json_plain (ev_raw e)
        \<longrightarrow> endpoint_events env conf [[m']] = Inr [e])"
proof -
  let ?d = "serialize_event (mp_isoformat conf) e"
  have keys: "SIG \<notin> set (dict_keys ?d)" "dict_ok ?d"
    by (simp_all add: serialize_event_def SIG_def dict_ok_def)
  from assms(1) have sign: "sign (hmac_sha256 conf) (mp_repr conf) (telemetry_secret conf) ?d = Inr m"
    by (simp add: message_from_event_def)
  have verified: "verify_signature (hmac_sha256 conf) (mp_repr conf) m (telemetry_secret conf) = Inr True"
    by (rule verify_sign [OF keys sign assms(4)])
  from sign obtain sig where m: "m = dict_set SIG (PStr sig) ?d" by (auto simp: sign_def bindr_Inr_iff)
  from assms(2) have w: "wired_items m m'" by (simp only: json_wire_dict pyval.inject) blast
  have get: "dict_get m k = dict_get ?d k" if "k \<noteq> SIG" for k using that by (simp add: m dict_get_set)
  have field: "\<exists>x. json_wire v = Some x \<and> dict_get m' k = Some x" if "dict_get ?d k = Some v" "k \<noteq> SIG" for k v
    using wired_items_get [OF w, of k] that get by simp
  obtain mid ety raw where f:
      "json_wire (ev_message_id e) = Some mid" "dict_get m' ''message_id'' = Some mid"
      "json_wire (ev_event_type e) = Some ety" "dict_get m' ''event_type'' = Some ety"
      "json_wire (ev_raw e) = Some raw" "dict_get m' ''raw'' = Some raw"
    using field [of "''message_id''" "ev_message_id e"] field [of "''event_type''" "ev_event_type e"]
      field [of "''raw''" "ev_raw e"]
    by (auto simp: serialize_event_def SIG_def)
  have gen: "dict_get m' ''generated'' = Some (PStr (mp_isoformat conf (ev_generated e)))"
    by (rule wired_items_getD [OF w, of _ "PStr (mp_isoformat conf (ev_generated e))"])
      (simp_all add: get SIG_def serialize_event_def)
  have traits: "dict_get m' ''traits'' = Some (PList (map (trait_list (mp_isoformat conf)) (ev_traits e)))"
    by (rule wired_items_getD [OF w _ traits_wire [OF assms(5)]]) (simp add: get SIG_def serialize_event_def)
  have "mapr (trait_of_message env) (map (trait_list (mp_isoformat conf)) ts)
      = mapr (trait_of_message env) (map (serialize_trait (mp_isoformat conf)) ts)" for ts
    by (induction ts) (simp_all add: trait_list_roundtrip)
  with traits_roundtrip [where isof = "mp_isoformat conf", OF assms(3,5)]
  have "event_of_message env m' = Inr (e\<lparr>ev_message_id := mid, ev_event_type := ety, ev_raw := raw\<rparr>)"
    using assms(3) by (simp add: event_of_message_def dict_item_def dict_get_default_def f gen traits isotime_of_def py_iter_def)
  moreover have "verify_signature (hmac_sha256 conf) (mp_repr conf) m' (telemetry_secret conf) = Inr True"
    using verify_signature_wire [OF w, of sig] verified by (simp add: m dict_get_set)
  ultimately have "endpoint_events env conf [[m']] = Inr [e\<lparr>ev_message_id := mid, ev_event_type := ety, ev_raw := raw\<rparr>]"
    by (simp add: endpoint_events_def)
  moreover have "e\<lparr>ev_message_id := mid, ev_event_type := ety, ev_raw := raw\<rparr> = e"
    if "json_plain (ev_message_id e)" "json_plain (ev_event_type e)" "json_plain (ev_raw e)"
    using f that by (simp add: json_wire_plain)
  ultimately show ?thesis using f by auto
qed

definition demo_isoformat :: "int \<Rightarrow> string" where
  "demo_isoformat t = (if t < 0 then CHR ''-'' # replicate (nat (- t)) CHR ''x'' else replicate (nat t) CHR ''x'')"

definition demo_isotime :: "string \<Rightarrow> int res" where
  "demo_isotime s = Inr (case s of c # cs \<Rightarrow> if c = CHR ''-'' then - int (length cs) else int (length s) | [] \<Rightarrow> 0)"

definition demo_mp_conf :: mp_conf where
  "demo_mp_conf = \<lparr>hmac_sha256 = \<lambda>k x. ''ab'', mp_repr = \<lambda>v. ''?'', mp_isoformat = demo_isoformat,
     telemetry_secret = ''s'', metering_topic = ''metering'', event_topic = ''event''\<rparr>"

definition demo_denv :: denv where
  "demo_denv = \<lparr>jsonpath = \<lambda>s. Inl ValueError, d_isotime = demo_isotime, d_repr = \<lambda>v. []\<rparr>"

lemma demo_isotime: "d_isotime demo_denv (mp_isoformat demo_mp_conf t) = Inr t"
  by (cases "nat t") (auto simp: demo_denv_def demo_mp_conf_def demo_isoformat_def demo_isotime_def)

definition demo_event :: event where
  "demo_event = \<lparr>ev_message_id = PStr ''m'', ev_event_type = PStr ''compute.end'', ev_generated = 7,
     ev_traits = [\<lparr>tr_name = ''at'', tr_dtype = DATETIME_TYPE, tr_value = PDatetime 5\<rparr>,
                  \<lparr>tr_name = ''host'', tr_dtype = TEXT_TYPE, tr_value = PStr ''h''\<rparr>],
     ev_raw = PDict [(''payload'', PTuple [PInt 1, PDict [(''b'', PTuple []), (''a'', PStr ''x'')]])]\<rparr>"

theorem event_transport_roundtrip_witness:
  "case message_from_event demo_mp_conf demo_event of
     Inl e \<Rightarrow> False
   | Inr m \<Rightarrow> (case json_wire (PDict m) of
        Some (PDict m') \<Rightarrow> m' \<noteq> m \<and> endpoint_events demo_denv demo_mp_conf [[m']]
          = Inr [demo_event\<lparr>ev_raw := PDict [(''payload'', PList [PInt 1, PDict [(''b'', PList []), (''a'', PStr ''x'')]])]\<rparr>]
      | _ \<Rightarrow> False)"
proof -
  have "case message_from_event demo_mp_conf demo_event of
     Inl e \<Rightarrow> False | Inr m \<Rightarrow> (case json_wire (PDict m) of Some (PDict m') \<Rightarrow> m' \<noteq> m | _ \<Rightarrow> False)" by code_simp
  then obtain m m' where m: "message_from_event demo_mp_conf demo_event = Inr m" "json_wire (PDict m) = Some (PDict m')"
      "m' \<noteq> m"
    by (auto split: sum.splits option.splits pyval.splits)
  have ascii: "is_ascii (hmac_sha256 demo_mp_conf k x)" for k x by (simp add: demo_mp_conf_def is_ascii_def)
  have ok: "\<forall>t \<in> set (ev_traits demo_event). value_ok (tr_dtype t) (tr_value t)"
    by (simp add: demo_event_def value_ok_def)
  have wire: "json_wire (ev_message_id demo_event) = Some (ev_message_id demo_event)"
    "json_wire (ev_event_type demo_event) = Some (ev_event_type demo_event)"
    "json_wire (ev_raw demo_event) = Some (PDict [(''payload'', PList [PInt 1, PDict [(''b'', PList []), (''a'', PStr ''x'')]])])"
    by code_simp+
  from event_transport_roundtrip [OF m(1,2) demo_isotime ascii ok] show ?thesis
    by (simp add: m wire del: json_wire.simps)
qed

text \<open>
  Data that belongs together stays together: two datapoints that a transporter takes and
  that agree on its grouping keys go to the same notifier, one of its own, whatever the hash.
\<close>

theorem grouped_together:
  assumes "pick_notifier hash fa d1 tr = Inr (Some n1)" "pick_notifier hash fa d2 tr = Inr (Some n2)"
    and "\<And>k. k \<in> set (grouping_keys tr) \<Longrightarrow> dict_get_default d1 k PNone = dict_get_default d2 k PNone"
  shows "n1 = n2 \<and> n1 \<in> set (notifiers tr)"
proof -
  have same: "hash_grouping hash d1 (grouping_keys tr) = hash_grouping hash d2 (grouping_keys tr)"
    using grouping_value_cong [OF assms(3), where acc = "PStr []"] by (simp add: hash_grouping_def)
  from pick_notifier_Some [OF assms(1)] obtain h where
    h: "hash_grouping hash d1 (grouping_keys tr) = Inr h" "notifiers tr \<noteq> []"
      "n1 = notifiers tr ! nat (h mod int (length (notifiers tr)))" by blast
  from pick_notifier_Some [OF assms(2)] same h(1) have "n2 = n1" by (auto simp: h(3))
  moreover have "nat (h mod int (length (notifiers tr))) < length (notifiers tr)"
    using h(2) by (simp add: nat_less_iff)
  ultimately show ?thesis using h(3) by simp
qed

definition demo_transporter :: "nat transporter" where
  "demo_transporter = \<lparr>d_filter = name_filter glob [''cpu*''], grouping_keys = [''resource_id''], notifiers = [0, 1, 2]\<rparr>"

theorem grouped_together_witness:
  "case pick_notifier (\<lambda>v. 5) ''counter_name'' (counter_message demo_sample) demo_transporter of
     Inr (Some n) \<Rightarrow> n = 2 \<and> n \<in> set (notifiers demo_transporter)
   | _ \<Rightarrow> False"
proof -
  have p: "pick_notifier (\<lambda>v. 5) ''counter_name'' (counter_message demo_sample) demo_transporter = Inr (Some 2)"
    by code_simp
  from grouped_together [OF p p] show ?thesis by (simp add: p)
qed

end
