(* ===== verification/Notification_Service.thy ===== *)
theory Notification_Service
  imports Pipeline_Transport
begin

text \<open>
  \<^verbatim>\<open>ceilometer/notification.py\<close>: the notification agent's service. It listens on the main
  queues and, when the work is partitioned, on the queues of the pipelines that the hash ring
  gives it; a periodic watcher moves the pipeline listener when the group changes; terminating
  stops everything.

  A listener is what it was made from; \<open>running\<close> holds the numbers of those that are started
  and not stopped. The hash ring, the transports and the plugins are parameters.
\<close>

section \<open>Configuration and listeners\<close>

record target =
  tg_topic :: string
  tg_exchange :: "string option"

datatype endpoint = EventsEP | HandlerEP string | SamplePipelineEP string | EventPipelineEP string

record listener =
  l_id :: nat
  l_url :: "string option"
  l_targets :: "target list"
  l_endpoints :: "endpoint list"
  l_batch :: "(int \<times> int) option"
  l_pool :: int

record nconf =
  workload_partitioning :: bool
  pipeline_processing_queues :: nat
  messaging_urls :: "string list"
  batch_size :: int
  batch_timeout :: int
  max_parallel_requests :: int
  notification_control_exchanges :: "string list"

text \<open>
  What the service is set up with: the names of its pipelines, its notification plugins with
  their topics, and \<open>get_transport\<close>, which raises for a URL it cannot load.
\<close>

record service_env =
  sample_pipes :: "string list"
  event_pipes :: "string list"
  plugins :: "(string \<times> string list) list"
  transport :: "string option \<Rightarrow> unit res"

record service =
  listeners :: "listener list"
  pipeline_listener :: "listener option"
  shutdown :: bool
  periodic :: bool
  coordinator :: bool
  group_state :: "string list option"
  next_id :: nat
  running :: "nat list"

text \<open>\<open>__init__\<close>\<close>

definition service_init :: service where
  "service_init =
     \<lparr>listeners = [], pipeline_listener = None, shutdown = False, periodic = False, coordinator = False,
      group_state = None, next_id = 0, running = []\<rparr>"

section \<open>Queues between agents\<close>

definition NOTIFICATION_IPC :: string where "NOTIFICATION_IPC = ''ceilometer-pipe''"

definition ipc_topic :: "string \<Rightarrow> nat \<Rightarrow> string" where
  "ipc_topic pipe x = NOTIFICATION_IPC @ ''-'' @ pipe @ ''-'' @ digits_of_nat x"

text \<open>A notifier is the publisher's name and its topic.\<close>

definition get_notifiers :: "nconf \<Rightarrow> string \<Rightarrow> (string \<times> string) list" where
  "get_notifiers conf pipe =
     map (\<lambda>x. (pipe, ipc_topic pipe x)) [0..<pipeline_processing_queues conf]"

text \<open>
  \<open>_get_pipe_manager\<close> and \<open>_get_event_pipeline_manager\<close>, with partitioning: a transporter per
  pipeline. Without it the endpoints feed the pipeline managers themselves.
\<close>

definition pipe_transporters ::
  "nconf \<Rightarrow> matcher \<Rightarrow> (pipeline \<times> transformer list) list \<Rightarrow> (string \<times> string) transporter list" where
  "pipe_transporters conf fnm pipes =
     map (\<lambda>(p, ts). \<lparr>d_filter = name_filter fnm (src_data (p_source p)),
            grouping_keys = (let key = get_pipeline_grouping_key ts in if key = [] then [''resource_id''] else key),
            notifiers = get_notifiers conf (p_name p)\<rparr>) pipes"

definition event_transporters ::
  "nconf \<Rightarrow> matcher \<Rightarrow> pipeline list \<Rightarrow> (string \<times> string) transporter list" where
  "event_transporters conf fnm pipes =
     map (\<lambda>p. \<lparr>d_filter = name_filter fnm (src_data (p_source p)), grouping_keys = [''event_type''],
               notifiers = get_notifiers conf (p_name p)\<rparr>) pipes"

section \<open>Listeners\<close>

text \<open>\<open>NotificationProcessBase.get_targets\<close>\<close>

definition get_targets :: "nconf \<Rightarrow> string list \<Rightarrow> target list" where
  "get_targets conf topics =
     concat (map (\<lambda>topic. map (\<lambda>ex. \<lparr>tg_topic = topic, tg_exchange = Some ex\<rparr>)
       (notification_control_exchanges conf)) topics)"

definition add_targets :: "target list \<Rightarrow> target list \<Rightarrow> target list" where
  "add_targets new ts = fold (\<lambda>t ts. if t \<in> set ts then ts else ts @ [t]) new ts"

definition start_listener :: "listener \<Rightarrow> service \<Rightarrow> service" where
  "start_listener l s = s\<lparr>next_id := Suc (next_id s), running := running s @ [l_id l]\<rparr>"

definition stop_listener :: "listener \<Rightarrow> service \<Rightarrow> service" where
  "stop_listener l s = s\<lparr>running := removeAll (l_id l) (running s)\<rparr>"

text \<open>\<open>_configure_main_queue_listeners\<close>: one listener per messaging URL.\<close>

fun main_listeners ::
  "nconf \<Rightarrow> (string option \<Rightarrow> unit res) \<Rightarrow> target list \<Rightarrow> endpoint list \<Rightarrow> string option list \<Rightarrow> service \<Rightarrow>
   (service, unit) sres" where
  "main_listeners conf tr ts es [] s = (s, Inr ())"
| "main_listeners conf tr ts es (url # urls) s =
     (case tr url of
        Inl e \<Rightarrow> (s, Inl e)
      | Inr _ \<Rightarrow>
          (let l = \<lparr>l_id = next_id s, l_url = url, l_targets = ts, l_endpoints = es, l_batch = None,
                    l_pool = max_parallel_requests conf\<rparr>;
               s1 = start_listener l s
           in main_listeners conf tr ts es urls (s1\<lparr>listeners := listeners s1 @ [l]\<rparr>)))"

definition configure_main_queue_listeners :: "nconf \<Rightarrow> service_env \<Rightarrow> service \<Rightarrow> (service, unit) sres" where
  "configure_main_queue_listeners conf st s =
     (let targets = fold (\<lambda>(n, topics). add_targets (get_targets conf topics)) (plugins st) [];
          endpoints = EventsEP # map (\<lambda>(n, topics). HandlerEP n) (plugins st);
          urls = (if messaging_urls conf = [] then [None] else map Some (messaging_urls conf))
      in main_listeners conf (transport st) targets endpoints urls s)"

text \<open>
  \<open>_configure_pipeline_listener\<close>: the queues of the sets that belong to this agent, for every
  pipeline. The old listener is stopped before the new one starts.
\<close>

definition pipeline_targets :: "nconf \<Rightarrow> service_env \<Rightarrow> (nat \<Rightarrow> bool) \<Rightarrow> target list" where
  "pipeline_targets conf st belongs =
     concat (map (\<lambda>x. map (\<lambda>p. \<lparr>tg_topic = ipc_topic p x, tg_exchange = None\<rparr>)
       (sample_pipes st @ event_pipes st)) (filter belongs [0..<pipeline_processing_queues conf]))"

definition stop_pipeline_listener :: "service \<Rightarrow> service" where
  "stop_pipeline_listener s = (case pipeline_listener s of None \<Rightarrow> s | Some l \<Rightarrow> stop_listener l s)"

definition configure_pipeline_listener ::
  "nconf \<Rightarrow> service_env \<Rightarrow> (nat \<Rightarrow> bool) \<Rightarrow> service \<Rightarrow> (service, unit) sres" where
  "configure_pipeline_listener conf st belongs s =
     (case transport st None of
        Inl e \<Rightarrow> (s, Inl e)
      | Inr _ \<Rightarrow>
          (let s1 = stop_pipeline_listener s;
               l = \<lparr>l_id = next_id s, l_url = None, l_targets = pipeline_targets conf st belongs,
                    l_endpoints = map SamplePipelineEP (sample_pipes st) @ map EventPipelineEP (event_pipes st),
                    l_batch = Some (batch_size conf, batch_timeout conf),
                    l_pool = (if 1 < batch_size conf then 1 else max_parallel_requests conf)\<rparr>
           in ((start_listener l s1)\<lparr>pipeline_listener := Some l\<rparr>, Inr ())))"

definition refresh_agent :: "nconf \<Rightarrow> service_env \<Rightarrow> (nat \<Rightarrow> bool) \<Rightarrow> service \<Rightarrow> (service, unit) sres" where
  "refresh_agent conf st belongs s =
     (if shutdown s then (s, Inr ()) else configure_pipeline_listener conf st belongs s)"

text \<open>
  The periodic \<open>run_watchers\<close>, after the coordinator has updated the ring to \<open>nodes\<close>. The
  state of the group is recorded before the listener is configured.
\<close>

definition run_watchers ::
  "nconf \<Rightarrow> service_env \<Rightarrow> (nat \<Rightarrow> bool) \<Rightarrow> string list \<Rightarrow> service \<Rightarrow> (service, unit) sres" where
  "run_watchers conf st belongs nodes s =
     (if group_state s \<noteq> Some nodes
      then refresh_agent conf st belongs (s\<lparr>group_state := Some nodes\<rparr>)
      else (s, Inr ()))"

section \<open>The life of the service\<close>

text \<open>\<open>run\<close>, once the pipelines are set up.\<close>

definition service_run :: "nconf \<Rightarrow> service_env \<Rightarrow> service \<Rightarrow> (service, unit) sres" where
  "service_run conf st s =
     (case transport st None of
        Inl e \<Rightarrow> (s, Inl e)
      | Inr _ \<Rightarrow>
          (let s1 = (if workload_partitioning conf then s\<lparr>coordinator := True\<rparr> else s) in
           case configure_main_queue_listeners conf st s1 of
             (s2, Inl e) \<Rightarrow> (s2, Inl e)
           | (s2, Inr _) \<Rightarrow> ((if workload_partitioning conf then s2\<lparr>periodic := True\<rparr> else s2), Inr ())))"

text \<open>
  \<open>terminate\<close> in its three stages: the flag is set, the periodic thread and the coordinator
  are stopped, and the listeners are killed under the lock.
\<close>

definition begin_shutdown :: "service \<Rightarrow> service" where
  "begin_shutdown s = s\<lparr>shutdown := True\<rparr>"

definition stop_threads :: "service \<Rightarrow> service" where
  "stop_threads s = s\<lparr>periodic := False, coordinator := False\<rparr>"

definition kill_all :: "service \<Rightarrow> service" where
  "kill_all s = fold stop_listener (listeners s) (stop_pipeline_listener s)"

definition service_terminate :: "service \<Rightarrow> service" where
  "service_terminate s = kill_all (stop_threads (begin_shutdown s))"

text \<open>
  The service runs, terminates and is watched by another thread. The watcher's step may come
  between any two stages, with any ring; a transport that cannot be loaded only ends the step.
\<close>

datatype phase = Created | Started | Stopping | Stopped | Terminated

inductive service_step :: "nconf \<Rightarrow> service_env \<Rightarrow> phase \<times> service \<Rightarrow> phase \<times> service \<Rightarrow> bool"
  for conf :: nconf and st :: service_env where
  run: "service_run conf st s = (s', Inr ()) \<Longrightarrow> service_step conf st (Created, s) (Started, s')"
| watch: "\<lbrakk>workload_partitioning conf; p \<noteq> Created\<rbrakk> \<Longrightarrow>
    service_step conf st (p, s) (p, fst (run_watchers conf st belongs nodes s))"
| shut: "service_step conf st (Started, s) (Stopping, begin_shutdown s)"
| stop: "service_step conf st (Stopping, s) (Stopped, stop_threads s)"
| kill: "service_step conf st (Stopped, s) (Terminated, kill_all s)"

definition service_reachable :: "nconf \<Rightarrow> service_env \<Rightarrow> phase \<times> service \<Rightarrow> bool" where
  "service_reachable conf st = (service_step conf st)\<^sup>*\<^sup>* (Created, service_init)"

section \<open>Lemmas\<close>

lemma last_part_eq:
  assumes "x @ c # a = y @ c # b" "c \<notin> set a" "c \<notin> set b"
  shows "x = y \<and> a = b"
  using assms by (auto simp: append_eq_append_conv2 Cons_eq_append_conv append_eq_Cons_conv)

lemma ipc_topic_inject: "ipc_topic p x = ipc_topic q y \<longleftrightarrow> p = q \<and> x = y"
proof
  assume "ipc_topic p x = ipc_topic q y"
  then have "p @ CHR ''-'' # digits_of_nat x = q @ CHR ''-'' # digits_of_nat y" by (simp add: ipc_topic_def)
  moreover have "CHR ''-'' \<notin> set (digits_of_nat n)" for n
    using digits_of_nat_all_digits [of "CHR ''-''" n] by (auto simp: is_digit_def digit_val_def Let_def)
  ultimately have "p = q \<and> digits_of_nat x = digits_of_nat y" by (intro last_part_eq [of _ "CHR ''-''"])
  then show "p = q \<and> x = y" using digits_of_nat_inj by blast
qed simp

text \<open>Every listener the service refers to, and nothing else, is running.\<close>

definition referenced :: "service \<Rightarrow> nat set" where
  "referenced s = l_id ` set (listeners s) \<union> l_id ` set_option (pipeline_listener s)"

definition ids_ok :: "service \<Rightarrow> bool" where
  "ids_ok s \<longleftrightarrow> set (running s) = referenced s \<and> (\<forall>i \<in> referenced s. i < next_id s)
     \<and> l_id ` set (listeners s) \<inter> l_id ` set_option (pipeline_listener s) = {}"

definition service_ok :: "phase \<times> service \<Rightarrow> bool" where
  "service_ok ps \<longleftrightarrow>
     (if fst ps = Terminated then running (snd ps) = [] else ids_ok (snd ps))
     \<and> shutdown (snd ps) = (fst ps \<in> {Stopping, Stopped, Terminated})"

lemma main_listeners_ok:
  "main_listeners conf tr ts es urls s = (s', r) \<Longrightarrow> ids_ok s \<Longrightarrow> ids_ok s' \<and> shutdown s' = shutdown s"
proof (induction urls arbitrary: s)
  case (Cons url urls)
  show ?case
  proof (cases "tr url")
    case (Inr u)
    let ?l = "\<lparr>l_id = next_id s, l_url = url, l_targets = ts, l_endpoints = es, l_batch = None,
                l_pool = max_parallel_requests conf\<rparr>"
    let ?s = "(start_listener ?l s)\<lparr>listeners := listeners (start_listener ?l s) @ [?l]\<rparr>"
    have "ids_ok ?s" using Cons.prems(2) by (auto simp: ids_ok_def referenced_def start_listener_def less_Suc_eq)
    moreover have "main_listeners conf tr ts es urls ?s = (s', r)" using Cons.prems(1) Inr by (simp add: Let_def)
    ultimately have "ids_ok s' \<and> shutdown s' = shutdown ?s" by (intro Cons.IH)
    then show ?thesis by (simp add: start_listener_def)
  qed (use Cons.prems in simp)
qed simp

lemma configure_pipeline_listener_ok:
  assumes "ids_ok s"
  shows "ids_ok (fst (configure_pipeline_listener conf st belongs s))
    \<and> shutdown (fst (configure_pipeline_listener conf st belongs s)) = shutdown s"
  using assms
  by (auto simp: configure_pipeline_listener_def ids_ok_def referenced_def start_listener_def
      stop_pipeline_listener_def stop_listener_def less_Suc_eq Let_def split: sum.split option.split)

lemma run_watchers_ok:
  assumes "ids_ok s"
  shows "ids_ok (fst (run_watchers conf st belongs nodes s))
    \<and> shutdown (fst (run_watchers conf st belongs nodes s)) = shutdown s"
proof -
  have "ids_ok (s\<lparr>group_state := g\<rparr>)" for g using assms by (simp add: ids_ok_def referenced_def)
  from configure_pipeline_listener_ok [OF this] assms show ?thesis
    by (simp add: run_watchers_def refresh_agent_def ids_ok_def referenced_def)
qed

lemma run_watchers_shutdown:
  "shutdown s \<Longrightarrow> running (fst (run_watchers conf st belongs nodes s)) = running s
     \<and> shutdown (fst (run_watchers conf st belongs nodes s))"
  by (simp add: run_watchers_def refresh_agent_def)

lemma fold_stop_listener: "set (running (fold stop_listener ls s)) = set (running s) - l_id ` set ls"
  by (induction ls arbitrary: s) (auto simp: stop_listener_def)

lemma fold_stop_shutdown [simp]: "shutdown (fold stop_listener ls s) = shutdown s"
  by (induction ls arbitrary: s) (simp_all add: stop_listener_def)

lemma kill_all_ok: "ids_ok s \<Longrightarrow> running (kill_all s) = [] \<and> shutdown (kill_all s) = shutdown s"
proof -
  assume "ids_ok s"
  then have "set (running (kill_all s)) = {}"
    by (auto simp: kill_all_def fold_stop_listener ids_ok_def referenced_def stop_pipeline_listener_def
        stop_listener_def split: option.split)
  then show ?thesis
    by (simp add: kill_all_def stop_pipeline_listener_def stop_listener_def split: option.split)
qed

lemma service_init_ok: "ids_ok service_init" "shutdown service_init = False"
  by (simp_all add: ids_ok_def referenced_def service_init_def)

lemma service_step_ok:
  assumes "service_step conf st ps ps'" "service_ok ps"
  shows "service_ok ps'"
  using assms(1)
proof cases
  case (run s s')
  have "ids_ok (if workload_partitioning conf then s\<lparr>coordinator := True\<rparr> else s)"
    using assms(2) by (simp add: run(1) service_ok_def ids_ok_def referenced_def)
  moreover obtain s2 where
    m: "configure_main_queue_listeners conf st (if workload_partitioning conf then s\<lparr>coordinator := True\<rparr> else s) = (s2, Inr ())"
    and s': "s' = (if workload_partitioning conf then s2\<lparr>periodic := True\<rparr> else s2)"
    using run(3) by (auto simp: service_run_def Let_def split: sum.splits prod.splits)
  ultimately have "ids_ok s2 \<and> shutdown s2 = shutdown s"
    using main_listeners_ok [OF m [unfolded configure_main_queue_listeners_def Let_def]] by auto
  then show ?thesis using assms(2) by (auto simp: run(1,2) s' service_ok_def ids_ok_def referenced_def)
next
  case (watch p s belongs nodes)
  then show ?thesis
    using assms(2) run_watchers_ok [of s conf st belongs nodes] run_watchers_shutdown [of s conf st belongs nodes]
    by (auto simp: service_ok_def split: if_splits)
next
  case (kill s)
  then show ?thesis using assms(2) kill_all_ok by (simp add: service_ok_def)
qed (use assms(2) in \<open>auto simp: service_ok_def begin_shutdown_def stop_threads_def ids_ok_def referenced_def\<close>)

lemma service_reachable_init: "service_reachable conf st (Created, service_init)"
  by (simp add: service_reachable_def)

lemma service_reachable_step:
  "service_reachable conf st ps \<Longrightarrow> service_step conf st ps ps' \<Longrightarrow> service_reachable conf st ps'"
  unfolding service_reachable_def by (rule rtranclp.rtrancl_into_rtrancl)

lemma service_reachable_ok: "service_reachable conf st ps \<Longrightarrow> service_ok ps"
  unfolding service_reachable_def
  by (induction rule: rtranclp_induct)
    (auto simp: service_ok_def service_init_ok dest: service_step_ok)

section \<open>Properties\<close>

text \<open>
  C10: No listener is leaked and none survives. In every reachable state before the end the
  running listeners are exactly those the service still refers to, however often the watcher
  has moved the pipeline listener; and once \<open>terminate\<close> is through nothing runs, even when the
  watcher fires between its stages or after it.
\<close>

theorem listeners_accounted:
  assumes "service_reachable conf st (p, s)"
  shows "set (running s) = (if p = Terminated then {} else referenced s)"
  using service_reachable_ok [OF assms] by (auto simp: service_ok_def ids_ok_def split: if_splits)

definition demo_nconf :: nconf where
  "demo_nconf = \<lparr>workload_partitioning = True, pipeline_processing_queues = 2, messaging_urls = [],
     batch_size = 100, batch_timeout = 5, max_parallel_requests = 64, notification_control_exchanges = [''nova'']\<rparr>"

definition demo_inputs :: service_env where
  "demo_inputs = \<lparr>sample_pipes = [''a:b''], event_pipes = [''event:e''], plugins = [(''http'', [''notifications''])],
     transport = \<lambda>u. Inr ()\<rparr>"

theorem listeners_accounted_witness:
  "\<exists>s. service_reachable demo_nconf demo_inputs (Terminated, s) \<and> pipeline_listener s \<noteq> None
     \<and> set (running s) = {}"
proof -
  let ?s1 = "fst (service_run demo_nconf demo_inputs service_init)"
  let ?s2 = "fst (run_watchers demo_nconf demo_inputs (\<lambda>x. True) [''n''] ?s1)"
  have "snd (service_run demo_nconf demo_inputs service_init) = Inr ()" by code_simp
  then have "service_run demo_nconf demo_inputs service_init = (?s1, Inr ())" by (metis prod.collapse)
  then have 1: "service_step demo_nconf demo_inputs (Created, service_init) (Started, ?s1)" by (rule service_step.run)
  have 2: "service_step demo_nconf demo_inputs (Started, ?s1) (Started, ?s2)"
    by (rule service_step.watch) (simp_all add: demo_nconf_def)
  have r: "service_reachable demo_nconf demo_inputs (Terminated, service_terminate ?s2)"
    unfolding service_terminate_def
    by (rule service_reachable_step [OF service_reachable_step [OF service_reachable_step [OF service_reachable_step
      [OF service_reachable_step [OF service_reachable_init 1] 2] service_step.shut] service_step.stop] service_step.kill])
  have "pipeline_listener (service_terminate ?s2) \<noteq> None" by code_simp
  moreover have "set (running (service_terminate ?s2)) = {}" using listeners_accounted [OF r] by simp
  ultimately show ?thesis using r by (intro exI [of _ "service_terminate ?s2"]) simp
qed

text \<open>
  Every queue between agents has exactly one consumer. If the ring gives every set to
  exactly one of the agents, each queue a notifier of any pipeline can write to is listened to
  by exactly one of them.
\<close>

theorem one_consumer_per_queue:
  assumes "\<forall>x < pipeline_processing_queues conf. \<exists>!a. a \<in> agents \<and> belongs a x"
    and "pipe \<in> set (sample_pipes st @ event_pipes st)" "(pub, topic) \<in> set (get_notifiers conf pipe)"
  shows "\<exists>!a. a \<in> agents \<and> topic \<in> tg_topic ` set (pipeline_targets conf st (belongs a))"
proof -
  from assms(3) obtain x where x: "x < pipeline_processing_queues conf" "topic = ipc_topic pipe x"
    by (auto simp: get_notifiers_def)
  have "topic \<in> tg_topic ` set (pipeline_targets conf st (belongs a)) \<longleftrightarrow> belongs a x" for a
    using assms(2) x by (force simp: pipeline_targets_def ipc_topic_inject)
  then show ?thesis using assms(1) x(1) by simp
qed

theorem one_consumer_per_queue_witness:
  "\<exists>!a. a \<in> {0, 1 :: nat} \<and> ipc_topic ''a:b'' 1
     \<in> tg_topic ` set (pipeline_targets demo_nconf demo_inputs (\<lambda>x. x = a))"
proof (rule one_consumer_per_queue [where belongs = "\<lambda>a x. x = a" and pipe = "''a:b''" and pub = "''a:b''"])
  show "\<forall>x < pipeline_processing_queues demo_nconf. \<exists>!a. a \<in> {0, 1} \<and> x = a"
    by (auto simp: demo_nconf_def)
qed (simp_all add: demo_inputs_def demo_nconf_def get_notifiers_def)

end
