(* ===== verification/Meter_Definition.thy ===== *)
theory Meter_Definition
  imports Declarative Pipeline_Config
begin

text \<open>
  Notifications into samples (\<^verbatim>\<open>ceilometer/meter/notifications.py\<close>), with the dispatch of
  \<^verbatim>\<open>NotificationBase\<close> in \<^verbatim>\<open>ceilometer/agent/plugin_base.py\<close>.

  A generator that raises \<open>StopIteration\<close> ends, as it does on the Python versions the
  repository names (2.7 and 3.5).
\<close>

section \<open>Meter definitions\<close>

definition SAMPLE_ATTRIBUTES :: "string list" where
  "SAMPLE_ATTRIBUTES =
     [''name'', ''type'', ''volume'', ''unit'', ''timestamp'', ''user_id'', ''project_id'', ''resource_id'']"

definition REQUIRED_FIELDS :: "string list" where
  "REQUIRED_FIELDS = [''name'', ''type'', ''event_type'', ''unit'', ''volume'', ''resource_id'']"

record meter_def =
  md_cfg :: pymap
  md_event_type :: pyval
  md_fallback_user :: definition_obj
  md_fallback_project :: definition_obj
  md_attributes :: "(string, definition_obj) pydict"
  md_metadata :: "(string, definition_obj) pydict"
  md_user_meta :: "definition_obj option"
  md_lookup :: pyval

definition cfg_get :: "pymap \<Rightarrow> string \<Rightarrow> pyval" where
  "cfg_get m k = dict_get_default m k PNone"

definition as_list :: "pyval \<Rightarrow> pyval" where
  "as_list v = (if is_str v then PList [v] else v)"

text \<open>The definitions of a dictionary of fields, each parsed path going into the cache.\<close>

fun field_defs ::
  "denv \<Rightarrow> plugin_manager \<Rightarrow> (string \<times> pyval) list \<Rightarrow> getters \<Rightarrow> (getters, (string, definition_obj) pydict) sres" where
  "field_defs env plugins [] cache = (cache, Inr [])"
| "field_defs env plugins ((n, cfg) # rest) cache =
     (case definition_init env plugins (Some n) cfg cache of
        (c1, Inl e) \<Rightarrow> (c1, Inl e)
      | (c1, Inr d) \<Rightarrow>
          (case field_defs env plugins rest c1 of
             (c2, Inl e) \<Rightarrow> (c2, Inl e)
           | (c2, Inr ds) \<Rightarrow> (c2, Inr ((n, d) # ds))))"

definition required_missing :: "pymap \<Rightarrow> string list" where
  "required_missing m = filter (\<lambda>f. \<not> truthy (cfg_get m f)) REQUIRED_FIELDS"

text \<open>
  The checks before any path is parsed. A missing \<open>lookup\<close> names no field; one that is text
  is searched for the substring.
\<close>

definition meter_checks :: "pyval \<Rightarrow> pymap res" where
  "meter_checks cfg =
     (case cfg of
        PDict m \<Rightarrow>
          (if required_missing m \<noteq> []
           then Inl (MeterDefinitionException (''Required fields '' @ join '', '' (required_missing m) @ '' not specified''))
           else bindr (py_contains (dict_get_default m ''lookup'' (PList [])) ''type'') (\<lambda>looked_up.
             if \<not> looked_up \<and> \<not> py_in (cfg_get m ''type'') [PStr TYPE_GAUGE, PStr TYPE_DELTA, PStr TYPE_CUMULATIVE]
             then Inl (MeterDefinitionException ''Invalid type specified'')
             else Inr m))
      | _ \<Rightarrow> Inl (AttributeError ''get''))"

definition named_defs :: "pyval \<Rightarrow> (string \<times> pyval) list res" where
  "named_defs v =
     bindr (py_iter v) (mapr (\<lambda>k. bindr (py_getitem v k) (\<lambda>w. bindr (key_str k) (\<lambda>s. Inr (s, w)))))"

text \<open>The two fallbacks, the attributes that are configured, then the metadata.\<close>

definition attribute_items :: "pymap \<Rightarrow> (string \<times> pyval) list" where
  "attribute_items m =
     map (\<lambda>n. (n, cfg_get m n)) (filter (\<lambda>n. truthy (cfg_get m n)) SAMPLE_ATTRIBUTES)"

definition fallback_items :: "(string \<times> pyval) list" where
  "fallback_items =
     [(''user_id'', PStr ''ctxt.user_id|ctxt.user''), (''project_id'', PStr ''ctxt.tenant_id|ctxt.tenant'')]"

definition meter_def_init :: "denv \<Rightarrow> plugin_manager \<Rightarrow> pyval \<Rightarrow> getters \<Rightarrow> (getters, meter_def) sres" where
  "meter_def_init env plugins cfg cache =
     (case meter_checks cfg of
        Inl e \<Rightarrow> (cache, Inl e)
      | Inr m \<Rightarrow>
     (case field_defs env plugins (fallback_items @ attribute_items m) cache of
        (c1, Inl e) \<Rightarrow> (c1, Inl e)
      | (c1, Inr ds) \<Rightarrow>
     (case named_defs (dict_get_default m ''metadata'' (PDict [])) of
        Inl e \<Rightarrow> (c1, Inl e)
      | Inr items \<Rightarrow>
     (case field_defs env plugins items c1 of
        (c2, Inl e) \<Rightarrow> (c2, Inl e)
      | (c2, Inr mds) \<Rightarrow>
     (case (if truthy (cfg_get m ''user_metadata'')
            then (case definition_init env plugins None (cfg_get m ''user_metadata'') c2 of
                    (c3, r) \<Rightarrow> (c3, bindr r (\<lambda>d. Inr (Some d))))
            else (c2, Inr None)) of
        (c3, Inl e) \<Rightarrow> (c3, Inl e)
      | (c3, Inr um) \<Rightarrow>
          (c3, Inr \<lparr>md_cfg = m, md_event_type = as_list (cfg_get m ''event_type''),
                    md_fallback_user = snd (ds ! 0), md_fallback_project = snd (ds ! 1),
                    md_attributes = drop 2 ds, md_metadata = mds, md_user_meta = um,
                    md_lookup = as_list (cfg_get m ''lookup'')\<rparr>))))))"

text \<open>\<open>match_type\<close>: the event type against each pattern; both must be text.\<close>

fun match_patterns :: "matcher \<Rightarrow> pyval \<Rightarrow> pyval list \<Rightarrow> bool res" where
  "match_patterns fnm v [] = Inr False"
| "match_patterns fnm v (t # ts) =
     (case (v, t) of
        (PStr s, PStr p) \<Rightarrow> (if fnm s p then Inr True else match_patterns fnm v ts)
      | _ \<Rightarrow> Inl TypeError)"

definition meter_match :: "matcher \<Rightarrow> meter_def \<Rightarrow> pyval \<Rightarrow> bool res" where
  "meter_match fnm d v = bindr (py_iter (md_event_type d)) (match_patterns fnm v)"

section \<open>Samples of a notification\<close>

text \<open>The keyword arguments of one sample before the attributes are parsed.\<close>

fun metadata_values :: "denv \<Rightarrow> pyval \<Rightarrow> (string, definition_obj) pydict \<Rightarrow> pymap \<Rightarrow> pymap res" where
  "metadata_values env message [] acc = Inr acc"
| "metadata_values env message ((n, d) # ds) acc =
     bindr (parse_def env d message False) (\<lambda>v.
       metadata_values env message ds (if truthy v then dict_set n v acc else acc))"

definition user_metadata_of :: "sample_conf \<Rightarrow> pyval \<Rightarrow> pymap \<Rightarrow> pymap res" where
  "user_metadata_of conf meta md =
     (if \<not> truthy meta then Inr md
      else (case meta of
          PDict src \<Rightarrow> Inr (add_reserved_user_metadata conf src md)
        | _ \<Rightarrow> (if reserved_metadata_namespace conf = [] \<and> reserved_metadata_keys conf = []
                then Inr md else Inl (AttributeError ''items''))))"

definition sample_defaults :: "sample_conf \<Rightarrow> denv \<Rightarrow> meter_def \<Rightarrow> pyval \<Rightarrow> pymap res" where
  "sample_defaults conf env d message =
     bindr (parse_def env (md_fallback_user d) message False) (\<lambda>user.
     bindr (parse_def env (md_fallback_project d) message False) (\<lambda>project.
     bindr (metadata_values env message (md_metadata d) []) (\<lambda>md.
     bindr (case md_user_meta d of
              None \<Rightarrow> Inr md
            | Some um \<Rightarrow> bindr (parse_def env um message False) (\<lambda>meta. user_metadata_of conf meta md)) (\<lambda>md'.
       Inr [(''name'', cfg_get (md_cfg d) ''name''), (''type'', cfg_get (md_cfg d) ''type''),
            (''unit'', cfg_get (md_cfg d) ''unit''), (''volume'', PNone), (''timestamp'', PNone),
            (''user_id'', user), (''project_id'', project), (''resource_id'', PNone),
            (''message'', message), (''metadata'', PDict md')]))))"

text \<open>
  Whether a parsed value replaces the default. With a lookup, the attributes it names and
  the name are replaced by whatever was found; \<open>lookup + ['name']\<close> requires a list.
\<close>

definition overrides :: "pyval \<Rightarrow> string \<Rightarrow> pyval \<Rightarrow> bool res" where
  "overrides lookup name value =
     (if \<not> truthy lookup then Inr (value \<noteq> PNone)
      else (case lookup of
          PList ns \<Rightarrow> Inr (py_in (PStr name) (ns @ [PStr ''name'']) \<or> truthy value)
        | _ \<Rightarrow> Inl TypeError))"

fun attribute_values :: "denv \<Rightarrow> meter_def \<Rightarrow> pyval \<Rightarrow> string list \<Rightarrow> pymap \<Rightarrow> pymap res" where
  "attribute_values env d message [] s = Inr s"
| "attribute_values env d message (n # ns) s =
     (case dict_get (md_attributes d) n of
        None \<Rightarrow> attribute_values env d message ns s
      | Some p \<Rightarrow>
          bindr (parse_def env p message (truthy (md_lookup d))) (\<lambda>value.
          bindr (overrides (md_lookup d) n value) (\<lambda>b.
            attribute_values env d message ns (if b then dict_set n value s else s))))"

text \<open>
  The columns of a lookup: a value for each sample, or one value for all of them unless the
  lookup names the attribute. Any other number of values means no sample at all (\<open>None\<close>).
\<close>

fun columns :: "pyval \<Rightarrow> nat \<Rightarrow> pymap \<Rightarrow> string list \<Rightarrow> pyval list list option res" where
  "columns lookup nb s [] = Inr (Some [])"
| "columns lookup nb s (n # ns) =
     bindr (py_iter (cfg_get s n)) (\<lambda>vs.
     bindr (if length vs = nb then Inr (Some vs)
            else if length vs = 1
            then bindr (py_contains lookup n) (\<lambda>named. Inr (if named then None else Some (replicate nb (hd vs))))
            else Inr None) (\<lambda>col.
       (case col of
          None \<Rightarrow> Inr None
        | Some c \<Rightarrow> bindr (columns lookup nb s ns) (\<lambda>rest. Inr (map_option (\<lambda>cs. c # cs) rest)))))"

definition sample_rows :: "string list \<Rightarrow> nat \<Rightarrow> pyval list list \<Rightarrow> pymap list" where
  "sample_rows ns nb cs = map (\<lambda>i. zip ns (map (\<lambda>c. c ! i) cs)) [0..<nb]"

definition LOOKUP_ATTRIBUTES :: "string list" where
  "LOOKUP_ATTRIBUTES = SAMPLE_ATTRIBUTES @ [''message'', ''metadata'']"

definition lookup_samples :: "pyval \<Rightarrow> pymap \<Rightarrow> pymap list res" where
  "lookup_samples lookup s =
     bindr (py_len (cfg_get s ''name'')) (\<lambda>nb.
       if nb = 0 then Inr []
       else bindr (columns lookup nb s LOOKUP_ATTRIBUTES) (\<lambda>cols.
         Inr (case cols of None \<Rightarrow> [] | Some cs \<Rightarrow> sample_rows LOOKUP_ATTRIBUTES nb cs)))"

definition to_samples :: "sample_conf \<Rightarrow> denv \<Rightarrow> meter_def \<Rightarrow> pyval \<Rightarrow> pymap list res" where
  "to_samples conf env d message =
     bindr (sample_defaults conf env d message) (\<lambda>s0.
     let many = truthy (md_lookup d);
         s1 = (if many then map (\<lambda>(k, v). (k, PList [v])) s0 else s0)
     in bindr (attribute_values env d message SAMPLE_ATTRIBUTES s1) (\<lambda>s2.
          if many then lookup_samples (md_lookup d) s2 else Inr [s2]))"

section \<open>Loading and dispatch\<close>

record meter_conf =
  meter_definitions_dirs :: "string list"
  meter_definitions_cfg_file :: "string option"

text \<open>
  \<open>_load_definitions\<close>. \<open>globbed d\<close> is the sorted list of the \<open>*.yaml\<close> files of a directory.
  When the deprecated option names a file, \<open>resource_filename\<close> is called with one argument
  and raises \<open>TypeError\<close>.
\<close>

definition meter_files :: "(string \<Rightarrow> string list) \<Rightarrow> meter_conf \<Rightarrow> string list res" where
  "meter_files globbed conf =
     (case meter_definitions_cfg_file conf of
        None \<Rightarrow> Inr (concat (map globbed (meter_definitions_dirs conf)))
      | Some f \<Rightarrow> Inl TypeError)"

type_synonym meter_defs = "(pyval \<times> meter_def) list"

definition is_definition_error :: "pyexc \<Rightarrow> bool" where
  "is_definition_error e =
     (case e of DefinitionException m \<Rightarrow> True | MeterDefinitionException m \<Rightarrow> True
      | EventDefinitionException m \<Rightarrow> True | _ \<Rightarrow> False)"

text \<open>
  The definitions of one file, last one first; a name that is loaded already is skipped, and
  so is a definition that is refused.
\<close>

fun load_meters ::
  "denv \<Rightarrow> plugin_manager \<Rightarrow> pyval list \<Rightarrow> meter_defs \<Rightarrow> getters \<Rightarrow> (getters, meter_defs) sres" where
  "load_meters env plugins [] defs cache = (cache, Inr defs)"
| "load_meters env plugins (cfg # cfgs) defs cache =
     (case py_get cfg ''name'' PNone of
        Inl e \<Rightarrow> (cache, Inl e)
      | Inr name \<Rightarrow>
          (if \<not> hashable name then (cache, Inl TypeError)
           else if py_in name (map fst defs) then load_meters env plugins cfgs defs cache
           else
             (case meter_def_init env plugins cfg cache of
                (c1, Inl e) \<Rightarrow>
                  (if is_definition_error e then load_meters env plugins cfgs defs c1 else (c1, Inl e))
              | (c1, Inr d) \<Rightarrow> load_meters env plugins cfgs (defs @ [(name, d)]) c1)))"

definition file_meters :: "files \<Rightarrow> string \<Rightarrow> pyval list res" where
  "file_meters fs mf =
     bindr (load_definitions fs (PDict []) mf None) (\<lambda>cfg.
     bindr (py_getitem cfg (PStr ''metric'')) (\<lambda>v.
       (case v of PList xs \<Rightarrow> Inr (rev xs) | PTuple xs \<Rightarrow> Inr (rev xs) | _ \<Rightarrow> Inl TypeError)))"

fun load_meter_files ::
  "files \<Rightarrow> denv \<Rightarrow> plugin_manager \<Rightarrow> string list \<Rightarrow> meter_defs \<Rightarrow> getters \<Rightarrow> (getters, meter_defs) sres" where
  "load_meter_files fs env plugins [] defs cache = (cache, Inr defs)"
| "load_meter_files fs env plugins (mf # mfs) defs cache =
     (case file_meters fs mf of
        Inl e \<Rightarrow> (cache, Inl e)
      | Inr cfgs \<Rightarrow>
          (case load_meters env plugins cfgs defs cache of
             (c1, Inl e) \<Rightarrow> (c1, Inl e)
           | (c1, Inr defs') \<Rightarrow> load_meter_files fs env plugins mfs defs' c1))"

text \<open>
  \<open>process_notification\<close>: the samples of every definition that matches. \<open>mk\<close> builds a
  sample from its keyword arguments (\<open>Sample.from_notification\<close>).
\<close>

fun process_notification ::
  "sample_conf \<Rightarrow> matcher \<Rightarrow> denv \<Rightarrow> (pymap \<Rightarrow> 'sample res) \<Rightarrow> meter_def list \<Rightarrow> pyval \<Rightarrow> 'sample list res" where
  "process_notification conf fnm env mk [] body = Inr []"
| "process_notification conf fnm env mk (d # ds) body =
     bindr (py_getitem body (PStr ''event_type'')) (\<lambda>et.
     bindr (meter_match fnm d et) (\<lambda>b.
     bindr (if b then bindr (to_samples conf env d body) (mapr mk) else Inr []) (\<lambda>ss.
     bindr (process_notification conf fnm env mk ds body) (\<lambda>rest. Inr (ss @ rest)))))"

text \<open>
  \<open>info\<close> and \<open>sample\<close> of \<open>NotificationBase\<close>: an exception is logged and the next
  notification is processed; the other priorities consume and drop. \<open>ctx r w\<close> is a publish
  context whose body publishes the samples of \<open>r\<close> or raises.
\<close>

fun process_notifications ::
  "(pyval \<Rightarrow> 'sample list res) \<Rightarrow> ('sample list res \<Rightarrow> 'w \<Rightarrow> 'w \<times> unit res) \<Rightarrow> pyval list \<Rightarrow> 'w \<Rightarrow> 'w" where
  "process_notifications process ctx [] w = w"
| "process_notifications process ctx (n # ns) w =
     process_notifications process ctx ns (fst (ctx (process n) w))"

datatype priority = Audit | Debug | Warn | Error | Critical | Info | SamplePriority

definition dispatch ::
  "(pyval \<Rightarrow> 'sample list res) \<Rightarrow> ('sample list res \<Rightarrow> 'w \<Rightarrow> 'w \<times> unit res) \<Rightarrow> priority \<Rightarrow>
   pyval list \<Rightarrow> 'w \<Rightarrow> 'w" where
  "dispatch process ctx p ns w =
     (if p = Info \<or> p = SamplePriority then process_notifications process ctx ns w else w)"

section \<open>Facts\<close>

lemma columns_shape:
  "columns lookup nb s ns = Inr (Some cs) \<Longrightarrow>
   list_all2 (\<lambda>n c. \<exists>vs. py_iter (cfg_get s n) = Inr vs \<and> length c = nb
     \<and> (length vs = nb \<and> c = vs \<or> length vs = 1 \<and> py_contains lookup n = Inr False \<and> c = replicate nb (hd vs))) ns cs"
proof (induction ns arbitrary: cs)
  case (Cons n ns)
  from Cons.prems obtain vs where vs: "py_iter (cfg_get s n) = Inr vs"
    by (auto simp: bindr_Inr_iff)
  from Cons.prems vs obtain c ds where cs: "cs = c # ds" and rest: "columns lookup nb s ns = Inr (Some ds)"
    and c: "length vs = nb \<and> c = vs \<or> length vs = 1 \<and> py_contains lookup n = Inr False \<and> c = replicate nb (hd vs)"
    by (auto simp: bindr_Inr_iff split: if_splits option.splits)
  then have "length c = nb" by auto
  with c vs Cons.IH [OF rest] show ?case by (auto simp: cs)
qed simp

lemma columns_length: "columns lookup nb s ns = Inr (Some cs) \<Longrightarrow> length cs = length ns"
  using columns_shape [of lookup nb s ns cs] by (simp add: list_all2_lengthD)

lemma map_of_zip_nth:
  "distinct ks \<Longrightarrow> length vs = length ks \<Longrightarrow> i < length ks \<Longrightarrow> map_of (zip ks vs) (ks ! i) = Some (vs ! i)"
  by (rule map_of_is_SomeI) (auto simp: set_zip)

lemma LOOKUP_ATTRIBUTES_distinct: "distinct LOOKUP_ATTRIBUTES"
  by (simp add: LOOKUP_ATTRIBUTES_def SAMPLE_ATTRIBUTES_def)

lemma row_value:
  assumes cs: "columns lookup nb s LOOKUP_ATTRIBUTES = Inr (Some cs)" and i: "i < nb" and a: "a \<in> set LOOKUP_ATTRIBUTES"
  shows "\<exists>vs. py_iter (cfg_get s a) = Inr vs
    \<and> dict_get (sample_rows LOOKUP_ATTRIBUTES nb cs ! i) a = Some (if length vs = nb then vs ! i else hd vs)"
proof -
  obtain j where j: "j < length LOOKUP_ATTRIBUTES" "a = LOOKUP_ATTRIBUTES ! j"
    using a by (auto simp: in_set_conv_nth)
  have len: "length cs = length LOOKUP_ATTRIBUTES" by (rule columns_length [OF cs])
  obtain vs where vs: "py_iter (cfg_get s a) = Inr vs"
      "length vs = nb \<and> cs ! j = vs \<or> length vs = 1 \<and> cs ! j = replicate nb (hd vs)"
    using list_all2_nthD [OF columns_shape [OF cs] j(1)] j(2) by auto
  have "dict_get (sample_rows LOOKUP_ATTRIBUTES nb cs ! i) a = Some (cs ! j ! i)"
    using map_of_zip_nth [OF LOOKUP_ATTRIBUTES_distinct, of "map (\<lambda>c. c ! i) cs" j] i j len
    by (simp add: sample_rows_def)
  also have "cs ! j ! i = (if length vs = nb then vs ! i else hd vs)"
    using vs(2) i by (cases vs) auto
  finally show ?thesis using vs(1) by blast
qed

lemma attribute_values_keys:
  "attribute_values env d message ns s = Inr s' \<Longrightarrow> set ns \<subseteq> set (dict_keys s) \<Longrightarrow> dict_keys s' = dict_keys s"
proof (induction ns arbitrary: s)
  case (Cons n ns)
  have keys: "dict_keys (dict_set n v s) = dict_keys s" for v
    using Cons.prems(2) by (intro dict_set_present_keys) simp
  show ?case
  proof (cases "dict_get (md_attributes d) n")
    case None
    then show ?thesis using Cons.prems by (intro Cons.IH) simp_all
  next
    case (Some p)
    from Cons.prems(1) Some obtain v b where
        rest: "attribute_values env d message ns (if b then dict_set n v s else s) = Inr s'"
      by (auto simp: bindr_Inr_iff)
    have k: "dict_keys (if b then dict_set n v s else s) = dict_keys s" using keys by simp
    have "dict_keys s' = dict_keys (if b then dict_set n v s else s)"
      using Cons.prems(2) by (intro Cons.IH [OF rest]) (simp add: k del: set_map)
    then show ?thesis by (simp only: k)
  qed
qed simp

lemma sample_defaults_keys:
  "sample_defaults conf env d message = Inr s \<Longrightarrow>
   dict_keys s = [''name'', ''type'', ''unit'', ''volume'', ''timestamp'', ''user_id'', ''project_id'', ''resource_id'',
                  ''message'', ''metadata'']"
  by (auto simp: sample_defaults_def bindr_Inr_iff)

lemma load_meters_distinct:
  "snd (load_meters env plugins cfgs defs cache) = Inr out \<Longrightarrow> distinct (map fst defs) \<Longrightarrow>
   distinct (map fst out) \<and> (\<exists>new. out = defs @ new)"
proof (induction cfgs arbitrary: defs cache)
  case (Cons cfg cfgs)
  from Cons.prems(1) obtain name where name: "py_get cfg ''name'' PNone = Inr name" "hashable name"
    by (auto split: sum.splits if_splits)
  obtain c1 r where init: "meter_def_init env plugins cfg cache = (c1, r)" by fastforce
  show ?case
  proof (cases "py_in name (map fst defs)")
    case True
    then show ?thesis using Cons.prems name by (intro Cons.IH [of defs cache]) simp_all
  next
    case False
    then have fresh: "name \<notin> fst ` set defs" by (force simp: py_in_def list_ex_iff)
    show ?thesis
    proof (cases r)
      case (Inl e)
      then show ?thesis using Cons.prems name False init
        by (intro Cons.IH [of defs c1]) (auto split: if_splits)
    next
      case (Inr d)
      then have "snd (load_meters env plugins cfgs (defs @ [(name, d)]) c1) = Inr out"
        using Cons.prems(1) name False init by simp
      from Cons.IH [OF this] Cons.prems(2) fresh show ?thesis by auto
    qed
  qed
qed simp

section \<open>Properties\<close>

text \<open>
  Every set of keyword arguments that a meter definition yields has exactly the
  arguments of \<open>Sample.from_notification\<close>, each once: no sample is built with a missing or an
  unexpected argument.
\<close>

theorem to_samples_arguments:
  assumes "to_samples conf env d message = Inr ss" "s \<in> set ss"
  shows "dict_ok s \<and> set (dict_keys s) = set LOOKUP_ATTRIBUTES"
proof -
  from assms(1) obtain s0 s2 where s0: "sample_defaults conf env d message = Inr s0"
    and s2: "attribute_values env d message SAMPLE_ATTRIBUTES
        (if truthy (md_lookup d) then map (\<lambda>(k, v). (k, PList [v])) s0 else s0) = Inr s2"
    and ss: "(if truthy (md_lookup d) then lookup_samples (md_lookup d) s2 else Inr [s2]) = Inr ss"
    by (auto simp: to_samples_def bindr_Inr_iff Let_def)
  have wrap: "dict_keys (map (\<lambda>(k, v). (k, PList [v])) s0) = dict_keys s0"
    by (simp add: case_prod_beta comp_def)
  have keys: "dict_keys s2 = dict_keys s0"
    using attribute_values_keys [OF s2] wrap
    by (auto simp: sample_defaults_keys [OF s0] SAMPLE_ATTRIBUTES_def split: if_splits simp del: set_map)
  show ?thesis
  proof (cases "truthy (md_lookup d)")
    case False
    then have "s = s2" using ss assms(2) by auto
    then show ?thesis
      by (simp add: dict_ok_def keys sample_defaults_keys [OF s0] LOOKUP_ATTRIBUTES_def SAMPLE_ATTRIBUTES_def
          del: set_map) auto
  next
    case True
    with ss assms(2) obtain nb cs where cs: "columns (md_lookup d) nb s2 LOOKUP_ATTRIBUTES = Inr (Some cs)"
      and "s \<in> set (sample_rows LOOKUP_ATTRIBUTES nb cs)"
      by (auto simp: lookup_samples_def bindr_Inr_iff split: if_splits option.splits)
    then have "dict_keys s = LOOKUP_ATTRIBUTES"
      using columns_length [OF cs] by (auto simp: sample_rows_def)
    then show ?thesis using LOOKUP_ATTRIBUTES_distinct by (simp add: dict_ok_def del: set_map)
  qed
qed

text \<open>
  A notification with two disks, an environment that finds the fields of the payload, and a
  meter definition that looks up the name and the volume.
\<close>

definition demo_paths :: "string \<Rightarrow> finder res" where
  "demo_paths s = Inr (\<lambda>v. Inr
     (if s = ''n'' then [JMatch None ''n'' (PStr ''a''), JMatch None ''n'' (PStr ''b'')]
      else if s = ''v'' then [JMatch None ''v'' (PInt 1), JMatch None ''v'' (PInt 2)]
      else if s = ''r'' then [JMatch None ''r'' (PStr ''res'')] else []))"

definition demo_meter_env :: denv where
  "demo_meter_env = \<lparr>jsonpath = demo_paths, d_isotime = \<lambda>s. Inr 0, d_repr = \<lambda>v. []\<rparr>"

definition demo_meter :: pyval where
  "demo_meter = PDict
     [(''name'', PStr ''n''), (''type'', PStr ''gauge''), (''event_type'', PStr ''x''), (''unit'', PStr ''u''),
      (''volume'', PStr ''v''), (''resource_id'', PStr ''r''), (''lookup'', PList [PStr ''volume''])]"

definition demo_sample_conf :: sample_conf where
  "demo_sample_conf = \<lparr>reserved_metadata_namespace = [], reserved_metadata_length = 256, reserved_metadata_keys = []\<rparr>"

theorem to_samples_arguments_witness:
  "case snd (meter_def_init demo_meter_env builtin_plugins demo_meter []) of
     Inl e \<Rightarrow> False
   | Inr d \<Rightarrow>
       (case to_samples demo_sample_conf demo_meter_env d (PDict []) of
          Inr [s1, s2] \<Rightarrow> dict_ok s1 \<and> set (dict_keys s1) = set LOOKUP_ATTRIBUTES
        | _ \<Rightarrow> False)"
proof -
  have "case snd (meter_def_init demo_meter_env builtin_plugins demo_meter []) of
      Inl e \<Rightarrow> False
    | Inr d \<Rightarrow> (case to_samples demo_sample_conf demo_meter_env d (PDict []) of Inr [s1, s2] \<Rightarrow> True | _ \<Rightarrow> False)"
    by code_simp
  then obtain d s1 s2 where d: "snd (meter_def_init demo_meter_env builtin_plugins demo_meter []) = Inr d"
      and ss: "to_samples demo_sample_conf demo_meter_env d (PDict []) = Inr [s1, s2]"
    by (auto split: sum.splits list.splits)
  from to_samples_arguments [OF ss, of s1] show ?thesis by (simp add: d ss)
qed

text \<open>
  A lookup yields no sample or one for each name that was found. In sample \<open>i\<close> every
  attribute has the \<open>i\<close>-th of its values when there are as many values as names, and otherwise
  the single value it has.
\<close>

theorem lookup_samples_columns:
  assumes "lookup_samples lookup s = Inr ss" "ss \<noteq> []"
  shows "py_len (cfg_get s ''name'') = Inr (length ss)
    \<and> (\<forall>i < length ss. \<forall>a \<in> set LOOKUP_ATTRIBUTES. \<exists>vs. py_iter (cfg_get s a) = Inr vs
         \<and> dict_get (ss ! i) a = Some (if length vs = length ss then vs ! i else hd vs))"
proof -
  from assms obtain nb cs where nb: "py_len (cfg_get s ''name'') = Inr nb"
      and cs: "columns lookup nb s LOOKUP_ATTRIBUTES = Inr (Some cs)"
      and ss: "ss = sample_rows LOOKUP_ATTRIBUTES nb cs"
    by (auto simp: lookup_samples_def bindr_Inr_iff split: if_splits option.splits)
  have "length ss = nb" by (simp add: ss sample_rows_def)
  then show ?thesis using row_value [OF cs] nb by (simp add: ss)
qed

definition demo_columns :: pymap where
  "demo_columns = map (\<lambda>n. (n, PList (if n = ''name'' then [PStr ''a'', PStr ''b'']
     else if n = ''volume'' then [PInt 1, PInt 2] else [PStr n]))) LOOKUP_ATTRIBUTES"

theorem lookup_samples_columns_witness:
  "case lookup_samples (PList [PStr ''volume'']) demo_columns of
     Inl e \<Rightarrow> False
   | Inr ss \<Rightarrow> length ss = 2 \<and> dict_get (ss ! 1) ''volume'' = Some (PInt 2)
       \<and> dict_get (ss ! 1) ''unit'' = Some (PStr ''unit'')"
proof -
  have "case lookup_samples (PList [PStr ''volume'']) demo_columns of Inl e \<Rightarrow> False | Inr ss \<Rightarrow> length ss = 2"
    by code_simp
  then obtain ss where ss: "lookup_samples (PList [PStr ''volume'']) demo_columns = Inr ss" and len: "length ss = 2"
    by (auto split: sum.splits)
  have "ss \<noteq> []" using len by auto
  note P = lookup_samples_columns [OF ss this]
  have it: "py_iter (cfg_get demo_columns ''volume'') = Inr [PInt 1, PInt 2]"
    "py_iter (cfg_get demo_columns ''unit'') = Inr [PStr ''unit'']"
    by code_simp+
  have at: "''volume'' \<in> set LOOKUP_ATTRIBUTES" "''unit'' \<in> set LOOKUP_ATTRIBUTES"
    by (simp_all add: LOOKUP_ATTRIBUTES_def SAMPLE_ATTRIBUTES_def)
  have "dict_get (ss ! 1) ''volume'' = Some (PInt 2)" "dict_get (ss ! 1) ''unit'' = Some (PStr ''unit'')"
    using P len at it by (auto dest!: spec [where x = 1])
  then show ?thesis using len by (simp add: ss)
qed

end
