(* ===== verification/Agent_Discovery.thy ===== *)
theory Agent_Discovery
  imports Pipeline_Config Url
    "HOL-Library.Multiset"
begin

text \<open>
  The discovery half of \<^verbatim>\<open>ceilometer/agent/manager.py\<close>: the loading of extensions, the cached
  keystone client, the discoverers with the per-cycle cache and the partitioning of resources
  over the agents, and the resources of a source.

  A resource is a value; resources are compared with the equality of Python. \<open>'w\<close> is the
  outside world a discoverer or keystone looks at, \<open>'k\<close> the type of keystone clients.
\<close>

section \<open>Extensions\<close>

text \<open>
  \<open>_get_ext_mgr\<close>: the entry points of a namespace with what loading each one gives. An
  \<open>ExtensionLoadError\<close> or an \<open>ImportError\<close> skips the extension, any other error ends it.
\<close>

fun load_extensions :: "(string \<times> 'e res) list \<Rightarrow> 'e list res" where
  "load_extensions [] = Inr []"
| "load_extensions ((n, r) # rest) =
     (case r of
        Inr e \<Rightarrow> bindr (load_extensions rest) (\<lambda>es. Inr (e # es))
      | Inl x \<Rightarrow> (if x = ExtensionLoadError \<or> x = ImportError then load_extensions rest else Inl x))"

text \<open>\<open>get_pollsters_extensions\<close>: an error of a builder is an \<open>ExtensionLoadError\<close>.\<close>

definition get_pollsters_extensions :: "'e list res \<Rightarrow> 'e list res" where
  "get_pollsters_extensions built = (case built of Inl x \<Rightarrow> Inl ExtensionLoadError | Inr es \<Rightarrow> Inr es)"

text \<open>
  \<open>_extensions_from_builder\<close>: stevedore's \<open>map\<close> logs what a builder raises and goes on with
  the next one.
\<close>

definition extensions_from_builder :: "(string \<times> 'e list res res) list \<Rightarrow> 'e list res" where
  "extensions_from_builder eps =
     bindr (load_extensions eps) (\<lambda>builders.
       Inr (concat (map (\<lambda>b. case get_pollsters_extensions b of Inl x \<Rightarrow> [] | Inr es \<Rightarrow> es) builders)))"

section \<open>Keystone\<close>

record 'k keystone_state =
  ks_client :: "'k option"
  ks_exception :: "pyexc option"

definition ks_reset :: "'k keystone_state \<Rightarrow> 'k keystone_state" where
  "ks_reset ks = ks\<lparr>ks_client := None, ks_exception := None\<rparr>"

text \<open>\<open>ka_exceptions.ClientException\<close>\<close>

definition is_client_exception :: "pyexc \<Rightarrow> bool" where
  "is_client_exception e = (case e of KeystoneError m \<Rightarrow> True | _ \<Rightarrow> False)"

text \<open>
  The \<open>keystone\<close> property: one attempt to get a client per polling cycle; its failure is
  remembered and raised again. An exception that is no client exception is not remembered.
\<close>

definition keystone :: "'k res \<Rightarrow> 'k keystone_state \<Rightarrow> ('k keystone_state, 'k) sres" where
  "keystone get_client ks =
     (let (ks1, r) =
        (if ks_client ks = None \<and> ks_exception ks = None
         then (case get_client of
             Inr c \<Rightarrow> (ks\<lparr>ks_client := Some c, ks_exception := None\<rparr>, None)
           | Inl e \<Rightarrow>
               (if is_client_exception e then (ks\<lparr>ks_client := None, ks_exception := Some e\<rparr>, None)
                else (ks, Some e)))
         else (ks, None))
      in case r of
           Some e \<Rightarrow> (ks1, Inl e)
         | None \<Rightarrow>
             (case ks_client ks1 of
                Some c \<Rightarrow> (ks1, Inr c)
              | None \<Rightarrow> (ks1, Inl (case ks_exception ks1 of Some e \<Rightarrow> e | None \<Rightarrow> TypeError))))"

section \<open>Discovery\<close>

record 'w discoverer =
  di_name :: string
  di_group_id :: "string option"
  di_service :: "string option"
  di_discover :: "string option \<Rightarrow> 'w \<Rightarrow> pyval list res"

text \<open>
  What an agent is configured with: the prefix of its groups, whether it has a coordinator,
  the rings it joined (\<open>rings g v\<close>: does \<open>v\<close> belong to this agent in group \<open>g\<close>), and its
  discoverers; and of other code: keystone, the service types of the configuration, text and
  hash of values.
\<close>

record ('w, 'k) agent =
  ag_prefix :: string
  ag_coordinator :: bool
  ag_hashrings :: "string \<Rightarrow> (string \<Rightarrow> bool) option"
  ag_discoveries :: "'w discoverer list"
  get_client :: "'w \<Rightarrow> 'k res"
  has_endpoints :: "'k \<Rightarrow> string \<Rightarrow> bool res"
  service_type :: "string \<Rightarrow> string res"
  ag_text :: "pyval \<Rightarrow> string"
  hash_of_set :: "pyval list \<Rightarrow> string res"

definition construct_group_id :: "('w, 'k, 'x) agent_scheme \<Rightarrow> string \<Rightarrow> string" where
  "construct_group_id ag g = ag_prefix ag @ ''-'' @ g"

definition group_text :: "string option \<Rightarrow> string" where
  "group_text g = (case g of None \<Rightarrow> ''None'' | Some s \<Rightarrow> s)"

definition parse_discoverer :: "string \<Rightarrow> (string \<times> string option) res" where
  "parse_discoverer url =
     bindr (urlparse url) (\<lambda>u.
       Inr (if u_scheme u \<noteq> [] then u_scheme u else u_path u,
            if u_scheme u \<noteq> [] then Some (u_netloc u @ u_path u) else None))"

definition find_discoverer :: "('w, 'k, 'x) agent_scheme \<Rightarrow> string \<Rightarrow> 'w discoverer option" where
  "find_discoverer ag name = List.find (\<lambda>d. di_name d = name) (ag_discoveries ag)"

text \<open>The share of this agent in a group; a group that was never joined raises \<open>KeyError\<close>.\<close>

definition my_share :: "('w, 'k, 'x) agent_scheme \<Rightarrow> string \<Rightarrow> pyval list \<Rightarrow> pyval list res" where
  "my_share ag grp vs =
     (if \<not> ag_coordinator ag then Inr vs
      else filterr (\<lambda>v.
        (case ag_hashrings ag (construct_group_id ag grp) of
           None \<Rightarrow> Inl (KeyError (construct_group_id ag grp))
         | Some belongs \<Rightarrow> Inr (belongs (ag_text ag v)))) vs)"

text \<open>
  Whether the service a discoverer needs is in the catalog; \<open>None\<close> when it needs none. This
  may create the keystone client.
\<close>

definition service_ok ::
  "('w, 'k, 'x) agent_scheme \<Rightarrow> 'w \<Rightarrow> 'w discoverer \<Rightarrow> 'k keystone_state \<Rightarrow> ('k keystone_state, bool) sres" where
  "service_ok ag w d ks =
     (case di_service d of
        None \<Rightarrow> (ks, Inr True)
      | Some [] \<Rightarrow> (ks, Inr True)
      | Some opt \<Rightarrow>
          (case service_type ag opt of
             Inl e \<Rightarrow> (ks, Inl e)
           | Inr st \<Rightarrow>
               (case keystone (get_client ag w) ks of
                  (ks1, Inl e) \<Rightarrow> (ks1, Inl e)
                | (ks1, Inr c) \<Rightarrow> (ks1, has_endpoints ag c st))))"

text \<open>
  One discoverer: \<open>Inr None\<close> skips it because its service is missing. What it raises, or
  what the rings raise, is logged by the caller.
\<close>

definition discover_one ::
  "('w, 'k, 'x) agent_scheme \<Rightarrow> 'w \<Rightarrow> 'w discoverer \<Rightarrow> string option \<Rightarrow> 'k keystone_state \<Rightarrow>
   ('k keystone_state, pyval list option) sres" where
  "discover_one ag w d param ks =
     (case service_ok ag w d ks of
        (ks1, Inl e) \<Rightarrow> (ks1, Inl e)
      | (ks1, Inr False) \<Rightarrow> (ks1, Inr None)
      | (ks1, Inr True) \<Rightarrow>
          (ks1, bindr (di_discover d param w) (\<lambda>vs.
                bindr (my_share ag (group_text (di_group_id d)) vs) (\<lambda>mine. Inr (Some mine)))))"

type_synonym dcache = "(string, pyval list) pydict"

definition url_text :: "pyval \<Rightarrow> string res" where
  "url_text v = (case v of PStr s \<Rightarrow> Inr s | _ \<Rightarrow> Inl (AttributeError ''decode''))"

definition cache_set :: "dcache option \<Rightarrow> string \<Rightarrow> pyval list \<Rightarrow> dcache option" where
  "cache_set cache url vs = map_option (dict_set url vs) cache"

text \<open>
  \<open>discover\<close>: the resources of each URL, from the cache of the cycle when it has them. An
  unknown discoverer, a missing service and an exception add nothing, and are not cached.
\<close>

fun discover_urls ::
  "('w, 'k, 'x) agent_scheme \<Rightarrow> 'w \<Rightarrow> pyval list \<Rightarrow> dcache option \<Rightarrow> 'k keystone_state \<Rightarrow>
   pyval list \<Rightarrow> ('k keystone_state \<times> dcache option) \<times> pyval list res" where
  "discover_urls ag w [] cache ks acc = ((ks, cache), Inr acc)"
| "discover_urls ag w (v # vs) cache ks acc =
     (case bindr (url_text v) (\<lambda>url. bindr (parse_discoverer url) (\<lambda>p. Inr (url, p))) of
        Inl e \<Rightarrow> ((ks, cache), Inl e)
      | Inr (url, name, param) \<Rightarrow>
          (case (case cache of None \<Rightarrow> None | Some c \<Rightarrow> dict_get c url) of
             Some found \<Rightarrow> discover_urls ag w vs cache ks (acc @ found)
           | None \<Rightarrow>
               (case find_discoverer ag name of
                  None \<Rightarrow> discover_urls ag w vs cache ks acc
                | Some d \<Rightarrow>
                    (case discover_one ag w d param ks of
                       (ks1, Inr (Some mine)) \<Rightarrow>
                         discover_urls ag w vs (cache_set cache url mine) ks1 (acc @ mine)
                     | (ks1, _) \<Rightarrow> discover_urls ag w vs cache ks1 acc))))"

definition discover ::
  "('w, 'k, 'x) agent_scheme \<Rightarrow> 'w \<Rightarrow> pyval list \<Rightarrow> dcache option \<Rightarrow> 'k keystone_state \<Rightarrow>
   ('k keystone_state \<times> dcache option) \<times> pyval list res" where
  "discover ag w discovery cache ks = discover_urls ag w discovery cache ks []"

section \<open>Resources of a source\<close>

record resources =
  rs_static :: "pyval list"
  rs_discovery :: "pyval list"
  blacklist :: "pyval list"

definition new_resources :: resources where
  "new_resources = \<lparr>rs_static = [], rs_discovery = [], blacklist = []\<rparr>"

definition resources_setup :: "polling_source \<Rightarrow> resources \<Rightarrow> resources" where
  "resources_setup src rs = rs\<lparr>rs_static := ps_resources src, rs_discovery := ps_discovery src\<rparr>"

text \<open>\<open>Resources.get\<close>: the share of the static resources, then the discovered ones.\<close>

definition resources_get ::
  "('w, 'k, 'x) agent_scheme \<Rightarrow> 'w \<Rightarrow> resources \<Rightarrow> dcache option \<Rightarrow> 'k keystone_state \<Rightarrow>
   ('k keystone_state \<times> dcache option) \<times> pyval list res" where
  "resources_get ag w rs cache ks =
     (let (st, r) = (if rs_discovery rs \<noteq> [] then discover ag w (rs_discovery rs) cache ks
                     else ((ks, cache), Inr []))
      in (st,
          bindr r (\<lambda>found.
            if rs_static rs \<noteq> []
            then bindr (hash_of_set ag (rs_static rs)) (\<lambda>h.
                 bindr (my_share ag h (rs_static rs)) (\<lambda>mine. Inr (mine @ found)))
            else Inr found)))"

definition resources_key :: "string \<Rightarrow> string \<Rightarrow> string" where
  "resources_key source_name pollster_name = source_name @ ''-'' @ pollster_name"

text \<open>
  \<open>join_partitioning_groups\<close>: a group per discoverer and one per set of static resources;
  \<open>join g\<close> joins a group and gives its ring.
\<close>

definition partitioning_groups :: "('w, 'k, 'x) agent_scheme \<Rightarrow> polling_source list \<Rightarrow> string list res" where
  "partitioning_groups ag sources =
     bindr (mapr (\<lambda>s. hash_of_set ag (ps_resources s)) (filter (\<lambda>s. ps_resources s \<noteq> []) sources)) (\<lambda>hs.
       Inr (remdups (map (construct_group_id ag) (map (\<lambda>d. group_text (di_group_id d)) (ag_discoveries ag) @ hs))))"

definition join_partitioning_groups ::
  "(string \<Rightarrow> string \<Rightarrow> bool) \<Rightarrow> polling_source list \<Rightarrow> ('w, 'k, 'x) agent_scheme \<Rightarrow>
   ('w, 'k, 'x) agent_scheme res" where
  "join_partitioning_groups join_group sources ag =
     bindr (partitioning_groups ag sources) (\<lambda>gs.
       Inr (ag\<lparr>ag_hashrings := (\<lambda>g. if g \<in> set gs then Some (join_group g) else None)\<rparr>))"

section \<open>Facts\<close>

lemma keystone_once:
  "keystone c ks = (ks1, r) \<Longrightarrow> ks_client ks1 \<noteq> None \<or> ks_exception ks1 \<noteq> None \<Longrightarrow> keystone c' ks1 = (ks1, r)"
  by (auto simp: keystone_def Let_def split: if_splits sum.splits option.splits prod.splits)

text \<open>After joining, every share the agent asks for exists.\<close>

lemma my_share_joined:
  assumes "ag_hashrings ag (construct_group_id ag g) = Some b"
  shows "my_share ag g vs = Inr (if ag_coordinator ag then filter (\<lambda>v. b (ag_text ag v)) vs else vs)"
  using assms by (simp add: my_share_def filterr_Inr)

lemma my_share_subset: "my_share ag g vs = Inr mine \<Longrightarrow> set mine \<subseteq> set vs"
  by (auto simp: my_share_def dest!: filterr_Inr_set split: if_splits)

lemma joined_rings:
  assumes "join_partitioning_groups j sources ag = Inr ag'"
  shows "d \<in> set (ag_discoveries ag) \<Longrightarrow>
      ag_hashrings ag' (construct_group_id ag' (group_text (di_group_id d))) = Some (j (construct_group_id ag (group_text (di_group_id d))))"
    and "s \<in> set sources \<Longrightarrow> ps_resources s \<noteq> [] \<Longrightarrow> hash_of_set ag (ps_resources s) = Inr h \<Longrightarrow>
      ag_hashrings ag' (construct_group_id ag' h) = Some (j (construct_group_id ag h))"
proof -
  from assms obtain gs hs where gs: "gs = remdups (map (construct_group_id ag) (map (\<lambda>d. group_text (di_group_id d)) (ag_discoveries ag) @ hs))"
    and hs: "mapr (\<lambda>s. hash_of_set ag (ps_resources s)) (filter (\<lambda>s. ps_resources s \<noteq> []) sources) = Inr hs"
    and ag': "ag' = ag\<lparr>ag_hashrings := (\<lambda>g. if g \<in> set gs then Some (j g) else None)\<rparr>"
    by (auto simp: join_partitioning_groups_def partitioning_groups_def bindr_Inr_iff)
  have cg: "construct_group_id ag' = construct_group_id ag"
    by (rule ext) (simp add: construct_group_id_def ag')
  show "ag_hashrings ag' (construct_group_id ag' (group_text (di_group_id d))) = Some (j (construct_group_id ag (group_text (di_group_id d))))"
    if "d \<in> set (ag_discoveries ag)"
    using that by (simp only: cg) (simp add: ag' gs)
  show "ag_hashrings ag' (construct_group_id ag' h) = Some (j (construct_group_id ag h))"
    if s: "s \<in> set sources" "ps_resources s \<noteq> []" and h: "hash_of_set ag (ps_resources s) = Inr h"
  proof -
    have "h \<in> set hs"
      using mapr_Inr_member [OF hs, of s] s h by auto
    then show ?thesis by (simp only: cg) (simp add: ag' gs)
  qed
qed

section \<open>The shares of the agents of a group\<close>

text \<open>
  \<open>shares_of n f vs\<close>: the lists of the agents below \<open>n\<close> hold together what \<open>vs\<close> holds, each
  occurrence once.
\<close>

definition shares_of :: "nat \<Rightarrow> (nat \<Rightarrow> 'a list) \<Rightarrow> 'a list \<Rightarrow> bool" where
  "shares_of n f vs \<longleftrightarrow> (\<Sum>i<n. mset (f i)) = mset vs"

lemma shares_of_append: "shares_of n f vs \<Longrightarrow> shares_of n g ws \<Longrightarrow> shares_of n (\<lambda>i. f i @ g i) (vs @ ws)"
  by (simp add: shares_of_def sum.distrib)

lemma shares_of_filter:
  assumes "\<And>t. \<exists>!i. i < n \<and> ring i t"
  shows "shares_of n (\<lambda>i. filter (\<lambda>v. ring i (txt v)) vs) vs"
  unfolding shares_of_def
proof (induction vs)
  case (Cons v vs)
  from assms [of "txt v"] obtain k where k: "k < n" "\<And>i. i < n \<Longrightarrow> ring i (txt v) \<longleftrightarrow> i = k" by blast
  have "(\<Sum>i<n. mset (filter (\<lambda>v. ring i (txt v)) (v # vs)))
      = (\<Sum>i<n. (if i = k then {#v#} else {#}) + mset (filter (\<lambda>v. ring i (txt v)) vs))"
    by (intro sum.cong) (auto simp: k(2))
  also have "\<dots> = {#v#} + mset vs" using k(1) Cons.IH by (simp add: sum.distrib sum.delta)
  finally show ?case by simp
qed simp

text \<open>
  Agents of one configuration \<open>base\<close> that have joined the groups, agent \<open>i\<close> with the rings
  \<open>j i\<close>; and the same agent without coordination.
\<close>

definition joined_agents ::
  "nat \<Rightarrow> (nat \<Rightarrow> string \<Rightarrow> string \<Rightarrow> bool) \<Rightarrow> polling_source list \<Rightarrow> ('w, 'k, 'x) agent_scheme \<Rightarrow>
   (nat \<Rightarrow> ('w, 'k, 'x) agent_scheme) \<Rightarrow> bool" where
  "joined_agents n j sources base ags \<longleftrightarrow>
     ag_coordinator base \<and> (\<forall>i<n. join_partitioning_groups (j i) sources base = Inr (ags i))"

definition alone :: "('w, 'k, 'x) agent_scheme \<Rightarrow> ('w, 'k, 'x) agent_scheme" where
  "alone ag = ag\<lparr>ag_coordinator := False\<rparr>"

lemma my_share_alone [simp]: "my_share (alone ag) g vs = Inr vs"
  by (simp add: my_share_def alone_def)

lemma service_ok_rings:
  "service_ok (ag\<lparr>ag_hashrings := r\<rparr>) = service_ok ag" "service_ok (ag\<lparr>ag_coordinator := b\<rparr>) = service_ok ag"
  by (simp_all add: fun_eq_iff service_ok_def cong: option.case_cong list.case_cong sum.case_cong prod.case_cong)

lemma joined_agent_fields:
  assumes "joined_agents n j sources base ags" "i < n"
  shows "find_discoverer (ags i) = find_discoverer (alone base)" "service_ok (ags i) = service_ok (alone base)"
    "ag_text (ags i) = ag_text base" "hash_of_set (ags i) = hash_of_set (alone base)" "ag_coordinator (ags i)"
proof -
  from assms have "join_partitioning_groups (j i) sources base = Inr (ags i)" and c: "ag_coordinator base"
    by (simp_all add: joined_agents_def)
  then obtain r where "base\<lparr>ag_hashrings := r\<rparr> = ags i"
    by (auto simp: join_partitioning_groups_def bindr_Inr_iff)
  note this [symmetric] c
  then show "find_discoverer (ags i) = find_discoverer (alone base)" "service_ok (ags i) = service_ok (alone base)"
    "ag_text (ags i) = ag_text base" "hash_of_set (ags i) = hash_of_set (alone base)" "ag_coordinator (ags i)"
    by (simp_all add: alone_def service_ok_rings) (simp_all add: fun_eq_iff find_discoverer_def)
qed

lemma joined_agent_share:
  assumes "joined_agents n j sources base ags" "i < n" "d \<in> set (ag_discoveries base)"
  shows "my_share (ags i) (group_text (di_group_id d)) vs =
    Inr (filter (\<lambda>v. j i (construct_group_id base (group_text (di_group_id d))) (ag_text base v)) vs)"
proof -
  from assms(1,2) have "join_partitioning_groups (j i) sources base = Inr (ags i)" by (simp add: joined_agents_def)
  from my_share_joined [OF joined_rings(1) [OF this assms(3)]] show ?thesis
    by (simp add: joined_agent_fields [OF assms(1,2)])
qed

definition cache_shares :: "nat \<Rightarrow> (nat \<Rightarrow> dcache) \<Rightarrow> dcache \<Rightarrow> bool" where
  "cache_shares n c c0 \<longleftrightarrow>
     (\<forall>url. (dict_get c0 url = None \<longrightarrow> (\<forall>i<n. dict_get (c i) url = None))
        \<and> (\<forall>vs. dict_get c0 url = Some vs \<longrightarrow>
             (\<exists>f. (\<forall>i<n. dict_get (c i) url = Some (f i)) \<and> shares_of n f vs)))"

lemma cache_shares_set:
  assumes "cache_shares n c c0" "shares_of n f vs"
  shows "cache_shares n (\<lambda>i. dict_set url (f i) (c i)) (dict_set url vs c0)"
  using assms by (auto simp: cache_shares_def dict_get_set)

lemma discover_urls_shares:
  assumes "joined_agents n j sources base ags" "\<And>g t. \<exists>!i. i < n \<and> j i g t"
    and "snd (discover_urls (alone base) w vs (Some c0) ks acc0) = Inr found"
    and "cache_shares n c c0" "shares_of n acc acc0"
  shows "\<exists>res. (\<forall>i<n. snd (discover_urls (ags i) w vs (Some (c i)) ks (acc i)) = Inr (res i)) \<and> shares_of n res found"
  using assms(3-5)
proof (induction vs arbitrary: c c0 ks acc acc0)
  case (Cons v vs)
  note fields = joined_agent_fields [OF assms(1)]
  from Cons.prems(1) obtain url name param where
      u: "url_text v = Inr url" "parse_discoverer url = Inr (name, param)"
    by (auto simp: bindr_def split: sum.splits)
  show ?case
  proof (cases "dict_get c0 url")
    case (Some known)
    then obtain f where f: "\<forall>i<n. dict_get (c i) url = Some (f i)" "shares_of n f known"
      using Cons.prems(2) unfolding cache_shares_def by blast
    have "snd (discover_urls (alone base) w vs (Some c0) ks (acc0 @ known)) = Inr found"
      using Cons.prems(1) by (simp add: u Some)
    from Cons.IH [OF this Cons.prems(2) shares_of_append [OF Cons.prems(3) f(2)]] f(1) show ?thesis
      by (simp add: u)
  next
    case None
    then have uncached: "\<And>i. i < n \<Longrightarrow> dict_get (c i) url = None"
      using Cons.prems(2) unfolding cache_shares_def by blast
    show ?thesis
    proof (cases "find_discoverer (alone base) name")
      case nod: None
      then have "snd (discover_urls (alone base) w vs (Some c0) ks acc0) = Inr found"
        using Cons.prems(1) by (simp add: u None)
      from Cons.IH [OF this Cons.prems(2,3)] show ?thesis by (simp add: u uncached fields nod)
    next
      case (Some d)
      then have d: "d \<in> set (ag_discoveries base)"
        by (auto simp: find_discoverer_def alone_def find_Some_iff)
      obtain ks1 ok where svc: "service_ok (alone base) w d ks = (ks1, ok)" by fastforce
      let ?all = "di_discover d param w"
      let ?part = "\<lambda>ys i. filter (\<lambda>v. j i (construct_group_id base (group_text (di_group_id d))) (ag_text base v)) ys"
      show ?thesis
      proof (cases "ok = Inr True \<and> is_ok ?all")
        case True
        then obtain ys where ys: "ok = Inr True" "?all = Inr ys" by (auto simp: is_ok_iff)
        have run: "snd (discover_urls (alone base) w vs (Some (dict_set url ys c0)) ks1 (acc0 @ ys)) = Inr found"
          using Cons.prems(1) by (simp add: u None Some discover_one_def svc ys cache_set_def)
        have part: "shares_of n (?part ys) ys" by (rule shares_of_filter [OF assms(2)])
        from Cons.IH [OF run cache_shares_set [OF Cons.prems(2) part] shares_of_append [OF Cons.prems(3) part]]
        show ?thesis
          by (simp add: u uncached fields Some discover_one_def svc ys cache_set_def joined_agent_share [OF assms(1) _ d])
      next
        case False
        then have one: "discover_one (alone base) w d param ks = (ks1, Inr None) \<or>
            (\<exists>e. discover_one (alone base) w d param ks = (ks1, Inl e))"
          "i < n \<Longrightarrow> discover_one (ags i) w d param ks = (ks1, Inr None) \<or>
            (\<exists>e. discover_one (ags i) w d param ks = (ks1, Inl e))" for i
          by (auto simp: discover_one_def svc fields is_ok_def split: sum.splits bool.splits)
        have "snd (discover_urls (alone base) w vs (Some c0) ks1 acc0) = Inr found"
          using Cons.prems(1) one(1) by (auto simp: u None Some)
        from Cons.IH [OF this Cons.prems(2,3)] one(2) show ?thesis
          by (fastforce simp: u uncached fields Some)
      qed
    qed
  qed
qed (auto simp: shares_of_def)

lemma resources_get_shares:
  assumes "joined_agents n j sources base ags" "\<And>g t. \<exists>!i. i < n \<and> j i g t" "s \<in> set sources"
    and "snd (resources_get (alone base) w (resources_setup s rs) (Some []) ks) = Inr all"
  shows "\<exists>share. (\<forall>i<n. snd (resources_get (ags i) w (resources_setup s rs) (Some []) ks) = Inr (share i)) \<and> shares_of n share all"
proof -
  note fields = joined_agent_fields [OF assms(1)]
  let ?d = "\<lambda>ag. if ps_discovery s \<noteq> [] then discover ag w (ps_discovery s) (Some []) ks else ((ks, Some []), Inr [])"
  let ?static = "\<lambda>ag. if ps_resources s \<noteq> []
      then bindr (hash_of_set ag (ps_resources s)) (\<lambda>h. my_share ag h (ps_resources s)) else Inr []"
  have get: "snd (resources_get ag w (resources_setup s rs) (Some []) ks) =
      bindr (snd (?d ag)) (\<lambda>found. bindr (?static ag) (\<lambda>mine. Inr (mine @ found)))" for ag
    by (auto simp: resources_get_def resources_setup_def Let_def bindr_def split: prod.splits sum.splits)
  from assms(4) obtain found mine where found: "snd (?d (alone base)) = Inr found"
    and mine: "?static (alone base) = Inr mine" and all: "all = mine @ found"
    unfolding get bindr_Inr_iff by blast
  have "\<exists>res. (\<forall>i<n. snd (?d (ags i)) = Inr (res i)) \<and> shares_of n res found"
  proof (cases "ps_discovery s = []")
    case True
    then show ?thesis using found by (auto simp: shares_of_def)
  next
    case False
    then have "snd (discover_urls (alone base) w (ps_discovery s) (Some []) ks []) = Inr found"
      using found by (simp add: discover_def)
    from discover_urls_shares [OF assms(1,2) this, of "\<lambda>i. []" "\<lambda>i. []"] False show ?thesis
      by (simp add: discover_def cache_shares_def shares_of_def)
  qed
  then obtain res where res: "\<forall>i<n. snd (?d (ags i)) = Inr (res i)" "shares_of n res found" by blast
  have "\<exists>st. (\<forall>i<n. ?static (ags i) = Inr (st i)) \<and> shares_of n st mine"
  proof (cases "ps_resources s = []")
    case True
    then show ?thesis using mine by (auto simp: shares_of_def)
  next
    case False
    with mine have "bindr (hash_of_set (alone base) (ps_resources s)) (\<lambda>h. Inr (ps_resources s)) = Inr mine" by simp
    then obtain h where h: "hash_of_set (alone base) (ps_resources s) = Inr h" and m: "mine = ps_resources s"
      by (cases "hash_of_set (alone base) (ps_resources s)") simp_all
    have hb: "hash_of_set base (ps_resources s) = Inr h" using h by (simp add: alone_def)
    have "?static (ags i) = Inr (filter (\<lambda>v. j i (construct_group_id base h) (ag_text base v)) mine)" if i: "i < n" for i
    proof -
      have "join_partitioning_groups (j i) sources base = Inr (ags i)" using assms(1) i by (simp add: joined_agents_def)
      from my_share_joined [OF joined_rings(2) [OF this assms(3) False hb]] show ?thesis
        using False h m by (simp add: fields [OF i])
    qed
    moreover have "shares_of n (\<lambda>i. filter (\<lambda>v. j i (construct_group_id base h) (ag_text base v)) mine) mine"
      by (rule shares_of_filter [OF assms(2)])
    ultimately show ?thesis by (intro exI conjI allI impI) assumption+
  qed
  then obtain st where st: "\<forall>i<n. ?static (ags i) = Inr (st i)" "shares_of n st mine" by blast
  have "bindr (snd (?d (ags i))) (\<lambda>found. bindr (?static (ags i)) (\<lambda>mine. Inr (mine @ found))) = Inr (st i @ res i)"
    if "i < n" for i
    unfolding res(1) [rule_format, OF that] st(1) [rule_format, OF that] by simp
  then show ?thesis unfolding get all
    by (intro exI [of _ "\<lambda>i. st i @ res i"] conjI allI impI shares_of_append [OF st(2) res(2)])
qed

end
