(* ===== verification/Agent_Polling.thy ===== *)
theory Agent_Polling
  imports Agent_Discovery Signature
begin

text \<open>
  The polling half of \<^verbatim>\<open>ceilometer/agent/manager.py\<close>: polling tasks, one polling cycle, and
  the agent manager that builds the tasks from the polling sources.
\<close>

section \<open>Pollsters\<close>

text \<open>
  A pollster is called with the cache of the cycle and the resources. It yields samples and
  then ends: normally, with the permanent failure of some resources, or with another exception.
\<close>

datatype poll_end = Finished | PermanentError "pyval list" | Failed pyexc

record ('w, 'c) pollster =
  po_name :: string
  po_default_discovery :: string
  po_get_samples :: "'w \<Rightarrow> 'c \<Rightarrow> pyval list \<Rightarrow> 'c \<times> sample list \<times> poll_end"

record poll_conf =
  batch_polled_samples :: bool
  to_message :: "sample \<Rightarrow> pymap res"
  now_iso :: string

section \<open>Polling tasks\<close>

text \<open>
  The pollsters of a task are positions in the list of extensions: extension objects are
  compared by identity, and the set of a source is listed in the order it was filled.
\<close>

record task =
  tk_matches :: "(string, nat list) pydict"
  tk_resources :: "(string, resources) pydict"

definition new_task :: task where
  "new_task = \<lparr>tk_matches = [], tk_resources = []\<rparr>"

definition task_resources :: "task \<Rightarrow> string \<Rightarrow> resources" where
  "task_resources t key = dict_get_default (tk_resources t) key new_resources"

definition set_add :: "'a \<Rightarrow> 'a list \<Rightarrow> 'a list" where
  "set_add x xs = (if x \<in> set xs then xs else xs @ [x])"

definition task_add :: "nat \<Rightarrow> string \<Rightarrow> polling_source \<Rightarrow> task \<Rightarrow> task" where
  "task_add i name src t =
     (let key = resources_key (ps_name src) name in
      \<lparr>tk_matches = dict_set (ps_name src) (set_add i (dict_get_default (tk_matches t) (ps_name src) [])) (tk_matches t),
       tk_resources = dict_set key (resources_setup src (task_resources t key)) (tk_resources t)\<rparr>)"

text \<open>
  The resources to poll: those that no source has handed to a pollster of this name in this
  cycle, less the black ones; a black one counts as handed over.
\<close>

fun select_resources :: "pyval list \<Rightarrow> pyval list \<Rightarrow> pyval list \<Rightarrow> pyval list \<times> pyval list" where
  "select_resources black history [] = (history, [])"
| "select_resources black history (x # xs) =
     (if py_in x history then select_resources black history xs
      else (let (h, ps) = select_resources black (history @ [x]) xs
            in (h, if py_in x black then ps else x # ps)))"

text \<open>
  Sending the samples a pollster yields: \<open>notify ms u\<close> sends one notification on the bus
  \<open>u\<close>. A batch is sent when the pollster has finished, otherwise every sample on its own.
\<close>

type_synonym 'u notify = "pymap list \<Rightarrow> 'u \<Rightarrow> 'u \<times> unit res"

fun send_each :: "poll_conf \<Rightarrow> 'u notify \<Rightarrow> sample list \<Rightarrow> 'u \<Rightarrow> 'u \<times> unit res" where
  "send_each conf notify [] u = (u, Inr ())"
| "send_each conf notify (s # ss) u =
     (case to_message conf (set_timestamp (now_iso conf) s) of
        Inl e \<Rightarrow> (u, Inl e)
      | Inr m \<Rightarrow>
          (case notify [m] u of
             (u1, Inl e) \<Rightarrow> (u1, Inl e)
           | (u1, Inr _) \<Rightarrow> send_each conf notify ss u1))"

definition end_result :: "poll_end \<Rightarrow> unit res" where
  "end_result e = (case e of Failed x \<Rightarrow> Inl x | _ \<Rightarrow> Inr ())"

definition black_of :: "poll_end \<Rightarrow> pyval list" where
  "black_of e = (case e of PermanentError rs \<Rightarrow> rs | _ \<Rightarrow> [])"

text \<open>
  The result: the bus and the resources to blacklist. An exception while signing or sending
  comes before the end of the generator and hides it.
\<close>

definition send_samples :: "poll_conf \<Rightarrow> 'u notify \<Rightarrow> sample list \<Rightarrow> poll_end \<Rightarrow> 'u \<Rightarrow> 'u \<times> pyval list" where
  "send_samples conf notify ss e u =
     (if batch_polled_samples conf
      then (case mapr (\<lambda>s. to_message conf (set_timestamp (now_iso conf) s)) ss of
          Inl x \<Rightarrow> (u, [])
        | Inr ms \<Rightarrow> (if e = Finished then (if ms = [] then (u, []) else (fst (notify ms u), [])) else (u, black_of e)))
      else (case send_each conf notify ss u of
          (u1, Inl x) \<Rightarrow> (u1, [])
        | (u1, Inr _) \<Rightarrow> (u1, black_of e)))"

section \<open>One polling cycle\<close>

record ('k, 'c, 'u) cycle =
  cy_task :: task
  cy_keystone :: "'k keystone_state"
  cy_cache :: 'c
  cy_discovery :: "dcache option"
  cy_history :: "(string, pyval list) pydict"
  cy_bus :: 'u

definition candidates ::
  "('w, 'k, 'x) agent_scheme \<Rightarrow> 'w \<Rightarrow> ('w, 'c) pollster \<Rightarrow> resources \<Rightarrow> dcache option \<Rightarrow> 'k keystone_state \<Rightarrow>
   ('k keystone_state \<times> dcache option) \<times> pyval list res" where
  "candidates ag w p rs cache ks =
     (case resources_get ag w rs cache ks of
        (st, Inl e) \<Rightarrow> (st, Inl e)
      | ((ks1, cache1), Inr found) \<Rightarrow>
          (if found = [] \<and> po_default_discovery p \<noteq> []
           then discover ag w [PStr (po_default_discovery p)] cache1 ks1
           else ((ks1, cache1), Inr found)))"

definition extend_blacklist :: "string \<Rightarrow> pyval list \<Rightarrow> task \<Rightarrow> task" where
  "extend_blacklist key bad t =
     (let rs = task_resources t key in
      t\<lparr>tk_resources := dict_set key (rs\<lparr>blacklist := blacklist rs @ bad\<rparr>) (tk_resources t)\<rparr>)"

text \<open>One pollster of one source. What finding its resources raises ends the cycle.\<close>

definition poll_one ::
  "poll_conf \<Rightarrow> ('w, 'k, 'x) agent_scheme \<Rightarrow> 'w \<Rightarrow> 'u notify \<Rightarrow> string \<Rightarrow> ('w, 'c) pollster \<Rightarrow>
   ('k, 'c, 'u) cycle \<Rightarrow> ('k, 'c, 'u) cycle \<times> unit res" where
  "poll_one conf ag w notify source_name p cy =
     (let key = resources_key source_name (po_name p);
          rs = task_resources (cy_task cy) key;
          ((ks, cache), r) = candidates ag w p rs (cy_discovery cy) (cy_keystone cy);
          cy1 = cy\<lparr>cy_keystone := ks, cy_discovery := cache\<rparr>
      in case r of
           Inl e \<Rightarrow> (cy1, Inl e)
         | Inr found \<Rightarrow>
             (let (h, polling) = select_resources (blacklist rs) (dict_get_default (cy_history cy) (po_name p) []) found;
                  cy2 = cy1\<lparr>cy_history := dict_set (po_name p) h (cy_history cy1)\<rparr>
              in if polling = [] then (cy2, Inr ())
                 else
                   (let (c, ss, e) = po_get_samples p w (cy_cache cy) polling;
                        (u, bad) = send_samples conf notify ss e (cy_bus cy)
                    in (cy2\<lparr>cy_cache := c, cy_bus := u, cy_task := extend_blacklist key bad (cy_task cy2)\<rparr>, Inr ()))))"

fun poll_list ::
  "poll_conf \<Rightarrow> ('w, 'k, 'x) agent_scheme \<Rightarrow> 'w \<Rightarrow> 'u notify \<Rightarrow> (string \<times> ('w, 'c) pollster) list \<Rightarrow>
   ('k, 'c, 'u) cycle \<Rightarrow> ('k, 'c, 'u) cycle \<times> unit res" where
  "poll_list conf ag w notify [] cy = (cy, Inr ())"
| "poll_list conf ag w notify ((n, p) # ps) cy =
     (case poll_one conf ag w notify n p cy of
        (cy1, Inl e) \<Rightarrow> (cy1, Inl e)
      | (cy1, Inr _) \<Rightarrow> poll_list conf ag w notify ps cy1)"

definition task_pollsters :: "('w, 'c) pollster list \<Rightarrow> task \<Rightarrow> (string \<times> ('w, 'c) pollster) list" where
  "task_pollsters exts t = concat (map (\<lambda>(n, ix). map (\<lambda>i. (n, exts ! i)) ix) (tk_matches t))"

text \<open>
  \<open>interval_task\<close> forgets the keystone client; \<open>poll_and_notify\<close> then starts with empty
  caches and an empty history. \<open>c0\<close> is the empty cache of the pollsters.
\<close>

definition poll_and_notify ::
  "poll_conf \<Rightarrow> ('w, 'k, 'x) agent_scheme \<Rightarrow> ('w, 'c) pollster list \<Rightarrow> 'c \<Rightarrow> 'w \<Rightarrow> 'u notify \<Rightarrow>
   task \<Rightarrow> 'k keystone_state \<Rightarrow> 'u \<Rightarrow> ('k, 'c, 'u) cycle \<times> unit res" where
  "poll_and_notify conf ag exts c0 w notify t ks u =
     poll_list conf ag w notify (task_pollsters exts t)
       \<lparr>cy_task = t, cy_keystone = ks, cy_cache = c0, cy_discovery = Some [], cy_history = [], cy_bus = u\<rparr>"

definition interval_task ::
  "poll_conf \<Rightarrow> ('w, 'k, 'x) agent_scheme \<Rightarrow> ('w, 'c) pollster list \<Rightarrow> 'c \<Rightarrow> 'w \<Rightarrow> 'u notify \<Rightarrow>
   task \<Rightarrow> 'k keystone_state \<Rightarrow> 'u \<Rightarrow> ('k, 'c, 'u) cycle \<times> unit res" where
  "interval_task conf ag exts c0 w notify t ks u =
     poll_and_notify conf ag exts c0 w notify t (ks_reset ks) u"

section \<open>The agent manager\<close>

record ('w, 'c) manager_state =
  am_extensions :: "('w, 'c) pollster list"
  am_discoveries :: "'w discoverer list"
  am_coordinator :: bool
  am_group_prefix :: string

record agent_conf =
  partitioning_group_prefix :: string
  backend_url :: string

text \<open>
  \<open>__init__\<close>. \<open>polls\<close>, \<open>builders\<close> and \<open>discovers\<close> list the entry points of the three
  categories in a namespace.
\<close>

definition agent_init ::
  "matcher \<Rightarrow> agent_conf \<Rightarrow> string list \<Rightarrow> string list \<Rightarrow>
   (string \<Rightarrow> (string \<times> ('w, 'c) pollster res) list) \<Rightarrow>
   (string \<Rightarrow> (string \<times> ('w, 'c) pollster list res res) list) \<Rightarrow>
   (string \<Rightarrow> (string \<times> 'w discoverer res) list) \<Rightarrow> ('w, 'c) manager_state res" where
  "agent_init fnm conf namespaces0 pollster_list polls builders discovers =
     (let namespaces = (if namespaces0 = [] then [''compute'', ''central''] else namespaces0);
          select = (\<lambda>es. if pollster_list = [] then es
                         else filter (\<lambda>p. list_ex (fnm (po_name p)) pollster_list) es);
          ns_prefix = join ''-'' (sort namespaces)
      in if pollster_list \<noteq> [] \<and> backend_url conf \<noteq> [] then Inl PollsterListForbidden
         else
           bindr (mapr (\<lambda>n. load_extensions (polls n)) namespaces) (\<lambda>exts.
           bindr (mapr (\<lambda>n. extensions_from_builder (builders n)) namespaces) (\<lambda>exts_fb.
             (let es = concat (map select exts) @ concat (map select exts_fb) in
              if es = [] then Inl EmptyPollstersList
              else bindr (mapr (\<lambda>n. load_extensions (discovers n)) namespaces) (\<lambda>ds.
                Inr \<lparr>am_extensions = es, am_discoveries = concat ds,
                     am_coordinator = (backend_url conf \<noteq> []),
                     am_group_prefix =
                       (if partitioning_group_prefix conf \<noteq> []
                        then ns_prefix @ ''-'' @ partitioning_group_prefix conf else ns_prefix)\<rparr>)))))"

text \<open>\<open>setup_polling_tasks\<close>: one task per interval, with the pollsters each source supports.\<close>

type_synonym tasks = "(int, task) pydict"

definition add_pollster :: "matcher \<Rightarrow> polling_source \<Rightarrow> nat \<times> string \<Rightarrow> tasks \<Rightarrow> tasks" where
  "add_pollster fnm src ext ts =
     (if polling_support_meter fnm src (snd ext)
      then dict_set (ps_interval src)
             (task_add (fst ext) (snd ext) src (dict_get_default ts (ps_interval src) new_task)) ts
      else ts)"

definition setup_polling_tasks :: "matcher \<Rightarrow> polling_source list \<Rightarrow> string list \<Rightarrow> tasks" where
  "setup_polling_tasks fnm sources names =
     fold (\<lambda>src ts. fold (add_pollster fnm src) (enumerate 0 names) ts) sources []"

text \<open>
  \<open>start_polling_tasks\<close>: nothing without tasks; otherwise a pool of one thread per task, the
  task of each interval being added after the interval and the random delay.
\<close>

definition start_polling_tasks :: "int \<Rightarrow> tasks \<Rightarrow> (nat \<times> (int \<times> int \<times> task) list) option" where
  "start_polling_tasks delay ts =
     (if ts = [] then None
      else Some (length ts, map (\<lambda>(interval, t). (interval, interval + delay, t)) ts))"

section \<open>Facts about one pollster\<close>

lemma py_in_append: "py_in x (xs @ ys) \<longleftrightarrow> py_in x xs \<or> py_in x ys"
  by (simp add: py_in_def)

lemma py_in_self: "x \<in> set xs \<Longrightarrow> py_in x xs"
  by (auto simp: py_in_def list_ex_iff)

lemma select_resources_new:
  "select_resources black h xs = (h', ps) \<Longrightarrow>
   \<exists>new. h' = h @ new \<and> ps = filter (\<lambda>x. \<not> py_in x black) new \<and> subseq new xs \<and> (\<forall>x \<in> set xs. py_in x h')"
proof (induction xs arbitrary: h h' ps)
  case (Cons x xs)
  show ?case
  proof (cases "py_in x h")
    case True
    with Cons.prems have "select_resources black h xs = (h', ps)" by simp
    from Cons.IH [OF this] obtain new where new: "h' = h @ new" "ps = filter (\<lambda>x. \<not> py_in x black) new"
      "subseq new xs" "\<forall>x \<in> set xs. py_in x h'"
      by blast
    moreover have "py_in x h'" using True new(1) by (simp add: py_in_append)
    ultimately show ?thesis by (intro exI [of _ new]) auto
  next
    case False
    obtain h1 ps1 where r: "select_resources black (h @ [x]) xs = (h1, ps1)" by fastforce
    with Cons.prems False have h': "h' = h1" "ps = (if py_in x black then ps1 else x # ps1)" by auto
    from Cons.IH [OF r] obtain new where new: "h1 = (h @ [x]) @ new" "ps1 = filter (\<lambda>x. \<not> py_in x black) new"
      "subseq new xs" "\<forall>y \<in> set xs. py_in y h1" by blast
    have "py_in x h1" using new(1) by (intro py_in_self) simp
    then show ?thesis using h' new by (intro exI [of _ "x # new"]) auto
  qed
qed simp

text \<open>No value of a list is equal, in the sense of Python, to an earlier one.\<close>

definition once :: "pyval list \<Rightarrow> bool" where
  "once xs \<longleftrightarrow> sorted_wrt (\<lambda>x y. \<not> py_in y [x]) xs"

lemma once_snoc: "once (xs @ [x]) \<longleftrightarrow> once xs \<and> \<not> py_in x xs"
  by (auto simp: once_def sorted_wrt_append py_in_def list_ex_iff)

lemma select_resources_once: "select_resources black h xs = (h', ps) \<Longrightarrow> once h \<Longrightarrow> once h'"
  by (induction black h xs arbitrary: h' ps rule: select_resources.induct)
    (auto simp: once_snoc split: if_splits prod.splits)

lemma once_subseq: "subseq xs ys \<Longrightarrow> once ys \<Longrightarrow> once xs"
  unfolding once_def by (induction rule: list_emb.induct) (auto dest: list_emb_set)

text \<open>
  A pollster whose calls are recorded: beside its own cache, the name and the resources of every
  call of \<open>get_samples\<close>.
\<close>

type_synonym calls = "(string \<times> pyval list) list"

definition logged :: "('w, 'c) pollster \<Rightarrow> ('w, 'c \<times> calls) pollster" where
  "logged p = \<lparr>po_name = po_name p, po_default_discovery = po_default_discovery p,
     po_get_samples = (\<lambda>w (c, cs) rs. let (c1, ss, e) = po_get_samples p w c rs in ((c1, cs @ [(po_name p, rs)]), ss, e))\<rparr>"

definition handed :: "string \<Rightarrow> calls \<Rightarrow> pyval list" where
  "handed name cs = concat (map snd (filter (\<lambda>c. fst c = name) cs))"

lemma logged_fields [simp]:
  "po_name (logged p) = po_name p" "po_default_discovery (logged p) = po_default_discovery p"
  by (simp_all add: logged_def)

lemma handed_append [simp]: "handed name (cs @ cs') = handed name cs @ handed name cs'"
  by (simp add: handed_def)

lemma handed_Cons [simp]:
  "handed name [] = []" "handed name (c # cs) = (if fst c = name then snd c else []) @ handed name cs"
  by (simp_all add: handed_def)

definition black_for :: "task \<Rightarrow> string \<Rightarrow> pyval \<Rightarrow> bool" where
  "black_for t name x \<longleftrightarrow> (\<exists>src. py_in x (blacklist (task_resources t (resources_key src name))))"

lemma black_for_extend: "black_for t name x \<Longrightarrow> black_for (extend_blacklist key bad t) name x"
proof -
  have "blacklist (task_resources (extend_blacklist key bad t) k) =
      blacklist (task_resources t k) @ (if k = key then bad else [])" for k
    by (simp add: extend_blacklist_def Let_def task_resources_def dict_get_default_def dict_get_set)
  then have "py_in x (blacklist (task_resources t k)) \<Longrightarrow>
      py_in x (blacklist (task_resources (extend_blacklist key bad t) k))" for k
    by (simp add: py_in_append)
  then show "black_for t name x \<Longrightarrow> black_for (extend_blacklist key bad t) name x"
    unfolding black_for_def by blast
qed

text \<open>The history of a pollster is what it was handed, and the black ones among its candidates.\<close>

definition history_ok :: "('k, 'c \<times> calls, 'u) cycle \<Rightarrow> string \<Rightarrow> bool" where
  "history_ok cy name \<longleftrightarrow>
     (let h = dict_get_default (cy_history cy) name []; g = handed name (snd (cy_cache cy))
      in once h \<and> subseq g h \<and> (\<forall>y \<in> set h. y \<in> set g \<or> black_for (cy_task cy) name y))"

lemma poll_one_logged:
  fixes conf :: poll_conf and notify :: "'u notify"
  assumes "candidates ag w (logged p) (task_resources (cy_task cy) (resources_key n (po_name p)))
      (cy_discovery cy) (cy_keystone cy) = (st, Inr found)"
    and "history_ok cy (po_name p)"
  defines "cy' \<equiv> fst (poll_one conf ag w notify n (logged p) cy)"
  shows "\<exists>polled. subseq polled found
      \<and> list_all (\<lambda>x. \<not> py_in x (blacklist (task_resources (cy_task cy) (resources_key n (po_name p))))) polled
      \<and> snd (cy_cache cy') = snd (cy_cache cy) @ (if polled = [] then [] else [(po_name p, polled)])
      \<and> history_ok cy' (po_name p)
      \<and> (\<forall>x \<in> set found. py_in x (dict_get_default (cy_history cy') (po_name p) []))"
proof -
  let ?name = "po_name p"
  let ?key = "resources_key n ?name"
  let ?black = "blacklist (task_resources (cy_task cy) ?key)"
  let ?h = "dict_get_default (cy_history cy) ?name []"
  obtain h polled where s: "select_resources ?black ?h found = (h, polled)" by fastforce
  from select_resources_new [OF s] obtain new where new: "h = ?h @ new" "polled = filter (\<lambda>x. \<not> py_in x ?black) new"
    "subseq new found" "\<forall>x \<in> set found. py_in x h" by blast
  have H: "once h" using select_resources_once [OF s] assms(2) by (simp add: history_ok_def Let_def)
  have old: "subseq (handed ?name (snd (cy_cache cy))) ?h"
    "y \<in> set ?h \<Longrightarrow> y \<in> set (handed ?name (snd (cy_cache cy))) \<or> black_for (cy_task cy) ?name y" for y
    using assms(2) by (auto simp: history_ok_def Let_def)
  have sub: "subseq polled new" using new(2) by simp
  have black: "y \<in> set polled \<or> black_for (cy_task cy) ?name y" if "y \<in> set new" for y
    using that new(2) by (auto simp: black_for_def)
  have hist: "dict_get_default (cy_history cy') ?name [] = h"
    and log: "snd (cy_cache cy') = snd (cy_cache cy) @ (if polled = [] then [] else [(?name, polled)])"
    and task: "black_for (cy_task cy) ?name y \<Longrightarrow> black_for (cy_task cy') ?name y" for y
    using assms(1) s
    by (auto simp: cy'_def poll_one_def Let_def logged_def dict_get_default_def dict_get_set black_for_extend
        split: prod.splits)
  have "subseq (handed ?name (snd (cy_cache cy'))) h"
    using list_emb_append_mono [OF old(1) sub] by (auto simp: log new(1) dest: subseq_order.order_trans)
  moreover have "y \<in> set (handed ?name (snd (cy_cache cy'))) \<or> black_for (cy_task cy') ?name y" if "y \<in> set h" for y
    using that old(2) [of y] black [of y] task [of y] by (auto simp: log new(1))
  ultimately have "history_ok cy' ?name" using H by (simp add: history_ok_def Let_def hist)
  moreover have "subseq polled found" using sub new(3) by (rule subseq_order.order_trans)
  ultimately show ?thesis using new hist log
    by (intro exI [of _ polled]) (auto simp: list_all_iff)
qed

lemma poll_one_history:
  assumes "\<And>name. history_ok cy name"
  shows "history_ok (fst (poll_one conf ag w notify n (logged p) cy)) name"
proof (cases "name = po_name p")
  case True
  obtain st r where c: "candidates ag w (logged p) (task_resources (cy_task cy) (resources_key n (po_name p)))
      (cy_discovery cy) (cy_keystone cy) = (st, r)" by fastforce
  show ?thesis
  proof (cases r)
    case (Inl e)
    then show ?thesis using c assms [of name]
      by (auto simp: poll_one_def Let_def history_ok_def split: prod.splits)
  next
    case (Inr found)
    from poll_one_logged [OF c [unfolded Inr] assms] True show ?thesis by blast
  qed
next
  case False
  let ?cy = "fst (poll_one conf ag w notify n (logged p) cy)"
  have "dict_get_default (cy_history ?cy) name [] = dict_get_default (cy_history cy) name []"
    "handed name (snd (cy_cache ?cy)) = handed name (snd (cy_cache cy))"
    "black_for (cy_task cy) name y \<Longrightarrow> black_for (cy_task ?cy) name y" for y
    using False by (auto simp: poll_one_def Let_def logged_def dict_get_default_def dict_get_set black_for_extend
        split: prod.splits sum.splits)
  then show ?thesis using assms [of name] by (auto simp: history_ok_def Let_def)
qed

lemma poll_list_history:
  "(\<And>name. history_ok cy name) \<Longrightarrow>
   history_ok (fst (poll_list conf ag w notify (map (\<lambda>(n, p). (n, logged p)) ps) cy)) name"
proof (induction ps arbitrary: cy)
  case (Cons np ps)
  obtain n p where np: "np = (n, p)" by (cases np)
  obtain cy1 r where one: "poll_one conf ag w notify n (logged p) cy = (cy1, r)" by fastforce
  have "history_ok cy1 nm" for nm
    using poll_one_history [of cy conf ag w notify n p nm, OF Cons.prems] one by simp
  then show ?case using Cons.IH [of cy1] by (simp add: np one split: sum.split)
qed simp

text \<open>Where resources come from without an exception.\<close>

definition url_ok :: "pyval \<Rightarrow> bool" where
  "url_ok v = is_ok (bindr (url_text v) parse_discoverer)"

definition share_ok :: "('w, 'k, 'x) agent_scheme \<Rightarrow> pyval list \<Rightarrow> bool" where
  "share_ok ag vs =
     (vs = [] \<or> (case hash_of_set ag vs of
        Inl e \<Rightarrow> False
      | Inr h \<Rightarrow> \<not> ag_coordinator ag \<or> ag_hashrings ag (construct_group_id ag h) \<noteq> None))"

definition resources_ok :: "('w, 'k, 'x) agent_scheme \<Rightarrow> resources \<Rightarrow> bool" where
  "resources_ok ag rs \<longleftrightarrow> list_all url_ok (rs_discovery rs) \<and> share_ok ag (rs_static rs)"

definition task_ok :: "('w, 'k, 'x) agent_scheme \<Rightarrow> task \<Rightarrow> bool" where
  "task_ok ag t \<longleftrightarrow> (\<forall>k rs. dict_get (tk_resources t) k = Some rs \<longrightarrow> resources_ok ag rs)"

lemma discover_urls_ok: "list_all url_ok vs \<Longrightarrow> is_ok (snd (discover_urls ag w vs cache ks acc))"
proof (induction vs arbitrary: cache ks acc)
  case (Cons v vs)
  from Cons.prems obtain url p where u: "url_text v = Inr url" "parse_discoverer url = Inr p"
    by (auto simp: url_ok_def is_ok_iff bindr_Inr_iff)
  obtain name param where p: "p = (name, param)" by (cases p)
  have IH: "is_ok (snd (discover_urls ag w vs c k a))" for c k a
    using Cons by simp
  show ?case
    by (auto simp: u p IH split: option.split prod.split sum.split)
qed simp

lemma my_share_ok: "\<not> ag_coordinator ag \<or> ag_hashrings ag (construct_group_id ag h) \<noteq> None \<Longrightarrow> is_ok (my_share ag h vs)"
  by (auto simp: my_share_def filterr_Inr)

lemma resources_get_ok: "resources_ok ag rs \<Longrightarrow> is_ok (snd (resources_get ag w rs cache ks))"
proof -
  assume ok: "resources_ok ag rs"
  obtain st r where d: "(if rs_discovery rs \<noteq> [] then discover ag w (rs_discovery rs) cache ks
      else ((ks, cache), Inr [])) = (st, r)" by fastforce
  have "is_ok r"
    using ok discover_urls_ok [of "rs_discovery rs" ag w cache ks "[]"] d
    by (auto simp: resources_ok_def discover_def split: if_splits)
  then obtain found where r: "r = Inr found" by (auto simp: is_ok_def split: sum.splits)
  have "\<exists>h mine. hash_of_set ag (rs_static rs) = Inr h \<and> my_share ag h (rs_static rs) = Inr mine" if "rs_static rs \<noteq> []"
  proof -
    from ok that obtain h where h: "hash_of_set ag (rs_static rs) = Inr h"
        "\<not> ag_coordinator ag \<or> ag_hashrings ag (construct_group_id ag h) \<noteq> None"
      by (auto simp: resources_ok_def share_ok_def split: sum.splits)
    from my_share_ok [OF h(2), of "rs_static rs"] show ?thesis using h(1) by (simp add: is_ok_iff)
  qed
  then show ?thesis by (auto simp: resources_get_def d r)
qed

lemma candidates_ok:
  assumes "resources_ok ag rs" "po_default_discovery p = [] \<or> url_ok (PStr (po_default_discovery p))"
  shows "is_ok (snd (candidates ag w p rs cache ks))"
proof -
  obtain ks1 c1 r where g: "resources_get ag w rs cache ks = ((ks1, c1), r)" by (metis prod.collapse)
  have "is_ok r" using resources_get_ok [OF assms(1), of w cache ks] g by simp
  moreover have "is_ok (snd (discover ag w [PStr (po_default_discovery p)] c1 ks1))" if "po_default_discovery p \<noteq> []"
    using that assms(2) discover_urls_ok [of "[PStr (po_default_discovery p)]" ag w c1 ks1 "[]"]
    by (simp add: discover_def)
  ultimately show ?thesis by (auto simp: candidates_def g split: sum.split)
qed

lemma task_resources_ok: "task_ok ag t \<Longrightarrow> resources_ok ag (task_resources t key)"
  by (cases "dict_get (tk_resources t) key")
    (auto simp: task_ok_def task_resources_def dict_get_default_def new_resources_def resources_ok_def share_ok_def)

lemma extend_blacklist_ok: "task_ok ag t \<Longrightarrow> task_ok ag (extend_blacklist key bad t)"
  using task_resources_ok [of ag t key]
  by (auto simp: task_ok_def extend_blacklist_def Let_def dict_get_set resources_ok_def split: if_splits)

lemma poll_one_ok:
  assumes "task_ok ag (cy_task cy)" "po_default_discovery p = [] \<or> url_ok (PStr (po_default_discovery p))"
  shows "snd (poll_one conf ag w notify n p cy) = Inr () \<and> task_ok ag (cy_task (fst (poll_one conf ag w notify n p cy)))"
proof -
  let ?rs = "task_resources (cy_task cy) (resources_key n (po_name p))"
  obtain ks c r where cand: "candidates ag w p ?rs (cy_discovery cy) (cy_keystone cy) = ((ks, c), r)"
    by (metis prod.collapse)
  have "is_ok r"
    using candidates_ok [OF task_resources_ok [OF assms(1)] assms(2)] cand by (metis snd_conv)
  then obtain found where "r = Inr found" by (auto simp: is_ok_def split: sum.splits)
  with assms(1) cand show ?thesis
    by (auto simp: poll_one_def Let_def extend_blacklist_ok split: prod.split)
qed

lemma poll_list_ok:
  "task_ok ag (cy_task cy) \<Longrightarrow>
   (\<And>n p. (n, p) \<in> set ps \<Longrightarrow> po_default_discovery p = [] \<or> url_ok (PStr (po_default_discovery p))) \<Longrightarrow>
   snd (poll_list conf ag w notify ps cy) = Inr ()"
proof (induction ps arbitrary: cy)
  case (Cons np ps)
  obtain n p where np: "np = (n, p)" by (cases np)
  have "po_default_discovery p = [] \<or> url_ok (PStr (po_default_discovery p))"
    by (rule Cons.prems(2) [of n]) (simp add: np)
  from poll_one_ok [OF Cons.prems(1) this] obtain cy1 where
      cy1: "poll_one conf ag w notify n p cy = (cy1, Inr ())" "task_ok ag (cy_task cy1)"
    by (metis prod.collapse)
  have "snd (poll_list conf ag w notify ps cy1) = Inr ()"
    using Cons.prems(2) by (intro Cons.IH [OF cy1(2)]) auto
  then show ?case by (simp add: np cy1)
qed simp

section \<open>Facts about the tasks\<close>

definition scheduled :: "tasks \<Rightarrow> int \<Rightarrow> string \<Rightarrow> nat \<Rightarrow> bool" where
  "scheduled ts interval n i =
     (case dict_get ts interval of
        None \<Rightarrow> False
      | Some t \<Rightarrow> i \<in> set (dict_get_default (tk_matches t) n []))"

lemma scheduled_add:
  "scheduled (add_pollster fnm src (j, nm) ts) interval n i \<longleftrightarrow>
   scheduled ts interval n i
   \<or> (polling_support_meter fnm src nm \<and> interval = ps_interval src \<and> n = ps_name src \<and> i = j)"
  by (auto simp: add_pollster_def scheduled_def task_add_def Let_def dict_get_set dict_get_default_def
      set_add_def new_task_def split: option.splits if_splits)

lemma scheduled_fold_exts:
  "scheduled (fold (add_pollster fnm src) exts ts) interval n i \<longleftrightarrow>
   scheduled ts interval n i
   \<or> (\<exists>nm. (i, nm) \<in> set exts \<and> polling_support_meter fnm src nm \<and> interval = ps_interval src \<and> n = ps_name src)"
proof (induction exts arbitrary: ts)
  case (Cons e exts)
  obtain j nm where e: "e = (j, nm)" by (cases e)
  show ?case by (auto simp: Cons.IH e scheduled_add)
qed simp

lemma scheduled_fold_sources:
  "scheduled (fold (\<lambda>src ts. fold (add_pollster fnm src) exts ts) srcs ts) interval n i \<longleftrightarrow>
   scheduled ts interval n i
   \<or> (\<exists>src \<in> set srcs. \<exists>nm. (i, nm) \<in> set exts \<and> polling_support_meter fnm src nm
        \<and> interval = ps_interval src \<and> n = ps_name src)"
proof (induction srcs arbitrary: ts)
  case (Cons s srcs)
  show ?case by (simp add: Cons.IH scheduled_fold_exts)
qed simp

definition tasks_ok :: "('w, 'k, 'x) agent_scheme \<Rightarrow> tasks \<Rightarrow> bool" where
  "tasks_ok ag ts \<longleftrightarrow> (\<forall>iv t. dict_get ts iv = Some t \<longrightarrow> task_ok ag t)"

definition source_ok :: "('w, 'k, 'x) agent_scheme \<Rightarrow> polling_source \<Rightarrow> bool" where
  "source_ok ag src \<longleftrightarrow> list_all url_ok (ps_discovery src) \<and> share_ok ag (ps_resources src)"

lemma task_add_ok:
  "task_ok ag t \<Longrightarrow> source_ok ag src \<Longrightarrow> task_ok ag (task_add i nm src t)"
  by (auto simp: task_ok_def task_add_def Let_def dict_get_set resources_ok_def source_ok_def
      resources_setup_def split: if_splits)

lemma add_pollster_ok:
  assumes "tasks_ok ag ts" "source_ok ag src"
  shows "tasks_ok ag (add_pollster fnm src e ts)"
proof -
  have "task_ok ag (dict_get_default ts iv new_task)" for iv
    using assms(1) by (cases "dict_get ts iv")
      (auto simp: tasks_ok_def dict_get_default_def new_task_def task_ok_def)
  then show ?thesis
    using assms by (auto simp: add_pollster_def tasks_ok_def dict_get_set task_add_ok split: if_splits)
qed

lemma setup_polling_tasks_ok:
  assumes "list_all (source_ok ag) sources"
  shows "tasks_ok ag (setup_polling_tasks fnm sources names)"
proof -
  have exts: "tasks_ok ag ts \<Longrightarrow> source_ok ag src \<Longrightarrow> tasks_ok ag (fold (add_pollster fnm src) es ts)" for ts es src
    by (induction es arbitrary: ts) (simp_all add: add_pollster_ok)
  have "tasks_ok ag ts \<Longrightarrow> list_all (source_ok ag) srcs \<Longrightarrow>
      tasks_ok ag (fold (\<lambda>src ts. fold (add_pollster fnm src) (enumerate 0 names) ts) srcs ts)" for srcs ts
    by (induction srcs arbitrary: ts) (simp_all add: exts)
  moreover have "tasks_ok ag []" by (simp add: tasks_ok_def)
  ultimately show ?thesis using assms unfolding setup_polling_tasks_def by blast
qed

lemma send_each_collect:
  assumes "\<And>ms u. notify ms u = (u @ [ms], Inr ())" "mapr (\<lambda>s. to_message conf (set_timestamp (now_iso conf) s)) ss = Inr ms"
  shows "send_each conf notify ss u = (u @ map (\<lambda>m. [m]) ms, Inr ())"
  using assms(2)
proof (induction ss arbitrary: ms u)
  case (Cons s ss)
  from Cons.prems obtain m ms' where m: "to_message conf (set_timestamp (now_iso conf) s) = Inr m"
    and rest: "mapr (\<lambda>s. to_message conf (set_timestamp (now_iso conf) s)) ss = Inr ms'" and ms: "ms = m # ms'"
    by (auto simp: bindr_Inr_iff)
  show ?case using Cons.IH [OF rest, of "u @ [[m]]"] by (simp add: m ms assms(1))
qed simp

text \<open>The pollsters of a task are extensions of the agent.\<close>

definition indices_ok :: "nat \<Rightarrow> tasks \<Rightarrow> bool" where
  "indices_ok k ts \<longleftrightarrow>
     (\<forall>iv t n ix. dict_get ts iv = Some t \<longrightarrow> (n, ix) \<in> set (tk_matches t) \<longrightarrow> set ix \<subseteq> {..<k})"

lemma indices_okD:
  "indices_ok k ts \<Longrightarrow> dict_get ts iv = Some t \<Longrightarrow> (n, ix) \<in> set (tk_matches t) \<Longrightarrow> i \<in> set ix \<Longrightarrow> i < k"
  unfolding indices_ok_def by blast

lemma add_pollster_indices:
  assumes "indices_ok k ts" "fst e < k"
  shows "indices_ok k (add_pollster fnm src e ts)"
proof -
  let ?t = "dict_get_default ts (ps_interval src) new_task"
  have mem: "i < k" if "(n, ix) \<in> set (tk_matches ?t)" "i \<in> set ix" for n ix i
    using indices_okD [OF assms(1) _ that(1,2)] that(1)
    by (auto simp: dict_get_default_def new_task_def split: option.splits)
  have old: "i < k" if "i \<in> set (dict_get_default (tk_matches ?t) n [])" for n i
    using that mem by (cases "dict_get (tk_matches ?t) n") (auto simp: dict_get_default_def [of "tk_matches ?t"] dest: map_of_SomeD)
  have new: "i < k" if "(n, ix) \<in> set (tk_matches (task_add (fst e) (snd e) src ?t))" "i \<in> set ix" for n ix i
    using that mem old assms(2) by (auto simp: task_add_def Let_def set_add_def dest!: dict_set_memberD split: if_splits)
  show ?thesis
    using indices_okD [OF assms(1)] new
    by (auto simp: add_pollster_def indices_ok_def dict_get_set split: if_splits)
qed

lemma setup_polling_tasks_indices: "indices_ok (length names) (setup_polling_tasks fnm sources names)"
proof -
  have exts: "indices_ok k ts \<Longrightarrow> (\<And>e. e \<in> set es \<Longrightarrow> fst e < k) \<Longrightarrow>
      indices_ok k (fold (add_pollster fnm src) es ts)" for ts es src k
    by (induction es arbitrary: ts) (simp_all add: add_pollster_indices)
  have bound: "fst e < length names" if "e \<in> set (enumerate 0 names)" for e
    using that by (auto simp: in_set_enumerate_eq)
  have "indices_ok (length names) ts \<Longrightarrow>
      indices_ok (length names) (fold (\<lambda>src ts. fold (add_pollster fnm src) (enumerate 0 names) ts) srcs ts)" for srcs ts
    by (induction srcs arbitrary: ts) (simp_all add: exts bound)
  moreover have "indices_ok (length names) []" by (simp add: indices_ok_def)
  ultimately show ?thesis unfolding setup_polling_tasks_def by blast
qed

section \<open>Properties\<close>

definition demo_agent :: "(string \<Rightarrow> bool) \<Rightarrow> (unit, unit) agent" where
  "demo_agent b = \<lparr>ag_prefix = ''central'', ag_coordinator = True,
     ag_hashrings = (\<lambda>g. Some b), ag_discoveries = [], get_client = \<lambda>w. Inr (), has_endpoints = \<lambda>k s. Inr True,
     service_type = \<lambda>s. Inr s, ag_text = py_str (\<lambda>v. []), hash_of_set = \<lambda>vs. Inr ''h''\<rparr>"







text \<open>
  C6: Within a polling cycle a pollster gets each resource once. Take any cycle in which the
  pollsters before this one have been run, all with their calls recorded, and let \<open>found\<close> be the
  candidates this pollster finds for its source. It is called with some of the candidates in the
  order they were found, none of them on the blacklist of the source, and not at all when there
  are none. Over the whole cycle, the calls of the pollsters of one name, for whichever source,
  together hold no two equal resources; and each candidate is equal to a resource one of these
  calls was handed, or to one that is blacklisted for a pollster of that name.
\<close>

theorem resources_polled_once:
  assumes "poll_list conf ag w notify (map (\<lambda>(n, p). (n, logged p)) before)
      \<lparr>cy_task = t, cy_keystone = ks, cy_cache = (c0, []), cy_discovery = Some [], cy_history = [], cy_bus = u\<rparr> = (cy, Inr ())"
    and "candidates ag w (logged p) (task_resources (cy_task cy) (resources_key n (po_name p)))
      (cy_discovery cy) (cy_keystone cy) = (st, Inr found)"
  defines "cy' \<equiv> fst (poll_one conf ag w notify n (logged p) cy)"
  shows "(\<exists>polled. subseq polled found
      \<and> list_all (\<lambda>x. \<not> py_in x (blacklist (task_resources (cy_task cy) (resources_key n (po_name p))))) polled
      \<and> snd (cy_cache cy') = snd (cy_cache cy) @ (if polled = [] then [] else [(po_name p, polled)]))
    \<and> (\<forall>name. once (handed name (snd (cy_cache cy'))))
    \<and> (\<forall>x \<in> set found. py_in x (handed (po_name p) (snd (cy_cache cy')))
      \<or> (\<exists>y. py_in x [y] \<and> black_for (cy_task cy') (po_name p) y))"
proof -
  have ok: "history_ok cy name" for name
    using poll_list_history [of "\<lparr>cy_task = t, cy_keystone = ks, cy_cache = (c0, []), cy_discovery = Some [],
        cy_history = [], cy_bus = u\<rparr>" conf ag w notify before name] assms(1)
    by (simp add: history_ok_def dict_get_default_def once_def)
  note one = poll_one_logged [OF assms(2) ok, where conf = conf and notify = notify, folded cy'_def]
  have "\<exists>polled. subseq polled found
      \<and> list_all (\<lambda>x. \<not> py_in x (blacklist (task_resources (cy_task cy) (resources_key n (po_name p))))) polled
      \<and> snd (cy_cache cy') = snd (cy_cache cy) @ (if polled = [] then [] else [(po_name p, polled)])"
    using one by blast
  moreover have "\<forall>name. once (handed name (snd (cy_cache cy')))"
    using poll_one_history [of cy conf ag w notify n p, OF ok] once_subseq
    by (auto simp: cy'_def history_ok_def Let_def)
  moreover have "\<forall>x \<in> set found. py_in x (handed (po_name p) (snd (cy_cache cy')))
      \<or> (\<exists>y. py_in x [y] \<and> black_for (cy_task cy') (po_name p) y)"
    using one by (fastforce simp: history_ok_def Let_def py_in_def list_ex_iff)
  ultimately show ?thesis by blast
qed

definition quiet_pollster :: "(unit, unit) pollster" where
  "quiet_pollster = \<lparr>po_name = ''cpu'', po_default_discovery = [], po_get_samples = \<lambda>w c rs. (c, [], Finished)\<rparr>"

definition quiet_conf :: poll_conf where
  "quiet_conf = \<lparr>batch_polled_samples = True, to_message = \<lambda>s. Inr [], now_iso = ''now''\<rparr>"

definition two_source_task :: task where
  "two_source_task = \<lparr>tk_matches = [(''a'', [0]), (''b'', [0])],
     tk_resources = [(''a-cpu'', \<lparr>rs_static = [PInt 1, PInt 2], rs_discovery = [], blacklist = [PInt 2]\<rparr>),
                     (''b-cpu'', \<lparr>rs_static = [PInt 3, PFloat (Fin 1), PInt 4, PInt 3], rs_discovery = [], blacklist = []\<rparr>)]\<rparr>"

definition unshared_agent :: "(unit, unit) agent" where
  "unshared_agent = (demo_agent (\<lambda>t. True))\<lparr>ag_coordinator := False\<rparr>"

definition after_first_source :: "(unit, unit \<times> calls, unit) cycle" where
  "after_first_source = \<lparr>cy_task = two_source_task\<lparr>tk_resources := dict_set ''a-cpu''
       \<lparr>rs_static = [PInt 1, PInt 2], rs_discovery = [], blacklist = [PInt 2]\<rparr> (tk_resources two_source_task)\<rparr>,
     cy_keystone = \<lparr>ks_client = None, ks_exception = None\<rparr>, cy_cache = ((), [(''cpu'', [PInt 1])]), cy_discovery = Some [],
     cy_history = [(''cpu'', [PInt 1, PInt 2])], cy_bus = ()\<rparr>"

theorem resources_polled_once_witness:
  "\<exists>polled. subseq polled [PInt 3, PFloat (Fin 1), PInt 4, PInt 3]
     \<and> once ([PInt 1] @ polled)
     \<and> snd (cy_cache (fst (poll_one quiet_conf unshared_agent () (\<lambda>ms u. (u, Inr ())) ''b'' (logged quiet_pollster) after_first_source)))
       = (''cpu'', [PInt 1]) # (if polled = [] then [] else [(''cpu'', polled)])"
proof -
  let ?send = "\<lambda>ms u. (u, Inr ())"
  have before: "poll_list quiet_conf unshared_agent () ?send (map (\<lambda>(n, p). (n, logged p)) [(''a'', quiet_pollster)])
      \<lparr>cy_task = two_source_task, cy_keystone = \<lparr>ks_client = None, ks_exception = None\<rparr>, cy_cache = ((), []),
       cy_discovery = Some [], cy_history = [], cy_bus = ()\<rparr> = (after_first_source, Inr ())"
    by code_simp
  have key: "resources_key ''b'' (po_name quiet_pollster) = ''b-cpu''" by code_simp
  have found: "candidates unshared_agent () (logged quiet_pollster)
      (task_resources (cy_task after_first_source) (resources_key ''b'' (po_name quiet_pollster)))
      (cy_discovery after_first_source) (cy_keystone after_first_source)
      = ((\<lparr>ks_client = None, ks_exception = None\<rparr>, Some []), Inr [PInt 3, PFloat (Fin 1), PInt 4, PInt 3])"
    by code_simp
  have name: "po_name quiet_pollster = ''cpu''" by (simp add: quiet_pollster_def)
  have cache: "snd (cy_cache after_first_source) = [(''cpu'', [PInt 1])]" by (simp add: after_first_source_def)
  from resources_polled_once [OF before found, unfolded name cache] obtain polled where
      sub: "subseq polled [PInt 3, PFloat (Fin 1), PInt 4, PInt 3]"
    and calls: "snd (cy_cache (fst (poll_one quiet_conf unshared_agent () ?send ''b'' (logged quiet_pollster) after_first_source)))
       = [(''cpu'', [PInt 1])] @ (if polled = [] then [] else [(''cpu'', polled)])"
    and all: "once (handed ''cpu'' (snd (cy_cache (fst (poll_one quiet_conf unshared_agent () ?send ''b'' (logged quiet_pollster) after_first_source)))))"
    by blast
  from all [unfolded calls] have "once ([PInt 1] @ polled)" by (simp split: if_splits)
  with sub calls show ?thesis unfolding append_Cons append_Nil by blast
qed

text \<open>
  C13: A polling cycle always completes. Once the agent has joined the groups of its sources
  and the tasks are set up, no pollster, discoverer, keystone failure or bus failure ends the
  cycle of a task early, as long as the discovery URLs parse and the static resources hash.
\<close>

theorem polling_cycle_completes:
  assumes "join_partitioning_groups j sources ag = Inr ag'" "ag_coordinator ag"
    and "list_all (\<lambda>s. list_all url_ok (ps_discovery s)) sources"
    and "dict_get (setup_polling_tasks fnm sources (map po_name exts)) interval = Some t"
    and "list_all (\<lambda>p. po_default_discovery p = [] \<or> url_ok (PStr (po_default_discovery p))) exts"
  shows "snd (interval_task conf ag' exts c0 w notify t ks u) = Inr ()"
proof -
  have coord: "ag_coordinator ag'" "hash_of_set ag' = hash_of_set ag"
    using assms(1,2) by (auto simp: join_partitioning_groups_def bindr_Inr_iff)
  have "source_ok ag' s" if s: "s \<in> set sources" for s
  proof (cases "ps_resources s = []")
    case True
    then show ?thesis using s assms(3) by (auto simp: source_ok_def share_ok_def list_all_iff)
  next
    case False
    from assms(1) obtain hs where "mapr (\<lambda>s. hash_of_set ag (ps_resources s))
        (filter (\<lambda>s. ps_resources s \<noteq> []) sources) = Inr hs"
      by (auto simp: join_partitioning_groups_def partitioning_groups_def bindr_Inr_iff)
    from mapr_Inr_member [OF this, of s] s False obtain h where "hash_of_set ag (ps_resources s) = Inr h" by auto
    with joined_rings(2) [OF assms(1) s False this] show ?thesis
      using s assms(3) coord by (auto simp: source_ok_def share_ok_def list_all_iff)
  qed
  then have "tasks_ok ag' (setup_polling_tasks fnm sources (map po_name exts))"
    by (intro setup_polling_tasks_ok) (simp add: list_all_iff)
  then have t: "task_ok ag' t" using assms(4) by (simp add: tasks_ok_def)
  have p: "po_default_discovery p = [] \<or> url_ok (PStr (po_default_discovery p))"
    if "(n, p) \<in> set (task_pollsters exts t)" for n p
  proof -
    from that obtain ix i where i: "(n, ix) \<in> set (tk_matches t)" "i \<in> set ix" "p = exts ! i"
      by (auto simp: task_pollsters_def)
    then have "i < length exts"
      using indices_okD [OF setup_polling_tasks_indices [of "map po_name exts" fnm sources] assms(4)] by simp
    then have "p \<in> set exts" using i by simp
    then show ?thesis using assms(5) by (auto simp: list_all_iff)
  qed
  show ?thesis
    unfolding interval_task_def poll_and_notify_def by (rule poll_list_ok) (use t p in auto)
qed

definition demo_source :: polling_source where
  "demo_source = \<lparr>ps_name = ''src'', ps_meters = [''cpu*''], ps_interval = 60, ps_resources = [PStr ''r1''],
     ps_discovery = [PStr ''local_instances'']\<rparr>"

definition demo_pollster :: "(unit, unit) pollster" where
  "demo_pollster = \<lparr>po_name = ''cpu_util'', po_default_discovery = ''endpoint:compute'',
     po_get_samples = \<lambda>w c rs. (c, [], Failed TypeError)\<rparr>"

theorem polling_cycle_completes_witness:
  "\<exists>t. \<exists>ag' :: (unit, unit) agent. dict_get (setup_polling_tasks glob [demo_source] [''cpu_util'']) 60 = Some t
     \<and> snd (interval_task \<lparr>batch_polled_samples = True, to_message = \<lambda>s. Inr [], now_iso = ''now''\<rparr> ag' [demo_pollster]
          () () (\<lambda>ms u. (u, Inl DeliveryFailure)) t \<lparr>ks_client = None, ks_exception = None\<rparr> ()) = Inr ()"
proof -
  let ?ag = "demo_agent (\<lambda>t. True)"
  have "dict_get (setup_polling_tasks glob [demo_source] (map po_name [demo_pollster])) 60 \<noteq> None"
    by code_simp
  then obtain t where t: "dict_get (setup_polling_tasks glob [demo_source] (map po_name [demo_pollster])) 60 = Some t"
    by auto
  have names: "map po_name [demo_pollster] = [''cpu_util'']" by (simp add: demo_pollster_def)
  have urls: "url_ok (PStr ''local_instances'')" "url_ok (PStr ''endpoint:compute'')" by code_simp+
  obtain ag' where ag': "join_partitioning_groups (\<lambda>g t. True) [demo_source] ?ag = Inr ag'"
    by (auto simp: join_partitioning_groups_def partitioning_groups_def demo_source_def demo_agent_def)
  have coord: "ag_coordinator ?ag" by (simp add: demo_agent_def)
  have src: "list_all (\<lambda>s. list_all url_ok (ps_discovery s)) [demo_source]"
    using urls by (simp add: demo_source_def)
  have pol: "list_all (\<lambda>p. po_default_discovery p = [] \<or> url_ok (PStr (po_default_discovery p))) [demo_pollster]"
    using urls by (simp add: demo_pollster_def)
  have "snd (interval_task \<lparr>batch_polled_samples = True, to_message = \<lambda>s. Inr [], now_iso = ''now''\<rparr> ag' [demo_pollster]
      () () (\<lambda>ms u. (u, Inl DeliveryFailure)) t \<lparr>ks_client = None, ks_exception = None\<rparr> ()) = Inr ()"
    by (rule polling_cycle_completes [OF ag' coord src t pol])
  with t show ?thesis unfolding names by blast
qed

text \<open>
  The tasks cover exactly what the sources ask for. A pollster is run for a source, in
  the task of an interval, precisely when some source of that name has the interval and
  supports the meter the pollster is named after.
\<close>

theorem setup_polling_tasks_exact:
  "scheduled (setup_polling_tasks fnm sources names) interval n i \<longleftrightarrow>
   i < length names \<and> (\<exists>src \<in> set sources. ps_name src = n \<and> ps_interval src = interval
     \<and> polling_support_meter fnm src (names ! i))"
  by (auto simp: setup_polling_tasks_def scheduled_fold_sources in_set_enumerate_eq)
    (auto simp: scheduled_def)

text \<open>
  Batching changes how samples are grouped into notifications and nothing else, as long
  as the pollster finishes: the messages sent, in order, are the same. When the pollster ends
  with an error, a batch is not sent at all, while unbatched samples that were yielded before
  the error have been sent.
\<close>

theorem batching_preserves_samples:
  assumes "\<And>ms u. notify ms u = (u @ [ms], Inr ())"
    and "mapr (\<lambda>s. to_message conf (set_timestamp (now_iso conf) s)) ss = Inr ms"
  shows "concat (fst (send_samples (conf\<lparr>batch_polled_samples := True\<rparr>) notify ss e u)) =
      concat u @ (if e = Finished then ms else [])
    \<and> concat (fst (send_samples (conf\<lparr>batch_polled_samples := False\<rparr>) notify ss e u)) = concat u @ ms"
proof -
  have each: "send_each (conf\<lparr>batch_polled_samples := False\<rparr>) notify ss u = (u @ map (\<lambda>m. [m]) ms, Inr ())"
    using assms by (intro send_each_collect) simp_all
  have "concat (map (\<lambda>m. [m]) ms) = ms" by (induction ms) simp_all
  then show ?thesis using assms by (auto simp: send_samples_def each)
qed

theorem batching_preserves_samples_witness:
  "concat (fst (send_samples \<lparr>batch_polled_samples = True, to_message = \<lambda>s. Inr (counter_message s), now_iso = ''now''\<rparr>
      (\<lambda>ms u. (u @ [ms], Inr ())) [demo_sample] (Failed TypeError) [])) = []"
proof -
  let ?conf = "\<lparr>batch_polled_samples = True, to_message = \<lambda>s. Inr (counter_message s), now_iso = ''now''\<rparr>"
  have "mapr (\<lambda>s. to_message ?conf (set_timestamp (now_iso ?conf) s)) [demo_sample]
      = Inr [counter_message (set_timestamp ''now'' demo_sample)]" by simp
  from batching_preserves_samples [OF refl this, where e = "Failed TypeError" and u = "[]"] show ?thesis by simp
qed

text \<open>
  The agent asks keystone for a client at most once per polling cycle: whatever the first
  use gave, a client or a client exception, every later use in the cycle gives again, without
  regard to what keystone would answer by then; the next cycle starts afresh.
\<close>

theorem keystone_asked_once:
  assumes "keystone c ks = (ks', r)" "r = Inr k \<or> r = Inl (KeystoneError m)"
    and "c = Inr k' \<or> c = Inl (KeystoneError m')"
  shows "keystone c' ks' = (ks', r) \<and> keystone c'' (ks_reset ks') = keystone c'' (ks_reset ks)"
proof -
  have "ks_client ks' \<noteq> None \<or> ks_exception ks' \<noteq> None"
    using assms by (auto simp: keystone_def Let_def is_client_exception_def split: if_splits sum.splits option.splits)
  with keystone_once [OF assms(1)] have "keystone c' ks' = (ks', r)" by blast
  moreover have "ks_reset ks' = ks_reset ks" by (simp add: ks_reset_def)
  ultimately show ?thesis by simp
qed

theorem keystone_asked_once_witness:
  "keystone (Inr ''later'') \<lparr>ks_client = None, ks_exception = Some (KeystoneError ''down'')\<rparr>
     = (\<lparr>ks_client = None, ks_exception = Some (KeystoneError ''down'')\<rparr>, Inl (KeystoneError ''down''))"
proof -
  have "keystone (Inl (KeystoneError ''down'')) \<lparr>ks_client = None, ks_exception = None\<rparr>
      = (\<lparr>ks_client = None :: string option, ks_exception = Some (KeystoneError ''down'')\<rparr>, Inl (KeystoneError ''down''))"
    by (simp add: keystone_def is_client_exception_def)
  from keystone_asked_once [OF this] show ?thesis by simp
qed

end
