(* ===== verification/Api_Query.thy ===== *)
theory Api_Query
  imports Ceil_Utils Declarative
begin

text \<open>
  Access to the data through the API: \<^verbatim>\<open>ceilometer/api/rbac.py\<close>, the \<open>Query\<close> type of
  \<^verbatim>\<open>api/controllers/v2/base.py\<close> and the simple queries of
  \<^verbatim>\<open>api/controllers/v2/utils.py\<close>: validation, the restriction of other tenants' requests to
  their own project, and the translation into arguments of a storage function.

  The policy enforcer, \<open>ast.literal_eval\<close>, \<open>bool_from_string\<close> and the ISO parser are
  parameters; a storage function is the list of its argument names.
\<close>

section \<open>Requests and policies\<close>

record policy_dict =
  pd_roles :: "string list"
  pd_user_id :: "string option"
  pd_project_id :: "string option"

record api_request =
  headers :: "(string, string) pydict"
  rules :: "string list"
  enforcer :: "string \<Rightarrow> policy_dict \<Rightarrow> bool"
  default_api_return_limit :: int

definition has_rule :: "api_request \<Rightarrow> string \<Rightarrow> bool" where
  "has_rule rq name = (name \<in> set (rules rq))"

definition policy_of :: "api_request \<Rightarrow> policy_dict" where
  "policy_of rq =
     \<lparr>pd_roles = split_char CHR '','' (dict_get_default (headers rq) ''X-Roles'' []),
      pd_user_id = dict_get (headers rq) ''X-User-Id'',
      pd_project_id = dict_get (headers rq) ''X-Project-Id''\<rparr>"

text \<open>\<open>rbac.enforce\<close>: an action without a rule is allowed.\<close>

definition rbac_enforce :: "api_request \<Rightarrow> string \<Rightarrow> unit res" where
  "rbac_enforce rq policy_name =
     (let rule_method = ''telemetry:'' @ policy_name in
      if (has_rule rq ''default'' \<or> has_rule rq rule_method) \<and> \<not> enforcer rq rule_method (policy_of rq)
      then Inl (OtherError ''HTTPForbidden'') else Inr ())"

definition get_limited_to :: "api_request \<Rightarrow> string option \<times> string option" where
  "get_limited_to rq =
     (let rule_name = (if has_rule rq ''segregation'' then ''segregation'' else ''context_is_admin'') in
      if \<not> enforcer rq rule_name (policy_of rq)
      then (dict_get (headers rq) ''X-User-Id'', dict_get (headers rq) ''X-Project-Id'')
      else (None, None))"

definition get_limited_to_project :: "api_request \<Rightarrow> string option" where
  "get_limited_to_project rq = snd (get_limited_to rq)"

definition enforce_limit :: "api_request \<Rightarrow> int option \<Rightarrow> int res" where
  "enforce_limit rq limit =
     (let l = (case limit of None \<Rightarrow> default_api_return_limit rq | Some l \<Rightarrow> l)
      in if l \<le> 0 then Inl (ClientSideError ''Limit must be positive'') else Inr l)"

definition get_auth_project :: "api_request \<Rightarrow> string option \<Rightarrow> string option" where
  "get_auth_project rq on_behalf_of =
     (let auth_project = get_limited_to_project rq in
      if auth_project = None \<and> on_behalf_of \<noteq> dict_get (headers rq) ''X-Project-Id''
      then on_behalf_of else auth_project)"

section \<open>Queries\<close>

text \<open>The operators are an enumeration; without one, \<open>eq\<close> is meant.\<close>

datatype query_op = Lt | Le | Eq | Ne | Ge | Gt

record query =
  q_field :: string
  q_op :: query_op
  q_value :: string
  q_type :: "string option"

record qenv =
  literal_eval :: "string \<Rightarrow> pyval res"
  bool_strict :: "string \<Rightarrow> bool res"
  q_isotime :: "string \<Rightarrow> int res"
  naive_isotime :: "string \<Rightarrow> int res"

definition supported_types :: "string list" where
  "supported_types = [''integer'', ''float'', ''string'', ''boolean'', ''datetime'']"

text \<open>The converters; a datetime is then normalised to UTC.\<close>

definition type_converter :: "qenv \<Rightarrow> string \<Rightarrow> string \<Rightarrow> pyval res" where
  "type_converter env type value =
     (if type = ''integer'' then bindr (py_int (PStr value)) (\<lambda>i. Inr (PInt i))
      else if type = ''float'' then bindr (py_float (PStr value)) (\<lambda>f. Inr (PFloat f))
      else if type = ''boolean'' then bindr (bool_strict env value) (\<lambda>b. Inr (PBool b))
      else if type = ''string'' then Inr (PStr value)
      else bindr (q_isotime env value) (\<lambda>t. Inr (PDatetime t)))"

definition SyntaxError :: pyexc where "SyntaxError = OtherError ''SyntaxError''"

text \<open>\<open>_get_value_as_type\<close>: whatever goes wrong is the client's error.\<close>

definition get_value_as_type :: "qenv \<Rightarrow> query \<Rightarrow> string option \<Rightarrow> pyval res" where
  "get_value_as_type env q forced_type =
     (let type = (case forced_type of Some t \<Rightarrow> if t = [] then q_type q else Some t | None \<Rightarrow> q_type q);
          converted =
            (if type = None \<or> type = Some []
             then (case literal_eval env (q_value q) of
                     Inl e \<Rightarrow> if e = ValueError \<or> e = SyntaxError then Inr (PStr (q_value q)) else Inl e
                   | r \<Rightarrow> r)
             else if the type \<notin> set supported_types then Inl TypeError
             else type_converter env (the type) (q_value q))
      in case converted of
           Inr v \<Rightarrow> Inr v
         | Inl e \<Rightarrow> Inl (ClientSideError
             (if e = ValueError then ''Unable to convert the value''
              else if e = TypeError then ''The data type is not supported''
              else ''Unexpected exception'')))"

section \<open>Restriction to the own project\<close>

definition auth_or_limited :: "api_request \<Rightarrow> string option \<Rightarrow> string option" where
  "auth_or_limited rq auth_project =
     (if auth_project = None \<or> auth_project = Some [] then get_limited_to_project rq else auth_project)"

definition verify_query_segregation :: "api_request \<Rightarrow> query list \<Rightarrow> string option \<Rightarrow> unit res" where
  "verify_query_segregation rq qs auth_project =
     (case auth_or_limited rq auth_project of
        None \<Rightarrow> Inr ()
      | Some p \<Rightarrow>
          (if p \<noteq> [] \<and> list_ex (\<lambda>q. q_field q \<in> {''project'', ''project_id''} \<and> p \<noteq> q_value q) qs
           then Inl ProjectNotAuthorized else Inr ()))"

text \<open>\<open>sanitize_query\<close>, for a storage function with the arguments \<open>args\<close>.\<close>

definition sanitize_query :: "api_request \<Rightarrow> query list \<Rightarrow> string list \<Rightarrow> string option \<Rightarrow> query list res" where
  "sanitize_query rq qs args on_behalf_of =
     (let auth_project = get_auth_project rq on_behalf_of in
      if auth_project = None \<or> auth_project = Some [] then Inr qs
      else bindr (verify_query_segregation rq qs auth_project) (\<lambda>_.
        (if \<not> list_ex (\<lambda>q. q_field q = ''project_id'') qs \<and> ''on_behalf_of'' \<notin> set args
         then Inr (qs @ [\<lparr>q_field = ''project_id'', q_op = Eq, q_value = the auth_project, q_type = None\<rparr>])
         else Inr qs)))"

section \<open>Validation\<close>

fun validate_timestamp_fields :: "query list \<Rightarrow> string \<Rightarrow> query_op list \<Rightarrow> bool \<Rightarrow> bool res" where
  "validate_timestamp_fields [] field_name ops allow = Inr False"
| "validate_timestamp_fields (q # qs) field_name ops allow =
     (if q_field q = field_name
      then (if \<not> allow then Inl (UnknownArgument field_name)
            else if q_op q \<notin> set ops then Inl (InvalidInput ''op'')
            else Inr True)
      else validate_timestamp_fields qs field_name ops allow)"

definition translate_field :: "string \<Rightarrow> string" where
  "translate_field f =
     (if f = ''user_id'' then ''user'' else if f = ''project_id'' then ''project''
      else if f = ''resource_id'' then ''resource'' else f)"

definition is_field_metadata :: "string \<Rightarrow> bool" where
  "is_field_metadata f = (startswith f ''metadata.'' \<or> startswith f ''resource_metadata.'')"

definition valid_keys :: "string list \<Rightarrow> string list \<Rightarrow> string set" where
  "valid_keys args internal_keys =
     (let ts = (''start_timestamp'' \<in> set args);
          internal = internal_keys
            @ (if ts then [''end_timestamp'', ''start_timestamp'', ''end_timestamp_op'', ''start_timestamp_op''] else [])
            @ [''self'', ''metaquery'']
      in set (args @ (if ts then [''timestamp'', ''search_offset''] else [])) - set internal)"

definition validate_item :: "qenv \<Rightarrow> string set \<Rightarrow> query \<Rightarrow> unit res" where
  "validate_item env keys q =
     (if q_field q \<in> {''timestamp'', ''search_offset''} then Inr ()
      else
        (let key = translate_field (q_field q) in
         if key \<in> keys \<or> is_field_metadata (q_field q)
         then (if q_op q = Eq
               then (if key = ''enabled'' then bindr (get_value_as_type env q (Some ''boolean'')) (\<lambda>_. Inr ())
                     else if is_field_metadata key then bindr (get_value_as_type env q None) (\<lambda>_. Inr ())
                     else Inr ())
               else Inl (InvalidInput ''op''))
         else Inl (UnknownArgument key)))"

definition validate_query ::
  "qenv \<Rightarrow> api_request \<Rightarrow> query list \<Rightarrow> string list \<Rightarrow> string list \<Rightarrow> bool \<Rightarrow> unit res" where
  "validate_query env rq qs args internal_keys allow =
     bindr (verify_query_segregation rq qs None) (\<lambda>_.
     bindr (validate_timestamp_fields qs ''timestamp'' [Lt, Le, Gt, Ge] allow) (\<lambda>has_timestamp.
     bindr (validate_timestamp_fields qs ''search_offset'' [Eq] allow) (\<lambda>has_offset.
       if has_offset \<and> \<not> has_timestamp then Inl (InvalidInput ''field'')
       else bindr (mapr (validate_item env (valid_keys args internal_keys)) qs) (\<lambda>_. Inr ()))))"

section \<open>Arguments of the storage function\<close>

definition op_str :: "query_op \<Rightarrow> string" where
  "op_str o' = (case o' of Lt \<Rightarrow> ''lt'' | Le \<Rightarrow> ''le'' | Eq \<Rightarrow> ''eq'' | Ne \<Rightarrow> ''ne'' | Ge \<Rightarrow> ''ge'' | Gt \<Rightarrow> ''gt'')"

text \<open>What the loop over the query collects.\<close>

record query_args =
  stamp :: "(string, string) pydict"
  metaquery :: pymap
  kwargs :: pymap

definition query_item :: "qenv \<Rightarrow> query \<Rightarrow> query_args \<Rightarrow> query_args res" where
  "query_item env q a =
     (if q_field q = ''timestamp''
      then Inr (if q_op q \<in> {Lt, Le}
                then a\<lparr>stamp := dict_set ''end_timestamp_op'' (op_str (q_op q))
                          (dict_set ''end_timestamp'' (q_value q) (stamp a))\<rparr>
                else if q_op q \<in> {Gt, Ge}
                then a\<lparr>stamp := dict_set ''start_timestamp_op'' (op_str (q_op q))
                          (dict_set ''start_timestamp'' (q_value q) (stamp a))\<rparr>
                else a)
      else if q_op q \<noteq> Eq then Inr a
      else if q_field q = ''search_offset''
      then Inr (a\<lparr>stamp := dict_set ''search_offset'' (q_value q) (stamp a)\<rparr>)
      else if q_field q = ''enabled''
      then bindr (get_value_as_type env q (Some ''boolean'')) (\<lambda>v.
             Inr (a\<lparr>kwargs := dict_set (q_field q) v (kwargs a)\<rparr>))
      else if startswith (q_field q) ''metadata.''
      then bindr (get_value_as_type env q None) (\<lambda>v.
             Inr (a\<lparr>metaquery := dict_set (q_field q) v (metaquery a)\<rparr>))
      else if startswith (q_field q) ''resource_metadata.''
      then bindr (get_value_as_type env q None) (\<lambda>v.
             Inr (a\<lparr>metaquery := dict_set (drop 9 (q_field q)) v (metaquery a)\<rparr>))
      else Inr (a\<lparr>kwargs := dict_set (translate_field (q_field q)) (PStr (q_value q)) (kwargs a)\<rparr>))"

fun query_items :: "qenv \<Rightarrow> query list \<Rightarrow> query_args \<Rightarrow> query_args res" where
  "query_items env [] a = Inr a"
| "query_items env (q # qs) a = bindr (query_item env q a) (query_items env qs)"

text \<open>
  \<open>_get_query_timestamps\<close>: the range widened by the offset, in minutes. A time zone in a
  timestamp is dropped, not converted: \<open>naive_isotime\<close> is the time without it.
\<close>

definition parse_query_timestamp :: "qenv \<Rightarrow> string option \<Rightarrow> int option res" where
  "parse_query_timestamp env ts =
     (case ts of
        None \<Rightarrow> Inr None
      | Some s \<Rightarrow>
          (if s = [] then Inr None
           else (case naive_isotime env s of
               Inl e \<Rightarrow> Inl (if e = ValueError then InvalidInput ''timestamp'' else e)
             | Inr t \<Rightarrow> Inr (Some t))))"

definition opt_datetime :: "int option \<Rightarrow> pyval" where
  "opt_datetime t = (case t of None \<Rightarrow> PNone | Some x \<Rightarrow> PDatetime x)"

definition opt_text :: "string option \<Rightarrow> pyval" where
  "opt_text s = (case s of None \<Rightarrow> PNone | Some t \<Rightarrow> PStr t)"

definition get_query_timestamps :: "qenv \<Rightarrow> (string, string) pydict \<Rightarrow> pymap res" where
  "get_query_timestamps env args =
     bindr (case dict_get args ''search_offset'' of None \<Rightarrow> Inr 0 | Some s \<Rightarrow> py_int (PStr s)) (\<lambda>offset.
     bindr (parse_query_timestamp env (dict_get args ''start_timestamp'')) (\<lambda>start.
     bindr (parse_query_timestamp env (dict_get args ''end_timestamp'')) (\<lambda>end'.
       Inr [(''start_timestamp'', opt_datetime (map_option (\<lambda>t. t - offset * 60000000) start)),
            (''end_timestamp'', opt_datetime (map_option (\<lambda>t. t + offset * 60000000) end')),
            (''start_timestamp_op'', opt_text (dict_get args ''start_timestamp_op'')),
            (''end_timestamp_op'', opt_text (dict_get args ''end_timestamp_op''))])))"

definition query_to_kwargs ::
  "qenv \<Rightarrow> api_request \<Rightarrow> query list \<Rightarrow> string list \<Rightarrow> string list \<Rightarrow> bool \<Rightarrow> pymap res" where
  "query_to_kwargs env rq qs args internal_keys allow =
     (if qs = [] then Inr []
      else
        bindr (validate_query env rq qs args internal_keys allow) (\<lambda>_.
        bindr (sanitize_query rq qs args None) (\<lambda>qs'.
        bindr (query_items env qs' \<lparr>stamp = [], metaquery = [], kwargs = []\<rparr>) (\<lambda>a.
          (let kw = (if metaquery a \<noteq> [] \<and> ''metaquery'' \<in> set args
                     then dict_set ''metaquery'' (PDict (metaquery a)) (kwargs a) else kwargs a)
           in if stamp a \<noteq> []
              then bindr (get_query_timestamps env (stamp a)) (\<lambda>ts. Inr (dict_update kw ts))
              else Inr kw)))))"

section \<open>Flattened metadata\<close>

text \<open>\<open>flatten_metadata\<close>; sets do not occur in the values of the model.\<close>

definition flat_key :: "string \<Rightarrow> string" where
  "flat_key k =
     (let s = replace_char CHR ''.'' CHR '':'' k; (a, b) = split_once CHR '':'' s
      in if CHR '':'' \<in> set s then a @ ''.'' @ b else s)"

definition flatten_metadata :: "(pyval \<Rightarrow> string) \<Rightarrow> pymap \<Rightarrow> pymap res" where
  "flatten_metadata rp metadata =
     (if metadata = [] then Inr []
      else bindr (recursive_keypairs ''.'' metadata) (\<lambda>kvs.
             Inr (dict_update [] (map (\<lambda>(k, v). (flat_key k, PStr (py_str rp v))) kvs))))"

section \<open>Lemmas\<close>

lemma translate_project: "translate_field f = ''project'' \<longleftrightarrow> f = ''project'' \<or> f = ''project_id''"
  by (simp add: translate_field_def)

definition project_is :: "string \<Rightarrow> query \<Rightarrow> bool" where
  "project_is p q \<longleftrightarrow> (q_field q \<in> {''project'', ''project_id''} \<longrightarrow> q_value q = p \<and> q_op q = Eq)"

lemma query_item_project:
  assumes "query_item env q a = Inr b" "project_is p q"
  shows "dict_get (kwargs b) ''project''
    = (if q_field q \<in> {''project'', ''project_id''} then Some (PStr p) else dict_get (kwargs a) ''project'')"
proof (cases "q_field q \<in> {''project'', ''project_id''}")
  case True
  then show ?thesis using assms
    by (auto simp: query_item_def project_is_def translate_field_def dict_get_set startswith_def)
next
  case False
  then have "translate_field (q_field q) \<noteq> ''project''" by (simp add: translate_project)
  then show ?thesis using assms(1) False
    by (auto simp: query_item_def bindr_Inr_iff dict_get_set split: if_splits)
qed

lemma query_items_project:
  assumes "query_items env qs a = Inr b" "\<forall>q \<in> set qs. project_is p q"
  shows "dict_get (kwargs b) ''project''
    = (if \<exists>q \<in> set qs. q_field q \<in> {''project'', ''project_id''} then Some (PStr p)
       else dict_get (kwargs a) ''project'')"
  using assms
proof (induction qs arbitrary: a)
  case (Cons q qs)
  from Cons.prems(1) obtain c where c: "query_item env q a = Inr c" "query_items env qs c = Inr b"
    by (auto simp: bindr_Inr_iff)
  from Cons.IH [OF c(2)] query_item_project [OF c(1), of p] Cons.prems(2) show ?case by auto
qed simp

lemma validate_query_eq:
  assumes "validate_query env rq qs args internal_keys allow = Inr ()" "q \<in> set qs"
    and "q_field q \<in> {''project'', ''project_id''}"
  shows "q_op q = Eq"
proof -
  from assms(1) obtain us where us: "mapr (validate_item env (valid_keys args internal_keys)) qs = Inr us"
    by (auto simp: validate_query_def bindr_Inr_iff split: if_splits)
  from mapr_Inr_member [OF us assms(2)] have "validate_item env (valid_keys args internal_keys) q = Inr ()" by auto
  then show ?thesis using assms(3)
    by (auto simp: validate_item_def is_field_metadata_def startswith_def Let_def split: if_splits)
qed

lemma get_query_timestamps_keys:
  "get_query_timestamps env args = Inr ts \<Longrightarrow>
   dict_keys ts = [''start_timestamp'', ''end_timestamp'', ''start_timestamp_op'', ''end_timestamp_op'']"
  by (auto simp: get_query_timestamps_def bindr_Inr_iff)

section \<open>Properties\<close>

text \<open>
  C2: A tenant's query stays within its project. When the policy limits a request to a project,
  every non-empty query that is accepted passes that project, and no other, to a storage
  function without an \<open>on_behalf_of\<close> argument, whatever fields the query names.
\<close>

theorem simple_query_isolated:
  assumes "get_limited_to_project rq = Some p" "p \<noteq> []" "qs \<noteq> []" "''on_behalf_of'' \<notin> set args"
    and "query_to_kwargs env rq qs args internal_keys allow = Inr kw"
  shows "dict_get kw ''project'' = Some (PStr p)"
proof -
  from assms(3,5) obtain qs' a where v: "validate_query env rq qs args internal_keys allow = Inr ()"
    and s: "sanitize_query rq qs args None = Inr qs'"
    and a: "query_items env qs' \<lparr>stamp = [], metaquery = [], kwargs = []\<rparr> = Inr a"
    and kw: "(let kw = (if metaquery a \<noteq> [] \<and> ''metaquery'' \<in> set args
                 then dict_set ''metaquery'' (PDict (metaquery a)) (kwargs a) else kwargs a)
              in if stamp a \<noteq> []
                 then bindr (get_query_timestamps env (stamp a)) (\<lambda>ts. Inr (dict_update kw ts))
                 else Inr kw) = Inr kw"
    by (auto simp: query_to_kwargs_def bindr_Inr_iff)
  have auth: "get_auth_project rq None = Some p" using assms(1) by (simp add: get_auth_project_def)
  have seg: "verify_query_segregation rq qs (Some p) = Inr ()"
    using s assms(2) by (auto simp: sanitize_query_def auth bindr_Inr_iff Let_def)
  have own: "q_value q = p" if "q \<in> set qs" "q_field q \<in> {''project'', ''project_id''}" for q
    using seg that assms(2) by (auto simp: verify_query_segregation_def auth_or_limited_def list_ex_iff split: if_splits)
  let ?add = "\<lparr>q_field = ''project_id'', q_op = Eq, q_value = p, q_type = None\<rparr>"
  have qs': "qs' = (if list_ex (\<lambda>q. q_field q = ''project_id'') qs then qs else qs @ [?add])"
    using s assms(2,4) seg by (auto simp: sanitize_query_def auth Let_def)
  have all: "\<forall>q \<in> set qs'. project_is p q"
    using own validate_query_eq [OF v] by (auto simp: qs' project_is_def)
  have "\<exists>q \<in> set qs'. q_field q \<in> {''project'', ''project_id''}"
    by (auto simp: qs' list_ex_iff)
  with query_items_project [OF a all] have "dict_get (kwargs a) ''project'' = Some (PStr p)" by simp
  then have k: "dict_get (if metaquery a \<noteq> [] \<and> ''metaquery'' \<in> set args
      then dict_set ''metaquery'' (PDict (metaquery a)) (kwargs a) else kwargs a) ''project'' = Some (PStr p)"
    by (simp add: dict_get_set)
  show ?thesis
  proof (cases "stamp a = []")
    case False
    with kw obtain ts where ts: "get_query_timestamps env (stamp a) = Inr ts"
      and eq: "kw = dict_update (if metaquery a \<noteq> [] \<and> ''metaquery'' \<in> set args
        then dict_set ''metaquery'' (PDict (metaquery a)) (kwargs a) else kwargs a) ts"
      by (auto simp: Let_def bindr_Inr_iff)
    have keys: "dict_ok ts" "dict_get ts ''project'' = None"
      using get_query_timestamps_keys [OF ts] by (simp_all add: dict_ok_def dict_get_None_iff del: set_map)
    show ?thesis unfolding eq by (simp only: dict_update_get [OF keys(1)] keys(2) k option.case)
  qed (use kw k in \<open>simp add: Let_def\<close>)
qed

definition demo_request :: api_request where
  "demo_request = \<lparr>headers = [(''X-Project-Id'', ''p1''), (''X-User-Id'', ''u1'')], rules = [''segregation''],
     enforcer = \<lambda>r d. False, default_api_return_limit = 100\<rparr>"

definition demo_qenv :: qenv where
  "demo_qenv = \<lparr>literal_eval = \<lambda>s. Inl ValueError, bool_strict = \<lambda>s. Inl ValueError,
     q_isotime = \<lambda>s. Inr 0, naive_isotime = \<lambda>s. Inr 0\<rparr>"

theorem simple_query_isolated_witness:
  "case query_to_kwargs demo_qenv demo_request [\<lparr>q_field = ''resource_id'', q_op = Eq, q_value = ''vm'', q_type = None\<rparr>]
       [''self'', ''user'', ''project'', ''resource''] [] True of
     Inl e \<Rightarrow> False | Inr kw \<Rightarrow> dict_get kw ''project'' = Some (PStr ''p1'')"
proof -
  let ?q = "query_to_kwargs demo_qenv demo_request [\<lparr>q_field = ''resource_id'', q_op = Eq, q_value = ''vm'', q_type = None\<rparr>]
       [''self'', ''user'', ''project'', ''resource''] [] True"
  have "case ?q of Inl e \<Rightarrow> False | Inr kw \<Rightarrow> True" by code_simp
  then obtain kw where kw: "?q = Inr kw" by (auto split: sum.splits)
  have p: "get_limited_to_project demo_request = Some ''p1''" by code_simp
  from simple_query_isolated [OF p _ _ _ kw] show ?thesis by (simp add: kw)
qed

text \<open>
  An empty query is not restricted at all, whoever asks: \<open>query_to_kwargs\<close> returns before the
  project is added.
\<close>

lemma empty_query_unrestricted: "query_to_kwargs env rq [] args internal_keys allow = Inr []"
  by (simp add: query_to_kwargs_def)

text \<open>A request without a project header is not limited either, whatever the policy says.\<close>

lemma no_header_unlimited:
  "dict_get (headers rq) ''X-Project-Id'' = None \<Longrightarrow> get_limited_to_project rq = None"
  by (simp add: get_limited_to_project_def get_limited_to_def Let_def)

end
