(* ===== verification/Api_Complex_Query.thy ===== *)
theory Api_Complex_Query
  imports Api_Query
begin

text \<open>
  Complex queries of the API (\<^verbatim>\<open>ceilometer/api/controllers/v2/query.py\<close>): a filter
  expression in JSON is checked against a schema, rewritten for the storage drivers, and
  restricted to the project of the request.

  A filter expression is a value whose dictionaries have one key, the operator. The schema is
  modelled as the predicate it describes; \<open>json.loads\<close> and the ISO parser are parameters.
\<close>

section \<open>The schema\<close>

definition complex_operators :: "string list" where
  "complex_operators = [''and'', ''or'']"

definition order_directions :: "string list" where
  "order_directions = [''asc'', ''desc'']"

definition simple_ops :: "string list" where
  "simple_ops = [''='', ''!='', ''<'', ''>'', ''<='', ''=<'', ''>='', ''=>'', ''=~'']"

definition timestamp_fields :: "string list" where
  "timestamp_fields = [''timestamp'', ''state_timestamp'']"

text \<open>
  A pattern \<open>^item$\<close> also matches before a final line feed. The patterns of operators and
  directions ignore case.
\<close>

definition matches_line :: "string \<Rightarrow> string \<Rightarrow> bool" where
  "matches_line item s = (s = item \<or> s = item @ [CHR 0x0A])"

definition matches_any :: "string list \<Rightarrow> string \<Rightarrow> bool" where
  "matches_any items s = list_ex (\<lambda>i. matches_line i s) items"

definition matches_nocase :: "string list \<Rightarrow> string \<Rightarrow> bool" where
  "matches_nocase items s = matches_any items (str_lower s)"

text \<open>\<open>^metadata\.[\S]+$\<close>\<close>

definition matches_metadata :: "string \<Rightarrow> bool" where
  "matches_metadata s =
     (let rest = drop 9 s;
          body = (if rest \<noteq> [] \<and> last rest = CHR 0x0A then butlast rest else rest)
      in startswith s ''metadata.'' \<and> body \<noteq> [] \<and> list_all (\<lambda>c. \<not> is_space c) body)"

text \<open>What a query may name, and how names are mapped to those of the storage model.\<close>

record query_model =
  model_fields :: "string list"
  name_mapping :: "(string, string) pydict"
  metadata_allowed :: bool

definition base_mapping :: "(string, string) pydict" where
  "base_mapping = [(''user'', ''user_id''), (''project'', ''project_id'')]"

definition query_model_init :: "string list \<Rightarrow> (string, string) pydict \<Rightarrow> bool \<Rightarrow> query_model" where
  "query_model_init flds additional metadata =
     \<lparr>model_fields = flds, name_mapping = dict_update base_mapping additional, metadata_allowed = metadata\<rparr>"

definition valid_field :: "query_model \<Rightarrow> string \<Rightarrow> bool" where
  "valid_field m s = matches_any (model_fields m @ dict_keys (name_mapping m)) s"

definition valid_filter_field :: "query_model \<Rightarrow> string \<Rightarrow> bool" where
  "valid_filter_field m s = (valid_field m s \<or> metadata_allowed m \<and> matches_metadata s)"

text \<open>The types of JSON schema: a boolean is no number.\<close>

fun json_scalar :: "bool \<Rightarrow> pyval \<Rightarrow> bool" where
  "json_scalar bools (PStr s) = True"
| "json_scalar bools (PInt i) = True"
| "json_scalar bools (PFloat f) = True"
| "json_scalar bools (PBool b) = bools"
| "json_scalar bools v = False"

definition schema_value_in :: "pyval \<Rightarrow> bool" where
  "schema_value_in v = (case v of PList xs \<Rightarrow> xs \<noteq> [] \<and> list_all (json_scalar False) xs | _ \<Rightarrow> False)"

text \<open>An object with exactly one property, whose name and value are as told.\<close>

definition one_property :: "(string \<Rightarrow> bool) \<Rightarrow> (pyval \<Rightarrow> bool) \<Rightarrow> pyval \<Rightarrow> bool" where
  "one_property name value v = (case v of PDict [(k, w)] \<Rightarrow> name k \<and> value w | _ \<Rightarrow> False)"

definition schema_leaf :: "query_model \<Rightarrow> string \<Rightarrow> pyval \<Rightarrow> bool" where
  "schema_leaf m oper v =
     (matches_nocase simple_ops oper \<and> one_property (valid_filter_field m) (json_scalar True) v
      \<or> matches_nocase [''in''] oper \<and> one_property (valid_filter_field m) schema_value_in v)"

function (sequential) valid_filter :: "query_model \<Rightarrow> pyval \<Rightarrow> bool" where
  "valid_filter m (PDict [(oper, v)]) =
     (schema_leaf m oper v
      \<or> (case v of
           PList xs \<Rightarrow> matches_nocase complex_operators oper \<and> 2 \<le> length xs \<and> list_all (valid_filter m) xs
         | _ \<Rightarrow> False)
      \<or> (matches_nocase [''not''] oper \<and> valid_filter m v))"
| "valid_filter m v = False"
  by pat_completeness auto
termination
  by (relation "measure (\<lambda>(m, v). size v)") (auto dest!: size_list_member [where f = size])

definition valid_orderby :: "query_model \<Rightarrow> pyval \<Rightarrow> bool" where
  "valid_orderby m v =
     (case v of
        PList xs \<Rightarrow>
          list_all (one_property (valid_field m)
            (\<lambda>w. case w of PStr s \<Rightarrow> matches_nocase order_directions s | _ \<Rightarrow> False)) xs
      | _ \<Rightarrow> False)"

section \<open>Walking over a filter\<close>

text \<open>\<open>list(d.items())[0]\<close>\<close>

definition first_item :: "pyval \<Rightarrow> (string \<times> pyval) res" where
  "first_item v =
     (case v of
        PDict [] \<Rightarrow> Inl IndexError
      | PDict (kv # _) \<Rightarrow> Inr kv
      | _ \<Rightarrow> Inl (AttributeError ''items''))"

text \<open>The operands of \<open>enumerate(tree[op])\<close> that are no list: a dictionary gives its keys.\<close>

definition operand_error :: "pyval \<Rightarrow> pyval res" where
  "operand_error v =
     (case py_iter v of
        Inl e \<Rightarrow> Inl e
      | Inr [] \<Rightarrow> Inr v
      | Inr _ \<Rightarrow> Inl (AttributeError ''keys''))"

text \<open>
  \<open>_traverse_postorder\<close>: the operands first, then the visitor. What a visitor does to its
  subtree is its result.
\<close>

function (sequential) traverse_postorder :: "(pyval \<Rightarrow> pyval res) \<Rightarrow> pyval \<Rightarrow> pyval res" where
  "traverse_postorder visitor (PDict ((oper, v) # rest)) =
     bindr (if str_lower oper \<in> set complex_operators
            then (case v of
                    PList xs \<Rightarrow> bindr (mapr (traverse_postorder visitor) xs) (\<lambda>ys. Inr (PList ys))
                  | _ \<Rightarrow> operand_error v)
            else if str_lower oper = ''not'' then traverse_postorder visitor v
            else Inr v) (\<lambda>v'. visitor (PDict ((oper, v') # rest)))"
| "traverse_postorder visitor (PDict []) = Inl IndexError"
| "traverse_postorder visitor v = Inl (AttributeError ''keys'')"
  by pat_completeness auto
termination
  by (relation "measure (\<lambda>(f, v). size v)") (auto dest!: size_list_member [where f = size])

section \<open>The visitors\<close>

text \<open>
  \<open>check_project_id\<close>: a comparison of the visibility field with anything but the own project
  is refused.
\<close>

definition check_project_id :: "string \<Rightarrow> string \<Rightarrow> pyval \<Rightarrow> pyval res" where
  "check_project_id own visibility_field sub =
     bindr (first_item sub) (\<lambda>(oper, value).
       if str_lower oper \<in> set complex_operators then Inr sub
       else bindr (first_item value) (\<lambda>(field, x).
         if field = visibility_field \<and> \<not> py_eq x (PStr own) then Inl ProjectNotAuthorized else Inr sub))"

definition convert_to_datetime :: "qenv \<Rightarrow> pyval \<Rightarrow> pyval res" where
  "convert_to_datetime env v =
     (case (case v of PStr s \<Rightarrow> naive_isotime env s | _ \<Rightarrow> Inl ValueError) of
        Inr t \<Rightarrow> Inr (PDatetime t)
      | Inl e \<Rightarrow> Inl (if e = ValueError then ClientSideError ''Failed to parse the timestamp value'' else e))"

definition replace_isotime :: "qenv \<Rightarrow> pyval \<Rightarrow> pyval res" where
  "replace_isotime env sub =
     bindr (first_item sub) (\<lambda>(oper, value).
       if str_lower oper \<in> set complex_operators then Inr sub
       else bindr (first_item value) (\<lambda>(field, x).
         if field \<in> set timestamp_fields
         then bindr (convert_to_datetime env x) (\<lambda>t.
                (case (sub, value) of
                   (PDict d, PDict f) \<Rightarrow> Inr (PDict (dict_set oper (PDict (dict_set field t f)) d))
                 | _ \<Rightarrow> Inr sub))
         else Inr sub))"

text \<open>\<open>_replace_field_names\<close>\<close>

definition replace_field_names :: "query_model \<Rightarrow> pymap \<Rightarrow> pymap res" where
  "replace_field_names m sub =
     bindr (first_item (PDict sub)) (\<lambda>(field, value).
       (let s1 = (case dict_get (name_mapping m) field of
                    Some n \<Rightarrow> dict_set n value (dict_del field sub) | None \<Rightarrow> sub)
        in if startswith field ''metadata.''
           then (if field \<in> set (dict_keys s1)
                 then Inr (dict_set (''resource_'' @ field) value (dict_del field s1)) else Inl (KeyError field))
           else Inr s1))"

definition normalize_field_names :: "query_model \<Rightarrow> pyval \<Rightarrow> pyval res" where
  "normalize_field_names m sub =
     bindr (first_item sub) (\<lambda>(oper, value).
       if str_lower oper \<in> set complex_operators then Inr sub
       else (case (sub, value) of
           (PDict d, PDict f) \<Rightarrow> bindr (replace_field_names m f) (\<lambda>f'. Inr (PDict (dict_set oper (PDict f') d)))
         | _ \<Rightarrow> Inl (AttributeError ''items'')))"

definition lowercase_operator :: "pyval \<Rightarrow> pyval res" where
  "lowercase_operator sub =
     (case sub of PDict d \<Rightarrow> Inr (PDict (lowercase_keys d)) | _ \<Rightarrow> Inl (AttributeError ''items''))"

section \<open>Visibility\<close>

definition restrict_to_project :: "string \<Rightarrow> string \<Rightarrow> pyval option \<Rightarrow> pyval" where
  "restrict_to_project project_id visibility_field filter_expr =
     (let restriction = PDict [(''='', PDict [(visibility_field, PStr project_id)])] in
      case filter_expr of
        None \<Rightarrow> restriction
      | Some f \<Rightarrow> PDict [(''and'', PList [restriction, f])])"

definition force_visibility :: "api_request \<Rightarrow> string \<Rightarrow> pyval option \<Rightarrow> pyval option res" where
  "force_visibility rq visibility_field filter_expr =
     (case get_limited_to_project rq of
        None \<Rightarrow> Inr filter_expr
      | Some p \<Rightarrow>
          bindr (traverse_postorder (check_project_id p visibility_field)
                   (restrict_to_project p visibility_field filter_expr)) (\<lambda>f. Inr (Some f)))"

section \<open>Validation\<close>

record complex_query =
  cq_filter :: "string option"
  cq_orderby :: "string option"
  cq_limit :: "int option"

definition loads_valid ::
  "(string \<Rightarrow> pyval res) \<Rightarrow> (pyval \<Rightarrow> bool) \<Rightarrow> string \<Rightarrow> string \<Rightarrow> pyval res" where
  "loads_valid loads valid msg text =
     (case loads text of
        Inl e \<Rightarrow> Inl (if e = ValueError then ClientSideError msg else e)
      | Inr v \<Rightarrow> if valid v then Inr v else Inl (ClientSideError msg))"

definition prepare_filter :: "qenv \<Rightarrow> query_model \<Rightarrow> pyval \<Rightarrow> pyval res" where
  "prepare_filter env m f =
     bindr (traverse_postorder (replace_isotime env) f) (\<lambda>f1.
     bindr (traverse_postorder lowercase_operator f1) (\<lambda>f2.
     traverse_postorder (normalize_field_names m) f2))"

definition prepare_orderby :: "query_model \<Rightarrow> pyval \<Rightarrow> pyval res" where
  "prepare_orderby m v =
     bindr (py_iter v) (\<lambda>xs.
     bindr (mapr (\<lambda>x. case x of
              PDict d \<Rightarrow> bindr (lowercase_values d) (\<lambda>d'. bindr (replace_field_names m d') (\<lambda>d''. Inr (PDict d'')))
            | _ \<Rightarrow> Inl (AttributeError ''items'')) xs) (\<lambda>ys. Inr (PList ys)))"

definition opt_res :: "('a \<Rightarrow> 'b res) \<Rightarrow> 'a option \<Rightarrow> 'b option res" where
  "opt_res f x = (case x of None \<Rightarrow> Inr None | Some a \<Rightarrow> bindr (f a) (\<lambda>b. Inr (Some b)))"

text \<open>\<open>validate\<close>: the filter, the order and the limit for the storage driver.\<close>

definition validate_complex ::
  "qenv \<Rightarrow> (string \<Rightarrow> pyval res) \<Rightarrow> api_request \<Rightarrow> query_model \<Rightarrow> string \<Rightarrow> complex_query \<Rightarrow>
   (pyval option \<times> pyval option \<times> int) res" where
  "validate_complex env loads rq m visibility_field q =
     bindr (opt_res (\<lambda>s. bindr (loads_valid loads (valid_filter m) ''Filter expression not valid'' s)
              (prepare_filter env m)) (cq_filter q)) (\<lambda>f.
     bindr (force_visibility rq visibility_field f) (\<lambda>filter_expr.
     bindr (opt_res (\<lambda>s. bindr (loads_valid loads (valid_orderby m) ''Order-by expression not valid'' s)
              (prepare_orderby m)) (cq_orderby q)) (\<lambda>orderby.
     bindr (enforce_limit rq (cq_limit q)) (\<lambda>limit. Inr (filter_expr, orderby, limit)))))"

text \<open>The mapping of the sample query controller.\<close>

definition sample_fields :: "string list" where
  "sample_fields =
     [''source'', ''counter_name'', ''counter_type'', ''counter_unit'', ''counter_volume'', ''user_id'',
      ''project_id'', ''resource_id'', ''timestamp'', ''resource_metadata'', ''message_id'',
      ''message_signature'', ''recorded_at'']"

definition sample_query_model :: query_model where
  "sample_query_model = query_model_init sample_fields
     [(''resource'', ''resource_id''), (''meter'', ''counter_name''), (''type'', ''counter_type''),
      (''unit'', ''counter_unit''), (''volume'', ''counter_volume'')] True"

definition post_query ::
  "qenv \<Rightarrow> (string \<Rightarrow> pyval res) \<Rightarrow> api_request \<Rightarrow> (pyval option \<Rightarrow> pyval option \<Rightarrow> int \<Rightarrow> 'row list res) \<Rightarrow>
   complex_query \<Rightarrow> 'row list res" where
  "post_query env loads rq query_samples body =
     bindr (rbac_enforce rq ''query_sample'') (\<lambda>_.
     bindr (validate_complex env loads rq sample_query_model ''project_id'' body) (\<lambda>(f, o', l).
       query_samples f o' l))"

section \<open>What a filter means\<close>

definition leaf_operators :: "string list" where
  "leaf_operators = simple_ops @ [''in'']"

definition operators :: "string list" where
  "operators = complex_operators @ [''not''] @ leaf_operators"

text \<open>
  Filters whose operators are known words, in any case, each with operands of its kind. The
  schema guarantees it but for a line feed at the end of an operator.
\<close>

function (sequential) wf_filter :: "pyval \<Rightarrow> bool" where
  "wf_filter (PDict [(oper, v)]) =
     (if str_lower oper \<in> set complex_operators
      then (case v of PList xs \<Rightarrow> list_all wf_filter xs | _ \<Rightarrow> False)
      else if str_lower oper = ''not'' then wf_filter v
      else str_lower oper \<in> set leaf_operators \<and> (case v of PDict [fx] \<Rightarrow> True | _ \<Rightarrow> False))"
| "wf_filter v = False"
  by pat_completeness auto
termination
  by (relation "measure size") (auto dest!: size_list_member [where f = size])

text \<open>The truth of a filter, given that of its comparisons (of the row at hand).\<close>

function (sequential) meaning :: "(string \<Rightarrow> string \<Rightarrow> pyval \<Rightarrow> bool) \<Rightarrow> pyval \<Rightarrow> bool" where
  "meaning cmp (PDict [(oper, v)]) =
     (if str_lower oper = ''and'' then (case v of PList xs \<Rightarrow> list_all (meaning cmp) xs | _ \<Rightarrow> False)
      else if str_lower oper = ''or'' then (case v of PList xs \<Rightarrow> list_ex (meaning cmp) xs | _ \<Rightarrow> False)
      else if str_lower oper = ''not'' then \<not> meaning cmp v
      else (case v of PDict [(field, x)] \<Rightarrow> cmp (str_lower oper) field x | _ \<Rightarrow> False))"
| "meaning cmp v = False"
  by pat_completeness auto
termination
  by (relation "measure (\<lambda>(c, v). size v)") (auto dest!: size_list_member [where f = size])

text \<open>The comparisons of a filter.\<close>

function (sequential) leaves :: "pyval \<Rightarrow> (string \<times> string \<times> pyval) list" where
  "leaves (PDict ((oper, v) # rest)) =
     (if str_lower oper \<in> set complex_operators
      then (case v of PList xs \<Rightarrow> concat (map leaves xs) | _ \<Rightarrow> [])
      else if str_lower oper = ''not'' then leaves v
      else (case v of PDict ((field, x) # _) \<Rightarrow> [(oper, field, x)] | _ \<Rightarrow> []))"
| "leaves v = []"
  by pat_completeness auto
termination
  by (relation "measure size") (auto dest!: size_list_member [where f = size])

lemma to_lower_idem [simp]: "to_lower (to_lower c) = to_lower c"
proof -
  have "(of_char (to_lower c) :: nat) < 65 \<or> 90 < (of_char (to_lower c) :: nat)"
    by (auto simp: to_lower_def Let_def of_char_of)
  then show ?thesis by (subst to_lower_def) (auto simp: Let_def)
qed

lemma str_lower_idem [simp]: "str_lower (str_lower s) = str_lower s"
  by (simp add: str_lower_def comp_def)

section \<open>The checked filter\<close>

lemma check_project_id_same: "check_project_id own vf sub = Inr t \<Longrightarrow> t = sub"
  by (auto simp: check_project_id_def bindr_Inr_iff split: if_splits prod.splits)

lemma mapr_same: "mapr f xs = Inr ys \<Longrightarrow> (\<And>x y. x \<in> set xs \<Longrightarrow> f x = Inr y \<Longrightarrow> y = x) \<Longrightarrow> ys = xs"
  by (induction xs arbitrary: ys) (auto simp: bindr_Inr_iff)

lemma operand_error_Inr: "operand_error v = Inr w \<Longrightarrow> w = v"
  by (auto simp: operand_error_def split: sum.splits list.splits)

lemma traverse_check:
  "traverse_postorder (check_project_id own vf) f = Inr f' \<Longrightarrow>
   f' = f \<and> (\<forall>(oper, field, x) \<in> set (leaves f). field = vf \<longrightarrow> x = PStr own)"
proof (induction "check_project_id own vf" f arbitrary: f' rule: traverse_postorder.induct)
  case (1 oper v rest)
  let ?chk = "check_project_id own vf"
  from "1.prems" obtain v' where
    v': "(if str_lower oper \<in> set complex_operators
          then (case v of PList xs \<Rightarrow> bindr (mapr (traverse_postorder ?chk) xs) (\<lambda>ys. Inr (PList ys)) | _ \<Rightarrow> operand_error v)
          else if str_lower oper = ''not'' then traverse_postorder ?chk v else Inr v) = Inr v'"
    and f': "?chk (PDict ((oper, v') # rest)) = Inr f'"
    by (auto simp: bindr_Inr_iff)
  have eq: "f' = PDict ((oper, v') # rest)" by (rule check_project_id_same [OF f'])
  consider (cplx) "str_lower oper \<in> set complex_operators" | (neg) "str_lower oper = ''not''"
    "str_lower oper \<notin> set complex_operators" | (leaf) "str_lower oper \<notin> set complex_operators" "str_lower oper \<noteq> ''not''"
    by blast
  then show ?case
  proof cases
    case cplx
    show ?thesis
    proof (cases "\<exists>xs. v = PList xs")
      case True
      then obtain xs where xs: "v = PList xs" by blast
      with v' cplx obtain ys where ys: "mapr (traverse_postorder ?chk) xs = Inr ys" "v' = PList ys"
        by (auto simp: bindr_Inr_iff)
      have IH: "y = x \<and> (\<forall>(oper, field, z) \<in> set (leaves x). field = vf \<longrightarrow> z = PStr own)"
        if "x \<in> set xs" "traverse_postorder ?chk x = Inr y" for x y
        using "1.hyps"(1) [OF cplx xs that] .
      have "ys = xs" by (rule mapr_same [OF ys(1)]) (use IH in blast)
      moreover have "\<forall>(oper, field, z) \<in> set (leaves x). field = vf \<longrightarrow> z = PStr own" if "x \<in> set xs" for x
        using mapr_Inr_member [OF ys(1) that] IH [OF that] by blast
      ultimately show ?thesis using cplx xs ys(2) eq by fastforce
    next
      case False
      with v' cplx have "v' = v" by (cases v) (auto dest: operand_error_Inr)
      moreover have "leaves (PDict ((oper, v) # rest)) = []" using False cplx by (cases v) auto
      ultimately show ?thesis using eq by simp
    qed
  next
    case neg
    with v' have "traverse_postorder ?chk v = Inr v'" by simp
    from "1.hyps"(2) [OF neg(2,1) this] neg eq show ?thesis by simp
  next
    case leaf
    with v' have "v' = v" by simp
    with f' leaf have "\<forall>(oper', field, x) \<in> set (leaves (PDict ((oper, v) # rest))). field = vf \<longrightarrow> x = PStr own"
      by (auto simp: check_project_id_def bindr_Inr_iff first_item_def py_eq_str split: if_splits pyval.splits list.splits)
    with \<open>v' = v\<close> eq show ?thesis by blast
  qed
qed simp_all

section \<open>The rewritten filter\<close>

lemma traverse_meaning:
  assumes cplx: "\<And>oper xs t. str_lower oper \<in> set complex_operators \<Longrightarrow> vis (PDict [(oper, PList xs)]) = Inr t \<Longrightarrow>
      \<exists>o'. t = PDict [(o', PList xs)] \<and> str_lower o' = str_lower oper"
    and neg: "\<And>oper o2 w t. str_lower oper = ''not'' \<Longrightarrow> str_lower o2 \<in> set operators \<Longrightarrow>
      vis (PDict [(oper, PDict [(o2, w)])]) = Inr t \<Longrightarrow> \<exists>o'. t = PDict [(o', PDict [(o2, w)])] \<and> str_lower o' = str_lower oper"
    and leaf: "\<And>oper field x t. str_lower oper \<in> set leaf_operators \<Longrightarrow> vis (PDict [(oper, PDict [(field, x)])]) = Inr t \<Longrightarrow>
      \<exists>o'. t = PDict [(o', PDict [(g field, h field x)])] \<and> str_lower o' = str_lower oper"
    and "wf_filter f" "traverse_postorder vis f = Inr f'"
  shows "wf_filter f' \<and> (\<forall>cmp. meaning cmp f' = meaning (\<lambda>oper field x. cmp oper (g field) (h field x)) f)"
  using assms(4,5)
proof (induction f arbitrary: f' rule: wf_filter.induct)
  case (1 oper v)
  consider (cplx) "str_lower oper \<in> set complex_operators" | (neg) "str_lower oper = ''not''"
    "str_lower oper \<notin> set complex_operators" | (leaf) "str_lower oper \<notin> set complex_operators" "str_lower oper \<noteq> ''not''"
    by blast
  then show ?case
  proof cases
    case c: cplx
    with "1.prems"(1) obtain xs where xs: "v = PList xs" "list_all wf_filter xs" by (auto split: pyval.splits)
    with "1.prems"(2) c obtain ys where ys: "mapr (traverse_postorder vis) xs = Inr ys"
      and "vis (PDict [(oper, PList ys)]) = Inr f'" by (auto simp: bindr_Inr_iff)
    then obtain o' where f': "f' = PDict [(o', PList ys)]" "str_lower o' = str_lower oper" using cplx [OF c] by blast
    have IH: "wf_filter y \<and> (\<forall>cmp. meaning cmp y = meaning (\<lambda>oper field x. cmp oper (g field) (h field x)) x)"
      if "x \<in> set xs" "traverse_postorder vis x = Inr y" for x y
      using "1.IH"(1) [OF c xs(1) that(1) _ that(2)] xs(2) that(1) by (simp add: list_all_iff)
    have "list_all2 (\<lambda>x y. traverse_postorder vis x = Inr y) xs ys" using ys by (simp add: mapr_Inr_iff)
    then have all2: "list_all2 (\<lambda>x y. wf_filter y
        \<and> (\<forall>cmp. meaning cmp y = meaning (\<lambda>oper field x. cmp oper (g field) (h field x)) x)) xs ys"
      by (rule list.rel_mono_strong) (use IH in blast)
    then have "list_all wf_filter ys" by (induction rule: list_all2_induct) simp_all
    moreover have "list_all (meaning cmp) ys = list_all (meaning (\<lambda>oper field x. cmp oper (g field) (h field x))) xs"
      "list_ex (meaning cmp) ys = list_ex (meaning (\<lambda>oper field x. cmp oper (g field) (h field x))) xs" for cmp
      using all2 by (induction rule: list_all2_induct) simp_all
    ultimately have ys': "list_all wf_filter ys"
      "\<And>cmp. list_all (meaning cmp) ys = list_all (meaning (\<lambda>oper field x. cmp oper (g field) (h field x))) xs"
      "\<And>cmp. list_ex (meaning cmp) ys = list_ex (meaning (\<lambda>oper field x. cmp oper (g field) (h field x))) xs"
      by blast+
    show ?thesis using c by (auto simp: f' xs(1) ys' complex_operators_def)
  next
    case n: neg
    with "1.prems" obtain v' where wf: "wf_filter v" and v': "traverse_postorder vis v = Inr v'"
      and "vis (PDict [(oper, v')]) = Inr f'" by (auto simp: bindr_Inr_iff)
    from "1.IH"(2) [OF n(2,1) wf v'] have IH: "wf_filter v'"
      "\<And>cmp. meaning cmp v' = meaning (\<lambda>oper field x. cmp oper (g field) (h field x)) v" by blast+
    from IH(1) obtain o2 w where w: "v' = PDict [(o2, w)]" "str_lower o2 \<in> set operators"
      by (cases v' rule: wf_filter.cases) (auto simp: operators_def split: if_splits)
    with \<open>vis _ = Inr f'\<close> obtain o' where "f' = PDict [(o', v')]" "str_lower o' = str_lower oper"
      using neg [OF n(1)] by blast
    with IH n show ?thesis by simp
  next
    case l: leaf
    with "1.prems"(1) obtain field x where x: "v = PDict [(field, x)]" "str_lower oper \<in> set leaf_operators"
      by (auto split: pyval.splits list.splits)
    with "1.prems"(2) l have "vis (PDict [(oper, PDict [(field, x)])]) = Inr f'" by simp
    with leaf [OF x(2)] obtain o' where "f' = PDict [(o', PDict [(g field, h field x)])]" "str_lower o' = str_lower oper"
      by blast
    with l x show ?thesis by (auto simp: complex_operators_def)
  qed
qed simp_all

definition db_field :: "query_model \<Rightarrow> string \<Rightarrow> string" where
  "db_field m field =
     (if startswith field ''metadata.'' then ''resource_'' @ field
      else (case dict_get (name_mapping m) field of None \<Rightarrow> field | Some n \<Rightarrow> n))"

definition db_value :: "qenv \<Rightarrow> string \<Rightarrow> pyval \<Rightarrow> pyval" where
  "db_value env field x =
     (if field \<in> set timestamp_fields
      then (case convert_to_datetime env x of Inr t \<Rightarrow> t | Inl e \<Rightarrow> x) else x)"

text \<open>No name that is mapped is an operator or a metadata field.\<close>

definition mapping_ok :: "query_model \<Rightarrow> bool" where
  "mapping_ok m \<longleftrightarrow>
     (\<forall>k \<in> set (dict_keys (name_mapping m)). str_lower k \<notin> set operators \<and> \<not> startswith k ''metadata.'')"

lemma operator_no_metadata: "str_lower k \<in> set operators \<Longrightarrow> \<not> startswith k ''metadata.''"
proof
  assume "str_lower k \<in> set operators" "startswith k ''metadata.''"
  then obtain t where "k = ''metadata.'' @ t" by (auto simp: startswith_iff)
  then have "str_lower k = ''metadata.'' @ str_lower t" by (simp add: str_lower_def to_lower_def)
  with \<open>str_lower k \<in> set operators\<close> show False
    by (simp add: operators_def complex_operators_def leaf_operators_def simple_ops_def)
qed

lemma operator_no_timestamp: "str_lower k \<in> set operators \<Longrightarrow> k \<notin> set timestamp_fields"
  by (auto simp: operators_def complex_operators_def leaf_operators_def simple_ops_def timestamp_fields_def
      str_lower_def to_lower_def)

lemma not_complex: "str_lower oper \<in> set leaf_operators \<Longrightarrow> str_lower oper \<notin> set complex_operators"
  by (auto simp: leaf_operators_def simple_ops_def complex_operators_def)

lemma replace_isotime_meaning:
  assumes "wf_filter f" "traverse_postorder (replace_isotime env) f = Inr f'"
  shows "wf_filter f' \<and> (\<forall>cmp. meaning cmp f' = meaning (\<lambda>oper field x. cmp oper field (db_value env field x)) f)"
proof -
  have "wf_filter f' \<and> (\<forall>cmp. meaning cmp f' = meaning (\<lambda>oper field x. cmp oper (id field) (db_value env field x)) f)"
  proof (rule traverse_meaning [OF _ _ _ assms], goal_cases)
    case (1 oper xs t)
    then show ?case by (auto simp: replace_isotime_def first_item_def)
  next
    case (2 oper o2 w t)
    then have "str_lower oper \<notin> set complex_operators" by (simp add: complex_operators_def)
    with 2 operator_no_timestamp [OF 2(2)] show ?case by (auto simp: replace_isotime_def first_item_def)
  next
    case (3 oper field x t)
    with not_complex [OF 3(1)] show ?case
      by (auto simp: replace_isotime_def first_item_def db_value_def bindr_Inr_iff split: if_splits)
  qed
  then show ?thesis by simp
qed

lemma str_lower_not: "str_lower ''not'' = ''not''"
  by code_simp

lemma lowercase_operator_meaning:
  assumes "wf_filter f" "traverse_postorder lowercase_operator f = Inr f'"
  shows "wf_filter f' \<and> (\<forall>cmp. meaning cmp f' = meaning cmp f)"
proof -
  have "wf_filter f' \<and> (\<forall>cmp. meaning cmp f' = meaning (\<lambda>oper field x. cmp oper (id field) ((\<lambda>_. id) field x)) f)"
    by (rule traverse_meaning [OF _ _ _ assms])
      (auto simp: lowercase_operator_def lowercase_keys_def str_lower_not)
  then show ?thesis by simp
qed

lemma normalize_meaning:
  assumes "wf_filter f" "traverse_postorder (normalize_field_names m) f = Inr f'" "mapping_ok m"
  shows "wf_filter f' \<and> (\<forall>cmp. meaning cmp f' = meaning (\<lambda>oper field x. cmp oper (db_field m field) x) f)"
proof -
  have mapped: "dict_get (name_mapping m) k = None" if "startswith k ''metadata.''" for k
    using assms(3) that by (fastforce simp: mapping_ok_def map_of_eq_None_iff)
  have oper: "dict_get (name_mapping m) k = None" if "str_lower k \<in> set operators" for k
    using assms(3) that by (fastforce simp: mapping_ok_def map_of_eq_None_iff)
  have "wf_filter f' \<and> (\<forall>cmp. meaning cmp f' = meaning (\<lambda>oper field x. cmp oper (db_field m field) ((\<lambda>_. id) field x)) f)"
  proof (rule traverse_meaning [OF _ _ _ assms(1,2)], goal_cases)
    case (1 oper xs t)
    then show ?case by (auto simp: normalize_field_names_def first_item_def)
  next
    case (2 o1 o2 w t)
    then have "str_lower o1 \<notin> set complex_operators" by (simp add: complex_operators_def)
    with 2(3) oper [OF 2(2)] operator_no_metadata [OF 2(2)] show ?case
      by (auto simp: normalize_field_names_def replace_field_names_def first_item_def Let_def)
  next
    case (3 oper field x t)
    with not_complex [OF 3(1)] show ?case
      by (cases "startswith field ''metadata.''")
        (auto simp: normalize_field_names_def replace_field_names_def first_item_def db_field_def mapped Let_def
          bindr_Inr_iff split: option.splits)
  qed
  then show ?thesis by simp
qed

section \<open>Properties\<close>

text \<open>
  C1: A tenant's complex query stays within its project. When the policy limits a request to a
  project, every accepted filter, with or without a filter of the tenant, holds only of rows
  whose visibility field equals that project, whatever comparisons mean; and no comparison in
  it names another project, at any depth and under any negation.
\<close>

theorem complex_query_isolated:
  assumes "get_limited_to_project rq = Some p"
    and "validate_complex env loads rq m visibility_field q = Inr (filter_expr, orderby, limit)"
  shows "\<exists>f. filter_expr = Some f
    \<and> (\<forall>cmp. meaning cmp f \<longrightarrow> cmp ''='' visibility_field (PStr p))
    \<and> (\<forall>(oper, field, x) \<in> set (leaves f). field = visibility_field \<longrightarrow> x = PStr p)"
proof -
  from assms(2) obtain f0 where "force_visibility rq visibility_field f0 = Inr filter_expr"
    by (auto simp: validate_complex_def bindr_Inr_iff)
  with assms(1) obtain f where f: "filter_expr = Some f"
    and t: "traverse_postorder (check_project_id p visibility_field) (restrict_to_project p visibility_field f0) = Inr f"
    by (auto simp: force_visibility_def bindr_Inr_iff)
  from traverse_check [OF t] have eq: "f = restrict_to_project p visibility_field f0"
    and own: "\<forall>(oper, field, x) \<in> set (leaves f). field = visibility_field \<longrightarrow> x = PStr p" by blast+
  have "cmp ''='' visibility_field (PStr p)" if "meaning cmp f" for cmp
    using that unfolding eq restrict_to_project_def
    by (cases f0) (simp_all add: Let_def str_lower_def to_lower_def)
  with f own show ?thesis by blast
qed

definition demo_filter :: pyval where
  "demo_filter =
     PDict [(''OR'', PList [PDict [(''='', PDict [(''project'', PStr ''p1'')])],
                          PDict [(''Not'', PDict [(''>'', PDict [(''volume'', PInt 3)])])]])]"

definition demo_loads :: "string \<Rightarrow> pyval res" where
  "demo_loads s = Inr demo_filter"

definition demo_query :: complex_query where
  "demo_query = \<lparr>cq_filter = Some ''{}'', cq_orderby = None, cq_limit = Some 10\<rparr>"

theorem complex_query_isolated_witness:
  "case validate_complex demo_qenv demo_loads demo_request sample_query_model ''project_id'' demo_query of
     Inl e \<Rightarrow> False
   | Inr (f, o', l) \<Rightarrow> \<exists>g. f = Some g \<and> list_all (\<lambda>(oper, field, x). field \<noteq> ''project_id'' \<or> x = PStr ''p1'') (leaves g)"
proof -
  let ?v = "validate_complex demo_qenv demo_loads demo_request sample_query_model ''project_id'' demo_query"
  have "case ?v of Inl e \<Rightarrow> False | Inr r \<Rightarrow> True" by code_simp
  then obtain f o' l where v: "?v = Inr (f, o', l)" by (cases ?v) auto
  have p: "get_limited_to_project demo_request = Some ''p1''" by code_simp
  from complex_query_isolated [OF p v] show ?thesis by (auto simp: v list_all_iff)
qed

text \<open>
  C3: Rewriting a filter for the storage model keeps its meaning: the rewritten filter holds
  exactly when the tenant's does, its operators read without regard to case, its fields under
  the names of the storage model and its timestamps as times. Nothing is dropped, and negation,
  conjunction and disjunction stay where they are.
\<close>

theorem prepared_filter_meaning:
  assumes "prepare_filter env m f = Inr f'" "wf_filter f" "mapping_ok m"
  shows "meaning cmp f' = meaning (\<lambda>oper field x. cmp oper (db_field m field) (db_value env field x)) f"
proof -
  from assms(1) obtain f1 f2 where f1: "traverse_postorder (replace_isotime env) f = Inr f1"
    and f2: "traverse_postorder lowercase_operator f1 = Inr f2"
    and f3: "traverse_postorder (normalize_field_names m) f2 = Inr f'"
    by (auto simp: prepare_filter_def bindr_Inr_iff)
  note r1 = replace_isotime_meaning [OF assms(2) f1]
  note r2 = lowercase_operator_meaning [OF conjunct1 [OF r1] f2]
  note r3 = normalize_meaning [OF conjunct1 [OF r2] f3 assms(3)]
  show ?thesis using r1 r2 r3 by simp
qed

theorem prepared_filter_meaning_witness:
  "case prepare_filter demo_qenv sample_query_model demo_filter of
     Inl e \<Rightarrow> False
   | Inr f' \<Rightarrow> meaning (\<lambda>oper field x. oper = ''='' \<and> field = ''project_id'' \<or> field = ''counter_volume'') f'"
proof -
  let ?cmp = "\<lambda>oper field x. oper = ''='' \<and> field = ''project_id'' \<or> field = ''counter_volume''"
  have "case prepare_filter demo_qenv sample_query_model demo_filter of Inl e \<Rightarrow> False | Inr f' \<Rightarrow> True" by code_simp
  then obtain f' where f': "prepare_filter demo_qenv sample_query_model demo_filter = Inr f'" by (auto split: sum.splits)
  have wf: "wf_filter demo_filter" by code_simp
  have m: "mapping_ok sample_query_model" unfolding mapping_ok_def list_all_iff [symmetric] by code_simp
  have "meaning (\<lambda>oper field x. ?cmp oper (db_field sample_query_model field) (db_value demo_qenv field x)) demo_filter"
    by code_simp
  with prepared_filter_meaning [OF f' wf m, of ?cmp] show ?thesis by (simp add: f')
qed

end
