(* ===== verification/Csv_Publisher.thy ===== *)
theory Csv_Publisher
  imports Sample_Model Url
begin

text \<open>
  \<^verbatim>\<open>ceilometer/publisher/csvfile.py\<close>: the publisher that writes samples as lines of a CSV
  file, with its settings, the layout of a line, and the rotation of the files it has filled.

  The file system is a map from names to contents; \<open>gz\<close> compresses a content. The CSV writer
  and the logger's size check belong to the standard library.
\<close>

section \<open>Rotation\<close>

type_synonym 'c disk = "string \<Rightarrow> 'c option"

text \<open>A step of the rotation gives the disk and whether it raised.\<close>

definition os_remove :: "string \<Rightarrow> 'c disk \<Rightarrow> ('c disk, unit) sres" where
  "os_remove f d = (if d f = None then (d, Inl OSError) else (d(f := None), Inr ()))"

definition os_rename :: "string \<Rightarrow> string \<Rightarrow> 'c disk \<Rightarrow> ('c disk, unit) sres" where
  "os_rename a b d = (if d a = None then (d, Inl OSError) else (d(a := None, b := d a), Inr ()))"

definition backup_name :: "string \<Rightarrow> nat \<Rightarrow> string \<Rightarrow> string" where
  "backup_name base i ext = base @ ''.'' @ digits_of_nat i @ ext"

text \<open>One turn of the loop over the backups.\<close>

definition shift_backup :: "string \<Rightarrow> string \<Rightarrow> nat \<Rightarrow> 'c disk \<Rightarrow> 'c disk" where
  "shift_backup base ext i d =
     (let sfn = backup_name base i ext; dfn = backup_name base (Suc i) ext in
      if d sfn \<noteq> None then d(dfn := d sfn, sfn := None) else d)"

definition shift_backups :: "string \<Rightarrow> string \<Rightarrow> nat \<Rightarrow> 'c disk \<Rightarrow> 'c disk" where
  "shift_backups base ext n d = fold (shift_backup base ext) (rev [1..<n]) d"

text \<open>
  \<open>doRollover\<close>. The current file is compressed into the first backup or renamed to it, and
  then removed under its old name in either case; opening creates it again.
\<close>

definition do_rollover :: "('c \<Rightarrow> 'c) \<Rightarrow> 'c \<Rightarrow> bool \<Rightarrow> string \<Rightarrow> int \<Rightarrow> 'c disk \<Rightarrow> ('c disk, unit) sres" where
  "do_rollover gz blank compress base backup_count d =
     (let ext = (if compress then ''.gz'' else []);
          d1 = (if 0 < backup_count then shift_backups base ext (nat backup_count) d else d);
          dfn = backup_name base 1 ext;
          (d2, r) =
            (if 0 < backup_count
             then (let d' = d1(dfn := None) in
                   if compress
                   then (case d' base of None \<Rightarrow> (d', Inl IOError) | Some c \<Rightarrow> (d'(dfn := Some (gz c)), Inr ()))
                   else os_rename base dfn d')
             else (d1, Inr ()))
      in case r of
           Inl e \<Rightarrow> (d2, Inl e)
         | Inr _ \<Rightarrow>
             (case os_remove base d2 of
                (d3, Inl e) \<Rightarrow> (d3, Inl e)
              | (d3, Inr _) \<Rightarrow> (d3(base := Some blank), Inr ())))"

section \<open>Settings\<close>

definition str2bool :: "string \<Rightarrow> bool" where
  "str2bool v = (str_lower v \<in> {''yes'', ''true'', ''t'', ''1''})"

record csv_publisher =
  csv_location :: string
  csv_max_bytes :: int
  csv_backup_count :: int
  csv_compress :: bool
  csv_enabled :: bool
  csv_logger :: bool

record csv_conf =
  conf_location :: string
  location_strict :: bool
  abspath :: "string \<Rightarrow> string"

definition option_value :: "(string, string list) pydict \<Rightarrow> string \<Rightarrow> string option" where
  "option_value params n = (case dict_get params n of Some (v # vs) \<Rightarrow> Some v | _ \<Rightarrow> None)"

text \<open>A number option: absent, not a number, or its value.\<close>

definition int_option :: "(string, string list) pydict \<Rightarrow> string \<Rightarrow> int option res" where
  "int_option params n =
     (case option_value params n of
        None \<Rightarrow> Inr None
      | Some s \<Rightarrow> bindr (py_int (PStr s)) (\<lambda>i. Inr (Some i)))"

text \<open>
  The query string, option by option: each is stored before the next one is looked at, and one
  that is wrong ends the initialisation without a logger.
\<close>

definition csv_options :: "(string, string list) pydict \<Rightarrow> csv_publisher \<Rightarrow> csv_publisher \<times> bool" where
  "csv_options params p =
     (case int_option params ''backup_count'' of
        Inl e \<Rightarrow> (p, False)
      | Inr bc \<Rightarrow>
          (let p1 = (case bc of None \<Rightarrow> p | Some n \<Rightarrow> p\<lparr>csv_backup_count := n\<rparr>) in
           case int_option params ''max_bytes'' of
             Inl e \<Rightarrow> (p1, False)
           | Inr mb \<Rightarrow>
               (let p2 = (case mb of None \<Rightarrow> p1 | Some n \<Rightarrow> p1\<lparr>csv_max_bytes := n\<rparr>);
                    p3 = (case option_value params ''compress'' of
                            None \<Rightarrow> p2 | Some v \<Rightarrow> p2\<lparr>csv_compress := str2bool v\<rparr>);
                    p4 = (case option_value params ''enabled'' of
                            None \<Rightarrow> p3 | Some v \<Rightarrow> p3\<lparr>csv_enabled := str2bool v\<rparr>)
                in if mb \<noteq> None \<and> csv_max_bytes p2 < 0 then (p2, False) else (p4, True))))"

text \<open>\<open>__init__\<close>: the publisher, with a logger only when everything was in order.\<close>

definition csv_init :: "csv_conf \<Rightarrow> split_url \<Rightarrow> csv_publisher" where
  "csv_init conf url =
     (let p = \<lparr>csv_location = u_path url, csv_max_bytes = 0, csv_backup_count = 0, csv_compress = True,
               csv_enabled = True, csv_logger = False\<rparr>
      in if u_path url = [] \<or> str_lower (u_path url) = ''csvfile'' then p
         else
           (let p1 = (if location_strict conf then p\<lparr>csv_location := abspath conf (u_path url)\<rparr> else p) in
            if location_strict conf \<and> \<not> startswith (csv_location p1) (conf_location conf) then p1
            else
              (let (p2, ok) = (if u_query url = [] then (p1, True) else csv_options (parse_qs (u_query url)) p1)
               in p2\<lparr>csv_logger := ok\<rparr>)))"

definition py_bool_str :: "bool \<Rightarrow> string" where
  "py_bool_str b = (if b then ''True'' else ''False'')"

definition as_yaml :: "csv_publisher \<Rightarrow> string" where
  "as_yaml p =
     ''csvfile://'' @ csv_location p @ ''?max_bytes='' @ string_of_int (csv_max_bytes p)
       @ ''&backup_count='' @ string_of_int (csv_backup_count p)
       @ ''&compress='' @ py_bool_str (csv_compress p) @ ''&enabled='' @ py_bool_str (csv_enabled p)"

definition change_settings ::
  "bool option \<Rightarrow> string option \<Rightarrow> int option \<Rightarrow> int option \<Rightarrow> bool option \<Rightarrow> csv_publisher \<Rightarrow> csv_publisher" where
  "change_settings enabled location max_bytes backup_count compress p =
     (let p1 = (case enabled of None \<Rightarrow> p | Some v \<Rightarrow> p\<lparr>csv_enabled := v\<rparr>);
          p2 = (case compress of None \<Rightarrow> p1 | Some v \<Rightarrow> p1\<lparr>csv_compress := v\<rparr>);
          p3 = (case location of None \<Rightarrow> p2 | Some v \<Rightarrow> p2\<lparr>csv_location := v\<rparr>);
          p4 = (case max_bytes of None \<Rightarrow> p3 | Some v \<Rightarrow> p3\<lparr>csv_max_bytes := v\<rparr>);
          p5 = (case backup_count of None \<Rightarrow> p4 | Some v \<Rightarrow> p4\<lparr>csv_backup_count := v\<rparr>)
      in p5\<lparr>csv_logger := True\<rparr>)"

section \<open>Lines\<close>

definition ORDERED_KEYS :: "string list" where
  "ORDERED_KEYS =
     [''project_id'', ''user_id'', ''name'', ''resource_id'', ''timestamp'', ''volume'', ''unit'', ''type'', ''source'', ''id'']"

definition SUB_DICT_KEYS :: "string list" where "SUB_DICT_KEYS = [''resource_metadata'']"

text \<open>\<open>aggregate\<close>: a key and its value, nothing for \<open>None\<close>.\<close>

definition aggregate :: "(pyval \<Rightarrow> string) \<Rightarrow> string \<Rightarrow> pyval \<Rightarrow> string" where
  "aggregate rp k v = k @ ''::'' @ (if v = PNone then [] else py_str rp v)"

text \<open>\<open>convert_to_list\<close>: a nested dictionary is flattened, its keys joined.\<close>

function convert_to_list :: "(pyval \<Rightarrow> string) \<Rightarrow> string \<Rightarrow> pymap \<Rightarrow> string list" where
  "convert_to_list rp pfx [] = []"
| "convert_to_list rp pfx ((k, v) # d) =
     (let new_k = (if pfx = [] then k else pfx @ ''__'' @ k) in
      (case v of PDict e \<Rightarrow> convert_to_list rp new_k e | _ \<Rightarrow> [aggregate rp new_k v]) @ convert_to_list rp pfx d)"
  by pat_completeness auto
termination
  by (relation "measure (\<lambda>(rp, pfx, d). size_list (size_prod (\<lambda>x. 0) size) d)") auto

definition convert_to_ordered_list :: "(pyval \<Rightarrow> string) \<Rightarrow> pymap \<Rightarrow> string list res" where
  "convert_to_ordered_list rp d =
     bindr (mapr (\<lambda>k. case dict_get_default d k PNone of
              PDict e \<Rightarrow> Inr (convert_to_list rp k e)
            | PNone \<Rightarrow> Inr []
            | _ \<Rightarrow> Inl (AttributeError ''iteritems'')) SUB_DICT_KEYS) (\<lambda>subs.
       Inr (map (\<lambda>k. aggregate rp k (dict_get_default d k PNone)) ORDERED_KEYS @ concat subs))"

text \<open>
  \<open>publish_samples\<close>: the lines that are logged, in order. \<open>write_row\<close> is the CSV writer on
  the encoded cells; a sample that cannot be written ends the call.
\<close>

fun csv_publish_samples ::
  "(pyval \<Rightarrow> string) \<Rightarrow> (string list \<Rightarrow> string) \<Rightarrow> csv_publisher \<Rightarrow> sample list \<Rightarrow> string list \<Rightarrow> (string list, unit) sres" where
  "csv_publish_samples rp write_row p [] lg = (lg, Inr ())"
| "csv_publish_samples rp write_row p (s # ss) lg =
     (if \<not> csv_enabled p \<or> \<not> csv_logger p then (lg, Inr ())
      else (case convert_to_ordered_list rp (as_dict s) of
          Inl e \<Rightarrow> (lg, Inl e)
        | Inr cells \<Rightarrow> csv_publish_samples rp write_row p ss (lg @ [strip (write_row (map utf8_encode cells))])))"

definition csv_publish_events :: "'e list \<Rightarrow> unit res" where
  "csv_publish_events events = Inl NotImplementedError"

section \<open>Lemmas\<close>

lemma backup_name_inject: "backup_name base i ext = backup_name base j ext \<longleftrightarrow> i = j"
  by (auto simp: backup_name_def dest: digits_of_nat_inj)

lemma backup_name_base: "backup_name base i ext \<noteq> base"
  by (simp add: backup_name_def)

lemma shift_backups_Suc:
  "0 < n \<Longrightarrow> shift_backups base ext (Suc n) d = shift_backups base ext n (shift_backup base ext n d)"
  by (simp add: shift_backups_def)

lemma shift_backup_other:
  "f \<noteq> backup_name base i ext \<Longrightarrow> f \<noteq> backup_name base (Suc i) ext \<Longrightarrow> shift_backup base ext i d f = d f"
  by (simp add: shift_backup_def Let_def)

lemma shift_backups_other:
  "(\<And>i. 1 \<le> i \<Longrightarrow> i \<le> n \<Longrightarrow> f \<noteq> backup_name base i ext) \<Longrightarrow> shift_backups base ext n d f = d f"
proof (induction n arbitrary: d)
  case (Suc n)
  show ?case
  proof (cases "n = 0")
    case False
    then show ?thesis using Suc by (simp add: shift_backups_Suc shift_backup_other)
  qed (simp add: shift_backups_def)
qed (simp add: shift_backups_def)

lemma shift_backups_moves:
  assumes "1 \<le> i" "i < n" "d (backup_name base i ext) = Some c"
  shows "shift_backups base ext n d (backup_name base (Suc i) ext) = Some c"
  using assms
proof (induction n arbitrary: d)
  case (Suc n)
  let ?d = "shift_backup base ext n d"
  have n: "0 < n" using Suc.prems by simp
  show ?case
  proof (cases "i = n")
    case True
    then have "?d (backup_name base (Suc n) ext) = Some c"
      using Suc.prems by (simp add: shift_backup_def backup_name_inject)
    then show ?thesis using n True by (simp add: shift_backups_Suc shift_backups_other backup_name_inject)
  next
    case False
    then have "?d (backup_name base i ext) = Some c"
      using Suc.prems by (simp add: shift_backup_other backup_name_inject)
    with Suc.IH False Suc.prems n show ?thesis by (simp add: shift_backups_Suc)
  qed
qed simp

section \<open>Properties\<close>

text \<open>
  Rotating keeps the history. With compression the full file becomes the first backup,
  every backup but the last moves up by one, the file starts empty again, and no other file on
  the disk is touched.
\<close>

theorem rollover_keeps_backups:
  assumes "d base = Some c" "0 < n" "do_rollover gz blank True base (int n) d = (d', r)"
  shows "r = Inr () \<and> d' base = Some blank \<and> d' (backup_name base 1 ''.gz'') = Some (gz c)
    \<and> (\<forall>i x. 1 \<le> i \<and> i < n \<and> d (backup_name base i ''.gz'') = Some x \<longrightarrow> d' (backup_name base (Suc i) ''.gz'') = Some x)
    \<and> (\<forall>f. f \<noteq> base \<and> (\<forall>i. 1 \<le> i \<and> i \<le> n \<longrightarrow> f \<noteq> backup_name base i ''.gz'') \<longrightarrow> d' f = d f)"
proof -
  let ?d1 = "shift_backups base ''.gz'' n d" and ?b = "backup_name base 1 ''.gz''"
  have base: "?d1 base = Some c"
    using assms(1) backup_name_base [of base _ "''.gz''"] by (metis shift_backups_other)
  have res: "d' = ?d1(?b := Some (gz c), base := Some blank)" "r = Inr ()"
    using assms(2,3) base backup_name_base [of base 1 "''.gz''"]
    by (auto simp: do_rollover_def os_remove_def fun_upd_twist Let_def)
  have "d' (backup_name base (Suc i) ''.gz'') = Some x" if "1 \<le> i" "i < n" "d (backup_name base i ''.gz'') = Some x" for i x
    using shift_backups_moves [where d = d and ext = "''.gz''" and base = base, OF that] that(1) backup_name_base [of base "Suc i" "''.gz''"]
    by (simp add: res backup_name_inject)
  moreover have "d' f = d f" if "f \<noteq> base" "\<forall>i. 1 \<le> i \<and> i \<le> n \<longrightarrow> f \<noteq> backup_name base i ''.gz''" for f
  proof -
    have "f \<noteq> ?b" using that(2) assms(2) by (metis One_nat_def Suc_leI order_refl)
    then show ?thesis using that by (simp add: res shift_backups_other)
  qed
  ultimately show ?thesis using res backup_name_base [of base 1 "''.gz''"] by auto
qed

text \<open>
  Without compression rotating always fails: the file is renamed to the first backup and
  then removed under its old name, which is gone. The backup is there, the file is not.
\<close>

theorem uncompressed_rollover_fails:
  assumes "d base = Some c" "0 < n" "do_rollover gz blank False base (int n) d = (d', r)"
  shows "r = Inl OSError \<and> d' base = None \<and> d' (backup_name base 1 []) = Some c"
proof -
  have "shift_backups base [] n d base = Some c"
    using assms(1) backup_name_base [of base _ "[]"] by (metis shift_backups_other)
  with assms(2,3) backup_name_base [of base 1 "[]"] show ?thesis
    by (auto simp: do_rollover_def os_rename_def os_remove_def Let_def)
qed

theorem rollover_keeps_backups_witness:
  "fst (do_rollover (\<lambda>c. c @ ''z'') [] True ''f'' 2 [''f'' \<mapsto> ''new'', ''f.1.gz'' \<mapsto> ''old''])
     (backup_name ''f'' 2 ''.gz'') = Some ''old''"
proof -
  let ?d = "[''f'' \<mapsto> ''new'', ''f.1.gz'' \<mapsto> ''old'']"
  obtain d' r where r: "do_rollover (\<lambda>c. c @ ''z'') [] True ''f'' (int 2) ?d = (d', r)" by fastforce
  have "backup_name ''f'' 1 ''.gz'' = ''f.1.gz''" by code_simp
  with rollover_keeps_backups [OF _ _ r, of "''new''"] have "d' (backup_name ''f'' (Suc 1) ''.gz'') = Some ''old''" by simp
  with r show ?thesis by (simp add: numeral_2_eq_2)
qed

theorem uncompressed_rollover_fails_witness:
  "snd (do_rollover id [] False ''f'' 1 [''f'' \<mapsto> ''new'']) = Inl OSError"
proof -
  obtain d' r where r: "do_rollover id [] False ''f'' (int 1) [''f'' \<mapsto> ''new''] = (d', r)" by fastforce
  from uncompressed_rollover_fails [OF _ _ r] show ?thesis using r by simp
qed

end
