(* ===== verification/Http_Publisher.thy ===== *)
theory Http_Publisher
  imports Url Messaging_Publisher
begin

text \<open>
  The publishers that hand samples and events to something outside: over HTTP
  (\<^verbatim>\<open>ceilometer/publisher/http.py\<close> and the older \<^verbatim>\<open>ceilometer/dispatcher/http.py\<close>), into a
  log file (\<^verbatim>\<open>publisher/file.py\<close>), as datagrams (\<^verbatim>\<open>publisher/udp.py\<close>) and to a dispatcher
  in the same process (\<^verbatim>\<open>publisher/direct.py\<close>).

  \<open>dumps\<close> writes JSON, \<open>post\<close> sends a text and raises what \<open>requests\<close> raises, among others
  \<open>HTTPError\<close> for an error status; \<open>bool_strict\<close> is the strict \<open>bool_from_string\<close>.
\<close>

section \<open>The HTTP publisher\<close>

datatype verify = VBool bool | VPath string
datatype cert = NoCert | CertFile string | CertPair string string

record http_publisher =
  hp_timeout :: int
  hp_max_retries :: int
  hp_batch :: bool
  hp_verify :: verify
  hp_auth :: "(string \<times> string) option"
  hp_cert :: cert
  hp_raw_only :: bool
  hp_target :: string

type_synonym params = "(string, string list) pydict"

text \<open>\<open>_get_param\<close>: the last value, taken out of the parameters, also when it cannot be cast.\<close>

definition get_param :: "params \<Rightarrow> string \<Rightarrow> params \<times> string option" where
  "get_param params name = (dict_del name params, map_option last (dict_get params name))"

definition get_int_param :: "params \<Rightarrow> string \<Rightarrow> int \<Rightarrow> params \<times> int" where
  "get_int_param params name d =
     (let (params', v) = get_param params name in
      (params', case v of None \<Rightarrow> d | Some s \<Rightarrow> (case py_int (PStr s) of Inl e \<Rightarrow> d | Inr i \<Rightarrow> i)))"

text \<open>\<open>bool_from_string\<close>: what is no boolean is false; a default is a boolean already.\<close>

definition bool_param :: "(string \<Rightarrow> bool res) \<Rightarrow> params \<Rightarrow> string \<Rightarrow> bool \<Rightarrow> params \<times> bool" where
  "bool_param bool_strict params name d =
     (let (params', v) = get_param params name in
      (params', case v of None \<Rightarrow> d | Some s \<Rightarrow> (case bool_strict s of Inl e \<Rightarrow> False | Inr b \<Rightarrow> b)))"

definition verify_of :: "(string \<Rightarrow> bool res) \<Rightarrow> string option \<Rightarrow> verify" where
  "verify_of bool_strict v =
     (case v of
        None \<Rightarrow> VBool True
      | Some s \<Rightarrow>
          (case bool_strict s of
             Inr b \<Rightarrow> VBool b
           | Inl e \<Rightarrow> if s = [] then VBool True else VPath s))"

definition opt_truthy :: "string option \<Rightarrow> bool" where
  "opt_truthy s = (s \<noteq> None \<and> s \<noteq> Some [])"

definition replace_str :: "string \<Rightarrow> string \<Rightarrow> string \<Rightarrow> string" where
  "replace_str old new s = join new (split_str old None s)"

text \<open>
  The credentials are taken out of the host part; a user without a password fails, since the
  two are joined as text.
\<close>

definition strip_credentials :: "split_url \<Rightarrow> ((string \<times> string) option \<times> string) res" where
  "strip_credentials url =
     (if opt_truthy (u_username url)
      then (case u_password url of
              None \<Rightarrow> Inl TypeError
            | Some pw \<Rightarrow>
                (let user = the (u_username url)
                 in Inr (Some (user, pw), replace_str (user @ '':'' @ pw @ ''@'') [] (u_netloc url))))
      else Inr (None, u_netloc url))"

definition http_init :: "(string \<Rightarrow> bool res) \<Rightarrow> (pyval \<Rightarrow> string) \<Rightarrow> split_url \<Rightarrow> http_publisher res" where
  "http_init bool_strict rp url =
     (if u_hostname url = None then Inl ValueError
      else bindr (u_port url) (\<lambda>_.
        (let p0 = parse_qs (u_query url);
             (p1, timeout) = get_int_param p0 ''timeout'' 5;
             (p2, retries) = get_int_param p1 ''max_retries'' 2;
             (p3, batch) = bool_param bool_strict p2 ''batch'' True;
             (p4, ssl) = get_param p3 ''verify_ssl''
         in bindr (strip_credentials url) (\<lambda>(auth, netloc).
            (let (p5, clientcert) = get_param p4 ''clientcert'';
                 (p6, clientkey) = get_param p5 ''clientkey'';
                 cert = (if opt_truthy clientcert
                         then if opt_truthy clientkey then CertPair (the clientcert) (the clientkey)
                              else CertFile (the clientcert)
                         else NoCert);
                 (p7, raw_only) = bool_param bool_strict p6 ''raw_only'' False
             in Inr \<lparr>hp_timeout = timeout, hp_max_retries = retries, hp_batch = batch,
                     hp_verify = verify_of bool_strict ssl, hp_auth = auth, hp_cert = cert,
                     hp_raw_only = raw_only,
                     hp_target = urlunsplit (url\<lparr>u_netloc := netloc, u_query := urlencode_plain rp p7\<rparr>)\<rparr>)))))"

text \<open>What a post gives: an error status is logged, anything else is raised.\<close>

definition HTTPError :: pyexc where "HTTPError = OtherError ''HTTPError''"

type_synonym 'w post = "string \<Rightarrow> string \<Rightarrow> 'w \<Rightarrow> 'w \<times> unit res"

definition send_json :: "(pyval \<Rightarrow> string res) \<Rightarrow> 'w post \<Rightarrow> string \<Rightarrow> pyval \<Rightarrow> 'w \<Rightarrow> 'w \<times> unit res" where
  "send_json dumps post target data w =
     (case dumps data of
        Inl e \<Rightarrow> (w, Inl e)
      | Inr text \<Rightarrow>
          (case post target text w of
             (w', Inl e) \<Rightarrow> (w', if e = HTTPError then Inr () else Inl e)
           | r \<Rightarrow> r))"

definition do_post :: "(pyval \<Rightarrow> string res) \<Rightarrow> 'w post \<Rightarrow> string \<Rightarrow> pyval \<Rightarrow> 'w \<Rightarrow> 'w \<times> unit res" where
  "do_post dumps post target data w =
     (if \<not> truthy data then (w, Inr ()) else send_json dumps post target data w)"

text \<open>A loop of calls that ends at the first exception.\<close>

fun each_world :: "('a \<Rightarrow> 'w \<Rightarrow> 'w \<times> unit res) \<Rightarrow> 'a list \<Rightarrow> 'w \<Rightarrow> 'w \<times> unit res" where
  "each_world f [] w = (w, Inr ())"
| "each_world f (x # xs) w = (case f x w of (w', Inl e) \<Rightarrow> (w', Inl e) | (w', Inr _) \<Rightarrow> each_world f xs w')"

definition individual_post :: "(pyval \<Rightarrow> string res) \<Rightarrow> 'w post \<Rightarrow> string \<Rightarrow> pyval list \<Rightarrow> 'w \<Rightarrow> 'w \<times> unit res" where
  "individual_post dumps post target = each_world (do_post dumps post target)"

definition poster ::
  "(pyval \<Rightarrow> string res) \<Rightarrow> 'w post \<Rightarrow> http_publisher \<Rightarrow> pyval list \<Rightarrow> 'w \<Rightarrow> 'w \<times> unit res" where
  "poster dumps post hp data w =
     (if hp_batch hp then do_post dumps post (hp_target hp) (PList data) w
      else individual_post dumps post (hp_target hp) data w)"

definition http_publish_samples ::
  "(pyval \<Rightarrow> string res) \<Rightarrow> 'w post \<Rightarrow> http_publisher \<Rightarrow> sample list \<Rightarrow> 'w \<Rightarrow> 'w \<times> unit res" where
  "http_publish_samples dumps post hp samples = poster dumps post hp (map (\<lambda>s. PDict (as_dict s)) samples)"

text \<open>With \<open>raw_only\<close>, the payloads of the raw notifications that have one.\<close>

definition raw_payloads :: "event list \<Rightarrow> pyval list res" where
  "raw_payloads events =
     bindr (mapr (\<lambda>e. py_get (ev_raw e) ''payload'' PNone) events) (\<lambda>ps. Inr (filter truthy ps))"

definition http_publish_events ::
  "(pyval \<Rightarrow> string res) \<Rightarrow> 'w post \<Rightarrow> (int \<Rightarrow> string) \<Rightarrow> http_publisher \<Rightarrow> event list \<Rightarrow> 'w \<Rightarrow> 'w \<times> unit res" where
  "http_publish_events dumps post isof hp events w =
     (case (if hp_raw_only hp then raw_payloads events
            else Inr (map (\<lambda>e. PDict (serialize_event isof e)) events)) of
        Inl e \<Rightarrow> (w, Inl e)
      | Inr data \<Rightarrow> poster dumps post hp data w)"

section \<open>The HTTP dispatcher\<close>

record http_dispatcher =
  hd_target :: string
  hd_event_target :: string
  hd_timeout :: int
  hd_batch_mode :: bool
  hd_verify :: verify

definition http_dispatcher_init ::
  "(string \<Rightarrow> bool res) \<Rightarrow> string \<Rightarrow> string option \<Rightarrow> int \<Rightarrow> bool \<Rightarrow> string option \<Rightarrow> http_dispatcher" where
  "http_dispatcher_init bool_strict target event_target timeout batch_mode verify_ssl =
     \<lparr>hd_target = target,
      hd_event_target = (if opt_truthy event_target then the event_target else target),
      hd_timeout = timeout, hd_batch_mode = batch_mode, hd_verify = verify_of bool_strict verify_ssl\<rparr>"

text \<open>
  \<open>record_metering_data\<close> and \<open>record_events\<close>: one post for the batch or one per item. A single
  item is taken as a list of one.
\<close>

definition as_items :: "pyval \<Rightarrow> pyval list" where
  "as_items v = (case v of PList xs \<Rightarrow> xs | _ \<Rightarrow> [v])"

definition dispatch_http ::
  "(pyval \<Rightarrow> string res) \<Rightarrow> 'w post \<Rightarrow> bool \<Rightarrow> string \<Rightarrow> pyval \<Rightarrow> 'w \<Rightarrow> 'w \<times> unit res" where
  "dispatch_http dumps post batch target data w =
     (if target = [] then (w, Inr ())
      else if batch then send_json dumps post target (PList (as_items data)) w
      else each_world (send_json dumps post target) (as_items data) w)"

definition http_record_metering_data ::
  "(pyval \<Rightarrow> string res) \<Rightarrow> 'w post \<Rightarrow> http_dispatcher \<Rightarrow> pyval \<Rightarrow> 'w \<Rightarrow> 'w \<times> unit res" where
  "http_record_metering_data dumps post d = dispatch_http dumps post (hd_batch_mode d) (hd_target d)"

definition http_record_events ::
  "(pyval \<Rightarrow> string res) \<Rightarrow> 'w post \<Rightarrow> http_dispatcher \<Rightarrow> pyval \<Rightarrow> 'w \<Rightarrow> 'w \<times> unit res" where
  "http_record_events dumps post d = dispatch_http dumps post (hd_batch_mode d) (hd_event_target d)"

section \<open>Files, datagrams and dispatchers\<close>

text \<open>\<open>FilePublisher.__init__\<close>: the size and the number of files, when there is a logger.\<close>

definition first_option :: "params \<Rightarrow> string \<Rightarrow> string option" where
  "first_option params n = (case dict_get params n of Some (v # vs) \<Rightarrow> Some v | _ \<Rightarrow> None)"

definition file_init :: "split_url \<Rightarrow> (string \<times> int \<times> int) option" where
  "file_init url =
     (if u_path url = [] then None
      else
        (let params = parse_qs (u_query url) in
         case (first_option params ''max_bytes'', first_option params ''backup_count'') of
           (Some mb, Some bc) \<Rightarrow>
             (case (py_int (PStr mb), py_int (PStr bc)) of
                (Inr m, Inr b) \<Rightarrow> Some (u_path url, m, b)
              | _ \<Rightarrow> None)
         | _ \<Rightarrow> Some (u_path url, 0, 0)))"

definition file_publish :: "(string \<times> int \<times> int) option \<Rightarrow> 'a list \<Rightarrow> 'a list \<Rightarrow> 'a list" where
  "file_publish logger items lg = (case logger of None \<Rightarrow> lg | Some _ \<Rightarrow> lg @ items)"

text \<open>
  \<open>UDPPublisher.publish_samples\<close>: a datagram per sample; a failing send is logged, a sample
  that cannot be signed ends the call.
\<close>

fun udp_publish_samples ::
  "(sample \<Rightarrow> pymap res) \<Rightarrow> (pymap \<Rightarrow> 'w \<Rightarrow> 'w \<times> unit res) \<Rightarrow> sample list \<Rightarrow> 'w \<Rightarrow> 'w \<times> unit res" where
  "udp_publish_samples message sendto [] w = (w, Inr ())"
| "udp_publish_samples message sendto (s # ss) w =
     (case message s of
        Inl e \<Rightarrow> (w, Inl e)
      | Inr m \<Rightarrow> udp_publish_samples message sendto ss (fst (sendto m w)))"

definition udp_publish_events :: "event list \<Rightarrow> unit res" where
  "udp_publish_events events = Inl NotImplementedError"

text \<open>
  \<open>DirectPublisher\<close>: the dispatcher's name, its drivers for samples and events, and whether
  they have been created. Events use the dispatcher of the samples when both have one driver.
\<close>

record direct_publisher =
  dp_name :: string
  dp_sample_driver :: "string option"
  dp_event_driver :: "string option"
  dp_sample_dispatcher :: "string option"
  dp_event_dispatcher :: "string option"

definition direct_init ::
  "(string \<Rightarrow> string option) \<Rightarrow> (string \<Rightarrow> string option) \<Rightarrow> split_url \<Rightarrow> direct_publisher" where
  "direct_init meter_drivers event_drivers url =
     (let d = (if u_scheme url = ''direct'' then ''database'' else u_scheme url);
          name = last (dict_get_default (parse_qs (u_query url)) ''dispatcher'' [d])
      in \<lparr>dp_name = name, dp_sample_driver = meter_drivers name, dp_event_driver = event_drivers name,
          dp_sample_dispatcher = None, dp_event_dispatcher = None\<rparr>)"

text \<open>Creating a dispatcher from a missing driver is calling \<open>None\<close>.\<close>

definition get_sample_dispatcher :: "direct_publisher \<Rightarrow> (direct_publisher, string) sres" where
  "get_sample_dispatcher p =
     (case dp_sample_dispatcher p of
        Some d \<Rightarrow> (p, Inr d)
      | None \<Rightarrow>
          (case dp_sample_driver p of
             None \<Rightarrow> (p, Inl TypeError)
           | Some d \<Rightarrow> (p\<lparr>dp_sample_dispatcher := Some d\<rparr>, Inr d)))"

definition get_event_dispatcher :: "direct_publisher \<Rightarrow> (direct_publisher, string) sres" where
  "get_event_dispatcher p =
     (case dp_event_dispatcher p of
        Some d \<Rightarrow> (p, Inr d)
      | None \<Rightarrow>
          (if dp_event_driver p \<noteq> dp_sample_driver p
           then (case dp_event_driver p of
                   None \<Rightarrow> (p, Inl TypeError)
                 | Some d \<Rightarrow> (p\<lparr>dp_event_dispatcher := Some d\<rparr>, Inr d))
           else (case get_sample_dispatcher p of
                   (p', Inl e) \<Rightarrow> (p', Inl e)
                 | (p', Inr d) \<Rightarrow> (p'\<lparr>dp_event_dispatcher := Some d\<rparr>, Inr d))))"

text \<open>The messages are not signed: they do not leave the process.\<close>

definition direct_publish_samples ::
  "(pyval \<Rightarrow> string) \<Rightarrow> (string \<Rightarrow> pymap list \<Rightarrow> 'w \<Rightarrow> 'w \<times> unit res) \<Rightarrow> sample list \<Rightarrow> direct_publisher \<times> 'w \<Rightarrow>
   (direct_publisher \<times> 'w, unit) sres" where
  "direct_publish_samples rp record samples st =
     (let (p, w) = st in
      if dp_sample_driver p = None then (st, Inr ())
      else (case get_sample_dispatcher p of
          (p', Inl e) \<Rightarrow> ((p', w), Inl e)
        | (p', Inr d) \<Rightarrow>
            (case mapr (\<lambda>s. meter_message_from_counter (\<lambda>k x. []) rp s []) samples of
               Inl e \<Rightarrow> ((p', w), Inl e)
             | Inr ms \<Rightarrow> (let (w', r) = record d ms w in ((p', w'), r)))))"

definition direct_publish_events ::
  "mp_conf \<Rightarrow> (string \<Rightarrow> pymap list \<Rightarrow> 'w \<Rightarrow> 'w \<times> unit res) \<Rightarrow> event list \<Rightarrow> direct_publisher \<times> 'w \<Rightarrow>
   (direct_publisher \<times> 'w, unit) sres" where
  "direct_publish_events conf record events st =
     (let (p, w) = st in
      if dp_event_driver p = None then (st, Inr ())
      else (case get_event_dispatcher p of
          (p', Inl e) \<Rightarrow> ((p', w), Inl e)
        | (p', Inr d) \<Rightarrow>
            (case mapr (message_from_event conf) events of
               Inl e \<Rightarrow> ((p', w), Inl e)
             | Inr ms \<Rightarrow> (let (w', r) = record d ms w in ((p', w'), r)))))"

text \<open>A publisher whose drivers agree creates one dispatcher, whichever side asks first.\<close>

lemma shared_dispatcher:
  assumes "dp_event_driver p = dp_sample_driver p" "dp_event_dispatcher p = None"
    "get_event_dispatcher p = (p', Inr d)"
  shows "get_sample_dispatcher p' = (p', Inr d)"
  using assms
  by (auto simp: get_event_dispatcher_def get_sample_dispatcher_def split: option.splits if_splits prod.splits)

section \<open>Properties\<close>

lemma each_world_all:
  "(\<And>x w. x \<in> set xs \<Longrightarrow> snd (f x w) = Inr ()) \<Longrightarrow> each_world f xs w = (fold (\<lambda>x w. fst (f x w)) xs w, Inr ())"
proof (induction xs arbitrary: w)
  case (Cons x xs)
  obtain w' where "f x w = (w', Inr ())" using Cons.prems [of x w] by (metis list.set_intros(1) prod.collapse)
  with Cons.IH [of w'] Cons.prems show ?case by simp
qed simp

text \<open>
  One refused sample does not cost the others. Posting one by one, every sample is posted
  once and in order, and nothing is raised, as long as the server's refusals are all that goes
  wrong.
\<close>

theorem refused_post_isolated:
  assumes "\<not> hp_batch hp" "\<forall>t. outcome t = Inr () \<or> outcome t = Inl HTTPError"
  shows "http_publish_samples (\<lambda>v. Inr (dump v)) (\<lambda>target text w. (w @ [text], outcome text)) hp ss w
    = (w @ map (\<lambda>s. dump (PDict (as_dict s))) ss, Inr ())"
proof -
  let ?post = "\<lambda>target text w. (w @ [text], outcome text)"
  have one: "do_post (\<lambda>v. Inr (dump v)) ?post (hp_target hp) (PDict (as_dict s)) w
      = (w @ [dump (PDict (as_dict s))], Inr ())" for s w
    using assms(2) [rule_format, of "dump (PDict (as_dict s))"]
    by (auto simp: do_post_def send_json_def as_dict_def)
  have "each_world (do_post (\<lambda>v. Inr (dump v)) ?post (hp_target hp)) (map (\<lambda>s. PDict (as_dict s)) ss) w
      = (fold (\<lambda>s w. w @ [dump (PDict (as_dict s))]) ss w, Inr ())" for w
    by (induction ss arbitrary: w) (simp_all add: one)
  moreover have "fold (\<lambda>s w. w @ [dump (PDict (as_dict s))]) ss w = w @ map (\<lambda>s. dump (PDict (as_dict s))) ss" for w
    by (induction ss arbitrary: w) simp_all
  ultimately show ?thesis
    using assms(1) by (simp add: http_publish_samples_def poster_def individual_post_def)
qed

theorem refused_post_isolated_witness:
  "\<exists>hp. http_publish_samples (\<lambda>v. Inr ''x'') (\<lambda>target text w. (w @ [text], Inl HTTPError)) hp [demo_sample, demo_sample] []
     = ([''x'', ''x''], Inr ())"
proof -
  let ?hp = "\<lparr>hp_timeout = 5, hp_max_retries = 2, hp_batch = False, hp_verify = VBool True, hp_auth = None,
      hp_cert = NoCert, hp_raw_only = False, hp_target = ''http://h/''\<rparr>"
  have "\<not> hp_batch ?hp" by simp
  from refused_post_isolated [OF this, of "\<lambda>t. Inl HTTPError" "\<lambda>v. ''x''" "[demo_sample, demo_sample]" "[]"]
  show ?thesis by (intro exI [of _ ?hp]) simp
qed

text \<open>
  The documentation's example \<open>?verify_ssl=False&q=foo\<close> is to call \<open>?q=foo\<close>; the list of values
  is written as Python shows it instead.
\<close>

lemma leftover_options_mangled:
  "rp (PList [PStr ''foo'']) = ''[x]'' \<Longrightarrow> urlencode_plain rp [(''q'', [''foo''])] = ''q=%5Bx%5D''"
  by (simp add: urlencode_plain_def quote_plus_def is_alnum_def hex_digit_def Let_def) code_simp

end
