(* ===== verification/Collector.thy ===== *)
theory Collector
  imports Http_Publisher
begin

text \<open>
  The collector (\<^verbatim>\<open>ceilometer/collector.py\<close>) and the dispatchers it hands its messages to
  (\<^verbatim>\<open>dispatcher/database.py\<close>, \<^verbatim>\<open>dispatcher/file.py\<close>; the HTTP dispatcher is in
  \<open>Http_Publisher\<close>).

  A dispatcher is a function on the data and the outside world: the data are part of its state
  because the dispatchers share one Python list and the database dispatcher writes into it.
  stevedore's \<open>map_method\<close> is a parameter; \<open>in_order\<close> is what its documentation promises when
  exceptions are propagated. msgpack, the time parser and the storage connection are
  parameters too.
\<close>

section \<open>Dispatchers\<close>

type_synonym 'w dispatch_call = "pyval \<times> 'w \<Rightarrow> (pyval \<times> 'w, unit) sres"

fun in_order :: "'w dispatch_call list \<Rightarrow> 'w dispatch_call" where
  "in_order [] st = (st, Inr ())"
| "in_order (d # ds) st =
     (case d st of (st', Inl e) \<Rightarrow> (st', Inl e) | (st', Inr u) \<Rightarrow> in_order ds st')"

text \<open>
  \<open>MeterDatabaseDispatcher.record_metering_data\<close>. The arguments of the debug message are read
  before anything else, so a meter without one of these keys raises; a meter is changed in
  place.
\<close>

definition convert_meter :: "(pyval \<Rightarrow> int res) \<Rightarrow> pyval \<Rightarrow> pyval res" where
  "convert_meter isotime meter =
     (case meter of
        PDict d \<Rightarrow>
          bindr (dict_item d ''counter_name'') (\<lambda>n.
          bindr (dict_item d ''resource_id'') (\<lambda>r.
          bindr (dict_item d ''counter_volume'') (\<lambda>v.
            (case dict_get d ''timestamp'' of
               None \<Rightarrow> Inr (PDict d)
             | Some ts \<Rightarrow>
                 if truthy ts
                 then bindr (isotime ts) (\<lambda>t. Inr (PDict (dict_set ''timestamp'' (PDatetime t) d)))
                 else Inr (PDict d)))))
      | _ \<Rightarrow> Inl TypeError)"

fun convert_meters :: "(pyval \<Rightarrow> int res) \<Rightarrow> pyval list \<Rightarrow> pyval list \<times> unit res" where
  "convert_meters isotime [] = ([], Inr ())"
| "convert_meters isotime (m # ms) =
     (case convert_meter isotime m of
        Inl e \<Rightarrow> (m # ms, Inl e)
      | Inr m' \<Rightarrow> (let (ms', r) = convert_meters isotime ms in (m' # ms', r)))"

definition same_shape :: "pyval \<Rightarrow> pyval list \<Rightarrow> pyval" where
  "same_shape data ms = (case data of PList _ \<Rightarrow> PList ms | _ \<Rightarrow> hd ms)"

definition db_record ::
  "(pyval \<Rightarrow> int res) \<Rightarrow> (pyval list \<Rightarrow> 'w \<Rightarrow> 'w \<times> unit res) \<Rightarrow> 'w dispatch_call" where
  "db_record isotime record_batch st =
     (let (data, w) = st in
      if \<not> truthy data then (st, Inr ())
      else
        (let (ms, r) = convert_meters isotime (as_items data);
             data' = same_shape data ms
         in (case r of
               Inl e \<Rightarrow> ((data', w), Inl e)
             | Inr u \<Rightarrow> (let (w', r') = record_batch ms w in ((data', w'), r')))))"

text \<open>\<open>FileDispatcher\<close>: the whole batch is one line of the log; without a path there is no log.\<close>

definition file_record :: "string \<Rightarrow> pyval \<Rightarrow> pyval list \<Rightarrow> pyval list" where
  "file_record path data lines = (if path = [] then lines else lines @ [data])"

section \<open>The endpoints\<close>

text \<open>
  \<open>CollectorEndpoint.sample\<close> for a batch of messages (their payloads). The value is whether the
  messages are to be delivered again. The verification stands outside the handler.
\<close>

definition collector_sample ::
  "(string \<Rightarrow> string \<Rightarrow> string) \<Rightarrow> (pyval \<Rightarrow> string) \<Rightarrow> string \<Rightarrow> (pyval \<Rightarrow> 'w \<Rightarrow> 'w \<times> unit res) \<Rightarrow>
   pymap list list \<Rightarrow> 'w \<Rightarrow> 'w \<times> bool res" where
  "collector_sample hmac rp secret map_method messages w =
     (case filterr (\<lambda>m. verify_signature hmac rp m secret) (concat messages) of
        Inl e \<Rightarrow> (w, Inl e)
      | Inr goods \<Rightarrow>
          (let (w', r) = map_method (PList (map PDict goods)) w
           in (w', Inr (case r of Inl e \<Rightarrow> True | Inr u \<Rightarrow> False))))"

text \<open>
  One datagram of \<open>start_udp\<close>: the value of anything msgpack can write, so \<open>message.get\<close>
  raises for what is not a dictionary. Decoding and storing have handlers, verifying has not.
\<close>

definition verify_any ::
  "(string \<Rightarrow> string \<Rightarrow> string) \<Rightarrow> (pyval \<Rightarrow> string) \<Rightarrow> pyval \<Rightarrow> string \<Rightarrow> bool res" where
  "verify_any hmac rp v secret =
     (if secret = [] then Inr True
      else (case v of PDict m \<Rightarrow> verify_signature hmac rp m secret | _ \<Rightarrow> Inl (AttributeError ''get'')))"

definition udp_datagram ::
  "(string \<Rightarrow> string \<Rightarrow> string) \<Rightarrow> (pyval \<Rightarrow> string) \<Rightarrow> string \<Rightarrow> (string \<Rightarrow> pyval res) \<Rightarrow>
   (pyval \<Rightarrow> 'w \<Rightarrow> 'w \<times> unit res) \<Rightarrow> string \<Rightarrow> 'w \<Rightarrow> 'w \<times> unit res" where
  "udp_datagram hmac rp secret unpack map_method data w =
     (case unpack data of
        Inl e \<Rightarrow> (w, Inr ())
      | Inr sample \<Rightarrow>
          (case verify_any hmac rp sample secret of
             Inl e \<Rightarrow> (w, Inl e)
           | Inr False \<Rightarrow> (w, Inr ())
           | Inr True \<Rightarrow> (fst (map_method sample w), Inr ())))"

section \<open>The service\<close>

text \<open>
  What \<open>run\<close> starts: the thread when an address is set, a listener for each kind of message
  that has dispatchers.
\<close>

record collector_service =
  udp_thread :: bool
  sample_listener :: bool
  event_listener :: bool

definition collector_service_run :: "string \<Rightarrow> bool \<Rightarrow> 'd list \<Rightarrow> 'd list \<Rightarrow> collector_service" where
  "collector_service_run udp_address transport meter_manager event_manager =
     \<lparr>udp_thread = (udp_address \<noteq> []),
      sample_listener = (transport \<and> meter_manager \<noteq> []),
      event_listener = (transport \<and> event_manager \<noteq> [])\<rparr>"

datatype shutdown = KillSampleListener | KillEventListener | StopUdp | JoinUdp

definition collector_terminate :: "collector_service \<Rightarrow> shutdown list" where
  "collector_terminate s =
     (if sample_listener s then [KillSampleListener] else [])
     @ (if event_listener s then [KillEventListener] else [])
     @ (if udp_thread s then [StopUdp, JoinUdp] else [])"

text \<open>
  The UDP thread and the main thread. The thread binds its socket and only then sets
  \<open>udp_run\<close>; it looks at the flag before every wait of at most ten seconds. \<open>terminate\<close>
  clears the flag and waits for the thread.
\<close>

datatype udp_phase = Starting | Checking | Selecting | Finished | Crashed
datatype main_phase = Serving | Joining | Stopped

record 'w collector_state =
  udp_run :: bool
  udp_phase :: udp_phase
  main_phase :: main_phase
  world :: 'w

inductive udp_step ::
  "(string \<Rightarrow> 'w \<Rightarrow> 'w \<times> unit res) \<Rightarrow> 'w collector_state \<Rightarrow> 'w collector_state \<Rightarrow> bool"
  for handle where
  bound: "udp_phase s = Starting \<Longrightarrow> udp_step handle s (s\<lparr>udp_run := True, udp_phase := Checking\<rparr>)"
| go_on: "udp_phase s = Checking \<Longrightarrow> udp_run s \<Longrightarrow> udp_step handle s (s\<lparr>udp_phase := Selecting\<rparr>)"
| leave: "udp_phase s = Checking \<Longrightarrow> \<not> udp_run s \<Longrightarrow> udp_step handle s (s\<lparr>udp_phase := Finished\<rparr>)"
| timeout: "udp_phase s = Selecting \<Longrightarrow> udp_step handle s (s\<lparr>udp_phase := Checking\<rparr>)"
| stored: "udp_phase s = Selecting \<Longrightarrow> handle data (world s) = (w, Inr u) \<Longrightarrow>
    udp_step handle s (s\<lparr>udp_phase := Checking, world := w\<rparr>)"
| crashed: "udp_phase s = Selecting \<Longrightarrow> handle data (world s) = (w, Inl e) \<Longrightarrow>
    udp_step handle s (s\<lparr>udp_phase := Crashed, world := w\<rparr>)"

inductive main_step :: "'w collector_state \<Rightarrow> 'w collector_state \<Rightarrow> bool" where
  terminate: "main_phase s = Serving \<Longrightarrow> main_step s (s\<lparr>udp_run := False, main_phase := Joining\<rparr>)"
| joined: "main_phase s = Joining \<Longrightarrow> udp_phase s \<in> {Finished, Crashed} \<Longrightarrow>
    main_step s (s\<lparr>main_phase := Stopped\<rparr>)"

definition collector_step ::
  "(string \<Rightarrow> 'w \<Rightarrow> 'w \<times> unit res) \<Rightarrow> 'w collector_state \<Rightarrow> 'w collector_state \<Rightarrow> bool" where
  "collector_step handle s t = (udp_step handle s t \<or> main_step s t)"

inductive_cases udp_stepE: "udp_step handle s t"
inductive_cases main_stepE: "main_step s t"

definition collector_start :: "'w \<Rightarrow> 'w collector_state" where
  "collector_start w = \<lparr>udp_run = False, udp_phase = Starting, main_phase = Serving, world = w\<rparr>"

section \<open>Properties\<close>

lemma collector_sample_unfold:
  assumes "\<forall>m \<in> set (concat messages). is_ok (verify_signature hmac rp m secret)"
  defines "goods \<equiv> PList (map PDict (filter (\<lambda>m. verify_signature hmac rp m secret = Inr True) (concat messages)))"
  shows "collector_sample hmac rp secret map_method messages w
    = (fst (map_method goods w), Inr (\<not> is_ok (snd (map_method goods w))))"
proof -
  have "filterr (\<lambda>m. verify_signature hmac rp m secret) ms
      = Inr (filter (\<lambda>m. verify_signature hmac rp m secret = Inr True) ms)"
    if "\<forall>m \<in> set ms. is_ok (verify_signature hmac rp m secret)" for ms
    using that by (induction ms) (auto simp: is_ok_iff)
  from this [OF assms(1)] show ?thesis
    by (auto simp: collector_sample_def goods_def is_ok_def split: prod.split sum.split)
qed

definition with_data :: "'w dispatch_call \<Rightarrow> pyval \<Rightarrow> 'w \<Rightarrow> 'w \<times> unit res" where
  "with_data d data w = (let ((data', w'), r) = d (data, w) in (w', r))"

definition recorder :: "'l \<Rightarrow> ('l \<times> pyval) list dispatch_call" where
  "recorder l st = ((fst st, snd st @ [(l, fst st)]), Inr ())"

lemma in_order_recorders:
  "in_order (map recorder ls @ [d]) (data, w) = d (data, w @ map (\<lambda>l. (l, data)) ls)"
proof (induction ls arbitrary: w)
  case Nil
  obtain st r where "d (data, w) = (st, r)" by fastforce
  then show ?case by (cases r) simp_all
qed (simp add: recorder_def)

lemma funpow_append: "((\<lambda>w. w @ xs) ^^ k) w = w @ concat (replicate k xs)"
  by (induction k arbitrary: w) (simp_all add: funpow_Suc_right del: funpow.simps(2))

text \<open>
  When the last of several dispatchers fails, the batch is asked for again, and the
  dispatchers before it record the verified messages of the batch once more with every
  delivery: after \<open>k\<close> deliveries each of them has them \<open>k\<close> times. Messages that fail the
  verification are never recorded.
\<close>

theorem redelivery_duplicates:
  assumes "\<forall>m \<in> set (concat messages). is_ok (verify_signature hmac rp m secret)"
    "\<forall>data w. map_method data w = with_data (in_order (map recorder ls @ [\<lambda>st. (st, Inl e)])) data w"
  defines "goods \<equiv> PList (map PDict (filter (\<lambda>m. verify_signature hmac rp m secret = Inr True) (concat messages)))"
  shows "snd (collector_sample hmac rp secret map_method messages w) = Inr True
    \<and> ((\<lambda>w. fst (collector_sample hmac rp secret map_method messages w)) ^^ k) w
       = w @ concat (replicate k (map (\<lambda>l. (l, goods)) ls))"
proof -
  have one: "collector_sample hmac rp secret map_method messages w = (w @ map (\<lambda>l. (l, goods)) ls, Inr True)" for w
    using collector_sample_unfold [OF assms(1), of map_method w] assms(2)
    by (simp add: with_data_def in_order_recorders goods_def)
  have "(\<lambda>w. fst (collector_sample hmac rp secret map_method messages w)) = (\<lambda>w. w @ map (\<lambda>l. (l, goods)) ls)"
    by (simp add: one)
  then show ?thesis by (simp add: one funpow_append)
qed

text \<open>
  The database dispatcher writes the converted times into the list it shares: a dispatcher that
  comes after it gets a \<open>datetime\<close> where the message had text.
\<close>

lemma later_dispatcher_sees_datetime:
  assumes "convert_meter isotime m = Inr m'" "snd (record_batch [m'] w) = Inr ()"
  shows "in_order [db_record isotime record_batch, d] (PList [m], w)
    = (case d (PList [m'], fst (record_batch [m'] w)) of (st, Inl e) \<Rightarrow> (st, Inl e) | (st, Inr u) \<Rightarrow> (st, Inr ()))"
  using assms
  by (auto simp: db_record_def as_items_def same_shape_def Let_def split: prod.splits sum.splits)

text \<open>A datagram ends the thread exactly when verifying it raises; neither a text that cannot be
  decoded nor a failing dispatcher does.\<close>

lemma udp_datagram_raises:
  "snd (udp_datagram hmac rp secret unpack map_method data w) = Inl e
     \<longleftrightarrow> (\<exists>v. unpack data = Inr v \<and> verify_any hmac rp v secret = Inl e)"
  by (auto simp: udp_datagram_def split: sum.split bool.split)

lemma udp_poison:
  "secret \<noteq> [] \<Longrightarrow> unpack data = Inr (PInt n) \<Longrightarrow>
   udp_datagram hmac rp secret unpack map_method data w = (w, Inl (AttributeError ''get''))"
  by (simp add: udp_datagram_def verify_any_def)

section \<open>Shutdown\<close>

primrec udp_weight :: "udp_phase \<Rightarrow> nat" where
  "udp_weight Starting = 0"
| "udp_weight Checking = 1"
| "udp_weight Selecting = 2"
| "udp_weight Finished = 0"
| "udp_weight Crashed = 0"

definition shutdown_measure :: "'w collector_state \<Rightarrow> nat" where
  "shutdown_measure s = udp_weight (udp_phase s) + (if main_phase s = Stopped then 0 else 1)"

definition shutting_down :: "'w collector_state \<Rightarrow> bool" where
  "shutting_down s = (main_phase s \<noteq> Serving \<and> \<not> udp_run s \<and> udp_phase s \<noteq> Starting
     \<and> (main_phase s = Stopped \<longrightarrow> udp_phase s \<in> {Finished, Crashed}))"

lemma shutting_down_step:
  assumes "shutting_down s" "collector_step handle s t"
  shows "shutting_down t \<and> shutdown_measure t < shutdown_measure s"
  using assms(2) unfolding collector_step_def
proof
  assume "udp_step handle s t"
  then show ?thesis
    using assms(1) by cases (auto simp: shutting_down_def shutdown_measure_def)
next
  assume "main_step s t"
  then show ?thesis
    using assms(1) by cases (auto simp: shutting_down_def shutdown_measure_def)
qed

lemma shutting_down_progress:
  assumes "shutting_down s" "main_phase s \<noteq> Stopped"
  shows "\<exists>t. collector_step handle s t"
proof -
  from assms have joining: "main_phase s = Joining" and "\<not> udp_run s" and "udp_phase s \<noteq> Starting"
    by (cases "main_phase s"; auto simp: shutting_down_def)+
  then consider "udp_phase s = Checking" | "udp_phase s = Selecting" | "udp_phase s \<in> {Finished, Crashed}"
    by (cases "udp_phase s") auto
  then show ?thesis
    using joining \<open>\<not> udp_run s\<close> udp_step.leave udp_step.timeout main_step.joined
    by cases (force simp: collector_step_def)+
qed

text \<open>
  C17: Once the UDP thread is past its start, shutting the collector down takes at most three
  more steps, whatever datagrams come in between: no run is longer, and a run that has not
  stopped the service can be continued.
\<close>

theorem collector_shutdown:
  assumes "main_phase s = Joining" "\<not> udp_run s" "udp_phase s \<noteq> Starting"
    "(collector_step handle ^^ n) s t"
  shows "n \<le> 3 \<and> (main_phase t = Stopped \<or> (\<exists>u. collector_step handle t u))"
proof -
  have start: "shutting_down s" "shutdown_measure s \<le> 3"
    using assms(1-3) by (cases "udp_phase s"; simp add: shutting_down_def shutdown_measure_def)+
  from assms(4) have "shutting_down t \<and> shutdown_measure t + n \<le> shutdown_measure s"
  proof (induction n arbitrary: t)
    case (Suc n)
    then obtain u where "(collector_step handle ^^ n) s u" "collector_step handle u t" by auto
    with Suc.IH [of u] shutting_down_step [of u handle t] show ?case by fastforce
  qed (use start in simp)
  with start shutting_down_progress [of t handle] show ?thesis by auto
qed

text \<open>
  The flag is set by the thread after its start, so a shutdown that comes before it is lost:
  from there on the thread polls for ever and \<open>terminate\<close> waits for it for ever, unless a
  datagram happens to break the thread.
\<close>

theorem early_terminate_hangs:
  assumes "\<forall>data w. is_ok (snd (handle data w))"
  shows "\<exists>s. (collector_step handle)\<^sup>*\<^sup>* (collector_start w) s \<and> main_phase s = Joining
    \<and> (\<forall>t. (collector_step handle)\<^sup>*\<^sup>* s t \<longrightarrow> main_phase t = Joining \<and> (\<exists>u. udp_step handle t u))"
proof -
  let ?s1 = "collector_start w \<lparr>udp_run := False, main_phase := Joining\<rparr>"
  let ?s2 = "?s1\<lparr>udp_run := True, udp_phase := Checking\<rparr>"
  have "collector_step handle (collector_start w) ?s1"
    using main_step.terminate [of "collector_start w"] by (simp add: collector_step_def collector_start_def)
  moreover have "collector_step handle ?s1 ?s2"
    using udp_step.bound [of ?s1 handle] by (simp add: collector_step_def collector_start_def)
  ultimately have reach: "(collector_step handle)\<^sup>*\<^sup>* (collector_start w) ?s2"
    by (meson converse_rtranclp_into_rtranclp rtranclp.rtrancl_refl)
  let ?stuck = "\<lambda>t. main_phase t = Joining \<and> udp_run t \<and> udp_phase t \<in> {Checking, Selecting}"
  have stays: "?stuck u" if "?stuck t" "collector_step handle t u" for t u
    using that assms unfolding collector_step_def
    by (auto elim!: udp_stepE main_stepE) (metis is_ok_simps(2) snd_conv)+
  have "?stuck t" if "(collector_step handle)\<^sup>*\<^sup>* ?s2 t" for t
    using that
  proof (induction rule: rtranclp_induct)
    case base
    show ?case by (simp add: collector_start_def)
  next
    case (step y z)
    then show ?case using stays by blast
  qed
  moreover have "\<exists>u. udp_step handle t u" if "?stuck t" for t
    using that udp_step.go_on [of t handle] udp_step.timeout [of t handle] by blast
  ultimately show ?thesis using reach by (intro exI [of _ ?s2]) (auto simp: collector_start_def)
qed

theorem early_terminate_hangs_witness:
  "\<exists>s. (collector_step (\<lambda>data w. (w @ [data], Inr ())))\<^sup>*\<^sup>* (collector_start []) s \<and> main_phase s = Joining"
  using early_terminate_hangs [of "\<lambda>data w. (w @ [data], Inr ())" "[]"] by auto

theorem collector_shutdown_witness:
  "\<exists>s t :: string list collector_state. (collector_step (\<lambda>data w. (w @ [data], Inr ())) ^^ 1) s t
     \<and> main_phase s = Joining \<and> (\<exists>u. collector_step (\<lambda>data w. (w @ [data], Inr ())) t u)"
proof -
  let ?s = "\<lparr>udp_run = False, udp_phase = Selecting, main_phase = Joining, world = []\<rparr> :: string list collector_state"
  let ?t = "?s\<lparr>udp_phase := Checking, world := [''data'']\<rparr>"
  have "udp_step (\<lambda>data w. (w @ [data], Inr ())) ?s ?t"
    using udp_step.stored [of ?s "\<lambda>data w. (w @ [data], Inr ())" "''data''" "[''data'']" "()"] by simp
  then have "(collector_step (\<lambda>data w. (w @ [data], Inr ())) ^^ 1) ?s ?t"
    unfolding relpowp_1 collector_step_def ..
  moreover from collector_shutdown [OF _ _ _ this] have "\<exists>u. collector_step (\<lambda>data w. (w @ [data], Inr ())) ?t u"
    by simp
  ultimately show ?thesis by (intro exI [of _ ?s] exI [of _ ?t]) simp
qed

theorem redelivery_duplicates_witness:
  "((\<lambda>w. fst (collector_sample (\<lambda>k x. []) (\<lambda>v. []) [] (with_data (in_order (map recorder [''a''] @ [\<lambda>st. (st, Inl IOError)])))
       [[[(''x'', PInt 1)]]] w)) ^^ 2) []
     = [(''a'', PList [PDict [(''x'', PInt 1)]]), (''a'', PList [PDict [(''x'', PInt 1)]])]"
proof -
  let ?m = "[[[(''x'', PInt 1)]]] :: pymap list list"
  have "\<forall>m \<in> set (concat ?m). is_ok (verify_signature (\<lambda>k x. []) (\<lambda>v. []) m [])"
    by (simp add: verify_signature_def)
  from redelivery_duplicates [OF this, of "with_data (in_order (map recorder [''a''] @ [\<lambda>st. (st, Inl IOError)]))"
      "[''a'']" IOError "[]" 2]
  show ?thesis by (simp add: verify_signature_def numeral_2_eq_2)
qed

end
