(* ===== verification/Gnocchi_Resources.thy ===== *)
theory Gnocchi_Resources
  imports Event_Converter
begin

text \<open>
  The resource definitions of the Gnocchi publisher (\<open>ResourcesDefinition\<close> and
  \<open>_load_definitions\<close> of \<^verbatim>\<open>ceilometer/publisher/gnocchi.py\<close>): which metrics belong to which type
  of resource, the attributes to read from samples and events, and the events that create,
  update and delete a resource.

  The names in a definition file are text. The copy of the metrics inside \<open>cfg\<close>, which the
  code changes in place, is not read again and not modelled.
\<close>

section \<open>Reading a definition\<close>

datatype operation = EVENT_CREATE | EVENT_UPDATE | EVENT_DELETE

record resource_def =
  rd_cfg :: pymap
  rd_type :: string
  rd_attributes :: "(string, definition_obj) pydict"
  rd_event_attributes :: "(string, definition_obj) pydict"
  rd_metrics :: "(string, pymap) pydict"

definition missing :: "string \<Rightarrow> pyexc" where
  "missing field = DefinitionException (''Required field '' @ field @ '' not specified'')"

definition wrong_type :: "string \<Rightarrow> pyexc" where
  "wrong_type field = DefinitionException (''Required field '' @ field @ '' should be a '')"

definition required :: "(pyval \<Rightarrow> bool) \<Rightarrow> string \<Rightarrow> pymap \<Rightarrow> pyval res" where
  "required ok field definition =
     (case dict_get definition field of
        None \<Rightarrow> Inl (missing field)
      | Some v \<Rightarrow> if ok v then Inr v else Inl (wrong_type field))"

definition support_events :: "pymap \<Rightarrow> bool" where
  "support_events cfg = list_ex (\<lambda>e. e \<in> set (dict_keys cfg)) [''event_create'', ''event_delete'', ''event_update'']"

text \<open>The definitions of attributes; \<open>cfg.get(field, {}).items()\<close> needs a dictionary.\<close>

fun definition_objs ::
  "denv \<Rightarrow> plugin_manager \<Rightarrow> pymap \<Rightarrow> getters \<Rightarrow> (getters, (string, definition_obj) pydict) sres" where
  "definition_objs env plugins [] cache = (cache, Inr [])"
| "definition_objs env plugins ((name, cfg) # rest) cache =
     (case definition_init env plugins (Some name) cfg cache of
        (c1, Inl e) \<Rightarrow> (c1, Inl e)
      | (c1, Inr d) \<Rightarrow>
          (case definition_objs env plugins rest c1 of
             (c2, Inl e) \<Rightarrow> (c2, Inl e)
           | (c2, Inr ds) \<Rightarrow> (c2, Inr ((name, d) # ds))))"

definition dict_items_of :: "pymap \<Rightarrow> string \<Rightarrow> pymap res" where
  "dict_items_of cfg field =
     (case dict_get_default cfg field (PDict []) of PDict d \<Rightarrow> Inr d | _ \<Rightarrow> Inl (AttributeError ''items''))"

definition attribute_objs ::
  "denv \<Rightarrow> plugin_manager \<Rightarrow> pymap \<Rightarrow> string \<Rightarrow> getters \<Rightarrow> (getters, (string, definition_obj) pydict) sres" where
  "attribute_objs env plugins cfg field cache =
     (case dict_items_of cfg field of
        Inl e \<Rightarrow> (cache, Inl e)
      | Inr items \<Rightarrow> definition_objs env plugins items cache)"

text \<open>
  The archive policy of a metric: its own or else the default, then the override, then the
  deprecated policy of the whole definition.
\<close>

definition with_policy :: "pymap \<Rightarrow> pyval \<Rightarrow> string \<Rightarrow> pymap \<Rightarrow> pymap" where
  "with_policy cfg ap_default ap_override e0 =
     (let e1 = (if truthy (dict_get_default e0 ''archive_policy_name'' PNone) then e0
                else dict_set ''archive_policy_name'' ap_default e0);
          e2 = (if ap_override \<noteq> [] then dict_set ''archive_policy_name'' (PStr ap_override) e1 else e1)
      in case dict_get cfg ''archive_policy'' of
           None \<Rightarrow> e2
         | Some ap \<Rightarrow> dict_set ''archive_policy_name'' ap e2)"

definition metric_extra :: "pymap \<Rightarrow> pyval \<Rightarrow> string \<Rightarrow> pyval \<Rightarrow> pymap res" where
  "metric_extra cfg ap_default ap_override extra =
     bindr (if truthy extra then (case extra of PDict d \<Rightarrow> Inr d | _ \<Rightarrow> Inl (AttributeError ''get'')) else Inr [])
       (\<lambda>e0. Inr (with_policy cfg ap_default ap_override e0))"

text \<open>The old form of the metrics is a list of names.\<close>

definition metric_items :: "pyval \<Rightarrow> pymap res" where
  "metric_items metrics =
     (case metrics of
        PDict d \<Rightarrow> Inr d
      | PList ms \<Rightarrow> bindr (mapr key_str ms) (\<lambda>ns. Inr (dict_update [] (map (\<lambda>n. (n, PNone)) ns)))
      | _ \<Rightarrow> Inl TypeError)"

definition metric_defs :: "pymap \<Rightarrow> pyval \<Rightarrow> string \<Rightarrow> pyval \<Rightarrow> (string, pymap) pydict res" where
  "metric_defs cfg ap_default ap_override metrics =
     bindr (metric_items metrics)
       (mapr (\<lambda>(m, extra). bindr (metric_extra cfg ap_default ap_override extra) (\<lambda>e. Inr (m, e))))"

text \<open>\<open>__init__\<close>; every exception has the same effect below, so a definition that is not a
  dictionary is refused with any of them.\<close>

definition check_definition :: "pyval \<Rightarrow> (pymap \<times> string \<times> pyval) res" where
  "check_definition definition_cfg =
     (case definition_cfg of
        PDict cfg \<Rightarrow>
          bindr (required is_str ''resource_type'' cfg) (\<lambda>ty.
          bindr (required (\<lambda>v. is_dict v \<or> is_list v) ''metrics'' cfg) (\<lambda>ms.
          bindr (if support_events cfg
                 then bindr (dict_item cfg ''event_attributes'') (\<lambda>ea.
                        (case ea of PDict d \<Rightarrow> required is_str ''id'' d | _ \<Rightarrow> Inl TypeError))
                 else Inr PNone) (\<lambda>u.
            (case ty of PStr t \<Rightarrow> Inr (cfg, t, ms) | _ \<Rightarrow> Inl TypeError))))
      | _ \<Rightarrow> Inl TypeError)"

definition resource_def_init ::
  "denv \<Rightarrow> plugin_manager \<Rightarrow> pyval \<Rightarrow> string \<Rightarrow> pyval \<Rightarrow> getters \<Rightarrow> (getters, resource_def) sres" where
  "resource_def_init env plugins ap_default ap_override definition_cfg cache =
     (case check_definition definition_cfg of
        Inl e \<Rightarrow> (cache, Inl e)
      | Inr (cfg, ty, ms) \<Rightarrow>
          (case attribute_objs env plugins cfg ''attributes'' cache of
             (c1, Inl e) \<Rightarrow> (c1, Inl e)
           | (c1, Inr attrs) \<Rightarrow>
               (case attribute_objs env plugins cfg ''event_attributes'' c1 of
                  (c2, Inl e) \<Rightarrow> (c2, Inl e)
                | (c2, Inr eattrs) \<Rightarrow>
                    (c2, bindr (metric_defs cfg ap_default ap_override ms) (\<lambda>metrics.
                       Inr \<lparr>rd_cfg = cfg, rd_type = ty, rd_attributes = attrs,
                            rd_event_attributes = eattrs, rd_metrics = metrics\<rparr>)))))"

section \<open>Using a definition\<close>

definition ensure_list :: "pyval \<Rightarrow> pyval list" where
  "ensure_list v = (case v of PList xs \<Rightarrow> xs | _ \<Rightarrow> [v])"

fun any_pattern :: "matcher \<Rightarrow> string \<Rightarrow> pyval list \<Rightarrow> bool res" where
  "any_pattern fnm event_type [] = Inr False"
| "any_pattern fnm event_type (p # ps) =
     (case p of
        PStr s \<Rightarrow> if fnm event_type s then Inr True else any_pattern fnm event_type ps
      | _ \<Rightarrow> Inl TypeError)"

definition event_match :: "matcher \<Rightarrow> resource_def \<Rightarrow> string \<Rightarrow> operation option res" where
  "event_match fnm rd event_type =
     (let patterns = (\<lambda>k. ensure_list (dict_get_default (rd_cfg rd) k (PList []))) in
      bindr (any_pattern fnm event_type (patterns ''event_create'')) (\<lambda>c.
      if c then Inr (Some EVENT_CREATE)
      else bindr (any_pattern fnm event_type (patterns ''event_delete'')) (\<lambda>d.
      if d then Inr (Some EVENT_DELETE)
      else bindr (any_pattern fnm event_type (patterns ''event_update'')) (\<lambda>u.
      Inr (if u then Some EVENT_UPDATE else None)))))"

definition sample_attributes :: "denv \<Rightarrow> resource_def \<Rightarrow> sample \<Rightarrow> pymap res" where
  "sample_attributes env rd s =
     bindr (mapr (\<lambda>(name, d). bindr (parse_def env d (PDict (as_dict s)) False) (\<lambda>v. Inr (name, v)))
             (rd_attributes rd)) (\<lambda>vs. Inr (filter (\<lambda>(name, v). v \<noteq> PNone) vs))"

text \<open>The value of the trait a field names; a field that is a list cannot be looked up.\<close>

definition trait_lookup :: "pymap \<Rightarrow> pyval \<Rightarrow> pyval res" where
  "trait_lookup traits field =
     (case field of
        PStr f \<Rightarrow> Inr (dict_get_default traits f PNone)
      | _ \<Rightarrow> if hashable field then Inr PNone else Inl TypeError)"

fun event_attribute_loop :: "pymap \<Rightarrow> pymap \<Rightarrow> pymap \<Rightarrow> pymap res" where
  "event_attribute_loop traits [] attrs = Inr attrs"
| "event_attribute_loop traits ((attr, field) # rest) attrs =
     bindr (trait_lookup traits field) (\<lambda>v.
       event_attribute_loop traits rest (if v = PNone then attrs else dict_set attr v attrs))"

definition event_resource :: "resource_def \<Rightarrow> event \<Rightarrow> pymap res" where
  "event_resource rd ev =
     (let traits = dict_update [] (map (\<lambda>t. (tr_name t, tr_value t)) (ev_traits ev)) in
      bindr (dict_items_of (rd_cfg rd) ''event_attributes'') (\<lambda>items.
        event_attribute_loop traits items [(''type'', PStr (rd_type rd))]))"

section \<open>Loading\<close>

text \<open>A definition that cannot be read is left out.\<close>

fun resource_defs ::
  "denv \<Rightarrow> plugin_manager \<Rightarrow> pyval \<Rightarrow> string \<Rightarrow> pyval list \<Rightarrow> getters \<Rightarrow> getters \<times> resource_def list" where
  "resource_defs env plugins ap_default ap_override [] cache = (cache, [])"
| "resource_defs env plugins ap_default ap_override (r # rs) cache =
     (let (c1, rd) = resource_def_init env plugins ap_default ap_override r cache;
          (c2, rds) = resource_defs env plugins ap_default ap_override rs c1
      in (c2, (case rd of Inl e \<Rightarrow> rds | Inr d \<Rightarrow> d # rds)))"

definition load_resource_definitions ::
  "denv \<Rightarrow> files \<Rightarrow> plugin_manager \<Rightarrow> string \<Rightarrow> string \<Rightarrow> string \<Rightarrow> getters \<Rightarrow>
   (getters, resource_def list \<times> pyval) sres" where
  "load_resource_definitions env fs plugins ap_override def_file packaged cache =
     (case bindr (load_definitions fs (PDict []) def_file (Some packaged)) (\<lambda>data.
           bindr (py_get data ''archive_policy_default'' (PStr ''low'')) (\<lambda>ap_default.
           bindr (bindr (py_get data ''resources'' (PList [])) py_iter) (\<lambda>rs.
           bindr (py_get data ''archive_policies'' (PList [])) (\<lambda>aps. Inr (ap_default, rs, aps))))) of
        Inl e \<Rightarrow> (cache, Inl e)
      | Inr (ap_default, rs, aps) \<Rightarrow>
          (let (c1, rds) = resource_defs env plugins ap_default ap_override rs cache in (c1, Inr (rds, aps))))"

text \<open>\<open>metric_map\<close>: a metric belongs to the last definition that lists it.\<close>

definition metric_map :: "resource_def list \<Rightarrow> string \<Rightarrow> resource_def option" where
  "metric_map rds m =
     (case filter (\<lambda>rd. m \<in> set (dict_keys (rd_metrics rd))) rds of [] \<Rightarrow> None | ds \<Rightarrow> Some (last ds))"

section \<open>Facts\<close>

lemma metric_map_Some:
  "metric_map rds m = Some rd \<Longrightarrow> rd \<in> set rds \<and> m \<in> set (dict_keys (rd_metrics rd))"
proof -
  assume "metric_map rds m = Some rd"
  then obtain "filter (\<lambda>rd. m \<in> set (dict_keys (rd_metrics rd))) rds \<noteq> []"
    and rd: "rd = last (filter (\<lambda>rd. m \<in> set (dict_keys (rd_metrics rd))) rds)"
    by (auto simp: metric_map_def split: list.splits)
  then have "rd \<in> set (filter (\<lambda>rd. m \<in> set (dict_keys (rd_metrics rd))) rds)" by (metis last_in_set)
  then show ?thesis by simp
qed

lemma with_policy_name:
  "dict_get (with_policy cfg d ov e0) ''archive_policy_name'' = Some
     (case dict_get cfg ''archive_policy'' of
        Some ap \<Rightarrow> ap
      | None \<Rightarrow> if ov \<noteq> [] then PStr ov
          else py_or (dict_get_default e0 ''archive_policy_name'' PNone) d)"
  by (auto simp: with_policy_def Let_def dict_get_set dict_get_default_def py_or_def split: option.split)

text \<open>Every metric has a policy: the deprecated one, or the override, or its own, or the default.\<close>

lemma metric_defs_policy:
  assumes "metric_defs cfg d ov ms = Inr metrics" "(m, e) \<in> set metrics"
  shows "\<exists>own. dict_get e ''archive_policy_name'' = Some
     (case dict_get cfg ''archive_policy'' of
        Some ap \<Rightarrow> ap | None \<Rightarrow> if ov \<noteq> [] then PStr ov else py_or own d)"
proof -
  from assms(1) obtain items where "metric_items ms = Inr items"
    and items: "mapr (\<lambda>(m, extra). bindr (metric_extra cfg d ov extra) (\<lambda>e. Inr (m, e))) items = Inr metrics"
    by (auto simp: metric_defs_def bindr_Inr_iff)
  from mapr_Inr_source [OF items assms(2)] obtain n extra
    where "bindr (metric_extra cfg d ov extra) (\<lambda>e. Inr (n, e)) = Inr (m, e)" by auto
  then have "metric_extra cfg d ov extra = Inr e" by (simp add: bindr_Inr_iff)
  then show ?thesis using with_policy_name by (auto simp: metric_extra_def bindr_Inr_iff)
qed

end
