(* ===== verification/Gnocchi_Publisher.thy ===== *)
theory Gnocchi_Publisher
  imports Gnocchi_Resources Signature
begin

text \<open>
  The Gnocchi publisher (\<open>GnocchiPublisher\<close> of \<^verbatim>\<open>ceilometer/publisher/gnocchi.py\<close>): samples are
  grouped into measures per resource and metric and posted together; resources the service does
  not know are created and the measures posted again; the attributes of resources are updated
  unless the cache says that they have not changed; deletion events end resources.

  The client of the service, Keystone, the cache region and the hash of attributes are the
  record \<open>gnocchi\<close>. Names that are remembered only to log once are left out, as are the locks:
  the model is one publisher at a time, and the outside world \<open>'w\<close> may change the cache.
\<close>

section \<open>The service\<close>

text \<open>
  What the client raises. \<open>BadRequest\<close> carries the cause and the resource ids of the details
  when its message is a dictionary. All but \<open>OtherFailure\<close> are client exceptions.
\<close>

datatype gnocchi_error =
    BadRequest "(string \<times> string list) option"
  | ResourceAlreadyExists
  | ResourceNotFound
  | ArchivePolicyNotFound
  | ClientException
  | OtherFailure pyexc

type_synonym ('w, 'a) gcall = "'w \<Rightarrow> 'w \<times> (gnocchi_error + 'a)"

record measure_batch =
  mb_points :: "(pyval \<times> pyval) list"
  mb_policy :: pyval
  mb_unit :: string

type_synonym measures = "(string, (string, measure_batch) pydict) pydict"

record resource_info =
  ri_type :: string
  ri_resource :: pymap
  ri_extra :: pymap

type_synonym infos = "(string, resource_info) pydict"

record 'w region =
  cache_get :: "pyval \<Rightarrow> 'w \<Rightarrow> 'w \<times> int option"
  cache_set :: "pyval \<Rightarrow> int \<Rightarrow> 'w \<Rightarrow> 'w"

record 'w gnocchi =
  g_batch :: "measures \<Rightarrow> ('w, unit) gcall"
  g_create :: "string \<Rightarrow> pymap \<Rightarrow> ('w, unit) gcall"
  g_update :: "pyval \<Rightarrow> pyval \<Rightarrow> pymap \<Rightarrow> ('w, unit) gcall"
  g_search :: "string \<Rightarrow> string \<Rightarrow> ('w, pymap list) gcall"
  g_policy_get :: "pyval \<Rightarrow> ('w, unit) gcall"
  g_policy_create :: "pyval \<Rightarrow> ('w, unit) gcall"
  g_project :: "string \<Rightarrow> ('w, string option) gcall"
  g_cache :: "'w region option"
  g_hash :: "pymap \<Rightarrow> int res"

record gnocchi_publisher =
  gp_defs :: "resource_def list"
  gp_policies :: pyval
  gp_filter_project :: "string option"
  gp_project_id :: "string option"
  gp_configured :: bool

definition lift_res :: "'a res \<Rightarrow> gnocchi_error + 'a" where
  "lift_res r = (case r of Inl e \<Rightarrow> Inl (OtherFailure e) | Inr x \<Rightarrow> Inr x)"

section \<open>Archive policies\<close>

fun create_policies :: "'w gnocchi \<Rightarrow> pyval list \<Rightarrow> ('w, unit) gcall" where
  "create_policies cl [] w = (w, Inr ())"
| "create_policies cl (ap # aps) w =
     (case py_getitem ap (PStr ''name'') of
        Inl e \<Rightarrow> (w, Inl (OtherFailure e))
      | Inr name \<Rightarrow>
          (case g_policy_get cl name w of
             (w1, Inr u) \<Rightarrow> create_policies cl aps w1
           | (w1, Inl ArchivePolicyNotFound) \<Rightarrow>
               (case g_policy_create cl ap w1 of
                  (w2, Inr u) \<Rightarrow> create_policies cl aps w2
                | (w2, Inl e) \<Rightarrow> (w2, Inl e))
           | (w1, Inl e) \<Rightarrow> (w1, Inl e)))"

definition ensures_archives_policies ::
  "'w gnocchi \<Rightarrow> gnocchi_publisher \<times> 'w \<Rightarrow> (gnocchi_publisher \<times> 'w) \<times> (gnocchi_error + unit)" where
  "ensures_archives_policies cl st =
     (let (gp, w) = st in
      if gp_configured gp then (st, Inr ())
      else
        (case py_iter (gp_policies gp) of
           Inl e \<Rightarrow> (st, Inl (OtherFailure e))
         | Inr aps \<Rightarrow>
             (case create_policies cl aps w of
                (w', Inl e) \<Rightarrow> ((gp, w'), Inl e)
              | (w', Inr u) \<Rightarrow> ((gp\<lparr>gp_configured := True\<rparr>, w'), Inr ()))))"

section \<open>Samples of the service itself\<close>

text \<open>
  \<open>gnocchi_project_id\<close>, read when a project is to be filtered; a project that does not exist
  switches the filter off.
\<close>

definition gnocchi_project_id ::
  "'w gnocchi \<Rightarrow> string \<Rightarrow> gnocchi_publisher \<times> 'w \<Rightarrow>
   (gnocchi_publisher \<times> 'w) \<times> (gnocchi_error + string option)" where
  "gnocchi_project_id cl name st =
     (let (gp, w) = st in
      case gp_project_id gp of
        Some p \<Rightarrow> (st, Inr (Some p))
      | None \<Rightarrow>
          (case g_project cl name w of
             (w', Inl e) \<Rightarrow> ((gp, w'), Inl e)
           | (w', Inr None) \<Rightarrow> ((gp\<lparr>gp_filter_project := None\<rparr>, w'), Inr None)
           | (w', Inr (Some p)) \<Rightarrow> ((gp\<lparr>gp_project_id := Some p\<rparr>, w'), Inr (Some p))))"

definition is_swift_account_sample :: "resource_def list \<Rightarrow> sample \<Rightarrow> bool" where
  "is_swift_account_sample rds s =
     (case metric_map rds (s_name s) of None \<Rightarrow> False | Some rd \<Rightarrow> rd_type rd = ''swift_account'')"

definition is_gnocchi_activity ::
  "'w gnocchi \<Rightarrow> sample \<Rightarrow> gnocchi_publisher \<times> 'w \<Rightarrow> (gnocchi_publisher \<times> 'w) \<times> (gnocchi_error + bool)" where
  "is_gnocchi_activity cl s st =
     (case gp_filter_project (fst st) of
        None \<Rightarrow> (st, Inr False)
      | Some name \<Rightarrow>
          if name = [] then (st, Inr False)
          else
            (case gnocchi_project_id cl name st of
               (st', Inl e) \<Rightarrow> (st', Inl e)
             | (st', Inr None) \<Rightarrow> (st', Inr False)
             | (st', Inr (Some p)) \<Rightarrow>
                 (st', Inr (p \<noteq> [] \<and>
                   (s_project_id s = Some p \<or>
                    s_resource_id s = p \<and> is_swift_account_sample (gp_defs (fst st)) s)))))"

fun drop_activity ::
  "'w gnocchi \<Rightarrow> sample list \<Rightarrow> gnocchi_publisher \<times> 'w \<Rightarrow>
   (gnocchi_publisher \<times> 'w) \<times> (gnocchi_error + sample list)" where
  "drop_activity cl [] st = (st, Inr [])"
| "drop_activity cl (s # ss) st =
     (case is_gnocchi_activity cl s st of
        (st1, Inl e) \<Rightarrow> (st1, Inl e)
      | (st1, Inr own) \<Rightarrow>
          (case drop_activity cl ss st1 of
             (st2, Inl e) \<Rightarrow> (st2, Inl e)
           | (st2, Inr rest) \<Rightarrow> (st2, Inr (if own then rest else s # rest))))"

section \<open>Grouping the samples\<close>

definition gnocchi_id :: "sample \<Rightarrow> string" where
  "gnocchi_id s = replace_char (CHR ''/'') (CHR ''_'') (s_resource_id s)"

definition handled_by :: "resource_def list \<Rightarrow> sample \<Rightarrow> resource_def option" where
  "handled_by rds s =
     (case metric_map rds (s_name s) of
        None \<Rightarrow> None
      | Some rd \<Rightarrow> if truthy (dict_get_default (rd_cfg rd) ''ignore'' PNone) then None else Some rd)"

definition first_info :: "resource_def \<Rightarrow> sample \<Rightarrow> resource_info" where
  "first_info rd s =
     \<lparr>ri_type = rd_type rd,
      ri_resource = [(''id'', PStr (gnocchi_id s)), (''user_id'', opt_str (s_user_id s)),
                     (''project_id'', opt_str (s_project_id s))],
      ri_extra = []\<rparr>"

definition metric_policy :: "resource_def \<Rightarrow> string \<Rightarrow> pyval" where
  "metric_policy rd m =
     (case dict_get (rd_metrics rd) m of
        None \<Rightarrow> PNone | Some extra \<Rightarrow> dict_get_default extra ''archive_policy_name'' PNone)"

definition measure_of :: "sample \<Rightarrow> pyval \<times> pyval" where
  "measure_of s = (opt_str (s_timestamp s), s_volume s)"

definition add_measure :: "resource_def \<Rightarrow> sample \<Rightarrow> measures \<Rightarrow> measures" where
  "add_measure rd s ms =
     (let per = dict_get_default ms (gnocchi_id s) [];
          b = dict_get_default per (s_name s)
                \<lparr>mb_points = [], mb_policy = metric_policy rd (s_name s), mb_unit = s_unit s\<rparr>
      in dict_set (gnocchi_id s) (dict_set (s_name s) (b\<lparr>mb_points := mb_points b @ [measure_of s]\<rparr>) per) ms)"

definition add_info :: "resource_def \<Rightarrow> sample \<Rightarrow> pymap \<Rightarrow> infos \<Rightarrow> infos" where
  "add_info rd s attrs infos =
     (let i = dict_get_default infos (gnocchi_id s) (first_info rd s)
      in dict_set (gnocchi_id s) (i\<lparr>ri_extra := dict_update (ri_extra i) attrs\<rparr>) infos)"

fun collect :: "denv \<Rightarrow> resource_def list \<Rightarrow> sample list \<Rightarrow> infos \<times> measures \<Rightarrow> (infos \<times> measures) res" where
  "collect env rds [] st = Inr st"
| "collect env rds (s # ss) st =
     (case handled_by rds s of
        None \<Rightarrow> collect env rds ss st
      | Some rd \<Rightarrow>
          bindr (sample_attributes env rd s) (\<lambda>attrs.
            collect env rds ss (add_info rd s attrs (fst st), add_measure rd s (snd st))))"

section \<open>Posting\<close>

text \<open>
  The resources that the service did not know are created one by one. A resource that cannot be
  created is taken out of what is posted and updated later; the key is its \<open>id\<close> after its
  attributes have been merged.
\<close>

definition hash_resource :: "'w gnocchi \<Rightarrow> pymap \<Rightarrow> int res" where
  "hash_resource cl resource = g_hash cl (filter (\<lambda>(k, v). k \<noteq> ''metrics'') resource)"

definition del_item :: "pyval \<Rightarrow> (string, 'v) pydict \<Rightarrow> (string, 'v) pydict res" where
  "del_item k d =
     bindr (key_str k) (\<lambda>s. if s \<in> set (dict_keys d) then Inr (dict_del s d) else Inl (KeyError s))"

type_synonym 'w posting = "measures \<times> infos \<times> 'w"

definition create_one ::
  "'w gnocchi \<Rightarrow> string \<times> resource_info \<Rightarrow> 'w posting \<Rightarrow> 'w posting \<times> (gnocchi_error + unit)" where
  "create_one cl ri st =
     (let (rid, i) = ri; (ms, infos, w) = st;
          resource = dict_update (ri_resource i) (ri_extra i);
          infos1 = (if rid \<in> set (dict_keys infos) then dict_set rid (i\<lparr>ri_resource := resource\<rparr>) infos else infos);
          key = dict_get_default resource ''id'' PNone
      in case g_create cl (ri_type i) resource w of
           (w1, Inr u) \<Rightarrow>
             (case g_cache cl of
                Some r \<Rightarrow>
                  (if ri_extra i = [] then ((ms, infos1, w1), Inr ())
                   else (case hash_resource cl (ri_extra i) of
                           Inl e \<Rightarrow> ((ms, infos1, w1), Inl (OtherFailure e))
                         | Inr h \<Rightarrow> ((ms, infos1, cache_set r key h w1), Inr ())))
              | None \<Rightarrow> ((ms, infos1, w1), Inr ()))
         | (w1, Inl ResourceAlreadyExists) \<Rightarrow> ((ms, infos1, w1), Inr ())
         | (w1, Inl (OtherFailure e)) \<Rightarrow> ((ms, infos1, w1), Inl (OtherFailure e))
         | (w1, Inl e) \<Rightarrow>
             (case del_item key ms of
                Inl e \<Rightarrow> ((ms, infos1, w1), Inl (OtherFailure e))
              | Inr ms' \<Rightarrow>
                  (case del_item key infos1 of
                     Inl e \<Rightarrow> ((ms', infos1, w1), Inl (OtherFailure e))
                   | Inr infos' \<Rightarrow> ((ms', infos', w1), Inr ()))))"

fun create_missing ::
  "'w gnocchi \<Rightarrow> (string \<times> resource_info) list \<Rightarrow> 'w posting \<Rightarrow> 'w posting \<times> (gnocchi_error + unit)" where
  "create_missing cl [] st = (st, Inr ())"
| "create_missing cl (ri # ris) st =
     (case create_one cl ri st of
        (st1, Inl e) \<Rightarrow> (st1, Inl e)
      | (st1, Inr u) \<Rightarrow> create_missing cl ris st1)"

definition extract_resources :: "string list \<Rightarrow> infos \<Rightarrow> (string \<times> resource_info) list res" where
  "extract_resources ids infos = mapr (\<lambda>rid. bindr (dict_item infos rid) (\<lambda>i. Inr (rid, i))) (remdups ids)"

definition post_again :: "'w gnocchi \<Rightarrow> 'w posting \<times> (gnocchi_error + unit) \<Rightarrow> 'w posting \<times> (gnocchi_error + unit)" where
  "post_again cl r =
     (case r of
        (st, Inl e) \<Rightarrow> (st, Inl e)
      | ((ms, infos, w), Inr u) \<Rightarrow> (let (w', r') = g_batch cl ms w in ((ms, infos, w'), r')))"

definition batch_measures :: "'w gnocchi \<Rightarrow> 'w posting \<Rightarrow> 'w posting \<times> (gnocchi_error + unit)" where
  "batch_measures cl st =
     (let (ms, infos, w) = st in
      case g_batch cl ms w of
        (w1, Inr u) \<Rightarrow> ((ms, infos, w1), Inr ())
      | (w1, Inl (BadRequest (Some (cause, ids)))) \<Rightarrow>
          (if cause \<noteq> ''Unknown resources'' then ((ms, infos, w1), Inl (BadRequest (Some (cause, ids))))
           else
             (case extract_resources ids infos of
                Inl e \<Rightarrow> ((ms, infos, w1), Inl (OtherFailure e))
              | Inr ris \<Rightarrow> post_again cl (create_missing cl ris (ms, infos, w1))))
      | (w1, Inl e) \<Rightarrow> ((ms, infos, w1), Inl e))"

section \<open>Updating\<close>

text \<open>\<open>_resource_cache_diff\<close>; a hash of zero counts as absent.\<close>

definition cache_diff :: "'w region \<Rightarrow> pyval \<Rightarrow> int \<Rightarrow> 'w \<Rightarrow> 'w \<times> bool" where
  "cache_diff r key h w =
     (let (w', c) = cache_get r key w in (w', (case c of None \<Rightarrow> True | Some x \<Rightarrow> x = 0 \<or> x \<noteq> h)))"

definition if_not_cached ::
  "'w gnocchi \<Rightarrow> string \<Rightarrow> pyval \<Rightarrow> pymap \<Rightarrow> ('w, unit) gcall" where
  "if_not_cached cl ty key extra w =
     (case g_cache cl of
        None \<Rightarrow> g_update cl (PStr ty) key extra w
      | Some r \<Rightarrow>
          (case hash_resource cl extra of
             Inl e \<Rightarrow> (w, Inl (OtherFailure e))
           | Inr h \<Rightarrow>
               (let (w1, differs) = cache_diff r key h w in
                if \<not> differs then (w1, Inr ())
                else
                  (let (w2, still) = cache_diff r key h w1 in
                   if \<not> still then (w2, Inr ())
                   else
                     (case g_update cl (PStr ty) key extra w2 of
                        (w3, Inl e) \<Rightarrow> (w3, Inl e)
                      | (w3, Inr u) \<Rightarrow> (cache_set r key h w3, Inr ()))))))"

definition update_info :: "'w gnocchi \<Rightarrow> resource_info \<Rightarrow> 'w \<Rightarrow> 'w" where
  "update_info cl i w =
     (if ri_extra i = [] then w
      else fst (if_not_cached cl (ri_type i) (dict_get_default (ri_resource i) ''id'' PNone) (ri_extra i) w))"

definition update_infos :: "'w gnocchi \<Rightarrow> infos \<Rightarrow> 'w \<Rightarrow> 'w" where
  "update_infos cl infos w = fold (update_info cl) (map snd infos) w"

definition gnocchi_publish_samples ::
  "denv \<Rightarrow> 'w gnocchi \<Rightarrow> sample list \<Rightarrow> gnocchi_publisher \<times> 'w \<Rightarrow>
   (gnocchi_publisher \<times> 'w) \<times> (gnocchi_error + unit)" where
  "gnocchi_publish_samples env cl samples st =
     (case ensures_archives_policies cl st of
        (st1, Inl e) \<Rightarrow> (st1, Inl e)
      | (st1, Inr u) \<Rightarrow>
          (case drop_activity cl samples st1 of
             (st2, Inl e) \<Rightarrow> (st2, Inl e)
           | ((gp, w), Inr data) \<Rightarrow>
               (case collect env (gp_defs gp) (sort_key s_resource_id data) ([], []) of
                  Inl e \<Rightarrow> ((gp, w), Inl (OtherFailure e))
                | Inr (infos, ms) \<Rightarrow>
                    (let ((ms', infos', w'), r) = batch_measures cl (ms, infos, w)
                     in ((gp, update_infos cl infos' w'), Inr ())))))"

section \<open>Events\<close>

text \<open>\<open>query % id\<close> for a query with one \<open>%s\<close>; the flag tells whether the argument has been used.\<close>

fun percent_s :: "string \<Rightarrow> string \<Rightarrow> bool \<Rightarrow> string res" where
  "percent_s arg [] used = (if used then Inr [] else Inl TypeError)"
| "percent_s arg [c] used =
     (if c = CHR ''%'' then Inl ValueError else if used then Inr [c] else Inl TypeError)"
| "percent_s arg (c # d # cs) used =
     (if c \<noteq> CHR ''%'' then bindr (percent_s arg (d # cs) used) (\<lambda>t. Inr (c # t))
      else if d = CHR ''%'' then bindr (percent_s arg cs used) (\<lambda>t. Inr (CHR ''%'' # t))
      else if d = CHR ''s'' \<and> \<not> used then bindr (percent_s arg cs True) (\<lambda>t. Inr (arg @ t))
      else Inl (if d = CHR ''s'' then TypeError else ValueError))"

fun find_resource_def ::
  "matcher \<Rightarrow> resource_def list \<Rightarrow> string \<Rightarrow> (resource_def \<times> operation) option res" where
  "find_resource_def fnm [] event_type = Inr None"
| "find_resource_def fnm (rd # rds) event_type =
     bindr (event_match fnm rd event_type) (\<lambda>op.
       (case op of Some p \<Rightarrow> Inr (Some (rd, p)) | None \<Rightarrow> find_resource_def fnm rds event_type))"

text \<open>The searches come first; a search that fails finds nothing.\<close>

fun search_associated ::
  "denv \<Rightarrow> 'w gnocchi \<Rightarrow> pymap \<Rightarrow> pymap \<Rightarrow> ('w, pymap list) gcall" where
  "search_associated env cl resource [] w = (w, Inr [])"
| "search_associated env cl resource ((ty, query) # rest) w =
     (case bindr (dict_item resource ''id'') (\<lambda>rid.
           (case query of PStr q \<Rightarrow> percent_s (py_str (d_repr env) rid) q False | _ \<Rightarrow> Inl TypeError)) of
        Inl e \<Rightarrow> (w, Inl (OtherFailure e))
      | Inr q \<Rightarrow>
          (let (w1, r) = g_search cl ty q w;
               found = (case r of Inl e \<Rightarrow> [] | Inr rs \<Rightarrow> rs)
           in case search_associated env cl resource rest w1 of
                (w2, Inl e) \<Rightarrow> (w2, Inl e)
              | (w2, Inr rs) \<Rightarrow> (w2, Inr (found @ rs))))"

text \<open>
  Every failure of the update is caught, but the line after the handlers reads the \<open>id\<close> again.
\<close>

definition set_ended_at :: "'w gnocchi \<Rightarrow> string \<Rightarrow> pymap \<Rightarrow> ('w, unit) gcall" where
  "set_ended_at cl ended_at resource w =
     (let w' = (case (dict_get resource ''type'', dict_get resource ''id'') of
                  (Some ty, Some rid) \<Rightarrow> fst (g_update cl ty rid [(''ended_at'', PStr ended_at)] w)
                | _ \<Rightarrow> w)
      in (w', lift_res (bindr (dict_item resource ''id'') (\<lambda>rid. Inr ()))))"

fun end_all :: "'w gnocchi \<Rightarrow> string \<Rightarrow> pymap list \<Rightarrow> ('w, unit) gcall" where
  "end_all cl ended_at [] w = (w, Inr ())"
| "end_all cl ended_at (r # rs) w =
     (case set_ended_at cl ended_at r w of
        (w1, Inl e) \<Rightarrow> (w1, Inl e)
      | (w1, Inr u) \<Rightarrow> end_all cl ended_at rs w1)"

definition delete_event :: "denv \<Rightarrow> 'w gnocchi \<Rightarrow> string \<Rightarrow> resource_def \<Rightarrow> event \<Rightarrow> ('w, unit) gcall" where
  "delete_event env cl ended_at rd ev w =
     (case event_resource rd ev of
        Inl e \<Rightarrow> (w, Inl (OtherFailure e))
      | Inr resource \<Rightarrow>
          (let associated = dict_get_default (rd_cfg rd) ''event_associated_resources'' (PDict []) in
           if \<not> truthy associated then end_all cl ended_at [resource] w
           else
             (case associated of
                PDict items \<Rightarrow>
                  (case search_associated env cl resource items w of
                     (w1, Inl e) \<Rightarrow> (w1, Inl e)
                   | (w1, Inr rs) \<Rightarrow> end_all cl ended_at (resource # rs) w1)
              | _ \<Rightarrow> (w, Inl (OtherFailure (AttributeError ''items''))))))"

text \<open>The types of events are text.\<close>

definition gnocchi_publish_event ::
  "matcher \<Rightarrow> denv \<Rightarrow> 'w gnocchi \<Rightarrow> string \<Rightarrow> resource_def list \<Rightarrow> event \<Rightarrow> ('w, unit) gcall" where
  "gnocchi_publish_event fnm env cl ended_at rds ev w =
     (case (case ev_event_type ev of PStr t \<Rightarrow> find_resource_def fnm rds t | _ \<Rightarrow> Inl TypeError) of
        Inl e \<Rightarrow> (w, Inl (OtherFailure e))
      | Inr None \<Rightarrow> (w, Inr ())
      | Inr (Some (rd, p)) \<Rightarrow>
          if p = EVENT_DELETE then delete_event env cl ended_at rd ev w else (w, Inr ()))"

fun gnocchi_publish_events ::
  "matcher \<Rightarrow> denv \<Rightarrow> 'w gnocchi \<Rightarrow> (event \<Rightarrow> string) \<Rightarrow> resource_def list \<Rightarrow> event list \<Rightarrow> ('w, unit) gcall" where
  "gnocchi_publish_events fnm env cl now rds [] w = (w, Inr ())"
| "gnocchi_publish_events fnm env cl now rds (ev # evs) w =
     (case gnocchi_publish_event fnm env cl (now ev) rds ev w of
        (w1, Inl e) \<Rightarrow> (w1, Inl e)
      | (w1, Inr u) \<Rightarrow> gnocchi_publish_events fnm env cl now rds evs w1)"

section \<open>Every measure is posted\<close>

definition points_of :: "measures \<Rightarrow> string \<Rightarrow> string \<Rightarrow> (pyval \<times> pyval) list" where
  "points_of ms r m =
     (case dict_get (dict_get_default ms r []) m of None \<Rightarrow> [] | Some b \<Rightarrow> mb_points b)"

lemma points_of_Nil [simp]: "points_of [] r m = []"
  by (simp add: points_of_def dict_get_default_def)

lemma points_of_add:
  "points_of (add_measure rd s ms) r m
    = points_of ms r m @ (if gnocchi_id s = r \<and> s_name s = m then [measure_of s] else [])"
  by (auto simp: points_of_def add_measure_def Let_def dict_get_default_def dict_get_set split: option.split)

lemma add_keys:
  "fst ` set (add_measure rd s ms) = insert (gnocchi_id s) (fst ` set ms)"
  "fst ` set (add_info rd s attrs infos) = insert (gnocchi_id s) (fst ` set infos)"
  by (simp_all add: add_measure_def add_info_def Let_def)

definition at_point :: "resource_def list \<Rightarrow> string \<Rightarrow> string \<Rightarrow> sample \<Rightarrow> bool" where
  "at_point rds r m s = (handled_by rds s \<noteq> None \<and> gnocchi_id s = r \<and> s_name s = m)"

lemma collect_points:
  assumes "collect env rds ss (infos, ms) = Inr (infos', ms')"
  shows "points_of ms' r m = points_of ms r m @ map measure_of (filter (at_point rds r m) ss)"
  using assms
proof (induction ss arbitrary: infos ms)
  case (Cons s ss)
  then show ?case
    by (cases "handled_by rds s") (auto simp: bindr_Inr_iff points_of_add at_point_def)
qed simp

lemma collect_keys:
  assumes "collect env rds ss (infos, ms) = Inr (infos', ms')" "set (dict_keys infos) = set (dict_keys ms)"
  shows "set (dict_keys infos') = set (dict_keys ms')"
  using assms
proof (induction ss arbitrary: infos ms)
  case (Cons s ss)
  show ?case
  proof (cases "handled_by rds s")
    case (Some rd)
    then obtain attrs where "sample_attributes env rd s = Inr attrs"
      and "collect env rds ss (add_info rd s attrs infos, add_measure rd s ms) = Inr (infos', ms')"
      using Cons.prems(1) by (auto simp: bindr_Inr_iff)
    with Cons.IH Cons.prems(2) show ?thesis by (simp add: add_keys)
  qed (use Cons in auto)
qed simp

lemma collect_ok:
  "\<forall>s \<in> set ss. \<forall>rd. handled_by rds s = Some rd \<longrightarrow> is_ok (sample_attributes env rd s) \<Longrightarrow>
   is_ok (collect env rds ss st)"
proof (induction ss arbitrary: st)
  case (Cons s ss)
  show ?case
  proof (cases "handled_by rds s")
    case (Some rd)
    with Cons.prems obtain attrs where "sample_attributes env rd s = Inr attrs" by (auto simp: is_ok_iff)
    with Some Cons show ?thesis by simp
  qed (use Cons in simp)
qed simp

lemma sorted_by_resource:
  assumes "\<forall>s \<in> set ss. CHR ''/'' \<notin> set (s_resource_id s)"
  shows "filter (at_point rds r m) (sort_key s_resource_id ss) = filter (at_point rds r m) ss"
proof -
  let ?p = "\<lambda>s. s_resource_id s = r" and ?q = "\<lambda>s. handled_by rds s \<noteq> None \<and> s_name s = m"
  have "filter (at_point rds r m) xs = filter ?q (filter ?p xs)"
    if "\<forall>s \<in> set xs. CHR ''/'' \<notin> set (s_resource_id s)" for xs
    using that by (auto simp: at_point_def gnocchi_id_def replace_char_id intro!: filter_cong)
  from this [of ss] this [of "sort_key s_resource_id ss"] assms show ?thesis
    by (simp add: sort_key_stable del: filter_filter)
qed

text \<open>A client that records what is posted and accepts everything.\<close>

definition recording :: "measures list gnocchi" where
  "recording =
     \<lparr>g_batch = \<lambda>ms w. (w @ [ms], Inr ()), g_create = \<lambda>t r w. (w, Inr ()), g_update = \<lambda>t i x w. (w, Inr ()),
      g_search = \<lambda>t q w. (w, Inr []), g_policy_get = \<lambda>n w. (w, Inr ()), g_policy_create = \<lambda>n w. (w, Inr ()),
      g_project = \<lambda>n w. (w, Inr None), g_cache = None, g_hash = \<lambda>d. Inr 1\<rparr>"

text \<open>
  A client whose calls are recorded: what is posted and whether the service took it, and the
  resources it refused to create.
\<close>

datatype call = Posted measures bool | Refused pyval

definition silent :: "('w, 'a) gcall \<Rightarrow> ('w \<times> call list, 'a) gcall" where
  "silent f st = (let (w, r) = f (fst st) in ((w, snd st), r))"

definition refusal :: "gnocchi_error + unit \<Rightarrow> bool" where
  "refusal r = (case r of Inr u \<Rightarrow> False | Inl ResourceAlreadyExists \<Rightarrow> False | Inl (OtherFailure e) \<Rightarrow> False | _ \<Rightarrow> True)"

definition traced :: "'w gnocchi \<Rightarrow> ('w \<times> call list) gnocchi" where
  "traced cl =
     \<lparr>g_batch = \<lambda>ms (w, calls). (let (w1, r) = g_batch cl ms w in ((w1, calls @ [Posted ms (r = Inr ())]), r)),
      g_create = \<lambda>ty res (w, calls). (let (w1, r) = g_create cl ty res w
        in ((w1, calls @ (if refusal r then [Refused (dict_get_default res ''id'' PNone)] else [])), r)),
      g_update = \<lambda>ty rid attrs. silent (g_update cl ty rid attrs),
      g_search = \<lambda>ty q. silent (g_search cl ty q),
      g_policy_get = \<lambda>n. silent (g_policy_get cl n),
      g_policy_create = \<lambda>n. silent (g_policy_create cl n),
      g_project = \<lambda>n. silent (g_project cl n),
      g_cache = map_option (\<lambda>rg. \<lparr>cache_get = \<lambda>k st. (let (w, c) = cache_get rg k (fst st) in ((w, snd st), c)),
                                 cache_set = \<lambda>k h st. (cache_set rg k h (fst st), snd st)\<rparr>) (g_cache cl),
      g_hash = g_hash cl\<rparr>"

lemma silent_log [simp]: "snd (fst (silent f st)) = snd st"
  by (simp add: silent_def split: prod.split)

lemma silent_eqD: "silent f st = (st', r) \<Longrightarrow> snd st' = snd st"
  by (metis silent_log fst_conv)

lemma traced_fields [simp]:
  "g_update (traced cl) ty rid attrs = silent (g_update cl ty rid attrs)"
  "g_policy_get (traced cl) n = silent (g_policy_get cl n)"
  "g_policy_create (traced cl) ap = silent (g_policy_create cl ap)"
  "g_project (traced cl) p = silent (g_project cl p)"
  by (simp_all add: traced_def)

lemma traced_cache:
  "g_cache (traced cl) = Some rg \<Longrightarrow> snd (fst (cache_get rg k st)) = snd st"
  "g_cache (traced cl) = Some rg \<Longrightarrow> snd (cache_set rg k h st) = snd st"
  by (auto simp: traced_def split: prod.splits)

lemma create_policies_log: "snd (fst (create_policies (traced cl) aps st)) = snd st"
proof (induction aps arbitrary: st)
  case (Cons ap aps)
  show ?case
    by (auto simp: Cons.IH split: sum.split prod.split gnocchi_error.split dest!: silent_eqD)
qed simp

lemma policies_log:
  "ensures_archives_policies (traced cl) (gp, st) = ((gp1, st1), r) \<Longrightarrow>
   snd st1 = snd st \<and> gp_defs gp1 = gp_defs gp \<and> gp_filter_project gp1 = gp_filter_project gp
   \<and> gp_project_id gp1 = gp_project_id gp \<and> (gp_configured gp \<longrightarrow> r = Inr () \<and> st1 = st \<and> gp1 = gp)"
  using create_policies_log [of cl _ st]
  by (auto simp: ensures_archives_policies_def split: if_splits sum.splits prod.splits) (metis fst_conv snd_conv)+

section \<open>The samples of the service itself\<close>

text \<open>The project whose samples are dropped, once it is settled whether there is one.\<close>

definition own_project :: "gnocchi_publisher \<Rightarrow> string option" where
  "own_project gp =
     (case gp_filter_project gp of
        None \<Rightarrow> None
      | Some name \<Rightarrow> if name = [] \<or> gp_project_id gp = Some [] then None else gp_project_id gp)"

definition own_activity :: "gnocchi_publisher \<Rightarrow> sample \<Rightarrow> bool" where
  "own_activity gp s =
     (case own_project gp of
        None \<Rightarrow> False
      | Some p \<Rightarrow> s_project_id s = Some p \<or> s_resource_id s = p \<and> is_swift_account_sample (gp_defs gp) s)"

definition settled :: "gnocchi_publisher \<Rightarrow> bool" where
  "settled gp \<longleftrightarrow> gp_filter_project gp \<in> {None, Some []} \<or> gp_project_id gp \<noteq> None"

lemma settled_activity:
  "settled gp \<Longrightarrow> is_gnocchi_activity cl s (gp, w) = ((gp, w), Inr (own_activity gp s))"
  by (auto simp: settled_def is_gnocchi_activity_def own_activity_def own_project_def gnocchi_project_id_def
      split: option.split)

lemma first_activity:
  "is_gnocchi_activity (traced cl) s (gp, w) = ((gp1, w1), r) \<Longrightarrow>
   snd w1 = snd w \<and> gp_defs gp1 = gp_defs gp \<and> (\<forall>b. r = Inr b \<longrightarrow> settled gp1 \<and> b = own_activity gp1 s)"
  by (auto simp: settled_def is_gnocchi_activity_def own_activity_def own_project_def gnocchi_project_id_def
      is_swift_account_sample_def dest!: silent_eqD split: option.splits if_splits prod.splits sum.splits)

lemma settled_drop:
  "settled gp \<Longrightarrow> drop_activity cl ss (gp, w) = ((gp, w), Inr (filter (\<lambda>s. \<not> own_activity gp s) ss))"
  by (induction ss) (simp_all add: settled_activity)

lemma drop_activity_log:
  assumes "drop_activity (traced cl) ss (gp, w) = ((gp1, w1), r)"
  shows "snd w1 = snd w \<and> gp_defs gp1 = gp_defs gp
    \<and> (\<forall>data. r = Inr data \<longrightarrow> data = filter (\<lambda>s. \<not> own_activity gp1 s) ss)"
proof (cases ss)
  case Nil
  then show ?thesis using assms by auto
next
  case (Cons s rest)
  obtain gp2 w2 r2 where a: "is_gnocchi_activity (traced cl) s (gp, w) = ((gp2, w2), r2)"
    by (metis prod.collapse)
  note F = first_activity [OF a]
  show ?thesis
  proof (cases r2)
    case (Inl e)
    then show ?thesis using assms Cons a F by auto
  next
    case (Inr b)
    then show ?thesis using assms Cons a F settled_drop [of gp2 "traced cl" rest w2] by auto
  qed
qed

section \<open>Posting, creating, posting again\<close>

lemma create_one_log:
  assumes "create_one (traced cl) ri (ms, infos, (w, calls)) = ((ms1, infos1, (w1, calls1)), r)"
  shows "\<exists>ks. calls1 = calls @ map Refused ks
    \<and> (r = Inr () \<longrightarrow> ms1 = filter (\<lambda>(r, b). PStr r \<notin> set ks) ms)"
proof -
  obtain rid i where ri: "ri = (rid, i)" by (cases ri)
  let ?res = "dict_update (ri_resource i) (ri_extra i)"
  let ?key = "dict_get_default ?res ''id'' PNone"
  obtain w2 c where c: "g_create cl (ri_type i) ?res w = (w2, c)" by fastforce
  then have t: "g_create (traced cl) (ri_type i) ?res (w, calls) = ((w2, calls @ (if refusal c then [Refused ?key] else [])), c)"
    by (simp add: traced_def)
  show ?thesis
  proof (cases "refusal c")
    case True
    have del: "ms' = filter (\<lambda>(r, b). PStr r \<noteq> ?key) ms" if "del_item ?key ms = Inr ms'" for ms'
      using that by (auto simp: del_item_def bindr_Inr_iff key_str_def AList.delete_eq case_prod_beta
          split: if_splits pyval.splits intro!: filter_cong)
    from True t assms show ?thesis
      by (intro exI [of _ "[?key]"])
        (auto simp: create_one_def ri Let_def refusal_def dest!: del split: sum.splits gnocchi_error.splits)
  next
    case False
    have cached: "calls1 = calls" if "g_cache (traced cl) = Some rg" "cache_set rg ?key h (w2, calls) = (w1, calls1)" for rg h
      using traced_cache(2) [OF that(1), of ?key h "(w2, calls)"] that(2) by simp
    from False have "c = Inr () \<or> c = Inl ResourceAlreadyExists \<or> (\<exists>e. c = Inl (OtherFailure e))"
      by (auto simp: refusal_def split: sum.splits gnocchi_error.splits)
    with t assms False have "calls1 = calls \<and> (r = Inr () \<longrightarrow> ms1 = ms)"
      by (auto simp: create_one_def ri Let_def dest: cached split: option.splits if_splits sum.splits)
    then show ?thesis by (intro exI [of _ "[]"]) simp
  qed
qed

lemma create_missing_log:
  "create_missing (traced cl) ris (ms, infos, (w, calls)) = ((ms1, infos1, (w1, calls1)), r) \<Longrightarrow>
   \<exists>ks. calls1 = calls @ map Refused ks \<and> (r = Inr () \<longrightarrow> ms1 = filter (\<lambda>(r, b). PStr r \<notin> set ks) ms)"
proof (induction ris arbitrary: ms infos w calls)
  case (Cons ri ris)
  obtain ms2 infos2 w2 calls2 r2 where one: "create_one (traced cl) ri (ms, infos, (w, calls)) = ((ms2, infos2, (w2, calls2)), r2)"
    by (metis prod.collapse)
  from create_one_log [OF one] obtain ks where ks: "calls2 = calls @ map Refused ks"
    "r2 = Inr () \<Longrightarrow> ms2 = filter (\<lambda>(r, b). PStr r \<notin> set ks) ms" by blast
  show ?case
  proof (cases r2)
    case (Inl e)
    then show ?thesis using Cons.prems one ks(1) by auto
  next
    case (Inr u)
    then have "create_missing (traced cl) ris (ms2, infos2, (w2, calls2)) = ((ms1, infos1, (w1, calls1)), r)"
      using Cons.prems one by simp
    from Cons.IH [OF this] obtain ks' where "calls1 = calls2 @ map Refused ks'"
      "r = Inr () \<Longrightarrow> ms1 = filter (\<lambda>(r, b). PStr r \<notin> set ks') ms2" by blast
    then show ?thesis using ks Inr
      by (intro exI [of _ "ks @ ks'"]) (auto simp: case_prod_beta intro!: filter_cong)
  qed
qed auto

definition posted_again :: "measures \<Rightarrow> call list \<Rightarrow> bool" where
  "posted_again ms calls \<longleftrightarrow>
     (\<exists>ks. calls = map Refused ks \<or> (\<exists>ok. calls = map Refused ks @ [Posted (filter (\<lambda>(r, b). PStr r \<notin> set ks) ms) ok]))"

lemma batch_measures_log:
  assumes "batch_measures (traced cl) (ms, infos, (w, calls)) = ((ms1, infos1, (w1, calls1)), r)"
  shows "\<exists>ok rest. calls1 = calls @ Posted ms ok # rest \<and> (ok \<longrightarrow> rest = []) \<and> posted_again ms rest"
proof -
  obtain w2 b where b: "g_batch cl ms w = (w2, b)" by fastforce
  then have t: "g_batch (traced cl) ms (w, calls) = ((w2, calls @ [Posted ms (b = Inr ())]), b)"
    by (simp add: traced_def)
  have none: "posted_again ms []" by (simp add: posted_again_def)
  show ?thesis
  proof (cases "\<exists>ids ris. b = Inl (BadRequest (Some (''Unknown resources'', ids))) \<and> extract_resources ids infos = Inr ris")
    case False
    then have "calls1 = calls @ [Posted ms (b = Inr ())]"
      using assms t by (auto simp: batch_measures_def split: sum.splits gnocchi_error.splits option.splits if_splits)
    then show ?thesis using none by blast
  next
    case True
    then obtain ids ris where c: "b = Inl (BadRequest (Some (''Unknown resources'', ids)))" "extract_resources ids infos = Inr ris"
      by blast
    obtain ms2 infos2 w3 calls2 r2 where m:
      "create_missing (traced cl) ris (ms, infos, (w2, calls @ [Posted ms False])) = ((ms2, infos2, (w3, calls2)), r2)"
      by (metis prod.collapse)
    from create_missing_log [OF m] obtain ks where ks: "calls2 = (calls @ [Posted ms False]) @ map Refused ks"
      "r2 = Inr () \<Longrightarrow> ms2 = filter (\<lambda>(r, b). PStr r \<notin> set ks) ms" by blast
    have run: "post_again (traced cl) ((ms2, infos2, (w3, calls2)), r2) = ((ms1, infos1, (w1, calls1)), r)"
      using assms t c m by (simp add: batch_measures_def)
    have "\<exists>rest. calls1 = calls @ Posted ms False # rest \<and> posted_again ms rest"
    proof (cases r2)
      case (Inl e)
      then show ?thesis using run ks(1) by (auto simp: post_again_def posted_again_def)
    next
      case (Inr u)
      then show ?thesis using run ks
        by (auto simp: post_again_def posted_again_def traced_def split: prod.splits)
    qed
    then show ?thesis by blast
  qed
qed

lemma update_info_log: "snd (update_info (traced cl) i st) = snd st"
proof -
  have diff: "snd (fst (cache_diff rg k h st)) = snd st" if "g_cache (traced cl) = Some rg" for rg k h st
    using traced_cache(1) [OF that, of k st] by (cases "cache_get rg k st") (simp add: cache_diff_def)
  have "snd (fst (if_not_cached (traced cl) ty k extra st)) = snd st" for ty k extra
  proof (cases "g_cache (traced cl)")
    case None
    then show ?thesis by (simp add: if_not_cached_def)
  next
    case (Some rg)
    show ?thesis
    proof (cases "hash_resource (traced cl) extra")
      case (Inr h)
      obtain st1 d1 where d1: "cache_diff rg k h st = (st1, d1)" by fastforce
      obtain st2 d2 where d2: "cache_diff rg k h st1 = (st2, d2)" by fastforce
      have "snd st1 = snd st" "snd st2 = snd st1"
        using diff [OF Some, of k h st] diff [OF Some, of k h st1] d1 d2 by simp_all
      then show ?thesis using Some Inr d1 d2 traced_cache(2) [OF Some]
        by (auto simp: if_not_cached_def dest!: silent_eqD split: prod.split sum.split)
    qed (simp add: if_not_cached_def Some)
  qed
  then show ?thesis by (simp add: update_info_def)
qed

lemma update_infos_log: "snd (update_infos (traced cl) infos st) = snd st"
proof -
  have "snd (fold (update_info (traced cl)) is st) = snd st" for "is" st
    by (induction "is" arbitrary: st) (simp_all add: update_info_log)
  then show ?thesis by (simp add: update_infos_def)
qed

text \<open>What follows the grouping of the samples: the post, the second post, the updates.\<close>

lemma collected_posted:
  assumes "collect env defs (sort_key s_resource_id data) ([], []) = Inr (infos, ms)"
    and "batch_measures (traced cl) (ms, infos, (w, calls)) = ((ms1, infos1, st1), r1)"
    and "(w', calls') = update_infos (traced cl) infos1 st1"
  shows "\<exists>ok rest. calls' = calls @ Posted ms ok # rest \<and> (ok \<longrightarrow> rest = []) \<and> posted_again ms rest
    \<and> (\<forall>r m. points_of ms r m = map measure_of (filter (at_point defs r m) (sort_key s_resource_id data)))
    \<and> ((\<forall>s \<in> set data. CHR ''/'' \<notin> set (s_resource_id s)) \<longrightarrow>
         (\<forall>r m. points_of ms r m = map measure_of (filter (at_point defs r m) data)))"
proof -
  obtain w1 calls1 where st1: "st1 = (w1, calls1)" by (cases st1)
  have calls': "calls' = calls1" using update_infos_log [of cl infos1 st1] assms(3) by (metis st1 snd_conv)
  from batch_measures_log [OF assms(2) [unfolded st1]] obtain ok rest where
    log: "calls1 = calls @ Posted ms ok # rest" "ok \<longrightarrow> rest = []" "posted_again ms rest" by blast
  have points: "points_of ms r m = map measure_of (filter (at_point defs r m) (sort_key s_resource_id data))" for r m
    using collect_points [OF assms(1), of r m] by simp
  have plain: "points_of ms r m = map measure_of (filter (at_point defs r m) data)"
    if "\<forall>s \<in> set data. CHR ''/'' \<notin> set (s_resource_id s)" for r m
    using points sorted_by_resource [of data defs] that by simp
  show ?thesis
    using log by (intro exI [of _ ok] exI [of _ rest] conjI impI allI points plain) (simp_all only: calls')
qed

text \<open>
  C18: What is posted to Gnocchi is what the samples say. Whatever the client, its failures, the
  cache and the filter project are: if publishing raises (the archive policies, the look-up of
  the filter project or the attributes of a sample failed), nothing has been posted. Otherwise
  the measures are posted once. They hold, under each resource and metric, one measure for
  every sample of it that a definition handles and that is no activity of the filter project, in
  the order of the samples sorted by resource (the order they came in, for ids that the
  replacement of \<open>/\<close> leaves alone), and nothing else. Once they have been taken nothing more
  is posted; otherwise they may be posted a second time, after the creation of resources, less
  exactly the resources the service refused to create in between. With the policies configured,
  the filter project known or not set, and attributes that parse, publishing does not raise.
\<close>

theorem every_measure_posted:
  assumes "gnocchi_publish_samples env (traced cl) ss (gp, (w, calls)) = ((gp', (w', calls')), r)"
  defines "kept \<equiv> filter (\<lambda>s. \<not> own_activity gp' s) ss"
  shows "case r of
      Inl e \<Rightarrow> calls' = calls \<and> \<not> (gp_configured gp \<and> settled gp
        \<and> (\<forall>s \<in> set ss. \<forall>rd. handled_by (gp_defs gp) s = Some rd \<longrightarrow> is_ok (sample_attributes env rd s)))
    | Inr u \<Rightarrow> (\<exists>ms ok rest. calls' = calls @ Posted ms ok # rest
        \<and> (ok \<longrightarrow> rest = []) \<and> posted_again ms rest
        \<and> (\<forall>r m. points_of ms r m = map measure_of (filter (at_point (gp_defs gp) r m) (sort_key s_resource_id kept)))
        \<and> ((\<forall>s \<in> set ss. CHR ''/'' \<notin> set (s_resource_id s)) \<longrightarrow>
             (\<forall>r m. points_of ms r m = map measure_of (filter (at_point (gp_defs gp) r m) kept))))"
proof -
  obtain gp1 st1 r1 where p: "ensures_archives_policies (traced cl) (gp, (w, calls)) = ((gp1, st1), r1)"
    by (metis prod.collapse)
  note P = policies_log [OF p]
  show ?thesis
  proof (cases r1)
    case (Inl e)
    then show ?thesis using assms(1) p P by (auto simp: gnocchi_publish_samples_def)
  next
    case u: (Inr u)
    obtain gp2 st2 r2 where d: "drop_activity (traced cl) ss (gp1, st1) = ((gp2, st2), r2)" by (metis prod.collapse)
    note D = drop_activity_log [OF d]
    have fine: "r2 = Inr (filter (\<lambda>s. \<not> own_activity gp2 s) ss) \<and> gp2 = gp" if "gp_configured gp" "settled gp"
      using d P that settled_drop [of gp "traced cl" ss st1] by auto
    show ?thesis
    proof (cases r2)
      case (Inl e)
      then show ?thesis using assms(1) p P u d D fine by (auto simp: gnocchi_publish_samples_def)
    next
      case (Inr data)
      with D have data: "data = filter (\<lambda>s. \<not> own_activity gp2 s) ss" by simp
      have defs: "gp_defs gp2 = gp_defs gp" using D P by simp
      show ?thesis
      proof (cases "collect env (gp_defs gp2) (sort_key s_resource_id data) ([], [])")
        case c: (Inl e)
        have "\<not> (\<forall>s \<in> set ss. \<forall>rd. handled_by (gp_defs gp) s = Some rd \<longrightarrow> is_ok (sample_attributes env rd s))"
          using c collect_ok [of "sort_key s_resource_id data" "gp_defs gp" env "([], [])"]
          by (auto simp: defs data is_ok_def)
        moreover have "r = Inl (OtherFailure e)" "calls' = calls"
          using assms(1) p P u d D Inr c by (auto simp: gnocchi_publish_samples_def)
        ultimately show ?thesis by simp
      next
        case c: (Inr im)
        obtain infos ms where im: "im = (infos, ms)" by (cases im)
        obtain w2 calls2 where st2: "st2 = (w2, calls2)" by (cases st2)
        obtain ms3 infos3 st3 r3 where b: "batch_measures (traced cl) (ms, infos, (w2, calls2)) = ((ms3, infos3, st3), r3)"
          by (metis prod.collapse)
        have res: "r = Inr ()" "gp' = gp2" "(w', calls') = update_infos (traced cl) infos3 st3"
          using assms(1) p u d Inr c im st2 b by (cases st3; simp add: gnocchi_publish_samples_def)+
        have same: "calls2 = calls" "data = kept" using D P st2 by (simp_all add: kept_def res(2) data)
        have "\<forall>s \<in> set kept. CHR ''/'' \<notin> set (s_resource_id s)" if "\<forall>s \<in> set ss. CHR ''/'' \<notin> set (s_resource_id s)"
          using that by (simp add: kept_def)
        then show ?thesis
          using collected_posted [OF c [unfolded im] b res(3)] unfolding res(1) sum.case same defs by metis
      qed
    qed
  qed
qed

section \<open>A resource that cannot be created\<close>

text \<open>
  A client whose first post fails because resources are unknown, and that refuses to create
  some of them.
\<close>

definition unknown_resources :: "string list \<Rightarrow> (string \<Rightarrow> bool) \<Rightarrow> measures list gnocchi" where
  "unknown_resources ids refused = recording
     \<lparr>g_batch := \<lambda>ms w. (w @ [ms], if w = [] then Inl (BadRequest (Some (''Unknown resources'', ids))) else Inr ()),
      g_create := \<lambda>t r w. (w, if \<exists>i. dict_get r ''id'' = Some (PStr i) \<and> refused i
                            then Inl ClientException else Inr ())\<rparr>"

definition infos_ok :: "infos \<Rightarrow> bool" where
  "infos_ok infos = (\<forall>(r, i) \<in> set infos. dict_get (dict_update (ri_resource i) (ri_extra i)) ''id'' = Some (PStr r))"

lemma fst_set_dict_del [simp]: "fst ` set (dict_del k d) = fst ` set d - {k}"
  by (induction d) auto

lemma create_missing_refused:
  assumes "distinct (map fst ris)" "infos_ok ris"
    "set (map fst ris) \<subseteq> set (dict_keys ms)" "set (map fst ris) \<subseteq> set (dict_keys infos)"
  shows "\<exists>infos'. create_missing (unknown_resources ids refused) ris (ms, infos, w)
    = ((filter (\<lambda>(r, b). \<not> (r \<in> set (map fst ris) \<and> refused r)) ms, infos', w), Inr ())
    \<and> set (dict_keys infos') = {r \<in> set (dict_keys infos). \<not> (r \<in> set (map fst ris) \<and> refused r)}"
  using assms
proof (induction ris arbitrary: ms infos)
  case Nil
  then show ?case by (auto intro: filter_True [symmetric])
next
  case (Cons ri ris)
  obtain r i where ri: "ri = (r, i)" by (cases ri)
  let ?cl = "unknown_resources ids refused"
  let ?resource = "dict_update (ri_resource i) (ri_extra i)"
  let ?infos1 = "dict_set r (i\<lparr>ri_resource := ?resource\<rparr>) infos"
  from Cons.prems(2) ri have key: "dict_get ?resource ''id'' = Some (PStr r)" and rest: "infos_ok ris"
    by (auto simp: infos_ok_def)
  define ms1 where "ms1 = (if refused r then dict_del r ms else ms)"
  define infos1 where "infos1 = (if refused r then dict_del r ?infos1 else ?infos1)"
  have one: "create_one ?cl ri (ms, infos, w) = ((ms1, infos1, w), Inr ())"
    using key Cons.prems(3,4) ri
    by (auto simp: create_one_def Let_def unknown_resources_def recording_def ms1_def infos1_def
        del_item_def key_str_def dict_get_default_def)
  have "r \<notin> set (map fst ris)" and "distinct (map fst ris)" using Cons.prems(1) ri by auto
  moreover have "set (map fst ris) \<subseteq> set (dict_keys ms1)" "set (map fst ris) \<subseteq> set (dict_keys infos1)"
    using Cons.prems(3,4) \<open>r \<notin> set (map fst ris)\<close> ri
    by (force simp: ms1_def infos1_def)+
  ultimately obtain infos' where
    "create_missing ?cl ris (ms1, infos1, w)
      = ((filter (\<lambda>(x, b). \<not> (x \<in> set (map fst ris) \<and> refused x)) ms1, infos', w), Inr ())"
    and keys: "set (dict_keys infos') = {x \<in> set (dict_keys infos1). \<not> (x \<in> set (map fst ris) \<and> refused x)}"
    using Cons.IH [OF _ rest] by blast
  moreover have "filter (\<lambda>(x, b). \<not> (x \<in> set (map fst ris) \<and> refused x)) ms1
      = filter (\<lambda>(x, b). \<not> (x \<in> set (map fst (ri # ris)) \<and> refused x)) ms"
    by (auto simp: ms1_def ri AList.delete_eq intro!: filter_cong)
  moreover have "set (dict_keys infos') = {x \<in> set (dict_keys infos). \<not> (x \<in> set (map fst (ri # ris)) \<and> refused x)}"
    using Cons.prems(4) unfolding keys
    by (auto simp: infos1_def ri)
  ultimately show ?case using one by auto
qed

text \<open>
  A resource the service does not know and refuses to create costs only its own measures.
  All unknown resources are tried, and the second post is the first one without the measures of
  the refused resources.
\<close>

theorem refused_resource_isolated:
  assumes "distinct ids" "set ids \<subseteq> set (dict_keys ms)" "set (dict_keys infos) = set (dict_keys ms)" "infos_ok infos"
  shows "\<exists>infos'. batch_measures (unknown_resources ids refused) (ms, infos, [])
    = ((filter (\<lambda>(r, b). \<not> (r \<in> set ids \<and> refused r)) ms, infos',
        [ms, filter (\<lambda>(r, b). \<not> (r \<in> set ids \<and> refused r)) ms]), Inr ())"
proof -
  let ?cl = "unknown_resources ids refused"
  from assms(1) have ex: "extract_resources ids infos = mapr (\<lambda>rid. bindr (dict_item infos rid) (\<lambda>i. Inr (rid, i))) ids"
    by (simp add: extract_resources_def distinct_remdups_id)
  have found: "is_ok (mapr (\<lambda>rid. bindr (dict_item infos rid) (\<lambda>i. Inr (rid, i))) xs)" if "set xs \<subseteq> set (dict_keys infos)" for xs
    using that
  proof (induction xs)
    case (Cons x xs)
    then obtain i where "dict_item infos x = Inr i"
      by (cases "dict_item infos x") (auto simp: dict_item_Inl_iff dict_get_None_iff)
    with Cons show ?case by (auto simp: is_ok_iff)
  qed simp
  from found [of ids] assms(2,3) obtain ris
    where ris: "mapr (\<lambda>rid. bindr (dict_item infos rid) (\<lambda>i. Inr (rid, i))) ids = Inr ris"
    by (auto simp: is_ok_iff)
  then have "list_all2 (\<lambda>rid ri. fst ri = rid \<and> ri \<in> set infos) ids ris"
    unfolding mapr_Inr_iff
    by (elim list_all2_mono) (auto simp: bindr_Inr_iff dict_item_Inr_iff dest: map_of_SomeD)
  then have "map fst ris = ids" "set ris \<subseteq> set infos"
    by (induction rule: list_all2_induct) auto
  moreover from this have "infos_ok ris" using assms(4) by (auto simp: infos_ok_def)
  ultimately obtain infos'
    where "create_missing ?cl ris (ms, infos, [ms])
      = ((filter (\<lambda>(r, b). \<not> (r \<in> set ids \<and> refused r)) ms, infos', [ms]), Inr ())"
    using create_missing_refused [of ris ms infos ids refused "[ms]"] assms(1-3) by auto
  moreover have "g_batch ?cl x w = (w @ [x],
      if w = [] then Inl (BadRequest (Some (''Unknown resources'', ids))) else Inr ())" for x w
    by (simp add: unknown_resources_def)
  ultimately show ?thesis
    using ex ris by (simp add: batch_measures_def post_again_def)
qed

section \<open>The cache\<close>

text \<open>
  A resource whose attributes have not changed is not updated again: after a successful
  update through a cache that keeps what it is given, the same call touches nothing but the
  cache. The hash must not be zero, which the code reads as absent.
\<close>

theorem unchanged_resource_not_updated:
  assumes "g_cache cl = Some r" "hash_resource cl extra = Inr h" "h \<noteq> 0"
    "\<forall>w. cache_get r key (cache_set r key h w) = (cache_set r key h w, Some h)"
    "\<forall>k w. fst (cache_get r k w) = w"
    "if_not_cached cl ty key extra w = (w', Inr ())"
  shows "if_not_cached cl ty key extra w' = (w', Inr ())"
proof -
  obtain c where c: "cache_get r key w = (w, c)"
    using assms(5) by (metis prod.collapse)
  show ?thesis
  proof (cases "c = Some h")
    case True
    then have "cache_diff r key h w = (w, False)"
      using assms(3) c by (simp add: cache_diff_def)
    with assms show ?thesis by (simp add: if_not_cached_def)
  next
    case False
    then have "cache_diff r key h w = (w, True)"
      using c by (auto simp: cache_diff_def split: option.split)
    with assms(1,2,6) obtain w3 where "w' = cache_set r key h w3"
      by (auto simp: if_not_cached_def split: prod.splits sum.splits)
    with assms show ?thesis by (simp add: if_not_cached_def cache_diff_def)
  qed
qed

section \<open>Deletion events\<close>

text \<open>
  A deletion event without a value for the \<open>id\<close> of its resource raises, although every
  failure of the update itself is caught, and the events after it are not looked at.
\<close>

theorem event_without_id_stops:
  assumes "ev_event_type ev = PStr t" "find_resource_def fnm rds t = Inr (Some (rd, EVENT_DELETE))"
    "event_resource rd ev = Inr resource" "dict_get resource ''id'' = None"
    "\<not> truthy (dict_get_default (rd_cfg rd) ''event_associated_resources'' (PDict []))"
  shows "gnocchi_publish_events fnm env cl now rds (ev # evs) w = (w, Inl (OtherFailure (KeyError ''id'')))"
  using assms
  by (simp add: gnocchi_publish_event_def delete_event_def Let_def set_ended_at_def lift_res_def dict_item_def
      split: option.split)

section \<open>Witnesses\<close>

definition demo_rd :: resource_def where
  "demo_rd = \<lparr>rd_cfg = [(''event_delete'', PStr ''vm.delete.*''), (''event_attributes'', PDict [(''id'', PStr ''vm_id'')])],
     rd_type = ''instance'', rd_attributes = [], rd_event_attributes = [],
     rd_metrics = [(''cpu'', [(''archive_policy_name'', PStr ''low'')])]\<rparr>"

definition demo_gp :: gnocchi_publisher where
  "demo_gp = \<lparr>gp_defs = [demo_rd], gp_policies = PList [], gp_filter_project = None, gp_project_id = None,
     gp_configured = True\<rparr>"

text \<open>
  A service that does not know \<open>vm\<close> and \<open>vm2\<close>, and refuses to create the second; the filter
  project is \<open>p\<close>.
\<close>

definition demo_client :: "nat gnocchi" where
  "demo_client =
     \<lparr>g_batch = \<lambda>ms n. (Suc n, if n = 0 then Inl (BadRequest (Some (''Unknown resources'', [''vm'', ''vm2'']))) else Inr ()),
      g_create = \<lambda>ty res n. (n, if dict_get res ''id'' = Some (PStr ''vm2'') then Inl ClientException else Inr ()),
      g_update = \<lambda>ty i x n. (n, Inr ()), g_search = \<lambda>ty q n. (n, Inr []), g_policy_get = \<lambda>p n. (n, Inr ()),
      g_policy_create = \<lambda>p n. (n, Inr ()), g_project = \<lambda>p n. (n, Inr (Some ''own'')), g_cache = None, g_hash = \<lambda>d. Inr 1\<rparr>"

definition filtering_gp :: gnocchi_publisher where
  "filtering_gp = demo_gp\<lparr>gp_filter_project := Some ''service'', gp_project_id := Some ''own''\<rparr>"

definition demo_samples :: "sample list" where
  "demo_samples = [demo_sample\<lparr>s_resource_id := ''vm2''\<rparr>, demo_sample, demo_sample\<lparr>s_project_id := Some ''own''\<rparr>,
     demo_sample\<lparr>s_name := ''unknown''\<rparr>, demo_sample\<lparr>s_volume := PInt 9\<rparr>]"

theorem every_measure_posted_witness:
  "\<exists>ms ok rest. snd (snd (fst (gnocchi_publish_samples demo_env (traced demo_client) demo_samples (filtering_gp, (0, [])))))
        = Posted ms ok # rest
    \<and> posted_again ms rest
    \<and> points_of ms ''vm'' ''cpu'' = [measure_of demo_sample, measure_of (demo_sample\<lparr>s_volume := PInt 9\<rparr>)]"
proof -
  let ?run = "gnocchi_publish_samples demo_env (traced demo_client) demo_samples (filtering_gp, (0, []))"
  obtain gp' w' calls' r where run: "?run = ((gp', (w', calls')), r)" by (metis prod.collapse)
  have "snd ?run = Inr ()" by code_simp
  then have r: "r = Inr ()" by (simp add: run)
  have "filter (at_point (gp_defs filtering_gp) ''vm'' ''cpu'')
      (filter (\<lambda>s. \<not> own_activity (fst (fst ?run)) s) demo_samples) = [demo_sample, demo_sample\<lparr>s_volume := PInt 9\<rparr>]"
    by code_simp
  then have kept: "filter (at_point (gp_defs filtering_gp) ''vm'' ''cpu'')
      (filter (\<lambda>s. \<not> own_activity gp' s) demo_samples) = [demo_sample, demo_sample\<lparr>s_volume := PInt 9\<rparr>]"
    by (simp only: run fst_conv)
  have "\<forall>s \<in> set demo_samples. CHR ''/'' \<notin> set (s_resource_id s)" by code_simp
  with every_measure_posted [OF run, unfolded r sum.case] obtain ms ok rest where
      "calls' = [] @ Posted ms ok # rest" "posted_again ms rest"
      "points_of ms ''vm'' ''cpu'' = map measure_of (filter (at_point (gp_defs filtering_gp) ''vm'' ''cpu'')
         (filter (\<lambda>s. \<not> own_activity gp' s) demo_samples))"
    by blast
  then show ?thesis unfolding kept run by (intro exI [of _ ms] exI [of _ ok] exI [of _ rest]) simp
qed

theorem refused_resource_isolated_witness:
  "\<exists>infos'. batch_measures (unknown_resources [''a'', ''b''] (\<lambda>r. r = ''a''))
      ([(''a'', []), (''b'', []), (''c'', [])],
       map (\<lambda>r. (r, \<lparr>ri_type = ''t'', ri_resource = [(''id'', PStr r)], ri_extra = []\<rparr>)) [''a'', ''b'', ''c''], [])
    = (([(''b'', []), (''c'', [])], infos',
        [[(''a'', []), (''b'', []), (''c'', [])], [(''b'', []), (''c'', [])]]), Inr ())"
  using refused_resource_isolated [of "[''a'', ''b'']" "[(''a'', []), (''b'', []), (''c'', [])]"
      "map (\<lambda>r. (r, \<lparr>ri_type = ''t'', ri_resource = [(''id'', PStr r)], ri_extra = []\<rparr>)) [''a'', ''b'', ''c'']" "\<lambda>r. r = ''a''"]
  by (simp add: infos_ok_def dict_update_def)

definition cached_client :: "(int option \<times> nat) gnocchi" where
  "cached_client =
     \<lparr>g_batch = \<lambda>ms w. (w, Inr ()), g_create = \<lambda>t r w. (w, Inr ()),
      g_update = \<lambda>t i x w. ((fst w, Suc (snd w)), Inr ()),
      g_search = \<lambda>t q w. (w, Inr []), g_policy_get = \<lambda>n w. (w, Inr ()), g_policy_create = \<lambda>n w. (w, Inr ()),
      g_project = \<lambda>n w. (w, Inr None),
      g_cache = Some \<lparr>cache_get = \<lambda>k w. (w, fst w), cache_set = \<lambda>k h w. (Some h, snd w)\<rparr>,
      g_hash = \<lambda>d. Inr 7\<rparr>"

theorem unchanged_resource_not_updated_witness:
  "if_not_cached cached_client ''instance'' (PStr ''vm'') [(''host'', PStr ''h'')] (Some 7, 1) = ((Some 7, 1), Inr ())"
proof -
  let ?r = "\<lparr>cache_get = \<lambda>k w. (w, fst w), cache_set = \<lambda>k h w. (Some h, snd w)\<rparr> :: (int option \<times> nat) region"
  have "if_not_cached cached_client ''instance'' (PStr ''vm'') [(''host'', PStr ''h'')] (None, 0) = ((Some 7, 1), Inr ())"
    by (simp add: if_not_cached_def cached_client_def hash_resource_def cache_diff_def)
  then show ?thesis
    by (intro unchanged_resource_not_updated [of cached_client ?r _ 7 _ "''instance''" "(None, 0)"])
      (simp_all add: cached_client_def hash_resource_def)
qed

definition deleted_event :: event where
  "deleted_event = \<lparr>ev_message_id = PStr ''m'', ev_event_type = PStr ''vm.delete.end'', ev_generated = 0,
     ev_traits = [], ev_raw = PDict []\<rparr>"

theorem event_without_id_stops_witness:
  "gnocchi_publish_events glob demo_env recording (\<lambda>e. []) [demo_rd] [deleted_event, deleted_event] []
     = ([], Inl (OtherFailure (KeyError ''id'')))"
proof -
  have "event_match glob demo_rd ''vm.delete.end'' = Inr (Some EVENT_DELETE)" by code_simp
  then have found: "find_resource_def glob [demo_rd] ''vm.delete.end'' = Inr (Some (demo_rd, EVENT_DELETE))" by simp
  have attrs: "event_resource demo_rd deleted_event = Inr [(''type'', PStr ''instance'')]" by code_simp
  show ?thesis
    by (rule event_without_id_stops [OF _ found attrs])
      (simp_all add: deleted_event_def demo_rd_def dict_get_default_def)
qed

end
