(* ===== verification/Hbase_Keys.thy ===== *)
theory Hbase_Keys
  imports Url
begin

text \<open>
  Row keys of the HBase storage driver (\<^verbatim>\<open>ceilometer/storage/hbase/utils.py\<close>): quoting, reversed
  timestamps, keys joined by colons, and the range of rows that a query scans. The driver is
  Python 2 code: text is a byte string or UTF-8 text, and \<open>quote\<close> works on the bytes.

  HBase sorts rows as byte strings. That a decimal timestamp sorts by value is a fact about its
  length, proved here for all times a \<open>datetime\<close> can hold.
\<close>

section \<open>Quoting\<close>

definition escape_byte :: "string \<Rightarrow> char \<Rightarrow> string" where
  "escape_byte safe c =
     (if is_alnum c \<or> c \<in> set (''_.-'' @ safe) then [c]
      else [CHR ''%'', hex_digit (of_char c div 16), hex_digit (of_char c mod 16)])"

definition quote_safe :: "string \<Rightarrow> string \<Rightarrow> string" where
  "quote_safe safe s = concat (map (escape_byte safe) (utf8_encode s))"

abbreviation quote :: "string \<Rightarrow> string" where
  "quote \<equiv> quote_safe ''/''"

fun unquote_bytes :: "string \<Rightarrow> string" where
  "unquote_bytes (a # b # c # cs) =
     (if a = CHR ''%''
      then (case (hex_val b, hex_val c) of
          (Some x, Some y) \<Rightarrow> char_of (16 * x + y) # unquote_bytes cs
        | _ \<Rightarrow> a # unquote_bytes (b # c # cs))
      else a # unquote_bytes (b # c # cs))"
| "unquote_bytes cs = cs"

definition h_unquote :: "string \<Rightarrow> string res" where
  "h_unquote s = utf8_decode (unquote_bytes s)"

section \<open>Keys\<close>

text \<open>Microseconds since the epoch, reversed so that the newest row comes first.\<close>

definition rev_timestamp :: "int \<Rightarrow> bool \<Rightarrow> int" where
  "rev_timestamp t reverse = (if reverse then 0x7fffffffffffffff - t else t)"

definition prepare_key :: "pyval list \<Rightarrow> string" where
  "prepare_key args =
     join '':'' (map (\<lambda>k. quote (case k of PStr s \<Rightarrow> s | _ \<Rightarrow> (case as_int k of Some i \<Rightarrow> string_of_int i | None \<Rightarrow> []))) args)"

definition get_start_end_rts :: "int option \<Rightarrow> int option \<Rightarrow> string \<times> string" where
  "get_start_end_rts start end =
     (let f = (\<lambda>t. case t of None \<Rightarrow> [] | Some t \<Rightarrow> string_of_int (rev_timestamp t True)) in (f start, f end))"

text \<open>Without a start the rows up to \<open>z\<close>, the last character that is not escaped.\<close>

definition make_general_rowkey_scan :: "string \<Rightarrow> string \<Rightarrow> string option \<Rightarrow> (string \<times> string) option" where
  "make_general_rowkey_scan rts_start rts_end some_id =
     (case some_id of
        None \<Rightarrow> None
      | Some i \<Rightarrow>
          (let rts_start = (if rts_start = [] then ''z'' else rts_start)
           in Some (prepare_key [PStr i, PStr rts_end], prepare_key [PStr i, PStr rts_start])))"

definition meter_row :: "string \<Rightarrow> int \<Rightarrow> string \<Rightarrow> string" where
  "meter_row name rts message_id = prepare_key [PStr name, PInt rts, PStr message_id]"

section \<open>Quoting can be undone\<close>

lemma below_16: "n < 16 \<Longrightarrow> n \<in> {0, 1, 2, 3, 4, 5, 6, 7, 8, 9, 10, 11, 12, 13, 14, 15 :: nat}"
  by (simp, arith)

lemma hex_digits:
  fixes c :: char
  shows "hex_val (hex_digit (of_char c div 16)) = Some (of_char c div 16)"
    "hex_val (hex_digit (of_char c mod 16)) = Some (of_char c mod 16)"
proof -
  have "hex_val (hex_digit n) = Some n" if "n < 16" for n
  proof -
    from below_16 [OF that] show ?thesis by (auto simp: hex_val_def hex_digit_def of_char_of)
  qed
  moreover have "(of_char c :: nat) div 16 < 16" "(of_char c :: nat) mod 16 < 16"
    using nat_of_char_less_256 [of c] by linarith+
  ultimately show "hex_val (hex_digit (of_char c div 16)) = Some (of_char c div 16)"
    "hex_val (hex_digit (of_char c mod 16)) = Some (of_char c mod 16)" by simp_all
qed

lemma unquote_plain: "c \<noteq> CHR ''%'' \<Longrightarrow> unquote_bytes (c # s) = c # unquote_bytes s"
  by (cases s rule: unquote_bytes.cases) auto

lemma unquote_escaped: "CHR ''%'' \<notin> set safe \<Longrightarrow> unquote_bytes (escape_byte safe c @ s) = c # unquote_bytes s"
proof (cases "is_alnum c \<or> c \<in> set (''_.-'' @ safe)")
  case True
  assume "CHR ''%'' \<notin> set safe"
  with True have "c \<noteq> CHR ''%''" by (auto simp: is_alnum_def)
  with True show ?thesis by (simp add: escape_byte_def unquote_plain)
next
  case False
  have "char_of (16 * (of_char c div 16) + of_char c mod 16 :: nat) = c" by simp
  with False show ?thesis by (auto simp: escape_byte_def hex_digits)
qed

lemma unquote_quote: "CHR ''%'' \<notin> set safe \<Longrightarrow> unquote_bytes (quote_safe safe s) = utf8_encode s"
proof -
  assume "CHR ''%'' \<notin> set safe"
  then have "unquote_bytes (concat (map (escape_byte safe) bs)) = bs" for bs
    by (induction bs) (simp_all add: unquote_escaped)
  then show ?thesis by (simp add: quote_safe_def)
qed

lemma h_unquote_quote: "h_unquote (quote s) = Inr s"
  by (simp add: h_unquote_def unquote_quote utf8_roundtrip)

lemma quote_inj: "quote s = quote t \<longleftrightarrow> s = t"
  by (metis h_unquote_quote sum.inject(2))

lemma escape_byte_chars: "CHR '':'' \<notin> set safe \<Longrightarrow> CHR '':'' \<notin> set (escape_byte safe c)"
proof -
  have digit: "CHR '':'' \<noteq> hex_digit n" if "n < 16" for n
  proof -
    from below_16 [OF that] show ?thesis by (auto simp: hex_digit_def of_char_of dest!: arg_cong [of _ _ "of_char :: char \<Rightarrow> nat"])
  qed
  have "(of_char c :: nat) div 16 < 16" "(of_char c :: nat) mod 16 < 16"
    using nat_of_char_less_256 [of c] by linarith+
  then have "CHR '':'' \<noteq> hex_digit (of_char c div 16)" "CHR '':'' \<noteq> hex_digit (of_char c mod 16)"
    by (simp_all add: digit)
  moreover assume "CHR '':'' \<notin> set safe"
  ultimately show ?thesis by (auto simp: escape_byte_def is_alnum_def)
qed

lemma quote_no_colon: "CHR '':'' \<notin> set (quote s)"
  using escape_byte_chars [of "''/''"] by (auto simp: quote_safe_def)

section \<open>Decimal timestamps sort by value\<close>

lemma append_less: "length xs = length ys \<Longrightarrow> xs @ a < ys @ b \<longleftrightarrow> xs < ys \<or> xs = ys \<and> a < b"
  for xs ys :: "'a::linorder list"
  by (induction xs ys rule: list_induct2) auto

lemma digit_less: "n < 10 \<Longrightarrow> m < 10 \<Longrightarrow> (char_of (48 + n) :: char) < char_of (48 + m) \<longleftrightarrow> n < (m :: nat)"
  by (simp add: less_char_def of_char_of)

lemma less_div_mod: "n < m \<longleftrightarrow> n div 10 < m div 10 \<or> n div 10 = m div 10 \<and> n mod 10 < m mod 10"
  for n m :: nat
proof -
  have "n = 10 * (n div 10) + n mod 10" "m = 10 * (m div 10) + m mod 10" "n mod 10 < 10" "m mod 10 < 10"
    by simp_all
  then show ?thesis by (cases "n div 10" "m div 10" rule: linorder_cases) linarith+
qed

lemma digits_order:
  assumes "10 ^ k \<le> n" "n < 10 ^ Suc k" "10 ^ k \<le> m" "m < 10 ^ Suc k"
  shows "length (digits_of_nat n) = Suc k \<and> (digits_of_nat n < digits_of_nat m \<longleftrightarrow> n < m)
    \<and> (digits_of_nat n = digits_of_nat m \<longleftrightarrow> n = m)"
  using assms
proof (induction k arbitrary: n m)
  case 0
  then show ?case using digit_less [of n m] digit_less [of m n]
    by (auto simp: digits_of_nat.simps [of n] digits_of_nat.simps [of m] dest: order.strict_implies_not_eq)
next
  case (Suc k)
  have "10 \<le> n" "10 \<le> m" using Suc.prems(1,3) by (auto intro: order_trans [of _ "10 ^ Suc k"] simp: self_le_power)
  have IH: "length (digits_of_nat x) = Suc k \<and> (digits_of_nat x < digits_of_nat y \<longleftrightarrow> x < y)
      \<and> (digits_of_nat x = digits_of_nat y \<longleftrightarrow> x = y)"
    if "x = n div 10 \<or> x = m div 10" "y = n div 10 \<or> y = m div 10" for x y
    using that Suc.prems by (intro Suc.IH) (auto simp: div_le_mono less_mult_imp_div_less dest: div_le_mono [of _ _ 10])
  have n: "digits_of_nat n = digits_of_nat (n div 10) @ [char_of (48 + n mod 10)]"
    and m: "digits_of_nat m = digits_of_nat (m div 10) @ [char_of (48 + m mod 10)]"
    using \<open>10 \<le> n\<close> \<open>10 \<le> m\<close> by (simp_all add: digits_of_nat.simps [of n] digits_of_nat.simps [of m])
  have len: "length (digits_of_nat (n div 10)) = length (digits_of_nat (m div 10))" using IH by metis
  have last: "(char_of (48 + n mod 10) :: char) < char_of (48 + m mod 10) \<longleftrightarrow> n mod 10 < m mod 10"
    "(char_of (48 + m mod 10) :: char) < char_of (48 + n mod 10) \<longleftrightarrow> m mod 10 < n mod 10"
    by (simp_all add: digit_less)
  have eq: "(char_of (48 + n mod 10) :: char) = char_of (48 + m mod 10) \<longleftrightarrow> n mod 10 = m mod 10"
    using digit_val_char_of [of "n mod 10"] digit_val_char_of [of "m mod 10"] by auto
  have "n < m \<longleftrightarrow> n div 10 < m div 10 \<or> n div 10 = m div 10 \<and> n mod 10 < m mod 10"
    by (rule less_div_mod)
  moreover have "n = m \<longleftrightarrow> n div 10 = m div 10 \<and> n mod 10 = m mod 10" by (metis div_mult_mod_eq)
  ultimately show ?case
    using IH [of "n div 10" "m div 10"] last eq by (simp add: n m append_less [OF len])
qed

section \<open>The range of rows of a query\<close>

text \<open>The times a \<open>datetime\<close> can hold, years 1 to 9999.\<close>

definition datetime_range :: "int \<Rightarrow> bool" where
  "datetime_range t = (- 62135596800000000 \<le> t \<and> t < 253402300800000000)"

definition rts :: "int \<Rightarrow> string" where
  "rts t = string_of_int (rev_timestamp t True)"

lemma rts_order:
  assumes "datetime_range s" "datetime_range t"
  shows "length (rts s) = 19" "rts s < rts t \<longleftrightarrow> t < s" "rts s = rts t \<longleftrightarrow> s = t"
proof -
  have range: "10 ^ 18 \<le> nat (rev_timestamp x True) \<and> nat (rev_timestamp x True) < 10 ^ Suc 18
      \<and> 0 \<le> rev_timestamp x True" if "datetime_range x" for x
    using that by (auto simp: datetime_range_def rev_timestamp_def nat_less_iff le_nat_iff)
  note order = digits_order [of 18 "nat (rev_timestamp s True)" "nat (rev_timestamp t True)"]
  show "length (rts s) = 19" "rts s < rts t \<longleftrightarrow> t < s" "rts s = rts t \<longleftrightarrow> s = t"
    using order range [OF assms(1)] range [OF assms(2)]
    by (auto simp: rts_def string_of_int_def rev_timestamp_def)
qed

lemma digits_alnum: "list_all is_alnum (digits_of_nat n)"
proof (induction n rule: digits_of_nat.induct)
  case (1 n)
  have "is_alnum (char_of (48 + k))" if "k < 10" for k :: nat
    using that by (simp add: is_alnum_def of_char_of Let_def)
  with 1 show ?case by (cases "n < 10") (simp_all add: digits_of_nat.simps [of n])
qed

lemma quote_alnum: "list_all is_alnum s \<Longrightarrow> quote s = s"
proof -
  assume alnum: "list_all is_alnum s"
  then have "utf8_encode s = s" by (induction s) (auto simp: is_alnum_def Let_def)
  moreover from alnum have "concat (map (escape_byte safe) s) = s" for safe
    by (induction s) (auto simp: escape_byte_def)
  ultimately show ?thesis by (simp add: quote_safe_def)
qed

lemma quote_rts: "datetime_range t \<Longrightarrow> quote (rts t) = rts t"
  by (rule quote_alnum)
    (simp add: rts_def string_of_int_def rev_timestamp_def datetime_range_def digits_alnum)

lemma meter_row_eq:
  "datetime_range t \<Longrightarrow>
   meter_row name (rev_timestamp t True) mid = (quote name @ '':'') @ rts t @ '':'' @ quote mid"
  using quote_rts [of t] by (simp add: meter_row_def prepare_key_def rts_def)

lemma between_prefix: "p @ a \<le> r \<Longrightarrow> r \<le> p @ b \<Longrightarrow> prefix p r"
  for p :: "'a::linorder list"
proof (induction p arbitrary: r)
  case (Cons x p)
  then obtain y s where "r = y # s" by (cases r) auto
  with Cons show ?case by auto
qed simp

lemma colon_prefix:
  assumes "CHR '':'' \<notin> set p" "CHR '':'' \<notin> set q" "prefix (p @ '':'') ((q @ '':'') @ s)"
  shows "p = q"
proof -
  from assms(3) obtain t where "p @ CHR '':'' # t = q @ CHR '':'' # s" by (auto simp: prefix_def)
  then have "cut CHR '':'' (p @ CHR '':'' # t) = cut CHR '':'' (q @ CHR '':'' # s)" by (rule arg_cong)
  then show ?thesis using assms(1,2) by (simp add: cut_append)
qed

lemma append_le_same: "p @ a \<le> p @ b \<longleftrightarrow> a \<le> b" for p :: "'a::linorder list"
  by (induction p) auto

lemma le_append: "a \<le> a @ b" for a :: "'a::linorder list"
  by (induction a) auto

lemma rts_between:
  assumes "datetime_range t" "\<forall>s. start = Some s \<longrightarrow> datetime_range s" "\<forall>e. end = Some e \<longrightarrow> datetime_range e"
    and "get_start_end_rts start end = (rs, re)"
  shows "re \<le> rts t @ '':'' @ x \<longleftrightarrow> (\<forall>e. end = Some e \<longrightarrow> t \<le> e)"
    "rts t @ '':'' @ x \<le> (if rs = [] then ''z'' else rs) \<longleftrightarrow> (\<forall>s. start = Some s \<longrightarrow> s < t)"
proof -
  have parts: "rs = (case start of None \<Rightarrow> [] | Some s \<Rightarrow> rts s)" "re = (case end of None \<Rightarrow> [] | Some e \<Rightarrow> rts e)"
    using assms(4) by (auto simp: get_start_end_rts_def Let_def rts_def split: option.splits)
  show "re \<le> rts t @ '':'' @ x \<longleftrightarrow> (\<forall>e. end = Some e \<longrightarrow> t \<le> e)"
  proof (cases "end")
    case (Some e)
    have "rts e @ [] \<le> rts t @ '':'' @ x \<longleftrightarrow> \<not> (rts t < rts e)"
      using rts_order [OF assms(1), of e] rts_order [of e t] assms(1,3) Some
        append_less [of "rts t" "rts e" "'':'' @ x" "[]"] by (auto simp: not_less [symmetric])
    with rts_order [OF assms(1), of e] assms(3) Some parts show ?thesis by auto
  qed (simp add: parts)
  show "rts t @ '':'' @ x \<le> (if rs = [] then ''z'' else rs) \<longleftrightarrow> (\<forall>s. start = Some s \<longrightarrow> s < t)"
  proof (cases start)
    case None
    obtain c cs where "rts t = c # cs" using rts_order(1) [OF assms(1,1)] by (cases "rts t") auto
    moreover from this have "c < CHR ''z''"
    proof -
      have "list_all (\<lambda>c. (of_char c :: nat) < 58) (digits_of_nat n)" for n
      proof (induction n rule: digits_of_nat.induct)
        case (1 n)
        then show ?case by (cases "n < 10") (simp_all add: digits_of_nat.simps [of n] of_char_of)
      qed
      from this [of "nat (rev_timestamp t True)"] \<open>rts t = c # cs\<close> show ?thesis
        using assms(1) by (simp add: rts_def string_of_int_def rev_timestamp_def datetime_range_def less_char_def)
    qed
    ultimately show ?thesis using None parts by simp
  next
    case (Some s)
    then have rng: "datetime_range s" using assms(2) by simp
    then have "rs \<noteq> []" using Some parts rts_order(1) [OF rng rng] by auto
    moreover have "rts t @ '':'' @ x \<le> rts s @ [] \<longleftrightarrow> rts t < rts s"
      using rts_order [OF assms(1) rng] rts_order(1) [OF rng rng]
        append_less [of "rts s" "rts t" "[]" "'':'' @ x"] by (auto simp: not_less [symmetric])
    ultimately show ?thesis using rts_order [OF assms(1) rng] Some parts by simp
  qed
qed

text \<open>
  The rows that a query for a meter scans are exactly the rows of that meter from after the
  start up to the end, the end included. Other meters are never in the range, whatever
  characters their names have, and the order of the rows is that of the times. The row of a
  sample at the start itself is not in the range, so a query that asks for \<open>ge\<close> does not get it.
\<close>

lemma row_range_exact:
  assumes "datetime_range t" "\<forall>s. start = Some s \<longrightarrow> datetime_range s" "\<forall>e. end = Some e \<longrightarrow> datetime_range e"
    and "get_start_end_rts start end = (rs, re)"
    and "make_general_rowkey_scan rs re (Some meter) = Some (start_row, end_row)"
  shows "start_row \<le> meter_row name (rev_timestamp t True) mid \<and> meter_row name (rev_timestamp t True) mid \<le> end_row
    \<longleftrightarrow> name = meter \<and> (\<forall>s. start = Some s \<longrightarrow> s < t) \<and> (\<forall>e. end = Some e \<longrightarrow> t \<le> e)"
proof -
  let ?p = "quote meter @ '':''" and ?rs = "if rs = [] then ''z'' else rs"
  have "quote re = re" "quote ?rs = ?rs"
    using assms(2-4) quote_rts
    by (auto simp: get_start_end_rts_def Let_def rts_def [symmetric] quote_alnum is_alnum_def split: option.splits)
  with assms(5) have rows: "start_row = ?p @ re" "end_row = ?p @ ?rs"
    by (auto simp: make_general_rowkey_scan_def prepare_key_def Let_def)
  show ?thesis
  proof (cases "name = meter")
    case True
    with rows assms(1) show ?thesis
      using rts_between [OF assms(1-4), of "quote mid"] by (auto simp: meter_row_eq append_le_same simp del: append_assoc)
  next
    case False
    have "\<not> (start_row \<le> meter_row name (rev_timestamp t True) mid \<and> meter_row name (rev_timestamp t True) mid \<le> end_row)"
    proof
      assume "start_row \<le> meter_row name (rev_timestamp t True) mid \<and> meter_row name (rev_timestamp t True) mid \<le> end_row"
      then have "prefix ?p (meter_row name (rev_timestamp t True) mid)"
        using rows between_prefix by blast
      then have "quote meter = quote name"
        using colon_prefix [OF quote_no_colon quote_no_colon] by (simp only: meter_row_eq [OF assms(1)])
      with False show False by (simp add: quote_inj)
    qed
    with False show ?thesis by blast
  qed
qed

end
