(* ===== verification/Hbase_Table.thy ===== *)
theory Hbase_Table
  imports Hbase_Keys Sample_Model
begin

text \<open>
  Tables and queries of the HBase driver: the table with versioned cells that
  \<^verbatim>\<open>ceilometer/storage/hbase/inmemory.py\<close> implements with the interface of HappyBase, and the
  queries that \<^verbatim>\<open>ceilometer/storage/hbase/utils.py\<close> builds.

  A query is a list of filters that must all hold; \<open>query_text\<close> is the text that is sent. The
  in-memory table reads that text back: it splits it at \<open>AND\<close>, takes the name and the arguments
  of each filter with a regular expression, and runs the method of that name. Nothing is escaped
  on the way, so only a text without separators arrives as it was built (\<open>query_reads_back\<close>).
  Searching for the regular expressions that two of the filters accept is an argument.
\<close>

section \<open>Queries\<close>

text \<open>The flag of a column filter says that rows without the column are left out.\<close>

datatype hfilter =
    ColumnFilter (strict: bool) (f_op: string) (f_column: string) (f_value: string)
  | QualFilter string string

definition OP_SIGN_REV :: "string \<Rightarrow> string" where
  "OP_SIGN_REV op =
     (if op = ''eq'' then ''='' else if op = ''lt'' then ''>'' else if op = ''le'' then ''>=''
      else if op = ''ne'' then ''!='' else if op = ''gt'' then ''<'' else if op = ''ge'' then ''<='' else [])"

definition in_quotes :: "string \<Rightarrow> string" where
  "in_quotes s = CHR 0x27 # s @ [CHR 0x27]"

definition filter_text :: "hfilter \<Rightarrow> string" where
  "filter_text f =
     (case f of
        ColumnFilter s op col v \<Rightarrow>
          ''SingleColumnValueFilter ('' @ in_quotes ''f'' @ '', '' @ in_quotes col @ '', '' @ op @ '', ''
            @ in_quotes (''binary:'' @ v) @ (if s then '', true, true'' else []) @ '')''
      | QualFilter op v \<Rightarrow> ''QualifierFilter ('' @ op @ '', '' @ in_quotes (''binaryprefix:m_'' @ v) @ '')'')"

definition query_text :: "hfilter list \<Rightarrow> string option" where
  "query_text fs = (if fs = [] then None else Some (join '' AND '' (map filter_text fs)))"

definition or_op :: "string option \<Rightarrow> string \<Rightarrow> string" where
  "or_op op d = (case op of None \<Rightarrow> d | Some o' \<Rightarrow> if o' = [] then d else o')"

definition rts_filters :: "int option \<Rightarrow> string option \<Rightarrow> int option \<Rightarrow> string option \<Rightarrow> (string \<Rightarrow> string \<Rightarrow> hfilter) \<Rightarrow> hfilter list" where
  "rts_filters start start_op end end_op mk =
     (let (rs, re) = get_start_end_rts start end in
      (if rs \<noteq> [] then [mk (OP_SIGN_REV (or_op start_op ''ge'')) rs] else [])
      @ (if re \<noteq> [] then [mk (OP_SIGN_REV (or_op end_op ''lt'')) re] else []))"

definition make_timestamp_query ::
  "(string \<Rightarrow> string \<Rightarrow> (string \<times> string) option) \<Rightarrow> int option \<Rightarrow> string option \<Rightarrow> int option \<Rightarrow> string option \<Rightarrow>
   (string \<times> string) option \<times> hfilter list" where
  "make_timestamp_query func start start_op end end_op =
     (let (rs, re) = get_start_end_rts start end
      in (func rs re, rts_filters start start_op end end_op (\<lambda>op v. ColumnFilter False op ''rts'' v)))"

definition make_query :: "(pyval \<Rightarrow> string) \<Rightarrow> (pyval \<Rightarrow> string) \<Rightarrow> pymap \<Rightarrow> pymap \<Rightarrow> hfilter list" where
  "make_query dump rp metaquery kwargs =
     map (\<lambda>(k, v). if k = ''source'' then ColumnFilter True ''='' (''s_'' @ py_str rp v) (dump (PStr ''1''))
                   else ColumnFilter True ''='' (quote k) (dump v))
       (filter (\<lambda>(k, v). v \<noteq> PNone) (sort_key fst kwargs))
     @ map (\<lambda>(k, v). ColumnFilter True ''='' (''r_'' @ k) (dump v)) metaquery"

definition make_meter_query_for_resource ::
  "int option \<Rightarrow> string option \<Rightarrow> int option \<Rightarrow> string option \<Rightarrow> string option \<Rightarrow> hfilter list \<Rightarrow> hfilter list" where
  "make_meter_query_for_resource start start_op end end_op source query =
     (let with_source = (\<lambda>r. case source of None \<Rightarrow> r | Some s \<Rightarrow> if s = [] then r else r @ '':'' @ quote s);
          mq = rts_filters start start_op end end_op (\<lambda>op v. QualFilter op (with_source v))
      in if mq = [] then query else query @ QualFilter ''='' [] # mq)"

definition get_meter_columns :: "pymap \<Rightarrow> bool \<Rightarrow> (pyval \<Rightarrow> string) \<Rightarrow> pymap \<Rightarrow> string list" where
  "get_meter_columns metaquery need_timestamp rp kwargs =
     [''f:message'', ''f:recorded_at'']
     @ map (\<lambda>(k, v). ''f:'' @ k) (filter (\<lambda>(k, v). v \<noteq> PNone) kwargs)
     @ map (\<lambda>(k, v). ''f:r_'' @ k) (filter (\<lambda>(k, v). v \<noteq> PNone) metaquery)
     @ (let s = dict_get_default kwargs ''source'' PNone in if truthy s then [''f:s_'' @ py_str rp s] else [])
     @ (if need_timestamp then [''f:rts'', ''f:timestamp''] else [])"

section \<open>Tables\<close>

type_synonym cells = "(string, string) pydict"
type_synonym mtable = "(string, (int, cells) pydict) pydict"

text \<open>Every row has versions of its cells, by time.\<close>

definition mt_put :: "string \<Rightarrow> cells \<Rightarrow> int option \<Rightarrow> mtable \<Rightarrow> mtable" where
  "mt_put key data ts t =
     (let ts = (case ts of None \<Rightarrow> 0 | Some i \<Rightarrow> i) in
      case dict_get t key of
        None \<Rightarrow> dict_set key [(ts, data)] t
      | Some vs \<Rightarrow>
          (case dict_get vs ts of
             Some d \<Rightarrow> dict_set key (dict_set ts (dict_update d data) vs) t
           | None \<Rightarrow> dict_set key (dict_set ts data vs) t))"

definition mt_row :: "string \<Rightarrow> string list \<Rightarrow> mtable \<Rightarrow> cells" where
  "mt_row key columns t =
     (case dict_get t key of
        None \<Rightarrow> []
      | Some vs \<Rightarrow>
          (let res = snd (last (sort_key fst vs))
           in if columns = [] then res else filter (\<lambda>(k, v). k \<in> set columns) res))"

definition latest :: "(int, cells) pydict \<Rightarrow> cells" where
  "latest vs = fold (\<lambda>(ts, d) acc. dict_update acc d) (sort_key fst vs) []"

definition compare_text :: "string \<Rightarrow> string \<Rightarrow> string \<Rightarrow> bool" where
  "compare_text op a b =
     (if op = ''='' then a = b else if op = ''<'' then a < b else if op = ''<='' then a \<le> b
      else if op = ''>'' then a > b else if op = ''>='' then a \<ge> b else if op = ''!='' then a \<noteq> b else False)"

definition column_matches :: "string \<Rightarrow> string \<Rightarrow> string \<Rightarrow> cells \<Rightarrow> bool" where
  "column_matches op column value data =
     (case dict_get data column of None \<Rightarrow> False | Some x \<Rightarrow> compare_text op x value)"

definition drop_start :: "string \<Rightarrow> string \<Rightarrow> string" where
  "drop_start p s = (if startswith s p then drop (length p) s else s)"

definition SingleColumnValueFilter :: "string list \<Rightarrow> (string \<times> cells) list \<Rightarrow> (string \<times> cells) list res" where
  "SingleColumnValueFilter args rows =
     bindr (list_index args 2) (\<lambda>op. bindr (list_index args 0) (\<lambda>family. bindr (list_index args 1) (\<lambda>col.
     bindr (list_index args 3) (\<lambda>value.
       Inr (filter (\<lambda>(row, data). column_matches op (family @ '':'' @ col) (drop_start ''binary:'' value) data) rows)))))"

definition ColumnPrefixFilter :: "string list \<Rightarrow> (string \<times> cells) list \<Rightarrow> (string \<times> cells) list res" where
  "ColumnPrefixFilter args rows =
     bindr (list_index args 0) (\<lambda>value.
       Inr (map (\<lambda>(row, data). (row, filter (\<lambda>(k, x). startswith k (''f:'' @ value)) data)) rows))"

text \<open>\<open>re.search(pattern, text).group()\<close>, or nothing where it does not match.\<close>

type_synonym re_search = "string \<Rightarrow> string \<Rightarrow> string option res"

definition RowFilter :: "re_search \<Rightarrow> string list \<Rightarrow> (string \<times> cells) list \<Rightarrow> (string \<times> cells) list res" where
  "RowFilter re args rows =
     bindr (list_index args 0) (\<lambda>op. bindr (list_index args 1) (\<lambda>value.
     bindr (mapr (\<lambda>(row, data). bindr (re (drop_start ''regexstring:'' value) row) (\<lambda>g.
              (case g of
                 None \<Rightarrow> Inr []
               | Some g \<Rightarrow>
                   if op = ''='' then Inr (if g = row then [(row, data)] else []) else Inl NotImplementedError))) rows)
       (\<lambda>rs. Inr (concat rs))))"

text \<open>The in-memory \<open>QualifierFilter\<close> raises for every qualifier that does not match.\<close>

definition qualifier_matches :: "string \<Rightarrow> string \<Rightarrow> string \<Rightarrow> bool" where
  "qualifier_matches op column key =
     ((op = ''='' \<and> startswith key column) \<or> (op = ''>='' \<and> key \<ge> column) \<or> (op = ''<='' \<and> key \<le> column)
      \<or> (op = ''>'' \<and> key > column) \<or> (op = ''<'' \<and> key < column))"

definition QualifierFilter :: "re_search \<Rightarrow> string list \<Rightarrow> (string \<times> cells) list \<Rightarrow> (string \<times> cells) list res" where
  "QualifierFilter re args rows =
     bindr (list_index args 0) (\<lambda>op. bindr (list_index args 1) (\<lambda>value.
       (let value = drop_start ''binaryprefix:'' value; is_regex = startswith value ''regexstring:'';
            value = drop_start ''regexstring:'' value;
            test = (\<lambda>key. if qualifier_matches op (''f:'' @ value) key then Inr True
                    else if is_regex then bindr (re value key) (\<lambda>g. Inr (g \<noteq> None)) else Inr False)
        in bindr (mapr (\<lambda>(row, data). mapr (\<lambda>(k, x).
                bindr (test k) (\<lambda>b. if b then Inr (k, x) else Inl NotImplementedError)) data) rows)
             (\<lambda>ds. Inr (filter (\<lambda>(row, data). data \<noteq> []) (zip (map fst rows) ds))))))"

text \<open>\<open>getattr(self, fname)(fargs, rows)\<close>: other attributes of a table are no filters.\<close>

definition call_filter ::
  "re_search \<Rightarrow> string \<Rightarrow> string list \<Rightarrow> (string \<times> cells) list \<Rightarrow> (string \<times> cells) list res" where
  "call_filter re fname fargs rows =
     (if fname = ''SingleColumnValueFilter'' then SingleColumnValueFilter fargs rows
      else if fname = ''ColumnPrefixFilter'' then ColumnPrefixFilter fargs rows
      else if fname = ''RowFilter'' then RowFilter re fargs rows
      else if fname = ''QualifierFilter'' then QualifierFilter re fargs rows
      else if fname \<in> {''name'', ''families'', ''_rows_with_ts''} then Inl NotImplementedError
      else if fname \<in> {''row'', ''rows'', ''put'', ''delete'', ''_get_latest_dict''} then Inl TypeError
      else Inl (AttributeError fname))"

section \<open>Reading the text of a query\<close>

text \<open>The parts before and after the last occurrence of a character.\<close>

definition rsplit_at :: "char \<Rightarrow> string \<Rightarrow> (string \<times> string) option" where
  "rsplit_at c s =
     (if c \<in> set s
      then Some (rev (tl (dropWhile (\<lambda>x. x \<noteq> c) (rev s))), rev (takeWhile (\<lambda>x. x \<noteq> c) (rev s)))
      else None)"

text \<open>
  The groups of \<open>re.search("(.*)\((.*),?\)", f)\<close>: both are greedy, and a dot matches no line feed,
  so they are in the first line that has a parenthesis and a closing one after it.
\<close>

definition line_groups :: "string \<Rightarrow> (string \<times> string) option" where
  "line_groups s =
     (case rsplit_at (CHR '')'') s of None \<Rightarrow> None | Some (a, b) \<Rightarrow> rsplit_at (CHR ''('') a)"

definition filter_groups :: "string \<Rightarrow> (string \<times> string) option" where
  "filter_groups f =
     (case filter (\<lambda>g. g \<noteq> None) (map line_groups (split_char (CHR 0x0A) f)) of [] \<Rightarrow> None | g # gs \<Rightarrow> g)"

definition unquoted :: "string \<Rightarrow> string" where
  "unquoted s = filter (\<lambda>c. c \<noteq> CHR 0x27) s"

definition parse_filter :: "string \<Rightarrow> (string \<times> string list) res" where
  "parse_filter f =
     (case filter_groups f of
        None \<Rightarrow> Inl (AttributeError ''group'')
      | Some (n, a) \<Rightarrow> Inr (strip n, map (\<lambda>s. unquoted (strip s)) (split_char (CHR '','') a)))"

fun scan_filters :: "re_search \<Rightarrow> string list \<Rightarrow> (string \<times> cells) list \<Rightarrow> (string \<times> cells) list res" where
  "scan_filters re [] rows = Inr rows"
| "scan_filters re (f # fs) rows =
     bindr (parse_filter f) (\<lambda>(fname, fargs). bindr (call_filter re fname fargs rows) (scan_filters re fs))"

definition in_rows :: "string option \<Rightarrow> string option \<Rightarrow> string \<Rightarrow> bool" where
  "in_rows row_start row_stop row =
     ((case row_start of None \<Rightarrow> True | Some s \<Rightarrow> s = [] \<or> s \<le> row)
      \<and> (case row_stop of None \<Rightarrow> True | Some s \<Rightarrow> s = [] \<or> row \<le> s))"

definition mt_scan ::
  "re_search \<Rightarrow> string option \<Rightarrow> string list \<Rightarrow> (string \<times> string) option \<Rightarrow> int option \<Rightarrow> mtable
   \<Rightarrow> (string \<times> cells) list res" where
  "mt_scan re text columns rows limit t =
     (let keys = filter (in_rows (map_option fst rows) (map_option snd rows)) (sort (dict_keys t));
          found = map (\<lambda>k. (k, latest (the (dict_get t k)))) keys;
          kept = (if columns = [] then found
                  else filter (\<lambda>(row, data). list_ex (\<lambda>(k, v). k \<in> set columns) data) found)
      in bindr (case text of
                   None \<Rightarrow> Inr kept
                 | Some f \<Rightarrow> if f = [] then Inr kept else scan_filters re (split_str ''AND'' None f) kept) (\<lambda>rs.
           Inr (case limit of None \<Rightarrow> rs | Some n \<Rightarrow> slice_to n rs)))"

section \<open>Facts\<close>

lemma mt_put_get:
  "dict_get (mt_put key data None t) k
    = (if k = key
       then Some (case dict_get t key of
           None \<Rightarrow> [(0, data)]
         | Some vs \<Rightarrow> dict_set 0 (case dict_get vs 0 of None \<Rightarrow> data | Some d \<Rightarrow> dict_update d data) vs)
       else dict_get t k)"
  by (auto simp: mt_put_def Let_def dict_get_set split: option.split)

lemma mt_put_ok: "dict_ok t \<Longrightarrow> dict_ok (mt_put key data ts t)"
  by (auto simp: mt_put_def Let_def split: option.split)

lemma latest_single: "distinct (dict_keys d) \<Longrightarrow> latest [(n, d)] = d"
  by (simp add: latest_def dict_update_fresh)

primrec is_column :: "hfilter \<Rightarrow> bool" where
  "is_column (ColumnFilter s op col v) = True"
| "is_column (QualFilter op v) = False"

section \<open>A query that reads back\<close>

text \<open>The text of a filter is read as it was written where nothing in it looks like a separator.\<close>

definition plain_part :: "string \<Rightarrow> bool" where
  "plain_part s = (list_all (\<lambda>c. c \<notin> {CHR '','', CHR ''('', CHR '')'', CHR 0x27, CHR 0x0A}) s \<and> \<not> sublist ''AND'' s)"

definition plain_column_filter :: "hfilter \<Rightarrow> bool" where
  "plain_column_filter f =
     (is_column f \<and> f_op f \<in> {''='', ''<'', ''<='', ''>'', ''>='', ''!=''} \<and> plain_part (f_column f) \<and> plain_part (f_value f))"

lemma and_at_blank: "\<not> prefix ''AND'' (x # a) \<Longrightarrow> \<not> prefix ''AND'' (x # a @ '' AND'' @ b)"
  by (cases a; cases "tl a") auto

lemma find_and: "\<not> sublist ''AND'' a \<Longrightarrow> find_sub ''AND'' (a @ '' AND'' @ b) = Some (a @ '' '', b)"
proof (induction a)
  case (Cons x a)
  then have "\<not> prefix ''AND'' (x # a)" "\<not> sublist ''AND'' a" by (auto simp: sublist_Cons_right)
  with Cons.IH and_at_blank [of x a b] show ?case by (simp only: append_Cons find_sub.simps) simp
qed simp

lemma find_sub_None: "\<not> sublist sep s \<Longrightarrow> find_sub sep s = None"
  by (induction s) (auto simp: sublist_Cons_right)

lemma sublist_and_at:
  assumes "c \<notin> {CHR ''A'', CHR ''N'', CHR ''D''}"
  shows "sublist ''AND'' (a @ c # b) \<longleftrightarrow> sublist ''AND'' a \<or> sublist ''AND'' b"
proof (induction a)
  case Nil
  then show ?case using assms by (auto simp: sublist_Cons_right)
next
  case (Cons x a)
  have "prefix ''AND'' (x # a @ c # b) \<longleftrightarrow> prefix ''AND'' (x # a)"
    using assms by (cases a; cases "tl a") auto
  with Cons show ?case by (auto simp: sublist_Cons_right)
qed

lemma rsplit_at_append: "c \<notin> set b \<Longrightarrow> rsplit_at c (a @ c # b) = Some (a, b)"
proof -
  assume "c \<notin> set b"
  then have "takeWhile (\<lambda>x. x \<noteq> c) (rev b @ c # rev a) = rev b" "dropWhile (\<lambda>x. x \<noteq> c) (rev b @ c # rev a) = c # rev a"
    by (auto simp: takeWhile_append dropWhile_append)
  then show ?thesis by (simp add: rsplit_at_def)
qed

lemma strip_quoted: "strip (CHR '' '' # in_quotes s) = in_quotes s" "strip (in_quotes s) = in_quotes s"
  by (simp_all add: strip_def in_quotes_def is_space_def)

lemma unquoted_plain: "CHR 0x27 \<notin> set s \<Longrightarrow> unquoted s = s" "CHR 0x27 \<notin> set s \<Longrightarrow> unquoted (in_quotes s) = s"
  by (auto simp: unquoted_def in_quotes_def filter_id_conv)

lemma plain_part_chars:
  "plain_part s \<Longrightarrow> CHR '','' \<notin> set s \<and> CHR ''('' \<notin> set s \<and> CHR '')'' \<notin> set s \<and> CHR 0x27 \<notin> set s \<and> CHR 0x0A \<notin> set s"
  by (auto simp: plain_part_def list_all_iff)

lemma filter_text_and: "plain_column_filter f \<Longrightarrow> \<not> sublist ''AND'' (filter_text f)"
  by (cases f)
    (auto simp: plain_column_filter_def filter_text_def in_quotes_def plain_part_def sublist_Cons_right sublist_and_at)

definition filter_args :: "hfilter \<Rightarrow> string list" where
  "filter_args f = [''f'', f_column f, f_op f, ''binary:'' @ f_value f] @ (if strict f then [''true'', ''true''] else [])"

definition filter_inner :: "hfilter \<Rightarrow> string" where
  "filter_inner f =
     in_quotes ''f'' @ CHR '','' # (CHR '' '' # in_quotes (f_column f)) @ CHR '','' # (CHR '' '' # f_op f) @ CHR '',''
       # (CHR '' '' # in_quotes (''binary:'' @ f_value f)) @ (if strict f then '', true, true'' else [])"

lemma filter_inner_split:
  assumes "plain_column_filter f"
  shows "map (\<lambda>s. unquoted (strip s)) (split_char (CHR '','') (filter_inner f)) = filter_args f"
proof -
  have col: "CHR '','' \<notin> set (f_column f)" "CHR 0x27 \<notin> set (f_column f)"
    and val: "CHR '','' \<notin> set (f_value f)" "CHR 0x27 \<notin> set (f_value f)"
    using assms plain_part_chars by (auto simp: plain_column_filter_def)
  have op: "CHR '','' \<notin> set (f_op f)" "unquoted (strip (CHR '' '' # f_op f)) = f_op f"
    using assms by (auto simp: plain_column_filter_def strip_def is_space_def unquoted_def)
  have split: "split_char (CHR '','') (filter_inner f)
      = [in_quotes ''f'', CHR '' '' # in_quotes (f_column f), CHR '' '' # f_op f, CHR '' '' # in_quotes (''binary:'' @ f_value f)]
        @ (if strict f then ['' true'', '' true''] else [])"
  proof -
    let ?w = "CHR '' '' # in_quotes (''binary:'' @ f_value f)" and ?tail = "if strict f then '', true, true'' else []"
    have w: "CHR '','' \<notin> set ?w" "CHR '','' \<notin> set (CHR '' '' # in_quotes (f_column f))" "CHR '','' \<notin> set (in_quotes ''f'')"
      "CHR '','' \<notin> set (CHR '' '' # f_op f)"
      using col val op by (simp_all add: in_quotes_def)
    have "split_char (CHR '','') (x @ ?tail) = x # (if strict f then ['' true'', '' true''] else [])"
      if "CHR '','' \<notin> set x" for x
      using split_char_append [OF that, of "'' true, true''"] split_char_single [OF that] by simp
    note last = this [OF w(1)]
    show ?thesis
      unfolding filter_inner_def split_char_append [OF w(3)] split_char_append [OF w(2)] split_char_append [OF w(4)] last
      by simp
  qed
  show ?thesis
    unfolding split using col val op
    by (auto simp: strip_quoted unquoted_plain filter_args_def strip_def [of "'' true''"] is_space_def unquoted_def [of "''true''"])
qed

lemma parse_filter_text:
  assumes "plain_column_filter f" "pre \<in> {[], '' ''}" "post \<in> {[], '' ''}"
  shows "parse_filter (pre @ filter_text f @ post) = Inr (''SingleColumnValueFilter'', filter_args f)"
proof -
  obtain s op col v where f: "f = ColumnFilter s op col v" using assms(1) by (cases f) (auto simp: plain_column_filter_def)
  have whole: "pre @ filter_text f @ post
      = ((pre @ ''SingleColumnValueFilter '') @ CHR ''('' # filter_inner f) @ CHR '')'' # post"
    by (simp add: f filter_text_def filter_inner_def in_quotes_def)
  have inner: "CHR ''('' \<notin> set (filter_inner f)" "CHR 0x0A \<notin> set (filter_inner f)"
    using assms(1) plain_part_chars by (auto simp: plain_column_filter_def filter_inner_def in_quotes_def)
  have "line_groups (pre @ filter_text f @ post) = Some (pre @ ''SingleColumnValueFilter '', filter_inner f)"
    unfolding line_groups_def whole using assms(3) inner(1)
    by (subst rsplit_at_append) (auto simp: rsplit_at_append simp del: append_assoc append_Cons)
  moreover have "split_char (CHR 0x0A) (pre @ filter_text f @ post) = [pre @ filter_text f @ post]"
    unfolding whole using assms(2,3) inner(2) by (intro split_char_single) auto
  ultimately have "filter_groups (pre @ filter_text f @ post) = Some (pre @ ''SingleColumnValueFilter '', filter_inner f)"
    by (simp add: filter_groups_def)
  moreover have "strip (pre @ ''SingleColumnValueFilter '') = ''SingleColumnValueFilter''"
    using assms(2) by (auto simp: strip_def is_space_def)
  ultimately show ?thesis using filter_inner_split [OF assms(1)] by (simp add: parse_filter_def)
qed

abbreviation filter_holds :: "cells \<Rightarrow> hfilter \<Rightarrow> bool" where
  "filter_holds cells flt \<equiv> column_matches (f_op flt) (''f:'' @ f_column flt) (f_value flt) cells"

lemma call_column_filter:
  "call_filter re ''SingleColumnValueFilter'' (filter_args f) rows
    = Inr (filter (\<lambda>(row, data). filter_holds data f) rows)"
  by (simp add: call_filter_def SingleColumnValueFilter_def filter_args_def list_index_def drop_start_def startswith_def)

lemma scan_query_text:
  assumes "fs \<noteq> []" "list_all plain_column_filter fs" "pre \<in> {[], '' ''}"
  shows "scan_filters re (split_str ''AND'' None (pre @ join '' AND '' (map filter_text fs))) rows
    = Inr (filter (\<lambda>(row, data). list_all (filter_holds data) fs) rows)"
  using assms
proof (induction fs arbitrary: pre rows)
  case (Cons f fs)
  have plain: "plain_column_filter f" using Cons.prems(2) by simp
  have no_and: "\<not> sublist ''AND'' (pre @ filter_text f)"
    using filter_text_and [OF plain] Cons.prems(3) sublist_and_at [of "CHR '' ''" "[]" "filter_text f"] by auto
  show ?case
  proof (cases "fs = []")
    case True
    then show ?thesis
      using find_sub_None [OF no_and] parse_filter_text [OF plain Cons.prems(3), of "[]"]
      by (simp add: split_str.simps [of "''AND''"] call_column_filter)
  next
    case False
    have joined: "pre @ join '' AND '' (map filter_text (f # fs))
        = (pre @ filter_text f) @ '' AND'' @ ('' '' @ join '' AND '' (map filter_text fs))"
      using False by (simp add: join_Cons)
    have "scan_filters re (split_str ''AND'' None (pre @ join '' AND '' (map filter_text (f # fs)))) rows
        = scan_filters re ((pre @ filter_text f @ '' '') # split_str ''AND'' None ('' '' @ join '' AND '' (map filter_text fs))) rows"
      unfolding joined by (subst split_str.simps) (simp only: find_and [OF no_and], simp)
    also have "\<dots> = scan_filters re (split_str ''AND'' None ('' '' @ join '' AND '' (map filter_text fs)))
        (filter (\<lambda>(row, data). filter_holds data f) rows)"
      using parse_filter_text [OF plain Cons.prems(3), of "'' ''"] by (simp add: call_column_filter)
    also have "\<dots> = Inr (filter (\<lambda>(row, data). list_all (filter_holds data) fs) (filter (\<lambda>(row, data). filter_holds data f) rows))"
      using Cons.IH [of "'' ''"] False Cons.prems(2) by simp
    finally show ?thesis by (simp add: case_prod_beta conj_commute)
  qed
qed simp

lemma query_text_nonempty: "fs \<noteq> [] \<Longrightarrow> list_all plain_column_filter fs \<Longrightarrow> join '' AND '' (map filter_text fs) \<noteq> []"
  by (cases fs; cases "tl fs"; cases "hd fs") (auto simp: plain_column_filter_def filter_text_def)

lemma query_reads_back:
  "list_all plain_column_filter fs \<Longrightarrow>
   (case query_text fs of
      None \<Rightarrow> Inr rows
    | Some f \<Rightarrow> if f = [] then Inr rows else scan_filters re (split_str ''AND'' None f) rows)
   = Inr (filter (\<lambda>(row, data). list_all (filter_holds data) fs) rows)"
  using scan_query_text [of fs "[]" re rows] query_text_nonempty [of fs]
  by (auto simp: query_text_def case_prod_beta)

text \<open>A value with a comma is cut there, and one with \<open>AND\<close> is no query at all.\<close>

lemma comma_cuts_value:
  "scan_filters re [filter_text (ColumnFilter True ''='' ''user_id'' ''a,b'')] [(''r'', [(''f:user_id'', ''a,b'')])] = Inr []
   \<and> scan_filters re [filter_text (ColumnFilter True ''='' ''user_id'' ''a,b'')] [(''r'', [(''f:user_id'', ''a'')])]
     = Inr [(''r'', [(''f:user_id'', ''a'')])]"
  by code_simp

lemma and_breaks_query:
  "scan_filters re (split_str ''AND'' None (filter_text (ColumnFilter True ''='' ''user_id'' ''BRAND''))) rows
    = Inl (AttributeError ''group'')"
  by code_simp

end
