(* ===== verification/Hbase_Store.thy ===== *)
theory Hbase_Store
  imports Hbase_Table
begin

text \<open>
  The HBase storage driver (\<^verbatim>\<open>ceilometer/storage/impl_hbase.py\<close>, with the serialisation of
  \<^verbatim>\<open>storage/hbase/utils.py\<close>): recording samples, and reading them, the resources, the meters and
  the statistics back. \<open>dump\<close> and \<open>load\<close> are JSON with the extensions of BSON; \<open>rp\<close> is the
  interpreter's \<open>repr\<close>, and \<open>h_search\<close> searches for a regular expression.
\<close>

record henv =
  dump :: "pyval \<Rightarrow> string"
  load :: "string \<Rightarrow> pyval res"
  h_repr :: "pyval \<Rightarrow> string"
  mktime_ms :: "int \<Rightarrow> int"
  h_search :: re_search

section \<open>Serialisation\<close>

definition serialize_item :: "henv \<Rightarrow> string \<times> pyval \<Rightarrow> cells res" where
  "serialize_item env kv =
     (let (k, v) = kv in
      if k = ''source'' then Inr [(utf8_encode (''f:s_'' @ py_str (h_repr env) v), dump env (PStr ''1''))]
      else if k = ''meter'' then
        (case v of
           PDict ms \<Rightarrow> Inr (map (\<lambda>(meter, ts). (utf8_encode (''f:m_'' @ meter), dump env ts)) ms)
         | _ \<Rightarrow> Inl (AttributeError ''items''))
      else if k = ''resource_metadata'' then
        bindr (dict_to_keyval v None) (\<lambda>flat.
          Inr (map (\<lambda>(key, m). (utf8_encode (''f:r_metadata.'' @ key), dump env m)) (dict_update [] flat)
               @ [(''f:resource_metadata'', dump env v)]))
      else Inr [(''f:'' @ quote_safe '':'' k, dump env v)])"

definition serialize_entry :: "henv \<Rightarrow> pymap \<Rightarrow> pymap \<Rightarrow> cells res" where
  "serialize_entry env data kwargs =
     bindr (mapr (serialize_item env) (dict_update data kwargs)) (\<lambda>cs. Inr (dict_update [] (concat cs)))"

text \<open>
  Reading an entry: the simple values by the parts of their names, the meters with their times,
  the flattened metadata. The sources are collected but not returned.
\<close>

record entry =
  e_flat :: "(string list, pyval) pydict"
  e_meters :: "(string list \<times> pyval) list"
  e_metadata :: pymap

definition key_parts :: "string \<Rightarrow> string list res" where
  "key_parts k = mapr h_unquote (split_char CHR '':'' k)"

definition deserialize_cell :: "henv \<Rightarrow> string \<times> string \<Rightarrow> entry \<Rightarrow> entry res" where
  "deserialize_cell env kv e =
     (let (k, v) = kv in
      if startswith k ''f:s_'' then bindr (utf8_decode (drop 4 k)) (\<lambda>s. Inr e)
      else if startswith k ''f:r_metadata.'' then
        bindr (utf8_decode (drop 13 k)) (\<lambda>q. bindr (load env v) (\<lambda>x.
          Inr (e\<lparr>e_metadata := dict_set q x (e_metadata e)\<rparr>)))
      else if startswith k ''f:m_'' then
        bindr (key_parts (drop 4 k)) (\<lambda>m. bindr (load env v) (\<lambda>x. Inr (e\<lparr>e_meters := e_meters e @ [(m, x)]\<rparr>)))
      else
        bindr (key_parts (drop 2 k)) (\<lambda>ks. bindr (load env v) (\<lambda>x. Inr (e\<lparr>e_flat := dict_set ks x (e_flat e)\<rparr>))))"

fun deserialize_cells :: "henv \<Rightarrow> cells \<Rightarrow> entry \<Rightarrow> entry res" where
  "deserialize_cells env [] e = Inr e"
| "deserialize_cells env (c # cs) e = bindr (deserialize_cell env c e) (deserialize_cells env cs)"

definition deserialize_entry :: "henv \<Rightarrow> cells \<Rightarrow> bool \<Rightarrow> ((string list, pyval) pydict \<times> (string list \<times> pyval) list \<times> pyval) res" where
  "deserialize_entry env entry get_raw_meta =
     bindr (deserialize_cells env entry \<lparr>e_flat = [], e_meters = [], e_metadata = []\<rparr>) (\<lambda>e.
       Inr (e_flat e, e_meters e,
            if get_raw_meta then dict_get_default (e_flat e) [''resource_metadata''] (PDict []) else PDict (e_metadata e)))"

section \<open>Recording\<close>

record hstore =
  resource_table :: mtable
  meter_table :: mtable

definition as_time :: "pyval \<Rightarrow> int res" where
  "as_time v = (case v of PDatetime t \<Rightarrow> Inr t | _ \<Rightarrow> Inl TypeError)"

definition resource_entry :: "henv \<Rightarrow> pymap \<Rightarrow> int \<Rightarrow> cells res" where
  "resource_entry env data t =
     bindr (dict_item data ''source'') (\<lambda>source.
     bindr (dict_item data ''counter_name'') (\<lambda>name.
     bindr (dict_item data ''counter_type'') (\<lambda>ty.
     bindr (dict_item data ''counter_unit'') (\<lambda>unit.
     bindr (dict_item data ''resource_id'') (\<lambda>rid.
     bindr (dict_item data ''project_id'') (\<lambda>pid.
     bindr (dict_item data ''user_id'') (\<lambda>uid.
       serialize_entry env []
         [(''source'', source),
          (''meter'', PDict [(prepare_key [PInt (rev_timestamp t True), source, name, ty, unit], PDatetime t)]),
          (''resource_metadata'', dict_get_default data ''resource_metadata'' (PDict [])),
          (''resource_id'', rid), (''project_id'', pid), (''user_id'', uid)])))))))"

definition sample_entry :: "henv \<Rightarrow> pymap \<Rightarrow> int \<Rightarrow> int \<Rightarrow> cells res" where
  "sample_entry env data t now =
     bindr (dict_item data ''source'') (\<lambda>source.
       serialize_entry env data
         [(''source'', source), (''rts'', PInt (rev_timestamp t True)), (''message'', PDict data),
          (''recorded_at'', PDatetime now)])"

definition record_metering_data :: "henv \<Rightarrow> int \<Rightarrow> pymap \<Rightarrow> hstore \<Rightarrow> (hstore, unit) sres" where
  "record_metering_data env now data0 st =
     (let data = dict_del ''monotonic_time'' data0 in
      case bindr (bindr (dict_item data ''timestamp'') as_time) (\<lambda>t.
           bindr (resource_entry env data t) (\<lambda>res.
           bindr (dict_item data ''resource_id'') (\<lambda>rid. Inr (t, res, py_str (h_repr env) rid)))) of
        Inl e \<Rightarrow> (st, Inl e)
      | Inr (t, res, rid) \<Rightarrow>
          (let st1 = st\<lparr>resource_table := mt_put (utf8_encode rid) res (Some (mktime_ms env t)) (resource_table st)\<rparr> in
           case bindr (dict_item data ''counter_name'') (\<lambda>name.
                bindr (dict_item data ''message_id'') (\<lambda>mid.
                bindr (sample_entry env data t now) (\<lambda>rec.
                  Inr (prepare_key [name, PInt (rev_timestamp t True), mid], rec)))) of
             Inl e \<Rightarrow> (st1, Inl e)
           | Inr (row, rec) \<Rightarrow> (st1\<lparr>meter_table := mt_put row rec None (meter_table st1)\<rparr>, Inr ())))"

section \<open>Reading samples\<close>

record sample_filter =
  sf_user :: pyval
  sf_project :: pyval
  sf_start :: "int option"
  sf_start_op :: "string option"
  sf_end :: "int option"
  sf_end_op :: "string option"
  sf_resource :: pyval
  sf_meter :: "string option"
  sf_source :: pyval
  sf_metaquery :: pymap
  sf_message_id :: pyval

definition filter_kwargs :: "sample_filter \<Rightarrow> pymap" where
  "filter_kwargs f =
     [(''user_id'', sf_user f), (''project_id'', sf_project f), (''counter_name'', opt_str (sf_meter f)),
      (''resource_id'', sf_resource f), (''source'', sf_source f), (''message_id'', sf_message_id f)]"

definition RuntimeError :: pyexc where "RuntimeError = OtherError ''RuntimeError''"

definition make_sample_query_from_filter ::
  "henv \<Rightarrow> sample_filter \<Rightarrow> bool \<Rightarrow> (hfilter list \<times> (string \<times> string) option \<times> string list) res" where
  "make_sample_query_from_filter env f require_meter =
     (if require_meter \<and> (sf_meter f = None \<or> sf_meter f = Some []) then Inl RuntimeError
      else
        (let (rows, ts_query) =
               make_timestamp_query (\<lambda>rs re. make_general_rowkey_scan rs re (sf_meter f))
                 (sf_start f) (sf_start_op f) (sf_end f) (sf_end_op f);
             q = make_query (dump env) (h_repr env) (sf_metaquery f) (filter_kwargs f);
             columns = get_meter_columns (sf_metaquery f) (sf_start f \<noteq> None \<or> sf_end f \<noteq> None) (h_repr env) (filter_kwargs f)
         in Inr (q @ ts_query, rows, columns)))"

definition SAMPLE_FIELDS :: "string list" where
  "SAMPLE_FIELDS =
     [''source'', ''counter_name'', ''counter_type'', ''counter_unit'', ''counter_volume'', ''user_id'', ''project_id'',
      ''resource_id'', ''timestamp'', ''resource_metadata'', ''message_id'', ''message_signature'', ''recorded_at'']"

definition sample_of_entry :: "henv \<Rightarrow> cells \<Rightarrow> pymap res" where
  "sample_of_entry env cells =
     bindr (deserialize_entry env cells True) (\<lambda>(flat, ms, md).
     bindr (case dict_get flat [''message''] of None \<Rightarrow> Inl (KeyError ''message'') | Some m \<Rightarrow> Inr m) (\<lambda>message.
     bindr (case message of PDict m \<Rightarrow> Inr m | _ \<Rightarrow> Inl TypeError) (\<lambda>m.
     bindr (bindr (dict_item m ''counter_volume'') py_float) (\<lambda>vol.
     bindr (case dict_get flat [''recorded_at''] of None \<Rightarrow> Inl (KeyError ''recorded_at'') | Some r \<Rightarrow> Inr r) (\<lambda>rec.
       (let m' = dict_set ''recorded_at'' rec (dict_set ''counter_volume'' (PFloat vol) m)
        in if set (dict_keys m') = set SAMPLE_FIELDS then Inr m' else Inl TypeError))))))"

definition find_samples :: "henv \<Rightarrow> sample_filter \<Rightarrow> int option \<Rightarrow> hstore \<Rightarrow> (string \<times> cells) list res" where
  "find_samples env f limit st =
     bindr (make_sample_query_from_filter env f False) (\<lambda>(q, rows, columns).
       mt_scan (h_search env) (query_text q) columns rows limit (meter_table st))"

definition hbase_get_samples :: "henv \<Rightarrow> sample_filter \<Rightarrow> int option \<Rightarrow> hstore \<Rightarrow> pymap list res" where
  "hbase_get_samples env f limit st =
     (if limit = Some 0 then Inr []
      else bindr (find_samples env f limit st) (mapr (\<lambda>(row, cells). sample_of_entry env cells)))"

section \<open>Resources and meters\<close>

record h_resource =
  hr_id :: string
  hr_first :: pyval
  hr_last :: pyval
  hr_project :: pyval
  hr_source :: string
  hr_user :: pyval
  hr_metadata :: pyval

text \<open>\<open>min\<close> and \<open>max\<close> by the time of a meter: the first of the least and of the greatest.\<close>

fun best_by :: "(pyval \<Rightarrow> pyval \<Rightarrow> bool res) \<Rightarrow> pyval \<Rightarrow> pyval list \<Rightarrow> pyval res" where
  "best_by better m [] = Inr m"
| "best_by better m (x # xs) = bindr (better x m) (\<lambda>b. best_by better (if b then x else m) xs)"

definition flat_item :: "(string list, pyval) pydict \<Rightarrow> string \<Rightarrow> pyval res" where
  "flat_item flat k = (case dict_get flat [k] of None \<Rightarrow> Inl (KeyError k) | Some v \<Rightarrow> Inr v)"

definition resource_of_row :: "henv \<Rightarrow> mtable \<Rightarrow> string \<times> cells \<Rightarrow> h_resource res" where
  "resource_of_row env t rc =
     (let (rid, cells) = rc in
      bindr (deserialize_entry env cells True) (\<lambda>(flat, ms, md).
        (case ms of
           [] \<Rightarrow> Inl ValueError
         | m # ms' \<Rightarrow>
             bindr (best_by py_less (snd m) (map snd ms')) (\<lambda>first_ts.
             bindr (best_by (\<lambda>x y. py_less y x) (snd m) (map snd ms')) (\<lambda>last_ts.
             bindr (list_index (fst m) 1) (\<lambda>source.
             bindr (if dict_get flat [''project_id''] = None \<and> dict_get flat [''user_id''] = None
                    then bindr (deserialize_entry env
                           (mt_row rid [''f:project_id'', ''f:user_id'', ''f:resource_metadata''] t) True)
                           (\<lambda>(flat', _, md'). Inr (flat', md'))
                    else Inr (flat, md)) (\<lambda>(flat', md').
             bindr (flat_item flat' ''project_id'') (\<lambda>p.
             bindr (flat_item flat' ''user_id'') (\<lambda>u.
               Inr \<lparr>hr_id = rid, hr_first = first_ts, hr_last = last_ts, hr_project = p, hr_source = source,
                    hr_user = u, hr_metadata = md'\<rparr>)))))))))"

definition hbase_get_resources ::
  "henv \<Rightarrow> pyval \<Rightarrow> pyval \<Rightarrow> pyval \<Rightarrow> string option \<Rightarrow> int option \<Rightarrow> string option \<Rightarrow> int option \<Rightarrow> string option \<Rightarrow>
   pymap \<Rightarrow> int option \<Rightarrow> hstore \<Rightarrow> h_resource list res" where
  "hbase_get_resources env user project resource source start start_op end end_op metaquery limit st =
     (if limit = Some 0 then Inr []
      else
        (let q = make_meter_query_for_resource start start_op end end_op source
                   (make_query (dump env) (h_repr env) metaquery
                     [(''user_id'', user), (''project_id'', project), (''resource_id'', resource), (''source'', opt_str source)])
         in bindr (mt_scan (h_search env) (query_text q) [] None limit (resource_table st)) (mapr (resource_of_row env (resource_table st)))))"

text \<open>
  The meters of the rows, without repetition. What is compared has no source, so of meters that
  differ in the source alone the first is returned.
\<close>

record h_meter =
  hm_name :: string
  hm_type :: string
  hm_unit :: string
  hm_owner :: "(pyval \<times> pyval \<times> pyval) option"
  hm_source :: "string option"

definition meter_of :: "bool \<Rightarrow> (string list, pyval) pydict \<Rightarrow> string list \<Rightarrow> h_meter res" where
  "meter_of unique flat m =
     (case m of
        [rts', source, name, ty, unit] \<Rightarrow>
          (if unique then Inr \<lparr>hm_name = name, hm_type = ty, hm_unit = unit, hm_owner = None, hm_source = None\<rparr>
           else
             bindr (flat_item flat ''resource_id'') (\<lambda>r.
             bindr (flat_item flat ''project_id'') (\<lambda>p.
             bindr (flat_item flat ''user_id'') (\<lambda>u.
               Inr \<lparr>hm_name = name, hm_type = ty, hm_unit = unit, hm_owner = Some (r, p, u),
                    hm_source = (if source = [] then None else Some source)\<rparr>))))
      | _ \<Rightarrow> Inl ValueError)"

definition same_meter :: "h_meter \<Rightarrow> h_meter \<Rightarrow> bool" where
  "same_meter a b = (a\<lparr>hm_source := None\<rparr> = b\<lparr>hm_source := None\<rparr>)"

fun collect_meters ::
  "int option \<Rightarrow> bool \<Rightarrow> ((string list, pyval) pydict \<times> string list) list \<Rightarrow> h_meter list \<Rightarrow> h_meter list res" where
  "collect_meters limit unique [] found = Inr found"
| "collect_meters limit unique ((flat, m) # rest) found =
     (if (case limit of None \<Rightarrow> False | Some n \<Rightarrow> n \<noteq> 0 \<and> int (length found) \<ge> n) then Inr found
      else
        bindr (meter_of unique flat m) (\<lambda>x.
          collect_meters limit unique rest (if list_ex (same_meter x) found then found else found @ [x])))"

definition hbase_get_meters ::
  "henv \<Rightarrow> pyval \<Rightarrow> pyval \<Rightarrow> pyval \<Rightarrow> pyval \<Rightarrow> pymap \<Rightarrow> int option \<Rightarrow> bool \<Rightarrow> hstore \<Rightarrow> h_meter list res" where
  "hbase_get_meters env user project resource source metaquery limit unique st =
     (if limit = Some 0 then Inr []
      else
        (let q = make_query (dump env) (h_repr env) metaquery
                   [(''user_id'', user), (''project_id'', project), (''resource_id'', resource), (''source'', source)]
         in bindr (mt_scan (h_search env) (query_text q) [] None None (resource_table st)) (\<lambda>rows.
            bindr (mapr (\<lambda>(row, cells). deserialize_entry env cells True) rows) (\<lambda>es.
              collect_meters limit unique (concat (map (\<lambda>(flat, ms, md). map (\<lambda>m. (flat, fst m)) ms) es)) []))))"

end
