(* ===== verification/Hbase_Query.thy ===== *)
theory Hbase_Query
  imports Hbase_Store
begin

text \<open>
  Storing and querying together: what has been recorded with the HBase driver is what a query
  by meter, attributes and time finds.
\<close>

section \<open>The cells of a sample\<close>

lemma dict_update_constant:
  assumes "(k, v) \<in> set xs" "\<forall>(k', v') \<in> set xs. k' = k \<longrightarrow> v' = v"
  shows "dict_get (dict_update d xs) k = Some v"
proof -
  have "dict_get (dict_update d xs) k = Some v"
    if "dict_get d k = Some v \<or> (k, v) \<in> set xs" "\<forall>(k', v') \<in> set xs. k' = k \<longrightarrow> v' = v" for d xs
    using that
  proof (induction xs arbitrary: d)
    case (Cons x xs)
    obtain k' v' where x: "x = (k', v')" by (cases x)
    have "dict_get (dict_set k' v' d) k = Some v \<or> (k, v) \<in> set xs"
      using Cons.prems by (auto simp: x dict_get_set)
    with Cons show ?case by (auto simp: dict_update_def x)
  qed (simp add: dict_update_def)
  with assms show ?thesis by blast
qed

definition plain_columns :: "string list" where
  "plain_columns =
     [''counter_name'', ''user_id'', ''project_id'', ''resource_id'', ''message_id'', ''rts'', ''message'']"

lemma plain_column:
  assumes "k \<in> set plain_columns"
  shows "quote_safe '':'' k = k" "quote k = k" "k \<notin> {''source'', ''meter'', ''resource_metadata''}"
    "\<not> prefix ''s_'' k" "\<not> prefix ''m_'' k" "\<not> prefix ''r_metadata.'' k"
proof -
  have "list_all (\<lambda>k. quote_safe '':'' k = k \<and> quote k = k \<and> k \<notin> {''source'', ''meter'', ''resource_metadata''}
      \<and> \<not> prefix ''s_'' k \<and> \<not> prefix ''m_'' k \<and> \<not> prefix ''r_metadata.'' k) plain_columns"
    by code_simp
  with assms show "quote_safe '':'' k = k" "quote k = k" "k \<notin> {''source'', ''meter'', ''resource_metadata''}"
    "\<not> prefix ''s_'' k" "\<not> prefix ''m_'' k" "\<not> prefix ''r_metadata.'' k"
    by (auto simp: list_all_iff)
qed

lemma utf8_encode_append: "utf8_encode (a @ b) = utf8_encode a @ utf8_encode b"
  by (induction a) (auto simp: Let_def)

lemma quote_colon_inj: "quote_safe '':'' a = quote_safe '':'' b \<Longrightarrow> a = b"
  using unquote_quote [of "'':''" a] unquote_quote [of "'':''" b] utf8_roundtrip [of a] utf8_roundtrip [of b] by auto

lemma serialize_item_plain:
  assumes "serialize_item env (k', v') = Inr cs" "(''f:'' @ k, x) \<in> set cs" "k \<in> set plain_columns"
  shows "k' = k \<and> x = dump env v'"
proof -
  have pre: "utf8_encode (''f:s_'' @ y) = ''f:s_'' @ utf8_encode y" "utf8_encode (''f:m_'' @ y) = ''f:m_'' @ utf8_encode y"
    "utf8_encode (''f:r_metadata.'' @ y) = ''f:r_metadata.'' @ utf8_encode y" for y
    by (simp_all add: utf8_encode_append Let_def)
  note k = plain_column [OF assms(3)]
  have "k' \<noteq> ''source''"
    using assms(1,2) k(4) by (auto simp: serialize_item_def pre)
  moreover have "k' \<noteq> ''meter''"
  proof
    assume "k' = ''meter''"
    with assms(1) obtain ms where "cs = map (\<lambda>(meter, ts). (''f:m_'' @ utf8_encode meter, dump env ts)) ms"
      by (cases v') (auto simp: serialize_item_def pre)
    with assms(2) k(5) show False by auto
  qed
  moreover have "k' \<noteq> ''resource_metadata''"
  proof
    assume "k' = ''resource_metadata''"
    with assms(1) obtain flat where "dict_to_keyval v' None = Inr flat"
      by (cases "dict_to_keyval v' None") (simp_all add: serialize_item_def)
    with assms(1) \<open>k' = ''resource_metadata''\<close>
    have "cs = map (\<lambda>(key, m). (''f:r_metadata.'' @ utf8_encode key, dump env m)) (dict_update [] flat)
        @ [(''f:resource_metadata'', dump env v')]"
      by (simp add: serialize_item_def pre)
    with assms(2) have "(\<exists>key. k = ''r_metadata.'' @ utf8_encode key) \<or> k = ''resource_metadata''"
      by (simp only: set_append set_map Un_iff) force
    with k(3,6) show False by (elim disjE exE) (simp_all only: prefixI insert_iff not_True_eq_False, simp_all)
  qed
  ultimately have "''f:'' @ k = ''f:'' @ quote_safe '':'' k'" "x = dump env v'"
    using assms(1,2) by (auto simp: serialize_item_def)
  with k(1) quote_colon_inj [of k k'] show ?thesis by simp
qed

lemma serialize_entry_plain:
  assumes "serialize_entry env data kwargs = Inr cells" "dict_get (dict_update data kwargs) k = Some v"
    "dict_ok (dict_update data kwargs)" "k \<in> set plain_columns"
  shows "dict_get cells (''f:'' @ k) = Some (dump env v)"
proof -
  let ?d = "dict_update data kwargs"
  from assms(1) obtain cs where cs: "mapr (serialize_item env) ?d = Inr cs" and cells: "cells = dict_update [] (concat cs)"
    by (auto simp: serialize_entry_def bindr_Inr_iff)
  have "(k, v) \<in> set ?d" using assms(2) by (rule map_of_SomeD)
  with mapr_Inr_member [OF cs] obtain c where "c \<in> set cs" "serialize_item env (k, v) = Inr c" by blast
  moreover from this have "c = [(''f:'' @ k, dump env v)]"
    using plain_column [OF assms(4)] by (auto simp: serialize_item_def)
  ultimately have "(''f:'' @ k, dump env v) \<in> set (concat cs)" by force
  moreover have "x = dump env v" if "(''f:'' @ k, x) \<in> set (concat cs)" for x
  proof -
    from that obtain c where "c \<in> set cs" and x: "(''f:'' @ k, x) \<in> set c" by auto
    with mapr_Inr_source [OF cs] obtain k' v' where "(k', v') \<in> set ?d" "serialize_item env (k', v') = Inr c" by force
    with serialize_item_plain [OF _ x assms(4)] have "(k, v') \<in> set ?d" "x = dump env v'" by auto
    with assms(2,3) show ?thesis by (auto simp: dict_ok_def)
  qed
  then have "\<forall>(k', v') \<in> set (concat cs). k' = ''f:'' @ k \<longrightarrow> v' = dump env v" by blast
  ultimately show ?thesis unfolding cells by (rule dict_update_constant)
qed

section \<open>What is stored\<close>

text \<open>
  A sample that can be recorded, with its name, time and message id. Users, projects and
  resources are text or \<open>None\<close>.
\<close>

definition is_text :: "pyval \<Rightarrow> bool" where
  "is_text v = (v = PNone \<or> is_str v)"

definition sample_data :: "pymap \<Rightarrow> string \<Rightarrow> int \<Rightarrow> string \<Rightarrow> bool" where
  "sample_data d name t mid =
     (dict_ok d \<and> dict_get d ''counter_name'' = Some (PStr name) \<and> dict_get d ''timestamp'' = Some (PDatetime t)
      \<and> dict_get d ''message_id'' = Some (PStr mid) \<and> datetime_range t
      \<and> (\<forall>k \<in> {''user_id'', ''project_id'', ''resource_id''}. \<exists>v. dict_get d k = Some v \<and> is_text v))"

definition stored_as :: "henv \<Rightarrow> int \<times> pymap \<Rightarrow> string \<times> cells \<Rightarrow> bool" where
  "stored_as env nd rc =
     (\<exists>name t mid. sample_data (snd nd) name t mid \<and> fst rc = meter_row name (rev_timestamp t True) mid
       \<and> sample_entry env (dict_del ''monotonic_time'' (snd nd)) t (fst nd) = Inr (snd rc))"

fun record_all :: "henv \<Rightarrow> (int \<times> pymap) list \<Rightarrow> hstore \<Rightarrow> (hstore, unit) sres" where
  "record_all env [] st = (st, Inr ())"
| "record_all env ((now, d) # rest) st =
     (case record_metering_data env now d st of
        (st', Inl e) \<Rightarrow> (st', Inl e)
      | (st', Inr u) \<Rightarrow> record_all env rest st')"

lemma record_one:
  assumes "record_metering_data env now d st = (st', Inr u)" "sample_data d name t mid"
  shows "\<exists>cells. stored_as env (now, d) (meter_row name (rev_timestamp t True) mid, cells)
    \<and> meter_table st' = mt_put (meter_row name (rev_timestamp t True) mid) cells None (meter_table st)"
proof -
  let ?data = "dict_del ''monotonic_time'' d"
  have items: "dict_item ?data ''timestamp'' = Inr (PDatetime t)" "dict_item ?data ''counter_name'' = Inr (PStr name)"
    "dict_item ?data ''message_id'' = Inr (PStr mid)"
    using assms(2) by (simp_all add: sample_data_def dict_item_Inr_iff delete_conv')
  from assms(1) obtain cells where "sample_entry env ?data t now = Inr cells"
    and "meter_table st' = mt_put (meter_row name (rev_timestamp t True) mid) cells None (meter_table st)"
    by (auto simp: record_metering_data_def Let_def items as_time_def meter_row_def split: sum.splits)
      (auto simp: bindr_Inr_iff)
  with assms(2) show ?thesis by (auto simp: stored_as_def)
qed

definition row_of :: "pymap \<Rightarrow> string" where
  "row_of d =
     (case (dict_get d ''counter_name'', dict_get d ''timestamp'', dict_get d ''message_id'') of
        (Some n, Some (PDatetime t), Some m) \<Rightarrow> prepare_key [n, PInt (rev_timestamp t True), m]
      | _ \<Rightarrow> [])"

lemma stored_row: "stored_as env nd (row, cells) \<Longrightarrow> row = row_of (snd nd)"
  by (auto simp: stored_as_def sample_data_def row_of_def meter_row_def)

lemma stored_cells:
  assumes "stored_as env nd (row, cells)" "stored_as env nd (row, cells')"
  shows "cells' = cells"
proof -
  obtain t where t: "dict_get (snd nd) ''timestamp'' = Some (PDatetime t)"
      "sample_entry env (dict_del ''monotonic_time'' (snd nd)) t (fst nd) = Inr cells"
    using assms(1) unfolding stored_as_def sample_data_def snd_conv by blast
  obtain t' where t': "dict_get (snd nd) ''timestamp'' = Some (PDatetime t')"
      "sample_entry env (dict_del ''monotonic_time'' (snd nd)) t' (fst nd) = Inr cells'"
    using assms(2) unfolding stored_as_def sample_data_def snd_conv by blast
  from t(1) t'(1) have "t' = t" by simp
  with t(2) t'(2) show ?thesis by simp
qed

definition holds :: "henv \<Rightarrow> mtable \<Rightarrow> (int \<times> pymap) list \<Rightarrow> bool" where
  "holds env t nds =
     (dict_ok t \<and> (\<forall>row vs. dict_get t row = Some vs
        \<longleftrightarrow> (\<exists>nd \<in> set nds. \<exists>cells. stored_as env nd (row, cells) \<and> vs = [(0, cells)])))"

lemma holds_put:
  assumes "holds env t nds" "stored_as env nd (row, cells)" "row_of (snd nd) \<notin> row_of ` snd ` set nds"
  shows "holds env (mt_put row cells None t) (nds @ [nd])"
proof -
  have row: "row = row_of (snd nd)" using assms(2) by (rule stored_row)
  have fresh: "\<not> stored_as env nd' (row, cells')" if "nd' \<in> set nds" for nd' cells'
    using that assms(3) row stored_row by blast
  then have "dict_get t row = None"
    using assms(1) unfolding holds_def by (metis option.exhaust)
  then have get: "dict_get (mt_put row cells None t) r = (if r = row then Some [(0, cells)] else dict_get t r)" for r
    by (simp add: mt_put_get)
  have "dict_get (mt_put row cells None t) r = Some vs
      \<longleftrightarrow> (\<exists>nd' \<in> set (nds @ [nd]). \<exists>c. stored_as env nd' (r, c) \<and> vs = [(0, c)])" for r vs
  proof (cases "r = row")
    case True
    have "(\<exists>nd' \<in> set (nds @ [nd]). \<exists>c. stored_as env nd' (row, c) \<and> vs = [(0, c)])
        \<longleftrightarrow> (\<exists>c. stored_as env nd (row, c) \<and> vs = [(0, c)])"
      using fresh by simp
    also have "\<dots> \<longleftrightarrow> vs = [(0, cells)]"
      using assms(2) stored_cells [OF assms(2)] by blast
    finally have "(\<exists>nd' \<in> set (nds @ [nd]). \<exists>c. stored_as env nd' (row, c) \<and> vs = [(0, c)]) \<longleftrightarrow> vs = [(0, cells)]" .
    with True show ?thesis by (auto simp: get)
  next
    case False
    then have "\<not> stored_as env nd (r, c)" for c using row stored_row by blast
    with False assms(1) show ?thesis by (simp add: get holds_def)
  qed
  with assms(1) show ?thesis by (simp add: holds_def mt_put_ok)
qed

lemma record_all_holds:
  assumes "record_all env nds st = (st', Inr u)" "\<forall>nd \<in> set nds. \<exists>name t mid. sample_data (snd nd) name t mid"
    "holds env (meter_table st) before" "distinct (map (row_of \<circ> snd) (before @ nds))"
  shows "holds env (meter_table st') (before @ nds)"
  using assms
proof (induction nds arbitrary: st before)
  case (Cons nd nds)
  obtain now d where nd: "nd = (now, d)" by (cases nd)
  with Cons.prems(1) obtain st1 where one: "record_metering_data env now d st = (st1, Inr ())"
    and rest: "record_all env nds st1 = (st', Inr u)" by (auto split: prod.splits sum.splits)
  obtain name t mid where data: "sample_data d name t mid" using Cons.prems(2) nd by auto
  from record_one [OF one data] obtain cells
    where cells: "stored_as env nd (meter_row name (rev_timestamp t True) mid, cells)"
      and put: "meter_table st1 = mt_put (meter_row name (rev_timestamp t True) mid) cells None (meter_table st)"
    by (auto simp: nd)
  have "row_of (snd nd) \<notin> row_of ` snd ` set before" using Cons.prems(4) by (auto simp: image_iff)
  then have "holds env (meter_table st1) (before @ [nd])"
    unfolding put by (rule holds_put [OF Cons.prems(3) cells])
  with Cons.IH [OF rest, of "before @ [nd]"] Cons.prems show ?case by simp
qed simp

section \<open>What a query finds\<close>

text \<open>
  The sample at the start is wanted for \<open>ge\<close> when the query has no meter. With a meter it is
  not found: the stop row of the scan is the key up to the start, and every key of a sample at
  the start is longer (\<open>row_range_exact\<close>).
\<close>

definition wanted :: "sample_filter \<Rightarrow> pymap \<Rightarrow> int \<Rightarrow> bool" where
  "wanted f d t =
     ((\<forall>(k, v) \<in> set (filter_kwargs f). v \<noteq> PNone \<longrightarrow> dict_get d k = Some v)
      \<and> (\<forall>s. sf_start f = Some s \<longrightarrow>
            (if or_op (sf_start_op f) ''ge'' = ''ge'' \<and> sf_meter f = None then s \<le> t else s < t))
      \<and> (\<forall>e. sf_end f = Some e \<longrightarrow> (if or_op (sf_end_op f) ''lt'' = ''le'' then t \<le> e else t < e)))"

text \<open>JSON writes integers in decimal and different texts differently.\<close>

definition json_dump :: "henv \<Rightarrow> bool" where
  "json_dump env = ((\<forall>n. dump env (PInt n) = string_of_int n) \<and> (\<forall>v w. is_text v \<and> is_text w \<and> dump env v = dump env w \<longrightarrow> v = w))"

lemma stored_columns:
  assumes "stored_as env nd (row, cells)" "sample_data (snd nd) name t mid"
  shows "dict_get cells ''f:rts'' = Some (dump env (PInt (rev_timestamp t True)))"
    "\<exists>x. dict_get cells ''f:message'' = Some x"
    "k \<in> {''counter_name'', ''user_id'', ''project_id'', ''resource_id'', ''message_id''} \<Longrightarrow>
     \<exists>v. is_text v \<and> dict_get (snd nd) k = Some v \<and> dict_get cells (''f:'' @ k) = Some (dump env v)"
proof -
  let ?d = "dict_del ''monotonic_time'' (snd nd)"
  from assms obtain source where entry: "serialize_entry env ?d
      [(''source'', source), (''rts'', PInt (rev_timestamp t True)), (''message'', PDict ?d), (''recorded_at'', PDatetime (fst nd))]
      = Inr cells" (is "serialize_entry env ?d ?kw = Inr cells")
    by (auto simp: stored_as_def sample_data_def sample_entry_def bindr_Inr_iff)
  have ok: "dict_ok (dict_update ?d ?kw)" and kw: "dict_ok ?kw"
    using assms(2) by (auto simp: sample_data_def dict_ok_def intro!: dict_ok_update [unfolded dict_ok_def] distinct_delete)
  note cell = serialize_entry_plain [OF entry _ ok]
  show "dict_get cells ''f:rts'' = Some (dump env (PInt (rev_timestamp t True)))"
    using cell [of "''rts''" "PInt (rev_timestamp t True)"] by (simp add: dict_update_get [OF kw] plain_columns_def)
  show "\<exists>x. dict_get cells ''f:message'' = Some x"
    using cell [of "''message''" "PDict ?d"] by (simp add: dict_update_get [OF kw] plain_columns_def)
  assume k: "k \<in> {''counter_name'', ''user_id'', ''project_id'', ''resource_id'', ''message_id''}"
  with assms(2) obtain v where v: "dict_get (snd nd) k = Some v" "is_text v"
    by (fastforce simp: sample_data_def is_text_def)
  have "dict_get (dict_update ?d ?kw) k = Some v"
    using k v by (auto simp: dict_update_get [OF kw] delete_conv')
  moreover have "k \<in> set plain_columns" using k by (auto simp: plain_columns_def)
  ultimately show "\<exists>v. is_text v \<and> dict_get (snd nd) k = Some v \<and> dict_get cells (''f:'' @ k) = Some (dump env v)"
    using cell [of k v] v by blast
qed

lemma stored_cells_ok: "stored_as env nd (row, cells) \<Longrightarrow> distinct (dict_keys cells)"
proof -
  assume "stored_as env nd (row, cells)"
  then obtain cs where "cells = dict_update [] cs"
    by (auto simp: stored_as_def sample_entry_def serialize_entry_def bindr_Inr_iff)
  then show ?thesis using dict_ok_update [of "[]" cs] by (simp add: dict_ok_def)
qed

text \<open>
  A filter that a query by plain attributes, with or without a meter, and time consists of. What
  is sent for an attribute has none of the characters that the table separates filters and
  arguments at.
\<close>

definition plain_filter :: "henv \<Rightarrow> sample_filter \<Rightarrow> bool" where
  "plain_filter env f =
     (sf_source f = PNone \<and> sf_metaquery f = []
      \<and> list_all is_text [sf_user f, sf_project f, sf_resource f, sf_message_id f]
      \<and> list_all (\<lambda>(k, v). v = PNone \<or> plain_part (dump env v)) (filter_kwargs f)
      \<and> (\<forall>s. sf_start f = Some s \<longrightarrow> datetime_range s) \<and> (\<forall>e. sf_end f = Some e \<longrightarrow> datetime_range e)
      \<and> or_op (sf_start_op f) ''ge'' \<in> {''ge'', ''gt''} \<and> or_op (sf_end_op f) ''lt'' \<in> {''lt'', ''le''})"

lemma ball_map_filter: "(\<forall>y \<in> set (map g (filter P xs)). Q y) \<longleftrightarrow> (\<forall>x \<in> set xs. P x \<longrightarrow> Q (g x))"
  by auto

lemma attribute_filters:
  assumes "json_dump env" "stored_as env nd (row, cells)" "sample_data (snd nd) name t mid"
    "sf_source f = PNone" "plain_filter env f"
  shows "(\<forall>flt \<in> set (make_query (dump env) (h_repr env) [] (filter_kwargs f)). filter_holds cells flt)
    \<longleftrightarrow> (\<forall>(k, v) \<in> set (filter_kwargs f). v \<noteq> PNone \<longrightarrow> dict_get (snd nd) k = Some v)"
proof -
  have one: "filter_holds cells (ColumnFilter True ''='' (quote k) (dump env v)) \<longleftrightarrow> dict_get (snd nd) k = Some v"
    if k: "k \<in> {''counter_name'', ''user_id'', ''project_id'', ''resource_id'', ''message_id''}" and v: "is_text v" for k v
  proof -
    obtain w where "is_text w" "dict_get (snd nd) k = Some w" "dict_get cells (''f:'' @ k) = Some (dump env w)"
      using stored_columns(3) [OF assms(2,3) k] by blast
    moreover have "quote k = k" using k by (intro plain_column(2)) (auto simp: plain_columns_def)
    ultimately show ?thesis
      using assms(1) v by (auto simp: column_matches_def compare_text_def json_dump_def)
  qed
  have keys: "k = ''source'' \<and> v = PNone \<or> k \<in> {''counter_name'', ''user_id'', ''project_id'', ''resource_id'', ''message_id''} \<and> k \<noteq> ''source'' \<and> is_text v"
    if "(k, v) \<in> set (filter_kwargs f)" for k v
  proof -
    have "is_text (sf_user f)" "is_text (sf_project f)" "is_text (sf_resource f)" "is_text (sf_message_id f)"
      "is_text (opt_str (sf_meter f))"
      using assms(5) by (simp_all add: plain_filter_def opt_str_def is_text_def split: option.split)
    with that assms(4) show ?thesis by (auto simp: filter_kwargs_def)
  qed
  have query: "make_query (dump env) (h_repr env) [] (filter_kwargs f)
      = map (\<lambda>(k, v). ColumnFilter True ''='' (quote k) (dump env v))
          (filter (\<lambda>(k, v). v \<noteq> PNone) (sort_key fst (filter_kwargs f)))"
    using keys by (auto simp: make_query_def)
  have "(\<forall>flt \<in> set (make_query (dump env) (h_repr env) [] (filter_kwargs f)). filter_holds cells flt)
      \<longleftrightarrow> (\<forall>(k, v) \<in> set (filter_kwargs f). v \<noteq> PNone \<longrightarrow>
            filter_holds cells (ColumnFilter True ''='' (quote k) (dump env v)))"
    by (simp only: query ball_map_filter set_sort split_beta' fst_conv snd_conv)
  also have "\<dots> \<longleftrightarrow> (\<forall>(k, v) \<in> set (filter_kwargs f). v \<noteq> PNone \<longrightarrow> dict_get (snd nd) k = Some v)"
  proof (rule ball_cong [OF refl])
    fix x
    assume "x \<in> set (filter_kwargs f)"
    then have "(fst x, snd x) \<in> set (filter_kwargs f)" by simp
    from keys [OF this] have "snd x \<noteq> PNone \<Longrightarrow>
        filter_holds cells (ColumnFilter True ''='' (quote (fst x)) (dump env (snd x))) \<longleftrightarrow> dict_get (snd nd) (fst x) = Some (snd x)"
      by (elim disjE conjE) (simp, rule one)
    then show "(case x of (k, v) \<Rightarrow> v \<noteq> PNone \<longrightarrow> filter_holds cells (ColumnFilter True ''='' (quote k) (dump env v)))
        = (case x of (k, v) \<Rightarrow> v \<noteq> PNone \<longrightarrow> dict_get (snd nd) k = Some v)"
      unfolding split_beta' by blast
  qed
  finally show ?thesis .
qed

lemma time_filters:
  assumes "json_dump env" "stored_as env nd (row, cells)" "sample_data (snd nd) name t mid" "plain_filter env f"
    "make_timestamp_query func (sf_start f) (sf_start_op f) (sf_end f) (sf_end_op f) = (rows, ts)"
  shows "(\<forall>flt \<in> set ts. filter_holds cells flt)
    \<longleftrightarrow> (\<forall>s. sf_start f = Some s \<longrightarrow> (if or_op (sf_start_op f) ''ge'' = ''ge'' then s \<le> t else s < t))
      \<and> (\<forall>e. sf_end f = Some e \<longrightarrow> (if or_op (sf_end_op f) ''lt'' = ''le'' then t \<le> e else t < e))"
proof -
  have t: "datetime_range t" using assms(3) by (simp add: sample_data_def)
  have cell: "dict_get cells ''f:rts'' = Some (rts t)"
    using stored_columns(1) [OF assms(2,3)] assms(1) by (simp add: rts_def json_dump_def)
  have test: "column_matches op ''f:rts'' v cells \<longleftrightarrow> compare_text op (rts t) v" for op v
    by (simp add: column_matches_def cell)
  have start: "compare_text (OP_SIGN_REV op) (rts t) (rts s) \<longleftrightarrow> (if op = ''ge'' then s \<le> t else s < t)"
    if "sf_start f = Some s" "op \<in> {''ge'', ''gt''}" for s op
  proof -
    have s: "datetime_range s" using assms(4) that(1) by (simp add: plain_filter_def)
    show ?thesis
      using that(2) rts_order [OF t s] rts_order [OF s t] by (auto simp: OP_SIGN_REV_def compare_text_def le_less)
  qed
  have "end": "compare_text (OP_SIGN_REV op) (rts t) (rts e) \<longleftrightarrow> (if op = ''le'' then t \<le> e else t < e)"
    if "sf_end f = Some e" "op \<in> {''lt'', ''le''}" for e op
  proof -
    have e: "datetime_range e" using assms(4) that(1) by (simp add: plain_filter_def)
    show ?thesis
      using that(2) rts_order [OF e t] by (auto simp: OP_SIGN_REV_def compare_text_def le_less)
  qed
  have nonempty: "rts x \<noteq> []" if "datetime_range x" for x using rts_order(1) [OF that that] by auto
  have ts: "ts = rts_filters (sf_start f) (sf_start_op f) (sf_end f) (sf_end_op f) (\<lambda>op v. ColumnFilter False op ''rts'' v)"
    using assms(5) by (simp add: make_timestamp_query_def case_prod_beta)
  have ranges: "\<And>s. sf_start f = Some s \<Longrightarrow> rts s \<noteq> []" "\<And>e. sf_end f = Some e \<Longrightarrow> rts e \<noteq> []"
    using assms(4) nonempty by (auto simp: plain_filter_def)
  have "(\<forall>flt \<in> set ts. filter_holds cells flt)
      \<longleftrightarrow> (\<forall>s. sf_start f = Some s \<longrightarrow> compare_text (OP_SIGN_REV (or_op (sf_start_op f) ''ge'')) (rts t) (rts s))
        \<and> (\<forall>e. sf_end f = Some e \<longrightarrow> compare_text (OP_SIGN_REV (or_op (sf_end_op f) ''lt'')) (rts t) (rts e))"
    unfolding ts using ranges
    by (auto simp: rts_filters_def get_start_end_rts_def Let_def rts_def [symmetric] test split: option.splits)
  moreover have ops: "or_op (sf_start_op f) ''ge'' \<in> {''ge'', ''gt''}" "or_op (sf_end_op f) ''lt'' \<in> {''lt'', ''le''}"
    using assms(4) by (simp_all add: plain_filter_def)
  ultimately show ?thesis by (simp only: start [OF _ ops(1)] "end" [OF _ ops(2)] cong: imp_cong)
qed

text \<open>The text of such a query reads back.\<close>

lemma rts_plain: "datetime_range t \<Longrightarrow> plain_part (rts t)"
proof -
  assume t: "datetime_range t"
  have digits: "list_all (\<lambda>c. 48 \<le> (of_char c :: nat) \<and> (of_char c :: nat) < 58) (digits_of_nat n)" for n
  proof (induction n rule: digits_of_nat.induct)
    case (1 n)
    then show ?case by (cases "n < 10") (simp_all add: digits_of_nat.simps [of n] of_char_of)
  qed
  have rts: "list_all (\<lambda>c. 48 \<le> (of_char c :: nat) \<and> (of_char c :: nat) < 58) (rts t)"
    using t digits [of "nat (rev_timestamp t True)"]
    by (simp add: rts_def string_of_int_def rev_timestamp_def datetime_range_def)
  then have chars: "c \<notin> set (rts t)" if "c \<in> {CHR '','', CHR ''('', CHR '')'', CHR 0x27, CHR 0x0A, CHR ''A''}" for c
    using that by (auto simp: list_all_iff)
  have "CHR ''A'' \<in> set s" if "sublist ''AND'' s" for s
    using that by (auto simp: sublist_def)
  then have "\<not> sublist ''AND'' (rts t)" using chars by blast
  moreover have "list_all (\<lambda>c. c \<notin> {CHR '','', CHR ''('', CHR '')'', CHR 0x27, CHR 0x0A}) (rts t)"
    unfolding list_all_iff using chars by blast
  ultimately show ?thesis unfolding plain_part_def by blast
qed

lemma query_plain:
  assumes "plain_filter env f"
    "make_timestamp_query func (sf_start f) (sf_start_op f) (sf_end f) (sf_end_op f) = (rows, ts)"
  shows "list_all plain_column_filter (make_query (dump env) (h_repr env) [] (filter_kwargs f) @ ts)"
proof -
  have keys: "list_all (\<lambda>k. plain_part (quote k)) [''user_id'', ''project_id'', ''counter_name'', ''resource_id'', ''message_id'', ''rts'']"
    by code_simp
  have "plain_column_filter (if k = ''source'' then ColumnFilter True ''='' (''s_'' @ py_str (h_repr env) v) (dump env (PStr ''1''))
      else ColumnFilter True ''='' (quote k) (dump env v))"
    if "(k, v) \<in> set (filter_kwargs f)" "v \<noteq> PNone" for k v
  proof -
    have "k \<in> {''user_id'', ''project_id'', ''counter_name'', ''resource_id'', ''message_id''}" "plain_part (dump env v)"
      using assms(1) that by (auto simp: plain_filter_def filter_kwargs_def)
    with keys show ?thesis by (auto simp: plain_column_filter_def)
  qed
  then have "list_all plain_column_filter (make_query (dump env) (h_repr env) [] (filter_kwargs f))"
    by (auto simp: make_query_def list_all_iff)
  moreover have "ts = rts_filters (sf_start f) (sf_start_op f) (sf_end f) (sf_end_op f) (\<lambda>op v. ColumnFilter False op ''rts'' v)"
    using assms(2) by (simp add: make_timestamp_query_def case_prod_beta)
  moreover have "plain_column_filter (ColumnFilter False (OP_SIGN_REV op) ''rts'' (rts x))"
    if "op \<in> {''ge'', ''gt'', ''lt'', ''le''}" "datetime_range x" for op x
    using that rts_plain [OF that(2)] by (auto simp: plain_column_filter_def OP_SIGN_REV_def plain_part_def sublist_Cons_right)
  ultimately show ?thesis
    using assms(1)
    by (auto simp: plain_filter_def rts_filters_def get_start_end_rts_def Let_def rts_def [symmetric] split: option.splits)
qed

lemma scan_member:
  assumes "holds env t nds" "columns \<noteq> []" "list_all plain_column_filter fs"
  shows "\<exists>found. mt_scan re (query_text fs) columns rows None t = Inr found \<and> sorted (map fst found) \<and> distinct (map fst found)
    \<and> (\<forall>row cells. (row, cells) \<in> set found \<longleftrightarrow> (\<exists>nd \<in> set nds. stored_as env nd (row, cells)
       \<and> in_rows (map_option fst rows) (map_option snd rows) row
       \<and> list_ex (\<lambda>(k, v). k \<in> set columns) cells \<and> (\<forall>f \<in> set fs. filter_holds cells f)))"
proof -
  let ?keys = "filter (in_rows (map_option fst rows) (map_option snd rows)) (sort (dict_keys t))"
  let ?all = "map (\<lambda>k. (k, latest (the (dict_get t k)))) ?keys"
  let ?found = "filter (\<lambda>(row, data). list_all (filter_holds data) fs) (filter (\<lambda>(row, data). list_ex (\<lambda>(k, v). k \<in> set columns) data) ?all)"
  have ok: "dict_ok t" using assms(1) by (simp add: holds_def)
  have fsts: "map fst ?all = ?keys" by (simp add: comp_def)
  have keys: "sorted ?keys" "distinct ?keys" using ok by (simp_all add: sorted_wrt_filter dict_ok_def)
  have "sorted (map fst ?all)" "distinct (map fst ?all)" using keys by (simp_all only: fsts)
  then have sub: "sorted (map fst (filter P ?all))" "distinct (map fst (filter P ?all))" for P
    by (simp_all only: sorted_filter distinct_map_filter)
  have scan: "mt_scan re (query_text fs) columns rows None t = Inr ?found"
    using assms(2) query_reads_back [OF assms(3)] by (simp add: mt_scan_def Let_def)
  moreover have "sorted (map fst ?found)" "distinct (map fst ?found)" using sub by (simp_all only: filter_filter)
  moreover have "(row, cells) \<in> set ?found \<longleftrightarrow> (\<exists>nd \<in> set nds. stored_as env nd (row, cells)
       \<and> in_rows (map_option fst rows) (map_option snd rows) row
       \<and> list_ex (\<lambda>(k, v). k \<in> set columns) cells \<and> (\<forall>f \<in> set fs. filter_holds cells f))" for row cells
  proof -
    have "row \<in> set (dict_keys t) \<and> cells = latest (the (dict_get t row)) \<longleftrightarrow> (\<exists>nd \<in> set nds. stored_as env nd (row, cells))"
    proof
      assume row: "row \<in> set (dict_keys t) \<and> cells = latest (the (dict_get t row))"
      then obtain vs where vs: "dict_get t row = Some vs" by (metis dict_get_None_iff not_None_eq)
      with assms(1) obtain nd c where nd: "nd \<in> set nds" "stored_as env nd (row, c)" and c: "vs = [(0, c)]"
        unfolding holds_def by blast
      then have "cells = c" using row vs latest_single [OF stored_cells_ok [OF nd(2)]] by simp
      with nd show "\<exists>nd \<in> set nds. stored_as env nd (row, cells)" by blast
    next
      assume "\<exists>nd \<in> set nds. stored_as env nd (row, cells)"
      then obtain nd where nd: "nd \<in> set nds" "stored_as env nd (row, cells)" by blast
      with assms(1) have "dict_get t row = Some [(0, cells)]" unfolding holds_def by blast
      then show "row \<in> set (dict_keys t) \<and> cells = latest (the (dict_get t row))"
        using latest_single [OF stored_cells_ok [OF nd(2)]] by (metis dict_get_None_iff option.distinct(1) option.sel)
    qed
    moreover have "(row, cells) \<in> set ?found \<longleftrightarrow> (row \<in> set (dict_keys t) \<and> cells = latest (the (dict_get t row)))
        \<and> in_rows (map_option fst rows) (map_option snd rows) row
        \<and> list_ex (\<lambda>(k, v). k \<in> set columns) cells \<and> (\<forall>f \<in> set fs. filter_holds cells f)"
      by (auto simp: list_all_iff)
    ultimately show ?thesis by blast
  qed
  ultimately show ?thesis by blast
qed

text \<open>The rows of a scan: with a meter its rows in the range of time, without one all rows.\<close>

lemma rows_of_query:
  assumes "plain_filter env f" "datetime_range t" "get_start_end_rts (sf_start f) (sf_end f) = (rs, re)"
  shows "in_rows (map_option fst (make_general_rowkey_scan rs re (sf_meter f)))
      (map_option snd (make_general_rowkey_scan rs re (sf_meter f))) (meter_row name (rev_timestamp t True) mid)
    \<longleftrightarrow> (\<forall>m. sf_meter f = Some m \<longrightarrow> name = m \<and> (\<forall>s. sf_start f = Some s \<longrightarrow> s < t) \<and> (\<forall>e. sf_end f = Some e \<longrightarrow> t \<le> e))"
proof (cases "sf_meter f")
  case None
  then show ?thesis by (simp add: make_general_rowkey_scan_def in_rows_def)
next
  case (Some m)
  obtain sr er where rows: "make_general_rowkey_scan rs re (Some m) = Some (sr, er)"
    by (auto simp: make_general_rowkey_scan_def Let_def)
  then have "in_rows (Some sr) (Some er) row \<longleftrightarrow> sr \<le> row \<and> row \<le> er" for row
    by (auto simp: in_rows_def make_general_rowkey_scan_def prepare_key_def Let_def)
  with rows Some show ?thesis
    using row_range_exact [OF assms(2) _ _ assms(3) rows] assms(1) by (simp add: plain_filter_def)
qed

lemma scanned_row_wanted:
  assumes json: "json_dump env" and plain: "plain_filter env f"
    and rts: "get_start_end_rts (sf_start f) (sf_end f) = (rs, re)"
    and q: "make_timestamp_query func (sf_start f) (sf_start_op f) (sf_end f) (sf_end_op f) = (rows', ts)"
    and rows: "rows = make_general_rowkey_scan rs re (sf_meter f)"
    and fs_def: "fs = make_query (dump env) (h_repr env) [] (filter_kwargs f) @ ts" and message: "''f:message'' \<in> set columns"
    and stored: "stored_as env nd (row, cells)" and data: "sample_data (snd nd) name t mid"
  shows "(in_rows (map_option fst rows) (map_option snd rows) row \<and> list_ex (\<lambda>(k, v). k \<in> set columns) cells
      \<and> (\<forall>f \<in> set fs. filter_holds cells f))
    \<longleftrightarrow> wanted f (snd nd) t"
proof -
  have source: "sf_source f = PNone" using plain by (auto simp: plain_filter_def)
  have row: "row = meter_row name (rev_timestamp t True) mid"
    using stored_row [OF stored] data by (simp add: row_of_def sample_data_def meter_row_def)
  have "datetime_range t" using data by (simp add: sample_data_def)
  note within = rows_of_query [OF plain this rts, of name mid, folded rows row]
  have col: "list_ex (\<lambda>(k, v). k \<in> set columns) cells"
    using stored_columns(2) [OF stored data] message by (auto simp: list_ex_iff dest!: map_of_SomeD)
  have attrs: "(\<forall>flt \<in> set fs. filter_holds cells flt)
      \<longleftrightarrow> (\<forall>(k, v) \<in> set (filter_kwargs f). v \<noteq> PNone \<longrightarrow> dict_get (snd nd) k = Some v) \<and> (\<forall>flt \<in> set ts. filter_holds cells flt)"
    using attribute_filters [OF json stored data source plain] by (auto simp: fs_def)
  have name: "name = m" if "\<forall>(k, v) \<in> set (filter_kwargs f). v \<noteq> PNone \<longrightarrow> dict_get (snd nd) k = Some v" "sf_meter f = Some m" for m
    using that data by (simp add: filter_kwargs_def opt_str_def sample_data_def)
  show ?thesis
  proof (cases "sf_meter f")
    case None
    with within col attrs show ?thesis
      unfolding wanted_def time_filters [OF json stored data plain q] by simp
  next
    case (Some m)
    define A S E S' E' where
      "A = (\<forall>(k, v) \<in> set (filter_kwargs f). v \<noteq> PNone \<longrightarrow> dict_get (snd nd) k = Some v)"
      and "S = (\<forall>s. sf_start f = Some s \<longrightarrow> s < t)" and "E = (\<forall>e. sf_end f = Some e \<longrightarrow> t \<le> e)"
      and "S' = (\<forall>s. sf_start f = Some s \<longrightarrow> (if or_op (sf_start_op f) ''ge'' = ''ge'' then s \<le> t else s < t))"
      and "E' = (\<forall>e. sf_end f = Some e \<longrightarrow> (if or_op (sf_end_op f) ''lt'' = ''le'' then t \<le> e else t < e))"
    have "in_rows (map_option fst rows) (map_option snd rows) row \<longleftrightarrow> name = m \<and> S \<and> E"
      unfolding within by (simp add: Some S_def E_def)
    moreover have "(\<forall>flt \<in> set fs. filter_holds cells flt) \<longleftrightarrow> A \<and> S' \<and> E'"
      using attrs time_filters [OF json stored data plain q] by (simp only: A_def S'_def E'_def)
    moreover have "wanted f (snd nd) t \<longleftrightarrow> A \<and> S \<and> E'"
      by (simp add: wanted_def Some A_def S_def E'_def)
    moreover have "S \<Longrightarrow> S'" by (auto simp: S_def S'_def)
    moreover have "E' \<Longrightarrow> E" by (auto simp: E_def E'_def split: if_splits)
    moreover have "A \<Longrightarrow> name = m" using name Some by (simp only: A_def)
    ultimately show ?thesis using col by blast
  qed
qed

text \<open>
  C19: What has been recorded is what is found. After recording samples with different row keys
  into an empty store, a query by any of the plain attributes, with or without a meter, and any
  bounds of time finds exactly the recorded samples with that meter and these attributes whose
  time is within the bounds, once each and in the order of their rows, newest first within a
  meter. The end is included for \<open>le\<close>. The start is included for \<open>ge\<close>, which is the default, only
  in a query without a meter: with a meter the sample at the start itself is never found, since
  the range of rows of the scan ends before it. The attributes of the query are texts without
  the characters and the word that separate the filters and arguments of the text that is sent,
  from which the in-memory table reads the query.
\<close>

theorem recorded_samples_found:
  assumes "json_dump env" "record_all env nds \<lparr>resource_table = [], meter_table = []\<rparr> = (st, Inr u)"
    "\<forall>nd \<in> set nds. \<exists>name t mid. sample_data (snd nd) name t mid" "distinct (map (row_of \<circ> snd) nds)"
    "plain_filter env f"
  shows "\<exists>found. find_samples env f None st = Inr found \<and> sorted (map fst found) \<and> distinct (map fst found)
    \<and> (\<forall>row cells. (row, cells) \<in> set found \<longleftrightarrow>
         (\<exists>nd \<in> set nds. \<exists>name t mid. stored_as env nd (row, cells) \<and> sample_data (snd nd) name t mid
            \<and> wanted f (snd nd) t))"
proof -
  have mq: "sf_metaquery f = []" using assms(5) by (auto simp: plain_filter_def)
  have holds: "holds env (meter_table st) nds"
    using record_all_holds [OF assms(2,3), of "[]"] assms(4) by (simp add: holds_def)
  obtain rs re where rts: "get_start_end_rts (sf_start f) (sf_end f) = (rs, re)" by fastforce
  define rows where "rows = make_general_rowkey_scan rs re (sf_meter f)"
  obtain ts where q: "make_timestamp_query (\<lambda>rs re. make_general_rowkey_scan rs re (sf_meter f))
      (sf_start f) (sf_start_op f) (sf_end f) (sf_end_op f) = (rows, ts)"
    by (auto simp: make_timestamp_query_def rts rows_def)
  define columns where "columns = get_meter_columns [] (sf_start f \<noteq> None \<or> sf_end f \<noteq> None) (h_repr env) (filter_kwargs f)"
  define fs where "fs = make_query (dump env) (h_repr env) [] (filter_kwargs f) @ ts"
  have find: "find_samples env f None st = mt_scan (h_search env) (query_text fs) columns rows None (meter_table st)"
    using q by (simp add: find_samples_def make_sample_query_from_filter_def fs_def columns_def mq)
  have message: "''f:message'' \<in> set columns" by (simp add: columns_def get_meter_columns_def)
  then have "columns \<noteq> []" by auto
  let ?in = "\<lambda>row cells. in_rows (map_option fst rows) (map_option snd rows) row
      \<and> list_ex (\<lambda>(k, v). k \<in> set columns) cells \<and> (\<forall>f \<in> set fs. filter_holds cells f)"
  let ?is = "\<lambda>nd row cells. \<exists>name t mid. stored_as env nd (row, cells) \<and> sample_data (snd nd) name t mid \<and> wanted f (snd nd) t"
  obtain found where found: "mt_scan (h_search env) (query_text fs) columns rows None (meter_table st) = Inr found"
      "sorted (map fst found)" "distinct (map fst found)"
    and member: "\<forall>row cells. (row, cells) \<in> set found \<longleftrightarrow> (\<exists>nd \<in> set nds. stored_as env nd (row, cells) \<and> ?in row cells)"
    using scan_member [OF holds \<open>columns \<noteq> []\<close> query_plain [OF assms(5) q, folded fs_def]] by blast
  have "stored_as env nd (row, cells) \<and> ?in row cells \<longleftrightarrow> ?is nd row cells" if nd: "nd \<in> set nds" for nd row cells
  proof -
    have "?in row cells \<longleftrightarrow> wanted f (snd nd) t"
      if "stored_as env nd (row, cells)" "sample_data (snd nd) name t mid" for name t mid
      by (rule scanned_row_wanted [OF assms(1,5) rts q rows_def fs_def message that])
    moreover obtain name t mid where "sample_data (snd nd) name t mid" using assms(3) nd by blast
    ultimately show ?thesis by meson
  qed
  then have "(row, cells) \<in> set found \<longleftrightarrow> (\<exists>nd \<in> set nds. ?is nd row cells)" for row cells
    unfolding member [rule_format] by (intro bex_cong refl) simp
  with find found show ?thesis by auto
qed

section \<open>Witness\<close>

definition demo_dump :: "pyval \<Rightarrow> string" where
  "demo_dump v = (case v of PInt n \<Rightarrow> string_of_int n | PStr s \<Rightarrow> CHR 0x22 # s | _ \<Rightarrow> ''null'')"

definition demo_henv :: henv where
  "demo_henv = \<lparr>dump = demo_dump, load = (\<lambda>s. Inr PNone), h_repr = (\<lambda>v. []), mktime_ms = id, h_search = (\<lambda>p s. Inr None)\<rparr>"

definition demo_message :: "int \<Rightarrow> string \<Rightarrow> pymap" where
  "demo_message t mid =
     [(''source'', PStr ''openstack''), (''counter_name'', PStr ''cpu''), (''counter_type'', PStr ''gauge''),
      (''counter_unit'', PStr ''%''), (''counter_volume'', PInt 5), (''user_id'', PNone), (''project_id'', PStr ''p''),
      (''resource_id'', PStr ''vm''), (''timestamp'', PDatetime t), (''message_id'', PStr mid)]"

definition demo_query :: "string option \<Rightarrow> sample_filter" where
  "demo_query meter = \<lparr>sf_user = PNone, sf_project = PStr ''p'', sf_start = Some 5, sf_start_op = None, sf_end = Some 20,
     sf_end_op = None, sf_resource = PNone, sf_meter = meter, sf_source = PNone, sf_metaquery = [],
     sf_message_id = PNone\<rparr>"

lemma demo_dump_json: "json_dump demo_henv"
  by (auto simp: json_dump_def demo_henv_def demo_dump_def is_text_def split: pyval.splits)

lemma demo_message_ok: "datetime_range t \<Longrightarrow> sample_data (demo_message t mid) ''cpu'' t mid"
  by (simp add: sample_data_def demo_message_def dict_ok_def is_text_def)

lemma dict_update_members: "set (dict_update d e) \<subseteq> set d \<union> set e"
proof (induction e arbitrary: d)
  case (Cons kv e)
  then show ?case by (cases kv) (fastforce simp: dict_update_def dest: dict_set_memberD)
qed (simp add: dict_update_def)

lemma serialize_ok:
  assumes "\<forall>(k, v) \<in> set data \<union> set kw. (k = ''meter'' \<longrightarrow> is_dict v)
    \<and> (k = ''resource_metadata'' \<longrightarrow> is_ok (dict_to_keyval v None))"
  shows "\<exists>cells. serialize_entry env data kw = Inr cells"
proof -
  have "is_ok (serialize_item env (k, v))" if "(k, v) \<in> set data \<union> set kw" for k v
  proof -
    from assms that have "(k = ''meter'' \<longrightarrow> is_dict v) \<and> (k = ''resource_metadata'' \<longrightarrow> is_ok (dict_to_keyval v None))"
      by blast
    then show ?thesis
      by (cases v) (auto simp: serialize_item_def is_ok_iff)
  qed
  then have "\<exists>c. serialize_item env x = Inr c" if "x \<in> set data \<union> set kw" for x
    using that by (cases x) (simp add: is_ok_iff)
  then have "is_ok (mapr (serialize_item env) xs)" if "set xs \<subseteq> set data \<union> set kw" for xs
    using that
  proof (induction xs)
    case (Cons x xs)
    then obtain c where "serialize_item env x = Inr c" by (metis list.set_intros(1) subsetD)
    with Cons show ?case by (auto simp: is_ok_iff)
  qed simp
  from this [OF dict_update_members] show ?thesis by (auto simp: serialize_entry_def is_ok_iff)
qed

lemma demo_recorded: "\<exists>st'. record_metering_data demo_henv 0 (demo_message t mid) st = (st', Inr ())"
proof -
  let ?d = "demo_message t mid"
  have del: "dict_del ''monotonic_time'' ?d = ?d" by (simp add: demo_message_def)
  have items: "dict_item ?d ''source'' = Inr (PStr ''openstack'')" "dict_item ?d ''counter_name'' = Inr (PStr ''cpu'')"
    "dict_item ?d ''counter_type'' = Inr (PStr ''gauge'')" "dict_item ?d ''counter_unit'' = Inr (PStr ''%'')"
    "dict_item ?d ''user_id'' = Inr PNone" "dict_item ?d ''project_id'' = Inr (PStr ''p'')"
    "dict_item ?d ''resource_id'' = Inr (PStr ''vm'')" "dict_item ?d ''timestamp'' = Inr (PDatetime t)"
    "dict_item ?d ''message_id'' = Inr (PStr mid)" "dict_get_default ?d ''resource_metadata'' (PDict []) = PDict []"
    by (simp_all add: demo_message_def dict_item_def dict_get_default_def)
  have flat: "is_ok (dict_to_keyval (PDict []) None)" by simp
  have "\<exists>c. resource_entry demo_henv ?d t = Inr c"
    unfolding resource_entry_def items bindr_simps using flat by (intro serialize_ok) simp
  moreover have "\<exists>c. sample_entry demo_henv ?d t 0 = Inr c"
    unfolding sample_entry_def items bindr_simps by (intro serialize_ok) (simp add: demo_message_def)
  ultimately obtain c1 c2 where "resource_entry demo_henv ?d t = Inr c1" "sample_entry demo_henv ?d t 0 = Inr c2" by blast
  then show ?thesis by (simp add: record_metering_data_def Let_def del items as_time_def)
qed

lemma demo_query_plain: "meter \<in> {None, Some ''cpu''} \<Longrightarrow> plain_filter demo_henv (demo_query meter)"
  by (auto simp: plain_filter_def demo_query_def datetime_range_def or_op_def is_text_def filter_kwargs_def opt_str_def
      demo_henv_def demo_dump_def plain_part_def sublist_Cons_right)

lemma demo_wanted: "wanted (demo_query meter) (demo_message t mid) t
    \<longleftrightarrow> (case meter of None \<Rightarrow> 5 \<le> t | Some m \<Rightarrow> m = ''cpu'' \<and> 5 < t) \<and> t < 20"
  by (auto simp: wanted_def demo_query_def demo_message_def filter_kwargs_def opt_str_def or_op_def split: option.split)

lemma demo_found:
  assumes "datetime_range t"
  shows "(\<exists>name t' mid'. S \<and> sample_data (demo_message t mid) name t' mid' \<and> wanted q (demo_message t mid) t')
    \<longleftrightarrow> S \<and> wanted q (demo_message t mid) t"
proof -
  have "t' = t" if "sample_data (demo_message t mid) name t' mid'" for name t' mid'
    using that by (simp add: sample_data_def demo_message_def)
  with demo_message_ok [OF assms] show ?thesis by metis
qed

lemma distinct_single: "distinct xs \<Longrightarrow> set xs = {x} \<Longrightarrow> xs = [x]"
  by (cases xs; cases "tl xs") auto

theorem recorded_samples_found_witness:
  "\<exists>st found all. record_all demo_henv [(0, demo_message 5 ''a''), (0, demo_message 10 ''b'')]
        \<lparr>resource_table = [], meter_table = []\<rparr> = (st, Inr ())
     \<and> find_samples demo_henv (demo_query (Some ''cpu'')) None st = Inr found
     \<and> map fst found = [meter_row ''cpu'' (rev_timestamp 10 True) ''b'']
     \<and> find_samples demo_henv (demo_query None) None st = Inr all
     \<and> meter_row ''cpu'' (rev_timestamp 5 True) ''a'' \<in> fst ` set all"
proof -
  let ?nds = "[(0, demo_message 5 ''a''), (0, demo_message 10 ''b'')]"
  let ?row = "\<lambda>t mid. meter_row ''cpu'' (rev_timestamp t True) mid"
  have range: "datetime_range 5" "datetime_range 10" "datetime_range 20" by (simp_all add: datetime_range_def)
  obtain st1 where st1: "record_metering_data demo_henv 0 (demo_message 5 ''a'') \<lparr>resource_table = [], meter_table = []\<rparr> = (st1, Inr ())"
    using demo_recorded by blast
  obtain st where st: "record_metering_data demo_henv 0 (demo_message 10 ''b'') st1 = (st, Inr ())"
    using demo_recorded by blast
  from st1 st have all: "record_all demo_henv ?nds \<lparr>resource_table = [], meter_table = []\<rparr> = (st, Inr ())" by simp
  have data: "\<forall>nd \<in> set ?nds. \<exists>name t mid. sample_data (snd nd) name t mid"
    using demo_message_ok [OF range(1)] demo_message_ok [OF range(2)] by (simp only: list.set snd_conv ball_simps) blast
  have rows: "row_of (demo_message t mid) = ?row t mid" for t mid
    by (simp add: row_of_def demo_message_def meter_row_def)
  have "rts 5 \<noteq> rts 10" using rts_order(3) [OF range(1,2)] by simp
  then have dist: "distinct (map (row_of \<circ> snd) ?nds)"
    using rts_order(1) [OF range(1,1)] rts_order(1) [OF range(2,2)] by (simp add: rows meter_row_eq range)
  obtain c1 where c1: "stored_as demo_henv (0, demo_message 5 ''a'') (?row 5 ''a'', c1)"
    using record_one [OF st1 demo_message_ok [OF range(1)]] by blast
  obtain c2 where c2: "stored_as demo_henv (0, demo_message 10 ''b'') (?row 10 ''b'', c2)"
    using record_one [OF st demo_message_ok [OF range(2)]] by blast
  have query: "\<exists>found. find_samples demo_henv (demo_query meter) None st = Inr found \<and> distinct (map fst found)
      \<and> (\<forall>row cells. (row, cells) \<in> set found \<longleftrightarrow>
          stored_as demo_henv (0, demo_message 5 ''a'') (row, cells) \<and> meter = None
          \<or> stored_as demo_henv (0, demo_message 10 ''b'') (row, cells))" if "meter \<in> {None, Some ''cpu''}" for meter
  proof -
    have "(\<exists>nd \<in> set ?nds. \<exists>name t mid. stored_as demo_henv nd (row, cells) \<and> sample_data (snd nd) name t mid
        \<and> wanted (demo_query meter) (snd nd) t)
      \<longleftrightarrow> stored_as demo_henv (0, demo_message 5 ''a'') (row, cells) \<and> wanted (demo_query meter) (demo_message 5 ''a'') 5
          \<or> stored_as demo_henv (0, demo_message 10 ''b'') (row, cells) \<and> wanted (demo_query meter) (demo_message 10 ''b'') 10"
      for row cells
      by (simp only: list.set bex_simps snd_conv demo_found [OF range(1)] demo_found [OF range(2)] simp_thms)
    moreover have "wanted (demo_query meter) (demo_message 5 ''a'') 5 \<longleftrightarrow> meter = None"
      "wanted (demo_query meter) (demo_message 10 ''b'') 10"
      using that by (auto simp: demo_wanted)
    ultimately show ?thesis
      using recorded_samples_found [OF demo_dump_json all data dist demo_query_plain [OF that]] by simp blast
  qed
  obtain found where found: "find_samples demo_henv (demo_query (Some ''cpu'')) None st = Inr found" "distinct (map fst found)"
    and member: "\<forall>row cells. (row, cells) \<in> set found \<longleftrightarrow> stored_as demo_henv (0, demo_message 10 ''b'') (row, cells)"
    using query [of "Some ''cpu''"] by auto
  obtain every where every: "find_samples demo_henv (demo_query None) None st = Inr every"
    "(?row 5 ''a'', c1) \<in> set every"
    using query [of None] c1 by auto
  have "fst ` set found = {?row 10 ''b''}"
  proof
    show "fst ` set found \<subseteq> {?row 10 ''b''}"
      using member stored_row [of demo_henv "(0, demo_message 10 ''b'')"] by (auto simp: rows)
    show "{?row 10 ''b''} \<subseteq> fst ` set found" using member c2 by force
  qed
  with found(2) have "map fst found = [?row 10 ''b'']"
    by (intro distinct_single) simp_all
  moreover have "?row 5 ''a'' \<in> fst ` set every" using every(2) by force
  ultimately show ?thesis using all found(1) every(1) by (intro exI conjI)
qed

end
