(* ===== verification/Hbase_Statistics.thy ===== *)
theory Hbase_Statistics
  imports Hbase_Store
begin

text \<open>
  The statistics of the HBase driver (\<open>get_meter_statistics\<close> of
  \<^verbatim>\<open>ceilometer/storage/impl_hbase.py\<close>), which are computed in the driver: the samples of a query,
  oldest first, fall into periods, and every period keeps its count, extremes, sum, average and
  duration. Volumes are rational numbers, times are microseconds.
\<close>

record point =
  pt_time :: int
  pt_volume :: rat
  pt_unit :: pyval

record statistics =
  st_unit :: pyval
  st_count :: nat
  st_min :: rat
  st_max :: rat
  st_avg :: rat
  st_sum :: rat
  st_period :: int
  st_period_start :: "int option"
  st_period_end :: "int option"
  st_duration :: "rat option"
  st_duration_start :: "int option"
  st_duration_end :: "int option"

definition or_else :: "rat \<Rightarrow> rat \<Rightarrow> rat" where
  "or_else a b = (if a = 0 then b else a)"

text \<open>\<open>timeutils.delta_seconds(a, b)\<close>\<close>

definition delta_seconds :: "int \<Rightarrow> int \<Rightarrow> rat" where
  "delta_seconds a b = of_int (b - a) / 1000000"

text \<open>A minimum or a sum of zero counts as absent; the maximum starts at zero.\<close>

definition update_meter_stats :: "statistics \<Rightarrow> point \<Rightarrow> statistics" where
  "update_meter_stats stat m =
     (let vol = pt_volume m; ts = pt_time m;
          s = vol + or_else (st_sum stat) 0;
          c = st_count stat + 1;
          ds = (case st_duration_start stat of None \<Rightarrow> ts | Some d \<Rightarrow> min ts d);
          de = (case st_duration_end stat of None \<Rightarrow> ts | Some d \<Rightarrow> max ts d)
      in stat\<lparr>st_unit := pt_unit m,
              st_min := min vol (or_else (st_min stat) vol),
              st_max := max vol (st_max stat),
              st_sum := s, st_count := c, st_avg := s / of_nat c,
              st_duration_start := Some ds, st_duration_end := Some de,
              st_duration := Some (delta_seconds ds de)\<rparr>)"

definition new_statistics :: "int \<Rightarrow> int option \<Rightarrow> int option \<Rightarrow> statistics" where
  "new_statistics period ps pe =
     \<lparr>st_unit = PStr [], st_count = 0, st_min = 0, st_max = 0, st_avg = 0, st_sum = 0, st_period = period,
      st_period_start = ps, st_period_end = pe, st_duration = None, st_duration_start = None,
      st_duration_end = None\<rparr>"

text \<open>\<open>int(x)\<close> of a float: towards zero.\<close>

definition trunc :: "rat \<Rightarrow> int" where
  "trunc x = (if 0 \<le> x then \<lfloor>x\<rfloor> else \<lceil>x\<rceil>)"

definition SECOND :: int where "SECOND = 1000000"

definition period_of :: "int \<Rightarrow> int \<Rightarrow> int \<Rightarrow> int" where
  "period_of start period ts = start + trunc (delta_seconds start ts / of_int period) * period * SECOND"

text \<open>
  One step of the loop: the period the sample falls in (with a period of zero the whole query is
  one), a new entry unless it is the period of the last one, and the update.
\<close>

definition stats_step :: "int \<Rightarrow> int option \<Rightarrow> int option \<Rightarrow> point \<Rightarrow> statistics list \<Rightarrow> statistics list" where
  "stats_step period start_time end_time m results =
     (let (ps, pe) =
            (if period = 0 then (start_time, end_time)
             else (let p = period_of (case start_time of None \<Rightarrow> 0 | Some s \<Rightarrow> s) period (pt_time m)
                   in (Some p, Some (p + period * SECOND))));
          rs = (if results = [] \<or> st_period_start (last results) \<noteq> ps
                then results @ [new_statistics period ps pe] else results)
      in butlast rs @ [update_meter_stats (last rs) m])"

definition stats_loop :: "int \<Rightarrow> int option \<Rightarrow> int option \<Rightarrow> point list \<Rightarrow> statistics list \<Rightarrow> statistics list" where
  "stats_loop period start_time end_time ms results = fold (stats_step period start_time end_time) ms results"

definition point_of_entry :: "henv \<Rightarrow> cells \<Rightarrow> point res" where
  "point_of_entry env cells =
     bindr (deserialize_entry env cells True) (\<lambda>(flat, ms, md).
     bindr (flat_item flat ''counter_volume'') (\<lambda>vol.
     bindr (bindr (flat_item flat ''timestamp'') as_time) (\<lambda>ts.
     bindr (flat_item flat ''counter_unit'') (\<lambda>unit.
       (case as_num vol of Some (Fin x) \<Rightarrow> Inr \<lparr>pt_time = ts, pt_volume = x, pt_unit = unit\<rparr> | _ \<Rightarrow> Inl TypeError)))))"

text \<open>
  \<open>get_meter_statistics\<close>: the scan gives the newest sample first. Without a start the oldest
  sample is the start, without an end the newest is the end.
\<close>

definition statistics_of :: "int option \<Rightarrow> int option \<Rightarrow> int option \<Rightarrow> point list \<Rightarrow> statistics list" where
  "statistics_of start end period ms =
     (let start_time = (case start of Some s \<Rightarrow> Some s | None \<Rightarrow> if ms = [] then None else Some (pt_time (last ms)));
          end_time = (case end of Some e \<Rightarrow> Some e | None \<Rightarrow> if ms = [] then None else Some (pt_time (hd ms)));
          p = (case period of None \<Rightarrow> 0 | Some p \<Rightarrow> p)
      in stats_loop p start_time end_time (rev ms) [])"

definition hbase_get_meter_statistics ::
  "henv \<Rightarrow> sample_filter \<Rightarrow> int option \<Rightarrow> string list \<Rightarrow> string list \<Rightarrow> hstore \<Rightarrow> statistics list res" where
  "hbase_get_meter_statistics env f period groupby aggregate st =
     (if groupby \<noteq> [] \<or> aggregate \<noteq> [] then Inl NotImplementedError
      else
        bindr (make_sample_query_from_filter env f True) (\<lambda>(q, rows, columns).
        bindr (mt_scan (h_search env) (query_text q) (columns @ [''f:timestamp'', ''f:counter_volume'', ''f:counter_unit'']) rows None (meter_table st))
          (\<lambda>found. bindr (mapr (\<lambda>(row, cells). point_of_entry env cells) found) (\<lambda>ms.
            Inr (statistics_of (sf_start f) (sf_end f) period ms)))))"

section \<open>One period\<close>

text \<open>The reference: what the statistics of a list of samples are.\<close>

definition summary :: "int \<Rightarrow> int option \<Rightarrow> int option \<Rightarrow> point list \<Rightarrow> statistics" where
  "summary period ps pe ms =
     (let vols = map pt_volume ms; times = map pt_time ms in
      \<lparr>st_unit = pt_unit (last ms), st_count = length ms, st_min = Min (set vols), st_max = Max (set vols),
       st_avg = sum_list vols / of_nat (length ms), st_sum = sum_list vols, st_period = period,
       st_period_start = ps, st_period_end = pe,
       st_duration = Some (delta_seconds (Min (set times)) (Max (set times))),
       st_duration_start = Some (Min (set times)), st_duration_end = Some (Max (set times))\<rparr>)"

lemma sum_list_positive: "ms \<noteq> [] \<Longrightarrow> \<forall>x \<in> set ms. 0 < x \<Longrightarrow> 0 < sum_list ms" for ms :: "rat list"
  by (induction ms) (auto intro: add_pos_nonneg add_pos_pos sum_list_nonneg order.strict_implies_order)

lemma summary_single:
  "0 < pt_volume m \<Longrightarrow> update_meter_stats (new_statistics period ps pe) m = summary period ps pe [m]"
  by (simp add: update_meter_stats_def new_statistics_def summary_def or_else_def Let_def)

lemma summary_snoc:
  assumes "ms \<noteq> []" "\<forall>m \<in> set ms. 0 < pt_volume m" "0 < pt_volume m"
  shows "update_meter_stats (summary period ps pe ms) m = summary period ps pe (ms @ [m])"
proof -
  let ?vols = "pt_volume ` set ms" and ?times = "pt_time ` set ms"
  have fin: "finite ?vols" "?vols \<noteq> {}" "finite ?times" "?times \<noteq> {}" using assms(1) by auto
  have pos: "Min ?vols \<noteq> 0" "sum_list (map pt_volume ms) \<noteq> 0"
    using fin assms sum_list_positive [of "map pt_volume ms"] by (metis Min_in imageE less_irrefl, force)
  have "Min (insert (pt_volume m) ?vols) = min (pt_volume m) (Min ?vols)"
    "Max (insert (pt_volume m) ?vols) = max (pt_volume m) (Max ?vols)"
    "Min (insert (pt_time m) ?times) = min (pt_time m) (Min ?times)"
    "Max (insert (pt_time m) ?times) = max (pt_time m) (Max ?times)"
    using fin by simp_all
  then show ?thesis
    using pos by (simp add: update_meter_stats_def summary_def or_else_def Let_def add.commute)
qed

text \<open>What goes wrong with volumes that are not positive.\<close>

lemma zero_minimum_lost:
  "st_min (last (statistics_of None None None
     [\<lparr>pt_time = 2, pt_volume = 5, pt_unit = PNone\<rparr>, \<lparr>pt_time = 1, pt_volume = 0, pt_unit = PNone\<rparr>])) = 5"
  by (simp add: statistics_of_def stats_loop_def stats_step_def update_meter_stats_def new_statistics_def or_else_def Let_def)

lemma negative_maximum_lost:
  "st_max (last (statistics_of None None None [\<lparr>pt_time = 1, pt_volume = - 5, pt_unit = PNone\<rparr>])) = 0"
  by (simp add: statistics_of_def stats_loop_def stats_step_def update_meter_stats_def new_statistics_def or_else_def Let_def)

section \<open>All periods\<close>

definition period_key :: "int \<Rightarrow> int option \<Rightarrow> point \<Rightarrow> int option" where
  "period_key period start_time m =
     (if period = 0 then start_time
      else Some (period_of (case start_time of None \<Rightarrow> 0 | Some s \<Rightarrow> s) period (pt_time m)))"

definition period_end :: "int \<Rightarrow> int option \<Rightarrow> int option \<Rightarrow> int option" where
  "period_end period end_time k = (if period = 0 then end_time else map_option (\<lambda>p. p + period * SECOND) k)"

lemma stats_step_eq:
  "stats_step period st en m results =
     (let k = period_key period st m;
          rs = (if results = [] \<or> st_period_start (last results) \<noteq> k
                then results @ [new_statistics period k (period_end period en k)] else results)
      in butlast rs @ [update_meter_stats (last rs) m])"
  by (simp add: stats_step_def period_key_def period_end_def Let_def)

lemma remdups_adj_snoc:
  "remdups_adj (xs @ [x]) = (if xs \<noteq> [] \<and> last xs = x then remdups_adj xs else remdups_adj xs @ [x])"
  by (induction xs rule: remdups_adj.induct) auto

definition in_period :: "int \<Rightarrow> int option \<Rightarrow> point list \<Rightarrow> int option \<Rightarrow> point list" where
  "in_period period st ms k = filter (\<lambda>m. period_key period st m = k) ms"

lemma summary_fields [simp]:
  "st_period_start (summary period k e ms) = k" "st_count (summary period k e ms) = length ms"
  by (simp_all add: summary_def Let_def)

lemma stats_loop_summary:
  assumes "\<forall>m \<in> set ms. 0 < pt_volume m" "distinct (remdups_adj (map (period_key period st) ms))"
  shows "stats_loop period st en ms []
    = map (\<lambda>k. summary period k (period_end period en k) (in_period period st ms k))
        (remdups_adj (map (period_key period st) ms))"
  using assms
proof (induction ms rule: rev_induct)
  case Nil
  then show ?case by (simp add: stats_loop_def)
next
  case (snoc m ms)
  let ?key = "period_key period st" and ?S = "\<lambda>ms k. summary period k (period_end period en k) (in_period period st ms k)"
  let ?ks = "remdups_adj (map ?key ms)"
  have dist: "distinct ?ks" using snoc.prems(2) by (auto simp: remdups_adj_snoc split: if_splits)
  have IH: "stats_loop period st en ms [] = map (?S ms) ?ks" using snoc dist by simp
  have step: "stats_loop period st en (ms @ [m]) [] = stats_step period st en m (map (?S ms) ?ks)"
    using IH by (simp add: stats_loop_def)
  show ?case
  proof (cases "ms \<noteq> [] \<and> last (map ?key ms) = ?key m")
    case True
    then have ne: "?ks \<noteq> []" and last: "last ?ks = ?key m" by auto
    then obtain ks where ks: "?ks = ks @ [?key m]" by (metis append_butlast_last_id)
    with dist have others: "in_period period st (ms @ [m]) k = in_period period st ms k" if "k \<in> set ks" for k
      using that by (auto simp: in_period_def)
    have mine: "in_period period st (ms @ [m]) (?key m) = in_period period st ms (?key m) @ [m]"
      by (simp add: in_period_def)
    have "?key m \<in> set (map ?key ms)" using ks by (metis in_set_conv_decomp remdups_adj_set)
    then have "in_period period st ms (?key m) \<noteq> []" by (auto simp: in_period_def filter_empty_conv)
    moreover have "\<forall>x \<in> set (in_period period st ms (?key m)). 0 < pt_volume x" "0 < pt_volume m"
      using snoc.prems(1) by (auto simp: in_period_def)
    ultimately have "update_meter_stats (?S ms (?key m)) m = ?S (ms @ [m]) (?key m)"
      by (simp add: summary_snoc mine)
    then show ?thesis
      using True others unfolding step
      by (simp add: stats_step_eq Let_def ks remdups_adj_snoc)
  next
    case False
    then have keys: "remdups_adj (map ?key (ms @ [m])) = ?ks @ [?key m]" by (auto simp: remdups_adj_snoc)
    with snoc.prems(2) have new: "?key m \<notin> set (map ?key ms)" by auto
    then have others: "in_period period st (ms @ [m]) k = in_period period st ms k" if "k \<in> set ?ks" for k
      using that by (auto simp: in_period_def)
    from new have "in_period period st ms (?key m) = []"
      by (auto simp: in_period_def filter_empty_conv image_iff)
    then have mine: "in_period period st (ms @ [m]) (?key m) = [m]" by (simp add: in_period_def)
    have "map (?S ms) ?ks = [] \<or> st_period_start (last (map (?S ms) ?ks)) \<noteq> ?key m"
      using False by (cases "ms = []") (auto simp: last_map)
    then show ?thesis
      using others snoc.prems(1) mine unfolding step keys
      by (simp add: stats_step_eq Let_def summary_single)
  qed
qed

lemma trunc_mono: "0 \<le> x \<Longrightarrow> x \<le> y \<Longrightarrow> trunc x \<le> trunc y"
  by (simp add: trunc_def floor_mono)

lemma period_of_mono:
  assumes "0 < period" "start \<le> s" "s \<le> t"
  shows "period_of start period s \<le> period_of start period t"
proof -
  have "0 \<le> delta_seconds start s / of_int period" "delta_seconds start s / of_int period \<le> delta_seconds start t / of_int period"
    using assms by (auto simp: delta_seconds_def divide_right_mono)
  then show ?thesis using assms(1) trunc_mono by (simp add: period_of_def SECOND_def mult_right_mono)
qed

lemma period_contains:
  assumes "0 < period" "start \<le> t"
  shows "period_of start period t \<le> t \<and> t < period_of start period t + period * SECOND"
proof -
  let ?x = "delta_seconds start t / of_int period"
  have x: "of_int (t - start) = ?x * (of_int period * 1000000)" and "0 \<le> ?x"
    using assms by (simp_all add: delta_seconds_def)
  have pos: "0 < (of_int period * 1000000 :: rat)" using assms(1) by simp
  have "of_int (trunc ?x) \<le> ?x" "?x < of_int (trunc ?x) + 1"
    using \<open>0 \<le> ?x\<close> floor_correct [of ?x] by (simp_all only: trunc_def if_True of_int_add of_int_1)
  then have "of_int (trunc ?x) * (of_int period * 1000000) \<le> ?x * (of_int period * 1000000)"
    "?x * (of_int period * 1000000) < (of_int (trunc ?x) + 1) * (of_int period * 1000000)"
    using pos by (simp_all only: mult_le_cancel_right_pos mult_less_cancel_right_pos)
  then have "of_int (trunc ?x * period * SECOND) \<le> (of_int (t - start) :: rat)"
    "(of_int (t - start) :: rat) < of_int ((trunc ?x + 1) * period * SECOND)"
    unfolding x by (simp_all add: SECOND_def mult.assoc)
  then show ?thesis unfolding of_int_le_iff of_int_less_iff by (simp add: period_of_def algebra_simps)
qed

lemma sorted_distinct_adj: "sorted xs \<Longrightarrow> distinct (remdups_adj xs)" for xs :: "int list"
  by (induction xs rule: remdups_adj.induct) (auto simp: order.antisym)

text \<open>
  C20: The statistics of samples with positive volumes, given oldest first and none before the
  start, are those of the reference, period by period: every period that has a sample appears
  once, in order, with the count, extremes, sum, average and duration of exactly the samples
  that fall into it. Each sample lies between the start and the end of its period.
\<close>

theorem statistics_exact:
  assumes "0 < period" "\<forall>m \<in> set ms. 0 < pt_volume m \<and> start \<le> pt_time m" "sorted (map pt_time ms)"
  shows "statistics_of (Some start) en (Some period) (rev ms)
      = map (\<lambda>p. summary period (Some p) (Some (p + period * SECOND))
             (filter (\<lambda>m. p \<le> pt_time m \<and> pt_time m < p + period * SECOND) ms))
          (remdups_adj (map (\<lambda>m. period_of start period (pt_time m)) ms))
    \<and> distinct (remdups_adj (map (\<lambda>m. period_of start period (pt_time m)) ms))"
proof -
  let ?p = "\<lambda>m. period_of start period (pt_time m)" and ?ends = "\<lambda>k. k + period * SECOND"
  have key: "map (period_key period (Some start)) ms = map Some (map ?p ms)" for ms
    using assms(1) by (simp add: period_key_def)
  have "sorted (map ?p ms)"
    using assms(2,3) period_of_mono [OF assms(1)]
    by (induction ms) (auto simp: sorted_wrt_map)
  then have dist: "distinct (remdups_adj (map ?p ms))" by (rule sorted_distinct_adj)
  have adj: "remdups_adj (map Some xs) = map Some (remdups_adj xs)" for xs :: "int list"
    by (rule remdups_adj_map_injective) simp
  have multiple: "\<exists>i. ?p m = start + i * (period * SECOND)" for m
    by (auto simp: period_of_def mult.assoc)
  have same: "?p m = p \<longleftrightarrow> p \<le> pt_time m \<and> pt_time m < ?ends p" if m: "m \<in> set ms" and p: "p \<in> set (map ?p ms)" for m p
  proof
    assume "?p m = p"
    then show "p \<le> pt_time m \<and> pt_time m < ?ends p"
      using period_contains [OF assms(1), of start "pt_time m"] assms(2) m by auto
  next
    assume within: "p \<le> pt_time m \<and> pt_time m < ?ends p"
    obtain i j where ij: "?p m = start + i * (period * SECOND)" "p = start + j * (period * SECOND)"
      using multiple p by fastforce
    have pos: "0 < period * SECOND" using assms(1) by (simp add: SECOND_def)
    have "?p m \<le> pt_time m" "pt_time m < ?ends (?p m)"
      using period_contains [OF assms(1), of start "pt_time m"] assms(2) m by auto
    with within ij have "i * (period * SECOND) < (j + 1) * (period * SECOND)" "j * (period * SECOND) < (i + 1) * (period * SECOND)"
      by (simp_all add: distrib_right)
    then have "i < j + 1" "j < i + 1" using pos by (simp_all only: mult_less_cancel_right_pos)
    then show "?p m = p" using ij by simp
  qed
  have "filter (\<lambda>m. period_key period (Some start) m = Some p) ms
      = filter (\<lambda>m. p \<le> pt_time m \<and> pt_time m < ?ends p) ms" if "p \<in> set (map ?p ms)" for p
    using same that assms(1) by (intro filter_cong) (auto simp: period_key_def)
  moreover have "stats_loop period (Some start) e ms []
      = map (\<lambda>k. summary period k (period_end period e k) (in_period period (Some start) ms k)) (map Some (remdups_adj (map ?p ms)))" for e
    using stats_loop_summary [of ms period "Some start" e, unfolded key adj] assms(2) dist
    by (simp only: distinct_map) simp
  ultimately show ?thesis
    using assms(1) dist
    by (simp add: statistics_of_def Let_def period_end_def in_period_def)
qed

theorem statistics_exact_witness:
  "map st_count (statistics_of (Some 0) None (Some 10)
     (rev [\<lparr>pt_time = 1000000, pt_volume = 2, pt_unit = PNone\<rparr>, \<lparr>pt_time = 3000000, pt_volume = 4, pt_unit = PNone\<rparr>,
           \<lparr>pt_time = 12000000, pt_volume = 1, pt_unit = PNone\<rparr>])) = [2, 1]"
proof -
  let ?ms = "[\<lparr>pt_time = 1000000, pt_volume = 2, pt_unit = PNone\<rparr>, \<lparr>pt_time = 3000000, pt_volume = 4, pt_unit = PNone\<rparr>,
           \<lparr>pt_time = 12000000, pt_volume = 1, pt_unit = PNone\<rparr>]"
  have "(0 :: int) < 10" "\<forall>m \<in> set ?ms. 0 < pt_volume m \<and> 0 \<le> pt_time m" "sorted (map pt_time ?ms)" by simp_all
  note exact = conjunct1 [OF statistics_exact [OF this, of None]]
  have "remdups_adj (map (\<lambda>m. period_of 0 10 (pt_time m)) ?ms) = [0, 10000000]"
    using floor_unique [of 0 "1 / 10 :: rat"] floor_unique [of 0 "3 / 10 :: rat"] floor_unique [of 1 "6 / 5 :: rat"]
    by (simp add: period_of_def delta_seconds_def trunc_def SECOND_def)
  then show ?thesis unfolding exact by (simp add: SECOND_def)
qed

end
