(* ===== verification/Ipmi_Tool.thy ===== *)
theory Ipmi_Tool
  imports Agent_Polling
begin

text \<open>
  Running \<^verbatim>\<open>ipmitool\<close> and reading what it prints (\<^verbatim>\<open>ceilometer/ipmi/platform/ipmitool.py\<close>), and the
  sensors of a machine (\<^verbatim>\<open>ipmi_sensor.py\<close>).

  The output of a raw command is a row of bytes in hexadecimal, which a template cuts into
  fields; the output of a sensor listing is blocks of lines \<open>name : value\<close>, one block per
  sensor. \<open>exec\<close> runs a command line on the world \<open>'w\<close>.
\<close>

section \<open>Running a command\<close>

definition get_root_helper :: "string \<Rightarrow> string" where
  "get_root_helper rootwrap_conf = ''sudo ceilometer-rootwrap '' @ rootwrap_conf"

text \<open>\<open>processutils.execute\<close> with a root helper: the standard output, or its exception.\<close>

type_synonym 'w executor = "string \<Rightarrow> string list \<Rightarrow> 'w \<Rightarrow> 'w \<times> string res"

definition utils_execute :: "'w executor \<Rightarrow> string \<Rightarrow> string list \<Rightarrow> 'w \<Rightarrow> 'w \<times> string res" where
  "utils_execute exec rootwrap_conf cmd w = exec (get_root_helper rootwrap_conf) cmd w"

section \<open>Sensor listings\<close>

type_synonym sensor = "(string, string) pydict"
type_synonym sensors = "(string, (string, sensor) pydict) pydict"

definition sensor_type_keys :: "string list" where
  "sensor_type_keys = [''Sensor Type (Analog)'', ''Sensor Type (Discrete)'', ''Sensor Type (Threshold)'']"

definition get_sensor_type :: "sensor \<Rightarrow> string option" where
  "get_sensor_type d =
     (case filter (\<lambda>k. dict_get d k \<noteq> None) sensor_type_keys of
        [] \<Rightarrow> None
      | k # _ \<Rightarrow> map_option (takeWhile (\<lambda>c. c \<noteq> CHR '' '')) (dict_get d k))"

text \<open>A line with no colon, or with more than one, is left out.\<close>

definition process_line :: "string \<Rightarrow> sensor \<Rightarrow> sensor" where
  "process_line line d =
     (case split_char CHR '':'' line of
        [k, v] \<Rightarrow> dict_set (strip k) (strip v) d
      | _ \<Rightarrow> d)"

definition process_sensor :: "string \<Rightarrow> sensor" where
  "process_sensor text =
     fold process_line (filter (\<lambda>l. l \<noteq> []) (split_char (CHR 0x0A) text)) []"

text \<open>One block: sensors without a reading and those of an unknown type are ignored.\<close>

definition add_sensor :: "sensor \<Rightarrow> sensors \<Rightarrow> sensors res" where
  "add_sensor d ss =
     (if d = [] then Inr ss
      else bindr (dict_item d ''Sensor ID'') (\<lambda>sid.
        (if dict_get d ''Sensor Reading'' = None then Inr ss
         else (case get_sensor_type d of
             None \<Rightarrow> Inr ss
           | Some ty \<Rightarrow> Inr (dict_set ty (dict_set sid d (dict_get_default ss ty [])) ss)))))"

fun add_sensors :: "sensor list \<Rightarrow> sensors \<Rightarrow> sensors res" where
  "add_sensors [] ss = Inr ss"
| "add_sensors (d # ds) ss = bindr (add_sensor d ss) (add_sensors ds)"

definition blocks :: "string \<Rightarrow> sensor list" where
  "blocks out = map process_sensor (split_str [CHR 0x0A, CHR 0x0A] None out)"

definition translate_output :: "string \<Rightarrow> sensors res" where
  "translate_output out =
     bindr (add_sensors (blocks out) []) (\<lambda>ss.
       (if ss = [] then Inl (IPMIException ''No data retrieved from given input'') else Inr ss))"

section \<open>The answer of a command\<close>

text \<open>
  A template gives the fields of an answer and their numbers of bytes; the field \<open>translate\<close>
  asks for a sensor listing. An empty dictionary is \<open>Fields []\<close>.
\<close>

type_synonym template = "(string \<times> nat) list"
type_synonym fields = "(string, string list) pydict"

datatype answer = Fields fields | Sensors sensors

fun take_fields :: "template \<Rightarrow> string list \<Rightarrow> fields" where
  "take_fields [] ts = []"
| "take_fields ((k, n) # tm) ts = (k, take n ts) # take_fields tm (drop n ts)"

definition remove_char :: "char \<Rightarrow> string \<Rightarrow> string" where
  "remove_char c s = filter (\<lambda>x. x \<noteq> c) s"

definition output_tokens :: "string \<Rightarrow> string list" where
  "output_tokens out = split_char CHR '' '' (remove_char (CHR 0x0A) (strip out))"

definition parse_output :: "string \<Rightarrow> template \<Rightarrow> answer res" where
  "parse_output out template =
     (if out = [] \<or> template = [] then Inr (Fields [])
      else if dict_get template ''translate'' \<noteq> None
      then bindr (translate_output out) (\<lambda>ss. Inr (Sensors ss))
      else if sum_list (map snd template) \<noteq> length (output_tokens out)
      then Inl (IPMIException ''ipmitool output length mismatch'')
      else Inr (Fields (take_fields template (output_tokens out))))"

text \<open>
  The decorator \<open>execute_ipmi_cmd\<close>: a failing command is an \<open>IPMIException\<close>, other exceptions
  of running it pass.
\<close>

definition execute_ipmi_cmd :: "'w executor \<Rightarrow> string \<Rightarrow> template \<Rightarrow> string \<Rightarrow> 'w \<Rightarrow> 'w \<times> answer res" where
  "execute_ipmi_cmd exec rootwrap template command w =
     (case utils_execute exec rootwrap (''ipmitool'' # split_char CHR '' '' command) w of
        (w1, Inl e) \<Rightarrow> (w1, Inl (if e = ProcessExecutionError then IPMIException ''running ipmitool failure'' else e))
      | (w1, Inr out) \<Rightarrow> (w1, parse_output out template))"

definition answer_field :: "answer \<Rightarrow> string \<Rightarrow> string list res" where
  "answer_field a k = (case a of Fields d \<Rightarrow> dict_item d k | Sensors _ \<Rightarrow> Inl TypeError)"

section \<open>The sensors of a machine\<close>

definition translate_template :: template where
  "translate_template = [(''translate'', 1)]"

definition sensor_command :: "string \<Rightarrow> string option" where
  "sensor_command ty =
     (if ty = [] then Some ''sdr -v''
      else if ty \<in> {''Temperature'', ''Current'', ''Fan'', ''Voltage''} then Some (''sdr -v type '' @ ty)
      else None)"

definition read_sensor :: "'w executor \<Rightarrow> string \<Rightarrow> string \<Rightarrow> 'w \<Rightarrow> 'w \<times> answer res" where
  "read_sensor exec rootwrap command w = execute_ipmi_cmd exec rootwrap translate_template command w"

definition get_sdr_info :: "'w executor \<Rightarrow> string \<Rightarrow> 'w \<Rightarrow> 'w \<times> answer res" where
  "get_sdr_info exec rootwrap w = execute_ipmi_cmd exec rootwrap [] ''sdr info'' w"

text \<open>
  \<open>read_sensor_any\<close>: a \<open>KeyError\<close> is taken for an unknown type wherever it comes from.
\<close>

definition as_ipmi_error :: "pyexc \<Rightarrow> pyexc" where
  "as_ipmi_error e = (case e of KeyError _ \<Rightarrow> IPMIException ''Wrong sensor type'' | _ \<Rightarrow> e)"

definition read_sensor_any :: "'w executor \<Rightarrow> string \<Rightarrow> bool \<Rightarrow> string \<Rightarrow> 'w \<Rightarrow> 'w \<times> answer res" where
  "read_sensor_any exec rootwrap support ty w =
     (if \<not> support then (w, Inr (Fields []))
      else (case sensor_command ty of
          None \<Rightarrow> (w, Inl (as_ipmi_error (KeyError ty)))
        | Some c \<Rightarrow>
            (case read_sensor exec rootwrap c w of
               (w1, Inl e) \<Rightarrow> (w1, Inl (as_ipmi_error e))
             | (w1, Inr a) \<Rightarrow> (w1, Inr a))))"

definition check_ipmi :: "'w executor \<Rightarrow> string \<Rightarrow> 'w \<Rightarrow> 'w \<times> bool res" where
  "check_ipmi exec rootwrap w =
     (case get_sdr_info exec rootwrap w of
        (w1, Inl e) \<Rightarrow> (w1, case e of IPMIException _ \<Rightarrow> Inr False | _ \<Rightarrow> Inl e)
      | (w1, Inr _) \<Rightarrow> (w1, Inr True))"

text \<open>
  The singleton: its state is \<open>None\<close> before the first construction, then whether IPMI is
  supported. A construction that fails leaves an initialised object without support.
\<close>

definition sensor_init :: "'w executor \<Rightarrow> string \<Rightarrow> bool option \<Rightarrow> 'w \<Rightarrow> bool option \<times> 'w \<times> unit res" where
  "sensor_init exec rootwrap inst w =
     (case inst of
        Some b \<Rightarrow> (Some b, w, Inr ())
      | None \<Rightarrow>
          (case check_ipmi exec rootwrap w of
             (w1, Inl e) \<Rightarrow> (Some False, w1, Inl e)
           | (w1, Inr b) \<Rightarrow> (Some b, w1, Inr ())))"

section \<open>Facts\<close>

lemma take_fields_keys: "map fst (take_fields tm ts) = map fst tm"
  by (induction tm ts rule: take_fields.induct) simp_all

lemma take_fields_concat: "sum_list (map snd tm) = length ts \<Longrightarrow> concat (map snd (take_fields tm ts)) = ts"
  by (induction tm ts rule: take_fields.induct) simp_all

lemma take_fields_lengths:
  "sum_list (map snd tm) = length ts \<Longrightarrow> map (\<lambda>(k, v). (k, length v)) (take_fields tm ts) = tm"
  by (induction tm ts rule: take_fields.induct) simp_all

text \<open>A field is the slice that starts after the fields before it.\<close>

lemma take_fields_slice:
  "k \<notin> set (map fst tm1) \<Longrightarrow>
   dict_get (take_fields (tm1 @ (k, n) # tm2) ts) k = Some (take n (drop (sum_list (map snd tm1)) ts))"
  by (induction tm1 arbitrary: ts) (auto simp: add.commute)

lemma execute_ipmi_cmd_ok:
  assumes "exec (get_root_helper rw) (''ipmitool'' # split_char CHR '' '' command) w = (w1, Inr out)"
    and "out \<noteq> []" "tm \<noteq> []" "dict_get tm ''translate'' = None"
    and "length (output_tokens out) = sum_list (map snd tm)"
  shows "execute_ipmi_cmd exec rw tm command w = (w1, Inr (Fields (take_fields tm (output_tokens out))))"
  using assms by (simp add: execute_ipmi_cmd_def utils_execute_def parse_output_def)

text \<open>The answer to a lookup after all blocks have been added is in the last block that fits.\<close>

definition sensor_fits :: "string \<Rightarrow> string \<Rightarrow> sensor \<Rightarrow> bool" where
  "sensor_fits ty sid d \<longleftrightarrow>
     dict_get d ''Sensor ID'' = Some sid \<and> dict_get d ''Sensor Reading'' \<noteq> None \<and> get_sensor_type d = Some ty"

definition sensor_at :: "sensors \<Rightarrow> string \<Rightarrow> string \<Rightarrow> sensor option" where
  "sensor_at ss ty sid = (case dict_get ss ty of None \<Rightarrow> None | Some m \<Rightarrow> dict_get m sid)"

lemma sensor_at_set:
  "sensor_at (dict_set ty' (dict_set sid' d (dict_get_default ss ty' [])) ss) ty sid =
   (if ty' = ty \<and> sid' = sid then Some d else sensor_at ss ty sid)"
  by (simp add: sensor_at_def dict_get_default_def dict_get_set split: option.split)

lemma add_sensor_at:
  assumes "add_sensor d ss = Inr ss'"
  shows "sensor_at ss' ty sid = (if sensor_fits ty sid d then Some d else sensor_at ss ty sid)"
proof (cases "d = [] \<or> dict_get d ''Sensor Reading'' = None \<or> get_sensor_type d = None")
  case True
  then have "ss' = ss" "\<not> sensor_fits ty sid d"
    using assms by (auto simp: add_sensor_def sensor_fits_def bindr_Inr_iff split: if_splits)
  then show ?thesis by simp
next
  case False
  then obtain ty' where ty': "get_sensor_type d = Some ty'" by auto
  with False assms obtain sid' where "dict_get d ''Sensor ID'' = Some sid'"
    "ss' = dict_set ty' (dict_set sid' d (dict_get_default ss ty' [])) ss"
    by (auto simp: add_sensor_def bindr_Inr_iff dict_item_Inr_iff)
  then show ?thesis using False ty' by (simp add: sensor_at_set sensor_fits_def)
qed

lemma add_sensors_at:
  "add_sensors ds ss = Inr ss' \<Longrightarrow>
   sensor_at ss' ty sid = (case find (sensor_fits ty sid) (rev ds) of Some d \<Rightarrow> Some d | None \<Rightarrow> sensor_at ss ty sid)"
proof (induction ds arbitrary: ss)
  case (Cons d ds)
  from Cons.prems obtain s1 where s1: "add_sensor d ss = Inr s1" "add_sensors ds s1 = Inr ss'"
    by (auto simp: bindr_Inr_iff)
  show ?case
    using Cons.IH [OF s1(2)] add_sensor_at [OF s1(1)]
    by (auto simp: find_append split: option.split)
qed simp

lemma add_sensor_ok: "is_ok (add_sensor d ss) \<longleftrightarrow> d = [] \<or> dict_get d ''Sensor ID'' \<noteq> None"
  by (auto simp: add_sensor_def dict_item_def split: option.splits)

lemma add_sensors_ok: "is_ok (add_sensors ds ss) \<longleftrightarrow> list_all (\<lambda>d. d = [] \<or> dict_get d ''Sensor ID'' \<noteq> None) ds"
proof (induction ds arbitrary: ss)
  case (Cons d ds)
  then show ?case using add_sensor_ok [of d ss] by (cases "add_sensor d ss") simp_all
qed simp

text \<open>No type is filed without a sensor.\<close>

definition filled :: "sensors \<Rightarrow> bool" where
  "filled ss \<longleftrightarrow> list_all (\<lambda>(ty, m). m \<noteq> []) ss"

lemma filled_set: "filled ss \<Longrightarrow> m \<noteq> [] \<Longrightarrow> filled (dict_set ty m ss)"
  by (induction ss) (auto simp: filled_def)

lemma add_sensor_filled: "filled ss \<Longrightarrow> add_sensor d ss = Inr ss' \<Longrightarrow> filled ss'"
proof -
  have ne: "dict_set k v m \<noteq> []" for k :: string and v :: sensor and m by (cases m) auto
  show "filled ss \<Longrightarrow> add_sensor d ss = Inr ss' \<Longrightarrow> filled ss'"
    by (auto simp: add_sensor_def bindr_Inr_iff filled_set ne split: if_splits option.splits)
qed

lemma add_sensors_filled: "filled ss \<Longrightarrow> add_sensors ds ss = Inr ss' \<Longrightarrow> filled ss'"
  by (induction ds arbitrary: ss) (auto simp: bindr_Inr_iff dest: add_sensor_filled)

lemma filled_nonempty: "filled ss \<Longrightarrow> ss \<noteq> [] \<longleftrightarrow> (\<exists>ty sid. sensor_at ss ty sid \<noteq> None)"
proof (cases ss)
  case (Cons e es)
  moreover assume "filled ss"
  ultimately obtain ty sid d m where "e = (ty, (sid, d) # m)"
    by (cases e; cases "snd e") (auto simp: filled_def)
  then have "sensor_at ss ty sid = Some d" by (simp add: sensor_at_def Cons)
  then show ?thesis using Cons by auto
qed (simp add: sensor_at_def)

end
