(* ===== verification/Ipmi_Node_Manager.thy ===== *)
theory Ipmi_Node_Manager
  imports Ipmi_Tool Url
begin

text \<open>
  The Intel node manager (\<^verbatim>\<open>ceilometer/ipmi/platform/intel_node_manager.py\<close>): initialisation, the
  discovery of its address on the bus, the commands and the decoding of their answers.

  The environment \<open>nm_env\<close> is what the engine uses of the operating system: running a command,
  making a temporary file and reading a file.
\<close>

section \<open>Numbers in answers\<close>

text \<open>\<open>int(s, 16)\<close>: blanks around it, a sign, the prefix \<open>0x\<close>, at least one digit.\<close>

fun nat_of_hex :: "nat \<Rightarrow> string \<Rightarrow> nat option" where
  "nat_of_hex acc [] = Some acc"
| "nat_of_hex acc (c # cs) = (case hex_val c of None \<Rightarrow> None | Some d \<Rightarrow> nat_of_hex (16 * acc + d) cs)"

definition drop_0x :: "string \<Rightarrow> string" where
  "drop_0x s = (if take 2 s \<in> {''0x'', ''0X''} then drop 2 s else s)"

definition parse_hex :: "string \<Rightarrow> int res" where
  "parse_hex s =
     (case split_sign (strip s) of (neg, ds) \<Rightarrow>
        (if drop_0x ds = [] then Inl ValueError
         else (case nat_of_hex 0 (drop_0x ds) of
             None \<Rightarrow> Inl ValueError
           | Some n \<Rightarrow> Inr (if neg then - int n else int n))))"

text \<open>
  \<open>_hex\<close> reverses the list it is given in place: the result holds the list afterwards.
\<close>

definition hex_list :: "string list \<Rightarrow> string list \<times> int res" where
  "hex_list l = (if l = [] then ([], Inr 0) else (rev l, parse_hex (concat (rev l))))"

section \<open>Commands and templates\<close>

definition IPMIRAWCMD :: "(string, string) pydict" where
  "IPMIRAWCMD =
    [(''get_device_id'', ''raw 0x06 0x01''),
     (''get_nm_version'', ''raw 0x2e 0xca 0x57 0x01 0x00''),
     (''init_sensor_agent'', ''raw 0x0a 0x2c 0x01''),
     (''init_complete'', ''raw 0x0a 0x2c 0x00''),
     (''init_sensor_agent_status'', ''raw 0x0a 0x2c 0x00''),
     (''read_power_all'', ''raw 0x2e 0xc8 0x57 0x01 0x00 0x01 0x00 0x00''),
     (''read_inlet_temperature'', ''raw 0x2e 0xc8 0x57 0x01 0x00 0x02 0x00 0x00''),
     (''read_outlet_temperature'', ''raw 0x2e 0xc8 0x57 0x01 0x00 0x05 0x00 0x00''),
     (''read_airflow'', ''raw 0x2e 0xc8 0x57 0x01 0x00 0x04 0x00 0x00''),
     (''read_cups_utilization'', ''raw 0x2e 0x65 0x57 0x01 0x00 0x05''),
     (''read_cups_index'', ''raw 0x2e 0x65 0x57 0x01 0x00 0x01'')]"

definition raw_command :: "string \<Rightarrow> string" where
  "raw_command k = dict_get_default IPMIRAWCMD k []"

definition MANUFACTURER_ID_INTEL :: "string list" where
  "MANUFACTURER_ID_INTEL = [''57'', ''01'', ''00'']"

definition INTEL_PREFIX :: string where
  "INTEL_PREFIX = ''5701000d01''"

definition ONE_RETURN_TEMPLATE :: template where
  "ONE_RETURN_TEMPLATE = [(''ret'', 1)]"

definition BMC_INFO_TEMPLATE :: template where
  "BMC_INFO_TEMPLATE =
    [(''Device_ID'', 1), (''Device_Revision'', 1), (''Firmware_Revision_1'', 1), (''Firmware_Revision_2'', 1),
     (''IPMI_Version'', 1), (''Additional_Device_support'', 1), (''Manufacturer_ID'', 3), (''Product_ID'', 2),
     (''Auxiliary_Firmware_Revision'', 4)]"

definition NM_STATISTICS_TEMPLATE :: template where
  "NM_STATISTICS_TEMPLATE =
    [(''Manufacturer_ID'', 3), (''Current_value'', 2), (''Minimum_value'', 2), (''Maximum_value'', 2),
     (''Average_value'', 2), (''Time_stamp'', 4), (''Report_period'', 4), (''DomainID_PolicyState'', 1)]"

definition NM_GET_DEVICE_ID_TEMPLATE :: template where
  "NM_GET_DEVICE_ID_TEMPLATE =
    [(''Device_ID'', 1), (''Device_revision'', 1), (''Firmware_revision_1'', 1), (''Firmware_Revision_2'', 1),
     (''IPMI_Version'', 1), (''Additional_Device_support'', 1), (''Manufacturer_ID'', 3),
     (''Product_ID_min_version'', 1), (''Product_ID_major_version'', 1), (''Implemented_firmware'', 1),
     (''Firmware_build_number'', 1), (''Last_digit_firmware_build_number'', 1), (''Image_flags'', 1)]"

definition NM_GET_VERSION_TEMPLATE :: template where
  "NM_GET_VERSION_TEMPLATE =
    [(''Manufacturer_ID'', 3), (''NM_Version'', 1), (''IPMI_Version'', 1), (''Patch_Version'', 1),
     (''Firmware_Revision_Major'', 1), (''Firmware_Revision_Minor'', 1)]"

definition NM_CUPS_UTILIZATION_TEMPLATE :: template where
  "NM_CUPS_UTILIZATION_TEMPLATE =
    [(''Manufacturer_ID'', 3), (''CPU_Utilization'', 8), (''Mem_Utilization'', 8), (''IO_Utilization'', 8)]"

definition NM_CUPS_INDEX_TEMPLATE :: template where
  "NM_CUPS_INDEX_TEMPLATE = [(''Manufacturer_ID'', 3), (''CUPS_Index'', 2)]"

lemmas template_defs =
  ONE_RETURN_TEMPLATE_def BMC_INFO_TEMPLATE_def NM_STATISTICS_TEMPLATE_def NM_GET_DEVICE_ID_TEMPLATE_def
  NM_GET_VERSION_TEMPLATE_def NM_CUPS_UTILIZATION_TEMPLATE_def NM_CUPS_INDEX_TEMPLATE_def

section \<open>The engine\<close>

record 'w nm_env =
  nm_exec :: "'w executor"
  nm_rootwrap :: string
  nm_mkstemp :: "'w \<Rightarrow> 'w \<times> string"
  nm_read_file :: "string \<Rightarrow> 'w \<Rightarrow> string res"
  nm_init_retry :: int

record node_manager =
  nm_version :: int
  channel_slave :: string

type_synonym 'w command = "'w \<Rightarrow> 'w \<times> answer res"

definition nm_command :: "'w nm_env \<Rightarrow> template \<Rightarrow> string \<Rightarrow> 'w command" where
  "nm_command env tm command = execute_ipmi_cmd (nm_exec env) (nm_rootwrap env) tm command"

definition get_device_id :: "'w nm_env \<Rightarrow> 'w command" where
  "get_device_id env = nm_command env BMC_INFO_TEMPLATE (raw_command ''get_device_id'')"

definition init_sensor_agent :: "'w nm_env \<Rightarrow> 'w command" where
  "init_sensor_agent env = nm_command env ONE_RETURN_TEMPLATE (raw_command ''init_sensor_agent'')"

definition init_sensor_agent_process :: "'w nm_env \<Rightarrow> 'w command" where
  "init_sensor_agent_process env = nm_command env ONE_RETURN_TEMPLATE (raw_command ''init_sensor_agent_status'')"

definition dump_sdr_file :: "'w nm_env \<Rightarrow> string \<Rightarrow> 'w command" where
  "dump_sdr_file env data_file = nm_command env [] (''sdr dump'' @ '' '' @ data_file)"

text \<open>Commands to the node manager name its channel and address.\<close>

definition bridged :: "node_manager \<Rightarrow> string \<Rightarrow> string" where
  "bridged nm k = channel_slave nm @ '' '' @ raw_command k"

definition node_manager_get_device_id :: "'w nm_env \<Rightarrow> node_manager \<Rightarrow> 'w command" where
  "node_manager_get_device_id env nm = nm_command env NM_GET_DEVICE_ID_TEMPLATE (bridged nm ''get_device_id'')"

definition node_manager_get_version :: "'w nm_env \<Rightarrow> node_manager \<Rightarrow> 'w command" where
  "node_manager_get_version env nm = nm_command env NM_GET_VERSION_TEMPLATE (bridged nm ''get_nm_version'')"

text \<open>A reading that the version does not support is an empty dictionary.\<close>

definition read_if :: "bool \<Rightarrow> 'w command \<Rightarrow> 'w command" where
  "read_if b c w = (if b then c w else (w, Inr (Fields [])))"

definition read_power_all :: "'w nm_env \<Rightarrow> node_manager \<Rightarrow> 'w command" where
  "read_power_all env nm =
     read_if (0 < nm_version nm) (nm_command env NM_STATISTICS_TEMPLATE (bridged nm ''read_power_all''))"

definition read_inlet_temperature :: "'w nm_env \<Rightarrow> node_manager \<Rightarrow> 'w command" where
  "read_inlet_temperature env nm =
     read_if (0 < nm_version nm) (nm_command env NM_STATISTICS_TEMPLATE (bridged nm ''read_inlet_temperature''))"

definition read_outlet_temperature :: "'w nm_env \<Rightarrow> node_manager \<Rightarrow> 'w command" where
  "read_outlet_temperature env nm =
     read_if (5 \<le> nm_version nm) (nm_command env NM_STATISTICS_TEMPLATE (bridged nm ''read_outlet_temperature''))"

definition read_airflow :: "'w nm_env \<Rightarrow> node_manager \<Rightarrow> 'w command" where
  "read_airflow env nm =
     read_if (5 \<le> nm_version nm) (nm_command env NM_STATISTICS_TEMPLATE (bridged nm ''read_airflow''))"

definition read_cups_utilization :: "'w nm_env \<Rightarrow> node_manager \<Rightarrow> 'w command" where
  "read_cups_utilization env nm =
     read_if (5 \<le> nm_version nm)
       (nm_command env NM_CUPS_UTILIZATION_TEMPLATE (bridged nm ''read_cups_utilization''))"

definition read_cups_index :: "'w nm_env \<Rightarrow> node_manager \<Rightarrow> 'w command" where
  "read_cups_index env nm =
     read_if (5 \<le> nm_version nm) (nm_command env NM_CUPS_INDEX_TEMPLATE (bridged nm ''read_cups_index''))"

section \<open>Discovery\<close>

text \<open>\<open>binascii.hexlify\<close>, the text up to a position, and the record of the node manager.\<close>

definition hex_lower :: "nat \<Rightarrow> char" where
  "hex_lower n = char_of (if n < 10 then 48 + n else 87 + n)"

definition hex_byte :: "nat \<Rightarrow> string" where
  "hex_byte n = [hex_lower (n div 16), hex_lower (n mod 16)]"

definition hexlify :: "string \<Rightarrow> string" where
  "hexlify s = concat (map (\<lambda>c. hex_byte (of_char c)) s)"

definition parse_slave_and_channel :: "string \<Rightarrow> (string \<times> string) option res" where
  "parse_slave_and_channel content =
     (case find_sub INTEL_PREFIX (hexlify content) of
        None \<Rightarrow> Inr None
      | Some (_, rest) \<Rightarrow>
          (let ret = take 4 rest in
           if length ret < 3 then Inl IndexError else Inr (Some (take 2 ret, [ret ! 2]))))"

definition discover_slave_channel :: "'w nm_env \<Rightarrow> node_manager \<Rightarrow> 'w \<Rightarrow> node_manager \<times> 'w \<times> unit res" where
  "discover_slave_channel env nm w =
     (let (w1, path) = nm_mkstemp env w in
      case dump_sdr_file env path w1 of
        (w2, Inl e) \<Rightarrow> (nm, w2, Inl e)
      | (w2, Inr _) \<Rightarrow>
          (case bindr (nm_read_file env path w2) parse_slave_and_channel of
             Inl e \<Rightarrow> (nm, w2, Inl e)
           | Inr None \<Rightarrow> (nm, w2, Inl TypeError)
           | Inr (Some (slave, channel)) \<Rightarrow>
               (nm\<lparr>channel_slave := ''-b '' @ ''0x'' @ channel @ '' -t '' @ ''0x'' @ slave\<rparr>, w2, Inr ())))"

section \<open>Initialisation\<close>

text \<open>The status of the agent: whether it says that it is ready.\<close>

definition agent_ready :: "'w nm_env \<Rightarrow> 'w \<Rightarrow> 'w \<times> bool res" where
  "agent_ready env w =
     (case init_sensor_agent_process env w of
        (w1, Inl e) \<Rightarrow> (w1, Inl e)
      | (w1, Inr a) \<Rightarrow> (w1, bindr (answer_field a ''ret'') (\<lambda>r. Inr (r = [''01'']))))"

fun init_attempts :: "'w nm_env \<Rightarrow> nat \<Rightarrow> 'w \<Rightarrow> 'w \<times> unit res" where
  "init_attempts env 0 w = (w, Inl (NodeManagerException ''Node Manager init failed''))"
| "init_attempts env (Suc n) w =
     (case init_sensor_agent env w of
        (w1, Inl e) \<Rightarrow> (w1, Inl e)
      | (w1, Inr _) \<Rightarrow>
          (case agent_ready env w1 of
             (w2, Inl e) \<Rightarrow> (w2, Inl e)
           | (w2, Inr ready) \<Rightarrow> (if ready then (w2, Inr ()) else init_attempts env n w2)))"

definition init_node_manager :: "'w nm_env \<Rightarrow> 'w \<Rightarrow> 'w \<times> unit res" where
  "init_node_manager env w =
     (case agent_ready env w of
        (w1, Inl e) \<Rightarrow> (w1, Inl e)
      | (w1, Inr ready) \<Rightarrow> (if ready then (w1, Inr ()) else init_attempts env (nat (nm_init_retry env)) w1))"

definition first_byte :: "string list \<Rightarrow> int res" where
  "first_byte l = (case l of [] \<Rightarrow> Inl IndexError | s # _ \<Rightarrow> parse_hex s)"

definition node_manager_version :: "'w nm_env \<Rightarrow> node_manager \<Rightarrow> 'w \<Rightarrow> node_manager \<times> 'w \<times> int res" where
  "node_manager_version env nm w =
     (case get_device_id env w of
        (w1, Inl e) \<Rightarrow> (nm, w1, Inl e)
      | (w1, Inr a) \<Rightarrow>
     (case answer_field a ''Manufacturer_ID'' of
        Inl e \<Rightarrow> (nm, w1, Inl e)
      | Inr manufacturer \<Rightarrow>
     (if manufacturer \<noteq> MANUFACTURER_ID_INTEL then (nm, w1, Inr 0)
      else
     (case discover_slave_channel env nm w1 of
        (nm1, w2, Inl e) \<Rightarrow> (nm1, w2, Inl e)
      | (nm1, w2, Inr _) \<Rightarrow>
     (case node_manager_get_device_id env nm1 w2 of
        (w3, Inl e) \<Rightarrow> (nm1, w3, Inl e)
      | (w3, Inr a1) \<Rightarrow>
     (case bindr (answer_field a1 ''Implemented_firmware'') first_byte of
        Inl e \<Rightarrow> (nm1, w3, Inl e)
      | Inr support \<Rightarrow>
     (if support mod 16 = 0 then (nm1, w3, Inr 0)
      else
     (case node_manager_get_version env nm1 w3 of
        (w4, Inl e) \<Rightarrow> (nm1, w4, Inl e)
      | (w4, Inr a2) \<Rightarrow>
          (nm1, w4, bindr (answer_field a2 ''NM_Version'') (\<lambda>v. snd (hex_list v)))))))))))"

definition check_node_manager :: "'w nm_env \<Rightarrow> node_manager \<Rightarrow> 'w \<Rightarrow> node_manager \<times> 'w \<times> int res" where
  "check_node_manager env nm w =
     (let caught = (\<lambda>r. case r of
          Inl (NodeManagerException _) \<Rightarrow> Inr 0 | Inl (IPMIException _) \<Rightarrow> Inr 0 | _ \<Rightarrow> r)
      in case init_node_manager env w of
           (w1, Inl e) \<Rightarrow> (nm, w1, caught (Inl e))
         | (w1, Inr _) \<Rightarrow>
             (case node_manager_version env nm w1 of (nm1, w2, r) \<Rightarrow> (nm1, w2, caught r)))"

text \<open>
  The constructor; Python runs it again on the singleton for every pollster, so it starts from
  cleared attributes each time.
\<close>

definition nm_init :: "'w nm_env \<Rightarrow> 'w \<Rightarrow> node_manager \<times> 'w \<times> unit res" where
  "nm_init env w =
     (case check_node_manager env \<lparr>nm_version = 0, channel_slave = []\<rparr> w of
        (nm, w1, Inl e) \<Rightarrow> (nm, w1, Inl e)
      | (nm, w1, Inr v) \<Rightarrow> (nm\<lparr>nm_version := v\<rparr>, w1, Inr ()))"

section \<open>Facts about numbers\<close>

text \<open>The value of bytes with the least significant one first.\<close>

fun little_endian :: "nat list \<Rightarrow> nat" where
  "little_endian [] = 0"
| "little_endian (b # bs) = b + 256 * little_endian bs"

lemma little_endian_bound: "\<forall>b \<in> set bs. b < 256 \<Longrightarrow> little_endian bs < 256 ^ length bs"
proof (induction bs)
  case (Cons b bs)
  then have "little_endian bs + 1 \<le> 256 ^ length bs" "b < 256" by simp_all
  then have "256 * little_endian bs + 256 \<le> 256 * 256 ^ length bs" by linarith
  then show ?case using \<open>b < 256\<close> by simp
qed simp

lemma little_endian_snoc: "little_endian (bs @ [b]) = little_endian bs + 256 ^ length bs * b"
  by (induction bs) simp_all

lemma hex_val_lower: "n < 16 \<Longrightarrow> hex_val (hex_lower n) = Some n"
  using less_Suc_eq [of n] by (auto simp: hex_val_def hex_lower_def of_char_of)

lemma nat_of_hex_append:
  "nat_of_hex acc (s @ t) = (case nat_of_hex acc s of None \<Rightarrow> None | Some n \<Rightarrow> nat_of_hex n t)"
  by (induction s arbitrary: acc) (auto split: option.split)

lemma nat_of_hex_byte: "b < 256 \<Longrightarrow> nat_of_hex acc (hex_byte b) = Some (256 * acc + b)"
  by (simp add: hex_byte_def hex_val_lower less_mult_imp_div_less)

lemma nat_of_hex_bytes:
  "\<forall>b \<in> set bs. b < 256 \<Longrightarrow> nat_of_hex acc (concat (map hex_byte bs)) = Some (256 ^ length bs * acc + little_endian (rev bs))"
proof (induction bs arbitrary: acc)
  case (Cons b bs)
  then show ?case
    by (simp add: nat_of_hex_append nat_of_hex_byte little_endian_snoc algebra_simps)
qed simp

end
