(* ===== verification/Ipmi_Pollsters.thy ===== *)
theory Ipmi_Pollsters
  imports Ipmi_Node_Manager
begin

text \<open>
  The pollsters of the node manager and of IPMI sensors (\<^verbatim>\<open>ceilometer/ipmi/pollsters/\<close>) and the
  sensor data that Ironic sends as notifications (\<^verbatim>\<open>ceilometer/ipmi/notifications/ironic.py\<close>).

  Both kinds of pollster count their failures and end with a permanent error when too many
  follow each other; the locale \<open>retry_policy\<close> says when that is, for both.
\<close>

section \<open>Readings\<close>

definition UNIT_MAP :: "(string, string) pydict" where
  "UNIT_MAP = [(''Watts'', ''W''), (''Volts'', ''V'')]"

definition validate_reading :: "pyval \<Rightarrow> bool" where
  "validate_reading data \<longleftrightarrow> data \<noteq> PStr ''Disabled''"

definition transform_id :: "string \<Rightarrow> string" where
  "transform_id data = replace_char CHR '' '' CHR ''_'' (str_lower data)"

text \<open>\<open>unit.rsplit(' ', 1)[-1]\<close>: what follows the last blank.\<close>

definition last_word :: "string \<Rightarrow> string" where
  "last_word s = rev (takeWhile (\<lambda>c. c \<noteq> CHR '' '') (rev s))"

definition parse_reading :: "string \<Rightarrow> (flt \<times> string) res" where
  "parse_reading data =
     (case split_str '' '' (Some 1) data of
        [volume, unit] \<Rightarrow>
          (case parse_float volume of
             None \<Rightarrow> Inl InvalidSensorData
           | Some v \<Rightarrow> Inr (v, dict_get_default UNIT_MAP (last_word unit) (last_word unit)))
      | _ \<Rightarrow> Inl InvalidSensorData)"

section \<open>Counting failures\<close>

record ipmi_conf =
  ic_host :: string
  ic_polling_retry :: int
  ic_source :: string
  ic_uuid :: string

definition after_failure :: "ipmi_conf \<Rightarrow> nat \<Rightarrow> pyval list \<Rightarrow> poll_end" where
  "after_failure conf failures resources =
     (if 0 \<le> ic_polling_retry conf \<and> ic_polling_retry conf < int failures
      then PermanentError resources else Finished)"

definition ipmi_sample :: "ipmi_conf \<Rightarrow> string \<Rightarrow> string \<Rightarrow> pyval \<Rightarrow> string \<Rightarrow> sample" where
  "ipmi_sample conf name unit volume resource_id =
     new_sample (ic_source conf) (ic_uuid conf) name TYPE_GAUGE unit volume None None resource_id None
       [(''node'', PStr (ic_host conf))] None None PNone"

section \<open>Node manager pollsters\<close>

datatype nm_kind =
  InletTemperature | OutletTemperature | Power | Airflow | CUPSIndex | CPUUtil | MemUtil | IOUtil

fun nm_name :: "nm_kind \<Rightarrow> string" where
  "nm_name InletTemperature = ''hardware.ipmi.node.temperature''"
| "nm_name OutletTemperature = ''hardware.ipmi.node.outlet_temperature''"
| "nm_name Power = ''hardware.ipmi.node.power''"
| "nm_name Airflow = ''hardware.ipmi.node.airflow''"
| "nm_name CUPSIndex = ''hardware.ipmi.node.cups''"
| "nm_name CPUUtil = ''hardware.ipmi.node.cpu_util''"
| "nm_name MemUtil = ''hardware.ipmi.node.mem_util''"
| "nm_name IOUtil = ''hardware.ipmi.node.io_util''"

fun nm_unit :: "nm_kind \<Rightarrow> string" where
  "nm_unit InletTemperature = ''C''"
| "nm_unit OutletTemperature = ''C''"
| "nm_unit Power = ''W''"
| "nm_unit Airflow = ''CFM''"
| "nm_unit CUPSIndex = ''CUPS''"
| "nm_unit CPUUtil = ''%''"
| "nm_unit MemUtil = ''%''"
| "nm_unit IOUtil = ''%''"

text \<open>The field that \<open>get_value\<close> reads.\<close>

fun nm_field :: "nm_kind \<Rightarrow> string" where
  "nm_field CUPSIndex = ''CUPS_Index''"
| "nm_field CPUUtil = ''CPU_Utilization''"
| "nm_field MemUtil = ''Mem_Utilization''"
| "nm_field IOUtil = ''IO_Utilization''"
| "nm_field _ = ''Current_value''"

definition uses_cups_cache :: "nm_kind \<Rightarrow> bool" where
  "uses_cups_cache k \<longleftrightarrow> k \<in> {CPUUtil, MemUtil, IOUtil}"

definition CACHE_KEY_CUPS :: string where
  "CACHE_KEY_CUPS = ''CUPS''"

text \<open>
  The state a pollster works on: its failures, the cache of the polling cycle, and the world.
\<close>

record 'w nm_state =
  polling_failures :: nat
  cups_cache :: "(string, fields) pydict"
  nm_world :: 'w

definition answer_fields :: "answer \<Rightarrow> fields res" where
  "answer_fields a = (case a of Fields d \<Rightarrow> Inr d | Sensors _ \<Rightarrow> Inl TypeError)"

fun nm_read :: "'w nm_env \<Rightarrow> node_manager \<Rightarrow> nm_kind \<Rightarrow> 'w command" where
  "nm_read env nm InletTemperature = read_inlet_temperature env nm"
| "nm_read env nm OutletTemperature = read_outlet_temperature env nm"
| "nm_read env nm Power = read_power_all env nm"
| "nm_read env nm Airflow = read_airflow env nm"
| "nm_read env nm CUPSIndex = read_cups_index env nm"
| "nm_read env nm _ = read_cups_utilization env nm"

text \<open>
  \<open>read_data\<close>. The three utilisations share one answer in the cache of the cycle; the entry
  is made before the command runs.
\<close>

definition nm_command_fields :: "'w command \<Rightarrow> 'w \<Rightarrow> 'w \<times> fields res" where
  "nm_command_fields c w = (case c w of (w1, r) \<Rightarrow> (w1, bindr r answer_fields))"

definition read_data :: "'w nm_env \<Rightarrow> node_manager \<Rightarrow> nm_kind \<Rightarrow> 'w nm_state \<Rightarrow> 'w nm_state \<times> fields res" where
  "read_data env nm k st =
     (if uses_cups_cache k
      then (let i_cache = dict_get_default (cups_cache st) CACHE_KEY_CUPS [];
                st1 = st\<lparr>cups_cache := dict_set CACHE_KEY_CUPS i_cache (cups_cache st)\<rparr>
            in if i_cache \<noteq> [] then (st1, Inr i_cache)
               else (case nm_command_fields (nm_read env nm k) (nm_world st) of
                   (w1, Inl e) \<Rightarrow> (st1\<lparr>nm_world := w1\<rparr>, Inl e)
                 | (w1, Inr d) \<Rightarrow>
                     (st1\<lparr>nm_world := w1,
                        cups_cache := dict_set CACHE_KEY_CUPS (dict_update i_cache d) (cups_cache st1)\<rparr>,
                      Inr (dict_update i_cache d))))
      else (case nm_command_fields (nm_read env nm k) (nm_world st) of
          (w1, r) \<Rightarrow> (st\<lparr>nm_world := w1\<rparr>, r)))"

text \<open>
  \<open>get_value\<close>: the number in the field. The list is reversed where it is, which shows in the
  cache when the answer is the cached one.
\<close>

definition get_value :: "nm_kind \<Rightarrow> fields \<Rightarrow> 'w nm_state \<Rightarrow> 'w nm_state \<times> int res" where
  "get_value k stats st =
     (case dict_item stats (nm_field k) of
        Inl e \<Rightarrow> (st, Inl e)
      | Inr l \<Rightarrow>
          (case hex_list l of (l', r) \<Rightarrow>
             (if uses_cups_cache k
              then st\<lparr>cups_cache := dict_set CACHE_KEY_CUPS (dict_set (nm_field k) l' stats) (cups_cache st)\<rparr>
              else st, r)))"

definition nm_get_samples ::
  "'w nm_env \<Rightarrow> ipmi_conf \<Rightarrow> node_manager \<Rightarrow> nm_kind \<Rightarrow> pyval list \<Rightarrow> 'w nm_state \<Rightarrow>
   'w nm_state \<times> sample list \<times> poll_end" where
  "nm_get_samples env conf nm k resources st =
     (case read_data env nm k st of
        (st1, Inl (IPMIException _)) \<Rightarrow>
          (let n = polling_failures st1 + 1 in
           (st1\<lparr>polling_failures := n\<rparr>, [], after_failure conf n resources))
      | (st1, Inl e) \<Rightarrow> (st1, [], Failed e)
      | (st1, Inr stats) \<Rightarrow>
          (let st2 = st1\<lparr>polling_failures := 0\<rparr> in
           if stats = [] then (st2, [], Finished)
           else (case get_value k stats st2 of
               (st3, Inl e) \<Rightarrow> (st3, [], Failed e)
             | (st3, Inr data) \<Rightarrow>
                 (st3, [ipmi_sample conf (nm_name k) (nm_unit k) (PInt data) (ic_host conf)], Finished))))"

text \<open>\<open>setup_environment\<close>\<close>

definition nm_setup :: "'w nm_env \<Rightarrow> 'w \<Rightarrow> node_manager \<times> 'w nm_state \<times> unit res" where
  "nm_setup env w =
     (case nm_init env w of
        (nm, w1, r) \<Rightarrow>
          (nm, \<lparr>polling_failures = 0, cups_cache = [], nm_world = w1\<rparr>,
           bindr r (\<lambda>_. if nm_version nm = 0 then Inl ExtensionLoadError else Inr ())))"

section \<open>Sensor pollsters\<close>

record 'w sensor_state =
  sensor_failures :: nat
  sensor_world :: 'w

text \<open>One sensor: nothing when it has no reading, is disabled or cannot be read.\<close>

definition sensor_sample :: "ipmi_conf \<Rightarrow> string \<Rightarrow> sensor \<Rightarrow> sample option" where
  "sensor_sample conf metric d =
     (case (dict_get d ''Sensor Reading'', dict_get d ''Sensor ID'') of
        (Some reading, Some sensor_id) \<Rightarrow>
          (if \<not> validate_reading (PStr reading) then None
           else (case parse_reading reading of
               Inl e \<Rightarrow> None
             | Inr (volume, unit) \<Rightarrow>
                 Some (ipmi_sample conf (''hardware.ipmi.'' @ str_lower metric) unit (PFloat volume)
                   (ic_host conf @ ''-'' @ transform_id sensor_id))))
      | _ \<Rightarrow> None)"

definition get_sensor_types :: "answer \<Rightarrow> string \<Rightarrow> sensor list" where
  "get_sensor_types a ty =
     (case a of
        Sensors ss \<Rightarrow> (case dict_get ss ty of None \<Rightarrow> [] | Some m \<Rightarrow> map snd m)
      | Fields _ \<Rightarrow> [])"

definition sensor_get_samples ::
  "'w executor \<Rightarrow> string \<Rightarrow> bool \<Rightarrow> ipmi_conf \<Rightarrow> string \<Rightarrow> pyval list \<Rightarrow> 'w sensor_state \<Rightarrow>
   'w sensor_state \<times> sample list \<times> poll_end" where
  "sensor_get_samples exec rootwrap support conf metric resources st =
     (case read_sensor_any exec rootwrap support metric (sensor_world st) of
        (w1, Inl (IPMIException _)) \<Rightarrow>
          (let n = sensor_failures st + 1 in
           (\<lparr>sensor_failures = n, sensor_world = w1\<rparr>, [], after_failure conf n resources))
      | (w1, Inl e) \<Rightarrow> (st\<lparr>sensor_world := w1\<rparr>, [], Failed e)
      | (w1, Inr stats) \<Rightarrow>
          (\<lparr>sensor_failures = 0, sensor_world = w1\<rparr>,
           List.map_filter (sensor_sample conf metric) (get_sensor_types stats metric), Finished))"

definition sensor_setup :: "'w executor \<Rightarrow> string \<Rightarrow> bool option \<Rightarrow> 'w \<Rightarrow> bool option \<times> 'w sensor_state \<times> unit res" where
  "sensor_setup exec rootwrap inst w =
     (case sensor_init exec rootwrap inst w of
        (inst1, w1, r) \<Rightarrow>
          (inst1, \<lparr>sensor_failures = 0, sensor_world = w1\<rparr>,
           bindr r (\<lambda>_. if inst1 = Some True then Inr () else Inl ExtensionLoadError)))"

section \<open>Sensor data from notifications\<close>

text \<open>\<open>_get_sample\<close>, called with the payload of the message; a missing key means no sensors.\<close>

definition get_payloads :: "string \<Rightarrow> pymap \<Rightarrow> pyval list res" where
  "get_payloads metric mp =
     (case bindr (dict_item mp ''payload'') (\<lambda>p. py_getitem p (PStr metric)) of
        Inl (KeyError _) \<Rightarrow> Inr []
      | Inl e \<Rightarrow> Inl e
      | Inr (PDict d) \<Rightarrow> Inr (map snd d)
      | Inr _ \<Rightarrow> Inl (AttributeError ''items''))"

definition package_payload :: "pymap \<Rightarrow> pymap \<Rightarrow> pymap \<Rightarrow> pymap res" where
  "package_payload message mp payload =
     bindr (dict_item mp ''node_uuid'') (\<lambda>node.
     bindr (dict_item message ''publisher_id'') (\<lambda>publisher_id.
     bindr (dict_item mp ''timestamp'') (\<lambda>timestamp.
     bindr (dict_item mp ''event_type'') (\<lambda>event_type.
       Inr [(''publisher_id'', publisher_id), (''timestamp'', timestamp), (''event_type'', event_type),
            (''user_id'', dict_get_default mp ''user_id'' PNone),
            (''project_id'', dict_get_default mp ''project_id'' PNone),
            (''payload'', PDict (dict_set ''node'' node payload))]))))"

text \<open>
  The identifier of a sensor's resource: missing keys are invalid sensor data. \<open>rp\<close> is the
  interpreter's \<open>repr\<close>.
\<close>

definition sensor_resource_id :: "(pyval \<Rightarrow> string) \<Rightarrow> pymap \<Rightarrow> pyval \<Rightarrow> string res" where
  "sensor_resource_id rp mp payload =
     (case bindr (dict_item mp ''node_uuid'') (\<lambda>node.
           bindr (py_getitem payload (PStr ''Sensor ID'')) (\<lambda>sid.
           (case sid of
              PStr s \<Rightarrow> Inr (py_str rp node @ ''-'' @ transform_id s)
            | _ \<Rightarrow> Inl (AttributeError ''lower'')))) of
        Inl (KeyError _) \<Rightarrow> Inl InvalidSensorData
      | r \<Rightarrow> r)"

definition id_text :: "pyval \<Rightarrow> string option" where
  "id_text v = (case v of PStr s \<Rightarrow> Some s | _ \<Rightarrow> None)"

record notification_env =
  ne_source :: string
  ne_uuid :: string
  ne_isoform :: "string \<Rightarrow> string res"
  ne_repr :: "pyval \<Rightarrow> string"

definition reading_of :: "pyval \<Rightarrow> (flt \<times> string) res" where
  "reading_of v = (case v of PStr s \<Rightarrow> parse_reading s | _ \<Rightarrow> Inl (AttributeError ''split''))"

text \<open>
  One sensor of a message: a sample, none for a disabled sensor, or an exception; a payload
  that is no dictionary raises at the first access.
\<close>

definition payload_sample ::
  "notification_env \<Rightarrow> string \<Rightarrow> pymap \<Rightarrow> pymap \<Rightarrow> pyval \<Rightarrow> sample option res" where
  "payload_sample env metric message mp payload =
     bindr (sensor_resource_id (ne_repr env) mp payload) (\<lambda>rid.
     (case payload of
        PDict p \<Rightarrow>
          bindr (package_payload message mp p) (\<lambda>info.
          (case dict_get p ''Sensor Reading'' of
             None \<Rightarrow> Inl InvalidSensorData
           | Some reading \<Rightarrow>
               (if \<not> validate_reading reading then Inr None
                else bindr (reading_of reading) (\<lambda>(volume, unit).
                  bindr (from_notification (ne_source env) (ne_uuid env) (ne_isoform env)
                     (''hardware.ipmi.'' @ str_lower metric) TYPE_GAUGE (PFloat volume) unit
                     (id_text (dict_get_default info ''user_id'' PNone))
                     (id_text (dict_get_default info ''project_id'' PNone)) rid info
                     (dict_get_default info ''timestamp'' PNone) [] None)
                  (\<lambda>s. Inr (Some s))))))
      | _ \<Rightarrow> Inl TypeError))"

text \<open>The generator: the samples yielded, and how it ends.\<close>

fun payload_samples ::
  "notification_env \<Rightarrow> string \<Rightarrow> pymap \<Rightarrow> pymap \<Rightarrow> pyval list \<Rightarrow> sample list \<times> unit res" where
  "payload_samples env metric message mp [] = ([], Inr ())"
| "payload_samples env metric message mp (p # ps) =
     (case payload_sample env metric message mp p of
        Inl InvalidSensorData \<Rightarrow> payload_samples env metric message mp ps
      | Inl e \<Rightarrow> ([], Inl e)
      | Inr None \<Rightarrow> payload_samples env metric message mp ps
      | Inr (Some s) \<Rightarrow> (case payload_samples env metric message mp ps of (ss, r) \<Rightarrow> (s # ss, r)))"

definition process_sensor_notification ::
  "notification_env \<Rightarrow> string \<Rightarrow> pymap \<Rightarrow> sample list \<times> unit res" where
  "process_sensor_notification env metric message =
     (case dict_get message ''payload'' of
        None \<Rightarrow> ([], Inl (KeyError ''payload''))
      | Some (PDict mp) \<Rightarrow>
          (case get_payloads metric mp of
             Inl e \<Rightarrow> ([], Inl e)
           | Inr ps \<Rightarrow> payload_samples env metric message mp ps)
      | Some _ \<Rightarrow> ([], Inl TypeError))"


section \<open>When a pollster is disabled\<close>

text \<open>
  What the client of a pollster relies on: a failed read counts, a successful one starts the
  count again, other exceptions leave it, and the permanent error is raised on a failure that
  makes the count exceed the tolerated number.
\<close>

locale retry_policy =
  fixes step :: "'s \<Rightarrow> 's \<times> poll_end"
    and fails :: "'s \<Rightarrow> bool"
    and passes :: "'s \<Rightarrow> bool"
    and count :: "'s \<Rightarrow> nat"
    and retry :: int
    and resources :: "pyval list"
  assumes failed: "fails s \<Longrightarrow> count (fst (step s)) = Suc (count s)"
    and passed: "passes s \<Longrightarrow> count (fst (step s)) = 0"
    and other: "\<not> fails s \<Longrightarrow> \<not> passes s \<Longrightarrow> count (fst (step s)) = count s"
    and not_both: "fails s \<Longrightarrow> \<not> passes s"
    and ends: "snd (step s) = PermanentError resources \<longleftrightarrow>
      fails s \<and> 0 \<le> retry \<and> retry < int (count (fst (step s)))"
begin

definition state_at :: "'s \<Rightarrow> nat \<Rightarrow> 's" where
  "state_at s n = ((\<lambda>s. fst (step s)) ^^ n) s"

lemma state_at_simps [simp]:
  "state_at s 0 = s" "state_at s (Suc n) = fst (step (state_at s n))"
  by (simp_all add: state_at_def)

lemma count_since:
  assumes "count s = 0"
  shows "c \<le> count (state_at s n) \<longleftrightarrow>
    (\<exists>j \<le> n. (\<forall>m \<in> {j..<n}. \<not> passes (state_at s m)) \<and> c \<le> card {m \<in> {j..<n}. fails (state_at s m)})"
proof (induction n arbitrary: c)
  case 0
  then show ?case using assms by simp
next
  case (Suc n)
  let ?F = "\<lambda>j n. {m \<in> {j..<n}. fails (state_at s m)}"
  have split: "{j..<Suc n} = insert n {j..<n}" if "j \<le> n" for j using that by auto
  have none: "{m. Suc n \<le> m \<and> m < Suc n \<and> P m} = {}" for P by auto
  have last: "(\<exists>j \<le> Suc n. (\<forall>m \<in> {j..<Suc n}. \<not> passes (state_at s m)) \<and> c \<le> card (?F j (Suc n))) \<longleftrightarrow>
      c = 0 \<or> (\<exists>j \<le> n. (\<forall>m \<in> {j..<Suc n}. \<not> passes (state_at s m)) \<and> c \<le> card (?F j (Suc n)))"
    by (auto simp: le_Suc_eq none)
  consider (f) "fails (state_at s n)" | (p) "passes (state_at s n)"
    | (o) "\<not> fails (state_at s n)" "\<not> passes (state_at s n)" by blast
  then show ?case
  proof cases
    case f
    have "?F j (Suc n) = insert n (?F j n)" if "j \<le> n" for j using f that by (auto simp: less_Suc_eq)
    then have card: "card (?F j (Suc n)) = Suc (card (?F j n))" if "j \<le> n" for j using that by simp
    have "(\<exists>j \<le> n. (\<forall>m \<in> {j..<Suc n}. \<not> passes (state_at s m)) \<and> c \<le> card (?F j (Suc n))) \<longleftrightarrow>
        (\<exists>j \<le> n. (\<forall>m \<in> {j..<n}. \<not> passes (state_at s m)) \<and> c \<le> Suc (card (?F j n)))"
      by (intro ex_cong1 conj_cong refl, simp add: split not_both [OF f], simp only: card)
    moreover have "c \<le> Suc d \<longleftrightarrow> c = 0 \<or> c - 1 \<le> d" for d by linarith
    ultimately have "(\<exists>j \<le> n. (\<forall>m \<in> {j..<Suc n}. \<not> passes (state_at s m)) \<and> c \<le> card (?F j (Suc n))) \<or> c = 0
        \<longleftrightarrow> c - 1 \<le> count (state_at s n) \<or> c = 0"
      unfolding Suc.IH [of "c - 1"] by blast
    then show ?thesis unfolding last using failed [OF f] by auto
  next
    case p
    then show ?thesis unfolding last using passed [OF p] by auto
  next
    case o
    have same: "?F j (Suc n) = ?F j n" if "j \<le> n" for j using o that by (auto simp: less_Suc_eq)
    have "(\<exists>j \<le> n. (\<forall>m \<in> {j..<Suc n}. \<not> passes (state_at s m)) \<and> c \<le> card (?F j (Suc n))) \<longleftrightarrow>
        c \<le> count (state_at s n)"
      unfolding Suc.IH [of c] using o
      by (intro ex_cong1 conj_cong refl, simp add: split, simp only: same)
    then show ?thesis unfolding last using other [OF o] by auto
  qed
qed

lemma disabled_iff:
  assumes "count s = 0"
  shows "snd (step (state_at s n)) = PermanentError resources \<longleftrightarrow>
    0 \<le> retry \<and> fails (state_at s n) \<and>
    (\<exists>j \<le> n. (\<forall>m \<in> {j..n}. \<not> passes (state_at s m))
       \<and> retry < int (card {m \<in> {j..n}. fails (state_at s m)}))"
proof -
  have closed: "{j..<Suc n} = {j..n}" for j by auto
  have none: "{m. Suc n \<le> m \<and> m \<le> n \<and> P m} = {}" for P by auto
  have "0 \<le> retry \<Longrightarrow> retry < int d \<longleftrightarrow> nat retry + 1 \<le> d" for d by linarith
  moreover have "(\<exists>j \<le> Suc n. (\<forall>m \<in> {j..n}. \<not> passes (state_at s m)) \<and>
        nat retry + 1 \<le> card {m \<in> {j..n}. fails (state_at s m)}) \<longleftrightarrow>
      (\<exists>j \<le> n. (\<forall>m \<in> {j..n}. \<not> passes (state_at s m)) \<and>
        nat retry + 1 \<le> card {m \<in> {j..n}. fails (state_at s m)})"
    by (auto simp: le_Suc_eq none)
  ultimately show ?thesis
    using ends [of "state_at s n"] count_since [OF assms, of "nat retry + 1" "Suc n"]
    by (auto simp only: closed state_at_simps)
qed

end

section \<open>The two kinds of pollster follow the policy\<close>

text \<open>A poll in a new cycle, whose cache is empty; and what its read does.\<close>

definition nm_cycle ::
  "'w nm_env \<Rightarrow> ipmi_conf \<Rightarrow> node_manager \<Rightarrow> nm_kind \<Rightarrow> pyval list \<Rightarrow> 'w nm_state \<Rightarrow> 'w nm_state \<times> poll_end" where
  "nm_cycle env conf nm k resources st =
     (case nm_get_samples env conf nm k resources (st\<lparr>cups_cache := []\<rparr>) of (st1, ss, e) \<Rightarrow> (st1, e))"

definition ipmi_failure :: "'a res \<Rightarrow> bool" where
  "ipmi_failure r = (case r of Inl (IPMIException _) \<Rightarrow> True | _ \<Rightarrow> False)"

definition nm_outcome :: "'w nm_env \<Rightarrow> node_manager \<Rightarrow> nm_kind \<Rightarrow> 'w nm_state \<Rightarrow> fields res" where
  "nm_outcome env nm k st = snd (read_data env nm k (st\<lparr>cups_cache := []\<rparr>))"

lemma read_data_failures: "polling_failures (fst (read_data env nm k st)) = polling_failures st"
  by (simp add: read_data_def Let_def split: prod.split sum.split)

lemma get_value_failures: "polling_failures (fst (get_value k stats st)) = polling_failures st"
  by (simp add: get_value_def split: sum.split prod.split)

lemma nm_cycle_cases:
  "ipmi_failure (nm_outcome env nm k st) \<and>
     polling_failures (fst (nm_cycle env conf nm k rs st)) = Suc (polling_failures st) \<and>
     snd (nm_cycle env conf nm k rs st) = after_failure conf (Suc (polling_failures st)) rs
   \<or> is_ok (nm_outcome env nm k st) \<and> polling_failures (fst (nm_cycle env conf nm k rs st)) = 0 \<and>
     (\<nexists>r. snd (nm_cycle env conf nm k rs st) = PermanentError r)
   \<or> \<not> ipmi_failure (nm_outcome env nm k st) \<and> \<not> is_ok (nm_outcome env nm k st) \<and>
     polling_failures (fst (nm_cycle env conf nm k rs st)) = polling_failures st \<and>
     (\<nexists>r. snd (nm_cycle env conf nm k rs st) = PermanentError r)"
proof -
  obtain st1 r where r: "read_data env nm k (st\<lparr>cups_cache := []\<rparr>) = (st1, r)" by fastforce
  have n: "polling_failures st1 = polling_failures st"
    using read_data_failures [of env nm k "st\<lparr>cups_cache := []\<rparr>"] r by simp
  show ?thesis
  proof (cases r)
    case (Inl e)
    then show ?thesis
      by (cases e) (simp_all add: nm_cycle_def nm_outcome_def nm_get_samples_def r n ipmi_failure_def)
  next
    case (Inr stats)
    obtain st2 v where v: "get_value k stats (st1\<lparr>polling_failures := 0\<rparr>) = (st2, v)" by fastforce
    have "polling_failures st2 = 0"
      using get_value_failures [of k stats "st1\<lparr>polling_failures := 0\<rparr>"] v by simp
    then show ?thesis
      using Inr by (cases v) (simp_all add: nm_cycle_def nm_outcome_def nm_get_samples_def Let_def r v)
  qed
qed

lemma after_failure_eq:
  "after_failure conf n rs = PermanentError rs \<longleftrightarrow> 0 \<le> ic_polling_retry conf \<and> ic_polling_retry conf < int n"
  by (simp add: after_failure_def)

interpretation node_poller: retry_policy "nm_cycle env conf nm k rs"
  "\<lambda>st. ipmi_failure (nm_outcome env nm k st)" "\<lambda>st. is_ok (nm_outcome env nm k st)"
  polling_failures "ic_polling_retry conf" rs
  for env :: "'w nm_env" and conf nm k rs
proof unfold_locales
  fix st :: "'w nm_state"
  have excl: "ipmi_failure r \<Longrightarrow> \<not> is_ok r" for r :: "fields res"
    by (auto simp: ipmi_failure_def is_ok_def split: sum.splits)
  note c = nm_cycle_cases [of env nm k st conf rs]
  show "ipmi_failure (nm_outcome env nm k st) \<Longrightarrow>
      polling_failures (fst (nm_cycle env conf nm k rs st)) = Suc (polling_failures st)" using c excl by blast
  show "is_ok (nm_outcome env nm k st) \<Longrightarrow> polling_failures (fst (nm_cycle env conf nm k rs st)) = 0"
    using c excl by blast
  show "\<not> ipmi_failure (nm_outcome env nm k st) \<Longrightarrow> \<not> is_ok (nm_outcome env nm k st) \<Longrightarrow>
      polling_failures (fst (nm_cycle env conf nm k rs st)) = polling_failures st" using c by blast
  show "ipmi_failure (nm_outcome env nm k st) \<Longrightarrow> \<not> is_ok (nm_outcome env nm k st)" by (rule excl)
  show "(snd (nm_cycle env conf nm k rs st) = PermanentError rs) =
      (ipmi_failure (nm_outcome env nm k st) \<and> 0 \<le> ic_polling_retry conf \<and>
       ic_polling_retry conf < int (polling_failures (fst (nm_cycle env conf nm k rs st))))"
    using c excl after_failure_eq [of conf "Suc (polling_failures st)" rs] by auto
qed

definition sensor_cycle ::
  "'w executor \<Rightarrow> string \<Rightarrow> bool \<Rightarrow> ipmi_conf \<Rightarrow> string \<Rightarrow> pyval list \<Rightarrow> 'w sensor_state \<Rightarrow> 'w sensor_state \<times> poll_end" where
  "sensor_cycle exec rootwrap support conf metric resources st =
     (case sensor_get_samples exec rootwrap support conf metric resources st of (st1, ss, e) \<Rightarrow> (st1, e))"

definition sensor_outcome :: "'w executor \<Rightarrow> string \<Rightarrow> bool \<Rightarrow> string \<Rightarrow> 'w sensor_state \<Rightarrow> answer res" where
  "sensor_outcome exec rootwrap support metric st = snd (read_sensor_any exec rootwrap support metric (sensor_world st))"

interpretation sensor_poller: retry_policy "sensor_cycle exec rootwrap support conf metric rs"
  "\<lambda>st. ipmi_failure (sensor_outcome exec rootwrap support metric st)"
  "\<lambda>st. is_ok (sensor_outcome exec rootwrap support metric st)"
  sensor_failures "ic_polling_retry conf" rs
  for exec :: "'w executor" and rootwrap support conf metric rs
  by unfold_locales
    (auto simp: sensor_cycle_def sensor_outcome_def sensor_get_samples_def ipmi_failure_def is_ok_def after_failure_def
      split: prod.splits sum.splits pyexc.splits if_splits)

section \<open>Decoding\<close>

text \<open>
  For a kind of pollster: its command, the template of the answer, the place and width of its
  value, and the versions that have it.
\<close>

fun nm_command_name :: "nm_kind \<Rightarrow> string" where
  "nm_command_name InletTemperature = ''read_inlet_temperature''"
| "nm_command_name OutletTemperature = ''read_outlet_temperature''"
| "nm_command_name Power = ''read_power_all''"
| "nm_command_name Airflow = ''read_airflow''"
| "nm_command_name CUPSIndex = ''read_cups_index''"
| "nm_command_name _ = ''read_cups_utilization''"

fun nm_answer_length :: "nm_kind \<Rightarrow> nat" where
  "nm_answer_length CUPSIndex = 5"
| "nm_answer_length CPUUtil = 27"
| "nm_answer_length MemUtil = 27"
| "nm_answer_length IOUtil = 27"
| "nm_answer_length _ = 20"

fun nm_place :: "nm_kind \<Rightarrow> nat \<times> nat" where
  "nm_place CPUUtil = (3, 8)"
| "nm_place MemUtil = (11, 8)"
| "nm_place IOUtil = (19, 8)"
| "nm_place _ = (3, 2)"

definition nm_supported :: "node_manager \<Rightarrow> nm_kind \<Rightarrow> bool" where
  "nm_supported nm k \<longleftrightarrow> (if k \<in> {InletTemperature, Power} then 0 else 4) < nm_version nm"

definition nm_value :: "nm_kind \<Rightarrow> nat list \<Rightarrow> nat" where
  "nm_value k bs = (case nm_place k of (off, n) \<Rightarrow> little_endian (take n (drop off bs)))"

text \<open>The environment answers the command of a kind in the world \<open>w\<close> with these bytes.\<close>

definition answers :: "'w nm_env \<Rightarrow> node_manager \<Rightarrow> nm_kind \<Rightarrow> 'w \<Rightarrow> 'w \<Rightarrow> nat list \<Rightarrow> bool" where
  "answers env nm k w w1 bs \<longleftrightarrow>
     (case nm_exec env (get_root_helper (nm_rootwrap env))
        (''ipmitool'' # split_char CHR '' '' (bridged nm (nm_command_name k))) w of
        (w', Inl e) \<Rightarrow> False
      | (w', Inr out) \<Rightarrow> w' = w1 \<and> output_tokens out = map hex_byte bs)
     \<and> length bs = nm_answer_length k \<and> list_all (\<lambda>b. b < 256) bs"

lemma hex_list_bytes:
  assumes "list_all (\<lambda>b. b < 256) bs"
  shows "hex_list (map hex_byte bs) = (rev (map hex_byte bs), Inr (int (little_endian bs)))"
proof (cases "bs = []")
  case False
  let ?t = "concat (map hex_byte (rev bs))"
  have chars: "hex_val c \<noteq> None" if "c \<in> set ?t" for c
    using that assms by (auto simp: hex_byte_def list_all_iff hex_val_lower less_mult_imp_div_less)
  obtain b rest where "rev bs = b # rest" using False by (cases "rev bs") auto
  then have t: "?t = hex_lower (b div 16) # hex_lower (b mod 16) # concat (map hex_byte rest)"
    by (simp add: hex_byte_def)
  have plain: "\<not> is_space c" "c \<noteq> CHR ''-''" "c \<noteq> CHR ''+''" "c \<noteq> CHR ''x''" "c \<noteq> CHR ''X''"
    if "c \<in> set ?t" for c
    using chars [OF that] by (auto simp: is_space_def hex_val_def)
  have ends: "hex_lower (b div 16) \<in> set ?t" "hex_lower (b mod 16) \<in> set ?t" unfolding t by simp_all
  have "dropWhile is_space ?t = ?t" "dropWhile is_space (rev ?t) = rev ?t"
    using plain(1) ends(1) by (simp_all only: dropWhile_eq_self_iff hd_rev rev_is_Nil_conv) (metis t list.discI list.sel(1), metis t last_in_set list.discI)
  then have "strip ?t = ?t" by (simp add: strip_def)
  moreover have "split_sign ?t = (False, ?t)"
    using plain(2,3) [OF ends(1)] by (simp add: t)
  moreover have "drop_0x ?t = ?t"
    using plain(4,5) [OF ends(2)] by (simp add: t drop_0x_def)
  moreover have "nat_of_hex 0 ?t = Some (little_endian bs)"
    using nat_of_hex_bytes [of "rev bs" 0] assms by (simp add: list_all_iff)
  moreover have "?t \<noteq> []" by (simp add: t)
  ultimately have "parse_hex ?t = Inr (int (little_endian bs))" by (simp add: parse_hex_def)
  then show ?thesis using False by (simp add: hex_list_def rev_map)
qed (simp add: hex_list_def)

lemma bridged_command:
  "nm_supported nm k \<Longrightarrow> nm_read env nm k =
     nm_command env (if k = CUPSIndex then NM_CUPS_INDEX_TEMPLATE
       else if uses_cups_cache k then NM_CUPS_UTILIZATION_TEMPLATE else NM_STATISTICS_TEMPLATE)
       (bridged nm (nm_command_name k))"
  by (rule ext, cases k)
    (simp_all add: nm_supported_def uses_cups_cache_def read_if_def read_inlet_temperature_def read_outlet_temperature_def
      read_power_all_def read_airflow_def read_cups_index_def read_cups_utilization_def)

text \<open>What the read of a supported kind gives: the fields of the answer.\<close>

lemma nm_read_answer:
  assumes "nm_supported nm k" "answers env nm k w w1 bs"
  shows "\<exists>d. nm_command_fields (nm_read env nm k) w = (w1, Inr d) \<and> dict_ok d \<and> d \<noteq> []
     \<and> (\<forall>k'. nm_command_name k' = nm_command_name k \<longrightarrow>
          (case nm_place k' of (off, n) \<Rightarrow> dict_get d (nm_field k') = Some (map hex_byte (take n (drop off bs)))))"
proof -
  let ?tm = "if k = CUPSIndex then NM_CUPS_INDEX_TEMPLATE
    else if uses_cups_cache k then NM_CUPS_UTILIZATION_TEMPLATE else NM_STATISTICS_TEMPLATE"
  from assms(2) obtain out where
    out: "nm_exec env (get_root_helper (nm_rootwrap env))
        (''ipmitool'' # split_char CHR '' '' (bridged nm (nm_command_name k))) w = (w1, Inr out)"
      "output_tokens out = map hex_byte bs" and len: "length bs = nm_answer_length k"
    by (auto simp: answers_def split: prod.splits sum.splits)
  have sum: "sum_list (map snd ?tm) = nm_answer_length k" and keys: "distinct (map fst ?tm)"
    and plain: "dict_get ?tm ''translate'' = None" and ne: "?tm \<noteq> []"
    by (cases k; simp add: template_defs uses_cups_cache_def)+
  have out_ne: "out \<noteq> []"
  proof
    assume "out = []"
    then have "output_tokens out = [[]]" by (simp add: output_tokens_def strip_def remove_char_def)
    then have "length bs = 1" using out(2) by (metis One_nat_def length_Cons length_map list.size(3))
    with len show False by (cases k) simp_all
  qed
  let ?d = "take_fields ?tm (map hex_byte bs)"
  have "nm_read env nm k w = (w1, Inr (Fields ?d))"
    unfolding bridged_command [OF assms(1)] nm_command_def
    using execute_ipmi_cmd_ok [of "nm_exec env" "nm_rootwrap env" "bridged nm (nm_command_name k)" w w1 out ?tm, OF out(1) out_ne ne plain]
      out(2) sum len by simp
  then have "nm_command_fields (nm_read env nm k) w = (w1, Inr ?d)"
    by (simp add: nm_command_fields_def answer_fields_def)
  moreover have "dict_ok ?d" "?d \<noteq> []"
    using keys ne take_fields_keys [of ?tm "map hex_byte bs"] by (auto simp: dict_ok_def)
  moreover have "case nm_place k' of (off, n) \<Rightarrow> dict_get ?d (nm_field k') = Some (map hex_byte (take n (drop off bs)))"
    if "nm_command_name k' = nm_command_name k" for k'
    using that by (cases k; cases k'; simp add: template_defs uses_cups_cache_def take_map drop_map)
  ultimately show ?thesis by blast
qed

lemma get_value_bytes:
  assumes "dict_get d (nm_field k) = Some (map hex_byte (take n (drop off bs)))" "nm_place k = (off, n)"
    and "list_all (\<lambda>b. b < 256) bs"
  shows "get_value k d st =
    (if uses_cups_cache k
     then st\<lparr>cups_cache := dict_set CACHE_KEY_CUPS
       (dict_set (nm_field k) (rev (map hex_byte (take n (drop off bs)))) d) (cups_cache st)\<rparr> else st,
     Inr (int (nm_value k bs)))"
proof -
  have "list_all (\<lambda>b. b < 256) (take n (drop off bs))"
    using assms(3) by (auto simp: list_all_iff dest: in_set_takeD in_set_dropD)
  from hex_list_bytes [OF this] show ?thesis
    by (simp add: get_value_def dict_item_def assms(1,2) nm_value_def)
qed

text \<open>Several pollsters in one cycle, on the same cache.\<close>

fun poll_kinds ::
  "'w nm_env \<Rightarrow> ipmi_conf \<Rightarrow> node_manager \<Rightarrow> pyval list \<Rightarrow> nm_kind list \<Rightarrow> 'w nm_state \<Rightarrow> 'w nm_state \<times> sample list" where
  "poll_kinds env conf nm rs [] st = (st, [])"
| "poll_kinds env conf nm rs (k # ks) st =
     (case nm_get_samples env conf nm k rs st of (st1, ss, e) \<Rightarrow>
     (case poll_kinds env conf nm rs ks st1 of (st2, ss') \<Rightarrow> (st2, ss @ ss')))"

definition nm_sample :: "ipmi_conf \<Rightarrow> nm_kind \<Rightarrow> nat list \<Rightarrow> sample" where
  "nm_sample conf k bs =
     ipmi_sample conf (nm_name k) (nm_unit k) (PInt (int (nm_value k bs))) (ic_host conf)"

lemma nm_get_samples_read:
  assumes "read_data env nm k st = (st1, Inr d)" "d \<noteq> []" "nm_place k = (off, n)"
    and "dict_get d (nm_field k) = Some (map hex_byte (take n (drop off bs)))" "list_all (\<lambda>b. b < 256) bs"
  shows "nm_get_samples env conf nm k rs st =
    (let st2 = st1\<lparr>polling_failures := 0\<rparr>
     in if uses_cups_cache k
        then st2\<lparr>cups_cache := dict_set CACHE_KEY_CUPS
          (dict_set (nm_field k) (rev (map hex_byte (take n (drop off bs)))) d) (cups_cache st1)\<rparr> else st2,
     [nm_sample conf k bs], Finished)"
  using get_value_bytes [OF assms(4,3,5), of "st1\<lparr>polling_failures := 0\<rparr>"] assms(2)
  by (simp add: nm_get_samples_def assms(1) Let_def nm_sample_def)

definition cups_fields :: "nm_kind set \<Rightarrow> nat list \<Rightarrow> fields \<Rightarrow> bool" where
  "cups_fields ks bs d \<longleftrightarrow> d \<noteq> [] \<and>
     (\<forall>k \<in> ks. case nm_place k of (off, n) \<Rightarrow> dict_get d (nm_field k) = Some (map hex_byte (take n (drop off bs))))"

lemma nm_field_inj: "uses_cups_cache k \<Longrightarrow> uses_cups_cache k' \<Longrightarrow> nm_field k = nm_field k' \<Longrightarrow> k = k'"
  by (cases k; cases k'; simp add: uses_cups_cache_def)

text \<open>
  A utilisation that is read from the cache entry \<open>d\<close> leaves the entries of the others alone.
\<close>

lemma cups_step:
  assumes "read_data env nm k st = (st0, Inr d)" "cups_fields (insert k ks) bs d" "list_all (\<lambda>b. b < 256) bs"
    and "uses_cups_cache k" "\<forall>k' \<in> ks. uses_cups_cache k'" "k \<notin> ks"
  shows "\<exists>st1 d1. nm_get_samples env conf nm k rs st = (st1, [nm_sample conf k bs], Finished)
    \<and> nm_world st1 = nm_world st0 \<and> dict_get (cups_cache st1) CACHE_KEY_CUPS = Some d1 \<and> cups_fields ks bs d1"
proof -
  obtain off n where pl: "nm_place k = (off, n)" by fastforce
  let ?d1 = "dict_set (nm_field k) (rev (map hex_byte (take n (drop off bs)))) d"
  let ?st1 = "st0\<lparr>polling_failures := 0, cups_cache := dict_set CACHE_KEY_CUPS ?d1 (cups_cache st0)\<rparr>"
  from assms(2) pl have d: "d \<noteq> []" "dict_get d (nm_field k) = Some (map hex_byte (take n (drop off bs)))"
    by (auto simp: cups_fields_def)
  have "nm_get_samples env conf nm k rs st = (?st1, [nm_sample conf k bs], Finished)"
    using nm_get_samples_read [OF assms(1) d(1) pl d(2) assms(3)] assms(4) by (simp add: Let_def)
  moreover have "cups_fields ks bs ?d1"
    unfolding cups_fields_def
  proof (intro conjI ballI)
    fix k' assume k': "k' \<in> ks"
    then have "nm_field k' \<noteq> nm_field k"
      using assms(4-6) nm_field_inj [of k' k] by blast
    then show "case nm_place k' of (off, n) \<Rightarrow> dict_get ?d1 (nm_field k') = Some (map hex_byte (take n (drop off bs)))"
      using assms(2) k' by (auto simp: cups_fields_def dict_get_set split: prod.splits)
  qed (use d(1) in \<open>cases d; auto\<close>)
  ultimately show ?thesis by (intro exI [of _ ?st1] exI [of _ ?d1] conjI) (simp_all add: dict_get_set)
qed

text \<open>With the answer in the cache no command is run.\<close>

lemma poll_kinds_cached:
  assumes "list_all uses_cups_cache ks" "distinct ks" "list_all (\<lambda>b. b < 256) bs"
    and "dict_get (cups_cache st) CACHE_KEY_CUPS = Some d" "cups_fields (set ks) bs d"
  shows "\<exists>st1. poll_kinds env conf nm rs ks st = (st1, map (\<lambda>k. nm_sample conf k bs) ks) \<and> nm_world st1 = nm_world st"
  using assms
proof (induction ks arbitrary: st d)
  case (Cons k ks)
  have "d \<noteq> []" using Cons.prems(5) by (simp add: cups_fields_def)
  then have "read_data env nm k st = (st\<lparr>cups_cache := dict_set CACHE_KEY_CUPS d (cups_cache st)\<rparr>, Inr d)"
    using Cons.prems(1,4) by (simp add: read_data_def dict_get_default_def)
  from cups_step [OF this _ Cons.prems(3), of "set ks" conf rs] Cons.prems
  obtain st1 d1 where st1: "nm_get_samples env conf nm k rs st = (st1, [nm_sample conf k bs], Finished)"
    "nm_world st1 = nm_world st" "dict_get (cups_cache st1) CACHE_KEY_CUPS = Some d1" "cups_fields (set ks) bs d1"
    by (auto simp: list_all_iff)
  from Cons.IH [OF _ _ Cons.prems(3) st1(3,4)] Cons.prems(1,2) st1(2) show ?case
    by (auto simp: st1(1))
qed simp

section \<open>Properties\<close>

text \<open>
  C21: A node manager pollster decodes what the device answers. When the version supports the
  reading and the command prints the bytes \<open>bs\<close>, one sample is yielded whose volume is the
  field of this pollster read with the least significant byte first, which is below 256 to the
  number of its bytes; the failures are forgotten.
\<close>

theorem node_reading_decoded:
  assumes "nm_supported nm k" "answers env nm k (nm_world st) w1 bs" "dict_get (cups_cache st) CACHE_KEY_CUPS = None"
  shows "\<exists>st1. nm_get_samples env conf nm k rs st = (st1, [nm_sample conf k bs], Finished)
    \<and> polling_failures st1 = 0 \<and> nm_world st1 = w1 \<and> nm_value k bs < 256 ^ snd (nm_place k)"
proof -
  obtain off n where pl: "nm_place k = (off, n)" by fastforce
  from nm_read_answer [OF assms(1,2)] pl obtain d where d: "nm_command_fields (nm_read env nm k) (nm_world st) = (w1, Inr d)"
    "dict_ok d" "d \<noteq> []" "dict_get d (nm_field k) = Some (map hex_byte (take n (drop off bs)))" by fastforce
  have upd: "dict_update [] d = d" using dict_update_fresh [of d "[]"] d(2) by (simp add: dict_ok_def)
  have bytes: "list_all (\<lambda>b. b < 256) bs" "length bs = nm_answer_length k" using assms(2) by (auto simp: answers_def)
  obtain st0 where st0: "read_data env nm k st = (st0, Inr d)" "nm_world st0 = w1"
    using d(1) assms(3) upd
    by (cases "uses_cups_cache k") (auto simp: read_data_def dict_get_default_def)
  from nm_get_samples_read [OF st0(1) d(3) pl d(4) bytes(1), of conf rs] st0(2)
  have "\<exists>st1. nm_get_samples env conf nm k rs st = (st1, [nm_sample conf k bs], Finished)
    \<and> polling_failures st1 = 0 \<and> nm_world st1 = w1" by (auto simp: Let_def)
  moreover have "length (take n (drop off bs)) = n" using pl bytes(2) by (cases k) auto
  then have "nm_value k bs < 256 ^ snd (nm_place k)"
    using little_endian_bound [of "take n (drop off bs)"] bytes(1) pl
    by (auto simp: nm_value_def list_all_iff dest: in_set_takeD in_set_dropD)
  ultimately show ?thesis by blast
qed

text \<open>
  The three utilisation pollsters share one command in a polling cycle: in whichever order
  they run, the first one runs the command, the others read the cached answer, and each
  yields its own utilisation.
\<close>

theorem cups_read_once:
  assumes "set ks \<subseteq> {CPUUtil, MemUtil, IOUtil}" "distinct ks" "ks \<noteq> []" "nm_supported nm CPUUtil"
    and "answers env nm CPUUtil (nm_world st) w1 bs" "cups_cache st = []"
  shows "\<exists>st1. poll_kinds env conf nm rs ks st = (st1, map (\<lambda>k. nm_sample conf k bs) ks) \<and> nm_world st1 = w1"
proof -
  from assms(3) obtain k ks' where ks: "ks = k # ks'" by (cases ks) auto
  have all: "\<forall>k' \<in> set ks. uses_cups_cache k'" using assms(1) by (auto simp: uses_cups_cache_def)
  have same: "nm_command_name k' = nm_command_name CPUUtil \<and> nm_read env nm k' = read_cups_utilization env nm"
    if "k' \<in> set ks" for k' using that assms(1) by (cases k') auto
  have bytes: "list_all (\<lambda>b. b < 256) bs" using assms(5) by (simp add: answers_def)
  from nm_read_answer [OF assms(4,5)] obtain d where
    d: "nm_command_fields (read_cups_utilization env nm) (nm_world st) = (w1, Inr d)" "dict_ok d" "d \<noteq> []"
      "\<forall>k'. nm_command_name k' = nm_command_name CPUUtil \<longrightarrow>
       (case nm_place k' of (off, n) \<Rightarrow> dict_get d (nm_field k') = Some (map hex_byte (take n (drop off bs))))" by auto
  have upd: "dict_update [] d = d" using dict_update_fresh [of d "[]"] d(2) by (simp add: dict_ok_def)
  have "read_data env nm k st = (st\<lparr>nm_world := w1, cups_cache := [(CACHE_KEY_CUPS, d)]\<rparr>, Inr d)"
    using d(1) upd assms(6) all same [of k] by (simp add: ks read_data_def dict_get_default_def)
  moreover have "cups_fields (insert k (set ks')) bs d" using d(3,4) same by (simp add: cups_fields_def ks)
  ultimately obtain st1 d1 where st1: "nm_get_samples env conf nm k rs st = (st1, [nm_sample conf k bs], Finished)"
    "nm_world st1 = w1" "dict_get (cups_cache st1) CACHE_KEY_CUPS = Some d1" "cups_fields (set ks') bs d1"
    using cups_step [OF _ _ bytes, of env nm k st _ d "set ks'" conf rs] all assms(2) by (auto simp: ks)
  from poll_kinds_cached [OF _ _ bytes st1(3,4), of env conf nm rs] all assms(2) st1(1,2)
  show ?thesis by (auto simp: ks list_all_iff)
qed

text \<open>The state after some cycles.\<close>

definition nm_after ::
  "'w nm_env \<Rightarrow> ipmi_conf \<Rightarrow> node_manager \<Rightarrow> nm_kind \<Rightarrow> pyval list \<Rightarrow> nat \<Rightarrow> 'w nm_state \<Rightarrow> 'w nm_state" where
  "nm_after env conf nm k rs n st = ((\<lambda>s. fst (nm_cycle env conf nm k rs s)) ^^ n) st"

definition sensor_after ::
  "'w executor \<Rightarrow> string \<Rightarrow> bool \<Rightarrow> ipmi_conf \<Rightarrow> string \<Rightarrow> pyval list \<Rightarrow> nat \<Rightarrow> 'w sensor_state \<Rightarrow> 'w sensor_state" where
  "sensor_after exec rootwrap support conf metric rs n st =
     ((\<lambda>s. fst (sensor_cycle exec rootwrap support conf metric rs s)) ^^ n) st"

text \<open>
  C22: A pollster of the node manager is disabled exactly when it fails too often in a row.
  Over the cycles from its setup, the \<open>n\<close>-th ends with the permanent error precisely when
  retries are limited, its read fails with an IPMI error, and since some cycle without a
  successful read between there have been more such failures than tolerated. With a negative
  limit it is never disabled.
\<close>

theorem poller_disabled_exactly:
  "snd (nm_cycle env conf nm k rs (nm_after env conf nm k rs n \<lparr>polling_failures = 0, cups_cache = c, nm_world = w\<rparr>))
     = PermanentError rs \<longleftrightarrow>
   (let read = (\<lambda>m. nm_outcome env nm k (nm_after env conf nm k rs m \<lparr>polling_failures = 0, cups_cache = c, nm_world = w\<rparr>))
    in 0 \<le> ic_polling_retry conf \<and> ipmi_failure (read n) \<and>
       (\<exists>j \<le> n. (\<forall>m \<in> {j..n}. \<not> is_ok (read m))
          \<and> ic_polling_retry conf < int (card {m \<in> {j..n}. ipmi_failure (read m)})))"
  unfolding nm_after_def Let_def by (rule node_poller.disabled_iff [unfolded node_poller.state_at_def]) simp

lemma sensor_poller_disabled_exactly:
  "snd (sensor_cycle exec rootwrap support conf metric rs
      (sensor_after exec rootwrap support conf metric rs n \<lparr>sensor_failures = 0, sensor_world = w\<rparr>)) = PermanentError rs \<longleftrightarrow>
   (let read = (\<lambda>m. sensor_outcome exec rootwrap support metric
          (sensor_after exec rootwrap support conf metric rs m \<lparr>sensor_failures = 0, sensor_world = w\<rparr>))
    in 0 \<le> ic_polling_retry conf \<and> ipmi_failure (read n) \<and>
       (\<exists>j \<le> n. (\<forall>m \<in> {j..n}. \<not> is_ok (read m))
          \<and> ic_polling_retry conf < int (card {m \<in> {j..n}. ipmi_failure (read m)})))"
  unfolding sensor_after_def Let_def by (rule sensor_poller.disabled_iff [unfolded sensor_poller.state_at_def]) simp

text \<open>
  A sensor listing is read completely. It is accepted precisely when every block with
  content names its sensor and some block has a reading and a known type; then the sensor
  filed under a type and an identifier is the last block of the listing with that type, that
  identifier and a reading.
\<close>

theorem sensor_listing_exact:
  "(is_ok (translate_output out) \<longleftrightarrow>
      list_all (\<lambda>d. d = [] \<or> dict_get d ''Sensor ID'' \<noteq> None) (blocks out)
      \<and> (\<exists>ty sid. list_ex (sensor_fits ty sid) (blocks out)))
   \<and> (\<forall>ss ty sid. translate_output out = Inr ss \<longrightarrow>
        sensor_at ss ty sid = find (sensor_fits ty sid) (rev (blocks out)))"
proof (intro conjI allI impI)
  show "sensor_at ss ty sid = find (sensor_fits ty sid) (rev (blocks out))" if "translate_output out = Inr ss" for ss ty sid
    using that add_sensors_at [of "blocks out" "[]" ss ty sid]
    by (auto simp: translate_output_def bindr_Inr_iff sensor_at_def split: if_splits option.splits)
  show "is_ok (translate_output out) \<longleftrightarrow>
      list_all (\<lambda>d. d = [] \<or> dict_get d ''Sensor ID'' \<noteq> None) (blocks out)
      \<and> (\<exists>ty sid. list_ex (sensor_fits ty sid) (blocks out))"
  proof (cases "list_all (\<lambda>d. d = [] \<or> dict_get d ''Sensor ID'' \<noteq> None) (blocks out)")
    case True
    then obtain ss where ss: "add_sensors (blocks out) [] = Inr ss"
      using add_sensors_ok [of "blocks out" "[]"] by (auto simp: is_ok_iff)
    have "(\<exists>ty sid. sensor_at ss ty sid \<noteq> None) \<longleftrightarrow> (\<exists>ty sid. list_ex (sensor_fits ty sid) (blocks out))"
      using add_sensors_at [OF ss] find_None_iff [of _ "rev (blocks out)"]
      by (auto simp: list_ex_iff sensor_at_def split: option.splits)
    moreover have "ss \<noteq> [] \<longleftrightarrow> (\<exists>ty sid. sensor_at ss ty sid \<noteq> None)"
      using add_sensors_filled [OF _ ss] by (intro filled_nonempty) (simp add: filled_def)
    ultimately show ?thesis using True ss by (auto simp: translate_output_def)
  next
    case False
    then show ?thesis using add_sensors_ok [of "blocks out" "[]"] by (auto simp: translate_output_def bindr_def is_ok_def split: sum.splits)
  qed
qed

text \<open>The message of Ironic for some sensors, and what a sample should be made of.\<close>

definition valid_sensor :: "string \<Rightarrow> pymap \<Rightarrow> (string \<times> pyval \<times> string) option" where
  "valid_sensor node p =
     (case (dict_get p ''Sensor ID'', dict_get p ''Sensor Reading'') of
        (Some (PStr sid), Some (PStr reading)) \<Rightarrow>
          (if reading = ''Disabled'' then None
           else (case parse_reading reading of
               Inl e \<Rightarrow> None
             | Inr (v, u) \<Rightarrow> Some (node @ ''-'' @ transform_id sid, PFloat v, u)))
      | _ \<Rightarrow> None)"

definition text_or_absent :: "pymap \<Rightarrow> string \<Rightarrow> bool" where
  "text_or_absent p k = (case dict_get p k of Some (PStr _) \<Rightarrow> True | None \<Rightarrow> True | _ \<Rightarrow> False)"

lemma sensor_resource_id_eq:
  assumes "dict_get mp ''node_uuid'' = Some node" "text_or_absent p ''Sensor ID''"
  shows "sensor_resource_id rp mp (PDict p) =
    (case dict_get p ''Sensor ID'' of Some (PStr s) \<Rightarrow> Inr (py_str rp node @ ''-'' @ transform_id s) | _ \<Rightarrow> Inl InvalidSensorData)"
  using assms by (auto simp: sensor_resource_id_def text_or_absent_def dict_item_def py_getitem_def split: option.splits pyval.splits)

lemma parse_reading_error: "parse_reading s = Inl e \<Longrightarrow> e = InvalidSensorData"
  by (auto simp: parse_reading_def split: list.splits option.splits)

text \<open>
  From a notification of Ironic every valid sensor becomes one sample and the others are
  left out. When the message has its keys and the identifiers and readings of the sensors are
  text, the samples are, in order, those of the sensors that have both, are not disabled and
  whose reading is a number with a unit.
\<close>

theorem ironic_samples_exact:
  assumes "dict_get message ''payload'' = Some (PDict mp)" "get_payloads metric mp = Inr (map PDict sensors)"
    and "dict_get mp ''node_uuid'' = Some (PStr node)" "dict_get mp ''timestamp'' = Some (PStr ts)"
    and "dict_get mp ''event_type'' = Some et" "dict_get message ''publisher_id'' = Some pub"
    and "ne_isoform env ts = Inr time" "ts \<noteq> []"
    and "list_all (\<lambda>p. text_or_absent p ''Sensor ID'' \<and> text_or_absent p ''Sensor Reading'') sensors"
  shows "\<exists>ss. process_sensor_notification env metric message = (ss, Inr ())
    \<and> map (\<lambda>s. (s_resource_id s, s_volume s, s_unit s)) ss = List.map_filter (valid_sensor node) sensors
    \<and> list_all (\<lambda>s. s_timestamp s = Some time) ss"
proof -
  have one: "payload_sample env metric message mp (PDict p) = Inl InvalidSensorData \<and> valid_sensor node p = None
      \<or> payload_sample env metric message mp (PDict p) = Inr None \<and> valid_sensor node p = None
      \<or> (\<exists>s. payload_sample env metric message mp (PDict p) = Inr (Some s)
           \<and> valid_sensor node p = Some (s_resource_id s, s_volume s, s_unit s) \<and> s_timestamp s = Some time)"
    if "text_or_absent p ''Sensor ID''" "text_or_absent p ''Sensor Reading''" for p
    using that assms(1-8)
    by (cases "dict_get p ''Sensor ID''"; cases "dict_get p ''Sensor Reading''")
      (auto simp: payload_sample_def sensor_resource_id_eq text_or_absent_def valid_sensor_def package_payload_def
        dict_item_def validate_reading_def reading_of_def from_notification_def notification_metadata_def
        new_sample_def dict_get_default_def dest: parse_reading_error split: pyval.splits sum.splits)
  have "\<exists>ss. payload_samples env metric message mp (map PDict sensors) = (ss, Inr ())
    \<and> map (\<lambda>s. (s_resource_id s, s_volume s, s_unit s)) ss = List.map_filter (valid_sensor node) sensors
    \<and> list_all (\<lambda>s. s_timestamp s = Some time) ss"
    using assms(9)
  proof (induction sensors)
    case (Cons p ps)
    then show ?case using one [of p] by (auto simp: List.map_filter_simps)
  qed (simp add: List.map_filter_simps)
  then show ?thesis using assms(1,2) by (simp add: process_sensor_notification_def)
qed

text \<open>A message without a time raises, whatever the documentation of the handler says.\<close>

lemma ironic_missing_timestamp:
  assumes "dict_get message ''payload'' = Some (PDict mp)" "get_payloads metric mp = Inr (PDict p # ps)"
    and "dict_get mp ''node_uuid'' = Some (PStr node)" "dict_get p ''Sensor ID'' = Some (PStr sid)"
    and "dict_get message ''publisher_id'' = Some pub" "dict_get mp ''timestamp'' = None"
  shows "process_sensor_notification env metric message = ([], Inl (KeyError ''timestamp''))"
  using assms by (simp add: process_sensor_notification_def payload_sample_def sensor_resource_id_eq text_or_absent_def
      package_payload_def dict_item_def)

section \<open>Witnesses\<close>

definition demo_power :: "nat list" where
  "demo_power = [87, 1, 0, 42, 1, 0, 0, 255, 1, 100, 0, 1, 2, 3, 4, 5, 6, 7, 8, 80]"

definition demo_cups :: "nat list" where
  "demo_cups = [87, 1, 0, 33, 0, 0, 0, 0, 0, 0, 0, 5, 1, 0, 0, 0, 0, 0, 0, 7, 0, 0, 0, 0, 0, 0, 0]"

text \<open>A device that prints these bytes in lines of sixteen, and counts the commands.\<close>

definition demo_exec :: "nat executor" where
  "demo_exec helper cmd w =
     (w + 1,
      Inr (if last cmd = ''0x05''
        then '' 57 01 00 21 00 00 00 00 00 00 00 05 01 00 00 00'' @ [CHR 0x0A] @ '' 00 00 00 07 00 00 00 00 00 00 00'' @ [CHR 0x0A]
        else '' 57 01 00 2a 01 00 00 ff 01 64 00 01 02 03 04 05'' @ [CHR 0x0A] @ '' 06 07 08 50'' @ [CHR 0x0A]))"

definition demo_nm_env :: "nat nm_env" where
  "demo_nm_env = \<lparr>nm_exec = demo_exec, nm_rootwrap = ''rootwrap.conf'', nm_mkstemp = (\<lambda>w. (w, ''/tmp/sdr'')),
     nm_read_file = (\<lambda>p w. Inr []), nm_init_retry = 3\<rparr>"

definition broken_nm_env :: "nat nm_env" where
  "broken_nm_env = demo_nm_env\<lparr>nm_exec := (\<lambda>helper cmd w. (w, Inl ProcessExecutionError))\<rparr>"

definition demo_nm :: node_manager where
  "demo_nm = \<lparr>nm_version = 5, channel_slave = ''-b 0x0 -t 0x2c''\<rparr>"

definition demo_ipmi_conf :: ipmi_conf where
  "demo_ipmi_conf = \<lparr>ic_host = ''host'', ic_polling_retry = 1, ic_source = ''openstack'', ic_uuid = ''id''\<rparr>"

definition demo_nm_state :: "nat nm_state" where
  "demo_nm_state = \<lparr>polling_failures = 0, cups_cache = [], nm_world = 0\<rparr>"

theorem node_reading_decoded_witness:
  "nm_value Power demo_power = 298
   \<and> (\<exists>st1. nm_get_samples demo_nm_env demo_ipmi_conf demo_nm Power [] demo_nm_state =
        (st1, [nm_sample demo_ipmi_conf Power demo_power], Finished) \<and> nm_world st1 = 1)"
proof -
  have "answers demo_nm_env demo_nm Power 0 1 demo_power" "nm_supported demo_nm Power" by code_simp+
  with node_reading_decoded [of demo_nm Power demo_nm_env demo_nm_state 1 demo_power demo_ipmi_conf "[]"]
  show ?thesis by (auto simp: demo_nm_state_def nm_value_def demo_power_def)
qed

theorem cups_read_once_witness:
  "map (\<lambda>k. nm_value k demo_cups) [MemUtil, CPUUtil, IOUtil] = [261, 33, 7]
   \<and> (\<exists>st1. poll_kinds demo_nm_env demo_ipmi_conf demo_nm [] [MemUtil, CPUUtil, IOUtil] demo_nm_state =
        (st1, map (\<lambda>k. nm_sample demo_ipmi_conf k demo_cups) [MemUtil, CPUUtil, IOUtil]) \<and> nm_world st1 = 1)"
proof -
  have a: "answers demo_nm_env demo_nm CPUUtil 0 1 demo_cups" "nm_supported demo_nm CPUUtil" by code_simp+
  have "\<exists>st1. poll_kinds demo_nm_env demo_ipmi_conf demo_nm [] [MemUtil, CPUUtil, IOUtil] demo_nm_state =
        (st1, map (\<lambda>k. nm_sample demo_ipmi_conf k demo_cups) [MemUtil, CPUUtil, IOUtil]) \<and> nm_world st1 = 1"
    using a by (intro cups_read_once) (simp_all add: demo_nm_state_def)
  then show ?thesis by (simp add: nm_value_def demo_cups_def)
qed

theorem poller_disabled_exactly_witness:
  "snd (nm_cycle broken_nm_env demo_ipmi_conf demo_nm Power [PStr ''r'']
      (nm_after broken_nm_env demo_ipmi_conf demo_nm Power [PStr ''r''] 1 demo_nm_state)) = PermanentError [PStr ''r'']
   \<and> (\<exists>j \<le> 1. (\<forall>m \<in> {j..1}. \<not> is_ok (nm_outcome broken_nm_env demo_nm Power
         (nm_after broken_nm_env demo_ipmi_conf demo_nm Power [PStr ''r''] m demo_nm_state)))
       \<and> 1 < int (card {m \<in> {j..1}. ipmi_failure (nm_outcome broken_nm_env demo_nm Power
         (nm_after broken_nm_env demo_ipmi_conf demo_nm Power [PStr ''r''] m demo_nm_state))}))"
proof -
  have a: "snd (nm_cycle broken_nm_env demo_ipmi_conf demo_nm Power [PStr ''r'']
      (nm_after broken_nm_env demo_ipmi_conf demo_nm Power [PStr ''r''] 1 demo_nm_state)) = PermanentError [PStr ''r'']"
    by code_simp
  have r: "ic_polling_retry demo_ipmi_conf = 1" by (simp add: demo_ipmi_conf_def)
  from a poller_disabled_exactly [of broken_nm_env demo_ipmi_conf demo_nm Power "[PStr ''r'']" 1 "[]" 0]
  show ?thesis unfolding demo_nm_state_def Let_def r by blast
qed

definition demo_listing :: string where
  "demo_listing =
     ''Sensor ID              : Inlet Temp (0x4)'' @ [CHR 0x0A] @ '' Sensor Type (Threshold)  : Temperature (0x01)'' @ [CHR 0x0A]
     @ '' Sensor Reading        : 23 (+/- 1) degrees C'' @ [CHR 0x0A, CHR 0x0A] @ ''Sensor ID : Fan (0x5)'' @ [CHR 0x0A]"

theorem sensor_listing_exact_witness:
  "\<exists>ss. translate_output demo_listing = Inr ss
     \<and> sensor_at ss ''Temperature'' ''Inlet Temp (0x4)''
       = find (sensor_fits ''Temperature'' ''Inlet Temp (0x4)'') (rev (blocks demo_listing))
     \<and> sensor_at ss ''Temperature'' ''Inlet Temp (0x4)'' \<noteq> None"
proof -
  have "is_ok (translate_output demo_listing)" by code_simp
  then obtain ss where ss: "translate_output demo_listing = Inr ss" by (auto simp: is_ok_iff)
  have "find (sensor_fits ''Temperature'' ''Inlet Temp (0x4)'') (rev (blocks demo_listing)) \<noteq> None" by code_simp
  then show ?thesis using ss sensor_listing_exact [of demo_listing] by auto
qed

definition demo_ironic :: pymap where
  "demo_ironic =
    [(''publisher_id'', PStr ''ironic''),
     (''payload'', PDict
       [(''node_uuid'', PStr ''n1''), (''timestamp'', PStr ''t''), (''event_type'', PStr ''hardware.ipmi.metrics.update''),
        (''payload'', PDict [(''Temperature'', PDict
          [(''a'', PDict [(''Sensor ID'', PStr ''Inlet Temp (0x4)''), (''Sensor Reading'', PStr ''23 (+/- 1) degrees C'')]),
           (''b'', PDict [(''Sensor ID'', PStr ''DIMM''), (''Sensor Reading'', PStr ''Disabled'')])])])])]"

definition demo_notification_env :: notification_env where
  "demo_notification_env =
     \<lparr>ne_source = ''openstack'', ne_uuid = ''id'', ne_isoform = (\<lambda>s. Inr s), ne_repr = (\<lambda>v. [])\<rparr>"

theorem ironic_samples_exact_witness:
  "\<exists>ss. process_sensor_notification demo_notification_env ''Temperature'' demo_ironic = (ss, Inr ())
    \<and> map (\<lambda>s. (s_resource_id s, s_volume s, s_unit s)) ss = [(''n1-inlet_temp_(0x4)'', PFloat (Fin 23), ''C'')]"
proof -
  let ?mp = "[(''node_uuid'', PStr ''n1''), (''timestamp'', PStr ''t''), (''event_type'', PStr ''hardware.ipmi.metrics.update''),
        (''payload'', PDict [(''Temperature'', PDict
          [(''a'', PDict [(''Sensor ID'', PStr ''Inlet Temp (0x4)''), (''Sensor Reading'', PStr ''23 (+/- 1) degrees C'')]),
           (''b'', PDict [(''Sensor ID'', PStr ''DIMM''), (''Sensor Reading'', PStr ''Disabled'')])])])]"
  let ?sensors = "[[(''Sensor ID'', PStr ''Inlet Temp (0x4)''), (''Sensor Reading'', PStr ''23 (+/- 1) degrees C'')],
      [(''Sensor ID'', PStr ''DIMM''), (''Sensor Reading'', PStr ''Disabled'')]]"
  have "\<exists>ss. process_sensor_notification demo_notification_env ''Temperature'' demo_ironic = (ss, Inr ())
    \<and> map (\<lambda>s. (s_resource_id s, s_volume s, s_unit s)) ss = List.map_filter (valid_sensor ''n1'') ?sensors
    \<and> list_all (\<lambda>s. s_timestamp s = Some ''t'') ss"
  proof (rule ironic_samples_exact [where ts = "''t''" and pub = "PStr ''ironic''"
        and et = "PStr ''hardware.ipmi.metrics.update''"])
    show "dict_get demo_ironic ''payload'' = Some (PDict ?mp)" by (simp add: demo_ironic_def)
    show "get_payloads ''Temperature'' ?mp = Inr (map PDict ?sensors)"
      by (simp add: get_payloads_def dict_item_def py_getitem_def)
    show "list_all (\<lambda>p. text_or_absent p ''Sensor ID'' \<and> text_or_absent p ''Sensor Reading'') ?sensors"
      by (simp add: text_or_absent_def)
  qed (simp_all add: demo_ironic_def demo_notification_env_def)
  moreover have "List.map_filter (valid_sensor ''n1'') ?sensors = [(''n1-inlet_temp_(0x4)'', PFloat (Fin 23), ''C'')]"
    by code_simp
  ultimately show ?thesis by auto
qed

text \<open>
  When the value of a cached answer has been read, its bytes are the other way round: a second
  read of the same kind in a cycle would give another number.
\<close>

lemma cached_value_swapped:
  assumes "list_all (\<lambda>b. b < 256) bs"
  shows "snd (hex_list (fst (hex_list (map hex_byte bs)))) = Inr (int (little_endian (rev bs)))"
  using hex_list_bytes [OF assms] hex_list_bytes [of "rev bs"] assms by (simp add: rev_map list_all_iff)

end
