(* ===== verification/Hardware_Snmp.thy ===== *)
theory Hardware_Snmp
  imports Agent_Polling Url
begin

text \<open>
  The SNMP inspector of hardware nodes (\<^verbatim>\<open>ceilometer/hardware/inspector/snmp.py\<close>): object
  identifiers are queried once per host and polling cycle and kept in a cache; meters are read
  from the cache, one value for an exact identifier and one per row for a prefix.

  The SNMP library is the record \<open>snmp\<close>: a get and a bulk request, the class of absent objects,
  and how a row is printed. The values of the library are Python values. \<open>eval\<close> of a type in a
  definition file is a parameter.
\<close>

section \<open>Hosts and requests\<close>

record snmp_host =
  sh_scheme :: string
  sh_hostname :: "string option"
  sh_port :: "int option"
  sh_username :: "string option"
  sh_password :: "string option"
  sh_query :: string
  sh_url :: string

datatype snmp_auth = UsmUserData "string option" "(string, string) pydict" | CommunityData string

type_synonym binds = "(string \<times> pyval) list"

text \<open>The answer of the library: an error indication, a status with its index, and the data.\<close>

record 'd snmp_return =
  err_indication :: "string option"
  err_status :: "string option"
  err_index :: nat
  var_binds :: 'd

record 'w snmp =
  snmp_get :: "snmp_auth \<Rightarrow> string option \<Rightarrow> int \<Rightarrow> string list \<Rightarrow> 'w \<Rightarrow> 'w \<times> binds snmp_return"
  snmp_bulk :: "snmp_auth \<Rightarrow> string option \<Rightarrow> int \<Rightarrow> string list \<Rightarrow> 'w \<Rightarrow> 'w \<times> binds list snmp_return"
  no_such_object :: "pyval \<Rightarrow> bool"
  show_bind :: "string \<times> pyval \<Rightarrow> string"
  snmp_repr :: "pyval \<Rightarrow> string"

text \<open>
  \<open>parse_snmp_return\<close>: the description of an error, or none. For a bulk request the bindings
  of an error are those of the last row.
\<close>

definition error_place :: "'w snmp \<Rightarrow> nat \<Rightarrow> binds \<Rightarrow> string res" where
  "error_place sn idx bs =
     (if idx = 0 then Inr ''?''
      else if idx - 1 < length bs then Inr (show_bind sn (bs ! (idx - 1))) else Inl IndexError)"

definition parse_snmp_return :: "'w snmp \<Rightarrow> 'd snmp_return \<Rightarrow> ('d \<Rightarrow> binds res) \<Rightarrow> string option res" where
  "parse_snmp_return sn ret last_binds =
     (case err_indication ret of
        Some m \<Rightarrow> Inr (Some m)
      | None \<Rightarrow>
          (case err_status ret of
             None \<Rightarrow> Inr None
           | Some st \<Rightarrow>
               bindr (last_binds (var_binds ret)) (\<lambda>bs.
               bindr (error_place sn (err_index ret) bs) (\<lambda>p. Inr (Some (st @ '' at '' @ p))))))"

definition last_row :: "binds list \<Rightarrow> binds res" where
  "last_row t = (if t = [] then Inl IndexError else Inr (last t))"

section \<open>Authentication\<close>

definition auth_proto_mapping :: "(string, string) pydict" where
  "auth_proto_mapping = [(''md5'', ''usmHMACMD5AuthProtocol''), (''sha'', ''usmHMACSHAAuthProtocol'')]"

definition priv_proto_mapping :: "(string, string) pydict" where
  "priv_proto_mapping =
     [(''des'', ''usmDESPrivProtocol''), (''aes128'', ''usmAesCfb128Protocol''), (''3des'', ''usm3DESEDEPrivProtocol''),
      (''aes192'', ''usmAesCfb192Protocol''), (''aes256'', ''usmAesCfb256Protocol'')]"

text \<open>\<open>options.get(key, [None])[-1]\<close>\<close>

definition last_option :: "(string, string list) pydict \<Rightarrow> string \<Rightarrow> string option" where
  "last_option opts k = (case dict_get opts k of None \<Rightarrow> None | Some vs \<Rightarrow> if vs = [] then None else Some (last vs))"

definition proto_kwarg :: "(string, string list) pydict \<Rightarrow> string \<Rightarrow> (string, string) pydict \<Rightarrow> string \<Rightarrow> (string, string) pydict" where
  "proto_kwarg opts key mapping kwarg =
     (case last_option opts key of
        None \<Rightarrow> []
      | Some o1 \<Rightarrow> (case dict_get mapping o1 of None \<Rightarrow> [] | Some v \<Rightarrow> [(kwarg, v)]))"

definition nonempty_kwarg :: "string \<Rightarrow> string option \<Rightarrow> (string, string) pydict" where
  "nonempty_kwarg k v = (case v of None \<Rightarrow> [] | Some s \<Rightarrow> if s = [] then [] else [(k, s)])"

definition get_auth_strategy :: "snmp_host \<Rightarrow> snmp_auth" where
  "get_auth_strategy host =
     (let opts = parse_qs (sh_query host);
          kwargs = proto_kwarg opts ''auth_proto'' auth_proto_mapping ''authProtocol''
            @ proto_kwarg opts ''priv_proto'' priv_proto_mapping ''privProtocol''
            @ nonempty_kwarg ''privKey'' (last_option opts ''priv_password'')
            @ nonempty_kwarg ''authKey'' (sh_password host)
      in if kwargs \<noteq> [] then UsmUserData (sh_username host) kwargs
         else CommunityData (case sh_username host of None \<Rightarrow> ''public'' | Some u \<Rightarrow> if u = [] then ''public'' else u))"

section \<open>Meters\<close>

definition EXACT :: string where "EXACT = ''type_exact''"
definition PREFIX :: string where "PREFIX = ''type_prefix''"

type_synonym converter = "(pyval \<Rightarrow> pyval res) option"
type_synonym oid_def = "string \<times> converter"

record snmp_meter =
  matching_type :: string
  metric_oid :: oid_def
  post_op :: "string option"
  meter_metadata :: "(string, oid_def) pydict"

text \<open>
  \<open>prepare_params\<close> of the inspector section of a meter definition; \<open>ev\<close> is \<open>eval\<close>. The metadata
  is a dictionary of dictionaries.
\<close>

definition oid_entry :: "(pyval \<Rightarrow> converter res) \<Rightarrow> string \<Rightarrow> pymap \<Rightarrow> oid_def res" where
  "oid_entry ev k d =
     bindr (dict_item d k) (\<lambda>o1.
     bindr (dict_item d ''type'') (\<lambda>t.
     bindr (ev t) (\<lambda>c.
       (case o1 of PStr s \<Rightarrow> Inr (s, c) | _ \<Rightarrow> Inl TypeError))))"

definition metadata_entries :: "(pyval \<Rightarrow> converter res) \<Rightarrow> pyval \<Rightarrow> (string, oid_def) pydict res" where
  "metadata_entries ev v =
     (case v of
        PDict d \<Rightarrow>
          mapr (\<lambda>(k, e). case e of PDict ed \<Rightarrow> bindr (oid_entry ev ''oid'' ed) (\<lambda>x. Inr (k, x)) | _ \<Rightarrow> Inl TypeError) d
      | _ \<Rightarrow> Inl (AttributeError ''items''))"

definition prepare_params :: "(pyval \<Rightarrow> converter res) \<Rightarrow> pymap \<Rightarrow> snmp_meter res" where
  "prepare_params ev param =
     bindr (dict_item param ''matching_type'') (\<lambda>mt.
     bindr (oid_entry ev ''oid'' param) (\<lambda>metric.
     bindr (metadata_entries ev (dict_get_default param ''metadata'' (PDict []))) (\<lambda>md.
       Inr \<lparr>matching_type = (case mt of PStr s \<Rightarrow> s | _ \<Rightarrow> []), metric_oid = metric,
            post_op = (case dict_get_default param ''post_op'' PNone of PStr s \<Rightarrow> if s = [] then None else Some s | _ \<Rightarrow> None),
            meter_metadata = md\<rparr>)))"

section \<open>The cache\<close>

type_synonym oid_cache = "(string, pyval) pydict"

definition find_matching_oids :: "oid_cache \<Rightarrow> string \<Rightarrow> string \<Rightarrow> bool \<Rightarrow> string list" where
  "find_matching_oids cache o1 match_type find_one =
     (if match_type = PREFIX
      then (let matched = filter (\<lambda>k. startswith k o1) (dict_keys cache) in if find_one then take 1 matched else matched)
      else if dict_get cache o1 \<noteq> None then [o1] else [])"

text \<open>A value that does not convert is an absent object, or it stays as it is.\<close>

definition get_oid_value :: "'w snmp \<Rightarrow> oid_cache \<Rightarrow> oid_def \<Rightarrow> string \<Rightarrow> pyval res" where
  "get_oid_value sn cache d sfx =
     bindr (dict_item cache (fst d @ sfx)) (\<lambda>v.
       (case snd d of
          None \<Rightarrow> Inr v
        | Some conv \<Rightarrow>
            (case conv v of
               Inr u \<Rightarrow> Inr u
             | Inl ValueError \<Rightarrow> Inr (if no_such_object sn v then PNone else v)
             | Inl e \<Rightarrow> Inl e)))"

definition construct_metadata :: "'w snmp \<Rightarrow> oid_cache \<Rightarrow> (string, oid_def) pydict \<Rightarrow> string \<Rightarrow> pymap res" where
  "construct_metadata sn cache defs sfx =
     mapr (\<lambda>(k, d). bindr (get_oid_value sn cache d sfx) (\<lambda>v. Inr (k, v))) defs"

text \<open>
  The cache of a host in a polling cycle: the identifiers, once anything has been asked for,
  and what the inspector has found for each meter. A meter is not called \<open>snmp_cached_oid\<close>.
\<close>

definition save_binds :: "binds \<Rightarrow> oid_cache \<Rightarrow> oid_cache" where
  "save_binds bs cache = fold (\<lambda>(k, v). dict_set k v) bs cache"

definition default_port :: int where "default_port = 161"

definition query_oids ::
  "'w snmp \<Rightarrow> snmp_host \<Rightarrow> string list \<Rightarrow> bool \<Rightarrow> oid_cache \<Rightarrow> 'w \<Rightarrow> (oid_cache \<times> 'w) \<times> unit res" where
  "query_oids sn host oids is_bulk cache w =
     (let auth = get_auth_strategy host;
          port = (case sh_port host of None \<Rightarrow> default_port | Some p \<Rightarrow> if p = 0 then default_port else p)
      in if is_bulk
         then (case snmp_bulk sn auth (sh_hostname host) port oids w of
             (w1, ret) \<Rightarrow>
               (case parse_snmp_return sn ret last_row of
                  Inl e \<Rightarrow> ((cache, w1), Inl e)
                | Inr (Some m) \<Rightarrow> ((cache, w1), Inl (OtherError m))
                | Inr None \<Rightarrow> ((save_binds (concat (var_binds ret)) cache, w1), Inr ())))
         else (case snmp_get sn auth (sh_hostname host) port oids w of
             (w1, ret) \<Rightarrow>
               (case parse_snmp_return sn ret Inr of
                  Inl e \<Rightarrow> ((cache, w1), Inl e)
                | Inr (Some m) \<Rightarrow> ((cache, w1), Inl (OtherError m))
                | Inr None \<Rightarrow> ((save_binds (var_binds ret) cache, w1), Inr ()))))"

definition find_missing_oids :: "snmp_meter \<Rightarrow> oid_cache \<Rightarrow> string list" where
  "find_missing_oids m cache =
     filter (\<lambda>o1. find_matching_oids cache o1 (matching_type m) True = [])
       (fst (metric_oid m) # map (fst \<circ> snd) (meter_metadata m))"

section \<open>Special cases\<close>

text \<open>\<open>_suffix_resource_id\<close>: the resource of a part of the host is named after it.\<close>

definition suffix_resource_id :: "'w snmp \<Rightarrow> snmp_host \<Rightarrow> pymap \<Rightarrow> string \<Rightarrow> pymap \<Rightarrow> pymap res" where
  "suffix_resource_id sn host metadata key extra =
     (let pre = dict_get_default metadata key PNone in
      if truthy pre
      then bindr (py_add (py_or (dict_get_default extra ''resource_id'' PNone) (opt_str (sh_hostname host)))
             (PStr (''.'' @ py_str (snmp_repr sn) pre)))
           (\<lambda>r. Inr (dict_set ''resource_id'' r extra))
      else Inr extra)"

definition interface_ip_oid :: string where
  "interface_ip_oid = ''1.3.6.1.2.1.4.20.1.2''"

definition memory_total_oid :: string where
  "memory_total_oid = ''1.3.6.1.4.1.2021.4.5.0''"

text \<open>The addresses of the interface with an index: the last one in the cache, or the empty text.\<close>

fun interface_address :: "oid_cache \<Rightarrow> string \<Rightarrow> string \<Rightarrow> string res" where
  "interface_address [] sfx acc = Inr acc"
| "interface_address ((k, v) # cs) sfx acc =
     (if startswith k interface_ip_oid
      then (case parse_int (tl sfx) of
          None \<Rightarrow> Inl ValueError
        | Some i \<Rightarrow> interface_address cs sfx
            (if py_eq v (PInt i) then join [] (split_str (interface_ip_oid @ ''.'') None k) else acc))
      else interface_address cs sfx acc)"

text \<open>
  What an item is made of: the value, its metadata and the extra fields. An operation the
  inspector does not have is skipped.
\<close>

type_synonym item = "pyval \<times> pymap \<times> pymap"

definition int_value :: converter where
  "int_value = Some (\<lambda>v. bindr (py_int v) (\<lambda>i. Inr (PInt i)))"

definition post_op_memory ::
  "'w snmp \<Rightarrow> snmp_host \<Rightarrow> item \<Rightarrow> oid_cache \<Rightarrow> 'w \<Rightarrow> (oid_cache \<times> 'w) \<times> item res" where
  "post_op_memory sn host it cache w =
     (case it of (value, metadata, extra) \<Rightarrow>
        (let ((c1, w1), q) = (if dict_get cache memory_total_oid = None
               then query_oids sn host [memory_total_oid] False cache w else ((cache, w), Inr ()))
         in ((c1, w1),
             bindr q (\<lambda>_.
             bindr (get_oid_value sn c1 (memory_total_oid, int_value) []) (\<lambda>total.
               (if total = PNone then Inr (PNone, metadata, extra)
                else bindr (py_sub total value) (\<lambda>v. Inr (v, metadata, extra))))))))"

definition post_op_net ::
  "'w snmp \<Rightarrow> snmp_host \<Rightarrow> string \<Rightarrow> item \<Rightarrow> oid_cache \<Rightarrow> 'w \<Rightarrow> (oid_cache \<times> 'w) \<times> item res" where
  "post_op_net sn host sfx it cache w =
     (case it of (value, metadata, extra) \<Rightarrow>
        (let ((c1, w1), q) = (if find_matching_oids cache interface_ip_oid PREFIX True = []
               then query_oids sn host [interface_ip_oid] True cache w else ((cache, w), Inr ()))
         in ((c1, w1),
             bindr q (\<lambda>_.
             bindr (interface_address c1 sfx []) (\<lambda>ip.
             (let md = dict_set ''ip'' (PStr ip) metadata in
              bindr (suffix_resource_id sn host md ''name'' extra) (\<lambda>extra'. Inr (value, md, extra'))))))))"

definition post_op_disk :: "'w snmp \<Rightarrow> snmp_host \<Rightarrow> item \<Rightarrow> item res" where
  "post_op_disk sn host it =
     (case it of (value, metadata, extra) \<Rightarrow>
        bindr (suffix_resource_id sn host metadata ''device'' extra) (\<lambda>extra'. Inr (value, metadata, extra')))"

definition apply_post_op ::
  "'w snmp \<Rightarrow> snmp_host \<Rightarrow> snmp_meter \<Rightarrow> string \<Rightarrow> item \<Rightarrow> oid_cache \<Rightarrow> 'w \<Rightarrow> (oid_cache \<times> 'w) \<times> item res" where
  "apply_post_op sn host m sfx it cache w =
     (case post_op m of
        None \<Rightarrow> ((cache, w), Inr it)
      | Some op \<Rightarrow>
          (if op = ''_post_op_memory_avail_to_used'' then post_op_memory sn host it cache w
           else if op = ''_post_op_net'' then post_op_net sn host sfx it cache w
           else if op = ''_post_op_disk'' then ((cache, w), post_op_disk sn host it)
           else ((cache, w), Inr it)))"

section \<open>Inspecting\<close>

text \<open>One value and its metadata, for the rows found before; the cache may grow on the way.\<close>

definition read_item :: "'w snmp \<Rightarrow> snmp_meter \<Rightarrow> pymap \<Rightarrow> string \<Rightarrow> oid_cache \<Rightarrow> item res" where
  "read_item sn m extra sfx cache =
     bindr (get_oid_value sn cache (metric_oid m) sfx) (\<lambda>v.
     bindr (construct_metadata sn cache (meter_metadata m) sfx) (\<lambda>md. Inr (v, md, extra)))"

fun inspect_rows ::
  "'w snmp \<Rightarrow> snmp_host \<Rightarrow> snmp_meter \<Rightarrow> pymap \<Rightarrow> string list \<Rightarrow> oid_cache \<Rightarrow> 'w \<Rightarrow> (oid_cache \<times> 'w) \<times> item list res" where
  "inspect_rows sn host m extra [] cache w = ((cache, w), Inr [])"
| "inspect_rows sn host m extra (o1 # os) cache w =
     (let sfx = drop (length (fst (metric_oid m))) o1 in
      case read_item sn m extra sfx cache of
        Inl e \<Rightarrow> ((cache, w), Inl e)
      | Inr it \<Rightarrow>
          (case apply_post_op sn host m sfx it cache w of
             (st1, Inl e) \<Rightarrow> (st1, Inl e)
           | ((c1, w1), Inr it1) \<Rightarrow>
               (case inspect_rows sn host m extra os c1 w1 of
                  (st2, r) \<Rightarrow> (st2, bindr r (\<lambda>its. Inr (it1 # its))))))"

text \<open>The metadata \<open>extra\<close> of a host is copied for every row.\<close>

definition inspect_generic ::
  "'w snmp \<Rightarrow> snmp_host \<Rightarrow> pymap \<Rightarrow> snmp_meter \<Rightarrow> oid_cache \<Rightarrow> 'w \<Rightarrow> (oid_cache \<times> 'w) \<times> item list res" where
  "inspect_generic sn host extra m cache w =
     (let missing = find_missing_oids m cache in
      case (if missing \<noteq> [] then query_oids sn host missing (matching_type m = PREFIX) cache w
            else ((cache, w), Inr ())) of
        (st1, Inl e) \<Rightarrow> (st1, Inl e)
      | ((c1, w1), Inr _) \<Rightarrow>
          inspect_rows sn host m extra
            (find_matching_oids c1 (fst (metric_oid m)) (matching_type m) False) c1 w1)"

end
