(* ===== verification/Hardware_Cache.thy ===== *)
theory Hardware_Cache
  imports Hardware_Snmp "HOL-Library.Multiset"
begin

text \<open>
  The cache of the SNMP inspector keeps what a device says. A device is a table of identifiers
  and values; \<open>honest\<close> says that the library answers with it: a bulk request gives the rows in
  the subtrees of the identifiers asked for, \<open>1.6\<close> having \<open>1.6.1\<close> below it and not \<open>1.60.1\<close>.
  The inspector compares identifiers as texts, and takes \<open>1.60.1\<close> for a row of \<open>1.6\<close>. Reading
  through the cache gives what reading the device gives where this makes no difference.
\<close>

section \<open>The device\<close>

definition under :: "string \<Rightarrow> string \<Rightarrow> bool" where
  "under k o1 = startswith k (o1 @ ''.'')"

definition table_under :: "oid_cache \<Rightarrow> string list \<Rightarrow> (string \<times> pyval) set" where
  "table_under dev oids = {(k, v) \<in> set dev. list_ex (under k) oids}"

text \<open>A get request for identifiers the device has, and a bulk request for the subtrees of some.\<close>

definition honest :: "'w snmp \<Rightarrow> snmp_host \<Rightarrow> oid_cache \<Rightarrow> bool" where
  "honest sn host dev \<longleftrightarrow>
     (\<forall>port oids w. case snmp_bulk sn (get_auth_strategy host) (sh_hostname host) port oids w of
        (w1, ret) \<Rightarrow> err_indication ret = None \<and> err_status ret = None
          \<and> set (concat (var_binds ret)) = table_under dev oids)
     \<and> (\<forall>port oids w. list_all (\<lambda>k. dict_get dev k \<noteq> None) oids \<longrightarrow>
          (case snmp_get sn (get_auth_strategy host) (sh_hostname host) port oids w of
             (w1, ret) \<Rightarrow> err_indication ret = None \<and> err_status ret = None
               \<and> var_binds ret = map (\<lambda>k. (k, the (dict_get dev k))) oids))"

text \<open>
  What a meter is on the device: an item for every row under its identifier, or the one item of
  an exact identifier.
\<close>

definition plain_post_op :: "snmp_meter \<Rightarrow> bool" where
  "plain_post_op m \<longleftrightarrow> post_op m = None \<or> post_op m = Some ''_post_op_disk''"

definition row_item :: "'w snmp \<Rightarrow> snmp_host \<Rightarrow> snmp_meter \<Rightarrow> pymap \<Rightarrow> oid_cache \<Rightarrow> string \<Rightarrow> item res" where
  "row_item sn host m extra table k =
     bindr (read_item sn m extra (drop (length (fst (metric_oid m))) k) table) (\<lambda>it.
       if post_op m = None then Inr it else post_op_disk sn host it)"

definition device_items :: "'w snmp \<Rightarrow> snmp_host \<Rightarrow> pymap \<Rightarrow> oid_cache \<Rightarrow> snmp_meter \<Rightarrow> item list res" where
  "device_items sn host extra dev m =
     mapr (row_item sn host m extra dev)
       (find_matching_oids dev (fst (metric_oid m)) (matching_type m) False)"

definition meter_oids :: "snmp_meter \<Rightarrow> string list" where
  "meter_oids m = fst (metric_oid m) # map (fst \<circ> snd) (meter_metadata m)"

text \<open>
  The identifiers of prefixes and the exact ones that some meters use, which the device has.
  A meter with an identifier that a prefix in use begins, as a text, must use that prefix too: as
  for the interface descriptions \<open>1.3.6.1.2.1.2.2.1.2\<close> and the errors \<open>1.3.6.1.2.1.2.2.1.20\<close> of
  the definitions that come with the program. The rows that the identifier of the metric begins
  must be in its subtree.
\<close>

definition separate :: "oid_cache \<Rightarrow> string set \<Rightarrow> string set \<Rightarrow> bool" where
  "separate dev P E \<longleftrightarrow>
     P \<inter> E = {} \<and> (\<forall>e \<in> E. dict_get dev e \<noteq> None)"

definition meter_ok :: "oid_cache \<Rightarrow> string set \<Rightarrow> string set \<Rightarrow> snmp_meter \<Rightarrow> bool" where
  "meter_ok dev P E m \<longleftrightarrow> plain_post_op m \<and> set (meter_oids m) \<subseteq> (if matching_type m = PREFIX then P else E)
     \<and> (\<forall>q \<in> set (meter_oids m). \<forall>p \<in> P. startswith q p \<longrightarrow> p \<in> set (meter_oids m))
     \<and> (matching_type m = PREFIX \<longrightarrow>
          (\<forall>k \<in> set (dict_keys dev). startswith k (fst (metric_oid m)) \<longrightarrow> under k (fst (metric_oid m))))"

text \<open>
  The invariant of the cache: all its values are the device's, and a prefix in use that begins
  one identifier in the cache has all its rows there.
\<close>

definition cache_ok :: "oid_cache \<Rightarrow> string set \<Rightarrow> oid_cache \<Rightarrow> bool" where
  "cache_ok dev P c \<longleftrightarrow> dict_ok c
     \<and> (\<forall>k v. dict_get c k = Some v \<longrightarrow> dict_get dev k = Some v)
     \<and> (\<forall>p \<in> P. (\<exists>k \<in> set (dict_keys c). startswith k p) \<longrightarrow>
          (\<forall>k. under k p \<longrightarrow> dict_get c k = dict_get dev k))"

definition complete_for :: "oid_cache \<Rightarrow> snmp_meter \<Rightarrow> oid_cache \<Rightarrow> bool" where
  "complete_for dev m c \<longleftrightarrow>
     (\<forall>o1 \<in> set (meter_oids m). if matching_type m = PREFIX
        then (\<forall>k. under k o1 \<longrightarrow> dict_get c k = dict_get dev k) else dict_get c o1 = dict_get dev o1)"

lemma cache_ok_keys:
  assumes "cache_ok dev P c" "k \<in> set (dict_keys c)"
  shows "k \<in> set (dict_keys dev)"
proof -
  obtain v where "dict_get c k = Some v" using assms(2) map_of_eq_None_iff [of c k] by auto
  then have "dict_get dev k = Some v" using assms(1) by (simp add: cache_ok_def)
  then show ?thesis using map_of_eq_None_iff [of dev k] by auto
qed

section \<open>Filling the cache\<close>

lemma underD: "under k o1 \<Longrightarrow> startswith k o1"
  by (auto simp: under_def startswith_def prefix_def)

lemma under_prefix:
  assumes "under k' q" "startswith k' p" "\<not> startswith q p" "under k p"
  shows "under k q"
proof -
  from assms(1,2) have "prefix p (q @ ''.'') \<or> prefix (q @ ''.'') p"
    unfolding under_def startswith_def by (metis prefix_same_cases)
  then have "prefix (q @ ''.'') p" using assms(3) by (auto simp: startswith_def prefix_snoc)
  then show ?thesis using assms(4) underD [OF assms(4)] unfolding under_def startswith_def
    by (meson prefix_order.trans)
qed

lemma save_binds_ok: "dict_ok c \<Longrightarrow> dict_ok (save_binds bs c)"
  unfolding save_binds_def by (induction bs arbitrary: c) (auto simp: split_beta')

lemma save_binds_get:
  "(\<And>k v. (k, v) \<in> set bs \<Longrightarrow> dict_get dev k = Some v) \<Longrightarrow>
   dict_get (save_binds bs c) k = (if k \<in> fst ` set bs then dict_get dev k else dict_get c k)"
proof (induction bs arbitrary: c)
  case (Cons b bs)
  obtain a v where b: "b = (a, v)" by (cases b)
  have "dict_get dev a = Some v" using Cons.prems by (simp add: b)
  moreover have "dict_get (save_binds bs (dict_set a v c)) k =
      (if k \<in> fst ` set bs then dict_get dev k else dict_get (dict_set a v c) k)"
    by (rule Cons.IH) (simp add: Cons.prems)
  ultimately show ?case by (auto simp: b save_binds_def dict_get_set)
qed (simp add: save_binds_def)

lemma missing_iff:
  "o1 \<in> set (find_missing_oids m c) \<longleftrightarrow> o1 \<in> set (meter_oids m) \<and>
     (if matching_type m = PREFIX then \<not> (\<exists>k \<in> set (dict_keys c). startswith k o1) else dict_get c o1 = None)"
  by (auto simp: find_missing_oids_def meter_oids_def find_matching_oids_def Let_def filter_empty_conv)

lemma after_save:
  assumes sep: "separate dev P E" and ok: "cache_ok dev P c" and dev: "dict_ok dev"
    and bs: "set bs = (if matching_type m = PREFIX then table_under dev (find_missing_oids m c)
        else (\<lambda>k. (k, the (dict_get dev k))) ` set (find_missing_oids m c))"
    and m: "meter_ok dev P E m"
  shows "cache_ok dev P (save_binds bs c) \<and> complete_for dev m (save_binds bs c)"
proof -
  let ?c = "save_binds bs c"
  let ?M = "set (find_missing_oids m c)"
  have M: "?M \<subseteq> (if matching_type m = PREFIX then P else E)"
    using m missing_iff by (auto simp: meter_ok_def split: if_splits)
  have from_dev: "dict_get dev k = Some v" if "(k, v) \<in> set bs" for k v
  proof (cases "matching_type m = PREFIX")
    case True
    then show ?thesis using that bs dev by (auto simp: table_under_def dict_ok_def)
  next
    case False
    then have "k \<in> E" "v = the (dict_get dev k)" using that bs M by auto
    then show ?thesis using sep unfolding separate_def by (metis option.collapse)
  qed
  have get: "dict_get ?c k = (if k \<in> fst ` set bs then dict_get dev k else dict_get c k)" for k
    by (rule save_binds_get) (rule from_dev)
  have saved: "k \<in> fst ` set bs \<longleftrightarrow> dict_get dev k \<noteq> None \<and>
      (if matching_type m = PREFIX then \<exists>p \<in> ?M. under k p else k \<in> ?M)" for k
  proof (cases "matching_type m = PREFIX")
    case True
    then have "fst ` set bs = {k \<in> set (dict_keys dev). \<exists>p \<in> ?M. under k p}"
      using bs by (force simp: table_under_def list_ex_iff)
    then show ?thesis using True map_of_eq_None_iff [of dev k] by auto
  next
    case False
    then have "fst ` set bs = ?M" using bs by (simp add: image_image)
    moreover have "k \<in> ?M \<Longrightarrow> dict_get dev k \<noteq> None" using M False sep unfolding separate_def by auto
    ultimately show ?thesis using False by auto
  qed
  have c: "dict_get c k = Some v \<Longrightarrow> dict_get dev k = Some v" for k v using ok by (simp add: cache_ok_def)
  have le: "dict_get ?c k = Some v \<Longrightarrow> dict_get dev k = Some v" for k v
    using get [of k] c [of k v] by (simp split: if_splits)
  have whole: "dict_get ?c k = dict_get dev k" if "p \<in> P" "under k p" "\<exists>k \<in> set (dict_keys c). startswith k p" for p k
    using that ok get [of k] unfolding cache_ok_def by (metis (full_types))
  have fresh: "dict_get ?c k = dict_get dev k" if "matching_type m = PREFIX" "p \<in> ?M" "under k p" for p k
    using that saved [of k] get [of k] c [of k] by (cases "dict_get dev k"; cases "dict_get c k") auto
  have complete: "complete_for dev m ?c"
    unfolding complete_for_def
  proof (intro ballI)
    fix o1 assume o1: "o1 \<in> set (meter_oids m)"
    then have "if matching_type m = PREFIX then o1 \<in> P else o1 \<in> E" using m by (auto simp: meter_ok_def)
    then show "if matching_type m = PREFIX then \<forall>k. under k o1 \<longrightarrow> dict_get ?c k = dict_get dev k
        else dict_get ?c o1 = dict_get dev o1"
      using o1 whole [of o1] fresh [of o1] saved [of o1] missing_iff [of o1 m c] sep c [of o1] get [of o1]
      by (cases "dict_get c o1"; cases "matching_type m = PREFIX") (auto simp: separate_def)
  qed
  have "dict_get ?c k = dict_get dev k" if p: "p \<in> P" "under k p" and k': "k' \<in> set (dict_keys ?c)" "startswith k' p" for p k k'
  proof (cases "\<exists>k \<in> set (dict_keys c). startswith k p")
    case False
    then have "dict_get c k' = None" using k'(2) by (auto simp: map_of_eq_None_iff)
    moreover have "dict_get ?c k' \<noteq> None" using k'(1) by (auto simp: map_of_eq_None_iff)
    ultimately have "k' \<in> fst ` set bs" by (auto simp: get split: if_splits)
    then have s: "if matching_type m = PREFIX then \<exists>p \<in> ?M. under k' p else k' \<in> ?M" using saved by blast
    have used: "p \<in> set (meter_oids m)" if "q \<in> ?M" "startswith q p" for q
      using that m p(1) missing_iff [of q m c] unfolding meter_ok_def by blast
    have pre: "matching_type m = PREFIX"
      using s used [of k'] k'(2) m p(1) sep by (auto simp: meter_ok_def separate_def split: if_splits)
    with s obtain q where q: "q \<in> ?M" "under k' q" by auto
    show ?thesis
    proof (cases "startswith q p")
      case True
      then show ?thesis using used [OF q(1)] complete pre p(2) by (auto simp: complete_for_def)
    next
      case False
      from under_prefix [OF q(2) k'(2) False p(2)] show ?thesis using fresh [OF pre q(1)] by blast
    qed
  qed (rule whole [OF p])
  then have "cache_ok dev P ?c"
    using ok le save_binds_ok [of c bs] by (auto simp: cache_ok_def)
  then show ?thesis using complete ..
qed

section \<open>Reading the cache\<close>

lemma get_oid_value_cong: "dict_get c (fst d @ s) = dict_get c' (fst d @ s) \<Longrightarrow> get_oid_value sn c d s = get_oid_value sn c' d s"
  by (simp add: get_oid_value_def dict_item_def)

lemma row_item_cong:
  assumes "complete_for dev m c" "matching_type m = PREFIX \<and> under k (fst (metric_oid m)) \<or> matching_type m \<noteq> PREFIX \<and> k = fst (metric_oid m)"
  shows "row_item sn host m extra c k = row_item sn host m extra dev k"
proof -
  let ?s = "drop (length (fst (metric_oid m))) k"
  have get: "dict_get c (o1 @ ?s) = dict_get dev (o1 @ ?s)" if "o1 \<in> set (meter_oids m)" for o1
  proof (cases "matching_type m = PREFIX")
    case True
    then have "under (o1 @ ?s) o1" using assms(2) by (auto simp: under_def startswith_def prefix_def)
    then show ?thesis using assms(1) that True by (auto simp: complete_for_def)
  next
    case False
    then show ?thesis using assms that by (auto simp: complete_for_def)
  qed
  have "construct_metadata sn c (meter_metadata m) ?s = construct_metadata sn dev (meter_metadata m) ?s"
    unfolding construct_metadata_def
  proof (rule mapr_cong [OF refl], clarify)
    fix a o1 cv assume "(a, o1, cv) \<in> set (meter_metadata m)"
    then have "o1 \<in> set (meter_oids m)" by (force simp: meter_oids_def)
    then show "bindr (get_oid_value sn c (o1, cv) ?s) (\<lambda>v. Inr (a, v)) = bindr (get_oid_value sn dev (o1, cv) ?s) (\<lambda>v. Inr (a, v))"
      using get_oid_value_cong [of c "(o1, cv)" ?s dev sn] get by simp
  qed
  moreover have "get_oid_value sn c (metric_oid m) ?s = get_oid_value sn dev (metric_oid m) ?s"
    by (rule get_oid_value_cong, rule get) (simp add: meter_oids_def)
  ultimately show ?thesis by (simp add: row_item_def read_item_def)
qed

lemma inspect_rows_plain:
  "plain_post_op m \<Longrightarrow>
   inspect_rows sn host m extra ks c w = (case mapr (row_item sn host m extra c) ks of Inl e \<Rightarrow> ((c, w), Inl e) | Inr its \<Rightarrow> ((c, w), Inr its))"
proof (induction ks)
  case (Cons k ks)
  then show ?case
    by (auto simp: Let_def plain_post_op_def apply_post_op_def row_item_def split: sum.split)
qed simp

lemma mapr_mset:
  assumes "mapr f xs = Inr ys" "mset xs = mset xs'"
  shows "\<exists>ys'. mapr f xs' = Inr ys' \<and> mset ys' = mset ys"
proof -
  have "\<forall>x \<in> set xs. \<exists>y. f x = Inr y" using mapr_Inr_member [OF assms(1)] by blast
  then obtain g where g: "\<And>x. x \<in> set xs \<Longrightarrow> f x = Inr (g x)" by metis
  have all: "mapr f zs = Inr (map g zs)" if "set zs \<subseteq> set xs" for zs
    using that by (induction zs) (auto simp: g)
  have "set xs' = set xs" using assms(2) by (metis set_mset_mset)
  then have "mapr f xs' = Inr (map g xs')" using all by blast
  moreover have "ys = map g xs" using all [of xs] assms(1) by simp
  ultimately show ?thesis using assms(2) by (metis mset_map)
qed

lemma matching_same:
  assumes "cache_ok dev P c" "complete_for dev m c" "dict_ok dev" "meter_ok dev P E m"
  shows "mset (find_matching_oids c (fst (metric_oid m)) (matching_type m) False)
    = mset (find_matching_oids dev (fst (metric_oid m)) (matching_type m) False)"
proof (cases "matching_type m = PREFIX")
  case True
  let ?p = "fst (metric_oid m)"
  have le: "k \<in> set (dict_keys dev)" if "k \<in> set (dict_keys c)" for k
    by (rule cache_ok_keys [OF assms(1) that])
  have "dict_get c k = dict_get dev k" if "under k ?p" for k
    using assms(2) that True by (auto simp: complete_for_def meter_oids_def)
  then have "k \<in> set (dict_keys c)" if "startswith k ?p" "k \<in> set (dict_keys dev)" for k
    using that assms(4) True map_of_eq_None_iff [of c k] map_of_eq_None_iff [of dev k] unfolding meter_ok_def by auto
  with le have "k \<in> set (dict_keys c) \<longleftrightarrow> k \<in> set (dict_keys dev)" if "startswith k ?p" for k
    using that by blast
  then have "set (filter (\<lambda>k. startswith k ?p) (dict_keys c)) = set (filter (\<lambda>k. startswith k ?p) (dict_keys dev))" by auto
  moreover have "distinct (dict_keys c)" "distinct (dict_keys dev)"
    using assms(1,3) by (auto simp: cache_ok_def dict_ok_def)
  ultimately have "mset (filter (\<lambda>k. startswith k ?p) (dict_keys c)) = mset (filter (\<lambda>k. startswith k ?p) (dict_keys dev))"
    by (simp only: set_eq_iff_mset_eq_distinct [symmetric] distinct_filter)
  then show ?thesis by (simp add: find_matching_oids_def True)
next
  case False
  then show ?thesis using assms(2) by (simp add: find_matching_oids_def complete_for_def meter_oids_def)
qed

section \<open>Inspecting through the cache\<close>

text \<open>The same items in any order, or an error on both sides.\<close>

definition same_items :: "item list res \<Rightarrow> item list res \<Rightarrow> bool" where
  "same_items r r' \<longleftrightarrow> (case (r, r') of
      (Inr xs, Inr ys) \<Rightarrow> mset xs = mset ys
    | (Inl _, Inl _) \<Rightarrow> True
    | _ \<Rightarrow> False)"

lemma same_items_mapr: "mset ks = mset ks' \<Longrightarrow> same_items (mapr f ks) (mapr f ks')"
  using mapr_mset [of f ks _ ks'] mapr_mset [of f ks' _ ks]
  by (cases "mapr f ks"; cases "mapr f ks'") (auto simp: same_items_def)

lemma query_honest:
  assumes "honest sn host dev" "separate dev P E" "meter_ok dev P E m"
  shows "\<exists>bs w1. query_oids sn host (find_missing_oids m c) (matching_type m = PREFIX) c w = ((save_binds bs c, w1), Inr ())
    \<and> set bs = (if matching_type m = PREFIX then table_under dev (find_missing_oids m c)
        else (\<lambda>k. (k, the (dict_get dev k))) ` set (find_missing_oids m c))"
proof (cases "matching_type m = PREFIX")
  case True
  then show ?thesis using assms(1)
    by (auto simp: query_oids_def Let_def honest_def parse_snmp_return_def split: prod.splits)
next
  case False
  have "set (find_missing_oids m c) \<subseteq> E" using False assms(3) missing_iff by (auto simp: meter_ok_def)
  then have "list_all (\<lambda>k. dict_get dev k \<noteq> None) (find_missing_oids m c)"
    using assms(2) by (auto simp: separate_def list_all_iff)
  then show ?thesis using False assms(1)
    by (auto simp: query_oids_def Let_def honest_def parse_snmp_return_def split: prod.splits)
qed

lemma inspect_step:
  assumes "honest sn host dev" "separate dev P E" "meter_ok dev P E m" "dict_ok dev" "cache_ok dev P c"
  shows "\<exists>c1 w1 r. inspect_generic sn host extra m c w = ((c1, w1), r) \<and> cache_ok dev P c1
    \<and> same_items (device_items sn host extra dev m) r"
proof -
  obtain c1 w1 where q: "(if find_missing_oids m c \<noteq> [] then query_oids sn host (find_missing_oids m c) (matching_type m = PREFIX) c w
      else ((c, w), Inr ())) = ((c1, w1), Inr ())" and c1: "cache_ok dev P c1" "complete_for dev m c1"
  proof (cases "find_missing_oids m c = []")
    case True
    have "cache_ok dev P (save_binds [] c) \<and> complete_for dev m (save_binds [] c)"
      by (rule after_save [OF assms(2,5,4) _ assms(3)]) (simp add: True table_under_def)
    then show ?thesis using that [of c w] True by (simp add: save_binds_def)
  next
    case False
    from query_honest [OF assms(1,2,3), of c w] obtain bs w1 where bs:
      "query_oids sn host (find_missing_oids m c) (matching_type m = PREFIX) c w = ((save_binds bs c, w1), Inr ())"
      "set bs = (if matching_type m = PREFIX then table_under dev (find_missing_oids m c)
        else (\<lambda>k. (k, the (dict_get dev k))) ` set (find_missing_oids m c))" by blast
    from after_save [OF assms(2,5,4) bs(2) assms(3)] show ?thesis using that [of "save_binds bs c" w1] bs(1) False by simp
  qed
  let ?ks = "find_matching_oids c1 (fst (metric_oid m)) (matching_type m) False"
  have "mapr (row_item sn host m extra c1) ?ks = mapr (row_item sn host m extra dev) ?ks"
  proof (rule mapr_cong [OF refl], rule row_item_cong [OF c1(2)])
    fix k assume "k \<in> set ?ks"
    moreover have "k \<in> set (dict_keys c1) \<Longrightarrow> k \<in> set (dict_keys dev)"
      by (rule cache_ok_keys [OF c1(1)])
    ultimately show "matching_type m = PREFIX \<and> under k (fst (metric_oid m)) \<or> matching_type m \<noteq> PREFIX \<and> k = fst (metric_oid m)"
      using assms(3) by (auto simp: find_matching_oids_def meter_ok_def split: if_splits)
  qed
  moreover have "same_items (device_items sn host extra dev m) (mapr (row_item sn host m extra dev) ?ks)"
    unfolding device_items_def using matching_same [OF c1 assms(4,3)] by (intro same_items_mapr) simp
  moreover have "plain_post_op m" using assms(3) by (simp add: meter_ok_def)
  ultimately show ?thesis
    using c1(1) by (auto simp: inspect_generic_def Let_def q inspect_rows_plain split: sum.split)
qed

text \<open>Meters of a host one after the other, in one polling cycle.\<close>

fun inspect_meters ::
  "'w snmp \<Rightarrow> snmp_host \<Rightarrow> pymap \<Rightarrow> snmp_meter list \<Rightarrow> oid_cache \<Rightarrow> 'w \<Rightarrow> (oid_cache \<times> 'w) \<times> item list res list" where
  "inspect_meters sn host extra [] c w = ((c, w), [])"
| "inspect_meters sn host extra (m # ms) c w =
     (case inspect_generic sn host extra m c w of ((c1, w1), r) \<Rightarrow>
     (case inspect_meters sn host extra ms c1 w1 of (st, rs) \<Rightarrow> (st, r # rs)))"

section \<open>Properties\<close>

text \<open>
  C23: The cache of the SNMP inspector is faithful. For a device the library answers honestly
  for, polling any sequence of meters of a host through one cache gives for every meter the
  items that the device's own table gives, up to their order. This holds for meters without a
  post-processing operation or with the one of disks (those of networks and memory ask for more
  in between), whose exact identifiers the device has. A meter with an identifier that begins, as
  a text, with a prefix another one uses must use that prefix too, and the rows its metric's
  identifier begins must be in that identifier's subtree.
\<close>

theorem snmp_cache_faithful:
  assumes "honest sn host dev" "dict_ok dev" "separate dev P E" "list_all (meter_ok dev P E) ms"
  shows "list_all2 (\<lambda>m r. same_items (device_items sn host extra dev m) r) ms (snd (inspect_meters sn host extra ms [] w))"
proof -
  have "cache_ok dev P c \<Longrightarrow> list_all (meter_ok dev P E) ms \<Longrightarrow>
      list_all2 (\<lambda>m r. same_items (device_items sn host extra dev m) r) ms (snd (inspect_meters sn host extra ms c w))" for c w
  proof (induction ms arbitrary: c w)
    case (Cons m ms)
    from inspect_step [OF assms(1,3) _ assms(2) Cons.prems(1), of m extra w] Cons.prems(2)
    obtain c1 w1 r where st: "inspect_generic sn host extra m c w = ((c1, w1), r)" "cache_ok dev P c1"
      "same_items (device_items sn host extra dev m) r" by auto
    with Cons.IH [OF st(2), of w1] Cons.prems(2) show ?case by (simp split: prod.split) (metis snd_conv)
  qed simp
  then show ?thesis using assms(4) by (simp add: cache_ok_def)
qed

text \<open>A device that answers from its table and counts the requests.\<close>

definition table_snmp :: "oid_cache \<Rightarrow> nat snmp" where
  "table_snmp dev = \<lparr>
     snmp_get = (\<lambda>auth h p oids w. (w + 1, \<lparr>err_indication = None, err_status = None, err_index = 0,
       var_binds = map (\<lambda>k. (k, case dict_get dev k of None \<Rightarrow> PNone | Some v \<Rightarrow> v)) oids\<rparr>)),
     snmp_bulk = (\<lambda>auth h p oids w. (w + 1, \<lparr>err_indication = None, err_status = None, err_index = 0,
       var_binds = map (\<lambda>b. [b]) (filter (\<lambda>(k, v). list_ex (under k) oids) dev)\<rparr>)),
     no_such_object = (\<lambda>v. v = PNone), show_bind = fst, snmp_repr = (\<lambda>v. [])\<rparr>"

lemma table_snmp_honest: "honest (table_snmp dev) host dev"
  by (auto simp: honest_def table_snmp_def table_under_def list_all_iff)

definition demo_host :: snmp_host where
  "demo_host = \<lparr>sh_scheme = ''snmp'', sh_hostname = Some ''host'', sh_port = None, sh_username = None, sh_password = None,
     sh_query = [], sh_url = ''snmp://host''\<rparr>"

definition demo_device :: oid_cache where
  "demo_device = [(''1.2.1'', PStr ''sda''), (''1.2.2'', PStr ''sdb''), (''1.10.1'', PInt 100), (''1.10.2'', PInt 200),
     (''1.20.1'', PInt 3), (''1.20.2'', PInt 4), (''1.6.1'', PInt 5), (''1.60.1'', PInt 7)]"

definition disk_meter :: "string \<Rightarrow> snmp_meter" where
  "disk_meter o1 = \<lparr>matching_type = PREFIX, metric_oid = (o1, None), post_op = Some ''_post_op_disk'',
     meter_metadata = [(''device'', (''1.2'', None))]\<rparr>"

text \<open>As in the shipped definitions, the identifier of the metadata begins that of a metric.\<close>

theorem snmp_cache_faithful_witness:
  "list_all2 (\<lambda>m r. same_items (device_items (table_snmp demo_device) demo_host [] demo_device m) r)
     [disk_meter ''1.20'', disk_meter ''1.10'', disk_meter ''1.20'']
     (snd (inspect_meters (table_snmp demo_device) demo_host [] [disk_meter ''1.20'', disk_meter ''1.10'', disk_meter ''1.20''] [] 0))
   \<and> device_items (table_snmp demo_device) demo_host [] demo_device (disk_meter ''1.10'') =
     Inr [(PInt 100, [(''device'', PStr ''sda'')], [(''resource_id'', PStr ''host.sda'')]),
          (PInt 200, [(''device'', PStr ''sdb'')], [(''resource_id'', PStr ''host.sdb'')])]
   \<and> snd (fst (inspect_meters (table_snmp demo_device) demo_host [] [disk_meter ''1.20'', disk_meter ''1.10'', disk_meter ''1.20''] [] 0)) = 2"
proof (intro conjI)
  have "dict_ok demo_device" by code_simp
  moreover have "separate demo_device {''1.20'', ''1.10'', ''1.2''} {}" by (simp add: separate_def)
  moreover have "list_all (meter_ok demo_device {''1.20'', ''1.10'', ''1.2''} {})
      [disk_meter ''1.20'', disk_meter ''1.10'', disk_meter ''1.20'']"
    by (simp add: meter_ok_def disk_meter_def plain_post_op_def meter_oids_def startswith_def under_def demo_device_def)
  ultimately show "list_all2 (\<lambda>m r. same_items (device_items (table_snmp demo_device) demo_host [] demo_device m) r)
     [disk_meter ''1.20'', disk_meter ''1.10'', disk_meter ''1.20'']
     (snd (inspect_meters (table_snmp demo_device) demo_host [] [disk_meter ''1.20'', disk_meter ''1.10'', disk_meter ''1.20''] [] 0))"
    by (rule snmp_cache_faithful [OF table_snmp_honest])
qed code_simp+

text \<open>
  When one identifier begins another as a text, a row of the longer one counts as the answer for the
  shorter one, which is then never asked for: after polling \<open>1.60\<close>, the rows of \<open>1.6\<close> are missing
  and a row of \<open>1.60\<close> is read as one of them.
\<close>

definition load_meter :: "string \<Rightarrow> snmp_meter" where
  "load_meter o1 = \<lparr>matching_type = PREFIX, metric_oid = (o1, None), post_op = None, meter_metadata = []\<rparr>"

lemma prefix_overlap_missed:
  "snd (inspect_meters (table_snmp demo_device) demo_host [] [load_meter ''1.60'', load_meter ''1.6''] [] 0)
     = [Inr [(PInt 7, [], [])], Inr [(PInt 7, [], [])]]"
  by code_simp

end
