(* ===== verification/Hardware_Generic.thy ===== *)
theory Hardware_Generic
  imports Hardware_Cache
begin

text \<open>
  The declarative pollsters of hardware nodes (\<^verbatim>\<open>ceilometer/hardware/pollsters/generic.py\<close>, with
  \<^verbatim>\<open>pollsters/util.py\<close>) and the discovery of nodes (\<^verbatim>\<open>ceilometer/hardware/discovery.py\<close>).

  An inspector is a record of its two operations; \<open>snmp_inspector\<close> is the one of the
  repository. Splitting URLs is a parameter.
\<close>

section \<open>Meter definitions\<close>

text \<open>
  A definition: its name, unit and type, and the sections of the inspectors. The fields of a
  definition file are text.
\<close>

record hw_definition =
  hd_name :: string
  hd_unit :: string
  hd_type :: string
  hd_inspectors :: pymap

definition TYPES :: "string list" where
  "TYPES = [TYPE_GAUGE, TYPE_DELTA, TYPE_CUMULATIVE]"

definition required_field :: "pymap \<Rightarrow> string \<Rightarrow> string res" where
  "required_field cfg f =
     (case dict_get cfg f of
        Some (PStr s) \<Rightarrow> if s = [] then Inl (MeterDefinitionException (''Missing field '' @ f)) else Inr s
      | _ \<Rightarrow> Inl (MeterDefinitionException (''Missing field '' @ f)))"

definition meter_definition :: "pymap \<Rightarrow> hw_definition res" where
  "meter_definition cfg =
     bindr (required_field cfg ''name'') (\<lambda>name.
     bindr (required_field cfg ''unit'') (\<lambda>unit.
     bindr (required_field cfg ''type'') (\<lambda>type.
       (if type \<notin> set TYPES then Inl (MeterDefinitionException (''Unrecognized type value '' @ type))
        else Inr \<lparr>hd_name = name, hd_unit = unit, hd_type = type,
                  hd_inspectors = filter (\<lambda>(k, v). endswith k ''_inspector'') cfg\<rparr>))))"

text \<open>\<open>load_definition\<close>: definitions with errors are skipped, a later one replaces one of its name.\<close>

definition load_step :: "pymap \<Rightarrow> (string, hw_definition) pydict \<Rightarrow> (string, hw_definition) pydict" where
  "load_step cfg mappings =
     (case meter_definition cfg of Inl e \<Rightarrow> mappings | Inr d \<Rightarrow> dict_set (hd_name d) d mappings)"

definition load_definition :: "pymap list \<Rightarrow> (string, hw_definition) pydict" where
  "load_definition metrics = fold load_step metrics []"

section \<open>Samples\<close>

definition get_metadata_from_host :: "snmp_host \<Rightarrow> pymap" where
  "get_metadata_from_host host = [(''resource_url'', PStr (sh_url host))]"

definition make_resource_metadata :: "pymap \<Rightarrow> snmp_host \<Rightarrow> pymap" where
  "make_resource_metadata res_metadata host = dict_update (dict_update [] res_metadata) (get_metadata_from_host host)"

definition make_sample_from_host ::
  "(pyval \<Rightarrow> string) \<Rightarrow> string \<Rightarrow> snmp_host \<Rightarrow> hw_definition \<Rightarrow> item \<Rightarrow> sample" where
  "make_sample_from_host rp uuid host d it =
     (case it of (volume, res_metadata, extra) \<Rightarrow>
        new_sample ''hardware'' uuid (hd_name d) (hd_type d) (hd_unit d) volume
          (optional_text rp (dict_get_default extra ''user_id'' PNone))
          (optional_text rp (dict_get_default extra ''project_id'' PNone))
          (text_of rp (py_or (dict_get_default extra ''resource_id'' PNone) (opt_str (sh_hostname host))))
          None (dict_update (make_resource_metadata res_metadata host) extra) (Some ''hardware'') None PNone)"

definition generate_samples :: "(pyval \<Rightarrow> string) \<Rightarrow> string \<Rightarrow> snmp_host \<Rightarrow> hw_definition \<Rightarrow> item list \<Rightarrow> sample list" where
  "generate_samples rp uuid host d = map (make_sample_from_host rp uuid host d)"

section \<open>The pollster\<close>

record ('w, 'p, 'c) inspector =
  in_prepare :: "pymap \<Rightarrow> 'p res"
  in_inspect :: "snmp_host \<Rightarrow> pymap \<Rightarrow> 'p \<Rightarrow> 'c \<Rightarrow> 'w \<Rightarrow> ('c \<times> 'w) \<times> item list res"
  in_cache :: 'c

definition snmp_inspector :: "'w snmp \<Rightarrow> (pyval \<Rightarrow> converter res) \<Rightarrow> ('w, snmp_meter, oid_cache) inspector" where
  "snmp_inspector sn ev = \<lparr>in_prepare = prepare_params ev, in_inspect = inspect_generic sn, in_cache = []\<rparr>"

text \<open>What the pollster keeps: loaded inspectors and prepared parameters.\<close>

record ('w, 'p, 'c) hw_pollster =
  hp_definition :: hw_definition
  hp_inspectors :: "(string, ('w, 'p, 'c) inspector) pydict"
  hp_params :: "(string, 'p) pydict"

text \<open>\<open>_update_meter_definition\<close> of a new pollster, one per definition of the mapping.\<close>

definition build_pollsters :: "(string, hw_definition) pydict \<Rightarrow> (string \<times> ('w, 'p, 'c) hw_pollster) list" where
  "build_pollsters mapping =
     map (\<lambda>(name, d). (name, \<lparr>hp_definition = d, hp_inspectors = [], hp_params = []\<rparr>)) mapping"

text \<open>The cache of a host: that of the inspector and the items found for each meter.\<close>

record 'c host_cache =
  hc_inspector :: 'c
  hc_items :: "(string, item list) pydict"

type_synonym 'c hw_cache = "(pyval, 'c host_cache) pydict"

record ('w, 'p, 'c) hw_env =
  split_url_of :: "pyval \<Rightarrow> snmp_host res"
  load_inspector :: "string \<Rightarrow> ('w, 'p, 'c) inspector res"
  hw_repr :: "pyval \<Rightarrow> string"
  hw_uuid :: string

text \<open>\<open>_parse_resource\<close>: a URL, or a dictionary with both keys; nothing for another dictionary.\<close>

definition parse_resource :: "('w, 'p, 'c) hw_env \<Rightarrow> pyval \<Rightarrow> (snmp_host \<times> pyval \<times> pymap) option res" where
  "parse_resource env r =
     (case r of
        PDict d \<Rightarrow>
          (case (dict_get d ''resource_url'', dict_get d ''resource_id'') of
             (Some url, Some rid) \<Rightarrow> bindr (split_url_of env url) (\<lambda>h. Inr (Some (h, rid, d)))
           | _ \<Rightarrow> Inr None)
      | _ \<Rightarrow> bindr (split_url_of env r) (\<lambda>h. Inr (Some (h, r, []))))"

definition get_inspector ::
  "('w, 'p, 'c) hw_env \<Rightarrow> string \<Rightarrow> ('w, 'p, 'c) hw_pollster \<Rightarrow> ('w, 'p, 'c) hw_pollster \<times> ('w, 'p, 'c) inspector res" where
  "get_inspector env scheme p =
     (case dict_get (hp_inspectors p) scheme of
        Some i \<Rightarrow> (p, Inr i)
      | None \<Rightarrow>
          (case load_inspector env scheme of
             Inl e \<Rightarrow> (p, Inl e)
           | Inr i \<Rightarrow> (p\<lparr>hp_inspectors := dict_set scheme i (hp_inspectors p)\<rparr>, Inr i)))"

definition inspector_param ::
  "string \<Rightarrow> ('w, 'p, 'c) inspector \<Rightarrow> ('w, 'p, 'c) hw_pollster \<Rightarrow> ('w, 'p, 'c) hw_pollster \<times> 'p res" where
  "inspector_param scheme ins p =
     (let key = scheme @ ''.'' @ hd_name (hp_definition p) in
      case dict_get (hp_params p) key of
        Some x \<Rightarrow> (p, Inr x)
      | None \<Rightarrow>
          (case dict_get_default (hd_inspectors (hp_definition p)) (scheme @ ''_inspector'') (PDict []) of
             PDict d \<Rightarrow>
               (case in_prepare ins d of
                  Inl e \<Rightarrow> (p, Inl e)
                | Inr x \<Rightarrow> (p\<lparr>hp_params := dict_set key x (hp_params p)\<rparr>, Inr x))
           | _ \<Rightarrow> (p, Inl TypeError)))"

text \<open>
  The part of the loop that is guarded: the items of a host, from its cache or inspected now.
  What has been cached stays when it raises.
\<close>

definition host_items ::
  "('w, 'p, 'c) inspector \<Rightarrow> snmp_host \<Rightarrow> pyval \<Rightarrow> pymap \<Rightarrow> ('w, 'p, 'c) hw_pollster \<Rightarrow> 'c hw_cache \<Rightarrow> 'w \<Rightarrow>
   (('w, 'p, 'c) hw_pollster \<times> 'c hw_cache \<times> 'w) \<times> item list res" where
  "host_items ins host rid extra p cache w =
     (let name = hd_name (hp_definition p);
          hc = dict_get_default cache rid \<lparr>hc_inspector = in_cache ins, hc_items = []\<rparr>;
          cache1 = dict_set rid hc cache
      in case inspector_param (sh_scheme host) ins p of
           (p1, Inl e) \<Rightarrow> ((p1, cache1, w), Inl e)
         | (p1, Inr x) \<Rightarrow>
             (case dict_get (hc_items hc) name of
                Some its \<Rightarrow> ((p1, cache1, w), Inr its)
              | None \<Rightarrow>
                  (case in_inspect ins host extra x (hc_inspector hc) w of
                     ((c1, w1), Inl e) \<Rightarrow> ((p1, dict_set rid (hc\<lparr>hc_inspector := c1\<rparr>) cache, w1), Inl e)
                   | ((c1, w1), Inr its) \<Rightarrow>
                       ((p1, dict_set rid (hc\<lparr>hc_inspector := c1, hc_items := dict_set name its (hc_items hc)\<rparr>) cache, w1),
                        Inr its))))"

text \<open>
  \<open>get_samples\<close>: an exception of the guarded part costs the samples of its host; splitting a
  URL and loading an inspector are outside, and end the poll.
\<close>

fun hw_get_samples ::
  "('w, 'p, 'c) hw_env \<Rightarrow> pyval list \<Rightarrow> ('w, 'p, 'c) hw_pollster \<Rightarrow> 'c hw_cache \<Rightarrow> 'w \<Rightarrow>
   (('w, 'p, 'c) hw_pollster \<times> 'c hw_cache \<times> 'w) \<times> sample list res" where
  "hw_get_samples env [] p cache w = ((p, cache, w), Inr [])"
| "hw_get_samples env (r # rs) p cache w =
     (case parse_resource env r of
        Inl e \<Rightarrow> ((p, cache, w), Inl e)
      | Inr None \<Rightarrow> hw_get_samples env rs p cache w
      | Inr (Some (host, rid, extra)) \<Rightarrow>
          (case get_inspector env (sh_scheme host) p of
             (p1, Inl e) \<Rightarrow> ((p1, cache, w), Inl e)
           | (p1, Inr ins) \<Rightarrow>
               (case host_items ins host rid extra p1 cache w of
                  ((p2, cache2, w2), it) \<Rightarrow>
                    (case hw_get_samples env rs p2 cache2 w2 of
                       (st, r2) \<Rightarrow>
                         (st, bindr r2 (\<lambda>ss. Inr ((case it of Inl e \<Rightarrow> []
                            | Inr its \<Rightarrow> generate_samples (hw_repr env) (hw_uuid env) host (hp_definition p2) its) @ ss)))))))"

section \<open>Discovery\<close>

record hw_conf =
  hw_url_scheme :: string
  hw_user_name :: "string option"
  hw_password :: "string option"
  hw_options :: "(string, string option) pydict"
  hw_network :: string

definition nonempty_text :: "string option \<Rightarrow> string option" where
  "nonempty_text s = (case s of Some t \<Rightarrow> if t = [] then None else Some t | None \<Rightarrow> None)"

text \<open>\<open>_make_resource_url\<close>; the options are \<open>auth_proto\<close>, \<open>priv_proto\<close> and \<open>priv_password\<close>.\<close>

definition url_options :: "string list" where
  "url_options = [''auth_proto'', ''priv_proto'', ''priv_password'']"

definition make_resource_url :: "hw_conf \<Rightarrow> string \<Rightarrow> string" where
  "make_resource_url conf ip =
     (let user = nonempty_text (hw_user_name conf); pw = nonempty_text (hw_password conf);
          query = join ''&'' (List.map_filter
            (\<lambda>opt. map_option (\<lambda>v. opt @ ''='' @ v) (nonempty_text (dict_get_default (hw_options conf) opt None))) url_options)
      in hw_url_scheme conf
         @ (case user of None \<Rightarrow> [] | Some u \<Rightarrow> u)
         @ (case pw of None \<Rightarrow> [] | Some x \<Rightarrow> '':'' @ x)
         @ (if user \<noteq> None \<or> pw \<noteq> None then ''@'' else []) @ ip
         @ (if query \<noteq> [] then ''?'' @ query else []))"

text \<open>A server as Nova describes it; an address is a dictionary.\<close>

record server =
  sv_id :: string
  sv_vm_state :: "string option"
  sv_addresses :: "(string, pymap list) pydict"
  sv_image_id :: pyval
  sv_flavor_id :: pyval

record discovery_state =
  ds_last_run :: "string option"
  ds_instances :: "(string, server) pydict"

definition merge_instance :: "server \<Rightarrow> (string, server) pydict \<Rightarrow> (string, server) pydict" where
  "merge_instance s known =
     (if sv_vm_state s \<in> {Some ''deleted'', Some ''error''} then dict_del (sv_id s) known
      else dict_set (sv_id s) s known)"

text \<open>
  The resource of a server: none when it is not on the control plane network. An empty list of
  addresses is an \<open>IndexError\<close>, an address without \<open>addr\<close> a \<open>TypeError\<close> of joining the URL;
  neither is caught. A key error of the image or flavor, which is, cannot occur with this type.
\<close>

definition node_resource :: "hw_conf \<Rightarrow> server \<Rightarrow> pymap option res" where
  "node_resource conf s =
     (case dict_get (sv_addresses s) (hw_network conf) of
        None \<Rightarrow> Inr None
      | Some [] \<Rightarrow> Inl IndexError
      | Some (a # _) \<Rightarrow>
          (case dict_get_default a ''addr'' PNone of
             PStr ip \<Rightarrow>
               Inr (Some [(''resource_id'', PStr (sv_id s)), (''resource_url'', PStr (make_resource_url conf ip)),
                          (''mac_addr'', dict_get_default a ''OS-EXT-IPS-MAC:mac_addr'' PNone),
                          (''image_id'', sv_image_id s), (''flavor_id'', sv_flavor_id s)])
           | _ \<Rightarrow> Inl TypeError))"

fun node_resources :: "hw_conf \<Rightarrow> server list \<Rightarrow> pymap list res" where
  "node_resources conf [] = Inr []"
| "node_resources conf (s # ss) =
     bindr (node_resource conf s) (\<lambda>r. bindr (node_resources conf ss) (\<lambda>rs. Inr (case r of None \<Rightarrow> rs | Some x \<Rightarrow> x # rs)))"

definition hw_discover ::
  "hw_conf \<Rightarrow> (string option \<Rightarrow> server list res) \<Rightarrow> string \<Rightarrow> discovery_state \<Rightarrow> discovery_state \<times> pymap list res" where
  "hw_discover conf instance_get_all now st =
     (case instance_get_all (ds_last_run st) of
        Inl e \<Rightarrow> (st, Inr [])
      | Inr ss \<Rightarrow>
          (let known = fold merge_instance ss (ds_instances st) in
           (\<lparr>ds_last_run = Some now, ds_instances = known\<rparr>, node_resources conf (map snd known))))"

section \<open>Facts\<close>

text \<open>
  A pollster that has only remembered what loading and preparing give, whatever the hosts were.
\<close>

definition remembers :: "('w, 'p, 'c) hw_env \<Rightarrow> hw_definition \<Rightarrow> ('w, 'p, 'c) hw_pollster \<Rightarrow> bool" where
  "remembers env d p \<longleftrightarrow> hp_definition p = d
     \<and> (\<forall>sc i. dict_get (hp_inspectors p) sc = Some i \<longrightarrow> load_inspector env sc = Inr i)
     \<and> (\<forall>sc x. dict_get (hp_params p) (sc @ ''.'' @ hd_name d) = Some x \<longrightarrow>
          (\<exists>i cfg. load_inspector env sc = Inr i \<and>
             dict_get_default (hd_inspectors d) (sc @ ''_inspector'') (PDict []) = PDict cfg \<and> in_prepare i cfg = Inr x))"

lemma get_inspector_same:
  assumes "remembers env d p" "load_inspector env sc = Inr i"
  shows "\<exists>p1. get_inspector env sc p = (p1, Inr i) \<and> remembers env d p1"
proof (cases "dict_get (hp_inspectors p) sc")
  case None
  let ?p1 = "p\<lparr>hp_inspectors := dict_set sc i (hp_inspectors p)\<rparr>"
  have "remembers env d ?p1" using assms by (auto simp: remembers_def dict_get_set)
  then show ?thesis using None assms(2) by (simp add: get_inspector_def)
next
  case (Some j)
  then have "load_inspector env sc = Inr j" using assms(1) by (simp add: remembers_def)
  then show ?thesis using Some assms by (simp add: get_inspector_def)
qed

text \<open>What preparing the parameters of a definition gives.\<close>

definition prepared :: "hw_definition \<Rightarrow> string \<Rightarrow> ('w, 'p, 'c) inspector \<Rightarrow> 'p res" where
  "prepared d sc i =
     (case dict_get_default (hd_inspectors d) (sc @ ''_inspector'') (PDict []) of
        PDict cfg \<Rightarrow> in_prepare i cfg | _ \<Rightarrow> Inl TypeError)"

lemma inspector_param_same:
  assumes "remembers env d p" "load_inspector env sc = Inr i"
  shows "\<exists>p1. inspector_param sc i p = (p1, prepared d sc i) \<and> remembers env d p1"
proof (cases "dict_get (hp_params p) (sc @ ''.'' @ hd_name d)")
  case None
  show ?thesis
  proof (cases "prepared d sc i")
    case (Inl e)
    then show ?thesis using None assms(1)
      by (auto simp: inspector_param_def Let_def prepared_def remembers_def split: pyval.splits)
  next
    case (Inr x)
    then obtain cfg where cfg: "dict_get_default (hd_inspectors d) (sc @ ''_inspector'') (PDict []) = PDict cfg"
      "in_prepare i cfg = Inr x" by (auto simp: prepared_def split: pyval.splits)
    let ?p1 = "p\<lparr>hp_params := dict_set (sc @ ''.'' @ hd_name d) x (hp_params p)\<rparr>"
    have "remembers env d ?p1" using assms cfg by (auto simp: remembers_def dict_get_set)
    then show ?thesis using None cfg Inr assms(1) by (auto simp: inspector_param_def Let_def remembers_def)
  qed
next
  case (Some x)
  with assms(1) obtain j cfg where "load_inspector env sc = Inr j"
    "dict_get_default (hd_inspectors d) (sc @ ''_inspector'') (PDict []) = PDict cfg" "in_prepare j cfg = Inr x"
    unfolding remembers_def by blast
  then have "prepared d sc i = Inr x" using assms(2) by (simp add: prepared_def)
  moreover have "hp_definition p = d" using assms(1) by (simp add: remembers_def)
  ultimately show ?thesis using Some assms(1) by (simp add: inspector_param_def Let_def)
qed

text \<open>The items of a host that is not in the cache yet do not depend on the other hosts.\<close>

definition fresh_items ::
  "hw_definition \<Rightarrow> (unit, 'p, 'c) inspector \<Rightarrow> snmp_host \<Rightarrow> pymap \<Rightarrow> item list res" where
  "fresh_items d i host extra =
     bindr (prepared d (sh_scheme host) i) (\<lambda>x. snd (in_inspect i host extra x (in_cache i) ()))"

lemma host_items_fresh:
  fixes i :: "(unit, 'p, 'c) inspector"
  assumes "remembers env d p" "load_inspector env (sh_scheme host) = Inr i" "dict_get cache rid = None"
  shows "\<exists>p1 c1. host_items i host rid extra p cache () = ((p1, c1, ()), fresh_items d i host extra)
    \<and> remembers env d p1 \<and> (\<forall>k. k \<noteq> rid \<longrightarrow> dict_get c1 k = dict_get cache k)"
proof -
  obtain p1 where p1: "inspector_param (sh_scheme host) i p = (p1, prepared d (sh_scheme host) i)" "remembers env d p1"
    using inspector_param_same [OF assms(1,2)] by blast
  show ?thesis
  proof (cases "prepared d (sh_scheme host) i")
    case (Inl e)
    then show ?thesis using p1 by (simp add: host_items_def Let_def fresh_items_def dict_get_set)
  next
    case (Inr x)
    obtain c1 w1 r where r: "in_inspect i host extra x (in_cache i) () = ((c1, w1), r)" by (metis surj_pair)
    show ?thesis
      using p1 assms(3) Inr r
      by (cases r) (simp_all add: host_items_def Let_def fresh_items_def dict_get_default_def dict_get_set)
  qed
qed

text \<open>The samples of a resource that is polled on its own.\<close>

definition alone :: "(unit, 'p, 'c) hw_env \<Rightarrow> hw_definition \<Rightarrow> pyval \<Rightarrow> sample list" where
  "alone env d r =
     (case snd (hw_get_samples env [r] \<lparr>hp_definition = d, hp_inspectors = [], hp_params = []\<rparr> [] ()) of
        Inl e \<Rightarrow> [] | Inr ss \<Rightarrow> ss)"

text \<open>A resource that is skipped, or whose URL splits and whose inspector loads.\<close>

definition pollable :: "('w, 'p, 'c) hw_env \<Rightarrow> pyval \<Rightarrow> bool" where
  "pollable env r =
     (case parse_resource env r of
        Inl e \<Rightarrow> False
      | Inr None \<Rightarrow> True
      | Inr (Some (host, rid, extra)) \<Rightarrow> is_ok (load_inspector env (sh_scheme host)))"

definition resource_key :: "('w, 'p, 'c) hw_env \<Rightarrow> pyval \<Rightarrow> pyval list" where
  "resource_key env r = (case parse_resource env r of Inr (Some (host, rid, extra)) \<Rightarrow> [rid] | _ \<Rightarrow> [])"

lemma one_resource:
  assumes "remembers env d p" "parse_resource env r = Inr (Some (host, rid, extra))"
    "load_inspector env (sh_scheme host) = Inr i" "dict_get cache rid = None"
  shows "\<exists>p2 c2. remembers env d p2 \<and> (\<forall>k. k \<noteq> rid \<longrightarrow> dict_get c2 k = dict_get cache k) \<and>
    (\<forall>rs. hw_get_samples env (r # rs) p cache () =
      (case hw_get_samples env rs p2 c2 () of (st, r2) \<Rightarrow>
        (st, bindr r2 (\<lambda>ss. Inr ((case fresh_items d i host extra of Inl e \<Rightarrow> []
           | Inr its \<Rightarrow> generate_samples (hw_repr env) (hw_uuid env) host d its) @ ss)))))"
proof -
  obtain p1 where p1: "get_inspector env (sh_scheme host) p = (p1, Inr i)" "remembers env d p1"
    using get_inspector_same [OF assms(1,3)] by blast
  obtain p2 c2 where h: "host_items i host rid extra p1 cache () = ((p2, c2, ()), fresh_items d i host extra)"
    "remembers env d p2" "\<forall>k. k \<noteq> rid \<longrightarrow> dict_get c2 k = dict_get cache k"
    using host_items_fresh [OF p1(2) assms(3,4), of extra] by blast
  have "hp_definition p2 = d" using h(2) by (simp add: remembers_def)
  then show ?thesis using h p1 assms(2)
    by (intro exI [of _ p2] exI [of _ c2]) (auto split: prod.split sum.split)
qed

lemma alone_eq:
  assumes "parse_resource env r = Inr (Some (host, rid, extra))" "load_inspector env (sh_scheme host) = Inr i"
  shows "alone env d r =
    (case fresh_items d i host extra of Inl e \<Rightarrow> [] | Inr its \<Rightarrow> generate_samples (hw_repr env) (hw_uuid env) host d its)"
proof -
  have "remembers env d \<lparr>hp_definition = d, hp_inspectors = [], hp_params = []\<rparr>" by (simp add: remembers_def)
  from one_resource [OF this assms, of "[]"] obtain p2 c2 where
    one: "hw_get_samples env [r] \<lparr>hp_definition = d, hp_inspectors = [], hp_params = []\<rparr> [] () =
      (case hw_get_samples env [] p2 c2 () of (st, r2) \<Rightarrow>
        (st, bindr r2 (\<lambda>ss. Inr ((case fresh_items d i host extra of Inl e \<Rightarrow> []
           | Inr its \<Rightarrow> generate_samples (hw_repr env) (hw_uuid env) host d its) @ ss))))" by fastforce
  show ?thesis unfolding alone_def one by (simp split: sum.split)
qed

section \<open>Properties\<close>

text \<open>
  Hosts are polled independently. When every URL splits and every inspector loads, and no
  two resources have the same identifier, polling a list of resources yields for each of them
  exactly the samples it yields when it is polled alone: a host whose inspection fails costs
  only its own samples, and no cache carries something from one host to another.
\<close>

theorem hosts_independent:
  fixes env :: "(unit, 'p, 'c) hw_env"
  assumes "list_all (pollable env) rs" "distinct (concat (map (resource_key env) rs))"
  shows "snd (hw_get_samples env rs \<lparr>hp_definition = d, hp_inspectors = [], hp_params = []\<rparr> [] ())
    = Inr (concat (map (alone env d) rs))"
proof -
  have "remembers env d p \<Longrightarrow> list_all (pollable env) rs \<Longrightarrow> distinct (concat (map (resource_key env) rs)) \<Longrightarrow>
      \<forall>k \<in> set (concat (map (resource_key env) rs)). dict_get cache k = None \<Longrightarrow>
      snd (hw_get_samples env rs p cache ()) = Inr (concat (map (alone env d) rs))" for p cache
  proof (induction rs arbitrary: p cache)
    case (Cons r rs)
    show ?case
    proof (cases "parse_resource env r = Inr None")
      case True
      then show ?thesis using Cons by (simp add: alone_def resource_key_def)
    next
      case False
      with Cons.prems(2) obtain host rid extra i where r: "parse_resource env r = Inr (Some (host, rid, extra))"
        "load_inspector env (sh_scheme host) = Inr i"
        by (auto simp: pollable_def is_ok_iff split: sum.splits option.splits)
      have key: "resource_key env r = [rid]" by (simp add: resource_key_def r)
      obtain p2 c2 where n: "remembers env d p2" "\<forall>k. k \<noteq> rid \<longrightarrow> dict_get c2 k = dict_get cache k"
        "hw_get_samples env (r # rs) p cache () =
          (case hw_get_samples env rs p2 c2 () of (st, r2) \<Rightarrow> (st, bindr r2 (\<lambda>ss. Inr (alone env d r @ ss))))"
        using one_resource [OF Cons.prems(1) r, of cache] Cons.prems(4) alone_eq [OF r, of d] by (auto simp: key)
      have "snd (hw_get_samples env rs p2 c2 ()) = Inr (concat (map (alone env d) rs))"
      proof (rule Cons.IH [OF n(1)])
        show "\<forall>k \<in> set (concat (map (resource_key env) rs)). dict_get c2 k = None"
        proof
          fix k assume k: "k \<in> set (concat (map (resource_key env) rs))"
          then have "k \<noteq> rid" using Cons.prems(3) by (auto simp: key)
          then show "dict_get c2 k = None" using k n(2) Cons.prems(4) by simp
        qed
      qed (use Cons.prems in \<open>simp_all add: key\<close>)
      then show ?thesis unfolding n(3) by (cases "hw_get_samples env rs p2 c2 ()") simp
    qed
  qed simp
  then show ?thesis using assms by (simp add: remembers_def)
qed

lemma find_append_last: "find p (rev (xs @ ys)) = (case find p (rev ys) of Some x \<Rightarrow> Some x | None \<Rightarrow> find p (rev xs))"
  by (induction ys rule: rev_induct) simp_all

text \<open>The state of a server after some reports, oldest first: the last one, if it is alive.\<close>

definition last_report :: "server list \<Rightarrow> string \<Rightarrow> server option" where
  "last_report reports i =
     (case find (\<lambda>s. sv_id s = i) (rev reports) of
        None \<Rightarrow> None
      | Some s \<Rightarrow> if sv_vm_state s \<in> {Some ''deleted'', Some ''error''} then None else Some s)"

fun hw_discover_all ::
  "hw_conf \<Rightarrow> server list res list \<Rightarrow> string \<Rightarrow> discovery_state \<Rightarrow> discovery_state" where
  "hw_discover_all conf [] now st = st"
| "hw_discover_all conf (a # as) now st = hw_discover_all conf as now (fst (hw_discover conf (\<lambda>since. a) now st))"

lemma merge_get:
  "dict_get (fold merge_instance ss known) i =
     (if \<exists>s \<in> set ss. sv_id s = i then last_report ss i else dict_get known i)"
proof (induction ss arbitrary: known rule: rev_induct)
  case (snoc s ss)
  have "dict_get (dict_del k m) j = (if j = k then None else dict_get m j)" for k j and m :: "(string, server) pydict"
    by (simp add: delete_conv')
  then show ?case using snoc by (auto simp: merge_instance_def last_report_def dict_get_set)
qed simp

text \<open>
  The discovery of nodes tracks them. However the answers of Nova are spread over calls,
  with calls that fail among them, the instances known afterwards are those whose last report
  is neither deleted nor in error, in that last report's version.
\<close>

theorem discovery_tracks_servers:
  "dict_get (ds_instances (hw_discover_all conf answers now \<lparr>ds_last_run = None, ds_instances = []\<rparr>)) i
   = last_report (concat (map (\<lambda>a. case a of Inl e \<Rightarrow> [] | Inr ss \<Rightarrow> ss) answers)) i"
proof -
  have keep: "last_report (xs @ ys) i = (if \<exists>s \<in> set ys. sv_id s = i then last_report ys i else last_report xs i)" for xs ys
  proof -
    have "(\<exists>s \<in> set ys. sv_id s = i) \<longleftrightarrow> find (\<lambda>s. sv_id s = i) (rev ys) \<noteq> None"
      using find_None_iff [of "\<lambda>s. sv_id s = i" "rev ys"] by auto
    then show ?thesis
      by (cases "find (\<lambda>s. sv_id s = i) (rev ys)") (simp_all add: last_report_def find_append_last del: rev_append)
  qed
  have "dict_get (ds_instances st) i = last_report old i \<Longrightarrow>
      dict_get (ds_instances (hw_discover_all conf answers now st)) i
      = last_report (old @ concat (map (\<lambda>a. case a of Inl e \<Rightarrow> [] | Inr ss \<Rightarrow> ss) answers)) i" for old st
  proof (induction answers arbitrary: old st)
    case (Cons a as)
    let ?new = "case a of Inl e \<Rightarrow> [] | Inr ss \<Rightarrow> ss"
    have "dict_get (ds_instances (fst (hw_discover conf (\<lambda>since. a) now st))) i = last_report (old @ ?new) i"
      using Cons.prems by (cases a) (auto simp: hw_discover_def Let_def merge_get keep)
    from Cons.IH [OF this] show ?case by simp
  qed simp
  from this [of "\<lparr>ds_last_run = None, ds_instances = []\<rparr>" "[]"] show ?thesis by (simp add: last_report_def)
qed

section \<open>Witness\<close>

definition demo_inspector :: "(unit, nat, unit) inspector" where
  "demo_inspector = \<lparr>in_prepare = (\<lambda>cfg. Inr (length cfg)),
     in_inspect = (\<lambda>host extra x c w. ((c, w), if sh_hostname host = Some ''bad'' then Inl (OtherError ''timeout'')
        else Inr [(PInt 5, [], [])])), in_cache = ()\<rparr>"

definition demo_hw_env :: "(unit, nat, unit) hw_env" where
  "demo_hw_env = \<lparr>split_url_of = (\<lambda>v. case v of PStr s \<Rightarrow> Inr (demo_host\<lparr>sh_hostname := Some s\<rparr>) | _ \<Rightarrow> Inl TypeError),
     load_inspector = (\<lambda>s. Inr demo_inspector), hw_repr = (\<lambda>v. []), hw_uuid = ''id''\<rparr>"

definition demo_hw_definition :: hw_definition where
  "demo_hw_definition = \<lparr>hd_name = ''hardware.cpu.util'', hd_unit = ''%'', hd_type = ''gauge'', hd_inspectors = []\<rparr>"

theorem hosts_independent_witness:
  "snd (hw_get_samples demo_hw_env [PStr ''a'', PStr ''bad'', PStr ''b'']
      \<lparr>hp_definition = demo_hw_definition, hp_inspectors = [], hp_params = []\<rparr> [] ())
    = Inr (alone demo_hw_env demo_hw_definition (PStr ''a'') @ alone demo_hw_env demo_hw_definition (PStr ''b''))"
proof -
  have "list_all (pollable demo_hw_env) [PStr ''a'', PStr ''bad'', PStr ''b'']"
    "distinct (concat (map (resource_key demo_hw_env) [PStr ''a'', PStr ''bad'', PStr ''b'']))"
    by (simp_all add: pollable_def resource_key_def parse_resource_def demo_hw_env_def)
  from hosts_independent [OF this, of demo_hw_definition]
  have "snd (hw_get_samples demo_hw_env [PStr ''a'', PStr ''bad'', PStr ''b'']
      \<lparr>hp_definition = demo_hw_definition, hp_inspectors = [], hp_params = []\<rparr> [] ())
    = Inr (concat (map (alone demo_hw_env demo_hw_definition) [PStr ''a'', PStr ''bad'', PStr ''b'']))" .
  moreover have "alone demo_hw_env demo_hw_definition (PStr ''bad'') = []" by code_simp
  ultimately show ?thesis by simp
qed

end
