(* ===== verification/Network_Statistics.thy ===== *)
theory Network_Statistics
  imports Agent_Polling Url
begin

text \<open>
  The pollsters of network statistics (\<^verbatim>\<open>ceilometer/network/statistics/__init__.py\<close> with the
  meters of \<^verbatim>\<open>flow.py\<close>, \<^verbatim>\<open>port.py\<close>, \<^verbatim>\<open>port_v2.py\<close>, \<^verbatim>\<open>switch.py\<close> and \<^verbatim>\<open>table.py\<close>): a resource is a URL whose
  scheme names a driver, and the driver gives volumes for the meter.

  JSON data are Python values. A generator is the list of what it has yielded and how it ended.
\<close>

section \<open>Reading JSON data\<close>

text \<open>\<open>d[k1][k2]...\<close> and \<open>d.get(k)\<close>\<close>

fun dig :: "pyval \<Rightarrow> string list \<Rightarrow> pyval res" where
  "dig v [] = Inr v"
| "dig v (k # ks) = bindr (py_getitem v (PStr k)) (\<lambda>u. dig u ks)"

text \<open>\<open>for x in d[k]\<close>\<close>

definition dig_list :: "pyval \<Rightarrow> string list \<Rightarrow> pyval list res" where
  "dig_list v ks = bindr (dig v ks) py_iter"

text \<open>\<open>a and b\<close> for conditions that can raise.\<close>

definition andr :: "bool res \<Rightarrow> bool res \<Rightarrow> bool res" where
  "andr a b = bindr a (\<lambda>x. if x then b else Inr False)"

definition is_at :: "pyval \<Rightarrow> string list \<Rightarrow> pyval \<Rightarrow> bool res" where
  "is_at v ks x = bindr (dig v ks) (\<lambda>u. Inr (py_eq u x))"

type_synonym 'a gen = "'a list \<times> unit res"

definition gen_one :: "'a res \<Rightarrow> 'a gen" where
  "gen_one r = (case r of Inl e \<Rightarrow> ([], Inl e) | Inr x \<Rightarrow> ([x], Inr ()))"

text \<open>A generator that yields what \<open>f\<close> yields for each element.\<close>

fun gen_bind :: "('b \<Rightarrow> 'a gen) \<Rightarrow> 'b list \<Rightarrow> 'a gen" where
  "gen_bind f [] = ([], Inr ())"
| "gen_bind f (x # xs) =
     (case f x of
        (ys, Inl e) \<Rightarrow> (ys, Inl e)
      | (ys, Inr _) \<Rightarrow> (case gen_bind f xs of (zs, r) \<Rightarrow> (ys @ zs, r)))"

section \<open>Meters\<close>

text \<open>The name, type and unit of every pollster, file by file.\<close>

type_synonym meter = "string \<times> string \<times> string"

definition flow_meters :: "meter list" where
  "flow_meters =
    [(''switch.flow'', TYPE_GAUGE, ''flow''), (''switch.flow.duration_seconds'', TYPE_GAUGE, ''s''),
     (''switch.flow.duration_nanoseconds'', TYPE_GAUGE, ''ns''), (''switch.flow.packets'', TYPE_CUMULATIVE, ''packet''),
     (''switch.flow.bytes'', TYPE_CUMULATIVE, ''B'')]"

definition port_meters :: "meter list" where
  "port_meters =
    [(''switch.port'', TYPE_GAUGE, ''port''), (''switch.port.uptime'', TYPE_GAUGE, ''s''),
     (''switch.port.receive.packets'', TYPE_CUMULATIVE, ''packet''), (''switch.port.transmit.packets'', TYPE_CUMULATIVE, ''packet''),
     (''switch.port.receive.bytes'', TYPE_CUMULATIVE, ''B''), (''switch.port.transmit.bytes'', TYPE_CUMULATIVE, ''B''),
     (''switch.port.receive.drops'', TYPE_CUMULATIVE, ''packet''), (''switch.port.transmit.drops'', TYPE_CUMULATIVE, ''packet''),
     (''switch.port.receive.errors'', TYPE_CUMULATIVE, ''packet''), (''switch.port.transmit.errors'', TYPE_CUMULATIVE, ''packet''),
     (''switch.port.receive.frame_error'', TYPE_CUMULATIVE, ''packet''), (''switch.port.receive.overrun_error'', TYPE_CUMULATIVE, ''packet''),
     (''switch.port.receive.crc_error'', TYPE_CUMULATIVE, ''packet''), (''switch.port.collision.count'', TYPE_CUMULATIVE, ''packet'')]"

definition port_v2_meters :: "meter list" where
  "port_v2_meters =
    [(''port'', TYPE_GAUGE, ''port''), (''port.uptime'', TYPE_GAUGE, ''s''),
     (''port.receive.packets'', TYPE_CUMULATIVE, ''packet''), (''port.transmit.packets'', TYPE_CUMULATIVE, ''packet''),
     (''port.receive.bytes'', TYPE_CUMULATIVE, ''B''), (''port.transmit.bytes'', TYPE_CUMULATIVE, ''B''),
     (''port.receive.drops'', TYPE_CUMULATIVE, ''packet''), (''port.receive.errors'', TYPE_CUMULATIVE, ''packet'')]"

definition switch_meters :: "meter list" where
  "switch_meters = [(''switch'', TYPE_GAUGE, ''switch''), (''switch.ports'', TYPE_GAUGE, ''ports'')]"

definition table_meters :: "meter list" where
  "table_meters =
    [(''switch.table'', TYPE_GAUGE, ''table''), (''switch.table.active.entries'', TYPE_GAUGE, ''entry''),
     (''switch.table.lookup.packets'', TYPE_GAUGE, ''packet''), (''switch.table.matched.packets'', TYPE_GAUGE, ''packet'')]"

section \<open>Drivers\<close>

text \<open>
  What a driver yields for a meter: a volume with the resource, its metadata and the project.
  A driver gets the URL, the parameters of its query and the cache of the cycle.
\<close>

type_synonym net_item = "pyval \<times> pyval \<times> pymap \<times> pyval"
type_synonym params = "(string, string list) pydict"

type_synonym ('c, 'w) net_driver =
  "string \<Rightarrow> split_url \<Rightarrow> params \<Rightarrow> 'c \<Rightarrow> 'w \<Rightarrow> ('c \<times> 'w) \<times> net_item gen"

record ('c, 'w) net_env =
  net_split :: "pyval \<Rightarrow> split_url res"
  net_load :: "string \<Rightarrow> ('c, 'w) net_driver res"
  net_source :: string
  net_uuid :: string
  net_repr :: "pyval \<Rightarrow> string"

text \<open>
  \<open>_parse_my_resource\<close>: the URL without its query, and the query. \<open>net_split\<close> is
  \<open>netutils.urlsplit\<close>.
\<close>

definition parse_my_resource :: "('c, 'w) net_env \<Rightarrow> pyval \<Rightarrow> (split_url \<times> params) res" where
  "parse_my_resource env r =
     bindr (net_split env r) (\<lambda>u. Inr (u\<lparr>u_query := [], u_fragment := []\<rparr>, parse_qs (u_query u)))"

text \<open>The drivers that have been loaded, by scheme.\<close>

type_synonym ('c, 'w) drivers = "(string, ('c, 'w) net_driver) pydict"

definition get_driver :: "('c, 'w) net_env \<Rightarrow> string \<Rightarrow> ('c, 'w) drivers \<Rightarrow> ('c, 'w) drivers \<times> ('c, 'w) net_driver res" where
  "get_driver env scheme ds =
     (case dict_get ds scheme of
        Some d \<Rightarrow> (ds, Inr d)
      | None \<Rightarrow>
          (case net_load env scheme of
             Inl e \<Rightarrow> (ds, Inl e)
           | Inr d \<Rightarrow> (dict_set scheme d ds, Inr d)))"

definition net_sample :: "('c, 'w) net_env \<Rightarrow> meter \<Rightarrow> net_item \<Rightarrow> sample" where
  "net_sample env m it =
     (case (m, it) of ((name, ty, unit), (volume, rid, md, project)) \<Rightarrow>
        new_sample (net_source env) (net_uuid env) name ty unit volume None (optional_text (net_repr env) project)
          (text_of (net_repr env) rid) None md None None PNone)"

text \<open>
  \<open>get_samples\<close>. No driver of the repository yields a missing item or a list of items, which the
  code would skip and flatten.
\<close>

fun net_get_samples ::
  "('c, 'w) net_env \<Rightarrow> meter \<Rightarrow> pyval list \<Rightarrow> ('c, 'w) drivers \<Rightarrow> 'c \<Rightarrow> 'w \<Rightarrow>
   (('c, 'w) drivers \<times> 'c \<times> 'w) \<times> sample gen" where
  "net_get_samples env m [] ds c w = ((ds, c, w), ([], Inr ()))"
| "net_get_samples env m (r # rs) ds c w =
     (case parse_my_resource env r of
        Inl e \<Rightarrow> ((ds, c, w), ([], Inl e))
      | Inr (url, ps) \<Rightarrow>
          (case get_driver env (u_scheme url) ds of
             (ds1, Inl e) \<Rightarrow> ((ds1, c, w), ([], Inl e))
           | (ds1, Inr d) \<Rightarrow>
               (case d (fst m) url ps c w of
                  ((c1, w1), (its, Inl e)) \<Rightarrow> ((ds1, c1, w1), (map (net_sample env m) its, Inl e))
                | ((c1, w1), (its, Inr _)) \<Rightarrow>
                    (case net_get_samples env m rs ds1 c1 w1 of
                       (st, (ss, e)) \<Rightarrow> (st, (map (net_sample env m) its @ ss, e))))))"

text \<open>The endpoint of a driver: the URL with the scheme that the query asks for.\<close>

definition first_param :: "params \<Rightarrow> string \<Rightarrow> string \<Rightarrow> string" where
  "first_param ps k default_value = (case dict_get ps k of Some (v # _) \<Rightarrow> v | _ \<Rightarrow> default_value)"

definition driver_endpoint :: "split_url \<Rightarrow> params \<Rightarrow> string" where
  "driver_endpoint url ps = urlunsplit (url\<lparr>u_scheme := first_param ps ''scheme'' ''http'', u_query := [], u_fragment := []\<rparr>)"

text \<open>\<open>meter_name.replace('.', '_')\<close>, the end of the name of the method that extracts a meter.\<close>

definition method_name :: "string \<Rightarrow> string" where
  "method_name meter = ''_'' @ replace_char CHR ''.'' CHR ''_'' meter"

lemma gen_bind_ok: "(\<And>x. x \<in> set xs \<Longrightarrow> f x = (g x, Inr ())) \<Longrightarrow> gen_bind f xs = (concat (map g xs), Inr ())"
  by (induction xs) simp_all

end
