(* ===== verification/Opendaylight.thy ===== *)
theory Opendaylight
  imports Network_Statistics Ceil_Utils
begin

text \<open>
  The OpenDaylight driver (\<^verbatim>\<open>ceilometer/network/statistics/opendaylight/\<close>): the REST client, the
  data of the containers with the cache, and the meters of switches, ports, tables and flows.

  A container is a dictionary with the answers of the requests; user links are taken apart
  before. \<open>http\<close> is \<open>requests.get\<close>.
\<close>

section \<open>The REST client\<close>

datatype odl_auth = NoAuth | Basic "string option" "string option" | Digest "string option" "string option"

record http_response =
  status_code :: int
  json_body :: "pyval res"

type_synonym 'w http_get = "string \<Rightarrow> odl_auth \<Rightarrow> 'w \<Rightarrow> 'w \<times> http_response res"

text \<open>\<open>_get_req_params\<close>, the part that depends on the parameters.\<close>

definition get_req_params :: "(string, string) pydict \<Rightarrow> odl_auth" where
  "get_req_params odl_params =
     (let user = dict_get odl_params ''user''; password = dict_get odl_params ''password'' in
      case dict_get odl_params ''auth'' of
        None \<Rightarrow> NoAuth
      | Some a \<Rightarrow> if a = ''basic'' then Basic user password else if a = ''digest'' then Digest user password else NoAuth)"

definition http_request :: "'w http_get \<Rightarrow> odl_auth \<Rightarrow> string \<Rightarrow> 'w \<Rightarrow> 'w \<times> pyval res" where
  "http_request http auth url w =
     (case http url auth w of
        (w1, Inl e) \<Rightarrow> (w1, Inl e)
      | (w1, Inr resp) \<Rightarrow>
          (w1, if status_code resp div 100 \<noteq> 2 then Inl (OtherError ''OpenDaylight API returned'') else json_body resp))"

text \<open>The requests, by the path after the name of the container.\<close>

definition odl_url :: "string \<Rightarrow> string \<Rightarrow> string \<Rightarrow> string \<Rightarrow> string" where
  "odl_url endpoint base container path = endpoint @ ''/'' @ base @ ''/'' @ container @ path"

definition odl_requests :: "(string \<times> string \<times> string) list" where
  "odl_requests =
    [(''flow'', ''statistics'', ''/flow''), (''port'', ''statistics'', ''/port''), (''table'', ''statistics'', ''/table''),
     (''topology'', ''topology'', []), (''switch'', ''switchmanager'', ''/nodes'')]"

definition odl_host_requests :: "(string \<times> string \<times> string) list" where
  "odl_host_requests =
    [(''active_hosts'', ''hosttracker'', ''/hosts/active''), (''inactive_hosts'', ''hosttracker'', ''/hosts/inactive'')]"

fun request_all ::
  "'w http_get \<Rightarrow> odl_auth \<Rightarrow> string \<Rightarrow> string \<Rightarrow> (string \<times> string \<times> string) list \<Rightarrow> 'w \<Rightarrow> 'w \<times> pymap res" where
  "request_all http auth endpoint container [] w = (w, Inr [])"
| "request_all http auth endpoint container ((k, base, path) # rs) w =
     (case http_request http auth (odl_url endpoint base container path) w of
        (w1, Inl e) \<Rightarrow> (w1, Inl e)
      | (w1, Inr v) \<Rightarrow>
          (case request_all http auth endpoint container rs w1 of
             (w2, r) \<Rightarrow> (w2, bindr r (\<lambda>d. Inr ((k, v) # d)))))"

section \<open>User links\<close>

text \<open>\<open>OF|2@OF|00:01\<close>: exactly one at sign, exactly one bar on each side.\<close>

definition two_parts :: "char \<Rightarrow> string \<Rightarrow> (string \<times> string) res" where
  "two_parts c s = (case split_char c s of [a, b] \<Rightarrow> Inr (a, b) | _ \<Rightarrow> Inl ValueError)"

definition typed_id :: "string \<Rightarrow> pyval res" where
  "typed_id s = bindr (two_parts CHR ''|'' s) (\<lambda>(t, i). Inr (PDict [(''type'', PStr t), (''id'', PStr i)]))"

definition connector :: "pyval \<Rightarrow> pyval res" where
  "connector v =
     (case v of
        PStr s \<Rightarrow>
          bindr (two_parts CHR ''@'' s) (\<lambda>(p, n).
          bindr (typed_id p) (\<lambda>port. bindr (typed_id n) (\<lambda>node. Inr (PDict [(''port'', port), (''node'', node)]))))
      | _ \<Rightarrow> Inl (AttributeError ''split''))"

definition user_link :: "pyval \<Rightarrow> pyval res" where
  "user_link row =
     (case row of
        PDict d \<Rightarrow>
          bindr (mapr (\<lambda>(k, v). if k = ''dstNodeConnector'' \<or> k = ''srcNodeConnector''
                 then bindr (connector v) (\<lambda>c. Inr (k, c)) else Inr (k, v)) d) (\<lambda>d'. Inr (PDict d'))
      | _ \<Rightarrow> Inl (AttributeError ''items''))"

definition user_links :: "pyval \<Rightarrow> pyval res" where
  "user_links raw = bindr (dig_list raw [''userLinks'']) (\<lambda>rows. bindr (mapr user_link rows) (\<lambda>ls. Inr (PList ls)))"

section \<open>The data of the containers\<close>

text \<open>The guarded part: all requests of a container, or the exception that costs it its data.\<close>

definition container_data :: "'w http_get \<Rightarrow> odl_auth \<Rightarrow> string \<Rightarrow> string \<Rightarrow> 'w \<Rightarrow> 'w \<times> pymap res" where
  "container_data http auth endpoint container w =
     (case request_all http auth endpoint container odl_requests w of
        (w1, Inl e) \<Rightarrow> (w1, Inl e)
      | (w1, Inr d1) \<Rightarrow>
          (case http_request http auth (odl_url endpoint ''topology'' container ''/userLinks'') w1 of
             (w2, Inl e) \<Rightarrow> (w2, Inl e)
           | (w2, Inr raw) \<Rightarrow>
               (case user_links raw of
                  Inl e \<Rightarrow> (w2, Inl e)
                | Inr links \<Rightarrow>
                    (case request_all http auth endpoint container odl_host_requests w2 of
                       (w3, r) \<Rightarrow> (w3, bindr r (\<lambda>d2. Inr (d1 @ (''user_links'', links) # d2)))))))"

type_synonym odl_data = "(string, pymap) pydict"

fun containers_data :: "'w http_get \<Rightarrow> odl_auth \<Rightarrow> string \<Rightarrow> string list \<Rightarrow> odl_data \<Rightarrow> 'w \<Rightarrow> 'w \<times> odl_data" where
  "containers_data http auth endpoint [] data w = (w, data)"
| "containers_data http auth endpoint (n # ns) data w =
     (case container_data http auth endpoint n w of
        (w1, Inl e) \<Rightarrow> containers_data http auth endpoint ns data w1
      | (w1, Inr d) \<Rightarrow> containers_data http auth endpoint ns (dict_set n d data) w1)"

text \<open>The parameters of the client, each from the first value in the query.\<close>

definition odl_params :: "params \<Rightarrow> (string, string) pydict" where
  "odl_params ps =
     List.map_filter (\<lambda>k. case dict_get ps k of Some (v # _) \<Rightarrow> Some (k, v) | _ \<Rightarrow> None)
       [''auth'', ''user'', ''password'']"

text \<open>
  \<open>_prepare_cache\<close>: the cache of the cycle has one entry for the driver. \<open>None\<close> is a cache without
  the entry.
\<close>

definition odl_prepare_cache ::
  "'w http_get \<Rightarrow> string \<Rightarrow> params \<Rightarrow> odl_data option \<Rightarrow> 'w \<Rightarrow> (odl_data option \<times> 'w) \<times> odl_data" where
  "odl_prepare_cache http endpoint ps cache w =
     (case cache of
        Some data \<Rightarrow> ((cache, w), data)
      | None \<Rightarrow>
          (let names = (case dict_get ps ''container_name'' of None \<Rightarrow> [''default''] | Some ns \<Rightarrow> ns);
               (w1, data) = containers_data http (get_req_params (odl_params ps)) endpoint names [] w
           in ((Some data, w1), data)))"

section \<open>Extracting\<close>

text \<open>What an extractor gives: a volume, the resource and the metadata, or nothing.\<close>

type_synonym extracted = "(pyval \<times> pyval \<times> pymap) option"

definition get_properties :: "pyval \<Rightarrow> string \<Rightarrow> pymap res" where
  "get_properties properties pre =
     (case properties of
        PNone \<Rightarrow> Inr []
      | PDict d \<Rightarrow>
          bindr (mapr (\<lambda>(k, v).
            bindr (dig v [''value'']) (\<lambda>value.
            bindr (py_contains v ''name'') (\<lambda>named.
              if named
              then bindr (dig v [''name'']) (\<lambda>n. case n of
                  PStr s \<Rightarrow> Inr (pre @ ''_'' @ k @ ''_'' @ s, value) | _ \<Rightarrow> Inl TypeError)
              else Inr (pre @ ''_'' @ k, value)))) d) (\<lambda>kvs. Inr (dict_update [] kvs))
      | _ \<Rightarrow> Inl (AttributeError ''items''))"

definition get_int_sample :: "string \<Rightarrow> pyval \<Rightarrow> pyval \<Rightarrow> pymap \<Rightarrow> extracted res" where
  "get_int_sample key statistic rid md =
     bindr (py_contains statistic key) (\<lambda>present.
       if \<not> present then Inr None
       else bindr (dig statistic [key]) (\<lambda>v. bindr (py_int v) (\<lambda>i. Inr (Some (PInt i, rid, md)))))"

text \<open>The methods that read one counter, with its key.\<close>

definition counter_methods :: "(string, string) pydict" where
  "counter_methods =
    [(''_switch_port_receive_packets'', ''receivePackets''), (''_switch_port_transmit_packets'', ''transmitPackets''),
     (''_switch_port_receive_bytes'', ''receiveBytes''), (''_switch_port_transmit_bytes'', ''transmitBytes''),
     (''_switch_port_receive_drops'', ''receiveDrops''), (''_switch_port_transmit_drops'', ''transmitDrops''),
     (''_switch_port_receive_errors'', ''receiveErrors''), (''_switch_port_transmit_errors'', ''transmitErrors''),
     (''_switch_port_receive_frame_error'', ''receiveFrameError''),
     (''_switch_port_receive_overrun_error'', ''receiveOverRunError''),
     (''_switch_port_receive_crc_error'', ''receiveCrcError''), (''_switch_port_collision_count'', ''collisionCount''),
     (''_switch_table_active_entries'', ''activeCount''), (''_switch_table_lookup_packets'', ''lookupCount''),
     (''_switch_table_matched_packets'', ''matchedCount''),
     (''_switch_flow_duration_seconds'', ''durationSeconds''), (''_switch_flow_duration_nanoseconds'', ''durationNanoseconds''),
     (''_switch_flow_packets'', ''packetCount''), (''_switch_flow_bytes'', ''byteCount'')]"

definition extract_switch :: "pyval \<Rightarrow> pyval \<Rightarrow> pymap \<Rightarrow> extracted res" where
  "extract_switch statistic rid md =
     bindr (py_get statistic ''properties'' PNone) (\<lambda>ps.
     bindr (get_properties ps ''properties'') (\<lambda>pmd. Inr (Some (PInt 1, rid, dict_update md pmd))))"

text \<open>
  The other end of the first link at a port: \<open>near\<close> and \<open>far\<close> are the keys of the two ends, tried
  in both directions; \<open>port\<close> is the path from an end to its port.
\<close>

definition at_port :: "pyval \<Rightarrow> string list \<Rightarrow> pyval \<Rightarrow> pyval \<Rightarrow> bool res" where
  "at_port endpoint port node_id port_id =
     andr (is_at endpoint [''node'', ''id''] node_id) (is_at endpoint (port @ [''id'']) port_id)"

definition other_end :: "string \<Rightarrow> string \<Rightarrow> string list \<Rightarrow> pyval \<Rightarrow> pyval \<Rightarrow> pyval \<Rightarrow> pyval option res" where
  "other_end k1 k2 port edge node_id port_id =
     bindr (bindr (dig edge [k1]) (\<lambda>e. at_port e port node_id port_id)) (\<lambda>b.
       if b then bindr (dig edge [k2]) (\<lambda>t. Inr (Some t))
       else bindr (bindr (dig edge [k2]) (\<lambda>e. at_port e port node_id port_id)) (\<lambda>b.
         if b then bindr (dig edge [k1]) (\<lambda>t. Inr (Some t)) else Inr None))"

fun topology_metadata :: "pyval list \<Rightarrow> pyval \<Rightarrow> pyval \<Rightarrow> pymap \<Rightarrow> pymap res" where
  "topology_metadata [] node_id port_id md = Inr md"
| "topology_metadata (p # ps) node_id port_id md =
     bindr (dig p [''edge'']) (\<lambda>edge.
     bindr (other_end ''headNodeConnector'' ''tailNodeConnector'' [] edge node_id port_id) (\<lambda>t.
       (case t of
          None \<Rightarrow> topology_metadata ps node_id port_id md
        | Some target \<Rightarrow>
            bindr (dig target [''node'', ''id'']) (\<lambda>n.
            bindr (dig target [''id'']) (\<lambda>i.
            bindr (py_get p ''properties'' PNone) (\<lambda>props.
            bindr (get_properties props ''topology'') (\<lambda>pmd.
              Inr (dict_update (dict_set ''topology_node_port'' i (dict_set ''topology_node_id'' n md)) pmd))))))))"

fun user_link_metadata :: "pyval list \<Rightarrow> pyval \<Rightarrow> pyval \<Rightarrow> pymap \<Rightarrow> pymap res" where
  "user_link_metadata [] node_id port_id md = Inr md"
| "user_link_metadata (l # ls) node_id port_id md =
     bindr (other_end ''dstNodeConnector'' ''srcNodeConnector'' [''port''] l node_id port_id) (\<lambda>t.
       (case t of
          None \<Rightarrow> user_link_metadata ls node_id port_id md
        | Some target \<Rightarrow>
            bindr (dig target [''node'', ''id'']) (\<lambda>n.
            bindr (dig target [''port'', ''id'']) (\<lambda>i.
            bindr (dig l [''status'']) (\<lambda>st.
            bindr (dig l [''name'']) (\<lambda>nm.
              Inr (dict_set ''user_link_name'' nm (dict_set ''user_link_status'' st
                  (dict_set ''user_link_node_port'' i (dict_set ''user_link_node_id'' n md))))))))))"

text \<open>The first host at a port; its optional fields follow the status.\<close>

definition host_fields :: "string list" where
  "host_fields = [''dataLayerAddress'', ''vlan'', ''staticHost'', ''networkAddress'']"

fun copy_fields :: "string list \<Rightarrow> pyval \<Rightarrow> pymap \<Rightarrow> pymap res" where
  "copy_fields [] h md = Inr md"
| "copy_fields (k # ks) h md =
     bindr (py_contains h k) (\<lambda>b.
       if b then bindr (dig h [k]) (\<lambda>v. copy_fields ks h (dict_set (''host_'' @ k) v md)) else copy_fields ks h md)"

fun host_metadata :: "string \<Rightarrow> pyval list \<Rightarrow> pyval \<Rightarrow> pyval \<Rightarrow> pymap \<Rightarrow> pymap res" where
  "host_metadata status [] node_id port_id md = Inr md"
| "host_metadata status (h # hs) node_id port_id md =
     bindr (andr (is_at h [''nodeId''] node_id) (is_at h [''nodeConnectorId''] port_id)) (\<lambda>b.
       if b then copy_fields host_fields h (dict_set ''host_status'' (PStr status) md)
       else host_metadata status hs node_id port_id md)"

definition extract_port :: "pyval \<Rightarrow> pyval \<Rightarrow> pymap \<Rightarrow> pymap \<Rightarrow> extracted res" where
  "extract_port statistic rid md data =
     bindr (dig statistic [''nodeConnector'', ''id'']) (\<lambda>port_id.
     bindr (dig_list (PDict data) [''topology'', ''edgeProperties'']) (\<lambda>edges.
     bindr (topology_metadata edges rid port_id md) (\<lambda>md1.
     bindr (dig_list (PDict data) [''user_links'']) (\<lambda>links.
     bindr (user_link_metadata links rid port_id md1) (\<lambda>md2.
     bindr (dig_list (PDict data) [''active_hosts'', ''hostConfig'']) (\<lambda>active.
     bindr (host_metadata ''active'' active rid port_id md2) (\<lambda>md3.
     bindr (dig_list (PDict data) [''inactive_hosts'', ''hostConfig'']) (\<lambda>inactive.
     bindr (host_metadata ''inactive'' inactive rid port_id md3) (\<lambda>md4.
       Inr (Some (PInt 1, rid, md4)))))))))))"

text \<open>
  \<open>_get_extractor\<close>: the method that the meter's name gives. The names of the pollsters' meters
  begin with \<open>switch\<close>, or no iteration is found for them.
\<close>

definition get_extractor :: "string \<Rightarrow> (pyval \<Rightarrow> pyval \<Rightarrow> pymap \<Rightarrow> pymap \<Rightarrow> extracted res) option" where
  "get_extractor meter =
     (let m = method_name meter in
      if m = ''_switch'' then Some (\<lambda>st rid md data. extract_switch st rid md)
      else if m = ''_switch_port'' then Some extract_port
      else if m \<in> {''_switch_table'', ''_switch_flow''} then Some (\<lambda>st rid md data. Inr (Some (PInt 1, rid, md)))
      else map_option (\<lambda>key st rid md data. get_int_sample key st rid md) (dict_get counter_methods m))"

section \<open>Iterating\<close>

text \<open>
  What an iteration hands to the extractor: the statistic, the node and the metadata so far. The
  driver collects what the generators yield, so an exception leaves nothing of it.
\<close>

definition nested ::
  "string list \<Rightarrow> string \<Rightarrow> (pyval \<Rightarrow> pymap res) \<Rightarrow> (pyval \<Rightarrow> pyval \<Rightarrow> pymap \<Rightarrow> extracted res) \<Rightarrow> pymap \<Rightarrow> extracted list res" where
  "nested path inner md_of extract data =
     bindr (dig_list (PDict data) path) (\<lambda>outer.
     bindr (mapr (\<lambda>o1.
       bindr (dig_list o1 [inner]) (\<lambda>stats.
         mapr (\<lambda>st. bindr (md_of st) (\<lambda>md. bindr (dig o1 [''node'', ''id'']) (\<lambda>rid. extract st rid md))) stats)) outer)
     (\<lambda>xss. Inr (concat xss)))"

definition iter_switch :: "(pyval \<Rightarrow> pyval \<Rightarrow> pymap \<Rightarrow> extracted res) \<Rightarrow> pymap \<Rightarrow> extracted list res" where
  "iter_switch extract data =
     bindr (dig_list (PDict data) [''switch'', ''nodeProperties'']) (mapr (\<lambda>s.
       bindr (dig s [''node'', ''id'']) (\<lambda>rid. extract s rid [])))"

definition iter_port :: "(pyval \<Rightarrow> pyval \<Rightarrow> pymap \<Rightarrow> extracted res) \<Rightarrow> pymap \<Rightarrow> extracted list res" where
  "iter_port = nested [''port'', ''portStatistics''] ''portStatistic''
     (\<lambda>st. bindr (dig st [''nodeConnector'', ''id'']) (\<lambda>i. Inr [(''port'', i)]))"

definition iter_table :: "(pyval \<Rightarrow> pyval \<Rightarrow> pymap \<Rightarrow> extracted res) \<Rightarrow> pymap \<Rightarrow> extracted list res" where
  "iter_table = nested [''table'', ''tableStatistics''] ''tableStatistic''
     (\<lambda>st. bindr (dig st [''nodeTable'', ''id'']) (\<lambda>i. Inr [(''table_id'', i)]))"

definition flow_metadata :: "pyval \<Rightarrow> pymap res" where
  "flow_metadata st =
     bindr (dig st [''flow'', ''id'']) (\<lambda>fid.
     bindr (dig st [''tableId'']) (\<lambda>tid.
     bindr (dig st [''flow'']) (\<lambda>flow.
     bindr (dict_to_keyval flow (Some ''flow'')) (\<lambda>kvs.
       Inr (dict_update [(''flow_id'', fid), (''table_id'', tid)] (map (\<lambda>(k, v). (undot k, v)) kvs))))))"

definition iter_flow :: "(pyval \<Rightarrow> pyval \<Rightarrow> pymap \<Rightarrow> extracted res) \<Rightarrow> pymap \<Rightarrow> extracted list res" where
  "iter_flow = nested [''flow'', ''flowStatistics''] ''flowStatistic'' flow_metadata"

definition get_iter :: "string \<Rightarrow> ((pyval \<Rightarrow> pyval \<Rightarrow> pymap \<Rightarrow> extracted res) \<Rightarrow> pymap \<Rightarrow> extracted list res) option" where
  "get_iter meter =
     (if meter = ''switch'' then Some iter_switch
      else if startswith meter ''switch.flow'' then Some iter_flow
      else if startswith meter ''switch.table'' then Some iter_table
      else if startswith meter ''switch.port'' then Some iter_port else None)"

section \<open>The driver\<close>

definition container_items ::
  "((pyval \<Rightarrow> pyval \<Rightarrow> pymap \<Rightarrow> extracted res) \<Rightarrow> pymap \<Rightarrow> extracted list res) \<Rightarrow>
   (pyval \<Rightarrow> pyval \<Rightarrow> pymap \<Rightarrow> pymap \<Rightarrow> extracted res) \<Rightarrow> string \<times> pymap \<Rightarrow> net_item list res" where
  "container_items it extract c =
     bindr (it (\<lambda>st rid md. extract st rid md (snd c)) (snd c)) (\<lambda>xs.
          Inr (List.map_filter (map_option (\<lambda>(v, rid, md).
            (v, rid, dict_set ''container'' (PStr (fst c)) (dict_set ''controller'' (PStr ''OpenDaylight'') md), PNone))) xs))"

definition odl_get_sample_data :: "'w http_get \<Rightarrow> (odl_data option, 'w) net_driver" where
  "odl_get_sample_data http meter url ps cache w =
     (case (get_extractor meter, get_iter meter) of
        (Some extract, Some it) \<Rightarrow>
          (case odl_prepare_cache http (driver_endpoint url ps) ps cache w of
             (st, data) \<Rightarrow>
               (st, case mapr (container_items it extract) data of
                  Inl e \<Rightarrow> ([], Inl e) | Inr its \<Rightarrow> (concat its, Inr ())))
      | _ \<Rightarrow> ((cache, w), ([], Inr ())))"

section \<open>Containers and controllers\<close>

text \<open>The containers that the query names.\<close>

abbreviation container_names :: "params \<Rightarrow> string list" where
  "container_names ps \<equiv> (case dict_get ps ''container_name'' of None \<Rightarrow> [''default''] | Some ns \<Rightarrow> ns)"

lemma containers_data_lookup:
  fixes http :: "unit http_get"
  shows "dict_get (snd (containers_data http auth endpoint ns data ())) n =
    (case snd (container_data http auth endpoint n ()) of
       Inl e \<Rightarrow> dict_get data n
     | Inr d \<Rightarrow> if n \<in> set ns then Some d else dict_get data n)"
proof (induction ns arbitrary: data)
  case (Cons m ms)
  then show ?case
    by (cases "snd (container_data http auth endpoint m ())"; cases "container_data http auth endpoint m ()")
       (auto split: sum.split simp: dict_get_set)
qed (simp split: sum.split)

text \<open>
  C24: Containers of an OpenDaylight controller do not affect each other. When the controller answers
  a request always the same way, the cached data have exactly the containers that the query names
  (\<open>default\<close> without any) and whose eight requests and user links succeed, each with its own data,
  whatever exception another container costs and however often a container is named.
\<close>

theorem containers_isolated:
  fixes http :: "unit http_get"
  shows "dict_get (snd (odl_prepare_cache http endpoint ps None ())) n =
    (if n \<in> set (container_names ps)
     then (case snd (container_data http (get_req_params (odl_params ps)) endpoint n ()) of Inl e \<Rightarrow> None | Inr d \<Rightarrow> Some d)
     else None)"
  using containers_data_lookup [of http "get_req_params (odl_params ps)" endpoint "container_names ps" "[]" n]
  by (cases "containers_data http (get_req_params (odl_params ps)) endpoint (container_names ps) [] ()")
     (simp add: odl_prepare_cache_def split: sum.splits)

text \<open>
  The cache of a polling cycle has one entry for all OpenDaylight controllers. Once a resource has
  filled it, a resource with another controller, with other containers or other credentials makes
  no request and is answered with exactly the volumes of the first one.
\<close>

theorem second_controller_answered_from_first:
  assumes "get_extractor meter \<noteq> None" and "get_iter meter \<noteq> None"
    and first: "odl_get_sample_data http meter url1 ps1 None w1 = ((cache, w2), items)"
  shows "odl_get_sample_data http meter url2 ps2 cache w = ((cache, w), items)"
proof -
  obtain ex it where k: "get_extractor meter = Some ex" "get_iter meter = Some it" using assms(1,2) by blast
  obtain data where data: "odl_prepare_cache http (driver_endpoint url1 ps1) ps1 None w1 = ((Some data, w2), data)" "cache = Some data"
    using first by (auto simp: odl_get_sample_data_def odl_prepare_cache_def Let_def k split: prod.splits)
  then show ?thesis using first by (simp add: odl_get_sample_data_def k odl_prepare_cache_def)
qed

text \<open>Two controllers of one switch each.\<close>

definition two_controllers :: "nat http_get" where
  "two_controllers url auth w =
     (Suc w, Inr \<lparr>status_code = 200, json_body = Inr (PDict
        [(''userLinks'', PList []),
         (''nodeProperties'', PList [PDict [(''node'', PDict [(''id'', PStr
            (if startswith url ''http://first'' then ''00:01'' else ''00:02''))])]])])\<rparr>)"

definition controller_url :: "string \<Rightarrow> split_url" where
  "controller_url host = \<lparr>u_scheme = ''opendaylight'', u_netloc = host, u_path = ''/nb'', u_query = [], u_fragment = []\<rparr>"

lemma first_controller:
  "odl_get_sample_data two_controllers ''switch'' (controller_url ''first'') [] None 0 =
     ((Some (snd (odl_prepare_cache two_controllers ''http://first/nb'' [] None 0)), 8),
      ([(PInt 1, PStr ''00:01'', [(''controller'', PStr ''OpenDaylight''), (''container'', PStr ''default'')], PNone)], Inr ()))"
  by code_simp

theorem second_controller_answered_from_first_witness:
  "snd (odl_get_sample_data two_controllers ''switch'' (controller_url ''second'') [] 
          (fst (fst (odl_get_sample_data two_controllers ''switch'' (controller_url ''first'') [] None 0))) 8) =
     ([(PInt 1, PStr ''00:01'', [(''controller'', PStr ''OpenDaylight''), (''container'', PStr ''default'')], PNone)], Inr ())"
proof -
  have "get_extractor ''switch'' \<noteq> None" "get_iter ''switch'' \<noteq> None"
    by (simp_all add: get_extractor_def get_iter_def method_name_def Let_def replace_char_def)
  from second_controller_answered_from_first [OF this first_controller, of "controller_url ''second''" "[]" 8]
  show ?thesis by (simp add: first_controller)
qed

end
