(* ===== verification/Opencontrail.thy ===== *)
theory Opencontrail
  imports Network_Statistics
begin

text \<open>
  The Opencontrail driver (\<^verbatim>\<open>ceilometer/network/statistics/opencontrail/\<close>): virtual machine
  statistics with the ports that Neutron knows. \<open>http\<close> is \<open>requests.get\<close>.
\<close>

section \<open>The client\<close>

record oc_response =
  oc_status :: int
  oc_body :: "pyval res"

record 'w oc_env =
  oc_http :: "string \<Rightarrow> 'w \<Rightarrow> 'w \<times> oc_response res"
  oc_ports :: "'w \<Rightarrow> 'w \<times> pyval list res"

text \<open>
  \<open>urljoin\<close> of an endpoint with an absolute path keeps scheme and host. \<open>json\<close> of an answer that
  is not 200 is never read.
\<close>

definition oc_url :: "string \<times> string \<Rightarrow> string \<Rightarrow> string" where
  "oc_url origin path = fst origin @ ''://'' @ snd origin @ path"

definition get_vm_statistics :: "'w oc_env \<Rightarrow> string \<times> string \<Rightarrow> string \<Rightarrow> 'w \<Rightarrow> 'w \<times> pyval res" where
  "get_vm_statistics env origin fqdn_uuid w =
     (case oc_http env (oc_url origin (''/analytics/uves/virtual-machine/'' @ fqdn_uuid)) w of
        (w1, Inl e) \<Rightarrow> (w1, Inl e)
      | (w1, Inr resp) \<Rightarrow>
          (w1, if oc_status resp \<noteq> 200 then Inl (OtherError ''Opencontrail API returned'') else oc_body resp))"

section \<open>Names\<close>

text \<open>
  \<open>_explode_name\<close>: the match of \<open>([^:]+):(.+):([^:]+)\<close> at the beginning of a name. The domain
  ends at the first colon; the project is as long as it can be, and the port follows its colon.
\<close>

definition port_after :: "string \<Rightarrow> nat \<Rightarrow> bool" where
  "port_after rest n \<longleftrightarrow>
     n + 1 < length rest \<and> rest ! n = CHR '':'' \<and> rest ! (n + 1) \<noteq> CHR '':'' \<and> CHR 0x0A \<notin> set (take n rest)"

definition explode_name :: "string \<Rightarrow> (string \<times> string \<times> string) option" where
  "explode_name name =
     (let domain = takeWhile (\<lambda>c. c \<noteq> CHR '':'') name; rest = drop (length domain + 1) name in
      if domain = [] \<or> length name \<le> length domain then None
      else map_option (\<lambda>n. (domain, take n rest, takeWhile (\<lambda>c. c \<noteq> CHR '':'') (drop (n + 1) rest)))
             (find (port_after rest) (rev [1..<length rest])))"

section \<open>Samples\<close>

definition optional_item :: "pyval option \<Rightarrow> string \<Rightarrow> pyval res" where
  "optional_item port k = (case port of None \<Rightarrow> Inr PNone | Some p \<Rightarrow> dig p [k])"

text \<open>
  \<open>_get_resource_meta\<close>: nothing for another network's floating address, else the port and the
  metadata. A name without three parts cannot be unpacked.
\<close>

type_synonym ports_map = "(pyval \<times> pyval) list"

definition lookup_port :: "ports_map \<Rightarrow> string \<Rightarrow> pyval option" where
  "lookup_port ports pid =
     (case find (\<lambda>(k, v). py_eq k (PStr pid)) (rev ports) of
        None \<Rightarrow> None
      | Some (k, v) \<Rightarrow> if truthy v then Some v else None)"

definition port_meta :: "ports_map \<Rightarrow> string \<Rightarrow> pyval \<Rightarrow> (string \<times> pymap) res" where
  "port_meta ports resource name =
     (case name of
        PStr s \<Rightarrow>
          (case explode_name s of
             None \<Rightarrow> Inl TypeError
           | Some (domain, project, pid) \<Rightarrow>
               (let port = lookup_port ports pid in
                bindr (optional_item port ''tenant_id'') (\<lambda>tenant.
                bindr (optional_item port ''network_id'') (\<lambda>network.
                bindr (optional_item port ''device_id'') (\<lambda>device.
                  Inr (pid, [(''device_owner_id'', device), (''network_id'', network), (''project_id'', tenant),
                             (''project'', PStr project), (''resource'', PStr resource), (''domain'', PStr domain)]))))))
      | _ \<Rightarrow> Inl TypeError)"

definition get_resource_meta :: "ports_map \<Rightarrow> pyval \<Rightarrow> string \<Rightarrow> string option \<Rightarrow> (string \<times> pymap) option res" where
  "get_resource_meta ports stat resource network =
     (if resource = ''fip_stats_list''
      then bindr (case network of
             None \<Rightarrow> Inr True
           | Some n \<Rightarrow> if n = [] then Inr True else is_at stat [''virtual_network''] (PStr n)) (\<lambda>same.
           if \<not> same then Inr None
           else bindr (dig stat [''iface_name'']) (\<lambda>n. bindr (port_meta ports resource n) (\<lambda>r. Inr (Some r))))
      else bindr (dig stat [''name'']) (\<lambda>n. bindr (port_meta ports resource n) (\<lambda>r. Inr (Some r))))"

text \<open>The extractors read one counter each.\<close>

definition oc_counters :: "(string, string) pydict" where
  "oc_counters =
    [(''_switch_port_receive_packets'', ''in_pkts''), (''_switch_port_transmit_packets'', ''out_pkts''),
     (''_switch_port_receive_bytes'', ''in_bytes''), (''_switch_port_transmit_bytes'', ''out_bytes'')]"

definition oc_extract :: "string \<Rightarrow> pyval \<Rightarrow> string \<Rightarrow> pymap \<Rightarrow> net_item res" where
  "oc_extract key stat pid md =
     bindr (dig stat [key]) (\<lambda>v. bindr (py_int v) (\<lambda>i. Inr (PInt i, PStr pid, md, PNone)))"

definition stat_item :: "string \<Rightarrow> ports_map \<Rightarrow> string \<Rightarrow> string option \<Rightarrow> pyval \<Rightarrow> net_item gen" where
  "stat_item key ports resource network stat =
     (case get_resource_meta ports stat resource network of
        Inl e \<Rightarrow> ([], Inl e)
      | Inr None \<Rightarrow> ([], Inr ())
      | Inr (Some (pid, md)) \<Rightarrow> gen_one (oc_extract key stat pid md))"

text \<open>A list alternates statistics and nodes; a last element without a partner is left out.\<close>

fun pairs :: "'a list \<Rightarrow> ('a \<times> 'a) list" where
  "pairs (a # b # xs) = (a, b) # pairs xs"
| "pairs xs = []"

definition one_stat :: "(pyval \<Rightarrow> net_item gen) \<Rightarrow> pyval \<Rightarrow> net_item gen" where
  "one_stat f stat =
     (case stat of
        PList xs \<Rightarrow>
          gen_bind (\<lambda>(subs, node). case py_iter subs of Inl e \<Rightarrow> ([], Inl e) | Inr ss \<Rightarrow> gen_bind f ss) (pairs xs)
      | _ \<Rightarrow> f stat)"

definition oc_iter_port :: "string \<Rightarrow> ports_map \<Rightarrow> string \<Rightarrow> string option \<Rightarrow> pyval \<Rightarrow> net_item gen" where
  "oc_iter_port key ports resource network value =
     (case bindr (dig value [''value'', ''UveVirtualMachineAgent'']) (\<lambda>a.
           bindr (py_get a resource (PList [])) py_iter) of
        Inl e \<Rightarrow> ([], Inl e)
      | Inr stats \<Rightarrow> gen_bind (one_stat (stat_item key ports resource network)) stats)"

text \<open>
  \<open>get_sample_data\<close>: the clients are made for the first resource of a cycle and kept in the
  cache, with that resource's endpoint.
\<close>

definition oc_get_sample_data :: "'w oc_env \<Rightarrow> ((string \<times> string) option, 'w) net_driver" where
  "oc_get_sample_data env meter url ps cache w =
     (case (startswith meter ''switch.port'', dict_get oc_counters (method_name meter)) of
        (True, Some key) \<Rightarrow>
          (let origin = (case cache of Some o1 \<Rightarrow> o1 | None \<Rightarrow> (first_param ps ''scheme'' ''http'', u_netloc url));
               st = (\<lambda>w1. (Some origin, w1))
           in case oc_ports env w of
                (w1, Inl e) \<Rightarrow> (st w1, ([], Inl e))
              | (w1, Inr ports) \<Rightarrow>
                  (case mapr (\<lambda>p. bindr (dig p [''id'']) (\<lambda>i. Inr (i, p))) ports of
                     Inl e \<Rightarrow> (st w1, ([], Inl e))
                   | Inr ports_map \<Rightarrow>
                       (case get_vm_statistics env origin (first_param ps ''fqdn_uuid'' ''*'') w1 of
                          (w2, Inl e) \<Rightarrow> (st w2, ([], Inl e))
                        | (w2, Inr statistics) \<Rightarrow>
                            (st w2,
                             (if \<not> truthy statistics then ([], Inr ())
                              else (case dig_list statistics [''value''] of
                                  Inl e \<Rightarrow> ([], Inl e)
                                | Inr values \<Rightarrow>
                                    gen_bind (oc_iter_port key ports_map (first_param ps ''resource'' ''if_stats_list'')
                                      (case dict_get ps ''virtual_network'' of Some (v # _) \<Rightarrow> Some v | _ \<Rightarrow> None)) values))))))
      | _ \<Rightarrow> ((cache, w), ([], Inr ())))"

section \<open>Facts\<close>

lemma takeWhile_colon: "CHR '':'' \<notin> set a \<Longrightarrow> takeWhile (\<lambda>c. c \<noteq> CHR '':'') (a @ CHR '':'' # b) = a"
  by (induction a) auto

text \<open>
  Exploding the name of a virtual interface gives back the three parts that it was joined from,
  for every domain and port without a colon and every project, which may contain colons itself.
\<close>

lemma explode_join:
  assumes "domain \<noteq> []" "CHR '':'' \<notin> set domain" "project \<noteq> []" "CHR 0x0A \<notin> set project" "pid \<noteq> []" "CHR '':'' \<notin> set pid"
  shows "explode_name (join '':'' [domain, project, pid]) = Some (domain, project, pid)"
proof -
  let ?rest = "project @ CHR '':'' # pid" and ?n = "length project"
  have name: "join '':'' [domain, project, pid] = domain @ CHR '':'' # ?rest" by simp
  have later: "\<not> port_after ?rest k" if k: "k \<in> set [Suc ?n..<length ?rest]" for k
  proof -
    define i where "i = k - Suc ?n"
    have i: "k = Suc ?n + i" "i < length pid" using k by (auto simp: i_def)
    have "?rest ! k = pid ! i" by (simp add: i(1) nth_append)
    then have "?rest ! k \<noteq> CHR '':''" using assms(6) nth_mem [OF i(2)] by metis
    then show ?thesis by (simp only: port_after_def) blast
  qed
  have here: "port_after ?rest ?n"
    using assms(4-6) by (cases pid) (auto simp: port_after_def nth_append)
  have split: "[1..<length ?rest] = [1..<?n] @ ?n # [Suc ?n..<length ?rest]"
  proof -
    have "[1..<?n + (length ?rest - ?n)] = [1..<?n] @ [?n..<?n + (length ?rest - ?n)]"
      using assms(3) by (intro upt_add_eq_append) (simp add: Suc_le_eq)
    then show ?thesis by (simp add: upt_conv_Cons del: upt_Suc)
  qed
  have "find (port_after ?rest) (rev [Suc ?n..<length ?rest]) = None"
    unfolding find_None_iff set_rev using later by blast
  then have "find (port_after ?rest) (rev [1..<length ?rest]) = Some ?n"
    using here unfolding split by (simp add: find_append)
  moreover have "takeWhile (\<lambda>c. c \<noteq> CHR '':'') (domain @ CHR '':'' # ?rest) = domain" by (rule takeWhile_colon [OF assms(2)])
  moreover have "takeWhile (\<lambda>c. c \<noteq> CHR '':'') pid = pid" using assms(6) by (simp add: takeWhile_eq_all_conv) metis
  ultimately show ?thesis using assms(1) by (simp add: explode_name_def Let_def name)
qed

lemma explode_join_witness:
  "explode_name ''default-domain:demo:eu:96067967'' = Some (''default-domain'', ''demo:eu'', ''96067967'')"
  using explode_join [of "''default-domain''" "''demo:eu''" "''96067967''"] by simp

text \<open>The parts without the hypotheses: a project of no character does not match.\<close>

lemma explode_name_short: "explode_name ''a::b'' = None"
  by code_simp

end
