(* ===== verification/Service_Calls.thy ===== *)
theory Service_Calls
  imports Py_Dynamic
begin

text \<open>
  Calls of services: a computation takes the world of the services and gives it back with its
  result. Dictionaries whose keys come from JSON, and the lemmas on both that the clients of
  services share.
\<close>

declare py_eq_str [simp]

section \<open>Computations\<close>

type_synonym ('w, 'a) svc = "'w \<Rightarrow> 'w \<times> 'a res"

definition pure :: "'a res \<Rightarrow> ('w, 'a) svc" where
  "pure r = (\<lambda>w. (w, r))"

definition bindw :: "('w, 'a) svc \<Rightarrow> ('a \<Rightarrow> ('w, 'b) svc) \<Rightarrow> ('w, 'b) svc" where
  "bindw m f = (\<lambda>w. case m w of (w1, Inl e) \<Rightarrow> (w1, Inl e) | (w1, Inr x) \<Rightarrow> f x w1)"

fun mapw :: "('a \<Rightarrow> ('w, 'b) svc) \<Rightarrow> 'a list \<Rightarrow> ('w, 'b list) svc" where
  "mapw f [] = pure (Inr [])"
| "mapw f (x # xs) = bindw (f x) (\<lambda>y. bindw (mapw f xs) (\<lambda>ys. pure (Inr (y # ys))))"

fun foldw :: "('a \<Rightarrow> 's \<Rightarrow> ('w, 's) svc) \<Rightarrow> 'a list \<Rightarrow> 's \<Rightarrow> ('w, 's) svc" where
  "foldw f [] s = pure (Inr s)"
| "foldw f (x # xs) s = bindw (f x s) (foldw f xs)"

lemma bindw_pure [simp, py_simps]:
  "bindw (pure (Inr x)) f = f x"
  "bindw (pure (Inl e)) f = pure (Inl e)"
  by (simp_all add: bindw_def pure_def)

text \<open>A computation that answers and leaves the world as it is continues with its answer.\<close>

lemma bindw_same: "m w = (w, Inr x) \<Longrightarrow> bindw m f w = f x w"
  by (simp add: bindw_def)

lemma bindw_step: "m w = (w1, Inr x) \<Longrightarrow> bindw m f w = f x w1"
  by (simp add: bindw_def)

lemma bindw_fails: "m w = (w1, Inl e) \<Longrightarrow> bindw m f w = (w1, Inl e)"
  by (simp add: bindw_def)

lemma bindw_Inr_iff: "bindw m f w = (w2, Inr y) \<longleftrightarrow> (\<exists>w1 x. m w = (w1, Inr x) \<and> f x w1 = (w2, Inr y))"
  by (auto simp: bindw_def split: prod.splits sum.splits)

lemma pure_Inr_iff: "pure r w = (w2, Inr y) \<longleftrightarrow> w2 = w \<and> r = Inr y"
  by (auto simp: pure_def)

lemma bindw_InrD: "bindw m f w = (w2, Inr y) \<Longrightarrow> \<exists>w1 x. m w = (w1, Inr x) \<and> f x w1 = (w2, Inr y)"
  by (simp add: bindw_Inr_iff)

lemma pure_InrD: "pure r w = (w2, Inr y) \<Longrightarrow> w2 = w \<and> r = Inr y"
  by (simp add: pure_Inr_iff)

lemma mapw_same: "(\<And>x. x \<in> set xs \<Longrightarrow> f x w = (w, Inr (g x))) \<Longrightarrow> mapw f xs w = (w, Inr (map g xs))"
  by (induction xs) (simp_all add: bindw_same pure_def)

lemma foldw_same:
  "(\<And>x s. x \<in> set xs \<Longrightarrow> f x s w = (w, Inr (g x s))) \<Longrightarrow> foldw f xs s w = (w, Inr (fold g xs s))"
  by (induction xs arbitrary: s) (simp_all add: bindw_same pure_def)

section \<open>Dictionaries with JSON keys\<close>

type_synonym 'v vdict = "(pyval \<times> 'v) list"

definition vdict_get :: "'v vdict \<Rightarrow> pyval \<Rightarrow> 'v option" where
  "vdict_get d k = map_option snd (find (\<lambda>(k', v). py_eq k' k) d)"

fun vdict_put :: "pyval \<Rightarrow> 'v \<Rightarrow> 'v vdict \<Rightarrow> 'v vdict" where
  "vdict_put k v [] = [(k, v)]"
| "vdict_put k v ((k', v') # d) = (if py_eq k' k then (k', v) # d else (k', v') # vdict_put k v d)"

definition vdict_set :: "pyval \<Rightarrow> 'v \<Rightarrow> 'v vdict \<Rightarrow> 'v vdict res" where
  "vdict_set k v d = (if hashable k then Inr (vdict_put k v d) else Inl TypeError)"

definition vdict_item :: "'v vdict \<Rightarrow> pyval \<Rightarrow> 'v res" where
  "vdict_item d k =
     (if \<not> hashable k then Inl TypeError
      else case vdict_get d k of None \<Rightarrow> Inl (KeyError (case k of PStr s \<Rightarrow> s | _ \<Rightarrow> [])) | Some v \<Rightarrow> Inr v)"

section \<open>Attributes\<close>

text \<open>\<open>getattr(x, k)\<close> of an object that is the dictionary of its attributes.\<close>

definition py_getattr :: "pymap \<Rightarrow> string \<Rightarrow> pyval res" where
  "py_getattr d k = (case dict_get d k of None \<Rightarrow> Inl (AttributeError k) | Some v \<Rightarrow> Inr v)"

end
