(* ===== verification/Neutron_Client.thy ===== *)
theory Neutron_Client
  imports Network_Statistics Service_Calls
begin

text \<open>
  The Neutron client (\<^verbatim>\<open>ceilometer/neutron_client.py\<close>): the lists of the network services, and
  the status of load balancer resources that version 2 of the load balancer API only tells in a
  tree.

  The client library is the function \<open>call\<close> from the name of a method and its arguments.
\<close>

fun get_path :: "pyval \<Rightarrow> string list \<Rightarrow> pyval res" where
  "get_path v [] = Inr v"
| "get_path v (k # ks) = bindr (py_get v k PNone) (\<lambda>u. get_path u ks)"

definition set_item :: "string \<Rightarrow> pyval \<Rightarrow> pyval \<Rightarrow> pyval res" where
  "set_item k x v = (case v of PDict d \<Rightarrow> Inr (PDict (dict_set k x d)) | _ \<Rightarrow> Inl TypeError)"

fun set_items :: "(string \<times> pyval) list \<Rightarrow> pyval \<Rightarrow> pyval res" where
  "set_items [] v = Inr v"
| "set_items ((k, x) # kvs) v = bindr (set_item k x v) (set_items kvs)"

section \<open>Lists of resources\<close>

type_synonym 'w neutron = "string \<Rightarrow> pyval list \<Rightarrow> ('w, pyval) svc"

definition NeutronClientException :: pyexc where
  "NeutronClientException = OtherError ''NeutronClientException''"

text \<open>\<open>logged\<close>: an exception of the client gives an empty list, any other goes on.\<close>

definition logged :: "('w, pyval) svc \<Rightarrow> ('w, pyval) svc" where
  "logged m = (\<lambda>w. case m w of
     (w1, Inl e) \<Rightarrow> (w1, if e = NeutronClientException then Inr (PList []) else Inl e)
   | (w1, Inr v) \<Rightarrow> (w1, Inr v))"

definition call_get :: "'w neutron \<Rightarrow> string \<Rightarrow> pyval list \<Rightarrow> string \<Rightarrow> ('w, pyval) svc" where
  "call_get call op args k = bindw (call op args) (\<lambda>resp. pure (py_get resp k PNone))"

definition port_get_all :: "'w neutron \<Rightarrow> ('w, pyval) svc" where
  "port_get_all call = logged (call_get call ''list_ports'' [] ''ports'')"

definition vip_get_all :: "'w neutron \<Rightarrow> ('w, pyval) svc" where
  "vip_get_all call = logged (call_get call ''list_vips'' [] ''vips'')"

definition vpn_get_all :: "'w neutron \<Rightarrow> ('w, pyval) svc" where
  "vpn_get_all call = logged (call_get call ''list_vpnservices'' [] ''vpnservices'')"

definition ipsec_site_connections_get_all :: "'w neutron \<Rightarrow> ('w, pyval) svc" where
  "ipsec_site_connections_get_all call =
     logged (call_get call ''list_ipsec_site_connections'' [] ''ipsec_site_connections'')"

definition firewall_get_all :: "'w neutron \<Rightarrow> ('w, pyval) svc" where
  "firewall_get_all call = logged (call_get call ''list_firewalls'' [] ''firewalls'')"

definition fw_policy_get_all :: "'w neutron \<Rightarrow> ('w, pyval) svc" where
  "fw_policy_get_all call = logged (call_get call ''list_firewall_policies'' [] ''firewall_policies'')"

definition fip_get_all :: "'w neutron \<Rightarrow> ('w, pyval) svc" where
  "fip_get_all call = logged (bindw (call ''list_floatingips'' []) (\<lambda>resp. pure (dig resp [''floatingips''])))"

definition pool_stats :: "'w neutron \<Rightarrow> pyval \<Rightarrow> ('w, pyval) svc" where
  "pool_stats call pool = logged (call ''retrieve_pool_stats'' [pool])"

definition get_loadbalancer_stats :: "'w neutron \<Rightarrow> pyval \<Rightarrow> ('w, pyval) svc" where
  "get_loadbalancer_stats call lb = logged (call_get call ''retrieve_loadbalancer_stats'' [lb] ''stats'')"

section \<open>The status tree\<close>

text \<open>\<open>x.get('listeners')[0].get('id')\<close> and its like\<close>

definition first_id :: "pyval \<Rightarrow> string \<Rightarrow> pyval res" where
  "first_id v k =
     bindr (py_get v k PNone) (\<lambda>xs. bindr (py_getitem xs (PInt 0)) (\<lambda>x. py_get x ''id'' PNone))"

fun get_pool_and_listener_ids :: "pyval list \<Rightarrow> pyval vdict \<Rightarrow> pyval vdict res" where
  "get_pool_and_listener_ids [] d = Inr d"
| "get_pool_and_listener_ids (pool # pools) d =
     bindr (py_get pool ''id'' PNone) (\<lambda>k.
     bindr (first_id pool ''listeners'') (\<lambda>v.
     bindr (vdict_set k v d) (get_pool_and_listener_ids pools)))"

definition get_loadbalancer_id :: "'w neutron \<Rightarrow> pyval \<Rightarrow> ('w, pyval) svc" where
  "get_loadbalancer_id call listener_id =
     bindw (call ''show_listener'' [listener_id]) (\<lambda>resp.
       pure (bindr (py_get resp ''listener'' PNone) (\<lambda>l. first_id l ''loadbalancers'')))"

text \<open>The listeners of the status tree of a load balancer.\<close>

definition listeners_status :: "'w neutron \<Rightarrow> pyval \<Rightarrow> ('w, pyval list) svc" where
  "listeners_status call loadbalancer_id =
     bindw (call ''retrieve_loadbalancer_status'' [loadbalancer_id]) (\<lambda>resp.
       pure (bindr (get_path resp [''statuses'', ''loadbalancer'', ''listeners'']) py_iter))"

text \<open>The operating statuses of the items that have an id, by id.\<close>

fun collect_status :: "pyval list \<Rightarrow> pyval vdict \<Rightarrow> pyval vdict res" where
  "collect_status [] d = Inr d"
| "collect_status (x # xs) d =
     bindr (py_get x ''id'' PNone) (\<lambda>k.
       if k = PNone then collect_status xs d
       else bindr (py_get x ''operating_status'' PNone) (\<lambda>v. bindr (vdict_set k v d) (collect_status xs)))"

text \<open>The first item with an id; the search ends there.\<close>

fun item_with_id :: "pyval \<Rightarrow> pyval list \<Rightarrow> pyval option res" where
  "item_with_id i [] = Inr None"
| "item_with_id i (x # xs) =
     bindr (py_get x ''id'' PNone) (\<lambda>k. if py_eq k i then Inr (Some x) else item_with_id i xs)"

definition children :: "pyval \<Rightarrow> string \<Rightarrow> pyval list res" where
  "children v k = bindr (py_get v k PNone) py_iter"

definition get_listener_status :: "'w neutron \<Rightarrow> pyval \<Rightarrow> ('w, pyval vdict) svc" where
  "get_listener_status call lb = bindw (listeners_status call lb) (\<lambda>ls. pure (collect_status ls []))"

definition get_pool_status :: "'w neutron \<Rightarrow> pyval \<Rightarrow> pyval \<Rightarrow> ('w, pyval vdict) svc" where
  "get_pool_status call lb listener_id =
     bindw (listeners_status call lb) (\<lambda>ls.
       pure (bindr (item_with_id listener_id ls) (\<lambda>l. case l of
           None \<Rightarrow> Inr []
         | Some l \<Rightarrow> bindr (children l ''pools'') (\<lambda>ps. collect_status ps []))))"

definition get_member_status :: "'w neutron \<Rightarrow> pyval \<Rightarrow> pyval \<Rightarrow> pyval \<Rightarrow> ('w, pyval vdict) svc" where
  "get_member_status call lb listener_id pool_id =
     bindw (listeners_status call lb) (\<lambda>ls.
       pure (bindr (item_with_id listener_id ls) (\<lambda>l. case l of
           None \<Rightarrow> Inr []
         | Some l \<Rightarrow>
             bindr (bindr (children l ''pools'') (item_with_id pool_id)) (\<lambda>p. case p of
                 None \<Rightarrow> Inr []
               | Some p \<Rightarrow> bindr (children p ''members'') (\<lambda>ms. collect_status ms [])))))"

section \<open>Resources of version 2\<close>

definition list_of :: "pyval list res \<Rightarrow> pyval res" where
  "list_of r = bindr r (\<lambda>xs. Inr (PList xs))"

text \<open>The statuses of the pools below one listener, over those known so far.\<close>

definition add_pool_status :: "'w neutron \<Rightarrow> pyval \<times> pyval \<Rightarrow> pyval vdict \<Rightarrow> ('w, pyval vdict) svc" where
  "add_pool_status call kv d =
     bindw (get_loadbalancer_id call (snd kv)) (\<lambda>lb.
     bindw (get_pool_status call lb (snd kv)) (\<lambda>status.
       pure (Inr (fold (\<lambda>(k, v). vdict_put k v) status d))))"

definition detailed_pool :: "pyval vdict \<Rightarrow> pyval \<Rightarrow> pyval res" where
  "detailed_pool pool_status pool =
     bindr (py_get pool ''id'' PNone) (\<lambda>i.
     bindr (vdict_item pool_status i) (\<lambda>st.
     bindr (set_item ''status'' st pool) (\<lambda>pool.
     bindr (py_get pool ''lb_algorithm'' PNone) (\<lambda>m.
       set_items [(''lb_method'', m), (''status_description'', st), (''provider'', PStr []),
                  (''vip_id'', PStr []), (''subnet_id'', PStr [])] pool))))"

definition list_pools_v2 :: "'w neutron \<Rightarrow> ('w, pyval) svc" where
  "list_pools_v2 call = logged (
     bindw (call_get call ''list_lbaas_pools'' [] ''pools'') (\<lambda>temp_pools.
     bindw (pure (py_iter temp_pools)) (\<lambda>pools.
     bindw (pure (get_pool_and_listener_ids pools [])) (\<lambda>ids.
     bindw (foldw (add_pool_status call) ids []) (\<lambda>pool_status.
       pure (list_of (mapr (detailed_pool pool_status) pools)))))))"

definition detailed_member :: "pyval vdict \<Rightarrow> pyval \<Rightarrow> pyval \<Rightarrow> pyval res" where
  "detailed_member status pool_id member =
     bindr (py_get member ''id'' PNone) (\<lambda>i.
     bindr (vdict_item status i) (\<lambda>st.
       set_items [(''status'', st), (''pool_id'', pool_id), (''status_description'', st)] member))"

definition pool_members :: "'w neutron \<Rightarrow> pyval \<Rightarrow> ('w, pyval list) svc" where
  "pool_members call pool =
     bindw (pure (py_get pool ''id'' PNone)) (\<lambda>pool_id.
     bindw (pure (py_get pool ''listeners'' PNone)) (\<lambda>listeners.
       if \<not> truthy listeners then pure (Inr [])
       else bindw (pure (first_id pool ''listeners'')) (\<lambda>listener_id.
            bindw (get_loadbalancer_id call listener_id) (\<lambda>lb_id.
            bindw (get_member_status call lb_id listener_id pool_id) (\<lambda>status.
            bindw (call_get call ''list_lbaas_members'' [pool_id] ''members'') (\<lambda>temp_members.
              pure (bindr (py_iter temp_members) (mapr (detailed_member status pool_id)))))))))"

definition list_members_v2 :: "'w neutron \<Rightarrow> ('w, pyval) svc" where
  "list_members_v2 call = logged (
     bindw (call_get call ''list_lbaas_pools'' [] ''pools'') (\<lambda>temp_pools.
     bindw (pure (py_iter temp_pools)) (\<lambda>pools.
     bindw (mapw (pool_members call) pools) (\<lambda>mss. pure (Inr (PList (concat mss)))))))"

definition list_health_monitors_v2 :: "'w neutron \<Rightarrow> ('w, pyval) svc" where
  "list_health_monitors_v2 call = logged (call_get call ''list_lbaas_healthmonitors'' [] ''healthmonitors'')"

definition listener_with_status :: "'w neutron \<Rightarrow> pyval \<Rightarrow> ('w, pyval) svc" where
  "listener_with_status call listener =
     bindw (pure (first_id listener ''loadbalancers'')) (\<lambda>lb.
     bindw (get_listener_status call lb) (\<lambda>status.
       pure (bindr (py_get listener ''id'' PNone) (\<lambda>i.
             bindr (vdict_item status i) (\<lambda>st. set_item ''operating_status'' st listener)))))"

text \<open>
  The version of the load balancer API; the option admits no other value. The lists of version 1
  come from the client as they are.
\<close>

datatype lb_version = V1 | V2

definition list_listener :: "'w neutron \<Rightarrow> lb_version \<Rightarrow> ('w, pyval) svc" where
  "list_listener call lbv =
     (if lbv = V1 then pure (Inr (PList []))
      else logged (
        bindw (call_get call ''list_listeners'' [] ''listeners'') (\<lambda>resources.
        bindw (pure (py_iter resources)) (\<lambda>ls.
        bindw (mapw (listener_with_status call) ls) (\<lambda>ls'. pure (Inr (PList ls')))))))"

definition list_loadbalancer :: "'w neutron \<Rightarrow> lb_version \<Rightarrow> ('w, pyval) svc" where
  "list_loadbalancer call lbv =
     (if lbv = V1 then pure (Inr (PList []))
      else logged (call_get call ''list_loadbalancers'' [] ''loadbalancers''))"

definition pool_get_all :: "'w neutron \<Rightarrow> lb_version \<Rightarrow> ('w, pyval) svc" where
  "pool_get_all call lbv =
     logged (if lbv = V1 then call_get call ''list_pools'' [] ''pools'' else list_pools_v2 call)"

definition member_get_all :: "'w neutron \<Rightarrow> lb_version \<Rightarrow> ('w, pyval) svc" where
  "member_get_all call lbv =
     logged (if lbv = V1 then call_get call ''list_members'' [] ''members'' else list_members_v2 call)"

definition health_monitor_get_all :: "'w neutron \<Rightarrow> lb_version \<Rightarrow> ('w, pyval) svc" where
  "health_monitor_get_all call lbv =
     logged (if lbv = V1 then call_get call ''list_health_monitors'' [] ''health_monitors'' else list_health_monitors_v2 call)"

section \<open>Statuses from the tree\<close>

text \<open>A dictionary from ids to what a function says of them.\<close>

definition tells :: "(string \<Rightarrow> pyval) \<Rightarrow> pyval vdict \<Rightarrow> bool" where
  "tells f d \<longleftrightarrow> (\<forall>(k, v) \<in> set d. \<exists>q. k = PStr q \<and> v = f q)"

lemma tells_put: "tells f d \<Longrightarrow> tells f (vdict_put (PStr q) (f q) d)"
  by (induction d) (auto simp: tells_def split: if_splits)

lemma put_keys: "fst ` set (vdict_put (PStr q) v d) = insert (PStr q) (fst ` set d)"
proof (induction d)
  case (Cons kv d)
  then show ?case by (cases kv) (simp add: insert_commute)
qed simp

lemma tells_puts:
  "tells f d \<Longrightarrow> (\<And>k v. (k, v) \<in> set kvs \<Longrightarrow> \<exists>q. k = PStr q \<and> v = f q) \<Longrightarrow>
   tells f (fold (\<lambda>(k, v). vdict_put k v) kvs d) \<and>
   fst ` set (fold (\<lambda>(k, v). vdict_put k v) kvs d) = fst ` set kvs \<union> fst ` set d"
proof (induction kvs arbitrary: d)
  case (Cons kv kvs)
  obtain q where q: "kv = (PStr q, f q)" using Cons.prems(2) [of "fst kv" "snd kv"] by (cases kv) auto
  show ?case
    using Cons.IH [OF tells_put [OF Cons.prems(1), of q]] Cons.prems(2) by (auto simp: q put_keys)
qed simp

lemma tells_get: "tells f d \<Longrightarrow> PStr q \<in> fst ` set d \<Longrightarrow> vdict_item d (PStr q) = Inr (f q)"
proof (induction d)
  case (Cons kv d)
  then show ?case by (cases "fst kv = PStr q") (auto simp: tells_def vdict_item_def vdict_get_def)
qed simp

text \<open>Items of the tree with an id and an operating status, and listeners with their pools.\<close>

abbreviation status_item :: "string \<times> string \<Rightarrow> pyval" where
  "status_item qs \<equiv> PDict [(''id'', PStr (fst qs)), (''operating_status'', PStr (snd qs))]"

abbreviation listener_item :: "string \<times> (string \<times> string) list \<Rightarrow> pyval" where
  "listener_item lp \<equiv> PDict [(''id'', PStr (fst lp)), (''pools'', PList (map status_item (snd lp)))]"

lemma collect_status_items:
  "collect_status (map status_item qs) d = Inr (fold (\<lambda>(k, v). vdict_put k v) (map (\<lambda>(q, s). (PStr q, PStr s)) qs) d)"
  by (induction qs arbitrary: d) (auto simp: py_get_def dict_get_default_def vdict_set_def)

lemma item_with_id_listener:
  "item_with_id (PStr l) (map listener_item tree) = Inr (map_option (\<lambda>qs. listener_item (l, qs)) (dict_get tree l))"
  by (induction tree) (auto simp: py_get_def dict_get_default_def)

lemma get_pool_status_tree:
  assumes "call ''retrieve_loadbalancer_status'' [lb] w =
      (w, Inr (PDict [(''statuses'', PDict [(''loadbalancer'', PDict [(''listeners'', PList (map listener_item tree))])])]))"
    and "dict_get tree l = Some qs"
  shows "get_pool_status call lb (PStr l) w = (w, collect_status (map status_item qs) [])"
proof -
  have "listeners_status call lb w = (w, Inr (map listener_item tree))"
    by (simp add: listeners_status_def bindw_same [where m = "call ''retrieve_loadbalancer_status'' [lb]", OF assms(1)]
        pure_def py_get_def dict_get_default_def py_iter_def)
  then show ?thesis
    by (simp add: get_pool_status_def bindw_same pure_def item_with_id_listener assms(2) children_def py_get_def
        dict_get_default_def py_iter_def)
qed

text \<open>The listener of every pool.\<close>

lemma get_pool_and_listener_ids_fold:
  assumes "\<And>p. p \<in> set ps \<Longrightarrow> dict_get p ''id'' = Some (PStr (pid p))"
    and "\<And>p. p \<in> set ps \<Longrightarrow> first_id (PDict p) ''listeners'' = Inr (PStr (lid p))"
  shows "get_pool_and_listener_ids (map PDict ps) d = Inr (fold (\<lambda>p. vdict_put (PStr (pid p)) (PStr (lid p))) ps d)"
  using assms by (induction ps arbitrary: d) (simp_all add: py_get_def dict_get_default_def vdict_set_def)

lemma put_member: "(k', v') \<in> set (vdict_put (PStr q) v d) \<Longrightarrow> (k', v') = (PStr q, v) \<or> (k', v') \<in> set d"
  by (induction d) (auto split: if_splits)

lemma pool_ids_entries:
  "(k, v) \<in> set (fold (\<lambda>p. vdict_put (PStr (pid p)) (PStr (lid p))) ps d) \<Longrightarrow>
   (k, v) \<in> set d \<or> (\<exists>p \<in> set ps. k = PStr (pid p) \<and> v = PStr (lid p))"
  by (induction ps arbitrary: d) (auto dest: put_member)

lemma pool_ids_keys:
  "fst ` set (fold (\<lambda>p. vdict_put (PStr (pid p)) (PStr (lid p))) ps d) = (\<lambda>p. PStr (pid p)) ` set ps \<union> fst ` set d"
  by (induction ps arbitrary: d) (auto simp: put_keys)

text \<open>What a pool is listed as, when its status is known.\<close>

abbreviation listed_pool :: "string \<Rightarrow> pymap \<Rightarrow> pyval" where
  "listed_pool st p \<equiv> PDict (dict_update p
     [(''status'', PStr st), (''lb_method'', dict_get_default p ''lb_algorithm'' PNone), (''status_description'', PStr st),
      (''provider'', PStr []), (''vip_id'', PStr []), (''subnet_id'', PStr [])])"

lemma detailed_pool_listed:
  assumes "dict_get p ''id'' = Some (PStr i)" and "vdict_item d (PStr i) = Inr (PStr st)"
  shows "detailed_pool d (PDict p) = Inr (listed_pool st p)"
  using assms by (simp add: detailed_pool_def py_get_def dict_get_default_def set_item_def dict_update_def dict_get_set)

text \<open>What the status tree adds: the statuses of all pools below the listener.\<close>

lemma add_pool_status_tree:
  assumes "call ''show_listener'' [PStr l] w =
      (w, Inr (PDict [(''listener'', PDict [(''loadbalancers'', PList [PDict [(''id'', PStr lb)]])])]))"
    and "call ''retrieve_loadbalancer_status'' [PStr lb] w =
      (w, Inr (PDict [(''statuses'', PDict [(''loadbalancer'', PDict [(''listeners'', PList (map listener_item tree))])])]))"
    and "dict_get tree l = Some qs" and "\<And>q s. (q, s) \<in> set qs \<Longrightarrow> s = status q" and "tells (\<lambda>q. PStr (status q)) d"
  shows "\<exists>d'. add_pool_status call (k, PStr l) d w = (w, Inr d') \<and> tells (\<lambda>q. PStr (status q)) d' \<and>
    fst ` set d' = (\<lambda>(q, s). PStr q) ` set qs \<union> fst ` set d"
proof -
  let ?f = "\<lambda>q. PStr (status q)" and ?kvs = "map (\<lambda>(q, s). (PStr q, PStr s)) qs"
  have lb: "get_loadbalancer_id call (PStr l) w = (w, Inr (PStr lb))"
    by (simp add: get_loadbalancer_id_def bindw_same [where m = "call ''show_listener'' [PStr l]", OF assms(1)] pure_def first_id_def
        py_get_def dict_get_default_def py_getitem_def py_iter_def list_index_def)
  define st where "st = fold (\<lambda>(k, v). vdict_put k v) ?kvs []"
  have "get_pool_status call (PStr lb) (PStr l) w = (w, Inr st)"
    using get_pool_status_tree [where call = call, OF assms(2,3)] by (simp add: collect_status_items st_def)
  then have run: "add_pool_status call (k, PStr l) d w = (w, Inr (fold (\<lambda>(k, v). vdict_put k v) st d))"
    by (simp add: add_pool_status_def bindw_same lb pure_def)
  have "\<exists>q. k = PStr q \<and> v = ?f q" if "(k, v) \<in> set ?kvs" for k v using that assms(4) by auto
  then have st: "tells ?f st \<and> fst ` set st = fst ` set ?kvs"
    using tells_puts [of ?f "[]" ?kvs] by (simp only: st_def) (simp add: tells_def)
  then have "tells ?f (fold (\<lambda>(k, v). vdict_put k v) st d) \<and>
      fst ` set (fold (\<lambda>(k, v). vdict_put k v) st d) = fst ` set st \<union> fst ` set d"
    by (intro tells_puts assms(5)) (auto simp: tells_def)
  then show ?thesis using run st by (simp add: image_image case_prod_unfold)
qed

text \<open>Folding a computation that keeps an invariant and the keys, and adds the key of its item.\<close>

lemma foldw_collects:
  assumes "\<And>x d. x \<in> set xs \<Longrightarrow> P d \<Longrightarrow>
    \<exists>d'. f x d w = (w, Inr d') \<and> P d' \<and> insert (fst x) (fst ` set d) \<subseteq> fst ` set d'"
  shows "P d \<Longrightarrow> \<exists>d'. foldw f xs d w = (w, Inr d') \<and> P d' \<and> fst ` set xs \<union> fst ` set d \<subseteq> fst ` set d'"
  using assms
proof (induction xs arbitrary: d)
  case (Cons x xs)
  obtain d1 where d1: "f x d w = (w, Inr d1)" "P d1" "insert (fst x) (fst ` set d) \<subseteq> fst ` set d1"
    using Cons.prems(1) Cons.prems(2) [of x d] by auto
  obtain d2 where "foldw f xs d1 w = (w, Inr d2)" "P d2" "fst ` set xs \<union> fst ` set d1 \<subseteq> fst ` set d2"
    using Cons.IH [OF d1(2)] Cons.prems(2) by auto
  moreover from this(3) d1(3) have "fst ` set (x # xs) \<union> fst ` set d \<subseteq> fst ` set d2" by (simp, blast)
  ultimately show ?case using d1(1) by (auto simp: bindw_same)
qed (simp add: pure_def)

text \<open>
  Every pool of version 2 of the load balancer API is listed with its status. When every pool has a
  listener, its listener a load balancer, and the status tree of that load balancer has the pool
  below the listener, the list has every pool once, in its order, with the operating status that
  the trees report for it, whichever pools share a listener or a load balancer.
\<close>

theorem pools_listed_with_status:
  fixes call :: "'w neutron"
  assumes "call ''list_lbaas_pools'' [] w = (w, Inr (PDict [(''pools'', PList (map PDict ps))]))"
    and "\<And>p. p \<in> set ps \<Longrightarrow> dict_get p ''id'' = Some (PStr (pid p))"
    and "\<And>p. p \<in> set ps \<Longrightarrow> \<exists>l ls. dict_get p ''listeners'' = Some (PList (PDict l # ls)) \<and> dict_get l ''id'' = Some (PStr (lid p))"
    and "\<And>p. p \<in> set ps \<Longrightarrow> call ''show_listener'' [PStr (lid p)] w =
      (w, Inr (PDict [(''listener'', PDict [(''loadbalancers'', PList [PDict [(''id'', PStr (lb p))]])])]))"
    and "\<And>p. p \<in> set ps \<Longrightarrow> call ''retrieve_loadbalancer_status'' [PStr (lb p)] w =
      (w, Inr (PDict [(''statuses'', PDict [(''loadbalancer'', PDict [(''listeners'', PList (map listener_item (tree p)))])])]))"
    and "\<And>p. p \<in> set ps \<Longrightarrow> dict_get (tree p) (lid p) = Some (below p) \<and> (pid p, status (pid p)) \<in> set (below p)"
    and "\<And>p q s. p \<in> set ps \<Longrightarrow> (q, s) \<in> set (below p) \<Longrightarrow> s = status q"
  shows "list_pools_v2 call w = (w, Inr (PList (map (\<lambda>p. listed_pool (status (pid p)) p) ps)))"
proof -
  let ?f = "\<lambda>q. PStr (status q)"
  let ?ids = "fold (\<lambda>p. vdict_put (PStr (pid p)) (PStr (lid p))) ps []"
  have "first_id (PDict p) ''listeners'' = Inr (PStr (lid p))" if "p \<in> set ps" for p
    using assms(3) [OF that] by (auto simp: first_id_def py_get_def dict_get_default_def py_getitem_def py_iter_def list_index_def)
  then have ids: "get_pool_and_listener_ids (map PDict ps) [] = Inr ?ids"
    by (intro get_pool_and_listener_ids_fold assms(2))
  have step: "\<exists>d'. add_pool_status call x d w = (w, Inr d') \<and> tells ?f d' \<and> insert (fst x) (fst ` set d) \<subseteq> fst ` set d'"
    if x: "x \<in> set ?ids" and d: "tells ?f d" for x d
  proof -
    obtain p where p: "p \<in> set ps" "x = (PStr (pid p), PStr (lid p))"
      using pool_ids_entries [of "fst x" "snd x" pid lid ps "[]"] x by (cases x) auto
    have "(pid p, status (pid p)) \<in> set (below p)" using assms(6) [OF p(1)] by simp
    then have "PStr (pid p) \<in> (\<lambda>(q, s). PStr q) ` set (below p)" by force
    then show ?thesis
      using add_pool_status_tree [where call = call and qs = "below p", OF assms(4,5) [OF p(1)] _ _ d, of "PStr (pid p)"]
        assms(6) [OF p(1)] assms(7) [OF p(1)] p(2) by auto
  qed
  obtain d where d: "foldw (add_pool_status call) ?ids [] w = (w, Inr d)" "tells ?f d" "fst ` set ?ids \<subseteq> fst ` set d"
    using foldw_collects [of ?ids "tells ?f" "add_pool_status call" w "[]"] step by (auto simp: tells_def)
  have "detailed_pool d (PDict p) = Inr (listed_pool (status (pid p)) p)" if "p \<in> set ps" for p
  proof (rule detailed_pool_listed [OF assms(2) [OF that]])
    have "PStr (pid p) \<in> fst ` set d" using d(3) that unfolding pool_ids_keys by auto
    then show "vdict_item d (PStr (pid p)) = Inr (?f (pid p))" by (rule tells_get [OF d(2)])
  qed
  then have "mapr (detailed_pool d) (map PDict ps) = Inr (map (\<lambda>p. listed_pool (status (pid p)) p) ps)"
    by (simp add: mapr_Inr_iff list_all2_conv_all_nth)
  then show ?thesis
    by (simp add: list_pools_v2_def logged_def call_get_def bindw_def assms(1) d(1) pure_def py_get_def dict_get_default_def
        py_iter_def ids list_of_def)
qed

text \<open>One pool without a listener is an \<open>IndexError\<close> for all pools: nothing is listed.\<close>

lemma pool_without_listener_lists_nothing:
  assumes "call ''list_lbaas_pools'' [] w = (w, Inr (PDict [(''pools'', PList (PDict p # pools))]))"
    and "dict_get p ''listeners'' = Some (PList [])"
  shows "list_pools_v2 call w = (w, Inl IndexError)"
  using assms(2)
  by (simp add: list_pools_v2_def logged_def call_get_def bindw_def assms(1) pure_def py_get_def dict_get_default_def
      py_iter_def first_id_def py_getitem_def list_index_def NeutronClientException_def)

section \<open>Example\<close>

text \<open>Two pools below one listener.\<close>

definition demo_neutron :: "unit neutron" where
  "demo_neutron op args w = (w, Inr (
     if op = ''list_lbaas_pools'' then
       PDict [(''pools'', PList [PDict [(''id'', PStr ''p1''), (''listeners'', PList [PDict [(''id'', PStr ''l'')]])],
                                PDict [(''id'', PStr ''p2''), (''listeners'', PList [PDict [(''id'', PStr ''l'')]])]])]
     else if op = ''show_listener'' then
       PDict [(''listener'', PDict [(''loadbalancers'', PList [PDict [(''id'', PStr ''lb'')]])])]
     else PDict [(''statuses'', PDict [(''loadbalancer'', PDict [(''listeners'', PList
            [listener_item (''l'', [(''p1'', ''ONLINE''), (''p2'', ''ERROR'')])])])])]))"

theorem pools_listed_with_status_witness:
  "\<exists>p1 p2. snd (list_pools_v2 demo_neutron ()) = Inr (PList [PDict p1, PDict p2]) \<and>
     dict_get p1 ''status'' = Some (PStr ''ONLINE'') \<and> dict_get p2 ''status'' = Some (PStr ''ERROR'')"
proof -
  let ?ls = "(''listeners'', PList [PDict [(''id'', PStr ''l'')]])"
  let ?ps = "[[(''id'', PStr ''p1''), ?ls], [(''id'', PStr ''p2''), ?ls]]"
  let ?pid = "\<lambda>p. case dict_get p ''id'' of Some (PStr s) \<Rightarrow> s"
  let ?st = "\<lambda>q. if q = ''p1'' then ''ONLINE'' else ''ERROR''"
  have "list_pools_v2 demo_neutron () = ((), Inr (PList (map (\<lambda>p. listed_pool (?st (?pid p)) p) ?ps)))"
    by (rule pools_listed_with_status [where lid = "\<lambda>p. ''l''" and lb = "\<lambda>p. ''lb''"
          and tree = "\<lambda>p. [(''l'', [(''p1'', ''ONLINE''), (''p2'', ''ERROR'')])]" and below = "\<lambda>p. [(''p1'', ''ONLINE''), (''p2'', ''ERROR'')]"])
       (auto simp: demo_neutron_def)
  then show ?thesis by (simp add: dict_update_def)
qed

end
