(* ===== verification/Network_Services.thy ===== *)
theory Network_Services
  imports Neutron_Client
begin

text \<open>
  The pollsters of load balancers, VPN, firewalls and floating addresses
  (\<^verbatim>\<open>ceilometer/network/services/\<close>, \<^verbatim>\<open>ceilometer/network/floatingip.py\<close>) with their discovery.
\<close>

section \<open>Status numbers\<close>

definition STATUS :: "(string, int) pydict" where
  "STATUS =
    [(''inactive'', 0), (''active'', 1), (''pending_create'', 2), (''down'', 3), (''created'', 4),
     (''pending_update'', 5), (''pending_delete'', 6), (''error'', 7)]"

definition LOAD_BALANCER_STATUS_V2 :: "(string, int) pydict" where
  "LOAD_BALANCER_STATUS_V2 =
    [(''offline'', 0), (''online'', 1), (''no_monitor'', 3), (''error'', 4), (''degraded'', 5), (''disabled'', 6)]"

definition status_in :: "(string, int) pydict \<Rightarrow> pyval \<Rightarrow> int res" where
  "status_in table v =
     (case v of
        PStr s \<Rightarrow> Inr (dict_get_default table (str_lower s) (- 1))
      | PBytes b \<Rightarrow> Inr (- 1)
      | _ \<Rightarrow> Inl (AttributeError ''lower''))"

definition get_status_id :: "pyval \<Rightarrow> int res" where
  "get_status_id v = status_in STATUS v"

definition get_load_balancer_status_id :: "lb_version \<Rightarrow> pyval \<Rightarrow> int res" where
  "get_load_balancer_status_id lbv v = (if lbv = V1 then get_status_id v else status_in LOAD_BALANCER_STATUS_V2 v)"

section \<open>Pollsters of one sample per resource\<close>

text \<open>
  \<open>sp_status\<close> is the key of the status that is the volume; without one the volume is 1. \<open>sp_lb\<close>
  says that the status is one of load balancers.
\<close>

record svc_pollster =
  sp_name :: string
  sp_unit :: string
  sp_discovery :: string
  sp_status :: "string option"
  sp_lb :: bool
  sp_fields :: "string list"

definition lb_pool_pollster :: svc_pollster where
  "lb_pool_pollster = \<lparr>sp_name = ''network.services.lb.pool'', sp_unit = ''pool'', sp_discovery = ''lb_pools'',
     sp_status = Some ''status'', sp_lb = True,
     sp_fields = [''admin_state_up'', ''description'', ''lb_method'', ''name'', ''protocol'', ''provider'', ''status'',
       ''status_description'', ''subnet_id'', ''vip_id'']\<rparr>"

definition lb_vip_pollster :: svc_pollster where
  "lb_vip_pollster = \<lparr>sp_name = ''network.services.lb.vip'', sp_unit = ''vip'', sp_discovery = ''lb_vips'',
     sp_status = Some ''status'', sp_lb = False,
     sp_fields = [''admin_state_up'', ''address'', ''connection_limit'', ''description'', ''name'', ''pool_id'', ''port_id'',
       ''protocol'', ''protocol_port'', ''status'', ''status_description'', ''subnet_id'', ''session_persistence'']\<rparr>"

definition lb_member_pollster :: svc_pollster where
  "lb_member_pollster = \<lparr>sp_name = ''network.services.lb.member'', sp_unit = ''member'', sp_discovery = ''lb_members'',
     sp_status = Some ''status'', sp_lb = True,
     sp_fields = [''admin_state_up'', ''address'', ''pool_id'', ''protocol_port'', ''status'', ''status_description'', ''weight'']\<rparr>"

definition lb_health_monitor_pollster :: svc_pollster where
  "lb_health_monitor_pollster = \<lparr>sp_name = ''network.services.lb.health_monitor'', sp_unit = ''health_monitor'',
     sp_discovery = ''lb_health_probes'', sp_status = None, sp_lb = False,
     sp_fields = [''admin_state_up'', ''delay'', ''max_retries'', ''pools'', ''timeout'', ''type'']\<rparr>"

definition lb_listener_pollster :: svc_pollster where
  "lb_listener_pollster = \<lparr>sp_name = ''network.services.lb.listener'', sp_unit = ''listener'', sp_discovery = ''lb_listeners'',
     sp_status = Some ''operating_status'', sp_lb = True,
     sp_fields = [''admin_state_up'', ''connection_limit'', ''description'', ''name'', ''default_pool_id'', ''protocol'',
       ''protocol_port'', ''operating_status'', ''loadbalancers'']\<rparr>"

definition lb_loadbalancer_pollster :: svc_pollster where
  "lb_loadbalancer_pollster = \<lparr>sp_name = ''network.services.lb.loadbalancer'', sp_unit = ''loadbalancer'',
     sp_discovery = ''lb_loadbalancers'', sp_status = Some ''operating_status'', sp_lb = True,
     sp_fields = [''admin_state_up'', ''description'', ''vip_address'', ''listeners'', ''name'', ''vip_subnet_id'',
       ''operating_status'']\<rparr>"

definition vpn_pollster :: svc_pollster where
  "vpn_pollster = \<lparr>sp_name = ''network.services.vpn'', sp_unit = ''vpnservice'', sp_discovery = ''vpn_services'',
     sp_status = Some ''status'', sp_lb = False,
     sp_fields = [''admin_state_up'', ''description'', ''name'', ''status'', ''subnet_id'', ''router_id'']\<rparr>"

definition ipsec_pollster :: svc_pollster where
  "ipsec_pollster = \<lparr>sp_name = ''network.services.vpn.connections'', sp_unit = ''ipsec_site_connection'',
     sp_discovery = ''ipsec_connections'', sp_status = None, sp_lb = False,
     sp_fields = [''name'', ''description'', ''peer_address'', ''peer_id'', ''peer_cidrs'', ''psk'', ''initiator'', ''ikepolicy_id'',
       ''dpd'', ''ipsecpolicy_id'', ''vpnservice_id'', ''mtu'', ''admin_state_up'', ''status'', ''tenant_id'']\<rparr>"

definition firewall_pollster :: svc_pollster where
  "firewall_pollster = \<lparr>sp_name = ''network.services.firewall'', sp_unit = ''firewall'', sp_discovery = ''fw_services'',
     sp_status = Some ''status'', sp_lb = False,
     sp_fields = [''admin_state_up'', ''description'', ''name'', ''status'', ''firewall_policy_id'']\<rparr>"

definition firewall_policy_pollster :: svc_pollster where
  "firewall_policy_pollster = \<lparr>sp_name = ''network.services.firewall.policy'', sp_unit = ''firewall_policy'',
     sp_discovery = ''fw_policy'', sp_status = None, sp_lb = False,
     sp_fields = [''name'', ''description'', ''name'', ''firewall_rules'', ''shared'', ''audited'']\<rparr>"

definition extract_metadata :: "string list \<Rightarrow> pyval \<Rightarrow> pymap res" where
  "extract_metadata fs metric =
     bindr (mapr (\<lambda>k. bindr (dig metric [k]) (\<lambda>v. Inr (k, v))) fs) (\<lambda>kvs. Inr (dict_update [] kvs))"

record svc_env =
  sv_lb_version :: lb_version
  sv_source :: string
  sv_uuid :: string
  sv_repr :: "pyval \<Rightarrow> string"

definition svc_sample :: "svc_env \<Rightarrow> meter \<Rightarrow> pyval \<Rightarrow> pyval \<Rightarrow> pyval \<Rightarrow> pyval \<Rightarrow> pymap \<Rightarrow> sample" where
  "svc_sample env m volume user project rid md =
     new_sample (sv_source env) (sv_uuid env) (fst m) (fst (snd m)) (snd (snd m)) volume (optional_text (sv_repr env) user)
       (optional_text (sv_repr env) project) (text_of (sv_repr env) rid) None md None None PNone"

text \<open>
  The volume of a resource; \<open>None\<close> is a resource that is left out, with a warning that shows its
  id.
\<close>

definition svc_volume :: "svc_env \<Rightarrow> svc_pollster \<Rightarrow> pyval \<Rightarrow> int option res" where
  "svc_volume env p r =
     (case sp_status p of
        None \<Rightarrow> Inr (Some 1)
      | Some k \<Rightarrow>
          bindr (dig r [k]) (\<lambda>st.
          bindr (if sp_lb p then get_load_balancer_status_id (sv_lb_version env) st else get_status_id st) (\<lambda>n.
            if n = - 1 then bindr (dig r [''id'']) (\<lambda>i. Inr None) else Inr (Some n))))"

definition svc_item :: "svc_env \<Rightarrow> svc_pollster \<Rightarrow> pyval \<Rightarrow> sample gen" where
  "svc_item env p r =
     (case svc_volume env p r of
        Inl e \<Rightarrow> ([], Inl e)
      | Inr None \<Rightarrow> ([], Inr ())
      | Inr (Some n) \<Rightarrow>
          gen_one (bindr (dig r [''tenant_id'']) (\<lambda>t.
                   bindr (dig r [''id'']) (\<lambda>i.
                   bindr (extract_metadata (sp_fields p) r) (\<lambda>md.
                     Inr (svc_sample env (sp_name p, TYPE_GAUGE, sp_unit p) (PInt n) PNone t i md))))))"

definition svc_get_samples :: "svc_env \<Rightarrow> svc_pollster \<Rightarrow> pyval list \<Rightarrow> sample gen" where
  "svc_get_samples env p rs = gen_bind (svc_item env p) rs"

text \<open>The pollster of floating addresses has the number of an unknown status as a volume.\<close>

definition fip_fields :: "string list" where
  "fip_fields = [''router_id'', ''status'', ''floating_network_id'', ''fixed_ip_address'', ''port_id'', ''floating_ip_address'']"

definition fip_item :: "svc_env \<Rightarrow> pyval \<Rightarrow> sample gen" where
  "fip_item env fip =
     (case dig fip [''status''] of
        Inl e \<Rightarrow> ([], Inl e)
      | Inr st \<Rightarrow>
          (if st = PNone
           then ([], bindr (dig fip [''floating_ip_address'']) (\<lambda>a. Inr ()))
           else gen_one (bindr (get_status_id st) (\<lambda>n.
                  bindr (py_get fip ''user_id'' PNone) (\<lambda>user.
                  bindr (dig fip [''tenant_id'']) (\<lambda>t.
                  bindr (dig fip [''id'']) (\<lambda>i.
                  bindr (extract_metadata fip_fields fip) (\<lambda>md.
                    Inr (svc_sample env (''ip.floating'', TYPE_GAUGE, ''ip'') (PInt n) user t i md))))))))) "

definition fip_get_samples :: "svc_env \<Rightarrow> pyval list \<Rightarrow> sample gen" where
  "fip_get_samples env rs = gen_bind (fip_item env) rs"

section \<open>Statistics of load balancers\<close>

record lb_stats =
  active_connections :: pyval
  total_connections :: pyval
  bytes_in :: pyval
  bytes_out :: pyval

record stats_pollster =
  st_meter :: meter
  st_field :: "lb_stats \<Rightarrow> pyval"

definition active_connections_pollster :: stats_pollster where
  "active_connections_pollster =
     \<lparr>st_meter = (''network.services.lb.active.connections'', TYPE_GAUGE, ''connection''), st_field = active_connections\<rparr>"

definition total_connections_pollster :: stats_pollster where
  "total_connections_pollster =
     \<lparr>st_meter = (''network.services.lb.total.connections'', TYPE_CUMULATIVE, ''connection''), st_field = total_connections\<rparr>"

definition bytes_in_pollster :: stats_pollster where
  "bytes_in_pollster = \<lparr>st_meter = (''network.services.lb.incoming.bytes'', TYPE_GAUGE, ''B''), st_field = bytes_in\<rparr>"

definition bytes_out_pollster :: stats_pollster where
  "bytes_out_pollster = \<lparr>st_meter = (''network.services.lb.outgoing.bytes'', TYPE_GAUGE, ''B''), st_field = bytes_out\<rparr>"

definition to_stats :: "pyval \<Rightarrow> lb_stats res" where
  "to_stats stats =
     bindr (dig stats [''active_connections'']) (\<lambda>a.
     bindr (dig stats [''total_connections'']) (\<lambda>t.
     bindr (dig stats [''bytes_in'']) (\<lambda>i.
     bindr (dig stats [''bytes_out'']) (\<lambda>ob.
       Inr \<lparr>active_connections = a, total_connections = t, bytes_in = i, bytes_out = ob\<rparr>))))"

text \<open>The readings of the cycle, by the id of the pool or the load balancer.\<close>

type_synonym stats_cache = "lb_stats vdict"

definition cached_stats :: "stats_cache \<Rightarrow> pyval \<Rightarrow> lb_stats option" where
  "cached_stats c i = vdict_get c i"

definition read_stats :: "'w neutron \<Rightarrow> lb_version \<Rightarrow> pyval \<Rightarrow> ('w, lb_stats) svc" where
  "read_stats call lbv i =
     (if lbv = V1 then bindw (pool_stats call i) (\<lambda>v. pure (bindr (dig v [''stats'']) to_stats))
      else bindw (get_loadbalancer_stats call i) (\<lambda>v. pure (to_stats v)))"

definition populate_stats_cache ::
  "'w neutron \<Rightarrow> lb_version \<Rightarrow> pyval \<Rightarrow> stats_cache \<Rightarrow> 'w \<Rightarrow> (stats_cache \<times> 'w) \<times> lb_stats res" where
  "populate_stats_cache call lbv i c w =
     (if \<not> hashable i then ((c, w), Inl TypeError)
      else case cached_stats c i of
        Some s \<Rightarrow> ((c, w), Inr s)
      | None \<Rightarrow>
          (case read_stats call lbv i w of
             (w1, Inl e) \<Rightarrow> ((c, w1), Inl e)
           | (w1, Inr s) \<Rightarrow> ((c @ [(i, s)], w1), Inr s)))"

definition stats_sample :: "svc_env \<Rightarrow> stats_pollster \<Rightarrow> pyval \<Rightarrow> lb_stats \<Rightarrow> sample res" where
  "stats_sample env p r s =
     bindr (dig r [''tenant_id'']) (\<lambda>t.
     bindr (dig r [''id'']) (\<lambda>i. Inr (svc_sample env (st_meter p) (st_field p s) PNone t i [])))"

text \<open>
  \<open>get_samples\<close>: what goes wrong with a resource is logged with its id, so a resource without one
  ends the generator.
\<close>

definition stats_item ::
  "'w neutron \<Rightarrow> svc_env \<Rightarrow> stats_pollster \<Rightarrow> pyval \<Rightarrow> stats_cache \<Rightarrow> 'w \<Rightarrow> (stats_cache \<times> 'w) \<times> sample option res" where
  "stats_item call env p r c w =
     (case dig r [''id''] of
        Inl e \<Rightarrow> ((c, w), Inl e)
      | Inr i \<Rightarrow>
          (case populate_stats_cache call (sv_lb_version env) i c w of
             (st, Inl e) \<Rightarrow> (st, Inr None)
           | (st, Inr s) \<Rightarrow>
               (st, case stats_sample env p r s of Inl e \<Rightarrow> Inr None | Inr x \<Rightarrow> Inr (Some x))))"

fun stats_get_samples ::
  "'w neutron \<Rightarrow> svc_env \<Rightarrow> stats_pollster \<Rightarrow> pyval list \<Rightarrow> stats_cache \<Rightarrow> 'w \<Rightarrow> (stats_cache \<times> 'w) \<times> sample gen" where
  "stats_get_samples call env p [] c w = ((c, w), ([], Inr ()))"
| "stats_get_samples call env p (r # rs) c w =
     (case stats_item call env p r c w of
        (st, Inl e) \<Rightarrow> (st, ([], Inl e))
      | ((c1, w1), Inr x) \<Rightarrow>
          (case stats_get_samples call env p rs c1 w1 of
             (st, (ss, e)) \<Rightarrow> (st, ((case x of None \<Rightarrow> [] | Some s \<Rightarrow> [s]) @ ss, e))))"

definition stats_discovery :: "lb_version \<Rightarrow> string" where
  "stats_discovery lbv = (if lbv = V2 then ''lb_loadbalancers'' else ''lb_pools'')"

section \<open>Discovery\<close>

text \<open>The resources whose status is not the text \<open>error\<close>, in lower case only.\<close>

definition not_error :: "string \<Rightarrow> pyval \<Rightarrow> pyval res" where
  "not_error k v =
     bindr (py_iter v) (\<lambda>xs.
     bindr (filterr (\<lambda>i. bindr (py_get i k PNone) (\<lambda>s. Inr (\<not> py_eq s (PStr ''error'')))) xs) (\<lambda>ys. Inr (PList ys)))"

definition svc_discover :: "'w neutron \<Rightarrow> lb_version \<Rightarrow> string \<Rightarrow> ('w, pyval) svc option" where
  "svc_discover call lbv name =
     dict_get
       [(''lb_pools'', bindw (pool_get_all call lbv) (\<lambda>v. pure (not_error ''status'' v))),
        (''lb_vips'', bindw (vip_get_all call) (\<lambda>v. pure (not_error ''status'' v))),
        (''lb_members'', bindw (member_get_all call lbv) (\<lambda>v. pure (not_error ''status'' v))),
        (''lb_listeners'', bindw (list_listener call lbv) (\<lambda>v. pure (not_error ''operating_status'' v))),
        (''lb_loadbalancers'', bindw (list_loadbalancer call lbv) (\<lambda>v. pure (not_error ''operating_status'' v))),
        (''lb_health_probes'', health_monitor_get_all call lbv),
        (''vpn_services'', bindw (vpn_get_all call) (\<lambda>v. pure (not_error ''status'' v))),
        (''ipsec_connections'', ipsec_site_connections_get_all call),
        (''fw_services'', bindw (firewall_get_all call) (\<lambda>v. pure (not_error ''status'' v))),
        (''fw_policy'', fw_policy_get_all call),
        (''fip_services'', fip_get_all call)] name"

section \<open>One sample per known status\<close>

abbreviation svc_table :: "svc_env \<Rightarrow> svc_pollster \<Rightarrow> (string, int) pydict" where
  "svc_table env p \<equiv> (if sp_lb p \<and> sv_lb_version env = V2 then LOAD_BALANCER_STATUS_V2 else STATUS)"

abbreviation field_values :: "string list \<Rightarrow> pymap \<Rightarrow> pymap" where
  "field_values fs d \<equiv> dict_update [] (map (\<lambda>f. (f, the (dict_get d f))) fs)"

lemma status_numbers_nonnegative: "v \<in> snd ` set STATUS \<union> snd ` set LOAD_BALANCER_STATUS_V2 \<Longrightarrow> v \<noteq> (- 1::int)"
  by (auto simp: STATUS_def LOAD_BALANCER_STATUS_V2_def)

lemma status_in_str:
  "table = STATUS \<or> table = LOAD_BALANCER_STATUS_V2 \<Longrightarrow>
   status_in table (PStr s) = Inr (case dict_get table (str_lower s) of None \<Rightarrow> - 1 | Some n \<Rightarrow> n) \<and>
   (\<forall>n. dict_get table (str_lower s) = Some n \<longrightarrow> n \<noteq> - 1)"
  using status_numbers_nonnegative
  by (auto simp: status_in_def dict_get_default_def split: option.split dest!: map_of_SomeD) (force, force)

lemma extract_metadata_complete:
  "(\<And>f. f \<in> set fs \<Longrightarrow> dict_get d f \<noteq> None) \<Longrightarrow> extract_metadata fs (PDict d) = Inr (field_values fs d)"
proof -
  assume fields: "\<And>f. f \<in> set fs \<Longrightarrow> dict_get d f \<noteq> None"
  have "mapr (\<lambda>k. bindr (dig (PDict d) [k]) (\<lambda>v. Inr (k, v))) fs = Inr (map (\<lambda>f. (f, the (dict_get d f))) fs)"
    using fields
  proof (induction fs)
    case (Cons f fs)
    then obtain v where "dict_get d f = Some v" by fastforce
    then show ?case using Cons by (simp add: py_getitem_def dict_item_def)
  qed simp
  then show ?thesis by (simp add: extract_metadata_def)
qed

lemma svc_item_complete:
  assumes "sp_status p = Some k" and "dict_get d k = Some (PStr s)"
    and "dict_get d ''id'' = Some i" and "dict_get d ''tenant_id'' = Some t"
    and "\<And>f. f \<in> set (sp_fields p) \<Longrightarrow> dict_get d f \<noteq> None"
  shows "svc_item env p (PDict d) =
    (case dict_get (svc_table env p) (str_lower s) of
       None \<Rightarrow> []
     | Some n \<Rightarrow> [svc_sample env (sp_name p, TYPE_GAUGE, sp_unit p) (PInt n) PNone t i (field_values (sp_fields p) d)], Inr ())"
proof -
  let ?n = "dict_get (svc_table env p) (str_lower s)"
  have "(if sp_lb p then get_load_balancer_status_id (sv_lb_version env) (PStr s) else get_status_id (PStr s)) =
      status_in (svc_table env p) (PStr s)"
    by (cases "sv_lb_version env") (simp_all add: get_load_balancer_status_id_def get_status_id_def)
  moreover have "status_in (svc_table env p) (PStr s) = Inr (case ?n of None \<Rightarrow> - 1 | Some n \<Rightarrow> n) \<and> (\<forall>n. ?n = Some n \<longrightarrow> n \<noteq> - 1)"
    by (rule status_in_str) simp
  ultimately have "svc_volume env p (PDict d) = Inr ?n"
    using assms(1-3) by (auto simp: svc_volume_def py_getitem_def dict_item_def split: option.split)
  then show ?thesis
    using assms(3-5) by (simp add: svc_item_def py_getitem_def dict_item_def extract_metadata_complete gen_one_def split: option.split)
qed

text \<open>
  A pollster of a network service gives exactly one gauge sample for every resource whose status is
  known, in upper or lower case, in the order of the resources, with the number of the status as
  the volume and the values of the pollster's fields as metadata; a resource with an unknown status
  is left out and changes nothing for the others.
\<close>

theorem service_samples_exact:
  assumes "sp_status p = Some k"
    and "\<And>d. d \<in> set ds \<Longrightarrow> dict_get d k = Some (PStr (status d))"
    and "\<And>d. d \<in> set ds \<Longrightarrow> dict_get d ''id'' = Some (rid d) \<and> dict_get d ''tenant_id'' = Some (tenant d)"
    and "\<And>d f. d \<in> set ds \<Longrightarrow> f \<in> set (sp_fields p) \<Longrightarrow> dict_get d f \<noteq> None"
  shows "svc_get_samples env p (map PDict ds) =
    (map (\<lambda>d. svc_sample env (sp_name p, TYPE_GAUGE, sp_unit p)
                (PInt (the (dict_get (svc_table env p) (str_lower (status d))))) PNone (tenant d) (rid d)
                (field_values (sp_fields p) d))
       (filter (\<lambda>d. str_lower (status d) \<in> set (dict_keys (svc_table env p))) ds), Inr ())"
  using assms(2-4)
proof (induction ds)
  case (Cons d ds)
  have "svc_item env p (PDict d) =
    (case dict_get (svc_table env p) (str_lower (status d)) of
       None \<Rightarrow> []
     | Some n \<Rightarrow> [svc_sample env (sp_name p, TYPE_GAUGE, sp_unit p) (PInt n) PNone (tenant d) (rid d) (field_values (sp_fields p) d)],
     Inr ())"
    using Cons.prems by (intro svc_item_complete [OF assms(1)]) auto
  moreover have "(str_lower (status d) \<in> set (dict_keys (svc_table env p))) =
      (dict_get (svc_table env p) (str_lower (status d)) \<noteq> None)"
    by (metis dict_get_None_iff)
  ultimately show ?case
    using Cons by (cases "dict_get (svc_table env p) (str_lower (status d))") (simp_all add: svc_get_samples_def)
qed (simp add: svc_get_samples_def)

section \<open>One reading for the four statistics\<close>

text \<open>A cache with at least the readings of another.\<close>

definition extends :: "stats_cache \<Rightarrow> stats_cache \<Rightarrow> bool" where
  "extends c c1 \<longleftrightarrow> (\<exists>more. c1 = c @ more)"

lemma extends_refl: "extends c c"
  by (auto simp: extends_def)

lemma extends_trans: "extends c c1 \<Longrightarrow> extends c1 c2 \<Longrightarrow> extends c c2"
  by (auto simp: extends_def)

lemma extends_cached: "extends c c1 \<Longrightarrow> cached_stats c i = Some s \<Longrightarrow> cached_stats c1 i = Some s"
  by (auto simp: extends_def cached_stats_def vdict_get_def find_append)

lemma populate_caches:
  assumes "populate_stats_cache call lbv (PStr i) c w = ((c1, w1), Inr s)"
  shows "extends c c1 \<and> cached_stats c1 (PStr i) = Some s"
  using assms
  by (auto simp: populate_stats_cache_def extends_def cached_stats_def vdict_get_def find_append
      split: option.splits prod.splits sum.splits)

text \<open>What a resource that gave a sample leaves behind: its reading is in the cache.\<close>

lemma stats_item_sampled:
  assumes "stats_item call env p r c w = ((c1, w1), Inr (Some x))" and "dig r [''id''] = Inr (PStr i)"
  shows "\<exists>s. extends c c1 \<and> cached_stats c1 (PStr i) = Some s \<and> stats_sample env p r s = Inr x"
proof -
  obtain s where s: "populate_stats_cache call (sv_lb_version env) (PStr i) c w = ((c1, w1), Inr s)" "stats_sample env p r s = Inr x"
    using assms by (auto simp: stats_item_def simp del: dig.simps split: prod.splits sum.splits)
  show ?thesis using populate_caches [OF s(1)] s(2) by blast
qed

lemma stats_item_extends:
  assumes "stats_item call env p r c w = ((c1, w1), y)"
  shows "extends c c1"
  using assms
  by (auto simp: stats_item_def populate_stats_cache_def extends_def split: if_splits option.splits prod.splits sum.splits)

lemma stats_samples_extends:
  "stats_get_samples call env p rs c w = ((c1, w1), g) \<Longrightarrow> extends c c1"
proof (induction rs arbitrary: c w c1 w1 g)
  case (Cons r rs)
  then show ?case
    by (fastforce split: prod.splits sum.splits dest: stats_item_extends intro: extends_refl extends_trans)
qed (simp add: extends_refl)

lemma stats_samples_length:
  "stats_get_samples call env p rs c w = (st, (ss, e)) \<Longrightarrow> length ss \<le> length rs"
proof (induction rs arbitrary: c w st ss e)
  case (Cons r rs)
  obtain c1 w1 y where y: "stats_item call env p r c w = ((c1, w1), y)" by (metis prod.exhaust)
  obtain st2 ss2 e2 where rest: "stats_get_samples call env p rs c1 w1 = (st2, (ss2, e2))" by (metis prod.exhaust)
  show ?case using Cons.prems Cons.IH [OF rest] by (cases y) (auto simp: y rest split: option.splits)
qed simp

text \<open>A reading in the cache that gives a sample.\<close>

definition has_reading :: "svc_env \<Rightarrow> stats_cache \<Rightarrow> pyval \<Rightarrow> lb_stats \<Rightarrow> bool" where
  "has_reading env c r s \<longleftrightarrow>
     (\<exists>i t. dig r [''id''] = Inr (PStr i) \<and> dig r [''tenant_id''] = Inr t \<and> cached_stats c (PStr i) = Some s)"

lemma stats_readings:
  assumes "\<And>r. r \<in> set rs \<Longrightarrow> \<exists>i. dig r [''id''] = Inr (PStr i)"
    and "stats_get_samples call env p rs c w = ((c1, w1), (ss, Inr ()))" and "length ss = length rs"
  shows "\<exists>readings. list_all2 (has_reading env c1) rs readings \<and> map Inr ss = map2 (stats_sample env p) rs readings"
  using assms
proof (induction rs arbitrary: c w ss)
  case (Cons r rs)
  obtain i where i: "dig r [''id''] = Inr (PStr i)" using Cons.prems(1) by fastforce
  obtain c2 w2 y where y: "stats_item call env p r c w = ((c2, w2), y)" by (metis prod.exhaust)
  obtain st ss2 e where rest: "stats_get_samples call env p rs c2 w2 = (st, (ss2, e))" by (metis prod.exhaust)
  have "length ss2 \<le> length rs" by (rule stats_samples_length [OF rest])
  then obtain x where x: "y = Inr (Some x)" "ss = x # ss2" "st = (c1, w1)" "e = Inr ()"
    using Cons.prems(2,3) by (cases y) (auto simp: y rest split: option.splits)
  obtain s where s: "cached_stats c2 (PStr i) = Some s" "stats_sample env p r s = Inr x"
    using stats_item_sampled [OF y [unfolded x(1)] i] by blast
  have ext: "extends c2 c1" using stats_samples_extends rest x(3) by metis
  obtain readings where IH: "list_all2 (has_reading env c1) rs readings" "map Inr ss2 = map2 (stats_sample env p) rs readings"
    using Cons.IH [of c2 w2 ss2] Cons.prems(1,3) rest x by fastforce
  have "has_reading env c1 r s"
    using i s ext by (auto simp: has_reading_def stats_sample_def bindr_Inr_iff simp del: dig.simps intro: extends_cached)
  then show ?case using IH s(2) x(2) by (intro exI [of _ "s # readings"]) simp
qed simp

lemma stats_from_readings:
  "list_all2 (has_reading env c) rs readings \<Longrightarrow>
   \<exists>ss. stats_get_samples call env q rs c w = ((c, w), (ss, Inr ())) \<and> map Inr ss = map2 (stats_sample env q) rs readings"
proof (induction rs readings rule: list_all2_induct)
  case (Cons r rs s readings)
  then obtain i t where i: "dig r [''id''] = Inr (PStr i)" "dig r [''tenant_id''] = Inr t" "cached_stats c (PStr i) = Some s"
    by (auto simp: has_reading_def simp del: dig.simps)
  let ?x = "svc_sample env (st_meter q) (st_field q s) PNone t (PStr i) []"
  have x: "stats_sample env q r s = Inr ?x" by (simp add: stats_sample_def i del: dig.simps)
  have "stats_item call env q r c w = ((c, w), Inr (Some ?x))"
    by (simp add: stats_item_def populate_stats_cache_def i x del: dig.simps)
  then show ?case using Cons.IH x by auto
qed simp

text \<open>
  The four statistics of the load balancers in a cycle come from one reading. When the first
  pollster gave a sample for every load balancer, there is one reading for each, and every pollster
  that follows gives for every load balancer the sample of its own field of that reading, and makes no
  request at all.
\<close>

theorem stats_read_once:
  assumes "\<And>r. r \<in> set rs \<Longrightarrow> \<exists>i. dig r [''id''] = Inr (PStr i)"
    and "stats_get_samples call env p rs c w = ((c1, w1), (ss, Inr ()))" and "length ss = length rs"
  shows "\<exists>readings. length readings = length rs \<and>
    map Inr ss = map2 (stats_sample env p) rs readings \<and>
    (\<forall>q w2. \<exists>ss2. stats_get_samples call env q rs c1 w2 = ((c1, w2), (ss2, Inr ())) \<and>
                  map Inr ss2 = map2 (stats_sample env q) rs readings)"
proof -
  obtain readings where r: "list_all2 (has_reading env c1) rs readings" "map Inr ss = map2 (stats_sample env p) rs readings"
    using stats_readings [OF assms] by blast
  show ?thesis
    using r stats_from_readings [OF r(1)] by (intro exI [of _ readings]) (auto dest: list_all2_lengthD)
qed

section \<open>Corner cases\<close>

text \<open>
  A status that is missing or null is an \<open>AttributeError\<close> that ends the generator: the resources
  behind it give no sample either.
\<close>

lemma null_status_ends_pollster:
  "sp_status p = Some k \<Longrightarrow> dict_get d k = Some PNone \<Longrightarrow>
   svc_get_samples env p (PDict d # rs) = ([], Inl (AttributeError ''lower''))"
  by (cases "sv_lb_version env"; cases "sp_lb p")
     (simp_all add: svc_get_samples_def svc_item_def svc_volume_def py_getitem_def dict_item_def
        get_load_balancer_status_id_def get_status_id_def status_in_def)

text \<open>The discovery leaves out a resource in error by the spelling of its status.\<close>

lemma upper_case_error_discovered:
  "not_error ''status'' (PList [PDict [(''status'', PStr ''error'')], PDict [(''status'', PStr ''ERROR'')]]) =
     Inr (PList [PDict [(''status'', PStr ''ERROR'')]])"
  by code_simp

section \<open>Examples\<close>

definition demo_svc_env :: svc_env where
  "demo_svc_env = \<lparr>sv_lb_version = V2, sv_source = ''openstack'', sv_uuid = ''uuid'', sv_repr = (\<lambda>v. ''?'')\<rparr>"

definition demo_vpn :: "string \<Rightarrow> string \<Rightarrow> pymap" where
  "demo_vpn i status =
     [(''id'', PStr i), (''tenant_id'', PStr ''t''), (''admin_state_up'', PBool True), (''description'', PStr []),
      (''name'', PStr ''vpn''), (''status'', PStr status), (''subnet_id'', PStr ''s''), (''router_id'', PStr ''r'')]"

theorem service_samples_exact_witness:
  "map s_volume (fst (svc_get_samples demo_svc_env vpn_pollster (map PDict [demo_vpn ''a'' ''ACTIVE'', demo_vpn ''b'' ''weird'', demo_vpn ''c'' ''Down'']))) =
     [PInt 1, PInt 3]"
proof -
  let ?ds = "[demo_vpn ''a'' ''ACTIVE'', demo_vpn ''b'' ''weird'', demo_vpn ''c'' ''Down'']"
  have "svc_get_samples demo_svc_env vpn_pollster (map PDict ?ds) =
    (map (\<lambda>d. svc_sample demo_svc_env (sp_name vpn_pollster, TYPE_GAUGE, sp_unit vpn_pollster)
                (PInt (the (dict_get (svc_table demo_svc_env vpn_pollster)
                   (str_lower (case dict_get d ''status'' of Some (PStr s) \<Rightarrow> s))))) PNone
                (the (dict_get d ''tenant_id'')) (the (dict_get d ''id''))
                (field_values (sp_fields vpn_pollster) d))
       (filter (\<lambda>d. str_lower (case dict_get d ''status'' of Some (PStr s) \<Rightarrow> s) \<in> set (dict_keys (svc_table demo_svc_env vpn_pollster))) ?ds), Inr ())"
    by (rule service_samples_exact [where k = "''status''"]) (auto simp: vpn_pollster_def demo_vpn_def)
  moreover have "filter (\<lambda>d. str_lower (case dict_get d ''status'' of Some (PStr s) \<Rightarrow> s) \<in> set (dict_keys (svc_table demo_svc_env vpn_pollster))) ?ds =
      [demo_vpn ''a'' ''ACTIVE'', demo_vpn ''c'' ''Down'']"
    by code_simp
  moreover have "the (dict_get (svc_table demo_svc_env vpn_pollster) (str_lower ''ACTIVE'')) = 1"
    "the (dict_get (svc_table demo_svc_env vpn_pollster) (str_lower ''Down'')) = 3" by code_simp+
  ultimately show ?thesis by (simp add: svc_sample_def new_sample_def demo_vpn_def)
qed

text \<open>A client that counts the requests and whose numbers grow with every one.\<close>

definition counting_client :: "nat neutron" where
  "counting_client op args w =
     (Suc w, Inr (PDict [(''stats'', PDict
        [(''active_connections'', PInt (int w)), (''total_connections'', PInt (int w + 10)),
         (''bytes_in'', PInt (int w + 20)), (''bytes_out'', PInt (int w + 30))])]))"

definition demo_balancer :: "string \<Rightarrow> pyval" where
  "demo_balancer i = PDict [(''id'', PStr i), (''tenant_id'', PStr ''t'')]"

theorem stats_read_once_witness:
  "\<exists>c1 ss2. stats_get_samples counting_client demo_svc_env bytes_out_pollster [demo_balancer ''a'', demo_balancer ''b''] c1 7 =
     ((c1, 7), (ss2, Inr ())) \<and> length c1 = 2 \<and> length ss2 = 2"
proof -
  define rs where "rs = [demo_balancer ''a'', demo_balancer ''b'']"
  let ?run = "stats_get_samples counting_client demo_svc_env active_connections_pollster rs [] 0"
  have "length (fst (fst ?run)) = 2 \<and> length (fst (snd ?run)) = 2 \<and> snd (snd ?run) = Inr ()"
    unfolding rs_def by code_simp
  then obtain c1 w1 ss where r: "?run = ((c1, w1), (ss, Inr ()))" and n: "length c1 = 2" "length ss = length rs"
    by (cases ?run) (auto simp: rs_def)
  have ids: "\<exists>i. dig r [''id''] = Inr (PStr i)" if "r \<in> set rs" for r
    using that by (auto simp: rs_def demo_balancer_def py_getitem_def dict_item_def)
  from stats_read_once [OF ids r n(2)] obtain readings ss2 where
    len: "length readings = length rs"
    and run2: "stats_get_samples counting_client demo_svc_env bytes_out_pollster rs c1 7 = ((c1, 7), (ss2, Inr ()))"
    and eq: "map Inr ss2 = map2 (stats_sample demo_svc_env bytes_out_pollster) rs readings" by blast
  have "length ss2 = length rs" using arg_cong [OF eq, of length] len by simp
  then have "length ss2 = 2" by (simp add: rs_def)
  then show ?thesis using run2 n(1) unfolding rs_def by blast
qed

end
