(* ===== verification/Api_Meters.thy ===== *)
theory Api_Meters
  imports Api_Query Signature
begin

text \<open>
  The resources of the API (\<^verbatim>\<open>ceilometer/api/controllers/v2/\<close>): posting samples and statistics
  (\<^verbatim>\<open>meters.py\<close>, \<^verbatim>\<open>statistics.py\<close>), samples (\<^verbatim>\<open>samples.py\<close>), meters (\<^verbatim>\<open>metertypes.py\<close>) and resources
  (\<^verbatim>\<open>resources.py\<close>).

  A record of the storage is the dictionary of its attributes. The storage connection, the
  notifier and the parsers of the libraries are parameters.
\<close>

section \<open>Filters\<close>

definition sample_filter_args :: "string list" where
  "sample_filter_args =
     [''self'', ''user'', ''project'', ''start_timestamp'', ''start_timestamp_op'', ''end_timestamp'', ''end_timestamp_op'',
      ''resource'', ''meter'', ''source'', ''message_id'', ''metaquery'']"

text \<open>\<open>SampleFilter(**kwargs)\<close>\<close>

definition filter_value :: "(string \<Rightarrow> int res) \<Rightarrow> pymap \<Rightarrow> string \<Rightarrow> pyval res" where
  "filter_value parse kw k =
     (let v = dict_get_default kw k PNone in
      if k \<in> {''start_timestamp'', ''end_timestamp''} then sanitize_timestamp parse v
      else if k = ''metaquery'' then Inr (py_or v (PDict [])) else Inr v)"

definition make_sample_filter :: "(string \<Rightarrow> int res) \<Rightarrow> pymap \<Rightarrow> pymap res" where
  "make_sample_filter parse kw =
     (if \<not> set (dict_keys kw) \<subseteq> set (tl sample_filter_args) then Inl TypeError
      else mapr (\<lambda>k. bindr (filter_value parse kw k) (\<lambda>v. Inr (k, v))) (tl sample_filter_args))"

section \<open>Posting samples\<close>

text \<open>The body of a request; an attribute that is not set is falsy, as \<open>None\<close>.\<close>

record posted =
  po_source :: "string option"
  po_name :: string
  po_type :: string
  po_unit :: string
  po_volume :: flt
  po_user :: "string option"
  po_project :: "string option"
  po_resource :: string
  po_timestamp :: "int option"
  po_metadata :: pymap
  po_message_id :: "string option"

text \<open>
  \<open>pe_parse\<close> reads an ISO time and normalises it; \<open>pe_uuid\<close> is the id that the \<open>k\<close>-th sample of a
  request is given.
\<close>

record post_env =
  pe_request :: api_request
  pe_source :: string
  pe_secret :: string
  pe_hmac :: "string \<Rightarrow> string \<Rightarrow> string"
  pe_repr :: "pyval \<Rightarrow> string"
  pe_now :: int
  pe_isoformat :: "int \<Rightarrow> string"
  pe_parse :: "string \<Rightarrow> int res"
  pe_uuid :: "nat \<Rightarrow> string"
  pe_bool :: "string \<Rightarrow> bool"

definition or_text :: "string option \<Rightarrow> string option \<Rightarrow> string option" where
  "or_text a b = (if a = None \<or> a = Some [] then b else a)"

definition text_or_None :: "string option \<Rightarrow> string" where
  "text_or_None s = (case s of None \<Rightarrow> ''None'' | Some t \<Rightarrow> t)"

definition check_posted :: "string \<Rightarrow> posted \<Rightarrow> unit res" where
  "check_posted meter_name s =
     (if meter_name \<noteq> po_name s then Inl (InvalidInput ''counter_name'')
      else if po_message_id s \<noteq> None \<and> po_message_id s \<noteq> Some [] then Inl (InvalidInput ''message_id'')
      else if po_type s \<notin> {TYPE_GAUGE, TYPE_DELTA, TYPE_CUMULATIVE} then Inl (InvalidInput ''counter_type'')
      else Inr ())"

definition complete_posted :: "post_env \<Rightarrow> posted \<Rightarrow> posted" where
  "complete_posted env s =
     (let hs = headers (pe_request env); project = or_text (po_project s) (dict_get hs ''X-Project-Id'') in
      s\<lparr>po_user := or_text (po_user s) (dict_get hs ''X-User-Id''), po_project := project,
        po_source := Some (text_or_None project @ '':'' @ the (or_text (po_source s) (Some (pe_source env)))),
        po_timestamp := Some (case po_timestamp s of None \<Rightarrow> pe_now env | Some t \<Rightarrow> t)\<rparr>)"

definition posted_sample :: "post_env \<Rightarrow> string \<Rightarrow> posted \<Rightarrow> sample res" where
  "posted_sample env uuid s =
     (case restore_nesting CHR ''.'' (po_metadata s) of
        None \<Rightarrow> Inl (OtherError ''RecursionError'')
      | Some md \<Rightarrow>
          Inr (new_sample (pe_source env) uuid (po_name s) (po_type s) (po_unit s) (PFloat (po_volume s)) (po_user s)
                 (po_project s) (po_resource s) (Some (pe_isoformat env (the (po_timestamp s)))) md (po_source s) None PNone))"

text \<open>What the loop does with a sample: the sample for the answer and its signed message.\<close>

definition prepare_posted :: "post_env \<Rightarrow> string \<Rightarrow> nat \<Rightarrow> posted \<Rightarrow> (posted \<times> pymap) res" where
  "prepare_posted env meter_name k s0 =
     bindr (check_posted meter_name s0) (\<lambda>_.
       (let s = complete_posted env s0; auth = get_limited_to_project (pe_request env) in
        if auth \<noteq> None \<and> auth \<noteq> Some [] \<and> auth \<noteq> po_project s then Inl (InvalidInput ''project_id'')
        else bindr (posted_sample env (pe_uuid env k) s) (\<lambda>p.
             bindr (meter_message_from_counter (pe_hmac env) (pe_repr env) p (pe_secret env)) (\<lambda>m.
               Inr (s\<lparr>po_message_id := Some (s_id p)\<rparr>, m)))))"

definition stored_message :: "post_env \<Rightarrow> pymap \<Rightarrow> pymap res" where
  "stored_message env m =
     (case dict_get m ''timestamp'' of
        Some (PStr t) \<Rightarrow> bindr (pe_parse env t) (\<lambda>ts. Inr (dict_set ''timestamp'' (PDatetime ts) m))
      | _ \<Rightarrow> Inl TypeError)"

text \<open>The loop: a sample is stored at once, or kept for the notification.\<close>

fun post_loop ::
  "post_env \<Rightarrow> (pymap \<Rightarrow> 'w \<Rightarrow> 'w \<times> unit res) \<Rightarrow> bool \<Rightarrow> string \<Rightarrow> nat \<Rightarrow> posted list \<Rightarrow> 'w \<Rightarrow>
   'w \<times> (posted \<times> pymap) list res" where
  "post_loop env store direct meter_name k [] w = (w, Inr [])"
| "post_loop env store direct meter_name k (s # ss) w =
     (case prepare_posted env meter_name k s of
        Inl e \<Rightarrow> (w, Inl e)
      | Inr (s', m) \<Rightarrow>
          (case (if direct then (case stored_message env m of Inl e \<Rightarrow> (w, Inl e) | Inr m' \<Rightarrow> store m' w) else (w, Inr ())) of
             (w1, Inl e) \<Rightarrow> (w1, Inl e)
           | (w1, Inr _) \<Rightarrow>
               (case post_loop env store direct meter_name (Suc k) ss w1 of
                  (w2, r) \<Rightarrow> (w2, bindr r (\<lambda>xs. Inr ((s', m) # xs))))))"

definition post_samples ::
  "post_env \<Rightarrow> (pymap \<Rightarrow> 'w \<Rightarrow> 'w \<times> unit res) \<Rightarrow> (pymap list \<Rightarrow> 'w \<Rightarrow> 'w \<times> unit res) \<Rightarrow> string \<Rightarrow> string \<Rightarrow> posted list \<Rightarrow> 'w \<Rightarrow>
   'w \<times> posted list res" where
  "post_samples env store notify meter_name direct_arg samples w =
     (case rbac_enforce (pe_request env) ''create_samples'' of
        Inl e \<Rightarrow> (w, Inl e)
      | Inr _ \<Rightarrow>
          (let direct = pe_bool env direct_arg in
           if samples = [] then (w, Inl (ClientSideError ''Samples should be included in request body''))
           else case post_loop env store direct meter_name 0 samples w of
             (w1, Inl e) \<Rightarrow> (w1, Inl e)
           | (w1, Inr xs) \<Rightarrow>
               (if direct then (w1, Inr (map fst xs))
                else case notify (map snd xs) w1 of (w2, r) \<Rightarrow> (w2, bindr r (\<lambda>_. Inr (map fst xs))))))"

section \<open>Statistics\<close>

text \<open>\<open>Statistics._update_duration\<close>: times in microseconds, the duration in seconds.\<close>

definition update_duration ::
  "int option \<Rightarrow> int option \<Rightarrow> int option \<Rightarrow> int option \<Rightarrow> int option \<times> int option \<times> rat option" where
  "update_duration start_timestamp end_timestamp duration_start duration_end =
     (let ds = (case (start_timestamp, duration_start) of (Some s, Some d) \<Rightarrow> Some (if d < s then s else d) | _ \<Rightarrow> duration_start);
          de = (case (end_timestamp, duration_end) of (Some e, Some d) \<Rightarrow> Some (if d > e then e else d) | _ \<Rightarrow> duration_end)
      in case (ds, de) of
           (Some a, Some b) \<Rightarrow> if a \<le> b then (ds, de, Some (of_int (b - a) / 1000000)) else (None, None, None)
         | _ \<Rightarrow> (None, None, None))"

text \<open>What the storage computes, and what the API shows of it.\<close>

record computed =
  co_data :: pymap
  co_duration_start :: "int option"
  co_duration_end :: "int option"

record api_statistics =
  as_data :: pymap
  as_duration_start :: "int option"
  as_duration_end :: "int option"
  as_duration :: "rat option"

definition to_statistics :: "int option \<Rightarrow> int option \<Rightarrow> computed \<Rightarrow> api_statistics" where
  "to_statistics start_timestamp end_timestamp c =
     (case update_duration start_timestamp end_timestamp (co_duration_start c) (co_duration_end c) of
        (ds, de, d) \<Rightarrow> \<lparr>as_data = co_data c, as_duration_start = ds, as_duration_end = de, as_duration = d\<rparr>)"

text \<open>The range of the query for clamping: the last bound of each side.\<close>

fun query_range :: "qenv \<Rightarrow> query list \<Rightarrow> int option \<Rightarrow> int option \<Rightarrow> (int option \<times> int option) res" where
  "query_range env [] start end' = Inr (start, end')"
| "query_range env (q # qs) start end' =
     (if q_field q = ''timestamp'' \<and> q_op q \<in> {Lt, Le}
      then bindr (naive_isotime env (q_value q)) (\<lambda>t. query_range env qs start (Some t))
      else if q_field q = ''timestamp'' \<and> q_op q \<in> {Gt, Ge}
      then bindr (naive_isotime env (q_value q)) (\<lambda>t. query_range env qs (Some t) end')
      else query_range env qs start end')"

record api_aggregate =
  ag_func :: string
  ag_param :: "string option"

definition selectable_aggregates :: "string list" where
  "selectable_aggregates = [''max'', ''min'', ''sum'', ''avg'', ''count'', ''stddev'', ''cardinality'']"

definition validate_aggregate :: "api_aggregate \<Rightarrow> api_aggregate res" where
  "validate_aggregate a =
     (if ag_func a \<notin> set selectable_aggregates then Inl (ClientSideError ''Invalid aggregation function'') else Inr a)"

definition aggregate_attr :: "api_aggregate \<Rightarrow> string \<Rightarrow> string option" where
  "aggregate_attr a k = (if k = ''func'' then Some (ag_func a) else ag_param a)"

definition groupby_fields :: "string list" where
  "groupby_fields = [''user_id'', ''resource_id'', ''project_id'', ''source'', ''resource_metadata.instance_type'']"

text \<open>
  \<open>_validate_groupby_fields\<close>. The list of a set has no order that the program could rely on; the
  model keeps the order of the request.
\<close>

definition validate_groupby_fields :: "string list \<Rightarrow> string list res" where
  "validate_groupby_fields fs =
     (if set fs \<subseteq> set groupby_fields then Inr (remdups fs) else Inl (UnknownArgument ''Invalid groupby fields''))"

definition OverflowError :: pyexc where "OverflowError = OtherError ''OverflowError''"

type_synonym statistics_of = "pymap \<Rightarrow> int option \<Rightarrow> string list \<Rightarrow> api_aggregate list \<Rightarrow> computed list res"

text \<open>
  \<open>statistics\<close> of a meter, and of a list of meters. The arguments are checked in the order of the
  code; an overflow of the period is the client's error, or an empty answer for a list of
  meters.
\<close>

definition meter_statistics ::
  "qenv \<Rightarrow> (string \<Rightarrow> int res) \<Rightarrow> api_request \<Rightarrow> statistics_of \<Rightarrow> string \<Rightarrow> query list \<Rightarrow> string list \<Rightarrow> int option \<Rightarrow>
   api_aggregate list \<Rightarrow> api_statistics list res" where
  "meter_statistics env parse rq conn meter_name q grp period aggregate =
     bindr (rbac_enforce rq ''compute_statistics'') (\<lambda>_.
       if (case period of None \<Rightarrow> False | Some p \<Rightarrow> p < 0) then Inl (ClientSideError ''Period must be positive.'')
       else
         bindr (query_to_kwargs env rq q sample_filter_args [] True) (\<lambda>kw.
         bindr (make_sample_filter parse (dict_set ''meter'' (PStr meter_name) kw)) (\<lambda>f.
         bindr (validate_groupby_fields grp) (\<lambda>g.
         bindr (query_range env q None None) (\<lambda>(start, end').
           (case conn f period g (uniq aggregate_attr aggregate [''func'', ''param'']) of
              Inl e \<Rightarrow> Inl (if e = OverflowError then ClientSideError ''Invalid period'' else e)
            | Inr cs \<Rightarrow> Inr (map (to_statistics start end') cs)))))))"

definition scoped_statistics ::
  "qenv \<Rightarrow> (string \<Rightarrow> int res) \<Rightarrow> api_request \<Rightarrow> statistics_of \<Rightarrow> string list \<Rightarrow> query list \<Rightarrow> string list \<Rightarrow> int option \<Rightarrow>
   api_aggregate list \<Rightarrow> api_statistics list res" where
  "scoped_statistics env parse rq conn meters q grp period aggregate =
     bindr (rbac_enforce rq ''compute_statistics'') (\<lambda>_.
       if (case period of None \<Rightarrow> False | Some p \<Rightarrow> p < 0) then Inl (ClientSideError ''Period must be positive.'')
       else
         bindr (validate_groupby_fields grp) (\<lambda>g.
         bindr (query_to_kwargs env rq q sample_filter_args [] True) (\<lambda>kw.
         bindr (query_range env q None None) (\<lambda>(start, end').
         bindr (make_sample_filter parse (dict_set ''meter'' (PList (map PStr meters)) kw)) (\<lambda>f.
           (case conn f period g (uniq aggregate_attr aggregate [''func'', ''param'']) of
              Inl e \<Rightarrow> if e = OverflowError then Inr [] else Inl e
            | Inr cs \<Rightarrow> Inr (map (to_statistics start end') cs)))))))"

section \<open>What is posted\<close>

lemma case_sum_Inr_iff [simp]: "(case r of Inl e \<Rightarrow> Inl (h e) | Inr x \<Rightarrow> Inr (g x)) = Inr y \<longleftrightarrow> (\<exists>x. r = Inr x \<and> g x = y)"
  by (cases r) auto

lemma signed_message_get:
  "meter_message_from_counter hmac rp p secret = Inr m \<Longrightarrow> k \<noteq> SIG \<Longrightarrow> dict_get m k = dict_get (counter_message p) k"
  by (auto simp: meter_message_from_counter_def sign_def bindr_Inr_iff dict_get_set)

lemma prepare_posted_fields:
  assumes "prepare_posted env meter_name k s = Inr (s', m)"
    and "get_limited_to_project (pe_request env) = Some p" and "p \<noteq> []"
  shows "dict_get m ''project_id'' = Some (PStr p) \<and> dict_get m ''counter_name'' = Some (PStr meter_name) \<and>
    (\<exists>src. dict_get m ''source'' = Some (PStr (p @ '':'' @ src))) \<and> po_project s' = Some p"
proof -
  let ?s = "complete_posted env s"
  obtain q where c: "check_posted meter_name s = Inr ()" and pr: "po_project ?s = Some p"
    and q: "posted_sample env (pe_uuid env k) ?s = Inr q" and s': "s' = ?s\<lparr>po_message_id := Some (s_id q)\<rparr>"
    and m: "meter_message_from_counter (pe_hmac env) (pe_repr env) q (pe_secret env) = Inr m"
    using assms by (auto simp: prepare_posted_def bindr_Inr_iff Let_def split: if_splits)
  have "s_project_id q = Some p" "s_name q = meter_name" "\<exists>src. s_source q = p @ '':'' @ src"
    using q pr c
    by (auto simp: posted_sample_def check_posted_def complete_posted_def Let_def new_sample_def or_default_def text_or_None_def
        split: option.splits if_splits)
  then show ?thesis
    using signed_message_get [OF m] pr s' by (auto simp: counter_message_def opt_str_def SIG_def)
qed

text \<open>A store and a notifier that remember what they were given, whatever they answer.\<close>

abbreviation remember :: "(pymap \<Rightarrow> unit res) \<Rightarrow> pymap \<Rightarrow> pymap list \<Rightarrow> pymap list \<times> unit res" where
  "remember ok m w \<equiv> (w @ [m], ok m)"

abbreviation remember_all :: "(pymap list \<Rightarrow> unit res) \<Rightarrow> pymap list \<Rightarrow> pymap list \<Rightarrow> pymap list \<times> unit res" where
  "remember_all ok ms w \<equiv> (w @ ms, ok ms)"

definition of_project :: "string \<Rightarrow> string \<Rightarrow> pymap \<Rightarrow> bool" where
  "of_project p meter_name m \<longleftrightarrow>
     dict_get m ''project_id'' = Some (PStr p) \<and> dict_get m ''counter_name'' = Some (PStr meter_name) \<and>
     (\<exists>src. dict_get m ''source'' = Some (PStr (p @ '':'' @ src)))"

lemma stored_of_project: "stored_message env m = Inr m' \<Longrightarrow> of_project p n m \<Longrightarrow> of_project p n m'"
  by (auto simp: stored_message_def of_project_def dict_get_set bindr_Inr_iff split: option.splits pyval.splits)

lemma post_loop_of_project:
  assumes "get_limited_to_project (pe_request env) = Some p" and "p \<noteq> []"
  shows "\<exists>new r. post_loop env (remember ok) direct meter_name k ss w = (w @ new, r) \<and> list_all (of_project p meter_name) new \<and>
    (\<forall>xs. r = Inr xs \<longrightarrow> list_all (of_project p meter_name) (map snd xs)) \<and> (\<not> direct \<longrightarrow> new = [])"
proof (induction ss arbitrary: k w)
  case (Cons s ss)
  show ?case
  proof (cases "prepare_posted env meter_name k s")
    case (Inr sm)
    obtain s' m where sm: "prepare_posted env meter_name k s = Inr (s', m)" using Inr by (cases sm) auto
    have m: "of_project p meter_name m" using prepare_posted_fields [OF sm assms] by (simp add: of_project_def)
    show ?thesis
    proof (cases "direct \<and> is_ok (stored_message env m)")
      case True
      then obtain m' where m': "stored_message env m = Inr m'" by (auto simp: is_ok_iff)
      have ok': "of_project p meter_name m'" by (rule stored_of_project [OF m' m])
      obtain new r where IH: "post_loop env (remember ok) direct meter_name (Suc k) ss (w @ [m']) = ((w @ [m']) @ new, r)"
        "list_all (of_project p meter_name) new" "\<forall>xs. r = Inr xs \<longrightarrow> list_all (of_project p meter_name) (map snd xs)"
        using Cons.IH [of "Suc k" "w @ [m']"] by blast
      show ?thesis
        using True IH m ok' by (cases "ok m'"; cases r) (simp_all add: sm m')
    next
      case False
      then show ?thesis using Cons.IH [of "Suc k" w] m
        by (cases "stored_message env m") (auto simp: sm bindr_Inr_iff)
    qed
  qed simp
qed simp

text \<open>
  C25: A tenant posts samples to its own project only. When the policy limits a request to a project,
  every message that reaches the storage or the notifier is a sample of that project and of the
  meter of the URL, and its source begins with the project, whatever the samples of the body
  say; this holds for the samples before a refused one, too.
\<close>

theorem posts_stay_in_project:
  assumes "get_limited_to_project (pe_request env) = Some p" and "p \<noteq> []"
  shows "\<exists>new. fst (post_samples env (remember ok) (remember_all okn) meter_name direct_arg samples w) = w @ new \<and>
    list_all (of_project p meter_name) new"
proof -
  let ?d = "pe_bool env direct_arg"
  obtain new r where loop: "post_loop env (remember ok) ?d meter_name 0 samples w = (w @ new, r)"
    "list_all (of_project p meter_name) new" "\<forall>xs. r = Inr xs \<longrightarrow> list_all (of_project p meter_name) (map snd xs)"
    "\<not> ?d \<longrightarrow> new = []"
    using post_loop_of_project [OF assms] by blast
  show ?thesis
  proof (cases r)
    case (Inl e)
    then show ?thesis using loop(1,2) by (auto simp: post_samples_def Let_def split: sum.split)
  next
    case (Inr xs)
    then show ?thesis using loop by (auto simp: post_samples_def Let_def split: sum.split)
  qed
qed

text \<open>
  C26: Samples that are not stored directly are published together or not at all: the request is the same
  as preparing every sample first and notifying of all messages at the end, in one notification
  and in the order of the body, so a refused sample leaves nothing behind.
\<close>

theorem post_is_atomic:
  assumes "\<not> pe_bool env direct_arg" and "samples \<noteq> []" and "rbac_enforce (pe_request env) ''create_samples'' = Inr ()"
  shows "post_samples env store notify meter_name direct_arg samples w =
    (case mapr (\<lambda>(k, s). prepare_posted env meter_name k s) (enumerate 0 samples) of
       Inl e \<Rightarrow> (w, Inl e)
     | Inr xs \<Rightarrow> (case notify (map snd xs) w of (w2, r) \<Rightarrow> (w2, bindr r (\<lambda>_. Inr (map fst xs)))))"
proof -
  have "post_loop env store False meter_name k ss w = (w, mapr (\<lambda>(k, s). prepare_posted env meter_name k s) (enumerate k ss))" for k ss
    by (induction ss arbitrary: k) (auto split: sum.split)
  then show ?thesis using assms by (simp add: post_samples_def Let_def split: sum.split)
qed

text \<open>
  C27: The duration of statistics lies in the range of the query. A statistic either has no duration, or
  its start is not after its end, both are within the bounds that the query gives, and the
  duration is their difference in seconds.
\<close>

theorem durations_within_range:
  assumes "meter_statistics env parse rq conn meter_name q grp period aggregate = Inr stats" and "s \<in> set stats"
  shows "\<exists>start end'. query_range env q None None = Inr (start, end') \<and>
    (case (as_duration_start s, as_duration_end s) of
       (None, None) \<Rightarrow> as_duration s = None
     | (Some a, Some b) \<Rightarrow> as_duration s = Some (of_int (b - a) / 1000000) \<and> a \<le> b \<and>
         (case start of None \<Rightarrow> True | Some t \<Rightarrow> t \<le> a) \<and> (case end' of None \<Rightarrow> True | Some t \<Rightarrow> b \<le> t)
     | _ \<Rightarrow> False)"
proof -
  obtain start end' c where r: "query_range env q None None = Inr (start, end')" and s: "s = to_statistics start end' c"
    using assms by (auto simp: meter_statistics_def bindr_Inr_iff split: if_splits)
  show ?thesis unfolding s using r
    by (cases start; cases end'; cases "co_duration_start c"; cases "co_duration_end c")
       (auto simp: to_statistics_def update_duration_def Let_def)
qed

section \<open>Examples\<close>

definition demo_post_env :: post_env where
  "demo_post_env = \<lparr>pe_request = demo_request, pe_source = ''openstack'', pe_secret = ''secret'', pe_hmac = (\<lambda>k x. ''ab''),
     pe_repr = (\<lambda>v. ''?''), pe_now = 0, pe_isoformat = (\<lambda>t. ''1970-01-01T00:00:00''), pe_parse = (\<lambda>s. Inr 0),
     pe_uuid = (\<lambda>k. ''uuid''), pe_bool = (\<lambda>s. s = ''True'')\<rparr>"

definition demo_posted :: "string \<Rightarrow> string option \<Rightarrow> posted" where
  "demo_posted name project = \<lparr>po_source = None, po_name = name, po_type = TYPE_GAUGE, po_unit = ''%'', po_volume = Fin 1,
     po_user = None, po_project = project, po_resource = ''vm'', po_timestamp = None, po_metadata = [], po_message_id = None\<rparr>"

theorem posts_stay_in_project_witness:
  "\<exists>m. fst (post_samples demo_post_env (remember (\<lambda>m. Inr ())) (remember_all (\<lambda>ms. Inr ())) ''cpu'' ''True''
             [demo_posted ''cpu'' None, demo_posted ''cpu'' (Some ''p2'')] []) = [m] \<and> of_project ''p1'' ''cpu'' m"
proof -
  let ?run = "post_samples demo_post_env (remember (\<lambda>m. Inr ())) (remember_all (\<lambda>ms. Inr ())) ''cpu'' ''True''
             [demo_posted ''cpu'' None, demo_posted ''cpu'' (Some ''p2'')] []"
  have p: "get_limited_to_project (pe_request demo_post_env) = Some ''p1''" by code_simp
  have n: "length (fst ?run) = 1" by code_simp
  obtain new where "fst ?run = [] @ new" "list_all (of_project ''p1'' ''cpu'') new"
    using posts_stay_in_project [OF p, of "\<lambda>m. Inr ()" "\<lambda>ms. Inr ()"] by blast
  then show ?thesis using n by (cases new) auto
qed

text \<open>Direct storage is not atomic: the first of two samples stays although the second is refused.\<close>

lemma direct_post_is_partial:
  "snd (post_samples demo_post_env (remember (\<lambda>m. Inr ())) (remember_all (\<lambda>ms. Inr ())) ''cpu'' ''True''
          [demo_posted ''cpu'' None, demo_posted ''cpu'' (Some ''p2'')] []) = Inl (InvalidInput ''project_id'') \<and>
   fst (post_samples demo_post_env (remember (\<lambda>m. Inr ())) (remember_all (\<lambda>ms. Inr ())) ''cpu'' ''True''
          [demo_posted ''cpu'' None, demo_posted ''cpu'' (Some ''p2'')] []) \<noteq> []"
  by code_simp

theorem post_is_atomic_witness:
  "post_samples demo_post_env (remember (\<lambda>m. Inr ())) (remember_all (\<lambda>ms. Inr ())) ''cpu'' []
     [demo_posted ''cpu'' None, demo_posted ''cpu'' (Some ''p2'')] [] = ([], Inl (InvalidInput ''project_id''))"
proof -
  let ?ss = "[demo_posted ''cpu'' None, demo_posted ''cpu'' (Some ''p2'')]"
  have b: "\<not> pe_bool demo_post_env []" by (simp add: demo_post_env_def)
  have r: "rbac_enforce (pe_request demo_post_env) ''create_samples'' = Inr ()" by code_simp
  have m: "mapr (\<lambda>(k, s). prepare_posted demo_post_env ''cpu'' k s) (enumerate 0 ?ss) = Inl (InvalidInput ''project_id'')"
    by code_simp
  have "?ss \<noteq> []" by simp
  from post_is_atomic [OF b this r, where store = "remember (\<lambda>m. Inr ())" and notify = "remember_all (\<lambda>ms. Inr ())"
      and meter_name = "''cpu''" and w = "[]", unfolded m]
  show ?thesis by (simp only: sum.case)
qed

definition demo_computed :: computed where
  "demo_computed = \<lparr>co_data = [], co_duration_start = Some 1000000, co_duration_end = Some 9000000\<rparr>"

theorem durations_within_range_witness:
  "\<exists>s. meter_statistics demo_qenv (\<lambda>s. Inr 0) demo_request (\<lambda>f p g a. Inr [demo_computed]) ''cpu'' [] [] None [] = Inr [s] \<and>
     as_duration s = Some 8"
proof -
  let ?run = "meter_statistics demo_qenv (\<lambda>s. Inr 0) demo_request (\<lambda>f p g a. Inr [demo_computed]) ''cpu'' [] [] None []"
  have "case ?run of Inr [s] \<Rightarrow> as_duration_start s = Some 1000000 \<and> as_duration_end s = Some 9000000 | _ \<Rightarrow> False" by code_simp
  then obtain s where s: "?run = Inr [s]" "as_duration_start s = Some 1000000" "as_duration_end s = Some 9000000"
    by (auto split: sum.splits list.splits)
  from durations_within_range [OF s(1), of s] s show ?thesis by auto
qed

end
