(* ===== verification/Api_Resources.thy ===== *)
theory Api_Resources
  imports Api_Meters
begin

text \<open>
  What the API shows of meters, samples and resources: \<^verbatim>\<open>MetersController\<close> and the ids of meters
  (\<^verbatim>\<open>meters.py\<close>), \<^verbatim>\<open>metertypes.py\<close>, \<^verbatim>\<open>samples.py\<close> and \<^verbatim>\<open>resources.py\<close>.

  The function of the storage connection that an operation calls is a parameter, with its
  arguments as a dictionary.
\<close>

section \<open>Base64\<close>

definition b64_alphabet :: string where
  "b64_alphabet = ''ABCDEFGHIJKLMNOPQRSTUVWXYZabcdefghijklmnopqrstuvwxyz0123456789+/''"

definition b64_digit :: "nat \<Rightarrow> char" where
  "b64_digit n = b64_alphabet ! (n mod 64)"

definition byte :: "char \<Rightarrow> nat" where
  "byte c = of_char c"

fun b64encode :: "string \<Rightarrow> string" where
  "b64encode [] = []"
| "b64encode [a] = [b64_digit (byte a div 4), b64_digit (byte a * 16), CHR ''='', CHR ''='']"
| "b64encode [a, b] =
     [b64_digit (byte a div 4), b64_digit (byte a * 16 + byte b div 16), b64_digit (byte b * 4), CHR ''='']"
| "b64encode (a # b # c # cs) =
     b64_digit (byte a div 4) # b64_digit (byte a * 16 + byte b div 16) # b64_digit (byte b * 4 + byte c div 64) #
     b64_digit (byte c) # b64encode cs"

section \<open>Meters\<close>

text \<open>\<open>meter_id\<close> of \<open>Meter\<close>: the resource and the name, joined by a plus sign.\<close>

definition meter_id :: "string \<Rightarrow> string \<Rightarrow> string" where
  "meter_id resource_id name = b64encode (utf8_encode (resource_id @ ''+'' @ name))"

record api_meter =
  am_id :: string
  am_attributes :: pymap

definition meter_from_db :: "(pyval \<Rightarrow> string) \<Rightarrow> pymap \<Rightarrow> api_meter res" where
  "meter_from_db rp m =
     bindr (dict_item m ''resource_id'') (\<lambda>r.
     bindr (dict_item m ''name'') (\<lambda>n.
       Inr \<lparr>am_id = meter_id (py_str rp r) (py_str rp n), am_attributes = m\<rparr>))"

text \<open>\<open>Meter.__eq__\<close>\<close>

definition same_meter :: "api_meter \<Rightarrow> api_meter \<Rightarrow> bool" where
  "same_meter a b \<longleftrightarrow> am_id a = am_id b"

type_synonym conn_call = "pymap \<Rightarrow> pymap list res"

text \<open>The arguments of the functions of the SQL storage, the one that the product uses.\<close>

definition meters_args :: "string list" where
  "meters_args =
     [''self'', ''user'', ''project'', ''resource'', ''source'', ''meter'', ''metaquery'', ''limit'', ''unique'']"

definition meters_get_all ::
  "qenv \<Rightarrow> (string \<Rightarrow> bool) \<Rightarrow> (pyval \<Rightarrow> string) \<Rightarrow> api_request \<Rightarrow> conn_call \<Rightarrow> query list \<Rightarrow> int option \<Rightarrow> string \<Rightarrow>
   api_meter list res" where
  "meters_get_all env bool_of rp rq get_meters q limit unique =
     bindr (rbac_enforce rq ''get_meters'') (\<lambda>_.
     bindr (enforce_limit rq limit) (\<lambda>l.
     bindr (query_to_kwargs env rq q meters_args [''limit''] False) (\<lambda>kw.
       if dict_get kw ''unique'' \<noteq> None then Inl TypeError
       else bindr (get_meters ([(''limit'', PInt l), (''unique'', PBool (bool_of unique))] @ kw)) (mapr (meter_from_db rp)))))"

text \<open>\<open>MeterTypesController.get_all\<close>; a type of meter is its name, type and unit.\<close>

definition metertypes_args :: "string list" where
  "metertypes_args = [''self'', ''user'', ''project'', ''resource'', ''source'', ''metaquery'', ''limit'']"

definition metertypes_get_all :: "qenv \<Rightarrow> api_request \<Rightarrow> conn_call \<Rightarrow> query list \<Rightarrow> int option \<Rightarrow> pymap list res" where
  "metertypes_get_all env rq get_meter_types q limit =
     bindr (rbac_enforce rq ''get_meters'') (\<lambda>_.
     bindr (enforce_limit rq limit) (\<lambda>l.
     bindr (query_to_kwargs env rq q metertypes_args [''limit''] False) (\<lambda>kw.
       get_meter_types ((''limit'', PInt l) # kw))))"

section \<open>Samples\<close>

text \<open>\<open>OldSample\<close> and \<open>Sample.from_db_model\<close>: metadata flattened, attributes renamed.\<close>

definition metadata_of :: "pyval \<Rightarrow> pymap res" where
  "metadata_of v = (if \<not> truthy v then Inr [] else case v of PDict d \<Rightarrow> Inr d | _ \<Rightarrow> Inl (AttributeError ''items''))"

definition old_sample_from_db :: "(pyval \<Rightarrow> string) \<Rightarrow> pymap \<Rightarrow> pymap res" where
  "old_sample_from_db rp m =
     bindr (metadata_of (dict_get_default m ''resource_metadata'' PNone)) (\<lambda>md.
     bindr (case dict_get_default m ''counter_volume'' PNone of
              PNone \<Rightarrow> Inr PNone | v \<Rightarrow> bindr (py_float v) (\<lambda>f. Inr (PFloat f))) (\<lambda>volume.
     bindr (flatten_metadata rp md) (\<lambda>flat.
       Inr (dict_set ''resource_metadata'' (PDict flat) (dict_set ''counter_volume'' volume m)))))"

definition sample_names :: "(string \<times> string) list" where
  "sample_names =
     [(''id'', ''message_id''), (''meter'', ''counter_name''), (''type'', ''counter_type''), (''unit'', ''counter_unit''),
      (''volume'', ''counter_volume''), (''user_id'', ''user_id''), (''project_id'', ''project_id''),
      (''resource_id'', ''resource_id''), (''source'', ''source''), (''timestamp'', ''timestamp''),
      (''recorded_at'', ''recorded_at'')]"

definition sample_from_db :: "(pyval \<Rightarrow> string) \<Rightarrow> pymap \<Rightarrow> pymap res" where
  "sample_from_db rp m =
     bindr (mapr (\<lambda>(k, f). case dict_get m f of None \<Rightarrow> Inl (AttributeError f) | Some v \<Rightarrow> Inr (k, v)) sample_names) (\<lambda>kvs.
     bindr (case dict_get m ''resource_metadata'' of None \<Rightarrow> Inl (AttributeError ''resource_metadata'') | Some v \<Rightarrow> metadata_of v) (\<lambda>md.
     bindr (flatten_metadata rp md) (\<lambda>flat. Inr (kvs @ [(''metadata'', PDict flat)]))))"

type_synonym sample_call = "pymap \<Rightarrow> int option \<Rightarrow> pymap list res"

text \<open>\<open>MeterController.get_all\<close> and \<open>SamplesController.get_all\<close>\<close>

definition meter_get_samples ::
  "qenv \<Rightarrow> (string \<Rightarrow> int res) \<Rightarrow> (pyval \<Rightarrow> string) \<Rightarrow> api_request \<Rightarrow> sample_call \<Rightarrow> string \<Rightarrow> query list \<Rightarrow> int option \<Rightarrow>
   pymap list res" where
  "meter_get_samples env parse rp rq get_samples meter_name q limit =
     bindr (rbac_enforce rq ''get_samples'') (\<lambda>_.
     bindr (enforce_limit rq limit) (\<lambda>l.
     bindr (query_to_kwargs env rq q sample_filter_args [] True) (\<lambda>kw.
     bindr (make_sample_filter parse (dict_set ''meter'' (PStr meter_name) kw)) (\<lambda>f.
     bindr (get_samples f (Some l)) (mapr (old_sample_from_db rp))))))"

definition samples_get_all ::
  "qenv \<Rightarrow> (string \<Rightarrow> int res) \<Rightarrow> (pyval \<Rightarrow> string) \<Rightarrow> api_request \<Rightarrow> sample_call \<Rightarrow> query list \<Rightarrow> int option \<Rightarrow> pymap list res" where
  "samples_get_all env parse rp rq get_samples q limit =
     bindr (rbac_enforce rq ''get_samples'') (\<lambda>_.
     bindr (enforce_limit rq limit) (\<lambda>l.
     bindr (query_to_kwargs env rq q sample_filter_args [] True) (\<lambda>kw.
     bindr (make_sample_filter parse kw) (\<lambda>f.
     bindr (get_samples f (Some l)) (mapr (sample_from_db rp))))))"

definition EntityNotFound :: "string \<Rightarrow> pyexc" where
  "EntityNotFound entity = ClientSideError (entity @ '' Not Found'')"

definition samples_get_one ::
  "(string \<Rightarrow> int res) \<Rightarrow> (pyval \<Rightarrow> string) \<Rightarrow> api_request \<Rightarrow> sample_call \<Rightarrow> string \<Rightarrow> pymap res" where
  "samples_get_one parse rp rq get_samples sample_id =
     bindr (rbac_enforce rq ''get_sample'') (\<lambda>_.
     bindr (make_sample_filter parse [(''message_id'', PStr sample_id)]) (\<lambda>f.
     bindr (get_samples f None) (\<lambda>ss.
       (case ss of [] \<Rightarrow> Inl (EntityNotFound ''Sample'') | s # _ \<Rightarrow> sample_from_db rp s))))"

section \<open>Resources\<close>

record api_link =
  li_href :: string
  li_rel :: string

definition make_link :: "string \<Rightarrow> string \<Rightarrow> string \<Rightarrow> string \<Rightarrow> (string \<times> string) option \<Rightarrow> api_link" where
  "make_link rel_name url type type_arg q =
     (let query_str = (case q of None \<Rightarrow> [] | Some (field, value) \<Rightarrow> ''?q.field='' @ field @ ''&q.value='' @ value)
      in \<lparr>li_href = url @ ''/v2/'' @ type @ ''/'' @ type_arg @ query_str, li_rel = rel_name\<rparr>)"

record resource_env =
  re_url :: string
  re_repr :: "pyval \<Rightarrow> string"
  re_literal_eval :: "string \<Rightarrow> pyval res"
  re_unquote :: "string \<Rightarrow> string"
  re_get_meters :: conn_call
  re_get_resources :: conn_call
  re_get_resources_batch :: "pyval \<Rightarrow> pymap list res"

definition resource_links :: "resource_env \<Rightarrow> string \<Rightarrow> bool \<Rightarrow> api_link list res" where
  "resource_links env resource_id meter_links =
     (let self_link = make_link ''self'' (re_url env) ''resources'' resource_id None in
      if \<not> meter_links then Inr [self_link]
      else bindr (re_get_meters env [(''resource'', PStr resource_id)]) (\<lambda>ms.
           bindr (mapr (\<lambda>m. bindr (dict_item m ''name'') (\<lambda>n.
             (let name = py_str (re_repr env) n
              in Inr (make_link name (re_url env) ''meters'' name (Some (''resource_id'', resource_id)))))) ms)
           (\<lambda>ls. Inr (self_link # ls))))"

record api_resource =
  ar_attributes :: pymap
  ar_links :: "api_link list"

text \<open>\<open>Resource.from_db_and_links\<close>: the metadata flattened.\<close>

definition resource_from_db :: "resource_env \<Rightarrow> pymap \<Rightarrow> api_link list \<Rightarrow> api_resource res" where
  "resource_from_db env m links =
     bindr (metadata_of (dict_get_default m ''metadata'' PNone)) (\<lambda>md.
     bindr (flatten_metadata (re_repr env) md) (\<lambda>flat.
       Inr \<lparr>ar_attributes = dict_set ''metadata'' (PDict flat) m, ar_links = links\<rparr>))"

definition resources_get_one :: "resource_env \<Rightarrow> api_request \<Rightarrow> string \<Rightarrow> api_resource res" where
  "resources_get_one env rq arg =
     bindr (rbac_enforce rq ''get_resource'') (\<lambda>_.
       (let resource_id = re_unquote env arg in
        bindr (re_get_resources env [(''resource'', PStr resource_id), (''project'', opt_text (get_limited_to_project rq))]) (\<lambda>rs.
          (case rs of
             [] \<Rightarrow> Inl (EntityNotFound ''Resource'')
           | r # _ \<Rightarrow> bindr (resource_links env resource_id False) (resource_from_db env r)))))"

definition resources_args :: "string list" where
  "resources_args = [''self'', ''user'', ''project'', ''source'', ''start_timestamp'', ''start_timestamp_op'', ''end_timestamp'',
     ''end_timestamp_op'', ''metaquery'', ''resource'', ''limit'']"

definition show_resources :: "resource_env \<Rightarrow> bool \<Rightarrow> pymap list \<Rightarrow> api_resource list res" where
  "show_resources env meter_links rs =
     mapr (\<lambda>r. bindr (case dict_get r ''resource_id'' of None \<Rightarrow> Inl (AttributeError ''resource_id'') | Some v \<Rightarrow> Inr v) (\<lambda>i.
            bindr (resource_links env (py_str (re_repr env) i) meter_links) (resource_from_db env r))) rs"

text \<open>A single query on \<open>resource_ids\<close> names the resources itself.\<close>

definition batch_ids :: "resource_env \<Rightarrow> query list \<Rightarrow> pyval res" where
  "batch_ids env q =
     (case q of
        [i] \<Rightarrow> if q_field i = ''resource_ids'' then re_literal_eval env (q_value i) else Inr (PList [])
      | _ \<Rightarrow> Inr (PList []))"

definition resources_get_all ::
  "qenv \<Rightarrow> resource_env \<Rightarrow> api_request \<Rightarrow> query list \<Rightarrow> int option \<Rightarrow> bool \<Rightarrow> api_resource list res" where
  "resources_get_all qe env rq q limit meter_links =
     bindr (rbac_enforce rq ''get_resources'') (\<lambda>_.
     bindr (batch_ids env q) (\<lambda>ids.
       if truthy ids then bindr (re_get_resources_batch env ids) (show_resources env meter_links)
       else
         bindr (enforce_limit rq limit) (\<lambda>l.
         bindr (query_to_kwargs qe rq q resources_args [''limit''] True) (\<lambda>kw.
         bindr (re_get_resources env ((''limit'', PInt l) # kw)) (show_resources env meter_links)))))"

section \<open>Ids of meters\<close>

text \<open>The value of a digit of the alphabet.\<close>

definition b64_value :: "char \<Rightarrow> nat" where
  "b64_value c = length (takeWhile (\<lambda>d. d \<noteq> c) b64_alphabet)"

lemma b64_value_digit: "b64_value (b64_digit n) = n mod 64"
proof -
  have "\<forall>i \<in> set [0..<64]. b64_value (b64_alphabet ! i) = i" by code_simp
  moreover have "n mod 64 \<in> set [0..<64]" by simp
  ultimately show ?thesis unfolding b64_digit_def by blast
qed

lemma b64_digit_eq: "b64_digit m = b64_digit n \<longleftrightarrow> m mod 64 = n mod 64"
  by (metis b64_value_digit b64_digit_def mod_mod_trivial)

lemma b64_digit_not_pad: "b64_digit n \<noteq> CHR ''=''"
proof -
  have "\<forall>i \<in> set [0..<64]. b64_alphabet ! i \<noteq> CHR ''=''" by code_simp
  moreover have "n mod 64 \<in> set [0..<64]" by simp
  ultimately show ?thesis unfolding b64_digit_def by blast
qed

lemma byte_less: "byte c < 256"
  by (simp add: byte_def)

lemma byte_inj: "byte a = byte b \<Longrightarrow> a = b"
  by (simp add: byte_def)

text \<open>The digits of three, two and one bytes determine them.\<close>

lemma high_digits:
  fixes a q :: nat
  assumes "q < 16"
  shows "(a * 16 + q) mod 64 = (a mod 4) * 16 + q"
proof -
  have "a * 16 + q = ((a mod 4) * 16 + q) + 64 * (a div 4)" using div_mult_mod_eq [of a 4] by linarith
  moreover have "(a mod 4) * 16 + q < 64" using assms by presburger
  ultimately show ?thesis by (metis mod_less mod_mult_self2)
qed

lemma low_digits:
  fixes b r :: nat
  assumes "r < 4"
  shows "(b * 4 + r) mod 64 = (b mod 16) * 4 + r"
proof -
  have "b * 4 + r = ((b mod 16) * 4 + r) + 64 * (b div 16)" using div_mult_mod_eq [of b 16] by linarith
  moreover have "(b mod 16) * 4 + r < 64" using assms by presburger
  ultimately show ?thesis by (metis mod_less mod_mult_self2)
qed

lemma digits_determined:
  fixes m n q r d :: nat
  assumes "m * d + q = n * d + r" and "q < d" and "r < d"
  shows "m = n \<and> q = r"
  using assms by (metis add_diff_cancel_left' div_mult_self3 div_less add.commute add_0 less_nat_zero_code mult.commute)

lemma byte_eqI: "byte a div d = byte b div d \<Longrightarrow> byte a mod d = byte b mod d \<Longrightarrow> a = b"
  by (metis byte_inj div_mult_mod_eq)

lemma first_digit: "b64_digit (byte a div 4) = b64_digit (byte a' div 4) \<longleftrightarrow> byte a div 4 = byte a' div 4"
  using byte_less [of a] byte_less [of a'] by (simp add: b64_digit_eq less_mult_imp_div_less)

lemma second_digit:
  "b64_digit (byte a * 16 + byte b div 16) = b64_digit (byte a' * 16 + byte b' div 16) \<longleftrightarrow>
   byte a mod 4 = byte a' mod 4 \<and> byte b div 16 = byte b' div 16"
  using byte_less [of b] byte_less [of b'] digits_determined [of "byte a mod 4" 16 "byte b div 16" "byte a' mod 4" "byte b' div 16"]
  by (auto simp: b64_digit_eq high_digits less_mult_imp_div_less)

lemma third_digit:
  "b64_digit (byte b * 4 + byte c div 64) = b64_digit (byte b' * 4 + byte c' div 64) \<longleftrightarrow>
   byte b mod 16 = byte b' mod 16 \<and> byte c div 64 = byte c' div 64"
  using byte_less [of c] byte_less [of c'] digits_determined [of "byte b mod 16" 4 "byte c div 64" "byte b' mod 16" "byte c' div 64"]
  by (auto simp: b64_digit_eq low_digits less_mult_imp_div_less)

lemma padded_digits:
  "b64_digit (byte a * 16) = b64_digit (byte a' * 16) \<longleftrightarrow> byte a mod 4 = byte a' mod 4"
  "b64_digit (byte b * 4) = b64_digit (byte b' * 4) \<longleftrightarrow> byte b mod 16 = byte b' mod 16"
  by (auto simp: b64_digit_eq mod_mult_mult2 [of _ 4 16, simplified] mod_mult_mult2 [of _ 16 4, simplified])

lemma last_digit: "b64_digit (byte c) = b64_digit (byte c') \<longleftrightarrow> byte c mod 64 = byte c' mod 64"
  by (rule b64_digit_eq)

lemmas digits = first_digit second_digit third_digit last_digit padded_digits b64_digit_not_pad b64_digit_not_pad [symmetric]

lemma b64encode_inj: "b64encode s = b64encode t \<Longrightarrow> s = t"
proof (induction s arbitrary: t rule: b64encode.induct)
  case 1
  then show ?case by (cases t rule: b64encode.cases) simp_all
next
  case (2 a)
  then show ?case by (cases t rule: b64encode.cases) (auto simp: digits intro: byte_eqI)
next
  case (3 a b)
  then show ?case by (cases t rule: b64encode.cases) (auto simp: digits intro: byte_eqI)
next
  case (4 a b c cs)
  show ?case
  proof (cases t rule: b64encode.cases)
    case (4 a' b' c' cs')
    then show ?thesis using "4.prems" "4.IH" [of cs']
      by (auto simp: digits intro: byte_eqI)
  qed (use "4.prems" in \<open>auto simp: digits\<close>)
qed

lemma utf8_encode_inj: "utf8_encode s = utf8_encode t \<Longrightarrow> s = t"
  by (metis utf8_roundtrip sum.inject(2))

text \<open>
  The id of a meter stands for the resource and the name joined by a plus sign, and for nothing
  less: two meters of the API are equal exactly if these texts are.
\<close>

lemma meter_id_exact:
  "meter_id r n = meter_id r' n' \<longleftrightarrow> r @ ''+'' @ n = r' @ ''+'' @ n'"
  unfolding meter_id_def using b64encode_inj utf8_encode_inj by metis

text \<open>A plus sign in a resource or a name makes different meters equal.\<close>

lemma meter_id_ambiguous: "meter_id ''a+b'' ''c'' = meter_id ''a'' ''b+c''"
  by (simp add: meter_id_def)

section \<open>Who may see what\<close>

text \<open>
  A query on \<open>resource_ids\<close> is answered without regard to who asks: the restriction of a request to
  its project, which every other query on resources gets, does not apply. For two requests that the
  policy lets list resources the answers are the same, although one of them is limited to a project
  and the other is not.
\<close>

theorem batch_query_ignores_project:
  assumes "rbac_enforce rq ''get_resources'' = Inr ()" and "rbac_enforce rq' ''get_resources'' = Inr ()"
    and "q_field i = ''resource_ids''" and "re_literal_eval env (q_value i) = Inr ids" and "truthy ids"
  shows "resources_get_all qe env rq [i] limit links = resources_get_all qe env rq' [i] limit links"
  using assms by (simp add: resources_get_all_def batch_ids_def)

text \<open>A sample is looked up by its id alone, whatever project the request is limited to.\<close>

lemma single_sample_ignores_project:
  "rbac_enforce rq ''get_sample'' = Inr () \<Longrightarrow> rbac_enforce rq' ''get_sample'' = Inr () \<Longrightarrow>
   samples_get_one parse rp rq conn i = samples_get_one parse rp rq' conn i"
  by (simp add: samples_get_one_def)

text \<open>
  A single resource is looked up in the own project. When the policy limits a request to a project and
  the storage gives resources of the project that it is asked for, every resource that is shown
  belongs to the project, with the id that the URL names and a link to itself only.
\<close>

lemma single_resource_isolated:
  assumes "get_limited_to_project rq = Some p" and "resources_get_one env rq arg = Inr r"
    and "\<And>args rs m k v. re_get_resources env args = Inr rs \<Longrightarrow> m \<in> set rs \<Longrightarrow> (k, v) \<in> {(''resource'', ''resource_id''), (''project'', ''project_id'')} \<Longrightarrow>
           dict_get args k \<noteq> None \<Longrightarrow> dict_get m v = dict_get args k"
  shows "dict_get (ar_attributes r) ''project_id'' = Some (PStr p) \<and>
    dict_get (ar_attributes r) ''resource_id'' = Some (PStr (re_unquote env arg)) \<and>
    ar_links r = [\<lparr>li_href = re_url env @ ''/v2/resources/'' @ re_unquote env arg, li_rel = ''self''\<rparr>]"
proof -
  let ?i = "re_unquote env arg"
  let ?args = "[(''resource'', PStr ?i), (''project'', PStr p)]"
  obtain rs where rs: "re_get_resources env ?args = Inr rs"
    and "(case rs of [] \<Rightarrow> Inl (EntityNotFound ''Resource'') | m # _ \<Rightarrow> bindr (resource_links env ?i False) (resource_from_db env m)) = Inr r"
    using assms(1,2) by (auto simp: resources_get_one_def Let_def bindr_Inr_iff opt_text_def)
  then obtain m ms where g: "re_get_resources env ?args = Inr (m # ms)"
    and r: "bindr (resource_links env ?i False) (resource_from_db env m) = Inr r"
    by (cases rs) auto
  have "dict_get m ''project_id'' = Some (PStr p)" "dict_get m ''resource_id'' = Some (PStr ?i)"
    using assms(3) [OF g, of m "''project''" "''project_id''"] assms(3) [OF g, of m "''resource''" "''resource_id''"] by simp_all
  then show ?thesis
    using r by (auto simp: resource_links_def Let_def make_link_def resource_from_db_def bindr_Inr_iff dict_get_set)
qed

section \<open>Examples\<close>

definition other_request :: api_request where
  "other_request = demo_request\<lparr>enforcer := \<lambda>r d. True\<rparr>"

definition demo_resources :: "pymap list" where
  "demo_resources =
     [[(''resource_id'', PStr ''vm1''), (''project_id'', PStr ''p1''), (''metadata'', PDict [])],
      [(''resource_id'', PStr ''vm2''), (''project_id'', PStr ''p2''), (''metadata'', PDict [])]]"

definition demo_resource_env :: resource_env where
  "demo_resource_env = \<lparr>re_url = ''http://api'', re_repr = (\<lambda>v. ''?''), re_literal_eval = (\<lambda>s. Inr (PList [PStr ''vm2''])),
     re_unquote = id, re_get_meters = (\<lambda>args. Inr []),
     re_get_resources = (\<lambda>args. Inr (filter (\<lambda>m.
        (case dict_get args ''resource'' of None \<Rightarrow> True | Some v \<Rightarrow> dict_get m ''resource_id'' = Some v) \<and>
        (case dict_get args ''project'' of None \<Rightarrow> True | Some v \<Rightarrow> dict_get m ''project_id'' = Some v)) demo_resources)),
     re_get_resources_batch = (\<lambda>ids. Inr (tl demo_resources))\<rparr>"

text \<open>The request of the project \<open>p1\<close> is shown a resource of \<open>p2\<close>.\<close>

theorem batch_query_ignores_project_witness:
  "get_limited_to_project demo_request = Some ''p1'' \<and> get_limited_to_project other_request = None \<and>
   (case resources_get_all demo_qenv demo_resource_env demo_request
       [\<lparr>q_field = ''resource_ids'', q_op = Eq, q_value = ''x'', q_type = None\<rparr>] None False of
      Inr [r] \<Rightarrow> dict_get (ar_attributes r) ''project_id'' = Some (PStr ''p2'') | _ \<Rightarrow> False)"
proof -
  let ?i = "\<lparr>q_field = ''resource_ids'', q_op = Eq, q_value = ''x'', q_type = None\<rparr>"
  have r: "rbac_enforce demo_request ''get_resources'' = Inr ()" "rbac_enforce other_request ''get_resources'' = Inr ()"
    by code_simp+
  have same: "resources_get_all demo_qenv demo_resource_env demo_request [?i] None False =
      resources_get_all demo_qenv demo_resource_env other_request [?i] None False"
    by (rule batch_query_ignores_project [OF r, where ids = "PList [PStr ''vm2'']"]) (simp_all add: demo_resource_env_def)
  have other: "case resources_get_all demo_qenv demo_resource_env other_request [?i] None False of
      Inr [r] \<Rightarrow> dict_get (ar_attributes r) ''project_id'' = Some (PStr ''p2'') | _ \<Rightarrow> False" by code_simp
  have "get_limited_to_project demo_request = Some ''p1'' \<and> get_limited_to_project other_request = None" by code_simp
  then show ?thesis using other unfolding same by blast
qed

lemma single_resource_isolated_witness:
  "\<exists>r. resources_get_one demo_resource_env demo_request ''vm1'' = Inr r \<and> dict_get (ar_attributes r) ''project_id'' = Some (PStr ''p1'')"
proof -
  have "case resources_get_one demo_resource_env demo_request ''vm1'' of Inr r \<Rightarrow> True | Inl e \<Rightarrow> False" by code_simp
  then obtain r where r: "resources_get_one demo_resource_env demo_request ''vm1'' = Inr r" by (auto split: sum.splits)
  have p: "get_limited_to_project demo_request = Some ''p1''" by code_simp
  have "dict_get (ar_attributes r) ''project_id'' = Some (PStr ''p1'') \<and>
      dict_get (ar_attributes r) ''resource_id'' = Some (PStr (re_unquote demo_resource_env ''vm1'')) \<and>
      ar_links r = [\<lparr>li_href = re_url demo_resource_env @ ''/v2/resources/'' @ re_unquote demo_resource_env ''vm1'', li_rel = ''self''\<rparr>]"
    by (rule single_resource_isolated [OF p r]) (auto simp: demo_resource_env_def split: option.splits)
  then show ?thesis using r by blast
qed

end
