(* ===== verification/Compute_Pollsters.thy ===== *)
theory Compute_Pollsters
  imports Sample_Model Service_Calls
begin

text \<open>
  The pollsters of instances (\<^verbatim>\<open>ceilometer/compute/pollsters/\<close>): the statistics that an inspector
  reads are kept for the cycle, and every pollster makes samples of one field.

  An instance and its statistics are the dictionaries of their attributes. The inspector of the
  hypervisor is a parameter; what it returns is a list, with a single object as a list of one.
\<close>

section \<open>Pollsters\<close>

text \<open>
  What the classes override: the metadata, the id of the resource and the aggregation. \<open>Plain\<close>
  has the methods of \<open>GenericComputePollster\<close>.
\<close>

datatype pollster_kind = Plain | Cpu | Vnic | Aggregate_disks | Per_disk

record compute_pollster =
  cp_name :: string
  cp_unit :: string
  cp_type :: string
  cp_key :: string
  cp_method :: string
  cp_kind :: pollster_kind

definition pollster :: "string \<Rightarrow> string \<Rightarrow> string \<Rightarrow> string \<Rightarrow> string \<Rightarrow> pollster_kind \<Rightarrow> compute_pollster" where
  "pollster name unit type key meth kind =
     \<lparr>cp_name = name, cp_unit = unit, cp_type = type, cp_key = key, cp_method = meth, cp_kind = kind\<rparr>"

definition instance_stats_pollsters :: "compute_pollster list" where
  "instance_stats_pollsters = [
    pollster ''cpu'' ''ns'' TYPE_CUMULATIVE ''cpu_time'' ''inspect_instance'' Cpu,
    pollster ''cpu_util'' ''%'' TYPE_GAUGE ''cpu_util'' ''inspect_instance'' Plain,
    pollster ''memory.usage'' ''MB'' TYPE_GAUGE ''memory_usage'' ''inspect_instance'' Plain,
    pollster ''memory.resident'' ''MB'' TYPE_GAUGE ''memory_resident'' ''inspect_instance'' Plain,
    pollster ''memory.swap.in'' ''MB'' TYPE_CUMULATIVE ''memory_swap_in'' ''inspect_instance'' Plain,
    pollster ''memory.swap.out'' ''MB'' TYPE_CUMULATIVE ''memory_swap_out'' ''inspect_instance'' Plain,
    pollster ''perf.cpu.cycles'' [] TYPE_GAUGE ''cpu_cycles'' ''inspect_instance'' Plain,
    pollster ''perf.instructions'' [] TYPE_GAUGE ''instructions'' ''inspect_instance'' Plain,
    pollster ''perf.cache.references'' [] TYPE_GAUGE ''cache_references'' ''inspect_instance'' Plain,
    pollster ''perf.cache.misses'' [] TYPE_GAUGE ''cache_misses'' ''inspect_instance'' Plain,
    pollster ''memory.bandwidth.total'' ''B/s'' TYPE_GAUGE ''memory_bandwidth_total'' ''inspect_instance'' Plain,
    pollster ''memory.bandwidth.local'' ''B/s'' TYPE_GAUGE ''memory_bandwidth_local'' ''inspect_instance'' Plain,
    pollster ''cpu_l3_cache'' ''B'' TYPE_GAUGE ''cpu_l3_cache_usage'' ''inspect_instance'' Plain]"

definition net_pollsters :: "compute_pollster list" where
  "net_pollsters = [
    pollster ''network.incoming.bytes'' ''B'' TYPE_CUMULATIVE ''rx_bytes'' ''inspect_vnics'' Vnic,
    pollster ''network.incoming.packets'' ''packet'' TYPE_CUMULATIVE ''rx_packets'' ''inspect_vnics'' Vnic,
    pollster ''network.outgoing.bytes'' ''B'' TYPE_CUMULATIVE ''tx_bytes'' ''inspect_vnics'' Vnic,
    pollster ''network.outgoing.packets'' ''packet'' TYPE_CUMULATIVE ''tx_packets'' ''inspect_vnics'' Vnic,
    pollster ''network.incoming.bytes.rate'' ''B/s'' TYPE_GAUGE ''rx_bytes_rate'' ''inspect_vnic_rates'' Vnic,
    pollster ''network.outgoing.bytes.rate'' ''B/s'' TYPE_GAUGE ''tx_bytes_rate'' ''inspect_vnic_rates'' Vnic,
    pollster ''network.incoming.packets.drop'' ''packet'' TYPE_CUMULATIVE ''rx_drop'' ''inspect_vnics'' Vnic,
    pollster ''network.outgoing.packets.drop'' ''packet'' TYPE_CUMULATIVE ''tx_drop'' ''inspect_vnics'' Vnic,
    pollster ''network.incoming.packets.error'' ''packet'' TYPE_CUMULATIVE ''rx_errors'' ''inspect_vnics'' Vnic,
    pollster ''network.outgoing.packets.error'' ''packet'' TYPE_CUMULATIVE ''tx_errors'' ''inspect_vnics'' Vnic]"

definition disk_pollsters :: "compute_pollster list" where
  "disk_pollsters = [
    pollster ''disk.read.requests'' ''request'' TYPE_CUMULATIVE ''read_requests'' ''inspect_disks'' Aggregate_disks,
    pollster ''disk.device.read.requests'' ''request'' TYPE_CUMULATIVE ''read_requests'' ''inspect_disks'' Per_disk,
    pollster ''disk.read.bytes'' ''B'' TYPE_CUMULATIVE ''read_bytes'' ''inspect_disks'' Aggregate_disks,
    pollster ''disk.device.read.bytes'' ''B'' TYPE_CUMULATIVE ''read_bytes'' ''inspect_disks'' Per_disk,
    pollster ''disk.write.requests'' ''request'' TYPE_CUMULATIVE ''write_requests'' ''inspect_disks'' Aggregate_disks,
    pollster ''disk.device.write.requests'' ''request'' TYPE_CUMULATIVE ''write_requests'' ''inspect_disks'' Per_disk,
    pollster ''disk.write.bytes'' ''B'' TYPE_CUMULATIVE ''write_bytes'' ''inspect_disks'' Aggregate_disks,
    pollster ''disk.device.write.bytes'' ''B'' TYPE_CUMULATIVE ''write_bytes'' ''inspect_disks'' Per_disk,
    pollster ''disk.read.bytes.rate'' ''B/s'' TYPE_GAUGE ''read_bytes_rate'' ''inspect_disk_rates'' Aggregate_disks,
    pollster ''disk.device.read.bytes.rate'' ''B/s'' TYPE_GAUGE ''read_bytes_rate'' ''inspect_disk_rates'' Per_disk,
    pollster ''disk.read.requests.rate'' ''request/s'' TYPE_GAUGE ''read_requests_rate'' ''inspect_disk_rates'' Aggregate_disks,
    pollster ''disk.device.read.requests.rate'' ''request/s'' TYPE_GAUGE ''read_requests_rate'' ''inspect_disk_rates'' Per_disk,
    pollster ''disk.write.bytes.rate'' ''B/s'' TYPE_GAUGE ''write_bytes_rate'' ''inspect_disk_rates'' Aggregate_disks,
    pollster ''disk.device.write.bytes.rate'' ''B/s'' TYPE_GAUGE ''write_bytes_rate'' ''inspect_disk_rates'' Per_disk,
    pollster ''disk.write.requests.rate'' ''request/s'' TYPE_GAUGE ''write_requests_rate'' ''inspect_disk_rates'' Aggregate_disks,
    pollster ''disk.device.write.requests.rate'' ''request/s'' TYPE_GAUGE ''write_requests_rate'' ''inspect_disk_rates'' Per_disk,
    pollster ''disk.latency'' ''ms'' TYPE_GAUGE ''disk_latency'' ''inspect_disk_latency'' Aggregate_disks,
    pollster ''disk.device.latency'' ''ms'' TYPE_GAUGE ''disk_latency'' ''inspect_disk_latency'' Per_disk,
    pollster ''disk.iops'' ''count/s'' TYPE_GAUGE ''iops_count'' ''inspect_disk_iops'' Aggregate_disks,
    pollster ''disk.device.iops'' ''count/s'' TYPE_GAUGE ''iops_count'' ''inspect_disk_iops'' Per_disk,
    pollster ''disk.capacity'' ''B'' TYPE_GAUGE ''capacity'' ''inspect_disk_info'' Aggregate_disks,
    pollster ''disk.device.capacity'' ''B'' TYPE_GAUGE ''capacity'' ''inspect_disk_info'' Per_disk,
    pollster ''disk.allocation'' ''B'' TYPE_GAUGE ''allocation'' ''inspect_disk_info'' Aggregate_disks,
    pollster ''disk.device.allocation'' ''B'' TYPE_GAUGE ''allocation'' ''inspect_disk_info'' Per_disk,
    pollster ''disk.usage'' ''B'' TYPE_GAUGE ''physical'' ''inspect_disk_info'' Aggregate_disks,
    pollster ''disk.device.usage'' ''B'' TYPE_GAUGE ''physical'' ''inspect_disk_info'' Per_disk]"

definition inspect_methods :: "string list" where
  "inspect_methods =
     [''inspect_instance'', ''inspect_vnics'', ''inspect_vnic_rates'', ''inspect_disks'', ''inspect_disk_rates'',
      ''inspect_disk_latency'', ''inspect_disk_iops'', ''inspect_disk_info'']"

section \<open>Exceptions\<close>

definition NoVolumeException :: pyexc where "NoVolumeException = OtherError ''NoVolumeException''"
definition InstanceNotFoundException :: pyexc where "InstanceNotFoundException = OtherError ''InstanceNotFoundException''"
definition InstanceShutOffException :: pyexc where "InstanceShutOffException = OtherError ''InstanceShutOffException''"
definition NoDataException :: pyexc where "NoDataException = OtherError ''NoDataException''"

section \<open>Samples of instances\<close>

definition INSTANCE_PROPERTIES :: "string list" where
  "INSTANCE_PROPERTIES =
     [''reservation_id'', ''architecture'', ''OS-EXT-AZ:availability_zone'', ''kernel_id'', ''os_type'', ''ramdisk_id'']"

definition image_metadata :: "pyval \<Rightarrow> pymap res" where
  "image_metadata im =
     (if \<not> truthy im then Inr [(''image'', PNone), (''image_ref'', PNone), (''image_ref_url'', PNone)]
      else
        bindr (py_getitem im (PStr ''id'')) (\<lambda>ref.
        bindr (py_get im ''links'' PNone) (\<lambda>links.
        bindr (if truthy links
               then bindr (py_getitem links (PInt 0)) (\<lambda>l. py_getitem l (PStr ''href'')) else Inr PNone) (\<lambda>url.
          Inr [(''image'', im), (''image_ref'', ref), (''image_ref_url'', url)]))))"

text \<open>\<open>_get_metadata_from_object\<close>\<close>

definition base_metadata :: "pymap \<Rightarrow> pymap res" where
  "base_metadata instance' =
     bindr (py_getattr instance' ''flavor'') (\<lambda>flavor.
     bindr (if truthy flavor then py_getitem flavor (PStr ''name'') else Inr PNone) (\<lambda>type.
     bindr (py_getattr instance' ''name'') (\<lambda>name.
     bindr (py_getattr instance' ''id'') (\<lambda>i.
     bindr (py_getattr instance' ''hostId'') (\<lambda>host.
     bindr (py_getattr instance' ''status'') (\<lambda>status.
     bindr (case status of PStr s \<Rightarrow> Inr (str_lower s) | _ \<Rightarrow> Inl (AttributeError ''lower'')) (\<lambda>low.
       Inr [(''display_name'', name), (''name'', dict_get_default instance' ''OS-EXT-SRV-ATTR:instance_name'' (PStr [])),
            (''instance_id'', i), (''instance_type'', type), (''host'', host),
            (''instance_host'', dict_get_default instance' ''OS-EXT-SRV-ATTR:host'' (PStr [])), (''flavor'', flavor),
            (''status'', PStr low), (''state'', dict_get_default instance' ''OS-EXT-STS:vm_state'' (PStr [])),
            (''task_state'', dict_get_default instance' ''OS-EXT-STS:task_state'' (PStr []))])))))))"

definition flavor_metadata :: "pyval \<Rightarrow> pymap res" where
  "flavor_metadata flavor =
     bindr (py_getitem flavor (PStr ''vcpus'')) (\<lambda>vcpus.
     bindr (py_getitem flavor (PStr ''ram'')) (\<lambda>ram.
     bindr (py_getitem flavor (PStr ''disk'')) (\<lambda>disk.
     bindr (py_getitem flavor (PStr ''ephemeral'')) (\<lambda>eph.
     bindr (py_int disk) (\<lambda>d.
     bindr (py_int eph) (\<lambda>e.
       Inr [(''vcpus'', vcpus), (''memory_mb'', ram), (''disk_gb'', disk), (''ephemeral_gb'', eph), (''root_gb'', PInt (d - e))]))))))"

definition get_metadata_from_object :: "sample_conf \<Rightarrow> pymap \<Rightarrow> pymap res" where
  "get_metadata_from_object conf instance' =
     bindr (base_metadata instance') (\<lambda>md.
     bindr (py_getattr instance' ''image'') (\<lambda>im.
     bindr (image_metadata im) (\<lambda>img.
     bindr (py_getattr instance' ''flavor'') (\<lambda>flavor.
     bindr (flavor_metadata flavor) (\<lambda>fl.
     bindr (py_getattr instance' ''metadata'') (\<lambda>user.
     bindr (case user of PDict d \<Rightarrow> Inr d | _ \<Rightarrow> Inl (AttributeError ''items'')) (\<lambda>src.
       Inr (add_reserved_user_metadata conf src
         (dict_update md
         (img @ List.map_filter (\<lambda>k. map_option (Pair k) (dict_get instance' k)) INSTANCE_PROPERTIES @ fl))))))))))"

record compute_env =
  ce_conf :: sample_conf
  ce_source :: string
  ce_uuid :: string
  ce_repr :: "pyval \<Rightarrow> string"

definition make_sample_from_instance ::
  "compute_env \<Rightarrow> pymap \<Rightarrow> compute_pollster \<Rightarrow> pyval \<Rightarrow> pyval \<Rightarrow> pymap \<Rightarrow> pyval \<Rightarrow> sample res" where
  "make_sample_from_instance env instance' p volume rid extra polled =
     bindr (get_metadata_from_object (ce_conf env) instance') (\<lambda>md.
     bindr (py_getattr instance' ''user_id'') (\<lambda>user.
     bindr (py_getattr instance' ''tenant_id'') (\<lambda>project.
     bindr (py_getattr instance' ''id'') (\<lambda>i.
       Inr (new_sample (ce_source env) (ce_uuid env) (cp_name p) (cp_type p) (cp_unit p) volume
              (optional_text (ce_repr env) user) (optional_text (ce_repr env) project)
              (text_of (ce_repr env) (py_or rid i)) None (dict_update md extra) None None polled)))))"

section \<open>From statistics to samples\<close>

text \<open>\<open>AggregateDiskPollster.aggregate_method\<close>: the fields of the first statistics, summed.\<close>

fun sum_field :: "string \<Rightarrow> pymap list \<Rightarrow> pyval \<Rightarrow> pyval res" where
  "sum_field f [] acc = Inr acc"
| "sum_field f (st # sts) acc = bindr (py_getattr st f) (\<lambda>v. bindr (py_add acc v) (sum_field f sts))"

definition aggregate_disks :: "pymap list \<Rightarrow> pymap list res" where
  "aggregate_disks result =
     (case result of
        [] \<Rightarrow> Inl IndexError
      | st # _ \<Rightarrow>
          if ''device'' \<notin> set (dict_keys st) then Inl ValueError
          else
            bindr (mapr (\<lambda>st. py_getattr st ''device'') result) (\<lambda>devices.
            bindr (mapr (\<lambda>f. bindr (sum_field f result (PInt 0)) (\<lambda>v. Inr (f, v)))
                     (filter (\<lambda>f. f \<noteq> ''device'') (dict_keys st))) (\<lambda>kvs.
              Inr [(''device'', PList devices) # kvs])))"

definition aggregate_method :: "compute_pollster \<Rightarrow> pymap list \<Rightarrow> pymap list res" where
  "aggregate_method p result = (if cp_kind p = Aggregate_disks then aggregate_disks result else Inr result)"

text \<open>\<open>get_additional_metadata\<close>\<close>

definition pick :: "(string \<times> string) list \<Rightarrow> pymap \<Rightarrow> pymap res" where
  "pick ks stats = mapr (\<lambda>(k, f). bindr (py_getattr stats f) (\<lambda>v. Inr (k, v))) ks"

definition get_additional_metadata :: "pollster_kind \<Rightarrow> pymap \<Rightarrow> pymap res" where
  "get_additional_metadata kind stats =
     (case kind of
        Plain \<Rightarrow> Inr []
      | Cpu \<Rightarrow> pick [(''cpu_number'', ''cpu_number''), (''vcpu_number'', ''vcpu_number'')] stats
      | Aggregate_disks \<Rightarrow> pick [(''device'', ''device'')] stats
      | Per_disk \<Rightarrow> pick [(''disk_name'', ''device'')] stats
      | Vnic \<Rightarrow>
          bindr (pick [(''name'', ''name''), (''mac'', ''mac''), (''fref'', ''fref''), (''parameters'', ''parameters'')] stats) (\<lambda>md.
            Inr (md @ [(''vnic_name'',
                let fref = dict_get_default md ''fref'' PNone in if fref \<noteq> PNone then fref else dict_get_default md ''name'' PNone)])))"

definition get_resource_id :: "(pyval \<Rightarrow> string) \<Rightarrow> pollster_kind \<Rightarrow> pymap \<Rightarrow> pymap \<Rightarrow> pyval res" where
  "get_resource_id rp kind instance' stats =
     (case kind of
        Vnic \<Rightarrow>
          bindr (py_getattr stats ''fref'') (\<lambda>fref.
            if fref \<noteq> PNone then Inr fref
            else bindr (py_getattr instance' ''id'') (\<lambda>i.
                 bindr (py_getattr stats ''name'') (\<lambda>n.
                   Inr (PStr (py_str rp (dict_get_default instance' ''OS-EXT-SRV-ATTR:instance_name'' PNone) @ ''-'' @
                              py_str rp i @ ''-'' @ py_str rp n)))))
      | Per_disk \<Rightarrow>
          bindr (py_getattr instance' ''id'') (\<lambda>i.
          bindr (py_getattr stats ''device'') (\<lambda>d. Inr (PStr (py_str rp i @ ''-'' @ py_str rp d))))
      | _ \<Rightarrow> py_getattr instance' ''id'')"

definition stats_to_sample :: "compute_env \<Rightarrow> compute_pollster \<Rightarrow> pymap \<Rightarrow> pyval \<Rightarrow> pymap \<Rightarrow> sample res" where
  "stats_to_sample env p instance' polled stats =
     bindr (py_getattr stats (cp_key p)) (\<lambda>volume.
       if volume = PNone then Inl NoVolumeException
       else
         bindr (get_resource_id (ce_repr env) (cp_kind p) instance' stats) (\<lambda>rid.
         bindr (get_additional_metadata (cp_kind p) stats) (\<lambda>extra.
           make_sample_from_instance env instance' p volume rid extra polled)))"

section \<open>Polling\<close>

text \<open>The readings of the cycle, by method and instance: the time and the statistics.\<close>

type_synonym readings = "((string \<times> string) \<times> (pyval \<times> pymap list)) list"

record 'w inspector =
  in_inspect :: "string \<Rightarrow> pymap \<Rightarrow> rat option \<Rightarrow> 'w \<Rightarrow> 'w \<times> pymap list res"
  in_monotonic :: "'w \<Rightarrow> pyval"

definition instance_id :: "pymap \<Rightarrow> string res" where
  "instance_id instance' =
     bindr (py_getattr instance' ''id'') (\<lambda>i. case i of PStr s \<Rightarrow> Inr s | _ \<Rightarrow> Inl TypeError)"

definition inspect_cached ::
  "'w inspector \<Rightarrow> string \<Rightarrow> pymap \<Rightarrow> string \<Rightarrow> rat option \<Rightarrow> readings \<times> 'w \<Rightarrow> (readings \<times> 'w) \<times> (pyval \<times> pymap list) res" where
  "inspect_cached insp meth instance' i duration cw =
     (case cw of (c, w) \<Rightarrow>
        (case dict_get c (meth, i) of
           Some r \<Rightarrow> ((c, w), Inr r)
         | None \<Rightarrow>
             (case in_inspect insp meth instance' duration w of
                (w1, Inl e) \<Rightarrow> ((c, w1), Inl e)
              | (w1, Inr stats) \<Rightarrow>
                  (let r = (in_monotonic insp w1, stats) in ((dict_set (meth, i) r c, w1), Inr r)))))"

text \<open>The samples of one instance until one of its statistics raises.\<close>

fun samples_until :: "('a \<Rightarrow> sample res) \<Rightarrow> 'a list \<Rightarrow> sample list \<times> unit res" where
  "samples_until f [] = ([], Inr ())"
| "samples_until f (x # xs) =
     (case f x of Inl e \<Rightarrow> ([], Inl e) | Inr s \<Rightarrow> (case samples_until f xs of (ss, r) \<Rightarrow> (s # ss, r)))"

definition instance_samples ::
  "'w inspector \<Rightarrow> compute_env \<Rightarrow> compute_pollster \<Rightarrow> rat option \<Rightarrow> pymap \<Rightarrow> string \<Rightarrow> readings \<times> 'w \<Rightarrow>
   (readings \<times> 'w) \<times> sample list \<times> unit res" where
  "instance_samples insp env p duration instance' i cw =
     (case inspect_cached insp (cp_method p) instance' i duration cw of
        (st, Inl e) \<Rightarrow> (st, [], Inl e)
      | (st, Inr (polled, result)) \<Rightarrow>
          (st, if result = [] then ([], Inr ())
               else case aggregate_method p result of
                 Inl e \<Rightarrow> ([], Inl e)
               | Inr stats \<Rightarrow> samples_until (stats_to_sample env p instance' polled) stats))"

text \<open>
  The loop of \<open>get_samples\<close>: only the exception of a method that the inspector does not have goes
  on, as a permanent error of all resources; any other is logged with the id of the instance.
\<close>

fun poll_instances ::
  "'w inspector \<Rightarrow> compute_env \<Rightarrow> compute_pollster \<Rightarrow> rat option \<Rightarrow> string list \<Rightarrow> pymap list \<Rightarrow> readings \<times> 'w \<Rightarrow>
   (readings \<times> 'w) \<times> sample list \<times> unit res" where
  "poll_instances insp env p duration ids [] cw = (cw, [], Inr ())"
| "poll_instances insp env p duration ids (x # xs) cw =
     (case instance_id x of
        Inl e \<Rightarrow> (cw, [], Inl e)
      | Inr i \<Rightarrow>
          (case instance_samples insp env p duration x i cw of
             (st, ss, r) \<Rightarrow>
               (if r = Inl NotImplementedError then (st, ss, Inl (PollsterPermanentError ids))
                else case poll_instances insp env p duration ids xs st of
                  (st', ss', r') \<Rightarrow> (st', ss @ ss', r'))))"

text \<open>\<open>_record_poll_time\<close>: the time since the last poll in seconds; times are microseconds.\<close>

definition record_poll_time :: "int \<Rightarrow> int option \<Rightarrow> int option \<times> rat option" where
  "record_poll_time now last_poll = (Some now, map_option (\<lambda>t. of_int (now - t) / 1000000) last_poll)"

definition compute_get_samples ::
  "'w inspector \<Rightarrow> compute_env \<Rightarrow> compute_pollster \<Rightarrow> int \<Rightarrow> pymap list \<Rightarrow> int option \<Rightarrow> readings \<times> 'w \<Rightarrow>
   int option \<times> (readings \<times> 'w) \<times> sample list \<times> unit res" where
  "compute_get_samples insp env p now resources last_poll cw =
     (case record_poll_time now last_poll of
        (now', duration) \<Rightarrow>
          (now', poll_instances insp env p duration (map (\<lambda>r. text_of (ce_repr env) (dict_get_default r ''id'' PNone)) resources) resources cw))"

section \<open>A cycle\<close>

text \<open>The pollsters of a cycle, one after the other, with the same readings; what each yields and how it ends.\<close>

fun cycle ::
  "'w inspector \<Rightarrow> compute_env \<Rightarrow> (compute_pollster \<times> rat option \<times> pymap list) list \<Rightarrow> readings \<times> 'w \<Rightarrow>
   (readings \<times> 'w) \<times> (sample list \<times> unit res) list" where
  "cycle insp env [] cw = (cw, [])"
| "cycle insp env ((p, duration, rs) # ps) cw =
     (case poll_instances insp env p duration [] rs cw of
        (cw1, out) \<Rightarrow> (case cycle insp env ps cw1 of (cw2, outs) \<Rightarrow> (cw2, out # outs)))"

text \<open>
  An inspector whose calls are recorded: the method and the instance, the statistics if there were
  any, and the clock after the call.
\<close>

type_synonym calls = "((string \<times> string) \<times> pymap list option \<times> pyval) list"

definition recorded :: "'w inspector \<Rightarrow> ('w \<times> calls) inspector" where
  "recorded insp =
     \<lparr>in_inspect = (\<lambda>meth x d (w, cs). (case in_inspect insp meth x d w of
        (w1, r) \<Rightarrow> ((w1, cs @ [((meth, case instance_id x of Inl e \<Rightarrow> [] | Inr i \<Rightarrow> i),
                                 (case r of Inl e \<Rightarrow> None | Inr sts \<Rightarrow> Some sts), in_monotonic insp w1)]), r))),
      in_monotonic = (\<lambda>(w, cs). in_monotonic insp w)\<rparr>"

text \<open>The answers among the calls, as readings.\<close>

definition answers :: "calls \<Rightarrow> readings" where
  "answers cs = List.map_filter (\<lambda>(k, a, t). map_option (\<lambda>sts. (k, t, sts)) a) cs"

lemma answers_append [simp]: "answers (cs @ cs') = answers cs @ answers cs'"
  by (simp add: answers_def List.map_filter_def)

lemma answers_Cons [simp]:
  "answers [] = []" "answers ((k, Some sts, t) # cs) = (k, t, sts) # answers cs" "answers ((k, None, t) # cs) = answers cs"
  by (simp_all add: answers_def List.map_filter_def)

lemma answers_member: "(k, t, sts) \<in> set (answers cs) \<longleftrightarrow> (k, Some sts, t) \<in> set cs"
  by (induction cs) (auto simp: answers_def List.map_filter_def)

definition readings_ok :: "readings \<times> 'w \<times> calls \<Rightarrow> bool" where
  "readings_ok cw \<longleftrightarrow> dict_ok (fst cw) \<and> fst cw = answers (snd (snd cw))"

text \<open>
  What a pollster makes of a reading. The samples of a pollster are made of an instance's reading
  when the hypervisor answered for it in this cycle, and there are none when a call for it failed;
  this for all instances, or for those up to the one that ended the pollster.
\<close>

definition reading_samples :: "compute_env \<Rightarrow> compute_pollster \<Rightarrow> pymap \<Rightarrow> pyval \<Rightarrow> pymap list \<Rightarrow> sample list \<times> unit res" where
  "reading_samples env p x polled result =
     (if result = [] then ([], Inr ())
      else case aggregate_method p result of
        Inl e \<Rightarrow> ([], Inl e)
      | Inr stats \<Rightarrow> samples_until (stats_to_sample env p x polled) stats)"

definition made_of :: "compute_env \<Rightarrow> compute_pollster \<Rightarrow> calls \<Rightarrow> pymap \<Rightarrow> sample list \<Rightarrow> bool" where
  "made_of env p cs x ss \<longleftrightarrow>
     (\<exists>i t. instance_id x = Inr i \<and>
        (((cp_method p, i), None, t) \<in> set cs \<and> ss = []
         \<or> (\<exists>sts. ((cp_method p, i), Some sts, t) \<in> set cs \<and> ss = fst (reading_samples env p x t sts))))"

definition yielded :: "compute_env \<Rightarrow> compute_pollster \<Rightarrow> calls \<Rightarrow> pymap list \<Rightarrow> sample list \<times> unit res \<Rightarrow> bool" where
  "yielded env p cs rs out \<longleftrightarrow>
     (\<exists>polled parts. prefix polled rs \<and> (snd out = Inr () \<longrightarrow> polled = rs)
        \<and> list_all2 (made_of env p cs) polled parts \<and> fst out = concat parts)"

lemma made_of_mono: "made_of env p cs x ss \<Longrightarrow> made_of env p (cs @ cs') x ss"
  unfolding made_of_def set_append by blast

lemma yielded_mono: "yielded env p cs rs out \<Longrightarrow> yielded env p (cs @ cs') rs out"
  unfolding yielded_def by (metis (full_types) list_all2_mono made_of_mono)

lemma inspect_cached_recorded:
  assumes "readings_ok (c, w, cs)" and "instance_id x = Inr i"
    and "inspect_cached (recorded insp) meth x i duration (c, w, cs) = ((c1, w1, cs1), r)"
  shows "readings_ok (c1, w1, cs1) \<and> (\<exists>cs'. cs1 = cs @ cs') \<and>
    (case r of Inl e \<Rightarrow> \<exists>t. ((meth, i), None, t) \<in> set cs1 | Inr (t, sts) \<Rightarrow> ((meth, i), Some sts, t) \<in> set cs1)"
proof (cases "dict_get c (meth, i)")
  case None
  then have new: "(meth, i) \<notin> set (dict_keys c)" by (simp add: dict_get_None_iff)
  obtain w2 a where a: "in_inspect insp meth x duration w = (w2, a)" by fastforce
  show ?thesis
    using assms new None a
    by (cases a) (auto simp: inspect_cached_def recorded_def readings_ok_def Let_def dict_set_fresh dict_ok_def)
next
  case (Some q)
  then have "((meth, i), q) \<in> set (answers cs)" using assms(1) by (auto simp: readings_ok_def dest: map_of_SomeD)
  then have "((meth, i), Some (snd q), fst q) \<in> set cs" by (cases q) (simp add: answers_member)
  then show ?thesis using assms(1,3) Some by (cases q) (auto simp: inspect_cached_def)
qed

lemma instance_samples_recorded:
  assumes "readings_ok (c, w, cs)" and "instance_id x = Inr i"
    and "instance_samples (recorded insp) env p duration x i (c, w, cs) = ((c1, w1, cs1), ss, r)"
  shows "readings_ok (c1, w1, cs1) \<and> (\<exists>cs'. cs1 = cs @ cs') \<and> made_of env p cs1 x ss"
proof -
  obtain c2 w2 cs2 a where a: "inspect_cached (recorded insp) (cp_method p) x i duration (c, w, cs) = ((c2, w2, cs2), a)"
    by (metis prod.collapse)
  note I = inspect_cached_recorded [OF assms(1,2) a]
  show ?thesis
  proof (cases a)
    case (Inl e)
    then show ?thesis using assms(2,3) a I by (auto simp: instance_samples_def made_of_def)
  next
    case (Inr q)
    obtain t sts where q: "q = (t, sts)" by (cases q)
    have "ss = fst (reading_samples env p x t sts)" "(c1, w1, cs1) = (c2, w2, cs2)"
      using assms(3) a by (auto simp: instance_samples_def Inr q reading_samples_def split: sum.splits if_splits)
    then show ?thesis using assms(2) I by (auto simp: Inr q made_of_def)
  qed
qed

lemma poll_instances_recorded:
  assumes "readings_ok (c, w, cs)"
    and "poll_instances (recorded insp) env p duration ids xs (c, w, cs) = ((c1, w1, cs1), out)"
  shows "readings_ok (c1, w1, cs1) \<and> (\<exists>cs'. cs1 = cs @ cs') \<and> yielded env p cs1 xs out"
  using assms
proof (induction xs arbitrary: c w cs out)
  case Nil
  then show ?case by (auto simp: yielded_def)
next
  case (Cons x xs)
  show ?case
  proof (cases "instance_id x")
    case (Inl e)
    then show ?thesis using Cons.prems by (auto simp: yielded_def intro: exI [of _ "[]"])
  next
    case (Inr i)
    obtain c2 w2 cs2 ss r where s: "instance_samples (recorded insp) env p duration x i (c, w, cs) = ((c2, w2, cs2), ss, r)"
      by (metis prod.collapse)
    note I = instance_samples_recorded [OF Cons.prems(1) Inr s]
    show ?thesis
    proof (cases "r = Inl NotImplementedError")
      case True
      then have "(c1, w1, cs1) = (c2, w2, cs2)" "out = (ss, Inl (PollsterPermanentError ids))"
        using Cons.prems(2) Inr s by auto
      then show ?thesis using I
        by (auto simp: yielded_def intro!: exI [of _ "[x]"] exI [of _ "[ss]"])
    next
      case False
      obtain ss' r' where rest: "poll_instances (recorded insp) env p duration ids xs (c2, w2, cs2) = ((c1, w1, cs1), ss', r')"
        and out: "out = (ss @ ss', r')"
        using Cons.prems(2) Inr s False by (auto split: prod.splits)
      from Cons.IH [OF _ rest] I have R: "readings_ok (c1, w1, cs1)" "\<exists>cs'. cs1 = cs2 @ cs'" "yielded env p cs1 xs (ss', r')"
        by blast+
      then obtain polled parts where y: "prefix polled xs" "r' = Inr () \<longrightarrow> polled = xs"
        "list_all2 (made_of env p cs1) polled parts" "ss' = concat parts"
        by (auto simp: yielded_def)
      have "made_of env p cs1 x ss" using I R(2) made_of_mono by metis
      then have "yielded env p cs1 (x # xs) out" unfolding yielded_def
        using y by (intro exI [of _ "x # polled"] exI [of _ "ss # parts"]) (auto simp: out)
      then show ?thesis using R(1,2) I by auto
    qed
  qed
qed

lemma cycle_recorded:
  assumes "readings_ok (c, w, cs)" and "cycle (recorded insp) env ps (c, w, cs) = ((c1, w1, cs1), outs)"
  shows "readings_ok (c1, w1, cs1) \<and> (\<exists>cs'. cs1 = cs @ cs')
    \<and> list_all2 (\<lambda>(p, d, rs) out. yielded env p cs1 rs out) ps outs"
  using assms
proof (induction ps arbitrary: c w cs outs)
  case (Cons q ps)
  obtain p d rs where q: "q = (p, d, rs)" by (metis prod.collapse)
  obtain c2 w2 cs2 out where one: "poll_instances (recorded insp) env p d [] rs (c, w, cs) = ((c2, w2, cs2), out)"
    by (metis prod.collapse)
  note P = poll_instances_recorded [OF Cons.prems(1) one]
  obtain outs' where rest: "cycle (recorded insp) env ps (c2, w2, cs2) = ((c1, w1, cs1), outs')" and outs: "outs = out # outs'"
    using Cons.prems(2) by (auto simp: q one split: prod.splits)
  from Cons.IH [OF _ rest] P have R: "readings_ok (c1, w1, cs1)" "\<exists>cs'. cs1 = cs2 @ cs'"
    "list_all2 (\<lambda>(p, d, rs) out. yielded env p cs1 rs out) ps outs'" by blast+
  have "yielded env p cs1 rs out" using P R(2) yielded_mono by metis
  then show ?case using R P by (auto simp: q outs)
qed simp

text \<open>
  C30: In a cycle the hypervisor answers for an instance and a method at most once, and every sample
  is made from that answer. Whatever the hypervisor answers, whichever pollsters run on whichever
  instances in whatever order: the readings kept are exactly the answers that came, each with its
  statistics and the time after the call, in order and no two for the same method and instance.
  The samples every pollster yields are, instance after instance, those it makes of the answer of
  its method for the instance, and none for an instance for which the call failed; this for all
  its instances when it ends without an exception, and for the first ones otherwise.
\<close>

theorem answered_at_most_once:
  "case cycle (recorded insp) env ps ([], w, []) of
     ((c, w1, cs), outs) \<Rightarrow>
       c = answers cs \<and> distinct (map fst (answers cs))
       \<and> list_all2 (\<lambda>(p, duration, rs) out. yielded env p cs rs out) ps outs"
proof -
  obtain c w1 cs outs where run: "cycle (recorded insp) env ps ([], w, []) = ((c, w1, cs), outs)" by (metis prod.collapse)
  have "readings_ok ([], w, [])" by (simp add: readings_ok_def dict_ok_def)
  from cycle_recorded [OF this run] show ?thesis by (auto simp: run readings_ok_def dict_ok_def)
qed

section \<open>Aggregated disks\<close>

lemma sum_field_ints:
  "(\<And>st. st \<in> set sts \<Longrightarrow> dict_get st f = Some (PInt (v st f))) \<Longrightarrow>
   sum_field f sts (PInt a) = Inr (PInt (a + sum_list (map (\<lambda>st. v st f) sts)))"
  by (induction sts arbitrary: a) (simp_all add: py_getattr_def py_add_def arith_def add.assoc)

lemma mapr_ok: "(\<And>x. x \<in> set xs \<Longrightarrow> f x = Inr (g x)) \<Longrightarrow> mapr f xs = Inr (map g xs)"
  by (induction xs) simp_all

lemma aggregate_disks_sum:
  assumes "sts \<noteq> []" and "\<And>st. st \<in> set sts \<Longrightarrow> dict_get st ''device'' = Some (dev st)"
    and "\<And>st f. st \<in> set sts \<Longrightarrow> f \<in> set (dict_keys (hd sts)) \<Longrightarrow> f \<noteq> ''device'' \<Longrightarrow> dict_get st f = Some (PInt (v st f))"
  shows "aggregate_disks sts = Inr [(''device'', PList (map dev sts)) #
    map (\<lambda>f. (f, PInt (sum_list (map (\<lambda>st. v st f) sts)))) (filter (\<lambda>f. f \<noteq> ''device'') (dict_keys (hd sts)))]"
proof -
  obtain st rest where sts: "sts = st # rest" using assms(1) by (cases sts) auto
  let ?fs = "filter (\<lambda>f. f \<noteq> ''device'') (dict_keys st)"
  have "''device'' \<in> set (dict_keys st)" using assms(2) [of st] sts dict_get_None_iff [of st "''device''"] by fastforce
  moreover have "mapr (\<lambda>st. py_getattr st ''device'') sts = Inr (map dev sts)"
    by (rule mapr_ok) (simp add: py_getattr_def assms(2))
  moreover have "mapr (\<lambda>f. bindr (sum_field f sts (PInt 0)) (\<lambda>v. Inr (f, v))) ?fs =
      Inr (map (\<lambda>f. (f, PInt (sum_list (map (\<lambda>st. v st f) sts)))) ?fs)"
  proof (rule mapr_ok)
    fix f assume "f \<in> set ?fs"
    then have "sum_field f sts (PInt 0) = Inr (PInt (0 + sum_list (map (\<lambda>st. v st f) sts)))"
      using assms(3) [of _ f] by (intro sum_field_ints) (auto simp: sts)
    then show "bindr (sum_field f sts (PInt 0)) (\<lambda>v. Inr (f, v)) = Inr (f, PInt (sum_list (map (\<lambda>st. v st f) sts)))" by simp
  qed
  ultimately show ?thesis by (simp add: aggregate_disks_def sts)
qed

text \<open>What makes an instance fit for a sample.\<close>

definition sampleable :: "compute_env \<Rightarrow> pymap \<Rightarrow> bool" where
  "sampleable env x \<longleftrightarrow> is_ok (get_metadata_from_object (ce_conf env) x) \<and>
     (\<forall>k \<in> {''user_id'', ''tenant_id'', ''id''}. dict_get x k \<noteq> None)"

lemma make_sample_volume:
  assumes "sampleable env x"
  shows "\<exists>s. make_sample_from_instance env x p volume rid extra polled = Inr s \<and> s_volume s = volume \<and> s_name s = cp_name p"
  using assms
  by (auto simp: sampleable_def is_ok_iff make_sample_from_instance_def py_getattr_def new_sample_def)

lemma disk_sample:
  assumes "sampleable env x" and "cp_kind p = Aggregate_disks \<or> cp_kind p = Per_disk"
    and "dict_get st (cp_key p) = Some volume" "volume \<noteq> PNone" "dict_get st ''device'' \<noteq> None"
  shows "\<exists>s. stats_to_sample env p x polled st = Inr s \<and> s_volume s = volume"
proof -
  obtain i where i: "py_getattr x ''id'' = Inr i" using assms(1) by (auto simp: sampleable_def py_getattr_def)
  obtain dev where dev: "py_getattr st ''device'' = Inr dev" using assms(5) by (auto simp: py_getattr_def)
  obtain rid where rid: "get_resource_id (ce_repr env) (cp_kind p) x st = Inr rid"
    using assms(2) i dev by (auto simp: get_resource_id_def)
  obtain extra where extra: "get_additional_metadata (cp_kind p) st = Inr extra"
    using assms(2) dev by (auto simp: get_additional_metadata_def pick_def)
  have "stats_to_sample env p x polled st = make_sample_from_instance env x p volume rid extra polled"
    using assms(3,4) rid extra by (simp add: stats_to_sample_def py_getattr_def)
  then show ?thesis using make_sample_volume [OF assms(1)] by metis
qed

lemma samples_until_ok:
  "(\<And>x. x \<in> set xs \<Longrightarrow> \<exists>s. f x = Inr s \<and> s_volume s = g x) \<Longrightarrow>
   \<exists>ss. samples_until f xs = (ss, Inr ()) \<and> map s_volume ss = map g xs"
  by (induction xs) fastforce+

text \<open>
  C31: What a pollster of all disks gives for an instance is the sum of what the pollster of each disk
  gives for the same field in the same cycle. For a reading whose statistics have whole numbers,
  the first gives one sample and the second one sample per disk, and neither asks the hypervisor.
\<close>

theorem disks_add_up:
  assumes "dict_get c (cp_method p, i) = Some (polled, sts)" and "sts \<noteq> []" and "sampleable env x"
    and "cp_kind p = Aggregate_disks" "cp_kind q = Per_disk" "cp_method q = cp_method p" "cp_key q = cp_key p"
    and "cp_key p \<in> set (dict_keys (hd sts))" "cp_key p \<noteq> ''device''"
    and "\<And>st. st \<in> set sts \<Longrightarrow> dict_get st ''device'' \<noteq> None"
    and "\<And>st f. st \<in> set sts \<Longrightarrow> f \<in> set (dict_keys (hd sts)) \<Longrightarrow> f \<noteq> ''device'' \<Longrightarrow> dict_get st f = Some (PInt (v st f))"
  shows "\<exists>total each. instance_samples insp env p d x i (c, w) = ((c, w), [total], Inr ()) \<and>
    instance_samples insp env q d x i (c, w) = ((c, w), each, Inr ()) \<and>
    map s_volume each = map (\<lambda>st. PInt (v st (cp_key p))) sts \<and>
    s_volume total = PInt (sum_list (map (\<lambda>st. v st (cp_key p)) sts))"
proof -
  let ?k = "cp_key p" and ?fs = "filter (\<lambda>f. f \<noteq> ''device'') (dict_keys (hd sts))"
  let ?agg = "(''device'', PList (map (\<lambda>st. the (dict_get st ''device'')) sts)) #
    map (\<lambda>f. (f, PInt (sum_list (map (\<lambda>st. v st f) sts)))) ?fs"
  have agg: "aggregate_disks sts = Inr [?agg]"
    using assms(10,11) by (intro aggregate_disks_sum [OF assms(2)]) auto
  have total: "dict_get ?agg ?k = Some (PInt (sum_list (map (\<lambda>st. v st ?k) sts)))"
    using assms(8,9) by (simp add: map_of_map_restrict restrict_map_def)
  obtain t where t: "stats_to_sample env p x polled ?agg = Inr t" "s_volume t = PInt (sum_list (map (\<lambda>st. v st ?k) sts))"
    using disk_sample [OF assms(3) _ total] assms(4) by auto
  have "\<exists>s. stats_to_sample env q x polled st = Inr s \<and> s_volume s = PInt (v st ?k)" if st: "st \<in> set sts" for st
  proof (rule disk_sample [OF assms(3)])
    show "dict_get st (cp_key q) = Some (PInt (v st ?k))" using assms(11) [OF st assms(8,9)] assms(7) by simp
  qed (use assms(5,10) st in auto)
  then obtain each where each: "samples_until (stats_to_sample env q x polled) sts = (each, Inr ())"
    "map s_volume each = map (\<lambda>st. PInt (v st ?k)) sts"
    using samples_until_ok [of sts "stats_to_sample env q x polled" "\<lambda>st. PInt (v st ?k)"] by blast
  have cached: "inspect_cached insp (cp_method p) x i d (c, w) = ((c, w), Inr (polled, sts))"
    by (simp add: inspect_cached_def assms(1))
  have "instance_samples insp env p d x i (c, w) = ((c, w), [t], Inr ())"
    by (simp add: instance_samples_def cached aggregate_method_def assms(2,4) agg t(1))
  moreover have "instance_samples insp env q d x i (c, w) = ((c, w), each, Inr ())"
    by (simp add: instance_samples_def assms(6) cached aggregate_method_def assms(2,5) each(1))
  ultimately show ?thesis using t(2) each(2) by blast
qed

text \<open>
  The first statistics without a volume cost the instance the samples of the statistics behind
  them: the exception ends the loop over the disks.
\<close>

lemma missing_volume_ends_instance:
  "dict_get st (cp_key p) = Some PNone \<Longrightarrow> samples_until (stats_to_sample env p x polled) (st # sts) = ([], Inl NoVolumeException)"
  by (simp add: stats_to_sample_def py_getattr_def)

text \<open>The test of the flavor before its name is read is in vain: without a flavor there is no sample.\<close>

lemma no_flavor_no_sample:
  "dict_get x ''flavor'' = Some PNone \<Longrightarrow> \<not> is_ok (get_metadata_from_object conf x)"
  by (auto simp: get_metadata_from_object_def is_ok_iff bindr_Inr_iff py_getattr_def flavor_metadata_def py_getitem_def)

section \<open>Example\<close>

definition demo_instance :: pymap where
  "demo_instance =
     [(''id'', PStr ''vm''), (''name'', PStr ''web''), (''hostId'', PStr ''h''), (''status'', PStr ''ACTIVE''),
      (''flavor'', PDict [(''name'', PStr ''m1''), (''vcpus'', PInt 1), (''ram'', PInt 512), (''disk'', PInt 1), (''ephemeral'', PInt 0)]),
      (''image'', PNone), (''metadata'', PDict []), (''user_id'', PStr ''u''), (''tenant_id'', PStr ''t'')]"

definition demo_compute_env :: compute_env where
  "demo_compute_env = \<lparr>ce_conf = demo_conf, ce_source = ''openstack'', ce_uuid = ''uuid'', ce_repr = (\<lambda>v. ''?'')\<rparr>"

definition demo_disks :: "pymap list" where
  "demo_disks = [[(''device'', PStr ''vda''), (''read_bytes'', PInt 10)], [(''device'', PStr ''vdb''), (''read_bytes'', PInt 32)]]"

definition silent_inspector :: "unit inspector" where
  "silent_inspector = \<lparr>in_inspect = (\<lambda>m x d w. (w, Inl NoDataException)), in_monotonic = (\<lambda>w. PInt 0)\<rparr>"

theorem disks_add_up_witness:
  "\<exists>total. instance_samples silent_inspector demo_compute_env (disk_pollsters ! 2) None demo_instance ''vm''
       ([((''inspect_disks'', ''vm''), (PInt 7, demo_disks))], ()) =
     (([((''inspect_disks'', ''vm''), (PInt 7, demo_disks))], ()), [total], Inr ()) \<and> s_volume total = PInt 42"
proof -
  let ?p = "disk_pollsters ! 2" and ?q = "disk_pollsters ! 3"
  let ?c = "[((''inspect_disks'', ''vm''), (PInt 7, demo_disks))]"
  let ?v = "\<lambda>st f. case dict_get st f of Some (PInt n) \<Rightarrow> n"
  have pq: "?p = pollster ''disk.read.bytes'' ''B'' TYPE_CUMULATIVE ''read_bytes'' ''inspect_disks'' Aggregate_disks"
    "?q = pollster ''disk.device.read.bytes'' ''B'' TYPE_CUMULATIVE ''read_bytes'' ''inspect_disks'' Per_disk"
    by (simp_all add: disk_pollsters_def)
  have "sampleable demo_compute_env demo_instance" by code_simp
  then have "\<exists>total each. instance_samples silent_inspector demo_compute_env ?p None demo_instance ''vm'' (?c, ()) = ((?c, ()), [total], Inr ()) \<and>
    instance_samples silent_inspector demo_compute_env ?q None demo_instance ''vm'' (?c, ()) = ((?c, ()), each, Inr ()) \<and>
    map s_volume each = map (\<lambda>st. PInt (?v st (cp_key ?p))) demo_disks \<and>
    s_volume total = PInt (sum_list (map (\<lambda>st. ?v st (cp_key ?p)) demo_disks))"
    by (intro disks_add_up [where polled = "PInt 7"]) (auto simp: pq pollster_def demo_disks_def split: if_splits)
  then show ?thesis by (simp add: pq pollster_def demo_disks_def) blast
qed

end
