(* ===== verification/Nova_Client.thy ===== *)
theory Nova_Client
  imports Service_Calls
begin

text \<open>
  The Nova client (\<^verbatim>\<open>ceilometer/nova_client.py\<close>): the instances of a host with the details of
  their flavors and images. A server, a flavor and an image are the dictionaries of their
  attributes; the client libraries are parameters.
\<close>

definition Unauthorized :: pyexc where "Unauthorized = OtherError ''Unauthorized''"
definition NotFound :: pyexc where "NotFound = OtherError ''NotFound''"
definition HTTPNotFound :: pyexc where "HTTPNotFound = OtherError ''HTTPNotFound''"

record 'w nova =
  nv_flavor :: "pyval \<Rightarrow> ('w, pymap) svc"
  nv_image :: "pyval \<Rightarrow> ('w, pymap) svc"
  nv_servers :: "pymap \<Rightarrow> ('w, pymap list) svc"
  nv_floating_ips :: "('w, pymap list) svc"
  nv_repr :: "pyval \<Rightarrow> string"

text \<open>\<open>rebuild_client\<close> calls \<open>__init__\<close> without the configuration that it needs.\<close>

definition rebuild_client :: "('w, unit) svc" where
  "rebuild_client = pure (Inl TypeError)"

section \<open>Flavors\<close>

text \<open>What \<open>get\<close> of a flavor or an image leaves in the cache: nothing for one that is not found.\<close>

definition lookup_detail :: "pyexc \<Rightarrow> (pyval \<Rightarrow> ('w, pymap) svc) \<Rightarrow> pyval \<Rightarrow> ('w, pymap option) svc" where
  "lookup_detail missing get i =
     (\<lambda>w. case get i w of
        (w1, Inr d) \<Rightarrow> (w1, Inr (Some d))
      | (w1, Inl e) \<Rightarrow>
          (if e = missing then (w1, Inr None)
           else if e = Unauthorized then bindw rebuild_client (\<lambda>_. pure (Inr None)) w1
           else (w1, Inl e)))"

type_synonym details = "pymap option vdict"

definition cached_detail ::
  "pyexc \<Rightarrow> (pyval \<Rightarrow> ('w, pymap) svc) \<Rightarrow> pyval \<Rightarrow> details \<Rightarrow> ('w, details \<times> pymap option) svc" where
  "cached_detail missing get i c =
     (if \<not> hashable i then pure (Inl TypeError)
      else case vdict_get c i of
        Some d \<Rightarrow> pure (Inr (c, d))
      | None \<Rightarrow> bindw (lookup_detail missing get i) (\<lambda>d. pure (Inr (vdict_put i d c, d))))"

definition flavor_defaults :: "string \<Rightarrow> pymap" where
  "flavor_defaults fid =
     [(''name'', PStr (''unknown-id-'' @ fid)), (''vcpus'', PInt 0), (''ram'', PInt 0), (''disk'', PInt 0), (''ephemeral'', PInt 0)]"

definition flavor_attributes :: "string \<Rightarrow> pymap option \<Rightarrow> pymap" where
  "flavor_attributes fid flavor =
     map (\<lambda>(k, d). (k, case flavor of None \<Rightarrow> d | Some f \<Rightarrow> dict_get_default f k d)) (flavor_defaults fid)"

definition with_flavor :: "'w nova \<Rightarrow> pymap \<Rightarrow> details \<Rightarrow> ('w, details \<times> pymap) svc" where
  "with_flavor nv x c =
     bindw (pure (bindr (py_getattr x ''flavor'') (\<lambda>f. bindr (py_getitem f (PStr ''id'')) (\<lambda>i. Inr (f, i))))) (\<lambda>(f, fid).
     bindw (cached_detail NotFound (nv_flavor nv) fid c) (\<lambda>(c1, flavor).
       pure (case f of
           PDict d \<Rightarrow> Inr (c1, dict_set ''flavor'' (PDict (dict_update d (flavor_attributes (py_str (nv_repr nv) fid) flavor))) x)
         | _ \<Rightarrow> Inl TypeError)))"

section \<open>Images\<close>

definition no_image :: "pymap \<Rightarrow> pymap" where
  "no_image x = dict_set ''ramdisk_id'' PNone (dict_set ''kernel_id'' PNone (dict_set ''image'' PNone x))"

definition image_attribute :: "pymap option \<Rightarrow> string \<Rightarrow> pyval res" where
  "image_attribute im k =
     (case im of
        None \<Rightarrow> Inr PNone
      | Some m \<Rightarrow>
          (let md = dict_get_default m ''metadata'' PNone
           in if truthy md then py_get md k PNone else Inr PNone))"

definition with_image :: "'w nova \<Rightarrow> pymap \<Rightarrow> details \<Rightarrow> ('w, details \<times> pymap) svc" where
  "with_image nv x c =
     (case bindr (py_getattr x ''image'') (\<lambda>im. py_getitem im (PStr ''id'')) of
        Inl e \<Rightarrow> pure (if e = TypeError then Inr (c, no_image x) else Inl e)
      | Inr iid \<Rightarrow>
          bindw (cached_detail HTTPNotFound (nv_image nv) iid c) (\<lambda>(c1, im).
          bindw (pure (case im of
                     None \<Rightarrow> Inr (PStr (''unknown-id-'' @ py_str (nv_repr nv) iid))
                   | Some m \<Rightarrow> py_getattr m ''name'')) (\<lambda>name.
            pure (case dict_get x ''image'' of
                Some (PDict d) \<Rightarrow>
                  bindr (image_attribute im ''kernel_id'') (\<lambda>k.
                  bindr (image_attribute im ''ramdisk_id'') (\<lambda>r.
                    Inr (c1, dict_set ''ramdisk_id'' r (dict_set ''kernel_id'' k (dict_set ''image'' (PDict (dict_set ''name'' name d)) x)))))
              | _ \<Rightarrow> Inl TypeError))))"

fun with_flavor_and_image :: "'w nova \<Rightarrow> pymap list \<Rightarrow> details \<Rightarrow> details \<Rightarrow> ('w, pymap list) svc" where
  "with_flavor_and_image nv [] fc ic = pure (Inr [])"
| "with_flavor_and_image nv (x # xs) fc ic =
     bindw (with_flavor nv x fc) (\<lambda>(fc1, x1).
     bindw (with_image nv x1 ic) (\<lambda>(ic1, x2).
     bindw (with_flavor_and_image nv xs fc1 ic1) (\<lambda>ys. pure (Inr (x2 # ys)))))"

section \<open>Listing instances\<close>

text \<open>A call that is tried again after an \<open>Unauthorized\<close>, when the client could be rebuilt.\<close>

definition retried :: "('w, 'a) svc \<Rightarrow> ('w, 'a) svc" where
  "retried m = (\<lambda>w. case m w of
     (w1, Inl e) \<Rightarrow> (if e = Unauthorized then bindw rebuild_client (\<lambda>_. m) w1 else (w1, Inl e))
   | r \<Rightarrow> r)"

definition search_opts :: "string option \<Rightarrow> string option \<Rightarrow> pymap" where
  "search_opts hostname since =
     (case hostname of None \<Rightarrow> [] | Some h \<Rightarrow> [(''host'', PStr h)]) @ [(''all_tenants'', PBool True)] @
     (case since of None \<Rightarrow> [] | Some s \<Rightarrow> if s = [] then [] else [(''changes-since'', PStr s)])"

definition instance_get_all_by_host :: "'w nova \<Rightarrow> string \<Rightarrow> string option \<Rightarrow> ('w, pymap list) svc" where
  "instance_get_all_by_host nv hostname since =
     retried (bindw (nv_servers nv (search_opts (Some hostname) since)) (\<lambda>xs. with_flavor_and_image nv xs [] []))"

definition instance_get_all :: "'w nova \<Rightarrow> string option \<Rightarrow> ('w, pymap list) svc" where
  "instance_get_all nv since = retried (nv_servers nv (search_opts None since))"

definition floating_ip_get_all :: "'w nova \<Rightarrow> ('w, pymap list) svc" where
  "floating_ip_get_all nv = retried (nv_floating_ips nv)"

section \<open>Facts\<close>

text \<open>An expired token is not repaired: the call ends with a \<open>TypeError\<close>.\<close>

lemma unauthorized_not_retried: "m w = (w1, Inl Unauthorized) \<Longrightarrow> retried m w = (w1, Inl TypeError)"
  by (simp add: retried_def bindw_def rebuild_client_def pure_def)

text \<open>What an instance has once its details are known.\<close>

definition detailed :: "pymap \<Rightarrow> bool" where
  "detailed x \<longleftrightarrow>
     (\<exists>d. dict_get x ''flavor'' = Some (PDict d) \<and>
          (\<forall>k \<in> {''name'', ''vcpus'', ''ram'', ''disk'', ''ephemeral''}. dict_get d k \<noteq> None)) \<and>
     (\<forall>k \<in> {''image'', ''kernel_id'', ''ramdisk_id''}. dict_get x k \<noteq> None)"

lemma flavor_attributes_keys: "dict_keys (flavor_attributes fid fl) = [''name'', ''vcpus'', ''ram'', ''disk'', ''ephemeral'']"
  by (simp add: flavor_attributes_def flavor_defaults_def)

lemma with_flavor_detailed:
  assumes "with_flavor nv x c w = (w1, Inr (c1, x1))"
  shows "\<exists>d. dict_get x1 ''flavor'' = Some (PDict d) \<and>
    (\<forall>k \<in> {''name'', ''vcpus'', ''ram'', ''disk'', ''ephemeral''}. dict_get d k \<noteq> None)"
proof -
  obtain d fid fl where x1: "x1 = dict_set ''flavor'' (PDict (dict_update d (flavor_attributes (py_str (nv_repr nv) fid) fl))) x"
    using assms by (auto simp: with_flavor_def dest!: bindw_InrD pure_InrD split: pyval.splits)
  have "dict_ok (flavor_attributes (py_str (nv_repr nv) fid) fl)"
    unfolding dict_ok_def flavor_attributes_keys by simp
  then have "dict_get (dict_update d (flavor_attributes (py_str (nv_repr nv) fid) fl)) k \<noteq> None"
    if "k \<in> set (dict_keys (flavor_attributes (py_str (nv_repr nv) fid) fl))" for k
    using that by (simp only: dict_update_get dict_get_None_iff split: option.split) (metis dict_get_None_iff option.distinct(1))
  then show ?thesis unfolding x1 flavor_attributes_keys by (auto simp: dict_get_set)
qed

lemma with_image_detailed:
  assumes "with_image nv x c w = (w1, Inr (c1, x1))"
  shows "dict_get x1 ''flavor'' = dict_get x ''flavor'' \<and> (\<forall>k \<in> {''image'', ''kernel_id'', ''ramdisk_id''}. dict_get x1 k \<noteq> None)"
  using assms
  by (auto simp: with_image_def no_image_def dict_get_set bindr_Inr_iff dest!: bindw_InrD pure_InrD
      split: sum.splits if_splits option.splits pyval.splits)

text \<open>
  Every instance that the Nova client lists has its details: a flavor with a name, processors, memory,
  disk and ephemeral disk, also when Nova does not know the flavor, and an image, a kernel and a
  ramdisk, which may be missing. The list has the servers that Nova gave, in their order.
\<close>

lemma listed_instances_detailed:
  assumes "with_flavor_and_image nv xs fc ic w = (w1, Inr ys)"
  shows "length ys = length xs \<and> list_all detailed ys"
  using assms
proof (induction xs arbitrary: fc ic w ys)
  case (Cons x xs)
  obtain fc1 x1 w2 ic1 x2 w3 zs where 1: "with_flavor nv x fc w = (w2, Inr (fc1, x1))"
    and 2: "with_image nv x1 ic w2 = (w3, Inr (ic1, x2))"
    and 3: "with_flavor_and_image nv xs fc1 ic1 w3 = (w1, Inr zs)" "ys = x2 # zs"
    using Cons.prems by (fastforce dest!: bindw_InrD pure_InrD)
  show ?case
    using Cons.IH [OF 3(1)] with_flavor_detailed [OF 1] with_image_detailed [OF 2] by (simp add: 3(2) detailed_def)
qed (simp add: pure_def)

end
