(* ===== verification/Compute_Discovery.thy ===== *)
theory Compute_Discovery
  imports Compute_Pollsters Nova_Client
begin

text \<open>
  The discovery of instances (\<^verbatim>\<open>ceilometer/compute/discovery.py\<close>): from Nova, with a cache that is
  updated by what changed since the last run, or from libvirt and the metadata that Nova leaves
  with the domains. The connection to libvirt is the one of
  \<^verbatim>\<open>ceilometer/compute/virt/libvirt/utils.py\<close>. Times are microseconds, intervals are seconds.
\<close>

section \<open>The method\<close>

text \<open>
  The method of a subclass comes before the one of the configuration, which the older option
  changes from \<open>naive\<close> to \<open>workload_partitioning\<close>.
\<close>

definition discovery_method :: "string option \<Rightarrow> string \<Rightarrow> bool \<Rightarrow> string" where
  "discovery_method cls conf workload_partitioning =
     (case cls of
        Some m \<Rightarrow> if m \<noteq> [] then m else if conf = ''naive'' \<and> workload_partitioning then ''workload_partitioning'' else conf
      | None \<Rightarrow> if conf = ''naive'' \<and> workload_partitioning then ''workload_partitioning'' else conf)"

definition discover_instances :: "string \<Rightarrow> 'a \<Rightarrow> 'a \<Rightarrow> 'a" where
  "discover_instances meth from_nova from_libvirt = (if meth \<noteq> ''libvirt_metadata'' then from_nova else from_libvirt)"

section \<open>Discovery from Nova\<close>

record nova_discovery =
  nd_instances :: "pymap vdict"
  nd_last_run :: "int option"
  nd_last_expire :: "int option"

record nova_intervals =
  ni_update :: int
  ni_expiry :: int

definition nova_discovery_init :: nova_discovery where
  "nova_discovery_init = \<lparr>nd_instances = [], nd_last_run = None, nd_last_expire = None\<rparr>"

definition vdict_pop :: "pyval \<Rightarrow> 'v vdict \<Rightarrow> 'v vdict res" where
  "vdict_pop k d =
     (if d = [] then Inr [] else if \<not> hashable k then Inl TypeError else Inr (filter (\<lambda>(k', v). \<not> py_eq k' k) d))"

definition gone :: "pymap \<Rightarrow> bool" where
  "gone x \<longleftrightarrow> dict_get_default x ''OS-EXT-STS:vm_state'' PNone \<in> {PStr ''deleted'', PStr ''error''}"

definition note_instance :: "pymap \<Rightarrow> pymap vdict \<Rightarrow> pymap vdict res" where
  "note_instance x d = bindr (py_getattr x ''id'') (\<lambda>i. if gone x then vdict_pop i d else vdict_set i x d)"

fun note_instances :: "pymap list \<Rightarrow> pymap vdict \<Rightarrow> (pymap vdict, unit) sres" where
  "note_instances [] d = (d, Inr ())"
| "note_instances (x # xs) d = (case note_instance x d of Inl e \<Rightarrow> (d, Inl e) | Inr d1 \<Rightarrow> note_instances xs d1)"

definition delta_micros :: "int option \<Rightarrow> int \<Rightarrow> int" where
  "delta_micros since now = (case since of None \<Rightarrow> 0 | Some t \<Rightarrow> now - t)"

definition update_due :: "nova_intervals \<Rightarrow> int \<Rightarrow> nova_discovery \<Rightarrow> bool" where
  "update_due ni now d \<longleftrightarrow> nd_last_run d = None \<or> delta_micros (nd_last_run d) now \<ge> ni_update ni * 1000000"

definition incremental :: "nova_intervals \<Rightarrow> int \<Rightarrow> nova_discovery \<Rightarrow> bool" where
  "incremental ni now d \<longleftrightarrow> delta_micros (nd_last_expire d) now < ni_expiry ni * 1000000 \<and> nd_last_run d \<noteq> None"

text \<open>What precedes the request: a full refresh starts with an empty cache.\<close>

definition prepare_update :: "nova_intervals \<Rightarrow> (int \<Rightarrow> string) \<Rightarrow> int \<Rightarrow> nova_discovery \<Rightarrow> nova_discovery \<times> string option" where
  "prepare_update ni isoformat now d =
     (if incremental ni now d then (d, map_option isoformat (nd_last_run d))
      else (d\<lparr>nd_instances := [], nd_last_expire := Some now\<rparr>, None))"

definition discover_nova_polling ::
  "nova_intervals \<Rightarrow> (int \<Rightarrow> string) \<Rightarrow> (string option \<Rightarrow> ('w, pymap list) svc) \<Rightarrow> int \<Rightarrow> nova_discovery \<times> 'w \<Rightarrow>
   (nova_discovery \<times> 'w) \<times> pymap list res" where
  "discover_nova_polling ni isoformat get_all now dw =
     (case dw of (d, w) \<Rightarrow>
        (if update_due ni now d then
           (case prepare_update ni isoformat now d of
              (d1, since) \<Rightarrow>
                (case get_all since w of
                   (w1, Inl e) \<Rightarrow> ((d1, w1), Inr [])
                 | (w1, Inr xs) \<Rightarrow>
                     (case note_instances xs (nd_instances d1) of
                        (m, r) \<Rightarrow>
                          ((d1\<lparr>nd_instances := m, nd_last_run := Some now\<rparr>, w1),
                           bindr r (\<lambda>_. Inr (map snd m))))))
         else ((d, w), Inr (map snd (nd_instances d)))))"

subsection \<open>The cache follows Nova\<close>

text \<open>
  \<open>db t i\<close> is the record of the instance \<open>i\<close> on this host at the time \<open>t\<close>, \<open>None\<close> when it is not on
  this host, not yet or not any more: it may migrate. Nova's answer to a full request has every
  instance of the host that is not gone. The answer to a request of changes has every instance
  that is on the host now and has another record than then, with the record it has now; it does
  not tell of instances that have left the host.
\<close>

type_synonym nova_db = "int \<Rightarrow> string \<Rightarrow> pymap option"

definition records_of :: "nova_db \<Rightarrow> int \<Rightarrow> pymap list \<Rightarrow> bool" where
  "records_of db t xs \<longleftrightarrow> (\<forall>x\<in>set xs. \<exists>i. dict_get x ''id'' = Some (PStr i) \<and> db t i = Some x)"

definition live :: "nova_db \<Rightarrow> int \<Rightarrow> string \<Rightarrow> pymap option" where
  "live db t i = (case db t i of None \<Rightarrow> None | Some x \<Rightarrow> if gone x then None else Some x)"

lemma live_SomeD: "live db t i = Some x \<Longrightarrow> db t i = Some x"
  by (simp add: live_def split: option.splits if_splits)

definition honest :: "nova_db \<Rightarrow> (int \<Rightarrow> string) \<Rightarrow> int \<Rightarrow> (string option \<Rightarrow> pymap list res) \<Rightarrow> bool" where
  "honest db isoformat t answer \<longleftrightarrow>
     (\<forall>xs. answer None = Inr xs \<longrightarrow> records_of db t xs \<and> (\<forall>i x. live db t i = Some x \<longrightarrow> x \<in> set xs)) \<and>
     (\<forall>s xs. answer (Some (isoformat s)) = Inr xs \<longrightarrow>
        records_of db t xs \<and> (\<forall>i x. db t i = Some x \<and> db s i \<noteq> Some x \<longrightarrow> x \<in> set xs))"

definition well_named :: "nova_db \<Rightarrow> bool" where
  "well_named db \<longleftrightarrow> (\<forall>t i x. db t i = Some x \<longrightarrow> dict_get x ''id'' = Some (PStr i))"

text \<open>The discoveries of an agent, each with its time and the answers that Nova has then.\<close>

fun discoveries ::
  "nova_intervals \<Rightarrow> (int \<Rightarrow> string) \<Rightarrow> (int \<times> (string option \<Rightarrow> pymap list res)) list \<Rightarrow> nova_discovery \<Rightarrow> nova_discovery" where
  "discoveries ni isoformat [] d = d"
| "discoveries ni isoformat ((now, answer) # polls) d =
     discoveries ni isoformat polls (fst (fst (discover_nova_polling ni isoformat (\<lambda>since. pure (answer since)) now (d, ()))))"

text \<open>The keys of the cache are distinct names, and each instance is under its own.\<close>

definition cache_ok :: "pymap vdict \<Rightarrow> bool" where
  "cache_ok d \<longleftrightarrow> distinct (map fst d) \<and> (\<forall>(k, x)\<in>set d. \<exists>i. k = PStr i \<and> dict_get x ''id'' = Some k)"

definition cached :: "pymap vdict \<Rightarrow> string \<Rightarrow> pymap option" where
  "cached d i = vdict_get d (PStr i)"

lemma vdict_get_str: "vdict_get d (PStr i) = map_of d (PStr i)"
  by (induction d) (auto simp: vdict_get_def)

lemma vdict_put_str: "vdict_put (PStr i) x d = AList.update (PStr i) x d"
  by (induction d) auto

lemma vdict_pop_str: "vdict_pop (PStr i) d = Inr (AList.delete (PStr i) d)"
  by (auto simp: vdict_pop_def AList.delete_eq intro!: filter_cong)

lemma note_instance_named:
  assumes "dict_get x ''id'' = Some (PStr i)"
  shows "note_instance x d = Inr (if gone x then AList.delete (PStr i) d else AList.update (PStr i) x d)"
  using assms by (simp add: note_instance_def py_getattr_def vdict_pop_str vdict_set_def vdict_put_str)

lemma cache_ok_delete: "cache_ok d \<Longrightarrow> cache_ok (AList.delete k d)"
  using distinct_delete [of d k] by (auto simp: cache_ok_def AList.delete_eq)

lemma cache_ok_update:
  "cache_ok d \<Longrightarrow> dict_get x ''id'' = Some (PStr i) \<Longrightarrow> cache_ok (AList.update (PStr i) x d)"
  unfolding cache_ok_def by (fastforce simp: distinct_update dest: dict_set_memberD)

text \<open>After the records of a time have been noted, their instances are cached as they are then.\<close>

lemma note_instances_live:
  assumes "well_named db" and "records_of db t xs" and "cache_ok d"
  shows "\<exists>m. note_instances xs d = (m, Inr ()) \<and> cache_ok m \<and>
    (\<forall>i. cached m i = (if \<exists>x\<in>set xs. db t i = Some x then live db t i else cached d i))"
  using assms
proof (induction xs arbitrary: d)
  case (Cons x xs)
  obtain i where i: "dict_get x ''id'' = Some (PStr i)" "db t i = Some x" using Cons.prems(2) by (auto simp: records_of_def)
  define d1 where "d1 = (if gone x then AList.delete (PStr i) d else AList.update (PStr i) x d)"
  have ok: "cache_ok d1" using Cons.prems(3) i(1) by (simp add: d1_def cache_ok_delete cache_ok_update)
  have d1: "cached d1 j = (if j = i then live db t i else cached d j)" for j
    by (simp add: d1_def cached_def vdict_get_str live_def i(2) delete_conv' update_conv')
  have same: "j = i" if "db t j = Some x" for j
    using Cons.prems(1) [unfolded well_named_def, rule_format, OF that] i(1) by simp
  have recs: "records_of db t xs" using Cons.prems(2) by (simp add: records_of_def)
  obtain m where m: "note_instances xs d1 = (m, Inr ())" "cache_ok m"
    "\<forall>j. cached m j = (if \<exists>y\<in>set xs. db t j = Some y then live db t j else cached d1 j)"
    using Cons.IH [OF Cons.prems(1) recs ok] by blast
  have "cached m j = (if \<exists>y\<in>set (x # xs). db t j = Some y then live db t j else cached d j)" for j
  proof (cases "j = i")
    case False
    then have "db t j \<noteq> Some x" using same by blast
    then show ?thesis using m(3) [rule_format, of j] d1 [of j] False by simp
  qed (use m(3) [rule_format, of j] d1 [of j] i(2) in simp)
  moreover have "note_instances (x # xs) d = (m, Inr ())"
    using m(1) note_instance_named [OF i(1), of d] by (simp add: d1_def)
  ultimately show ?case using m(2) by blast
qed (simp add: records_of_def)

text \<open>
  What holds between discoveries. \<open>current\<close>: the cache has what Nova has at the time \<open>t\<close> for every
  instance on the host; what it has of others was so at a run since the last full refresh \<open>e\<close>.
\<close>

definition current :: "nova_db \<Rightarrow> int set \<Rightarrow> int \<Rightarrow> int \<Rightarrow> pymap vdict \<Rightarrow> bool" where
  "current db runs e t m \<longleftrightarrow>
     (\<forall>i. db t i \<noteq> None \<longrightarrow> cached m i = live db t i) \<and>
     (\<forall>i y. db t i = None \<and> cached m i = Some y \<longrightarrow> (\<exists>u\<in>runs. e \<le> u \<and> u \<le> t \<and> live db u i = Some y))"

definition follows :: "nova_db \<Rightarrow> int set \<Rightarrow> nova_discovery \<Rightarrow> bool" where
  "follows db runs d \<longleftrightarrow> cache_ok (nd_instances d) \<and>
     (\<forall>s. nd_last_run d = Some s \<longrightarrow> s \<in> runs \<and>
        (\<exists>e. nd_last_expire d = Some e \<and> e \<le> s \<and> current db runs e s (nd_instances d)))"

lemma current_mono: "current db runs e t m \<Longrightarrow> runs \<subseteq> runs' \<Longrightarrow> current db runs' e t m"
  unfolding current_def by blast

lemma follows_mono: "follows db runs d \<Longrightarrow> runs \<subseteq> runs' \<Longrightarrow> follows db runs' d"
  unfolding follows_def using current_mono by blast

lemma changes_current:
  assumes "well_named db" "current db runs e s d" "cache_ok d" "s \<in> runs" "e \<le> s" "s \<le> now"
    and "records_of db now xs" "\<forall>i x. db now i = Some x \<and> db s i \<noteq> Some x \<longrightarrow> x \<in> set xs"
  shows "\<exists>m. note_instances xs d = (m, Inr ()) \<and> cache_ok m \<and> current db runs e now m"
proof -
  obtain m where m: "note_instances xs d = (m, Inr ())" "cache_ok m"
    "\<And>i. cached m i = (if \<exists>x\<in>set xs. db now i = Some x then live db now i else cached d i)"
    using note_instances_live [OF assms(1,7,3)] by blast
  have "cached m i = live db now i" if here: "db now i \<noteq> None" for i
  proof (cases "\<exists>x\<in>set xs. db now i = Some x")
    case False
    from here obtain x where x: "db now i = Some x" by blast
    then have "x \<notin> set xs" using False by blast
    then have same: "db s i = db now i" using assms(8) x by metis
    then have "cached d i = live db s i" using assms(2) here by (simp add: current_def)
    then show ?thesis using m(3) [of i] False same by (simp add: live_def)
  qed (simp add: m(3))
  moreover have "\<exists>u\<in>runs. e \<le> u \<and> u \<le> now \<and> live db u i = Some y" if none: "db now i = None" and y: "cached m i = Some y" for i y
  proof -
    have y: "cached d i = Some y" using m(3) [of i] none y by simp
    show ?thesis
    proof (cases "db s i")
      case None
      then obtain u where "u \<in> runs" "e \<le> u" "u \<le> s" "live db u i = Some y"
        using assms(2) y unfolding current_def by blast
      then show ?thesis using assms(6) by force
    next
      case (Some x)
      then have "live db s i = Some y" using assms(2) y by (simp add: current_def)
      then show ?thesis using assms(4-6) by blast
    qed
  qed
  ultimately show ?thesis using m(1,2) unfolding current_def by blast
qed

lemma refresh_exact:
  assumes "well_named db" "records_of db now xs" "\<forall>i x. live db now i = Some x \<longrightarrow> x \<in> set xs"
  shows "\<exists>m. note_instances xs [] = (m, Inr ()) \<and> cache_ok m \<and> (\<forall>i. cached m i = live db now i)"
proof -
  have "cache_ok []" by (simp add: cache_ok_def)
  then obtain m where m: "note_instances xs [] = (m, Inr ())" "cache_ok m"
    "\<forall>i. cached m i = (if \<exists>x\<in>set xs. db now i = Some x then live db now i else cached [] i)"
    using note_instances_live [OF assms(1,2)] by blast
  have "cached m i = live db now i" for i
  proof (cases "live db now i")
    case None
    then show ?thesis using m(3) [rule_format, of i] by (simp add: cached_def vdict_get_def)
  next
    case (Some x)
    then have "x \<in> set xs" "db now i = Some x" using assms(3) by (auto simp: live_def split: option.splits if_splits)
    then show ?thesis using m(3) [rule_format, of i] by auto
  qed
  then show ?thesis using m(1,2) by blast
qed

lemma exact_current: "(\<forall>i. cached m i = live db t i) \<Longrightarrow> current db runs e t m"
proof -
  assume "\<forall>i. cached m i = live db t i"
  moreover have "live db t i = None" if "db t i = None" for i using that by (simp add: live_def)
  ultimately show "current db runs e t m" by (auto simp: current_def)
qed

lemma update_follows:
  assumes "well_named db" and "follows db runs d" and "honest db isoformat now answer"
    and "\<forall>s. nd_last_run d = Some s \<longrightarrow> s \<le> now"
    and "prepare_update ni isoformat now d = (d1, since)" and "answer since = Inr xs"
  shows "\<exists>m e. note_instances xs (nd_instances d1) = (m, Inr ()) \<and> cache_ok m
    \<and> nd_last_expire d1 = Some e \<and> e \<le> now \<and> current db runs e now m
    \<and> (if incremental ni now d then now - e < ni_expiry ni * 1000000 else \<forall>i. cached m i = live db now i)"
proof (cases "incremental ni now d")
  case True
  then obtain s where s: "nd_last_run d = Some s" by (auto simp: incremental_def)
  then have since: "d1 = d" "since = Some (isoformat s)" using assms(5) True by (simp_all add: prepare_update_def)
  have h: "records_of db now xs" "\<forall>i x. db now i = Some x \<and> db s i \<noteq> Some x \<longrightarrow> x \<in> set xs"
    using assms(3) [unfolded honest_def, THEN conjunct2, THEN spec [of _ s], THEN spec [of _ xs], THEN mp, OF assms(6) [unfolded since(2)]] by simp_all
  obtain e where e: "nd_last_expire d = Some e" "e \<le> s" "current db runs e s (nd_instances d)" "cache_ok (nd_instances d)" "s \<in> runs"
    using assms(2) s by (auto simp: follows_def)
  have "s \<le> now" using assms(4) s by simp
  from changes_current [OF assms(1) e(3,4,5,2) this h] obtain m where
    m: "note_instances xs (nd_instances d) = (m, Inr ())" "cache_ok m" "current db runs e now m" by blast
  have "now - e < ni_expiry ni * 1000000" using True e(1) by (simp add: incremental_def delta_micros_def)
  then show ?thesis using m e(1,2) \<open>s \<le> now\<close> True by (intro exI [of _ m] exI [of _ e]) (simp add: since(1))
next
  case False
  then have since: "nd_instances d1 = []" "since = None" "nd_last_expire d1 = Some now" using assms(5) by (auto simp: prepare_update_def)
  have h: "records_of db now xs" "\<forall>i x. live db now i = Some x \<longrightarrow> x \<in> set xs"
    using assms(3) [unfolded honest_def, THEN conjunct1, THEN spec, THEN mp, OF assms(6) [unfolded since(2)]] by simp_all
  from refresh_exact [OF assms(1) h] show ?thesis using False since exact_current by auto
qed

text \<open>A request of all instances that is refused is what the cache does not survive.\<close>

lemma discovery_follows:
  assumes "well_named db" and "follows db runs d" and "honest db isoformat now answer" and "is_ok (answer None)"
    and "\<forall>s. nd_last_run d = Some s \<longrightarrow> s \<le> now"
  shows "follows db (insert now runs) (fst (fst (discover_nova_polling ni isoformat (\<lambda>since. pure (answer since)) now (d, ()))))"
proof (cases "update_due ni now d")
  case True
  obtain d1 since where p: "prepare_update ni isoformat now d = (d1, since)" by (cases "prepare_update ni isoformat now d")
  show ?thesis
  proof (cases "answer since")
    case (Inl e)
    then have "since \<noteq> None" using assms(4) by (cases since) (auto simp: is_ok_iff)
    then have "d1 = d" using p by (auto simp: prepare_update_def split: if_splits)
    then show ?thesis using Inl p True follows_mono [OF assms(2)] by (auto simp: discover_nova_polling_def pure_def)
  next
    case (Inr xs)
    obtain m e where "note_instances xs (nd_instances d1) = (m, Inr ())" "cache_ok m" "nd_last_expire d1 = Some e" "e \<le> now"
      "current db runs e now m"
      using update_follows [OF assms(1-3,5) p Inr] by blast
    then show ?thesis using Inr p True current_mono [of db runs e now m "insert now runs"]
      by (auto simp: discover_nova_polling_def pure_def follows_def)
  qed
qed (use follows_mono [OF assms(2)] in \<open>auto simp: discover_nova_polling_def\<close>)

lemma last_run_time:
  assumes "\<forall>s. nd_last_run d = Some s \<longrightarrow> s \<le> now"
  shows "\<forall>s. nd_last_run (fst (fst (discover_nova_polling ni isoformat get_all now (d, w)))) = Some s \<longrightarrow> s \<le> now"
  using assms
  by (auto simp: discover_nova_polling_def prepare_update_def split: prod.splits sum.splits if_splits)

lemma discoveries_follow:
  assumes "well_named db" and "follows db runs d"
    and "\<forall>(t, answer)\<in>set polls. honest db isoformat t answer \<and> is_ok (answer None)"
    and "sorted (map fst polls @ [now])" and "\<forall>s t. nd_last_run d = Some s \<and> t \<in> set (map fst polls @ [now]) \<longrightarrow> s \<le> t"
  shows "follows db (fst ` set polls \<union> runs) (discoveries ni isoformat polls d)
    \<and> (\<forall>s. nd_last_run (discoveries ni isoformat polls d) = Some s \<longrightarrow> s \<le> now)"
  using assms(2-5)
proof (induction polls arbitrary: d runs)
  case (Cons q polls)
  obtain t answer where q: "q = (t, answer)" by (cases q)
  have h: "honest db isoformat t answer" "is_ok (answer None)" using Cons.prems(2) by (simp_all add: q)
  have old: "\<forall>s. nd_last_run d = Some s \<longrightarrow> s \<le> t" using Cons.prems(4) by (simp add: q)
  let ?d = "fst (fst (discover_nova_polling ni isoformat (\<lambda>since. pure (answer since)) t (d, ())))"
  have "\<forall>s u. nd_last_run ?d = Some s \<and> u \<in> set (map fst polls @ [now]) \<longrightarrow> s \<le> u"
    using last_run_time [OF old, of ni isoformat "\<lambda>since. pure (answer since)" "()"] Cons.prems(3)
    by (fastforce simp: q)
  from Cons.IH [OF discovery_follows [OF assms(1) Cons.prems(1) h old, of ni] _ _ this] show ?case
    using Cons.prems(2,3) by (simp add: q)
qed auto

lemma cached_values:
  assumes "cache_ok m"
  shows "distinct (map snd m) \<and> set (map snd m) = {x. \<exists>i. cached m i = Some x}"
proof -
  have key: "\<exists>i. fst p = PStr i \<and> dict_get (snd p) ''id'' = Some (fst p)" if "p \<in> set m" for p
    using assms(1) that by (auto simp: cache_ok_def)
  have dist: "distinct (map fst m)" using assms(1) by (simp add: cache_ok_def)
  have "inj_on snd (set m)" by (rule inj_onI) (metis key option.inject prod.expand)
  then have "distinct (map snd m)" using dist by (simp add: distinct_map)
  moreover have "x \<in> snd ` set m \<longleftrightarrow> (\<exists>i. cached m i = Some x)" for x
  proof
    assume "x \<in> snd ` set m"
    then obtain k where k: "(k, x) \<in> set m" by auto
    moreover obtain i where "k = PStr i" using key [OF k] by auto
    ultimately have "cached m i = Some x" using dist by (simp add: cached_def vdict_get_str)
    then show "\<exists>i. cached m i = Some x" ..
  next
    assume "\<exists>i. cached m i = Some x"
    then obtain i where "map_of m (PStr i) = Some x" by (auto simp: cached_def vdict_get_str)
    then show "x \<in> snd ` set m" by (force dest: map_of_SomeD)
  qed
  ultimately show ?thesis by auto
qed

text \<open>
  C28: Whatever the discoveries of an agent were before, one that is due and that Nova answers finds
  every instance that is on the host then and is neither deleted nor in error, each once and as it
  is now, whether it asks for all instances or for what changed since the last run. A full
  refresh finds nothing else. Another update may still find an instance that has left the host,
  as it was at an earlier discovery that is less than the cache expiry ago, and nothing else
  beside. Requests of changes may have failed in between; no request of all instances did.
\<close>

theorem nova_discovery_current:
  assumes "well_named db" and "\<forall>(t, answer)\<in>set polls. honest db isoformat t answer \<and> is_ok (answer None)"
    and "honest db isoformat now answer" and "\<forall>since. is_ok (answer since)" and "sorted (map fst polls @ [now])"
    and "d = discoveries ni isoformat polls nova_discovery_init" and "update_due ni now d"
  shows "\<exists>d1 xs. discover_nova_polling ni isoformat (\<lambda>since. pure (answer since)) now (d, ()) = ((d1, ()), Inr xs) \<and>
    distinct xs \<and> {x. \<exists>i. live db now i = Some x} \<subseteq> set xs \<and>
    (\<not> incremental ni now d \<longrightarrow> set xs = {x. \<exists>i. live db now i = Some x}) \<and>
    (\<forall>x \<in> set xs. (\<exists>i. live db now i = Some x) \<or>
       (\<exists>i. \<exists>t \<in> fst ` set polls. db now i = None \<and> live db t i = Some x \<and> now - t < ni_expiry ni * 1000000))"
proof -
  have "follows db {} nova_discovery_init" by (simp add: follows_def nova_discovery_init_def cache_ok_def)
  from discoveries_follow [OF assms(1) this assms(2,5)]
  have f: "follows db (fst ` set polls) d" and run: "\<forall>s. nd_last_run d = Some s \<longrightarrow> s \<le> now"
    by (simp_all add: assms(6) nova_discovery_init_def)
  obtain d1 since where p: "prepare_update ni isoformat now d = (d1, since)" by (cases "prepare_update ni isoformat now d")
  obtain ys where ys: "answer since = Inr ys" using assms(4) by (auto simp: is_ok_iff)
  obtain m e where m: "note_instances ys (nd_instances d1) = (m, Inr ())" "cache_ok m" "current db (fst ` set polls) e now m"
    and e: "if incremental ni now d then now - e < ni_expiry ni * 1000000 else \<forall>i. cached m i = live db now i"
    using update_follows [OF assms(1) f assms(3) run p ys] by blast
  have step: "discover_nova_polling ni isoformat (\<lambda>since. pure (answer since)) now (d, ()) =
      ((d1\<lparr>nd_instances := m, nd_last_run := Some now\<rparr>, ()), Inr (map snd m))"
    by (simp add: discover_nova_polling_def assms(7) p pure_def ys m(1))
  have vals: "distinct (map snd m)" "set (map snd m) = {x. \<exists>i. cached m i = Some x}" using cached_values [OF m(2)] by blast+
  have "cached m i = Some x" if "live db now i = Some x" for i x
    using m(3) that live_SomeD [OF that] by (simp add: current_def)
  then have all: "{x. \<exists>i. live db now i = Some x} \<subseteq> set (map snd m)" unfolding vals by blast
  have exact: "\<not> incremental ni now d \<longrightarrow> set (map snd m) = {x. \<exists>i. live db now i = Some x}"
    using e unfolding vals by simp
  have "(\<exists>i. live db now i = Some x) \<or>
       (\<exists>i. \<exists>t \<in> fst ` set polls. db now i = None \<and> live db t i = Some x \<and> now - t < ni_expiry ni * 1000000)"
    if x: "x \<in> set (map snd m)" for x
  proof -
    from x obtain i where i: "cached m i = Some x" unfolding vals by blast
    show ?thesis
    proof (cases "db now i = None \<and> incremental ni now d")
      case True
      with m(3) i obtain t where "t \<in> fst ` set polls" "e \<le> t" "live db t i = Some x" unfolding current_def by blast
      then show ?thesis using True e by force
    next
      case False
      then have "live db now i = Some x" using m(3) i e by (auto simp: current_def split: if_splits)
      then show ?thesis by blast
    qed
  qed
  with step vals(1) all exact show ?thesis by blast
qed

text \<open>
  A refused request of all instances leaves an empty cache and an expiry that has just begun, so the
  next request is one of changes: an instance that does not change is not found any more until
  the cache expires again.
\<close>

lemma refused_refresh_forgets:
  assumes "nd_last_run d = Some s" and "update_due ni now d" and "\<not> incremental ni now d"
    and "answer None = Inl e" and "now \<le> t" "t < now + ni_expiry ni * 1000000"
    and "d1 = fst (fst (discover_nova_polling ni isoformat (\<lambda>since. pure (answer since)) now (d, ())))"
  shows "nd_instances d1 = [] \<and> prepare_update ni isoformat t d1 = (d1, Some (isoformat s))"
  using assms by (simp add: discover_nova_polling_def prepare_update_def pure_def incremental_def delta_micros_def)

definition demo_vm :: "string \<Rightarrow> string \<Rightarrow> pymap" where
  "demo_vm i state = [(''id'', PStr i), (''OS-EXT-STS:vm_state'', PStr state)]"

text \<open>Of three instances, one is deleted and one leaves the host, both at the time 5.\<close>

definition demo_db :: nova_db where
  "demo_db t i =
     (if i = ''a'' then Some (demo_vm i ''active'')
      else if i = ''b'' then Some (demo_vm i (if t < 5 then ''active'' else ''deleted''))
      else if i = ''c'' \<and> t < 5 then Some (demo_vm i ''active'') else None)"

definition demo_nova :: "int \<Rightarrow> string option \<Rightarrow> pymap list res" where
  "demo_nova t since = Inr ([demo_vm ''a'' ''active'', demo_vm ''b'' (if t < 5 then ''active'' else ''deleted'')]
     @ (if t < 5 then [demo_vm ''c'' ''active''] else []))"

lemma demo_gone: "gone (demo_vm i s) \<longleftrightarrow> s = ''deleted'' \<or> s = ''error''"
  by (simp add: gone_def demo_vm_def dict_get_default_def)

lemma demo_db_cases:
  "demo_db t i = Some x \<longleftrightarrow> i = ''a'' \<and> x = demo_vm ''a'' ''active'' \<or>
     i = ''b'' \<and> x = demo_vm ''b'' (if t < 5 then ''active'' else ''deleted'') \<or>
     i = ''c'' \<and> t < 5 \<and> x = demo_vm ''c'' ''active''"
  by (auto simp: demo_db_def)

lemma demo_db_named: "well_named demo_db"
  by (simp add: well_named_def demo_db_cases) (auto simp: demo_vm_def)

lemma demo_nova_honest: "honest demo_db (\<lambda>t. []) t (demo_nova t)"
proof -
  let ?xs = "[demo_vm ''a'' ''active'', demo_vm ''b'' (if t < 5 then ''active'' else ''deleted'')]
     @ (if t < 5 then [demo_vm ''c'' ''active''] else [])"
  have "dict_get (demo_vm i s) ''id'' = Some (PStr i)" for i s by (simp add: demo_vm_def)
  then have 1: "records_of demo_db t ?xs" by (simp add: records_of_def demo_db_cases)
  have 2: "x \<in> set ?xs" if "demo_db t i = Some x" for i x using that by (auto simp: demo_db_cases)
  have 3: "x \<in> set ?xs" if "live demo_db t i = Some x" for i x
    using 2 [OF live_SomeD [OF that]] .
  show ?thesis unfolding honest_def demo_nova_def sum.inject using 1 2 3 by blast
qed

text \<open>The discovery at 10 asks for changes and still finds the instance that has left.\<close>

theorem nova_discovery_current_witness:
  "\<exists>d1 xs. discover_nova_polling \<lparr>ni_update = 0, ni_expiry = 3600\<rparr> (\<lambda>t. []) (\<lambda>since. pure (demo_nova 10 since)) 10
       (discoveries \<lparr>ni_update = 0, ni_expiry = 3600\<rparr> (\<lambda>t. []) [(0, demo_nova 0)] nova_discovery_init, ()) = ((d1, ()), Inr xs) \<and>
     distinct xs \<and> demo_vm ''a'' ''active'' \<in> set xs \<and> demo_vm ''b'' ''active'' \<notin> set xs \<and> demo_vm ''c'' ''active'' \<in> set xs"
proof -
  let ?ni = "\<lparr>ni_update = 0, ni_expiry = 3600\<rparr>"
  let ?d = "discoveries ?ni (\<lambda>t. []) [(0, demo_nova 0)] nova_discovery_init"
  have due: "update_due ?ni 10 ?d" by code_simp
  have ok: "\<forall>since. is_ok (demo_nova t since)" for t by (simp add: demo_nova_def)
  have polls: "\<forall>(t, answer)\<in>set [(0, demo_nova 0)]. honest demo_db (\<lambda>t. []) t answer \<and> is_ok (answer None)"
    using demo_nova_honest by (simp add: demo_nova_def)
  obtain d1 xs where run: "discover_nova_polling ?ni (\<lambda>t. []) (\<lambda>since. pure (demo_nova 10 since)) 10 (?d, ()) = ((d1, ()), Inr xs)"
    "distinct xs" "{x. \<exists>i. live demo_db 10 i = Some x} \<subseteq> set xs"
    "\<forall>x \<in> set xs. (\<exists>i. live demo_db 10 i = Some x) \<or>
       (\<exists>i. \<exists>t \<in> fst ` set [(0 :: int, demo_nova 0)]. demo_db 10 i = None \<and> live demo_db t i = Some x \<and> 10 - t < 3600 * 1000000)"
    using nova_discovery_current [OF demo_db_named polls demo_nova_honest ok _ refl due] by auto
  have "live demo_db 10 ''a'' = Some (demo_vm ''a'' ''active'')" by (simp add: live_def demo_db_def demo_gone)
  with run(3) have "demo_vm ''a'' ''active'' \<in> set xs" by blast
  moreover have "demo_vm ''b'' ''active'' \<notin> set xs"
  proof
    assume "demo_vm ''b'' ''active'' \<in> set xs"
    with run(4) obtain i t where "live demo_db t i = Some (demo_vm ''b'' ''active'')" "t = 10 \<or> demo_db 10 i = None" by blast
    then show False using live_SomeD [of demo_db t i] by (auto simp: demo_db_cases demo_vm_def demo_db_def split: if_splits)
  qed
  moreover have "snd (discover_nova_polling ?ni (\<lambda>t. []) (\<lambda>since. pure (demo_nova 10 since)) 10 (?d, ()))
      = Inr [demo_vm ''a'' ''active'', demo_vm ''c'' ''active'']" by code_simp
  then have "demo_vm ''c'' ''active'' \<in> set xs" by (simp add: run(1) del: discoveries.simps)
  ultimately show ?thesis using run(1,2) by blast
qed

section \<open>The connection to libvirt\<close>

definition LIBVIRT_PER_TYPE_URIS :: "(string \<times> string) list" where
  "LIBVIRT_PER_TYPE_URIS = [(''uml'', ''uml:///system''), (''xen'', ''xen:///''), (''lxc'', ''lxc:///'')]"

definition LIBVIRT_POWER_STATE :: "(int \<times> string) list" where
  "LIBVIRT_POWER_STATE =
     [(0, ''pending''), (1, ''running''), (2, ''running''), (3, ''paused''), (4, ''shutdown''), (5, ''shutdown''),
      (6, ''crashed''), (7, ''suspended'')]"

definition LIBVIRT_STATUS :: "(int \<times> string) list" where
  "LIBVIRT_STATUS =
     [(0, ''building''), (1, ''active''), (2, ''active''), (3, ''paused''), (4, ''stopped''), (5, ''stopped''),
      (6, ''error''), (7, ''suspended'')]"

text \<open>
  What the code uses of libvirt, lxml and the Nova client: handles of connections, domains, XML
  elements, which exceptions of libvirt there are and which of them a lost connection has.
\<close>

record 'w libvirt_domain =
  dm_uuid :: string
  dm_name :: string
  dm_metadata :: "('w, string) svc"
  dm_desc :: "('w, string) svc"
  dm_state :: "('w, int) svc"

record ('w, 'k, 'x) libvirt =
  lv_alive :: "'k \<Rightarrow> ('w, bool) svc"
  lv_open :: "string \<Rightarrow> ('w, 'k) svc"
  lv_domains :: "'k \<Rightarrow> ('w, 'w libvirt_domain list) svc"
  lv_error :: "pyexc \<Rightarrow> bool"
  lv_disconnected :: "pyexc \<Rightarrow> bool"
  lv_fromstring :: "string \<Rightarrow> 'x res"
  lv_find :: "'x \<Rightarrow> string \<Rightarrow> 'x option"
  lv_text :: "'x \<Rightarrow> string option"
  lv_attrib :: "'x \<Rightarrow> string \<Rightarrow> string option"
  lv_flavor :: "string \<Rightarrow> ('w, pyval) svc"
  lv_sha224 :: "string \<Rightarrow> string"

record libvirt_conf =
  lc_uri :: string
  lc_type :: string
  lc_host :: string

definition libvirt_uri :: "libvirt_conf \<Rightarrow> string" where
  "libvirt_uri conf = (if lc_uri conf \<noteq> [] then lc_uri conf else dict_get_default LIBVIRT_PER_TYPE_URIS (lc_type conf) ''qemu:///system'')"

definition refresh_libvirt_connection :: "('w, 'k, 'x) libvirt \<Rightarrow> libvirt_conf \<Rightarrow> 'k option \<Rightarrow> ('w, 'k) svc" where
  "refresh_libvirt_connection lv conf c =
     (case c of
        None \<Rightarrow> lv_open lv (libvirt_uri conf)
      | Some k \<Rightarrow> bindw (lv_alive lv k) (\<lambda>b. if b then pure (Inr k) else lv_open lv (libvirt_uri conf)))"

text \<open>\<open>retry_on_disconnect\<close>: two attempts.\<close>

definition RetryError :: pyexc where "RetryError = OtherError ''RetryError''"

definition retry_on_disconnect :: "(pyexc \<Rightarrow> bool) \<Rightarrow> ('w, 'a) svc \<Rightarrow> ('w, 'a) svc" where
  "retry_on_disconnect disconnected m =
     (\<lambda>w. case m w of
        (w1, Inl e) \<Rightarrow>
          (if disconnected e then
             (case m w1 of (w2, Inl e2) \<Rightarrow> (w2, Inl (if disconnected e2 then RetryError else e2)) | r \<Rightarrow> r)
           else (w1, Inl e))
      | r \<Rightarrow> r)"

section \<open>Discovery from libvirt\<close>

text \<open>
  The flavor cache is an \<open>LRUCache\<close> of 4096 names: what it returns for a name, with the cache after
  the access, and what it is after a name has been stored.
\<close>

record 'c lru =
  lru_get :: "string \<Rightarrow> 'c \<Rightarrow> ('c \<times> pyval) option"
  lru_set :: "string \<Rightarrow> pyval \<Rightarrow> 'c \<Rightarrow> 'c"

text \<open>A call of a service that leaves the state of the discovery as it is.\<close>

definition outside :: "('w, 'a) svc \<Rightarrow> ('s \<times> 'w, 'a) svc" where
  "outside m = (\<lambda>(s, w). case m w of (w1, r) \<Rightarrow> ((s, w1), r))"

lemma outside_Inr_iff: "outside m (s, w) = ((s1, w1), Inr x) \<longleftrightarrow> s1 = s \<and> m w = (w1, Inr x)"
  by (auto simp: outside_def split: prod.splits)

definition get_flavor_id :: "'c lru \<Rightarrow> (string \<Rightarrow> ('w, pyval) svc) \<Rightarrow> string \<Rightarrow> ('c \<times> 'w, pyval) svc" where
  "get_flavor_id lru find_flavor name = (\<lambda>(c, w).
     (case lru_get lru name c of
        Some (c1, v) \<Rightarrow> ((c1, w), Inr v)
      | None \<Rightarrow>
          (case find_flavor name w of
             (w1, Inl e) \<Rightarrow> (if e = NotFound then ((lru_set lru name PNone c, w1), Inr PNone) else ((c, w1), Inl e))
           | (w1, Inr v) \<Rightarrow> ((lru_set lru name v c, w1), Inr v))))"

text \<open>An attribute of what \<open>find\<close> returned, and an item of its \<open>attrib\<close>.\<close>

definition element :: "string \<Rightarrow> 'x option \<Rightarrow> 'x res" where
  "element what x = (case x of None \<Rightarrow> Inl (AttributeError what) | Some e \<Rightarrow> Inr e)"

definition element_attrib :: "('w, 'k, 'x) libvirt \<Rightarrow> 'x option \<Rightarrow> string \<Rightarrow> string res" where
  "element_attrib lv x k =
     bindr (element ''attrib'' x) (\<lambda>e. case lv_attrib lv e k of None \<Rightarrow> Inl (KeyError k) | Some s \<Rightarrow> Inr s)"

definition element_text :: "('w, 'k, 'x) libvirt \<Rightarrow> 'x option \<Rightarrow> pyval res" where
  "element_text lv x = bindr (element ''text'' x) (\<lambda>e. Inr (case lv_text lv e of None \<Rightarrow> PNone | Some s \<Rightarrow> PStr s))"

definition safe_find_int :: "('w, 'k, 'x) libvirt \<Rightarrow> 'x \<Rightarrow> string \<Rightarrow> int res" where
  "safe_find_int lv xml path =
     (case lv_find lv xml (''./'' @ path) of
        None \<Rightarrow> Inr 0
      | Some e \<Rightarrow> bindr (element_text lv (Some e)) py_int)"

definition libvirt_flavor :: "('w, 'k, 'x) libvirt \<Rightarrow> pyval \<Rightarrow> string \<Rightarrow> 'x \<Rightarrow> pymap res" where
  "libvirt_flavor lv fid name xml =
     bindr (mapr (\<lambda>(k, path). bindr (safe_find_int lv xml path) (\<lambda>n. Inr (k, PInt n)))
              [(''vcpus'', ''vcpus''), (''ram'', ''memory''), (''disk'', ''disk''), (''ephemeral'', ''ephemeral''), (''swap'', ''swap'')])
       (\<lambda>sizes. Inr ([(''id'', fid), (''name'', PStr name)] @ sizes))"

definition state_entry :: "(int \<times> string) list \<Rightarrow> int \<Rightarrow> pyval" where
  "state_entry tab s = (case dict_get tab s of None \<Rightarrow> PNone | Some t \<Rightarrow> PStr t)"

definition instance_data ::
  "('w, 'k, 'x) libvirt \<Rightarrow> libvirt_conf \<Rightarrow> 'w libvirt_domain \<Rightarrow> 'x \<Rightarrow> 'x \<Rightarrow> pymap \<Rightarrow> int \<Rightarrow> pymap res" where
  "instance_data lv conf dm full md flavor s =
     bindr (element_attrib lv (lv_find lv md ''./owner/user'') ''uuid'') (\<lambda>user.
     bindr (element_attrib lv (lv_find lv md ''./owner/project'') ''uuid'') (\<lambda>project.
     bindr (case lv_find lv md (''./root[@type='' @ [CHR 0x27] @ ''image'' @ [CHR 0x27] @ '']'') of
              None \<Rightarrow> Inr PNone
            | Some e \<Rightarrow> bindr (element_attrib lv (Some e) ''uuid'') (\<lambda>i. Inr (PDict [(''id'', PStr i)]))) (\<lambda>im.
     bindr (element_text lv (lv_find lv md ''./name'')) (\<lambda>name.
     bindr (element_text lv (lv_find lv full ''./os/type'')) (\<lambda>os.
     bindr (element_attrib lv (lv_find lv full ''./os/type'') ''arch'') (\<lambda>arch.
       Inr [(''id'', PStr (dm_uuid dm)), (''name'', name), (''flavor'', PDict flavor), (''image'', im), (''os_type'', os),
            (''architecture'', PStr arch), (''OS-EXT-SRV-ATTR:instance_name'', PStr (dm_name dm)),
            (''OS-EXT-SRV-ATTR:host'', PStr (lc_host conf)), (''OS-EXT-STS:vm_state'', state_entry LIBVIRT_POWER_STATE s),
            (''tenant_id'', PStr project), (''user_id'', PStr user), (''hostId'', PStr (lv_sha224 lv (project @ lc_host conf))),
            (''status'', state_entry LIBVIRT_STATUS s), (''metadata'', PDict [])]))))))"

text \<open>
  A domain whose metadata libvirt does not give is skipped. Every other exception ends the
  discovery.
\<close>

definition discover_domain ::
  "('w, 'k, 'x) libvirt \<Rightarrow> 'c lru \<Rightarrow> libvirt_conf \<Rightarrow> 'w libvirt_domain \<Rightarrow> ('c \<times> 'w, pymap option) svc" where
  "discover_domain lv lru conf dm = (\<lambda>(c, w).
     (case dm_metadata dm w of
        (w1, Inl e) \<Rightarrow> ((c, w1), if lv_error lv e \<and> \<not> lv_disconnected lv e then Inr None else Inl e)
      | (w1, Inr xml) \<Rightarrow>
          bindw (outside (dm_desc dm)) (\<lambda>desc.
          bindw (pure (lv_fromstring lv desc)) (\<lambda>full.
          bindw (pure (lv_fromstring lv xml)) (\<lambda>md.
          bindw (pure (element_attrib lv (lv_find lv md ''./flavor'') ''name'')) (\<lambda>name.
          bindw (get_flavor_id lru (lv_flavor lv) name) (\<lambda>fid.
          bindw (pure (bindr (element ''find'' (lv_find lv md ''./flavor'')) (libvirt_flavor lv fid name))) (\<lambda>flavor.
          bindw (outside (dm_state dm)) (\<lambda>s.
          bindw (pure (instance_data lv conf dm full md flavor s)) (\<lambda>x. pure (Inr (Some x)))))))))) (c, w1)))"

fun discover_domains ::
  "('w, 'k, 'x) libvirt \<Rightarrow> 'c lru \<Rightarrow> libvirt_conf \<Rightarrow> 'w libvirt_domain list \<Rightarrow> ('c \<times> 'w, pymap list) svc" where
  "discover_domains lv lru conf [] = pure (Inr [])"
| "discover_domains lv lru conf (dm # dms) =
     bindw (discover_domain lv lru conf dm) (\<lambda>x.
     bindw (discover_domains lv lru conf dms) (\<lambda>xs. pure (Inr (case x of None \<Rightarrow> xs | Some i \<Rightarrow> i # xs))))"

text \<open>The connection is kept with the discovery, also when listing the domains fails.\<close>

definition discover_libvirt_once ::
  "('w, 'k, 'x) libvirt \<Rightarrow> 'c lru \<Rightarrow> libvirt_conf \<Rightarrow> ('k option \<times> 'c \<times> 'w, pymap list) svc" where
  "discover_libvirt_once lv lru conf = (\<lambda>(k, c, w).
     (case refresh_libvirt_connection lv conf k w of
        (w1, Inl e) \<Rightarrow> ((k, c, w1), Inl e)
      | (w1, Inr k1) \<Rightarrow>
          (case lv_domains lv k1 w1 of
             (w2, Inl e) \<Rightarrow> ((Some k1, c, w2), Inl e)
           | (w2, Inr dms) \<Rightarrow>
               (case discover_domains lv lru conf dms (c, w2) of
                  ((c3, w3), r) \<Rightarrow> ((Some k1, c3, w3), r)))))"

definition discover_libvirt_polling ::
  "('w, 'k, 'x) libvirt \<Rightarrow> 'c lru \<Rightarrow> libvirt_conf \<Rightarrow> ('k option \<times> 'c \<times> 'w, pymap list) svc" where
  "discover_libvirt_polling lv lru conf = retry_on_disconnect (lv_disconnected lv) (discover_libvirt_once lv lru conf)"

subsection \<open>What is discovered can be polled\<close>

lemma state_entry_known:
  "0 \<le> s \<Longrightarrow> s \<le> 7 \<Longrightarrow> \<exists>t. state_entry LIBVIRT_STATUS s = PStr t"
proof -
  assume "0 \<le> s" "s \<le> 7"
  then have "s \<in> {0, 1, 2, 3, 4, 5, 6, 7}" by auto
  then show ?thesis by (auto simp: state_entry_def LIBVIRT_STATUS_def)
qed

lemma libvirt_flavor_InrD:
  "libvirt_flavor lv fid name xml = Inr fl \<Longrightarrow>
   \<exists>vcpus ram disk eph swap. fl = [(''id'', fid), (''name'', PStr name), (''vcpus'', PInt vcpus), (''ram'', PInt ram),
     (''disk'', PInt disk), (''ephemeral'', PInt eph), (''swap'', PInt swap)]"
  by (auto simp: libvirt_flavor_def bindr_Inr_iff)

lemma instance_data_sampleable:
  assumes "instance_data lv conf dm full md flavor s = Inr x" and "libvirt_flavor lv fid name fx = Inr flavor"
    and "0 \<le> s" "s \<le> 7"
  shows "sampleable env x"
proof -
  obtain t where t: "state_entry LIBVIRT_STATUS s = PStr t" using state_entry_known [OF assms(3,4)] by blast
  obtain vcpus ram disk eph swap where fl: "flavor = [(''id'', fid), (''name'', PStr name), (''vcpus'', PInt vcpus), (''ram'', PInt ram),
     (''disk'', PInt disk), (''ephemeral'', PInt eph), (''swap'', PInt swap)]"
    using libvirt_flavor_InrD [OF assms(2)] by blast
  obtain user project im nm os arch where x: "x = [(''id'', PStr (dm_uuid dm)), (''name'', nm), (''flavor'', PDict flavor), (''image'', im), (''os_type'', os),
            (''architecture'', PStr arch), (''OS-EXT-SRV-ATTR:instance_name'', PStr (dm_name dm)),
            (''OS-EXT-SRV-ATTR:host'', PStr (lc_host conf)), (''OS-EXT-STS:vm_state'', state_entry LIBVIRT_POWER_STATE s),
            (''tenant_id'', PStr project), (''user_id'', PStr user), (''hostId'', PStr (lv_sha224 lv (project @ lc_host conf))),
            (''status'', state_entry LIBVIRT_STATUS s), (''metadata'', PDict [])]"
    and im: "im = PNone \<or> (\<exists>i. im = PDict [(''id'', PStr i)])"
    using assms(1) by (auto simp: instance_data_def bindr_Inr_iff split: option.splits)
  have "is_ok (image_metadata im)" using im by (auto simp: image_metadata_def py_getitem_def py_get_def dict_get_default_def dict_item_def)
  moreover have "is_ok (flavor_metadata (PDict flavor))" by (simp add: flavor_metadata_def fl py_getitem_def dict_item_def)
  moreover have "is_ok (base_metadata x)" by (simp add: base_metadata_def x t fl py_getattr_def py_getitem_def dict_item_def)
  moreover have "py_getattr x ''image'' = Inr im" "py_getattr x ''flavor'' = Inr (PDict flavor)" "py_getattr x ''metadata'' = Inr (PDict [])"
    by (simp_all add: x py_getattr_def)
  ultimately have "is_ok (get_metadata_from_object (ce_conf env) x)"
    by (auto simp: get_metadata_from_object_def is_ok_iff)
  then show ?thesis by (simp add: sampleable_def x)
qed

text \<open>The states that libvirt documents.\<close>

definition known_states :: "'w libvirt_domain \<Rightarrow> bool" where
  "known_states dm \<longleftrightarrow> (\<forall>w w1 s. dm_state dm w = (w1, Inr s) \<longrightarrow> 0 \<le> s \<and> s \<le> 7)"

lemma discover_domain_sampleable:
  assumes "known_states dm" and "discover_domain lv lru conf dm cw = (cw1, Inr (Some x))"
  shows "sampleable env x"
proof -
  obtain c w where cw: "cw = (c, w)" by (cases cw)
  obtain w1 xml where md: "dm_metadata dm w = (w1, Inr xml)"
    using assms(2) by (auto simp: discover_domain_def cw split: prod.splits sum.splits if_splits)
  obtain full mdx fid name flavor fx s w2 w3
    where s: "dm_state dm w2 = (w3, Inr s)" and fl: "libvirt_flavor lv fid name fx = Inr flavor"
      and x: "instance_data lv conf dm full mdx flavor s = Inr x"
  proof -
    from assms(2) show thesis
      unfolding discover_domain_def cw
      by (simp add: md bindw_Inr_iff pure_Inr_iff bindr_Inr_iff outside_Inr_iff) (elim exE conjE, rule that, assumption+)
  qed
  have "0 \<le> s \<and> s \<le> 7"
    using assms(1) s unfolding known_states_def by blast
  then show ?thesis using instance_data_sampleable [OF x fl] by blast
qed

lemma discover_domains_sampleable:
  "discover_domains lv lru conf dms cw = (cw1, Inr xs) \<Longrightarrow> (\<forall>dm\<in>set dms. known_states dm) \<Longrightarrow> list_all (sampleable env) xs"
proof (induction dms arbitrary: cw cw1 xs)
  case (Cons dm dms)
  obtain x cw2 ys where 1: "discover_domain lv lru conf dm cw = (cw2, Inr x)" and 2: "discover_domains lv lru conf dms cw2 = (cw1, Inr ys)"
    and xs: "xs = (case x of None \<Rightarrow> ys | Some i \<Rightarrow> i # ys)"
    using Cons.prems(1) by (auto simp: bindw_Inr_iff pure_Inr_iff)
  have "list_all (sampleable env) ys" using Cons.IH [OF 2] Cons.prems(2) by simp
  moreover have "known_states dm" using Cons.prems(2) by simp
  ultimately show ?case using discover_domain_sampleable [of dm lv lru conf cw cw2 _ env] 1 by (cases x) (simp_all add: xs)
qed (simp add: pure_Inr_iff)

lemma retry_InrD: "retry_on_disconnect disconnected m w = (w1, Inr x) \<Longrightarrow> \<exists>w0. m w0 = (w1, Inr x)"
  unfolding retry_on_disconnect_def by (cases "m w"; cases "snd (m w)") (auto split: if_splits prod.splits sum.splits)

text \<open>
  C29: The instances that are discovered from libvirt can all be polled: when libvirt reports states that
  it documents, every instance has what the samples of the compute pollsters are made of, also
  the ones discovered after a lost connection, with or without image, and with a flavor that
  Nova does not know.
\<close>

theorem libvirt_instances_sampleable:
  assumes "discover_libvirt_polling lv lru conf st = (st1, Inr xs)"
    and "\<forall>k w w1 dms. lv_domains lv k w = (w1, Inr dms) \<longrightarrow> (\<forall>dm\<in>set dms. known_states dm)"
  shows "list_all (sampleable env) xs"
proof -
  obtain st0 where once: "discover_libvirt_once lv lru conf st0 = (st1, Inr xs)"
    using retry_InrD assms(1) unfolding discover_libvirt_polling_def by metis
  obtain k1 w1 w2 dms cw where "lv_domains lv k1 w1 = (w2, Inr dms)" and "\<exists>c. discover_domains lv lru conf dms (c, w2) = (cw, Inr xs)"
    using once by (cases st0) (fastforce simp: discover_libvirt_once_def split: prod.splits sum.splits)
  then show ?thesis using assms(2) discover_domains_sampleable by metis
qed

text \<open>A domain without metadata costs itself only.\<close>

lemma domain_without_metadata_skipped:
  assumes "dm_metadata dm w = (w1, Inl e)" and "lv_error lv e" "\<not> lv_disconnected lv e"
  shows "discover_domains lv lru conf (dm # dms) (c, w) = discover_domains lv lru conf dms (c, w1)"
proof -
  have "discover_domain lv lru conf dm (c, w) = ((c, w1), Inr None)" by (simp add: discover_domain_def assms)
  then show ?thesis by (auto simp: bindw_def pure_def split: prod.splits sum.splits)
qed

subsection \<open>Example\<close>

text \<open>An XML element is its path here, and the text and the attributes are the same for all.\<close>

definition demo_domain :: "unit libvirt_domain" where
  "demo_domain =
     \<lparr>dm_uuid = ''vm'', dm_name = ''instance-1'', dm_metadata = pure (Inr ''metadata''), dm_desc = pure (Inr ''domain''),
      dm_state = pure (Inr 1)\<rparr>"

definition demo_libvirt :: "(unit, unit, string) libvirt" where
  "demo_libvirt =
     \<lparr>lv_alive = (\<lambda>k. pure (Inr True)), lv_open = (\<lambda>uri. pure (Inr ())), lv_domains = (\<lambda>k. pure (Inr [demo_domain])),
      lv_error = (\<lambda>e. False), lv_disconnected = (\<lambda>e. False), lv_fromstring = Inr, lv_find = (\<lambda>x path. Some path),
      lv_text = (\<lambda>x. Some ''1''), lv_attrib = (\<lambda>x k. Some k), lv_flavor = (\<lambda>name. pure (Inl NotFound)), lv_sha224 = (\<lambda>s. s)\<rparr>"

definition demo_lru :: "(string, pyval) pydict lru" where
  "demo_lru = \<lparr>lru_get = (\<lambda>name c. map_option (Pair c) (dict_get c name)), lru_set = dict_set\<rparr>"

definition demo_libvirt_conf :: libvirt_conf where
  "demo_libvirt_conf = \<lparr>lc_uri = [], lc_type = ''kvm'', lc_host = ''h''\<rparr>"

theorem libvirt_instances_sampleable_witness:
  "\<exists>x. discover_libvirt_polling demo_libvirt demo_lru demo_libvirt_conf (None, [], ()) =
     ((Some (), [(''name'', PNone)], ()), Inr [x]) \<and> sampleable demo_compute_env x"
proof -
  define r where "r = discover_libvirt_polling demo_libvirt demo_lru demo_libvirt_conf (None, [], ())"
  have ok: "case r of (st, Inr [x]) \<Rightarrow> st = (Some (), [(''name'', PNone)], ()) | _ \<Rightarrow> False"
    unfolding r_def by code_simp
  then obtain x where x: "r = ((Some (), [(''name'', PNone)], ()), Inr [x])"
    by (auto split: prod.splits sum.splits list.splits)
  have "list_all (sampleable demo_compute_env) [x]"
    by (rule libvirt_instances_sampleable [OF x [unfolded r_def]])
      (auto simp: demo_libvirt_def demo_domain_def known_states_def pure_def)
  then show ?thesis using x unfolding r_def by simp
qed

end
