(* ===== verification/Mongo_Keys.thy ===== *)
theory Mongo_Keys
  imports Hbase_Store
begin

text \<open>
  The documents and simple queries of MongoDB (\<^verbatim>\<open>ceilometer/storage/mongo/utils.py\<close>): MongoDB has no
  keys with a dot or with a dollar sign in front, so metadata are stored with dots as nesting and
  such parts quoted, and conditions on metadata name them in the same way.

  Looping over the items of a dictionary that changes is the Python 2 reading: the items are those
  from before the loop. Nested dictionaries change in place, which is done first here.
\<close>

section \<open>Keys\<close>

definition quote_part :: "string \<Rightarrow> string" where
  "quote_part k = (if startswith k ''$'' then quote k else k)"

definition quote_key :: "string \<Rightarrow> bool \<Rightarrow> string list" where
  "quote_key key reverse = map quote_part (if reverse then rev (split_char CHR ''.'' key) else split_char CHR ''.'' key)"

fun nest :: "string list \<Rightarrow> pyval \<Rightarrow> pyval" where
  "nest [] v = v"
| "nest (k # ks) v = PDict [(k, nest ks v)]"

text \<open>
  One key of \<open>improve_keys\<close>: the loop over the parts from the last to the first builds the nested
  dictionaries that \<open>update\<close> then writes, over what is there.
\<close>

definition improve_key :: "string \<times> pyval \<Rightarrow> pymap \<Rightarrow> pymap" where
  "improve_key kv data =
     (case kv of (key, v) \<Rightarrow>
        if CHR ''.'' \<in> set key then
          (case rev (quote_key key True) of
             [] \<Rightarrow> data
           | k # ks \<Rightarrow> dict_set k (nest ks v) (dict_del key data))
        else if startswith key ''$'' then dict_set (quote key) v (dict_del key data)
        else data)"

function (sequential) improve_keys :: "pyval \<Rightarrow> pyval" where
  "improve_keys (PDict d) =
     (let items = map (\<lambda>(k, v). (k, improve_keys v)) d in PDict (fold improve_key items items))"
| "improve_keys v = v"
  by pat_completeness auto
termination
  by (relation "measure size") (auto simp: size_dict_member)

definition improve_metakey :: "string \<Rightarrow> string" where
  "improve_metakey key = (if contains key ''.$'' then join ''.'' (quote_key key False) else key)"

definition improve_metaquery :: "pymap \<Rightarrow> pymap" where
  "improve_metaquery data =
     fold (\<lambda>(key, v) d. if contains key ''.$'' then dict_set (improve_metakey key) v (dict_del key d) else d) data data"

definition unquote_key :: "string \<Rightarrow> string" where
  "unquote_key k = (case h_unquote k of Inr s \<Rightarrow> s | Inl e \<Rightarrow> unquote_bytes k)"

function (sequential) unquote_keys :: "pyval \<Rightarrow> pyval" where
  "unquote_keys (PDict d) =
     (let items = map (\<lambda>(k, v). (k, unquote_keys v)) d
      in PDict (fold (\<lambda>(k, v) data. if startswith k ''%24'' then dict_set (unquote_key k) v (dict_del k data) else data) items items))"
| "unquote_keys v = v"
  by pat_completeness auto
termination
  by (relation "measure size") (auto simp: size_dict_member)

section \<open>Queries\<close>

definition make_timestamp_range :: "int option \<Rightarrow> int option \<Rightarrow> string option \<Rightarrow> string option \<Rightarrow> pymap" where
  "make_timestamp_range start fin start_op end_op =
     (case start of None \<Rightarrow> [] | Some t \<Rightarrow> [(if start_op = Some ''gt'' then ''$gt'' else ''$gte'', PDatetime t)]) @
     (case fin of None \<Rightarrow> [] | Some t \<Rightarrow> [(if end_op = Some ''le'' then ''$lte'' else ''$lt'', PDatetime t)])"

definition if_truthy :: "string \<Rightarrow> pyval \<Rightarrow> pymap" where
  "if_truthy k v = (if truthy v then [(k, v)] else [])"

definition mongo_query_from_filter :: "sample_filter \<Rightarrow> bool \<Rightarrow> pymap res" where
  "mongo_query_from_filter f require_meter =
     (let meter = opt_str (sf_meter f);
          ts_range = make_timestamp_range (sf_start f) (sf_end f) (sf_start_op f) (sf_end_op f)
      in if \<not> truthy meter \<and> require_meter then Inl RuntimeError
         else Inr (dict_update
           (if_truthy ''user_id'' (sf_user f) @ if_truthy ''project_id'' (sf_project f) @ if_truthy ''counter_name'' meter @
            (if ts_range = [] then [] else [(''timestamp'', PDict ts_range)]) @
            if_truthy ''resource_id'' (sf_resource f) @ if_truthy ''source'' (sf_source f) @ if_truthy ''message_id'' (sf_message_id f))
           (map (\<lambda>(k, v). (''resource_'' @ k, v)) (improve_metaquery (sf_metaquery f)))))"

section \<open>Stored metadata are found under the names that queries give them\<close>

text \<open>MongoDB reads the name of a field in a condition as a path.\<close>

fun path_get :: "pyval \<Rightarrow> string list \<Rightarrow> pyval option" where
  "path_get v [] = Some v"
| "path_get (PDict d) (k # ks) = (case dict_get d k of None \<Rightarrow> None | Some v \<Rightarrow> path_get v ks)"
| "path_get v (k # ks) = None"

lemma path_get_nest: "path_get (nest ks v) ks = Some v"
  by (induction ks) simp_all

lemma split_char_prefix: "c \<notin> set a \<Longrightarrow> split_char c (a @ s) = (a @ hd (split_char c s)) # tl (split_char c s)"
  by (induction a) auto

lemma split_char_join: "ps \<noteq> [] \<Longrightarrow> \<forall>p\<in>set ps. c \<notin> set p \<Longrightarrow> split_char c (join [c] ps) = ps"
  by (induction "[c]" ps rule: join.induct) (simp_all add: split_char_single split_char_append)

lemma split_char_parts: "p \<in> set (split_char c s) \<Longrightarrow> c \<notin> set p"
  by (induction s arbitrary: p) (auto split: list.splits if_splits)

text \<open>Quoting adds no dot and leaves no dollar sign in front.\<close>

lemma utf8_no_dot: "CHR ''.'' \<notin> set s \<Longrightarrow> CHR ''.'' \<notin> set (utf8_encode s)"
proof (induction s)
  case (Cons c s)
  have "CHR ''.'' \<noteq> (char_of (192 + n div 64) :: char)" "CHR ''.'' \<noteq> (char_of (128 + n mod 64) :: char)"
    if "n < 256" for n :: nat
  proof -
    have "192 + n div 64 < 256" "128 + n mod 64 < 256" using that by linarith+
    then have "(of_char (char_of (192 + n div 64) :: char) :: nat) = 192 + n div 64"
      "(of_char (char_of (128 + n mod 64) :: char) :: nat) = 128 + n mod 64"
      by (simp_all add: of_char_of)
    then show "CHR ''.'' \<noteq> (char_of (192 + n div 64) :: char)" "CHR ''.'' \<noteq> (char_of (128 + n mod 64) :: char)"
      by (auto dest!: arg_cong [of _ _ "of_char :: char \<Rightarrow> nat"])
  qed
  then show ?case using Cons nat_of_char_less_256 [of c] by (auto simp: Let_def)
qed simp

lemma escape_byte_no_dot: "c \<noteq> CHR ''.'' \<Longrightarrow> CHR ''.'' \<notin> set (escape_byte ''/'' c)"
proof -
  have digit: "CHR ''.'' \<noteq> hex_digit n" if "n < 16" for n
  proof -
    from below_16 [OF that] show ?thesis by (auto simp: hex_digit_def of_char_of dest!: arg_cong [of _ _ "of_char :: char \<Rightarrow> nat"])
  qed
  have "(of_char c :: nat) div 16 < 16" "(of_char c :: nat) mod 16 < 16"
    using nat_of_char_less_256 [of c] by linarith+
  then have "CHR ''.'' \<noteq> hex_digit (of_char c div 16)" "CHR ''.'' \<noteq> hex_digit (of_char c mod 16)"
    by (simp_all add: digit)
  moreover assume "c \<noteq> CHR ''.''"
  ultimately show ?thesis by (auto simp: escape_byte_def)
qed

definition storable :: "string \<Rightarrow> bool" where
  "storable k \<longleftrightarrow> CHR ''.'' \<notin> set k \<and> \<not> startswith k ''$''"

lemma quote_dollar: "startswith k ''$'' \<Longrightarrow> \<exists>r. quote k = ''%24'' @ r"
proof -
  assume "startswith k ''$''"
  then obtain t where t: "k = CHR ''$'' # t" by (auto simp: startswith_iff)
  have "escape_byte ''/'' CHR ''$'' = ''%24''" by code_simp
  then show ?thesis by (simp add: t quote_safe_def)
qed

lemma quote_part_storable: "CHR ''.'' \<notin> set k \<Longrightarrow> storable (quote_part k)"
proof (cases "startswith k ''$''")
  case True
  assume "CHR ''.'' \<notin> set k"
  then have "\<forall>c\<in>set (utf8_encode k). c \<noteq> CHR ''.''" using utf8_no_dot [of k] by metis
  then have "CHR ''.'' \<notin> set (quote k)" using escape_byte_no_dot by (simp add: quote_safe_def)
  moreover have "\<not> startswith (quote k) ''$''" using quote_dollar [OF True] by (auto simp: startswith_iff)
  ultimately show ?thesis by (simp add: storable_def quote_part_def True)
qed (simp add: storable_def quote_part_def)

text \<open>The key that holds a key once it is improved, and the path below it.\<close>

definition root_key :: "string \<Rightarrow> string" where
  "root_key k = hd (quote_key k False)"

lemma quote_key_storable: "p \<in> set (quote_key k False) \<Longrightarrow> storable p"
  using quote_part_storable split_char_parts by (fastforce simp: quote_key_def)

lemma quote_key_cons: "quote_key k False = root_key k # tl (quote_key k False)"
  by (simp add: root_key_def quote_key_def)

lemma root_storable: "storable (root_key k)"
  using quote_key_storable [of "root_key k" k] quote_key_cons [of k] by (metis list.set_intros(1))

lemma quote_key_rev: "rev (quote_key k True) = quote_key k False"
  by (simp add: quote_key_def rev_map)

text \<open>One key more leaves the roots of others alone and puts the value under its own.\<close>

lemma improve_key_other:
  assumes "root_key k \<noteq> r" and "storable r"
  shows "dict_get (improve_key (k, v) d) r = dict_get d r"
proof -
  have "k \<noteq> r" if "CHR ''.'' \<in> set k \<or> startswith k ''$''" using that assms(2) by (auto simp: storable_def)
  moreover have "root_key k = quote k" if "CHR ''.'' \<notin> set k" "startswith k ''$''"
    using that by (simp add: root_key_def quote_key_def split_char_single quote_part_def)
  moreover have "rev (quote_key k True) = root_key k # tl (quote_key k False)"
    unfolding quote_key_rev by (rule quote_key_cons)
  ultimately show ?thesis using assms(1)
    by (auto simp: improve_key_def dict_get_set delete_conv')
qed

lemma improve_key_own:
  assumes "storable k \<longrightarrow> dict_get d k = Some v"
  shows "\<exists>u. dict_get (improve_key (k, v) d) (root_key k) = Some u \<and> path_get u (tl (quote_key k False)) = Some v"
proof -
  have own: "rev (quote_key k True) = root_key k # tl (quote_key k False)"
    unfolding quote_key_rev by (rule quote_key_cons)
  have single: "quote_key k False = [quote_part k]" if "CHR ''.'' \<notin> set k" using that by (simp add: quote_key_def split_char_single)
  consider "CHR ''.'' \<in> set k" | "CHR ''.'' \<notin> set k" "startswith k ''$''" | "storable k" by (auto simp: storable_def)
  then show ?thesis
  proof cases
    case 1
    then show ?thesis by (simp add: improve_key_def own dict_get_set path_get_nest)
  next
    case 2
    then show ?thesis by (simp add: improve_key_def root_key_def single quote_part_def dict_get_set)
  next
    case 3
    then show ?thesis using assms by (auto simp: improve_key_def root_key_def single quote_part_def storable_def)
  qed
qed

lemma improved_root:
  assumes "(k, v) \<in> set items" and "distinct (map fst items)" and "\<forall>(k', v')\<in>set items. k' \<noteq> k \<longrightarrow> root_key k' \<noteq> root_key k"
    and "storable k \<longrightarrow> dict_get d k = Some v"
  shows "\<exists>u. dict_get (fold improve_key items d) (root_key k) = Some u \<and> path_get u (tl (quote_key k False)) = Some v"
  using assms
proof (induction items arbitrary: d)
  case (Cons kv items)
  obtain k1 v1 where kv: "kv = (k1, v1)" by (cases kv)
  have keep: "dict_get (fold improve_key ys e) (root_key k) = dict_get e (root_key k)"
    if "\<forall>(k', v')\<in>set ys. root_key k' \<noteq> root_key k" for ys e
    using that by (induction ys arbitrary: e) (auto simp: improve_key_other root_storable)
  show ?case
  proof (cases "k1 = k")
    case True
    then have "v1 = v" and "\<forall>(k', v')\<in>set items. root_key k' \<noteq> root_key k"
      using Cons.prems(1-3) by (force simp: kv)+
    then show ?thesis using improve_key_own [OF Cons.prems(4)] keep True by (simp add: kv)
  next
    case False
    then have r: "root_key k1 \<noteq> root_key k" using Cons.prems(3) by (auto simp: kv)
    have "storable k \<longrightarrow> dict_get (improve_key (k1, v1) d) k = Some v"
    proof
      assume k: "storable k"
      then have "root_key k = k" by (simp add: root_key_def quote_key_def storable_def split_char_single quote_part_def)
      then show "dict_get (improve_key (k1, v1) d) k = Some v" using improve_key_other [of k1 k] r k Cons.prems(4) by simp
    qed
    then show ?thesis using Cons.IH [of "improve_key (k1, v1) d"] Cons.prems False by (simp add: kv)
  qed
qed simp

lemma part_sublist: "p \<in> set ps \<Longrightarrow> sublist (c # p) (c # join [c] ps)"
proof (induction "[c]" ps rule: join.induct)
  case (3 x y ys)
  show ?case
  proof (cases "p = x")
    case True
    then show ?thesis by (auto simp: sublist_def intro: exI [of _ "[]"])
  next
    case False
    then have "sublist (c # p) (c # join [c] (y # ys))" using 3 by simp
    then show ?thesis using sublist_appendI [of "c # join [c] (y # ys)" "c # x" "[]"] sublist_order.order_trans by simp
  qed
qed auto

lemma improve_metakey_parts:
  assumes "storable r"
  shows "split_char CHR ''.'' (improve_metakey (r @ ''.'' @ k)) = r # quote_key k False"
proof -
  have r: "split_char CHR ''.'' (r @ ''.'' @ k) = r # split_char CHR ''.'' k"
    using assms split_char_append [of "CHR ''.''" r k] by (simp add: storable_def)
  have q: "quote_key (r @ ''.'' @ k) False = r # quote_key k False"
    using assms unfolding quote_key_def r by (simp add: quote_part_def storable_def)
  show ?thesis
  proof (cases "contains (r @ ''.'' @ k) ''.$''")
    case True
    have "\<forall>p\<in>set (r # quote_key k False). CHR ''.'' \<notin> set p"
      using assms quote_key_storable by (auto simp: storable_def)
    then show ?thesis using True split_char_join [of "r # quote_key k False" "CHR ''.''"] unfolding improve_metakey_def q by simp
  next
    case False
    have "quote_part p = p" if "p \<in> set (split_char CHR ''.'' k)" for p
    proof -
      have "sublist (CHR ''.'' # p) (CHR ''.'' # k)" using part_sublist [OF that, of "CHR ''.''"] by (simp add: join_split_char)
      then have "sublist (CHR ''.'' # p) (r @ ''.'' @ k)" using sublist_appendI [of "''.'' @ k" r "[]"] sublist_order.order_trans by auto
      moreover have "sublist ''.$'' (CHR ''.'' # p)" if "startswith p ''$''"
        using that by (auto simp: startswith_iff sublist_def intro: exI [of _ "[]"])
      ultimately show ?thesis using False sublist_order.order_trans by (auto simp: quote_part_def contains_def)
    qed
    then show ?thesis using False r by (simp add: improve_metakey_def quote_key_def map_idI)
  qed
qed

text \<open>
  C33: A condition on a metadata key finds the value that was stored under this key, also where dots or
  dollar signs in the key made MongoDB store it nested and quoted, as long as no other key of the
  metadata has the same first part.
\<close>

theorem metadata_query_addresses:
  assumes "dict_ok md" and "dict_get md k = Some v"
    and "\<forall>k'\<in>set (dict_keys md). k' \<noteq> k \<longrightarrow> root_key k' \<noteq> root_key k"
  shows "path_get (PDict [(''resource_metadata'', improve_keys (PDict md))])
     (split_char CHR ''.'' (''resource_'' @ improve_metakey (''metadata.'' @ k))) = Some (improve_keys v)"
proof -
  define items where "items = map (\<lambda>(k, v). (k, improve_keys v)) md"
  have items: "dict_get items j = map_option improve_keys (dict_get md j)" for j
    by (simp add: items_def map_of_map)
  have keys: "dict_keys items = dict_keys md" by (simp add: items_def comp_def case_prod_beta)
  have member: "(k, improve_keys v) \<in> set items" using items [of k] assms(2) by (simp add: map_of_SomeD)
  have others: "\<forall>(k', v')\<in>set items. k' \<noteq> k \<longrightarrow> root_key k' \<noteq> root_key k"
    using assms(3) unfolding keys [symmetric] by auto
  obtain u where u: "dict_get (fold improve_key items items) (root_key k) = Some u"
    "path_get u (tl (quote_key k False)) = Some (improve_keys v)"
    using improved_root [OF member _ others, of items] assms(1,2) items [of k] keys by (auto simp: dict_ok_def)
  have "path_get (improve_keys (PDict md)) (quote_key k False) = Some (improve_keys v)"
    using u by (subst quote_key_cons) (simp add: items_def [symmetric])
  moreover have "split_char CHR ''.'' (''resource_'' @ improve_metakey (''metadata.'' @ k)) = ''resource_metadata'' # quote_key k False"
  proof -
    have "storable ''metadata''" by code_simp
    from improve_metakey_parts [OF this, of k]
    have "split_char CHR ''.'' (improve_metakey (''metadata.'' @ k)) = ''metadata'' # quote_key k False" by simp
    then show ?thesis by (subst split_char_prefix) simp_all
  qed
  ultimately show ?thesis by simp
qed

theorem metadata_query_addresses_witness:
  "path_get (PDict [(''resource_metadata'', improve_keys (PDict [(''a.$b'', PInt 1), (''c'', PInt 2)]))])
     (split_char CHR ''.'' (''resource_'' @ improve_metakey (''metadata.'' @ ''a.$b''))) = Some (PInt 1)"
proof -
  have "dict_ok [(''a.$b'', PInt 1), (''c'', PInt 2)]" by (simp add: dict_ok_def)
  moreover have "root_key ''c'' \<noteq> root_key ''a.$b''" by code_simp
  ultimately show ?thesis
    using metadata_query_addresses [of "[(''a.$b'', PInt 1), (''c'', PInt 2)]" "''a.$b''" "PInt 1"] by simp
qed

text \<open>Two keys with the same first part: the later one overwrites the earlier one.\<close>

lemma shared_root_loses:
  "improve_keys (PDict [(''a.b'', PInt 1), (''a.c'', PInt 2)]) = PDict [(''a'', PDict [(''c'', PInt 2)])]"
  by code_simp

text \<open>A dotted key does not come back as it was, a quoted part does.\<close>

lemma unquote_quoted: "startswith k ''$'' \<Longrightarrow> unquote_key (quote k) = k"
  by (simp add: unquote_key_def h_unquote_quote)

lemma dotted_key_stays_nested:
  "unquote_keys (improve_keys (PDict [(''a.b'', PInt 1)])) = PDict [(''a'', PDict [(''b'', PInt 1)])]"
  by code_simp

section \<open>Simple queries\<close>

text \<open>
  \<open>sel field condition\<close> is again the verdict of the database on a document: for a top-level field a
  plain value is equality, and the operators on the time compare it.
\<close>

definition documented_fields :: "(string \<Rightarrow> pyval \<Rightarrow> bool) \<Rightarrow> pymap \<Rightarrow> int \<Rightarrow> bool" where
  "documented_fields sel d t \<longleftrightarrow>
     (\<forall>k\<in>{''user_id'', ''project_id'', ''counter_name'', ''resource_id'', ''source'', ''message_id''}. \<forall>s.
        sel k (PStr s) \<longleftrightarrow> dict_get d k = Some (PStr s)) \<and>
     (\<forall>r. sel ''timestamp'' (PDict r) \<longleftrightarrow> list_all (\<lambda>(oper, v).
        oper = ''$gt'' \<and> (\<forall>s. v = PDatetime s \<longrightarrow> s < t) \<or> oper = ''$gte'' \<and> (\<forall>s. v = PDatetime s \<longrightarrow> s \<le> t) \<or>
        oper = ''$lt'' \<and> (\<forall>s. v = PDatetime s \<longrightarrow> t < s) \<or> oper = ''$lte'' \<and> (\<forall>s. v = PDatetime s \<longrightarrow> t \<le> s)) r)"

definition text_or_none :: "pyval \<Rightarrow> bool" where
  "text_or_none v \<longleftrightarrow> v = PNone \<or> (\<exists>s. v = PStr s \<and> s \<noteq> [])"

text \<open>What a filter asks for.\<close>

definition time_wanted :: "sample_filter \<Rightarrow> int \<Rightarrow> bool" where
  "time_wanted f t \<longleftrightarrow>
     (\<forall>s. sf_start f = Some s \<longrightarrow> (if sf_start_op f = Some ''gt'' then s < t else s \<le> t)) \<and>
     (\<forall>s. sf_end f = Some s \<longrightarrow> (if sf_end_op f = Some ''le'' then t \<le> s else t < s))"

lemma timestamp_range_selects:
  assumes "documented_fields sel d t" and "make_timestamp_range (sf_start f) (sf_end f) (sf_start_op f) (sf_end_op f) = r"
  shows "(if r = [] then True else sel ''timestamp'' (PDict r)) \<longleftrightarrow> time_wanted f t"
  using assms
  by (auto simp: documented_fields_def make_timestamp_range_def time_wanted_def split: option.splits if_splits)

lemma if_truthy_selects:
  assumes "documented_fields sel d t" and "text_or_none v"
    and "k \<in> {''user_id'', ''project_id'', ''counter_name'', ''resource_id'', ''source'', ''message_id''}"
  shows "list_all (\<lambda>(k, c). sel k c) (if_truthy k v) \<longleftrightarrow> v = PNone \<or> dict_get d k = Some v"
  using assms by (auto simp: documented_fields_def if_truthy_def text_or_none_def)

text \<open>
  Without conditions on metadata, the query of a filter selects a sample exactly when it has the
  attributes that the filter names and a time in its range, which includes the start.
\<close>

lemma mongo_simple_query_exact:
  assumes "documented_fields sel d t" and "sf_metaquery f = []" and "\<forall>(k, v)\<in>set (filter_kwargs f). text_or_none v"
    and "mongo_query_from_filter f False = Inr q"
  shows "list_all (\<lambda>(k, c). sel k c) q \<longleftrightarrow> (\<forall>(k, v)\<in>set (filter_kwargs f). v = PNone \<or> dict_get d k = Some v) \<and> time_wanted f t"
proof -
  define r where "r = make_timestamp_range (sf_start f) (sf_end f) (sf_start_op f) (sf_end_op f)"
  have q: "q = if_truthy ''user_id'' (sf_user f) @ if_truthy ''project_id'' (sf_project f) @ if_truthy ''counter_name'' (opt_str (sf_meter f)) @
            (if r = [] then [] else [(''timestamp'', PDict r)]) @
            if_truthy ''resource_id'' (sf_resource f) @ if_truthy ''source'' (sf_source f) @ if_truthy ''message_id'' (sf_message_id f)"
    using assms(2,4) by (auto simp: mongo_query_from_filter_def Let_def r_def improve_metaquery_def dict_update_def split: if_splits)
  note one = if_truthy_selects [OF assms(1)]
  have "list_all (\<lambda>(k, c). sel k c) (if r = [] then [] else [(''timestamp'', PDict r)]) \<longleftrightarrow> time_wanted f t"
    using timestamp_range_selects [OF assms(1) r_def [symmetric]] by auto
  then show ?thesis
    using assms(3) by (simp add: q one filter_kwargs_def) blast
qed

end
