(* ===== verification/Mongo_Store.thy ===== *)
theory Mongo_Store
  imports Mongo_Keys Service_Calls "HOL-Library.Product_Lexorder"
begin

text \<open>
  Storing and reading with MongoDB (\<^verbatim>\<open>ceilometer/storage/impl_mongodb.py\<close>, \<^verbatim>\<open>pymongo_base.py\<close> and the
  proxies of \<^verbatim>\<open>mongo/utils.py\<close>): calls are repeated after a lost connection, recorded samples
  update the documents of their resources, and what is read becomes the models of the storage
  interface. The database is a parameter.
\<close>

section \<open>Calls that are repeated\<close>

definition AutoReconnect :: pyexc where "AutoReconnect = OtherError ''AutoReconnect''"

text \<open>\<open>safe_mongo_call\<close>: with a negative number of retries the loop need not end.\<close>

partial_function (option) repeat_call :: "('w \<Rightarrow> 'w) \<Rightarrow> int \<Rightarrow> nat \<Rightarrow> ('w, 'a) svc \<Rightarrow> 'w \<Rightarrow> ('w \<times> 'a res) option" where
  "repeat_call sleep max_retries attempts call w =
     (case call w of
        (w1, Inl e) \<Rightarrow>
          (if e = AutoReconnect then
             (if 0 \<le> max_retries \<and> max_retries \<le> int attempts then Some (w1, Inl e)
              else repeat_call sleep max_retries (Suc attempts) call (sleep w1))
           else Some (w1, Inl e))
      | (w1, Inr x) \<Rightarrow> Some (w1, Inr x))"

definition safe_mongo_call :: "('w \<Rightarrow> 'w) \<Rightarrow> int \<Rightarrow> ('w, 'a) svc \<Rightarrow> 'w \<Rightarrow> ('w \<times> 'a res) option" where
  "safe_mongo_call sleep max_retries call w = repeat_call sleep max_retries 0 call w"

text \<open>The worlds in which the attempts are made.\<close>

fun attempt_world :: "('w \<Rightarrow> 'w) \<Rightarrow> ('w, 'a) svc \<Rightarrow> nat \<Rightarrow> 'w \<Rightarrow> 'w" where
  "attempt_world sleep call 0 w = w"
| "attempt_world sleep call (Suc k) w = attempt_world sleep call k (sleep (fst (call w)))"

definition lost :: "('w, 'a) svc \<Rightarrow> 'w \<Rightarrow> bool" where
  "lost call w \<longleftrightarrow> snd (call w) = Inl AutoReconnect"

lemma repeat_call_bounded:
  assumes "0 \<le> max_retries" and "n = nat max_retries - attempts"
  shows "\<exists>k\<le>n. repeat_call sleep max_retries attempts call w = Some (call (attempt_world sleep call k w)) \<and>
    (\<forall>i<k. lost call (attempt_world sleep call i w)) \<and> (k < n \<longrightarrow> \<not> lost call (attempt_world sleep call k w))"
  using assms(2)
proof (induction n arbitrary: attempts w)
  case 0
  have "repeat_call sleep max_retries attempts call w = Some (call w)"
    using 0 assms(1) by (subst repeat_call.simps) (auto split: prod.splits sum.splits)
  then show ?case by simp
next
  case (Suc n)
  show ?case
  proof (cases "lost call w")
    case True
    let ?w = "sleep (fst (call w))"
    have n: "n = nat max_retries - Suc attempts" using Suc.prems by simp
    have "repeat_call sleep max_retries attempts call w = repeat_call sleep max_retries (Suc attempts) call ?w"
      using Suc.prems assms(1) True by (subst repeat_call.simps) (auto simp: lost_def split: prod.splits sum.splits)
    moreover obtain k where k: "k \<le> n" "repeat_call sleep max_retries (Suc attempts) call ?w = Some (call (attempt_world sleep call k ?w))"
      "\<forall>i<k. lost call (attempt_world sleep call i ?w)" "k < n \<longrightarrow> \<not> lost call (attempt_world sleep call k ?w)"
      using Suc.IH [OF n, of ?w] by blast
    moreover have "lost call (attempt_world sleep call i w)" if "i < Suc k" for i
      using that k(3) True by (cases i) auto
    ultimately show ?thesis by (intro exI [of _ "Suc k"]) auto
  next
    case False
    then have "repeat_call sleep max_retries attempts call w = Some (call w)"
      by (subst repeat_call.simps) (auto simp: lost_def split: prod.splits sum.splits)
    then show ?thesis using False by (intro exI [of _ 0]) simp
  qed
qed

text \<open>
  C34: A call of the database ends when the number of retries is not negative: it gives the outcome of
  the first attempt that does not lose the connection, or of the last of the attempts allowed, one
  more than the retries, and there is a pause before every attempt but the first.
\<close>

theorem mongo_call_returns:
  assumes "0 \<le> max_retries"
  shows "\<exists>k\<le>nat max_retries. safe_mongo_call sleep max_retries call w = Some (call (attempt_world sleep call k w)) \<and>
    (\<forall>i<k. lost call (attempt_world sleep call i w)) \<and> (k < nat max_retries \<longrightarrow> \<not> lost call (attempt_world sleep call k w))"
  using repeat_call_bounded [OF assms, of "nat max_retries" 0] by (simp add: safe_mongo_call_def)

section \<open>Cursors\<close>

text \<open>
  \<open>CursorProxy.next\<close>: \<open>fetch pos\<close> is the \<open>next\<close> of a cursor that has given \<open>pos\<close> documents. The cursor
  that replaces one that lost its connection is a clone, and a clone has given none.
\<close>

definition cursor_next :: "(nat \<Rightarrow> ('w, 'a) svc) \<Rightarrow> (nat \<times> 'w, 'a) svc" where
  "cursor_next fetch = (\<lambda>(pos, w).
     (case fetch pos w of
        (w1, Inl e) \<Rightarrow> ((if e = AutoReconnect then 0 else pos, w1), Inl e)
      | (w1, Inr x) \<Rightarrow> ((Suc pos, w1), Inr x)))"

definition StopIteration :: pyexc where "StopIteration = OtherError ''StopIteration''"

text \<open>Reading a cursor to its end, by at most so many calls of \<open>next\<close>.\<close>

fun read_all :: "nat \<Rightarrow> (nat \<times> 'w \<Rightarrow> ((nat \<times> 'w) \<times> 'a res) option) \<Rightarrow> nat \<times> 'w \<Rightarrow> ('a list \<times> pyexc option) option" where
  "read_all 0 next' st = None"
| "read_all (Suc n) next' st =
     (case next' st of
        None \<Rightarrow> None
      | Some (st1, Inl e) \<Rightarrow> Some ([], if e = StopIteration then None else Some e)
      | Some (st1, Inr x) \<Rightarrow> map_option (\<lambda>(xs, e). (x # xs, e)) (read_all n next' st1))"

text \<open>A collection whose connection is lost at the calls that are told by the world.\<close>

definition fetch_from :: "'a list \<Rightarrow> nat \<Rightarrow> (bool list, 'a) svc" where
  "fetch_from docs pos = (\<lambda>w.
     if w \<noteq> [] \<and> hd w then (tl w, Inl AutoReconnect)
     else (tl w, if pos < length docs then Inr (docs ! pos) else Inl StopIteration))"

lemma reconnect_repeats:
  "read_all 9 (safe_mongo_call (\<lambda>st. st) 10 (cursor_next (fetch_from [1, 2, 3 :: int]))) (0, [False, False, True]) =
     Some ([1, 2, 1, 2, 3], None)"
  unfolding safe_mongo_call_def
  by (simp add: eval_nat_numeral repeat_call.simps cursor_next_def fetch_from_def AutoReconnect_def StopIteration_def)

definition demo_call :: "(nat, unit) svc" where
  "demo_call w = (if w < 2 then (Suc w, Inl AutoReconnect) else (w, Inr ()))"

theorem mongo_call_returns_witness:
  "safe_mongo_call (\<lambda>w. w) 10 demo_call 0 = Some (2, Inr ())"
proof -
  have w: "attempt_world (\<lambda>w. w) demo_call k 0 = (if k < 2 then k else 2)" for k
  proof -
    have two: "attempt_world (\<lambda>w. w) demo_call k 2 = 2" for k by (induction k) (simp_all add: demo_call_def)
    consider "k = 0" | "k = 1" | j where "k = Suc (Suc j)" by (metis One_nat_def not0_implies_Suc)
    then show ?thesis using two by cases (auto simp: demo_call_def eval_nat_numeral)
  qed
  have "lost demo_call n \<longleftrightarrow> n < 2" for n by (simp add: lost_def demo_call_def AutoReconnect_def)
  with mongo_call_returns [of 10 "\<lambda>w. w" demo_call 0] w obtain k where
    "safe_mongo_call (\<lambda>w. w) 10 demo_call 0 = Some (demo_call (if k < 2 then k else 2))"
    "k < 10 \<longrightarrow> \<not> (if k < 2 then k else 2) < 2" by auto
  then show ?thesis by (cases "k < 2") (simp_all add: demo_call_def)
qed

section \<open>Recording\<close>

text \<open>A sample as it is recorded; the fields that recording does not look at are one.\<close>

record mongo_sample =
  ms_resource :: string
  ms_timestamp :: int
  ms_owner :: "pyval \<times> pyval \<times> pyval"
  ms_meter :: "pyval \<times> pyval \<times> pyval"
  ms_metadata :: pyval
  ms_rest :: pymap

text \<open>The document of a resource: project, user and source, metadata, times and meters.\<close>

record resource_doc =
  rd_owner :: "pyval \<times> pyval \<times> pyval"
  rd_metadata :: pyval
  rd_first :: "int option"
  rd_last :: "int option"
  rd_meters :: "(pyval \<times> pyval \<times> pyval) list"

text \<open>
  The calls on the collections: \<open>find_one_and_update\<close> with \<open>$set\<close> for the owner, \<open>$setOnInsert\<close> for the
  metadata and the times, and \<open>$addToSet\<close> for the meters; \<open>update_one\<close> with \<open>$set\<close> for the metadata
  and the last time, or for the first time; \<open>insert_many\<close>.
\<close>

record 'w mongo =
  mg_upsert :: "string \<Rightarrow> pyval \<times> pyval \<times> pyval \<Rightarrow> pyval \<times> int \<Rightarrow> (pyval \<times> pyval \<times> pyval) list \<Rightarrow> ('w, resource_doc) svc"
  mg_set_last :: "string \<Rightarrow> pyval \<Rightarrow> int \<Rightarrow> ('w, unit) svc"
  mg_set_first :: "string \<Rightarrow> int \<Rightarrow> ('w, unit) svc"
  mg_insert :: "(mongo_sample \<times> int) list \<Rightarrow> ('w, unit) svc"
  mg_now :: "'w \<Rightarrow> int"

text \<open>\<open>groupby\<close>: neighbours with the same resource.\<close>

fun group_by :: "('a \<Rightarrow> 'b) \<Rightarrow> 'a list \<Rightarrow> 'a list list" where
  "group_by f [] = []"
| "group_by f (x # xs) =
     (case group_by f xs of
        [] \<Rightarrow> [[x]]
      | g # gs \<Rightarrow> if f (hd g) = f x then (x # g) # gs else [x] # g # gs)"

definition record_resource :: "'w mongo \<Rightarrow> mongo_sample list \<Rightarrow> ('w, unit) svc" where
  "record_resource mg g =
     (let s = last g; rid = ms_resource s; md = improve_keys (ms_metadata s);
          last_ts = ms_timestamp s; first_ts = ms_timestamp (hd g)
      in bindw (mg_upsert mg rid (ms_owner s) (md, ms_timestamp s) (map ms_meter g)) (\<lambda>doc.
         bindw (if (case rd_last doc of None \<Rightarrow> True | Some t \<Rightarrow> t \<le> last_ts) then mg_set_last mg rid md last_ts else pure (Inr ())) (\<lambda>_.
           if (case rd_first doc of None \<Rightarrow> False | Some t \<Rightarrow> first_ts < t) then mg_set_first mg rid first_ts else pure (Inr ()))))"

definition resource_groups :: "mongo_sample list \<Rightarrow> mongo_sample list list" where
  "resource_groups samples = group_by ms_resource (sort_key (\<lambda>s. (ms_resource s, ms_timestamp s)) samples)"

definition record_metering_data_batch :: "'w mongo \<Rightarrow> mongo_sample list \<Rightarrow> ('w, unit) svc" where
  "record_metering_data_batch mg samples =
     bindw (mapw (record_resource mg) (resource_groups samples)) (\<lambda>_.
     (\<lambda>w. mg_insert mg (map (\<lambda>s. (s\<lparr>ms_metadata := improve_keys (ms_metadata s)\<rparr>, mg_now mg w)) samples) w))"

subsection \<open>What the document of a resource says\<close>

text \<open>What MongoDB documents of the calls, for the collection of resources as \<open>docs\<close> gives it.\<close>

definition add_to_set :: "'a list \<Rightarrow> 'a list \<Rightarrow> 'a list" where
  "add_to_set new old = fold (\<lambda>x xs. if x \<in> set xs then xs else xs @ [x]) new old"

definition upserted :: "pyval \<times> pyval \<times> pyval \<Rightarrow> pyval \<times> int \<Rightarrow> (pyval \<times> pyval \<times> pyval) list \<Rightarrow> resource_doc option \<Rightarrow> resource_doc" where
  "upserted owner ins meters doc =
     (case doc of
        None \<Rightarrow> \<lparr>rd_owner = owner, rd_metadata = fst ins, rd_first = Some (snd ins), rd_last = Some (snd ins), rd_meters = add_to_set meters []\<rparr>
      | Some d \<Rightarrow> d\<lparr>rd_owner := owner, rd_meters := add_to_set meters (rd_meters d)\<rparr>)"

definition documented_mongo :: "'w mongo \<Rightarrow> ('w \<Rightarrow> string \<Rightarrow> resource_doc option) \<Rightarrow> bool" where
  "documented_mongo mg docs \<longleftrightarrow>
     (\<forall>i owner ins meters w. \<exists>w1. mg_upsert mg i owner ins meters w = (w1, Inr (upserted owner ins meters (docs w i))) \<and>
        docs w1 = (docs w)(i \<mapsto> upserted owner ins meters (docs w i))) \<and>
     (\<forall>i md t w. \<exists>w1. mg_set_last mg i md t w = (w1, Inr ()) \<and>
        docs w1 = (docs w)(i := map_option (\<lambda>d. d\<lparr>rd_metadata := md, rd_last := Some t\<rparr>) (docs w i))) \<and>
     (\<forall>i t w. \<exists>w1. mg_set_first mg i t w = (w1, Inr ()) \<and>
        docs w1 = (docs w)(i := map_option (\<lambda>d. d\<lparr>rd_first := Some t\<rparr>) (docs w i))) \<and>
     (\<forall>rows w. \<exists>w1. mg_insert mg rows w = (w1, Inr ()) \<and> docs w1 = docs w)"

text \<open>The document that a resource should have after its samples, in any order.\<close>

definition summary_of :: "mongo_sample list \<Rightarrow> resource_doc option \<Rightarrow> bool" where
  "summary_of ss doc \<longleftrightarrow>
     (if ss = [] then doc = None
      else \<exists>d. doc = Some d \<and> rd_first d = Some (Min (ms_timestamp ` set ss)) \<and> rd_last d = Some (Max (ms_timestamp ` set ss)) \<and>
        (\<exists>s\<in>set ss. ms_timestamp s = Max (ms_timestamp ` set ss) \<and> rd_metadata d = improve_keys (ms_metadata s)) \<and>
        set (rd_meters d) = ms_meter ` set ss)"

definition of_resource :: "string \<Rightarrow> mongo_sample list \<Rightarrow> mongo_sample list" where
  "of_resource i ss = filter (\<lambda>s. ms_resource s = i) ss"

definition summarised :: "('w \<Rightarrow> string \<Rightarrow> resource_doc option) \<Rightarrow> mongo_sample list \<Rightarrow> 'w \<Rightarrow> bool" where
  "summarised docs ss w \<longleftrightarrow> (\<forall>i. summary_of (of_resource i ss) (docs w i))"

lemma set_add_to_set: "set (add_to_set new old) = set old \<union> set new"
  unfolding add_to_set_def by (induction new arbitrary: old) auto

definition recorded_doc :: "mongo_sample list \<Rightarrow> resource_doc option \<Rightarrow> resource_doc" where
  "recorded_doc g doc =
     (let s = last g; md = improve_keys (ms_metadata s); first_ts = ms_timestamp (hd g);
          d1 = upserted (ms_owner s) (md, ms_timestamp s) (map ms_meter g) doc;
          d2 = (if (case rd_last d1 of None \<Rightarrow> True | Some t \<Rightarrow> t \<le> ms_timestamp s) then d1\<lparr>rd_metadata := md, rd_last := Some (ms_timestamp s)\<rparr> else d1)
      in if (case rd_first d1 of None \<Rightarrow> False | Some t \<Rightarrow> first_ts < t) then d2\<lparr>rd_first := Some first_ts\<rparr> else d2)"

lemma record_resource_doc:
  assumes "documented_mongo mg docs"
  shows "\<exists>w1. record_resource mg g w = (w1, Inr ()) \<and> docs w1 = (docs w)(ms_resource (last g) \<mapsto> recorded_doc g (docs w (ms_resource (last g))))"
proof -
  define i md where "i = ms_resource (last g)" and "md = improve_keys (ms_metadata (last g))"
  define d1 where "d1 = upserted (ms_owner (last g)) (md, ms_timestamp (last g)) (map ms_meter g) (docs w i)"
  obtain w1 where w1: "mg_upsert mg i (ms_owner (last g)) (md, ms_timestamp (last g)) (map ms_meter g) w = (w1, Inr d1)" "docs w1 = (docs w)(i \<mapsto> d1)"
    using assms unfolding documented_mongo_def d1_def by meson
  define later where "later = (case rd_last d1 of None \<Rightarrow> True | Some t \<Rightarrow> t \<le> ms_timestamp (last g))"
  define d2 where "d2 = (if later then d1\<lparr>rd_metadata := md, rd_last := Some (ms_timestamp (last g))\<rparr> else d1)"
  have "\<exists>w2. (if later then mg_set_last mg i md (ms_timestamp (last g)) else pure (Inr ())) w1 = (w2, Inr ()) \<and> docs w2 = (docs w)(i \<mapsto> d2)"
  proof (cases later)
    case True
    obtain w2 where "mg_set_last mg i md (ms_timestamp (last g)) w1 = (w2, Inr ())"
      "docs w2 = (docs w1)(i := map_option (\<lambda>d. d\<lparr>rd_metadata := md, rd_last := Some (ms_timestamp (last g))\<rparr>) (docs w1 i))"
      using assms unfolding documented_mongo_def by meson
    then show ?thesis using True w1(2) by (auto simp: d2_def)
  qed (simp add: pure_def d2_def w1(2))
  then obtain w2 where w2: "(if later then mg_set_last mg i md (ms_timestamp (last g)) else pure (Inr ())) w1 = (w2, Inr ())"
    "docs w2 = (docs w)(i \<mapsto> d2)" by blast
  define earlier where "earlier = (case rd_first d1 of None \<Rightarrow> False | Some t \<Rightarrow> ms_timestamp (hd g) < t)"
  define d3 where "d3 = (if earlier then d2\<lparr>rd_first := Some (ms_timestamp (hd g))\<rparr> else d2)"
  have "\<exists>w3. (if earlier then mg_set_first mg i (ms_timestamp (hd g)) else pure (Inr ())) w2 = (w3, Inr ()) \<and> docs w3 = (docs w)(i \<mapsto> d3)"
  proof (cases earlier)
    case True
    obtain w3 where "mg_set_first mg i (ms_timestamp (hd g)) w2 = (w3, Inr ())"
      "docs w3 = (docs w2)(i := map_option (\<lambda>d. d\<lparr>rd_first := Some (ms_timestamp (hd g))\<rparr>) (docs w2 i))"
      using assms unfolding documented_mongo_def by meson
    then show ?thesis using True w2(2) by (auto simp: d3_def)
  qed (simp add: pure_def d3_def w2(2))
  then obtain w3 where w3: "(if earlier then mg_set_first mg i (ms_timestamp (hd g)) else pure (Inr ())) w2 = (w3, Inr ())"
    "docs w3 = (docs w)(i \<mapsto> d3)" by blast
  have "record_resource mg g w = (w3, Inr ())"
    unfolding record_resource_def Let_def i_def [symmetric] md_def [symmetric] bindw_step [of "mg_upsert mg i (ms_owner (last g)) (md, ms_timestamp (last g)) (map ms_meter g)", OF w1(1)]
      later_def [symmetric] bindw_step [of "if later then mg_set_last mg i md (ms_timestamp (last g)) else pure (Inr ())", OF w2(1)] earlier_def [symmetric] by (rule w3(1))
  moreover have "d3 = recorded_doc g (docs w i)"
    by (simp add: recorded_doc_def Let_def d3_def d2_def d1_def md_def later_def earlier_def)
  ultimately show ?thesis using w3(2) by (auto simp: i_def)
qed

lemma sorted_ends:
  assumes "g \<noteq> []" and "sorted (map ms_timestamp g)"
  shows "Min (ms_timestamp ` set g) = ms_timestamp (hd g)" "Max (ms_timestamp ` set g) = ms_timestamp (last g)"
proof -
  have "\<forall>s\<in>set g. ms_timestamp (hd g) \<le> ms_timestamp s" using assms by (cases g) auto
  then show "Min (ms_timestamp ` set g) = ms_timestamp (hd g)" using assms(1) by (intro Min_eqI) auto
  have "\<forall>s\<in>set g. ms_timestamp s \<le> ms_timestamp (last g)"
    using assms by (induction g rule: rev_induct) (auto simp: sorted_append)
  then show "Max (ms_timestamp ` set g) = ms_timestamp (last g)" using assms(1) by (intro Max_eqI) auto
qed

lemma recorded_summary:
  assumes "summary_of ss doc" and "g \<noteq> []" and "sorted (map ms_timestamp g)"
  shows "summary_of (ss @ g) (Some (recorded_doc g doc))"
proof -
  let ?lo = "ms_timestamp (hd g)" and ?hi = "ms_timestamp (last g)" and ?T = "ms_timestamp ` set ss"
  note ends = sorted_ends [OF assms(2,3)]
  have le: "?lo \<le> ?hi" using ends assms(2) by (metis Min_le Max_in finite_imageI image_is_empty list.set_finite set_empty)
  have g: "last g \<in> set g" using assms(2) by simp
  show ?thesis
  proof (cases "ss = []")
    case True
    then have "doc = None" using assms(1) by (simp add: summary_of_def)
    then show ?thesis
      using True assms(2) ends le g by (auto simp: summary_of_def recorded_doc_def upserted_def Let_def set_add_to_set)
  next
    case False
    then obtain d where d: "doc = Some d" "rd_first d = Some (Min ?T)" "rd_last d = Some (Max ?T)"
      and md: "\<exists>s\<in>set ss. ms_timestamp s = Max ?T \<and> rd_metadata d = improve_keys (ms_metadata s)"
      and meters: "set (rd_meters d) = ms_meter ` set ss"
      using assms(1) by (auto simp: summary_of_def)
    have bounds: "Min (?T \<union> ms_timestamp ` set g) = min (Min ?T) ?lo" "Max (?T \<union> ms_timestamp ` set g) = max (Max ?T) ?hi"
      using False assms(2) ends by (simp_all add: Min_Un Max_Un)
    show ?thesis
      using d md meters bounds g assms(2)
      by (auto simp: summary_of_def recorded_doc_def upserted_def Let_def set_add_to_set image_Un min_def max_def)
  qed
qed

lemma concat_group_by: "concat (group_by f xs) = xs"
  by (induction xs) (auto split: list.splits)

lemma group_by_same: "g \<in> set (group_by f xs) \<Longrightarrow> g \<noteq> [] \<and> (\<forall>x\<in>set g. f x = f (last g))"
proof (induction xs arbitrary: g)
  case (Cons x xs)
  note IH = Cons.IH
  show ?case
  proof (cases "group_by f xs")
    case Nil
    then show ?thesis using Cons.prems by simp
  next
    case (Cons h hs)
    have "h \<in> set (group_by f xs)" by (simp add: Cons)
    note h = IH [OF this, THEN conjunct1] IH [OF this, THEN conjunct2]
    have hd: "f (hd h) = f (last h)" by (rule h(2) [rule_format]) (simp add: h(1))
    consider "g \<in> set (group_by f xs)" | "g = [x]" | "g = x # h" "f (hd h) = f x"
      using Cons.prems Cons by (auto split: if_splits)
    then show ?thesis
    proof cases
      case 3
      have l: "last g = last h" by (simp add: 3(1) h(1))
      have "f y = f (last g)" if "y \<in> set g" for y
      proof (cases "y = x")
        case False
        then have "y \<in> set h" using that 3(1) by simp
        then show ?thesis using h(2) l by metis
      qed (use l hd 3(2) in metis)
      then show ?thesis using 3(1) by blast
    next
      case 1
      then show ?thesis by (rule IH)
    qed simp
  qed
qed simp

lemma sorted_concat: "sorted (map key (concat gs)) \<Longrightarrow> g \<in> set gs \<Longrightarrow> sorted (map key g)"
  by (induction gs) (auto simp: sorted_append)

lemma sorted_second: "sorted (map (\<lambda>s. (f s, h s)) g) \<Longrightarrow> \<forall>x\<in>set g. f x = i \<Longrightarrow> sorted (map h g)"
  by (induction g) (auto simp: less_eq_prod_def)

lemma resource_groups_ok:
  assumes "g \<in> set (resource_groups samples)"
  shows "g \<noteq> []" "\<forall>s\<in>set g. ms_resource s = ms_resource (last g)" "sorted (map ms_timestamp g)"
proof -
  show g: "g \<noteq> []" "\<forall>s\<in>set g. ms_resource s = ms_resource (last g)"
    using group_by_same assms unfolding resource_groups_def by blast+
  let ?key = "\<lambda>s. (ms_resource s, ms_timestamp s)"
  have "sorted (map ?key (concat (resource_groups samples)))" by (simp add: resource_groups_def concat_group_by)
  from sorted_concat [OF this assms] show "sorted (map ms_timestamp g)" by (rule sorted_second) (rule g(2))
qed

lemma summary_of_cong: "set ss = set ts \<Longrightarrow> summary_of ss doc = summary_of ts doc"
  by (simp add: summary_of_def) (metis set_empty)

lemma record_resource_summarised:
  assumes "documented_mongo mg docs" and "summarised docs ss w"
    and "g \<noteq> []" "\<forall>s\<in>set g. ms_resource s = ms_resource (last g)" "sorted (map ms_timestamp g)"
  shows "\<exists>w1. record_resource mg g w = (w1, Inr ()) \<and> summarised docs (ss @ g) w1"
proof -
  let ?i = "ms_resource (last g)"
  obtain w1 where w1: "record_resource mg g w = (w1, Inr ())" "docs w1 = (docs w)(?i \<mapsto> recorded_doc g (docs w ?i))"
    using record_resource_doc [OF assms(1)] by blast
  have "summary_of (of_resource j (ss @ g)) (docs w1 j)" for j
  proof (cases "j = ?i")
    case True
    have "filter (\<lambda>s. ms_resource s = ?i) g = g" using assms(4) by (simp add: filter_id_conv)
    then have "of_resource j (ss @ g) = of_resource ?i ss @ g" by (simp add: of_resource_def True)
    moreover have "summary_of (of_resource ?i ss) (docs w ?i)" using assms(2) by (simp add: summarised_def)
    ultimately show ?thesis using recorded_summary [OF _ assms(3,5)] True w1(2) by simp
  next
    case False
    then have "filter (\<lambda>s. ms_resource s = j) g = []" using assms(4) by (auto simp: filter_empty_conv)
    then have "of_resource j (ss @ g) = of_resource j ss" by (simp add: of_resource_def)
    then show ?thesis using assms(2) False w1(2) by (simp add: summarised_def)
  qed
  then show ?thesis using w1(1) by (auto simp: summarised_def)
qed

lemma record_groups_summarised:
  assumes "documented_mongo mg docs"
  shows "summarised docs ss w \<Longrightarrow>
    (\<forall>g\<in>set gs. g \<noteq> [] \<and> (\<forall>s\<in>set g. ms_resource s = ms_resource (last g)) \<and> sorted (map ms_timestamp g)) \<Longrightarrow>
    \<exists>w1 us. mapw (record_resource mg) gs w = (w1, Inr us) \<and> summarised docs (ss @ concat gs) w1"
proof (induction gs arbitrary: ss w)
  case (Cons g gs)
  obtain w1 where w1: "record_resource mg g w = (w1, Inr ())" "summarised docs (ss @ g) w1"
    using record_resource_summarised [OF assms Cons.prems(1), of g] Cons.prems(2) by auto
  obtain w2 us where "mapw (record_resource mg) gs w1 = (w2, Inr us)" "summarised docs ((ss @ g) @ concat gs) w2"
    using Cons.IH [OF w1(2)] Cons.prems(2) by auto
  then show ?case using w1(1) by (simp add: bindw_def pure_def)
qed (simp add: pure_def)

lemma record_batch_summarised:
  assumes "documented_mongo mg docs" and "summarised docs ss w"
  shows "\<exists>w1. record_metering_data_batch mg samples w = (w1, Inr ()) \<and> summarised docs (ss @ samples) w1"
proof -
  obtain w1 us where w1: "mapw (record_resource mg) (resource_groups samples) w = (w1, Inr us)"
    "summarised docs (ss @ concat (resource_groups samples)) w1"
    using record_groups_summarised [OF assms, of "resource_groups samples"] resource_groups_ok by blast
  define rows where "rows = map (\<lambda>s. (s\<lparr>ms_metadata := improve_keys (ms_metadata s)\<rparr>, mg_now mg w1)) samples"
  obtain w2 where w2: "mg_insert mg rows w1 = (w2, Inr ())" "docs w2 = docs w1"
    using assms(1) unfolding documented_mongo_def by meson
  have "set (of_resource i (ss @ concat (resource_groups samples))) = set (of_resource i (ss @ samples))" for i
    by (auto simp: of_resource_def resource_groups_def concat_group_by)
  then have "summarised docs (ss @ samples) w2"
    using w1(2) w2(2) summary_of_cong unfolding summarised_def by metis
  moreover have "record_metering_data_batch mg samples w = (w2, Inr ())"
    using w1(1) w2(1) by (simp add: record_metering_data_batch_def bindw_def rows_def)
  ultimately show ?thesis by blast
qed

text \<open>
  C35: However samples are spread over batches and in whatever order they come, the document of a
  resource says what its samples say together: its first and its last time are the least and the
  greatest of their times, its metadata are those of a sample with the greatest time, and its
  meters are theirs; a resource without samples has no document.
\<close>

theorem resource_document_summarises:
  assumes "documented_mongo mg docs" and "docs w = Map.empty"
  shows "\<exists>w1 us. mapw (record_metering_data_batch mg) batches w = (w1, Inr us) \<and>
    (\<forall>i. summary_of (of_resource i (concat batches)) (docs w1 i))"
proof -
  have "\<exists>w1 us. mapw (record_metering_data_batch mg) batches w = (w1, Inr us) \<and> summarised docs (ss @ concat batches) w1"
    if "summarised docs ss w" for ss w
    using that
  proof (induction batches arbitrary: ss w)
    case (Cons b batches)
    obtain w1 where w1: "record_metering_data_batch mg b w = (w1, Inr ())" "summarised docs (ss @ b) w1"
      using record_batch_summarised [OF assms(1) Cons.prems] by blast
    obtain w2 us where "mapw (record_metering_data_batch mg) batches w1 = (w2, Inr us)" "summarised docs ((ss @ b) @ concat batches) w2"
      using Cons.IH [OF w1(2)] by blast
    then show ?case using w1(1) by (simp add: bindw_def pure_def)
  qed (simp add: pure_def)
  from this [of "[]" w] show ?thesis using assms(2) by (auto simp: summarised_def summary_of_def of_resource_def)
qed

text \<open>A collection in memory.\<close>

definition demo_mongo :: "(string \<Rightarrow> resource_doc option) mongo" where
  "demo_mongo =
     \<lparr>mg_upsert = (\<lambda>i owner ins meters w. (w(i \<mapsto> upserted owner ins meters (w i)), Inr (upserted owner ins meters (w i)))),
      mg_set_last = (\<lambda>i md t w. (w(i := map_option (\<lambda>d. d\<lparr>rd_metadata := md, rd_last := Some t\<rparr>) (w i)), Inr ())),
      mg_set_first = (\<lambda>i t w. (w(i := map_option (\<lambda>d. d\<lparr>rd_first := Some t\<rparr>) (w i)), Inr ())),
      mg_insert = (\<lambda>rows w. (w, Inr ())), mg_now = (\<lambda>w. 0)\<rparr>"

definition demo_recorded :: "int \<Rightarrow> string \<Rightarrow> mongo_sample" where
  "demo_recorded t state =
     \<lparr>ms_resource = ''vm'', ms_timestamp = t, ms_owner = (PStr ''p'', PStr ''u'', PStr ''s''), ms_meter = (PStr ''cpu'', PStr ''gauge'', PStr ''%''),
      ms_metadata = PDict [(''state'', PStr state)], ms_rest = []\<rparr>"

theorem resource_document_summarises_witness:
  "\<exists>w1 us d. mapw (record_metering_data_batch demo_mongo) [[demo_recorded 7 ''on'', demo_recorded 3 ''boot''], [demo_recorded 5 ''up'']] Map.empty
     = (w1, Inr us) \<and> w1 ''vm'' = Some d \<and> rd_first d = Some 3 \<and> rd_last d = Some 7 \<and> rd_metadata d = PDict [(''state'', PStr ''on'')]"
proof -
  let ?bs = "[[demo_recorded 7 ''on'', demo_recorded 3 ''boot''], [demo_recorded 5 ''up'']]"
  have "documented_mongo demo_mongo (\<lambda>w. w)" by (simp add: documented_mongo_def demo_mongo_def)
  then obtain w1 us where w1: "mapw (record_metering_data_batch demo_mongo) ?bs Map.empty = (w1, Inr us)"
    "summary_of (of_resource ''vm'' (concat ?bs)) (w1 ''vm'')"
    using resource_document_summarises [of demo_mongo "\<lambda>w. w" Map.empty ?bs] by blast
  have ts: "ms_timestamp (demo_recorded t s) = t" for t s by (simp add: demo_recorded_def)
  have all: "of_resource ''vm'' (concat ?bs) = [demo_recorded 7 ''on'', demo_recorded 3 ''boot'', demo_recorded 5 ''up'']"
    by (simp add: of_resource_def demo_recorded_def)
  obtain d where d: "w1 ''vm'' = Some d" "rd_first d = Some 3" "rd_last d = Some 7"
    "\<exists>s\<in>{demo_recorded 7 ''on'', demo_recorded 3 ''boot'', demo_recorded 5 ''up''}. ms_timestamp s = 7 \<and> rd_metadata d = improve_keys (ms_metadata s)"
    using w1(2) unfolding all by (auto simp: summary_of_def ts)
  have "improve_keys (PDict [(''state'', PStr ''on'')]) = PDict [(''state'', PStr ''on'')]" by code_simp
  then have "rd_metadata d = PDict [(''state'', PStr ''on'')]" using d(4) by (auto simp: demo_recorded_def simp del: improve_keys.simps)
  then show ?thesis using w1(1) d by blast
qed

end
