(* ===== verification/Mongo_Query.thy ===== *)
theory Mongo_Query
  imports Api_Complex_Query
begin

text \<open>
  Complex queries for MongoDB (\<^verbatim>\<open>QueryTransformer\<close> of \<^verbatim>\<open>ceilometer/storage/mongo/utils.py\<close>): the
  filter expression that the API has prepared becomes a query document. MongoDB has no negation
  of conjunctions and disjunctions, so negations are moved to the comparisons first.
\<close>

section \<open>Filter trees\<close>

text \<open>
  A filter expression has one operator, which the schema of the API guarantees, and the API has
  written it in lower case.
\<close>

datatype junction = And | Or

datatype ftree =
    Junction junction "ftree list"
  | Negation ftree
  | Comparison string string pyval

definition junction_of :: "string \<Rightarrow> junction" where
  "junction_of oper = (if oper = ''and'' then And else Or)"

function (sequential) ftree_of :: "pyval \<Rightarrow> ftree option" where
  "ftree_of (PDict [(oper, v)]) =
     (if oper \<in> {''and'', ''or''}
      then (case v of
              PList xs \<Rightarrow> map_option (Junction (junction_of oper)) (those (map ftree_of xs))
            | _ \<Rightarrow> None)
      else if oper = ''not'' then map_option Negation (ftree_of v)
      else (case v of PDict [(field, x)] \<Rightarrow> Some (Comparison oper field x) | _ \<Rightarrow> None))"
| "ftree_of v = None"
  by pat_completeness auto
termination
  by (relation "measure size") (auto dest!: size_list_member [where f = size])

fun tree_meaning :: "(string \<Rightarrow> string \<Rightarrow> pyval \<Rightarrow> bool) \<Rightarrow> ftree \<Rightarrow> bool" where
  "tree_meaning cmp (Junction And ts) = list_all (tree_meaning cmp) ts"
| "tree_meaning cmp (Junction Or ts) = list_ex (tree_meaning cmp) ts"
| "tree_meaning cmp (Negation t) = (\<not> tree_meaning cmp t)"
| "tree_meaning cmp (Comparison oper field x) = cmp oper field x"

section \<open>Moving negations\<close>

fun dual :: "junction \<Rightarrow> junction" where
  "dual And = Or"
| "dual Or = And"

text \<open>
  \<open>transform\<close> in \<open>_move_negation_to_leaf\<close>. Two negations are removed by writing the operator below
  them into the tree and deleting \<open>not\<close>: a third negation is what is deleted, and the empty tree
  has no first operator.
\<close>

function (sequential) move_negation :: "ftree \<Rightarrow> ftree res" where
  "move_negation (Junction j ts) = bindr (mapr move_negation ts) (\<lambda>us. Inr (Junction j us))"
| "move_negation (Negation (Junction j ts)) =
     bindr (mapr (\<lambda>t. move_negation (Negation t)) ts) (\<lambda>us. Inr (Junction (dual j) us))"
| "move_negation (Negation (Negation (Negation t))) = Inl IndexError"
| "move_negation (Negation (Negation t)) = move_negation t"
| "move_negation t = Inr t"
  by pat_completeness auto
termination
  by (relation "measure size") (auto dest!: size_list_member [where f = size])

section \<open>Query documents\<close>

definition mongo_operators :: "(string \<times> string) list" where
  "mongo_operators =
     [(''<'', ''$lt''), (''>'', ''$gt''), (''<='', ''$lte''), (''=<'', ''$lte''), (''>='', ''$gte''), (''=>'', ''$gte''),
      (''!='', ''$ne''), (''in'', ''$in''), (''=~'', ''$regex'')]"

definition mongo_complex :: "junction \<Rightarrow> string" where
  "mongo_complex j = (case j of And \<Rightarrow> ''$and'' | Or \<Rightarrow> ''$or'')"

definition handle_simple_op :: "string \<Rightarrow> string \<Rightarrow> pyval \<Rightarrow> pyval res" where
  "handle_simple_op oper field x =
     (if oper = ''='' then Inr (PDict [(field, x)])
      else bindr (dict_item mongo_operators oper) (\<lambda>m. Inr (PDict [(field, PDict [(m, x)])])))"

definition handle_not_op :: "ftree \<Rightarrow> pyval res" where
  "handle_not_op t =
     (case t of
        Comparison oper field x \<Rightarrow>
          if oper = ''='' then Inr (PDict [(field, PDict [(''$ne'', x)])])
          else if oper = ''!='' then Inr (PDict [(field, x)])
          else bindr (dict_item mongo_operators oper) (\<lambda>m. Inr (PDict [(field, PDict [(''$not'', PDict [(m, x)])])]))
      | Negation u \<Rightarrow> Inl (KeyError ''not'')
      | Junction j ts \<Rightarrow> Inl (AttributeError ''keys''))"

fun process_json_tree :: "ftree \<Rightarrow> pyval res" where
  "process_json_tree (Junction j ts) =
     bindr (mapr process_json_tree ts) (\<lambda>qs. Inr (PDict [(mongo_complex j, PList qs)]))"
| "process_json_tree (Negation t) = handle_not_op t"
| "process_json_tree (Comparison oper field x) = handle_simple_op oper field x"

definition transform_filter :: "ftree \<Rightarrow> pyval res" where
  "transform_filter t = bindr (move_negation t) process_json_tree"

definition ordering_functions :: "(string \<times> int) list" where
  "ordering_functions = [(''asc'', 1), (''desc'', - 1)]"

definition transform_orderby :: "pymap list \<Rightarrow> (string \<times> int) list res" where
  "transform_orderby orderby =
     mapr (\<lambda>d. bindr (first_item (PDict d)) (\<lambda>(field, v).
       (case v of
          PStr s \<Rightarrow> bindr (dict_item ordering_functions s) (\<lambda>i. Inr (field, i))
        | _ \<Rightarrow> Inl (if hashable v then KeyError [] else TypeError)))) orderby"

section \<open>What a query document selects\<close>

text \<open>
  \<open>sel field condition\<close> is the verdict of the database on the document at hand for one field. How
  conditions and the operators of queries relate is what MongoDB documents: a plain value is
  equality, \<open>$ne\<close> is its negation and \<open>$not\<close> negates a condition.
\<close>

function (sequential) mongo_selects :: "(string \<Rightarrow> pyval \<Rightarrow> bool) \<Rightarrow> pyval \<Rightarrow> bool" where
  "mongo_selects sel (PDict [(k, v)]) =
     (if k = ''$and'' then (case v of PList qs \<Rightarrow> list_all (mongo_selects sel) qs | _ \<Rightarrow> False)
      else if k = ''$or'' then (case v of PList qs \<Rightarrow> list_ex (mongo_selects sel) qs | _ \<Rightarrow> False)
      else sel k v)"
| "mongo_selects sel v = False"
  by pat_completeness auto
termination
  by (relation "measure (\<lambda>(c, v). size v)") (auto dest!: size_list_member [where f = size])

definition plain :: "pyval \<Rightarrow> bool" where
  "plain x = (case x of PDict d \<Rightarrow> False | _ \<Rightarrow> True)"

definition documented_conditions :: "(string \<Rightarrow> pyval \<Rightarrow> bool) \<Rightarrow> (string \<Rightarrow> string \<Rightarrow> pyval \<Rightarrow> bool) \<Rightarrow> bool" where
  "documented_conditions sel cmp \<longleftrightarrow>
     (\<forall>field x. plain x \<longrightarrow>
        sel field x = cmp ''='' field x \<and> cmp ''!='' field x = (\<not> cmp ''='' field x) \<and>
        (\<forall>(oper, m) \<in> set mongo_operators.
           sel field (PDict [(m, x)]) = cmp oper field x \<and>
           sel field (PDict [(''$not'', PDict [(m, x)])]) = (\<not> cmp oper field x)))"

text \<open>Trees whose comparisons have an operator of MongoDB, a field and a value that is no document.\<close>

definition comparison_ok :: "string \<Rightarrow> string \<Rightarrow> pyval \<Rightarrow> bool" where
  "comparison_ok oper field x \<longleftrightarrow>
     (oper = ''='' \<or> oper \<in> set (dict_keys mongo_operators)) \<and> field \<notin> {''$and'', ''$or''} \<and> plain x"

fun tree_ok :: "ftree \<Rightarrow> bool" where
  "tree_ok (Junction j ts) = list_all tree_ok ts"
| "tree_ok (Negation t) = tree_ok t"
| "tree_ok (Comparison oper field x) = comparison_ok oper field x"

text \<open>
  The trees whose negations can be moved: \<open>n\<close> negations are above. A conjunction or a disjunction below
  a single negation hands it on to its operands.
\<close>

fun nots_ok :: "nat \<Rightarrow> ftree \<Rightarrow> bool" where
  "nots_ok n (Junction j ts) = list_all (nots_ok (n mod 2)) ts"
| "nots_ok n (Negation t) = (n < 2 \<and> nots_ok (Suc n) t)"
| "nots_ok n (Comparison oper field x) = True"

text \<open>Comparisons, possibly negated, below conjunctions and disjunctions.\<close>

fun pushed :: "ftree \<Rightarrow> bool" where
  "pushed (Junction j ts) = list_all pushed ts"
| "pushed (Negation (Comparison oper field x)) = True"
| "pushed (Negation t) = False"
| "pushed (Comparison oper field x) = True"

lemma is_ok_mapr: "is_ok (mapr f xs) \<longleftrightarrow> (\<forall>x\<in>set xs. is_ok (f x))"
  by (induction xs) (auto simp: is_ok_iff bindr_Inr_iff)

lemma is_ok_wrap: "is_ok (bindr r (\<lambda>x. Inr (g x))) = is_ok r"
  by (cases r) simp_all

lemma move_negation_ok_iff: "is_ok (move_negation t) \<longleftrightarrow> nots_ok 0 t"
  by (induction t rule: move_negation.induct) (auto simp: is_ok_mapr is_ok_wrap list_all_iff)

lemma moved_list:
  assumes "mapr f ts = Inr us"
    and "\<And>t u. t \<in> set ts \<Longrightarrow> f t = Inr u \<Longrightarrow> pushed u \<and> tree_meaning cmp u = P t \<and> (tree_ok t \<longrightarrow> tree_ok u)"
  shows "list_all pushed us \<and> list_all (tree_meaning cmp) us = list_all P ts \<and>
    list_ex (tree_meaning cmp) us = list_ex P ts \<and> (list_all tree_ok ts \<longrightarrow> list_all tree_ok us)"
  using assms by (induction ts arbitrary: us) (fastforce simp: bindr_Inr_iff)+

text \<open>What comes out of moving the negations means the same.\<close>

lemma move_negation_correct:
  "move_negation t = Inr u \<Longrightarrow> pushed u \<and> tree_meaning cmp u = tree_meaning cmp t \<and> (tree_ok t \<longrightarrow> tree_ok u)"
proof (induction t arbitrary: u rule: move_negation.induct)
  case (1 j ts)
  then obtain us where us: "mapr move_negation ts = Inr us" "u = Junction j us" by (auto simp: bindr_Inr_iff)
  show ?case using moved_list [OF us(1), of cmp "tree_meaning cmp"] "1.IH" by (cases j) (auto simp: us(2))
next
  case (2 j ts)
  then obtain us where us: "mapr (\<lambda>t. move_negation (Negation t)) ts = Inr us" "u = Junction (dual j) us" by (auto simp: bindr_Inr_iff)
  have "list_all pushed us \<and> list_all (tree_meaning cmp) us = list_all (\<lambda>t. \<not> tree_meaning cmp t) ts \<and>
    list_ex (tree_meaning cmp) us = list_ex (\<lambda>t. \<not> tree_meaning cmp t) ts \<and> (list_all tree_ok ts \<longrightarrow> list_all tree_ok us)"
    using "2.IH" by (intro moved_list [OF us(1)]) auto
  then show ?case by (cases j) (auto simp: us(2) list_all_iff list_ex_iff)
qed auto

section \<open>The query document selects what the filter means\<close>

lemma process_ok_comparison:
  assumes "comparison_ok oper field x" and "documented_conditions sel cmp"
  shows "\<exists>q. handle_simple_op oper field x = Inr q \<and> mongo_selects sel q = cmp oper field x"
    and "\<exists>q. handle_not_op (Comparison oper field x) = Inr q \<and> mongo_selects sel q = (\<not> cmp oper field x)"
proof -
  have f: "field \<noteq> ''$and''" "field \<noteq> ''$or''" and x: "plain x" using assms(1) by (auto simp: comparison_ok_def)
  have eq: "sel field x = cmp ''='' field x" "cmp ''!='' field x = (\<not> cmp ''='' field x)"
    using assms(2) x by (simp_all add: documented_conditions_def)
  have other: "\<exists>m. dict_item mongo_operators oper = Inr m \<and> sel field (PDict [(m, x)]) = cmp oper field x \<and>
      sel field (PDict [(''$not'', PDict [(m, x)])]) = (\<not> cmp oper field x)" if "oper \<noteq> ''=''"
  proof -
    have "oper \<in> set (dict_keys mongo_operators)" using assms(1) that unfolding comparison_ok_def by blast
    then have "dict_get mongo_operators oper \<noteq> None" unfolding dict_get_None_iff by blast
    then obtain m where m: "dict_get mongo_operators oper = Some m" by blast
    then have "(oper, m) \<in> set mongo_operators" by (rule map_of_SomeD)
    then have "sel field (PDict [(m, x)]) = cmp oper field x \<and> sel field (PDict [(''$not'', PDict [(m, x)])]) = (\<not> cmp oper field x)"
      using assms(2) x unfolding documented_conditions_def by blast
    with m show ?thesis by (simp add: dict_item_def)
  qed
  have ne: "sel field (PDict [(''$ne'', x)]) = (\<not> cmp ''='' field x)"
    using assms(2) x eq(2) by (simp add: documented_conditions_def mongo_operators_def)
  show "\<exists>q. handle_simple_op oper field x = Inr q \<and> mongo_selects sel q = cmp oper field x"
    using other f eq(1) by (cases "oper = ''=''") (auto simp: handle_simple_op_def)
  show "\<exists>q. handle_not_op (Comparison oper field x) = Inr q \<and> mongo_selects sel q = (\<not> cmp oper field x)"
    using other f eq ne by (cases "oper = ''=''") (auto simp: handle_not_op_def)
qed

lemma processed_list:
  "(\<And>t. t \<in> set ts \<Longrightarrow> \<exists>q. f t = Inr q \<and> sel q = P t) \<Longrightarrow>
   \<exists>qs. mapr f ts = Inr qs \<and> list_all sel qs = list_all P ts \<and> list_ex sel qs = list_ex P ts"
proof (induction ts)
  case (Cons t ts)
  obtain q where "f t = Inr q" "sel q = P t" using Cons.prems [of t] by auto
  moreover obtain qs where "mapr f ts = Inr qs" "list_all sel qs = list_all P ts" "list_ex sel qs = list_ex P ts"
    using Cons by (metis list.set_intros(2))
  ultimately show ?case by simp
qed simp

lemma process_pushed:
  assumes "documented_conditions sel cmp"
  shows "pushed t \<Longrightarrow> tree_ok t \<Longrightarrow> \<exists>q. process_json_tree t = Inr q \<and> mongo_selects sel q = tree_meaning cmp t"
proof (induction t rule: pushed.induct)
  case (1 j ts)
  have "\<exists>q. process_json_tree t = Inr q \<and> mongo_selects sel q = tree_meaning cmp t" if "t \<in> set ts" for t
    using 1 that by (auto simp: list_all_iff)
  then obtain qs where "mapr process_json_tree ts = Inr qs" "list_all (mongo_selects sel) qs = list_all (tree_meaning cmp) ts"
    "list_ex (mongo_selects sel) qs = list_ex (tree_meaning cmp) ts"
    using processed_list [of ts process_json_tree "mongo_selects sel" "tree_meaning cmp"] by blast
  then show ?case by (cases j) (auto simp: bindr_Inr_iff mongo_complex_def)
qed (use process_ok_comparison [OF _ assms] in auto)

text \<open>The tree of a filter means what the filter means for the API.\<close>

lemma those_Some_iff: "those xs = Some ys \<longleftrightarrow> xs = map Some ys"
  by (induction xs arbitrary: ys) (auto split: option.splits)

lemma lower_operator: "comparison_ok oper field x \<Longrightarrow> str_lower oper = oper \<and> oper \<notin> {''and'', ''or'', ''not''}"
  by (auto simp: comparison_ok_def mongo_operators_def str_lower_def to_lower_def)

lemma lower_junctions: "str_lower ''and'' = ''and''" "str_lower ''or'' = ''or''" "str_lower ''not'' = ''not''"
  by code_simp+

lemma ftree_meaning: "ftree_of f = Some t \<Longrightarrow> tree_ok t \<Longrightarrow> meaning cmp f = tree_meaning cmp t"
proof (induction f arbitrary: t rule: ftree_of.induct)
  case (1 oper v)
  consider (junction) "oper \<in> {''and'', ''or''}" | (negation) "oper = ''not''" | (comparison) "oper \<notin> {''and'', ''or'', ''not''}" by blast
  then show ?case
  proof cases
    case junction
    then obtain xs ts where v: "v = PList xs" and ts: "map ftree_of xs = map Some ts" and t: "t = Junction (junction_of oper) ts"
      using "1.prems"(1) by (auto simp: those_Some_iff split: pyval.splits)
    have "list_all2 (\<lambda>x u. ftree_of x = Some u) xs ts" using ts by (simp add: list_all2_conv_all_nth list_eq_iff_nth_eq)
    moreover have "meaning cmp x = tree_meaning cmp u" if "x \<in> set xs" "u \<in> set ts" "ftree_of x = Some u" for x u
      using "1.IH"(1) [OF junction v that(1,3)] "1.prems"(2) t that(2) by (simp add: list_all_iff)
    ultimately have "list_all2 (\<lambda>x u. meaning cmp x = tree_meaning cmp u) xs ts"
      by (auto simp: list_all2_conv_all_nth)
    then have "list_all (meaning cmp) xs = list_all (tree_meaning cmp) ts \<and> list_ex (meaning cmp) xs = list_ex (tree_meaning cmp) ts"
      by (induction rule: list_all2_induct) auto
    then show ?thesis using junction by (auto simp: v t junction_of_def lower_junctions)
  next
    case negation
    then obtain u where "ftree_of v = Some u" "t = Negation u" using "1.prems"(1) by auto
    then show ?thesis using "1.IH"(2) [of u] "1.prems"(2) negation by (simp add: lower_junctions)
  next
    case comparison
    then obtain field x where "v = PDict [(field, x)]" "t = Comparison oper field x"
      using "1.prems"(1) by (auto split: pyval.splits list.splits)
    then show ?thesis using "1.prems"(2) lower_operator [of oper field x] by simp
  qed
qed simp_all

text \<open>
  C32: The query document that MongoDB gets for a complex filter selects exactly the samples that the
  filter of the API means: moving the negations to the comparisons and writing the operators of
  MongoDB change nothing. A document comes out whenever no three negations are in a row, counting a
  conjunction or disjunction below a single negation as handing it on.
\<close>

theorem mongo_filter_faithful:
  assumes "ftree_of f = Some t" and "tree_ok t" and "nots_ok 0 t" and "documented_conditions sel cmp"
  shows "\<exists>q. transform_filter t = Inr q \<and> mongo_selects sel q = meaning cmp f"
proof -
  obtain u where u: "move_negation t = Inr u" using assms(3) move_negation_ok_iff by (auto simp: is_ok_iff)
  note c = move_negation_correct [OF u, of cmp]
  obtain q where "process_json_tree u = Inr q" "mongo_selects sel q = tree_meaning cmp u"
    using process_pushed [OF assms(4)] c assms(2) by blast
  then show ?thesis using c u ftree_meaning [OF assms(1,2)] by (auto simp: transform_filter_def)
qed

definition demo_document :: pymap where
  "demo_document = [(''user_id'', PStr ''u''), (''counter_volume'', PInt 3)]"

definition demo_operator :: "string \<Rightarrow> string \<Rightarrow> pyval \<Rightarrow> bool" where
  "demo_operator m field x =
     (if m = ''$ne'' then dict_get demo_document field \<noteq> Some x
      else case (dict_get demo_document field, x) of (Some (PInt a), PInt b) \<Rightarrow> m = ''$gt'' \<and> b < a | _ \<Rightarrow> False)"

definition demo_comparison :: "string \<Rightarrow> string \<Rightarrow> pyval \<Rightarrow> bool" where
  "demo_comparison oper field x =
     (if oper = ''='' then dict_get demo_document field = Some x
      else case dict_get mongo_operators oper of None \<Rightarrow> False | Some m \<Rightarrow> demo_operator m field x)"

definition demo_condition :: "string \<Rightarrow> pyval \<Rightarrow> bool" where
  "demo_condition field c =
     (case c of
        PDict [(m, x)] \<Rightarrow>
          if m = ''$not'' then (case x of PDict [(n, y)] \<Rightarrow> \<not> demo_operator n field y | _ \<Rightarrow> False) else demo_operator m field x
      | _ \<Rightarrow> dict_get demo_document field = Some c)"

lemma demo_documented: "documented_conditions demo_condition demo_comparison"
proof -
  have "demo_condition field x = demo_comparison ''='' field x" if "plain x" for field x
    using that by (cases x) (auto simp: plain_def demo_condition_def demo_comparison_def)
  moreover have "demo_comparison ''!='' field x = (\<not> demo_comparison ''='' field x)" for field x
    by (simp add: demo_comparison_def mongo_operators_def demo_operator_def)
  moreover have "\<forall>(oper, m) \<in> set mongo_operators. demo_condition field (PDict [(m, x)]) = demo_comparison oper field x \<and>
      demo_condition field (PDict [(''$not'', PDict [(m, x)])]) = (\<not> demo_comparison oper field x)" for field x
    by (simp add: mongo_operators_def demo_condition_def demo_comparison_def)
  ultimately show ?thesis unfolding documented_conditions_def by blast
qed

definition demo_not_filter :: pyval where
  "demo_not_filter =
     PDict [(''not'', PDict [(''and'', PList [PDict [(''='', PDict [(''user_id'', PStr ''v'')])],
        PDict [(''not'', PDict [(''>'', PDict [(''counter_volume'', PInt 2)])])]])])]"

definition demo_not_tree :: ftree where
  "demo_not_tree = Negation (Junction And [Comparison ''='' ''user_id'' (PStr ''v''), Negation (Comparison ''>'' ''counter_volume'' (PInt 2))])"

theorem mongo_filter_faithful_witness:
  "transform_filter demo_not_tree =
     Inr (PDict [(''$or'', PList [PDict [(''user_id'', PDict [(''$ne'', PStr ''v'')])], PDict [(''counter_volume'', PDict [(''$gt'', PInt 2)])]])]) \<and>
   meaning demo_comparison demo_not_filter"
proof -
  have "ftree_of demo_not_filter = Some demo_not_tree" "tree_ok demo_not_tree" "nots_ok 0 demo_not_tree" by code_simp+
  then obtain q where "transform_filter demo_not_tree = Inr q" "mongo_selects demo_condition q = meaning demo_comparison demo_not_filter"
    using mongo_filter_faithful demo_documented by blast
  moreover have "transform_filter demo_not_tree =
     Inr (PDict [(''$or'', PList [PDict [(''user_id'', PDict [(''$ne'', PStr ''v'')])], PDict [(''counter_volume'', PDict [(''$gt'', PInt 2)])]])])"
    by code_simp
  moreover have "meaning demo_comparison demo_not_filter" by code_simp
  ultimately show ?thesis by simp
qed

text \<open>Three negations in a row are an \<open>IndexError\<close>, although the API accepts them.\<close>

lemma three_negations_fail: "transform_filter (Negation (Negation (Negation t))) = Inl IndexError"
  by (simp add: transform_filter_def)

end
