(* ===== verification/Mongo_Read.thy ===== *)
theory Mongo_Read
  imports Mongo_Store Mongo_Query
begin

text \<open>
  Reading from MongoDB (\<^verbatim>\<open>ceilometer/storage/pymongo_base.py\<close> and \<^verbatim>\<open>impl_mongodb.py\<close>): meters, samples
  and resources from the documents that queries give. A query is a document with its order and
  its limit; the collections are parameters.
\<close>

section \<open>Order\<close>

definition DESCENDING :: int where "DESCENDING = - 1"
definition ASCENDING :: int where "ASCENDING = 1"

definition sort_keys_extra :: "(string \<times> string list) list" where
  "sort_keys_extra = [(''meter'', [''user_id'', ''project_id'']), (''resource'', [''user_id'', ''project_id'', ''timestamp''])]"

definition handle_sort_key :: "string \<Rightarrow> string option \<Rightarrow> string list res" where
  "handle_sort_key model_name user_key =
     bindr (dict_item sort_keys_extra model_name) (\<lambda>ks.
       Inr (case user_key of None \<Rightarrow> ks | Some k \<Rightarrow> if k = [] then ks else k # remove1 k ks))"

definition build_sort_instructions :: "string list \<Rightarrow> string \<Rightarrow> (string \<times> int) list \<times> string" where
  "build_sort_instructions keys sort_dir =
     (let (d, oper) = (if sort_dir = ''asc'' then (ASCENDING, ''$gt'') else (DESCENDING, ''$lt''))
      in (map (\<lambda>k. (k, d)) keys, oper))"

record find_args =
  fa_query :: pymap
  fa_sort :: "(string \<times> int) list"
  fa_limit :: "int option"

section \<open>Meters\<close>

definition none_or :: "string \<Rightarrow> pyval \<Rightarrow> pymap" where
  "none_or k v = (if v = PNone then [] else if v = PStr ''None'' then [(k, PNone)] else [(k, v)])"

definition given :: "string \<Rightarrow> pyval \<Rightarrow> pymap" where
  "given k v = (if v = PNone then [] else [(k, v)])"

definition meters_query :: "pyval \<Rightarrow> pyval \<Rightarrow> pyval \<Rightarrow> pyval \<Rightarrow> pymap \<Rightarrow> pymap" where
  "meters_query user project resource source mq =
     dict_update (none_or ''user_id'' user @ none_or ''project_id'' project @ none_or ''_id'' resource @ given ''source'' source)
       (improve_metaquery mq)"

record mongo_meter =
  mm_name :: pyval
  mm_type :: pyval
  mm_unit :: pyval
  mm_owner :: "(pyval \<times> pyval \<times> pyval \<times> pyval) option"

definition meter_of_document :: "bool \<Rightarrow> pymap \<Rightarrow> pyval \<Rightarrow> mongo_meter res" where
  "meter_of_document unique r m =
     bindr (py_getitem m (PStr ''counter_name'')) (\<lambda>name.
     bindr (py_getitem m (PStr ''counter_type'')) (\<lambda>ty.
     bindr (py_get m ''counter_unit'' (PStr [])) (\<lambda>unit.
       if unique then Inr \<lparr>mm_name = name, mm_type = ty, mm_unit = unit, mm_owner = None\<rparr>
       else
         bindr (dict_item r ''_id'') (\<lambda>i.
         bindr (dict_item r ''project_id'') (\<lambda>p.
         bindr (dict_item r ''source'') (\<lambda>s.
         bindr (dict_item r ''user_id'') (\<lambda>u.
           Inr \<lparr>mm_name = name, mm_type = ty, mm_unit = unit, mm_owner = Some (i, p, s, u)\<rparr>)))))))"

text \<open>
  The generator over the meters of one document: what it yields, and how it ends, with the names
  that were seen and the cnt when it goes on to the next document. With \<open>unique\<close> a name that was
  seen is left out, and a name is seen also when the limit ends the listing at it.
\<close>

datatype listing = Raised pyexc | Returned | Next "pyval list" int

fun list_meters :: "bool \<Rightarrow> int option \<Rightarrow> pymap \<Rightarrow> pyval list \<Rightarrow> pyval list \<Rightarrow> int \<Rightarrow> mongo_meter list \<times> listing" where
  "list_meters unique limit r [] seen cnt = ([], Next seen cnt)"
| "list_meters unique limit r (m # ms) seen cnt =
     (case (if unique then py_getitem m (PStr ''counter_name'') else Inr PNone) of
        Inl e \<Rightarrow> ([], Raised e)
      | Inr name \<Rightarrow>
          (if unique \<and> \<not> hashable name then ([], Raised TypeError)
           else if unique \<and> list_ex (\<lambda>s. py_eq s name) seen then list_meters unique limit r ms seen cnt
           else if (case limit of None \<Rightarrow> False | Some l \<Rightarrow> l \<noteq> 0 \<and> l \<le> cnt) then ([], Returned)
           else
             (case meter_of_document unique r m of
                Inl e \<Rightarrow> ([], Raised e)
              | Inr x \<Rightarrow>
                  (case list_meters unique limit r ms (if unique then name # seen else seen) (cnt + 1) of
                     (xs, end') \<Rightarrow> (x # xs, end')))))"

fun list_documents :: "bool \<Rightarrow> int option \<Rightarrow> pymap list \<Rightarrow> pyval list \<Rightarrow> int \<Rightarrow> mongo_meter list \<times> unit res" where
  "list_documents unique limit [] seen cnt = ([], Inr ())"
| "list_documents unique limit (r # rs) seen cnt =
     (case bindr (dict_item r ''meter'') py_iter of
        Inl e \<Rightarrow> ([], Inl e)
      | Inr ms \<Rightarrow>
          (case list_meters unique limit r ms seen cnt of
             (xs, Raised e) \<Rightarrow> (xs, Inl e)
           | (xs, Returned) \<Rightarrow> (xs, Inr ())
           | (xs, Next seen1 count1) \<Rightarrow>
               (case list_documents unique limit rs seen1 count1 of (ys, e) \<Rightarrow> (xs @ ys, e))))"

definition mongo_get_meters ::
  "(pymap \<Rightarrow> pymap list) \<Rightarrow> pyval \<Rightarrow> pyval \<Rightarrow> pyval \<Rightarrow> pyval \<Rightarrow> pymap \<Rightarrow> int option \<Rightarrow> bool \<Rightarrow> mongo_meter list \<times> unit res" where
  "mongo_get_meters find_resources user project resource source mq limit unique =
     (if limit = Some 0 then ([], Inr ())
      else list_documents unique limit (find_resources (meters_query user project resource source mq)) [] 0)"

subsection \<open>Unique and limited listings\<close>

lemma meter_of_document_name: "meter_of_document unique r m = Inr x \<Longrightarrow> py_getitem m (PStr ''counter_name'') = Inr (mm_name x)"
  by (auto simp: meter_of_document_def bindr_Inr_iff split: if_splits)

text \<open>
  What a listing of a document keeps, when the names of meters are texts: the names it yields are new,
  and it remembers and counts them.
\<close>

definition named :: "pyval list \<Rightarrow> bool" where
  "named ms \<longleftrightarrow> (\<forall>m\<in>set ms. \<exists>n. py_getitem m (PStr ''counter_name'') = Inr (PStr n))"

lemma list_meters_new:
  assumes "named ms" and "list_meters True limit r ms seen cnt = (xs, fin)"
  shows "distinct (map mm_name xs) \<and> set (map mm_name xs) \<inter> set seen = {} \<and>
   (\<forall>seen1 count1. fin = Next seen1 count1 \<longrightarrow> set seen1 = set seen \<union> set (map mm_name xs) \<and> count1 = cnt + int (length xs))"
  using assms
proof (induction ms arbitrary: seen cnt xs fin)
  case (Cons m ms)
  obtain n where n: "py_getitem m (PStr ''counter_name'') = Inr (PStr n)" using Cons.prems(1) by (auto simp: named_def)
  have ms: "named ms" using Cons.prems(1) by (simp add: named_def)
  show ?case
  proof (cases "PStr n \<in> set seen")
    case True
    then have "list_meters True limit r ms seen cnt = (xs, fin)" using Cons.prems(2) n by (auto simp: list_ex_iff)
    then show ?thesis by (rule Cons.IH [OF ms])
  next
    case False
    then have new: "\<not> list_ex (\<lambda>s. py_eq s (PStr n)) seen" by (auto simp: list_ex_iff)
    show ?thesis
    proof (cases "(case limit of None \<Rightarrow> False | Some l \<Rightarrow> l \<noteq> 0 \<and> l \<le> cnt) \<or> (\<exists>e. meter_of_document True r m = Inl e)")
      case True
      then show ?thesis using Cons.prems(2) n new by (auto split: if_splits sum.splits)
    next
      case False
      then obtain x where x: "meter_of_document True r m = Inr x" by (cases "meter_of_document True r m") auto
      have name: "mm_name x = PStr n" using meter_of_document_name [OF x] n by simp
      obtain ys fin' where ys: "list_meters True limit r ms (PStr n # seen) (cnt + 1) = (ys, fin')" by (cases "list_meters True limit r ms (PStr n # seen) (cnt + 1)")
      have "xs = x # ys" "fin = fin'" using Cons.prems(2) n new False x ys by auto
      then show ?thesis using Cons.IH [OF ms ys] name \<open>PStr n \<notin> set seen\<close> by auto
    qed
  qed
qed auto

lemma list_documents_new:
  "\<forall>r\<in>set rs. \<forall>ms. bindr (dict_item r ''meter'') py_iter = Inr ms \<longrightarrow> named ms \<Longrightarrow>
   list_documents True limit rs seen cnt = (xs, e) \<Longrightarrow>
   distinct (map mm_name xs) \<and> set (map mm_name xs) \<inter> set seen = {}"
proof (induction rs arbitrary: seen cnt xs e)
  case (Cons r rs)
  show ?case
  proof (cases "bindr (dict_item r ''meter'') py_iter")
    case (Inl e')
    then show ?thesis using Cons.prems(2) by simp
  next
    case (Inr ms)
    obtain ys fin where ys: "list_meters True limit r ms seen cnt = (ys, fin)" by (cases "list_meters True limit r ms seen cnt")
    have named: "named ms" using Cons.prems(1) Inr by auto
    note new = list_meters_new [OF named ys]
    show ?thesis
    proof (cases fin)
      case (Next seen1 count1)
      obtain zs e' where zs: "list_documents True limit rs seen1 count1 = (zs, e')" by (cases "list_documents True limit rs seen1 count1")
      have "xs = ys @ zs" using Cons.prems(2) Inr ys Next zs by simp
      then show ?thesis using Cons.IH [OF _ zs] Cons.prems(1) new Next by auto
    qed (use Cons.prems(2) Inr ys new in auto)
  qed
qed auto

text \<open>A listing of unique meters has every name once, however many resources have it.\<close>

lemma unique_meters_distinct:
  assumes "\<forall>r\<in>set (find_resources (meters_query user project resource source mq)). \<forall>ms.
      bindr (dict_item r ''meter'') py_iter = Inr ms \<longrightarrow> named ms"
  shows "distinct (map mm_name (fst (mongo_get_meters find_resources user project resource source mq limit True)))"
  using list_documents_new [OF assms, of limit "[]" 0]
  by (cases "list_documents True limit (find_resources (meters_query user project resource source mq)) [] 0")
    (simp add: mongo_get_meters_def)

section \<open>Samples\<close>

definition mongo_samples_args :: "sample_filter \<Rightarrow> int option \<Rightarrow> find_args option res" where
  "mongo_samples_args f limit =
     (if limit = Some 0 then Inr None
      else bindr (mongo_query_from_filter f False) (\<lambda>q.
        Inr (Some \<lparr>fa_query = q, fa_sort = [(''timestamp'', DESCENDING)], fa_limit = limit\<rparr>)))"

definition query_samples_args :: "ftree option \<Rightarrow> pymap list option \<Rightarrow> int option \<Rightarrow> find_args option res" where
  "query_samples_args filter_expr orderby limit =
     (if limit = Some 0 then Inr None
      else
        bindr (case orderby of None \<Rightarrow> Inr [(''timestamp'', DESCENDING)] | Some os \<Rightarrow> transform_orderby os) (\<lambda>order.
        bindr (case filter_expr of
                 None \<Rightarrow> Inr []
               | Some t \<Rightarrow> bindr (transform_filter t) (\<lambda>q. Inr (case q of PDict d \<Rightarrow> d | _ \<Rightarrow> []))) (\<lambda>q.
          Inr (Some \<lparr>fa_query = q, fa_sort = order, fa_limit = limit\<rparr>))))"

text \<open>One document of \<open>_retrieve_samples\<close>; the model takes exactly its fields.\<close>

definition sample_of_document :: "pymap \<Rightarrow> pymap res" where
  "sample_of_document s =
     (if ''_id'' \<notin> set (dict_keys s) then Inl (KeyError ''_id'')
      else
        (let s1 = dict_del ''_id'' s;
             s2 = dict_set ''counter_unit'' (dict_get_default s1 ''counter_unit'' (PStr [])) s1
         in bindr (py_float (dict_get_default s2 ''counter_volume'' PNone)) (\<lambda>vol.
              (let s3 = dict_set ''counter_volume'' (PFloat vol) s2;
                   s4 = dict_set ''recorded_at'' (dict_get_default s3 ''recorded_at'' PNone) s3;
                   md = dict_get_default s4 ''resource_metadata'' PNone;
                   s5 = (if truthy md then dict_set ''resource_metadata'' (unquote_keys md) s4 else s4)
               in if set (dict_keys s5) = set SAMPLE_FIELDS then Inr s5 else Inl TypeError))))"

definition retrieve_samples :: "(find_args \<Rightarrow> pymap list) \<Rightarrow> find_args option res \<Rightarrow> pymap list res" where
  "retrieve_samples find_meter args =
     bindr args (\<lambda>a. case a of None \<Rightarrow> Inr [] | Some fa \<Rightarrow> mapr sample_of_document (find_meter fa))"

section \<open>Resources\<close>

definition GENESIS :: pyval where "GENESIS = PDatetime (- 62135596800000000)"
definition APOCALYPSE :: pyval where "APOCALYPSE = PDatetime 253402300799000000"

record mongo_resource =
  mr_id :: pyval
  mr_owner :: "pyval \<times> pyval"
  mr_source :: pyval
  mr_first :: pyval
  mr_last :: pyval
  mr_metadata :: pyval

definition owner_query :: "pyval \<Rightarrow> pyval \<Rightarrow> pyval \<Rightarrow> pymap" where
  "owner_query user project source = given ''user_id'' user @ given ''project_id'' project @ given ''source'' source"

subsection \<open>Constrained by time\<close>

text \<open>The values that the functions for map-reduce, which run in the database, emit and reduce.\<close>

record mr_value =
  mv_owner :: "pyval \<times> pyval"
  mv_source :: pyval
  mv_first :: int
  mv_last :: int
  mv_metadata :: pyval

definition map_resources :: "pyval \<times> pyval \<Rightarrow> pyval \<Rightarrow> int \<Rightarrow> pyval \<Rightarrow> mr_value" where
  "map_resources owner source t md = \<lparr>mv_owner = owner, mv_source = source, mv_first = t, mv_last = t, mv_metadata = md\<rparr>"

definition merge_value :: "mr_value \<Rightarrow> mr_value \<Rightarrow> mr_value" where
  "merge_value v m =
     (if 0 < mv_first m - mv_first v then m\<lparr>mv_first := mv_first v, mv_owner := mv_owner v, mv_source := mv_source v\<rparr>
      else if mv_last m - mv_last v \<le> 0 then m\<lparr>mv_last := mv_last v, mv_metadata := mv_metadata v\<rparr>
      else m)"

definition reduce_resources :: "mr_value list \<Rightarrow> mr_value" where
  "reduce_resources vs = fold merge_value vs (hd vs)"

definition time_constrained_query ::
  "pymap \<Rightarrow> int option \<Rightarrow> string option \<Rightarrow> int option \<Rightarrow> string option \<Rightarrow> pymap \<Rightarrow> pyval \<Rightarrow> pymap" where
  "time_constrained_query q start start_op fin end_op mq resource =
     (let q1 = (if resource = PNone then q else dict_set ''resource_id'' resource q);
          q2 = dict_update q1 (map (\<lambda>(k, v). (''resource_'' @ k, v)) mq);
          ts_range = make_timestamp_range start fin start_op end_op
      in if ts_range = [] then q2 else dict_set ''timestamp'' (PDict ts_range) q2)"

definition resource_of_value :: "pyval \<times> mr_value \<Rightarrow> mongo_resource" where
  "resource_of_value r =
     (case r of (i, v) \<Rightarrow>
        \<lparr>mr_id = i, mr_owner = mv_owner v, mr_source = mv_source v, mr_first = PDatetime (mv_first v), mr_last = PDatetime (mv_last v),
         mr_metadata = unquote_keys (mv_metadata v)\<rparr>)"

text \<open>\<open>map_reduce\<close> with the query leaves a collection that is read in order and dropped.\<close>

record 'w mr_collection =
  mc_map_reduce :: "pymap \<Rightarrow> ('w, unit) svc"
  mc_find :: "(string \<times> int) list \<Rightarrow> int option \<Rightarrow> ('w, (pyval \<times> mr_value) list) svc"
  mc_drop :: "('w, unit) svc"

definition finally_drop :: "('w, unit) svc \<Rightarrow> ('w, 'a) svc \<Rightarrow> ('w, 'a) svc" where
  "finally_drop fin m = (\<lambda>w. case m w of (w1, r) \<Rightarrow> (case fin w1 of (w2, Inl e) \<Rightarrow> (w2, Inl e) | (w2, Inr u) \<Rightarrow> (w2, r)))"

definition time_constrained_resources ::
  "'w mr_collection \<Rightarrow> pymap \<Rightarrow> int option \<Rightarrow> string option \<Rightarrow> int option \<Rightarrow> string option \<Rightarrow> pymap \<Rightarrow> pyval \<Rightarrow> int option \<Rightarrow>
   ('w, mongo_resource list) svc" where
  "time_constrained_resources mc q start start_op fin end_op mq resource limit =
     bindw (pure (handle_sort_key ''resource'' None)) (\<lambda>keys.
     bindw (mc_map_reduce mc (time_constrained_query q start start_op fin end_op mq resource)) (\<lambda>_.
       finally_drop (mc_drop mc)
         (bindw (mc_find mc (fst (build_sort_instructions keys ''desc'')) limit) (\<lambda>rs. pure (Inr (map resource_of_value rs))))))"

subsection \<open>Without times\<close>

definition floating_args :: "pymap \<Rightarrow> pymap \<Rightarrow> pyval \<Rightarrow> int option \<Rightarrow> find_args res" where
  "floating_args q mq resource limit =
     bindr (handle_sort_key ''resource'' None) (\<lambda>keys.
       Inr \<lparr>fa_query = dict_update (if resource = PNone then q else dict_set ''_id'' resource q) mq,
            fa_sort = fst (build_sort_instructions (map (\<lambda>k. if k = ''timestamp'' then ''last_sample_timestamp'' else k) keys) ''desc''),
            fa_limit = limit\<rparr>)"

definition resource_of_document :: "pymap \<Rightarrow> mongo_resource res" where
  "resource_of_document r =
     bindr (dict_item r ''_id'') (\<lambda>i.
     bindr (dict_item r ''user_id'') (\<lambda>u.
     bindr (dict_item r ''project_id'') (\<lambda>p.
     bindr (dict_item r ''source'') (\<lambda>s.
     bindr (dict_item r ''metadata'') (\<lambda>md.
       Inr \<lparr>mr_id = i, mr_owner = (u, p), mr_source = s, mr_first = dict_get_default r ''first_sample_timestamp'' GENESIS,
            mr_last = dict_get_default r ''last_sample_timestamp'' APOCALYPSE, mr_metadata = unquote_keys md\<rparr>)))))"

definition mongo_get_resources ::
  "'w mr_collection \<Rightarrow> (find_args \<Rightarrow> ('w, pymap list) svc) \<Rightarrow> pyval \<Rightarrow> pyval \<Rightarrow> pyval \<Rightarrow> int option \<Rightarrow> string option \<Rightarrow> int option \<Rightarrow>
   string option \<Rightarrow> pymap \<Rightarrow> pyval \<Rightarrow> int option \<Rightarrow> ('w, mongo_resource list) svc" where
  "mongo_get_resources mc find_resource user project source start start_op fin end_op mq resource limit =
     (if limit = Some 0 then pure (Inr [])
      else
        (let q = owner_query user project source; md = improve_metaquery mq
         in if start \<noteq> None \<or> fin \<noteq> None then time_constrained_resources mc q start start_op fin end_op md resource limit
            else
              bindw (pure (floating_args q md resource limit)) (\<lambda>fa.
              bindw (find_resource fa) (\<lambda>rs. pure (mapr resource_of_document rs)))))"

subsection \<open>Reducing\<close>

definition end_of :: "mr_value \<Rightarrow> int \<times> pyval" where
  "end_of v = (mv_last v, mv_metadata v)"

definition start_of :: "mr_value \<Rightarrow> int \<times> (pyval \<times> pyval) \<times> pyval" where
  "start_of v = (mv_first v, mv_owner v, mv_source v)"

lemma merge_value_ends:
  assumes "mv_first v = mv_last v" and "mv_first m \<le> mv_last m"
  shows "mv_first (merge_value v m) = min (mv_first m) (mv_first v)" "mv_last (merge_value v m) = max (mv_last m) (mv_last v)"
    "end_of (merge_value v m) \<in> {end_of m, end_of v}" "start_of (merge_value v m) \<in> {start_of m, start_of v}"
    "mv_first (merge_value v m) \<le> mv_last (merge_value v m)"
  using assms by (auto simp: merge_value_def end_of_def start_of_def)

lemma merge_invariant:
  assumes "\<forall>v\<in>set vs. mv_first v = mv_last v" and "mv_first m \<le> mv_last m"
  shows "mv_first (fold merge_value vs m) = Min (insert (mv_first m) (mv_first ` set vs)) \<and>
    mv_last (fold merge_value vs m) = Max (insert (mv_last m) (mv_last ` set vs)) \<and>
    end_of (fold merge_value vs m) \<in> end_of ` insert m (set vs) \<and> start_of (fold merge_value vs m) \<in> start_of ` insert m (set vs)"
  using assms
proof (induction vs arbitrary: m)
  case (Cons v vs)
  let ?m = "merge_value v m"
  have v: "mv_first v = mv_last v" using Cons.prems(1) by simp
  note ends = merge_value_ends [OF v Cons.prems(2)]
  have IH: "mv_first (fold merge_value vs ?m) = Min (insert (mv_first ?m) (mv_first ` set vs)) \<and>
    mv_last (fold merge_value vs ?m) = Max (insert (mv_last ?m) (mv_last ` set vs)) \<and>
    end_of (fold merge_value vs ?m) \<in> end_of ` insert ?m (set vs) \<and> start_of (fold merge_value vs ?m) \<in> start_of ` insert ?m (set vs)"
    using Cons.prems(1) by (intro Cons.IH [OF _ ends(5)]) simp
  have "Min (insert (mv_first ?m) (mv_first ` set vs)) = Min (insert (mv_first m) (mv_first ` set (v # vs)))"
    unfolding ends(1) by (cases "vs = []") (simp_all add: min.assoc)
  moreover have "Max (insert (mv_last ?m) (mv_last ` set vs)) = Max (insert (mv_last m) (mv_last ` set (v # vs)))"
    unfolding ends(2) by (cases "vs = []") (simp_all add: max.assoc)
  moreover have "end_of (fold merge_value vs ?m) \<in> end_of ` insert m (set (v # vs))" using IH ends(3) by auto
  moreover have "start_of (fold merge_value vs ?m) \<in> start_of ` insert m (set (v # vs))" using IH ends(4) by auto
  ultimately show ?case using IH by simp
qed auto

text \<open>
  C36: One pass over the samples of a resource gives the resource of the period: its times are the least
  and the greatest, its owner and source are those of a sample with the least time and its metadata
  those of one with the greatest.
\<close>

theorem reduced_once_exact:
  assumes "samples \<noteq> []" and "vs = map (\<lambda>(owner, source, t, md). map_resources owner source t md) samples"
  shows "mv_first (reduce_resources vs) = Min ((\<lambda>(owner, source, t, md). t) ` set samples) \<and>
    mv_last (reduce_resources vs) = Max ((\<lambda>(owner, source, t, md). t) ` set samples) \<and>
    (mv_last (reduce_resources vs), mv_metadata (reduce_resources vs)) \<in> (\<lambda>(owner, source, t, md). (t, md)) ` set samples \<and>
    (mv_first (reduce_resources vs), mv_owner (reduce_resources vs), mv_source (reduce_resources vs)) \<in>
      (\<lambda>(owner, source, t, md). (t, owner, source)) ` set samples"
proof -
  let ?f = "\<lambda>(owner, source, t, md). map_resources owner source t md"
  have "vs \<noteq> []" using assms by simp
  then have vs: "hd vs \<in> set vs" by simp
  have single: "\<forall>v\<in>set vs. mv_first v = mv_last v" using assms(2) by (auto simp: map_resources_def)
  have le: "mv_first (hd vs) \<le> mv_last (hd vs)" using single vs by simp
  have set_vs: "set vs = ?f ` set samples" unfolding assms(2) by (rule set_map)
  have img: "insert (h (hd vs)) (h ` set vs) = (h \<circ> ?f) ` set samples" "h ` insert (hd vs) (set vs) = (h \<circ> ?f) ` set samples"
    for h :: "mr_value \<Rightarrow> 'b"
    using insert_absorb [OF vs] set_vs by (metis image_comp image_insert)+
  have comps: "mv_first \<circ> ?f = (\<lambda>(owner, source, t, md). t)" "mv_last \<circ> ?f = (\<lambda>(owner, source, t, md). t)"
    "end_of \<circ> ?f = (\<lambda>(owner, source, t, md). (t, md))" "start_of \<circ> ?f = (\<lambda>(owner, source, t, md). (t, owner, source))"
    by (auto simp: map_resources_def end_of_def start_of_def)
  show ?thesis
    using merge_invariant [OF single le] unfolding img comps reduce_resources_def end_of_def start_of_def .
qed

theorem reduced_once_exact_witness:
  "mv_first (reduce_resources [map_resources (PStr ''p'', PStr ''u'') PNone 5 (PStr ''x''), map_resources (PStr ''q'', PStr ''u'') PNone 2 (PStr ''y'')]) = 2"
  using reduced_once_exact [of "[((PStr ''p'', PStr ''u''), PNone, 5, PStr ''x''), ((PStr ''q'', PStr ''u''), PNone, 2, PStr ''y'')]"] by simp

text \<open>
  MongoDB may reduce in several passes. A value of an earlier pass that starts before and ends after
  the first one keeps its start only.
\<close>

lemma reduced_again_loses:
  "mv_last (reduce_resources [map_resources (PNone, PNone) PNone 5 PNone,
     reduce_resources [map_resources (PNone, PNone) PNone 1 PNone, map_resources (PNone, PNone) PNone 9 PNone]]) = 5"
  by (simp add: reduce_resources_def map_resources_def merge_value_def)

end
