(* ===== verification/Mongo_Statistics.thy ===== *)
theory Mongo_Statistics
  imports Mongo_Read
begin

text \<open>
  Statistics from MongoDB (\<^verbatim>\<open>get_meter_statistics\<close> of \<^verbatim>\<open>ceilometer/storage/impl_mongodb.py\<close> and the
  aggregations of \<^verbatim>\<open>mongo/utils.py\<close>): an aggregation pipeline is built for the version of the server,
  and its results become the statistics of the storage interface. The pipeline itself runs in the
  database. An aggregate is its function and its parameter.
\<close>

section \<open>Aggregations\<close>

definition StorageBadAggregate :: pyexc where "StorageBadAggregate = OtherError ''StorageBadAggregate''"

type_synonym aggregate = "string \<times> string option"

definition MINIMUM_COMPATIBLE_MONGODB_VERSION :: "int list" where "MINIMUM_COMPATIBLE_MONGODB_VERSION = [2, 4]"
definition COMPLETE_AGGREGATE_COMPATIBLE_VERSION :: "int list" where "COMPLETE_AGGREGATE_COMPATIBLE_VERSION = [2, 6]"

definition finalize_float :: "pyval \<Rightarrow> pyval res" where
  "finalize_float v = bindr (py_float v) (\<lambda>f. Inr (PFloat f))"

definition finalize_int :: "pyval \<Rightarrow> pyval res" where
  "finalize_int v = bindr (py_int v) (\<lambda>i. Inr (PInt i))"

definition finalize_len :: "pyval \<Rightarrow> pyval res" where
  "finalize_len v = bindr (py_len v) (\<lambda>n. Inr (PInt (int n)))"

text \<open>The square root is that of the program's floats, a parameter.\<close>

definition finalize_stddev :: "(flt \<Rightarrow> flt) \<Rightarrow> pyval \<Rightarrow> pyval res" where
  "finalize_stddev sqrt_of v =
     bindr (py_getitem v (PStr ''square_sum'')) (\<lambda>sq.
     bindr (py_getitem v (PStr ''count'')) (\<lambda>n.
     bindr (py_getitem v (PStr ''sum'')) (\<lambda>s.
     bindr (py_mul sq n) (\<lambda>a.
     bindr (py_mul s s) (\<lambda>b.
     bindr (py_sub a b) (\<lambda>d.
     bindr (py_float d) (\<lambda>f.
     py_truediv (PFloat (sqrt_of f)) n)))))))"

definition CARDINALITY_FIELDS :: "string list" where
  "CARDINALITY_FIELDS = [''resource_id'', ''user_id'', ''project_id'', ''source'']"

record agg_fields =
  af_version :: "int list"
  af_group :: "string \<Rightarrow> pymap"
  af_project :: "string \<Rightarrow> pymap"
  af_finalize :: "pyval \<Rightarrow> pyval res"
  af_validate :: "string option \<Rightarrow> bool"

definition plain_fields :: "pymap \<Rightarrow> pymap \<Rightarrow> (pyval \<Rightarrow> pyval res) \<Rightarrow> agg_fields" where
  "plain_fields g p fin =
     \<lparr>af_version = MINIMUM_COMPATIBLE_MONGODB_VERSION, af_group = (\<lambda>x. g), af_project = (\<lambda>x. p), af_finalize = fin, af_validate = (\<lambda>x. True)\<rparr>"

definition op1 :: "string \<Rightarrow> pyval \<Rightarrow> pyval" where "op1 oper v = PDict [(oper, v)]"

definition volume_aggregation :: "string \<Rightarrow> agg_fields" where
  "volume_aggregation name =
     plain_fields [(name, op1 (''$'' @ name) (PStr ''$counter_volume''))] [(name, PStr (''$'' @ name))] finalize_float"

definition COUNT_AGGREGATION :: agg_fields where
  "COUNT_AGGREGATION = plain_fields [(''count'', op1 ''$sum'' (PInt 1))] [(''count'', PStr ''$count'')] finalize_int"

definition STDDEV_AGGREGATION :: "(flt \<Rightarrow> flt) \<Rightarrow> agg_fields" where
  "STDDEV_AGGREGATION sqrt_of =
     plain_fields
       [(''std_square'', op1 ''$sum'' (op1 ''$multiply'' (PList [PStr ''$counter_volume'', PStr ''$counter_volume'']))),
        (''std_count'', op1 ''$sum'' (PInt 1)), (''std_sum'', op1 ''$sum'' (PStr ''$counter_volume''))]
       [(''stddev'', PDict [(''count'', PStr ''$std_count''), (''sum'', PStr ''$std_sum''), (''square_sum'', PStr ''$std_square'')])]
       (finalize_stddev sqrt_of)"

definition cardinality_group :: "string \<Rightarrow> pymap" where
  "cardinality_group field = [(''cardinality/'' @ field, op1 ''$addToSet'' (PStr (''$'' @ field)))]"

definition cardinality_valid :: "string option \<Rightarrow> bool" where
  "cardinality_valid param = (case param of None \<Rightarrow> False | Some p \<Rightarrow> p \<in> set CARDINALITY_FIELDS)"

definition CARDINALITY_AGGREGATION :: "agg_fields list" where
  "CARDINALITY_AGGREGATION =
     [\<lparr>af_version = COMPLETE_AGGREGATE_COMPATIBLE_VERSION, af_group = cardinality_group,
       af_project = (\<lambda>field. [(''cardinality/'' @ field,
         op1 ''$cond'' (PList [op1 ''$eq'' (PList [PStr (''$cardinality/'' @ field), PNone]), PInt 0,
                             op1 ''$size'' (PStr (''$cardinality/'' @ field))]))]),
       af_finalize = finalize_float, af_validate = cardinality_valid\<rparr>,
      \<lparr>af_version = MINIMUM_COMPATIBLE_MONGODB_VERSION, af_group = cardinality_group,
       af_project = (\<lambda>field. [(''cardinality/'' @ field, PStr (''$cardinality/'' @ field))]),
       af_finalize = finalize_len, af_validate = cardinality_valid\<rparr>]"

definition STANDARD_AGGREGATES :: "(string \<times> agg_fields list) list" where
  "STANDARD_AGGREGATES = map (\<lambda>n. (n, [volume_aggregation n])) [''sum'', ''avg'', ''min'', ''max''] @ [(''count'', [COUNT_AGGREGATION])]"

definition AGGREGATES :: "(flt \<Rightarrow> flt) \<Rightarrow> (string \<times> agg_fields list) list" where
  "AGGREGATES sqrt_of = STANDARD_AGGREGATES @ [(''stddev'', [STDDEV_AGGREGATION sqrt_of]), (''cardinality'', CARDINALITY_AGGREGATION)]"

text \<open>Comparison of lists of numbers.\<close>

fun version_le :: "int list \<Rightarrow> int list \<Rightarrow> bool" where
  "version_le [] ys = True"
| "version_le (x # xs) [] = False"
| "version_le (x # xs) (y # ys) = (x < y \<or> x = y \<and> version_le xs ys)"

text \<open>The newest of the fields that the server can do; they are sorted by descending version.\<close>

definition compatible_fields :: "int list \<Rightarrow> agg_fields list \<Rightarrow> agg_fields res" where
  "compatible_fields version fs =
     (let v = (if version = [] then MINIMUM_COMPATIBLE_MONGODB_VERSION else take 2 version)
      in case find (\<lambda>f. version_le (af_version f) v) fs of None \<Rightarrow> Inl (AttributeError ''group'') | Some f \<Rightarrow> Inr f)"

definition finalize_field :: "agg_fields \<Rightarrow> string \<Rightarrow> pymap \<Rightarrow> string option \<Rightarrow> (string \<times> pyval) res" where
  "finalize_field f name d param =
     (let field = name @ (case param of None \<Rightarrow> [] | Some p \<Rightarrow> if p = [] then [] else ''/'' @ p)
      in bindr (af_finalize f (dict_get_default d field PNone)) (\<lambda>v. Inr (field, v)))"

section \<open>The pipeline\<close>

definition make_period_dict :: "int \<Rightarrow> pyval \<Rightarrow> pymap" where
  "make_period_dict period first_ts =
     (if 0 \<le> period then
        [(''period_start'', op1 ''$divide'' (PList
            [op1 ''$subtract'' (PList
               [op1 ''$subtract'' (PList [PStr ''$timestamp'', first_ts]),
                op1 ''$mod'' (PList [op1 ''$subtract'' (PList [PStr ''$timestamp'', first_ts]), PInt (period * 1000)])]),
             PInt (period * 1000)]))]
      else [(''$period_start'', op1 ''$add'' (PList [PInt 0, PInt 0]))])"

definition param_text :: "string option \<Rightarrow> string" where
  "param_text p = (case p of None \<Rightarrow> ''None'' | Some s \<Rightarrow> s)"

fun compile_stages :: "int list \<Rightarrow> (agg_fields list \<times> string option) list \<Rightarrow> pymap \<times> pymap \<Rightarrow> (pymap \<times> pymap) res" where
  "compile_stages version [] gp = Inr gp"
| "compile_stages version ((fs, param) # rest) (g, p) =
     bindr (compatible_fields version fs) (\<lambda>f.
       if \<not> af_validate f param then Inl StorageBadAggregate
       else compile_stages version rest (dict_update g (af_group f (param_text param)), dict_update p (af_project f (param_text param))))"

definition compile_aggregate_stages :: "(flt \<Rightarrow> flt) \<Rightarrow> int list \<Rightarrow> aggregate list \<Rightarrow> pymap \<times> pymap \<Rightarrow> (pymap \<times> pymap) res" where
  "compile_aggregate_stages sqrt_of version aggs gp =
     compile_stages version
       (if aggs = [] then map (\<lambda>(n, fs). (fs, None)) STANDARD_AGGREGATES
        else List.map_filter (\<lambda>(func, param). map_option (\<lambda>fs. (fs, param)) (dict_get (AGGREGATES sqrt_of) func)) aggs) gp"

definition mongo_groupby_fields :: "string list" where
  "mongo_groupby_fields = [''user_id'', ''project_id'', ''resource_id'', ''source'', ''resource_metadata.instance_type'']"

definition group_name :: "string \<Rightarrow> string" where
  "group_name field = replace_char CHR ''.'' CHR ''/'' field"

definition unique_group_field :: "int option \<Rightarrow> pyval \<Rightarrow> string list \<Rightarrow> pymap" where
  "unique_group_field period first_ts groupby =
     (let base = [(''name'', PStr ''$counter_name''), (''unit'', PStr ''$counter_unit'')];
          per = (case period of None \<Rightarrow> [] | Some p \<Rightarrow> if p = 0 then [] else make_period_dict p first_ts)
      in dict_update (dict_update base per) (map (\<lambda>f. (group_name f, PStr (''$'' @ f))) groupby))"

definition aggregation_query ::
  "(flt \<Rightarrow> flt) \<Rightarrow> int list \<Rightarrow> pymap \<Rightarrow> pyval \<Rightarrow> int option \<Rightarrow> string list \<Rightarrow> aggregate list \<Rightarrow> pyval list res" where
  "aggregation_query sqrt_of version q first_ts period groupby aggs =
     (let group0 = [(''first_timestamp'', op1 ''$min'' (PStr ''$timestamp'')), (''last_timestamp'', op1 ''$max'' (PStr ''$timestamp'')),
                    (''_id'', PDict (unique_group_field period first_ts groupby))];
          project0 = [(''unit'', PStr ''$_id.unit''), (''name'', PStr ''$_id.name''), (''first_timestamp'', PStr ''$first_timestamp''),
                      (''last_timestamp'', PStr ''$last_timestamp''), (''period_start'', PStr ''$_id.period_start'')]
      in bindr (compile_aggregate_stages sqrt_of version aggs (group0, project0)) (\<lambda>(g, p).
           Inr [op1 ''$match'' (PDict q), op1 ''$sort'' (PDict [(''timestamp'', PInt 1)]), op1 ''$group'' (PDict g),
                op1 ''$sort'' (PDict [(''_id.period_start'', PInt 1)]), op1 ''$project'' (PDict p)]))"

section \<open>Results\<close>

definition seconds_after :: "pyval \<Rightarrow> rat \<Rightarrow> pyval res" where
  "seconds_after t s = (case t of PDatetime m \<Rightarrow> Inr (PDatetime (m + round (s * 1000000))) | _ \<Rightarrow> Inl TypeError)"

definition seconds_between :: "pyval \<Rightarrow> pyval \<Rightarrow> pyval res" where
  "seconds_between a b =
     (case (a, b) of (PDatetime s, PDatetime t) \<Rightarrow> Inr (PFloat (Fin (of_int (t - s) / 1000000))) | _ \<Rightarrow> Inl TypeError)"

text \<open>Numbers in the place of times are seconds, which \<open>fromtimestamp\<close> reads in local time.\<close>

definition from_unix_timestamp :: "(rat \<Rightarrow> pyval) \<Rightarrow> pyval \<Rightarrow> pyval" where
  "from_unix_timestamp local v =
     (case v of PInt i \<Rightarrow> local (of_int i) | PBool b \<Rightarrow> local (if b then 1 else 0) | PFloat (Fin r) \<Rightarrow> local r | _ \<Rightarrow> v)"

definition stats_result_aggregates :: "(flt \<Rightarrow> flt) \<Rightarrow> int list \<Rightarrow> pymap \<Rightarrow> aggregate list \<Rightarrow> pymap res" where
  "stats_result_aggregates sqrt_of version d aggs =
     bindr (mapr (\<lambda>(n, fs). bindr (compatible_fields version fs) (\<lambda>f. finalize_field f n d None))
              (filter (\<lambda>(n, fs). n \<in> set (dict_keys d)) STANDARD_AGGREGATES)) (\<lambda>std.
       if aggs = [] then Inr std
       else
         bindr (mapr (\<lambda>(func, param). bindr (dict_item (AGGREGATES sqrt_of) func) (\<lambda>fs.
                  bindr (compatible_fields version fs) (\<lambda>f. finalize_field f func d param))) aggs) (\<lambda>kvs.
           Inr (std @ [(''aggregate'', PDict (dict_update [] kvs))])))"

definition period_bounds :: "(rat \<Rightarrow> pyval) \<Rightarrow> pymap \<Rightarrow> int \<Rightarrow> pyval \<Rightarrow> (pyval \<times> pyval) res" where
  "period_bounds local d period first_ts =
     bindr (py_float (dict_get_default d ''period_start'' (PInt 0))) (\<lambda>k.
       (case k of
          Fin r \<Rightarrow>
            (let start = r * of_int period; t0 = from_unix_timestamp local first_ts
             in bindr (seconds_after t0 start) (\<lambda>s.
                bindr (if period \<noteq> 0 then seconds_after t0 (start + of_int period) else dict_item d ''last_timestamp'') (\<lambda>e. Inr (s, e))))
        | _ \<Rightarrow> Inl ValueError))"

definition stats_result_to_model ::
  "(rat \<Rightarrow> pyval) \<Rightarrow> (flt \<Rightarrow> flt) \<Rightarrow> int list \<Rightarrow> pymap \<Rightarrow> string list \<Rightarrow> aggregate list \<Rightarrow> int option \<Rightarrow> pyval \<Rightarrow> pymap res" where
  "stats_result_to_model local sqrt_of version d groupby aggs period first_ts =
     (let p = (case period of None \<Rightarrow> 0 | Some p \<Rightarrow> p)
      in bindr (stats_result_aggregates sqrt_of version d aggs) (\<lambda>args.
         bindr (dict_item d ''unit'') (\<lambda>unit.
         bindr (dict_item d ''first_timestamp'') (\<lambda>f.
         bindr (dict_item d ''last_timestamp'') (\<lambda>l.
         bindr (seconds_between f l) (\<lambda>dur.
         bindr (period_bounds local d p first_ts) (\<lambda>(ps, pe).
         bindr (if groupby = [] then Inr PNone
                else bindr (dict_item d ''_id'') (\<lambda>i. bindr (mapr (\<lambda>g. bindr (py_get i (group_name g) PNone) (\<lambda>v. Inr (g, v))) groupby)
                       (\<lambda>kvs. Inr (PDict (dict_update [] kvs))))) (\<lambda>gb.
           Inr (args @ [(''unit'', unit), (''duration'', dur), (''duration_start'', f), (''duration_end'', l), (''period'', PInt p),
                        (''period_start'', ps), (''period_end'', pe), (''groupby'', gb)])))))))))"

definition mongo_get_meter_statistics ::
  "(rat \<Rightarrow> pyval) \<Rightarrow> (flt \<Rightarrow> flt) \<Rightarrow> int list \<Rightarrow> pyval option \<Rightarrow> (pyval list \<Rightarrow> pymap list res) \<Rightarrow> sample_filter \<Rightarrow> int option \<Rightarrow>
   string list \<Rightarrow> aggregate list \<Rightarrow> pymap list res" where
  "mongo_get_meter_statistics local sqrt_of version earliest run f period groupby aggs =
     (if list_ex (\<lambda>(func, param). func \<notin> set (dict_keys (AGGREGATES sqrt_of))) aggs then Inl StorageBadAggregate
      else if \<not> set groupby \<subseteq> set mongo_groupby_fields then Inl NotImplementedError
      else
        bindr (mongo_query_from_filter f True) (\<lambda>q.
          (let first_ts = (case sf_start f of Some t \<Rightarrow> PDatetime t | None \<Rightarrow> (case earliest of Some t \<Rightarrow> t | None \<Rightarrow> PDatetime 0))
           in bindr (aggregation_query sqrt_of version q first_ts period groupby aggs) (\<lambda>pipeline.
              bindr (run pipeline) (mapr (\<lambda>point. stats_result_to_model local sqrt_of version point groupby aggs period first_ts))))))"

section \<open>The period of a sample\<close>

text \<open>
  How MongoDB documents the operators on numbers and times, for a document with the time \<open>ts\<close>: times are
  whole milliseconds, and the remainder has the sign of the dividend.
\<close>

definition documented_arithmetic :: "(pyval \<Rightarrow> rat) \<Rightarrow> int \<Rightarrow> bool" where
  "documented_arithmetic ev ts \<longleftrightarrow>
     (\<forall>a b. ev (op1 ''$subtract'' (PList [a, b])) = ev a - ev b) \<and>
     (\<forall>a b. ev b \<noteq> 0 \<longrightarrow> ev (op1 ''$divide'' (PList [a, b])) = ev a / ev b) \<and>
     (\<forall>a b. ev b \<noteq> 0 \<longrightarrow> ev (op1 ''$mod'' (PList [a, b])) = ev a - ev b * of_int (trunc_rat (ev a / ev b))) \<and>
     (\<forall>n. ev (PInt n) = of_int n) \<and> (\<forall>t. ev (PDatetime t) = of_int (t div 1000)) \<and>
     ev (PStr ''$timestamp'') = of_int (ts div 1000)"

lemma whole_milliseconds: "1000 dvd (t :: int) \<Longrightarrow> (of_int (t div 1000) :: rat) = of_int t / 1000"
  by (auto elim!: dvdE)

lemma period_expression_is_number:
  assumes "documented_arithmetic ev ts" and "0 < period" and "first_ts \<le> ts" and "1000 dvd first_ts" and "1000 dvd ts"
    and "dict_get (make_period_dict period (PDatetime first_ts)) ''period_start'' = Some e"
  shows "ev e = of_int ((ts - first_ts) div (period * 1000000))"
proof -
  define n where "n = (ts - first_ts) div (period * 1000000)"
  have m: "(of_int ts / 1000 - of_int first_ts / 1000 :: rat) = of_int (ts - first_ts) / 1000" by (simp add: diff_divide_distrib)
  have q: "(of_int (ts - first_ts) / 1000) / of_int (period * 1000) = (of_int (ts - first_ts) / of_int (period * 1000000) :: rat)"
    by simp
  have nonneg: "(0 :: rat) \<le> of_int (ts - first_ts) / of_int (period * 1000000)" using assms(2,3) by simp
  have k: "trunc_rat (of_int (ts - first_ts) / of_int (period * 1000000)) = n"
    using nonneg unfolding trunc_rat_def n_def by (simp only: if_True floor_divide_of_int_eq)
  have e: "e = op1 ''$divide'' (PList
            [op1 ''$subtract'' (PList
               [op1 ''$subtract'' (PList [PStr ''$timestamp'', PDatetime first_ts]),
                op1 ''$mod'' (PList [op1 ''$subtract'' (PList [PStr ''$timestamp'', PDatetime first_ts]), PInt (period * 1000)])]),
             PInt (period * 1000)])"
    using assms(2,6) by (simp add: make_period_dict_def)
  have nz: "ev (PInt (period * 1000)) \<noteq> 0" using assms(1,2) by (simp add: documented_arithmetic_def)
  have ev: "\<And>a b. ev (op1 ''$subtract'' (PList [a, b])) = ev a - ev b"
    "\<And>a. ev (op1 ''$divide'' (PList [a, PInt (period * 1000)])) = ev a / ev (PInt (period * 1000))"
    "\<And>a. ev (op1 ''$mod'' (PList [a, PInt (period * 1000)])) =
       ev a - ev (PInt (period * 1000)) * of_int (trunc_rat (ev a / ev (PInt (period * 1000))))"
    "ev (PDatetime first_ts) = of_int first_ts / 1000" "ev (PStr ''$timestamp'') = of_int ts / 1000"
    using assms(1) nz by (simp_all add: documented_arithmetic_def whole_milliseconds assms(4,5))
  have i: "\<And>n. ev (PInt n) = of_int n" using assms(1) by (simp add: documented_arithmetic_def)
  show ?thesis unfolding e ev i m q k n_def [symmetric] using assms(2) by simp
qed

text \<open>
  C38: The statistics of a period are those of its samples: the expression that MongoDB groups a sample
  by is the number of the period, the period that the result gets for this number contains the time
  of the sample, has the length that was asked for and is a whole number of periods after the first
  time.
\<close>

theorem mongo_period_contains:
  assumes "documented_arithmetic ev ts" and "0 < period" and "first_ts \<le> ts" and "1000 dvd first_ts" and "1000 dvd ts"
    and "dict_get (make_period_dict period (PDatetime first_ts)) ''period_start'' = Some e"
    and "dict_get d ''period_start'' = Some (PFloat (Fin (ev e)))"
  shows "\<exists>ps. period_bounds local d period (PDatetime first_ts) = Inr (PDatetime ps, PDatetime (ps + period * 1000000)) \<and>
    ps \<le> ts \<and> ts < ps + period * 1000000 \<and> period * 1000000 dvd ps - first_ts"
proof -
  define n where "n = (ts - first_ts) div (period * 1000000)"
  have P: "0 < period * 1000000" using assms(2) by simp
  have start: "dict_get_default d ''period_start'' (PInt 0) = PFloat (Fin (of_int n))"
    using assms(7) period_expression_is_number [OF assms(1-6)] by (simp add: dict_get_default_def n_def)
  have r: "round (of_int i * of_int period * 1000000 :: rat) = i * period * 1000000" for i
    by (metis of_int_mult of_int_numeral round_of_int)
  have r1: "round ((of_int n * of_int period + of_int period) * 1000000 :: rat) = n * period * 1000000 + period * 1000000"
    by (metis (no_types) distrib_right of_int_add of_int_mult of_int_numeral round_of_int)
  define ps where "ps = first_ts + n * period * 1000000"
  have "period_bounds local d period (PDatetime first_ts) = Inr (PDatetime ps, PDatetime (ps + period * 1000000))"
    using assms(2) by (simp add: period_bounds_def start seconds_after_def from_unix_timestamp_def r r1 ps_def del: distrib_right_numeral)
  moreover have "(ts - first_ts) = n * (period * 1000000) + (ts - first_ts) mod (period * 1000000)"
    unfolding n_def by (rule div_mult_mod_eq [symmetric])
  then have "ps \<le> ts" "ts < ps + period * 1000000"
    using pos_mod_bound [OF P, of "ts - first_ts"] pos_mod_sign [OF P, of "ts - first_ts"] by (simp_all add: ps_def)
  moreover have "period * 1000000 dvd ps - first_ts" by (simp add: ps_def)
  ultimately show ?thesis by blast
qed

text \<open>An evaluator of the expressions, for a document with the time \<open>ts\<close>.\<close>

fun example_eval :: "int \<Rightarrow> pyval \<Rightarrow> rat" where
  "example_eval ts (PInt n) = of_int n"
| "example_eval ts (PDatetime t) = of_int (t div 1000)"
| "example_eval ts (PStr s) = (if s = ''$timestamp'' then of_int (ts div 1000) else 0)"
| "example_eval ts (PDict [(k, PList [a, b])]) =
     (let x = example_eval ts a; y = example_eval ts b
      in if k = ''$subtract'' then x - y else if k = ''$divide'' then x / y
         else if k = ''$mod'' then x - y * of_int (trunc_rat (x / y)) else 0)"
| "example_eval ts v = 0"

lemma example_eval_documented: "documented_arithmetic (example_eval ts) ts"
  by (simp add: documented_arithmetic_def op1_def Let_def)

text \<open>A sample 130 seconds after the first time is in the third minute.\<close>

theorem mongo_period_contains_witness:
  "\<exists>ps. period_bounds (\<lambda>r. PNone) [(''period_start'', PFloat (Fin 2))] 60 (PDatetime 5000000) =
      Inr (PDatetime ps, PDatetime (ps + 60 * 1000000)) \<and>
    ps \<le> 135000000 \<and> 135000000 < ps + 60 * 1000000 \<and> 60 * 1000000 dvd ps - 5000000"
proof -
  obtain e where e: "dict_get (make_period_dict 60 (PDatetime 5000000)) ''period_start'' = Some e"
    by (simp add: make_period_dict_def)
  have "example_eval 135000000 e = 2"
    using period_expression_is_number [OF example_eval_documented [of 135000000], of 60 5000000 e] e by simp
  then show ?thesis
    using mongo_period_contains [OF example_eval_documented [of 135000000], of 60 5000000 e
        "[(''period_start'', PFloat (Fin 2))]" "\<lambda>r. PNone"] e by simp
qed

end
