(* ===== verification/Mongo_Admin.thy ===== *)
theory Mongo_Admin
  imports Mongo_Statistics
begin

text \<open>
  Connecting to MongoDB and its indexes (\<^verbatim>\<open>ConnectionPool\<close> and \<^verbatim>\<open>MongoProxy\<close> of
  \<^verbatim>\<open>ceilometer/storage/mongo/utils.py\<close>, \<^verbatim>\<open>__init__\<close>, \<^verbatim>\<open>update_ttl\<close>, \<^verbatim>\<open>upgrade\<close> and \<^verbatim>\<open>clear\<close> of
  \<^verbatim>\<open>impl_mongodb.py\<close>). The server is a parameter; samples expire by indexes with a time to live.
\<close>

section \<open>Calls that may not return\<close>

type_synonym ('w, 'a) call = "'w \<Rightarrow> ('w \<times> 'a res) option"

definition once :: "('w, 'a) svc \<Rightarrow> ('w, 'a) call" where
  "once c = (\<lambda>w. Some (c w))"

definition bindo :: "('w, 'a) call \<Rightarrow> ('a \<Rightarrow> ('w, 'b) call) \<Rightarrow> ('w, 'b) call" where
  "bindo m f = (\<lambda>w. case m w of None \<Rightarrow> None | Some (w1, Inl e) \<Rightarrow> Some (w1, Inl e) | Some (w1, Inr x) \<Rightarrow> f x w1)"

fun eacho :: "('a \<Rightarrow> ('w, unit) call) \<Rightarrow> 'a list \<Rightarrow> ('w, unit) call" where
  "eacho f [] = once (pure (Inr ()))"
| "eacho f (x # xs) = bindo (f x) (\<lambda>_. eacho f xs)"

lemma bindo_step: "m w = Some (w1, Inr x) \<Longrightarrow> bindo m f w = f x w1"
  by (simp add: bindo_def)

lemma once_step: "c w = (w1, Inr x) \<Longrightarrow> once c w = Some (w1, Inr x)"
  by (simp add: once_def)

section \<open>Indexes\<close>

record mindex =
  mi_keys :: "(string \<times> int) list"
  mi_expire :: "int option"
  mi_background :: "bool option"

text \<open>
  The calls of the server. Creating an index answers with the code when the operation failed; a lost
  connection is an exception. \<open>ad_retry\<close> and \<open>ad_sleep\<close> are the configured retries and the pause.
\<close>

record 'w admin =
  ad_retry :: int
  ad_sleep :: "'w \<Rightarrow> 'w"
  ad_version :: "('w, int list) svc"
  ad_authenticate :: "string \<Rightarrow> ('w, unit) svc"
  ad_collections :: "('w, string list) svc"
  ad_create_collection :: "string \<Rightarrow> ('w, unit) svc"
  ad_index_names :: "string \<Rightarrow> ('w, string list) svc"
  ad_create_index :: "string \<Rightarrow> string \<Rightarrow> mindex \<Rightarrow> ('w, int option) svc"
  ad_drop_index :: "string \<Rightarrow> string \<Rightarrow> ('w, unit) svc"
  ad_coll_mod :: "string \<Rightarrow> string \<Rightarrow> int \<Rightarrow> ('w, unit) svc"
  ad_drop_database :: "('w, unit) svc"
  ad_close :: "('w, unit) svc"

definition safely :: "'w admin \<Rightarrow> ('w, 'a) svc \<Rightarrow> ('w, 'a) call" where
  "safely ad c = safe_mongo_call (ad_sleep ad) (ad_retry ad) c"

definition DIFFERENT_SPEC :: int where "DIFFERENT_SPEC = 86"

definition OperationFailure :: pyexc where "OperationFailure = OtherError ''OperationFailure''"

definition recreate_index :: "'w admin \<Rightarrow> string \<Rightarrow> string \<Rightarrow> mindex \<Rightarrow> ('w, unit) call" where
  "recreate_index ad coll name ix =
     safely ad (bindw (ad_drop_index ad coll name) (\<lambda>_. bindw (ad_create_index ad coll name ix) (\<lambda>failure.
       pure (if failure = None then Inr () else Inl OperationFailure))))"

text \<open>Failures of the operation with other codes are passed over.\<close>

definition proxy_create_index :: "'w admin \<Rightarrow> string \<Rightarrow> string \<Rightarrow> mindex \<Rightarrow> ('w, unit) call" where
  "proxy_create_index ad coll name ix =
     bindo (once (ad_create_index ad coll name ix)) (\<lambda>failure.
       if failure = Some DIFFERENT_SPEC then recreate_index ad coll name ix else once (pure (Inr ())))"

definition ttl_index :: "string \<Rightarrow> int \<Rightarrow> mindex" where
  "ttl_index field ttl = \<lparr>mi_keys = [(field, ASCENDING)], mi_expire = Some ttl, mi_background = None\<rparr>"

definition update_ttl :: "'w admin \<Rightarrow> int \<Rightarrow> string \<Rightarrow> string \<Rightarrow> string \<Rightarrow> ('w, unit) call" where
  "update_ttl ad ttl name field coll =
     bindo (safely ad (ad_index_names ad coll)) (\<lambda>names.
       if ttl \<le> 0 then (if name \<in> set names then safely ad (ad_drop_index ad coll name) else once (pure (Inr ())))
       else if name \<in> set names then once (ad_coll_mod ad coll field ttl)
       else proxy_create_index ad coll name (ttl_index field ttl))"

definition plain_index :: "(string \<times> int) list \<Rightarrow> bool option \<Rightarrow> mindex" where
  "plain_index keys bg = \<lparr>mi_keys = keys, mi_expire = None, mi_background = bg\<rparr>"

definition meter_index :: "string \<Rightarrow> bool \<Rightarrow> mindex" where
  "meter_index primary bg =
     plain_index (map (\<lambda>k. (k, ASCENDING)) [''resource_id'', primary, ''counter_name'', ''timestamp'']) (Some bg)"

definition established_indexes :: "(string \<times> string \<times> mindex) list" where
  "established_indexes =
     [(''meter'', ''meter_idx'', meter_index ''user_id'' False),
      (''meter'', ''meter_project_idx'', meter_index ''project_id'' True),
      (''meter'', ''timestamp_idx'', plain_index [(''timestamp'', DESCENDING)] None),
      (''resource'', ''resource_user_project_timestamp'',
       plain_index [(''user_id'', DESCENDING), (''project_id'', DESCENDING), (''last_sample_timestamp'', DESCENDING)] None),
      (''resource'', ''last_sample_timestamp_idx'', plain_index [(''last_sample_timestamp'', DESCENDING)] None)]"

definition ensure_collection :: "'w admin \<Rightarrow> string \<Rightarrow> ('w, unit) call" where
  "ensure_collection ad coll =
     bindo (once (ad_collections ad)) (\<lambda>cs. if coll \<in> set cs then once (pure (Inr ())) else once (ad_create_collection ad coll))"

definition upgrade :: "'w admin \<Rightarrow> int \<Rightarrow> ('w, unit) call" where
  "upgrade ad ttl =
     bindo (ensure_collection ad ''resource'') (\<lambda>_. bindo (ensure_collection ad ''meter'') (\<lambda>_.
     bindo (eacho (\<lambda>(coll, name, ix). proxy_create_index ad coll name ix) established_indexes) (\<lambda>_.
     bindo (update_ttl ad ttl ''meter_ttl'' ''timestamp'' ''meter'') (\<lambda>_.
     update_ttl ad ttl ''resource_ttl'' ''last_sample_timestamp'' ''resource''))))"

definition mongo_clear :: "'w admin \<Rightarrow> ('w, unit) call" where
  "mongo_clear ad = bindo (safely ad (ad_drop_database ad)) (\<lambda>_. safely ad (ad_close ad))"

section \<open>Connections\<close>

definition StorageBadVersion :: pyexc where "StorageBadVersion = OtherError ''StorageBadVersion''"

text \<open>
  A pool keeps the clients by what \<open>tuple\<close> makes of the options: the names of the options. A client
  is kept by a weak reference, so it may be gone.
\<close>

definition pool_connect ::
  "(string \<Rightarrow> pymap res) \<Rightarrow> ('w \<Rightarrow> 'c \<Rightarrow> bool) \<Rightarrow> (string \<Rightarrow> ('w, 'c) svc) \<Rightarrow> string \<Rightarrow> (string list \<times> 'c) list \<Rightarrow>
   'w \<Rightarrow> (string list \<times> 'c) list \<times> 'w \<times> 'c res" where
  "pool_connect parse alive mongo_client url pool w =
     (case parse url of
        Inl e \<Rightarrow> (pool, w, Inl e)
      | Inr options \<Rightarrow>
          (case find (\<lambda>k. dict_get options k = None) [''database'', ''username'', ''password'', ''collection''] of
             Some k \<Rightarrow> (pool, w, Inl (KeyError k))
           | None \<Rightarrow>
             (let key = dict_keys (fold dict_del [''database'', ''username'', ''password'', ''collection''] options);
                  connect = (case mongo_client url w of (w1, Inl e) \<Rightarrow> (pool, w1, Inl e) | (w1, Inr c) \<Rightarrow> (dict_set key c pool, w1, Inr c))
              in case dict_get pool key of
                   Some c \<Rightarrow> if alive w c then (pool, w, Inr c) else connect
                 | None \<Rightarrow> connect)))"

definition connection_init :: "'w admin \<Rightarrow> int \<Rightarrow> string option \<Rightarrow> ('w, int list) call" where
  "connection_init ad ttl username =
     bindo (safely ad (ad_version ad)) (\<lambda>version.
       if \<not> version_le MINIMUM_COMPATIBLE_MONGODB_VERSION version then once (pure (Inl StorageBadVersion))
       else
         bindo (case username of Some u \<Rightarrow> if u = [] then once (pure (Inr ())) else safely ad (ad_authenticate ad u) | None \<Rightarrow> once (pure (Inr ()))) (\<lambda>_.
         bindo (upgrade ad ttl) (\<lambda>_. once (pure (Inr version)))))"

section \<open>What the indexes are\<close>

text \<open>What MongoDB documents of the calls, for the indexes of the collections as \<open>idx\<close> gives them.\<close>

definition documented_admin :: "'w admin \<Rightarrow> ('w \<Rightarrow> string \<times> string \<Rightarrow> mindex option) \<Rightarrow> bool" where
  "documented_admin ad idx \<longleftrightarrow>
     (\<forall>w. \<exists>w1 cs. ad_collections ad w = (w1, Inr cs) \<and> idx w1 = idx w) \<and>
     (\<forall>c w. \<exists>w1. ad_create_collection ad c w = (w1, Inr ()) \<and> idx w1 = idx w) \<and>
     (\<forall>c w. \<exists>w1 ns. ad_index_names ad c w = (w1, Inr ns) \<and> idx w1 = idx w \<and> (\<forall>n. n \<in> set ns \<longleftrightarrow> idx w (c, n) \<noteq> None)) \<and>
     (\<forall>c n w. idx w (c, n) \<noteq> None \<longrightarrow> (\<exists>w1. ad_drop_index ad c n w = (w1, Inr ()) \<and> idx w1 = (idx w)((c, n) := None))) \<and>
     (\<forall>c f t n w i. idx w (c, n) = Some i \<and> mi_keys i = [(f, ASCENDING)] \<and> mi_expire i \<noteq> None \<and>
        (\<forall>m j. idx w (c, m) = Some j \<and> mi_keys j = [(f, ASCENDING)] \<longrightarrow> m = n) \<longrightarrow>
        (\<exists>w1. ad_coll_mod ad c f t w = (w1, Inr ()) \<and> idx w1 = (idx w)((c, n) \<mapsto> i\<lparr>mi_expire := Some t\<rparr>))) \<and>
     (\<forall>c n ix w. idx w (c, n) = None \<and> (\<forall>m j. idx w (c, m) = Some j \<longrightarrow> mi_keys j \<noteq> mi_keys ix) \<longrightarrow>
        (\<exists>w1. ad_create_index ad c n ix w = (w1, Inr None) \<and> idx w1 = (idx w)((c, n) \<mapsto> ix))) \<and>
     (\<forall>c n ix w j. idx w (c, n) = Some j \<longrightarrow>
        (\<exists>w1 r. ad_create_index ad c n ix w = (w1, Inr r) \<and> (r = Some DIFFERENT_SPEC \<longleftrightarrow> mi_keys j \<noteq> mi_keys ix) \<and> idx w1 = idx w))"

definition ttl_indexes :: "(string \<times> string \<times> string) list" where
  "ttl_indexes = [(''meter'', ''meter_ttl'', ''timestamp''), (''resource'', ''resource_ttl'', ''last_sample_timestamp'')]"

definition wanted_keys :: "(string \<times> string \<times> (string \<times> int) list) list" where
  "wanted_keys =
     map (\<lambda>(c, n, ix). (c, n, mi_keys ix)) established_indexes @ map (\<lambda>(c, n, f). (c, n, [(f, ASCENDING)])) ttl_indexes"

text \<open>
  Nobody else made an index over the keys of an index of the program, and what has the name of an
  index with a time to live is one.
\<close>

definition tidy :: "(string \<times> string \<Rightarrow> mindex option) \<Rightarrow> bool" where
  "tidy ix \<longleftrightarrow>
     (\<forall>(c, n, ks)\<in>set wanted_keys. \<forall>m j. ix (c, m) = Some j \<and> mi_keys j = ks \<longrightarrow> m = n) \<and>
     (\<forall>(c, n, f)\<in>set ttl_indexes. \<forall>j. ix (c, n) = Some j \<longrightarrow> mi_keys j = [(f, ASCENDING)] \<and> mi_expire j \<noteq> None)"

lemma coll_mod_documented:
  assumes "documented_admin ad idx" and "idx w (c, n) = Some i" and "mi_keys i = [(f, ASCENDING)]" and "mi_expire i \<noteq> None"
    and "\<And>m j. idx w (c, m) = Some j \<Longrightarrow> mi_keys j = [(f, ASCENDING)] \<Longrightarrow> m = n"
  shows "\<exists>w1. ad_coll_mod ad c f t w = (w1, Inr ()) \<and> idx w1 = (idx w)((c, n) \<mapsto> i\<lparr>mi_expire := Some t\<rparr>)"
proof -
  have "\<forall>c f t n w i. idx w (c, n) = Some i \<and> mi_keys i = [(f, ASCENDING)] \<and> mi_expire i \<noteq> None \<and>
        (\<forall>m j. idx w (c, m) = Some j \<and> mi_keys j = [(f, ASCENDING)] \<longrightarrow> m = n) \<longrightarrow>
        (\<exists>w1. ad_coll_mod ad c f t w = (w1, Inr ()) \<and> idx w1 = (idx w)((c, n) \<mapsto> i\<lparr>mi_expire := Some t\<rparr>))"
    using assms(1) unfolding documented_admin_def by (elim conjE)
  then show ?thesis using assms(2-5) by blast
qed

lemma safely_step: "c w = (w1, Inr x) \<Longrightarrow> safely ad c w = Some (w1, Inr x)"
  unfolding safely_def safe_mongo_call_def by (subst repeat_call.simps) simp

lemma create_index_establishes:
  assumes doc: "documented_admin ad idx" and free: "\<And>m j. idx w (c, m) = Some j \<Longrightarrow> mi_keys j = mi_keys ix \<Longrightarrow> m = n"
  shows "\<exists>w1 j. proxy_create_index ad c n ix w = Some (w1, Inr ()) \<and> idx w1 = (idx w)((c, n) \<mapsto> j) \<and> mi_keys j = mi_keys ix \<and>
    (idx w (c, n) = None \<longrightarrow> j = ix)"
proof (cases "idx w (c, n)")
  case None
  then have "\<forall>m j. idx w (c, m) = Some j \<longrightarrow> mi_keys j \<noteq> mi_keys ix" using free by fastforce
  then obtain w1 where "ad_create_index ad c n ix w = (w1, Inr None)" "idx w1 = (idx w)((c, n) \<mapsto> ix)"
    using doc None unfolding documented_admin_def by meson
  then show ?thesis by (auto simp: proxy_create_index_def bindo_def once_def pure_def)
next
  case (Some j)
  then obtain w1 r where r: "ad_create_index ad c n ix w = (w1, Inr r)" "r = Some DIFFERENT_SPEC \<longleftrightarrow> mi_keys j \<noteq> mi_keys ix" "idx w1 = idx w"
    using doc unfolding documented_admin_def by meson
  show ?thesis
  proof (cases "mi_keys j = mi_keys ix")
    case True
    have "idx w1 = (idx w)((c, n) \<mapsto> j)" using r(3) Some by (simp add: fun_upd_idem)
    then show ?thesis using r True Some by (auto simp: proxy_create_index_def bindo_def once_def pure_def)
  next
    case False
    obtain w2 where w2: "ad_drop_index ad c n w1 = (w2, Inr ())" "idx w2 = (idx w)((c, n) := None)"
      using doc Some r(3) unfolding documented_admin_def by (metis option.distinct(1))
    have "idx w2 (c, n) = None" by (simp add: w2(2))
    moreover have "\<forall>m j. idx w2 (c, m) = Some j \<longrightarrow> mi_keys j \<noteq> mi_keys ix" using free by (auto simp: w2(2) split: if_splits)
    ultimately obtain w3 where w3: "ad_create_index ad c n ix w2 = (w3, Inr None)" "idx w3 = (idx w2)((c, n) \<mapsto> ix)"
      using doc unfolding documented_admin_def by meson
    have "recreate_index ad c n ix w1 = Some (w3, Inr ())"
      unfolding recreate_index_def by (rule safely_step) (simp add: bindw_step [of "ad_drop_index ad c n", OF w2(1)] bindw_step [of "ad_create_index ad c n ix", OF w3(1)] pure_def)
    then have "proxy_create_index ad c n ix w = Some (w3, Inr ())"
      using r False by (simp add: proxy_create_index_def bindo_def once_def)
    moreover have "idx w3 = (idx w)((c, n) \<mapsto> ix)" by (simp add: w3(2) w2(2))
    ultimately show ?thesis using Some by auto
  qed
qed

lemma ttl_index_exact:
  assumes doc: "documented_admin ad idx"
    and free: "\<And>m j. idx w (c, m) = Some j \<Longrightarrow> mi_keys j = [(f, ASCENDING)] \<Longrightarrow> m = n"
    and ttl: "\<And>j. idx w (c, n) = Some j \<Longrightarrow> mi_keys j = [(f, ASCENDING)] \<and> mi_expire j \<noteq> None"
  shows "\<exists>w1 x. update_ttl ad t n f c w = Some (w1, Inr ()) \<and> idx w1 = (idx w)((c, n) := x) \<and>
    (if t \<le> 0 then x = None else \<exists>j. x = Some j \<and> mi_keys j = [(f, ASCENDING)] \<and> mi_expire j = Some t)"
proof -
  obtain w0 ns where w0: "ad_index_names ad c w = (w0, Inr ns)" "idx w0 = idx w" "n \<in> set ns \<longleftrightarrow> idx w (c, n) \<noteq> None"
    using doc unfolding documented_admin_def by meson
  have u: "update_ttl ad t n f c w =
       (if t \<le> 0 then (if n \<in> set ns then safely ad (ad_drop_index ad c n) else once (pure (Inr ())))
        else if n \<in> set ns then once (ad_coll_mod ad c f t) else proxy_create_index ad c n (ttl_index f t)) w0"
    unfolding update_ttl_def by (subst bindo_step [of "safely ad (ad_index_names ad c)", OF safely_step [of "ad_index_names ad c", OF w0(1)]]) (rule refl)
  consider (drop) "t \<le> 0" "n \<in> set ns" | (absent) "t \<le> 0" "n \<notin> set ns" | (change) "0 < t" "n \<in> set ns" | (create) "0 < t" "n \<notin> set ns"
    by linarith
  then show ?thesis
  proof cases
    case drop
    then obtain w1 where "ad_drop_index ad c n w0 = (w1, Inr ())" "idx w1 = (idx w)((c, n) := None)"
      using doc w0(2,3) unfolding documented_admin_def by metis
    then show ?thesis using drop u safely_step [of "ad_drop_index ad c n" w0 w1 "()" ad] by auto
  next
    case absent
    then have "update_ttl ad t n f c w = Some (w0, Inr ())" using u by (simp add: once_def pure_def)
    moreover have "idx w (c, n) = None" using absent(2) w0(3) by blast
    then have "idx w0 = (idx w)((c, n) := None)" using w0(2) by (simp add: fun_upd_idem)
    ultimately show ?thesis using absent by auto
  next
    case change
    then obtain i where i: "idx w (c, n) = Some i" using w0(3) by auto
    have i0: "idx w0 (c, n) = Some i" and free0: "\<And>m j. idx w0 (c, m) = Some j \<Longrightarrow> mi_keys j = [(f, ASCENDING)] \<Longrightarrow> m = n"
      using i free w0(2) by simp_all
    obtain w1 where "ad_coll_mod ad c f t w0 = (w1, Inr ())" "idx w1 = (idx w0)((c, n) \<mapsto> i\<lparr>mi_expire := Some t\<rparr>)"
      using coll_mod_documented [OF doc i0 conjunct1 [OF ttl [OF i]] conjunct2 [OF ttl [OF i]], of t] free0 by blast
    then show ?thesis using change u ttl [OF i] w0(2) by (auto simp: once_def)
  next
    case create
    then have none: "idx w (c, n) = None" using w0(3) by simp
    have free0: "\<And>m j. idx w0 (c, m) = Some j \<Longrightarrow> mi_keys j = mi_keys (ttl_index f t) \<Longrightarrow> m = n"
      using free w0(2) by (simp add: ttl_index_def)
    have "\<exists>w1 j. proxy_create_index ad c n (ttl_index f t) w0 = Some (w1, Inr ()) \<and> idx w1 = (idx w0)((c, n) \<mapsto> j) \<and>
        mi_keys j = mi_keys (ttl_index f t) \<and> (idx w0 (c, n) = None \<longrightarrow> j = ttl_index f t)"
      by (rule create_index_establishes [OF doc]) (rule free0)
    then obtain w1 j where "proxy_create_index ad c n (ttl_index f t) w0 = Some (w1, Inr ())" "idx w1 = (idx w0)((c, n) \<mapsto> j)"
      "idx w0 (c, n) = None \<longrightarrow> j = ttl_index f t" by (elim exE conjE) (rule that)
    then show ?thesis using create u none w0(2) by (auto simp: ttl_index_def)
  qed
qed

definition has_keys :: "(string \<times> string \<Rightarrow> mindex option) \<Rightarrow> string \<Rightarrow> string \<Rightarrow> (string \<times> int) list \<Rightarrow> bool" where
  "has_keys ix c n ks \<longleftrightarrow> (\<exists>j. ix (c, n) = Some j \<and> mi_keys j = ks)"

text \<open>The lists of wanted indexes are small enough to compare all their members.\<close>

lemma wanted_keys_distinct:
  "(c, n, ks) \<in> set wanted_keys \<Longrightarrow> (c, n', ks) \<in> set wanted_keys \<Longrightarrow> n = n'"
  by (auto simp: wanted_keys_def established_indexes_def ttl_indexes_def meter_index_def plain_index_def ASCENDING_def DESCENDING_def)

lemma established_wanted: "(c, n, k) \<in> set established_indexes \<Longrightarrow> (c, n, mi_keys k) \<in> set wanted_keys"
  by (force simp: wanted_keys_def)

lemma ttl_wanted: "(c, n, f) \<in> set ttl_indexes \<Longrightarrow> (c, n, [(f, ASCENDING)]) \<in> set wanted_keys"
  by (force simp: wanted_keys_def)

lemma established_not_ttl: "(c, n, k) \<in> set established_indexes \<Longrightarrow> (c, n, f) \<notin> set ttl_indexes"
  by (auto simp: established_indexes_def ttl_indexes_def)

lemma ttl_field_unique: "(c, n, f) \<in> set ttl_indexes \<Longrightarrow> (c, n, g) \<in> set ttl_indexes \<Longrightarrow> f = g"
  by (auto simp: ttl_indexes_def)

lemma tidyD:
  assumes "tidy ix" and "(c, n, ks) \<in> set wanted_keys" and "ix (c, m) = Some j" and "mi_keys j = ks"
  shows "m = n"
  using assms unfolding tidy_def by blast

lemma tidy_ttlD: "tidy ix \<Longrightarrow> (c, n, f) \<in> set ttl_indexes \<Longrightarrow> ix (c, n) = Some j \<Longrightarrow> mi_keys j = [(f, ASCENDING)] \<and> mi_expire j \<noteq> None"
  unfolding tidy_def by blast

lemma tidy_update:
  assumes t: "tidy ix" and w: "(c, n, ks) \<in> set wanted_keys" and x: "\<And>j. x = Some j \<Longrightarrow> mi_keys j = ks"
    and e: "\<And>f j. (c, n, f) \<in> set ttl_indexes \<Longrightarrow> x = Some j \<Longrightarrow> mi_keys j = [(f, ASCENDING)] \<and> mi_expire j \<noteq> None"
  shows "tidy (ix((c, n) := x))"
  unfolding tidy_def
proof (intro conjI ballI; clarify)
  fix c' n' ks' m j assume *: "(c', n', mi_keys j) \<in> set wanted_keys" "(ix((c, n) := x)) (c', m) = Some j"
  then show "m = n'"
    using tidyD [OF t *(1)] x w wanted_keys_distinct by (cases "(c', m) = (c, n)") auto
next
  fix c' n' f j assume *: "(c', n', f) \<in> set ttl_indexes" "(ix((c, n) := x)) (c', n') = Some j"
  then show "mi_keys j = [(f, ASCENDING)] \<and> mi_expire j \<noteq> None"
    using tidy_ttlD [OF t *(1)] e by (cases "(c', n') = (c, n)") auto
qed

lemma ttl_index_tidy:
  assumes doc: "documented_admin ad idx" and t: "tidy (idx w)" and m: "(c, n, f) \<in> set ttl_indexes"
  shows "\<exists>w1 x. update_ttl ad ttl n f c w = Some (w1, Inr ()) \<and> tidy (idx w1) \<and> idx w1 = (idx w)((c, n) := x) \<and>
    (if ttl \<le> 0 then x = None else \<exists>j. x = Some j \<and> mi_keys j = [(f, ASCENDING)] \<and> mi_expire j = Some ttl)"
proof -
  obtain w1 x where w1: "update_ttl ad ttl n f c w = Some (w1, Inr ())" "idx w1 = (idx w)((c, n) := x)"
    "if ttl \<le> 0 then x = None else \<exists>j. x = Some j \<and> mi_keys j = [(f, ASCENDING)] \<and> mi_expire j = Some ttl"
    using ttl_index_exact [OF doc, of w c f n ttl] tidyD [OF t ttl_wanted [OF m]] tidy_ttlD [OF t m] by blast
  moreover have "tidy (idx w1)"
    unfolding w1(2) using w1(3) ttl_field_unique [OF m]
    by (intro tidy_update [OF t ttl_wanted [OF m]]) (auto split: if_splits)
  ultimately show ?thesis by blast
qed

lemma established_all:
  assumes doc: "documented_admin ad idx" and "set L \<subseteq> set established_indexes" and "tidy (idx w)"
  shows "\<exists>w1. eacho (\<lambda>(coll, name, ix). proxy_create_index ad coll name ix) L w = Some (w1, Inr ()) \<and> tidy (idx w1) \<and>
    (\<forall>(c, n, k)\<in>set L. has_keys (idx w1) c n (mi_keys k)) \<and>
    (\<forall>c n. (\<forall>k. (c, n, k) \<notin> set L) \<longrightarrow> idx w1 (c, n) = idx w (c, n))"
  using assms(2,3)
proof (induction L arbitrary: w)
  case Nil
  then show ?case by (simp add: once_def pure_def)
next
  case (Cons a L)
  obtain c n k where a: "a = (c, n, k)" by (cases a)
  have wanted: "(c, n, mi_keys k) \<in> set wanted_keys" using Cons.prems(1) established_wanted by (simp add: a)
  obtain w1 j where w1: "proxy_create_index ad c n k w = Some (w1, Inr ())" "idx w1 = (idx w)((c, n) \<mapsto> j)" "mi_keys j = mi_keys k"
    using create_index_establishes [OF doc, of w c k n] tidyD [OF Cons.prems(2) wanted] by blast
  have "tidy (idx w1)"
    unfolding w1(2) using established_not_ttl Cons.prems(1) w1(3) by (intro tidy_update [OF Cons.prems(2) wanted]) (auto simp: a)
  then obtain w2 where w2: "eacho (\<lambda>(coll, name, ix). proxy_create_index ad coll name ix) L w1 = Some (w2, Inr ())" "tidy (idx w2)"
    "\<forall>(c, n, k)\<in>set L. has_keys (idx w2) c n (mi_keys k)"
    "\<forall>c n. (\<forall>k. (c, n, k) \<notin> set L) \<longrightarrow> idx w2 (c, n) = idx w1 (c, n)"
    using Cons.IH [of w1] Cons.prems(1) by auto
  have "has_keys (idx w2) c n (mi_keys k)"
  proof (cases "\<exists>k'. (c, n, k') \<in> set L")
    case True
    then obtain k' where "(c, n, k') \<in> set L" by blast
    moreover have "k' = k" using \<open>(c, n, k') \<in> set L\<close> Cons.prems(1) by (auto simp: a established_indexes_def)
    ultimately show ?thesis using w2(3) by auto
  next
    case False
    then show ?thesis using w2(4) w1(2,3) by (simp add: has_keys_def)
  qed
  moreover have "eacho (\<lambda>(coll, name, ix). proxy_create_index ad coll name ix) (a # L) w = Some (w2, Inr ())"
    using w2(1) by (simp add: a bindo_step [of "proxy_create_index ad c n k", OF w1(1)])
  moreover have "idx w2 (c', n') = idx w (c', n')" if "\<forall>k. (c', n', k) \<notin> set (a # L)" for c' n'
    using that w2(4) w1(2) by (auto simp: a)
  ultimately show ?case using w2(2,3) by (intro exI [of _ w2]) (auto simp: a)
qed

lemma ensure_collection_keeps:
  assumes "documented_admin ad idx"
  shows "\<exists>w1. ensure_collection ad c w = Some (w1, Inr ()) \<and> idx w1 = idx w"
proof -
  obtain w1 cs where w1: "ad_collections ad w = (w1, Inr cs)" "idx w1 = idx w" using assms unfolding documented_admin_def by meson
  obtain w2 where "ad_create_collection ad c w1 = (w2, Inr ())" "idx w2 = idx w1" using assms unfolding documented_admin_def by meson
  with w1 show ?thesis by (cases "c \<in> set cs") (auto simp: ensure_collection_def bindo_def once_def pure_def)
qed

text \<open>
  C37: Whatever indexes the program made before, an upgrade ends with all of them: every index has the
  keys that its queries need, samples and resources expire after the configured time, or never when
  it is not positive, and the indexes of others are as they were.
\<close>

theorem upgrade_establishes_indexes:
  assumes "documented_admin ad idx" and "tidy (idx w)"
  shows "\<exists>w1. upgrade ad ttl w = Some (w1, Inr ()) \<and>
    (\<forall>(c, n, k)\<in>set established_indexes. has_keys (idx w1) c n (mi_keys k)) \<and>
    (\<forall>(c, n, f)\<in>set ttl_indexes.
       if ttl \<le> 0 then idx w1 (c, n) = None else \<exists>j. idx w1 (c, n) = Some j \<and> mi_keys j = [(f, ASCENDING)] \<and> mi_expire j = Some ttl) \<and>
    (\<forall>c n. (\<forall>ks. (c, n, ks) \<notin> set wanted_keys) \<longrightarrow> idx w1 (c, n) = idx w (c, n))"
proof -
  obtain w1 where w1: "ensure_collection ad ''resource'' w = Some (w1, Inr ())" "idx w1 = idx w"
    using ensure_collection_keeps [OF assms(1)] by blast
  obtain w2 where w2: "ensure_collection ad ''meter'' w1 = Some (w2, Inr ())" "idx w2 = idx w"
    using ensure_collection_keeps [OF assms(1), of "''meter''" w1] w1(2) by auto
  obtain w3 where w3: "eacho (\<lambda>(coll, name, ix). proxy_create_index ad coll name ix) established_indexes w2 = Some (w3, Inr ())" "tidy (idx w3)"
    "\<forall>(c, n, k)\<in>set established_indexes. has_keys (idx w3) c n (mi_keys k)"
    "\<forall>c n. (\<forall>k. (c, n, k) \<notin> set established_indexes) \<longrightarrow> idx w3 (c, n) = idx w (c, n)"
    using established_all [OF assms(1), of established_indexes w2] assms(2) w2(2) by auto
  have m: "(''meter'', ''meter_ttl'', ''timestamp'') \<in> set ttl_indexes"
    "(''resource'', ''resource_ttl'', ''last_sample_timestamp'') \<in> set ttl_indexes" by (simp_all add: ttl_indexes_def)
  obtain w4 x where w4: "update_ttl ad ttl ''meter_ttl'' ''timestamp'' ''meter'' w3 = Some (w4, Inr ())" "tidy (idx w4)"
    "idx w4 = (idx w3)((''meter'', ''meter_ttl'') := x)"
    "if ttl \<le> 0 then x = None else \<exists>j. x = Some j \<and> mi_keys j = [(''timestamp'', ASCENDING)] \<and> mi_expire j = Some ttl"
    using ttl_index_tidy [OF assms(1) w3(2) m(1), where ttl = ttl] by blast
  obtain w5 y where w5: "update_ttl ad ttl ''resource_ttl'' ''last_sample_timestamp'' ''resource'' w4 = Some (w5, Inr ())"
    "idx w5 = (idx w4)((''resource'', ''resource_ttl'') := y)"
    "if ttl \<le> 0 then y = None else \<exists>j. y = Some j \<and> mi_keys j = [(''last_sample_timestamp'', ASCENDING)] \<and> mi_expire j = Some ttl"
    using ttl_index_tidy [OF assms(1) w4(2) m(2), where ttl = ttl] by blast
  have "upgrade ad ttl w = Some (w5, Inr ())"
    unfolding upgrade_def using w1(1) w2(1) w3(1) w4(1) w5(1) by (simp add: bindo_def)
  moreover have "has_keys (idx w5) c n (mi_keys k)" if "(c, n, k) \<in> set established_indexes" for c n k
    using that w3(3) established_not_ttl [OF that] m by (auto simp: w5(2) w4(3) has_keys_def)
  moreover have "idx w5 (c, n) = idx w (c, n)" if "\<forall>ks. (c, n, ks) \<notin> set wanted_keys" for c n
  proof -
    have "\<forall>k. (c, n, k) \<notin> set established_indexes" using that established_wanted by blast
    then have "idx w3 (c, n) = idx w (c, n)" using w3(4) by blast
    moreover have "(c, n) \<noteq> (''meter'', ''meter_ttl'')" "(c, n) \<noteq> (''resource'', ''resource_ttl'')"
      using that ttl_wanted [OF m(1)] ttl_wanted [OF m(2)] by auto
    ultimately show ?thesis by (simp only: w5(2) w4(3) fun_upd_apply if_False)
  qed
  ultimately show ?thesis using w4(3,4) w5(2,3) by (intro exI [of _ w5]) (auto simp: ttl_indexes_def)
qed

text \<open>The indexes as a list, for the witness.\<close>

type_synonym index_list = "((string \<times> string) \<times> mindex) list"

definition demo_admin :: "index_list admin" where
  "demo_admin =
     \<lparr>ad_retry = 10, ad_sleep = (\<lambda>w. w), ad_version = (\<lambda>w. (w, Inr [3, 2, 1])), ad_authenticate = (\<lambda>u w. (w, Inr ())),
      ad_collections = (\<lambda>w. (w, Inr [])), ad_create_collection = (\<lambda>c w. (w, Inr ())),
      ad_index_names = (\<lambda>c w. (w, Inr (map (snd \<circ> fst) (filter (\<lambda>x. fst (fst x) = c) w)))),
      ad_create_index = (\<lambda>c n ix w.
        (case map_of w (c, n) of
           Some j \<Rightarrow> (w, Inr (if mi_keys j \<noteq> mi_keys ix then Some DIFFERENT_SPEC else None))
         | None \<Rightarrow> (((c, n), ix) # w, Inr None))),
      ad_drop_index = (\<lambda>c n w. (filter (\<lambda>x. fst x \<noteq> (c, n)) w, Inr ())),
      ad_coll_mod = (\<lambda>c f t w.
        (map (\<lambda>(k, i). (k, if fst k = c \<and> mi_keys i = [(f, ASCENDING)] then i\<lparr>mi_expire := Some t\<rparr> else i)) w, Inr ())),
      ad_drop_database = (\<lambda>w. ([], Inr ())), ad_close = (\<lambda>w. (w, Inr ()))\<rparr>"

lemma map_of_without: "map_of (filter (\<lambda>x. fst x \<noteq> k) w) = (map_of w)(k := None)"
  by (induction w) auto

lemma map_of_map_if: "map_of (map (\<lambda>(k, i). (k, if P k i then f i else i)) w) k = map_option (\<lambda>i. if P k i then f i else i) (map_of w k)"
  by (induction w) auto

lemma demo_coll_mod:
  assumes "map_of w (c, n) = Some i" and "mi_keys i = [(f, ASCENDING)]"
    and "\<forall>m j. map_of w (c, m) = Some j \<and> mi_keys j = [(f, ASCENDING)] \<longrightarrow> m = n"
  shows "map_of (snd (t, fst (ad_coll_mod demo_admin c f t w))) = (map_of w)((c, n) \<mapsto> i\<lparr>mi_expire := Some t\<rparr>)"
proof
  fix k
  have e: "map_of (snd (t, fst (ad_coll_mod demo_admin c f t w))) k =
      map_option (\<lambda>i. if fst k = c \<and> mi_keys i = [(f, ASCENDING)] then i\<lparr>mi_expire := Some t\<rparr> else i) (map_of w k)"
    by (simp add: demo_admin_def map_of_map_if)
  show "map_of (snd (t, fst (ad_coll_mod demo_admin c f t w))) k = ((map_of w)((c, n) \<mapsto> i\<lparr>mi_expire := Some t\<rparr>)) k"
  proof (cases "k = (c, n)")
    case True
    then show ?thesis unfolding e using assms(1,2) by simp
  next
    case False
    have "\<not> (fst k = c \<and> mi_keys j = [(f, ASCENDING)])" if "map_of w k = Some j" for j
      using assms(3) that False by (metis prod.collapse)
    then show ?thesis unfolding e using False by (cases "map_of w k") auto
  qed
qed

lemma demo_admin_documented: "documented_admin demo_admin map_of"
  unfolding documented_admin_def
proof (intro conjI allI impI)
  fix c f n :: string and t :: int and w :: index_list and i
  assume *: "map_of w (c, n) = Some i \<and> mi_keys i = [(f, ASCENDING)] \<and> mi_expire i \<noteq> None \<and>
    (\<forall>m j. map_of w (c, m) = Some j \<and> mi_keys j = [(f, ASCENDING)] \<longrightarrow> m = n)"
  have "ad_coll_mod demo_admin c f t w = (fst (ad_coll_mod demo_admin c f t w), Inr ())" by (simp add: demo_admin_def)
  then show "\<exists>w1. ad_coll_mod demo_admin c f t w = (w1, Inr ()) \<and> map_of w1 = (map_of w)((c, n) \<mapsto> i\<lparr>mi_expire := Some t\<rparr>)"
    using demo_coll_mod [of w c n i f t] * by (metis snd_conv)
next
  fix c :: string and w :: index_list
  have "n \<in> snd ` fst ` {x \<in> set w. fst (fst x) = c} \<longleftrightarrow> map_of w (c, n) \<noteq> None" for n
    by (auto simp: map_of_eq_None_iff image_iff) (metis fst_conv snd_conv)
  then show "\<exists>w1 ns. ad_index_names demo_admin c w = (w1, Inr ns) \<and> map_of w1 = map_of w \<and> (\<forall>n. n \<in> set ns \<longleftrightarrow> map_of w (c, n) \<noteq> None)"
    by (simp add: demo_admin_def image_comp)
qed (auto simp: demo_admin_def map_of_without)

definition demo_indexes :: index_list where
  "demo_indexes =
     [((''meter'', ''meter_ttl''), ttl_index ''timestamp'' 60), ((''meter'', ''timestamp_idx''), plain_index [(''recorded_at'', DESCENDING)] None),
      ((''meter'', ''mine''), plain_index [(''recorded_at'', ASCENDING)] None)]"

lemma demo_indexes_tidy: "tidy (map_of demo_indexes)"
  unfolding tidy_def
  by (auto simp: demo_indexes_def wanted_keys_def established_indexes_def ttl_indexes_def meter_index_def plain_index_def ttl_index_def
      ASCENDING_def DESCENDING_def split: if_splits)

theorem upgrade_establishes_indexes_witness:
  "\<exists>w1. upgrade demo_admin 3600 demo_indexes = Some (w1, Inr ()) \<and>
    has_keys (map_of w1) ''meter'' ''timestamp_idx'' [(''timestamp'', DESCENDING)] \<and>
    (\<exists>j. map_of w1 (''meter'', ''meter_ttl'') = Some j \<and> mi_expire j = Some 3600) \<and>
    map_of w1 (''meter'', ''mine'') = Some (plain_index [(''recorded_at'', ASCENDING)] None)"
proof -
  obtain w1 where w1: "upgrade demo_admin 3600 demo_indexes = Some (w1, Inr ())"
    "\<forall>(c, n, k)\<in>set established_indexes. has_keys (map_of w1) c n (mi_keys k)"
    "\<forall>(c, n, f)\<in>set ttl_indexes. \<exists>j. map_of w1 (c, n) = Some j \<and> mi_keys j = [(f, ASCENDING)] \<and> mi_expire j = Some 3600"
    "\<forall>c n. (\<forall>ks. (c, n, ks) \<notin> set wanted_keys) \<longrightarrow> map_of w1 (c, n) = map_of demo_indexes (c, n)"
    using upgrade_establishes_indexes [OF demo_admin_documented demo_indexes_tidy, of 3600] by auto
  have "\<forall>ks. (''meter'', ''mine'', ks) \<notin> set wanted_keys" by (simp add: wanted_keys_def established_indexes_def ttl_indexes_def)
  then have "map_of w1 (''meter'', ''mine'') = Some (plain_index [(''recorded_at'', ASCENDING)] None)"
    using w1(4) by (simp add: demo_indexes_def)
  moreover have "has_keys (map_of w1) ''meter'' ''timestamp_idx'' [(''timestamp'', DESCENDING)]"
    using w1(2) by (simp add: established_indexes_def plain_index_def)
  moreover have "\<exists>j. map_of w1 (''meter'', ''meter_ttl'') = Some j \<and> mi_expire j = Some 3600"
    using w1(3) by (auto simp: ttl_indexes_def)
  ultimately show ?thesis using w1(1) by blast
qed

section \<open>The pool\<close>

text \<open>Servers whose addresses have options of the same names get the same client.\<close>

lemma keys_without: "dict_keys (fold dict_del ks os) = filter (\<lambda>k. k \<notin> set ks) (dict_keys os)"
proof (induction ks arbitrary: os)
  case (Cons k ks)
  have "dict_keys (dict_del k os) = filter (\<lambda>x. x \<noteq> k) (dict_keys os)" by (induction os) (auto simp: AList.delete_eq)
  then show ?case using Cons by (simp add: conj_commute)
qed simp

lemma pool_ignores_servers:
  assumes "parse a = Inr os" and "parse b = Inr os'" and "dict_keys os = dict_keys os'"
    and "pool_connect parse alive mongo_client a [] w = (pool, w1, Inr c)" and "alive w1 c"
  shows "pool_connect parse alive mongo_client b pool w1 = (pool, w1, Inr c)"
proof -
  have "dict_get os k = None \<longleftrightarrow> dict_get os' k = None" for k by (metis assms(3) dict_get_None_iff)
  then have "find (\<lambda>k. dict_get os' k = None) ks = find (\<lambda>k. dict_get os k = None) ks" for ks by simp
  then have found: "find (\<lambda>k. dict_get os k = None) ks = None \<Longrightarrow> find (\<lambda>k. dict_get os' k = None) ks = None" for ks by simp
  define ks where "ks = [''database'', ''username'', ''password'', ''collection'']"
  define K where "K = dict_keys (fold dict_del ks os)"
  have K': "dict_keys (fold dict_del ks os') = K" by (simp add: K_def keys_without assms(3))
  have "find (\<lambda>k. dict_get os k = None) ks = None" "dict_set K c [] = pool"
    using assms(4) unfolding pool_connect_def assms(1) ks_def [symmetric] sum.case Let_def K_def [symmetric]
    by (auto split: option.splits prod.splits sum.splits)
  then show ?thesis
    using found [of ks] assms(5) unfolding pool_connect_def assms(2) ks_def [symmetric] sum.case Let_def K'
    by (auto split: option.splits)
qed

end
