(* ===== verification/Api_Pipelines.thy ===== *)
theory Api_Pipelines
  imports Csv_Publisher Pipeline_Manager
begin

text \<open>
  The settings of pipelines through the API (\<^verbatim>\<open>ceilometer/api/controllers/v2/pipelines.py\<close>): the CSV
  publishers of the sinks of the configuration file are listed and changed. A change rewrites the
  file, and the services read it again. Writing and reading YAML give back what was written.
\<close>

section \<open>Publishers of the configuration\<close>

datatype api_publisher = CsvPublisher csv_publisher | OtherPublisher string

text \<open>
  \<open>get_publisher\<close> of \<^verbatim>\<open>publisher/__init__.py\<close> for the driver of CSV files; \<open>other\<close> loads the other
  drivers by their scheme.
\<close>

definition load_publisher :: "csv_conf \<Rightarrow> (split_url \<Rightarrow> string res) \<Rightarrow> string \<Rightarrow> api_publisher res" where
  "load_publisher conf other url =
     bindr (urlsplit url) (\<lambda>u. if u_scheme u = ''csvfile'' then Inr (CsvPublisher (csv_init conf u)) else bindr (other u) (\<lambda>p. Inr (OtherPublisher p)))"

definition csv_of :: "api_publisher \<Rightarrow> csv_publisher option" where
  "csv_of p = (case p of CsvPublisher c \<Rightarrow> Some c | OtherPublisher s \<Rightarrow> None)"

type_synonym 'tr api_sink = "('tr, api_publisher) sink"

text \<open>
  The environment: the plugins of transformers, the configuration of the CSV publisher and the
  loading of other publishers.
\<close>

record 'tr penv =
  pe_plugins :: "string \<Rightarrow> (pymap \<Rightarrow> 'tr res) option"
  pe_csv :: csv_conf
  pe_other :: "split_url \<Rightarrow> string res"

section \<open>Pipelines of a configuration\<close>

text \<open>A document with sources and sinks, or a list of definitions that are both.\<close>

datatype pipeline_doc =
    Decoupled "source_cfg list option" "sink_cfg list option"
  | Coupled "(source_cfg \<times> sink_cfg) list"

definition new_sink :: "'tr penv \<Rightarrow> api_publisher loaded \<Rightarrow> sink_cfg \<Rightarrow> api_publisher loaded \<times> 'tr api_sink res" where
  "new_sink env ps cfg = sink_init (pe_plugins env) (load_publisher (pe_csv env) (pe_other env)) ps cfg"

fun doc_sinks :: "'tr penv \<Rightarrow> api_publisher loaded \<Rightarrow> sink_cfg list \<Rightarrow> (string, 'tr api_sink) pydict \<Rightarrow> (string, 'tr api_sink) pydict res" where
  "doc_sinks env ps [] d = Inr d"
| "doc_sinks env ps (s # ss) d =
     (case k_name s of
        None \<Rightarrow> Inl (KeyError ''name'')
      | Some n \<Rightarrow>
          (case new_sink env ps s of
             (ps1, Inl e) \<Rightarrow> Inl e
           | (ps1, Inr snk) \<Rightarrow> doc_sinks env ps1 ss (dict_set n snk d)))"

fun doc_pipelines :: "(string, 'tr api_sink) pydict \<Rightarrow> source list \<Rightarrow> (source \<times> 'tr api_sink) list res" where
  "doc_pipelines sinks [] = Inr []"
| "doc_pipelines sinks (s # ss) =
     bindr (check_sinks s (dict_keys sinks)) (\<lambda>_.
     bindr (mapr (\<lambda>t. bindr (dict_item sinks t) (\<lambda>k. Inr (s, k))) (src_sinks s)) (\<lambda>ps.
     bindr (doc_pipelines sinks ss) (\<lambda>qs. Inr (ps @ qs))))"

fun coupled_pipelines :: "'tr penv \<Rightarrow> api_publisher loaded \<Rightarrow> (source_cfg \<times> sink_cfg) list \<Rightarrow> (source \<times> 'tr api_sink) list res" where
  "coupled_pipelines env ps [] = Inr []"
| "coupled_pipelines env ps ((s, k) # rest) =
     bindr (sample_source s) (\<lambda>src.
       (case new_sink env ps k of
          (ps1, Inl e) \<Rightarrow> Inl e
        | (ps1, Inr snk) \<Rightarrow> bindr (coupled_pipelines env ps1 rest) (\<lambda>qs. Inr ((src, snk) # qs))))"

definition get_pipelines_from_cfg :: "'tr penv \<Rightarrow> pipeline_doc \<Rightarrow> (source \<times> 'tr api_sink) list res" where
  "get_pipelines_from_cfg env doc =
     (case doc of
        Decoupled (Some srcs) (Some snks) \<Rightarrow>
          bindr (mapr sample_source srcs) (\<lambda>sources.
          bindr (doc_sinks env [] snks []) (\<lambda>sinks. doc_pipelines sinks sources))
      | Decoupled None None \<Rightarrow> Inr []
      | Decoupled _ _ \<Rightarrow> Inl (PipelineException ''Both sources & sinks are required'')
      | Coupled defs \<Rightarrow> coupled_pipelines env [] defs)"

section \<open>Listing\<close>

text \<open>What the API shows of a pipeline, and what a request sends; a null is \<open>None\<close>.\<close>

record api_pipeline =
  ap_name :: string
  ap_enabled :: bool
  ap_location :: string
  ap_max_bytes :: int
  ap_backup_count :: int
  ap_compress :: bool

definition format_as_dict :: "string \<Rightarrow> csv_publisher \<Rightarrow> api_pipeline" where
  "format_as_dict name c =
     \<lparr>ap_name = name, ap_enabled = csv_enabled c, ap_location = csv_location c, ap_max_bytes = csv_max_bytes c,
      ap_backup_count = csv_backup_count c, ap_compress = csv_compress c\<rparr>"

definition listed :: "'tr api_sink \<Rightarrow> (string, api_pipeline) pydict \<Rightarrow> (string, api_pipeline) pydict" where
  "listed snk d = fold (\<lambda>c d. dict_set (sk_name snk) (format_as_dict (sk_name snk) c) d) (List.map_filter csv_of (sk_publishers snk)) d"

definition get_pipelines_from_manager :: "'tr api_sink list \<Rightarrow> api_pipeline list" where
  "get_pipelines_from_manager sinks = map snd (fold listed sinks [])"

definition get_pipelines :: "'tr penv \<Rightarrow> pipeline_doc \<Rightarrow> api_pipeline list res" where
  "get_pipelines env doc =
     bindr (get_pipelines_from_cfg env doc) (\<lambda>ps. Inr (map snd (fold (\<lambda>(src, snk). listed snk) ps [])))"

definition EntityNotFound :: "string \<Rightarrow> pyexc" where "EntityNotFound what = OtherError (''EntityNotFound '' @ what)"

definition get_one_pipeline :: "'tr penv \<Rightarrow> pipeline_doc \<Rightarrow> string \<Rightarrow> api_pipeline res" where
  "get_one_pipeline env doc name =
     bindr (get_pipelines env doc) (\<lambda>ps.
       (case find (\<lambda>p. ap_name p = name) ps of Some p \<Rightarrow> Inr p | None \<Rightarrow> Inl (EntityNotFound name)))"

section \<open>Changing\<close>

record pipeline_data =
  pd_name :: "string option"
  pd_enabled :: "bool option"
  pd_location :: "string option"
  pd_max_bytes :: "int option"
  pd_backup_count :: "int option"
  pd_compress :: "bool option"

definition mandatory :: "string \<Rightarrow> 'a option \<Rightarrow> 'a res" where
  "mandatory f v = (case v of None \<Rightarrow> Inl (ClientSideError (f @ '' is mandatory'')) | Some x \<Rightarrow> Inr x)"

definition validate_pipeline :: "csv_conf \<Rightarrow> pipeline_data \<Rightarrow> api_pipeline res" where
  "validate_pipeline conf d =
     bindr (mandatory ''name'' (pd_name d)) (\<lambda>name.
     bindr (mandatory ''enabled'' (pd_enabled d)) (\<lambda>enabled.
     bindr (mandatory ''location'' (pd_location d)) (\<lambda>location.
     bindr (mandatory ''max_bytes'' (pd_max_bytes d)) (\<lambda>max_bytes.
     bindr (mandatory ''backup_count'' (pd_backup_count d)) (\<lambda>backups.
     bindr (mandatory ''compress'' (pd_compress d)) (\<lambda>compress.
       if location_strict conf \<and> \<not> startswith (abspath conf location) (conf_location conf)
       then Inl (ClientSideError (abspath conf location @ '' violates the location constraint in config''))
       else if max_bytes < 0 then Inl (ClientSideError ''max_bytes must be >= 0.'')
       else Inr \<lparr>ap_name = name, ap_enabled = enabled, ap_location = location, ap_max_bytes = max_bytes,
                 ap_backup_count = backups, ap_compress = compress\<rparr>))))))"

text \<open>The first CSV publisher of a sink; the last pipeline with the name decides.\<close>

definition matching_csv :: "string \<Rightarrow> (source \<times> 'tr api_sink) list \<Rightarrow> csv_publisher option" where
  "matching_csv name ps =
     fold (\<lambda>(src, snk) found.
       if sk_name snk = name then (case List.map_filter csv_of (sk_publishers snk) of [] \<Rightarrow> found | c # cs \<Rightarrow> Some c) else found) ps None"

definition is_csv_item :: "string \<Rightarrow> bool" where
  "is_csv_item item = startswith (str_lower (strip item)) ''csvfile:''"

definition replace_csv :: "string \<Rightarrow> string \<Rightarrow> sink_cfg \<Rightarrow> sink_cfg" where
  "replace_csv name new k =
     (if k_name k = Some name then k\<lparr>k_publishers := map (\<lambda>item. if is_csv_item item then new else item) (k_publishers k)\<rparr> else k)"

text \<open>\<open>yaml_cfg.get('sinks', [])\<close>: a list has no \<open>get\<close>.\<close>

definition changed_doc :: "string \<Rightarrow> string \<Rightarrow> pipeline_doc \<Rightarrow> pipeline_doc res" where
  "changed_doc name new doc =
     (case doc of
        Decoupled srcs snks \<Rightarrow> Inr (Decoupled srcs (map_option (map (replace_csv name new)) snks))
      | Coupled defs \<Rightarrow> Inl (AttributeError ''get''))"

definition setup_pipeline :: "'tr penv \<Rightarrow> pipeline_doc \<Rightarrow> ('tr, api_publisher) manager res" where
  "setup_pipeline env doc =
     (case doc of
        Decoupled srcs snks \<Rightarrow> pipeline_manager (pe_plugins env) (load_publisher (pe_csv env) (pe_other env)) SAMPLE_TYPE srcs snks
      | Coupled defs \<Rightarrow> Inl (PipelineException ''Both sources & sinks are required''))"

text \<open>
  \<open>put\<close>: the document of the file afterwards, whether the services were told to read it, and the
  answer.
\<close>

definition put_pipeline :: "'tr penv \<Rightarrow> pipeline_data \<Rightarrow> pipeline_doc \<Rightarrow> pipeline_doc \<times> bool \<times> api_pipeline res" where
  "put_pipeline env data doc =
     (case validate_pipeline (pe_csv env) data of
        Inl e \<Rightarrow> (doc, False, Inl e)
      | Inr d \<Rightarrow>
          (case get_pipelines_from_cfg env doc of
             Inl e \<Rightarrow> (doc, False, Inl e)
           | Inr ps \<Rightarrow>
               (case matching_csv (ap_name d) ps of
                  None \<Rightarrow> (doc, False, Inl (EntityNotFound (ap_name d)))
                | Some c \<Rightarrow>
                    (let new = as_yaml (change_settings (Some (ap_enabled d)) (Some (ap_location d)) (Some (ap_max_bytes d))
                                 (Some (ap_backup_count d)) (Some (ap_compress d)) c)
                     in case bindr (changed_doc (ap_name d) new doc) (\<lambda>doc'. bindr (get_pipelines_from_cfg env doc') (\<lambda>_. Inr doc')) of
                          Inl e \<Rightarrow> (doc, False, Inl e)
                        | Inr doc' \<Rightarrow>
                            (doc', True,
                             bindr (setup_pipeline env doc') (\<lambda>_.
                             bindr (get_pipelines env doc') (\<lambda>shown.
                               (case find (\<lambda>p. ap_name p = ap_name d) shown of
                                  Some p \<Rightarrow> Inr p
                                | None \<Rightarrow> Inl (ClientSideError ''pipeline yaml is corrupted'')))))))))"

section \<open>Settings are written and read back\<close>

lemma number_chars: "c \<in> set (string_of_int n) \<Longrightarrow> is_digit c \<or> c = CHR ''-''"
  using digits_of_nat_all_digits by (auto simp: string_of_int_def split: if_splits)

lemma number_has_none: "c \<in> set (string_of_int n) \<Longrightarrow> c \<notin> {CHR ''&'', CHR '';'', CHR ''='', CHR ''+'', CHR ''%'', CHR ''#'', CHR ''?''}"
  using number_chars [of c n] by (auto simp: is_digit_def digit_val_def)

lemma unquote_unescaped: "CHR ''%'' \<notin> set s \<Longrightarrow> unquote s = s"
  by (induction s rule: unquote.induct) auto

lemma plain_pair:
  assumes "CHR ''='' \<notin> set n" and "v \<noteq> []" and "\<forall>c\<in>set (n @ v). c \<notin> {CHR ''+'', CHR ''%''}"
  shows "query_pair (n @ CHR ''='' # v) = Some (n, v)"
proof -
  have "CHR ''+'' \<notin> set n" "CHR ''+'' \<notin> set v" "CHR ''%'' \<notin> set n" "CHR ''%'' \<notin> set v" using assms(3) by auto
  then show ?thesis using assms(1,2) by (simp add: query_pair_def cut_append replace_char_id unquote_unescaped)
qed

lemma digits_nonempty: "digits_of_nat n \<noteq> []"
  by (subst digits_of_nat.simps) simp

lemma number_nonempty: "string_of_int n \<noteq> []"
  by (simp add: string_of_int_def digits_nonempty)

lemma number_read_back: "py_int (PStr (string_of_int n)) = Inr n"
proof -
  have plain: "\<not> is_space c" if "c \<in> set (string_of_int n)" for c
    using number_chars [OF that] by (auto simp: is_space_def is_digit_def digit_val_def)
  then have "dropWhile is_space (string_of_int n) = string_of_int n" "dropWhile is_space (rev (string_of_int n)) = rev (string_of_int n)"
    by (simp_all add: dropWhile_eq_self_iff hd_in_set hd_rev last_in_set number_nonempty)
  then have "strip (string_of_int n) = string_of_int n" by (simp add: strip_def)
  moreover have "split_sign (digits_of_nat m) = (False, digits_of_nat m)" for m
  proof -
    obtain c cs where d: "digits_of_nat m = c # cs" using digits_nonempty [of m] by (cases "digits_of_nat m") simp_all
    then have "is_digit c" using digits_of_nat_all_digits [of c m] by simp
    then have "c \<noteq> CHR ''-''" "c \<noteq> CHR ''+''" by (auto simp: is_digit_def digit_val_def)
    then show ?thesis by (simp add: d)
  qed
  ultimately show ?thesis by (simp add: parse_int_def string_of_int_def digits_nonempty nat_of_digits_of_nat)
qed

definition settings_query :: "csv_publisher \<Rightarrow> string" where
  "settings_query p =
     ''max_bytes='' @ string_of_int (csv_max_bytes p) @ ''&backup_count='' @ string_of_int (csv_backup_count p)
       @ ''&compress='' @ py_bool_str (csv_compress p) @ ''&enabled='' @ py_bool_str (csv_enabled p)"

lemma settings_pairs:
  "split_char CHR ''&'' (settings_query p) =
     [''max_bytes='' @ string_of_int (csv_max_bytes p), ''backup_count='' @ string_of_int (csv_backup_count p),
      ''compress='' @ py_bool_str (csv_compress p), ''enabled='' @ py_bool_str (csv_enabled p)]"
proof -
  have n: "CHR ''&'' \<notin> set (string_of_int i)" for i using number_has_none by blast
  have q: "settings_query p = (''max_bytes='' @ string_of_int (csv_max_bytes p)) @ CHR ''&'' #
      (''backup_count='' @ string_of_int (csv_backup_count p)) @ CHR ''&'' # (''compress='' @ py_bool_str (csv_compress p)) @
      CHR ''&'' # (''enabled='' @ py_bool_str (csv_enabled p))" by (simp add: settings_query_def)
  show ?thesis unfolding q by (subst split_char_append, simp add: n py_bool_str_def)+ (simp add: py_bool_str_def)
qed

lemma settings_parsed:
  "parse_qs (settings_query p) =
     [(''max_bytes'', [string_of_int (csv_max_bytes p)]), (''backup_count'', [string_of_int (csv_backup_count p)]),
      (''compress'', [py_bool_str (csv_compress p)]), (''enabled'', [py_bool_str (csv_enabled p)])]"
proof -
  have semi: "CHR '';'' \<notin> set (string_of_int i)" for i using number_has_none by blast
  have num: "\<forall>c\<in>set (string_of_int i). c \<notin> {CHR ''+'', CHR ''%''}" for i using number_has_none by blast
  have pairs: "split_pairs (settings_query p) =
     [''max_bytes'' @ CHR ''='' # string_of_int (csv_max_bytes p), ''backup_count'' @ CHR ''='' # string_of_int (csv_backup_count p),
      ''compress'' @ CHR ''='' # py_bool_str (csv_compress p), ''enabled'' @ CHR ''='' # py_bool_str (csv_enabled p)]"
    unfolding split_pairs_def settings_pairs by (simp add: split_char_single semi py_bool_str_def)
  have "query_pair (n @ CHR ''='' # string_of_int i) = Some (n, string_of_int i)"
    if "CHR ''='' \<notin> set n" "\<forall>c\<in>set n. c \<notin> {CHR ''+'', CHR ''%''}" for n i
    using that num [of i] by (intro plain_pair) (auto simp: number_nonempty)
  moreover have "query_pair (n @ CHR ''='' # py_bool_str b) = Some (n, py_bool_str b)"
    if "CHR ''='' \<notin> set n" "\<forall>c\<in>set n. c \<notin> {CHR ''+'', CHR ''%''}" for n b
    using that by (intro plain_pair) (auto simp: py_bool_str_def)
  ultimately have "List.map_filter query_pair (split_pairs (settings_query p)) =
     [(''max_bytes'', string_of_int (csv_max_bytes p)), (''backup_count'', string_of_int (csv_backup_count p)),
      (''compress'', py_bool_str (csv_compress p)), (''enabled'', py_bool_str (csv_enabled p))]"
    unfolding pairs by (simp add: List.map_filter_simps del: append.simps)
  then show ?thesis by (simp add: parse_qs_def dict_set_fresh dict_get_default_def)
qed

definition writable_location :: "string \<Rightarrow> bool" where
  "writable_location l \<longleftrightarrow> startswith l ''/'' \<and> CHR ''?'' \<notin> set l \<and> CHR ''#'' \<notin> set l"

lemma settings_split:
  assumes "writable_location (csv_location p)"
  shows "urlsplit (as_yaml p) =
    Inr \<lparr>u_scheme = ''csvfile'', u_netloc = [], u_path = csv_location p, u_query = settings_query p, u_fragment = []\<rparr>"
proof -
  obtain l where l: "csv_location p = CHR ''/'' # l" using assms by (auto simp: writable_location_def startswith_iff)
  have y: "as_yaml p = ''csvfile'' @ CHR '':'' # ''//'' @ csv_location p @ CHR ''?'' # settings_query p"
    by (simp add: as_yaml_def settings_query_def)
  have "split_scheme (as_yaml p) = (''csvfile'', ''//'' @ csv_location p @ CHR ''?'' # settings_query p)"
    unfolding y split_scheme_def
    by (subst cut_append; simp add: scheme_char_def str_lower_def to_lower_def is_digit_def digit_val_def)
  moreover have "split_netloc (''//'' @ csv_location p @ CHR ''?'' # settings_query p) = ([], csv_location p @ CHR ''?'' # settings_query p)"
    by (simp add: split_netloc_def l startswith_iff)
  moreover have "CHR ''#'' \<notin> set (settings_query p)"
    using number_has_none [of "CHR ''#''"] by (auto simp: settings_query_def py_bool_str_def)
  then have "cut CHR ''#'' (csv_location p @ CHR ''?'' # settings_query p) = (csv_location p @ CHR ''?'' # settings_query p, [])"
    using assms by (intro cut_none) (simp add: writable_location_def)
  moreover have "cut CHR ''?'' (csv_location p @ CHR ''?'' # settings_query p) = (csv_location p, settings_query p)"
    using assms by (intro cut_append) (simp add: writable_location_def)
  ultimately show ?thesis by (simp add: urlsplit_def)
qed

lemma bool_read_back: "str2bool (py_bool_str b) = b"
proof -
  have "str2bool (py_bool_str True)" "\<not> str2bool (py_bool_str False)" by code_simp+
  then show ?thesis by (cases b) simp_all
qed

lemma settings_roundtrip:
  assumes "writable_location (csv_location p)" and "0 \<le> csv_max_bytes p"
    and "location_strict conf \<Longrightarrow> startswith (abspath conf (csv_location p)) (conf_location conf)"
  shows "bindr (urlsplit (as_yaml p)) (\<lambda>u. Inr (csv_init conf u)) =
    Inr (p\<lparr>csv_location := if location_strict conf then abspath conf (csv_location p) else csv_location p, csv_logger := True\<rparr>)"
proof -
  obtain l where l: "csv_location p = CHR ''/'' # l" using assms by (auto simp: writable_location_def startswith_iff)
  define K where "K = settings_query p"
  have q: "K \<noteq> []" by (simp add: K_def settings_query_def)
  have name: "str_lower (csv_location p) \<noteq> ''csvfile''" "csv_location p \<noteq> []" by (simp_all add: l str_lower_def to_lower_def)
  have opts: "csv_options (parse_qs K) r =
      (r\<lparr>csv_backup_count := csv_backup_count p, csv_max_bytes := csv_max_bytes p, csv_compress := csv_compress p,
         csv_enabled := csv_enabled p\<rparr>, True)" for r
    unfolding K_def settings_parsed csv_options_def int_option_def option_value_def
    using assms(2) by (simp add: number_read_back bool_read_back Let_def del: py_int.simps)
  show ?thesis
    unfolding settings_split [OF assms(1)] bindr_simps csv_init_def K_def [symmetric]
    using assms(3) name q opts by (auto simp: Let_def intro!: csv_publisher.equality)
qed

section \<open>A change is shown\<close>

lemma doc_sinks_ok:
  assumes "doc_sinks env ps cfgs d = Inr out" and "cache_ok (load_publisher (pe_csv env) (pe_other env)) ps"
    and "dict_get out n = Some snk"
  shows "dict_get d n = Some snk \<or>
    (\<exists>cfg\<in>set cfgs. sink_ok (load_publisher (pe_csv env) (pe_other env)) cfg snk \<and> sk_name snk = n)"
  using assms
proof (induction cfgs arbitrary: ps d)
  case (Cons c cs)
  obtain m where m: "k_name c = Some m" using Cons.prems(1) by (auto split: option.splits)
  obtain ps1 r where i: "new_sink env ps c = (ps1, r)" by fastforce
  then obtain s where r: "r = Inr s" and rest: "doc_sinks env ps1 cs (dict_set m s d) = Inr out"
    using Cons.prems(1) m by (auto split: sum.splits)
  have ok: "cache_ok (load_publisher (pe_csv env) (pe_other env)) ps1" "sink_ok (load_publisher (pe_csv env) (pe_other env)) c s"
    using sink_init_ok [OF Cons.prems(2) i [unfolded new_sink_def]] r by auto
  have "sk_name s = m" using ok(2) m by (simp add: sink_ok_def)
  then show ?case using Cons.IH [OF rest ok(1) Cons.prems(3)] ok(2) by (auto simp: dict_get_set split: if_splits)
qed simp

lemma doc_pipelines_sinks:
  "doc_pipelines sinks srcs = Inr ps \<Longrightarrow> (src, snk) \<in> set ps \<Longrightarrow> \<exists>n. dict_get sinks n = Some snk"
proof (induction srcs arbitrary: ps)
  case (Cons s ss)
  obtain as qs where as: "mapr (\<lambda>t. bindr (dict_item sinks t) (\<lambda>k. Inr (s, k))) (src_sinks s) = Inr as" "doc_pipelines sinks ss = Inr qs" "ps = as @ qs"
    using Cons.prems(1) by (auto simp: bindr_Inr_iff)
  show ?case
  proof (cases "(src, snk) \<in> set qs")
    case True
    then show ?thesis using Cons.IH [OF as(2)] by blast
  next
    case False
    then have "(src, snk) \<in> set as" using Cons.prems(2) as(3) by simp
    then obtain t where "bindr (dict_item sinks t) (\<lambda>k. Inr (s, k)) = Inr (src, snk)" using mapr_Inr_source [OF as(1)] by blast
    then show ?thesis by (auto simp: bindr_Inr_iff dict_item_Inr_iff)
  qed
qed simp

lemma map_filter_csv: "c \<in> set (List.map_filter csv_of ps) \<longleftrightarrow> CsvPublisher c \<in> set ps"
  by (auto simp: List.map_filter_def csv_of_def split: api_publisher.splits) (force split: api_publisher.splits)

lemma listed_member:
  assumes "(n, p) \<in> set (listed snk d)"
  shows "(n, p) \<in> set d \<or> (\<exists>c. CsvPublisher c \<in> set (sk_publishers snk) \<and> p = format_as_dict (sk_name snk) c)"
proof -
  have "(n, p) \<in> set (fold (\<lambda>c d. dict_set m (format_as_dict m c) d) cs d) \<Longrightarrow> (n, p) \<in> set d \<or> (\<exists>c\<in>set cs. p = format_as_dict m c)" for cs m
  proof (induction cs arbitrary: d)
    case (Cons c cs)
    then show ?case using Cons.IH [of "dict_set m (format_as_dict m c) d"] by (auto dest: dict_set_memberD)
  qed simp
  then show ?thesis using assms unfolding listed_def by (metis map_filter_csv)
qed

lemma all_listed_member:
  "(n, p) \<in> set (fold (\<lambda>(src, snk). listed snk) ps d) \<Longrightarrow>
    (n, p) \<in> set d \<or> (\<exists>src snk c. (src, snk) \<in> set ps \<and> CsvPublisher c \<in> set (sk_publishers snk) \<and> p = format_as_dict (sk_name snk) c)"
proof (induction ps arbitrary: d)
  case (Cons a ps)
  obtain s k where a: "a = (s, k)" by (cases a)
  from Cons.IH [of "listed k d"] Cons.prems listed_member [of n p k d] show ?case by (auto simp: a)
qed simp

lemma get_pipelines_member:
  assumes "get_pipelines env (Decoupled srcs (Some cfgs)) = Inr shown" and "p \<in> set shown"
  shows "\<exists>cfg\<in>set cfgs. \<exists>c item. k_name cfg = Some (ap_name p) \<and> item \<in> set (k_publishers cfg) \<and>
    load_publisher (pe_csv env) (pe_other env) (publisher_url item) = Inr (CsvPublisher c) \<and> p = format_as_dict (ap_name p) c"
proof -
  let ?load = "load_publisher (pe_csv env) (pe_other env)"
  obtain ps where ps: "get_pipelines_from_cfg env (Decoupled srcs (Some cfgs)) = Inr ps" "shown = map snd (fold (\<lambda>(src, snk). listed snk) ps [])"
    using assms(1) by (auto simp: get_pipelines_def bindr_Inr_iff)
  obtain src snk c where snk: "(src, snk) \<in> set ps" "CsvPublisher c \<in> set (sk_publishers snk)" "p = format_as_dict (sk_name snk) c"
  proof -
    obtain n where "(n, p) \<in> set (fold (\<lambda>(src, snk). listed snk) ps [])" using assms(2) by (auto simp: ps(2))
    from all_listed_member [OF this] that show ?thesis by auto
  qed
  obtain sinks sources where "doc_sinks env [] cfgs [] = Inr sinks" "doc_pipelines sinks sources = Inr ps"
    using ps(1) by (auto simp: get_pipelines_from_cfg_def bindr_Inr_iff split: option.splits)
  then obtain n where n: "doc_sinks env [] cfgs [] = Inr sinks" "dict_get sinks n = Some snk"
    using doc_pipelines_sinks [OF _ snk(1)] by blast
  have "cache_ok ?load []" by (simp add: cache_ok_def)
  then obtain cfg where cfg: "cfg \<in> set cfgs" "sink_ok ?load cfg snk"
    using doc_sinks_ok [OF n(1) _ n(2)] by auto
  obtain item where "item \<in> set (k_publishers cfg)" "?load (publisher_url item) = Inr (CsvPublisher c)"
    using snk(2) cfg(2) by (auto simp: sink_ok_def loadable_def split: sum.splits)
  then show ?thesis using cfg snk(3) by (auto simp: sink_ok_def format_as_dict_def intro!: bexI [of _ cfg])
qed

lemma strip_keeps:
  assumes "a \<noteq> []" and "\<not> is_space (hd a)" and "\<not> is_space c"
  shows "\<exists>t. strip (a @ c # b) = a @ c # t"
proof -
  have "dropWhile is_space (a @ c # b) = a @ c # b" using assms(1,2) by (cases a) auto
  moreover have "\<exists>t. rev (dropWhile is_space (rev (a @ c # b))) = a @ c # t" for b
    using assms(3) by (induction b rule: rev_induct) auto
  ultimately show ?thesis by (simp add: strip_def)
qed

lemma csv_item:
  assumes "load_publisher conf other (publisher_url item) = Inr (CsvPublisher c)"
  shows "is_csv_item item \<or> str_lower item = ''csvfile''"
proof -
  define before where "before = takeWhile (\<lambda>x. x \<noteq> CHR '':'') (publisher_url item)"
  obtain u where u: "urlsplit (publisher_url item) = Inr u" "u_scheme u = ''csvfile''"
    using assms by (auto simp: load_publisher_def bindr_Inr_iff split: if_splits)
  then have "fst (split_scheme (publisher_url item)) = ''csvfile''"
    by (auto simp: urlsplit_def case_prod_beta Let_def split: if_splits)
  then have lower: "str_lower before = ''csvfile''" and colon: "CHR '':'' \<in> set (publisher_url item)"
    by (auto simp: split_scheme_def cut_def before_def case_prod_beta Let_def split: if_splits)
  show ?thesis
  proof (cases "CHR '':'' \<in> set item")
    case True
    then have "before = takeWhile (\<lambda>x. x \<noteq> CHR '':'') item"
      by (auto simp: before_def publisher_url_def takeWhile_append1)
    then obtain rest where item: "item = before @ CHR '':'' # rest"
      using split_once_join [OF True] by (metis fst_conv split_once_def)
    have ne: "before \<noteq> []" and c: "to_lower (hd before) = CHR ''c''" using lower by (cases before; simp add: str_lower_def)+
    have "\<not> is_space (hd before)" using c by (auto simp: is_space_def to_lower_def)
    moreover have "\<not> is_space CHR '':''" by (simp add: is_space_def)
    ultimately obtain t where "strip item = before @ CHR '':'' # t"
      using strip_keeps [OF ne, of "CHR '':''" rest] unfolding item by blast
    then have "str_lower (strip item) = ''csvfile:'' @ str_lower t" using lower by (simp add: str_lower_def to_lower_def)
    then show ?thesis by (simp add: is_csv_item_def startswith_iff)
  next
    case False
    then have "\<not> contains item ''://''" by (auto simp: contains_def sublist_def)
    then have "before = item" using False by (simp add: before_def publisher_url_def takeWhile_append)
    then show ?thesis using lower by simp
  qed
qed

text \<open>
  C39: Changed settings are the settings that are shown: the answer to a change of a pipeline has the name
  and the settings of the request, the location made absolute where locations are restricted, and
  the services are told to read the new file. It is for a location that can be written in a URL
  and sinks without the old format of publishers.
\<close>

theorem put_pipeline_answers:
  assumes "put_pipeline env data doc = (doc', told, Inr p)"
    and "validate_pipeline (pe_csv env) data = Inr d" and "writable_location (ap_location d)"
    and "\<And>srcs cfgs cfg item. doc = Decoupled srcs (Some cfgs) \<Longrightarrow> cfg \<in> set cfgs \<Longrightarrow> item \<in> set (k_publishers cfg) \<Longrightarrow>
      str_lower item \<noteq> ''csvfile''"
  shows "told \<and> p = d\<lparr>ap_location := if location_strict (pe_csv env) then abspath (pe_csv env) (ap_location d) else ap_location d\<rparr>"
proof -
  let ?load = "load_publisher (pe_csv env) (pe_other env)"
  obtain ps c where ps: "get_pipelines_from_cfg env doc = Inr ps" "matching_csv (ap_name d) ps = Some c"
    using assms(1) by (auto simp: put_pipeline_def assms(2) split: sum.splits option.splits)
  define s where "s = change_settings (Some (ap_enabled d)) (Some (ap_location d)) (Some (ap_max_bytes d))
                                 (Some (ap_backup_count d)) (Some (ap_compress d)) c"
  have put: "(case bindr (changed_doc (ap_name d) (as_yaml s) doc) (\<lambda>doc'. bindr (get_pipelines_from_cfg env doc') (\<lambda>_. Inr doc')) of
      Inl e \<Rightarrow> (doc, False, Inl e)
    | Inr doc' \<Rightarrow> (doc', True, bindr (setup_pipeline env doc') (\<lambda>_. bindr (get_pipelines env doc') (\<lambda>shown.
        (case find (\<lambda>p. ap_name p = ap_name d) shown of Some p \<Rightarrow> Inr p
         | None \<Rightarrow> Inl (ClientSideError ''pipeline yaml is corrupted'')))))) = (doc', told, Inr p)"
    using assms(1) by (simp add: put_pipeline_def assms(2) ps s_def Let_def)
  then obtain shown where told: told and doc': "changed_doc (ap_name d) (as_yaml s) doc = Inr doc'" and shown: "get_pipelines env doc' = Inr shown"
    and found: "find (\<lambda>p. ap_name p = ap_name d) shown = Some p"
    by (auto simp: bindr_Inr_iff split: sum.splits option.splits)
  obtain srcs snks where doc: "doc = Decoupled srcs snks" using doc' by (cases doc) (auto simp: changed_doc_def)
  obtain cfgs where cfgs: "snks = Some cfgs"
    using ps by (cases snks; cases srcs) (auto simp: doc get_pipelines_from_cfg_def matching_csv_def)
  have p: "p \<in> set shown" "ap_name p = ap_name d" using found by (auto simp: find_Some_iff)
  have d2: "doc' = Decoupled srcs (Some (map (replace_csv (ap_name d) (as_yaml s)) cfgs))"
    using doc' by (simp add: changed_doc_def doc cfgs)
  obtain cfg' c' item where cfg': "cfg' \<in> set (map (replace_csv (ap_name d) (as_yaml s)) cfgs)" "k_name cfg' = Some (ap_name p)"
      "item \<in> set (k_publishers cfg')" "?load (publisher_url item) = Inr (CsvPublisher c')" "p = format_as_dict (ap_name p) c'"
    using get_pipelines_member [OF shown [unfolded d2] p(1)] by blast
  then obtain cfg where cfg: "cfg \<in> set cfgs" "cfg' = replace_csv (ap_name d) (as_yaml s) cfg" by auto
  then have "k_name cfg = Some (ap_name d)" using cfg'(2) p(2) by (auto simp: replace_csv_def split: if_splits)
  then have "item = as_yaml s \<or> (item \<in> set (k_publishers cfg) \<and> \<not> is_csv_item item)"
    using cfg'(3) cfg(2) by (auto simp: replace_csv_def)
  then have item: "item = as_yaml s" using csv_item [OF cfg'(4)] assms(4) [OF doc [unfolded cfgs] cfg(1)] by blast
  have "contains (as_yaml s) ''://''" unfolding contains_def as_yaml_def sublist_def
    by (rule exI [of _ "''csvfile''"]) simp
  then have "publisher_url item = as_yaml s" by (simp add: item publisher_url_def)
  moreover have loc: "csv_location s = ap_location d" "csv_max_bytes s = ap_max_bytes d" "csv_backup_count s = ap_backup_count d"
    "csv_compress s = ap_compress d" "csv_enabled s = ap_enabled d" by (simp_all add: s_def change_settings_def)
  have valid: "0 \<le> ap_max_bytes d" "location_strict (pe_csv env) \<Longrightarrow> startswith (abspath (pe_csv env) (ap_location d)) (conf_location (pe_csv env))"
    using assms(2) by (auto simp: validate_pipeline_def bindr_Inr_iff mandatory_def split: if_splits option.splits)
  have "bindr (urlsplit (as_yaml s)) (\<lambda>u. Inr (csv_init (pe_csv env) u)) =
      Inr (s\<lparr>csv_location := if location_strict (pe_csv env) then abspath (pe_csv env) (csv_location s) else csv_location s, csv_logger := True\<rparr>)"
    using assms(3) valid by (intro settings_roundtrip) (simp_all add: loc)
  ultimately have "c' = s\<lparr>csv_location := if location_strict (pe_csv env) then abspath (pe_csv env) (csv_location s) else csv_location s, csv_logger := True\<rparr>"
    using cfg'(4) settings_split [of s] assms(3) by (simp add: load_publisher_def loc)
  then have "p = format_as_dict (ap_name d) (s\<lparr>csv_location := if location_strict (pe_csv env) then abspath (pe_csv env) (csv_location s) else csv_location s, csv_logger := True\<rparr>)"
    using cfg'(5) p(2) by simp
  then show ?thesis using told by (simp add: format_as_dict_def loc)
qed

text \<open>Nothing but the URLs of CSV files changes, and a change that is refused leaves the file as it is.\<close>

lemma put_keeps_others:
  assumes "put_pipeline env data doc = (doc', told, r)"
  shows "if told then \<exists>srcs cfgs new. doc = Decoupled srcs cfgs \<and>
      doc' = Decoupled srcs (map_option (map (\<lambda>k. if k_name k = pd_name data
        then k\<lparr>k_publishers := map (\<lambda>item. if is_csv_item item then new else item) (k_publishers k)\<rparr> else k)) cfgs)
    else doc' = doc"
proof (cases told)
  case True
  then obtain d new where d: "validate_pipeline (pe_csv env) data = Inr d" "changed_doc (ap_name d) new doc = Inr doc'"
    using assms by (auto simp: put_pipeline_def Let_def bindr_Inr_iff split: sum.splits option.splits)
  have "pd_name data = Some (ap_name d)"
    using d(1) by (auto simp: validate_pipeline_def bindr_Inr_iff mandatory_def split: if_splits option.splits)
  then show ?thesis using d(2) True by (cases doc) (auto simp: changed_doc_def replace_csv_def [abs_def])
next
  case False
  then show ?thesis
    using assms by (auto simp: put_pipeline_def Let_def bindr_Inr_iff split: sum.splits option.splits)
qed

definition demo_env :: "unit penv" where
  "demo_env =
     \<lparr>pe_plugins = (\<lambda>n. None), pe_csv = \<lparr>conf_location = ''/opt'', location_strict = True, abspath = (\<lambda>l. l)\<rparr>,
      pe_other = (\<lambda>u. Inr (u_scheme u))\<rparr>"

definition demo_doc :: pipeline_doc where
  "demo_doc =
     Decoupled
       (Some [\<lparr>c_name = Some ''cpu'', c_meters = Some [''cpu''], c_events = None, c_sinks = Some [''files''], c_interval = None,
               c_resources = None, c_discovery = None\<rparr>])
       (Some [\<lparr>k_name = Some ''files'', k_transformers = [], k_publishers = [''notifier://'', ''csvfile:///opt/a.csv'']\<rparr>])"

definition demo_request :: "string \<Rightarrow> pipeline_data" where
  "demo_request l =
     \<lparr>pd_name = Some ''files'', pd_enabled = Some False, pd_location = Some l, pd_max_bytes = Some 1000, pd_backup_count = Some 5,
      pd_compress = Some True\<rparr>"

definition demo_answer :: api_pipeline where
  "demo_answer =
     \<lparr>ap_name = ''files'', ap_enabled = False, ap_location = ''/opt/b.csv'', ap_max_bytes = 1000, ap_backup_count = 5, ap_compress = True\<rparr>"

lemma demo_put:
  "(case put_pipeline demo_env (demo_request ''/opt/b.csv'') demo_doc of (doc', told, r) \<Rightarrow> (told, r)) = (True, Inr demo_answer)"
  "validate_pipeline (pe_csv demo_env) (demo_request ''/opt/b.csv'') = Inr demo_answer"
  by code_simp+

theorem put_pipeline_answers_witness:
  "\<exists>doc'. put_pipeline demo_env (demo_request ''/opt/b.csv'') demo_doc = (doc', True, Inr demo_answer)"
proof -
  obtain doc' told r where put: "put_pipeline demo_env (demo_request ''/opt/b.csv'') demo_doc = (doc', told, r)"
    by (cases "put_pipeline demo_env (demo_request ''/opt/b.csv'') demo_doc") auto
  then have r: "r = Inr demo_answer" using demo_put(1) by simp
  have "writable_location (ap_location demo_answer)" by code_simp
  moreover have "str_lower item \<noteq> ''csvfile''"
    if "demo_doc = Decoupled srcs (Some cfgs)" "cfg \<in> set cfgs" "item \<in> set (k_publishers cfg)" for srcs cfgs cfg item
    using that by (auto simp: demo_doc_def str_lower_def to_lower_def)
  ultimately have told
    using put_pipeline_answers [OF put [unfolded r] demo_put(2)] by blast
  then show ?thesis using put r by simp
qed

text \<open>The restriction of locations compares texts, so a neighbour of the directory passes.\<close>

lemma neighbour_location_accepted:
  "validate_pipeline (pe_csv demo_env) (demo_request ''/optional/b.csv'') = Inr (demo_answer\<lparr>ap_location := ''/optional/b.csv''\<rparr>)"
  by code_simp

text \<open>An absolute location is part of what a URL can hold; another one is lost.\<close>

lemma relative_location_lost:
  "bindr (urlsplit (as_yaml \<lparr>csv_location = ''b.csv'', csv_max_bytes = 0, csv_backup_count = 0, csv_compress = True, csv_enabled = True, csv_logger = True\<rparr>))
     (\<lambda>u. Inr (u_path u)) = Inr []"
  by code_simp

end
