(* ===== verification/Store_Pollsters.thy ===== *)
theory Store_Pollsters
  imports Network_Statistics Service_Calls
begin

text \<open>
  The pollsters of object stores, images and volumes (\<^verbatim>\<open>ceilometer/objectstore/\<close>, \<^verbatim>\<open>image/\<close> and \<^verbatim>\<open>volume/\<close>)
  and the samples from telemetry notifications (\<^verbatim>\<open>telemetry/notifications.py\<close>, \<^verbatim>\<open>middleware.py\<close>). The clients of
  the services are parameters. Tenants are their ids; images, volumes, snapshots and backups are the
  dictionaries of their attributes.
\<close>

section \<open>Samples\<close>

text \<open>The arguments of a sample; metadata that is not given is none.\<close>

record store_sample =
  ss_name :: string
  ss_unit :: string
  ss_volume :: pyval
  ss_user :: pyval
  ss_project :: pyval
  ss_resource :: pyval
  ss_metadata :: "pymap option"

definition tenant_sample :: "string \<Rightarrow> string \<Rightarrow> pyval \<Rightarrow> string \<Rightarrow> string \<Rightarrow> store_sample" where
  "tenant_sample name unit volume tenant rid =
     \<lparr>ss_name = name, ss_unit = unit, ss_volume = volume, ss_user = PNone, ss_project = PStr tenant, ss_resource = PStr rid,
      ss_metadata = None\<rparr>"

section \<open>Accounts\<close>

text \<open>
  The endpoint is kept for the life of the agent and the accounts for the cycle, by the method of the
  pollster.
\<close>

type_synonym 'a accounts = "(string \<times> 'a) list"

record ('w, 'a) store_state =
  st_endpoint :: "string option"
  st_cache :: "(string, 'a accounts) pydict"
  st_world :: 'w

definition EndpointNotFound :: pyexc where "EndpointNotFound = OtherError ''EndpointNotFound''"

definition find_endpoint :: "('w, string) svc \<Rightarrow> (string \<Rightarrow> string) \<Rightarrow> ('w, 'a) store_state \<Rightarrow> ('w, 'a) store_state \<times> string option res" where
  "find_endpoint url_for adjust st =
     (case st_endpoint st of
        Some e \<Rightarrow> (st, Inr (Some e))
      | None \<Rightarrow>
          (case url_for (st_world st) of
             (w1, Inl e) \<Rightarrow> (st\<lparr>st_world := w1\<rparr>, if e = EndpointNotFound then Inr None else Inl e)
           | (w1, Inr u) \<Rightarrow> (st\<lparr>st_world := w1, st_endpoint := Some (adjust u)\<rparr>, Inr (Some (adjust u)))))"

text \<open>
  \<open>_iter_accounts\<close>: the list of the generator is kept when it ended. A generator that raises
  \<open>StopIteration\<close> ends.
\<close>

definition iter_accounts ::
  "string \<Rightarrow> (('w, 'a) store_state \<Rightarrow> ('w, 'a) store_state \<times> 'a accounts res) \<Rightarrow> ('w, 'a) store_state \<Rightarrow> ('w, 'a) store_state \<times> 'a accounts res" where
  "iter_accounts key account_info st =
     (case dict_get (st_cache st) key of
        Some as \<Rightarrow> (st, Inr as)
      | None \<Rightarrow>
          (case account_info st of
             (st1, Inl e) \<Rightarrow> (st1, Inl e)
           | (st1, Inr as) \<Rightarrow> (st1\<lparr>st_cache := dict_set key as (st_cache st1)\<rparr>, Inr as)))"

definition on_world :: "('w, 'b) svc \<Rightarrow> ('w, 'a) store_state \<Rightarrow> ('w, 'a) store_state \<times> 'b res" where
  "on_world c st = (case c (st_world st) of (w1, r) \<Rightarrow> (st\<lparr>st_world := w1\<rparr>, r))"

section \<open>Swift\<close>

text \<open>\<open>urljoin\<close> of a base that ends in a slash and a relative path.\<close>

definition neaten_url :: "string \<Rightarrow> string \<Rightarrow> string \<Rightarrow> string" where
  "neaten_url endpoint tenant_id reseller_prefix =
     rev (dropWhile (\<lambda>c. c = CHR ''/'') (rev (hd (split_str ''/v1'' None endpoint)))) @ ''/'' @ ''v1/'' @ reseller_prefix @ tenant_id"

text \<open>An account, or the status of the client's exception.\<close>

datatype account_answer = Account pyval | ClientStatus int

definition ClientException :: pyexc where "ClientException = OtherError ''ClientException''"

record 'w swift =
  sw_prefix :: string
  sw_url_for :: "('w, string) svc"
  sw_token :: "('w, string) svc"
  sw_account :: "string \<Rightarrow> string \<Rightarrow> string \<Rightarrow> ('w, account_answer) svc"

fun swift_accounts :: "'w swift \<Rightarrow> string \<Rightarrow> string \<Rightarrow> string list \<Rightarrow> ('w, pyval accounts) svc" where
  "swift_accounts sw meth endpoint [] = pure (Inr [])"
| "swift_accounts sw meth endpoint (t # ts) =
     bindw (sw_token sw) (\<lambda>token.
     bindw (sw_account sw meth (neaten_url endpoint t (sw_prefix sw)) token) (\<lambda>a.
       (case a of
          Account v \<Rightarrow> bindw (swift_accounts sw meth endpoint ts) (\<lambda>as. pure (Inr ((t, v) # as)))
        | ClientStatus s \<Rightarrow> if s = 404 then swift_accounts sw meth endpoint ts else pure (Inl ClientException))))"

definition swift_account_info :: "'w swift \<Rightarrow> string \<Rightarrow> string list \<Rightarrow> ('w, pyval) store_state \<Rightarrow> ('w, pyval) store_state \<times> pyval accounts res" where
  "swift_account_info sw meth tenants st =
     (case find_endpoint (sw_url_for sw) (\<lambda>u. u) st of
        (st1, Inl e) \<Rightarrow> (st1, Inl e)
      | (st1, Inr None) \<Rightarrow> (st1, Inr [])
      | (st1, Inr (Some endpoint)) \<Rightarrow>
          if endpoint = [] then (st1, Inr []) else on_world (swift_accounts sw meth endpoint tenants) st1)"

text \<open>
  The pollsters: of the headers of an account, or, with the method \<open>get\<close>, of its containers, the
  second part of the answer.
\<close>

record swift_pollster =
  wp_name :: string
  wp_unit :: string
  wp_method :: string
  wp_key :: string

definition head_pollster :: "string \<Rightarrow> string \<Rightarrow> string \<Rightarrow> swift_pollster" where
  "head_pollster name unit key = \<lparr>wp_name = name, wp_unit = unit, wp_method = ''head'', wp_key = key\<rparr>"

definition get_pollster :: "string \<Rightarrow> string \<Rightarrow> string \<Rightarrow> swift_pollster" where
  "get_pollster name unit key = \<lparr>wp_name = name, wp_unit = unit, wp_method = ''get'', wp_key = key\<rparr>"

definition swift_objects :: swift_pollster where "swift_objects = head_pollster ''storage.objects'' ''object'' ''x-account-object-count''"
definition swift_objects_size :: swift_pollster where "swift_objects_size = head_pollster ''storage.objects.size'' ''B'' ''x-account-bytes-used''"
definition swift_containers :: swift_pollster where
  "swift_containers = head_pollster ''storage.objects.containers'' ''container'' ''x-account-container-count''"
definition swift_container_objects :: swift_pollster where "swift_container_objects = get_pollster ''storage.containers.objects'' ''object'' ''count''"
definition swift_container_size :: swift_pollster where "swift_container_size = get_pollster ''storage.containers.objects.size'' ''B'' ''bytes''"

definition int_of :: "pyval \<Rightarrow> string \<Rightarrow> pyval res" where
  "int_of v k = bindr (py_getitem v (PStr k)) (\<lambda>x. bindr (py_int x) (\<lambda>i. Inr (PInt i)))"

definition joined_id :: "string \<Rightarrow> pyval \<Rightarrow> string res" where
  "joined_id tenant name = (case name of PStr s \<Rightarrow> Inr (tenant @ ''/'' @ s) | _ \<Rightarrow> Inl TypeError)"

definition swift_item :: "swift_pollster \<Rightarrow> string \<times> pyval \<Rightarrow> store_sample gen" where
  "swift_item p = (\<lambda>(tenant, account).
     (if wp_method p = ''head''
      then gen_one (bindr (int_of account (wp_key p)) (\<lambda>v. Inr (tenant_sample (wp_name p) (wp_unit p) v tenant tenant)))
      else
        (case bindr (py_getitem account (PInt 1)) py_iter of
           Inl e \<Rightarrow> ([], Inl e)
         | Inr containers \<Rightarrow>
             gen_bind (\<lambda>c. gen_one (bindr (int_of c (wp_key p)) (\<lambda>v.
               bindr (py_getitem c (PStr ''name'')) (\<lambda>n. bindr (joined_id tenant n) (\<lambda>rid.
                 Inr (tenant_sample (wp_name p) (wp_unit p) v tenant rid)))))) containers)))"

definition swift_get_samples :: "'w swift \<Rightarrow> swift_pollster \<Rightarrow> string list \<Rightarrow> ('w, pyval) store_state \<Rightarrow> ('w, pyval) store_state \<times> store_sample gen" where
  "swift_get_samples sw p tenants st =
     (case iter_accounts (''swift.'' @ wp_method p @ ''_account'') (swift_account_info sw (wp_method p) tenants) st of
        (st1, Inl e) \<Rightarrow> (st1, [], Inl e)
      | (st1, Inr as) \<Rightarrow> (st1, gen_bind (swift_item p) as))"

section \<open>The RADOS gateway\<close>

text \<open>\<open>urljoin(rgw_url, '/admin')\<close>\<close>

definition admin_url :: "string \<Rightarrow> string" where
  "admin_url u =
     (case urlsplit u of
        Inl e \<Rightarrow> u
      | Inr p \<Rightarrow> urlunsplit (p\<lparr>u_path := ''/admin'', u_query := [], u_fragment := []\<rparr>))"

definition RGWAdminAPIFailed :: pyexc where "RGWAdminAPIFailed = OtherError ''RGWAdminAPIFailed''"

text \<open>The request answers with a status and the JSON document.\<close>

record 'w rgw =
  rg_service_type :: string
  rg_url_for :: "('w, string) svc"
  rg_client :: "unit res"
  rg_get :: "string \<Rightarrow> pymap \<Rightarrow> ('w, int \<times> pyval) svc"

definition make_request :: "'w rgw \<Rightarrow> string \<Rightarrow> string \<Rightarrow> pymap \<Rightarrow> ('w, pyval) svc" where
  "make_request rg endpoint path params =
     bindw (rg_get rg (endpoint @ ''/'' @ path) params) (\<lambda>(status, json).
       pure (if status \<noteq> 200 then Inl RGWAdminAPIFailed else Inr json))"

text \<open>\<open>Bucket\<close>: the name, the number of objects and the size in kilobytes.\<close>

type_synonym bucket = "pyval \<times> pyval \<times> pyval"

record bucket_stats =
  bs_num_buckets :: nat
  bs_buckets :: "bucket list"
  bs_size :: pyval
  bs_num_objects :: pyval

definition dict_values_of :: "pyval \<Rightarrow> pyval list res" where
  "dict_values_of v = (case v of PDict d \<Rightarrow> Inr (map snd d) | _ \<Rightarrow> Inl (AttributeError ''values''))"

fun add_usages :: "pyval \<Rightarrow> pyval list \<Rightarrow> bucket_stats \<Rightarrow> bucket_stats res" where
  "add_usages it [] st = Inr st"
| "add_usages it (v # vs) st =
     bindr (py_getitem v (PStr ''num_objects'')) (\<lambda>n.
     bindr (py_add (bs_num_objects st) n) (\<lambda>total.
     bindr (py_getitem v (PStr ''size_kb'')) (\<lambda>kb.
     bindr (py_add (bs_size st) kb) (\<lambda>size.
     bindr (py_getitem it (PStr ''bucket'')) (\<lambda>name.
       add_usages it vs (st\<lparr>bs_num_objects := total, bs_size := size, bs_buckets := bs_buckets st @ [(name, n, kb)]\<rparr>))))))"

fun add_buckets :: "pyval list \<Rightarrow> bucket_stats \<Rightarrow> bucket_stats res" where
  "add_buckets [] st = Inr st"
| "add_buckets (it # its) st =
     bindr (py_getitem it (PStr ''usage'')) (\<lambda>u. bindr (dict_values_of u) (\<lambda>vs.
     bindr (add_usages it vs st) (add_buckets its)))"

definition bucket_stats_of :: "pyval \<Rightarrow> bucket_stats res" where
  "bucket_stats_of json =
     bindr (py_len json) (\<lambda>n. bindr (py_iter json) (\<lambda>its.
       add_buckets its \<lparr>bs_num_buckets = n, bs_buckets = [], bs_size = PInt 0, bs_num_objects = PInt 0\<rparr>))"

fun sum_usage :: "pyval list \<Rightarrow> pyval \<Rightarrow> pyval res" where
  "sum_usage [] acc = Inr acc"
| "sum_usage (it # its) acc = bindr (dig it [''total'', ''ops'']) (\<lambda>n. bindr (py_add acc n) (sum_usage its))"

datatype rgw_info = Buckets bucket_stats | Usage pyval

definition get_bucket :: "'w rgw \<Rightarrow> string \<Rightarrow> string \<Rightarrow> ('w, rgw_info) svc" where
  "get_bucket rg endpoint tenant =
     bindw (make_request rg endpoint ''bucket'' [(''uid'', PStr tenant), (''stats'', PStr ''true'')]) (\<lambda>json.
       pure (bindr (bucket_stats_of json) (\<lambda>b. Inr (Buckets b))))"

definition get_usage :: "'w rgw \<Rightarrow> string \<Rightarrow> string \<Rightarrow> ('w, rgw_info) svc" where
  "get_usage rg endpoint tenant =
     bindw (make_request rg endpoint ''usage'' [(''uid'', PStr tenant)]) (\<lambda>json.
       pure (bindr (py_getitem json (PStr ''summary'')) (\<lambda>s. bindr (py_iter s) (\<lambda>its.
             bindr (sum_usage its (PInt 0)) (\<lambda>n. Inr (Usage n))))))"


fun rgw_accounts :: "'w rgw \<Rightarrow> string \<Rightarrow> string \<Rightarrow> string list \<Rightarrow> ('w, rgw_info accounts) svc" where
  "rgw_accounts rg meth endpoint [] = pure (Inr [])"
| "rgw_accounts rg meth endpoint (t # ts) =
     bindw (if meth = ''bucket'' then get_bucket rg endpoint t else get_usage rg endpoint t) (\<lambda>i.
     bindw (rgw_accounts rg meth endpoint ts) (\<lambda>as. pure (Inr ((t, i) # as))))"

text \<open>Without the client's library the pollster is switched off for its resources.\<close>

definition rgw_account_info :: "'w rgw \<Rightarrow> string \<Rightarrow> string list \<Rightarrow> ('w, rgw_info) store_state \<Rightarrow> ('w, rgw_info) store_state \<times> rgw_info accounts res" where
  "rgw_account_info rg meth tenants st =
     (case (if rg_service_type rg = [] then (st, Inr (st_endpoint st)) else find_endpoint (rg_url_for rg) admin_url st) of
        (st1, Inl e) \<Rightarrow> (st1, Inl e)
      | (st1, Inr None) \<Rightarrow> (st1, Inr [])
      | (st1, Inr (Some endpoint)) \<Rightarrow>
          if endpoint = [] then (st1, Inr [])
          else (case rg_client rg of Inl e \<Rightarrow> (st1, Inl e) | Inr _ \<Rightarrow> on_world (rgw_accounts rg meth endpoint tenants) st1))"

datatype rgw_pollster = Container_objects | Container_size | Objects_size | Objects | Objects_containers | Api_usage

definition rgw_method :: "rgw_pollster \<Rightarrow> string" where
  "rgw_method p = (if p = Api_usage then ''usage'' else ''bucket'')"

definition times_1024 :: "pyval \<Rightarrow> pyval res" where
  "times_1024 v = bindr (py_mul v (PInt 1024)) (\<lambda>x. bindr (py_int x) (\<lambda>i. Inr (PInt i)))"

definition as_integer :: "pyval \<Rightarrow> pyval res" where
  "as_integer v = bindr (py_int v) (\<lambda>i. Inr (PInt i))"

definition rgw_tenant_sample :: "string \<Rightarrow> string \<Rightarrow> string \<Rightarrow> pyval res \<Rightarrow> store_sample gen" where
  "rgw_tenant_sample tenant name unit volume = gen_one (bindr volume (\<lambda>v. Inr (tenant_sample name unit v tenant tenant)))"

definition rgw_bucket_samples :: "string \<Rightarrow> string \<Rightarrow> string \<Rightarrow> (bucket \<Rightarrow> pyval res) \<Rightarrow> bucket list \<Rightarrow> store_sample gen" where
  "rgw_bucket_samples tenant name unit volume =
     gen_bind (\<lambda>b. gen_one (bindr (volume b) (\<lambda>v. bindr (joined_id tenant (fst b)) (\<lambda>rid. Inr (tenant_sample name unit v tenant rid)))))"

definition rgw_item :: "rgw_pollster \<Rightarrow> string \<times> rgw_info \<Rightarrow> store_sample gen" where
  "rgw_item p = (\<lambda>(tenant, info).
     (case (p, info) of
        (Container_objects, Buckets b) \<Rightarrow>
          rgw_bucket_samples tenant ''radosgw.containers.objects'' ''object'' (\<lambda>(n, objects, kb). as_integer objects) (bs_buckets b)
      | (Container_size, Buckets b) \<Rightarrow>
          rgw_bucket_samples tenant ''radosgw.containers.objects.size'' ''B'' (\<lambda>(n, objects, kb). times_1024 kb) (bs_buckets b)
      | (Objects_size, Buckets b) \<Rightarrow> rgw_tenant_sample tenant ''radosgw.objects.size'' ''B'' (times_1024 (bs_size b))
      | (Objects, Buckets b) \<Rightarrow> rgw_tenant_sample tenant ''radosgw.objects'' ''object'' (as_integer (bs_num_objects b))
      | (Objects_containers, Buckets b) \<Rightarrow>
          rgw_tenant_sample tenant ''radosgw.objects.containers'' ''object'' (Inr (PInt (int (bs_num_buckets b))))
      | (Api_usage, Usage n) \<Rightarrow> rgw_tenant_sample tenant ''radosgw.api.request'' ''request'' (as_integer n)
      | _ \<Rightarrow> ([], Inl TypeError)))"

definition rgw_get_samples :: "'w rgw \<Rightarrow> rgw_pollster \<Rightarrow> string list \<Rightarrow> ('w, rgw_info) store_state \<Rightarrow> ('w, rgw_info) store_state \<times> store_sample gen" where
  "rgw_get_samples rg p tenants st =
     (case iter_accounts (''rgw.get_'' @ rgw_method p) (rgw_account_info rg (rgw_method p) tenants) st of
        (st1, Inl e) \<Rightarrow> (st1, [], Inl e)
      | (st1, Inr as) \<Rightarrow> (st1, gen_bind (rgw_item p) as))"

section \<open>Images and volumes\<close>

definition attributes :: "string list \<Rightarrow> pymap \<Rightarrow> pymap res" where
  "attributes fs obj = bindr (mapr (\<lambda>k. bindr (py_getattr obj k) (\<lambda>v. Inr (k, v))) fs) (\<lambda>kvs. Inr (dict_update [] kvs))"

definition image_fields :: "string list" where
  "image_fields = [''status'', ''visibility'', ''name'', ''container_format'', ''created_at'', ''disk_format'', ''updated_at'', ''min_disk'',
     ''protected'', ''checksum'', ''min_ram'', ''tags'', ''virtual_size'']"

definition object_sample :: "string \<Rightarrow> string \<Rightarrow> pyval res \<Rightarrow> pyval res \<Rightarrow> string list \<Rightarrow> pymap \<Rightarrow> store_sample gen" where
  "object_sample name unit user project fs obj =
     gen_one (bindr (py_getattr obj ''size'') (\<lambda>v. bindr user (\<lambda>u. bindr project (\<lambda>p. bindr (py_getattr obj ''id'') (\<lambda>i.
       bindr (attributes fs obj) (\<lambda>md. Inr \<lparr>ss_name = name, ss_unit = unit, ss_volume = v, ss_user = u, ss_project = p, ss_resource = i, ss_metadata = Some md\<rparr>))))))"

definition image_get_samples :: "pymap list \<Rightarrow> store_sample gen" where
  "image_get_samples = gen_bind (\<lambda>i. object_sample ''image.size'' ''B'' (Inr PNone) (py_getattr i ''owner'') image_fields i)"

definition volume_fields :: "string list" where
  "volume_fields = [''name'', ''status'', ''volume_type'', ''os-vol-host-attr:host'', ''migration_status'', ''attachments'', ''snapshot_id'', ''source_volid'']"

definition volume_get_samples :: "pymap list \<Rightarrow> store_sample gen" where
  "volume_get_samples =
     gen_bind (\<lambda>v. object_sample ''volume.size'' ''GB'' (py_getattr v ''user_id'') (py_getattr v ''os-vol-tenant-attr:tenant_id'') volume_fields v)"

definition snapshot_fields :: "string list" where
  "snapshot_fields = [''name'', ''volume_id'', ''status'', ''description'', ''metadata'', ''os-extended-snapshot-attributes:progress'']"

definition snapshot_get_samples :: "pymap list \<Rightarrow> store_sample gen" where
  "snapshot_get_samples =
     gen_bind (\<lambda>s. object_sample ''volume.snapshot.size'' ''GB'' (Inr PNone) (py_getattr s ''os-extended-snapshot-attributes:project_id'') snapshot_fields s)"

definition backup_fields :: "string list" where
  "backup_fields = [''name'', ''object_count'', ''container'', ''volume_id'', ''status'', ''description'']"

definition backup_get_samples :: "pymap list \<Rightarrow> store_sample gen" where
  "backup_get_samples =
     gen_bind (\<lambda>b. object_sample ''volume.backup.size'' ''GB'' (Inr PNone)
       (Inr (dict_get_default b ''os-backup-project-attr:project_id'' PNone)) backup_fields b)"

text \<open>Listings are for all tenants; the region may be that of shared services.\<close>

definition get_region_name :: "string option \<Rightarrow> string option \<Rightarrow> string list \<Rightarrow> string \<Rightarrow> string option" where
  "get_region_name reg shared shared_types stype =
     (case shared of None \<Rightarrow> reg | Some s \<Rightarrow> if s \<noteq> [] \<and> stype \<in> set shared_types then Some s else reg)"

definition volume_discover :: "(pymap \<Rightarrow> ('w, pymap list) svc) \<Rightarrow> ('w, pymap list) svc" where
  "volume_discover client_list = client_list [(''all_tenants'', PBool True)]"

section \<open>Samples in notifications\<close>

text \<open>\<open>TelemetryIpc\<close>: samples that came through the API or from polling agents.\<close>

definition telemetry_sample :: "string \<Rightarrow> string \<Rightarrow> (pyval \<Rightarrow> string) \<Rightarrow> pyval \<Rightarrow> sample res" where
  "telemetry_sample source_default uuid rp d =
     bindr (mapr (\<lambda>k. py_getitem d (PStr k))
       [''counter_name'', ''counter_type'', ''counter_unit'', ''counter_volume'', ''user_id'', ''project_id'', ''resource_id'', ''timestamp'',
        ''resource_metadata'', ''source'', ''message_id'']) (\<lambda>vs.
       (case vs of
          [name, type, unit, volume, user, project, rid, ts, md, src, mid] \<Rightarrow>
            Inr (new_sample source_default uuid (text_of rp name) (text_of rp type) (text_of rp unit) volume (optional_text rp user)
                   (optional_text rp project) (text_of rp rid) (optional_text rp ts) (case md of PDict m \<Rightarrow> m | _ \<Rightarrow> [])
                   (optional_text rp src) (optional_text rp mid) PNone)
        | _ \<Rightarrow> Inl TypeError))"

definition telemetry_samples :: "string \<Rightarrow> string \<Rightarrow> (pyval \<Rightarrow> string) \<Rightarrow> pymap \<Rightarrow> sample gen" where
  "telemetry_samples source_default uuid rp message =
     (case bindr (dig (PDict message) [''payload'', ''samples'']) py_iter of
        Inl e \<Rightarrow> ([], Inl e)
      | Inr ds \<Rightarrow> gen_bind (\<lambda>d. gen_one (telemetry_sample source_default uuid rp d)) ds)"

text \<open>\<open>HTTPRequest\<close>: one sample of volume 1, named by the type of the event.\<close>

definition http_sample :: "string \<Rightarrow> string \<Rightarrow> (string \<Rightarrow> string res) \<Rightarrow> (pyval \<Rightarrow> string) \<Rightarrow> pymap \<Rightarrow> sample res" where
  "http_sample source_default uuid isoform rp message =
     bindr (dict_item message ''event_type'') (\<lambda>ev.
     (case ev of
        PStr name \<Rightarrow>
          bindr (list_index (split_char CHR ''.'' name) 1) (\<lambda>unit.
          bindr (dig (PDict message) [''payload'', ''request'']) (\<lambda>req.
          bindr (py_get req ''HTTP_X_USER_ID'' PNone) (\<lambda>user.
          bindr (py_get req ''HTTP_X_PROJECT_ID'' PNone) (\<lambda>project.
          bindr (py_get req ''HTTP_X_SERVICE_NAME'' PNone) (\<lambda>rid.
            from_notification source_default uuid isoform name TYPE_DELTA (PInt 1) unit (optional_text rp user) (optional_text rp project)
              (text_of rp rid) message PNone [] None)))))
      | _ \<Rightarrow> Inl (AttributeError ''split'')))"

section \<open>The accounts of a cycle\<close>

lemma accounts_kept:
  assumes "iter_accounts key info st = (st1, Inr as)"
  shows "iter_accounts key info' st1 = (st1, Inr as)"
  using assms by (auto simp: iter_accounts_def dict_get_set split: option.splits prod.splits sum.splits)

text \<open>A pollster of the same method asks nobody: it sees the accounts of the first, for its tenants.\<close>

lemma swift_accounts_read_once:
  assumes "iter_accounts (''swift.'' @ wp_method p @ ''_account'') (swift_account_info sw (wp_method p) tenants) st = (st1, Inr as)"
    and "wp_method q = wp_method p"
  shows "swift_get_samples sw p tenants st = (st1, gen_bind (swift_item p) as)"
    and "swift_get_samples sw q tenants' st1 = (st1, gen_bind (swift_item q) as)"
  using assms accounts_kept [OF assms(1)] by (simp_all add: swift_get_samples_def)

section \<open>Totals of the gateway\<close>

definition int_value :: "pyval \<Rightarrow> int" where
  "int_value v = (case v of PInt i \<Rightarrow> i | _ \<Rightarrow> 0)"

definition counted :: "bucket \<Rightarrow> bool" where
  "counted b \<longleftrightarrow> (\<exists>n objects kb. b = (PStr n, PInt objects, PInt kb))"

definition totals_ok :: "bucket_stats \<Rightarrow> bool" where
  "totals_ok st \<longleftrightarrow> (list_all counted (bs_buckets st) \<longrightarrow>
     bs_num_objects st = PInt (\<Sum>b\<leftarrow>bs_buckets st. int_value (fst (snd b))) \<and>
     bs_size st = PInt (\<Sum>b\<leftarrow>bs_buckets st. int_value (snd (snd b))))"

lemma add_ints: "py_add (PInt a) (PInt b) = Inr (PInt (a + b))"
  by (simp add: py_add_def arith_def)

lemma add_usages_totals: "add_usages it vs st = Inr st' \<Longrightarrow> totals_ok st \<Longrightarrow> totals_ok st'"
proof (induction vs arbitrary: st)
  case (Cons v vs)
  obtain n total kb size name where s: "py_add (bs_num_objects st) n = Inr total" "py_add (bs_size st) kb = Inr size"
    "add_usages it vs (st\<lparr>bs_num_objects := total, bs_size := size, bs_buckets := bs_buckets st @ [(name, n, kb)]\<rparr>) = Inr st'"
    using Cons.prems(1) by (auto simp: bindr_Inr_iff)
  have "totals_ok (st\<lparr>bs_num_objects := total, bs_size := size, bs_buckets := bs_buckets st @ [(name, n, kb)]\<rparr>)"
    using Cons.prems(2) s(1,2) by (auto simp: totals_ok_def counted_def int_value_def add_ints)
  then show ?case by (rule Cons.IH [OF s(3)])
qed simp

lemma add_buckets_totals: "add_buckets its st = Inr st' \<Longrightarrow> totals_ok st \<Longrightarrow> totals_ok st'"
  by (induction its arbitrary: st) (auto simp: bindr_Inr_iff dest: add_usages_totals)

lemma bucket_totals: "bucket_stats_of json = Inr b \<Longrightarrow> totals_ok b"
  by (auto simp: bucket_stats_of_def bindr_Inr_iff totals_ok_def dest!: add_buckets_totals)

definition volumes :: "store_sample gen \<Rightarrow> int list" where
  "volumes g = map (\<lambda>s. int_value (ss_volume s)) (fst g)"

lemma bucket_samples_volumes:
  assumes "\<And>n objects kb. (PStr n, PInt objects, PInt kb) \<in> set bs \<Longrightarrow> vol (PStr n, PInt objects, PInt kb) = Inr (PInt (f objects kb))"
    and "list_all counted bs"
  shows "volumes (rgw_bucket_samples tenant name unit vol bs) = map (\<lambda>b. f (int_value (fst (snd b))) (int_value (snd (snd b)))) bs \<and>
    snd (rgw_bucket_samples tenant name unit vol bs) = Inr ()"
  using assms
proof (induction bs)
  case (Cons b bs)
  obtain n objects kb where b: "b = (PStr n, PInt objects, PInt kb)" using Cons.prems(2) by (auto simp: counted_def)
  have "vol b = Inr (PInt (f objects kb))" using Cons.prems(1) by (simp add: b)
  moreover have "volumes (rgw_bucket_samples tenant name unit vol bs) = map (\<lambda>b. f (int_value (fst (snd b))) (int_value (snd (snd b)))) bs \<and>
    snd (rgw_bucket_samples tenant name unit vol bs) = Inr ()"
    using Cons.IH Cons.prems by simp
  ultimately show ?case
    by (auto simp: rgw_bucket_samples_def b gen_one_def joined_id_def volumes_def tenant_sample_def int_value_def case_prod_beta)
qed (simp add: rgw_bucket_samples_def volumes_def)

text \<open>
  What the RADOS gateway's pollsters say of a tenant agrees with what they say of its containers:
  the number of objects and the size in bytes are the sums of those of the containers.
\<close>

lemma rgw_totals_agree:
  assumes "bucket_stats_of json = Inr b" and "list_all counted (bs_buckets b)"
  shows "volumes (rgw_item Objects (tenant, Buckets b)) = [sum_list (volumes (rgw_item Container_objects (tenant, Buckets b)))]"
    and "volumes (rgw_item Objects_size (tenant, Buckets b)) = [sum_list (volumes (rgw_item Container_size (tenant, Buckets b)))]"
proof -
  have t: "bs_num_objects b = PInt (\<Sum>b\<leftarrow>bs_buckets b. int_value (fst (snd b)))" "bs_size b = PInt (\<Sum>b\<leftarrow>bs_buckets b. int_value (snd (snd b)))"
    using bucket_totals [OF assms(1)] assms(2) by (simp_all add: totals_ok_def)
  have k: "times_1024 (PInt i) = Inr (PInt (i * 1024))" for i by (simp add: times_1024_def py_mul_def arith_def)
  have "volumes (rgw_item Container_objects (tenant, Buckets b)) = map (\<lambda>b. int_value (fst (snd b))) (bs_buckets b)"
    unfolding rgw_item_def using bucket_samples_volumes [OF _ assms(2), where f = "\<lambda>objects kb. objects"] by (simp add: as_integer_def)
  moreover have "volumes (rgw_item Container_size (tenant, Buckets b)) = map (\<lambda>b. int_value (snd (snd b)) * 1024) (bs_buckets b)"
    unfolding rgw_item_def using bucket_samples_volumes [OF _ assms(2), where f = "\<lambda>objects kb. kb * 1024"] by (simp add: k)
  ultimately show "volumes (rgw_item Objects (tenant, Buckets b)) = [sum_list (volumes (rgw_item Container_objects (tenant, Buckets b)))]"
    and "volumes (rgw_item Objects_size (tenant, Buckets b)) = [sum_list (volumes (rgw_item Container_size (tenant, Buckets b)))]"
    by (simp_all add: rgw_item_def rgw_tenant_sample_def gen_one_def t as_integer_def k volumes_def tenant_sample_def int_value_def sum_list_mult_const)
qed

definition demo_usage :: "string \<Rightarrow> int \<Rightarrow> int \<Rightarrow> string \<times> pyval" where
  "demo_usage c objects kb = (c, PDict [(''num_objects'', PInt objects), (''size_kb'', PInt kb)])"

definition demo_buckets :: pyval where
  "demo_buckets =
     PList [PDict [(''bucket'', PStr ''a''), (''usage'', PDict [demo_usage ''rgw.main'' 3 40, demo_usage ''rgw.multimeta'' 1 0])],
            PDict [(''bucket'', PStr ''b''), (''usage'', PDict [demo_usage ''rgw.main'' 5 2])]]"

definition demo_bucket_stats :: bucket_stats where
  "demo_bucket_stats =
     \<lparr>bs_num_buckets = 2, bs_buckets = [(PStr ''a'', PInt 3, PInt 40), (PStr ''a'', PInt 1, PInt 0), (PStr ''b'', PInt 5, PInt 2)],
      bs_size = PInt 42, bs_num_objects = PInt 9\<rparr>"

lemma demo_buckets_read: "bucket_stats_of demo_buckets = Inr demo_bucket_stats"
  by code_simp

theorem rgw_totals_agree_witness:
  "volumes (rgw_item Objects (''t'', Buckets demo_bucket_stats)) = [9] \<and>
   volumes (rgw_item Objects_size (''t'', Buckets demo_bucket_stats)) = [43008]"
proof -
  have "list_all counted (bs_buckets demo_bucket_stats)" by (simp add: demo_bucket_stats_def counted_def)
  moreover have "volumes (rgw_item Container_objects (''t'', Buckets demo_bucket_stats)) = [3, 1, 5]"
    "volumes (rgw_item Container_size (''t'', Buckets demo_bucket_stats)) = [40960, 0, 2048]" by code_simp+
  ultimately show ?thesis
    using rgw_totals_agree [OF demo_buckets_read, of "''t''"] by simp
qed

text \<open>A bucket with two categories of usage has two samples with the same resource.\<close>

lemma bucket_sampled_twice:
  "map (\<lambda>s. (ss_resource s, ss_volume s)) (fst (rgw_item Container_objects (''t'', Buckets demo_bucket_stats))) =
     [(PStr ''t/a'', PInt 3), (PStr ''t/a'', PInt 1), (PStr ''t/b'', PInt 5)]"
  by code_simp

end
