(* ===== verification/Gnocchi_Upgrade.thy ===== *)
theory Gnocchi_Upgrade
  imports Service_Calls
begin

text \<open>
  The resource types of Gnocchi (\<^verbatim>\<open>ceilometer/gnocchi_client.py\<close>): an upgrade creates the types that are
  missing and runs the operations that changed them since. The client is a parameter.
\<close>

section \<open>Types\<close>

definition text_attribute :: "int \<Rightarrow> bool \<Rightarrow> pyval" where
  "text_attribute len required =
     PDict [(''type'', PStr ''string''), (''min_length'', PInt 0), (''max_length'', PInt len), (''required'', PBool required)]"

definition resources_initial :: "(string \<times> pymap) list" where
  "resources_initial =
     [(''image'', [(''name'', text_attribute 255 True), (''container_format'', text_attribute 255 True),
         (''disk_format'', text_attribute 255 True)]),
      (''instance'', [(''flavor_id'', text_attribute 255 True), (''image_ref'', text_attribute 255 False),
         (''host'', text_attribute 255 True), (''display_name'', text_attribute 255 True), (''server_group'', text_attribute 255 False)]),
      (''instance_disk'', [(''name'', text_attribute 255 True), (''instance_id'', PDict [(''type'', PStr ''uuid''),
         (''required'', PBool True)])]),
      (''instance_network_interface'', [(''name'', text_attribute 255 True), (''instance_id'', PDict [(''type'', PStr ''uuid''),
         (''required'', PBool True)])]),
      (''volume'', [(''display_name'', text_attribute 255 False)]),
      (''swift_account'', []),
      (''ceph_account'', []),
      (''network'', []),
      (''identity'', []),
      (''ipmi'', []),
      (''stack'', []),
      (''host'', [(''host_name'', text_attribute 255 True)]),
      (''host_network_interface'', [(''host_name'', text_attribute 255 True), (''device_name'', text_attribute 255 False)]),
      (''host_disk'', [(''host_name'', text_attribute 255 True), (''device_name'', text_attribute 255 False)])]"

text \<open>An operation changes one attribute of a type, or creates a type.\<close>

datatype gnocchi_op = Update_attribute string string string pyval | Create_type string pymap

definition resources_update_operations :: "gnocchi_op list" where
  "resources_update_operations =
     [Update_attribute ''volume'' ''add'' ''/attributes/volume_type'' (PDict [(''type'', PStr ''string''), (''min_length'', PInt 0),
         (''max_length'', PInt 255), (''required'', PBool False)]),
      Update_attribute ''instance'' ''add'' ''/attributes/flavor_name'' (PDict [(''type'', PStr ''string''), (''min_length'', PInt 0),
         (''max_length'', PInt 255), (''required'', PBool True), (''options'', PDict [(''fill'', PStr [])])]),
      Create_type ''nova_compute'' [(''host_name'', text_attribute 255 True)],
      Create_type ''manila_share'' [(''name'', text_attribute 255 False), (''host'', text_attribute 255 True),
         (''protocol'', text_attribute 255 False), (''availability_zone'', text_attribute 255 False),
         (''status'', text_attribute 255 True)],
      Create_type ''switch'' [(''controller'', text_attribute 255 True)],
      Create_type ''switch_port'' [(''switch'', text_attribute 64 True), (''port_number_on_switch'', PDict [(''type'', PStr ''number''),
         (''min'', PInt 0), (''max'', PInt 4294967295), (''required'', PBool False)]), (''neutron_port_id'', text_attribute 255 False),
         (''controller'', text_attribute 255 True)],
      Create_type ''port'' [(''controller'', text_attribute 255 True)],
      Create_type ''switch_table'' [(''switch'', text_attribute 64 True), (''controller'', text_attribute 255 True)]]"

section \<open>The upgrade\<close>

text \<open>Getting a type gives its attributes, or none when Gnocchi does not have it.\<close>

record 'w type_client =
  gt_get :: "string \<Rightarrow> ('w, pymap option) svc"
  gt_create :: "string \<Rightarrow> pymap \<Rightarrow> ('w, unit) svc"
  gt_update :: "string \<Rightarrow> string \<Rightarrow> string \<Rightarrow> pyval \<Rightarrow> ('w, unit) svc"

definition ResourceTypeNotFound :: pyexc where "ResourceTypeNotFound = OtherError ''ResourceTypeNotFound''"

definition ensure_type :: "'w type_client \<Rightarrow> string \<Rightarrow> pymap \<Rightarrow> ('w, unit) svc" where
  "ensure_type gt name attrs =
     bindw (gt_get gt name) (\<lambda>rt. if rt = None then gt_create gt name attrs else pure (Inr ()))"

definition changed_attribute :: "string \<Rightarrow> string" where
  "changed_attribute path = concat (split_str ''/attributes'' None path)"

fun run_operation :: "'w type_client \<Rightarrow> gnocchi_op \<Rightarrow> ('w, unit) svc" where
  "run_operation gt (Update_attribute rt oper path v) =
     bindw (gt_get gt rt) (\<lambda>found.
       (case found of
          None \<Rightarrow> pure (Inl ResourceTypeNotFound)
        | Some attrs \<Rightarrow>
            (let there = changed_attribute path \<in> set (dict_keys attrs)
             in if oper = ''add'' \<and> there \<or> oper = ''remove'' \<and> \<not> there then pure (Inr ()) else gt_update gt rt oper path v)))"
| "run_operation gt (Create_type rt attrs) = ensure_type gt rt attrs"

fun eachw :: "('a \<Rightarrow> ('w, unit) svc) \<Rightarrow> 'a list \<Rightarrow> ('w, unit) svc" where
  "eachw f [] = pure (Inr ())"
| "eachw f (x # xs) = bindw (f x) (\<lambda>_. eachw f xs)"

definition upgrade_resource_types :: "'w type_client \<Rightarrow> ('w, unit) svc" where
  "upgrade_resource_types gt =
     bindw (eachw (\<lambda>(name, attrs). ensure_type gt name attrs) resources_initial) (\<lambda>_.
     eachw (run_operation gt) resources_update_operations)"

section \<open>The types afterwards\<close>

text \<open>What Gnocchi documents of the calls, for the types as \<open>types\<close> gives them.\<close>

definition documented_types :: "'w type_client \<Rightarrow> ('w \<Rightarrow> string \<Rightarrow> pymap option) \<Rightarrow> bool" where
  "documented_types gt types \<longleftrightarrow>
     (\<forall>n w. \<exists>w1. gt_get gt n w = (w1, Inr (types w n)) \<and> types w1 = types w) \<and>
     (\<forall>n attrs w. types w n = None \<longrightarrow> (\<exists>w1. gt_create gt n attrs w = (w1, Inr ()) \<and> types w1 = (types w)(n \<mapsto> attrs))) \<and>
     (\<forall>n a v w attrs. types w n = Some attrs \<and> a \<notin> set (dict_keys attrs) \<longrightarrow>
        (\<exists>w1. gt_update gt n ''add'' (''/attributes/'' @ a) v w = (w1, Inr ()) \<and> types w1 = (types w)(n \<mapsto> dict_set a v attrs)))"

lemma ensure_type_effect:
  assumes "documented_types gt types"
  shows "\<exists>w1. ensure_type gt n attrs w = (w1, Inr ()) \<and> types w1 = [n \<mapsto> attrs] ++ types w"
proof -
  obtain w1 where w1: "gt_get gt n w = (w1, Inr (types w n))" "types w1 = types w" using assms unfolding documented_types_def by meson
  show ?thesis
  proof (cases "types w n")
    case None
    then obtain w2 where "gt_create gt n attrs w1 = (w2, Inr ())" "types w2 = (types w)(n \<mapsto> attrs)"
      using assms w1(2) unfolding documented_types_def by metis
    moreover have "(types w)(n \<mapsto> attrs) = [n \<mapsto> attrs] ++ types w" using None by (auto simp: map_add_def split: option.splits)
    ultimately show ?thesis using w1 None by (simp add: ensure_type_def bindw_def)
  next
    case (Some a)
    then have "types w = [n \<mapsto> attrs] ++ types w" by (auto simp: map_add_def split: option.splits)
    then show ?thesis using w1 Some by (auto simp: ensure_type_def bindw_def pure_def)
  qed
qed

lemma ensure_types_effect:
  assumes "documented_types gt types"
  shows "\<exists>w1. eachw (\<lambda>(name, attrs). ensure_type gt name attrs) L w = (w1, Inr ()) \<and> types w1 = map_of L ++ types w"
proof (induction L arbitrary: w)
  case Nil
  then show ?case by (simp add: pure_def)
next
  case (Cons x L)
  obtain n attrs where x: "x = (n, attrs)" by (cases x)
  obtain w1 where w1: "ensure_type gt n attrs w = (w1, Inr ())" "types w1 = [n \<mapsto> attrs] ++ types w"
    using ensure_type_effect [OF assms] by blast
  obtain w2 where w2: "eachw (\<lambda>(name, attrs). ensure_type gt name attrs) L w1 = (w2, Inr ())" "types w2 = map_of L ++ types w1"
    using Cons.IH by blast
  have "types w2 = map_of (x # L) ++ types w" by (auto simp: w2(2) w1(2) x map_add_def split: option.splits)
  then show ?case using w1(1) w2(1) by (simp add: x bindw_def fun_upd_def)
qed

lemma add_attribute_effect:
  assumes "documented_types gt types" and "types w n = Some attrs" and "changed_attribute (''/attributes/'' @ a) \<notin> set (dict_keys attrs)"
    and "a \<notin> set (dict_keys attrs)"
  shows "\<exists>w1. run_operation gt (Update_attribute n ''add'' (''/attributes/'' @ a) v) w = (w1, Inr ()) \<and>
    types w1 = (types w)(n \<mapsto> dict_set a v attrs)"
proof -
  obtain w1 where w1: "gt_get gt n w = (w1, Inr (types w n))" "types w1 = types w" using assms(1) unfolding documented_types_def by meson
  obtain w2 where "gt_update gt n ''add'' (''/attributes/'' @ a) v w1 = (w2, Inr ())" "types w2 = (types w)(n \<mapsto> dict_set a v attrs)"
    using assms(1,2,4) w1(2) unfolding documented_types_def by metis
  then show ?thesis using w1 assms(2,3) by (simp add: bindw_def Let_def)
qed

text \<open>
  The text that is looked for keeps the slash of the path, so an attribute that is there is not
  recognised and the change is sent again.
\<close>

lemma attribute_not_recognised:
  "changed_attribute ''/attributes/volume_type'' = ''/volume_type''" "changed_attribute ''/attributes/flavor_name'' = ''/flavor_name''"
  by code_simp+

definition created_types :: "(string \<times> pymap) list" where
  "created_types = List.map_filter (\<lambda>x. case x of Create_type n attrs \<Rightarrow> Some (n, attrs) | _ \<Rightarrow> None) resources_update_operations"

definition added_attributes :: "(string \<times> string \<times> pyval) list" where
  "added_attributes =
     List.map_filter (\<lambda>x. case x of Update_attribute n oper path v \<Rightarrow> Some (n, drop (length ''/attributes/'') path, v) | _ \<Rightarrow> None)
       resources_update_operations"

lemma operations_split:
  "resources_update_operations =
     map (\<lambda>(n, a, v). Update_attribute n ''add'' (''/attributes/'' @ a) v) added_attributes @ map (\<lambda>(n, attrs). Create_type n attrs) created_types"
  by (simp add: created_types_def added_attributes_def resources_update_operations_def List.map_filter_simps)

lemma eachw_append: "eachw f (xs @ ys) = bindw (eachw f xs) (\<lambda>_. eachw f ys)"
  by (induction xs) (auto simp: bindw_def pure_def fun_eq_iff split: prod.splits sum.splits)

lemma eachw_creates: "eachw (run_operation gt) (map (\<lambda>(n, attrs). Create_type n attrs) L) = eachw (\<lambda>(n, attrs). ensure_type gt n attrs) L"
  by (induction L) auto

definition lacks :: "string \<Rightarrow> pymap \<Rightarrow> bool" where
  "lacks a attrs \<longleftrightarrow> a \<notin> set (dict_keys attrs) \<and> changed_attribute (''/attributes/'' @ a) \<notin> set (dict_keys attrs)"

lemma add_attributes_effect:
  assumes doc: "documented_types gt types" and "distinct (map fst L)"
    and "\<And>n a v. (n, a, v) \<in> set L \<Longrightarrow> \<exists>attrs. types w n = Some attrs \<and> lacks a attrs"
  shows "\<exists>w1. eachw (run_operation gt) (map (\<lambda>(n, a, v). Update_attribute n ''add'' (''/attributes/'' @ a) v) L) w = (w1, Inr ()) \<and>
    (\<forall>(n, a, v)\<in>set L. \<exists>attrs. types w1 n = Some (dict_set a v attrs) \<and> types w n = Some attrs) \<and>
    (\<forall>n. n \<notin> fst ` set L \<longrightarrow> types w1 n = types w n)"
  using assms(2,3)
proof (induction L arbitrary: w)
  case Nil
  then show ?case by (simp add: pure_def)
next
  case (Cons x L)
  obtain n a v where x: "x = (n, a, v)" by (cases x)
  obtain attrs where attrs: "types w n = Some attrs" "lacks a attrs" using Cons.prems(2) [of n a v] by (auto simp: x)
  obtain w1 where w1: "run_operation gt (Update_attribute n ''add'' (''/attributes/'' @ a) v) w = (w1, Inr ())"
    "types w1 = (types w)(n \<mapsto> dict_set a v attrs)"
    using add_attribute_effect [OF doc attrs(1)] attrs(2) unfolding lacks_def by blast
  have other: "m \<noteq> n" if "(m, b) \<in> set L" for m b using Cons.prems(1) that by (force simp: x)
  have "\<exists>attrs. types w1 m = Some attrs \<and> lacks b attrs" if "(m, b, u) \<in> set L" for m b u
    using Cons.prems(2) [of m b u] other [OF that] that by (simp add: w1(2))
  then obtain w2 where w2: "eachw (run_operation gt) (map (\<lambda>(n, a, v). Update_attribute n ''add'' (''/attributes/'' @ a) v) L) w1 = (w2, Inr ())"
    "\<forall>(n, a, v)\<in>set L. \<exists>attrs. types w2 n = Some (dict_set a v attrs) \<and> types w1 n = Some attrs"
    "\<forall>n. n \<notin> fst ` set L \<longrightarrow> types w2 n = types w1 n"
    using Cons.IH [of w1] Cons.prems(1) by auto
  have "n \<notin> fst ` set L" using other by force
  then have "types w2 n = Some (dict_set a v attrs)" using w2(3) w1(2) by simp
  moreover have "\<exists>attrs. types w2 m = Some (dict_set b u attrs) \<and> types w m = Some attrs" if "(m, b, u) \<in> set L" for m b u
    using w2(2) that other [OF that] by (fastforce simp: w1(2))
  ultimately show ?case using w1 w2(1,3) attrs(1) by (intro exI [of _ w2]) (auto simp: x bindw_def simp del: run_operation.simps)
qed

lemma added_cases:
  assumes "(n, a, v) \<in> set added_attributes"
  obtains "n = ''volume''" "a = ''volume_type''" | "n = ''instance''" "a = ''flavor_name''"
proof -
  have "map (\<lambda>(n, a, v). (n, a)) added_attributes = [(''volume'', ''volume_type''), (''instance'', ''flavor_name'')]" by code_simp
  moreover have "(n, a) \<in> set (map (\<lambda>(n, a, v). (n, a)) added_attributes)" using assms by force
  ultimately show ?thesis using that by auto
qed

lemma initial_lacks:
  "\<exists>attrs. map_of resources_initial ''volume'' = Some attrs \<and> lacks ''volume_type'' attrs"
  "\<exists>attrs. map_of resources_initial ''instance'' = Some attrs \<and> lacks ''flavor_name'' attrs"
proof -
  have "lacks ''volume_type'' [(''display_name'', text_attribute 255 False)]"
    "lacks ''flavor_name'' [(''flavor_id'', v1), (''image_ref'', v2), (''host'', v3), (''display_name'', v4), (''server_group'', v5)]" for v1 v2 v3 v4 v5
    by (simp_all add: lacks_def attribute_not_recognised)
  then show "\<exists>attrs. map_of resources_initial ''volume'' = Some attrs \<and> lacks ''volume_type'' attrs"
    "\<exists>attrs. map_of resources_initial ''instance'' = Some attrs \<and> lacks ''flavor_name'' attrs"
    by (simp_all add: resources_initial_def)
qed

text \<open>
  C40: An upgrade of Gnocchi that did not get the new attributes yet ends with every resource type of the
  program, adds the attributes to their types, and leaves the other types that were there as they
  were.
\<close>

theorem gnocchi_types_complete:
  assumes "documented_types gt types"
    and "\<And>n a v attrs. (n, a, v) \<in> set added_attributes \<Longrightarrow> types w n = Some attrs \<Longrightarrow> lacks a attrs"
  shows "\<exists>w1. upgrade_resource_types gt w = (w1, Inr ()) \<and>
    (\<forall>n. n \<in> fst ` set (resources_initial @ created_types) \<longrightarrow> types w1 n \<noteq> None) \<and>
    (\<forall>(n, a, v)\<in>set added_attributes. \<exists>attrs. types w1 n = Some (dict_set a v attrs)) \<and>
    (\<forall>n attrs. types w n = Some attrs \<and> n \<notin> fst ` set added_attributes \<longrightarrow> types w1 n = Some attrs)"
proof -
  obtain w1 where w1: "eachw (\<lambda>(name, attrs). ensure_type gt name attrs) resources_initial w = (w1, Inr ())"
    "types w1 = map_of resources_initial ++ types w" using ensure_types_effect [OF assms(1)] by blast
  have fresh: "\<exists>attrs. map_of resources_initial n = Some attrs \<and> lacks a attrs" if "(n, a, v) \<in> set added_attributes" for n a v
    using that by (cases rule: added_cases) (simp_all only: initial_lacks)
  have "\<exists>attrs. types w1 n = Some attrs \<and> lacks a attrs" if "(n, a, v) \<in> set added_attributes" for n a v
    using assms(2) [OF that] fresh [OF that] by (cases "types w n") (auto simp: w1(2) map_add_def)
  moreover have "distinct (map fst added_attributes)"
    by (simp add: added_attributes_def resources_update_operations_def List.map_filter_simps)
  ultimately obtain w2 where w2:
    "eachw (run_operation gt) (map (\<lambda>(n, a, v). Update_attribute n ''add'' (''/attributes/'' @ a) v) added_attributes) w1 = (w2, Inr ())"
    "\<forall>(n, a, v)\<in>set added_attributes. \<exists>attrs. types w2 n = Some (dict_set a v attrs) \<and> types w1 n = Some attrs"
    "\<forall>n. n \<notin> fst ` set added_attributes \<longrightarrow> types w2 n = types w1 n"
    using add_attributes_effect [OF assms(1), of added_attributes w1] by blast
  obtain w3 where w3: "eachw (\<lambda>(name, attrs). ensure_type gt name attrs) created_types w2 = (w3, Inr ())"
    "types w3 = map_of created_types ++ types w2" using ensure_types_effect [OF assms(1)] by blast
  have "upgrade_resource_types gt w = (w3, Inr ())"
    using w1(1) w2(1) w3(1) by (simp add: upgrade_resource_types_def operations_split eachw_append eachw_creates bindw_def)
  moreover have keep: "types w3 n = types w2 n" if "types w2 n \<noteq> None" for n using that by (auto simp: w3(2) map_add_def split: option.splits)
  have there: "types w2 n \<noteq> None" if "types w1 n \<noteq> None" for n using that w2(2,3) by (cases "n \<in> fst ` set added_attributes") force+
  have initial: "types w1 n \<noteq> None" if "n \<in> fst ` set resources_initial" for n
    using that by (cases "types w n") (auto simp: w1(2) map_add_def map_of_eq_None_iff)
  have created: "types w3 n \<noteq> None" if "n \<in> fst ` set created_types" for n
    using that map_of_eq_None_iff [of created_types n] by (cases "types w2 n") (auto simp: w3(2) map_add_def)
  have all: "types w3 n \<noteq> None" if "n \<in> fst ` set (resources_initial @ created_types)" for n
  proof (cases "n \<in> fst ` set created_types")
    case False
    then have "types w2 n \<noteq> None" using that there [OF initial] by auto
    then show ?thesis using keep [of n] by simp
  qed (rule created)
  moreover have "\<exists>attrs. types w3 n = Some (dict_set a v attrs)" if "(n, a, v) \<in> set added_attributes" for n a v
    using w2(2) that keep [of n] by fastforce
  moreover have "types w3 n = Some attrs" if "types w n = Some attrs" "n \<notin> fst ` set added_attributes" for n attrs
  proof -
    have "types w2 n = Some attrs" using that w2(3) by (simp add: w1(2))
    then show ?thesis using keep [of n] by simp
  qed
  ultimately show ?thesis using all by (intro exI [of _ w3]) blast
qed

text \<open>The types as the world, for the witness.\<close>

definition demo_client :: "(string \<Rightarrow> pymap option) type_client" where
  "demo_client =
     \<lparr>gt_get = (\<lambda>n w. (w, Inr (w n))), gt_create = (\<lambda>n attrs w. (w(n \<mapsto> attrs), Inr ())),
      gt_update = (\<lambda>n oper path v w.
        (w(n := map_option (dict_set (drop (length ''/attributes/'') path) v) (w n)), Inr ()))\<rparr>"

lemma demo_client_documented: "documented_types demo_client (\<lambda>w. w)"
  by (auto simp: documented_types_def demo_client_def)

theorem gnocchi_types_complete_witness:
  "\<exists>w1. upgrade_resource_types demo_client [''volume'' \<mapsto> [(''display_name'', PNone)]] = (w1, Inr ()) \<and>
    (\<exists>attrs v. w1 ''volume'' = Some (dict_set ''volume_type'' v attrs)) \<and> w1 ''switch_port'' \<noteq> None"
proof -
  let ?w = "[''volume'' \<mapsto> [(''display_name'', PNone)]] :: string \<Rightarrow> pymap option"
  have "lacks a attrs" if "(n, a, v) \<in> set added_attributes" "?w n = Some attrs" for n a v attrs
    using that(1) that(2) by (cases rule: added_cases) (auto simp: lacks_def attribute_not_recognised)
  then obtain w1 where w1: "upgrade_resource_types demo_client ?w = (w1, Inr ())"
    "\<forall>n. n \<in> fst ` set (resources_initial @ created_types) \<longrightarrow> w1 n \<noteq> None"
    "\<forall>(n, a, v)\<in>set added_attributes. \<exists>attrs. w1 n = Some (dict_set a v attrs)"
    using gnocchi_types_complete [OF demo_client_documented, of ?w] by blast
  have "''switch_port'' \<in> set (map fst (resources_initial @ created_types))"
    "(''volume'', ''volume_type'') \<in> set (map (\<lambda>(n, a, v). (n, a)) added_attributes)" by code_simp+
  then have sp: "''switch_port'' \<in> fst ` set (resources_initial @ created_types)"
    and "\<exists>v. (''volume'', ''volume_type'', v) \<in> set added_attributes" by auto
  then obtain v where "(''volume'', ''volume_type'', v) \<in> set added_attributes" by blast
  then have "\<exists>attrs. w1 ''volume'' = Some (dict_set ''volume_type'' v attrs)" using w1(3) by blast
  moreover have "w1 ''switch_port'' \<noteq> None" using w1(2) sp by blast
  ultimately show ?thesis using w1(1) by blast
qed

end
