(* ===== verification/Other_Publishers.thy ===== *)
theory Other_Publishers
  imports Messaging_Publisher
begin

text \<open>
  The publishers to Kafka (\<^verbatim>\<open>ceilometer/publisher/kafka_broker.py\<close>) and Zaqar (\<^verbatim>\<open>zaqar.py\<close>) and the one that
  keeps what it gets (\<^verbatim>\<open>test.py\<close>). The clients, reading the host and the port, and writing JSON are
  parameters.
\<close>

section \<open>Kafka\<close>

record kafka_publisher =
  kp_publisher :: messaging_publisher
  kp_host :: string
  kp_port :: int
  kp_topic :: string

definition kafka_init :: "(string \<Rightarrow> int \<Rightarrow> (string \<times> int) res) \<Rightarrow> split_url \<Rightarrow> kafka_publisher res" where
  "kafka_init parse_host_port url =
     bindr (messaging_init url) (\<lambda>mp.
       (let options = parse_qs (u_query url)
        in bindr (parse_host_port (u_netloc url) 9092) (\<lambda>(host, port).
           bindr (opt_int options ''max_retry'' 100) (\<lambda>n.
             Inr \<lparr>kp_publisher = mp\<lparr>max_retry := n\<rparr>, kp_host = host, kp_port = port,
                  kp_topic = (case opt_last options ''topic'' of None \<Rightarrow> ''ceilometer'' | Some t \<Rightarrow> t)\<rparr>))))"

text \<open>Whether there is a producer, and the broker.\<close>

type_synonym 'w kafka_state = "bool \<times> 'w"

record 'w kafka_client =
  kc_connect :: "string \<Rightarrow> 'w \<Rightarrow> 'w \<times> unit res"
  kc_produce :: "string \<Rightarrow> string \<Rightarrow> 'w \<Rightarrow> 'w \<times> unit res"
  kc_dumps :: "pymap \<Rightarrow> string res"

definition ensure_connection :: "'w kafka_client \<Rightarrow> kafka_publisher \<Rightarrow> 'w kafka_state \<Rightarrow> 'w kafka_state \<times> unit res" where
  "ensure_connection kc kp = (\<lambda>(up, w).
     (if up then ((True, w), Inr ())
      else (case kc_connect kc (kp_host kp @ '':'' @ string_of_int (kp_port kp)) w of
              (w1, Inl e) \<Rightarrow> ((False, w1), Inl DeliveryFailure)
            | (w1, Inr _) \<Rightarrow> ((True, w1), Inr ()))))"

text \<open>Any exception of the loop is a failed delivery of all of the data.\<close>

fun produce_all :: "'w kafka_client \<Rightarrow> string \<Rightarrow> pymap list \<Rightarrow> 'w \<Rightarrow> 'w \<times> unit res" where
  "produce_all kc topic [] w = (w, Inr ())"
| "produce_all kc topic (d # ds) w =
     (case kc_dumps kc d of
        Inl e \<Rightarrow> (w, Inl DeliveryFailure)
      | Inr s \<Rightarrow>
          (case kc_produce kc topic s w of
             (w1, Inl e) \<Rightarrow> (w1, Inl DeliveryFailure)
           | (w1, Inr _) \<Rightarrow> produce_all kc topic ds w1))"

definition kafka_send :: "'w kafka_client \<Rightarrow> kafka_publisher \<Rightarrow> 'w kafka_state send" where
  "kafka_send kc kp event_type data st =
     (case ensure_connection kc kp st of
        (st1, Inl e) \<Rightarrow> (st1, Inl e)
      | ((up, w), Inr _) \<Rightarrow> (case produce_all kc (kp_topic kp) data w of (w1, r) \<Rightarrow> ((up, w1), r)))"

text \<open>A broker that fails at the calls that are told; it logs what it took.\<close>

definition demo_kafka :: "(bool list \<times> string list) kafka_client" where
  "demo_kafka =
     \<lparr>kc_connect = (\<lambda>a w. (w, Inr ())),
      kc_produce = (\<lambda>topic s (fails, log).
        (if fails \<noteq> [] \<and> hd fails then ((tl fails, log), Inl TypeError) else ((tl fails, log @ [s]), Inr ()))),
      kc_dumps = (\<lambda>d. Inr (concat (map fst d)))\<rparr>"

text \<open>Every failure is one of delivery, which the policy of the publisher handles.\<close>

lemma kafka_failures:
  assumes "kafka_send kc kp event_type data st = (st1, Inl e)"
  shows "e = DeliveryFailure"
proof -
  have "produce_all kc topic ds w = (w1, Inl e) \<Longrightarrow> e = DeliveryFailure" for topic ds w w1
    by (induction ds arbitrary: w) (auto split: sum.splits prod.splits)
  then show ?thesis
    using assms by (auto simp: kafka_send_def ensure_connection_def split: prod.splits sum.splits if_splits)
qed

text \<open>
  The messages of an item that failed in the middle are sent again with the rest: the first one
  arrives twice.
\<close>

lemma kafka_item_repeated:
  "(let kp = \<lparr>kp_publisher = undefined, kp_host = ''h'', kp_port = 9092, kp_topic = ''ceilometer''\<rparr>
    in process_queue (kafka_send demo_kafka kp) ''default'' 100 [(''sample'', [[(''a'', PNone)], [(''b'', PNone)]])] 0
         (False, [False, True], [])) = ((True, [], [''a'', ''a'', ''b'']), Inr [])"
  by (simp add: kafka_send_def ensure_connection_def demo_kafka_def Let_def)

section \<open>Zaqar\<close>

record zaqar_publisher =
  zp_queue :: string
  zp_ttl :: int

definition zaqar_init :: "split_url \<Rightarrow> zaqar_publisher res" where
  "zaqar_init url =
     (let options = parse_qs (u_query url)
      in case dict_get options ''queue'' of
           Some (q # qs) \<Rightarrow>
             (if q = [] then Inl ValueError
              else bindr (case dict_get options ''ttl'' of Some (t # ts) \<Rightarrow> py_int (PStr t) | _ \<Rightarrow> Inr 3600) (\<lambda>ttl.
                Inr \<lparr>zp_queue = q, zp_ttl = ttl\<rparr>))
         | _ \<Rightarrow> Inl ValueError)"

definition zaqar_messages :: "zaqar_publisher \<Rightarrow> pymap list \<Rightarrow> pyval list" where
  "zaqar_messages zp bodies = map (\<lambda>b. PDict [(''body'', PDict b), (''ttl'', PInt (zp_ttl zp))]) bodies"

definition zaqar_publish_samples :: "(string \<Rightarrow> pyval list \<Rightarrow> 'w \<Rightarrow> 'w \<times> unit res) \<Rightarrow> zaqar_publisher \<Rightarrow> sample list \<Rightarrow> 'w \<Rightarrow> 'w \<times> unit res" where
  "zaqar_publish_samples post zp samples = post (zp_queue zp) (zaqar_messages zp (map as_dict samples))"

definition zaqar_publish_events ::
  "(string \<Rightarrow> pyval list \<Rightarrow> 'w \<Rightarrow> 'w \<times> unit res) \<Rightarrow> (int \<Rightarrow> string) \<Rightarrow> zaqar_publisher \<Rightarrow> event list \<Rightarrow> 'w \<Rightarrow> 'w \<times> unit res" where
  "zaqar_publish_events post isoform zp events = post (zp_queue zp) (zaqar_messages zp (map (serialize_event isoform) events))"

section \<open>In memory\<close>

record ('s, 'e) memory_publisher =
  mem_samples :: "'s list"
  mem_events :: "'e list"
  mem_calls :: nat

definition memory_publish_samples :: "'s list \<Rightarrow> ('s, 'e) memory_publisher \<Rightarrow> ('s, 'e) memory_publisher" where
  "memory_publish_samples xs m = m\<lparr>mem_samples := mem_samples m @ xs, mem_calls := Suc (mem_calls m)\<rparr>"

definition memory_publish_events :: "'e list \<Rightarrow> ('s, 'e) memory_publisher \<Rightarrow> ('s, 'e) memory_publisher" where
  "memory_publish_events xs m = m\<lparr>mem_events := mem_events m @ xs, mem_calls := Suc (mem_calls m)\<rparr>"

end
