(* ===== verification/Spec2Isabelle.thy ===== *)
theory Spec2Isabelle
  imports Publisher_Threads Notification_Service Pipeline_Run Event_Converter Meter_Definition Agent_Polling Api_Complex_Query Csv_Publisher Collector Gnocchi_Publisher Hbase_Query Hbase_Statistics Ipmi_Pollsters Hardware_Generic Opendaylight Opencontrail Network_Services Api_Resources Compute_Discovery Mongo_Admin Api_Pipelines Store_Pollsters Gnocchi_Upgrade Other_Publishers
begin

text \<open>
  A verification development for Ceilometer (\<^verbatim>\<open>src/ceilometer\<close>), the telemetry service of
  OpenStack.

  \<^bold>\<open>The program.\<close> A polling agent asks services and hypervisors for measurements, and a
  notification agent receives the notifications of other services. Both turn what they get
  into samples and events, run them through the pipelines of the configuration (sources that
  select, transformers that compute, sinks that publish) and hand them to publishers: the
  message queue, HTTP, UDP, files, a dispatcher. A collector receives published messages,
  verifies their signatures and stores them; the API answers queries about what is stored.

  \<^bold>\<open>The parts and their theories.\<close>

  \<^item> Python: \<open>Py_Prelude\<close> (exceptions as values of a sum type, dictionaries as association lists
    in insertion order, strings), \<open>Py_Value\<close> (dynamically typed values with their arithmetic,
    comparison and text), \<open>Py_Dynamic\<close> (operations that depend on the run-time type),
    \<open>Url\<close> (what the program uses of \<open>urllib.parse\<close>).
  \<^item> Shared helpers: \<open>Ceil_Utils\<close> for \<^verbatim>\<open>utils.py\<close>, \<open>Sample_Model\<close> for \<^verbatim>\<open>sample.py\<close>, \<open>Signature\<close>
    for the signatures of \<^verbatim>\<open>publisher/utils.py\<close>.
  \<^item> Transformers (\<^verbatim>\<open>transformer/\<close>): \<open>Transformer_Base\<close> with the accumulator and the locale
    \<open>transformer_contract\<close> that pipelines rely on; \<open>Conversions\<close> (delta, scaling, rate of change),
    \<open>Aggregator\<close>, \<open>Arithmetic\<close>. Each interprets the contract.
  \<^item> Pipelines (\<^verbatim>\<open>pipeline.py\<close>): \<open>Pipeline_Config\<close> (sources, filters, with the matcher of names as
    the locale \<open>name_matcher\<close>), \<open>Pipeline_Manager\<close> (sinks, managers, publisher cache, configuration
    files), \<open>Pipeline_Run\<close> (samples and events through sinks), \<open>Pipeline_Transport\<close> (spreading
    pipelines over agents and receiving at the other end).
  \<^item> Notifications: \<open>Declarative\<close> (\<^verbatim>\<open>declarative.py\<close>, \<^verbatim>\<open>event/trait_plugins.py\<close>), \<open>Event_Converter\<close>
    (\<^verbatim>\<open>event/\<close>), \<open>Meter_Definition\<close> (\<^verbatim>\<open>meter/notifications.py\<close>, \<^verbatim>\<open>agent/plugin_base.py\<close>),
    \<open>Notification_Service\<close> (\<^verbatim>\<open>notification.py\<close>).
  \<^item> Polling (\<^verbatim>\<open>agent/\<close>): \<open>Agent_Discovery\<close>, \<open>Agent_Polling\<close>.
  \<^item> Publishers (\<^verbatim>\<open>publisher/\<close>): \<open>Messaging_Publisher\<close>, \<open>Publisher_Threads\<close>, \<open>Csv_Publisher\<close>,
    \<open>Http_Publisher\<close> (HTTP, file, UDP, direct; also \<^verbatim>\<open>dispatcher/http.py\<close>).
  \<^item> Collector: \<open>Collector\<close> (\<^verbatim>\<open>collector.py\<close>, \<^verbatim>\<open>dispatcher/database.py\<close>, \<^verbatim>\<open>dispatcher/file.py\<close>).
  \<^item> API (\<^verbatim>\<open>api/\<close>): \<open>Api_Query\<close> (access rules, simple queries), \<open>Api_Complex_Query\<close>,
    \<open>Api_Meters\<close> (posting samples, statistics, meters), \<open>Api_Resources\<close> (samples and resources),
    \<open>Api_Pipelines\<close> (\<^verbatim>\<open>controllers/v2/pipelines.py\<close>: the settings of CSV publishers).
  \<^item> Gnocchi (\<^verbatim>\<open>publisher/gnocchi.py\<close>): \<open>Gnocchi_Resources\<close> (resource definitions, the
    matching of samples, attributes), \<open>Gnocchi_Publisher\<close> (grouping samples, batches of
    measures, creating and updating resources); \<open>Gnocchi_Upgrade\<close> (\<^verbatim>\<open>gnocchi_client.py\<close>).
  \<^item> Kafka, Zaqar and the publisher in memory: \<open>Other_Publishers\<close>.
  \<^item> HBase storage (\<^verbatim>\<open>storage/impl_hbase.py\<close>, \<^verbatim>\<open>storage/hbase/\<close>): \<open>Hbase_Keys\<close> (row keys and the
    range of a scan), \<open>Hbase_Table\<close> (queries as text, and the in-memory table of
    \<^verbatim>\<open>hbase/inmemory.py\<close> that reads the text back), \<open>Hbase_Store\<close> (serialisation, recording,
    samples, meters, resources), \<open>Hbase_Query\<close> (what has been recorded is what is found),
    \<open>Hbase_Statistics\<close> (statistics by period).
  \<^item> IPMI (\<^verbatim>\<open>ipmi/\<close>): \<open>Ipmi_Tool\<close> (running \<^verbatim>\<open>ipmitool\<close>, listings and fields), \<open>Ipmi_Node_Manager\<close>
    (discovery, commands and decoding), \<open>Ipmi_Pollsters\<close> (the pollsters with the locale
    \<open>retry_policy\<close> for when they are disabled, and the notifications of Ironic).
  \<^item> Hardware (\<^verbatim>\<open>hardware/\<close>): \<open>Hardware_Snmp\<close> (the inspector), \<open>Hardware_Cache\<close> (its cache
    against the table of a device), \<open>Hardware_Generic\<close> (declarative pollsters, discovery).

  \<^item> Services: \<open>Service_Calls\<close> (computations over the world of the services), \<open>Network_Statistics\<close>
    with the drivers \<open>Opendaylight\<close> and \<open>Opencontrail\<close> (\<^verbatim>\<open>network/statistics/\<close>), \<open>Neutron_Client\<close>
    (\<^verbatim>\<open>neutron_client.py\<close>) and \<open>Network_Services\<close> (\<^verbatim>\<open>network/services/\<close>, \<^verbatim>\<open>network/floatingip.py\<close>),
    \<open>Nova_Client\<close>, \<open>Compute_Pollsters\<close> and \<open>Compute_Discovery\<close> (\<^verbatim>\<open>compute/\<close>, \<^verbatim>\<open>nova_client.py\<close>),
    \<open>Store_Pollsters\<close> (\<^verbatim>\<open>objectstore/\<close>, \<^verbatim>\<open>image/\<close>, \<^verbatim>\<open>volume/\<close>, \<^verbatim>\<open>telemetry/\<close>, \<^verbatim>\<open>middleware.py\<close>).
  \<^item> MongoDB storage (\<^verbatim>\<open>storage/impl_mongodb.py\<close>, \<^verbatim>\<open>storage/pymongo_base.py\<close>, \<^verbatim>\<open>storage/mongo/utils.py\<close>):
    \<open>Mongo_Query\<close> (complex filters), \<open>Mongo_Keys\<close> (keys of metadata and simple queries),
    \<open>Mongo_Store\<close> (calls that are repeated, cursors, recording), \<open>Mongo_Read\<close> (samples, meters,
    resources and their map-reduce), \<open>Mongo_Statistics\<close> (aggregation pipelines and results),
    \<open>Mongo_Admin\<close> (connections, indexes, the upgrade).

  \<^bold>\<open>How code becomes definitions.\<close> A class is a record with the attributes the code sets; a
  method that changes its object returns the object, also when it raises (the type \<open>sres\<close>); a
  function that can raise returns \<open>res\<close>, with the exceptions of \<open>pyexc\<close>. The outside (publishers,
  transports, disks, clients) is an explicit state \<open>'w\<close> that is passed along, so the order of
  effects is part of every statement. Where operations interleave, the model is an inductive
  step relation: threads that share a publisher's queue (\<open>Publisher_Threads\<close>), the listeners,
  watchers and shutdown of the notification agent (\<open>Notification_Service\<close>), the collector's UDP
  thread and its shutdown (\<open>Collector\<close>).

  \<^bold>\<open>What is shown.\<close>

  \<^item> The query interface: a query that passes is limited to the requester's project for simple and
    complex queries alike, and the preparation of a complex filter keeps its meaning.
  \<^item> Transformers: deltas telescope, also when only growth is published, rates are exact quotients, the aggregator's average is the
    average, the accumulator and batching keep order and content, arithmetic results appear when
    all operands have been seen, and no transformer invents resources.
  \<^item> Pipelines: managers build consistent pipelines, filters mean what they say, what is published
    comes from what was put in; an event that is signed, sent through a queue of JSON messages and received
    is published as it was sent, with its tuples as lists.
  \<^item> Notifications: the last definition wins, every notification that is not excluded yields an
    event, events are well formed, bit fields select exactly the set bits.
  \<^item> Polling: resources are polled once per cycle and in their order, what the agents of a
    partition discover adds up to what one agent alone would, a cycle always completes.
  \<^item> Publishers and services: the queue policy keeps order and loses nothing; under threads every
    item is accounted for as published, delivered, kept, dropped by the policy or lost in one of
    the ways that are named; measures are posted to Gnocchi whatever the client answers, except
    those of its own project and those the client refuses; listeners are never leaked; a rotation keeps the backups; a refused
    post does not cost the others; the collector shuts down.
  \<^item> Services: networks, load balancers, instances and disks give the samples of what the services
    list; a hypervisor is asked once for each kind of reading and instance, and the samples are
    made from these answers; the discovery of instances has all instances of the host although it
    asks for changes only, and those that left the host until the next full refresh.
  \<^item> Hardware: the cache of SNMP answers gives what the device would, for any table that answers
    bulk requests by subtree.
  \<^item> HBase: a query finds the recorded samples that it asks for; a start that is to be included is
    not in a query with a meter.
  \<^item> MongoDB: the query document of a complex filter selects what the filter means, a condition on
    metadata finds the value stored under its key, the document of a resource sums up its samples
    in whatever batches they come, one pass of the reduce function is exact, the period of a
    result contains the sample it was made from, repeated calls return, and an upgrade ends with
    all indexes.
  \<^item> Changing a pipeline through the API answers with the settings of the request, and an upgrade
    of Gnocchi ends with all resource types.
  \<^item> Failures the code has are theorems too: an average that can never be published, a rotation
    that always raises, a shutdown that hangs, appends that get lost, ambiguous signature input.

  \<^bold>\<open>Recursion and bounds.\<close> Recursion over values is structural or decreases their size.
  \<open>restore_nesting\<close> uses fuel, the number of separators in the keys, and \<open>restore_nesting_terminates\<close>
  proves that this is always enough. \<open>process_queue\<close> decreases the length of the queue plus the
  attempts that are left. The retry of MongoDB calls is a partial function: with a negative number of
  retries it need not end, and \<open>mongo_call_returns\<close> proves that it does otherwise. Loops of services are step relations without a bound.

  \<^bold>\<open>Parameters.\<close> HMAC-SHA256, \<open>repr\<close>, the parsers and printers of ISO times, \<open>eval\<close>, \<open>re.sub\<close>, JSONPath,
  JSON, msgpack, random identifiers, hash rings and the group coordinator, Keystone, the policy
  enforcer, stevedore, requests, sockets, the file system and the database are arguments of the
  definitions. \<open>fnmatch\<close> is a parameter with a model (\<open>glob\<close>) that satisfies its contract.

  \<^bold>\<open>Simplifications.\<close> Floats are exact rationals with infinities and NaN. Configuration values that
  oslo.config checks, and the fields of messages of the own agents, have their types. Dictionaries
  keep insertion order. Iterating over a listing while changing the dictionary is the Python 2
  reading, and \<open>StopIteration\<close> in a generator ends it as before Python 3.7. When several elements
  of one batch raise, the model reports the first in the order of the text, which need not be the
  one the code meets first.

  What databases and services do with a query or a call is stated where a theorem needs it, by a
  predicate \<open>documented_...\<close> over the parameter, with an instance in the theorem's witness.

  \<^bold>\<open>Not modelled.\<close> The SQL back end builds queries whose meaning is SQLAlchemy's and the
  database's. The inspectors of the hypervisors read counters through libraries that are not part
  of the program. Capabilities, the middleware of the API and the command line tools,
  option declarations, Keystone sessions and start-up glue have no state of their own. Logging
  is left out throughout.
\<close>

end
